(* ===== verification/KvsPrelude.thy ===== *)
theory KvsPrelude
  imports Main "HOL-Library.Word" "HOL-Library.Monad_Syntax"
begin

text \<open>
  Shared vocabulary of the development: machine words and C memory, the SDK's
  \<^verbatim>\<open>STATUS\<close> codes, and the functions of the platform-independent core library (PIC)
  that the SDK links against and whose source is not part of the repository.

  \<^item> A C buffer is a list of bytes; the length argument that travels with a pointer is kept
    as a separate number, because several parsers trust it.  Reads and writes go through
    \<open>rd\<close>, \<open>rdn\<close> and \<open>memwrite\<close>, which return \<open>None\<close> when an access leaves the buffer:
    \<open>None\<close> is C's undefined behaviour and is never confused with a \<^verbatim>\<open>STATUS\<close>.
  \<^item> Sizes and offsets of type \<^verbatim>\<open>UINT32\<close> and \<^verbatim>\<open>UINT64\<close> are natural numbers with the
    wrap-around written out (\<open>wrap32\<close>, \<open>sub32\<close>, \<open>wrap64\<close>); sequence numbers,
    timestamps and wire data are machine words.
  \<^item> The byte-order functions of PIC and the byte order of a native load are fields of the
    record \<open>platform\<close>; what the SDK relies on is the locale \<open>network_order\<close>.
\<close>

unbundle bit_operations_syntax

named_theorems status_simps \<open>facts that decide which branch of a STATUS check is taken\<close>
named_theorems mem_simps \<open>facts that evaluate reads and writes of C memory\<close>

subsection \<open>Machine types\<close>

type_synonym byte = "8 word"
type_synonym u16 = "16 word"
type_synonym u32 = "32 word"
type_synonym u64 = "64 word"

abbreviation MAX_UINT16 :: nat where
  "MAX_UINT16 \<equiv> 65535"

abbreviation MAX_UINT32 :: nat where
  "MAX_UINT32 \<equiv> 4294967295"

definition wrap32 :: "nat \<Rightarrow> nat" where
  "wrap32 n = n mod 2 ^ 32"

definition sub32 :: "nat \<Rightarrow> nat \<Rightarrow> nat" where
  "sub32 a b = (a + 2 ^ 32 - b mod 2 ^ 32) mod 2 ^ 32"

definition wrap64 :: "nat \<Rightarrow> nat" where
  "wrap64 n = n mod 2 ^ 64"

definition sub64 :: "nat \<Rightarrow> nat \<Rightarrow> nat" where
  "sub64 a b = (a + 2 ^ 64 - b mod 2 ^ 64) mod 2 ^ 64"

lemma wrap32_id [simp]: "n < 2 ^ 32 \<Longrightarrow> wrap32 n = n"
  by (simp add: wrap32_def)

lemma wrap64_id [simp]: "n < 2 ^ 64 \<Longrightarrow> wrap64 n = n"
  by (simp add: wrap64_def)

lemma wrap32_add: "wrap32 (wrap32 a + b) = wrap32 (a + b)"
  by (simp add: wrap32_def mod_add_left_eq)

lemma wrap32_less [simp]: "wrap32 n < 4294967296"
  by (simp add: wrap32_def)

lemma wrap64_less [simp]: "wrap64 n < 18446744073709551616"
  by (simp add: wrap64_def)

lemma sub32_eq [simp]: "b \<le> a \<Longrightarrow> a < 2 ^ 32 \<Longrightarrow> sub32 a b = a - b"
  by (simp add: sub32_def mod_if)

lemma sub32_underflow: "a < b \<Longrightarrow> b < 2 ^ 32 \<Longrightarrow> sub32 a b = 2 ^ 32 + a - b"
  by (simp add: sub32_def add.commute)

lemma sub64_eq [simp]: "b \<le> a \<Longrightarrow> a < 2 ^ 64 \<Longrightarrow> sub64 a b = a - b"
  by (simp add: sub64_def mod_if)

lemma unat_u16_less: "unat (w :: u16) < 65536"
  using unsigned_less [of w] by simp

lemma unat_byte_less: "unat (w :: byte) < 256"
  using unsigned_less [of w] by simp

lemma unat_u32_less: "unat (w :: u32) < 4294967296"
  using unsigned_less [of w] by simp

subsection \<open>STATUS\<close>

text \<open>
  The codes the modelled functions return (\<^verbatim>\<open>Include.h\<close> of the SDK for the RTP, RTCP,
  STUN and rolling-buffer groups; the generic ones and the hash-table group come from PIC).
\<close>

datatype STATUS =
    STATUS_SUCCESS
  | STATUS_NULL_ARG
  | STATUS_INVALID_ARG
  | STATUS_INVALID_ARG_LEN
  | STATUS_SRTP_NOT_READY_YET
  | STATUS_SEND_DATA_FAILED
  | STATUS_INVALID_OPERATION
  | STATUS_NOT_ENOUGH_MEMORY
  | STATUS_BUFFER_TOO_SMALL
  | STATUS_INTERNAL_ERROR
  | STATUS_NOT_FOUND
  | STATUS_NOT_IMPLEMENTED
  | STATUS_HASH_KEY_NOT_PRESENT
  | STATUS_HASH_KEY_ALREADY_PRESENT
  | STATUS_ROLLING_BUFFER_NOT_IN_RANGE
  | STATUS_RTP_INPUT_PACKET_TOO_SMALL
  | STATUS_RTP_INPUT_MTU_TOO_SMALL
  | STATUS_RTP_INVALID_NALU
  | STATUS_RTP_INVALID_EXTENSION_LEN
  | STATUS_RTCP_INPUT_PACKET_TOO_SMALL
  | STATUS_RTCP_INPUT_PACKET_INVALID_VERSION
  | STATUS_RTCP_INPUT_NACK_LIST_INVALID
  | STATUS_RTCP_INPUT_SSRC_INVALID
  | STATUS_RTCP_INPUT_PARTIAL_PACKET
  | STATUS_RTCP_INPUT_REMB_TOO_SMALL
  | STATUS_RTCP_INPUT_REMB_INVALID
  | STATUS_SRTP_ENCRYPT_FAILED
  | STATUS_SRTP_DECRYPT_FAILED
  | STATUS_SRTP_TRANSMIT_SESSION_CREATION_FAILED
  | STATUS_SRTP_RECEIVE_SESSION_CREATION_FAILED
  | STATUS_SSL_UNKNOWN_SRTP_PROFILE
  | STATUS_SOCKET_CONNECTION_NOT_READY_TO_SEND
  | STATUS_SOCKET_CONNECTION_CLOSED_ALREADY
  | STATUS_STUN_MESSAGE_INTEGRITY_NOT_LAST
  | STATUS_STUN_MESSAGE_INTEGRITY_SIZE_ALIGNMENT
  | STATUS_STUN_FINGERPRINT_NOT_LAST
  | STATUS_STUN_MAGIC_COOKIE_MISMATCH
  | STATUS_STUN_INVALID_ADDRESS_ATTRIBUTE_LENGTH
  | STATUS_STUN_INVALID_USERNAME_ATTRIBUTE_LENGTH
  | STATUS_STUN_INVALID_MESSAGE_INTEGRITY_ATTRIBUTE_LENGTH
  | STATUS_STUN_INVALID_FINGERPRINT_ATTRIBUTE_LENGTH
  | STATUS_STUN_MULTIPLE_MESSAGE_INTEGRITY_ATTRIBUTES
  | STATUS_STUN_MULTIPLE_FINGERPRINT_ATTRIBUTES
  | STATUS_STUN_ATTRIBUTES_AFTER_FINGERPRINT_MESSAGE_INTEGRITY
  | STATUS_STUN_MESSAGE_INTEGRITY_AFTER_FINGERPRINT
  | STATUS_STUN_MAX_ATTRIBUTE_COUNT
  | STATUS_STUN_MESSAGE_INTEGRITY_MISMATCH
  | STATUS_STUN_FINGERPRINT_MISMATCH
  | STATUS_STUN_INVALID_PRIORITY_ATTRIBUTE_LENGTH
  | STATUS_STUN_INVALID_USE_CANDIDATE_ATTRIBUTE_LENGTH
  | STATUS_STUN_INVALID_LIFETIME_ATTRIBUTE_LENGTH
  | STATUS_STUN_INVALID_REQUESTED_TRANSPORT_ATTRIBUTE_LENGTH
  | STATUS_STUN_INVALID_REALM_ATTRIBUTE_LENGTH
  | STATUS_STUN_INVALID_NONCE_ATTRIBUTE_LENGTH
  | STATUS_STUN_INVALID_ERROR_CODE_ATTRIBUTE_LENGTH
  | STATUS_STUN_INVALID_ICE_CONTROL_ATTRIBUTE_LENGTH
  | STATUS_STUN_INVALID_CHANNEL_NUMBER_ATTRIBUTE_LENGTH
  | STATUS_STUN_INVALID_CHANGE_REQUEST_ATTRIBUTE_LENGTH
  | STATUS_ICE_URL_INVALID_PREFIX
  | STATUS_ICE_URL_TURN_MISSING_USERNAME
  | STATUS_ICE_URL_TURN_MISSING_CREDENTIAL
  | STATUS_ICE_NO_CONNECTED_CANDIDATE_PAIR
  | STATUS_ICE_CANDIDATE_PAIR_LIST_EMPTY
  | STATUS_ICE_FAILED_TO_NOMINATE_CANDIDATE_PAIR
  | STATUS_ICE_INVALID_STATE
  | STATUS_ICE_NO_NOMINATED_VALID_CANDIDATE_PAIR_AVAILABLE
  | STATUS_ICE_FAILED_TO_RECOVER_FROM_DISCONNECTION
  | STATUS_TURN_CONNECTION_STATE_TRANSITION_TIMEOUT
  | STATUS_TURN_CONNECTION_FAILED_TO_CREATE_PERMISSION
  | STATUS_TURN_CONNECTION_FAILED_TO_BIND_CHANNEL
  | STATUS_TURN_CONNECTION_ALLOCATION_FAILED
  | STATUS_TURN_CONNECTION_GET_CREDENTIALS_FAILED
  | STATUS_TURN_CONNECTION_PEER_NOT_USABLE
  | STATUS_TURN_INVALID_STATE
  | STATUS_OTHER nat

abbreviation STATUS_FAILED :: "STATUS \<Rightarrow> bool" where
  "STATUS_FAILED s \<equiv> s \<noteq> STATUS_SUCCESS"

abbreviation STATUS_SUCCEEDED :: "STATUS \<Rightarrow> bool" where
  "STATUS_SUCCEEDED s \<equiv> s = STATUS_SUCCESS"

subsection \<open>C memory\<close>

definition rd :: "'a list \<Rightarrow> nat \<Rightarrow> 'a option" where
  "rd mem i = (if i < length mem then Some (mem ! i) else None)"

definition rdn :: "'a list \<Rightarrow> nat \<Rightarrow> nat \<Rightarrow> 'a list option" where
  "rdn mem i n = (if n = 0 then Some [] else if i + n \<le> length mem then Some (take n (drop i mem)) else None)"

definition memwrite :: "'a list \<Rightarrow> nat \<Rightarrow> 'a list \<Rightarrow> 'a list option" where
  "memwrite mem i bs =
     (if bs = [] then Some mem
      else if i + length bs \<le> length mem then Some (take i mem @ bs @ drop (i + length bs) mem)
      else None)"

lemma rd_in [mem_simps]: "i < length mem \<Longrightarrow> rd mem i = Some (mem ! i)"
  by (simp add: rd_def)

lemma rd_SomeD: "rd mem i = Some b \<Longrightarrow> i < length mem \<and> b = mem ! i"
  by (auto simp: rd_def split: if_splits)

lemma rdn_in [mem_simps]: "i + n \<le> length mem \<Longrightarrow> rdn mem i n = Some (take n (drop i mem))"
  by (simp add: rdn_def)

lemma rdn_length: "rdn mem i n = Some bs \<Longrightarrow> length bs = n"
  by (auto simp: rdn_def split: if_splits)

lemma memwrite_in [mem_simps]:
  "i + length bs \<le> length mem \<Longrightarrow> memwrite mem i bs = Some (take i mem @ bs @ drop (i + length bs) mem)"
  by (auto simp: memwrite_def)

lemma memwrite_length: "memwrite mem i bs = Some mem' \<Longrightarrow> length mem' = length mem"
  by (auto simp: memwrite_def split: if_splits)

definition memcpy :: "'a list \<Rightarrow> nat \<Rightarrow> 'a list \<Rightarrow> nat \<Rightarrow> nat \<Rightarrow> 'a list option" where
  "memcpy dst di src si n = do { bs \<leftarrow> rdn src si n; memwrite dst di bs }"

text \<open>Memory after a write that fits; consecutive writes join.\<close>

definition patch :: "'a list \<Rightarrow> nat \<Rightarrow> 'a list \<Rightarrow> 'a list" where
  "patch mem i bs = take i mem @ bs @ drop (i + length bs) mem"

lemma memwrite_patch: "i + length bs \<le> length mem \<Longrightarrow> memwrite mem i bs = Some (patch mem i bs)"
  by (simp add: memwrite_in patch_def)

lemma memcpy_patch:
  "si + n \<le> length src \<Longrightarrow> di + n \<le> length dst \<Longrightarrow> memcpy dst di src si n = Some (patch dst di (take n (drop si src)))"
  by (simp add: memcpy_def rdn_in memwrite_patch)

lemma length_patch [simp]: "i + length bs \<le> length mem \<Longrightarrow> length (patch mem i bs) = length mem"
  by (simp add: patch_def)

lemma patch_Nil [simp]: "patch mem i [] = mem"
  by (simp add: patch_def)

lemma patch_0: "patch mem 0 bs = bs @ drop (length bs) mem"
  by (simp add: patch_def)

lemma patch_patch:
  assumes "i + length bs + length cs \<le> length mem" "j = i + length bs"
  shows "patch (patch mem i bs) j cs = patch mem i (bs @ cs)"
proof -
  have "take j (patch mem i bs) = take i mem @ bs" "drop (j + length cs) (patch mem i bs) = drop (j + length cs) mem"
    using assms by (simp_all add: patch_def add.commute)
  then show ?thesis using assms(2) by (simp add: patch_def [of "patch mem i bs"]) (simp add: patch_def add.assoc)
qed

lemma patch_before:
  assumes "i + length bs + length cs \<le> length mem" "j = i + length bs"
  shows "patch (patch mem j cs) i bs = patch mem i (bs @ cs)"
proof -
  have "take i (patch mem j cs) = take i mem" "drop (i + length bs) (patch mem j cs) = cs @ drop (j + length cs) mem"
    using assms by (simp_all add: patch_def)
  then show ?thesis using assms(2) by (simp add: patch_def [of "patch mem j cs"]) (simp add: patch_def add.assoc)
qed

lemma find_upt_first:
  assumes "a \<le> k" "k < b" "Q k" "\<And>j. a \<le> j \<Longrightarrow> j < k \<Longrightarrow> \<not> Q j"
  shows "find Q [a..<b] = Some k"
  using assms by (auto simp: find_Some_iff intro!: exI [of _ "k - a"])

lemma find_upt_None: "(\<And>j. a \<le> j \<Longrightarrow> j < b \<Longrightarrow> \<not> Q j) \<Longrightarrow> find Q [a..<b] = None"
  by (auto simp: find_None_iff)

lemma drop_prefix: "n = length xs \<Longrightarrow> drop n (xs @ ys) = ys"
  by simp

lemma take_prefix: "n = length xs \<Longrightarrow> take n (xs @ ys) = xs"
  by simp

subsection \<open>Big-endian byte sequences\<close>

definition be16 :: "byte \<Rightarrow> byte \<Rightarrow> u16" where
  "be16 a b = push_bit 8 (ucast a) OR ucast b"

definition be32 :: "byte \<Rightarrow> byte \<Rightarrow> byte \<Rightarrow> byte \<Rightarrow> u32" where
  "be32 a b c d =
     push_bit 24 (ucast a) OR push_bit 16 (ucast b) OR push_bit 8 (ucast c) OR ucast d"

definition bytes16 :: "u16 \<Rightarrow> byte list" where
  "bytes16 w = [ucast (drop_bit 8 w), ucast w]"

definition bytes32 :: "u32 \<Rightarrow> byte list" where
  "bytes32 w = [ucast (drop_bit 24 w), ucast (drop_bit 16 w), ucast (drop_bit 8 w), ucast w]"

lemma length_bytes16 [simp]: "length (bytes16 w) = 2"
  by (simp add: bytes16_def)

lemma length_bytes32 [simp]: "length (bytes32 w) = 4"
  by (simp add: bytes32_def)

lemma be16_bytes [simp]: "be16 (ucast (drop_bit 8 w)) (ucast w) = w"
  unfolding be16_def by (rule bit_word_eqI) (auto simp: bit_simps)

lemma be32_bytes [simp]:
  "be32 (ucast (drop_bit 24 w)) (ucast (drop_bit 16 w)) (ucast (drop_bit 8 w)) (ucast w) = w"
proof (rule bit_word_eqI)
  fix n assume "n < LENGTH(32)"
  then consider "n < 8" | "8 \<le> n" "n < 16" | "16 \<le> n" "n < 24" | "24 \<le> n" "n < 32"
    by fastforce
  then show "bit (be32 (ucast (drop_bit 24 w)) (ucast (drop_bit 16 w)) (ucast (drop_bit 8 w)) (ucast w)) n = bit w n"
    by cases (auto simp: be32_def bit_simps)
qed

lemma bit_byte_high [simp]: "8 \<le> n \<Longrightarrow> \<not> bit (b :: byte) n"
  using bit_imp_le_length [of b n] by auto

lemma bit_below: "(w :: 'a::len word) < 2 ^ k \<Longrightarrow> k \<le> n \<Longrightarrow> \<not> bit w n"
  using less_mask_eq [of w k] by (metis bit_and_iff bit_mask_iff linorder_not_less)

lemma byte_eqI:
  fixes a b :: byte
  assumes "bit a 0 = bit b 0" "bit a 1 = bit b 1" "bit a 2 = bit b 2" "bit a 3 = bit b 3"
    "bit a 4 = bit b 4" "bit a 5 = bit b 5" "bit a 6 = bit b 6" "bit a 7 = bit b 7"
  shows "a = b"
proof (rule bit_word_eqI)
  fix n assume "n < LENGTH(8)"
  then have "n \<in> {0, 1, 2, 3, 4, 5, 6, 7}" by auto
  with assms show "bit a n = bit b n" by auto
qed

lemma byte_and_ff: "b AND 0xff = (b :: byte)"
  by (rule byte_eqI) (simp_all add: bit_simps)

lemma ucast_be16 [simp]:
  "ucast (drop_bit 8 (be16 a b)) = a"
  "ucast (be16 a b) = b"
  unfolding be16_def
  by (auto intro!: bit_word_eqI simp: bit_simps)

lemma ucast_be32 [simp]:
  "ucast (drop_bit 24 (be32 a b c d)) = a"
  "ucast (drop_bit 16 (be32 a b c d)) = b"
  "ucast (drop_bit 8 (be32 a b c d)) = c"
  "ucast (be32 a b c d) = d"
  unfolding be32_def
  by (auto intro!: bit_word_eqI simp: bit_simps)

lemma bytes16_be16 [simp]: "bytes16 (be16 a b) = [a, b]"
  by (simp add: bytes16_def)

lemma bytes32_be32 [simp]: "bytes32 (be32 a b c d) = [a, b, c, d]"
  by (simp add: bytes32_def)

subsection \<open>The platform: PIC functions and the host\<close>

text \<open>
  \<open>ld16\<close> and \<open>ld32\<close> are the native loads \<^verbatim>\<open>*(PUINT16) p\<close> and \<^verbatim>\<open>*(PUINT32) p\<close> of the
  host; \<open>memalloc n\<close> says whether \<^verbatim>\<open>MEMALLOC(n)\<close> returns memory.  The other fields carry
  the names of the PIC functions.
\<close>

record platform =
  ld16 :: "byte \<Rightarrow> byte \<Rightarrow> u16"
  ld32 :: "byte \<Rightarrow> byte \<Rightarrow> byte \<Rightarrow> byte \<Rightarrow> u32"
  getInt16 :: "u16 \<Rightarrow> u16"
  getInt32 :: "u32 \<Rightarrow> u32"
  getUnalignedInt16BigEndian :: "byte \<Rightarrow> byte \<Rightarrow> u16"
  getUnalignedInt32BigEndian :: "byte \<Rightarrow> byte \<Rightarrow> byte \<Rightarrow> byte \<Rightarrow> u32"
  putUnalignedInt16BigEndian :: "u16 \<Rightarrow> byte list"
  putUnalignedInt32BigEndian :: "u32 \<Rightarrow> byte list"
  memalloc :: "nat \<Rightarrow> bool"

definition rdInt16 :: "platform \<Rightarrow> byte list \<Rightarrow> nat \<Rightarrow> u16 option" where
  "rdInt16 P mem i =
     (if i + 2 \<le> length mem then Some (getInt16 P (ld16 P (mem ! i) (mem ! (i + 1)))) else None)"

definition rdNative32 :: "platform \<Rightarrow> byte list \<Rightarrow> nat \<Rightarrow> u32 option" where
  "rdNative32 P mem i =
     (if i + 4 \<le> length mem
      then Some (ld32 P (mem ! i) (mem ! (i + 1)) (mem ! (i + 2)) (mem ! (i + 3))) else None)"

definition rdInt32 :: "platform \<Rightarrow> byte list \<Rightarrow> nat \<Rightarrow> u32 option" where
  "rdInt32 P mem i = map_option (getInt32 P) (rdNative32 P mem i)"

definition rdUnalignedInt16 :: "platform \<Rightarrow> byte list \<Rightarrow> nat \<Rightarrow> u16 option" where
  "rdUnalignedInt16 P mem i =
     (if i + 2 \<le> length mem then Some (getUnalignedInt16BigEndian P (mem ! i) (mem ! (i + 1))) else None)"

definition rdUnalignedInt32 :: "platform \<Rightarrow> byte list \<Rightarrow> nat \<Rightarrow> u32 option" where
  "rdUnalignedInt32 P mem i =
     (if i + 4 \<le> length mem
      then Some (getUnalignedInt32BigEndian P (mem ! i) (mem ! (i + 1)) (mem ! (i + 2)) (mem ! (i + 3)))
      else None)"

text \<open>
  What the SDK relies on: PIC's readers and writers convert between host values and
  network byte order, whatever the byte order of the host is.
\<close>

locale network_order =
  fixes P :: platform
  assumes getInt16_load: "getInt16 P (ld16 P a b) = be16 a b"
    and getInt32_load: "getInt32 P (ld32 P a b c d) = be32 a b c d"
    and getUnaligned16: "getUnalignedInt16BigEndian P a b = be16 a b"
    and getUnaligned32: "getUnalignedInt32BigEndian P a b c d = be32 a b c d"
    and putUnaligned16: "putUnalignedInt16BigEndian P w = bytes16 w"
    and putUnaligned32: "putUnalignedInt32BigEndian P v = bytes32 v"
begin

lemmas order_simps = getInt16_load getInt32_load getUnaligned16 getUnaligned32 putUnaligned16 putUnaligned32

lemma rdInt16_eq:
  "rdInt16 P mem i = (if i + 2 \<le> length mem then Some (be16 (mem ! i) (mem ! (i + 1))) else None)"
  by (simp add: rdInt16_def order_simps)

lemma rdInt32_eq:
  "rdInt32 P mem i =
     (if i + 4 \<le> length mem
      then Some (be32 (mem ! i) (mem ! (i + 1)) (mem ! (i + 2)) (mem ! (i + 3))) else None)"
  by (simp add: rdInt32_def rdNative32_def order_simps)

lemma rdUnalignedInt16_eq: "rdUnalignedInt16 P mem i = rdInt16 P mem i"
  by (simp add: rdUnalignedInt16_def rdInt16_def order_simps)

lemma rdUnalignedInt32_eq: "rdUnalignedInt32 P mem i = rdInt32 P mem i"
  by (simp add: rdUnalignedInt32_def rdInt32_def rdNative32_def order_simps)

lemma rdInt16_put:
  "rdInt16 P (pre @ putUnalignedInt16BigEndian P w @ post) (length pre) = Some w"
  by (simp add: rdInt16_eq order_simps bytes16_def nth_append)

lemma rdInt32_put:
  "rdInt32 P (pre @ putUnalignedInt32BigEndian P w @ post) (length pre) = Some w"
  by (simp add: rdInt32_eq order_simps bytes32_def nth_append)

end

text \<open>The two hosts the SDK runs on: little-endian (PIC swaps) and big-endian (PIC does not).\<close>

definition bswap16 :: "u16 \<Rightarrow> u16" where
  "bswap16 w = be16 (ucast w) (ucast (drop_bit 8 w))"

definition bswap32 :: "u32 \<Rightarrow> u32" where
  "bswap32 w = be32 (ucast w) (ucast (drop_bit 8 w)) (ucast (drop_bit 16 w)) (ucast (drop_bit 24 w))"

definition little_endian_host :: platform where
  "little_endian_host =
     \<lparr>ld16 = (\<lambda>a b. be16 b a), ld32 = (\<lambda>a b c d. be32 d c b a),
      getInt16 = bswap16, getInt32 = bswap32,
      getUnalignedInt16BigEndian = be16, getUnalignedInt32BigEndian = be32,
      putUnalignedInt16BigEndian = bytes16, putUnalignedInt32BigEndian = bytes32,
      memalloc = (\<lambda>_. True)\<rparr>"

definition big_endian_host :: platform where
  "big_endian_host =
     \<lparr>ld16 = be16, ld32 = be32, getInt16 = (\<lambda>w. w), getInt32 = (\<lambda>w. w),
      getUnalignedInt16BigEndian = be16, getUnalignedInt32BigEndian = be32,
      putUnalignedInt16BigEndian = bytes16, putUnalignedInt32BigEndian = bytes32,
      memalloc = (\<lambda>_. True)\<rparr>"

lemma bswap16_be16: "bswap16 (be16 a b) = be16 b a"
  by (simp add: bswap16_def)

lemma bswap32_be32: "bswap32 (be32 a b c d) = be32 d c b a"
  by (simp add: bswap32_def)

interpretation le_host: network_order little_endian_host
  by unfold_locales (simp_all add: little_endian_host_def bswap16_be16 bswap32_be32)

interpretation be_host: network_order big_endian_host
  by unfold_locales (simp_all add: big_endian_host_def)

end
