(* ===== verification/RollingBuffer.thy ===== *)
theory RollingBuffer
  imports KvsPrelude
begin

text \<open>
  \<^verbatim>\<open>src/source/Rtcp/RollingBuffer.c\<close>: the ring of pointers that keeps the most recently
  sent packets.  A slot holds \<open>None\<close> for \<^verbatim>\<open>NULL\<close>.  The free callback is a function from the
  slot's content to its status and the content it leaves behind; every operation returns,
  beside its results, the slot contents it handed to the callback, so that ownership can
  be stated.  Indices are \<^verbatim>\<open>UINT64\<close> counters that only grow.

  The abstract view is a sliding window (\<open>window\<close>, from \<open>tailIndex\<close> to \<open>headIndex\<close>);
  the locale \<open>sliding_window\<close> is the contract the RTP rolling buffer and the
  retransmitter rely on, interpreted at the end on the operations of this file.
\<close>

subsection \<open>State and operations\<close>

record 'a RollingBuffer =
  capacity :: nat
  headIndex :: nat
  tailIndex :: nat
  dataBuffer :: "'a option list"
  freeDataFn :: "('a option \<Rightarrow> STATUS \<times> 'a option) option"

definition ROLLING_BUFFER_MAP_INDEX :: "'a RollingBuffer \<Rightarrow> nat \<Rightarrow> nat" where
  "ROLLING_BUFFER_MAP_INDEX rb index = index mod capacity rb"

definition SIZEOF_RollingBuffer :: nat where
  "SIZEOF_RollingBuffer = 48"

definition createRollingBuffer ::
  "platform \<Rightarrow> nat \<Rightarrow> ('a option \<Rightarrow> STATUS \<times> 'a option) option \<Rightarrow> STATUS \<times> 'a RollingBuffer option" where
  "createRollingBuffer P cap freeFn =
     (if cap = 0 then (STATUS_INVALID_ARG, None)
      else if \<not> memalloc P (SIZEOF_RollingBuffer + 8 * cap) then (STATUS_NOT_ENOUGH_MEMORY, None)
      else (STATUS_SUCCESS,
            Some \<lparr>capacity = cap, headIndex = 0, tailIndex = 0,
                  dataBuffer = replicate cap None, freeDataFn = freeFn\<rparr>))"

definition rb_slot :: "'a RollingBuffer \<Rightarrow> nat \<Rightarrow> 'a option" where
  "rb_slot rb index = dataBuffer rb ! ROLLING_BUFFER_MAP_INDEX rb index"

definition rb_store :: "'a RollingBuffer \<Rightarrow> nat \<Rightarrow> 'a option \<Rightarrow> 'a RollingBuffer" where
  "rb_store rb index d = rb\<lparr>dataBuffer := (dataBuffer rb)[ROLLING_BUFFER_MAP_INDEX rb index := d]\<rparr>"

text \<open>The drain loop of \<^verbatim>\<open>freeRollingBuffer\<close>: the callback's status is ignored there.\<close>

function freeRollingBuffer_loop :: "'a RollingBuffer \<Rightarrow> 'a option list \<Rightarrow> 'a RollingBuffer \<times> 'a option list" where
  "freeRollingBuffer_loop rb freed =
     (if tailIndex rb < headIndex rb then
        (case freeDataFn rb of
           None \<Rightarrow> freeRollingBuffer_loop (rb\<lparr>tailIndex := tailIndex rb + 1\<rparr>) freed
         | Some f \<Rightarrow>
             freeRollingBuffer_loop
               ((rb_store rb (tailIndex rb) None)\<lparr>tailIndex := tailIndex rb + 1\<rparr>)
               (freed @ [rb_slot rb (tailIndex rb)]))
      else (rb, freed))"
  by pat_completeness auto
termination
  by (relation "measure (\<lambda>(rb, _). headIndex rb - tailIndex rb)") (auto simp: rb_store_def)

declare freeRollingBuffer_loop.simps [simp del]

definition freeRollingBuffer :: "'a RollingBuffer option \<Rightarrow> STATUS \<times> 'a RollingBuffer option \<times> 'a option list" where
  "freeRollingBuffer prb =
     (case prb of
        None \<Rightarrow> (STATUS_SUCCESS, None, [])
      | Some rb \<Rightarrow> (STATUS_SUCCESS, None, snd (freeRollingBuffer_loop rb [])))"

text \<open>The eviction step of \<^verbatim>\<open>rollingBufferAppendData\<close> on a full buffer.\<close>

definition rb_evict :: "'a RollingBuffer \<Rightarrow> STATUS \<times> 'a RollingBuffer \<times> 'a option list" where
  "rb_evict rb =
     (case freeDataFn rb of
        None \<Rightarrow> (STATUS_SUCCESS, rb\<lparr>tailIndex := wrap64 (tailIndex rb + 1)\<rparr>, [])
      | Some f \<Rightarrow>
          (let old = rb_slot rb (tailIndex rb); (st, left) = f old; rb1 = rb_store rb (tailIndex rb) left
           in if STATUS_FAILED st then (st, rb1, [old])
              else (STATUS_SUCCESS, rb1\<lparr>tailIndex := wrap64 (tailIndex rb + 1)\<rparr>, [old])))"

definition rollingBufferAppendData ::
  "'a RollingBuffer option \<Rightarrow> 'a option \<Rightarrow> STATUS \<times> 'a RollingBuffer option \<times> nat option \<times> 'a option list" where
  "rollingBufferAppendData prb data =
     (case prb of
        None \<Rightarrow> (STATUS_NULL_ARG, None, None, [])
      | Some rb \<Rightarrow>
          if headIndex rb = tailIndex rb then
            (let rb' = (rb_store rb (tailIndex rb) data)\<lparr>headIndex := wrap64 (tailIndex rb + 1)\<rparr>
             in (STATUS_SUCCESS, Some rb', Some (sub64 (headIndex rb') 1), []))
          else
            (let (st, rb1, freed) =
                   (if headIndex rb = wrap64 (tailIndex rb + capacity rb) then rb_evict rb
                    else (STATUS_SUCCESS, rb, []))
             in if STATUS_FAILED st then (st, Some rb1, None, freed)
                else (let rb' = (rb_store rb1 (headIndex rb1) data)\<lparr>headIndex := wrap64 (headIndex rb1 + 1)\<rparr>
                      in (STATUS_SUCCESS, Some rb', Some (sub64 (headIndex rb') 1), freed))))"

definition rollingBufferInsertData ::
  "'a RollingBuffer option \<Rightarrow> nat \<Rightarrow> 'a option \<Rightarrow> STATUS \<times> 'a RollingBuffer option \<times> 'a option list" where
  "rollingBufferInsertData prb index data =
     (case prb of
        None \<Rightarrow> (STATUS_NULL_ARG, None, [])
      | Some rb \<Rightarrow>
          if \<not> (index < headIndex rb \<and> tailIndex rb \<le> index)
          then (STATUS_ROLLING_BUFFER_NOT_IN_RANGE, Some rb, [])
          else (let old = rb_slot rb index;
                    freed = (if old \<noteq> None \<and> freeDataFn rb \<noteq> None then [old] else [])
                in (STATUS_SUCCESS, Some (rb_store rb index data), freed)))"

definition rollingBufferExtractData ::
  "'a RollingBuffer option \<Rightarrow> nat \<Rightarrow> STATUS \<times> 'a RollingBuffer option \<times> 'a option" where
  "rollingBufferExtractData prb index =
     (case prb of
        None \<Rightarrow> (STATUS_NULL_ARG, None, None)
      | Some rb \<Rightarrow>
          if index < headIndex rb \<and> tailIndex rb \<le> index then
            (let d = rb_slot rb index
             in (STATUS_SUCCESS, Some (if d \<noteq> None then rb_store rb index None else rb), d))
          else (STATUS_SUCCESS, Some rb, None))"

definition rollingBufferGetSize :: "'a RollingBuffer option \<Rightarrow> STATUS \<times> nat" where
  "rollingBufferGetSize prb =
     (case prb of
        None \<Rightarrow> (STATUS_NULL_ARG, 0)
      | Some rb \<Rightarrow> (STATUS_SUCCESS, wrap32 (sub64 (headIndex rb) (tailIndex rb))))"

definition rollingBufferIsEmpty :: "'a RollingBuffer option \<Rightarrow> STATUS \<times> bool" where
  "rollingBufferIsEmpty prb =
     (case prb of
        None \<Rightarrow> (STATUS_NULL_ARG, False)
      | Some rb \<Rightarrow> (STATUS_SUCCESS, headIndex rb = tailIndex rb))"

subsection \<open>Invariant and abstract view\<close>

definition rb_inv :: "'a RollingBuffer \<Rightarrow> bool" where
  "rb_inv rb \<longleftrightarrow>
     0 < capacity rb \<and> capacity rb < 2 ^ 32 \<and> length (dataBuffer rb) = capacity rb \<and>
     tailIndex rb \<le> headIndex rb \<and> headIndex rb \<le> tailIndex rb + capacity rb \<and>
     headIndex rb < 2 ^ 64"

text \<open>The free callback accepts every slot, as \<^verbatim>\<open>freeRtpRollingBufferData\<close> does.\<close>

definition frees_all :: "'a RollingBuffer \<Rightarrow> bool" where
  "frees_all rb \<longleftrightarrow> (case freeDataFn rb of None \<Rightarrow> True | Some f \<Rightarrow> \<forall>d. fst (f d) = STATUS_SUCCESS)"

definition window :: "'a RollingBuffer \<Rightarrow> 'a option list" where
  "window rb = map (rb_slot rb) [tailIndex rb..<headIndex rb]"

lemma rb_inv_size: "rb_inv rb \<Longrightarrow> headIndex rb - tailIndex rb \<le> capacity rb \<and> headIndex rb - tailIndex rb < 2 ^ 32"
  by (auto simp: rb_inv_def)

lemmas rb_defs = rb_slot_def rb_store_def ROLLING_BUFFER_MAP_INDEX_def

lemma mod_window_distinct:
  fixes i j c :: nat
  assumes "i < j" "j < i + c"
  shows "i mod c \<noteq> j mod c"
proof
  assume "i mod c = j mod c"
  then have "c dvd j - i" using assms(1) by (metis less_imp_le mod_eq_dvd_iff_nat)
  then show False using assms by (auto dest: dvd_imp_le)
qed

lemma rb_store_fields [simp]:
  "capacity (rb_store rb i d) = capacity rb"
  "headIndex (rb_store rb i d) = headIndex rb"
  "tailIndex (rb_store rb i d) = tailIndex rb"
  "freeDataFn (rb_store rb i d) = freeDataFn rb"
  "length (dataBuffer (rb_store rb i d)) = length (dataBuffer rb)"
  by (simp_all add: rb_store_def)

lemma rb_slot_indices [simp]:
  "rb_slot (rb\<lparr>headIndex := h\<rparr>) i = rb_slot rb i"
  "rb_slot (rb\<lparr>tailIndex := h\<rparr>) i = rb_slot rb i"
  "rb_store (rb\<lparr>headIndex := h\<rparr>) i d = (rb_store rb i d)\<lparr>headIndex := h\<rparr>"
  "rb_store (rb\<lparr>tailIndex := h\<rparr>) i d = (rb_store rb i d)\<lparr>tailIndex := h\<rparr>"
  by (simp_all add: rb_defs)

lemma rb_slot_store_same:
  "0 < capacity rb \<Longrightarrow> length (dataBuffer rb) = capacity rb \<Longrightarrow> rb_slot (rb_store rb i d) i = d"
  by (simp add: rb_defs)

lemma rb_slot_store_other:
  "i < j \<and> j < i + capacity rb \<or> j < i \<and> i < j + capacity rb \<Longrightarrow>
   rb_slot (rb_store rb i d) j = rb_slot rb j"
  using mod_window_distinct [of i j "capacity rb"] mod_window_distinct [of j i "capacity rb"]
  by (auto simp: rb_defs)

lemma length_window [simp]: "length (window rb) = headIndex rb - tailIndex rb"
  by (simp add: window_def)

lemma nth_window: "i < headIndex rb - tailIndex rb \<Longrightarrow> window rb ! i = rb_slot rb (tailIndex rb + i)"
  by (simp add: window_def)

lemma window_push:
  assumes inv: "rb_inv rb" and room: "headIndex rb < tailIndex rb + capacity rb"
  shows "window ((rb_store rb (headIndex rb) d)\<lparr>headIndex := headIndex rb + 1\<rparr>) = window rb @ [d]"
proof -
  have keep: "rb_slot (rb_store rb (headIndex rb) d) i = rb_slot rb i"
    if "i \<in> set [tailIndex rb..<headIndex rb]" for i
    using that room by (intro rb_slot_store_other) auto
  show ?thesis
    using inv keep by (simp add: window_def rb_inv_def rb_slot_store_same cong: map_cong)
qed

lemma window_drop:
  assumes "tailIndex rb < headIndex rb"
  shows "window (rb\<lparr>tailIndex := tailIndex rb + 1\<rparr>) = tl (window rb)"
  using assms by (simp add: window_def map_tl [symmetric] upt_conv_Cons)

lemma window_drop_store:
  assumes "rb_inv rb" "tailIndex rb < headIndex rb"
  shows "window ((rb_store rb (tailIndex rb) d)\<lparr>tailIndex := tailIndex rb + 1\<rparr>) = tl (window rb)"
proof -
  have keep: "rb_slot (rb_store rb (tailIndex rb) d) i = rb_slot rb i"
    if "i \<in> set [Suc (tailIndex rb)..<headIndex rb]" for i
    using that assms by (intro rb_slot_store_other) (auto simp: rb_inv_def)
  have "window ((rb_store rb (tailIndex rb) d)\<lparr>tailIndex := tailIndex rb + 1\<rparr>) =
        map (rb_slot rb) [Suc (tailIndex rb)..<headIndex rb]"
    using keep by (simp add: window_def cong: map_cong)
  also have "\<dots> = tl (window rb)"
    using assms(2) by (simp add: window_def upt_conv_Cons)
  finally show ?thesis .
qed

lemma window_store:
  assumes inv: "rb_inv rb" and i: "tailIndex rb \<le> i" "i < headIndex rb"
  shows "window (rb_store rb i d) = (window rb)[i - tailIndex rb := d]"
proof (rule nth_equalityI)
  fix k assume "k < length (window (rb_store rb i d))"
  then have k: "k < headIndex rb - tailIndex rb" by simp
  show "window (rb_store rb i d) ! k = (window rb)[i - tailIndex rb := d] ! k"
  proof (cases "k = i - tailIndex rb")
    case True
    then show ?thesis using inv i k by (simp add: nth_window rb_slot_store_same rb_inv_def)
  next
    case False
    then have "rb_slot (rb_store rb i d) (tailIndex rb + k) = rb_slot rb (tailIndex rb + k)"
      using inv i k by (intro rb_slot_store_other) (auto simp: rb_inv_def)
    then show ?thesis using False i k by (simp add: nth_window)
  qed
qed simp

subsection \<open>Behaviour of each operation\<close>

lemma createRollingBuffer_ok:
  "createRollingBuffer P cap f = (STATUS_SUCCESS, Some rb) \<Longrightarrow> cap < 2 ^ 32 \<Longrightarrow>
   rb_inv rb \<and> window rb = [] \<and> capacity rb = cap \<and> tailIndex rb = 0 \<and> headIndex rb = 0 \<and> freeDataFn rb = f"
  by (auto simp: createRollingBuffer_def rb_inv_def window_def split: if_splits)

text \<open>The buffer after a successful append, as a function of the state.\<close>

definition rb_append :: "'a RollingBuffer \<Rightarrow> 'a option \<Rightarrow> 'a RollingBuffer" where
  "rb_append rb d = the (fst (snd (rollingBufferAppendData (Some rb) d)))"

lemma rb_evict_ok:
  assumes inv: "rb_inv rb" and ok: "frees_all rb" and full: "headIndex rb = tailIndex rb + capacity rb"
  obtains rb1 where
    "rb_evict rb = (STATUS_SUCCESS, rb1, (if freeDataFn rb = None then [] else [hd (window rb)]))"
    "rb_inv rb1" "frees_all rb1" "window rb1 = tl (window rb)" "tailIndex rb1 = tailIndex rb + 1"
    "headIndex rb1 = headIndex rb" "capacity rb1 = capacity rb" "freeDataFn rb1 = freeDataFn rb"
proof -
  have ne: "tailIndex rb < headIndex rb" and sml: "wrap64 (tailIndex rb + 1) = tailIndex rb + 1"
    using inv full by (auto simp: rb_inv_def intro!: wrap64_id)
  have hd: "hd (window rb) = rb_slot rb (tailIndex rb)"
    using ne by (simp add: window_def hd_map)
  have inv1: "rb_inv (rb'\<lparr>tailIndex := tailIndex rb + 1\<rparr>)"
    if "capacity rb' = capacity rb" "headIndex rb' = headIndex rb"
      "length (dataBuffer rb') = length (dataBuffer rb)" for rb' :: "'a RollingBuffer"
    using inv ne that by (simp add: rb_inv_def)
  show thesis
  proof (cases "freeDataFn rb")
    case None
    then have "rb_evict rb = (STATUS_SUCCESS, rb\<lparr>tailIndex := tailIndex rb + 1\<rparr>, [])"
      by (simp add: rb_evict_def sml [simplified])
    then have ev: "rb_evict rb = (STATUS_SUCCESS, rb\<lparr>tailIndex := tailIndex rb + 1\<rparr>,
        (if freeDataFn rb = None then [] else [hd (window rb)]))"
      using None by simp
    show thesis
      by (rule that [OF ev _ _ window_drop [OF ne]])
         (use inv1 [of rb] None in \<open>simp_all add: frees_all_def\<close>)
  next
    case (Some f)
    let ?rb1 = "\<lambda>left. (rb_store rb (tailIndex rb) left)\<lparr>tailIndex := tailIndex rb + 1\<rparr>"
    obtain left where f: "f (rb_slot rb (tailIndex rb)) = (STATUS_SUCCESS, left)"
      using ok Some by (cases "f (rb_slot rb (tailIndex rb))") (auto simp: frees_all_def dest: spec [of _ "rb_slot rb (tailIndex rb)"])
    then have "rb_evict rb = (STATUS_SUCCESS, ?rb1 left, [hd (window rb)])"
      by (simp add: rb_evict_def Some hd sml [simplified])
    then have ev: "rb_evict rb = (STATUS_SUCCESS, ?rb1 left,
        (if freeDataFn rb = None then [] else [hd (window rb)]))"
      using Some by simp
    show thesis
      by (rule that [OF ev _ _ window_drop_store [OF inv ne]])
         (use inv1 [of "rb_store rb (tailIndex rb) left"] Some ok in \<open>simp_all add: frees_all_def\<close>)
  qed
qed

text \<open>The three shapes of an append: into an empty, a partly filled and a full buffer.\<close>

lemma append_not_full:
  assumes inv: "rb_inv rb" and lt: "headIndex rb < tailIndex rb + capacity rb" and room: "headIndex rb + 1 < 2 ^ 64"
  shows "rollingBufferAppendData (Some rb) d =
     (STATUS_SUCCESS, Some ((rb_store rb (headIndex rb) d)\<lparr>headIndex := headIndex rb + 1\<rparr>), Some (headIndex rb), [])"
proof -
  have "headIndex rb \<noteq> wrap64 (tailIndex rb + capacity rb) \<or> headIndex rb = tailIndex rb"
  proof (cases "tailIndex rb + capacity rb < 2 ^ 64")
    case True
    then show ?thesis using lt by simp
  next
    case False
    moreover have "tailIndex rb + capacity rb - 2 ^ 64 < 2 ^ 64"
      using inv False by (auto simp: rb_inv_def)
    ultimately have "wrap64 (tailIndex rb + capacity rb) = tailIndex rb + capacity rb - 2 ^ 64"
      by (simp add: wrap64_def le_mod_geq)
    also have "\<dots> < tailIndex rb" using False inv by (auto simp: rb_inv_def)
    finally show ?thesis using inv by (simp add: rb_inv_def)
  qed
  moreover have "wrap64 (headIndex rb + 1) = headIndex rb + 1" "sub64 (headIndex rb + 1) 1 = headIndex rb"
    using wrap64_id [OF room] sub64_eq [of 1 "headIndex rb + 1"] room by simp_all
  ultimately show ?thesis
    by (auto simp: rollingBufferAppendData_def)
qed

lemma append_full:
  assumes inv: "rb_inv rb" and full: "headIndex rb = tailIndex rb + capacity rb" and room: "headIndex rb + 1 < 2 ^ 64"
    and ev: "rb_evict rb = (STATUS_SUCCESS, rb1, freed)" "headIndex rb1 = headIndex rb"
  shows "rollingBufferAppendData (Some rb) d =
     (STATUS_SUCCESS, Some ((rb_store rb1 (headIndex rb) d)\<lparr>headIndex := headIndex rb + 1\<rparr>), Some (headIndex rb), freed)"
proof -
  have "headIndex rb \<noteq> tailIndex rb" "wrap64 (tailIndex rb + capacity rb) = headIndex rb"
    using inv full by (simp_all add: rb_inv_def)
  moreover have "wrap64 (headIndex rb + 1) = headIndex rb + 1" "sub64 (headIndex rb + 1) 1 = headIndex rb"
    using wrap64_id [OF room] sub64_eq [of 1 "headIndex rb + 1"] room by simp_all
  ultimately show ?thesis
    by (simp add: rollingBufferAppendData_def ev)
qed

lemma rollingBufferAppendData_ok:
  assumes inv: "rb_inv rb" and ok: "frees_all rb" and room: "headIndex rb + 1 < 2 ^ 64"
  obtains rb' freed where
    "rollingBufferAppendData (Some rb) d = (STATUS_SUCCESS, Some rb', Some (headIndex rb), freed)"
    "rb_inv rb'" "frees_all rb'"
    "window rb' = drop (length (window rb) + 1 - capacity rb) (window rb @ [d])"
    "tailIndex rb' = tailIndex rb + (length (window rb) + 1 - capacity rb)"
    "headIndex rb' = headIndex rb + 1" "capacity rb' = capacity rb" "freeDataFn rb' = freeDataFn rb"
    "freed = (if freeDataFn rb = None then [] else take (length (window rb) + 1 - capacity rb) (window rb))"
proof (cases "headIndex rb = tailIndex rb + capacity rb")
  case True
  then have full: "length (window rb) = capacity rb" by simp
  with inv obtain x xs where win: "window rb = x # xs"
    by (metis length_0_conv less_numeral_extra(3) neq_Nil_conv rb_inv_def)
  obtain rb1 where ev:
    "rb_evict rb = (STATUS_SUCCESS, rb1, (if freeDataFn rb = None then [] else [hd (window rb)]))"
    "rb_inv rb1" "frees_all rb1" "window rb1 = tl (window rb)" "tailIndex rb1 = tailIndex rb + 1"
    "headIndex rb1 = headIndex rb" "capacity rb1 = capacity rb" "freeDataFn rb1 = freeDataFn rb"
    using rb_evict_ok [OF inv ok True] .
  let ?rb' = "(rb_store rb1 (headIndex rb) d)\<lparr>headIndex := headIndex rb + 1\<rparr>"
  have w: "window ?rb' = tl (window rb) @ [d]"
    using window_push [OF ev(2), of d] ev True by simp
  have n1: "length (window rb) + 1 - capacity rb = 1" using full by simp
  show thesis
    by (rule that [OF append_full [OF inv True room ev(1,6)]], unfold n1)
       (use ev(2,3,5,7,8) True w win room in \<open>simp_all add: rb_inv_def frees_all_def\<close>)
next
  case False
  then have lt: "headIndex rb < tailIndex rb + capacity rb" using inv by (simp add: rb_inv_def)
  then have n0: "length (window rb) + 1 - capacity rb = 0" using inv by (simp add: rb_inv_def)
  show thesis
    by (rule that [OF append_not_full [OF inv lt room]], unfold n0)
       (use window_push [OF inv lt, of d] inv lt room ok in \<open>simp_all add: rb_inv_def frees_all_def\<close>)
qed

lemma rollingBufferExtractData_in:
  assumes inv: "rb_inv rb" and i: "tailIndex rb \<le> i" "i < headIndex rb"
  shows "\<exists>rb'. rollingBufferExtractData (Some rb) i = (STATUS_SUCCESS, Some rb', window rb ! (i - tailIndex rb)) \<and>
     rb_inv rb' \<and> window rb' = (window rb)[i - tailIndex rb := None] \<and>
     tailIndex rb' = tailIndex rb \<and> headIndex rb' = headIndex rb \<and> capacity rb' = capacity rb \<and>
     freeDataFn rb' = freeDataFn rb"
proof -
  have w: "window rb ! (i - tailIndex rb) = rb_slot rb i"
    using i by (simp add: nth_window)
  show ?thesis
  proof (cases "rb_slot rb i")
    case None
    then have "(window rb)[i - tailIndex rb := None] = window rb"
      using w by (metis list_update_id)
    with None w i inv show ?thesis by (simp add: rollingBufferExtractData_def)
  next
    case (Some d)
    with w i inv show ?thesis
      by (simp add: rollingBufferExtractData_def window_store) (simp add: rb_inv_def)
  qed
qed

lemma rollingBufferExtractData_out:
  "\<not> (tailIndex rb \<le> i \<and> i < headIndex rb) \<Longrightarrow>
   rollingBufferExtractData (Some rb) i = (STATUS_SUCCESS, Some rb, None)"
  by (auto simp: rollingBufferExtractData_def)

lemma rollingBufferInsertData_in:
  assumes inv: "rb_inv rb" and i: "tailIndex rb \<le> i" "i < headIndex rb"
  shows "\<exists>rb' freed. rollingBufferInsertData (Some rb) i d = (STATUS_SUCCESS, Some rb', freed) \<and>
     rb_inv rb' \<and> window rb' = (window rb)[i - tailIndex rb := d] \<and>
     tailIndex rb' = tailIndex rb \<and> headIndex rb' = headIndex rb \<and> capacity rb' = capacity rb \<and>
     freeDataFn rb' = freeDataFn rb \<and>
     freed = (if window rb ! (i - tailIndex rb) \<noteq> None \<and> freeDataFn rb \<noteq> None
              then [window rb ! (i - tailIndex rb)] else [])"
proof -
  have "window rb ! (i - tailIndex rb) = rb_slot rb i"
    using i by (simp add: nth_window)
  with i inv show ?thesis
    by (simp add: rollingBufferInsertData_def window_store Let_def) (simp add: rb_inv_def)
qed

lemma rollingBufferInsertData_out:
  "\<not> (tailIndex rb \<le> i \<and> i < headIndex rb) \<Longrightarrow>
   rollingBufferInsertData (Some rb) i d = (STATUS_ROLLING_BUFFER_NOT_IN_RANGE, Some rb, [])"
  by (auto simp: rollingBufferInsertData_def)

lemma rollingBufferGetSize_ok:
  "rb_inv rb \<Longrightarrow> rollingBufferGetSize (Some rb) = (STATUS_SUCCESS, length (window rb))"
  using rb_inv_size [of rb] by (simp add: rollingBufferGetSize_def rb_inv_def)

lemma freeRollingBuffer_loop_frees:
  "rb_inv rb \<Longrightarrow> freeDataFn rb = Some f \<Longrightarrow>
   snd (freeRollingBuffer_loop rb freed) = freed @ window rb"
proof (induction rb freed rule: freeRollingBuffer_loop.induct)
  case (1 rb freed)
  show ?case
  proof (cases "tailIndex rb < headIndex rb")
    case True
    let ?rb' = "(rb_store rb (tailIndex rb) None)\<lparr>tailIndex := tailIndex rb + 1\<rparr>"
    have "rb_inv ?rb'" using "1.prems"(1) True by (simp add: rb_inv_def)
    with "1.IH"(2) True "1.prems"
    have "snd (freeRollingBuffer_loop ?rb' (freed @ [rb_slot rb (tailIndex rb)])) =
          (freed @ [rb_slot rb (tailIndex rb)]) @ window ?rb'" by simp
    also have "window ?rb' = tl (window rb)"
      using "1.prems"(1) True by (rule window_drop_store)
    also have "(freed @ [rb_slot rb (tailIndex rb)]) @ tl (window rb) = freed @ window rb"
      using True by (simp add: window_def upt_conv_Cons)
    finally show ?thesis
      using True "1.prems"(2) by (simp add: freeRollingBuffer_loop.simps [of rb freed])
  next
    case False
    then show ?thesis by (simp add: freeRollingBuffer_loop.simps [of rb freed] window_def)
  qed
qed

subsection \<open>The sliding-window contract\<close>

text \<open>
  What a client of the rolling buffer relies on: appending keeps the last \<open>cap\<close> items, and the
  item appended as number \<open>i\<close> stays addressable by \<open>i\<close> until it leaves the window.
\<close>

locale sliding_window =
  fixes append :: "'s \<Rightarrow> 'd \<Rightarrow> 's"
    and contents :: "'s \<Rightarrow> 'd list"
    and base :: "'s \<Rightarrow> nat"
    and cap :: "'s \<Rightarrow> nat"
    and invar :: "'s \<Rightarrow> bool"
    and limit :: nat
  assumes cap_pos: "invar s \<Longrightarrow> 0 < cap s"
    and contents_bound: "invar s \<Longrightarrow> length (contents s) \<le> cap s"
    and contents_append: "invar s \<Longrightarrow> base s + length (contents s) + 1 < limit \<Longrightarrow>
      contents (append s d) = drop (length (contents s) + 1 - cap s) (contents s @ [d])"
    and base_append: "invar s \<Longrightarrow> base s + length (contents s) + 1 < limit \<Longrightarrow>
      base (append s d) = base s + (length (contents s) + 1 - cap s)"
    and cap_append: "invar s \<Longrightarrow> base s + length (contents s) + 1 < limit \<Longrightarrow> cap (append s d) = cap s"
    and invar_append: "invar s \<Longrightarrow> base s + length (contents s) + 1 < limit \<Longrightarrow> invar (append s d)"
begin

lemma end_append:
  assumes "invar s" "base s + length (contents s) + 1 < limit"
  shows "base (append s d) + length (contents (append s d)) = base s + length (contents s) + 1"
  using assms contents_bound [OF assms(1)] cap_pos [OF assms(1)]
  by (simp add: contents_append base_append)

lemma append_all:
  "invar s \<Longrightarrow> base s + length (contents s) + length ds < limit \<Longrightarrow>
   invar (foldl append s ds) \<and> cap (foldl append s ds) = cap s \<and>
   contents (foldl append s ds) = drop (length (contents s) + length ds - cap s) (contents s @ ds) \<and>
   base (foldl append s ds) = base s + (length (contents s) + length ds - cap s)"
proof (induction ds arbitrary: s)
  case Nil
  then show ?case using contents_bound [of s] by simp
next
  case (Cons d ds)
  let ?s = "append s d"
  have lim: "base s + length (contents s) + 1 < limit" using Cons.prems by simp
  note inv = Cons.prems(1)
  have e: "base ?s + length (contents ?s) = base s + length (contents s) + 1"
    using inv lim by (rule end_append)
  have IH: "invar (foldl append ?s ds) \<and> cap (foldl append ?s ds) = cap ?s \<and>
     contents (foldl append ?s ds) = drop (length (contents ?s) + length ds - cap ?s) (contents ?s @ ds) \<and>
     base (foldl append ?s ds) = base ?s + (length (contents ?s) + length ds - cap ?s)"
    using Cons.prems e by (intro Cons.IH invar_append [OF inv lim]) simp
  have le: "length (contents s) \<le> cap s" "0 < cap s"
    using contents_bound [OF inv] cap_pos [OF inv] by auto
  show ?case
    using IH le
    by (cases "length (contents s) = cap s")
       (auto simp: contents_append [OF inv lim] base_append [OF inv lim] cap_append [OF inv lim]
          drop_Cons' Suc_diff_le)
qed

corollary nth_appended:
  assumes "invar s" "contents s = []" "base s = 0" "length ds < limit"
    and "base (foldl append s ds) \<le> i" "i < length ds"
  shows "contents (foldl append s ds) ! (i - base (foldl append s ds)) = ds ! i"
  using append_all [of s ds] assms by simp

end

definition rb_ready :: "'a RollingBuffer \<Rightarrow> bool" where
  "rb_ready rb \<longleftrightarrow> rb_inv rb \<and> frees_all rb"

lemma rb_append_ok:
  assumes "rb_ready rb" "tailIndex rb + length (window rb) + 1 < 2 ^ 64"
  shows "rb_ready (rb_append rb d)"
    "window (rb_append rb d) = drop (length (window rb) + 1 - capacity rb) (window rb @ [d])"
    "tailIndex (rb_append rb d) = tailIndex rb + (length (window rb) + 1 - capacity rb)"
    "capacity (rb_append rb d) = capacity rb"
proof -
  have "rb_inv rb" "frees_all rb" "headIndex rb + 1 < 2 ^ 64"
    using assms by (auto simp: rb_ready_def rb_inv_def)
  from rollingBufferAppendData_ok [OF this, of d] obtain rb' freed where
    "rollingBufferAppendData (Some rb) d = (STATUS_SUCCESS, Some rb', Some (headIndex rb), freed)"
    "rb_inv rb'" "frees_all rb'"
    "window rb' = drop (length (window rb) + 1 - capacity rb) (window rb @ [d])"
    "tailIndex rb' = tailIndex rb + (length (window rb) + 1 - capacity rb)"
    "capacity rb' = capacity rb"
    by blast
  then show "rb_ready (rb_append rb d)"
    "window (rb_append rb d) = drop (length (window rb) + 1 - capacity rb) (window rb @ [d])"
    "tailIndex (rb_append rb d) = tailIndex rb + (length (window rb) + 1 - capacity rb)"
    "capacity (rb_append rb d) = capacity rb"
    by (simp_all add: rb_append_def rb_ready_def)
qed

interpretation rb: sliding_window rb_append window tailIndex capacity rb_ready "2 ^ 64"
proof (unfold_locales, goal_cases)
  case (1 s) then show ?case by (simp add: rb_ready_def rb_inv_def)
next
  case (2 s) then show ?case using rb_inv_size [of s] by (simp add: rb_ready_def)
qed (rule rb_append_ok; assumption)+

subsection \<open>Properties\<close>

text \<open>
  A sequence of appends, with every slot content handed to the free callback on the way.
\<close>

fun rb_run :: "'a RollingBuffer \<Rightarrow> 'a option list \<Rightarrow> STATUS \<times> 'a RollingBuffer \<times> 'a option list" where
  "rb_run rb [] = (STATUS_SUCCESS, rb, [])"
| "rb_run rb (d # ds) =
     (case rollingBufferAppendData (Some rb) d of
        (st, prb, _, freed) \<Rightarrow>
          if STATUS_FAILED st then (st, the prb, freed)
          else (case rb_run (the prb) ds of (st', rb', freed') \<Rightarrow> (st', rb', freed @ freed')))"

lemma rb_run_conserves:
  "rb_ready rb \<Longrightarrow> freeDataFn rb = Some f \<Longrightarrow> headIndex rb + length ds < 2 ^ 64 \<Longrightarrow>
   \<exists>rb' freed. rb_run rb ds = (STATUS_SUCCESS, rb', freed) \<and> rb_ready rb' \<and>
     freed @ window rb' = window rb @ ds \<and> headIndex rb' = headIndex rb + length ds \<and>
     rb' = foldl rb_append rb ds"
proof (induction ds arbitrary: rb)
  case Nil
  then show ?case by simp
next
  case (Cons d ds)
  let ?k = "length (window rb) + 1 - capacity rb"
  have "rb_inv rb" "frees_all rb" "headIndex rb + 1 < 2 ^ 64"
    using Cons.prems by (auto simp: rb_ready_def)
  from rollingBufferAppendData_ok [OF this, of d] obtain rb1 where a:
    "rollingBufferAppendData (Some rb) d = (STATUS_SUCCESS, Some rb1, Some (headIndex rb), take ?k (window rb))"
    "rb_inv rb1" "frees_all rb1" "window rb1 = drop ?k (window rb @ [d])"
    "headIndex rb1 = headIndex rb + 1" "capacity rb1 = capacity rb" "freeDataFn rb1 = Some f"
    using Cons.prems(2) by (metis option.distinct(1))
  from a Cons.prems Cons.IH [of rb1] obtain rb' freed where r:
    "rb_run rb1 ds = (STATUS_SUCCESS, rb', freed)" "rb_ready rb'" "freed @ window rb' = window rb1 @ ds"
    "headIndex rb' = headIndex rb1 + length ds" "rb' = foldl rb_append rb1 ds"
    by (auto simp: rb_ready_def)
  have "?k \<le> length (window rb)"
    using \<open>rb_inv rb\<close> rb_inv_size [of rb] by (auto simp: rb_inv_def)
  then have "take ?k (window rb) @ drop ?k (window rb @ [d]) = window rb @ [d]"
    by (simp del: length_window)
  then have "take ?k (window rb) @ window rb1 @ ds = window rb @ d # ds"
    using a(4) by (metis append.assoc append_Cons append_Nil)
  moreover have "rb_append rb d = rb1" using a(1) by (simp add: rb_append_def)
  ultimately show ?case using a r by simp
qed

text \<open>
  C1. The rolling buffer refines a bounded first-in-first-out window: from a fresh buffer of
  capacity \<open>cap\<close>, any sequence of appends succeeds, the window holds exactly the last
  \<open>cap\<close> items in order, and everything older has been handed to the free callback exactly
  once, oldest first (nothing is lost and nothing is freed twice).
\<close>

theorem rolling_buffer_run_refines_fifo:
  fixes rb :: "'a RollingBuffer" and ds :: "'a option list"
  assumes "createRollingBuffer P cap (Some f) = (STATUS_SUCCESS, Some rb)" "cap < 2 ^ 32"
    and "\<And>d. fst (f d) = STATUS_SUCCESS" and "length ds < 2 ^ 64"
  shows "\<exists>rb' freed. rb_run rb ds = (STATUS_SUCCESS, rb', freed) \<and> rb_inv rb' \<and>
     freed = take (length ds - cap) ds \<and> window rb' = drop (length ds - cap) ds \<and>
     headIndex rb' = length ds"
proof -
  note c = createRollingBuffer_ok [OF assms(1,2)]
  then have ready: "rb_ready rb" using assms(3) by (simp add: rb_ready_def frees_all_def)
  from rb_run_conserves [OF this, of f ds] c assms(4) obtain rb' freed where r:
    "rb_run rb ds = (STATUS_SUCCESS, rb', freed)" "rb_ready rb'" "freed @ window rb' = ds"
    "headIndex rb' = length ds" "rb' = foldl rb_append rb ds"
    by auto
  have w: "window rb' = drop (length ds - cap) ds"
    using rb.append_all [OF ready, of ds] c r(5) assms(4) by simp
  with r(3) have "freed @ drop (length ds - cap) ds = take (length ds - cap) ds @ drop (length ds - cap) ds"
    by simp
  then have "freed = take (length ds - cap) ds" by (rule append_same_eq [THEN iffD1])
  with r w show ?thesis by (simp add: rb_ready_def)
qed

theorem rolling_buffer_run_refines_fifo_witness:
  "\<exists>rb rb' freed. createRollingBuffer little_endian_host 2 (Some (\<lambda>d::nat option. (STATUS_SUCCESS, None))) = (STATUS_SUCCESS, Some rb) \<and>
     rb_run rb [Some 1, Some 2, Some 3] = (STATUS_SUCCESS, rb', freed) \<and>
     freed = [Some 1] \<and> window rb' = [Some 2, Some 3]"
proof -
  let ?f = "\<lambda>d::nat option. (STATUS_SUCCESS, None :: nat option)"
  obtain rb where rb: "createRollingBuffer little_endian_host 2 (Some ?f) = (STATUS_SUCCESS, Some rb)"
    by (simp add: createRollingBuffer_def little_endian_host_def)
  show ?thesis
    using rolling_buffer_run_refines_fifo [OF rb, of "[Some 1, Some 2, Some 3]"] rb by auto
qed

text \<open>
  C2. Addressing by index: after any sequence of appends, extracting index \<open>i\<close> returns the
  \<open>i\<close>-th appended item while it is among the last \<open>cap\<close>, and \<open>NULL\<close> for every older
  or not yet written index; an extraction empties exactly that slot.
\<close>

theorem rolling_buffer_extract_appended:
  fixes rb :: "'a RollingBuffer" and ds :: "'a option list"
  assumes "createRollingBuffer P cap (Some f) = (STATUS_SUCCESS, Some rb)" "cap < 2 ^ 32"
    and "\<And>d. fst (f d) = STATUS_SUCCESS" and "length ds < 2 ^ 64"
    and run: "rb_run rb ds = (STATUS_SUCCESS, rb', freed)"
  shows "\<exists>rb''. rollingBufferExtractData (Some rb') i =
       (STATUS_SUCCESS, Some rb'', if i < length ds \<and> length ds \<le> i + cap then ds ! i else None) \<and>
     rb_inv rb'' \<and>
     window rb'' = (if i < length ds \<and> length ds \<le> i + cap
                    then (drop (length ds - cap) ds)[i - (length ds - cap) := None]
                    else drop (length ds - cap) ds)"
proof -
  note c = createRollingBuffer_ok [OF assms(1,2)]
  then have ready: "rb_ready rb" using assms(3) by (simp add: rb_ready_def frees_all_def)
  have "headIndex rb + length ds < 2 ^ 64" using c assms(4) by simp
  from rb_run_conserves [OF ready _ this] c run have r:
    "rb_ready rb'" "headIndex rb' = length ds" "rb' = foldl rb_append rb ds"
    by force+
  have w: "window rb' = drop (length ds - cap) ds" "tailIndex rb' = length ds - cap"
    using rb.append_all [OF ready, of ds] c r(3) assms(4) by simp_all
  show ?thesis
  proof (cases "i < length ds \<and> length ds \<le> i + cap")
    case True
    then have "tailIndex rb' \<le> i" "i < headIndex rb'" using r w by auto
    with True show ?thesis
      using rollingBufferExtractData_in [of rb' i] r w by (auto simp: rb_ready_def)
  next
    case False
    then have "\<not> (tailIndex rb' \<le> i \<and> i < headIndex rb')" using r w by auto
    from rollingBufferExtractData_out [OF this] show ?thesis
      using False r(1) w(1) by (auto simp: rb_ready_def)
  qed
qed

theorem rolling_buffer_extract_appended_witness:
  "\<exists>rb rb' freed rb''. createRollingBuffer little_endian_host 2 (Some (\<lambda>d::nat option. (STATUS_SUCCESS, None))) = (STATUS_SUCCESS, Some rb) \<and>
     rb_run rb [Some 1, Some 2, Some 3] = (STATUS_SUCCESS, rb', freed) \<and>
     rollingBufferExtractData (Some rb') 1 = (STATUS_SUCCESS, Some rb'', Some 2) \<and> window rb'' = [None, Some 3]"
proof -
  let ?f = "\<lambda>d::nat option. (STATUS_SUCCESS, None :: nat option)"
  obtain rb where rb: "createRollingBuffer little_endian_host 2 (Some ?f) = (STATUS_SUCCESS, Some rb)"
    by (simp add: createRollingBuffer_def little_endian_host_def)
  then have "rb_ready rb" "freeDataFn rb = Some ?f" "headIndex rb = 0"
    by (auto simp: createRollingBuffer_def little_endian_host_def rb_ready_def rb_inv_def frees_all_def)
  from rb_run_conserves [OF this(1,2), of "[Some 1, Some 2, Some 3]"] this(3)
  obtain rb' freed where run: "rb_run rb [Some 1, Some 2, Some 3] = (STATUS_SUCCESS, rb', freed)"
    by auto
  show ?thesis
    using rolling_buffer_extract_appended [OF rb _ _ _ run, of 1] rb run by auto
qed

end
