(* ===== verification/RtpPacket.thy ===== *)
theory RtpPacket
  imports KvsPrelude
begin

text \<open>
  \<^verbatim>\<open>src/source/Rtp/RtpPacket.c\<close> and \<^verbatim>\<open>RtpPacket.h\<close>: the RTP packet, its parser and its
  serialiser, the retransmission (RTX) packet and the splitting of a payload array into packets.

  A pointer into a buffer is the list of bytes that can be reached from it, \<open>None\<close> being
  \<^verbatim>\<open>NULL\<close>; \<open>csrcArray\<close> is such a pointer too, because the code keeps the CSRC list in the
  raw packet and reads its entries with native loads.  The contents of freshly allocated
  memory are an argument (\<open>fresh\<close>), since the code does not initialise every field.
  The functions that touch memory return \<open>None\<close> on undefined behaviour.
\<close>

subsection \<open>Data\<close>

record RtpPacketHeader =
  version :: byte
  padding :: bool
  extension :: bool
  marker :: bool
  csrcCount :: byte
  payloadType :: byte
  sequenceNumber :: u16
  timestamp :: u32
  ssrc :: u32
  csrcArray :: "byte list option"
  extensionProfile :: u16
  extensionPayload :: "byte list option"
  extensionLength :: nat

record RtpPacket =
  header :: RtpPacketHeader
  payload :: "byte list option"
  payloadLength :: nat
  pRawPacket :: "byte list option"
  rawPacketLength :: nat
  receivedTime :: nat
  sentTime :: nat

record PayloadArray =
  pa_payloadBuffer :: "byte list"
  pa_payloadLength :: nat
  pa_payloadSubLength :: "nat list"
  pa_payloadSubLenSize :: nat


definition RTP_HEADER_LEN :: "RtpPacket \<Rightarrow> nat" where
  "RTP_HEADER_LEN pkt =
     wrap32 (12 + unat (csrcCount (header pkt)) * 4 +
       (if extension (header pkt) then 4 + extensionLength (header pkt) else 0))"

definition RTP_GET_RAW_PACKET_SIZE :: "RtpPacket \<Rightarrow> nat" where
  "RTP_GET_RAW_PACKET_SIZE pkt = wrap32 (RTP_HEADER_LEN pkt + payloadLength pkt)"

definition GET_UINT16_SEQ_NUM :: "nat \<Rightarrow> u16" where
  "GET_UINT16_SEQ_NUM i = word_of_nat (i mod (MAX_UINT16 + 1))"

definition SIZEOF_RtpPacket :: nat where
  "SIZEOF_RtpPacket = 104"

subsection \<open>Building a packet\<close>

definition setRtpPacket ::
  "byte \<Rightarrow> bool \<Rightarrow> bool \<Rightarrow> byte \<Rightarrow> bool \<Rightarrow> byte \<Rightarrow> u16 \<Rightarrow> u32 \<Rightarrow> u32 \<Rightarrow> byte list option \<Rightarrow> u16 \<Rightarrow> nat \<Rightarrow>
   byte list option \<Rightarrow> byte list option \<Rightarrow> nat \<Rightarrow> RtpPacket option \<Rightarrow> STATUS \<times> RtpPacket option" where
  "setRtpPacket ver pad ext cc mk pt sn ts ss csrcs prof extLen extPay pay payLen pkt =
     (case pkt of
        None \<Rightarrow> (STATUS_NULL_ARG, None)
      | Some pk \<Rightarrow>
          if \<not> (ext = False \<or> extPay \<noteq> None) then (STATUS_NULL_ARG, pkt)
          else (STATUS_SUCCESS,
            Some (pk\<lparr>header :=
              \<lparr>version = ver, padding = pad, extension = ext, marker = mk, csrcCount = cc,
               payloadType = pt, sequenceNumber = sn, timestamp = ts, ssrc = ss, csrcArray = csrcs,
               extensionProfile = (if ext then prof else 0),
               extensionPayload = (if ext then extPay else None),
               extensionLength = (if ext then extLen else 0)\<rparr>,
              payload := pay, payloadLength := payLen\<rparr>)))"

definition createRtpPacket ::
  "platform \<Rightarrow> RtpPacket \<Rightarrow> byte \<Rightarrow> bool \<Rightarrow> bool \<Rightarrow> byte \<Rightarrow> bool \<Rightarrow> byte \<Rightarrow> u16 \<Rightarrow> u32 \<Rightarrow> u32 \<Rightarrow> byte list option \<Rightarrow>
   u16 \<Rightarrow> nat \<Rightarrow> byte list option \<Rightarrow> byte list option \<Rightarrow> nat \<Rightarrow> STATUS \<times> RtpPacket option" where
  "createRtpPacket P fresh ver pad ext cc mk pt sn ts ss csrcs prof extLen extPay pay payLen =
     (if \<not> memalloc P SIZEOF_RtpPacket then (STATUS_NOT_ENOUGH_MEMORY, None)
      else (let (st, pk) = setRtpPacket ver pad ext cc mk pt sn ts ss csrcs prof extLen extPay pay payLen
                             (Some (fresh\<lparr>pRawPacket := None, rawPacketLength := 0\<rparr>))
            in if STATUS_FAILED st then (st, None) else (st, pk)))"

text \<open>\<^verbatim>\<open>freeRtpPacket\<close> releases the raw packet and the struct and leaves \<^verbatim>\<open>NULL\<close> behind.\<close>

definition freeRtpPacket :: "RtpPacket option \<Rightarrow> STATUS \<times> RtpPacket option" where
  "freeRtpPacket pkt = (STATUS_SUCCESS, None)"

subsection \<open>Parsing\<close>

definition parseExtension :: "platform \<Rightarrow> byte list \<Rightarrow> bool \<Rightarrow> nat \<Rightarrow> (u16 \<times> nat \<times> byte list option \<times> nat) option" where
  "parseExtension P raw ext off =
     (if ext then
        do { prof \<leftarrow> rdInt16 P raw off;
             words \<leftarrow> rdInt16 P raw (off + 2);
             let extLen = unat (words * 4);
             Some (prof, extLen, Some (drop (off + 4) raw), off + 4 + extLen) }
      else Some (0, 0, None, off))"

definition setRtpPacketFromBytes ::
  "platform \<Rightarrow> byte list option \<Rightarrow> nat \<Rightarrow> RtpPacket option \<Rightarrow> (STATUS \<times> RtpPacket option) option" where
  "setRtpPacketFromBytes P rawPacket packetLength pkt =
     (case rawPacket of
        None \<Rightarrow> Some (STATUS_NULL_ARG, pkt)
      | Some raw \<Rightarrow>
          if pkt = None then Some (STATUS_NULL_ARG, pkt)
          else if packetLength < 12 then Some (STATUS_RTP_INPUT_PACKET_TOO_SMALL, pkt)
          else do {
            b0 \<leftarrow> rd raw 0;
            b1 \<leftarrow> rd raw 1;
            sn \<leftarrow> rdInt16 P raw 2;
            ts \<leftarrow> rdInt32 P raw 4;
            ss \<leftarrow> rdInt32 P raw 8;
            let ver = drop_bit 6 b0 AND 3;
            let pad = (drop_bit 5 b0 AND 1 > 0);
            let ext = (drop_bit 4 b0 AND 1 > 0);
            let cc = b0 AND 15;
            let mk = (drop_bit 7 b1 AND 1 > 0);
            let pt = b1 AND 127;
            let off = 12 + unat cc * 4;
            if packetLength < off then Some (STATUS_RTP_INPUT_PACKET_TOO_SMALL, pkt)
            else do {
              let csrcs = (if cc > 0 then Some (drop 12 raw) else None);
              (prof, extLen, extPay, off') \<leftarrow> parseExtension P raw ext off;
              Some (setRtpPacket ver pad ext cc mk pt sn ts ss csrcs prof extLen extPay
                      (Some (drop off' raw)) (sub32 packetLength off') pkt) } })"

definition createRtpPacketFromBytes ::
  "platform \<Rightarrow> RtpPacket \<Rightarrow> byte list option \<Rightarrow> nat \<Rightarrow> (STATUS \<times> RtpPacket option) option" where
  "createRtpPacketFromBytes P fresh rawPacket packetLength =
     (if \<not> memalloc P SIZEOF_RtpPacket then Some (STATUS_NOT_ENOUGH_MEMORY, None)
      else do {
        (st, pk) \<leftarrow> setRtpPacketFromBytes P rawPacket packetLength
                     (Some (fresh\<lparr>pRawPacket := rawPacket, rawPacketLength := packetLength\<rparr>));
        Some (if STATUS_FAILED st then (st, None) else (st, pk)) })"

subsection \<open>Serialising\<close>

fun csrcBytes :: "platform \<Rightarrow> byte list option \<Rightarrow> nat \<Rightarrow> nat \<Rightarrow> byte list option" where
  "csrcBytes P arr i 0 = Some []"
| "csrcBytes P arr i (Suc n) =
     do { a \<leftarrow> arr;
          w \<leftarrow> rdNative32 P a (4 * i);
          rest \<leftarrow> csrcBytes P arr (Suc i) n;
          Some (putUnalignedInt32BigEndian P w @ rest) }"

definition headerByte0 :: "RtpPacketHeader \<Rightarrow> byte" where
  "headerByte0 h =
     (push_bit 6 (version h) OR csrcCount h) OR (if padding h then push_bit 5 1 else 0)
       OR (if extension h then push_bit 4 1 else 0)"

definition headerByte1 :: "RtpPacketHeader \<Rightarrow> byte" where
  "headerByte1 h = payloadType h OR (if marker h then push_bit 7 1 else 0)"

definition fixedHeaderBytes :: "platform \<Rightarrow> RtpPacketHeader \<Rightarrow> byte list" where
  "fixedHeaderBytes P h =
     [headerByte0 h, headerByte1 h] @ putUnalignedInt16BigEndian P (sequenceNumber h) @
     putUnalignedInt32BigEndian P (timestamp h) @ putUnalignedInt32BigEndian P (ssrc h)"

definition setBytesFromRtpPacket ::
  "platform \<Rightarrow> RtpPacket option \<Rightarrow> byte list option \<Rightarrow> nat \<Rightarrow> (STATUS \<times> byte list option) option" where
  "setBytesFromRtpPacket P pkt pRaw packetLength =
     (case (pkt, pRaw) of
        (Some pk, Some buf) \<Rightarrow>
          (let h = header pk in
           if packetLength < RTP_GET_RAW_PACKET_SIZE pk then Some (STATUS_BUFFER_TOO_SMALL, pRaw)
           else do {
             cs \<leftarrow> csrcBytes P (csrcArray h) 0 (unat (csrcCount h));
             let fixed = fixedHeaderBytes P h @ cs;
             if extension h \<and> extensionLength h mod 4 \<noteq> 0
             then do { buf' \<leftarrow> memwrite buf 0 fixed; Some (STATUS_RTP_INVALID_EXTENSION_LEN, Some buf') }
             else do {
               ex \<leftarrow> (if extension h
                      then do { e \<leftarrow> extensionPayload h;
                                bs \<leftarrow> rdn e 0 (extensionLength h);
                                Some (putUnalignedInt16BigEndian P (extensionProfile h) @
                                      putUnalignedInt16BigEndian P (word_of_nat (extensionLength h div 4)) @ bs) }
                      else Some []);
               pay \<leftarrow> (case payload pk of None \<Rightarrow> Some [] | Some p \<Rightarrow> rdn p 0 (payloadLength pk));
               buf' \<leftarrow> memwrite buf 0 (fixed @ ex @ pay);
               Some (STATUS_SUCCESS, Some buf') } })
      | _ \<Rightarrow> Some (STATUS_NULL_ARG, pRaw))"

text \<open>
  \<^verbatim>\<open>createBytesFromRtpPacket\<close>: with a \<^verbatim>\<open>NULL\<close> buffer it only reports the size.  The result
  is the status, the buffer and the value left in \<^verbatim>\<open>*pPacketLength\<close>.
\<close>

definition createBytesFromRtpPacket ::
  "platform \<Rightarrow> RtpPacket option \<Rightarrow> byte list option \<Rightarrow> nat \<Rightarrow> (STATUS \<times> byte list option \<times> nat) option" where
  "createBytesFromRtpPacket P pkt pRaw avail =
     (case pkt of
        None \<Rightarrow> Some (STATUS_NULL_ARG, pRaw, 0)
      | Some pk \<Rightarrow>
          (let len = RTP_GET_RAW_PACKET_SIZE pk in
           if pRaw = None then Some (STATUS_SUCCESS, None, len)
           else if avail < len then Some (STATUS_NOT_ENOUGH_MEMORY, pRaw, len)
           else do { (st, buf) \<leftarrow> setBytesFromRtpPacket P pkt pRaw len; Some (st, buf, len) }))"

subsection \<open>Retransmission packets and packet lists\<close>

text \<open>
  The failure paths before \<^verbatim>\<open>pRawPacket\<close> is set release an uninitialised pointer: undefined
  behaviour, hence \<open>None\<close>.  \<open>garbage\<close> is the contents of the freshly allocated raw packet.
\<close>

definition constructRetransmitRtpPacketFromBytes ::
  "platform \<Rightarrow> RtpPacket \<Rightarrow> (nat \<Rightarrow> byte list) \<Rightarrow> byte list option \<Rightarrow> nat \<Rightarrow> u16 \<Rightarrow> byte \<Rightarrow> u32 \<Rightarrow>
   (STATUS \<times> RtpPacket option) option" where
  "constructRetransmitRtpPacketFromBytes P fresh garbage rawPacket packetLength sequenceNum pt ss =
     (if \<not> memalloc P SIZEOF_RtpPacket then Some (STATUS_NOT_ENOUGH_MEMORY, None)
      else do {
        (st, ppk) \<leftarrow> setRtpPacketFromBytes P rawPacket packetLength (Some fresh);
        if STATUS_FAILED st then None
        else do {
          pk \<leftarrow> ppk;
          if \<not> memalloc P (payloadLength pk + 2) then None
          else do {
            p \<leftarrow> payload pk;
            orig \<leftarrow> rdn p 0 (payloadLength pk);
            let pay = putUnalignedInt16BigEndian P (sequenceNumber (header pk)) @ orig;
            let pk1 = pk\<lparr>payload := Some pay, payloadLength := wrap32 (payloadLength pk + 2),
                         header := (header pk)\<lparr>sequenceNumber := sequenceNum, ssrc := ss,
                                               payloadType := pt, padding := False\<rparr>,
                         pRawPacket := None\<rparr>;
            (st1, _, len) \<leftarrow> createBytesFromRtpPacket P (Some pk1) None 0;
            if STATUS_FAILED st1 then Some (st1, None)
            else if \<not> memalloc P len then Some (STATUS_NOT_ENOUGH_MEMORY, None)
            else do {
              (st2, buf, len2) \<leftarrow> createBytesFromRtpPacket P (Some pk1) (Some (garbage len)) len;
              if STATUS_FAILED st2 then Some (st2, None)
              else do {
                raw \<leftarrow> buf;
                Some (STATUS_SUCCESS,
                  Some (pk1\<lparr>pRawPacket := Some raw, rawPacketLength := len2,
                            payload := Some (drop (sub32 (RTP_GET_RAW_PACKET_SIZE pk1) (payloadLength pk1)) raw)\<rparr>)) } } } } })"

fun constructRtpPackets_loop ::
  "byte list \<Rightarrow> nat list \<Rightarrow> nat \<Rightarrow> nat \<Rightarrow> byte \<Rightarrow> u16 \<Rightarrow> u32 \<Rightarrow> u32 \<Rightarrow> RtpPacket list \<Rightarrow> STATUS \<times> RtpPacket list" where
  "constructRtpPackets_loop cur [] i n pt sn ts ss pkts = (STATUS_SUCCESS, pkts)"
| "constructRtpPackets_loop cur (l # ls) i n pt sn ts ss pkts =
     (case setRtpPacket 2 False False 0 (i = n - 1) pt sn ts ss None 0 0 None (Some cur) l (Some (pkts ! i)) of
        (st, pk) \<Rightarrow>
          if STATUS_FAILED st then (st, pkts)
          else constructRtpPackets_loop (drop l cur) ls (Suc i) n pt (GET_UINT16_SEQ_NUM (unat sn + 1)) ts ss
                 (pkts[i := the pk]))"

definition constructRtpPackets ::
  "PayloadArray option \<Rightarrow> byte \<Rightarrow> u16 \<Rightarrow> u32 \<Rightarrow> u32 \<Rightarrow> RtpPacket list option \<Rightarrow> nat \<Rightarrow> STATUS \<times> RtpPacket list option" where
  "constructRtpPackets pa pt startSequenceNumber ts ss pPackets packetCount =
     (case pa of
        None \<Rightarrow> (STATUS_SUCCESS, pPackets)
      | Some a \<Rightarrow>
          if \<not> pa_payloadLength a > 0 then (STATUS_SUCCESS, pPackets)
          else (case pPackets of
             None \<Rightarrow> (STATUS_NULL_ARG, None)
           | Some pkts \<Rightarrow>
               if \<not> pa_payloadSubLenSize a \<le> packetCount then (STATUS_BUFFER_TOO_SMALL, Some pkts)
               else (let (st, pkts') = constructRtpPackets_loop (pa_payloadBuffer a)
                           (take (pa_payloadSubLenSize a) (pa_payloadSubLength a)) 0 (pa_payloadSubLenSize a)
                           pt startSequenceNumber ts ss pkts
                     in (st, Some pkts'))))"

subsection \<open>The two flag bytes\<close>

lemma and_one_pos: "(0 < x AND (1 :: byte)) = bit x 0"
  by (simp add: and_one_eq bit_0 word_neq_0_conv [symmetric] odd_iff_mod_2_eq_one del: word_neq_0_conv)

lemma mask_numerals:
  "(3 :: byte) = mask 2" "(15 :: byte) = mask 4" "(127 :: byte) = mask 7"
  by (simp_all add: mask_eq_exp_minus_1)

lemma headerByte0_fields:
  assumes "version h < 4" "csrcCount h < 16"
  shows "drop_bit 6 (headerByte0 h) AND 3 = version h"
    "(0 < drop_bit 5 (headerByte0 h) AND 1) = padding h"
    "(0 < drop_bit 4 (headerByte0 h) AND 1) = extension h"
    "headerByte0 h AND 15 = csrcCount h"
proof -
  have v: "\<not> bit (version h) n" if "2 \<le> n" for n
    using bit_below [of "version h" 2 n] assms that by simp
  have c: "\<not> bit (csrcCount h) n" if "4 \<le> n" for n
    using bit_below [of "csrcCount h" 4 n] assms that by simp
  show "drop_bit 6 (headerByte0 h) AND 3 = version h"
    unfolding mask_numerals headerByte0_def
    by (rule byte_eqI) (simp_all add: bit_simps v c)
  show "(0 < drop_bit 5 (headerByte0 h) AND 1) = padding h"
    by (auto simp: and_one_pos headerByte0_def bit_simps v c)
  show "(0 < drop_bit 4 (headerByte0 h) AND 1) = extension h"
    by (auto simp: and_one_pos headerByte0_def bit_simps v c)
  show "headerByte0 h AND 15 = csrcCount h"
    unfolding mask_numerals headerByte0_def
    by (rule byte_eqI) (simp_all add: bit_simps v c)
qed

lemma headerByte1_fields:
  assumes "payloadType h < 128"
  shows "(0 < drop_bit 7 (headerByte1 h) AND 1) = marker h"
    "headerByte1 h AND 127 = payloadType h"
proof -
  have p: "\<not> bit (payloadType h) n" if "7 \<le> n" for n
    using bit_below [of "payloadType h" 7 n] assms that by simp
  show "(0 < drop_bit 7 (headerByte1 h) AND 1) = marker h"
    by (auto simp: and_one_pos headerByte1_def bit_simps p)
  show "headerByte1 h AND 127 = payloadType h"
    unfolding mask_numerals headerByte1_def
    by (rule byte_eqI) (simp_all add: bit_simps p)
qed

lemma flag_ranges: "(x :: byte) AND 3 < 4" "(x :: byte) AND 127 < 128"
  unfolding mask_numerals using and_mask_less' [of 2 x] and_mask_less' [of 7 x] by simp_all

lemma headerByte0_parsed:
  "(push_bit 6 (drop_bit 6 b AND 3) OR b AND 15) OR (if 0 < drop_bit 5 b AND 1 then push_bit 5 1 else 0)
     OR (if 0 < drop_bit 4 b AND 1 then push_bit 4 1 else 0) = (b :: byte)"
  unfolding mask_numerals and_one_pos by (rule byte_eqI) (simp_all add: bit_simps)

lemma headerByte1_parsed:
  "(b AND 127) OR (if 0 < drop_bit 7 b AND 1 then push_bit 7 1 else 0) = (b :: byte)"
  unfolding mask_numerals and_one_pos by (rule byte_eqI) (simp_all add: bit_simps)

subsection \<open>Wire format\<close>

text \<open>
  The layout of RFC 3550 for a packet without contributing sources, independent of the
  platform: the specification the serialiser and the parser are checked against.
\<close>

definition rtp_ext_wire :: "RtpPacketHeader \<Rightarrow> byte list" where
  "rtp_ext_wire h =
     (if extension h
      then bytes16 (extensionProfile h) @ bytes16 (word_of_nat (extensionLength h div 4)) @
           take (extensionLength h) (the (extensionPayload h))
      else [])"

definition rtp_payload_wire :: "RtpPacket \<Rightarrow> byte list" where
  "rtp_payload_wire pk = (case payload pk of None \<Rightarrow> [] | Some p \<Rightarrow> take (payloadLength pk) p)"

definition rtp_wire :: "RtpPacket \<Rightarrow> byte list" where
  "rtp_wire pk =
     (let h = header pk in
      [headerByte0 h, headerByte1 h] @ bytes16 (sequenceNumber h) @ bytes32 (timestamp h) @ bytes32 (ssrc h) @
      rtp_ext_wire h @ rtp_payload_wire pk)"

definition wf_rtp :: "RtpPacket \<Rightarrow> bool" where
  "wf_rtp pk \<longleftrightarrow>
     (let h = header pk in
      version h < 4 \<and> csrcCount h = 0 \<and> payloadType h < 128 \<and>
      (if extension h
       then (case extensionPayload h of None \<Rightarrow> False | Some e \<Rightarrow> extensionLength h \<le> length e) \<and>
            extensionLength h mod 4 = 0 \<and> extensionLength h < 2 ^ 16
       else extensionProfile h = 0 \<and> extensionPayload h = None \<and> extensionLength h = 0) \<and>
      (case payload pk of None \<Rightarrow> payloadLength pk = 0 | Some p \<Rightarrow> payloadLength pk \<le> length p) \<and>
      12 + (if extension h then 4 + extensionLength h else 0) + payloadLength pk < 2 ^ 32)"

lemma wf_rtp_sizes:
  assumes "wf_rtp pk"
  shows "length (rtp_wire pk) = RTP_GET_RAW_PACKET_SIZE pk"
    "length (rtp_payload_wire pk) = payloadLength pk"
    "length (rtp_ext_wire (header pk)) = (if extension (header pk) then 4 + extensionLength (header pk) else 0)"
  using assms
  by (auto simp: wf_rtp_def rtp_wire_def rtp_ext_wire_def rtp_payload_wire_def RTP_GET_RAW_PACKET_SIZE_def
      RTP_HEADER_LEN_def Let_def split: if_splits option.splits)

lemma wf_rtp_length:
  "wf_rtp pk \<Longrightarrow> length (rtp_wire pk) =
     12 + (if extension (header pk) then 4 + extensionLength (header pk) else 0) + payloadLength pk"
  by (simp add: wf_rtp_sizes rtp_wire_def Let_def del: append_assoc)

lemma wire_words_back:
  fixes n :: nat
  assumes "n mod 4 = 0" "n < 2 ^ 16"
  shows "unat ((word_of_nat (n div 4) :: u16) * 4) = n"
proof -
  have "(word_of_nat (n div 4) :: u16) * 4 = word_of_nat (n div 4 * 4)"
    by (simp del: dvd_div_mult_self)
  also have "n div 4 * 4 = n" using assms(1) by auto
  finally show ?thesis using assms(2) by (simp add: unat_of_nat)
qed

context network_order
begin

lemma fixedHeaderBytes_wire:
  "fixedHeaderBytes P h =
     [headerByte0 h, headerByte1 h] @ bytes16 (sequenceNumber h) @ bytes32 (timestamp h) @ bytes32 (ssrc h)"
  by (simp add: fixedHeaderBytes_def order_simps)

lemma setBytesFromRtpPacket_wire:
  assumes wf: "wf_rtp pk" and "RTP_GET_RAW_PACKET_SIZE pk \<le> n" "RTP_GET_RAW_PACKET_SIZE pk \<le> length buf"
  shows "setBytesFromRtpPacket P (Some pk) (Some buf) n =
     Some (STATUS_SUCCESS, Some (rtp_wire pk @ drop (RTP_GET_RAW_PACKET_SIZE pk) buf))"
proof -
  have wire: "fixedHeaderBytes P (header pk) @ rtp_ext_wire (header pk) @ rtp_payload_wire pk = rtp_wire pk"
    by (simp add: rtp_wire_def fixedHeaderBytes_wire Let_def)
  have pay: "(case payload pk of None \<Rightarrow> Some [] | Some p \<Rightarrow> rdn p 0 (payloadLength pk)) = Some (rtp_payload_wire pk)"
    using wf by (auto simp: wf_rtp_def rtp_payload_wire_def rdn_in Let_def split: option.splits)
  have ext: "(if extension (header pk)
       then do { e \<leftarrow> extensionPayload (header pk); bs \<leftarrow> rdn e 0 (extensionLength (header pk));
                 Some (putUnalignedInt16BigEndian P (extensionProfile (header pk)) @
                       putUnalignedInt16BigEndian P (word_of_nat (extensionLength (header pk) div 4)) @ bs) }
       else Some []) = Some (rtp_ext_wire (header pk))"
    using wf by (auto simp: wf_rtp_def rtp_ext_wire_def rdn_in order_simps Let_def split: option.splits if_splits)
  have mw: "memwrite buf 0 (rtp_wire pk) = Some (rtp_wire pk @ drop (RTP_GET_RAW_PACKET_SIZE pk) buf)"
    using assms wf_rtp_sizes(1) [OF wf] by (simp add: memwrite_in)
  have "csrcCount (header pk) = 0" "\<not> (extension (header pk) \<and> extensionLength (header pk) mod 4 \<noteq> 0)"
    using wf by (auto simp: wf_rtp_def Let_def)
  then show ?thesis
    using assms(2) by (auto simp add: setBytesFromRtpPacket_def Let_def ext pay wire mw not_less)
qed

lemma parseExtension_wire:
  assumes wf: "wf_rtp pk" and pre: "length pre = 12"
  shows "parseExtension P (pre @ rtp_ext_wire (header pk) @ rtp_payload_wire pk) (extension (header pk)) 12 =
     Some (extensionProfile (header pk), extensionLength (header pk),
           map_option (\<lambda>e. take (extensionLength (header pk)) e @ rtp_payload_wire pk) (extensionPayload (header pk)),
           12 + length (rtp_ext_wire (header pk)))"
proof (cases "extension (header pk)")
  case False
  then show ?thesis using wf by (auto simp: parseExtension_def wf_rtp_def Let_def rtp_ext_wire_def)
next
  case True
  then obtain e where e: "extensionPayload (header pk) = Some e" "extensionLength (header pk) \<le> length e"
    and el: "extensionLength (header pk) mod 4 = 0" "extensionLength (header pk) < 2 ^ 16"
    using wf by (auto simp: wf_rtp_def Let_def split: option.splits)
  then show ?thesis
    using True pre wire_words_back [OF el]
    by (simp add: parseExtension_def rtp_ext_wire_def rdInt16_eq nth_append bytes16_def Let_def)
qed

lemma setRtpPacketFromBytes_wire:
  assumes wf: "wf_rtp pk"
  shows "setRtpPacketFromBytes P (Some (rtp_wire pk)) (length (rtp_wire pk)) (Some pk0) =
     Some (STATUS_SUCCESS,
       Some (pk0\<lparr>header := (header pk)\<lparr>csrcArray := None,
                   extensionPayload := map_option (\<lambda>e. take (extensionLength (header pk)) e @ rtp_payload_wire pk)
                                         (extensionPayload (header pk))\<rparr>,
                 payload := Some (rtp_payload_wire pk), payloadLength := payloadLength pk\<rparr>))"
proof -
  let ?h = "header pk"
  let ?pre = "[headerByte0 ?h, headerByte1 ?h] @ bytes16 (sequenceNumber ?h) @ bytes32 (timestamp ?h) @ bytes32 (ssrc ?h)"
  have raw: "rtp_wire pk = ?pre @ rtp_ext_wire ?h @ rtp_payload_wire pk"
    by (simp add: rtp_wire_def Let_def)
  have reads: "rd (rtp_wire pk) 0 = Some (headerByte0 ?h)" "rd (rtp_wire pk) 1 = Some (headerByte1 ?h)"
    "rdInt16 P (rtp_wire pk) 2 = Some (sequenceNumber ?h)" "rdInt32 P (rtp_wire pk) 4 = Some (timestamp ?h)"
    "rdInt32 P (rtp_wire pk) 8 = Some (ssrc ?h)"
    by (simp_all add: raw rd_def rdInt16_eq rdInt32_eq bytes16_def bytes32_def)
  have flds: "version ?h < 4" "csrcCount ?h < 16" "payloadType ?h < 128" "csrcCount ?h = 0"
    using wf by (simp_all add: wf_rtp_def Let_def)
  note bits = headerByte0_fields [OF flds(1,2)] headerByte1_fields [OF flds(3)]
  have ext: "parseExtension P (rtp_wire pk) (extension ?h) 12 =
     Some (extensionProfile ?h, extensionLength ?h,
           map_option (\<lambda>e. take (extensionLength ?h) e @ rtp_payload_wire pk) (extensionPayload ?h),
           12 + length (rtp_ext_wire ?h))"
    using parseExtension_wire [OF wf, of ?pre] by (simp add: raw)
  have len: "length (rtp_wire pk) = 12 + length (rtp_ext_wire ?h) + payloadLength pk"
    by (simp add: raw wf_rtp_sizes [OF wf])
  moreover have "length (rtp_wire pk) < 2 ^ 32"
    using wf by (simp add: wf_rtp_sizes [OF wf] RTP_GET_RAW_PACKET_SIZE_def)
  ultimately have sub: "sub32 (length (rtp_wire pk)) (12 + length (rtp_ext_wire ?h)) = payloadLength pk"
    by simp
  have dr: "drop (12 + length (rtp_ext_wire ?h)) (rtp_wire pk) = rtp_payload_wire pk"
    using drop_prefix [of "12 + length (rtp_ext_wire ?h)" "?pre @ rtp_ext_wire ?h" "rtp_payload_wire pk"]
    by (simp add: raw)
  have noext: "\<not> extension ?h \<Longrightarrow> extensionProfile ?h = 0 \<and> extensionPayload ?h = None \<and> extensionLength ?h = 0"
    and hasext: "extension ?h \<Longrightarrow> extensionPayload ?h \<noteq> None"
    using wf by (auto simp: wf_rtp_def Let_def split: option.splits)
  have "12 \<le> length (rtp_wire pk)" using len by simp
  then show ?thesis
    using noext hasext
    by (simp add: setRtpPacketFromBytes_def reads reads(2) [simplified] bits flds(4) ext sub dr setRtpPacket_def
          not_less Let_def)
qed

text \<open>The parser accepts every packet without CSRCs whose extension, if any, fits.\<close>

lemma setRtpPacketFromBytes_reads:
  assumes raw: "raw = [b0, b1, s0, s1, t0, t1, t2, t3, c0, c1, c2, c3] @ rest"
    and cc: "b0 AND 15 = 0"
    and ext: "parseExtension P raw (0 < drop_bit 4 b0 AND 1) 12 = Some (prof, el, ep, off)"
    and ep: "0 < drop_bit 4 b0 AND 1 \<Longrightarrow> ep \<noteq> None"
  shows "setRtpPacketFromBytes P (Some raw) (length raw) (Some pk0) =
     Some (setRtpPacket (drop_bit 6 b0 AND 3) (0 < drop_bit 5 b0 AND 1) (0 < drop_bit 4 b0 AND 1) 0
             (0 < drop_bit 7 b1 AND 1) (b1 AND 127) (be16 s0 s1) (be32 t0 t1 t2 t3) (be32 c0 c1 c2 c3)
             None prof el ep (Some (drop off raw)) (sub32 (length raw) off) (Some pk0))"
proof -
  have "rd raw 0 = Some b0" "rd raw 1 = Some b1" "rdInt16 P raw 2 = Some (be16 s0 s1)"
    "rdInt32 P raw 4 = Some (be32 t0 t1 t2 t3)" "rdInt32 P raw 8 = Some (be32 c0 c1 c2 c3)"
    by (simp_all add: raw rd_def rdInt16_eq rdInt32_eq)
  moreover have "12 \<le> length raw" by (simp add: raw)
  ultimately show ?thesis
    by (simp add: setRtpPacketFromBytes_def cc ext [simplified])
qed

lemma parse_then_wire:
  assumes raw: "raw = [b0, b1, s0, s1, t0, t1, t2, t3, c0, c1, c2, c3] @ rest" and len: "length raw < 2 ^ 32"
    and cc: "b0 AND 15 = 0"
    and fits: "bit b0 4 \<Longrightarrow> \<exists>p0 p1 w0 w1 body. rest = [p0, p1, w0, w1] @ body \<and>
                 unat (be16 w0 w1) < 2 ^ 14 \<and> 4 * unat (be16 w0 w1) \<le> length body"
  shows "\<exists>pk. setRtpPacketFromBytes P (Some raw) (length raw) (Some pk0) = Some (STATUS_SUCCESS, Some pk) \<and>
     wf_rtp pk \<and> rtp_wire pk = raw \<and> pRawPacket pk = pRawPacket pk0"
proof (cases "bit b0 4")
  case False
  then have x: "\<not> 0 < drop_bit 4 b0 AND 1" by (simp add: and_one_pos bit_simps)
  let ?pk = "pk0\<lparr>header := \<lparr>version = drop_bit 6 b0 AND 3, padding = (0 < drop_bit 5 b0 AND 1), extension = False,
      marker = (0 < drop_bit 7 b1 AND 1), csrcCount = 0, payloadType = b1 AND 127, sequenceNumber = be16 s0 s1,
      timestamp = be32 t0 t1 t2 t3, ssrc = be32 c0 c1 c2 c3, csrcArray = None, extensionProfile = 0,
      extensionPayload = None, extensionLength = 0\<rparr>, payload := Some rest, payloadLength := length rest\<rparr>"
  have "parseExtension P raw (0 < drop_bit 4 b0 AND 1) 12 = Some (0, 0, None, 12)"
    using x by (simp add: parseExtension_def)
  then have "setRtpPacketFromBytes P (Some raw) (length raw) (Some pk0) = Some (STATUS_SUCCESS, Some ?pk)"
    using setRtpPacketFromBytes_reads [OF raw cc, of 0 0 None 12 pk0] x len by (simp add: raw setRtpPacket_def)
  moreover have "wf_rtp ?pk"
    using len by (simp add: wf_rtp_def raw flag_ranges)
  moreover have "rtp_wire ?pk = raw"
    using headerByte0_parsed [of b0] headerByte1_parsed [of b1] x cc
    by (simp add: rtp_wire_def rtp_ext_wire_def rtp_payload_wire_def raw headerByte0_def headerByte1_def)
  ultimately show ?thesis by (intro exI [of _ ?pk]) simp
next
  case True
  then have x: "0 < drop_bit 4 b0 AND 1" by (simp add: and_one_pos bit_simps)
  obtain p0 p1 w0 w1 body where rest: "rest = [p0, p1, w0, w1] @ body"
    and w: "unat (be16 w0 w1) < 2 ^ 14" "4 * unat (be16 w0 w1) \<le> length body"
    using fits [OF True] by blast
  let ?n = "4 * unat (be16 w0 w1)"
  have n: "unat (be16 w0 w1 * 4) = ?n"
    using w(1) by (simp add: unat_word_ariths)
  let ?pk = "pk0\<lparr>header := \<lparr>version = drop_bit 6 b0 AND 3, padding = (0 < drop_bit 5 b0 AND 1), extension = True,
      marker = (0 < drop_bit 7 b1 AND 1), csrcCount = 0, payloadType = b1 AND 127, sequenceNumber = be16 s0 s1,
      timestamp = be32 t0 t1 t2 t3, ssrc = be32 c0 c1 c2 c3, csrcArray = None, extensionProfile = be16 p0 p1,
      extensionPayload = Some body, extensionLength = ?n\<rparr>,
      payload := Some (drop ?n body), payloadLength := length body - ?n\<rparr>"
  have "drop 16 raw = body" by (simp add: raw rest)
  then have dr: "drop (16 + ?n) raw = drop ?n body"
    by (metis add.commute drop_drop)
  have "parseExtension P raw (0 < drop_bit 4 b0 AND 1) 12 = Some (be16 p0 p1, ?n, Some body, 16 + ?n)"
    using x n by (simp add: parseExtension_def rdInt16_eq raw rest Let_def)
  then have "setRtpPacketFromBytes P (Some raw) (length raw) (Some pk0) = Some (STATUS_SUCCESS, Some ?pk)"
    using setRtpPacketFromBytes_reads [OF raw cc, of "be16 p0 p1" ?n "Some body" "16 + ?n" pk0] x len w(2) dr
    by (simp add: raw rest setRtpPacket_def)
  moreover have "wf_rtp ?pk"
    using len w by (simp add: wf_rtp_def raw rest flag_ranges)
  moreover have "rtp_wire ?pk = raw"
    using headerByte0_parsed [of b0] headerByte1_parsed [of b1] x cc w
    by (simp add: rtp_wire_def rtp_ext_wire_def rtp_payload_wire_def raw rest headerByte0_def headerByte1_def)
  ultimately show ?thesis by (intro exI [of _ ?pk]) simp
qed

lemma createBytesFromRtpPacket_wire:
  assumes wf: "wf_rtp pk" and "length (rtp_wire pk) \<le> n" "length (rtp_wire pk) \<le> length buf"
  shows "createBytesFromRtpPacket P (Some pk) (Some buf) n =
     Some (STATUS_SUCCESS, Some (rtp_wire pk @ drop (length (rtp_wire pk)) buf), length (rtp_wire pk))"
  using assms setBytesFromRtpPacket_wire [OF wf, of "RTP_GET_RAW_PACKET_SIZE pk" buf]
  by (simp add: createBytesFromRtpPacket_def wf_rtp_sizes(1) [OF wf] not_less Let_def)

end

text \<open>The packets the parser accepts without leaving the buffer: no CSRC, and an extension that fits.\<close>

definition rtp_fits :: "byte list \<Rightarrow> bool" where
  "rtp_fits raw \<longleftrightarrow>
     12 \<le> length raw \<and> length raw < 2 ^ 32 \<and> raw ! 0 AND 15 = 0 \<and>
     (bit (raw ! 0) 4 \<longrightarrow>
        16 \<le> length raw \<and> unat (be16 (raw ! 14) (raw ! 15)) < 2 ^ 14 \<and>
        16 + 4 * unat (be16 (raw ! 14) (raw ! 15)) \<le> length raw)"

lemma split12:
  assumes "12 \<le> length raw"
  shows "raw = [raw ! 0, raw ! 1, raw ! 2, raw ! 3, raw ! 4, raw ! 5, raw ! 6, raw ! 7, raw ! 8, raw ! 9,
     raw ! 10, raw ! 11] @ drop 12 raw"
  using assms by (auto simp: numeral_eq_Suc Suc_le_length_iff)

lemma split4:
  assumes "4 \<le> length xs"
  shows "xs = [xs ! 0, xs ! 1, xs ! 2, xs ! 3] @ drop 4 xs"
  using assms by (auto simp: numeral_eq_Suc Suc_le_length_iff)

context network_order
begin

lemma rtp_fits_parse:
  assumes "rtp_fits raw"
  shows "\<exists>pk. setRtpPacketFromBytes P (Some raw) (length raw) (Some pk0) = Some (STATUS_SUCCESS, Some pk) \<and>
     wf_rtp pk \<and> rtp_wire pk = raw \<and> pRawPacket pk = pRawPacket pk0"
proof (rule parse_then_wire)
  show "raw = [raw ! 0, raw ! 1, raw ! 2, raw ! 3, raw ! 4, raw ! 5, raw ! 6, raw ! 7, raw ! 8, raw ! 9,
     raw ! 10, raw ! 11] @ drop 12 raw"
    using assms by (intro split12) (simp add: rtp_fits_def)
  show "length raw < 2 ^ 32" "raw ! 0 AND 15 = 0" using assms by (simp_all add: rtp_fits_def)
  assume "bit (raw ! 0) 4"
  with assms have f: "16 \<le> length raw" "unat (be16 (raw ! 14) (raw ! 15)) < 2 ^ 14"
    "16 + 4 * unat (be16 (raw ! 14) (raw ! 15)) \<le> length raw"
    by (auto simp: rtp_fits_def)
  have "drop 12 raw = [raw ! 12, raw ! 13, raw ! 14, raw ! 15] @ drop 16 raw"
    using split4 [of "drop 12 raw"] f(1) by simp
  then show "\<exists>p0 p1 w0 w1 body. drop 12 raw = [p0, p1, w0, w1] @ body \<and>
      unat (be16 w0 w1) < 2 ^ 14 \<and> 4 * unat (be16 w0 w1) \<le> length body"
    using f by (metis add_le_imp_le_diff length_drop add.commute)
qed

end

text \<open>
  The retransmission packet of RFC 4588, as a packet and as bytes: \<open>rtp_body raw\<close> is where the
  payload of \<open>raw\<close> begins.
\<close>

definition rtx_packet :: "byte \<Rightarrow> u32 \<Rightarrow> u16 \<Rightarrow> RtpPacket \<Rightarrow> RtpPacket" where
  "rtx_packet pt ss sn pk =
     pk\<lparr>payload := Some (bytes16 (sequenceNumber (header pk)) @ rtp_payload_wire pk),
        payloadLength := payloadLength pk + 2,
        header := (header pk)\<lparr>sequenceNumber := sn, ssrc := ss, payloadType := pt, padding := False\<rparr>,
        pRawPacket := None\<rparr>"

definition rtp_body :: "byte list \<Rightarrow> nat" where
  "rtp_body raw = (if bit (raw ! 0) 4 then 16 + 4 * unat (be16 (raw ! 14) (raw ! 15)) else 12)"

definition rtx_wire :: "byte \<Rightarrow> u32 \<Rightarrow> u16 \<Rightarrow> byte list \<Rightarrow> byte list" where
  "rtx_wire pt ss sn raw =
     [raw ! 0 AND 0xDF, (raw ! 1 AND 0x80) OR pt] @ bytes16 sn @ take 4 (drop 4 raw) @ bytes32 ss @
     drop 12 (take (rtp_body raw) raw) @ take 2 (drop 2 raw) @ drop (rtp_body raw) raw"

lemma headerByte_rtx:
  assumes "version h < 4" "csrcCount h = 0" "payloadType h < 128"
  shows "headerByte0 (h\<lparr>sequenceNumber := sn, ssrc := ss, payloadType := pt, padding := False\<rparr>) = headerByte0 h AND 0xDF"
    "headerByte1 (h\<lparr>sequenceNumber := sn, ssrc := ss, payloadType := pt, padding := False\<rparr>) = (headerByte1 h AND 0x80) OR pt"
    "bit (headerByte0 h) 4 = extension h"
proof -
  have dm: "(0xDF :: byte) = NOT (push_bit 5 1)" "(0x80 :: byte) = push_bit 7 1" by simp_all
  have v: "\<not> bit (version h) n" if "2 \<le> n" for n
    using bit_below [of "version h" 2 n] assms(1) that by simp
  have p: "\<not> bit (payloadType h) n" if "7 \<le> n" for n
    using bit_below [of "payloadType h" 7 n] assms(3) that by simp
  show "headerByte0 (h\<lparr>sequenceNumber := sn, ssrc := ss, payloadType := pt, padding := False\<rparr>) = headerByte0 h AND 0xDF"
    unfolding dm headerByte0_def by (rule byte_eqI) (simp_all add: bit_simps assms(2) v)
  show "headerByte1 (h\<lparr>sequenceNumber := sn, ssrc := ss, payloadType := pt, padding := False\<rparr>) = (headerByte1 h AND 0x80) OR pt"
    unfolding dm headerByte1_def by (rule byte_eqI) (simp_all add: bit_simps p)
  show "bit (headerByte0 h) 4 = extension h"
    using headerByte0_fields(3) [of h] assms by (simp add: and_one_pos bit_simps)
qed

lemma rtp_body_wire:
  assumes "wf_rtp pk"
  shows "rtp_body (rtp_wire pk) = 12 + length (rtp_ext_wire (header pk))"
proof -
  let ?h = "header pk"
  have f: "version ?h < 4" "csrcCount ?h = 0" "payloadType ?h < 128" using assms by (auto simp: wf_rtp_def Let_def)
  have b0: "rtp_wire pk ! 0 = headerByte0 ?h" by (simp add: rtp_wire_def Let_def)
  show ?thesis
  proof (cases "extension ?h")
    case True
    then have el: "extensionLength ?h mod 4 = 0" "extensionLength ?h < 2 ^ 16" using assms by (auto simp: wf_rtp_def Let_def)
    have "rtp_wire pk ! 14 = bytes16 (word_of_nat (extensionLength ?h div 4)) ! 0"
      "rtp_wire pk ! 15 = bytes16 (word_of_nat (extensionLength ?h div 4)) ! 1"
      using True by (simp_all add: rtp_wire_def rtp_ext_wire_def Let_def bytes16_def bytes32_def)
    then have "be16 (rtp_wire pk ! 14) (rtp_wire pk ! 15) = word_of_nat (extensionLength ?h div 4)"
      by (simp add: bytes16_def)
    then show ?thesis
      using True el b0 headerByte_rtx(3) [OF f] wf_rtp_sizes(3) [OF assms]
      by (auto simp: rtp_body_def unat_of_nat)
  qed (use b0 headerByte_rtx(3) [OF f] in \<open>simp add: rtp_body_def rtp_ext_wire_def\<close>)
qed

lemma rtx_packet_wire:
  assumes "wf_rtp pk"
  shows "rtp_wire (rtx_packet pt ss sn pk) = rtx_wire pt ss sn (rtp_wire pk)"
proof -
  let ?h = "header pk" and ?raw = "rtp_wire pk"
  have f: "version ?h < 4" "csrcCount ?h = 0" "payloadType ?h < 128" using assms by (auto simp: wf_rtp_def Let_def)
  let ?pre = "[headerByte0 ?h, headerByte1 ?h] @ bytes16 (sequenceNumber ?h) @ bytes32 (timestamp ?h) @ bytes32 (ssrc ?h)"
  have raw: "?raw = ?pre @ rtp_ext_wire ?h @ rtp_payload_wire pk" by (simp add: rtp_wire_def Let_def)
  have "drop (rtp_body ?raw) ?raw = rtp_payload_wire pk" "drop 12 (take (rtp_body ?raw) ?raw) = rtp_ext_wire ?h"
    unfolding rtp_body_wire [OF assms] unfolding raw by (simp_all add: bytes16_def bytes32_def eval_nat_numeral)
  moreover have "?raw ! 0 = headerByte0 ?h" "?raw ! 1 = headerByte1 ?h" "take 2 (drop 2 ?raw) = bytes16 (sequenceNumber ?h)"
    "take 4 (drop 4 ?raw) = bytes32 (timestamp ?h)"
    by (simp_all add: raw bytes16_def bytes32_def)
  moreover have "rtp_ext_wire (header (rtx_packet pt ss sn pk)) = rtp_ext_wire ?h"
    by (simp add: rtp_ext_wire_def rtx_packet_def)
  moreover have "rtp_payload_wire (rtx_packet pt ss sn pk) = bytes16 (sequenceNumber ?h) @ rtp_payload_wire pk"
    using wf_rtp_sizes(2) [OF assms] by (simp add: rtp_payload_wire_def rtx_packet_def)
  ultimately show ?thesis
    by (simp only: rtx_wire_def rtp_wire_def [of "rtx_packet pt ss sn pk"] Let_def)
      (simp add: rtx_packet_def headerByte_rtx [OF f])
qed

context network_order
begin

lemma constructRetransmitRtpPacketFromBytes_ok:
  assumes alloc: "\<And>n. memalloc P n" and garbage: "\<And>n. length (garbage n) = n"
    and raw: "rtp_fits raw" "length raw + 2 < 2 ^ 32" and pt: "pt < 128"
    and orig: "setRtpPacketFromBytes P (Some raw) (length raw) (Some pk0) = Some (STATUS_SUCCESS, Some pk)"
  shows "\<exists>rtx. constructRetransmitRtpPacketFromBytes P pk0 garbage (Some raw) (length raw) sn pt ss =
       Some (STATUS_SUCCESS, Some rtx) \<and> pRawPacket rtx = Some (rtp_wire (rtx_packet pt ss sn pk)) \<and>
       rawPacketLength rtx = length raw + 2"
    "wf_rtp (rtx_packet pt ss sn pk)" "length (rtp_wire (rtx_packet pt ss sn pk)) = length raw + 2"
proof -
  have wf: "wf_rtp pk" and wire: "rtp_wire pk = raw"
    using rtp_fits_parse [OF raw(1), of pk0] orig by auto
  have len: "12 + (if extension (header pk) then 4 + extensionLength (header pk) else 0) + payloadLength pk = length raw"
    using wf_rtp_length [OF wf] wire by simp
  obtain p where p: "payload pk = Some p" "payloadLength pk \<le> length p"
    using orig wf by (auto simp: setRtpPacketFromBytes_def setRtpPacket_def wf_rtp_def Let_def
        split: option.splits if_splits prod.splits bind_splits)
  define pk1 where "pk1 = rtx_packet pt ss sn pk"
  note pk1 = pk1_def [unfolded rtx_packet_def]
  have wf1: "wf_rtp pk1"
    using wf raw(2) pt len wf_rtp_sizes(2) [OF wf]
    by (auto simp: pk1 wf_rtp_def Let_def split: option.splits if_splits)
  have len1: "length (rtp_wire pk1) = length raw + 2"
    using len wf_rtp_length [OF wf1] by (simp add: pk1 split: if_splits)
  have "payloadLength pk + 2 < 2 ^ 32" using len raw(2) by simp
  then have w: "wrap32 (payloadLength pk + 2) = payloadLength pk + 2" by (rule wrap32_id)
  have rp: "rdn p 0 (payloadLength pk) = Some (rtp_payload_wire pk)"
    using p by (simp add: rdn_in rtp_payload_wire_def)
  have cb0: "createBytesFromRtpPacket P (Some pk1) None 0 = Some (STATUS_SUCCESS, None, length raw + 2)"
    using len1 wf_rtp_sizes(1) [OF wf1] by (simp add: createBytesFromRtpPacket_def)
  have cb1: "createBytesFromRtpPacket P (Some pk1) (Some (garbage (length raw + 2))) (length raw + 2) =
     Some (STATUS_SUCCESS, Some (rtp_wire pk1), length raw + 2)"
    using createBytesFromRtpPacket_wire [OF wf1, of "length raw + 2" "garbage (length raw + 2)"]
      garbage [of "length raw + 2"] len1 by simp
  show "\<exists>rtx. constructRetransmitRtpPacketFromBytes P pk0 garbage (Some raw) (length raw) sn pt ss =
       Some (STATUS_SUCCESS, Some rtx) \<and> pRawPacket rtx = Some (rtp_wire (rtx_packet pt ss sn pk)) \<and>
       rawPacketLength rtx = length raw + 2"
    unfolding pk1_def [symmetric]
    by (simp add: constructRetransmitRtpPacketFromBytes_def alloc orig p(1) rp
        putUnaligned16 w [simplified] cb0 cb0 [simplified] cb1 cb1 [simplified] Let_def pk1 [symmetric, simplified])
  show "wf_rtp (rtx_packet pt ss sn pk)" "length (rtp_wire (rtx_packet pt ss sn pk)) = length raw + 2"
    using wf1 len1 by (simp_all add: pk1_def)
qed

end

subsection \<open>Properties\<close>

text \<open>
  C3. Serialising a well-formed packet without CSRCs and parsing the bytes gives the packet
  back: every header field, the extension and the payload.  The serialiser writes exactly
  the announced number of bytes and leaves the rest of the buffer alone.
\<close>

theorem rtp_serialise_then_parse:
  assumes "network_order P" "wf_rtp pk" "RTP_GET_RAW_PACKET_SIZE pk \<le> n" "n \<le> length buf"
  shows "\<exists>raw. createBytesFromRtpPacket P (Some pk) (Some buf) n =
        Some (STATUS_SUCCESS, Some (raw @ drop (length raw) buf), length raw) \<and>
      length raw = RTP_GET_RAW_PACKET_SIZE pk \<and>
      setRtpPacketFromBytes P (Some raw) (length raw) (Some pk0) =
        Some (STATUS_SUCCESS,
          Some (pk0\<lparr>header := (header pk)\<lparr>csrcArray := None,
                      extensionPayload := map_option (\<lambda>e. take (extensionLength (header pk)) e @ rtp_payload_wire pk)
                                            (extensionPayload (header pk))\<rparr>,
                    payload := Some (rtp_payload_wire pk), payloadLength := payloadLength pk\<rparr>))"
  using network_order.createBytesFromRtpPacket_wire [OF assms(1,2), of n buf]
    network_order.setRtpPacketFromBytes_wire [OF assms(1,2), of pk0] assms(3,4) wf_rtp_sizes(1) [OF assms(2)]
  by (intro exI [of _ "rtp_wire pk"]) simp

definition sample_packet :: RtpPacket where
  "sample_packet =
     \<lparr>header = \<lparr>version = 2, padding = False, extension = True, marker = True, csrcCount = 0, payloadType = 96,
        sequenceNumber = 65535, timestamp = 305419896, ssrc = 1, csrcArray = None, extensionProfile = 48862,
        extensionPayload = Some [16, 0, 7, 0], extensionLength = 4\<rparr>,
      payload = Some [1, 2, 3], payloadLength = 3, pRawPacket = None, rawPacketLength = 0,
      receivedTime = 0, sentTime = 0\<rparr>"

theorem rtp_serialise_then_parse_witness:
  "\<exists>raw. createBytesFromRtpPacket little_endian_host (Some sample_packet) (Some (replicate 30 0)) 25 =
        Some (STATUS_SUCCESS, Some (raw @ drop (length raw) (replicate 30 0)), length raw) \<and>
      length raw = 23 \<and>
      (\<exists>pk'. setRtpPacketFromBytes little_endian_host (Some raw) (length raw) (Some sample_packet) =
        Some (STATUS_SUCCESS, Some pk') \<and> sequenceNumber (header pk') = 65535 \<and> payload pk' = Some [1, 2, 3])"
proof -
  have wf: "wf_rtp sample_packet" by (simp add: wf_rtp_def sample_packet_def)
  have sz: "RTP_GET_RAW_PACKET_SIZE sample_packet = 23"
    by (simp add: RTP_GET_RAW_PACKET_SIZE_def RTP_HEADER_LEN_def sample_packet_def)
  show ?thesis
    using rtp_serialise_then_parse [OF le_host.network_order_axioms wf, of 25 "replicate 30 0" sample_packet] sz
    by (auto simp: sample_packet_def rtp_payload_wire_def)
qed

text \<open>
  C4. Parsing and then serialising is the identity on the bytes: every packet without CSRCs
  whose extension fits is accepted, without leaving the buffer, and re-serialising the
  parsed packet reproduces the input bit for bit.
\<close>

theorem rtp_parse_then_serialise:
  assumes "network_order P" "rtp_fits raw" "length buf = length raw"
  shows "\<exists>pk. setRtpPacketFromBytes P (Some raw) (length raw) (Some pk0) = Some (STATUS_SUCCESS, Some pk) \<and>
      createBytesFromRtpPacket P (Some pk) (Some buf) (length raw) = Some (STATUS_SUCCESS, Some raw, length raw)"
proof -
  obtain pk where "setRtpPacketFromBytes P (Some raw) (length raw) (Some pk0) = Some (STATUS_SUCCESS, Some pk)"
    "wf_rtp pk" "rtp_wire pk = raw"
    using network_order.rtp_fits_parse [OF assms(1,2), of pk0] by blast
  then show ?thesis
    using network_order.createBytesFromRtpPacket_wire [OF assms(1), of pk "length raw" buf] assms(3) by simp
qed

theorem rtp_parse_then_serialise_witness:
  "\<exists>pk. setRtpPacketFromBytes little_endian_host (Some [128, 96, 0, 9, 1, 2, 3, 4, 5, 6, 7, 8, 42]) 13 (Some sample_packet) =
        Some (STATUS_SUCCESS, Some pk) \<and>
      createBytesFromRtpPacket little_endian_host (Some pk) (Some (replicate 13 0)) 13 =
        Some (STATUS_SUCCESS, Some [128, 96, 0, 9, 1, 2, 3, 4, 5, 6, 7, 8, 42], 13)"
proof -
  let ?raw = "[128, 96, 0, 9, 1, 2, 3, 4, 5, 6, 7, 8, 42] :: byte list"
  have fits: "rtp_fits ?raw" by (simp add: rtp_fits_def)
  have len: "length ?raw = 13" by simp
  show ?thesis
    using rtp_parse_then_serialise [OF le_host.network_order_axioms fits, of "replicate 13 0" sample_packet, unfolded len]
    by simp
qed

text \<open>
  C5. A retransmission packet has the format of RFC 4588: its payload is the original
  sequence number followed by the original payload, the header carries the RTX sequence
  number, payload type and SSRC, padding is cleared, and timestamp, marker, version and
  extension are those of the original packet.  The stored raw packet parses back to that.
\<close>

theorem rtx_packet_rfc4588:
  assumes net: "network_order P" and alloc: "\<And>n. memalloc P n" and garbage: "\<And>n. length (garbage n) = n"
    and raw: "rtp_fits raw" "length raw + 2 < 2 ^ 32" and pt: "pt < 128"
    and orig: "setRtpPacketFromBytes P (Some raw) (length raw) (Some pk0) = Some (STATUS_SUCCESS, Some pk)"
  shows "\<exists>rtx wire pk'. constructRetransmitRtpPacketFromBytes P pk0 garbage (Some raw) (length raw) sn pt ss =
       Some (STATUS_SUCCESS, Some rtx) \<and> pRawPacket rtx = Some wire \<and> rawPacketLength rtx = length raw + 2 \<and>
     length wire = length raw + 2 \<and>
     setRtpPacketFromBytes P (Some wire) (length wire) (Some pk0) = Some (STATUS_SUCCESS, Some pk') \<and>
     payload pk' = Some (bytes16 (sequenceNumber (header pk)) @ rtp_payload_wire pk) \<and>
     sequenceNumber (header pk') = sn \<and> payloadType (header pk') = pt \<and> ssrc (header pk') = ss \<and>
     \<not> padding (header pk') \<and> timestamp (header pk') = timestamp (header pk) \<and>
     marker (header pk') = marker (header pk) \<and> version (header pk') = version (header pk) \<and>
     extension (header pk') = extension (header pk) \<and>
     extensionLength (header pk') = extensionLength (header pk)"
proof -
  note rtx = network_order.constructRetransmitRtpPacketFromBytes_ok
    [where sn = sn and ss = ss, OF net alloc garbage raw pt orig]
  have "wf_rtp pk" using network_order.rtp_fits_parse [OF net raw(1), of pk0] orig by auto
  then have "rtp_payload_wire (rtx_packet pt ss sn pk) = bytes16 (sequenceNumber (header pk)) @ rtp_payload_wire pk"
    using wf_rtp_sizes(2) [of pk] by (simp add: rtp_payload_wire_def rtx_packet_def)
  then show ?thesis
    using rtx network_order.setRtpPacketFromBytes_wire [OF net rtx(2), of pk0] by (auto simp: rtx_packet_def)
qed

theorem rtx_packet_rfc4588_witness:
  "\<exists>rtx wire. constructRetransmitRtpPacketFromBytes little_endian_host sample_packet (\<lambda>n. replicate n 0)
       (Some [128, 96, 0, 9, 1, 2, 3, 4, 5, 6, 7, 8, 42]) 13 7 97 11 = Some (STATUS_SUCCESS, Some rtx) \<and>
     pRawPacket rtx = Some wire \<and> length wire = 15"
proof -
  let ?raw = "[128, 96, 0, 9, 1, 2, 3, 4, 5, 6, 7, 8, 42] :: byte list"
  have fits: "rtp_fits ?raw" by (simp add: rtp_fits_def)
  have len: "length ?raw = 13" by simp
  obtain pk where pk: "setRtpPacketFromBytes little_endian_host (Some ?raw) (length ?raw) (Some sample_packet) =
      Some (STATUS_SUCCESS, Some pk)"
    using le_host.rtp_fits_parse [OF fits] by blast
  show ?thesis
    using rtx_packet_rfc4588 [OF le_host.network_order_axioms _ _ fits _ _ pk, of "\<lambda>n. replicate n 0" 97 7 11, unfolded len]
    by (auto simp: little_endian_host_def)
qed

text \<open>
  C6. The parser does not check the header extension against the packet length.  A packet
  that announces an extension ending beyond the packet is accepted with a payload length
  that has wrapped around below zero, hence larger than the whole packet; a packet that ends
  right after the fixed header is read out of bounds.
\<close>

theorem rtp_parser_extension_unchecked:
  fixes b0 b1 s0 s1 t0 t1 t2 t3 c0 c1 c2 c3 p0 p1 w0 w1 :: byte and body :: "byte list"
  defines "hdr \<equiv> [b0, b1, s0, s1, t0, t1, t2, t3, c0, c1, c2, c3]"
  defines "raw \<equiv> hdr @ [p0, p1, w0, w1] @ body"
  assumes net: "network_order P" and x: "bit b0 4" and cc: "b0 AND 15 = 0"
    and w: "unat (be16 w0 w1) < 2 ^ 14" "length body < 4 * unat (be16 w0 w1)"
  shows "setRtpPacketFromBytes P (Some hdr) 12 (Some pk0) = None \<and>
     (\<exists>pk. setRtpPacketFromBytes P (Some raw) (length raw) (Some pk0) = Some (STATUS_SUCCESS, Some pk) \<and>
        payloadLength pk = 2 ^ 32 + length body - 4 * unat (be16 w0 w1) \<and> payloadLength pk > length raw)"
proof (rule conjI)
  let ?n = "4 * unat (be16 w0 w1)"
  have x': "0 < drop_bit 4 b0 AND 1" using x by (simp add: and_one_pos bit_simps)
  have "parseExtension P hdr True 12 = None"
    by (simp add: parseExtension_def rdInt16_def hdr_def)
  then show "setRtpPacketFromBytes P (Some hdr) 12 (Some pk0) = None"
    using x' cc
    by (simp add: setRtpPacketFromBytes_def hdr_def rd_def rdInt16_def rdInt32_def rdNative32_def)
  have n: "unat (be16 w0 w1 * 4) = ?n"
    using w(1) by (simp add: unat_word_ariths)
  have ext: "parseExtension P raw (0 < drop_bit 4 b0 AND 1) 12 = Some (be16 p0 p1, ?n, Some body, 16 + ?n)"
    using x' n by (simp add: parseExtension_def network_order.rdInt16_eq [OF net] raw_def hdr_def Let_def)
  have "length raw = 16 + length body" by (simp add: raw_def hdr_def)
  then have sub: "sub32 (length raw) (16 + ?n) = 2 ^ 32 + length body - ?n" "2 ^ 32 + length body - ?n > length raw"
    using w sub32_underflow [of "length raw" "16 + ?n"] by auto
  show "\<exists>pk. setRtpPacketFromBytes P (Some raw) (length raw) (Some pk0) = Some (STATUS_SUCCESS, Some pk) \<and>
        payloadLength pk = 2 ^ 32 + length body - ?n \<and> payloadLength pk > length raw"
    using network_order.setRtpPacketFromBytes_reads [OF net meta_eq_to_obj_eq [OF raw_def [unfolded hdr_def]] cc ext] x' sub
    by (simp add: setRtpPacket_def)
qed

theorem rtp_parser_extension_unchecked_witness:
  "setRtpPacketFromBytes little_endian_host (Some [144, 96, 0, 9, 1, 2, 3, 4, 5, 6, 7, 8]) 12 (Some sample_packet) = None \<and>
   (\<exists>pk. setRtpPacketFromBytes little_endian_host
           (Some ([144, 96, 0, 9, 1, 2, 3, 4, 5, 6, 7, 8] @ [0, 0, 0, 1] @ []))
           (length (([144, 96, 0, 9, 1, 2, 3, 4, 5, 6, 7, 8] :: byte list) @ [0, 0, 0, 1] @ [])) (Some sample_packet) =
        Some (STATUS_SUCCESS, Some pk) \<and> payloadLength pk = 4294967292)"
  using rtp_parser_extension_unchecked [OF le_host.network_order_axioms, of 144 0 1 "[]" 96 0 9 1 2 3 4 5 6 7 8 sample_packet 0 0]
  by (auto simp: be16_def)

text \<open>
  C7. CSRC identifiers do not survive a parse/serialise cycle on a little-endian host: the
  parser keeps a pointer to the CSRC list in network byte order, the serialiser loads it
  natively and converts again, so the four bytes come out reversed (this is what
  retransmitting such a packet sends).
\<close>

theorem rtp_csrc_reversed_on_little_endian:
  fixes b1 s0 s1 t0 t1 t2 t3 c0 c1 c2 c3 k0 k1 k2 k3 :: byte and body :: "byte list"
  defines "hdr \<equiv> [129, b1, s0, s1, t0, t1, t2, t3, c0, c1, c2, c3]"
  defines "raw \<equiv> hdr @ [k0, k1, k2, k3] @ body"
  assumes len: "length raw < 2 ^ 32" "length buf = length raw"
  shows "\<exists>pk. setRtpPacketFromBytes little_endian_host (Some raw) (length raw) (Some pk0) = Some (STATUS_SUCCESS, Some pk) \<and>
      createBytesFromRtpPacket little_endian_host (Some pk) (Some buf) (length raw) =
        Some (STATUS_SUCCESS, Some (hdr @ [k3, k2, k1, k0] @ body), length raw)"
proof -
  let ?P = little_endian_host
  let ?h = "\<lparr>version = 2, padding = False, extension = False, marker = (0 < drop_bit 7 b1 AND 1), csrcCount = 1,
      payloadType = b1 AND 127, sequenceNumber = be16 s0 s1, timestamp = be32 t0 t1 t2 t3,
      ssrc = be32 c0 c1 c2 c3, csrcArray = Some ([k0, k1, k2, k3] @ body), extensionProfile = 0,
      extensionPayload = None, extensionLength = 0\<rparr>"
  let ?pk = "pk0\<lparr>header := ?h, payload := Some body, payloadLength := length body\<rparr>"
  have "setRtpPacketFromBytes ?P (Some raw) (length raw) (Some pk0) = Some (STATUS_SUCCESS, Some ?pk)"
    using len(1)
    by (simp add: setRtpPacketFromBytes_def raw_def hdr_def rd_def le_host.rdInt16_eq le_host.rdInt32_eq
        parseExtension_def setRtpPacket_def)
  moreover have "fixedHeaderBytes ?P ?h = hdr"
    using headerByte1_parsed [of b1]
    by (simp add: le_host.fixedHeaderBytes_wire headerByte0_def headerByte1_def hdr_def)
  moreover have "csrcBytes ?P (Some ([k0, k1, k2, k3] @ body)) 0 (Suc 0) = Some [k3, k2, k1, k0]"
    by (simp add: rdNative32_def little_endian_host_def)
  moreover have "RTP_GET_RAW_PACKET_SIZE ?pk = length raw"
    using len(1) by (simp add: RTP_GET_RAW_PACKET_SIZE_def RTP_HEADER_LEN_def raw_def hdr_def)
  moreover have "memwrite buf 0 (hdr @ [k3, k2, k1, k0] @ body) = Some (hdr @ [k3, k2, k1, k0] @ body)"
    using len(2) by (simp add: memwrite_in raw_def hdr_def)
  ultimately show ?thesis
    by (intro exI [of _ ?pk])
       (simp add: createBytesFromRtpPacket_def setBytesFromRtpPacket_def rdn_in Let_def)
qed

theorem rtp_csrc_reversed_on_little_endian_witness:
  "\<exists>pk. setRtpPacketFromBytes little_endian_host (Some ([129, 96, 0, 9, 1, 2, 3, 4, 5, 6, 7, 8] @ [10, 20, 30, 40] @ []))
      (length (([129, 96, 0, 9, 1, 2, 3, 4, 5, 6, 7, 8] :: byte list) @ [10, 20, 30, 40] @ [])) (Some sample_packet) =
      Some (STATUS_SUCCESS, Some pk) \<and>
      createBytesFromRtpPacket little_endian_host (Some pk) (Some (replicate 16 0))
        (length (([129, 96, 0, 9, 1, 2, 3, 4, 5, 6, 7, 8] :: byte list) @ [10, 20, 30, 40] @ [])) =
      Some (STATUS_SUCCESS, Some ([129, 96, 0, 9, 1, 2, 3, 4, 5, 6, 7, 8] @ [40, 30, 20, 10] @ []),
        length (([129, 96, 0, 9, 1, 2, 3, 4, 5, 6, 7, 8] :: byte list) @ [10, 20, 30, 40] @ []))"
  by (rule rtp_csrc_reversed_on_little_endian
        [of 96 0 9 1 2 3 4 5 6 7 8 10 20 30 40 "[]" "replicate 16 0" sample_packet]) simp_all

text \<open>The packets of one frame: helper facts about the loop of \<^verbatim>\<open>constructRtpPackets\<close>.\<close>

lemma GET_UINT16_SEQ_NUM_next: "GET_UINT16_SEQ_NUM (unat sn + 1) = sn + 1"
proof -
  have "(word_of_nat (unat sn + 1) :: u16) = sn + 1" by simp
  moreover have "(word_of_nat (n mod 65536) :: u16) = word_of_nat n" for n
    by (rule word_unat_eq_iff [THEN iffD2]) (simp add: unat_of_nat)
  ultimately show ?thesis by (simp add: GET_UINT16_SEQ_NUM_def)
qed

definition frame_packet :: "byte list \<Rightarrow> nat list \<Rightarrow> nat \<Rightarrow> byte \<Rightarrow> u16 \<Rightarrow> u32 \<Rightarrow> u32 \<Rightarrow> RtpPacket \<Rightarrow> nat \<Rightarrow> nat \<Rightarrow> RtpPacket" where
  "frame_packet buf subs n pt sn ts ss pk i k =
     pk\<lparr>header := \<lparr>version = 2, padding = False, extension = False, marker = (i = n - 1), csrcCount = 0,
          payloadType = pt, sequenceNumber = sn + word_of_nat k, timestamp = ts, ssrc = ss, csrcArray = None,
          extensionProfile = 0, extensionPayload = None, extensionLength = 0\<rparr>,
        payload := Some (drop (sum_list (take k subs)) buf), payloadLength := subs ! k\<rparr>"

lemma constructRtpPackets_loop_eq:
  "i + length ls \<le> length pkts \<Longrightarrow>
   constructRtpPackets_loop cur ls i n pt sn ts ss pkts =
     (STATUS_SUCCESS, take i pkts @ map (\<lambda>k. frame_packet cur ls n pt sn ts ss (pkts ! (i + k)) (i + k) k) [0..<length ls] @
        drop (i + length ls) pkts)"
proof (induction ls arbitrary: cur i sn pkts)
  case Nil
  then show ?case by simp
next
  case (Cons l ls)
  let ?p = "frame_packet cur (l # ls) n pt sn ts ss (pkts ! i) i 0"
  have i: "i < length pkts" using Cons.prems by simp
  have step: "constructRtpPackets_loop cur (l # ls) i n pt sn ts ss pkts =
      constructRtpPackets_loop (drop l cur) ls (Suc i) n pt (sn + 1) ts ss (pkts[i := ?p])"
    by (simp add: setRtpPacket_def GET_UINT16_SEQ_NUM_next [simplified] frame_packet_def)
  have shift: "frame_packet (drop l cur) ls n pt (sn + 1) ts ss pk (Suc (i + k)) k =
      frame_packet cur (l # ls) n pt sn ts ss pk (i + Suc k) (Suc k)" for pk k
    by (simp add: frame_packet_def algebra_simps)
  have m: "map (\<lambda>k. frame_packet cur (l # ls) n pt sn ts ss (pkts ! (i + k)) (i + k) k) [0..<length (l # ls)] =
      ?p # map (\<lambda>k. frame_packet cur (l # ls) n pt sn ts ss (pkts ! (i + Suc k)) (i + Suc k) (Suc k)) [0..<length ls]"
    by (simp add: upt_conv_Cons map_Suc_upt [symmetric] del: upt_Suc)
  show ?case
    unfolding step using Cons.IH [of "Suc i" "pkts[i := ?p]" "drop l cur" "sn + 1"] Cons.prems i
    unfolding m by (simp add: shift take_Suc_conv_app_nth take_update_cancel del: upt_Suc constructRtpPackets_loop.simps)
qed

text \<open>
  C8. Splitting a payload array into packets: packet \<open>k\<close> of a frame carries exactly the
  \<open>k\<close>-th sub-payload, consecutive sequence numbers modulo 2^16 starting at the given one,
  the same timestamp and SSRC, and the marker bit on the last packet only.  The array of
  packets is written nowhere else.
\<close>

theorem constructRtpPackets_frame:
  assumes "pa_payloadLength a > 0" "pa_payloadSubLenSize a = length (pa_payloadSubLength a)"
    "length (pa_payloadSubLength a) \<le> packetCount" "packetCount = length pkts"
  shows "\<exists>pkts'. constructRtpPackets (Some a) pt sn ts ss (Some pkts) packetCount = (STATUS_SUCCESS, Some pkts') \<and>
     length pkts' = length pkts \<and>
     (\<forall>k < length pkts. if k < length (pa_payloadSubLength a)
        then pkts' ! k = frame_packet (pa_payloadBuffer a) (pa_payloadSubLength a) (length (pa_payloadSubLength a))
                           pt sn ts ss (pkts ! k) k k
        else pkts' ! k = pkts ! k)"
  using assms constructRtpPackets_loop_eq [of 0 "pa_payloadSubLength a" pkts "pa_payloadBuffer a"
      "length (pa_payloadSubLength a)" pt sn ts ss]
  by (auto simp: constructRtpPackets_def nth_append)

theorem constructRtpPackets_frame_witness:
  "\<exists>pkts'. constructRtpPackets (Some \<lparr>pa_payloadBuffer = [1, 2, 3], pa_payloadLength = 3, pa_payloadSubLength = [2, 1],
       pa_payloadSubLenSize = 2\<rparr>) 96 65535 5 6 (Some [sample_packet, sample_packet]) 2 = (STATUS_SUCCESS, Some pkts') \<and>
     sequenceNumber (header (pkts' ! 1)) = 0 \<and> marker (header (pkts' ! 1)) \<and> \<not> marker (header (pkts' ! 0)) \<and>
     payload (pkts' ! 1) = Some [3]"
proof -
  have all2: "(\<forall>k < Suc (Suc 0). Q k) \<longleftrightarrow> Q 0 \<and> Q 1" for Q :: "nat \<Rightarrow> bool"
    by (auto simp: less_Suc_eq)
  have wrap: "(65535 :: u16) + 1 = 0" by code_simp
  show ?thesis
    using constructRtpPackets_frame [of "\<lparr>pa_payloadBuffer = [1, 2, 3], pa_payloadLength = 3, pa_payloadSubLength = [2, 1],
       pa_payloadSubLenSize = 2\<rparr>" 2 "[sample_packet, sample_packet]" 96 65535 5 6]
    by (auto simp: frame_packet_def all2 wrap)
qed

end
