(* ===== verification/RtpRollingBuffer.thy ===== *)
theory RtpRollingBuffer
  imports RollingBuffer RtpPacket
begin

text \<open>
  \<^verbatim>\<open>src/source/Rtcp/RtpRollingBuffer.c\<close>: the rolling buffer of sent RTP packets and the
  translation of requested sequence numbers into buffer indices.

  The index list the caller passes is memory of \<^verbatim>\<open>UINT64\<close> slots; writing beyond it, reading
  the request list beyond its end or dereferencing a \<^verbatim>\<open>NULL\<close> length is \<open>None\<close>.  The write
  pointer of the result list and \<^verbatim>\<open>returnPacketCount\<close> move together in the source, so one
  counter stands for both.
\<close>

subsection \<open>State and operations\<close>

record RtpRollingBuffer =
  pRollingBuffer :: "RtpPacket RollingBuffer option"
  lastIndex :: nat

definition SIZEOF_RtpRollingBuffer :: nat where
  "SIZEOF_RtpRollingBuffer = 16"

definition freeRtpRollingBufferData :: "RtpPacket option \<Rightarrow> STATUS \<times> RtpPacket option" where
  "freeRtpRollingBufferData pData =
     (case freeRtpPacket pData of (st, left) \<Rightarrow> (if STATUS_FAILED st then st else STATUS_SUCCESS, left))"

definition createRtpRollingBuffer ::
  "platform \<Rightarrow> RtpRollingBuffer \<Rightarrow> nat \<Rightarrow> STATUS \<times> RtpRollingBuffer option" where
  "createRtpRollingBuffer P fresh cap =
     (if cap = 0 then (STATUS_INVALID_ARG, None)
      else if \<not> memalloc P SIZEOF_RtpRollingBuffer then (STATUS_NOT_ENOUGH_MEMORY, None)
      else (case createRollingBuffer P cap (Some freeRtpRollingBufferData) of
              (st, rb) \<Rightarrow> (st, Some (fresh\<lparr>pRollingBuffer := rb\<rparr>))))"

definition freeRtpRollingBuffer ::
  "RtpRollingBuffer option \<Rightarrow> STATUS \<times> RtpRollingBuffer option \<times> RtpPacket option list" where
  "freeRtpRollingBuffer prb =
     (case prb of
        None \<Rightarrow> (STATUS_SUCCESS, None, [])
      | Some rrb \<Rightarrow> (case freeRollingBuffer (pRollingBuffer rrb) of (_, _, freed) \<Rightarrow> (STATUS_SUCCESS, None, freed)))"

definition rtpRollingBufferAddRtpPacket ::
  "platform \<Rightarrow> RtpPacket \<Rightarrow> RtpRollingBuffer option \<Rightarrow> RtpPacket option \<Rightarrow>
   (STATUS \<times> RtpRollingBuffer option \<times> RtpPacket option list) option" where
  "rtpRollingBufferAddRtpPacket P fresh prb pRtpPacket =
     (case (prb, pRtpPacket) of
        (Some rrb, Some pkt) \<Rightarrow>
          if \<not> memalloc P (rawPacketLength pkt) then Some (STATUS_NOT_ENOUGH_MEMORY, prb, [])
          else do {
            raw \<leftarrow> pRawPacket pkt;
            copy \<leftarrow> rdn raw 0 (rawPacketLength pkt);
            (st, pkt') \<leftarrow> createRtpPacketFromBytes P fresh (Some copy) (rawPacketLength pkt);
            if STATUS_FAILED st then Some (st, prb, [])
            else (case rollingBufferAppendData (pRollingBuffer rrb) pkt' of
                    (st1, rb', index, freed) \<Rightarrow>
                      if STATUS_FAILED st1 then Some (st1, Some (rrb\<lparr>pRollingBuffer := rb'\<rparr>), freed)
                      else do { i \<leftarrow> index;
                                Some (STATUS_SUCCESS, Some (rrb\<lparr>pRollingBuffer := rb', lastIndex := i\<rparr>), freed) }) }
      | _ \<Rightarrow> Some (STATUS_NULL_ARG, prb, []))"

text \<open>The index computed for one requested sequence number; \<open>None\<close> when it is not found.\<close>

definition seqToIndex :: "nat \<Rightarrow> nat \<Rightarrow> u16 \<Rightarrow> u16 \<Rightarrow> bool \<Rightarrow> u16 \<Rightarrow> nat option" where
  "seqToIndex lastIdx sz startSeq endSeq crossMaxSeq seqNum =
     (if (\<not> crossMaxSeq \<and> seqNum \<ge> startSeq \<and> seqNum \<le> endSeq) \<or> (crossMaxSeq \<and> seqNum \<ge> startSeq)
      then Some (sub64 (wrap64 (sub64 lastIdx sz + 1 + unat seqNum)) (unat startSeq))
      else if crossMaxSeq \<and> seqNum \<le> endSeq
      then Some (wrap64 (sub64 lastIdx (unat endSeq) + unat seqNum))
      else None)"

fun validSeqIndex_loop ::
  "(u16 \<Rightarrow> nat option) \<Rightarrow> u16 list \<Rightarrow> nat \<Rightarrow> nat \<Rightarrow> nat \<Rightarrow> nat list \<Rightarrow> nat option \<Rightarrow> (nat list \<times> nat) option" where
  "validSeqIndex_loop toIndex seqs index 0 returnPacketCount out cap = Some (out, returnPacketCount)"
| "validSeqIndex_loop toIndex seqs index (Suc n) returnPacketCount out cap =
     do { seqNum \<leftarrow> rd seqs index;
          (case toIndex seqNum of
             None \<Rightarrow> validSeqIndex_loop toIndex seqs (index + 1) n returnPacketCount out cap
           | Some i \<Rightarrow> do {
               out1 \<leftarrow> memwrite out returnPacketCount [i];
               c \<leftarrow> cap;
               if \<not> returnPacketCount + 1 < c then Some (out1, returnPacketCount + 1)
               else do {
                 out2 \<leftarrow> memwrite out1 (returnPacketCount + 1) [0];
                 validSeqIndex_loop toIndex seqs (index + 1) n (returnPacketCount + 1) out2 cap } }) }"

definition rtpRollingBufferGetValidSeqIndexList ::
  "RtpRollingBuffer option \<Rightarrow> u16 list option \<Rightarrow> nat \<Rightarrow> nat list option \<Rightarrow> nat option \<Rightarrow>
   (STATUS \<times> nat list option \<times> nat option) option" where
  "rtpRollingBufferGetValidSeqIndexList prb pSequenceNumberList sequenceNumberListLen pValidSeqIndexList pValidIndexListLen =
     (case (prb, pValidSeqIndexList, pSequenceNumberList) of
        (Some rrb, Some out, Some seqs) \<Rightarrow>
          (case rollingBufferGetSize (pRollingBuffer rrb) of
             (st, sz) \<Rightarrow>
               if STATUS_FAILED st then Some (st, Some out, map_option (\<lambda>_. 0) pValidIndexListLen)
               else if \<not> sz > 0 then Some (STATUS_SUCCESS, Some out, map_option (\<lambda>_. 0) pValidIndexListLen)
               else do {
                 let startSeq = GET_UINT16_SEQ_NUM (wrap64 (sub64 (lastIndex rrb) sz + 1));
                 let endSeq = GET_UINT16_SEQ_NUM (lastIndex rrb);
                 let crossMaxSeq = (startSeq \<ge> endSeq);
                 (out', count) \<leftarrow> validSeqIndex_loop (seqToIndex (lastIndex rrb) sz startSeq endSeq crossMaxSeq)
                                   seqs 0 sequenceNumberListLen 0 out pValidIndexListLen;
                 Some (STATUS_SUCCESS, Some out', map_option (\<lambda>_. count) pValidIndexListLen) })
      | _ \<Rightarrow> Some (STATUS_NULL_ARG, pValidSeqIndexList, map_option (\<lambda>_. 0) pValidIndexListLen))"

subsection \<open>Invariant and reference lookup\<close>

text \<open>
  The packet with sequence number \<open>s\<close> sits at the index of the window that is congruent to
  \<open>s\<close> modulo 2^16; \<open>seq_lookup\<close> searches the window for it.
\<close>

definition seq_lookup :: "'a RollingBuffer \<Rightarrow> u16 \<Rightarrow> nat option" where
  "seq_lookup rb s = find (\<lambda>i. GET_UINT16_SEQ_NUM i = s) [tailIndex rb..<headIndex rb]"

definition rrb_inv :: "RtpRollingBuffer \<Rightarrow> bool" where
  "rrb_inv rrb \<longleftrightarrow>
     (case pRollingBuffer rrb of
        None \<Rightarrow> False
      | Some rb \<Rightarrow> rb_inv rb \<and> freeDataFn rb = Some freeRtpRollingBufferData \<and>
                   (tailIndex rb < headIndex rb \<longrightarrow> lastIndex rrb + 1 = headIndex rb))"

lemma GET_UINT16_eq_iff: "GET_UINT16_SEQ_NUM i = s \<longleftrightarrow> i mod 65536 = unat s"
proof -
  have "unat (GET_UINT16_SEQ_NUM i) = i mod 65536"
    by (simp add: GET_UINT16_SEQ_NUM_def unat_of_nat)
  then show ?thesis by (metis word_unat_eq_iff)
qed

lemma unat_GET_UINT16: "unat (GET_UINT16_SEQ_NUM i) = i mod 65536"
  by (simp add: GET_UINT16_SEQ_NUM_def unat_of_nat)

lemma find_upt_unique:
  fixes i lo hi :: nat
  assumes "lo \<le> i" "i < hi" "Q i" "\<And>j. lo \<le> j \<Longrightarrow> j < hi \<Longrightarrow> Q j \<Longrightarrow> j = i"
  shows "find Q [lo..<hi] = Some i"
proof -
  obtain j where "find Q [lo..<hi] = Some j"
    using assms(1-3) by (cases "find Q [lo..<hi]") (auto simp: find_None_iff)
  then have "lo \<le> j" "j < hi" "Q j" by (auto simp: find_Some_iff)
  with assms(4) \<open>find Q [lo..<hi] = Some j\<close> show ?thesis by blast
qed

text \<open>Differences of 64-bit counters are exact as long as the true result fits.\<close>

lemma wrap64_sub64_add:
  assumes "b \<le> a + k" "b < 2 ^ 64"
  shows "wrap64 (sub64 a b + k) = wrap64 (a + k - b)"
proof -
  have "(a + 2 ^ 64 - b mod 2 ^ 64 + k) mod 2 ^ 64 = (a + k - b + 2 ^ 64) mod 2 ^ 64"
    using assms by (intro arg_cong [where f = "\<lambda>x. x mod 2 ^ 64"]) simp
  then show ?thesis by (simp add: wrap64_def sub64_def mod_add_left_eq)
qed

lemma mod_sub_exact:
  fixes a b M :: nat
  assumes "b \<le> a" "a - b < M" "b < M"
  shows "(a mod M + M - b) mod M = a - b"
proof -
  have "(a mod M + M - b) mod M = (a mod M + (M - b)) mod M" using assms by simp
  also have "\<dots> = (a + (M - b)) mod M" by (rule mod_add_left_eq)
  also have "a + (M - b) = (a - b) + M" using assms by simp
  finally show ?thesis using assms by (simp only: mod_add_self2 mod_less)
qed

lemma sub64_wrap64: "b \<le> a \<Longrightarrow> a - b < 2 ^ 64 \<Longrightarrow> b < 2 ^ 64 \<Longrightarrow> sub64 (wrap64 a) b = a - b"
  using mod_sub_exact [of b a "2 ^ 64"] by (simp add: sub64_def wrap64_def)

text \<open>The window arithmetic: \<open>t..<h\<close> is the window.\<close>

lemma find_seq_window:
  fixes t h :: nat and s :: u16
  assumes "t < h" "h \<le> t + 65536"
  shows "find (\<lambda>i. GET_UINT16_SEQ_NUM i = s) [t..<h] =
     (let i = (if t mod 65536 \<le> unat s then t + unat s - t mod 65536 else t + 65536 + unat s - t mod 65536)
      in if i < h then Some i else None)"
proof -
  define q a n where "q = t div 65536" and "a = t mod 65536" and "n = unat s"
  have t: "t = 65536 * q + a" "a < 65536" and n: "n < 65536"
    using unat_u16_less [of s] by (simp_all add: q_def a_def n_def)
  define i where "i = (if a \<le> n then 65536 * q + n else 65536 * (q + 1) + n)"
  have i: "i = (if a \<le> n then t + n - a else t + 65536 + n - a)" "i mod 65536 = n"
    using t n by (simp add: i_def, simp add: i_def del: mult_Suc_right add_mult_distrib2)
  have g: "(if t mod 65536 \<le> unat s then t + unat s - t mod 65536 else t + 65536 + unat s - t mod 65536) = i"
    using i(1) unfolding a_def n_def by simp
  have uniq: "j = i" if "t \<le> j" "j < t + 65536" "j mod 65536 = n" for j
  proof -
    define e where "e = j div 65536"
    have j: "j = 65536 * e + n" using that(3) by (auto simp: e_def)
    consider "e < q" | "e = q" | "e = q + 1" | "q + 1 < e" by linarith
    then show ?thesis
      by cases (use that(1,2) t n in \<open>simp_all add: j i_def\<close>)
  qed
  show ?thesis
  proof (cases "i < h")
    case True
    then have "find (\<lambda>i. GET_UINT16_SEQ_NUM i = s) [t..<h] = Some i"
      using t n i uniq assms(2)
      by (intro find_upt_unique) (auto simp: GET_UINT16_eq_iff n_def [symmetric] split: if_splits)
    with True show ?thesis by (simp add: Let_def g)
  next
    case False
    then have "find (\<lambda>i. GET_UINT16_SEQ_NUM i = s) [t..<h] = None"
      using uniq assms(2) by (force simp: find_None_iff GET_UINT16_eq_iff n_def [symmetric])
    with False show ?thesis by (simp add: Let_def g)
  qed
qed

lemma seqToIndex_window:
  fixes t h :: nat and s :: u16
  assumes "t + 2 \<le> h" "h \<le> t + 65536" "h < 2 ^ 64"
  shows "seqToIndex (h - 1) (h - t) (GET_UINT16_SEQ_NUM t) (GET_UINT16_SEQ_NUM (h - 1))
           (GET_UINT16_SEQ_NUM t \<ge> GET_UINT16_SEQ_NUM (h - 1)) s =
         find (\<lambda>i. GET_UINT16_SEQ_NUM i = s) [t..<h]"
proof -
  define a b n where "a = t mod 65536" and "b = (h - 1) mod 65536" and "n = unat s"
  have n: "n < 65536" and a: "a < 65536" "a \<le> t" and b: "b < 65536" "b \<le> h - 1"
    using unat_u16_less [of s] by (simp_all add: n_def a_def b_def)
  define d where "d = h - 1 - t"
  have d: "1 \<le> d" "d < 65536" "h = t + d + 1" using assms by (auto simp: d_def)
  have bd: "b = (if a + d < 65536 then a + d else a + d - 65536)"
  proof -
    have "b = (a + d) mod 65536" using d by (simp add: a_def b_def mod_add_left_eq)
    with a d show ?thesis by (simp add: mod_if)
  qed
  have up: "sub64 (wrap64 (sub64 (h - 1) (h - t) + 1 + n)) a = t + n - a" if "a \<le> n" "t + n - a < 2 ^ 64"
  proof -
    have "wrap64 (sub64 (h - 1) (h - t) + (1 + n)) = wrap64 (t + n)"
      using d assms(3) by (subst wrap64_sub64_add) auto
    then show ?thesis using that a by (simp add: sub64_wrap64 add.assoc)
  qed
  have dn: "wrap64 (sub64 (h - 1) b + n) = h - 1 - b + n" if "n \<le> b"
    using that b assms(3) by (subst wrap64_sub64_add) auto
  have le: "GET_UINT16_SEQ_NUM t \<ge> GET_UINT16_SEQ_NUM (h - 1) \<longleftrightarrow> b \<le> a"
    "s \<ge> GET_UINT16_SEQ_NUM t \<longleftrightarrow> a \<le> n" "s \<le> GET_UINT16_SEQ_NUM (h - 1) \<longleftrightarrow> n \<le> b"
    by (simp_all add: word_le_nat_alt unat_GET_UINT16 a_def b_def n_def)
  have "t < h" using d by simp
  note f = find_seq_window [OF this assms(2), of s, folded a_def n_def]
  show ?thesis
    unfolding f seqToIndex_def le unat_GET_UINT16 n_def [symmetric] a_def [symmetric] b_def [symmetric]
    using up dn bd a b n d assms(3) by (auto simp: Let_def split: if_splits)
qed

subsection \<open>The lookup loop against the reference\<close>

lemma validSeqIndex_loop_eq:
  assumes "index + n \<le> length seqs" "k < cap" "cap \<le> length out"
    "ids = take (cap - k) (List.map_filter f (take n (drop index seqs)))"
  shows "\<exists>out'. validSeqIndex_loop f seqs index n k out (Some cap) = Some (out', k + length ids) \<and>
     length out' = length out \<and> take (k + length ids) out' = take k out @ ids"
  using assms
proof (induction n arbitrary: index k out ids)
  case 0
  then show ?case by simp
next
  case (Suc n)
  have i: "index < length seqs" using Suc.prems(1) by simp
  have d: "take (Suc n) (drop index seqs) = seqs ! index # take n (drop (index + 1) seqs)"
    using i by (simp add: Cons_nth_drop_Suc [symmetric])
  show ?case
  proof (cases "f (seqs ! index)")
    case None
    then show ?thesis
      using Suc.IH [of "index + 1" k out ids] Suc.prems i d
      by (simp add: rd_in List.map_filter_simps)
  next
    case (Some x)
    define out1 where "out1 = take k out @ x # drop (k + 1) out"
    have w1: "memwrite out k [x] = Some out1" and l1: "length out1 = length out"
      using Suc.prems by (simp_all add: memwrite_in out1_def)
    show ?thesis
    proof (cases "k + 1 < cap")
      case False
      then have "cap - k = 1" using Suc.prems by simp
      then have "ids = [x]" using Suc.prems(4) d Some by (simp add: List.map_filter_simps)
      moreover have "take (k + 1) out1 = take k out @ [x]" using Suc.prems by (simp add: out1_def)
      ultimately show ?thesis
        using False Some i w1 l1 by (simp add: rd_in)
    next
      case True
      define out2 where "out2 = take (k + 1) out1 @ 0 # drop (k + 2) out1"
      define ids' where "ids' = take (cap - (k + 1)) (List.map_filter f (take n (drop (index + 1) seqs)))"
      have w2: "memwrite out1 (k + 1) [0] = Some out2" and l2: "length out2 = length out"
        using Suc.prems True l1 by (simp_all add: memwrite_in out2_def)
      have ids: "ids = x # ids'"
        using Suc.prems(4) d Some True
        by (simp add: List.map_filter_simps ids'_def take_Cons' Suc_diff_Suc)
      have t: "take (k + 1) out2 = take k out @ [x]"
        using Suc.prems True by (simp add: out2_def out1_def)
      obtain out' where "validSeqIndex_loop f seqs (index + 1) n (k + 1) out2 (Some cap) = Some (out', k + 1 + length ids')"
        "length out' = length out2" "take (k + 1 + length ids') out' = take (k + 1) out2 @ ids'"
        using Suc.IH [of "index + 1" "k + 1" out2 ids'] Suc.prems True l2 ids'_def by auto
      then show ?thesis
        using True Some i w1 w2 l2 ids t by (simp add: rd_in)
    qed
  qed
qed

subsection \<open>Adding packets\<close>

lemma freeRtpRollingBufferData_ok [simp]: "freeRtpRollingBufferData d = (STATUS_SUCCESS, None)"
  by (simp add: freeRtpRollingBufferData_def freeRtpPacket_def)

lemma createRtpRollingBuffer_ok:
  "createRtpRollingBuffer P fresh cap = (STATUS_SUCCESS, Some rrb) \<Longrightarrow> cap < 2 ^ 32 \<Longrightarrow>
   rrb_inv rrb \<and> (\<exists>rb. pRollingBuffer rrb = Some rb \<and> window rb = [] \<and> headIndex rb = 0 \<and> capacity rb = cap)"
  by (auto simp: createRtpRollingBuffer_def rrb_inv_def createRollingBuffer_def rb_inv_def window_def
      split: if_splits prod.splits)

lemma rrb_invE:
  assumes "rrb_inv rrb"
  obtains rb where "pRollingBuffer rrb = Some rb" "rb_inv rb" "rb_ready rb"
    "freeDataFn rb = Some freeRtpRollingBufferData" "tailIndex rb < headIndex rb \<longrightarrow> lastIndex rrb + 1 = headIndex rb"
  using assms by (cases "pRollingBuffer rrb") (auto simp: rrb_inv_def rb_ready_def frees_all_def)

context network_order
begin

lemma rtpRollingBufferAddRtpPacket_ok:
  assumes inv: "rrb_inv rrb" and rb: "pRollingBuffer rrb = Some rb" and room: "headIndex rb + 1 < 2 ^ 64"
    and alloc: "\<And>n. memalloc P n"
    and raw: "pRawPacket pkt = Some raw" "rawPacketLength pkt = length raw" "rtp_fits raw"
  shows "\<exists>rrb' rb' pk. rtpRollingBufferAddRtpPacket P fresh (Some rrb) (Some pkt) =
       Some (STATUS_SUCCESS, Some rrb', take (length (window rb) + 1 - capacity rb) (window rb)) \<and>
     rrb_inv rrb' \<and> pRollingBuffer rrb' = Some rb' \<and> capacity rb' = capacity rb \<and>
     headIndex rb' = headIndex rb + 1 \<and> lastIndex rrb' = headIndex rb \<and>
     tailIndex rb' = tailIndex rb + (length (window rb) + 1 - capacity rb) \<and>
     window rb' = drop (length (window rb) + 1 - capacity rb) (window rb @ [Some pk]) \<and>
     createRtpPacketFromBytes P fresh (Some raw) (length raw) = Some (STATUS_SUCCESS, Some pk)"
proof -
  obtain pk where pk: "createRtpPacketFromBytes P fresh (Some raw) (length raw) = Some (STATUS_SUCCESS, Some pk)"
    using rtp_fits_parse [OF raw(3), of "fresh\<lparr>pRawPacket := Some raw, rawPacketLength := length raw\<rparr>"] alloc
    by (auto simp: createRtpPacketFromBytes_def)
  have ready: "rb_inv rb" "frees_all rb" "freeDataFn rb = Some freeRtpRollingBufferData"
    using rb by (rule_tac [!] rrb_invE [OF inv]; simp add: rb_ready_def)+
  obtain rb' where a: "rollingBufferAppendData (Some rb) (Some pk) =
      (STATUS_SUCCESS, Some rb', Some (headIndex rb), take (length (window rb) + 1 - capacity rb) (window rb))"
    "rb_inv rb'" "window rb' = drop (length (window rb) + 1 - capacity rb) (window rb @ [Some pk])"
    "tailIndex rb' = tailIndex rb + (length (window rb) + 1 - capacity rb)"
    "headIndex rb' = headIndex rb + 1" "capacity rb' = capacity rb" "freeDataFn rb' = freeDataFn rb"
    using rollingBufferAppendData_ok [OF ready(1,2) room, of "Some pk"] ready(3) by (metis option.distinct(1))
  have "rdn raw 0 (length raw) = Some raw" by (simp add: rdn_def)
  then show ?thesis
    using a pk raw rb alloc ready(3)
    by (auto simp: rtpRollingBufferAddRtpPacket_def rrb_inv_def)
qed

lemma parse_sequenceNumber:
  assumes "createRtpPacketFromBytes P fresh (Some raw) n = Some (STATUS_SUCCESS, Some pk)"
  shows "sequenceNumber (header pk) = be16 (raw ! 2) (raw ! 3)"
  using assms
  by (auto simp: createRtpPacketFromBytes_def setRtpPacketFromBytes_def setRtpPacket_def Let_def rdInt16_eq
      split: if_splits option.splits Option.bind_splits prod.splits)

end

text \<open>
  Packets added one after the other; \<open>rrb_numbered\<close> says that the slot of index \<open>i\<close> holds
  the packet whose sequence number is \<open>i\<close> modulo 2^16.
\<close>

fun rrb_run ::
  "platform \<Rightarrow> RtpPacket \<Rightarrow> RtpRollingBuffer \<Rightarrow> RtpPacket list \<Rightarrow> (STATUS \<times> RtpRollingBuffer) option" where
  "rrb_run P fresh rrb [] = Some (STATUS_SUCCESS, rrb)"
| "rrb_run P fresh rrb (pkt # pkts) =
     do { (st, prb, _) \<leftarrow> rtpRollingBufferAddRtpPacket P fresh (Some rrb) (Some pkt);
          if STATUS_FAILED st then Some (st, the prb) else rrb_run P fresh (the prb) pkts }"

definition raw_numbered :: "RtpPacket \<Rightarrow> nat \<Rightarrow> bool" where
  "raw_numbered pkt k \<longleftrightarrow>
     (case pRawPacket pkt of
        None \<Rightarrow> False
      | Some raw \<Rightarrow> rawPacketLength pkt = length raw \<and> rtp_fits raw \<and> be16 (raw ! 2) (raw ! 3) = GET_UINT16_SEQ_NUM k)"

definition rrb_numbered :: "RtpPacket RollingBuffer \<Rightarrow> bool" where
  "rrb_numbered rb \<longleftrightarrow>
     (\<forall>k < length (window rb). \<exists>pk. window rb ! k = Some pk \<and>
        sequenceNumber (header pk) = GET_UINT16_SEQ_NUM (tailIndex rb + k))"

lemma rrb_run_numbered:
  assumes "network_order P" "\<And>n. memalloc P n" "rrb_inv rrb" "pRollingBuffer rrb = Some rb" "rrb_numbered rb"
    and "headIndex rb + length pkts < 2 ^ 64" "\<And>k. k < length pkts \<Longrightarrow> raw_numbered (pkts ! k) (headIndex rb + k)"
  shows "\<exists>rrb' rb'. rrb_run P fresh rrb pkts = Some (STATUS_SUCCESS, rrb') \<and> rrb_inv rrb' \<and>
     pRollingBuffer rrb' = Some rb' \<and> rrb_numbered rb' \<and> headIndex rb' = headIndex rb + length pkts \<and>
     tailIndex rb' = max (tailIndex rb) (headIndex rb + length pkts - capacity rb)"
  using assms(3-7)
proof (induction pkts arbitrary: rrb rb)
  case Nil
  then have "headIndex rb \<le> tailIndex rb + capacity rb" by (auto simp: rrb_inv_def rb_inv_def)
  with Nil show ?case by auto
next
  case (Cons pkt pkts)
  let ?k = "length (window rb) + 1 - capacity rb"
  have inv: "rb_inv rb" using Cons.prems(1,2) by (simp add: rrb_inv_def)
  have rest: "raw_numbered (pkts ! k) (headIndex rb + 1 + k)" if "k < length pkts" for k
    using Cons.prems(5) [of "Suc k"] that by simp
  from Cons.prems(5) [of 0] obtain raw where raw: "pRawPacket pkt = Some raw" "rawPacketLength pkt = length raw"
    "rtp_fits raw" "be16 (raw ! 2) (raw ! 3) = GET_UINT16_SEQ_NUM (headIndex rb)"
    by (auto simp: raw_numbered_def split: option.splits)
  have room: "headIndex rb + 1 < 2 ^ 64" using Cons.prems(4) by simp
  obtain rrb1 rb1 pk where a: "rtpRollingBufferAddRtpPacket P fresh (Some rrb) (Some pkt) =
       Some (STATUS_SUCCESS, Some rrb1, take ?k (window rb))" "rrb_inv rrb1" "pRollingBuffer rrb1 = Some rb1"
     "capacity rb1 = capacity rb" "headIndex rb1 = headIndex rb + 1" "tailIndex rb1 = tailIndex rb + ?k"
     "window rb1 = drop ?k (window rb @ [Some pk])"
     and pk: "createRtpPacketFromBytes P fresh (Some raw) (length raw) = Some (STATUS_SUCCESS, Some pk)"
    using network_order.rtpRollingBufferAddRtpPacket_ok
      [OF assms(1) Cons.prems(1,2) room assms(2) raw(1-3), of fresh] by blast
  have sn: "sequenceNumber (header pk) = GET_UINT16_SEQ_NUM (headIndex rb)"
    using network_order.parse_sequenceNumber [OF assms(1) pk] raw(4) by simp
  have le: "?k \<le> 1" "tailIndex rb \<le> headIndex rb" "headIndex rb \<le> tailIndex rb + capacity rb" "0 < capacity rb"
    using inv by (auto simp: rb_inv_def)
  have "rrb_numbered rb1"
    unfolding rrb_numbered_def
  proof (intro allI impI)
    fix k assume "k < length (window rb1)"
    then have k: "k + ?k \<le> length (window rb)" using a(7) le by auto
    then have nth: "window rb1 ! k = (window rb @ [Some pk]) ! (k + ?k)"
      unfolding a(7) by (subst nth_drop) (simp_all add: add.commute del: length_window)
    show "\<exists>pk. window rb1 ! k = Some pk \<and> sequenceNumber (header pk) = GET_UINT16_SEQ_NUM (tailIndex rb1 + k)"
    proof (cases "k + ?k < length (window rb)")
      case True
      then show ?thesis using Cons.prems(3) nth a(6)
        by (auto simp: rrb_numbered_def nth_append add.assoc add.commute [of k] simp del: length_window)
    next
      case False
      then have e: "k + ?k = length (window rb)" using k by simp
      then have "tailIndex rb1 + k = headIndex rb" using a(6) le(2) by simp
      then show ?thesis using nth sn by (simp only: e nth_append_length) simp
    qed
  qed
  moreover have "headIndex rb1 + length pkts < 2 ^ 64" using a(5) Cons.prems(4) by simp
  moreover have "raw_numbered (pkts ! k) (headIndex rb1 + k)" if "k < length pkts" for k
    using rest [OF that] a(5) by simp
  ultimately obtain rrb' rb' where "rrb_run P fresh rrb1 pkts = Some (STATUS_SUCCESS, rrb')" "rrb_inv rrb'"
     "pRollingBuffer rrb' = Some rb'" "rrb_numbered rb'" "headIndex rb' = headIndex rb1 + length pkts"
     "tailIndex rb' = max (tailIndex rb1) (headIndex rb1 + length pkts - capacity rb1)"
    using Cons.IH [OF a(2,3)] by blast
  moreover have "max (tailIndex rb1) (headIndex rb1 + length pkts - capacity rb1) =
      max (tailIndex rb) (headIndex rb + length (pkt # pkts) - capacity rb)"
    using a(4-6) le by (auto simp: max_def)
  ultimately show ?case using a(1,4-6) by auto
qed

lemma rtpRollingBufferGetValidSeqIndexList_eq:
  assumes "rrb_inv rrb" "pRollingBuffer rrb = Some rb"
    and "2 \<le> length (window rb)" "length (window rb) \<le> 65536"
    and "n \<le> length seqs" "0 < cap" "cap \<le> length out"
    and "ids = take cap (List.map_filter (seq_lookup rb) (take n seqs))"
  shows "\<exists>out'. rtpRollingBufferGetValidSeqIndexList (Some rrb) (Some seqs) n (Some out) (Some cap) =
       Some (STATUS_SUCCESS, Some out', Some (length ids)) \<and>
     length out' = length out \<and> take (length ids) out' = ids"
proof -
  obtain t h where th: "tailIndex rb = t" "headIndex rb = h" by simp
  have inv: "rb_inv rb" "t + 2 \<le> h" "h \<le> t + 65536" "h < 2 ^ 64" "lastIndex rrb = h - 1"
    using assms(1-4) th by (auto simp: rrb_inv_def rb_inv_def)
  have start: "wrap64 (sub64 (lastIndex rrb) (h - t) + 1) = t"
    using inv wrap64_sub64_add [of "h - t" "h - 1" 1] by simp
  have f: "seqToIndex (lastIndex rrb) (h - t) (GET_UINT16_SEQ_NUM t) (GET_UINT16_SEQ_NUM (lastIndex rrb))
      (GET_UINT16_SEQ_NUM t \<ge> GET_UINT16_SEQ_NUM (lastIndex rrb)) = seq_lookup rb"
    using seqToIndex_window [OF inv(2-4)] inv(5) th by (simp add: seq_lookup_def fun_eq_iff)
  show ?thesis
    using validSeqIndex_loop_eq [of 0 n seqs 0 cap out ids "seq_lookup rb"] assms(2,5-8) inv(2)
      rollingBufferGetSize_ok [OF inv(1)] start f
    by (auto simp: rtpRollingBufferGetValidSeqIndexList_def th Let_def)
qed

text \<open>
  In a window of one packet the first and the last number coincide, which the code takes for a
  wrap-around: every number is reported, with the index it has in the block of 2^16 indices of the packet.
\<close>

lemma seqToIndex_single:
  assumes "t + 65536 < 2 ^ 64"
  shows "seqToIndex t 1 (GET_UINT16_SEQ_NUM t) (GET_UINT16_SEQ_NUM t) True s = Some (t - t mod 65536 + unat s)"
proof -
  have n: "unat s < 65536" by (rule unat_u16_less)
  have a: "t mod 65536 \<le> t" "t mod 65536 < 2 ^ 64" by (simp_all add: order_less_trans [OF mod_less_divisor])
  have "wrap64 (sub64 t 1 + (1 + unat s)) = wrap64 (t + unat s)" if "0 < t"
    using that assms n by (subst wrap64_sub64_add) auto
  moreover have "wrap64 (sub64 0 1 + (1 + unat s)) = wrap64 (unat s)" by (simp add: sub64_def wrap64_def)
  ultimately have up: "wrap64 (sub64 t 1 + 1 + unat s) = wrap64 (t + unat s)" by (cases "t = 0") (simp_all add: add.assoc)
  show ?thesis
  proof (cases "t mod 65536 \<le> unat s")
    case True
    then have "sub64 (wrap64 (sub64 t 1 + 1 + unat s)) (t mod 65536) = t - t mod 65536 + unat s"
      unfolding up using a n assms by (subst sub64_wrap64) auto
    then show ?thesis using True by (simp add: seqToIndex_def word_le_nat_alt unat_GET_UINT16)
  next
    case False
    moreover have "wrap64 (sub64 t (t mod 65536) + unat s) = t - t mod 65536 + unat s"
      using a n assms by (subst wrap64_sub64_add) auto
    ultimately show ?thesis by (simp add: seqToIndex_def word_le_nat_alt unat_GET_UINT16)
  qed
qed

lemma lookup_one_number:
  assumes "rrb_inv rrb" "pRollingBuffer rrb = Some rb" "length (window rb) \<le> 65536" "headIndex rb + 65536 \<le> 2 ^ 64"
  shows "\<exists>i m. rtpRollingBufferGetValidSeqIndexList (Some rrb) (Some [s]) 1 (Some [0]) (Some 1) = Some (STATUS_SUCCESS, Some [i], Some m) \<and>
    (case seq_lookup rb s of Some j \<Rightarrow> m = 1 \<and> i = j
     | None \<Rightarrow> if length (window rb) = 1 then m = 1 \<and> \<not> (tailIndex rb \<le> i \<and> i < headIndex rb) else m = 0)"
proof -
  have inv: "rb_inv rb" "tailIndex rb < headIndex rb \<longrightarrow> lastIndex rrb = headIndex rb - 1" using assms(1,2) by (auto simp: rrb_inv_def)
  consider "length (window rb) = 0" | "length (window rb) = 1" | "2 \<le> length (window rb)" by linarith
  then show ?thesis
  proof cases
    case 1
    then show ?thesis
      using assms(2) rollingBufferGetSize_ok [OF inv(1)]
      by (simp add: rtpRollingBufferGetValidSeqIndexList_def seq_lookup_def)
  next
    case 2
    then have t: "headIndex rb = Suc (tailIndex rb)" "lastIndex rrb = tailIndex rb" using inv(2) by auto
    let ?i = "tailIndex rb - tailIndex rb mod 65536 + unat s"
    have start: "wrap64 (sub64 (tailIndex rb) 1 + 1) = tailIndex rb"
    proof (cases "tailIndex rb")
      case (Suc k)
      then show ?thesis using assms(4) t(1) wrap64_sub64_add [of 1 "Suc k" 1] by simp
    qed (simp add: sub64_def wrap64_def)
    have "seqToIndex (tailIndex rb) 1 (GET_UINT16_SEQ_NUM (tailIndex rb)) (GET_UINT16_SEQ_NUM (tailIndex rb)) True s = Some ?i"
      using assms(4) t(1) by (intro seqToIndex_single) simp
    then have "rtpRollingBufferGetValidSeqIndexList (Some rrb) (Some [s]) 1 (Some [0]) (Some 1) = Some (STATUS_SUCCESS, Some [?i], Some 1)"
      using assms(2) rollingBufferGetSize_ok [OF inv(1)] t start
      by (simp add: rtpRollingBufferGetValidSeqIndexList_def Let_def rd_def memwrite_in)
    moreover have "tailIndex rb = ?i \<longleftrightarrow> GET_UINT16_SEQ_NUM (tailIndex rb) = s"
      using mod_less_eq_dividend [of "tailIndex rb" 65536] by (auto simp: GET_UINT16_eq_iff)
    ultimately show ?thesis using 2 t(1) by (auto simp: seq_lookup_def)
  next
    case 3
    define ids where "ids = take 1 (List.map_filter (seq_lookup rb) (take 1 [s]))"
    from rtpRollingBufferGetValidSeqIndexList_eq [OF assms(1,2) 3 assms(3), of 1 "[s]" 1 "[0]" ids] obtain out' where
      "rtpRollingBufferGetValidSeqIndexList (Some rrb) (Some [s]) 1 (Some [0]) (Some 1) = Some (STATUS_SUCCESS, Some out', Some (length ids))"
      "length out' = 1" "take (length ids) out' = ids"
      using ids_def by auto
    then show ?thesis using 3 by (cases "seq_lookup rb s") (auto simp: ids_def List.map_filter_simps length_Suc_conv)
  qed
qed

subsection \<open>Properties\<close>

text \<open>
  C9. Translating requested sequence numbers into buffer indices is exact: for a window of
  2 to 65536 packets the result is, in request order, the index of every requested number
  that is still in the window (across the wrap from 65535 to 0), cut at the capacity of
  the result list; nothing is written outside that list.
\<close>

theorem nack_lookup_matches_window:
  assumes "rrb_inv rrb" "pRollingBuffer rrb = Some rb"
    and "2 \<le> length (window rb)" "length (window rb) \<le> 65536"
    and "n \<le> length seqs" "0 < cap" "cap \<le> length out"
    and "ids = take cap (List.map_filter (seq_lookup rb) (take n seqs))"
  shows "\<exists>out'. rtpRollingBufferGetValidSeqIndexList (Some rrb) (Some seqs) n (Some out) (Some cap) =
       Some (STATUS_SUCCESS, Some out', Some (length ids)) \<and>
     length out' = length out \<and> take (length ids) out' = ids"
  using assms by (rule rtpRollingBufferGetValidSeqIndexList_eq)

theorem nack_lookup_matches_window_witness:
  "\<exists>rrb rb out'. pRollingBuffer rrb = Some rb \<and> tailIndex rb = 65534 \<and> headIndex rb = 65538 \<and>
     rtpRollingBufferGetValidSeqIndexList (Some rrb) (Some [1, 7, 65535]) 3 (Some [9, 9, 9]) (Some 3) =
       Some (STATUS_SUCCESS, Some out', Some 2) \<and> take 2 out' = [65537, 65535]"
proof -
  define rb :: "RtpPacket RollingBuffer" where
    "rb = \<lparr>capacity = 4, headIndex = 65538, tailIndex = 65534, dataBuffer = replicate 4 None,
           freeDataFn = Some freeRtpRollingBufferData\<rparr>"
  define rrb where "rrb = \<lparr>pRollingBuffer = Some rb, lastIndex = 65537\<rparr>"
  have inv: "rrb_inv rrb" "pRollingBuffer rrb = Some rb" "length (window rb) = 4" "tailIndex rb = 65534" "headIndex rb = 65538"
    by (simp_all add: rrb_inv_def rrb_def rb_def rb_inv_def)
  have ids: "take 3 (List.map_filter (seq_lookup rb) (take 3 [1, 7, 65535])) = [65537, 65535]"
    by (simp add: seq_lookup_def rb_def List.map_filter_simps GET_UINT16_eq_iff)
  show ?thesis
    using nack_lookup_matches_window [OF inv(1,2), of 3 "[1, 7, 65535]" 3 "[9, 9, 9]", OF _ _ _ _ _ refl]
    unfolding ids using inv by (intro exI [of _ rrb] exI [of _ rb]) (auto simp: numeral_2_eq_2)
qed

text \<open>
  C10. End to end: packets added with consecutive sequence numbers from 0 on, modulo 2^16 (as the sender
  produces them), fewer than \<open>2^64 - 65536\<close> in all, to a new buffer of at most 65536 packets are found
  again, while memory lasts.  Asking for \<open>s\<close> yields one index, and
  extracting it returns a packet whose sequence number is \<open>s\<close>, when one of the last \<open>cap\<close> packets has that
  number.  Otherwise it yields none, unless the buffer holds a single packet: then every number is
  reported, with an index outside the window, and extracting it gives NULL.
\<close>

theorem nack_lookup_returns_packet:
  assumes net: "network_order P" "\<And>n. memalloc P n"
    and cr: "createRtpRollingBuffer P fresh0 cap = (STATUS_SUCCESS, Some rrb)" "cap \<le> 65536"
    and pkts: "length pkts + 65536 \<le> 2 ^ 64" "\<And>k. k < length pkts \<Longrightarrow> raw_numbered (pkts ! k) k"
  shows "\<exists>rrb' i m. rrb_run P fresh rrb pkts = Some (STATUS_SUCCESS, rrb') \<and>
     rtpRollingBufferGetValidSeqIndexList (Some rrb') (Some [s]) 1 (Some [0]) (Some 1) =
       Some (STATUS_SUCCESS, Some [i], Some m) \<and>
     (if \<exists>k < length pkts. length pkts \<le> k + cap \<and> GET_UINT16_SEQ_NUM k = s
      then m = 1 \<and> (\<exists>rb' pk. rollingBufferExtractData (pRollingBuffer rrb') i = (STATUS_SUCCESS, rb', Some pk) \<and>
             sequenceNumber (header pk) = s)
      else if min cap (length pkts) = 1
      then m = 1 \<and> rollingBufferExtractData (pRollingBuffer rrb') i = (STATUS_SUCCESS, pRollingBuffer rrb', None)
      else m = 0)"
proof -
  have capl: "cap < 2 ^ 32" using cr(2) by simp
  from createRtpRollingBuffer_ok [OF cr(1) capl] obtain rb where rb: "rrb_inv rrb" "pRollingBuffer rrb = Some rb"
    "window rb = []" "headIndex rb = 0" "capacity rb = cap" by blast
  then have z: "tailIndex rb = 0" "rrb_numbered rb" "0 < cap" by (auto simp: rrb_inv_def rb_inv_def rrb_numbered_def)
  with rrb_run_numbered [OF net rb(1,2), of pkts fresh] rb pkts obtain rrb' rb' where r:
    "rrb_run P fresh rrb pkts = Some (STATUS_SUCCESS, rrb')" "rrb_inv rrb'" "pRollingBuffer rrb' = Some rb'"
    "rrb_numbered rb'" "headIndex rb' = length pkts" "tailIndex rb' = length pkts - cap"
    by auto
  have inv: "rb_inv rb'" using r(2,3) by (simp add: rrb_inv_def)
  have w: "length (window rb') = min cap (length pkts)" using r(5,6) by (simp add: min_def)
  have "length (window rb') \<le> 65536" "headIndex rb' + 65536 \<le> 2 ^ 64" using w cr(2) pkts(1) r(5) by simp_all
  from lookup_one_number [OF r(2,3) this, of s] obtain i m where
    g: "rtpRollingBufferGetValidSeqIndexList (Some rrb') (Some [s]) 1 (Some [0]) (Some 1) = Some (STATUS_SUCCESS, Some [i], Some m)"
    and im: "case seq_lookup rb' s of Some j \<Rightarrow> m = 1 \<and> i = j
     | None \<Rightarrow> if length (window rb') = 1 then m = 1 \<and> \<not> (tailIndex rb' \<le> i \<and> i < headIndex rb') else m = 0"
    by blast
  show ?thesis
  proof (cases "seq_lookup rb' s")
    case None
    then have "\<not> (\<exists>k < length pkts. length pkts \<le> k + cap \<and> GET_UINT16_SEQ_NUM k = s)"
      using r(5,6) by (force simp: seq_lookup_def find_None_iff)
    then show ?thesis using r(1,3) g im None w rollingBufferExtractData_out [of rb' i] by (auto split: if_splits)
  next
    case (Some j)
    then have j: "j < length pkts" "length pkts - cap \<le> j" "GET_UINT16_SEQ_NUM j = s"
      using r(5,6) by (auto simp: seq_lookup_def find_Some_iff)
    then have "\<exists>k < length pkts. length pkts \<le> k + cap \<and> GET_UINT16_SEQ_NUM k = s"
      by (intro exI [of _ j]) auto
    moreover from r(4-6) j obtain pk where "window rb' ! (j - tailIndex rb') = Some pk" "sequenceNumber (header pk) = s"
      unfolding rrb_numbered_def by (auto dest!: spec [of _ "j - tailIndex rb'"])
    ultimately show ?thesis
      using r(1,3,5,6) g im Some rollingBufferExtractData_in [OF inv, of j] j by auto
  qed
qed

theorem nack_lookup_returns_packet_witness:
  "\<exists>rrb rrb' i. createRtpRollingBuffer little_endian_host \<lparr>pRollingBuffer = None, lastIndex = 0\<rparr> 2 = (STATUS_SUCCESS, Some rrb) \<and>
     rrb_run little_endian_host sample_packet rrb
       [sample_packet\<lparr>pRawPacket := Some [128, 96, 0, 0, 1, 2, 3, 4, 5, 6, 7, 8], rawPacketLength := 12\<rparr>,
        sample_packet\<lparr>pRawPacket := Some [128, 96, 0, 1, 1, 2, 3, 4, 5, 6, 7, 8], rawPacketLength := 12\<rparr>] =
       Some (STATUS_SUCCESS, rrb') \<and>
     rtpRollingBufferGetValidSeqIndexList (Some rrb') (Some [1]) 1 (Some [0]) (Some 1) =
       Some (STATUS_SUCCESS, Some [i], Some 1)"
proof -
  let ?pkts = "[sample_packet\<lparr>pRawPacket := Some [128, 96, 0, 0, 1, 2, 3, 4, 5, 6, 7, 8], rawPacketLength := 12\<rparr>,
        sample_packet\<lparr>pRawPacket := Some [128, 96, 0, 1, 1, 2, 3, 4, 5, 6, 7, 8], rawPacketLength := 12\<rparr>]"
  obtain rrb where rrb: "createRtpRollingBuffer little_endian_host \<lparr>pRollingBuffer = None, lastIndex = 0\<rparr> 2 = (STATUS_SUCCESS, Some rrb)"
    by (simp add: createRtpRollingBuffer_def createRollingBuffer_def little_endian_host_def)
  have num: "raw_numbered (?pkts ! k) k" if "k < length ?pkts" for k
  proof -
    from that have "k = 0 \<or> k = 1" by auto
    then show ?thesis by (auto simp: raw_numbered_def rtp_fits_def be16_def GET_UINT16_SEQ_NUM_def)
  qed
  have "\<exists>k < length ?pkts. length ?pkts \<le> k + 2 \<and> GET_UINT16_SEQ_NUM k = (1 :: u16)"
    by (rule exI [of _ 1]) (simp add: GET_UINT16_SEQ_NUM_def)
  then show ?thesis
    using nack_lookup_returns_packet [OF le_host.network_order_axioms _ rrb, of ?pkts sample_packet 1] num rrb
    by (auto simp: little_endian_host_def)
qed

end
