(* ===== verification/RtpPayloader.thy ===== *)
theory RtpPayloader
  imports RtpPacket
begin

text \<open>
  The interface between the RTP sender, the codecs' payloaders and the jitter buffer:
  \<^verbatim>\<open>RtpPayloadFunc\<close> (\<^verbatim>\<open>createPayloadFor...\<close>) and \<^verbatim>\<open>DepayRtpPayloadFunc\<close>
  (\<^verbatim>\<open>depay...FromRtpPayload\<close>).

  Both are called twice: with a \<^verbatim>\<open>NULL\<close> buffer to learn the sizes, then with buffers of
  those sizes.  The locale \<open>rtp_payloader\<close> states the two-pass contract against a reference
  packetisation \<open>packets\<close>; \<open>mtu_payloader\<close> adds the bound by the MTU; \<open>rtp_codec\<close> adds the
  receiving side and what the receiver gets back.  Every codec theory interprets them on
  the functions of its C file.
\<close>

text \<open>Status, payload buffer, sub-length list, \<^verbatim>\<open>*pPayloadLength\<close>, \<^verbatim>\<open>*pPayloadSubLenSize\<close>.\<close>

type_synonym payload_result = "STATUS \<times> byte list option \<times> nat list option \<times> nat \<times> nat"

text \<open>MTU, frame, frame length, payload buffer, \<^verbatim>\<open>*pPayloadLength\<close>, sub-lengths, \<^verbatim>\<open>*pPayloadSubLenSize\<close>.\<close>

type_synonym payload_func =
  "nat \<Rightarrow> byte list option \<Rightarrow> nat \<Rightarrow> byte list option \<Rightarrow> nat \<Rightarrow> nat list option \<Rightarrow> nat \<Rightarrow> payload_result option"

text \<open>Packet, packet length, output buffer, its length; status, buffer, length, \<^verbatim>\<open>*pIsStart\<close>.\<close>

type_synonym depay_func =
  "byte list option \<Rightarrow> nat \<Rightarrow> byte list option \<Rightarrow> nat \<Rightarrow> (STATUS \<times> byte list option \<times> nat \<times> bool) option"

subsection \<open>Splitting into chunks\<close>

function chunks :: "nat \<Rightarrow> 'a list \<Rightarrow> 'a list list" where
  "chunks n xs = (if xs = [] then [] else if n = 0 \<or> length xs \<le> n then [xs] else take n xs # chunks n (drop n xs))"
  by pat_completeness auto
termination
  by (relation "measure (\<lambda>(_, xs). length xs)") auto

declare chunks.simps [simp del]

lemma chunks_Nil [simp]: "chunks n [] = []"
  by (simp add: chunks.simps)

lemma chunks_last: "xs \<noteq> [] \<Longrightarrow> length xs \<le> n \<Longrightarrow> chunks n xs = [xs]"
  by (simp add: chunks.simps)

lemma chunks_step: "0 < n \<Longrightarrow> xs \<noteq> [] \<Longrightarrow> chunks n xs = take n xs # chunks n (drop n xs)"
  by (subst chunks.simps) (auto simp: chunks_last)

lemma concat_chunks [simp]: "concat (chunks n xs) = xs"
  by (induction n xs rule: chunks.induct) (subst chunks.simps, auto)

lemma chunks_bound: "0 < n \<Longrightarrow> c \<in> set (chunks n xs) \<Longrightarrow> length c \<le> n"
  by (induction n xs rule: chunks.induct) (subst (asm) (2) chunks.simps, auto split: if_splits)

lemma chunks_nonempty: "c \<in> set (chunks n xs) \<Longrightarrow> c \<noteq> []"
  by (induction n xs rule: chunks.induct) (subst (asm) (2) chunks.simps, auto split: if_splits)

lemma chunks_eq_Nil [simp]: "chunks n xs = [] \<longleftrightarrow> xs = []"
  by (subst chunks.simps) auto

lemma length_chunks:
  "0 < n \<Longrightarrow> length (chunks n xs) = length xs div n + (if length xs mod n = 0 then 0 else 1)"
proof (induction n xs rule: chunks.induct)
  case (1 n xs)
  show ?case
  proof (cases "xs = [] \<or> length xs \<le> n")
    case True
    with "1.prems" show ?thesis by (cases "length xs = n") (auto simp: chunks_last dest: dvd_imp_le)
  next
    case False
    with "1" show ?thesis
      by (subst chunks.simps) (auto simp: le_div_geq le_mod_geq)
  qed
qed

lemma length_chunks_le: "length (chunks n xs) \<le> length xs"
  by (induction n xs rule: chunks.induct) (subst chunks.simps, auto simp: Suc_le_eq)

subsection \<open>Payload memory\<close>

definition total :: "byte list list \<Rightarrow> nat" where
  "total ps = sum_list (map length ps)"

lemma total_simps [simp]: "total [] = 0" "total (p # ps) = length p + total ps" "total (ps @ qs) = total ps + total qs"
  by (simp_all add: total_def)

lemma length_concat_total [simp]: "length (concat ps) = total ps"
  by (simp add: total_def length_concat)

lemma total_chunks: "total (chunks n xs) = length xs"
  by (metis concat_chunks length_concat_total)

subsection \<open>The calling sequence\<close>

text \<open>
  How the two sides use a codec.  The sender asks for the sizes, allocates (\<open>garbage\<close> is the
  uninitialised payload memory), fills, and cuts the payload at the sub-lengths, as
  \<^verbatim>\<open>writeFrame\<close> and \<^verbatim>\<open>constructRtpPackets\<close> do; the receiver depayloads every packet into
  the space that is left of the frame buffer, as \<^verbatim>\<open>jitterBufferFillFrameData\<close> does.
\<close>

fun split_payload :: "nat list \<Rightarrow> byte list \<Rightarrow> byte list list" where
  "split_payload [] buf = []"
| "split_payload (n # ns) buf = take n buf # split_payload ns (drop n buf)"

fun depay_stream :: "depay_func \<Rightarrow> byte list list \<Rightarrow> byte list \<Rightarrow> byte list option" where
  "depay_stream depay [] out = Some []"
| "depay_stream depay (p # ps) out =
     do { (st, out', n, _) \<leftarrow> depay (Some p) (length p) (Some out) (length out);
          mem \<leftarrow> out';
          if STATUS_FAILED st then None
          else map_option (append (take n mem)) (depay_stream depay ps (drop n mem)) }"

definition packetise :: "payload_func \<Rightarrow> nat \<Rightarrow> byte list \<Rightarrow> (nat \<Rightarrow> byte list) \<Rightarrow> byte list list option" where
  "packetise createPayload mtu d garbage =
     do { (st, _, _, len, n) \<leftarrow> createPayload mtu (Some d) (length d) None 0 None 0;
          if STATUS_FAILED st then None
          else do {
            (st', buf, subs, _, n') \<leftarrow> createPayload mtu (Some d) (length d) (Some (garbage len)) len (Some (replicate n 0)) n;
            b \<leftarrow> buf; s \<leftarrow> subs;
            if STATUS_FAILED st' then None else Some (split_payload (take n' s) b) } }"

definition transfer :: "payload_func \<Rightarrow> depay_func \<Rightarrow> nat \<Rightarrow> byte list \<Rightarrow> (nat \<Rightarrow> byte list) \<Rightarrow> byte list \<Rightarrow> byte list option" where
  "transfer createPayload depay mtu d garbage out =
     do { ps \<leftarrow> packetise createPayload mtu d garbage; depay_stream depay ps out }"

lemma split_payload_concat [simp]: "split_payload (map length ps) (concat ps @ rest) = ps"
  by (induction ps) simp_all

lemma split_payload_concat_exact [simp]: "split_payload (map length ps) (concat ps) = ps"
  using split_payload_concat [of ps "[]"] by simp

subsection \<open>The contracts\<close>

locale rtp_payloader =
  fixes createPayload :: payload_func
    and packets :: "nat \<Rightarrow> byte list \<Rightarrow> byte list list"
    and accepts :: "nat \<Rightarrow> byte list \<Rightarrow> bool"
  assumes size_pass: "accepts mtu d \<Longrightarrow>
      createPayload mtu (Some d) (length d) None l None k =
        Some (STATUS_SUCCESS, None, None, total (packets mtu d), length (packets mtu d))"
    and fill_pass: "accepts mtu d \<Longrightarrow> total (packets mtu d) \<le> length buf \<Longrightarrow> length (packets mtu d) \<le> length subs \<Longrightarrow>
      createPayload mtu (Some d) (length d) (Some buf) (total (packets mtu d)) (Some subs) (length (packets mtu d)) =
        Some (STATUS_SUCCESS, Some (concat (packets mtu d) @ drop (total (packets mtu d)) buf),
              Some (map length (packets mtu d) @ drop (length (packets mtu d)) subs),
              total (packets mtu d), length (packets mtu d))"
begin

lemma packetise_ok:
  assumes "accepts mtu d" "\<And>n. length (garbage n) = n"
  shows "packetise createPayload mtu d garbage = Some (packets mtu d)"
  using size_pass [OF assms(1), of 0 0] fill_pass [OF assms(1)] assms(2)
  by (simp add: packetise_def)

end

locale mtu_payloader = rtp_payloader +
  assumes within_mtu: "accepts mtu d \<Longrightarrow> p \<in> set (packets mtu d) \<Longrightarrow> length p \<le> mtu"

locale rtp_codec = rtp_payloader +
  fixes depay :: depay_func
    and decode :: "byte list \<Rightarrow> byte list"
    and start :: "byte list \<Rightarrow> bool"
    and received :: "byte list \<Rightarrow> byte list"
  assumes depay_size: "accepts mtu d \<Longrightarrow> p \<in> set (packets mtu d) \<Longrightarrow>
      depay (Some p) (length p) None k = Some (STATUS_SUCCESS, None, length (decode p), start p)"
    and depay_fill: "accepts mtu d \<Longrightarrow> p \<in> set (packets mtu d) \<Longrightarrow> length (decode p) \<le> k \<Longrightarrow> k \<le> length out \<Longrightarrow>
      depay (Some p) (length p) (Some out) k =
        Some (STATUS_SUCCESS, Some (decode p @ drop (length (decode p)) out), length (decode p), start p)"
    and reassemble: "accepts mtu d \<Longrightarrow> concat (map decode (packets mtu d)) = received d"
    and first_starts: "accepts mtu d \<Longrightarrow> packets mtu d \<noteq> [] \<Longrightarrow> start (hd (packets mtu d))"
begin

lemma depay_stream_decodes:
  "accepts mtu d \<Longrightarrow> set ps \<subseteq> set (packets mtu d) \<Longrightarrow> total (map decode ps) \<le> length out \<Longrightarrow>
   depay_stream depay ps out = Some (concat (map decode ps))"
proof (induction ps arbitrary: out)
  case Nil
  then show ?case by simp
next
  case (Cons p ps)
  have "depay (Some p) (length p) (Some out) (length out) =
      Some (STATUS_SUCCESS, Some (decode p @ drop (length (decode p)) out), length (decode p), start p)"
    using Cons.prems by (intro depay_fill) auto
  with Cons show ?case by simp
qed

lemma transfer_ok:
  assumes "accepts mtu d" "length (received d) \<le> length out" "\<And>n. length (garbage n) = n"
  shows "transfer createPayload depay mtu d garbage out = Some (received d)"
  using depay_stream_decodes [OF assms(1) subset_refl, of out] reassemble [OF assms(1)]
    packetise_ok [OF assms(1,3)] assms(2)
  by (simp add: transfer_def flip: length_concat_total)

end

end
