(* ===== verification/SlicePayloaders.thy ===== *)
theory SlicePayloaders
  imports RtpPayloader
begin

text \<open>
  \<^verbatim>\<open>src/source/Rtp/Codecs/RtpOpusPayloader.c\<close>, \<^verbatim>\<open>RtpG711Payloader.c\<close> and
  \<^verbatim>\<open>RtpVP8Payloader.c\<close>: the three codecs whose packets are plain slices of the frame.

  \<open>None\<close> is undefined behaviour (access outside a buffer, division by zero); for the VP8
  loop, which does not end when the MTU is 1, it also stands for not returning.
\<close>

subsection \<open>Opus\<close>

definition createPayloadForOpus :: payload_func where
  "createPayloadForOpus mtu opusFrame opusFrameLength payloadBuffer pPayloadLength pPayloadSubLength pPayloadSubLenSize =
     (case opusFrame of
        None \<Rightarrow> Some (STATUS_NULL_ARG, payloadBuffer, pPayloadSubLength, 0, 0)
      | Some frame \<Rightarrow>
          (case payloadBuffer of
             None \<Rightarrow> Some (STATUS_SUCCESS, None, pPayloadSubLength, opusFrameLength, 1)
           | Some buf \<Rightarrow>
               (case pPayloadSubLength of
                  None \<Rightarrow> Some (STATUS_NULL_ARG, Some buf, None, 0, 0)
                | Some subs \<Rightarrow>
                    if \<not> (opusFrameLength \<le> pPayloadLength \<and> 1 \<le> pPayloadSubLenSize)
                    then Some (STATUS_BUFFER_TOO_SMALL, Some buf, Some subs, opusFrameLength, 1)
                    else do {
                      bytes \<leftarrow> rdn frame 0 opusFrameLength;
                      buf' \<leftarrow> memwrite buf 0 bytes;
                      subs' \<leftarrow> memwrite subs 0 [opusFrameLength];
                      Some (STATUS_SUCCESS, Some buf', Some subs', opusFrameLength, 1) })))"

definition depayOpusFromRtpPayload :: depay_func where
  "depayOpusFromRtpPayload rawPkt packetLength pOpusData pOpusLength =
     (case rawPkt of
        None \<Rightarrow> Some (STATUS_NULL_ARG, pOpusData, 0, True)
      | Some raw \<Rightarrow>
          if \<not> packetLength > 0 then Some (STATUS_SUCCESS, pOpusData, 0, True)
          else (case pOpusData of
             None \<Rightarrow> Some (STATUS_SUCCESS, None, packetLength, True)
           | Some out \<Rightarrow>
               if \<not> packetLength \<le> pOpusLength then Some (STATUS_BUFFER_TOO_SMALL, Some out, packetLength, True)
               else do {
                 bytes \<leftarrow> rdn raw 0 packetLength;
                 out' \<leftarrow> memwrite out 0 bytes;
                 Some (STATUS_SUCCESS, Some out', packetLength, True) }))"

subsection \<open>G.711\<close>

text \<open>The loop that fills the sub-length list; it is reached with a positive MTU only.\<close>

function g711SubLengths :: "nat \<Rightarrow> nat \<Rightarrow> nat list \<Rightarrow> nat \<Rightarrow> nat list option" where
  "g711SubLengths mtu remainingLength subs cur =
     (if mtu = 0 then None
      else if remainingLength > mtu then
        do { subs' \<leftarrow> memwrite subs cur [mtu]; g711SubLengths mtu (remainingLength - mtu) subs' (cur + 1) }
      else memwrite subs cur [remainingLength])"
  by pat_completeness auto
termination
  by (relation "measure (\<lambda>(_, r, _, _). r)") auto

declare g711SubLengths.simps [simp del]

definition createPayloadForG711 :: payload_func where
  "createPayloadForG711 mtu g711Frame g711FrameLength payloadBuffer pPayloadLength pPayloadSubLength pPayloadSubLenSize =
     (case g711Frame of
        None \<Rightarrow> Some (STATUS_NULL_ARG, payloadBuffer, pPayloadSubLength, 0, 0)
      | Some frame \<Rightarrow>
          if \<not> (payloadBuffer = None \<or> pPayloadSubLength \<noteq> None)
          then Some (STATUS_NULL_ARG, payloadBuffer, pPayloadSubLength, 0, 0)
          else if mtu = 0 then None
          else (let payloadSubLenSize = g711FrameLength div mtu + (if g711FrameLength mod mtu = 0 then 0 else 1) in
            (case (payloadBuffer, pPayloadSubLength) of
               (Some buf, Some subs) \<Rightarrow>
                 if \<not> (g711FrameLength \<le> pPayloadLength \<and> payloadSubLenSize \<le> pPayloadSubLenSize)
                 then Some (STATUS_BUFFER_TOO_SMALL, Some buf, Some subs, g711FrameLength, payloadSubLenSize)
                 else do {
                   bytes \<leftarrow> rdn frame 0 g711FrameLength;
                   buf' \<leftarrow> memwrite buf 0 bytes;
                   subs' \<leftarrow> g711SubLengths mtu g711FrameLength subs 0;
                   Some (STATUS_SUCCESS, Some buf', Some subs', g711FrameLength, payloadSubLenSize) }
             | _ \<Rightarrow> Some (STATUS_SUCCESS, payloadBuffer, pPayloadSubLength, g711FrameLength, payloadSubLenSize))))"

definition depayG711FromRtpPayload :: depay_func where
  "depayG711FromRtpPayload rawPkt packetLength pG711Data pG711Length =
     (case rawPkt of
        None \<Rightarrow> Some (STATUS_NULL_ARG, pG711Data, 0, True)
      | Some raw \<Rightarrow>
          if \<not> packetLength > 0 then Some (STATUS_SUCCESS, pG711Data, 0, True)
          else (case pG711Data of
             None \<Rightarrow> Some (STATUS_SUCCESS, None, packetLength, True)
           | Some out \<Rightarrow>
               if \<not> packetLength \<le> pG711Length then Some (STATUS_BUFFER_TOO_SMALL, Some out, packetLength, True)
               else do {
                 bytes \<leftarrow> rdn raw 0 packetLength;
                 out' \<leftarrow> memwrite out 0 bytes;
                 Some (STATUS_SUCCESS, Some out', packetLength, True) }))"

subsection \<open>VP8\<close>

definition VP8_PAYLOAD_DESCRIPTOR_START_OF_PARTITION_VALUE :: byte where
  "VP8_PAYLOAD_DESCRIPTOR_START_OF_PARTITION_VALUE = 16"

partial_function (option) vp8_loop ::
  "nat \<Rightarrow> byte list \<Rightarrow> nat \<Rightarrow> nat \<Rightarrow> byte list option \<Rightarrow> nat \<Rightarrow> nat list option \<Rightarrow> nat \<Rightarrow> nat \<Rightarrow>
   (byte list option \<times> nat list option \<times> nat \<times> nat) option" where
  "vp8_loop mtu data currentData payloadRemaining payloadBuffer off pPayloadSubLength payLen payloadSubLenSize =
     (if payloadRemaining > 0 then
        (let consumed = min (sub32 mtu 1) payloadRemaining;
             payLen' = wrap32 (payLen + wrap32 (consumed + 1));
             payloadSubLenSize' = wrap32 (payloadSubLenSize + 1)
         in case payloadBuffer of
              None \<Rightarrow> vp8_loop mtu data currentData (payloadRemaining - consumed) None off pPayloadSubLength
                        payLen' payloadSubLenSize'
            | Some buf \<Rightarrow>
                do { buf1 \<leftarrow> memwrite buf off
                        [if payloadSubLenSize = 0 then VP8_PAYLOAD_DESCRIPTOR_START_OF_PARTITION_VALUE else 0];
                     bytes \<leftarrow> rdn data currentData consumed;
                     buf2 \<leftarrow> memwrite buf1 (off + 1) bytes;
                     subs \<leftarrow> pPayloadSubLength;
                     subs' \<leftarrow> memwrite subs payloadSubLenSize [wrap32 (consumed + 1)];
                     vp8_loop mtu data (currentData + consumed) (payloadRemaining - consumed) (Some buf2)
                       (off + 1 + consumed) (Some subs') payLen' payloadSubLenSize' })
      else Some (payloadBuffer, pPayloadSubLength, payLen, payloadSubLenSize))"

text \<open>\<open>junk\<close> is what the uninitialised \<^verbatim>\<open>payloadArray\<close> holds when a \<^verbatim>\<open>NULL\<close> argument ends the call early.\<close>

definition createPayloadForVP8 :: "nat \<times> nat \<Rightarrow> payload_func" where
  "createPayloadForVP8 junk mtu pData dataLen payloadBuffer pPayloadLength pPayloadSubLength pPayloadSubLenSize =
     (case pData of
        Some data \<Rightarrow>
          if payloadBuffer = None \<or> pPayloadSubLength \<noteq> None
          then do { (buf, subs, len, n) \<leftarrow> vp8_loop mtu data 0 dataLen payloadBuffer 0 pPayloadSubLength 0 0;
                    Some (STATUS_SUCCESS, buf, subs, len, n) }
          else Some (STATUS_NULL_ARG, payloadBuffer, pPayloadSubLength, fst junk, snd junk)
      | None \<Rightarrow>
          (case payloadBuffer of
             None \<Rightarrow> Some (STATUS_NULL_ARG, None, pPayloadSubLength, 0, 0)
           | Some buf \<Rightarrow> Some (STATUS_NULL_ARG, Some buf, pPayloadSubLength, fst junk, snd junk)))"

text \<open>The length of the payload descriptor, read from the packet (RFC 7741, section 4.2).\<close>

definition vp8DescriptorLength :: "byte list \<Rightarrow> nat option" where
  "vp8DescriptorLength raw =
     do { b0 \<leftarrow> rd raw 0;
          let haveExtendedControlBits = (drop_bit 7 (b0 AND 0x80) \<noteq> 0);
          (havePictureID, haveTL0PICIDX, haveTID, haveKEYIDX, len1) \<leftarrow>
            (if haveExtendedControlBits then
               do { b1 \<leftarrow> rd raw 1;
                    Some (drop_bit 7 (b1 AND 0x80) \<noteq> 0, drop_bit 6 (b1 AND 0x40) \<noteq> 0, drop_bit 5 (b1 AND 0x20) \<noteq> 0,
                          drop_bit 4 (b1 AND 0x10) \<noteq> 0, 2) }
             else Some (False, False, False, False, 1));
          len2 \<leftarrow> (if havePictureID then
                     do { b \<leftarrow> rd raw len1; Some (if b AND 0x80 > 0 then len1 + 2 else len1 + 1) }
                   else Some len1);
          let len3 = (if haveTL0PICIDX then len2 + 1 else len2);
          Some (if haveTID \<or> haveKEYIDX then len3 + 1 else len3) }"

definition depayVP8FromRtpPayload :: depay_func where
  "depayVP8FromRtpPayload rawPkt packetLength pVp8Data pVp8Length =
     (case rawPkt of
        None \<Rightarrow> Some (STATUS_NULL_ARG, pVp8Data, if pVp8Data = None then 0 else packetLength, True)
      | Some raw \<Rightarrow>
          if \<not> packetLength > 0 then Some (STATUS_SUCCESS, pVp8Data, packetLength, True)
          else do {
            payloadDescriptorLength \<leftarrow> vp8DescriptorLength raw;
            let vp8Length = sub32 packetLength payloadDescriptorLength;
            (case pVp8Data of
               None \<Rightarrow> Some (STATUS_SUCCESS, None, vp8Length, True)
             | Some out \<Rightarrow>
                 if \<not> vp8Length \<le> pVp8Length then Some (STATUS_BUFFER_TOO_SMALL, Some out, vp8Length, True)
                 else do {
                   bytes \<leftarrow> rdn raw payloadDescriptorLength vp8Length;
                   out' \<leftarrow> memwrite out 0 bytes;
                   Some (STATUS_SUCCESS, Some out', vp8Length, True) }) })"

subsection \<open>Reference packetisations\<close>

definition opus_accepts :: "nat \<Rightarrow> byte list \<Rightarrow> bool" where
  "opus_accepts mtu d \<longleftrightarrow> d \<noteq> []"

definition g711_accepts :: "nat \<Rightarrow> byte list \<Rightarrow> bool" where
  "g711_accepts mtu d \<longleftrightarrow> 0 < mtu \<and> d \<noteq> []"

fun vp8Mark :: "nat \<Rightarrow> byte list list \<Rightarrow> byte list list" where
  "vp8Mark n [] = []"
| "vp8Mark n (c # cs) = ((if n = 0 then VP8_PAYLOAD_DESCRIPTOR_START_OF_PARTITION_VALUE else 0) # c) # vp8Mark (n + 1) cs"

definition vp8_packets :: "nat \<Rightarrow> byte list \<Rightarrow> byte list list" where
  "vp8_packets mtu d = vp8Mark 0 (chunks (mtu - 1) d)"

definition vp8_accepts :: "nat \<Rightarrow> byte list \<Rightarrow> bool" where
  "vp8_accepts mtu d \<longleftrightarrow> 2 \<le> mtu \<and> mtu < 2 ^ 32 \<and> 2 * length d < 2 ^ 32"

lemma g711SubLengths_chunks:
  "0 < mtu \<Longrightarrow> d \<noteq> [] \<Longrightarrow> cur + length (chunks mtu d) \<le> length subs \<Longrightarrow>
   g711SubLengths mtu (length d) subs cur = Some (patch subs cur (map length (chunks mtu d)))"
proof (induction mtu d arbitrary: subs cur rule: chunks.induct)
  case (1 n d)
  show ?case
  proof (cases "length d \<le> n")
    case True
    with "1.prems" show ?thesis
      by (subst g711SubLengths.simps) (auto simp: chunks_last memwrite_patch)
  next
    case False
    then have c: "chunks n d = take n d # chunks n (drop n d)" using "1.prems" by (simp add: chunks_step)
    have "g711SubLengths n (length (drop n d)) (patch subs cur [n]) (cur + 1) =
        Some (patch (patch subs cur [n]) (cur + 1) (map length (chunks n (drop n d))))"
      using "1.prems" False c by (intro "1.IH") auto
    also have "patch (patch subs cur [n]) (cur + 1) (map length (chunks n (drop n d))) = patch subs cur (map length (chunks n d))"
      using "1.prems"(3) False by (simp add: c patch_patch)
    finally show ?thesis
      using False "1.prems" c by (subst g711SubLengths.simps) (auto simp: memwrite_patch)
  qed
qed

lemma length_vp8Mark [simp]: "length (vp8Mark n cs) = length cs"
  by (induction n cs rule: vp8Mark.induct) simp_all

lemma total_vp8Mark [simp]: "total (vp8Mark n cs) = total cs + length cs"
  by (induction n cs rule: vp8Mark.induct) simp_all

lemma vp8_loop_size:
  assumes "2 \<le> mtu" "mtu < 2 ^ 32" "l + length xs + length (chunks (mtu - 1) xs) < 2 ^ 32" "n + length (chunks (mtu - 1) xs) < 2 ^ 32"
  shows "vp8_loop mtu data cur (length xs) None off None l n =
     Some (None, None, l + length xs + length (chunks (mtu - 1) xs), n + length (chunks (mtu - 1) xs))"
  using assms(3,4)
proof (induction "length xs" arbitrary: xs l n rule: less_induct)
  case less
  show ?case
  proof (cases "xs = []")
    case True
    then show ?thesis by (simp add: vp8_loop.simps)
  next
    case False
    let ?m = "mtu - 1"
    have m: "0 < ?m" "sub32 mtu 1 = ?m" using assms(1,2) by simp_all
    have c: "chunks ?m xs = take ?m xs # chunks ?m (drop ?m xs)" using False m(1) by (simp add: chunks_step)
    define k where "k = min ?m (length xs)"
    have k: "length (drop ?m xs) = length xs - k" "k \<le> length xs" "0 < k" "min (sub32 mtu 1) (length xs) = k"
      using False m by (auto simp: k_def)
    have IH: "vp8_loop mtu data cur (length xs - k) None off None (l + (k + 1)) (n + 1) =
        Some (None, None, l + (k + 1) + (length xs - k) + length (chunks ?m (drop ?m xs)),
              n + 1 + length (chunks ?m (drop ?m xs)))"
    proof -
      have cl: "length (chunks ?m xs) = length (chunks ?m (drop ?m xs)) + 1" using c by simp
      have "length (drop ?m xs) < length xs" using k by linarith
      moreover have "l + (k + 1) + length (drop ?m xs) + length (chunks ?m (drop ?m xs)) < 2 ^ 32"
        "n + 1 + length (chunks ?m (drop ?m xs)) < 2 ^ 32"
        using less.prems cl k(1,2) by linarith+
      ultimately show ?thesis
        using less.hyps [of "drop ?m xs" "l + (k + 1)" "n + 1"] unfolding k(1) by blast
    qed
    have w: "wrap32 (l + wrap32 (k + 1)) = l + (k + 1)" "wrap32 (n + 1) = n + 1"
      using less.prems c k by simp_all
    show ?thesis
      unfolding vp8_loop.simps [of mtu data cur "length xs"] Let_def k(4) w
      using False k(2) IH c by simp
  qed
qed

lemma vp8_loop_fill:
  assumes "2 \<le> mtu" "mtu < 2 ^ 32" "ps = vp8Mark n (chunks (mtu - 1) (drop cur data))"
    "cur \<le> length data" "l + total ps < 2 ^ 32" "n + length ps < 2 ^ 32"
    "off + total ps \<le> length buf" "n + length ps \<le> length subs"
  shows "vp8_loop mtu data cur (length data - cur) (Some buf) off (Some subs) l n =
     Some (Some (patch buf off (concat ps)), Some (patch subs n (map length ps)), l + total ps, n + length ps)"
  using assms(3-)
proof (induction "length data - cur" arbitrary: cur buf subs off l n ps rule: less_induct)
  case less
  show ?case
  proof (cases "drop cur data = []")
    case True
    with less.prems show ?thesis by (simp add: vp8_loop.simps)
  next
    case False
    let ?m = "mtu - 1" and ?xs = "drop cur data"
    have m: "0 < ?m" "sub32 mtu 1 = ?m" using assms(1,2) by simp_all
    define k where "k = min ?m (length data - cur)"
    have k: "cur + k \<le> length data" "0 < k" "min (sub32 mtu 1) (length data - cur) = k" "take k ?xs = take ?m ?xs"
      "drop ?m ?xs = drop (cur + k) data"
      using False m by (auto simp: k_def min_def ac_simps)
    define ys where "ys = take k ?xs"
    have lk: "length ys = k" using k(1) by (simp add: ys_def)
    define b :: byte where "b = (if n = 0 then VP8_PAYLOAD_DESCRIPTOR_START_OF_PARTITION_VALUE else 0)"
    define qs where "qs = vp8Mark (n + 1) (chunks ?m (drop (cur + k) data))"
    have "chunks ?m ?xs = ys # chunks ?m (drop (cur + k) data)"
      by (simp only: chunks_step [OF m(1) False] k(4,5) ys_def)
    then have ps: "ps = (b # ys) # qs" using less.prems(1) by (simp add: b_def qs_def)
    have buf: "memwrite buf off [b] = Some (patch buf off [b])"
      "memwrite (patch buf off [b]) (off + 1) (ys) = Some (patch buf off (b # ys))"
      using less.prems(5) ps lk by (simp_all add: memwrite_patch patch_patch)
    have sub: "memwrite subs n [k + 1] = Some (patch subs n [k + 1])"
      using less.prems(6) ps by (simp add: memwrite_patch)
    have IH: "vp8_loop mtu data (cur + k) (length data - (cur + k)) (Some (patch buf off (b # ys)))
        (off + 1 + k) (Some (patch subs n [k + 1])) (l + (k + 1)) (n + 1) =
        Some (Some (patch (patch buf off (b # ys)) (off + 1 + k) (concat qs)),
              Some (patch (patch subs n [k + 1]) (n + 1) (map length qs)), l + (k + 1) + total qs, n + 1 + length qs)"
    proof (rule less.hyps)
      show "length data - (cur + k) < length data - cur" using k(1,2) by linarith
      show "l + (k + 1) + total qs < 2 ^ 32" "n + 1 + length qs < 2 ^ 32"
        using less.prems(3,4) by (simp_all add: ps lk)
      show "off + 1 + k + total qs \<le> length (patch buf off (b # ys))"
        "n + 1 + length qs \<le> length (patch subs n [k + 1])"
        using less.prems(5,6) by (simp_all add: ps lk)
    qed (simp_all only: qs_def k(1))
    have joined: "patch (patch buf off (b # ys)) (off + 1 + k) (concat qs) = patch buf off (concat ps)"
      "patch (patch subs n [k + 1]) (n + 1) (map length qs) = patch subs n (map length ps)"
      using less.prems(5,6) ps lk by (simp_all add: patch_patch)
    have w: "wrap32 (l + wrap32 (k + 1)) = l + (k + 1)" "wrap32 (n + 1) = n + 1" "wrap32 (k + 1) = k + 1"
      "wrap32 (l + (k + 1)) = l + (k + 1)"
      using less.prems(3,4) ps lk by simp_all
    have rd: "rdn data cur k = Some (ys)" using k(1) by (simp add: rdn_in ys_def)
    show ?thesis
      unfolding vp8_loop.simps [of mtu data cur "length data - cur"] Let_def k(3) w
      using False buf sub rd IH joined ps lk by (simp add: b_def [symmetric])
  qed
qed

subsection \<open>The codecs meet the payloader contract\<close>

lemmas payload_defs = createPayloadForOpus_def depayOpusFromRtpPayload_def createPayloadForG711_def
  depayG711FromRtpPayload_def createPayloadForVP8_def depayVP8FromRtpPayload_def

interpretation opus: rtp_codec createPayloadForOpus "\<lambda>_ d. [d]" opus_accepts depayOpusFromRtpPayload
  "\<lambda>p. p" "\<lambda>_. True" "\<lambda>d. d"
  by unfold_locales (auto simp: payload_defs opus_accepts_def rdn_in memwrite_patch patch_0)

lemma g711_codec:
  assumes "g711_accepts mtu d"
  shows "createPayloadForG711 mtu (Some d) (length d) None l None k =
      Some (STATUS_SUCCESS, None, None, total (chunks mtu d), length (chunks mtu d))"
    and "total (chunks mtu d) \<le> length buf \<Longrightarrow> length (chunks mtu d) \<le> length subs \<Longrightarrow>
      createPayloadForG711 mtu (Some d) (length d) (Some buf) (total (chunks mtu d)) (Some subs) (length (chunks mtu d)) =
        Some (STATUS_SUCCESS, Some (concat (chunks mtu d) @ drop (total (chunks mtu d)) buf),
              Some (map length (chunks mtu d) @ drop (length (chunks mtu d)) subs),
              total (chunks mtu d), length (chunks mtu d))"
  using assms g711SubLengths_chunks [of mtu d 0 subs] length_chunks [of mtu d]
  by (auto simp: g711_accepts_def payload_defs total_chunks rdn_in memwrite_patch patch_0)

interpretation g711: rtp_codec createPayloadForG711 chunks g711_accepts depayG711FromRtpPayload
  "\<lambda>p. p" "\<lambda>_. True" "\<lambda>d. d"
proof (unfold_locales, goal_cases)
  case 1 then show ?case by (rule g711_codec(1))
next
  case 2 then show ?case by (rule g711_codec(2))
next
  case (3 mtu d p k)
  then show ?case using chunks_nonempty [of p mtu d] by (simp add: payload_defs)
next
  case (4 mtu d p k out)
  then show ?case using chunks_nonempty [of p mtu d] by (simp add: payload_defs rdn_in memwrite_patch patch_0)
qed simp_all

interpretation g711: mtu_payloader createPayloadForG711 chunks g711_accepts
  by unfold_locales (simp add: g711_accepts_def chunks_bound)

lemma vp8Mark_mem: "p \<in> set (vp8Mark n cs) \<Longrightarrow> \<exists>b c. p = b # c \<and> b \<in> {0, 16} \<and> c \<in> set cs"
  by (induction n cs rule: vp8Mark.induct) (auto simp: VP8_PAYLOAD_DESCRIPTOR_START_OF_PARTITION_VALUE_def)

lemma map_tl_vp8Mark [simp]: "map tl (vp8Mark n cs) = cs"
  by (induction n cs rule: vp8Mark.induct) simp_all

lemma vp8_packet:
  assumes "p \<in> set (vp8_packets mtu d)"
  obtains b c where "p = b # c" "c \<in> set (chunks (mtu - 1) d)" "vp8DescriptorLength p = Some 1"
proof -
  from vp8Mark_mem assms obtain b c where p: "p = b # c" "b \<in> {0, 16}" "c \<in> set (chunks (mtu - 1) d)"
    unfolding vp8_packets_def by blast
  then have "vp8DescriptorLength p = Some 1"
    by (auto simp: vp8DescriptorLength_def rd_def)
  with p that show thesis by blast
qed

lemma vp8_bounds:
  assumes "vp8_accepts mtu d"
  shows "length d + length (chunks (mtu - 1) d) < 2 ^ 32" "2 \<le> mtu" "mtu < 2 ^ 32"
  using assms length_chunks_le [of "mtu - 1" d] by (auto simp: vp8_accepts_def)

lemma vp8_codec:
  assumes "vp8_accepts mtu d"
  shows "createPayloadForVP8 junk mtu (Some d) (length d) None l None k =
      Some (STATUS_SUCCESS, None, None, total (vp8_packets mtu d), length (vp8_packets mtu d))"
    and "total (vp8_packets mtu d) \<le> length buf \<Longrightarrow> length (vp8_packets mtu d) \<le> length subs \<Longrightarrow>
      createPayloadForVP8 junk mtu (Some d) (length d) (Some buf) l (Some subs) k =
        Some (STATUS_SUCCESS, Some (concat (vp8_packets mtu d) @ drop (total (vp8_packets mtu d)) buf),
              Some (map length (vp8_packets mtu d) @ drop (length (vp8_packets mtu d)) subs),
              total (vp8_packets mtu d), length (vp8_packets mtu d))"
  using vp8_bounds [OF assms] vp8_loop_size [of mtu 0 d 0 d 0 0]
    vp8_loop_fill [of mtu "vp8_packets mtu d" 0 0 d 0 0 buf subs]
  by (auto simp: payload_defs vp8_packets_def total_chunks patch_0)

lemma vp8_within_mtu:
  assumes "vp8_accepts mtu d" "p \<in> set (vp8_packets mtu d)"
  shows "length p \<le> mtu"
  using assms chunks_bound [of "mtu - 1" _ d] by (fastforce simp: vp8_accepts_def elim!: vp8_packet)

interpretation vp8: rtp_codec "createPayloadForVP8 junk" vp8_packets vp8_accepts depayVP8FromRtpPayload
  tl "\<lambda>_. True" "\<lambda>d. d"
proof (unfold_locales, goal_cases)
  case 1 then show ?case by (rule vp8_codec(1))
next
  case 2 then show ?case by (rule vp8_codec(2))
next
  case (3 mtu d p k)
  from vp8_packet [OF 3(2)] obtain b c where "p = b # c" "vp8DescriptorLength p = Some 1" by blast
  moreover have "length p < 2 ^ 32" using vp8_within_mtu [OF 3] vp8_bounds [OF 3(1)] by simp
  ultimately show ?case by (auto simp: payload_defs)
next
  case (4 mtu d p k out)
  from vp8_packet [OF 4(2)] obtain b c where "p = b # c" "vp8DescriptorLength p = Some 1" by blast
  moreover have "length p < 2 ^ 32" using vp8_within_mtu [OF 4(1,2)] vp8_bounds [OF 4(1)] by simp
  ultimately show ?case using 4 by (auto simp: payload_defs rdn_in memwrite_patch patch_0 Let_def)
next
  case (5 mtu d)
  then show ?case by (simp add: vp8_packets_def)
qed simp_all

interpretation vp8: mtu_payloader "createPayloadForVP8 junk" vp8_packets vp8_accepts
  by unfold_locales (rule vp8_within_mtu)

subsection \<open>Properties\<close>

text \<open>
  C11. Opus, G.711 and VP8 round trip: sizing, filling, cutting at the sub-lengths and
  depayloading every packet gives the frame back, for every non-empty frame (VP8 frames up
  to 2 GiB), and no G.711 or VP8 packet exceeds the MTU.
\<close>

theorem slice_codecs_roundtrip:
  assumes "\<And>n. length (garbage n) = n" "length d \<le> length out" "d \<noteq> []"
  shows "transfer createPayloadForOpus depayOpusFromRtpPayload mtu d garbage out = Some d \<and>
     (0 < mtu \<longrightarrow> transfer createPayloadForG711 depayG711FromRtpPayload mtu d garbage out = Some d \<and>
        (\<exists>ps. packetise createPayloadForG711 mtu d garbage = Some ps \<and> (\<forall>p \<in> set ps. length p \<le> mtu))) \<and>
     (2 \<le> mtu \<and> mtu < 2 ^ 32 \<and> 2 * length d < 2 ^ 32 \<longrightarrow>
        transfer (createPayloadForVP8 junk) depayVP8FromRtpPayload mtu d garbage out = Some d \<and>
        (\<exists>ps. packetise (createPayloadForVP8 junk) mtu d garbage = Some ps \<and> (\<forall>p \<in> set ps. length p \<le> mtu)))"
proof (intro conjI impI)
  show "transfer createPayloadForOpus depayOpusFromRtpPayload mtu d garbage out = Some d"
    using assms by (intro opus.transfer_ok) (simp_all add: opus_accepts_def)
next
  assume "0 < mtu"
  then have acc: "g711_accepts mtu d" using assms(3) by (simp add: g711_accepts_def)
  show "transfer createPayloadForG711 depayG711FromRtpPayload mtu d garbage out = Some d"
    using acc assms by (intro g711.transfer_ok)
  show "\<exists>ps. packetise createPayloadForG711 mtu d garbage = Some ps \<and> (\<forall>p \<in> set ps. length p \<le> mtu)"
    using g711.packetise_ok [OF acc assms(1)] g711.within_mtu [OF acc] by blast
next
  assume "2 \<le> mtu \<and> mtu < 2 ^ 32 \<and> 2 * length d < 2 ^ 32"
  then have acc: "vp8_accepts mtu d" by (simp add: vp8_accepts_def)
  show "transfer (createPayloadForVP8 junk) depayVP8FromRtpPayload mtu d garbage out = Some d"
    using acc assms by (intro vp8.transfer_ok)
  show "\<exists>ps. packetise (createPayloadForVP8 junk) mtu d garbage = Some ps \<and> (\<forall>p \<in> set ps. length p \<le> mtu)"
    using vp8.packetise_ok [OF acc assms(1)] vp8.within_mtu [OF acc] by blast
qed

theorem slice_codecs_roundtrip_witness:
  "transfer createPayloadForG711 depayG711FromRtpPayload 2 [1, 2, 3] (\<lambda>n. replicate n 0) [0, 0, 0] = Some [1, 2, 3] \<and>
   transfer (createPayloadForVP8 (0, 0)) depayVP8FromRtpPayload 2 [1, 2, 3] (\<lambda>n. replicate n 0) [0, 0, 0] = Some [1, 2, 3]"
  using slice_codecs_roundtrip [of "\<lambda>n. replicate n 0" "[1, 2, 3]" "[0, 0, 0]" 2 "(0, 0)"] by simp

end
