(* ===== verification/NaluPayloader.thy ===== *)
theory NaluPayloader
  imports RtpPayloader
begin

text \<open>
  What \<^verbatim>\<open>RtpH264Payloader.c\<close> and \<^verbatim>\<open>RtpH265Payloader.c\<close> share: the search for Annex-B start
  codes (the two C functions are copies of each other, as are the two do-while loops over
  the access unit), the cursor into the payload arrays, and the description of an access
  unit.  The locales \<open>nalu_packer\<close> and \<open>nalu_codec\<close> state what a codec supplies for one NAL
  unit; the payloader contract for a whole access unit follows once for both.

  A pointer into the access unit is the list of bytes from there on.  \<open>None\<close> is undefined
  behaviour or a loop that does not end.
\<close>

subsection \<open>The payload cursor\<close>

text \<open>
  The local \<^verbatim>\<open>payloadArray\<close> of the fill pass: both arrays with the position its moving
  pointers have reached, and the space left.
\<close>

record PayloadCursor =
  pc_payloadBuffer :: "byte list option"
  pc_bufferPos :: nat
  pc_payloadSubLength :: "nat list option"
  pc_subPos :: nat
  pc_maxPayloadLength :: nat
  pc_maxPayloadSubLenSize :: nat

subsection \<open>The start-code search\<close>

function skipZeros :: "byte list \<Rightarrow> nat \<Rightarrow> nat \<Rightarrow> nat option" where
  "skipZeros nalus nalusLength offset =
     (if offset < 4 \<and> offset < nalusLength
      then do { b \<leftarrow> rd nalus offset; if b = 0 then skipZeros nalus nalusLength (offset + 1) else Some offset }
      else Some offset)"
  by pat_completeness auto
termination
  by (relation "measure (\<lambda>(_, _, offset). 4 - offset)") auto

declare skipZeros.simps [simp del]

text \<open>
  The scan for the next start code, which jumps three bytes where it can.  \<open>cur\<close> is the
  position of \<^verbatim>\<open>pCurrent\<close>; the 32-bit \<open>offset\<close> may wrap, the pointer does not.  The result
  is the final offset and, when a start code was found, \<^verbatim>\<open>zeroCount\<close>.
\<close>

partial_function (option) naluScan :: "byte list \<Rightarrow> nat \<Rightarrow> nat \<Rightarrow> nat \<Rightarrow> (nat \<times> nat option) option" where
  "naluScan nalus nalusLength offset cur =
     (if offset < nalusLength then
        do { b \<leftarrow> rd nalus cur;
             if b = 0 then naluScan nalus nalusLength (wrap32 (offset + 1)) (cur + 1)
             else if b = 1 then
               do { p1 \<leftarrow> rd nalus (cur - 1);
                    p2 \<leftarrow> rd nalus (cur - 2);
                    if p1 = 0 \<and> p2 = 0 then
                      do { p3 \<leftarrow> rd nalus (cur - 3); Some (offset, Some (if p3 = 0 then 3 else 2)) }
                    else naluScan nalus nalusLength (wrap32 (offset + 3)) (cur + 3) }
             else naluScan nalus nalusLength (wrap32 (offset + 3)) (cur + 3) }
      else Some (offset, None))"

text \<open>
  The body that \<^verbatim>\<open>getNextNaluLength\<close> and \<^verbatim>\<open>getNextNaluLengthH265\<close> share: status and, on
  success, \<^verbatim>\<open>*pStart\<close> and \<^verbatim>\<open>*pNaluLength\<close>.
\<close>

definition annexBNext :: "byte list \<Rightarrow> nat \<Rightarrow> (STATUS \<times> nat \<times> nat) option" where
  "annexBNext nalus nalusLength =
     do { offset \<leftarrow> skipZeros nalus nalusLength 0;
          if \<not> (offset < nalusLength \<and> offset < 4 \<and> offset \<ge> 2) then Some (STATUS_RTP_INVALID_NALU, 0, 0)
          else do {
            b \<leftarrow> rd nalus offset;
            if b \<noteq> 1 then Some (STATUS_RTP_INVALID_NALU, 0, 0)
            else do {
              let start = offset + 1;
              (offset', found) \<leftarrow> naluScan nalus nalusLength start start;
              Some (STATUS_SUCCESS, start,
                    sub32 (sub32 (min offset' nalusLength) start) (case found of None \<Rightarrow> 0 | Some zeroCount \<Rightarrow> zeroCount)) } } }"

subsection \<open>The start-code scan against a linear search\<close>

definition start_code_at :: "byte list \<Rightarrow> nat \<Rightarrow> bool" where
  "start_code_at xs k \<longleftrightarrow> xs ! (k - 2) = 0 \<and> xs ! (k - 1) = 0 \<and> xs ! k = 1"

lemma find_upt_skip: "\<not> Q k \<Longrightarrow> find Q [k..<n] = find Q [Suc k..<n]"
  by (cases "k < n") (simp_all add: upt_conv_Cons)

lemma find_upt_skip3: "\<not> Q k \<Longrightarrow> \<not> Q (k + 1) \<Longrightarrow> \<not> Q (k + 2) \<Longrightarrow> find Q [k..<n] = find Q [k + 3..<n]"
  by (simp add: find_upt_skip numeral_3_eq_3)

lemma naluScan_find:
  assumes "n \<le> length xs" "n + 3 < 2 ^ 32" "3 \<le> k" "k < n + 3"
  shows "case find (start_code_at xs) [k..<n] of
      Some j \<Rightarrow> naluScan xs n k k = Some (j, Some (if xs ! (j - 3) = 0 then 3 else 2))
    | None \<Rightarrow> \<exists>e \<ge> n. naluScan xs n k k = Some (e, None)"
  using assms(3,4)
proof (induction "n - k" arbitrary: k rule: less_induct)
  case less
  show ?case
  proof (cases "k < n")
    case False
    then show ?thesis by (subst naluScan.simps) (auto intro!: exI [of _ k])
  next
    case True
    let ?f = "find (start_code_at xs)"
    have rds: "rd xs k = Some (xs ! k)" "rd xs (k - 1) = Some (xs ! (k - 1))" "rd xs (k - 2) = Some (xs ! (k - 2))"
      "rd xs (k - 3) = Some (xs ! (k - 3))"
      using True assms(1) by (simp_all add: rd_in)
    have w: "wrap32 (k + 1) = k + 1" "wrap32 (k + 3) = k + 3" using True assms(2) by simp_all
    consider (zero) "xs ! k = 0" | (found) "start_code_at xs k" | (jump) "xs ! k \<noteq> 0" "\<not> start_code_at xs k"
      by blast
    then show ?thesis
    proof cases
      case zero
      then have "\<not> start_code_at xs k" by (simp add: start_code_at_def)
      from find_upt_skip [of "start_code_at xs", OF this, of n] have a: "?f [k..<n] = ?f [k + 1..<n]" by simp
      have b: "naluScan xs n k k = naluScan xs n (k + 1) (k + 1)"
        using zero True rds w by (subst naluScan.simps) simp
      show ?thesis unfolding a b using less.prems True by (intro less.hyps) auto
    next
      case found
      then have "?f [k..<n] = Some k" using True by (simp add: upt_conv_Cons)
      moreover have "naluScan xs n k k = Some (k, Some (if xs ! (k - 3) = 0 then 3 else 2))"
        using found True rds by (subst naluScan.simps) (simp add: start_code_at_def)
      ultimately show ?thesis by simp
    next
      case jump
      then have "\<not> start_code_at xs (k + 1)" "\<not> start_code_at xs (k + 2)" by (auto simp: start_code_at_def)
      from find_upt_skip3 [of "start_code_at xs", OF jump(2) this, of n] have a: "?f [k..<n] = ?f [k + 3..<n]" .
      have b: "naluScan xs n k k = naluScan xs n (k + 3) (k + 3)"
        using jump True rds w by (subst naluScan.simps) (auto simp: start_code_at_def)
      show ?thesis unfolding a b using less.prems True by (intro less.hyps) auto
    qed
  qed
qed

lemma skipZeros_takeWhile:
  "n \<le> length xs \<Longrightarrow> skipZeros xs n k = Some (k + min (4 - k) (length (takeWhile (\<lambda>b. b = 0) (drop k (take n xs)))))"
proof (induction xs n k rule: skipZeros.induct)
  case (1 xs n k)
  show ?case
  proof (cases "k < 4 \<and> k < n")
    case False
    then show ?thesis by (subst skipZeros.simps) auto
  next
    case True
    then have d: "drop k (take n xs) = xs ! k # drop (k + 1) (take n xs)"
      using "1.prems" by (simp add: Cons_nth_drop_Suc [symmetric])
    have r: "rd xs k = Some (xs ! k)" using True "1.prems" by (simp add: rd_in)
    show ?thesis
      using True r d "1.IH" [OF True, of "xs ! k"] "1.prems"
      by (subst skipZeros.simps) (auto simp: min_def)
  qed
qed

text \<open>The plain reading of the code's comments: a start code, then everything up to the next one.\<close>

definition next_nalu :: "byte list \<Rightarrow> (nat \<times> nat) option" where
  "next_nalu xs =
     (let z = length (takeWhile (\<lambda>b. b = 0) xs)
      in if (z = 2 \<or> z = 3) \<and> z < length xs \<and> xs ! z = 1
         then Some (z + 1,
                (case find (start_code_at xs) [z + 1..<length xs] of
                   None \<Rightarrow> length xs
                 | Some k \<Rightarrow> k - (if xs ! (k - 3) = 0 then 3 else 2)) - (z + 1))
         else None)"

lemma annexBNext_ref:
  assumes "length xs + 3 < 2 ^ 32"
  shows "annexBNext xs (length xs) =
     Some (case next_nalu xs of None \<Rightarrow> (STATUS_RTP_INVALID_NALU, 0, 0) | Some (s, l) \<Rightarrow> (STATUS_SUCCESS, s, l))"
proof -
  define z where "z = length (takeWhile (\<lambda>b. b = 0) xs)"
  have skip: "skipZeros xs (length xs) 0 = Some (min 4 z)"
    by (simp add: skipZeros_takeWhile z_def)
  show ?thesis
  proof (cases "(z = 2 \<or> z = 3) \<and> z < length xs \<and> xs ! z = 1")
    case False
    then have "next_nalu xs = None" unfolding next_nalu_def Let_def z_def by (rule if_not_P)
    moreover have "annexBNext xs (length xs) = Some (STATUS_RTP_INVALID_NALU, 0, 0)"
      using False skip by (auto simp: annexBNext_def min_def rd_def)
    ultimately show ?thesis by simp
  next
    case True
    then have z: "min 4 z = z" "rd xs z = Some 1" "2 \<le> z" "z < 4" by (auto simp: rd_def)
    have ref: "next_nalu xs = Some (z + 1,
                (case find (start_code_at xs) [z + 1..<length xs] of
                   None \<Rightarrow> length xs
                 | Some k \<Rightarrow> k - (if xs ! (k - 3) = 0 then 3 else 2)) - (z + 1))"
      using True by (simp add: next_nalu_def z_def [symmetric] Let_def)
    have scan: "case find (start_code_at xs) [z + 1..<length xs] of
        Some j \<Rightarrow> naluScan xs (length xs) (z + 1) (z + 1) = Some (j, Some (if xs ! (j - 3) = 0 then 3 else 2))
      | None \<Rightarrow> \<exists>e \<ge> length xs. naluScan xs (length xs) (z + 1) (z + 1) = Some (e, None)"
      using assms z True by (intro naluScan_find) auto
    show ?thesis
    proof (cases "find (start_code_at xs) [z + 1..<length xs]")
      case None
      then obtain e where "length xs \<le> e" "naluScan xs (length xs) (z + 1) (z + 1) = Some (e, None)"
        using scan by auto
      then show ?thesis
        using skip z True assms None by (simp add: annexBNext_def ref)
    next
      case (Some k)
      then have k: "z + 1 \<le> k" "k < length xs" "start_code_at xs k" by (auto simp: find_Some_iff)
      have far: "z + 1 + 2 \<le> k"
      proof (rule ccontr)
        assume "\<not> z + 1 + 2 \<le> k"
        with k(1) have "k = z + 1 \<or> k = z + 2" by auto
        with k(3) True show False by (auto simp: start_code_at_def)
      qed
      have far3: "z + 1 + 3 \<le> k" if "xs ! (k - 3) = 0"
        using that far True by (cases "k = z + 3") auto
      show ?thesis
        using scan Some skip z k far far3 assms by (auto simp: annexBNext_def ref)
    qed
  qed
qed

subsection \<open>Annex-B access units\<close>

text \<open>
  An access unit is a list of NAL units, each after a three- or four-byte start code.  A NAL
  unit is non-empty, does not end in a zero byte and contains no start code; the encoder
  guarantees this by emulation prevention (ITU-T H.264, 7.4.1).
\<close>

definition start_code :: "bool \<Rightarrow> byte list" where
  "start_code long = (if long then [0, 0, 0, 1] else [0, 0, 1])"

definition nalu_ok :: "byte list \<Rightarrow> bool" where
  "nalu_ok u \<longleftrightarrow> u \<noteq> [] \<and> last u \<noteq> 0 \<and>
     (\<forall>k < length u - 2. \<not> (u ! k = 0 \<and> u ! (k + 1) = 0 \<and> u ! (k + 2) = 1))"

definition annexb :: "(bool \<times> byte list) list \<Rightarrow> byte list" where
  "annexb us = concat (map (\<lambda>(long, u). start_code long @ u) us)"

lemma annexb_simps [simp]: "annexb [] = []" "annexb ((long, u) # us) = start_code long @ u @ annexb us"
  by (simp_all add: annexb_def)

lemma length_start_code: "length (start_code long) = (if long then 4 else 3)"
  by (simp add: start_code_def)

lemma start_code_zeros: "takeWhile (\<lambda>b. b = 0) (start_code long @ ys) = replicate (length (start_code long) - 1) 0"
  by (simp add: start_code_def numeral_eq_Suc)

lemma annexb_Cons_cases:
  "annexb us = [] \<and> us = [] \<or> (\<exists>long rest. annexb us = start_code long @ rest)"
proof (cases us)
  case (Cons a us')
  then show ?thesis by (cases a) auto
qed simp

lemma no_start_code_inside:
  assumes u: "nalu_ok u" and xs: "xs = start_code long @ u @ rest"
    and k: "length (start_code long) \<le> k" "k < length (start_code long) + length u"
  shows "\<not> start_code_at xs k"
proof
  let ?p = "start_code long"
  assume sc: "start_code_at xs k"
  have p: "?p ! (length ?p - 1) = 1" "3 \<le> length ?p" by (simp_all add: start_code_def)
  obtain j where j: "k = length ?p + j" "j < length u" using k by (metis le_Suc_ex nat_add_left_cancel_less)
  have at: "xs ! (length ?p + i) = u ! i" if "i < length u" for i
    using that by (simp add: xs nth_append)
  have one: "xs ! (length ?p - 1) = 1" by (simp add: xs start_code_def)
  consider "j = 0" | "j = 1" | i where "j = i + 2" by (metis One_nat_def add_2_eq_Suc' not0_implies_Suc)
  then show False
  proof cases
    case 1
    with sc one j show False by (simp add: start_code_at_def)
  next
    case 2
    with sc one j p(2) show False by (simp add: start_code_at_def)
  next
    case 3
    then have "u ! i = 0" "u ! (i + 1) = 0" "u ! (i + 2) = 1"
      using sc j at [of i] at [of "i + 1"] at [of "i + 2"] by (simp_all add: start_code_at_def)
    with u j 3 show False by (auto simp: nalu_ok_def)
  qed
qed

lemma next_nalu_annexb:
  assumes u: "nalu_ok u" and rest: "rest = [] \<or> (\<exists>l r. rest = start_code l @ r)"
  shows "next_nalu (start_code long @ u @ rest) = Some (length (start_code long), length u)"
proof -
  let ?p = "start_code long"
  define xs where "xs = ?p @ u @ rest"
  define e where "e = length ?p + length u"
  have z: "length (takeWhile (\<lambda>b. b = 0) xs) = length ?p - 1"
    by (simp add: xs_def start_code_zeros)
  have p: "length ?p - 1 + 1 = length ?p" "length ?p - 1 = 2 \<or> length ?p - 1 = 3" "length ?p - 1 < length xs"
    "xs ! (length ?p - 1) = 1"
    by (simp_all add: start_code_def xs_def)
  have r: "next_nalu xs = Some (length ?p,
      (case find (start_code_at xs) [length ?p..<length xs] of
         None \<Rightarrow> length xs | Some k \<Rightarrow> k - (if xs ! (k - 3) = 0 then 3 else 2)) - length ?p)"
    unfolding next_nalu_def Let_def z p(1) using p(2-4) by (simp only: if_P)
  have inside: "\<not> start_code_at xs k" if "length ?p \<le> k" "k < e" for k
    using no_start_code_inside [OF u xs_def] that by (simp add: e_def)
  have "e - 1 = length ?p + (length u - 1)" using u by (cases u) (simp_all add: e_def nalu_ok_def)
  then have last: "xs ! (e - 1) \<noteq> 0"
    using u by (auto simp: xs_def nth_append nalu_ok_def last_conv_nth)
  have tail: "xs ! (e + i) = rest ! i" for i
    by (simp add: xs_def e_def nth_append add.assoc)
  from rest consider "rest = []" | r where "rest = [0, 0, 1] @ r" | r where "rest = [0, 0, 0, 1] @ r"
    by (auto simp: start_code_def split: if_splits)
  then have "(case find (start_code_at xs) [length ?p..<length xs] of
         None \<Rightarrow> length xs | Some k \<Rightarrow> k - (if xs ! (k - 3) = 0 then 3 else 2)) = e"
  proof cases
    case 1
    then have "length xs = e" by (simp add: xs_def e_def)
    with inside show ?thesis by (simp add: find_upt_None)
  next
    case 2
    have "find (start_code_at xs) [length ?p..<length xs] = Some (e + 2)"
    proof (rule find_upt_first)
      show "start_code_at xs (e + 2)" using tail [of 0] tail [of 1] tail [of 2] 2 by (simp add: start_code_at_def)
      fix j assume "length ?p \<le> j" "j < e + 2"
      then show "\<not> start_code_at xs j"
        using inside [of j] tail [of 0] tail [of 1] 2
        by (cases "j < e"; cases "j = e") (auto simp: start_code_at_def less_Suc_eq)
    qed (simp_all add: xs_def e_def 2)
    moreover have "e + 2 - 3 = e - 1" by simp
    ultimately show ?thesis using last by simp
  next
    case 3
    have "find (start_code_at xs) [length ?p..<length xs] = Some (e + 3)"
    proof (rule find_upt_first)
      show "start_code_at xs (e + 3)" using tail [of 1] tail [of 2] tail [of 3] 3 by (simp add: start_code_at_def)
      fix j assume "length ?p \<le> j" "j < e + 3"
      then consider "j < e" | "j = e" | "j = e + 1" | "j = e + 2" by linarith
      then show "\<not> start_code_at xs j"
        using inside [of j] \<open>length ?p \<le> j\<close> tail [of 0] tail [of 1] tail [of 2] 3
        by cases (auto simp: start_code_at_def)
    qed (simp_all add: xs_def e_def 3)
    then show ?thesis using tail [of 0] 3 by simp
  qed
  with r show ?thesis by (simp add: xs_def [symmetric] e_def)
qed

text \<open>The access unit cut at its start codes.\<close>

lemma next_nalu_bounds: "next_nalu xs = Some (s, l) \<Longrightarrow> 3 \<le> s \<and> s + l \<le> length xs"
  by (auto simp: next_nalu_def Let_def find_Some_iff split: if_splits option.splits)

function nalu_split :: "byte list \<Rightarrow> byte list list option" where
  "nalu_split xs =
     (if xs = [] then Some []
      else (case next_nalu xs of
              None \<Rightarrow> None
            | Some (s, l) \<Rightarrow> map_option (Cons (take l (drop s xs))) (nalu_split (drop (s + l) xs))))"
  by pat_completeness auto
termination
  by (relation "measure length") (auto dest!: next_nalu_bounds)

declare nalu_split.simps [simp del]

lemma nalu_split_Nil [simp]: "nalu_split [] = Some []"
  by (simp add: nalu_split.simps)

lemma nalu_split_annexb:
  "list_all (nalu_ok \<circ> snd) us \<Longrightarrow> nalu_split (annexb us) = Some (map snd us)"
proof (induction us)
  case Nil
  then show ?case by simp
next
  case (Cons a us)
  obtain long u where a: "a = (long, u)" by (cases a)
  have u: "nalu_ok u" using Cons.prems a by simp
  have "next_nalu (annexb (a # us)) = Some (length (start_code long), length u)"
    using next_nalu_annexb [OF u, of "annexb us" long] annexb_Cons_cases [of us] a by auto
  moreover have "annexb (a # us) \<noteq> []" using u by (simp add: a nalu_ok_def)
  ultimately show ?case
    using Cons a by (subst nalu_split.simps) simp
qed

lemma nalu_splitE:
  assumes "nalu_split xs = Some us" "xs \<noteq> []"
  obtains s u us' rest where "next_nalu xs = Some (s, length u)" "drop s xs = u @ rest" "us = u # us'"
    "nalu_split rest = Some us'" "3 \<le> s" "length xs = s + length u + length rest"
proof -
  from assms obtain s l us' where n: "next_nalu xs = Some (s, l)" "us = take l (drop s xs) # us'"
    "nalu_split (drop (s + l) xs) = Some us'"
    by (subst (asm) nalu_split.simps) (auto split: option.splits)
  note b = next_nalu_bounds [OF n(1)]
  show thesis
  proof (rule that [of s "take l (drop s xs)" "drop (s + l) xs" us'])
    show "drop s xs = take l (drop s xs) @ drop (s + l) xs" by (metis append_take_drop_id drop_drop add.commute)
  qed (use n b in auto)
qed

lemma nalu_split_total: "nalu_split d = Some us \<Longrightarrow> total us \<le> length d"
proof (induction "length d" arbitrary: d us rule: less_induct)
  case less
  show ?case
  proof (cases "d = []")
    case True
    with less.prems show ?thesis by simp
  next
    case False
    obtain s u us' rest where x: "us = u # us'" "nalu_split rest = Some us'" "3 \<le> s" "length d = s + length u + length rest"
      using less.prems False by (rule nalu_splitE)
    then show ?thesis using less.hyps [of rest us'] by simp
  qed
qed

subsection \<open>The loop over the access unit\<close>

partial_function (option) naluLoop ::
  "(byte list option \<Rightarrow> nat \<Rightarrow> (STATUS \<times> nat \<times> nat) option) \<Rightarrow>
   (nat \<Rightarrow> byte list option \<Rightarrow> nat \<Rightarrow> PayloadCursor option \<Rightarrow> (STATUS \<times> PayloadCursor option \<times> nat \<times> nat) option) \<Rightarrow>
   nat \<Rightarrow> byte list \<Rightarrow> nat \<Rightarrow> PayloadCursor option \<Rightarrow> nat \<Rightarrow> nat \<Rightarrow> (STATUS \<times> PayloadCursor option \<times> nat \<times> nat) option" where
  "naluLoop getNext createFromNalu mtu curPtrInNalus remainNalusLength cursor payLen subSize =
     do { (st, startIndex, nextNaluLength) \<leftarrow> getNext (Some curPtrInNalus) remainNalusLength;
          if STATUS_FAILED st then Some (st, cursor, payLen, subSize)
          else do {
            let cur1 = drop startIndex curPtrInNalus;
            let remain1 = sub32 remainNalusLength startIndex;
            if \<not> remain1 \<noteq> 0 then Some (STATUS_SUCCESS, cursor, payLen, subSize)
            else do {
              (st1, cursor1, singleLen, singleSub) \<leftarrow> createFromNalu mtu (Some cur1) nextNaluLength cursor;
              if STATUS_FAILED st1 then Some (st1, cursor1, payLen, subSize)
              else do {
                let remain2 = sub32 remain1 nextNaluLength;
                let cur2 = drop nextNaluLength cur1;
                (let (cursor2, payLen2, subSize2) =
                   (case cursor1 of
                      None \<Rightarrow> (None, wrap32 (payLen + singleLen), wrap32 (subSize + singleSub))
                    | Some pa \<Rightarrow>
                        (Some (pa\<lparr>pc_bufferPos := pc_bufferPos pa + singleLen, pc_subPos := pc_subPos pa + singleSub,
                                  pc_maxPayloadLength := sub32 (pc_maxPayloadLength pa) singleLen,
                                  pc_maxPayloadSubLenSize := sub32 (pc_maxPayloadSubLenSize pa) singleSub\<rparr>), payLen, subSize))
                 in if remain2 \<noteq> 0 then naluLoop getNext createFromNalu mtu cur2 remain2 cursor2 payLen2 subSize2
                    else Some (STATUS_SUCCESS, cursor2, payLen2, subSize2)) } } } }"

definition start4ByteCode :: "byte list" where
  "start4ByteCode = [0, 0, 0, 1]"


lemma length_start4ByteCode [simp]: "length start4ByteCode = 4"
  by (simp add: start4ByteCode_def)

subsection \<open>From one NAL unit to an access unit\<close>

definition stream_packets :: "(nat \<Rightarrow> byte list \<Rightarrow> byte list list) \<Rightarrow> nat \<Rightarrow> byte list list \<Rightarrow> byte list list" where
  "stream_packets nalu_packets mtu us = concat (map (nalu_packets mtu) us)"

definition nalu_units :: "byte list \<Rightarrow> byte list list" where
  "nalu_units d = (case nalu_split d of None \<Rightarrow> [] | Some us \<Rightarrow> us)"

definition nalu_accepts :: "nat \<Rightarrow> (byte list \<Rightarrow> bool) \<Rightarrow> nat \<Rightarrow> byte list \<Rightarrow> bool" where
  "nalu_accepts minMtu unit_ok mtu d \<longleftrightarrow> minMtu < mtu \<and> mtu + 4 < 2 ^ 32 \<and> d \<noteq> [] \<and> 4 * length d + 4 < 2 ^ 32 \<and>
     (case nalu_split d of None \<Rightarrow> False | Some us \<Rightarrow> list_all unit_ok us)"

definition au_packets :: "(nat \<Rightarrow> byte list \<Rightarrow> byte list list) \<Rightarrow> nat \<Rightarrow> byte list \<Rightarrow> byte list list" where
  "au_packets nalu_packets mtu d = stream_packets nalu_packets mtu (nalu_units d)"

definition au_received :: "byte list \<Rightarrow> byte list" where
  "au_received d = concat (map (append start4ByteCode) (nalu_units d))"

lemma stream_packets_simps [simp]:
  "stream_packets f mtu [] = []"
  "stream_packets f mtu (u # us) = f mtu u @ stream_packets f mtu us"
  by (simp_all add: stream_packets_def)

lemma nalu_accepts_annexb:
  assumes "minMtu < mtu" "mtu + 4 < 2 ^ 32" "us \<noteq> []" "4 * length (annexb us) + 4 < 2 ^ 32"
    and "\<And>long u. (long, u) \<in> set us \<Longrightarrow> nalu_ok u \<and> unit_ok u"
  shows "nalu_accepts minMtu unit_ok mtu (annexb us)"
    and "au_received (annexb us) = concat (map (\<lambda>(_, u). start4ByteCode @ u) us)"
proof -
  have split: "nalu_split (annexb us) = Some (map snd us)"
    using assms(5) by (intro nalu_split_annexb) (auto simp: list_all_iff)
  have "annexb us \<noteq> []"
  proof -
    from assms(3) obtain l u us' where "us = (l, u) # us'" by (cases us) auto
    then show ?thesis by (simp add: start_code_def)
  qed
  then show "nalu_accepts minMtu unit_ok mtu (annexb us)"
    using assms split by (auto simp: nalu_accepts_def list_all_iff)
  show "au_received (annexb us) = concat (map (\<lambda>(_, u). start4ByteCode @ u) us)"
    by (simp add: au_received_def nalu_units_def split comp_def case_prod_unfold)
qed

text \<open>
  What a codec supplies for one NAL unit \<open>u\<close> that starts the rest of the access unit:
  the two passes of \<^verbatim>\<open>createPayloadFromNalu\<close> against the reference packets of the unit.
\<close>

locale nalu_packer =
  fixes getNext :: "byte list option \<Rightarrow> nat \<Rightarrow> (STATUS \<times> nat \<times> nat) option"
    and createFromNalu :: "nat \<Rightarrow> byte list option \<Rightarrow> nat \<Rightarrow> PayloadCursor option \<Rightarrow>
      (STATUS \<times> PayloadCursor option \<times> nat \<times> nat) option"
    and nalu_packets :: "nat \<Rightarrow> byte list \<Rightarrow> byte list list"
    and minMtu :: nat
    and unit_ok :: "byte list \<Rightarrow> bool"
  assumes getNext_ref: "length xs + 3 < 2 ^ 32 \<Longrightarrow> getNext (Some xs) (length xs) =
      Some (case next_nalu xs of None \<Rightarrow> (STATUS_RTP_INVALID_NALU, 0, 0) | Some (s, l) \<Rightarrow> (STATUS_SUCCESS, s, l))"
    and nalu_size: "unit_ok u \<Longrightarrow> minMtu < mtu \<Longrightarrow> total (nalu_packets mtu u) < 2 ^ 32 \<Longrightarrow>
      length (nalu_packets mtu u) < 2 ^ 32 \<Longrightarrow>
      createFromNalu mtu (Some (u @ rest)) (length u) None =
        Some (STATUS_SUCCESS, None, total (nalu_packets mtu u), length (nalu_packets mtu u))"
    and nalu_fill: "unit_ok u \<Longrightarrow> minMtu < mtu \<Longrightarrow>
      pc_payloadBuffer pa = Some buf \<Longrightarrow> pc_payloadSubLength pa = Some subs \<Longrightarrow>
      total (nalu_packets mtu u) \<le> pc_maxPayloadLength pa \<Longrightarrow> pc_maxPayloadLength pa < 2 ^ 32 \<Longrightarrow>
      length (nalu_packets mtu u) \<le> pc_maxPayloadSubLenSize pa \<Longrightarrow> pc_maxPayloadSubLenSize pa < 2 ^ 32 \<Longrightarrow>
      pc_bufferPos pa + total (nalu_packets mtu u) \<le> length buf \<Longrightarrow>
      pc_subPos pa + length (nalu_packets mtu u) \<le> length subs \<Longrightarrow>
      createFromNalu mtu (Some (u @ rest)) (length u) (Some pa) =
        Some (STATUS_SUCCESS,
              Some (pa\<lparr>pc_payloadBuffer := Some (patch buf (pc_bufferPos pa) (concat (nalu_packets mtu u))),
                       pc_payloadSubLength := Some (patch subs (pc_subPos pa) (map length (nalu_packets mtu u)))\<rparr>),
              total (nalu_packets mtu u), length (nalu_packets mtu u))"
    and nonempty: "unit_ok u \<Longrightarrow> u \<noteq> []"
    and total_bound: "unit_ok u \<Longrightarrow> minMtu < mtu \<Longrightarrow> total (nalu_packets mtu u) \<le> 4 * length u"
    and length_bound: "unit_ok u \<Longrightarrow> minMtu < mtu \<Longrightarrow> length (nalu_packets mtu u) \<le> length u"
begin

lemma loop_size:
  assumes "minMtu < mtu" "nalu_split xs = Some us" "xs \<noteq> []" "length xs + 3 < 2 ^ 32" "list_all unit_ok us"
    "payLen + total (stream_packets nalu_packets mtu us) < 2 ^ 32" "subSize + length (stream_packets nalu_packets mtu us) < 2 ^ 32"
  shows "naluLoop getNext createFromNalu mtu xs (length xs) None payLen subSize =
     Some (STATUS_SUCCESS, None, payLen + total (stream_packets nalu_packets mtu us), subSize + length (stream_packets nalu_packets mtu us))"
  using assms(2-)
proof (induction "length xs" arbitrary: xs us payLen subSize rule: less_induct)
  case less
  obtain s u us' rest where
    x: "next_nalu xs = Some (s, length u)" "drop s xs = u @ rest" "us = u # us'"
    "nalu_split rest = Some us'" "3 \<le> s" "length xs = s + length u + length rest"
    using less.prems(1,2) by (rule nalu_splitE)
  let ?ps = "nalu_packets mtu u"
  have g: "getNext (Some xs) (length xs) = Some (STATUS_SUCCESS, s, length u)"
    using less.prems(3) x(1) by (simp add: getNext_ref)
  have ok: "unit_ok u" "list_all unit_ok us'" using less.prems(4) x(3) by simp_all
  then have u: "u \<noteq> []" by (intro nonempty)
  have c: "createFromNalu mtu (Some (u @ rest)) (length u) None = Some (STATUS_SUCCESS, None, total ?ps, length ?ps)"
    using ok(1) assms(1) less.prems(5,6) x(3) by (intro nalu_size) simp_all
  have r: "sub32 (length xs) s = length u + length rest" "sub32 (length u + length rest) (length u) = length rest"
    "wrap32 (payLen + total ?ps) = payLen + total ?ps" "wrap32 (subSize + length ?ps) = subSize + length ?ps"
    using less.prems x(3,6) by simp_all
  show ?case
  proof (cases "rest = []")
    case True
    with x have "us' = []" by simp
    then show ?thesis
      unfolding naluLoop.simps [of getNext createFromNalu mtu xs] using g x(2,3) c r u True by simp
  next
    case False
    have IH: "naluLoop getNext createFromNalu mtu rest (length rest) None (payLen + total ?ps) (subSize + length ?ps) =
      Some (STATUS_SUCCESS, None, payLen + total ?ps + total (stream_packets nalu_packets mtu us'),
            subSize + length ?ps + length (stream_packets nalu_packets mtu us'))"
      using less.prems x u ok False by (intro less.hyps) simp_all
    show ?thesis
      unfolding naluLoop.simps [of getNext createFromNalu mtu xs] using g x(2,3) c r u False IH by simp
  qed
qed

lemma loop_fill:
  assumes "minMtu < mtu" "nalu_split xs = Some us" "xs \<noteq> []" "length xs + 3 < 2 ^ 32" "list_all unit_ok us"
    and "pc_payloadBuffer pa = Some buf" "pc_payloadSubLength pa = Some subs"
    and "total (stream_packets nalu_packets mtu us) \<le> pc_maxPayloadLength pa" "pc_maxPayloadLength pa < 2 ^ 32"
      "length (stream_packets nalu_packets mtu us) \<le> pc_maxPayloadSubLenSize pa" "pc_maxPayloadSubLenSize pa < 2 ^ 32"
    and "pc_bufferPos pa + total (stream_packets nalu_packets mtu us) \<le> length buf"
      "pc_subPos pa + length (stream_packets nalu_packets mtu us) \<le> length subs"
  shows "\<exists>pa'. naluLoop getNext createFromNalu mtu xs (length xs) (Some pa) payLen subSize = Some (STATUS_SUCCESS, Some pa', payLen, subSize) \<and>
     pc_payloadBuffer pa' = Some (patch buf (pc_bufferPos pa) (concat (stream_packets nalu_packets mtu us))) \<and>
     pc_payloadSubLength pa' = Some (patch subs (pc_subPos pa) (map length (stream_packets nalu_packets mtu us)))"
  using assms(2-)
proof (induction "length xs" arbitrary: xs us pa buf subs rule: less_induct)
  case less
  obtain s u us' rest where
    x: "next_nalu xs = Some (s, length u)" "drop s xs = u @ rest" "us = u # us'"
    "nalu_split rest = Some us'" "3 \<le> s" "length xs = s + length u + length rest"
    using less.prems(1,2) by (rule nalu_splitE)
  let ?ps = "nalu_packets mtu u" and ?qs = "stream_packets nalu_packets mtu us'"
  have g: "getNext (Some xs) (length xs) = Some (STATUS_SUCCESS, s, length u)"
    using less.prems(3) x(1) by (simp add: getNext_ref)
  have ok: "unit_ok u" "list_all unit_ok us'" using less.prems(4) x(3) by simp_all
  then have u: "u \<noteq> []" by (intro nonempty)
  define buf1 subs1 where "buf1 = patch buf (pc_bufferPos pa) (concat ?ps)"
    and "subs1 = patch subs (pc_subPos pa) (map length ?ps)"
  define pa1 where "pa1 = pa\<lparr>pc_payloadBuffer := Some buf1, pc_payloadSubLength := Some subs1\<rparr>"
  define pa2 where "pa2 = pa1\<lparr>pc_bufferPos := pc_bufferPos pa + total ?ps, pc_subPos := pc_subPos pa + length ?ps,
      pc_maxPayloadLength := pc_maxPayloadLength pa - total ?ps,
      pc_maxPayloadSubLenSize := pc_maxPayloadSubLenSize pa - length ?ps\<rparr>"
  have c: "createFromNalu mtu (Some (u @ rest)) (length u) (Some pa) =
      Some (STATUS_SUCCESS, Some pa1, total ?ps, length ?ps)"
    unfolding pa1_def buf1_def subs1_def
    using ok(1) assms(1) less.prems x(3) by (intro nalu_fill) simp_all
  have r: "sub32 (length xs) s = length u + length rest" "sub32 (length u + length rest) (length u) = length rest"
    "sub32 (pc_maxPayloadLength pa1) (total ?ps) = pc_maxPayloadLength pa - total ?ps"
    "sub32 (pc_maxPayloadSubLenSize pa1) (length ?ps) = pc_maxPayloadSubLenSize pa - length ?ps"
    using less.prems x(3,6) by (simp_all add: pa1_def)
  have sel: "pc_bufferPos pa1 = pc_bufferPos pa" "pc_subPos pa1 = pc_subPos pa" by (simp_all add: pa1_def)
  have step: "naluLoop getNext createFromNalu mtu xs (length xs) (Some pa) payLen subSize =
      (if length rest \<noteq> 0 then naluLoop getNext createFromNalu mtu rest (length rest) (Some pa2) payLen subSize
       else Some (STATUS_SUCCESS, Some pa2, payLen, subSize))"
    unfolding naluLoop.simps [of getNext createFromNalu mtu xs] pa2_def using g x(2) c r u sel by simp
  have len: "length buf1 = length buf" "length subs1 = length subs"
    using less.prems(11,12) x(3) by (simp_all add: buf1_def subs1_def)
  show ?case
  proof (cases "rest = []")
    case True
    with x have "us' = []" by simp
    with True x(3) show ?thesis using step by (simp add: pa2_def pa1_def buf1_def subs1_def)
  next
    case False
    have "\<exists>pa'. naluLoop getNext createFromNalu mtu rest (length rest) (Some pa2) payLen subSize = Some (STATUS_SUCCESS, Some pa', payLen, subSize) \<and>
     pc_payloadBuffer pa' = Some (patch buf1 (pc_bufferPos pa2) (concat ?qs)) \<and>
     pc_payloadSubLength pa' = Some (patch subs1 (pc_subPos pa2) (map length ?qs))"
      using less.prems x u ok False len by (intro less.hyps) (simp_all add: pa2_def pa1_def)
    moreover have "patch buf1 (pc_bufferPos pa2) (concat ?qs) = patch buf (pc_bufferPos pa) (concat (?ps @ ?qs))"
      "patch subs1 (pc_subPos pa2) (map length ?qs) = patch subs (pc_subPos pa) (map length (?ps @ ?qs))"
      using less.prems(11,12) x(3) by (simp_all add: buf1_def subs1_def pa2_def patch_patch)
    ultimately show ?thesis using step False x(3) by simp
  qed
qed

lemma stream_bounds:
  "minMtu < mtu \<Longrightarrow> list_all unit_ok us \<Longrightarrow>
   total (stream_packets nalu_packets mtu us) \<le> 4 * total us \<and> length (stream_packets nalu_packets mtu us) \<le> total us"
proof (induction us)
  case (Cons u us)
  with total_bound [of u mtu] length_bound [of u mtu] show ?case by auto
qed simp

lemma acceptsE:
  assumes "nalu_accepts minMtu unit_ok mtu d"
  obtains us where "nalu_split d = Some us" "nalu_units d = us" "list_all unit_ok us" "minMtu < mtu"
    "mtu + 4 < 2 ^ 32" "d \<noteq> []" "length d + 3 < 2 ^ 32" "total (stream_packets nalu_packets mtu us) < 2 ^ 32"
    "length (stream_packets nalu_packets mtu us) < 2 ^ 32"
proof -
  from assms obtain us where us: "nalu_split d = Some us" "list_all unit_ok us" "minMtu < mtu"
    by (auto simp: nalu_accepts_def split: option.splits)
  then show thesis
    using assms stream_bounds [of mtu us] nalu_split_total [of d us]
    by (intro that [of us]) (auto simp: nalu_accepts_def nalu_units_def)
qed

end

text \<open>
  A codec adds its entry points, which wrap the loop, and the receiving side of one packet;
  it then meets the contract for whole access units.
\<close>

locale nalu_codec = nalu_packer +
  fixes createPayload :: payload_func
    and depay :: depay_func
    and decode :: "byte list \<Rightarrow> byte list"
    and starts :: "byte list \<Rightarrow> bool"
    and packet_ok :: "byte list \<Rightarrow> bool"
  assumes create_size: "minMtu < mtu \<Longrightarrow>
      naluLoop getNext createFromNalu mtu d (length d) None 0 0 = Some (STATUS_SUCCESS, None, len, n) \<Longrightarrow>
      createPayload mtu (Some d) (length d) None l None k = Some (STATUS_SUCCESS, None, None, len, n)"
    and create_fill: "minMtu < mtu \<Longrightarrow>
      naluLoop getNext createFromNalu mtu d (length d)
        (Some \<lparr>pc_payloadBuffer = Some buf, pc_bufferPos = 0, pc_payloadSubLength = Some subs, pc_subPos = 0,
               pc_maxPayloadLength = len, pc_maxPayloadSubLenSize = n\<rparr>) len n = Some (STATUS_SUCCESS, Some pa', len, n) \<Longrightarrow>
      createPayload mtu (Some d) (length d) (Some buf) len (Some subs) n =
        Some (STATUS_SUCCESS, pc_payloadBuffer pa', pc_payloadSubLength pa', len, n)"
    and packet_facts: "unit_ok u \<Longrightarrow> minMtu < mtu \<Longrightarrow> mtu + 4 < 2 ^ 32 \<Longrightarrow> p \<in> set (nalu_packets mtu u) \<Longrightarrow>
      packet_ok p \<and> length p \<le> mtu"
    and packet_size: "packet_ok p \<Longrightarrow>
      depay (Some p) (length p) None k = Some (STATUS_SUCCESS, None, length (decode p), starts p)"
    and packet_fill: "packet_ok p \<Longrightarrow> length (decode p) \<le> k \<Longrightarrow> k \<le> length out \<Longrightarrow>
      depay (Some p) (length p) (Some out) k =
        Some (STATUS_SUCCESS, Some (patch out 0 (decode p)), length (decode p), starts p)"
    and decode_unit: "unit_ok u \<Longrightarrow> minMtu < mtu \<Longrightarrow> concat (map decode (nalu_packets mtu u)) = start4ByteCode @ u"
    and unit_starts: "unit_ok u \<Longrightarrow> minMtu < mtu \<Longrightarrow> nalu_packets mtu u \<noteq> [] \<and> starts (hd (nalu_packets mtu u))"
begin

lemma au_size_pass:
  assumes "nalu_accepts minMtu unit_ok mtu d" "ps = au_packets nalu_packets mtu d"
  shows "createPayload mtu (Some d) (length d) None l None k = Some (STATUS_SUCCESS, None, None, total ps, length ps)"
proof -
  from assms(1) obtain us where us: "nalu_split d = Some us" "nalu_units d = us" "list_all unit_ok us" "minMtu < mtu"
    "d \<noteq> []" "length d + 3 < 2 ^ 32" "total (stream_packets nalu_packets mtu us) < 2 ^ 32"
    "length (stream_packets nalu_packets mtu us) < 2 ^ 32" by (rule acceptsE)
  have "naluLoop getNext createFromNalu mtu d (length d) None 0 0 = Some (STATUS_SUCCESS, None, 0 + total ps, 0 + length ps)"
    unfolding assms(2) au_packets_def us(2) using us by (intro loop_size) simp_all
  then show ?thesis using us(4) by (intro create_size) simp_all
qed

lemma au_fill_pass:
  assumes "nalu_accepts minMtu unit_ok mtu d" "ps = au_packets nalu_packets mtu d"
    and "total ps \<le> length buf" "length ps \<le> length subs"
  shows "createPayload mtu (Some d) (length d) (Some buf) (total ps) (Some subs) (length ps) =
     Some (STATUS_SUCCESS, Some (concat ps @ drop (total ps) buf), Some (map length ps @ drop (length ps) subs),
           total ps, length ps)"
proof -
  from assms(1) obtain us where us: "nalu_split d = Some us" "nalu_units d = us" "list_all unit_ok us" "minMtu < mtu"
    "d \<noteq> []" "length d + 3 < 2 ^ 32" "total (stream_packets nalu_packets mtu us) < 2 ^ 32"
    "length (stream_packets nalu_packets mtu us) < 2 ^ 32" by (rule acceptsE)
  have ps: "ps = stream_packets nalu_packets mtu us" using assms(2) us(2) by (simp add: au_packets_def)
  let ?pa = "\<lparr>pc_payloadBuffer = Some buf, pc_bufferPos = 0, pc_payloadSubLength = Some subs, pc_subPos = 0,
              pc_maxPayloadLength = total ps, pc_maxPayloadSubLenSize = length ps\<rparr>"
  have "\<exists>pa'. naluLoop getNext createFromNalu mtu d (length d) (Some ?pa) (total ps) (length ps) =
        Some (STATUS_SUCCESS, Some pa', total ps, length ps) \<and>
     pc_payloadBuffer pa' = Some (patch buf (pc_bufferPos ?pa) (concat (stream_packets nalu_packets mtu us))) \<and>
     pc_payloadSubLength pa' = Some (patch subs (pc_subPos ?pa) (map length (stream_packets nalu_packets mtu us)))"
    using us assms(3,4) ps by (intro loop_fill) simp_all
  then show ?thesis
    using create_fill [OF us(4)] ps by (auto simp: patch_0)
qed

lemma au_packet_facts:
  assumes "nalu_accepts minMtu unit_ok mtu d" "p \<in> set (au_packets nalu_packets mtu d)"
  shows "packet_ok p" "length p \<le> mtu"
proof -
  from assms(1) obtain us where us: "nalu_units d = us" "list_all unit_ok us" "minMtu < mtu" "mtu + 4 < 2 ^ 32"
    by (rule acceptsE)
  from assms(2) us(1) obtain u where u: "u \<in> set us" "p \<in> set (nalu_packets mtu u)"
    by (auto simp: au_packets_def stream_packets_def)
  then have "unit_ok u" using us(2) by (simp add: list_all_iff)
  from packet_facts [OF this us(3,4) u(2)] show "packet_ok p" "length p \<le> mtu" by simp_all
qed

lemma au_reassemble:
  assumes "nalu_accepts minMtu unit_ok mtu d"
  shows "concat (map decode (au_packets nalu_packets mtu d)) = au_received d"
proof -
  from assms obtain us where us: "nalu_units d = us" "list_all unit_ok us" "minMtu < mtu" by (rule acceptsE)
  have "concat (map decode (stream_packets nalu_packets mtu us)) = concat (map (append start4ByteCode) us)"
    using us(2) by (induction us) (simp_all add: decode_unit us(3))
  with us(1) show ?thesis by (simp add: au_packets_def au_received_def)
qed

lemma au_first_starts:
  assumes "nalu_accepts minMtu unit_ok mtu d" "au_packets nalu_packets mtu d \<noteq> []"
  shows "starts (hd (au_packets nalu_packets mtu d))"
proof -
  from assms(1) obtain us where us: "nalu_units d = us" "list_all unit_ok us" "minMtu < mtu" by (rule acceptsE)
  with assms(2) unit_starts [of "hd us" mtu] show ?thesis
    by (cases us) (auto simp: au_packets_def hd_append)
qed

end

sublocale nalu_codec \<subseteq> codec: rtp_codec createPayload "au_packets nalu_packets" "nalu_accepts minMtu unit_ok"
  depay decode starts au_received
proof (unfold_locales, goal_cases)
  case (1 mtu d l k) then show ?case by (rule au_size_pass) (rule refl)
next
  case (2 mtu d buf subs) then show ?case by (intro au_fill_pass) simp_all
next
  case (3 mtu d p k) then show ?case by (intro packet_size au_packet_facts)
next
  case (4 mtu d p k out)
  then show ?case using packet_fill [OF au_packet_facts(1) [OF 4(1,2)] 4(3,4)] by (simp add: patch_0)
next
  case (5 mtu d) then show ?case by (rule au_reassemble)
next
  case (6 mtu d) then show ?case by (rule au_first_starts)
qed

sublocale nalu_codec \<subseteq> codec: mtu_payloader createPayload "au_packets nalu_packets" "nalu_accepts minMtu unit_ok"
  by unfold_locales (rule au_packet_facts(2))

context nalu_codec
begin

text \<open>The statement about access units in Annex-B form.\<close>

lemma annexb_transfer:
  assumes "minMtu < mtu" "mtu + 4 < 2 ^ 32" "us \<noteq> []" "4 * length (annexb us) + 4 < 2 ^ 32"
    and "\<And>long u. (long, u) \<in> set us \<Longrightarrow> nalu_ok u \<and> unit_ok u" "\<And>n. length (garbage n) = n"
    and "length (concat (map (\<lambda>(_, u). start4ByteCode @ u) us)) \<le> length out"
  shows "transfer createPayload depay mtu (annexb us) garbage out =
       Some (concat (map (\<lambda>(_, u). start4ByteCode @ u) us)) \<and>
     (\<exists>ps. packetise createPayload mtu (annexb us) garbage = Some ps \<and> (\<forall>p \<in> set ps. length p \<le> mtu))"
proof -
  note acc = nalu_accepts_annexb(1) [of minMtu mtu us unit_ok, OF assms(1-5)]
  note rec = nalu_accepts_annexb(2) [of minMtu mtu us unit_ok, OF assms(1-5)]
  have "transfer createPayload depay mtu (annexb us) garbage out = Some (au_received (annexb us))"
    using assms(6,7) rec by (intro codec.transfer_ok [OF acc]) simp_all
  then show ?thesis
    using rec codec.packetise_ok [OF acc assms(6)] codec.within_mtu [OF acc] by auto
qed

end

end
