(* ===== verification/H264Payloader.thy ===== *)
theory H264Payloader
  imports NaluPayloader
begin

text \<open>
  \<^verbatim>\<open>src/source/Rtp/Codecs/RtpH264Payloader.c\<close>: splitting an Annex-B access unit into NAL
  units, packing each into a single-NALU packet or FU-A fragments, and the receiving side.
  \<open>junk\<close> is the content of the uninitialised \<^verbatim>\<open>payloadArray\<close>, which the code writes back
  when it fails before initialising it.
\<close>

subsection \<open>Constants\<close>

abbreviation (input) FU_A_HEADER_SIZE :: nat where "FU_A_HEADER_SIZE \<equiv> 2"
abbreviation (input) FU_B_HEADER_SIZE :: nat where "FU_B_HEADER_SIZE \<equiv> 4"
abbreviation (input) STAP_A_HEADER_SIZE :: nat where "STAP_A_HEADER_SIZE \<equiv> 1"
abbreviation (input) STAP_B_HEADER_SIZE :: nat where "STAP_B_HEADER_SIZE \<equiv> 3"
abbreviation (input) FU_A_INDICATOR :: byte where "FU_A_INDICATOR \<equiv> 28"
abbreviation (input) FU_B_INDICATOR :: byte where "FU_B_INDICATOR \<equiv> 29"
abbreviation (input) STAP_A_INDICATOR :: byte where "STAP_A_INDICATOR \<equiv> 24"
abbreviation (input) STAP_B_INDICATOR :: byte where "STAP_B_INDICATOR \<equiv> 25"
abbreviation (input) NAL_TYPE_MASK :: byte where "NAL_TYPE_MASK \<equiv> 31"

subsection \<open>Finding the next NAL unit\<close>

text \<open>Status and, on success, \<^verbatim>\<open>*pStart\<close> and \<^verbatim>\<open>*pNaluLength\<close>.\<close>

definition getNextNaluLength :: "byte list option \<Rightarrow> nat \<Rightarrow> (STATUS \<times> nat \<times> nat) option" where
  "getNextNaluLength pNalus nalusLength =
     (case pNalus of None \<Rightarrow> Some (STATUS_NULL_ARG, 0, 0) | Some nalus \<Rightarrow> annexBNext nalus nalusLength)"

subsection \<open>Packing one NAL unit\<close>

text \<open>
  The FU-A loop.  \<open>array\<close> is \<open>None\<close> when only sizes are wanted, otherwise the two arrays, the
  position of \<^verbatim>\<open>pPayload\<close>, the position of the sub-length pointer and the two limits.
\<close>

partial_function (option) fuaLoop ::
  "nat \<Rightarrow> byte list \<Rightarrow> nat \<Rightarrow> byte \<Rightarrow> byte \<Rightarrow> nat \<Rightarrow> nat \<Rightarrow> (byte list \<times> nat list) option \<Rightarrow> nat \<Rightarrow> nat \<Rightarrow> nat \<Rightarrow> nat \<Rightarrow>
   nat \<Rightarrow> nat \<Rightarrow> (STATUS \<times> (byte list \<times> nat list) option \<times> nat \<times> nat) option" where
  "fuaLoop maxPayloadSize nalu naluLength naluRefIdc naluType cur remainingNaluLength arrays pos subPos maxLen maxSub
           payLen subSize =
     (if remainingNaluLength \<noteq> 0 then
        (let curPayloadSize = min maxPayloadSize remainingNaluLength;
             subSize' = wrap32 (subSize + 1);
             payLen' = wrap32 (payLen + wrap32 (FU_A_HEADER_SIZE + curPayloadSize))
         in case arrays of
              None \<Rightarrow> fuaLoop maxPayloadSize nalu naluLength naluRefIdc naluType (cur + curPayloadSize)
                        (remainingNaluLength - curPayloadSize) None pos subPos maxLen maxSub payLen' subSize'
            | Some (buf, subs) \<Rightarrow>
                if \<not> (subSize' \<le> maxSub \<and> payLen' \<le> maxLen)
                then Some (STATUS_BUFFER_TOO_SMALL, Some (buf, subs), payLen', subSize')
                else do {
                  buf1 \<leftarrow> memcpy buf (pos + FU_A_HEADER_SIZE) nalu cur curPayloadSize;
                  buf2 \<leftarrow> memwrite buf1 pos
                    [28 OR naluRefIdc,
                     if remainingNaluLength = naluLength - 1 then naluType OR 128
                     else if remainingNaluLength = curPayloadSize then naluType OR 64 else naluType];
                  subs' \<leftarrow> memwrite subs (subPos + subSize) [FU_A_HEADER_SIZE + curPayloadSize];
                  fuaLoop maxPayloadSize nalu naluLength naluRefIdc naluType (cur + curPayloadSize)
                    (remainingNaluLength - curPayloadSize) (Some (buf2, subs')) (pos + FU_A_HEADER_SIZE + curPayloadSize)
                    subPos maxLen maxSub payLen' subSize' })
      else Some (STATUS_SUCCESS, arrays, payLen, subSize))"

text \<open>Status, arrays, \<^verbatim>\<open>*filledLength\<close>, \<^verbatim>\<open>*filledSubLenSize\<close>.\<close>

definition createPayloadFromNalu ::
  "nat \<Rightarrow> byte list option \<Rightarrow> nat \<Rightarrow> PayloadCursor option \<Rightarrow> (STATUS \<times> PayloadCursor option \<times> nat \<times> nat) option" where
  "createPayloadFromNalu mtu pNalu naluLength pPayloadArray =
     (case pNalu of
        None \<Rightarrow> Some (STATUS_NULL_ARG, pPayloadArray, 0, 0)
      | Some nalu \<Rightarrow>
          if \<not> (case pPayloadArray of None \<Rightarrow> True
                  | Some pa \<Rightarrow> pc_payloadSubLength pa \<noteq> None \<and> pc_payloadBuffer pa \<noteq> None)
          then Some (STATUS_NULL_ARG, pPayloadArray, 0, 0)
          else if \<not> mtu > FU_A_HEADER_SIZE then Some (STATUS_RTP_INPUT_MTU_TOO_SMALL, pPayloadArray, 0, 0)
          else do {
            b0 \<leftarrow> rd nalu 0;
            let naluType = b0 AND 0x1F;
            let naluRefIdc = b0 AND 0x60;
            if naluLength \<le> mtu then
              (case pPayloadArray of
                 None \<Rightarrow> Some (STATUS_SUCCESS, None, naluLength, 1)
               | Some pa \<Rightarrow>
                   if \<not> (1 \<le> pc_maxPayloadSubLenSize pa \<and> naluLength \<le> pc_maxPayloadLength pa)
                   then Some (STATUS_BUFFER_TOO_SMALL, Some pa, naluLength, 1)
                   else do {
                     buf \<leftarrow> pc_payloadBuffer pa;
                     subs \<leftarrow> pc_payloadSubLength pa;
                     buf' \<leftarrow> memcpy buf (pc_bufferPos pa) nalu 0 naluLength;
                     subs' \<leftarrow> memwrite subs (pc_subPos pa) [naluLength];
                     Some (STATUS_SUCCESS, Some (pa\<lparr>pc_payloadBuffer := Some buf', pc_payloadSubLength := Some subs'\<rparr>),
                           naluLength, 1) })
            else
              (case pPayloadArray of
                 None \<Rightarrow> do {
                   (st, _, len, n) \<leftarrow> fuaLoop (mtu - FU_A_HEADER_SIZE) nalu naluLength naluRefIdc naluType 1 (naluLength - 1)
                                       None 0 0 0 0 0 0;
                   Some (st, None, if STATUS_FAILED st then 0 else len, if STATUS_FAILED st then 0 else n) }
               | Some pa \<Rightarrow> do {
                   buf \<leftarrow> pc_payloadBuffer pa;
                   subs \<leftarrow> pc_payloadSubLength pa;
                   (st, arrays, len, n) \<leftarrow> fuaLoop (mtu - FU_A_HEADER_SIZE) nalu naluLength naluRefIdc naluType 1 (naluLength - 1)
                                       (Some (buf, subs)) (pc_bufferPos pa) (pc_subPos pa)
                                       (pc_maxPayloadLength pa) (pc_maxPayloadSubLenSize pa) 0 0;
                   (buf', subs') \<leftarrow> arrays;
                   Some (st, Some (pa\<lparr>pc_payloadBuffer := Some buf', pc_payloadSubLength := Some subs'\<rparr>), len, n) }) })"

subsection \<open>Packing an access unit\<close>

definition createPayloadForH264 :: "nat \<times> nat \<Rightarrow> payload_func" where
  "createPayloadForH264 junk mtu nalus nalusLength payloadBuffer pPayloadLength pPayloadSubLength pPayloadSubLenSize =
     (let early = (\<lambda>st. Some (st, payloadBuffer, pPayloadSubLength,
                       if payloadBuffer = None then 0 else fst junk, if payloadBuffer = None then 0 else snd junk))
      in case nalus of
           None \<Rightarrow> early STATUS_NULL_ARG
         | Some ns \<Rightarrow>
             if \<not> (payloadBuffer = None \<or> pPayloadSubLength \<noteq> None) then early STATUS_NULL_ARG
             else if \<not> mtu > FU_A_HEADER_SIZE then early STATUS_RTP_INPUT_MTU_TOO_SMALL
             else (case payloadBuffer of
                None \<Rightarrow> do {
                  (st, _, len, n) \<leftarrow> naluLoop getNextNaluLength createPayloadFromNalu mtu ns nalusLength None 0 0;
                  Some (st, None, pPayloadSubLength, if STATUS_FAILED st then 0 else len, if STATUS_FAILED st then 0 else n) }
              | Some buf \<Rightarrow> do {
                  (st, cursor, len, n) \<leftarrow> naluLoop getNextNaluLength createPayloadFromNalu mtu ns nalusLength
                     (Some \<lparr>pc_payloadBuffer = Some buf, pc_bufferPos = 0, pc_payloadSubLength = pPayloadSubLength, pc_subPos = 0,
                            pc_maxPayloadLength = pPayloadLength, pc_maxPayloadSubLenSize = pPayloadSubLenSize\<rparr>)
                     pPayloadLength pPayloadSubLenSize;
                  pa \<leftarrow> cursor;
                  Some (st, pc_payloadBuffer pa, pc_payloadSubLength pa, len, n) }))"

subsection \<open>Depayloading\<close>

text \<open>The two loops over an aggregation packet: summing the sizes, and copying the units.\<close>

function stapSize :: "platform \<Rightarrow> byte list \<Rightarrow> nat \<Rightarrow> nat \<Rightarrow> nat \<Rightarrow> nat option" where
  "stapSize P raw packetLength cur naluLength =
     do { sz \<leftarrow> rdUnalignedInt16 P raw cur;
          let subNaluSize = unat sz;
          let cur' = cur + 2 + subNaluSize;
          let naluLength' = wrap32 (naluLength + (subNaluSize + 4));
          if subNaluSize > 0 \<and> cur' < packetLength then stapSize P raw packetLength cur' naluLength'
          else Some naluLength' }"
  by pat_completeness auto
termination
  by (relation "measure (\<lambda>(_, _, packetLength, cur, _). packetLength - cur)") auto

declare stapSize.simps [simp del]

function stapCopy :: "platform \<Rightarrow> byte list \<Rightarrow> nat \<Rightarrow> nat \<Rightarrow> byte list \<Rightarrow> nat \<Rightarrow> nat \<Rightarrow> (byte list \<times> nat) option" where
  "stapCopy P raw packetLength cur out pos naluLength =
     do { sz \<leftarrow> rdUnalignedInt16 P raw cur;
          let subNaluSize = unat sz;
          out1 \<leftarrow> memwrite out pos start4ByteCode;
          out2 \<leftarrow> memcpy out1 (pos + 4) raw (cur + 2) subNaluSize;
          let cur' = cur + 2 + subNaluSize;
          let naluLength' = wrap32 (naluLength + (4 + subNaluSize));
          if subNaluSize > 0 \<and> cur' < packetLength
          then stapCopy P raw packetLength cur' out2 (pos + 4 + subNaluSize) naluLength'
          else Some (out2, naluLength') }"
  by pat_completeness auto
termination
  by (relation "measure (\<lambda>(_, _, packetLength, cur, _). packetLength - cur)") auto

declare stapCopy.simps [simp del]

text \<open>The first switch: indicator, \<^verbatim>\<open>naluRefIdc\<close>, \<^verbatim>\<open>naluType\<close>, \<^verbatim>\<open>isStartingPacket\<close> and \<^verbatim>\<open>naluLength\<close>.\<close>

definition h264Classify :: "platform \<Rightarrow> byte list \<Rightarrow> nat \<Rightarrow> (byte \<times> byte \<times> byte \<times> bool \<times> nat) option" where
  "h264Classify P raw packetLength =
     do { b0 \<leftarrow> rd raw 0;
          let indicator = b0 AND NAL_TYPE_MASK;
          if indicator = FU_A_INDICATOR then
            do { b1 \<leftarrow> rd raw 1;
                 let isStart = (b1 AND 128 \<noteq> 0);
                 let len = (if isStart then wrap32 (sub32 packetLength FU_A_HEADER_SIZE + 1)
                            else sub32 packetLength FU_A_HEADER_SIZE);
                 Some (indicator, b0 AND 0x60, b1 AND 0x1f, isStart, len) }
          else if indicator = FU_B_INDICATOR then
            Some (indicator, 0, 0, False, wrap32 (sub32 packetLength FU_A_HEADER_SIZE + 1))
          else if indicator = STAP_A_INDICATOR then
            do { len \<leftarrow> stapSize P raw packetLength STAP_A_HEADER_SIZE 0; Some (indicator, 0, 0, True, len) }
          else if indicator = STAP_B_INDICATOR then
            do { len \<leftarrow> stapSize P raw packetLength STAP_B_HEADER_SIZE 0; Some (indicator, 0, 0, True, len) }
          else Some (indicator, 0, 0, True, packetLength) }"

definition depayH264FromRtpPayload :: "platform \<Rightarrow> depay_func" where
  "depayH264FromRtpPayload P rawPkt packetLength pNaluData pNaluLength =
     (case rawPkt of
        None \<Rightarrow> Some (STATUS_NULL_ARG, pNaluData, 0, False)
      | Some raw \<Rightarrow>
          if \<not> packetLength > 0 then Some (STATUS_SUCCESS, pNaluData, 0, False)
          else do {
            (indicator, naluRefIdc, naluType, isStart, len0) \<leftarrow> h264Classify P raw packetLength;
            let coded = (isStart \<and> indicator \<noteq> STAP_A_INDICATOR \<and> indicator \<noteq> STAP_B_INDICATOR);
            let len1 = (if coded then wrap32 (len0 + 4) else len0);
            (case pNaluData of
               None \<Rightarrow> Some (STATUS_SUCCESS, None, len1, isStart)
             | Some out \<Rightarrow>
                 if \<not> len1 \<le> pNaluLength then Some (STATUS_BUFFER_TOO_SMALL, Some out, len1, isStart)
                 else do {
                   out1 \<leftarrow> (if coded then memwrite out 0 start4ByteCode else Some out);
                   let pos = (if coded then 4 else 0);
                   let len2 = (if coded then sub32 len1 4 else len1);
                   (out2, len3) \<leftarrow>
                     (if indicator = FU_A_INDICATOR then
                        (if isStart then
                           do { o1 \<leftarrow> memcpy out1 (pos + 1) raw FU_A_HEADER_SIZE (sub32 len2 1);
                                o2 \<leftarrow> memwrite o1 pos [naluRefIdc OR naluType];
                                Some (o2, len2) }
                         else do { o1 \<leftarrow> memcpy out1 pos raw FU_A_HEADER_SIZE len2; Some (o1, len2) })
                      else if indicator = FU_B_INDICATOR then
                        (if isStart then
                           do { o1 \<leftarrow> memcpy out1 (pos + 1) raw FU_B_HEADER_SIZE (sub32 len2 1);
                                o2 \<leftarrow> memwrite o1 pos [naluRefIdc OR naluType];
                                Some (o2, len2) }
                         else do { o1 \<leftarrow> memcpy out1 pos raw FU_B_HEADER_SIZE len2; Some (o1, len2) })
                      else if indicator = STAP_A_INDICATOR then stapCopy P raw packetLength STAP_A_HEADER_SIZE out1 pos 0
                      else if indicator = STAP_B_INDICATOR then stapCopy P raw packetLength STAP_A_HEADER_SIZE out1 pos 0
                      else do { o1 \<leftarrow> memcpy out1 pos raw 0 len2; Some (o1, len2) });
                   Some (STATUS_SUCCESS, Some out2, if coded then wrap32 (len3 + 4) else len3, isStart) }) })"

subsection \<open>The search against the reference\<close>

lemma getNextNaluLength_ref:
  assumes "length xs + 3 < 2 ^ 32"
  shows "getNextNaluLength (Some xs) (length xs) =
     Some (case next_nalu xs of None \<Rightarrow> (STATUS_RTP_INVALID_NALU, 0, 0) | Some (s, l) \<Rightarrow> (STATUS_SUCCESS, s, l))"
  using annexBNext_ref [OF assms] by (simp add: getNextNaluLength_def)

subsection \<open>Reference packetisation\<close>

text \<open>
  RFC 6184: a unit that fits is sent as it is, a longer one as FU-A fragments whose header
  repeats type and importance and flags the first and the last fragment.
\<close>

fun fuaMark :: "byte \<Rightarrow> byte \<Rightarrow> bool \<Rightarrow> byte list list \<Rightarrow> byte list list" where
  "fuaMark idc t first [] = []"
| "fuaMark idc t first (c # cs) =
     ([28 OR idc, if first then t OR 128 else if cs = [] then t OR 64 else t] @ c) # fuaMark idc t False cs"

definition h264_nalu_packets :: "nat \<Rightarrow> byte list \<Rightarrow> byte list list" where
  "h264_nalu_packets mtu u =
     (if length u \<le> mtu then [u]
      else fuaMark (u ! 0 AND 0x60) (u ! 0 AND 0x1F) True (chunks (mtu - 2) (tl u)))"

lemma length_fuaMark [simp]: "length (fuaMark idc t first cs) = length cs"
  by (induction idc t first cs rule: fuaMark.induct) simp_all

lemma total_fuaMark [simp]: "total (fuaMark idc t first cs) = total cs + 2 * length cs"
  by (induction idc t first cs rule: fuaMark.induct) simp_all

lemma fuaMark_eq_Nil [simp]: "fuaMark idc t first cs = [] \<longleftrightarrow> cs = []"
  by (cases cs) simp_all

lemma fuaLoop_size:
  assumes "0 < m" "payLen + length xs + 2 * length (chunks m xs) < 2 ^ 32" "subSize + length (chunks m xs) < 2 ^ 32"
  shows "fuaLoop m nalu naluLength idc t cur (length xs) None pos subPos maxLen maxSub payLen subSize =
     Some (STATUS_SUCCESS, None, payLen + length xs + 2 * length (chunks m xs), subSize + length (chunks m xs))"
  using assms(2,3)
proof (induction "length xs" arbitrary: xs cur payLen subSize rule: less_induct)
  case less
  show ?case
  proof (cases "xs = []")
    case True
    then show ?thesis by (simp add: fuaLoop.simps)
  next
    case False
    define k where "k = min m (length xs)"
    have k: "length (drop m xs) = length xs - k" "k \<le> length xs" "0 < k" using False assms(1) by (auto simp: k_def)
    have c: "length (chunks m xs) = length (chunks m (drop m xs)) + 1" using False assms(1) by (simp add: chunks_step)
    have "length (drop m xs) < length xs" using k by linarith
    moreover have "payLen + (k + 2) + length (drop m xs) + 2 * length (chunks m (drop m xs)) < 2 ^ 32"
      "subSize + 1 + length (chunks m (drop m xs)) < 2 ^ 32"
      using less.prems c k by linarith+
    ultimately have IH: "fuaLoop m nalu naluLength idc t (cur + k) (length xs - k) None pos subPos maxLen maxSub
        (payLen + (k + 2)) (subSize + 1) =
      Some (STATUS_SUCCESS, None, payLen + (k + 2) + (length xs - k) + 2 * length (chunks m (drop m xs)),
            subSize + 1 + length (chunks m (drop m xs)))"
      using less.hyps [of "drop m xs" "payLen + (k + 2)" "subSize + 1" "cur + k"] unfolding k(1) by blast
    have w: "wrap32 (payLen + wrap32 (2 + k)) = payLen + (k + 2)" "wrap32 (subSize + 1) = subSize + 1"
      using less.prems c k by simp_all
    show ?thesis
      unfolding fuaLoop.simps [of m nalu naluLength idc t cur "length xs"] Let_def k_def [symmetric] w
      using False k(2) IH c by simp
  qed
qed

lemma fuaLoop_fill:
  assumes "0 < m" "ps = fuaMark idc t (cur = 1) (chunks m (drop cur u))" "1 \<le> cur" "cur \<le> length u"
    "payLen + total ps \<le> maxLen" "maxLen < 2 ^ 32" "subSize + length ps \<le> maxSub" "maxSub < 2 ^ 32"
    "pos + total ps \<le> length buf" "subPos + subSize + length ps \<le> length subs"
  shows "fuaLoop m (u @ rest) (length u) idc t cur (length u - cur) (Some (buf, subs)) pos subPos maxLen maxSub payLen subSize =
     Some (STATUS_SUCCESS, Some (patch buf pos (concat ps), patch subs (subPos + subSize) (map length ps)),
           payLen + total ps, subSize + length ps)"
  using assms(2-)
proof (induction "length u - cur" arbitrary: cur payLen subSize pos buf subs ps rule: less_induct)
  case less
  show ?case
  proof (cases "cur < length u")
    case False
    with less.prems show ?thesis by (simp add: fuaLoop.simps)
  next
    case True
    define k where "k = min m (length u - cur)"
    define ys where "ys = take k (drop cur u)"
    define qs where "qs = fuaMark idc t False (chunks m (drop (cur + k) u))"
    define h where "h = (if cur = 1 then t OR 128 else if length u - cur = k then t OR 64 else t)"
    have k: "cur + k \<le> length u" "0 < k" "length ys = k" using True assms(1) by (auto simp: k_def ys_def)
    have "chunks m (drop cur u) = ys # chunks m (drop (cur + k) u)"
      using chunks_step [OF assms(1), of "drop cur u"] True by (simp add: ys_def k_def min_def add.commute)
    moreover have "drop (cur + k) u = [] \<longleftrightarrow> length u - cur = k" using k by auto
    ultimately have ps: "ps = ([28 OR idc, h] @ ys) # qs"
      using less.prems(1) by (simp add: qs_def h_def)
    have buf: "memcpy buf (pos + 2) (u @ rest) cur k = Some (patch buf (pos + 2) ys)"
      "memwrite (patch buf (pos + 2) ys) pos [28 OR idc, h] = Some (patch buf pos ([28 OR idc, h] @ ys))"
      using less.prems(8) ps k by (simp_all add: memcpy_patch memwrite_patch patch_before ys_def)
    have sub: "memwrite subs (subPos + subSize) [2 + k] = Some (patch subs (subPos + subSize) [2 + k])"
      using less.prems(9) ps by (simp add: memwrite_patch)
    have lims: "wrap32 (payLen + wrap32 (2 + k)) = payLen + (k + 2)" "wrap32 (subSize + 1) = subSize + 1"
      "payLen + (k + 2) \<le> maxLen" "subSize + 1 \<le> maxSub"
      using less.prems(4-7) ps k(3) by simp_all
    have first: "length u - cur = length u - 1 \<longleftrightarrow> cur = 1" using True less.prems(2) by auto
    have IH: "fuaLoop m (u @ rest) (length u) idc t (cur + k) (length u - (cur + k))
        (Some (patch buf pos ([28 OR idc, h] @ ys), patch subs (subPos + subSize) [2 + k])) (pos + 2 + k) subPos maxLen maxSub
        (payLen + (k + 2)) (subSize + 1) =
      Some (STATUS_SUCCESS, Some (patch (patch buf pos ([28 OR idc, h] @ ys)) (pos + 2 + k) (concat qs),
             patch (patch subs (subPos + subSize) [2 + k]) (subPos + (subSize + 1)) (map length qs)),
           payLen + (k + 2) + total qs, subSize + 1 + length qs)"
    proof (rule less.hyps)
      show "length u - (cur + k) < length u - cur" using k True by linarith
      show "qs = fuaMark idc t (cur + k = 1) (chunks m (drop (cur + k) u))" using less.prems(2) k by (simp add: qs_def)
      show "payLen + (k + 2) + total qs \<le> maxLen" "subSize + 1 + length qs \<le> maxSub"
        using less.prems(4,6) by (simp_all add: ps k)
      show "pos + 2 + k + total qs \<le> length (patch buf pos ([28 OR idc, h] @ ys))"
        "subPos + (subSize + 1) + length qs \<le> length (patch subs (subPos + subSize) [2 + k])"
        using less.prems(8,9) by (simp_all add: ps k)
    qed (use less.prems k in simp_all)
    have joined: "patch (patch buf pos ([28 OR idc, h] @ ys)) (pos + 2 + k) (concat qs) = patch buf pos (concat ps)"
      "patch (patch subs (subPos + subSize) [2 + k]) (subPos + (subSize + 1)) (map length qs) =
       patch subs (subPos + subSize) (map length ps)"
      using less.prems(8,9) ps k(3) by (simp_all add: patch_patch)
    show ?thesis
      unfolding fuaLoop.simps [of m "u @ rest" "length u" idc t cur "length u - cur"] Let_def k_def [symmetric] lims(1,2)
        first h_def [symmetric]
      using True buf sub lims(3,4) IH joined ps k(3) by simp
  qed
qed

lemma createPayloadFromNalu_size:
  assumes "u \<noteq> []" "2 < mtu" "ps = h264_nalu_packets mtu u" "total ps < 2 ^ 32" "length ps < 2 ^ 32"
  shows "createPayloadFromNalu mtu (Some (u @ rest)) (length u) None = Some (STATUS_SUCCESS, None, total ps, length ps)"
proof (cases "length u \<le> mtu")
  case True
  with assms show ?thesis
    by (simp add: createPayloadFromNalu_def h264_nalu_packets_def rd_in)
next
  case False
  let ?cs = "chunks (mtu - 2) (tl u)"
  have ps: "total ps = length (tl u) + 2 * length ?cs" "length ps = length ?cs"
    using False assms(3) by (simp_all add: h264_nalu_packets_def total_chunks)
  have "fuaLoop (mtu - 2) (u @ rest) (length u) idc t 1 (length (tl u)) None 0 0 0 0 0 0 =
      Some (STATUS_SUCCESS, None, 0 + length (tl u) + 2 * length ?cs, 0 + length ?cs)" for idc t
    using assms ps by (intro fuaLoop_size) simp_all
  with False assms(1,2) ps show ?thesis
    by (simp add: createPayloadFromNalu_def rd_in)
qed

lemma createPayloadFromNalu_fill:
  assumes u: "u \<noteq> []" "2 < mtu" "ps = h264_nalu_packets mtu u"
    and pa: "pc_payloadBuffer pa = Some buf" "pc_payloadSubLength pa = Some subs"
    and lim: "total ps \<le> pc_maxPayloadLength pa" "pc_maxPayloadLength pa < 2 ^ 32"
      "length ps \<le> pc_maxPayloadSubLenSize pa" "pc_maxPayloadSubLenSize pa < 2 ^ 32"
    and mem: "pc_bufferPos pa + total ps \<le> length buf" "pc_subPos pa + length ps \<le> length subs"
  shows "createPayloadFromNalu mtu (Some (u @ rest)) (length u) (Some pa) =
     Some (STATUS_SUCCESS,
           Some (pa\<lparr>pc_payloadBuffer := Some (patch buf (pc_bufferPos pa) (concat ps)),
                    pc_payloadSubLength := Some (patch subs (pc_subPos pa) (map length ps))\<rparr>), total ps, length ps)"
proof (cases "length u \<le> mtu")
  case True
  with assms show ?thesis
    by (simp add: createPayloadFromNalu_def h264_nalu_packets_def rd_in memcpy_patch memwrite_patch)
next
  case False
  let ?idc = "u ! 0 AND 0x60" and ?t = "u ! 0 AND 0x1F"
  have ps: "ps = fuaMark ?idc ?t (1 = (1::nat)) (chunks (mtu - 2) (drop 1 u))"
    using False u(3) by (simp add: h264_nalu_packets_def drop_Suc)
  have f: "fuaLoop (mtu - 2) (u @ rest) (length u) ?idc ?t 1 (length u - 1) (Some (buf, subs)) (pc_bufferPos pa) (pc_subPos pa)
      (pc_maxPayloadLength pa) (pc_maxPayloadSubLenSize pa) 0 0 =
    Some (STATUS_SUCCESS, Some (patch buf (pc_bufferPos pa) (concat ps), patch subs (pc_subPos pa + 0) (map length ps)),
          0 + total ps, 0 + length ps)"
    using u lim mem by (intro fuaLoop_fill [OF _ ps]) (auto simp: Suc_le_eq)
  have hd: "(u @ rest) ! 0 = u ! 0" using u(1) by (simp add: nth_append)
  show ?thesis
    using f [simplified] False u(1,2) pa hd by (simp add: createPayloadFromNalu_def rd_in)
qed

subsection \<open>The receiving side\<close>

definition h264_decode :: "byte list \<Rightarrow> byte list" where
  "h264_decode p =
     (if p ! 0 AND 31 = 28
      then (if p ! 1 AND 128 \<noteq> 0 then start4ByteCode @ ((p ! 0 AND 0x60) OR (p ! 1 AND 0x1f)) # drop 2 p else drop 2 p)
      else start4ByteCode @ p)"

definition h264_starts :: "byte list \<Rightarrow> bool" where
  "h264_starts p \<longleftrightarrow> p ! 0 AND 31 \<noteq> 28 \<or> p ! 1 AND 128 \<noteq> 0"

text \<open>The packets the payloader produces: no aggregation packet, no FU-B.\<close>

definition h264_packet_ok :: "byte list \<Rightarrow> bool" where
  "h264_packet_ok p \<longleftrightarrow> p \<noteq> [] \<and> length p + 4 < 2 ^ 32 \<and> p ! 0 AND 31 \<notin> {24, 25, 29} \<and>
     (p ! 0 AND 31 = 28 \<longrightarrow> 2 \<le> length p)"

lemma depayH264_size:
  assumes "h264_packet_ok p"
  shows "depayH264FromRtpPayload P (Some p) (length p) None k =
     Some (STATUS_SUCCESS, None, length (h264_decode p), h264_starts p)"
  using assms
  by (auto simp: depayH264FromRtpPayload_def h264Classify_def h264_packet_ok_def h264_decode_def h264_starts_def rd_in Let_def)

lemma depayH264_fill:
  assumes "h264_packet_ok p" "length (h264_decode p) \<le> k" "k \<le> length out"
  shows "depayH264FromRtpPayload P (Some p) (length p) (Some out) k =
     Some (STATUS_SUCCESS, Some (patch out 0 (h264_decode p)), length (h264_decode p), h264_starts p)"
proof (cases "p ! 0 AND 31 = 28")
  case False
  then show ?thesis
    using assms
    by (auto simp: depayH264FromRtpPayload_def h264Classify_def h264_packet_ok_def h264_decode_def h264_starts_def rd_in
        Let_def memwrite_patch memcpy_patch patch_patch)
next
  case True
  show ?thesis
  proof (cases "p ! 1 AND 128 = 0")
    case s: True
    with True assms show ?thesis
      by (auto simp: depayH264FromRtpPayload_def h264Classify_def h264_packet_ok_def h264_decode_def h264_starts_def rd_in
          Let_def memcpy_patch)
  next
    case s: False
    let ?b = "(p ! 0 AND 0x60) OR (p ! 1 AND 0x1f)"
    have l: "2 \<le> length p" "length p + 4 < 2 ^ 32" "p \<noteq> []" using assms(1) True by (auto simp: h264_packet_ok_def)
    have dec: "h264_decode p = start4ByteCode @ ?b # drop 2 p" using True s by (simp add: h264_decode_def)
    have room: "length p + 3 \<le> k" "length p + 3 \<le> length out" using assms(2,3) dec l by simp_all
    have o1: "memwrite out 0 start4ByteCode = Some (patch out 0 start4ByteCode)"
      using room l by (simp add: memwrite_patch)
    have o2: "memcpy (patch out 0 start4ByteCode) 5 p 2 n = Some (patch (patch out 0 start4ByteCode) 5 (drop 2 p))"
      if "n = length p - 2" for n
      using room l that by (simp add: memcpy_patch)
    have o3: "memwrite (patch (patch out 0 start4ByteCode) 5 (drop 2 p)) 4 [?b] = Some (patch out 0 (h264_decode p))"
      using room l by (simp add: memwrite_patch patch_before patch_patch dec)
    have e: "length p - Suc (Suc 0) = length p - 2" by simp
    show ?thesis
      using True s l room o1 o2 o3 assms(2) dec
      by (simp add: depayH264FromRtpPayload_def h264Classify_def h264_starts_def rd_in Let_def e)
  qed
qed

lemma fua_header_bits:
  fixes x :: byte
  shows "(28 OR (x AND 0x60)) AND 31 = 28" "(28 OR (x AND 0x60)) AND 0x60 = x AND 0x60"
    "((x AND 0x1F) OR 64) AND 128 = 0" "(x AND 0x1F) AND 128 = 0" "((x AND 0x1F) OR 128) AND 128 = 128"
    "((x AND 0x1F) OR 128) AND 0x1F = x AND 0x1F"
  by (rule byte_eqI; simp add: bit_simps)+

lemma fua_header_join:
  assumes "x < (128 :: byte)"
  shows "(x AND 0x60) OR (x AND 0x1F) = x"
  using bit_below [of x 7] assms by (intro byte_eqI) (simp_all add: bit_simps)

subsection \<open>H.264 meets the payloader contract\<close>

definition h264_unit_ok :: "byte list \<Rightarrow> bool" where
  "h264_unit_ok u \<longleftrightarrow> u \<noteq> [] \<and> u ! 0 < 128 \<and> u ! 0 AND 31 \<notin> {24, 25, 28, 29}"

lemma h264_nalu_packets_bounds:
  assumes "u \<noteq> []"
  shows "total (h264_nalu_packets mtu u) \<le> 4 * length u" "length (h264_nalu_packets mtu u) \<le> length u"
  using assms length_chunks_le [of "mtu - 2" "tl u"]
  by (auto simp: h264_nalu_packets_def total_chunks Suc_le_eq)

text \<open>What the receiver makes of the packets of one unit.\<close>

lemma fuaMark_mem:
  "p \<in> set (fuaMark idc t first cs) \<Longrightarrow> \<exists>h c. p = [28 OR idc, h] @ c \<and> c \<in> set cs"
  by (induction idc t first cs rule: fuaMark.induct) auto

lemma decode_fuaMark_rest:
  "concat (map h264_decode (fuaMark (x AND 0x60) (x AND 0x1F) False cs)) = concat cs"
  by (induction cs) (simp_all add: h264_decode_def fua_header_bits)

lemma decode_nalu:
  assumes "h264_unit_ok u" "2 < mtu"
  shows "concat (map h264_decode (h264_nalu_packets mtu u)) = start4ByteCode @ u"
proof (cases "length u \<le> mtu")
  case True
  then show ?thesis using assms(1) by (simp add: h264_nalu_packets_def h264_decode_def h264_unit_ok_def)
next
  case False
  then have "tl u \<noteq> []" using assms(2) by (cases u) auto
  then obtain c cs where cs: "chunks (mtu - 2) (tl u) = c # cs" by (cases "chunks (mtu - 2) (tl u)") auto
  have "c @ concat cs = tl u" using concat_chunks [of "mtu - 2" "tl u"] cs by simp
  then have u: "u ! 0 # c @ concat cs = u" using assms(1) by (cases u) (simp_all add: h264_unit_ok_def)
  have hd: "(u ! 0 AND 0x60) OR (u ! 0 AND 0x1F) = u ! 0"
    using assms(1) by (intro fua_header_join) (simp add: h264_unit_ok_def)
  have "concat (map h264_decode (h264_nalu_packets mtu u)) =
      start4ByteCode @ ((u ! 0 AND 0x60) OR (u ! 0 AND 0x1F)) # c @ concat cs"
    using False cs by (simp add: h264_nalu_packets_def h264_decode_def fua_header_bits decode_fuaMark_rest)
  with hd u show ?thesis by simp
qed

lemma nalu_packet_ok:
  assumes "h264_unit_ok u" "2 < mtu" "mtu + 4 < 2 ^ 32" "p \<in> set (h264_nalu_packets mtu u)"
  shows "h264_packet_ok p" "length p \<le> mtu"
proof -
  have "h264_packet_ok p \<and> length p \<le> mtu"
  proof (cases "length u \<le> mtu")
    case True
    then show ?thesis using assms by (auto simp: h264_nalu_packets_def h264_packet_ok_def h264_unit_ok_def)
  next
    case False
    then have "p \<in> set (fuaMark (u ! 0 AND 0x60) (u ! 0 AND 0x1F) True (chunks (mtu - 2) (tl u)))"
      using assms(4) by (simp add: h264_nalu_packets_def)
    from fuaMark_mem [OF this] obtain h c where p: "p = [28 OR (u ! 0 AND 0x60), h] @ c" "c \<in> set (chunks (mtu - 2) (tl u))"
      by blast
    have "length c \<le> mtu - 2" using assms(2) by (intro chunks_bound [OF _ p(2)]) simp
    then show ?thesis using assms(2,3) by (auto simp: p(1) h264_packet_ok_def fua_header_bits)
  qed
  then show "h264_packet_ok p" "length p \<le> mtu" by simp_all
qed

lemma nalu_packets_start:
  assumes "h264_unit_ok u" "2 < mtu"
  shows "h264_nalu_packets mtu u \<noteq> []" "h264_starts (hd (h264_nalu_packets mtu u))"
proof -
  have "h264_nalu_packets mtu u \<noteq> [] \<and> h264_starts (hd (h264_nalu_packets mtu u))"
  proof (cases "length u \<le> mtu")
    case True
    then show ?thesis using assms by (simp add: h264_nalu_packets_def h264_starts_def h264_unit_ok_def)
  next
    case False
    then have "tl u \<noteq> []" using assms(2) by (cases u) auto
    then obtain c cs where "chunks (mtu - 2) (tl u) = c # cs" by (cases "chunks (mtu - 2) (tl u)") auto
    with False show ?thesis by (simp add: h264_nalu_packets_def h264_starts_def fua_header_bits)
  qed
  then show "h264_nalu_packets mtu u \<noteq> []" "h264_starts (hd (h264_nalu_packets mtu u))" by simp_all
qed

interpretation h264: nalu_codec getNextNaluLength createPayloadFromNalu h264_nalu_packets 2 h264_unit_ok
  "createPayloadForH264 junk" "depayH264FromRtpPayload P" h264_decode h264_starts h264_packet_ok
proof (unfold_locales, goal_cases)
  case 1 then show ?case by (rule getNextNaluLength_ref)
next
  case 2 then show ?case by (intro createPayloadFromNalu_size) (simp_all add: h264_unit_ok_def)
next
  case 3 then show ?case by (intro createPayloadFromNalu_fill) (simp_all add: h264_unit_ok_def)
next
  case (5 u mtu) then show ?case by (intro h264_nalu_packets_bounds) (simp add: h264_unit_ok_def)
next
  case (6 u mtu) then show ?case by (intro h264_nalu_packets_bounds) (simp add: h264_unit_ok_def)
next
  case (9 u mtu p) then show ?case using nalu_packet_ok by blast
next
  case 10 then show ?case by (rule depayH264_size)
next
  case 11 then show ?case by (rule depayH264_fill)
next
  case 12 then show ?case by (rule decode_nalu)
next
  case 13 then show ?case using nalu_packets_start by blast
qed (simp_all add: h264_unit_ok_def createPayloadForH264_def)

subsection \<open>Properties\<close>

text \<open>
  C12. The optimised start-code search, which jumps three bytes at a time and looks back,
  agrees with the plain reading of its comments on every input below 4 GiB: two or three
  zero bytes and a one begin a unit, and the unit ends at the first later position where
  0, 0, 1 is complete, less that start code and one further zero if there is one.
\<close>

theorem getNextNaluLength_linear_search:
  assumes "length xs + 3 < 2 ^ 32"
  shows "getNextNaluLength (Some xs) (length xs) =
     Some (case next_nalu xs of None \<Rightarrow> (STATUS_RTP_INVALID_NALU, 0, 0) | Some (s, l) \<Rightarrow> (STATUS_SUCCESS, s, l))"
  using assms by (rule getNextNaluLength_ref)

theorem getNextNaluLength_linear_search_witness:
  "getNextNaluLength (Some [0, 0, 1, 7, 8, 0, 0, 0, 1, 9]) 10 = Some (STATUS_SUCCESS, 3, 2)"
proof -
  have "next_nalu [0, 0, 1, 7, 8, 0, 0, 0, 1, 9] = Some (3, 2)" by code_simp
  moreover have len: "length ([0, 0, 1, 7, 8, 0, 0, 0, 1, 9] :: byte list) = 10" by simp
  ultimately show ?thesis
    using getNextNaluLength_linear_search [of "[0, 0, 1, 7, 8, 0, 0, 0, 1, 9]", unfolded len] by simp
qed

text \<open>
  C13. H.264 end to end: an access unit of well-formed NAL units (emulation prevention,
  forbidden bit clear, no reserved aggregation type) with any mix of three- and four-byte
  start codes is packetised into packets that respect the MTU, and depayloading them in
  order gives every unit back, unchanged and in order, after a four-byte start code.
\<close>

theorem h264_access_unit_roundtrip:
  assumes "2 < mtu" "mtu + 4 < 2 ^ 32" "us \<noteq> []" "4 * length (annexb us) + 4 < 2 ^ 32"
    and "\<And>long u. (long, u) \<in> set us \<Longrightarrow> nalu_ok u \<and> h264_unit_ok u"
    and "\<And>n. length (garbage n) = n" "length (concat (map (\<lambda>(_, u). start4ByteCode @ u) us)) \<le> length out"
  shows "transfer (createPayloadForH264 junk) (depayH264FromRtpPayload P) mtu (annexb us) garbage out =
       Some (concat (map (\<lambda>(_, u). start4ByteCode @ u) us)) \<and>
     (\<exists>ps. packetise (createPayloadForH264 junk) mtu (annexb us) garbage = Some ps \<and> (\<forall>p \<in> set ps. length p \<le> mtu))"
  using assms by (rule h264.annexb_transfer)

theorem h264_access_unit_roundtrip_witness:
  "transfer (createPayloadForH264 (0, 0)) (depayH264FromRtpPayload little_endian_host) 4
     (annexb [(True, [101, 1, 2, 3, 4, 5]), (False, [65, 9])]) (\<lambda>n. replicate n 0) (replicate 16 0) =
   Some [0, 0, 0, 1, 101, 1, 2, 3, 4, 5, 0, 0, 0, 1, 65, 9]"
proof -
  have ok: "nalu_ok u \<and> h264_unit_ok u"
    if "(long, u) \<in> set [(True, [101, 1, 2, 3, 4, 5]), (False, [65, 9])]" for long and u :: "byte list"
  proof -
    have "nalu_ok [101, 1, 2, 3, 4, 5]" "nalu_ok [65, 9]" by code_simp+
    with that show ?thesis by (auto simp: h264_unit_ok_def)
  qed
  show ?thesis
    using h264_access_unit_roundtrip [of 4 "[(True, [101, 1, 2, 3, 4, 5]), (False, [65, 9])]" "\<lambda>n. replicate n 0"
        "replicate 16 0" "(0, 0)" little_endian_host] ok
    by (simp add: annexb_def start_code_def start4ByteCode_def)
qed

end
