(* ===== verification/H265Payloader.thy ===== *)
theory H265Payloader
  imports NaluPayloader
begin

text \<open>
  \<^verbatim>\<open>src/source/Rtp/Codecs/RtpH265Payloader.c\<close>: the same organisation as for H.264, with the
  two-byte NAL unit header and the fragmentation units of RFC 7798.  \<open>junk\<close> is the content
  of the uninitialised \<^verbatim>\<open>payloadArray\<close>.
\<close>

subsection \<open>Constants and the start-code search\<close>

abbreviation (input) H265_FU_HEADER_SIZE :: nat where "H265_FU_HEADER_SIZE \<equiv> 3"
abbreviation (input) H265_FU_TYPE_ID :: byte where "H265_FU_TYPE_ID \<equiv> 49"

text \<open>Status and, on success, \<^verbatim>\<open>*pStart\<close> and \<^verbatim>\<open>*pNaluLength\<close>.\<close>

definition getNextNaluLengthH265 :: "byte list option \<Rightarrow> nat \<Rightarrow> (STATUS \<times> nat \<times> nat) option" where
  "getNextNaluLengthH265 pNalus nalusLength =
     (case pNalus of None \<Rightarrow> Some (STATUS_NULL_ARG, 0, 0) | Some nalus \<Rightarrow> annexBNext nalus nalusLength)"

subsection \<open>Packing one NAL unit\<close>

partial_function (option) fuLoop ::
  "nat \<Rightarrow> byte list \<Rightarrow> nat \<Rightarrow> byte \<Rightarrow> nat \<Rightarrow> nat \<Rightarrow> (byte list \<times> nat list) option \<Rightarrow> nat \<Rightarrow> nat \<Rightarrow> nat \<Rightarrow> nat \<Rightarrow>
   nat \<Rightarrow> nat \<Rightarrow> (STATUS \<times> (byte list \<times> nat list) option \<times> nat \<times> nat) option" where
  "fuLoop maxPayloadSize nalu naluLength naluType cur remainingNaluLength arrays pos subPos maxLen maxSub payLen subSize =
     (if remainingNaluLength \<noteq> 0 then
        (let curPayloadSize = min maxPayloadSize remainingNaluLength;
             subSize' = wrap32 (subSize + 1);
             payLen' = wrap32 (payLen + wrap32 (H265_FU_HEADER_SIZE + curPayloadSize))
         in case arrays of
              None \<Rightarrow> fuLoop maxPayloadSize nalu naluLength naluType (cur + curPayloadSize)
                        (remainingNaluLength - curPayloadSize) None pos subPos maxLen maxSub payLen' subSize'
            | Some (buf, subs) \<Rightarrow>
                if \<not> (subSize' \<le> maxSub \<and> payLen' \<le> maxLen)
                then Some (STATUS_BUFFER_TOO_SMALL, Some (buf, subs), payLen', subSize')
                else do {
                  n0 \<leftarrow> rd nalu 0;
                  n1 \<leftarrow> rd nalu 1;
                  buf1 \<leftarrow> memwrite buf pos
                    [push_bit 1 H265_FU_TYPE_ID OR (n0 AND 0x81) OR (n0 AND 0x1), n1 AND 0xff,
                     if remainingNaluLength = naluLength - 2 then (naluType AND 0x3f) OR 128
                     else if remainingNaluLength = curPayloadSize then (naluType AND 0x3f) OR 64 else naluType AND 0x3f];
                  buf2 \<leftarrow> memcpy buf1 (pos + H265_FU_HEADER_SIZE) nalu cur curPayloadSize;
                  subs' \<leftarrow> memwrite subs (subPos + subSize) [H265_FU_HEADER_SIZE + curPayloadSize];
                  fuLoop maxPayloadSize nalu naluLength naluType (cur + curPayloadSize)
                    (remainingNaluLength - curPayloadSize) (Some (buf2, subs')) (pos + H265_FU_HEADER_SIZE + curPayloadSize)
                    subPos maxLen maxSub payLen' subSize' })
      else Some (STATUS_SUCCESS, arrays, payLen, subSize))"

text \<open>Status, arrays, \<^verbatim>\<open>*filledLength\<close>, \<^verbatim>\<open>*filledSubLenSize\<close>.\<close>

definition createPayloadFromNaluH265 ::
  "nat \<Rightarrow> byte list option \<Rightarrow> nat \<Rightarrow> PayloadCursor option \<Rightarrow> (STATUS \<times> PayloadCursor option \<times> nat \<times> nat) option" where
  "createPayloadFromNaluH265 mtu pNalu naluLength pPayloadArray =
     (case pNalu of
        None \<Rightarrow> Some (STATUS_NULL_ARG, pPayloadArray, 0, 0)
      | Some nalu \<Rightarrow>
          if \<not> (case pPayloadArray of None \<Rightarrow> True
                  | Some pa \<Rightarrow> pc_payloadSubLength pa \<noteq> None \<and> pc_payloadBuffer pa \<noteq> None)
          then Some (STATUS_NULL_ARG, pPayloadArray, 0, 0)
          else if \<not> mtu > H265_FU_HEADER_SIZE then Some (STATUS_RTP_INPUT_MTU_TOO_SMALL, pPayloadArray, 0, 0)
          else do {
            b0 \<leftarrow> rd nalu 0;
            let naluType = drop_bit 1 (b0 AND 0x7E);
            if naluLength \<le> mtu then
              (case pPayloadArray of
                 None \<Rightarrow> Some (STATUS_SUCCESS, None, naluLength, 1)
               | Some pa \<Rightarrow>
                   if \<not> (1 \<le> pc_maxPayloadSubLenSize pa \<and> naluLength \<le> pc_maxPayloadLength pa)
                   then Some (STATUS_BUFFER_TOO_SMALL, Some pa, naluLength, 1)
                   else do {
                     buf \<leftarrow> pc_payloadBuffer pa;
                     subs \<leftarrow> pc_payloadSubLength pa;
                     buf' \<leftarrow> memcpy buf (pc_bufferPos pa) nalu 0 naluLength;
                     subs' \<leftarrow> memwrite subs (pc_subPos pa) [naluLength];
                     Some (STATUS_SUCCESS, Some (pa\<lparr>pc_payloadBuffer := Some buf', pc_payloadSubLength := Some subs'\<rparr>),
                           naluLength, 1) })
            else
              (case pPayloadArray of
                 None \<Rightarrow> do {
                   (st, _, len, n) \<leftarrow> fuLoop (mtu - H265_FU_HEADER_SIZE) nalu naluLength naluType 2 (naluLength - 2)
                                       None 0 0 0 0 0 0;
                   Some (st, None, if STATUS_FAILED st then 0 else len, if STATUS_FAILED st then 0 else n) }
               | Some pa \<Rightarrow> do {
                   buf \<leftarrow> pc_payloadBuffer pa;
                   subs \<leftarrow> pc_payloadSubLength pa;
                   (st, arrays, len, n) \<leftarrow> fuLoop (mtu - H265_FU_HEADER_SIZE) nalu naluLength naluType 2 (naluLength - 2)
                                       (Some (buf, subs)) (pc_bufferPos pa) (pc_subPos pa)
                                       (pc_maxPayloadLength pa) (pc_maxPayloadSubLenSize pa) 0 0;
                   (buf', subs') \<leftarrow> arrays;
                   Some (st, Some (pa\<lparr>pc_payloadBuffer := Some buf', pc_payloadSubLength := Some subs'\<rparr>), len, n) }) })"

subsection \<open>Packing an access unit\<close>

definition createPayloadForH265 :: "nat \<times> nat \<Rightarrow> payload_func" where
  "createPayloadForH265 junk mtu nalus nalusLength payloadBuffer pPayloadLength pPayloadSubLength pPayloadSubLenSize =
     (let early = (\<lambda>st. Some (st, payloadBuffer, pPayloadSubLength,
                       if payloadBuffer = None then 0 else fst junk, if payloadBuffer = None then 0 else snd junk))
      in case nalus of
           None \<Rightarrow> early STATUS_NULL_ARG
         | Some ns \<Rightarrow>
             if \<not> (payloadBuffer = None \<or> pPayloadSubLength \<noteq> None) then early STATUS_NULL_ARG
             else if \<not> mtu > H265_FU_HEADER_SIZE then early STATUS_RTP_INPUT_MTU_TOO_SMALL
             else (case payloadBuffer of
                None \<Rightarrow> do {
                  (st, _, len, n) \<leftarrow> naluLoop getNextNaluLengthH265 createPayloadFromNaluH265 mtu ns nalusLength None 0 0;
                  Some (st, None, pPayloadSubLength, if STATUS_FAILED st then 0 else len, if STATUS_FAILED st then 0 else n) }
              | Some buf \<Rightarrow> do {
                  (st, cursor, len, n) \<leftarrow> naluLoop getNextNaluLengthH265 createPayloadFromNaluH265 mtu ns nalusLength
                     (Some \<lparr>pc_payloadBuffer = Some buf, pc_bufferPos = 0, pc_payloadSubLength = pPayloadSubLength, pc_subPos = 0,
                            pc_maxPayloadLength = pPayloadLength, pc_maxPayloadSubLenSize = pPayloadSubLenSize\<rparr>)
                     pPayloadLength pPayloadSubLenSize;
                  pa \<leftarrow> cursor;
                  Some (st, pc_payloadBuffer pa, pc_payloadSubLength pa, len, n) }))"

subsection \<open>Depayloading\<close>

text \<open>The first byte of the unit, put together from the payload header and the FU header.\<close>

definition h265_first :: "byte \<Rightarrow> byte \<Rightarrow> byte" where
  "h265_first b2 b0 = push_bit 1 (b2 AND 0x3F) OR (b0 AND 0x81)"

definition depayH265FromRtpPayload :: depay_func where
  "depayH265FromRtpPayload rawPkt packetLength pNaluData pNaluLength =
     (case rawPkt of
        None \<Rightarrow> Some (STATUS_NULL_ARG, pNaluData, if pNaluData = None then 0 else packetLength, True)
      | Some raw \<Rightarrow>
          if \<not> packetLength > 0 then Some (STATUS_SUCCESS, pNaluData, packetLength, True)
          else do {
            b0 \<leftarrow> rd raw 0;
            let isFu = (drop_bit 1 b0 AND 0x3F = H265_FU_TYPE_ID);
            isStart \<leftarrow> (if isFu then do { b2 \<leftarrow> rd raw 2; Some (b2 AND 0x80 \<noteq> 0) } else Some True);
            let headerSize = (if isFu then H265_FU_HEADER_SIZE else 0);
            let len0 = (if isFu then sub32 packetLength headerSize else packetLength);
            let len1 = (if isFu \<and> isStart then wrap32 (len0 + 2) else len0);
            let len2 = (if isStart then wrap32 (len1 + 4) else len1);
            (case pNaluData of
               None \<Rightarrow> Some (STATUS_SUCCESS, None, len2, isStart)
             | Some out \<Rightarrow>
                 if \<not> len2 \<le> pNaluLength then Some (STATUS_BUFFER_TOO_SMALL, Some out, len2, isStart)
                 else do {
                   (out1, pos) \<leftarrow>
                     (if isStart then
                        do { o1 \<leftarrow> memwrite out 0 start4ByteCode;
                             (if isFu then
                                do { b1 \<leftarrow> rd raw 1;
                                     b2 \<leftarrow> rd raw 2;
                                     o2 \<leftarrow> memwrite o1 4 [h265_first b2 b0, b1];
                                     Some (o2, 6) }
                              else Some (o1, 4)) }
                      else Some (out, 0));
                   out2 \<leftarrow> memcpy out1 pos raw headerSize (sub32 packetLength headerSize);
                   Some (STATUS_SUCCESS, Some out2, len2, isStart) }) })"

subsection \<open>Reference packetisation\<close>

lemma getNextNaluLengthH265_ref:
  assumes "length xs + 3 < 2 ^ 32"
  shows "getNextNaluLengthH265 (Some xs) (length xs) =
     Some (case next_nalu xs of None \<Rightarrow> (STATUS_RTP_INVALID_NALU, 0, 0) | Some (s, l) \<Rightarrow> (STATUS_SUCCESS, s, l))"
  using annexBNext_ref [OF assms] by (simp add: getNextNaluLengthH265_def)

fun fuMark :: "byte \<Rightarrow> byte \<Rightarrow> byte \<Rightarrow> bool \<Rightarrow> byte list list \<Rightarrow> byte list list" where
  "fuMark h0 h1 t first [] = []"
| "fuMark h0 h1 t first (c # cs) =
     ([h0, h1, if first then t OR 128 else if cs = [] then t OR 64 else t] @ c) # fuMark h0 h1 t False cs"

definition h265_h0 :: "byte \<Rightarrow> byte" where
  "h265_h0 x = push_bit 1 49 OR (x AND 0x81) OR (x AND 0x1)"

definition h265_type :: "byte \<Rightarrow> byte" where
  "h265_type x = drop_bit 1 (x AND 0x7E) AND 0x3f"

definition h265_nalu_packets :: "nat \<Rightarrow> byte list \<Rightarrow> byte list list" where
  "h265_nalu_packets mtu u =
     (if length u \<le> mtu then [u]
      else fuMark (h265_h0 (u ! 0)) (u ! 1) (h265_type (u ! 0)) True (chunks (mtu - 3) (drop 2 u)))"

lemma length_fuMark [simp]: "length (fuMark h0 h1 t first cs) = length cs"
  by (induction h0 h1 t first cs rule: fuMark.induct) simp_all

lemma total_fuMark [simp]: "total (fuMark h0 h1 t first cs) = total cs + 3 * length cs"
  by (induction h0 h1 t first cs rule: fuMark.induct) simp_all

lemma fuLoop_size:
  assumes "0 < m" "payLen + length xs + 3 * length (chunks m xs) < 2 ^ 32" "subSize + length (chunks m xs) < 2 ^ 32"
  shows "fuLoop m nalu naluLength t cur (length xs) None pos subPos maxLen maxSub payLen subSize =
     Some (STATUS_SUCCESS, None, payLen + length xs + 3 * length (chunks m xs), subSize + length (chunks m xs))"
  using assms(2,3)
proof (induction "length xs" arbitrary: xs cur payLen subSize rule: less_induct)
  case less
  show ?case
  proof (cases "xs = []")
    case True
    then show ?thesis by (simp add: fuLoop.simps)
  next
    case False
    define k where "k = min m (length xs)"
    have k: "length (drop m xs) = length xs - k" "k \<le> length xs" "0 < k" using False assms(1) by (auto simp: k_def)
    have c: "length (chunks m xs) = length (chunks m (drop m xs)) + 1" using False assms(1) by (simp add: chunks_step)
    have "length (drop m xs) < length xs" using k by linarith
    moreover have "payLen + (k + 3) + length (drop m xs) + 3 * length (chunks m (drop m xs)) < 2 ^ 32"
      "subSize + 1 + length (chunks m (drop m xs)) < 2 ^ 32"
      using less.prems c k by linarith+
    ultimately have IH: "fuLoop m nalu naluLength t (cur + k) (length xs - k) None pos subPos maxLen maxSub
        (payLen + (k + 3)) (subSize + 1) =
      Some (STATUS_SUCCESS, None, payLen + (k + 3) + (length xs - k) + 3 * length (chunks m (drop m xs)),
            subSize + 1 + length (chunks m (drop m xs)))"
      using less.hyps [of "drop m xs" "payLen + (k + 3)" "subSize + 1" "cur + k"] unfolding k(1) by blast
    have w: "wrap32 (payLen + wrap32 (3 + k)) = payLen + (k + 3)" "wrap32 (subSize + 1) = subSize + 1"
      using less.prems c k by simp_all
    show ?thesis
      unfolding fuLoop.simps [of m nalu naluLength t cur "length xs"] Let_def k_def [symmetric] w
      using False k(2) IH c by simp
  qed
qed

lemma fuLoop_fill:
  assumes "0 < m" "ps = fuMark (h265_h0 (u ! 0)) (u ! 1) (t AND 0x3f) (cur = 2) (chunks m (drop cur u))"
    "2 \<le> cur" "cur \<le> length u"
    "payLen + total ps \<le> maxLen" "maxLen < 2 ^ 32" "subSize + length ps \<le> maxSub" "maxSub < 2 ^ 32"
    "pos + total ps \<le> length buf" "subPos + subSize + length ps \<le> length subs"
  shows "fuLoop m (u @ rest) (length u) t cur (length u - cur) (Some (buf, subs)) pos subPos maxLen maxSub payLen subSize =
     Some (STATUS_SUCCESS, Some (patch buf pos (concat ps), patch subs (subPos + subSize) (map length ps)),
           payLen + total ps, subSize + length ps)"
  using assms(2-)
proof (induction "length u - cur" arbitrary: cur payLen subSize pos buf subs ps rule: less_induct)
  case less
  show ?case
  proof (cases "cur < length u")
    case False
    with less.prems show ?thesis by (simp add: fuLoop.simps)
  next
    case True
    define k where "k = min m (length u - cur)"
    define ys where "ys = take k (drop cur u)"
    define qs where "qs = fuMark (h265_h0 (u ! 0)) (u ! 1) (t AND 0x3f) False (chunks m (drop (cur + k) u))"
    define h where "h = (if cur = 2 then (t AND 0x3f) OR 128 else if length u - cur = k then (t AND 0x3f) OR 64 else t AND 0x3f)"
    define hdr where "hdr = [h265_h0 (u ! 0), u ! 1, h]"
    have lh: "length hdr = 3" by (simp add: hdr_def)
    have hdr: "[98 OR (u ! 0 AND 129) OR (u ! 0 AND 1), u ! Suc 0, h] = hdr" by (simp add: hdr_def h265_h0_def)
    have k: "cur + k \<le> length u" "0 < k" "length ys = k" using True assms(1) by (auto simp: k_def ys_def)
    have "chunks m (drop cur u) = ys # chunks m (drop (cur + k) u)"
      using chunks_step [OF assms(1), of "drop cur u"] True by (simp add: ys_def k_def min_def add.commute)
    moreover have "drop (cur + k) u = [] \<longleftrightarrow> length u - cur = k" using k by auto
    ultimately have ps: "ps = (hdr @ ys) # qs"
      using less.prems(1) by (simp add: qs_def h_def hdr_def)
    have rds: "rd (u @ rest) 0 = Some (u ! 0)" "rd (u @ rest) 1 = Some (u ! 1)" "u ! 1 AND 0xff = u ! 1"
      using True less.prems(2) byte_and_ff [of "u ! 1"] by (auto simp: rd_def nth_append)
    have buf: "memwrite buf pos hdr = Some (patch buf pos hdr)"
      "memcpy (patch buf pos hdr) (pos + 3) (u @ rest) cur k = Some (patch buf pos (hdr @ ys))"
      using less.prems(8) ps k lh by (simp_all add: memcpy_patch memwrite_patch patch_patch ys_def)
    have sub: "memwrite subs (subPos + subSize) [3 + k] = Some (patch subs (subPos + subSize) [3 + k])"
      using less.prems(9) ps by (simp add: memwrite_patch)
    have lims: "wrap32 (payLen + wrap32 (3 + k)) = payLen + (k + 3)" "wrap32 (subSize + 1) = subSize + 1"
      "payLen + (k + 3) \<le> maxLen" "subSize + 1 \<le> maxSub"
      using less.prems(4-7) ps k(3) lh by simp_all
    have first: "length u - cur = length u - 2 \<longleftrightarrow> cur = 2" using True less.prems(2) by auto
    have IH: "fuLoop m (u @ rest) (length u) t (cur + k) (length u - (cur + k))
        (Some (patch buf pos (hdr @ ys), patch subs (subPos + subSize) [3 + k])) (pos + 3 + k) subPos maxLen maxSub
        (payLen + (k + 3)) (subSize + 1) =
      Some (STATUS_SUCCESS, Some (patch (patch buf pos (hdr @ ys)) (pos + 3 + k) (concat qs),
             patch (patch subs (subPos + subSize) [3 + k]) (subPos + (subSize + 1)) (map length qs)),
           payLen + (k + 3) + total qs, subSize + 1 + length qs)"
    proof (rule less.hyps)
      show "length u - (cur + k) < length u - cur" using k True by linarith
      show "qs = fuMark (h265_h0 (u ! 0)) (u ! 1) (t AND 0x3f) (cur + k = 2) (chunks m (drop (cur + k) u))"
        using less.prems(2) k by (simp add: qs_def)
      show "payLen + (k + 3) + total qs \<le> maxLen" "subSize + 1 + length qs \<le> maxSub"
        using less.prems(4,6) by (simp_all add: ps k lh)
      show "pos + 3 + k + total qs \<le> length (patch buf pos (hdr @ ys))"
        "subPos + (subSize + 1) + length qs \<le> length (patch subs (subPos + subSize) [3 + k])"
        using less.prems(8,9) by (simp_all add: ps k lh)
    qed (use less.prems k in simp_all)
    have joined: "patch (patch buf pos (hdr @ ys)) (pos + 3 + k) (concat qs) = patch buf pos (concat ps)"
      "patch (patch subs (subPos + subSize) [3 + k]) (subPos + (subSize + 1)) (map length qs) =
       patch subs (subPos + subSize) (map length ps)"
      using less.prems(8,9) ps k(3) lh by (simp_all add: patch_patch)
    show ?thesis
      unfolding fuLoop.simps [of m "u @ rest" "length u" t cur "length u - cur"] Let_def k_def [symmetric] lims(1,2)
        first h_def [symmetric]
      using True buf sub lims(3,4) IH joined ps k(3) lh rds hdr by simp
  qed
qed

lemma createPayloadFromNaluH265_size:
  assumes "u \<noteq> []" "3 < mtu" "ps = h265_nalu_packets mtu u" "total ps < 2 ^ 32" "length ps < 2 ^ 32"
  shows "createPayloadFromNaluH265 mtu (Some (u @ rest)) (length u) None = Some (STATUS_SUCCESS, None, total ps, length ps)"
proof (cases "length u \<le> mtu")
  case True
  with assms show ?thesis
    by (simp add: createPayloadFromNaluH265_def h265_nalu_packets_def rd_in)
next
  case False
  let ?cs = "chunks (mtu - 3) (drop 2 u)"
  have ps: "total ps = length (drop 2 u) + 3 * length ?cs" "length ps = length ?cs"
    using False assms(3) by (simp_all add: h265_nalu_packets_def total_chunks)
  have "fuLoop (mtu - 3) (u @ rest) (length u) t 2 (length (drop 2 u)) None 0 0 0 0 0 0 =
      Some (STATUS_SUCCESS, None, 0 + length (drop 2 u) + 3 * length ?cs, 0 + length ?cs)" for t
    using assms ps by (intro fuLoop_size) simp_all
  with False assms(1,2) ps show ?thesis
    by (simp add: createPayloadFromNaluH265_def rd_in)
qed

lemma createPayloadFromNaluH265_fill:
  assumes u: "u \<noteq> []" "3 < mtu" "ps = h265_nalu_packets mtu u"
    and pa: "pc_payloadBuffer pa = Some buf" "pc_payloadSubLength pa = Some subs"
    and lim: "total ps \<le> pc_maxPayloadLength pa" "pc_maxPayloadLength pa < 2 ^ 32"
      "length ps \<le> pc_maxPayloadSubLenSize pa" "pc_maxPayloadSubLenSize pa < 2 ^ 32"
    and mem: "pc_bufferPos pa + total ps \<le> length buf" "pc_subPos pa + length ps \<le> length subs"
  shows "createPayloadFromNaluH265 mtu (Some (u @ rest)) (length u) (Some pa) =
     Some (STATUS_SUCCESS,
           Some (pa\<lparr>pc_payloadBuffer := Some (patch buf (pc_bufferPos pa) (concat ps)),
                    pc_payloadSubLength := Some (patch subs (pc_subPos pa) (map length ps))\<rparr>), total ps, length ps)"
proof (cases "length u \<le> mtu")
  case True
  with assms show ?thesis
    by (simp add: createPayloadFromNaluH265_def h265_nalu_packets_def rd_in memcpy_patch memwrite_patch)
next
  case False
  let ?t = "drop_bit 1 (u ! 0 AND 0x7E)"
  have ps: "ps = fuMark (h265_h0 (u ! 0)) (u ! 1) (?t AND 0x3f) (2 = (2::nat)) (chunks (mtu - 3) (drop 2 u))"
    using False u(3) by (simp add: h265_nalu_packets_def h265_type_def)
  have f: "fuLoop (mtu - 3) (u @ rest) (length u) ?t 2 (length u - 2) (Some (buf, subs)) (pc_bufferPos pa) (pc_subPos pa)
      (pc_maxPayloadLength pa) (pc_maxPayloadSubLenSize pa) 0 0 =
    Some (STATUS_SUCCESS, Some (patch buf (pc_bufferPos pa) (concat ps), patch subs (pc_subPos pa + 0) (map length ps)),
          0 + total ps, 0 + length ps)"
    using u lim mem False by (intro fuLoop_fill [OF _ ps]) auto
  have hd: "(u @ rest) ! 0 = u ! 0" using u(1) by (simp add: nth_append)
  show ?thesis
    using f [simplified] False u(1,2) pa hd by (simp add: createPayloadFromNaluH265_def rd_in)
qed

subsection \<open>The receiving side\<close>

definition h265_is_fu :: "byte list \<Rightarrow> bool" where
  "h265_is_fu p \<longleftrightarrow> drop_bit 1 (p ! 0) AND 0x3F = 49"

definition h265_decode :: "byte list \<Rightarrow> byte list" where
  "h265_decode p =
     (if h265_is_fu p
      then (if p ! 2 AND 0x80 \<noteq> 0
            then start4ByteCode @ [h265_first (p ! 2) (p ! 0), p ! 1] @ drop 3 p
            else drop 3 p)
      else start4ByteCode @ p)"

definition h265_starts :: "byte list \<Rightarrow> bool" where
  "h265_starts p \<longleftrightarrow> \<not> h265_is_fu p \<or> p ! 2 AND 0x80 \<noteq> 0"

definition h265_packet_ok :: "byte list \<Rightarrow> bool" where
  "h265_packet_ok p \<longleftrightarrow> p \<noteq> [] \<and> length p + 4 < 2 ^ 32 \<and> (h265_is_fu p \<longrightarrow> 3 \<le> length p)"

lemma depayH265_size:
  assumes "h265_packet_ok p"
  shows "depayH265FromRtpPayload (Some p) (length p) None k =
     Some (STATUS_SUCCESS, None, length (h265_decode p), h265_starts p)"
  using assms
  by (auto simp: depayH265FromRtpPayload_def h265_packet_ok_def h265_decode_def h265_starts_def h265_is_fu_def rd_in Let_def)

lemma depayH265_fill:
  assumes "h265_packet_ok p" "length (h265_decode p) \<le> k" "k \<le> length out"
  shows "depayH265FromRtpPayload (Some p) (length p) (Some out) k =
     Some (STATUS_SUCCESS, Some (patch out 0 (h265_decode p)), length (h265_decode p), h265_starts p)"
proof (cases "h265_is_fu p")
  case False
  then show ?thesis
    using assms
    by (auto simp: depayH265FromRtpPayload_def h265_packet_ok_def h265_decode_def h265_starts_def h265_is_fu_def rd_in
        Let_def memwrite_patch memcpy_patch patch_patch)
next
  case True
  show ?thesis
  proof (cases "p ! 2 AND 0x80 = 0")
    case s: True
    with True assms show ?thesis
      by (auto simp: depayH265FromRtpPayload_def h265_packet_ok_def h265_decode_def h265_starts_def h265_is_fu_def rd_in
          Let_def memcpy_patch)
  next
    case s: False
    let ?h = "[h265_first (p ! 2) (p ! 0), p ! 1]"
    have l: "3 \<le> length p" "length p + 4 < 2 ^ 32" "p \<noteq> []" using assms(1) True by (auto simp: h265_packet_ok_def)
    have dec: "h265_decode p = start4ByteCode @ ?h @ drop 3 p" using True s by (simp add: h265_decode_def)
    have room: "length p + 3 \<le> k" "length p + 3 \<le> length out" using assms(2,3) dec l by simp_all
    have o1: "memwrite out 0 start4ByteCode = Some (patch out 0 start4ByteCode)"
      using room l by (simp add: memwrite_patch)
    have o2: "memwrite (patch out 0 start4ByteCode) 4 ?h = Some (patch out 0 (start4ByteCode @ ?h))"
      using room l by (simp add: memwrite_patch patch_patch)
    have o3: "memcpy (patch out 0 (start4ByteCode @ ?h)) 6 p 3 (length p - 3) = Some (patch out 0 (h265_decode p))"
      using room l by (simp add: memcpy_patch patch_patch dec)
    have len: "wrap32 (wrap32 (sub32 (length p) 3 + 2) + 4) = length (h265_decode p)" "sub32 (length p) 3 = length p - 3"
      using l dec by simp_all
    have le: "length (h265_decode p) \<le> k" using assms(2) .
    show ?thesis
      using True s l o1 o2 o3 len le
      by (simp add: depayH265FromRtpPayload_def h265_starts_def h265_is_fu_def rd_in Let_def)
  qed
qed

lemma fu_header_bits:
  fixes x :: byte
  shows "drop_bit 1 (h265_h0 x) AND 0x3F = 49" "h265_h0 x AND 0x81 = x AND 0x81"
    "(h265_type x OR 64) AND 0x80 = 0" "h265_type x AND 0x80 = 0" "(h265_type x OR 128) AND 0x80 = 0x80"
  unfolding h265_h0_def h265_type_def by (rule byte_eqI; simp add: bit_simps)+

lemma fu_header_join: "h265_first (h265_type x OR 128) (h265_h0 x) = x"
  unfolding h265_first_def h265_type_def fu_header_bits(2)
  by (rule byte_eqI; simp only: bit_or_iff bit_push_bit_iff bit_and_iff bit_drop_bit_eq; simp add: bit_simps eval_nat_numeral)

subsection \<open>H.265 meets the payloader contract\<close>

definition h265_unit_ok :: "byte list \<Rightarrow> bool" where
  "h265_unit_ok u \<longleftrightarrow> u \<noteq> [] \<and> \<not> h265_is_fu u"

lemma h265_nalu_packets_bounds:
  assumes "u \<noteq> []"
  shows "total (h265_nalu_packets mtu u) \<le> 4 * length u" "length (h265_nalu_packets mtu u) \<le> length u"
  using assms length_chunks_le [of "mtu - 3" "drop 2 u"]
  by (auto simp: h265_nalu_packets_def total_chunks Suc_le_eq)

lemma fuMark_mem: "p \<in> set (fuMark h0 h1 t first cs) \<Longrightarrow> \<exists>h c. p = [h0, h1, h] @ c \<and> c \<in> set cs"
  by (induction h0 h1 t first cs rule: fuMark.induct) auto

lemma h265_is_fu_h0 [simp]: "h265_is_fu (h265_h0 x # ys)"
  by (simp add: h265_is_fu_def fu_header_bits [simplified])

lemma decode_fuMark_rest:
  "concat (map h265_decode (fuMark (h265_h0 x) h1 (h265_type x) False cs)) = concat cs"
  by (induction cs) (simp_all add: h265_decode_def fu_header_bits [simplified])

lemma h265_decode_nalu:
  assumes "h265_unit_ok u" "3 < mtu"
  shows "concat (map h265_decode (h265_nalu_packets mtu u)) = start4ByteCode @ u"
proof (cases "length u \<le> mtu")
  case True
  then show ?thesis using assms(1) by (simp add: h265_nalu_packets_def h265_decode_def h265_unit_ok_def)
next
  case False
  then have ne: "drop 2 u \<noteq> []" using assms(2) by simp
  then obtain c cs where cs: "chunks (mtu - 3) (drop 2 u) = c # cs" by (cases "chunks (mtu - 3) (drop 2 u)") auto
  have "c @ concat cs = drop 2 u" using concat_chunks [of "mtu - 3" "drop 2 u"] cs by simp
  moreover have "u = [u ! 0, u ! 1] @ drop 2 u" using ne by (auto simp: numeral_eq_Suc Suc_le_length_iff not_le Suc_le_eq [symmetric])
  ultimately have u: "[u ! 0, u ! 1] @ c @ concat cs = u" by simp
  have "concat (map h265_decode (h265_nalu_packets mtu u)) = start4ByteCode @ [u ! 0, u ! 1] @ c @ concat cs"
    using False cs by (simp add: h265_nalu_packets_def h265_decode_def fu_header_bits(5) fu_header_join decode_fuMark_rest)
  with u show ?thesis by simp
qed

lemma h265_nalu_packet_ok:
  assumes "h265_unit_ok u" "3 < mtu" "mtu + 4 < 2 ^ 32" "p \<in> set (h265_nalu_packets mtu u)"
  shows "h265_packet_ok p \<and> length p \<le> mtu"
proof (cases "length u \<le> mtu")
  case True
  then show ?thesis using assms by (auto simp: h265_nalu_packets_def h265_packet_ok_def h265_unit_ok_def)
next
  case False
  then obtain h c where p: "p = [h265_h0 (u ! 0), u ! 1, h] @ c" "c \<in> set (chunks (mtu - 3) (drop 2 u))"
    using assms(4) fuMark_mem [of p] unfolding h265_nalu_packets_def by (auto dest!: fuMark_mem)
  have "length c \<le> mtu - 3" using assms(2) by (intro chunks_bound [OF _ p(2)]) simp
  then show ?thesis using assms(2,3) by (auto simp: p(1) h265_packet_ok_def)
qed

lemma h265_nalu_packets_start:
  assumes "h265_unit_ok u" "3 < mtu"
  shows "h265_nalu_packets mtu u \<noteq> [] \<and> h265_starts (hd (h265_nalu_packets mtu u))"
proof (cases "length u \<le> mtu")
  case True
  then show ?thesis using assms by (simp add: h265_nalu_packets_def h265_starts_def h265_unit_ok_def)
next
  case False
  then have "drop 2 u \<noteq> []" using assms(2) by simp
  then obtain c cs where "chunks (mtu - 3) (drop 2 u) = c # cs" by (cases "chunks (mtu - 3) (drop 2 u)") auto
  with False show ?thesis
    by (simp add: h265_nalu_packets_def h265_starts_def fu_header_bits(5))
qed

interpretation h265: nalu_codec getNextNaluLengthH265 createPayloadFromNaluH265 h265_nalu_packets 3 h265_unit_ok
  "createPayloadForH265 junk" depayH265FromRtpPayload h265_decode h265_starts h265_packet_ok
proof (unfold_locales, goal_cases)
  case 1 then show ?case by (rule getNextNaluLengthH265_ref)
next
  case 2 then show ?case by (intro createPayloadFromNaluH265_size) (simp_all add: h265_unit_ok_def)
next
  case 3 then show ?case by (intro createPayloadFromNaluH265_fill) (simp_all add: h265_unit_ok_def)
next
  case (5 u mtu) then show ?case by (intro h265_nalu_packets_bounds) (simp add: h265_unit_ok_def)
next
  case (6 u mtu) then show ?case by (intro h265_nalu_packets_bounds) (simp add: h265_unit_ok_def)
next
  case (9 u mtu p) then show ?case by (rule h265_nalu_packet_ok)
next
  case 10 then show ?case by (rule depayH265_size)
next
  case 11 then show ?case by (rule depayH265_fill)
next
  case 12 then show ?case by (rule h265_decode_nalu)
next
  case 13 then show ?case by (rule h265_nalu_packets_start)
qed (simp_all add: h265_unit_ok_def createPayloadForH265_def)

subsection \<open>Properties\<close>

text \<open>
  C14. H.265 end to end: an access unit of well-formed NAL units (emulation prevention, type
  other than 49) is packetised into packets that respect the MTU, and depayloading them in
  order gives every unit back, both header bytes included, after a four-byte start code.
\<close>

theorem h265_access_unit_roundtrip:
  assumes "3 < mtu" "mtu + 4 < 2 ^ 32" "us \<noteq> []" "4 * length (annexb us) + 4 < 2 ^ 32"
    and "\<And>long u. (long, u) \<in> set us \<Longrightarrow> nalu_ok u \<and> h265_unit_ok u"
    and "\<And>n. length (garbage n) = n" "length (concat (map (\<lambda>(_, u). start4ByteCode @ u) us)) \<le> length out"
  shows "transfer (createPayloadForH265 junk) depayH265FromRtpPayload mtu (annexb us) garbage out =
       Some (concat (map (\<lambda>(_, u). start4ByteCode @ u) us)) \<and>
     (\<exists>ps. packetise (createPayloadForH265 junk) mtu (annexb us) garbage = Some ps \<and> (\<forall>p \<in> set ps. length p \<le> mtu))"
  using assms by (rule h265.annexb_transfer)

theorem h265_access_unit_roundtrip_witness:
  "transfer (createPayloadForH265 (0, 0)) depayH265FromRtpPayload 5
     (annexb [(True, [64, 1, 2, 3, 4, 5]), (False, [38, 1, 9])]) (\<lambda>n. replicate n 0) (replicate 17 0) =
   Some [0, 0, 0, 1, 64, 1, 2, 3, 4, 5, 0, 0, 0, 1, 38, 1, 9]"
proof -
  have ok: "nalu_ok u \<and> h265_unit_ok u"
    if "(long, u) \<in> set [(True, [64, 1, 2, 3, 4, 5]), (False, [38, 1, 9])]" for long and u :: "byte list"
  proof -
    have "nalu_ok [64, 1, 2, 3, 4, 5] \<and> h265_unit_ok [64, 1, 2, 3, 4, 5]" "nalu_ok [38, 1, 9] \<and> h265_unit_ok [38, 1, 9]"
      by code_simp+
    with that show ?thesis by auto
  qed
  show ?thesis
    using h265_access_unit_roundtrip [of 5 "[(True, [64, 1, 2, 3, 4, 5]), (False, [38, 1, 9])]" "\<lambda>n. replicate n 0"
        "replicate 17 0" "(0, 0)"] ok
    by (simp add: annexb_def start_code_def start4ByteCode_def)
qed

end
