(* ===== verification/RtcpPacket.thy ===== *)
theory RtcpPacket
  imports KvsPrelude
begin

text \<open>
  \<^verbatim>\<open>src/source/Rtcp/RtcpPacket.c\<close>: the RTCP header, the generic NACK list, the REMB message
  and the conversion to NTP time.

  \<open>None\<close> is undefined behaviour: an access outside a buffer, or a shift by 32 or more.  The
  bit rate is a \<^verbatim>\<open>DOUBLE\<close> that holds an unsigned 32-bit value exactly, so it is a natural number.
  Failing calls leave their out-parameters alone; the results carry a default for them.
\<close>

subsection \<open>The header\<close>

record RtcpPacketHeader =
  rtcpVersion :: byte
  receptionReportCount :: byte
  rtcpPacketType :: byte
  rtcpPacketLength :: nat

record RtcpPacket =
  rtcpHeader :: RtcpPacketHeader
  rtcpPayload :: "byte list"
  rtcpPayloadLength :: nat

text \<open>
  The struct is filled field by field: a failure after the version check has already
  stored the version.  \<open>pRawPacket\<close> is not checked for \<^verbatim>\<open>NULL\<close>.
\<close>

definition setRtcpPacketFromBytes ::
  "platform \<Rightarrow> byte list \<Rightarrow> nat \<Rightarrow> RtcpPacket option \<Rightarrow> (STATUS \<times> RtcpPacket option) option" where
  "setRtcpPacketFromBytes P raw rawLen pPacket =
     (case pPacket of
        None \<Rightarrow> Some (STATUS_NULL_ARG, None)
      | Some pk \<Rightarrow>
          if \<not> rawLen \<ge> 4 then Some (STATUS_RTCP_INPUT_PACKET_TOO_SMALL, Some pk)
          else do {
            w \<leftarrow> rdInt16 P raw 2;
            let packetLen = unat w;
            if \<not> (packetLen + 1) * 4 \<le> rawLen then Some (STATUS_RTCP_INPUT_PARTIAL_PACKET, Some pk)
            else do {
              b0 \<leftarrow> rd raw 0;
              let ver = drop_bit 6 b0 AND 3;
              let pk1 = pk\<lparr>rtcpHeader := (rtcpHeader pk)\<lparr>rtcpVersion := ver\<rparr>\<rparr>;
              if ver \<noteq> 2 then Some (STATUS_RTCP_INPUT_PACKET_INVALID_VERSION, Some pk1)
              else do {
                b1 \<leftarrow> rd raw 1;
                Some (STATUS_SUCCESS,
                  Some (pk1\<lparr>rtcpHeader := \<lparr>rtcpVersion = ver, receptionReportCount = b0 AND 0x1F,
                                           rtcpPacketType = b1, rtcpPacketLength = packetLen\<rparr>,
                            rtcpPayloadLength := packetLen * 4, rtcpPayload := drop 4 raw\<rparr>)) } } })"

subsection \<open>The NACK list\<close>

text \<open>
  One entry of the list: stored when a list was passed and the 16-bit counter does not exceed
  the capacity, counted in any case.
\<close>

definition nackPush :: "nat \<Rightarrow> u16 \<Rightarrow> u16 list option \<times> nat \<Rightarrow> (u16 list option \<times> nat) option" where
  "nackPush cap sn acc =
     (case acc of
        (None, count) \<Rightarrow> Some (None, (count + 1) mod 65536)
      | (Some out, count) \<Rightarrow>
          if count \<le> cap
          then do { out' \<leftarrow> memwrite out count [sn]; Some (Some out', (count + 1) mod 65536) }
          else Some (Some out, (count + 1) mod 65536))"

fun nackBits :: "nat \<Rightarrow> u16 \<Rightarrow> u16 \<Rightarrow> nat list \<Rightarrow> u16 list option \<times> nat \<Rightarrow> (u16 list option \<times> nat) option" where
  "nackBits cap pid blp [] acc = Some acc"
| "nackBits cap pid blp (j # js) acc =
     (if drop_bit j (blp AND push_bit j 1) \<noteq> 0
      then do { acc' \<leftarrow> nackPush cap (pid + word_of_nat j + 1) acc; nackBits cap pid blp js acc' }
      else nackBits cap pid blp js acc)"

function nackLoop :: "platform \<Rightarrow> byte list \<Rightarrow> nat \<Rightarrow> nat \<Rightarrow> nat \<Rightarrow> u16 list option \<times> nat \<Rightarrow> (u16 list option \<times> nat) option" where
  "nackLoop P payload payloadLen cap i acc =
     (if i < payloadLen then
        do { pid \<leftarrow> rdInt16 P payload i;
             blp \<leftarrow> rdInt16 P payload (i + 2);
             acc1 \<leftarrow> nackPush cap pid acc;
             acc2 \<leftarrow> nackBits cap pid blp [0..<16] acc1;
             nackLoop P payload payloadLen cap (i + 4) acc2 }
      else Some acc)"
  by pat_completeness auto
termination
  by (relation "measure (\<lambda>(_, _, payloadLen, _, i, _). payloadLen - i)") auto

declare nackLoop.simps [simp del]

text \<open>Status, sender and receiver SSRC, the list, \<^verbatim>\<open>*pSequenceNumberListLen\<close>.\<close>

definition rtcpNackListGet ::
  "platform \<Rightarrow> byte list option \<Rightarrow> nat \<Rightarrow> u16 list option \<Rightarrow> nat \<Rightarrow>
   (STATUS \<times> u32 \<times> u32 \<times> u16 list option \<times> nat) option" where
  "rtcpNackListGet P pPayload payloadLen pSequenceNumberList listLen =
     (case pPayload of
        None \<Rightarrow> Some (STATUS_NULL_ARG, 0, 0, pSequenceNumberList, listLen)
      | Some payload \<Rightarrow>
          if \<not> (payloadLen \<ge> 8 \<and> payloadLen mod 4 = 0)
          then Some (STATUS_RTCP_INPUT_NACK_LIST_INVALID, 0, 0, pSequenceNumberList, listLen)
          else do {
            s \<leftarrow> rdInt32 P payload 0;
            r \<leftarrow> rdInt32 P payload 4;
            (out, count) \<leftarrow> nackLoop P payload payloadLen listLen 8 (pSequenceNumberList, 0);
            Some (STATUS_SUCCESS, s, r, out, count) })"

subsection \<open>REMB\<close>

definition isRembPacket :: "byte list option \<Rightarrow> nat \<Rightarrow> STATUS option" where
  "isRembPacket pPayload payloadLen =
     (case pPayload of
        None \<Rightarrow> Some STATUS_NULL_ARG
      | Some payload \<Rightarrow>
          if \<not> payloadLen \<ge> 16 then Some STATUS_RTCP_INPUT_REMB_TOO_SMALL
          else do {
            ident \<leftarrow> rdn payload 8 4;
            Some (if ident = [0x52, 0x45, 0x4d, 0x42] then STATUS_SUCCESS else STATUS_RTCP_INPUT_REMB_INVALID) })"

fun rembSsrcs :: "platform \<Rightarrow> byte list \<Rightarrow> nat \<Rightarrow> nat \<Rightarrow> u32 list \<Rightarrow> u32 list option" where
  "rembSsrcs P payload i 0 out = Some out"
| "rembSsrcs P payload i (Suc n) out =
     do { w \<leftarrow> rdInt32 P payload (16 + i * 4);
          out' \<leftarrow> memwrite out i [w];
          rembSsrcs P payload (i + 1) n out' }"

text \<open>
  Status, bit rate, SSRC list, \<^verbatim>\<open>*pSsrcListLen\<close>.  The mantissa is a native load turned by
  \<^verbatim>\<open>htonl\<close>, which is the big-endian reading of the four bytes.
\<close>

definition rembValueGet ::
  "platform \<Rightarrow> byte list option \<Rightarrow> nat \<Rightarrow> u32 list \<Rightarrow> (STATUS \<times> nat \<times> u32 list \<times> nat) option" where
  "rembValueGet P pPayload payloadLen ssrcList =
     (case pPayload of
        None \<Rightarrow> Some (STATUS_NULL_ARG, 0, ssrcList, 0)
      | Some payload \<Rightarrow>
          if \<not> payloadLen \<ge> 16 then Some (STATUS_RTCP_INPUT_REMB_TOO_SMALL, 0, ssrcList, 0)
          else do {
            b12 \<leftarrow> rd payload 12; b13 \<leftarrow> rd payload 13; b14 \<leftarrow> rd payload 14; b15 \<leftarrow> rd payload 15;
            let mantissa = be32 b12 b13 b14 b15 AND 0x3FFFF;
            let exponent = unat (drop_bit 2 b13);
            if exponent \<ge> 32 then None
            else do {
              let maximumBitRate = unat (push_bit exponent mantissa);
              let ssrcListLen = unat b12;
              if \<not> payloadLen \<ge> 16 + ssrcListLen * 4 then Some (STATUS_RTCP_INPUT_REMB_INVALID, 0, ssrcList, 0)
              else do {
                out \<leftarrow> rembSsrcs P payload 0 ssrcListLen ssrcList;
                Some (STATUS_SUCCESS, maximumBitRate, out, ssrcListLen) } } })"

subsection \<open>NTP time\<close>

abbreviation (input) HUNDREDS_OF_NANOS_IN_A_SECOND :: nat where "HUNDREDS_OF_NANOS_IN_A_SECOND \<equiv> 10000000"
abbreviation (input) NTP_OFFSET :: nat where "NTP_OFFSET \<equiv> 2208988800"
abbreviation (input) NTP_TIMESCALE :: nat where "NTP_TIMESCALE \<equiv> 4294967296"

definition KVS_CONVERT_TIMESCALE :: "nat \<Rightarrow> nat \<Rightarrow> nat \<Rightarrow> nat" where
  "KVS_CONVERT_TIMESCALE pts from_timescale to_timescale = wrap64 (pts * to_timescale) div from_timescale"

definition convertTimestampToNTP :: "u64 \<Rightarrow> u64" where
  "convertTimestampToNTP time100ns =
     (let sec = unat time100ns div HUNDREDS_OF_NANOS_IN_A_SECOND;
          frac100ns = unat time100ns mod HUNDREDS_OF_NANOS_IN_A_SECOND;
          ntp_sec = word_of_nat (sec + NTP_OFFSET);
          ntp_frac = word_of_nat (KVS_CONVERT_TIMESCALE frac100ns HUNDREDS_OF_NANOS_IN_A_SECOND NTP_TIMESCALE)
      in push_bit 32 ntp_sec OR ntp_frac)"

subsection \<open>The NACK list on the wire\<close>

text \<open>
  RFC 4585, section 6.2.1: an entry is a packet id and a bitmask of the sixteen following
  sequence numbers.
\<close>

definition nack_expand :: "u16 \<times> u16 \<Rightarrow> u16 list" where
  "nack_expand e = fst e # map (\<lambda>j. fst e + word_of_nat j + 1) (filter (bit (snd e)) [0..<16])"

definition nack_entry :: "u16 \<times> u16 \<Rightarrow> byte list" where
  "nack_entry e = bytes16 (fst e) @ bytes16 (snd e)"

definition nack_payload :: "u32 \<Rightarrow> u32 \<Rightarrow> (u16 \<times> u16) list \<Rightarrow> byte list" where
  "nack_payload s r es = bytes32 s @ bytes32 r @ concat (map nack_entry es)"

fun nackPushAll :: "nat \<Rightarrow> u16 list \<Rightarrow> u16 list option \<times> nat \<Rightarrow> (u16 list option \<times> nat) option" where
  "nackPushAll cap [] acc = Some acc"
| "nackPushAll cap (sn # sns) acc = do { acc' \<leftarrow> nackPush cap sn acc; nackPushAll cap sns acc' }"

lemma nackPushAll_append:
  "nackPushAll cap (xs @ ys) = (\<lambda>acc. nackPushAll cap xs acc \<bind> nackPushAll cap ys)"
proof
  show "nackPushAll cap (xs @ ys) acc = nackPushAll cap xs acc \<bind> nackPushAll cap ys" for acc
    by (induction xs arbitrary: acc) (auto split: Option.bind_splits)
qed

lemma single_bit: "drop_bit j (w AND push_bit j 1) \<noteq> 0 \<longleftrightarrow> bit (w :: u16) j"
proof -
  have "drop_bit j (w AND push_bit j 1) = of_bool (bit w j)"
    by (rule bit_word_eqI) (auto simp: bit_simps dest: bit_imp_le_length)
  then show ?thesis by simp
qed

lemma nackBits_pushAll:
  "nackBits cap pid blp js = nackPushAll cap (map (\<lambda>j. pid + word_of_nat j + 1) (filter (bit blp) js))"
proof (induction js)
  case (Cons j js)
  show ?case
    by (rule ext, cases "bit blp j")
       (simp_all only: nackBits.simps single_bit filter.simps list.map if_True if_False nackPushAll.simps simp_thms Cons.IH)
qed (simp add: fun_eq_iff)

lemma nackPushAll_count: "nackPushAll cap sns (None, c) = Some (None, (c + length sns) mod 65536)" if "c < 65536"
  using that
proof (induction sns arbitrary: c)
  case (Cons sn sns)
  have "((c + 1) mod 65536 + length sns) mod 65536 = (c + 1 + length sns) mod 65536" by (rule mod_add_left_eq)
  then show ?case using Cons.IH [of "(c + 1) mod 65536"] by (simp add: nackPush_def)
qed simp

lemma nackPushAll_fits:
  "c + length sns < 65536 \<Longrightarrow> c + length sns \<le> cap \<Longrightarrow> c + length sns \<le> length out \<Longrightarrow>
   nackPushAll cap sns (Some out, c) = Some (Some (patch out c sns), c + length sns)"
proof (induction sns arbitrary: c out)
  case Nil
  then show ?case by simp
next
  case (Cons sn sns)
  have "nackPush cap sn (Some out, c) = Some (Some (patch out c [sn]), c + 1)"
    using Cons.prems by (simp add: nackPush_def memwrite_patch)
  moreover have "nackPushAll cap sns (Some (patch out c [sn]), c + 1) =
      Some (Some (patch (patch out c [sn]) (c + 1) sns), c + 1 + length sns)"
    using Cons.prems by (intro Cons.IH) simp_all
  ultimately show ?case using Cons.prems by (simp add: patch_patch)
qed

lemma nackPushAll_overrun:
  "c \<le> cap \<Longrightarrow> cap < c + length sns \<Longrightarrow> cap < 65535 \<Longrightarrow> length out = cap \<Longrightarrow>
   nackPushAll cap sns (Some out, c) = None"
proof (induction sns arbitrary: c out)
  case Nil
  then show ?case by simp
next
  case (Cons sn sns)
  show ?case
  proof (cases "c = cap")
    case True
    then show ?thesis using Cons.prems by (simp add: nackPush_def memwrite_def)
  next
    case False
    then have "nackPush cap sn (Some out, c) = Some (Some (patch out c [sn]), c + 1)"
      using Cons.prems by (simp add: nackPush_def memwrite_patch)
    moreover have "nackPushAll cap sns (Some (patch out c [sn]), c + 1) = None"
      using Cons.prems False by (intro Cons.IH) simp_all
    ultimately show ?thesis by simp
  qed
qed

text \<open>With memory behind a list of \<open>cap\<close> entries, \<open>cap + 1\<close> entries are stored.\<close>

lemma nackPushAll_behind:
  "c + length sns < 65536 \<Longrightarrow> c \<le> cap + 1 \<Longrightarrow> cap < length out \<Longrightarrow>
   nackPushAll cap sns (Some out, c) = Some (Some (patch out c (take (cap + 1 - c) sns)), c + length sns)"
proof (induction sns arbitrary: c out)
  case Nil
  then show ?case by simp
next
  case (Cons sn sns)
  show ?case
  proof (cases "c = cap + 1")
    case True
    then have "nackPush cap sn (Some out, c) = Some (Some out, c + 1)" using Cons.prems by (simp add: nackPush_def)
    moreover have "nackPushAll cap sns (Some out, d) = Some (Some out, d + length sns)" if "cap < d" "d + length sns < 65536" for d
      using that by (induction sns arbitrary: d) (auto simp: nackPush_def)
    ultimately show ?thesis using True Cons.prems by simp
  next
    case False
    then have "nackPush cap sn (Some out, c) = Some (Some (patch out c [sn]), c + 1)"
      using Cons.prems by (simp add: nackPush_def memwrite_patch)
    moreover have "nackPushAll cap sns (Some (patch out c [sn]), c + 1) =
        Some (Some (patch (patch out c [sn]) (c + 1) (take (cap + 1 - (c + 1)) sns)), c + 1 + length sns)"
      using Cons.prems False by (intro Cons.IH) simp_all
    ultimately show ?thesis using False Cons.prems by (simp add: patch_patch Suc_diff_le)
  qed
qed

lemma length_nack_entry [simp]: "length (nack_entry e) = 4"
  by (simp add: nack_entry_def)

lemma length_nack_entries [simp]: "length (concat (map nack_entry es)) = 4 * length es"
  by (induction es) simp_all

context network_order
begin

lemma nackLoop_entries:
  assumes "payload = pre @ concat (map nack_entry es)" "n = length payload" "i = length pre"
  shows "nackLoop P payload n cap i acc = nackPushAll cap (concat (map nack_expand es)) acc"
  using assms
proof (induction es arbitrary: pre i acc)
  case Nil
  then show ?case by (simp add: nackLoop.simps)
next
  case (Cons e es)
  have r: "rdInt16 P payload i = Some (fst e)" "rdInt16 P payload (i + 2) = Some (snd e)"
    using Cons.prems by (simp_all add: rdInt16_eq nack_entry_def bytes16_def nth_append)
  have IH: "nackLoop P payload n cap (i + 4) = nackPushAll cap (concat (map nack_expand es))"
    using Cons.prems by (intro ext Cons.IH [of "pre @ nack_entry e"]) simp_all
  have "i < n" using Cons.prems by simp
  then show ?case
    unfolding nackLoop.simps [of P payload n cap i] r
    by (simp add: IH nackBits_pushAll nack_expand_def [of e] nackPushAll_append)
qed

lemma rtcpNackListGet_payload:
  "rtcpNackListGet P (Some (nack_payload s r es)) (length (nack_payload s r es)) out cap =
     do { (out', count) \<leftarrow> nackPushAll cap (concat (map nack_expand es)) (out, 0);
          Some (STATUS_SUCCESS, s, r, out', count) }"
proof -
  let ?p = "nack_payload s r es"
  have l: "length ?p = 8 + 4 * length es" by (simp add: nack_payload_def)
  have "rdInt32 P ?p 0 = Some s" "rdInt32 P ?p 4 = Some r"
    by (simp_all add: rdInt32_eq nack_payload_def bytes32_def)
  moreover have "nackLoop P ?p (length ?p) cap 8 (out, 0) = nackPushAll cap (concat (map nack_expand es)) (out, 0)"
    by (rule nackLoop_entries [of _ "bytes32 s @ bytes32 r"]) (simp_all add: nack_payload_def)
  ultimately show ?thesis using l by (simp add: rtcpNackListGet_def)
qed

end

subsection \<open>REMB and NTP\<close>

definition remb_payload :: "u32 \<Rightarrow> u32 \<Rightarrow> byte \<Rightarrow> u32 \<Rightarrow> u32 list \<Rightarrow> byte list" where
  "remb_payload s r ex mant ssrcs =
     bytes32 s @ bytes32 r @ [0x52, 0x45, 0x4d, 0x42] @
     [word_of_nat (length ssrcs), push_bit 2 ex OR ucast (drop_bit 16 mant), ucast (drop_bit 8 mant), ucast mant] @
     concat (map bytes32 ssrcs)"

lemma length_ssrc_bytes [simp]: "length (concat (map bytes32 ws)) = 4 * length ws"
  by (induction ws) simp_all

lemma remb_fields:
  assumes "ex < (64 :: byte)" "mant < (2 ^ 18 :: u32)"
  shows "be32 n (push_bit 2 ex OR ucast (drop_bit 16 mant)) (ucast (drop_bit 8 mant)) (ucast mant) AND 0x3FFFF = mant"
    and "drop_bit 2 (push_bit 2 ex OR ucast (drop_bit 16 mant)) = ex"
proof -
  have hi: "\<not> bit mant n" if "18 \<le> n" for n using bit_below [of mant 18] assms(2) that by simp
  have ex: "\<not> bit ex n" if "6 \<le> n" for n using bit_below [of ex 6] assms(1) that by simp
  have m18: "(0x3FFFF :: u32) = mask 18" by (simp add: mask_eq_exp_minus_1)
  show "be32 n (push_bit 2 ex OR ucast (drop_bit 16 mant)) (ucast (drop_bit 8 mant)) (ucast mant) AND 0x3FFFF = mant"
  proof (rule bit_word_eqI)
    fix k assume "k < LENGTH(32)"
    then consider "k < 8" | "8 \<le> k" "k < 16" | "k = 16" | "k = 17" | "18 \<le> k" by fastforce
    then show "bit (be32 n (push_bit 2 ex OR ucast (drop_bit 16 mant)) (ucast (drop_bit 8 mant)) (ucast mant) AND 0x3FFFF) k = bit mant k"
      unfolding m18 be32_def by cases (auto simp: bit_simps hi)
  qed
  show "drop_bit 2 (push_bit 2 ex OR ucast (drop_bit 16 mant)) = ex"
    by (rule byte_eqI) (simp_all add: bit_simps hi ex)
qed

context network_order
begin

lemma rembSsrcs_read:
  assumes "payload = pre @ concat (map bytes32 ws)" "length pre = 16 + 4 * i" "i + length ws \<le> length out"
  shows "rembSsrcs P payload i (length ws) out = Some (patch out i ws)"
  using assms
proof (induction ws arbitrary: pre i out)
  case Nil
  then show ?case by simp
next
  case (Cons w ws)
  have r: "rdInt32 P payload (16 + i * 4) = Some w"
    using Cons.prems by (simp add: rdInt32_eq bytes32_def nth_append mult.commute)
  have m: "memwrite out i [w] = Some (patch out i [w])" using Cons.prems by (simp add: memwrite_patch)
  have "rembSsrcs P payload (i + 1) (length ws) (patch out i [w]) = Some (patch (patch out i [w]) (i + 1) ws)"
    using Cons.prems by (intro Cons.IH [of "pre @ bytes32 w"]) simp_all
  moreover have "patch (patch out i [w]) (i + 1) ws = patch out i (w # ws)"
    using Cons.prems by (simp add: patch_patch)
  ultimately show ?case using r m by simp
qed

end

lemma ntp_div: "(sec * 10000000 + r) * 2 ^ 32 div 10000000 = sec * 2 ^ 32 + r * 2 ^ 32 div (10000000 :: nat)"
proof -
  have "(sec * 10000000 + r) * 2 ^ 32 = r * 2 ^ 32 + (sec * 2 ^ 32) * (10000000 :: nat)" by (simp add: algebra_simps)
  then show ?thesis by (metis add.commute div_mult_self1 zero_neq_numeral)
qed

subsection \<open>Properties\<close>



text \<open>
  C16. The capacity check admits one entry too many.  When the message names more sequence
  numbers than the list has room for (and fewer than 65536), the first \<open>cap + 1\<close> of them are stored: \<open>cap\<close> fill the
  list \<open>out\<close>, one overwrites the element behind it, and the rest of the memory behind the list
  stays as it is; the length reported is that of the whole request.  When no memory lies behind the list, the
  write leaves its allocation.
\<close>

theorem nack_list_overrun:
  assumes "network_order P" "length out = cap" "sns = concat (map nack_expand es)" "cap < length sns" "length sns < 65536"
  shows "rtcpNackListGet P (Some (nack_payload s r es)) (length (nack_payload s r es)) (Some (out @ x # behind)) cap =
       Some (STATUS_SUCCESS, s, r, Some (take cap sns @ sns ! cap # behind), length sns) \<and>
     rtcpNackListGet P (Some (nack_payload s r es)) (length (nack_payload s r es)) (Some out) cap = None"
proof -
  have "patch (out @ x # behind) 0 (take (cap + 1) sns) = take cap sns @ sns ! cap # behind"
    using assms(2,4) by (simp add: patch_0 take_Suc_conv_app_nth)
  then show ?thesis
    using network_order.rtcpNackListGet_payload [OF assms(1)] assms(2,4,5) nackPushAll_behind [of 0 sns cap "out @ x # behind"]
      nackPushAll_overrun [of 0 cap sns out] unfolding assms(3) by simp
qed

theorem nack_list_overrun_witness:
  "rtcpNackListGet little_endian_host (Some (nack_payload 1 2 [(5, 0), (6, 0), (7, 0)])) (length (nack_payload 1 2 [(5, 0), (6, 0), (7, 0)]))
     (Some [0, 9, 9, 9]) 1 = Some (STATUS_SUCCESS, 1, 2, Some [5, 6, 9, 9], 3)"
  using nack_list_overrun [OF le_host.network_order_axioms, of "[0]" 1 "[5, 6, 7]" "[(5, 0), (6, 0), (7, 0)]" 1 2 9 "[9, 9]"] by (simp add: nack_expand_def)

text \<open>
  C17. A REMB message with exponent \<open>ex\<close> and an 18-bit mantissa is decoded to
  \<open>mant * 2^ex\<close> and its SSRC list, provided the bit rate fits 32 bits; with an exponent of 32
  or more the shift is undefined.
\<close>

theorem remb_decoded:
  assumes "network_order P" "length ssrcs < 256" "length ssrcs \<le> length out" "ex < 64" "mant < 2 ^ 18"
  shows "(unat mant * 2 ^ unat ex < 2 ^ 32 \<and> unat ex < 32 \<longrightarrow>
       isRembPacket (Some (remb_payload s r ex mant ssrcs)) (length (remb_payload s r ex mant ssrcs)) = Some STATUS_SUCCESS \<and>
       rembValueGet P (Some (remb_payload s r ex mant ssrcs)) (length (remb_payload s r ex mant ssrcs)) out =
         Some (STATUS_SUCCESS, unat mant * 2 ^ unat ex, ssrcs @ drop (length ssrcs) out, length ssrcs)) \<and>
     (32 \<le> unat ex \<longrightarrow>
       rembValueGet P (Some (remb_payload s r ex mant ssrcs)) (length (remb_payload s r ex mant ssrcs)) out = None)"
proof -
  let ?p = "remb_payload s r ex mant ssrcs"
  let ?b13 = "push_bit 2 ex OR ucast (drop_bit 16 mant) :: byte"
  have l: "length ?p = 16 + 4 * length ssrcs" by (simp add: remb_payload_def)
  have b: "rd ?p 12 = Some (word_of_nat (length ssrcs))" "rd ?p 13 = Some ?b13"
    "rd ?p 14 = Some (ucast (drop_bit 8 mant))" "rd ?p 15 = Some (ucast mant)" "rdn ?p 8 4 = Some [0x52, 0x45, 0x4d, 0x42]"
    by (simp_all add: rd_def rdn_def remb_payload_def nth_append bytes32_def)
  have n: "unat (word_of_nat (length ssrcs) :: byte) = length ssrcs" using assms(2) by (simp add: unat_of_nat)
  have rs: "rembSsrcs P ?p 0 (length ssrcs) out = Some (ssrcs @ drop (length ssrcs) out)"
  proof -
    obtain pre where "?p = pre @ concat (map bytes32 ssrcs)" "length pre = 16 + 4 * 0"
      by (rule that [of "take 16 ?p"]) (simp_all add: remb_payload_def bytes32_def)
    then show ?thesis
      using network_order.rembSsrcs_read [OF assms(1), of ?p pre ssrcs 0 out] assms(3) by (simp add: patch_0)
  qed
  note f = remb_fields [OF assms(4,5)]
  have shift: "unat (push_bit (unat ex) mant) = unat mant * 2 ^ unat ex" if "unat mant * 2 ^ unat ex < 2 ^ 32" "unat ex < 32"
    unfolding unsigned_push_bit_eq using that by (simp add: take_bit_eq_mod push_bit_eq_mult)
  show ?thesis
    using l b n rs shift f by (auto simp: isRembPacket_def rembValueGet_def Let_def)
qed

theorem remb_decoded_witness:
  "rembValueGet little_endian_host (Some (remb_payload 1 2 3 100 [9])) (length (remb_payload 1 2 3 100 [9])) [0, 5] =
     Some (STATUS_SUCCESS, 800, [9, 5], 1)"
  using remb_decoded [OF le_host.network_order_axioms, of "[9]" "[0, 5]" 3 100 1 2] by simp

text \<open>
  C18. The conversion to NTP time is exact to one unit of 2^-32 seconds up to the NTP era
  change in 2036: the 64-bit result is the number of 2^-32 second units, rounded down, plus the
  offset of the two epochs.  In particular it is monotone.
\<close>

theorem ntp_exact:
  assumes "unat t div 10000000 + 2208988800 < 2 ^ 32"
  shows "unat (convertTimestampToNTP t) = unat t * 2 ^ 32 div 10000000 + 2208988800 * 2 ^ 32"
proof -
  define sec r where "sec = unat t div 10000000" and "r = unat t mod 10000000"
  define f where "f = r * 2 ^ 32 div 10000000"
  have r: "r < 10000000" by (simp add: r_def)
  then have f: "f < 2 ^ 32" "KVS_CONVERT_TIMESCALE r 10000000 4294967296 = f"
    by (simp_all add: f_def KVS_CONVERT_TIMESCALE_def div_less_iff_less_mult)
  have sec: "sec + 2208988800 < 2 ^ 32" using assms by (simp add: sec_def)
  have "convertTimestampToNTP t = push_bit 32 (word_of_nat (sec + 2208988800)) OR word_of_nat f"
    by (simp add: convertTimestampToNTP_def sec_def [symmetric] r_def [symmetric] f(2) Let_def)
  also have "\<dots> = push_bit 32 (word_of_nat (sec + 2208988800)) + word_of_nat f"
  proof (rule disjunctive_add [symmetric])
    fix n
    have "word_of_nat f < (2 ^ 32 :: u64)" using f(1) by (simp add: word_less_nat_alt unat_of_nat)
    then show "\<not> bit (push_bit 32 (word_of_nat (sec + 2208988800)) :: u64) n \<or> \<not> bit (word_of_nat f :: u64) n"
      using bit_below [of "word_of_nat f :: u64" 32 n] by (cases "n < 32") (auto simp: bit_push_bit_iff)
  qed
  also have "\<dots> = word_of_nat ((sec + 2208988800) * 2 ^ 32 + f)"
    by (simp add: push_bit_eq_mult)
  finally have e: "convertTimestampToNTP t = word_of_nat ((sec + 2208988800) * 2 ^ 32 + f)" .
  have "unat (convertTimestampToNTP t) = ((sec + 2208988800) * 2 ^ 32 + f) mod 2 ^ 64"
    unfolding e unat_of_nat by simp
  also have "\<dots> = (sec + 2208988800) * 2 ^ 32 + f"
    using sec f(1) by (intro mod_less) simp
  finally have "unat (convertTimestampToNTP t) = (sec + 2208988800) * 2 ^ 32 + f" .
  moreover have "unat t = sec * 10000000 + r" by (simp add: sec_def r_def)
  ultimately show ?thesis using ntp_div [of sec r] by (simp add: f_def algebra_simps)
qed

theorem ntp_exact_witness:
  "unat (convertTimestampToNTP 16000000000000000) = 16000000000000000 * 2 ^ 32 div 10000000 + 2208988800 * 2 ^ 32"
  using ntp_exact [of 16000000000000000] by simp

end
