(* ===== verification/IOBuffer.thy ===== *)
theory IOBuffer
  imports KvsPrelude
begin

text \<open>
  The growable byte buffer between the TLS layer and the socket (\<^verbatim>\<open>Crypto/IOBuffer.c\<close>):
  writes append at \<open>len\<close> and grow the allocation when the free space is too small, reads
  consume at \<open>off\<close>, and a buffer that has been read completely starts over at zero.  The
  allocator is an argument (\<open>alloc n\<close>: the contents of \<open>n\<close> fresh bytes, or NULL).  The
  contract is a byte stream: what is read, followed by what is still buffered, is what was
  written.
\<close>

subsection \<open>Data\<close>

record IOBuffer =
  bufOff :: nat
  bufLen :: nat
  bufCap :: nat
  bufRaw :: "byte list option"

type_synonym allocator = "nat \<Rightarrow> byte list option"

definition SIZEOF_IOBuffer :: nat where
  "SIZEOF_IOBuffer = 24"

text \<open>The bytes a pointer may access; none through NULL.\<close>

definition mem_of :: "byte list option \<Rightarrow> byte list" where
  "mem_of p = (case p of None \<Rightarrow> [] | Some bs \<Rightarrow> bs)"

lemma mem_of_simps [simp]: "mem_of None = []" "mem_of (Some bs) = bs"
  by (simp_all add: mem_of_def)

text \<open>realloc keeps the old bytes that fit, and does not touch the old block when it fails.\<close>

definition memrealloc :: "allocator \<Rightarrow> byte list option \<Rightarrow> nat \<Rightarrow> byte list option" where
  "memrealloc alloc old n =
     map_option (\<lambda>g. take n (mem_of old) @ drop (length (mem_of old)) g) (alloc n)"

subsection \<open>Operations\<close>

text \<open>The second argument of the result is what \<^verbatim>\<open>*ppBuffer\<close> holds afterwards; a failed call leaves it as it was.\<close>

definition freeIOBuffer :: "IOBuffer option option \<Rightarrow> STATUS \<times> IOBuffer option option" where
  "freeIOBuffer ppBuffer =
     (case ppBuffer of
        None \<Rightarrow> (STATUS_NULL_ARG, None)
      | Some None \<Rightarrow> (STATUS_SUCCESS, Some None)
      | Some (Some b) \<Rightarrow> (STATUS_SUCCESS, Some None))"

definition createIOBuffer :: "allocator \<Rightarrow> nat \<Rightarrow> IOBuffer option \<Rightarrow> STATUS \<times> IOBuffer option" where
  "createIOBuffer alloc initialCap old =
     (case alloc SIZEOF_IOBuffer of
        None \<Rightarrow> (STATUS_NOT_ENOUGH_MEMORY, old)
      | Some _ \<Rightarrow>
          let b = \<lparr>bufOff = 0, bufLen = 0, bufCap = 0, bufRaw = None\<rparr> in
          if initialCap \<noteq> 0 then
            (case alloc initialCap of
               None \<Rightarrow> (STATUS_NOT_ENOUGH_MEMORY, old)
             | Some g \<Rightarrow> (STATUS_SUCCESS, Some (b\<lparr>bufRaw := Some g, bufCap := initialCap\<rparr>)))
          else (STATUS_SUCCESS, Some b))"

definition ioBufferReset :: "IOBuffer option \<Rightarrow> STATUS \<times> IOBuffer option" where
  "ioBufferReset pBuffer =
     (case pBuffer of
        None \<Rightarrow> (STATUS_NULL_ARG, None)
      | Some b \<Rightarrow> (STATUS_SUCCESS, Some (b\<lparr>bufLen := 0, bufOff := 0\<rparr>)))"

definition ioBufferWrite ::
  "allocator \<Rightarrow> IOBuffer option \<Rightarrow> byte list option \<Rightarrow> nat \<Rightarrow> (STATUS \<times> IOBuffer option) option" where
  "ioBufferWrite alloc pBuffer pData dataLen =
     (case (pBuffer, pData) of
        (Some b, Some bytes) \<Rightarrow>
          let freeSpace = sub32 (bufCap b) (bufLen b);
              newCap = wrap32 (bufLen b + dataLen);
              grown = (if freeSpace < dataLen then b\<lparr>bufRaw := memrealloc alloc (bufRaw b) newCap\<rparr> else b)
          in
            if freeSpace < dataLen \<and> bufRaw grown = None then Some (STATUS_NOT_ENOUGH_MEMORY, Some grown)
            else
              let b1 = (if freeSpace < dataLen then grown\<lparr>bufCap := newCap\<rparr> else grown) in
              do {
                mem \<leftarrow> memcpy (mem_of (bufRaw b1)) (bufLen b1) bytes 0 dataLen;
                Some (STATUS_SUCCESS,
                  Some (b1\<lparr>bufRaw := (if bufRaw b1 = None then None else Some mem),
                          bufLen := wrap32 (bufLen b1 + dataLen)\<rparr>))
              }
      | _ \<Rightarrow> Some (STATUS_NULL_ARG, pBuffer))"

definition ioBufferRead ::
  "IOBuffer option \<Rightarrow> byte list option \<Rightarrow> nat \<Rightarrow> (STATUS \<times> IOBuffer option \<times> byte list option \<times> nat option) option" where
  "ioBufferRead pBuffer pData bufferLen =
     (case pBuffer of
        None \<Rightarrow> Some (STATUS_NULL_ARG, None, pData, None)
      | Some b \<Rightarrow>
          let dataLen = min bufferLen (sub32 (bufLen b) (bufOff b)) in
          do {
            out \<leftarrow> memcpy (mem_of pData) 0
                    (mem_of (bufRaw b)) (bufOff b) dataLen;
            let b1 = b\<lparr>bufOff := wrap32 (bufOff b + dataLen)\<rparr>;
                b2 = (if bufOff b1 = bufLen b1 then snd (ioBufferReset (Some b1)) else Some b1)
            in Some (STATUS_SUCCESS, b2, if pData = None then None else Some out, Some dataLen)
          })"

subsection \<open>Invariant and abstraction\<close>

definition io_inv :: "IOBuffer \<Rightarrow> bool" where
  "io_inv b \<longleftrightarrow> bufOff b \<le> bufLen b \<and> bufLen b \<le> bufCap b \<and> bufCap b = length (mem_of (bufRaw b)) \<and> bufCap b < 2 ^ 32"

definition io_contents :: "IOBuffer \<Rightarrow> byte list" where
  "io_contents b = drop (bufOff b) (take (bufLen b) (mem_of (bufRaw b)))"

definition allocates :: "allocator \<Rightarrow> bool" where
  "allocates alloc \<longleftrightarrow> (\<forall>n. \<exists>g. alloc n = Some g \<and> length g = n)"

lemma allocatesE:
  assumes "allocates alloc"
  obtains g where "alloc n = Some g" "length g = n"
  using assms by (auto simp: allocates_def)

lemma memrealloc_ok:
  assumes "allocates alloc" and "length (mem_of p) \<le> n"
  shows "\<exists>bs. memrealloc alloc p n = Some bs \<and> length bs = n \<and> take (length (mem_of p)) bs = mem_of p"
proof -
  obtain g where "alloc n = Some g" "length g = n" using assms(1) by (rule allocatesE)
  then show ?thesis using assms(2) by (simp add: memrealloc_def)
qed

lemma io_write_room:
  assumes "io_inv b" "bufLen b + n \<le> bufCap b" "n = length bs"
  shows "\<exists>b'. ioBufferWrite alloc (Some b) (Some bs) n = Some (STATUS_SUCCESS, Some b') \<and> io_inv b' \<and>
    io_contents b' = io_contents b @ bs \<and> bufLen b' = bufLen b + n"
proof (cases "bufRaw b")
  case None
  with assms have "bufLen b = 0" "bs = []" "bufOff b = 0" "bufCap b = 0" by (auto simp: io_inv_def)
  with None assms show ?thesis
    by (simp add: ioBufferWrite_def Let_def io_inv_def io_contents_def memcpy_def rdn_def memwrite_def sub32_def wrap32_def)
next
  case (Some mem)
  with assms have "memcpy mem (bufLen b) bs 0 n = Some (patch mem (bufLen b) bs)"
    by (simp add: io_inv_def memcpy_patch)
  moreover have "\<not> sub32 (bufCap b) (bufLen b) < n"
    using assms by (simp add: io_inv_def)
  ultimately show ?thesis
    using assms Some
    by (auto simp: ioBufferWrite_def Let_def io_inv_def io_contents_def patch_def)
qed

text \<open>When the free space is too small the buffer first becomes one with exactly enough room.\<close>

lemma io_write_grow:
  assumes "io_inv b" "bufCap b < bufLen b + n" "bufLen b + n < 2 ^ 32" "allocates alloc"
  shows "\<exists>b1. io_inv b1 \<and> bufCap b1 = bufLen b + n \<and> bufLen b1 = bufLen b \<and> io_contents b1 = io_contents b \<and>
    ioBufferWrite alloc (Some b) (Some bs) n = ioBufferWrite alloc (Some b1) (Some bs) n"
proof -
  let ?n = "bufLen b + n"
  obtain mem where mem: "memrealloc alloc (bufRaw b) ?n = Some mem" "length mem = ?n"
    "take (bufCap b) mem = mem_of (bufRaw b)"
    using memrealloc_ok [OF assms(4), of "bufRaw b" ?n] assms(1,2) by (auto simp: io_inv_def)
  let ?b1 = "b\<lparr>bufRaw := Some mem, bufCap := ?n\<rparr>"
  have "take (bufLen b) mem = take (bufLen b) (mem_of (bufRaw b))"
    using assms(1) by (simp add: io_inv_def flip: mem(3) add: min_def)
  then have "io_inv ?b1" "io_contents ?b1 = io_contents b"
    using assms mem by (auto simp: io_inv_def io_contents_def)
  moreover have "sub32 (bufCap b) (bufLen b) < n" "\<not> sub32 (bufCap ?b1) (bufLen ?b1) < n"
    using assms by (auto simp: io_inv_def)
  then have "ioBufferWrite alloc (Some b) (Some bs) n = ioBufferWrite alloc (Some ?b1) (Some bs) n"
    using assms mem by (simp add: ioBufferWrite_def Let_def)
  ultimately show ?thesis by (intro exI [of _ ?b1]) simp
qed

lemma ioBufferWrite_ok:
  assumes "io_inv b" "bufLen b + length bs < 2 ^ 32" "allocates alloc"
  shows "\<exists>b'. ioBufferWrite alloc (Some b) (Some bs) (length bs) = Some (STATUS_SUCCESS, Some b') \<and> io_inv b' \<and>
    io_contents b' = io_contents b @ bs \<and> bufLen b' = bufLen b + length bs"
proof (cases "bufLen b + length bs \<le> bufCap b")
  case True
  then show ?thesis using io_write_room [OF assms(1)] by blast
next
  case False
  then obtain b1 where b1: "io_inv b1" "bufCap b1 = bufLen b + length bs" "bufLen b1 = bufLen b"
    "io_contents b1 = io_contents b"
    "ioBufferWrite alloc (Some b) (Some bs) (length bs) = ioBufferWrite alloc (Some b1) (Some bs) (length bs)"
    using io_write_grow [OF assms(1) _ assms(2,3)] by force
  then show ?thesis using io_write_room [OF b1(1), of "length bs" bs] by auto
qed

lemma ioBufferRead_ok:
  assumes "io_inv b" "length out = n"
  shows "\<exists>b' k. ioBufferRead (Some b) (Some out) n =
      Some (STATUS_SUCCESS, Some b', Some (take k (io_contents b) @ drop k out), Some k) \<and>
    k = min n (length (io_contents b)) \<and> io_inv b' \<and> io_contents b' = drop k (io_contents b) \<and> bufLen b' \<le> bufLen b"
proof -
  let ?k = "min n (length (io_contents b))"
  have len: "length (io_contents b) = bufLen b - bufOff b" using assms(1) by (simp add: io_inv_def io_contents_def)
  have t: "take ?k (drop (bufOff b) (mem_of (bufRaw b))) = take ?k (io_contents b)"
    by (simp add: io_contents_def drop_take min_def)
  have "memcpy out 0 (mem_of (bufRaw b)) (bufOff b) ?k = Some (patch out 0 (take ?k (io_contents b)))"
    unfolding t [symmetric] using assms len by (intro memcpy_patch) (auto simp: io_inv_def)
  then have "memcpy out 0 (mem_of (bufRaw b)) (bufOff b) ?k = Some (take ?k (io_contents b) @ drop ?k out)"
    using len by (simp add: patch_0)
  moreover have "sub32 (bufLen b) (bufOff b) = length (io_contents b)" "wrap32 (bufOff b + ?k) = bufOff b + ?k"
    using assms len by (auto simp: io_inv_def)
  ultimately show ?thesis
    using assms(1) len
    by (auto simp: ioBufferRead_def ioBufferReset_def Let_def io_inv_def io_contents_def add.commute)
qed

lemma createIOBuffer_ok:
  assumes "allocates alloc" "initialCap < 2 ^ 32"
  shows "\<exists>b. createIOBuffer alloc initialCap old = (STATUS_SUCCESS, Some b) \<and> io_inv b \<and> io_contents b = [] \<and> bufLen b = 0"
proof -
  obtain g where "alloc SIZEOF_IOBuffer = Some g" using assms(1) by (rule allocatesE)
  moreover obtain h where "alloc initialCap = Some h" "length h = initialCap" using assms(1) by (rule allocatesE)
  ultimately show ?thesis
    using assms(2) by (simp add: createIOBuffer_def Let_def io_inv_def io_contents_def)
qed

subsection \<open>The byte-stream contract\<close>

text \<open>
  A schedule of writes (\<open>Inl\<close>) and reads (\<open>Inr\<close>), run on given write and read operations, with
  the bytes the reads return; and the bytes a schedule writes.
\<close>

fun serve :: "('s \<Rightarrow> byte list \<Rightarrow> 's option) \<Rightarrow> ('s \<Rightarrow> nat \<Rightarrow> ('s \<times> byte list) option) \<Rightarrow>
  's \<Rightarrow> (byte list + nat) list \<Rightarrow> byte list \<Rightarrow> ('s \<times> byte list) option" where
  "serve put get s [] got = Some (s, got)"
| "serve put get s (Inl bs # ops) got = Option.bind (put s bs) (\<lambda>s'. serve put get s' ops got)"
| "serve put get s (Inr n # ops) got = Option.bind (get s n) (\<lambda>(s', bs). serve put get s' ops (got @ bs))"

fun sent :: "(byte list + nat) list \<Rightarrow> byte list" where
  "sent [] = []"
| "sent (Inl bs # ops) = bs @ sent ops"
| "sent (Inr n # ops) = sent ops"

text \<open>
  What the TLS session relies on: a write appends, a read removes what it returns from the
  front.  \<open>used\<close> measures how much of the address space the buffer has consumed.
\<close>

locale byte_stream =
  fixes put :: "'s \<Rightarrow> byte list \<Rightarrow> 's option"
    and get :: "'s \<Rightarrow> nat \<Rightarrow> ('s \<times> byte list) option"
    and contents :: "'s \<Rightarrow> byte list"
    and used :: "'s \<Rightarrow> nat"
    and invar :: "'s \<Rightarrow> bool"
    and limit :: nat
  assumes put_ok: "invar s \<Longrightarrow> used s + length bs < limit \<Longrightarrow>
      \<exists>s'. put s bs = Some s' \<and> invar s' \<and> contents s' = contents s @ bs \<and> used s' = used s + length bs"
    and get_ok: "invar s \<Longrightarrow>
      \<exists>s'. get s n = Some (s', take n (contents s)) \<and> invar s' \<and> contents s' = drop n (contents s) \<and> used s' \<le> used s"
begin

lemma serve_stream:
  "invar s \<Longrightarrow> used s + length (sent ops) < limit \<Longrightarrow>
   \<exists>s' new. serve put get s ops got = Some (s', got @ new) \<and> invar s' \<and> new @ contents s' = contents s @ sent ops"
proof (induction ops arbitrary: s got rule: sent.induct)
  case 1
  then show ?case by simp
next
  case (2 bs ops)
  then obtain s' where s': "put s bs = Some s'" "invar s'" "contents s' = contents s @ bs" "used s' = used s + length bs"
    using put_ok [of s bs] by auto
  then show ?case using 2 by fastforce
next
  case (3 n ops)
  then obtain s' where s': "get s n = Some (s', take n (contents s))" "invar s'" "contents s' = drop n (contents s)"
    "used s' \<le> used s"
    using get_ok [of s n] by auto
  then have "used s' + length (sent ops) < limit" using 3(3) by simp
  then obtain t new where t: "serve put get s' ops (got @ take n (contents s)) = Some (t, (got @ take n (contents s)) @ new)"
    "invar t" "new @ contents t = contents s' @ sent ops"
    using 3(1) [OF s'(2)] by blast
  have "(take n (contents s) @ new) @ contents t = (take n (contents s) @ drop n (contents s)) @ sent ops"
    using t(3) s'(3) by (simp only: append_assoc)
  then have "(take n (contents s) @ new) @ contents t = contents s @ sent ops" by (simp only: append_take_drop_id)
  then show ?case using t(1,2) s'(1) by (intro exI [of _ t] exI [of _ "take n (contents s) @ new"]) simp
qed

end

text \<open>The modelled operations, with a destination of the requested size, as such a stream.\<close>

definition io_put :: "allocator \<Rightarrow> IOBuffer \<Rightarrow> byte list \<Rightarrow> IOBuffer option" where
  "io_put alloc b bs =
     (case ioBufferWrite alloc (Some b) (Some bs) (length bs) of
        Some (STATUS_SUCCESS, Some b') \<Rightarrow> Some b' | _ \<Rightarrow> None)"

definition io_get :: "IOBuffer \<Rightarrow> nat \<Rightarrow> (IOBuffer \<times> byte list) option" where
  "io_get b n =
     (case ioBufferRead (Some b) (Some (replicate n 0)) n of
        Some (STATUS_SUCCESS, Some b', Some out, Some k) \<Rightarrow> Some (b', take k out) | _ \<Rightarrow> None)"

text \<open>An allocator that never runs out: any contents, of the requested size.\<close>

definition heap_alloc :: "(nat \<Rightarrow> nat \<Rightarrow> byte) \<Rightarrow> allocator" where
  "heap_alloc heap n = Some (map (heap n) [0..<n])"

lemma allocates_heap: "allocates (heap_alloc heap)"
  by (simp add: allocates_def heap_alloc_def)

interpretation io: byte_stream "io_put (heap_alloc heap)" io_get io_contents bufLen io_inv "2 ^ 32"
proof (unfold_locales, goal_cases)
  case (1 b bs)
  then show ?case using ioBufferWrite_ok [OF _ _ allocates_heap, of b bs heap] by (auto simp: io_put_def)
next
  case (2 b n)
  then show ?case using ioBufferRead_ok [of b "replicate n 0" n] by (fastforce simp: io_get_def min_def)
qed

subsection \<open>Properties\<close>

text \<open>
  C19. The TLS buffer is a byte stream: on a fresh buffer every schedule of writes and reads
  that writes less than 4 GiB succeeds without leaving the allocation, and the bytes the reads
  returned followed by the bytes still buffered are exactly the bytes written, in order
  (nothing lost, duplicated or reordered by growing, by partial reads or by the reset).
\<close>

theorem io_buffer_stream:
  assumes "initialCap < 2 ^ 32" "length (sent ops) < 2 ^ 32"
  shows "\<exists>b b' got. createIOBuffer (heap_alloc heap) initialCap old = (STATUS_SUCCESS, Some b) \<and>
    serve (io_put (heap_alloc heap)) io_get b ops [] = Some (b', got) \<and>
    got @ io_contents b' = sent ops \<and> io_inv b'"
proof -
  obtain b where b: "createIOBuffer (heap_alloc heap) initialCap old = (STATUS_SUCCESS, Some b)"
    "io_inv b" "io_contents b = []" "bufLen b = 0"
    using createIOBuffer_ok [OF allocates_heap assms(1)] by blast
  then show ?thesis using io.serve_stream [of b ops heap "[]"] assms(2) by auto
qed

theorem io_buffer_stream_witness:
  "\<exists>b b' got. createIOBuffer (heap_alloc (\<lambda>_ _. 7)) 2 None = (STATUS_SUCCESS, Some b) \<and>
    serve (io_put (heap_alloc (\<lambda>_ _. 7))) io_get b [Inl [1, 2, 3], Inr 2, Inl [4], Inr 9, Inl [5]] [] = Some (b', got) \<and>
    got @ io_contents b' = [1, 2, 3, 4, 5] \<and> io_inv b'"
  using io_buffer_stream [of 2 "[Inl [1, 2, 3], Inr 2, Inl [4], Inr 9, Inl [5]]" "\<lambda>_ _. 7" None] by simp

end
