(* ===== verification/HashTable.thy ===== *)
theory HashTable
  imports KvsPrelude
begin

text \<open>
  The interface of PIC's hash table, which the jitter buffer and the TWCC manager keep their
  packets in.  Its source is not part of the repository, so the operations are a parameter
  (the record \<open>hash_ops\<close>) and the documented behaviour is the locale \<open>hash_table\<close>: keys are
  64-bit numbers, a value is a pointer (\<open>None\<close> for NULL), \<^verbatim>\<open>hashTableGet\<close> and
  \<^verbatim>\<open>hashTableRemove\<close> report an absent key, \<^verbatim>\<open>hashTablePut\<close> refuses a present one and
  \<^verbatim>\<open>hashTableUpsert\<close> overwrites it.  A chained table with the same bucket layout shows that
  the laws can be met.
\<close>

subsection \<open>Operations and laws\<close>

record ('h, 'v) hash_ops =
  hashTableGet :: "'h \<Rightarrow> nat \<Rightarrow> STATUS + 'v option"
  hashTableContains :: "'h \<Rightarrow> nat \<Rightarrow> STATUS \<times> bool"
  hashTablePut :: "'h \<Rightarrow> nat \<Rightarrow> 'v option \<Rightarrow> STATUS \<times> 'h"
  hashTableUpsert :: "'h \<Rightarrow> nat \<Rightarrow> 'v option \<Rightarrow> STATUS \<times> 'h"
  hashTableRemove :: "'h \<Rightarrow> nat \<Rightarrow> STATUS \<times> 'h"
  hashTableCreate :: "STATUS \<times> 'h"

locale hash_table =
  fixes H :: "('h, 'v) hash_ops"
    and lookup :: "'h \<Rightarrow> nat \<Rightarrow> 'v option option"
    and table_ok :: "'h \<Rightarrow> bool"
  assumes get_law: "table_ok h \<Longrightarrow> hashTableGet H h k =
      (case lookup h k of None \<Rightarrow> Inl STATUS_HASH_KEY_NOT_PRESENT | Some v \<Rightarrow> Inr v)"
    and contains_law: "table_ok h \<Longrightarrow> hashTableContains H h k = (STATUS_SUCCESS, lookup h k \<noteq> None)"
    and put_law: "table_ok h \<Longrightarrow> lookup h k = None \<Longrightarrow>
      \<exists>h'. hashTablePut H h k v = (STATUS_SUCCESS, h') \<and> table_ok h' \<and> lookup h' = (lookup h)(k \<mapsto> v)"
    and put_present: "table_ok h \<Longrightarrow> lookup h k \<noteq> None \<Longrightarrow>
      hashTablePut H h k v = (STATUS_HASH_KEY_ALREADY_PRESENT, h)"
    and upsert_law: "table_ok h \<Longrightarrow>
      \<exists>h'. hashTableUpsert H h k v = (STATUS_SUCCESS, h') \<and> table_ok h' \<and> lookup h' = (lookup h)(k \<mapsto> v)"
    and remove_law: "table_ok h \<Longrightarrow> lookup h k \<noteq> None \<Longrightarrow>
      \<exists>h'. hashTableRemove H h k = (STATUS_SUCCESS, h') \<and> table_ok h' \<and> lookup h' = (lookup h)(k := None)"
    and remove_absent: "table_ok h \<Longrightarrow> lookup h k = None \<Longrightarrow>
      hashTableRemove H h k = (STATUS_HASH_KEY_NOT_PRESENT, h)"
    and create_law: "\<exists>h. hashTableCreate H = (STATUS_SUCCESS, h) \<and> table_ok h \<and> lookup h = (\<lambda>_. None)"
begin

lemma get_present [simp]: "table_ok h \<Longrightarrow> lookup h k = Some v \<Longrightarrow> hashTableGet H h k = Inr v"
  by (simp add: get_law)

lemma get_absent [simp]: "table_ok h \<Longrightarrow> lookup h k = None \<Longrightarrow> hashTableGet H h k = Inl STATUS_HASH_KEY_NOT_PRESENT"
  by (simp add: get_law)

lemma get_Inr_iff: "table_ok h \<Longrightarrow> hashTableGet H h k = Inr v \<longleftrightarrow> lookup h k = Some v"
  by (auto simp: get_law split: option.splits)

end

subsection \<open>A chained hash table\<close>

text \<open>Buckets of key/value pairs, selected by the key modulo the number of buckets.\<close>

type_synonym 'v buckets = "(nat \<times> 'v option) list list"

definition bucket_of :: "'v buckets \<Rightarrow> nat \<Rightarrow> (nat \<times> 'v option) list" where
  "bucket_of h k = h ! (k mod length h)"

definition chained_lookup :: "'v buckets \<Rightarrow> nat \<Rightarrow> 'v option option" where
  "chained_lookup h k = map_of (bucket_of h k) k"

definition chained_store :: "'v buckets \<Rightarrow> nat \<Rightarrow> 'v option \<Rightarrow> 'v buckets" where
  "chained_store h k v = h[k mod length h := (k, v) # filter (\<lambda>p. fst p \<noteq> k) (bucket_of h k)]"

definition chained_delete :: "'v buckets \<Rightarrow> nat \<Rightarrow> 'v buckets" where
  "chained_delete h k = h[k mod length h := filter (\<lambda>p. fst p \<noteq> k) (bucket_of h k)]"

definition chained_table :: "nat \<Rightarrow> ('v buckets, 'v) hash_ops" where
  "chained_table n = \<lparr>
     hashTableGet = (\<lambda>h k. case chained_lookup h k of None \<Rightarrow> Inl STATUS_HASH_KEY_NOT_PRESENT | Some v \<Rightarrow> Inr v),
     hashTableContains = (\<lambda>h k. (STATUS_SUCCESS, case chained_lookup h k of None \<Rightarrow> False | Some _ \<Rightarrow> True)),
     hashTablePut = (\<lambda>h k v. case chained_lookup h k of
        None \<Rightarrow> (STATUS_SUCCESS, chained_store h k v) | Some _ \<Rightarrow> (STATUS_HASH_KEY_ALREADY_PRESENT, h)),
     hashTableUpsert = (\<lambda>h k v. (STATUS_SUCCESS, chained_store h k v)),
     hashTableRemove = (\<lambda>h k. case chained_lookup h k of
        None \<Rightarrow> (STATUS_HASH_KEY_NOT_PRESENT, h) | Some _ \<Rightarrow> (STATUS_SUCCESS, chained_delete h k)),
     hashTableCreate = (STATUS_SUCCESS, replicate (Suc n) []) \<rparr>"

lemma map_of_filter_key: "map_of (filter (\<lambda>p. fst p \<noteq> k) xs) = (map_of xs)(k := None)"
  by (induction xs) auto

lemma chained_lookup_store: "h \<noteq> [] \<Longrightarrow> chained_lookup (chained_store h k v) = (chained_lookup h)(k \<mapsto> v)"
  by (rule ext) (simp add: chained_lookup_def chained_store_def bucket_of_def nth_list_update map_of_filter_key)

lemma chained_lookup_delete: "h \<noteq> [] \<Longrightarrow> chained_lookup (chained_delete h k) = (chained_lookup h)(k := None)"
  by (rule ext) (simp add: chained_lookup_def chained_delete_def bucket_of_def nth_list_update map_of_filter_key)

lemma chained_nonempty: "chained_store h k v = [] \<longleftrightarrow> h = []" "chained_delete h k = [] \<longleftrightarrow> h = []"
  by (simp_all add: chained_store_def chained_delete_def)

lemma chained_lookup_fresh: "chained_lookup (replicate (Suc n) []) = (\<lambda>_. None)"
proof
  fix k
  have "k mod Suc n < Suc n" by simp
  then have "replicate (Suc n) [] ! (k mod Suc n) = ([] :: (nat \<times> 'a option) list)" by (rule nth_replicate)
  then show "chained_lookup (replicate (Suc n) []) k = (None :: 'a option option)"
    by (simp only: chained_lookup_def bucket_of_def length_replicate map_of.simps)
qed

interpretation chained: hash_table "chained_table n" chained_lookup "\<lambda>h. h \<noteq> []"
proof (unfold_locales, goal_cases)
  case (8)
  show ?case using chained_lookup_fresh [of n] by (auto simp: chained_table_def)
qed (auto simp: chained_table_def chained_lookup_store chained_lookup_delete chained_nonempty
       split: option.splits)

end
