(* ===== verification/JitterBuffer.thy ===== *)
theory JitterBuffer
  imports HashTable RtpPayloader
begin

text \<open>
  \<^verbatim>\<open>src/source/PeerConnection/JitterBuffer.c\<close>: reordering of received RTP packets, assembly of
  frames and dropping of frames that stay incomplete beyond the latency bound.

  The packets are kept in a PIC hash table keyed by sequence number (parameter \<open>H\<close>, see
  \<open>HashTable\<close>); a stored pointer is the packet itself.  The callbacks are functions on a
  state \<open>'w\<close> of the application that also see the table, because the SDK's frame callback
  reads the packets back through \<^verbatim>\<open>jitterBufferFillFrameData\<close>.  The predicates of the C file
  change the buffer as a side effect, so each returns its truth value and the buffer.  The
  running jitter estimate (\<^verbatim>\<open>transit\<close>, \<^verbatim>\<open>jitter\<close>), which this file never touches, is left out.
  Sequence numbers and timestamps are machine words; loops over a range of sequence numbers
  run modulo 2^16 exactly as in the source.
\<close>

subsection \<open>Data\<close>

abbreviation (input) MAX_OUT_OF_ORDER_PACKET_DIFFERENCE :: u16 where "MAX_OUT_OF_ORDER_PACKET_DIFFERENCE \<equiv> 512"
abbreviation (input) MAX_RTP_SEQUENCE_NUM :: u16 where "MAX_RTP_SEQUENCE_NUM \<equiv> 65535"
abbreviation (input) MAX_RTP_TIMESTAMP :: nat where "MAX_RTP_TIMESTAMP \<equiv> 4294967295"
abbreviation (input) DEFAULT_JITTER_BUFFER_MAX_LATENCY :: nat where "DEFAULT_JITTER_BUFFER_MAX_LATENCY \<equiv> 20000000"
abbreviation (input) JB_HUNDREDS_OF_NANOS :: nat where "JB_HUNDREDS_OF_NANOS \<equiv> 10000000"

definition SIZEOF_JitterBuffer :: nat where
  "SIZEOF_JitterBuffer = 96"

text \<open>Custom data, the packet table, the application's state, first and last sequence number, frame size or timestamp.\<close>

type_synonym ('h, 'w) frame_fn = "nat \<Rightarrow> 'h \<Rightarrow> 'w \<Rightarrow> u16 \<Rightarrow> u16 \<Rightarrow> nat \<Rightarrow> (STATUS \<times> 'w) option"

record ('h, 'w) JitterBuffer =
  onFrameReadyFn :: "('h, 'w) frame_fn option"
  onFrameDroppedFn :: "('h, 'w) frame_fn option"
  depayPayloadFn :: depay_func
  headSequenceNumber :: u16
  tailSequenceNumber :: u16
  headTimestamp :: u32
  tailTimestamp :: u32
  maxLatency :: nat
  customData :: nat
  clockRate :: nat
  started :: bool
  firstFrameProcessed :: bool
  sequenceNumberOverflowState :: bool
  timestampOverFlowState :: bool
  pPkgBufferHashTable :: 'h

abbreviation seqOf :: "RtpPacket \<Rightarrow> u16" where
  "seqOf pkt \<equiv> sequenceNumber (header pkt)"

abbreviation tsOf :: "RtpPacket \<Rightarrow> u32" where
  "tsOf pkt \<equiv> timestamp (header pkt)"

definition UINT16_DEC :: "u16 \<Rightarrow> u16" where
  "UINT16_DEC a = a - 1"

subsection \<open>Range checks\<close>

definition underflowPossible :: "('h, 'w) JitterBuffer \<Rightarrow> RtpPacket \<Rightarrow> bool" where
  "underflowPossible jb pkt =
     (if headTimestamp jb = tsOf pkt then True
      else
        let seqNoDifference = wrap32 ((65535 - unat (seqOf pkt)) + unat (headSequenceNumber jb));
            timestampDifference =
              (if headTimestamp jb > tsOf pkt then unat (headTimestamp jb - tsOf pkt)
               else wrap32 ((MAX_RTP_TIMESTAMP - unat (tsOf pkt)) + unat (headTimestamp jb)));
            maxTimePassed =
              (if MAX_RTP_TIMESTAMP div clockRate jb \<le> seqNoDifference then MAX_RTP_TIMESTAMP
               else wrap32 (clockRate jb * seqNoDifference))
        in maxTimePassed \<ge> timestampDifference)"

definition headCheckingAllowed :: "('h, 'w) JitterBuffer \<Rightarrow> RtpPacket \<Rightarrow> bool" where
  "headCheckingAllowed jb pkt = (\<not> firstFrameProcessed jb \<or> headTimestamp jb = tsOf pkt)"

definition headSequenceNumberCheck :: "('h, 'w) JitterBuffer \<Rightarrow> RtpPacket \<Rightarrow> bool \<times> ('h, 'w) JitterBuffer" where
  "headSequenceNumberCheck jb pkt =
     (let minimumHead =
            (if headSequenceNumber jb \<ge> MAX_OUT_OF_ORDER_PACKET_DIFFERENCE
             then headSequenceNumber jb - MAX_OUT_OF_ORDER_PACKET_DIFFERENCE else 0)
      in
        if headSequenceNumber jb = seqOf pkt then (True, jb)
        else if headCheckingAllowed jb pkt then
          (if sequenceNumberOverflowState jb then
             (if tailSequenceNumber jb < seqOf pkt \<and> headSequenceNumber jb > seqOf pkt \<and> seqOf pkt \<ge> minimumHead
              then (True, jb\<lparr>headSequenceNumber := seqOf pkt\<rparr>) else (False, jb))
           else
             (if seqOf pkt < headSequenceNumber jb \<and> seqOf pkt \<ge> minimumHead
              then (True, jb\<lparr>headSequenceNumber := seqOf pkt\<rparr>) else (False, jb)))
        else (False, jb))"

definition tailSequenceNumberCheck :: "('h, 'w) JitterBuffer \<Rightarrow> RtpPacket \<Rightarrow> bool \<times> ('h, 'w) JitterBuffer" where
  "tailSequenceNumberCheck jb pkt =
     (if tailSequenceNumber jb = seqOf pkt then (True, jb)
      else if seqOf pkt > tailSequenceNumber jb \<and>
              (\<not> sequenceNumberOverflowState jb \<or> headSequenceNumber jb > seqOf pkt)
      then (True, jb\<lparr>tailSequenceNumber := seqOf pkt\<rparr>)
      else (False, jb))"

definition enterSequenceNumberOverflowCheck ::
  "('h, 'w) JitterBuffer \<Rightarrow> RtpPacket \<Rightarrow> bool \<times> ('h, 'w) JitterBuffer" where
  "enterSequenceNumberOverflowCheck jb pkt =
     (let packetsUntilOverflow = MAX_RTP_SEQUENCE_NUM - tailSequenceNumber jb;
          overflow =
            (\<not> sequenceNumberOverflowState jb \<and> MAX_OUT_OF_ORDER_PACKET_DIFFERENCE \<ge> packetsUntilOverflow \<and>
             seqOf pkt < tailSequenceNumber jb \<and>
             seqOf pkt \<le> MAX_OUT_OF_ORDER_PACKET_DIFFERENCE - packetsUntilOverflow);
          underflow =
            (\<not> sequenceNumberOverflowState jb \<and> \<not> MAX_OUT_OF_ORDER_PACKET_DIFFERENCE \<ge> packetsUntilOverflow \<and>
             headCheckingAllowed jb pkt \<and> headSequenceNumber jb < MAX_OUT_OF_ORDER_PACKET_DIFFERENCE \<and>
             seqOf pkt \<ge> 65535 - (MAX_OUT_OF_ORDER_PACKET_DIFFERENCE - headSequenceNumber jb) \<and>
             underflowPossible jb pkt);
          jb1 = (if overflow then jb\<lparr>sequenceNumberOverflowState := True, tailSequenceNumber := seqOf pkt,
                                     tailTimestamp := tsOf pkt\<rparr> else jb);
          jb2 = (if underflow then jb1\<lparr>sequenceNumberOverflowState := True, headSequenceNumber := seqOf pkt,
                                       headTimestamp := tsOf pkt\<rparr> else jb1)
      in (overflow \<or> underflow, jb2))"

definition enterTimestampOverflowCheck ::
  "('h, 'w) JitterBuffer \<Rightarrow> RtpPacket \<Rightarrow> bool \<times> ('h, 'w) JitterBuffer" where
  "enterTimestampOverflowCheck jb pkt =
     (if \<not> timestampOverFlowState jb then
        (if headTimestamp jb > tsOf pkt \<and> tailTimestamp jb > tsOf pkt then
           (case tailSequenceNumberCheck jb pkt of
              (overflow, jb1) \<Rightarrow>
                (overflow, if overflow then jb1\<lparr>timestampOverFlowState := True, tailTimestamp := tsOf pkt\<rparr> else jb1))
         else if headTimestamp jb < tsOf pkt \<and> tailTimestamp jb < tsOf pkt then
           (case headSequenceNumberCheck jb pkt of
              (underflow, jb1) \<Rightarrow>
                (underflow, if underflow then jb1\<lparr>timestampOverFlowState := True, headTimestamp := tsOf pkt\<rparr> else jb1))
         else (False, jb))
      else (False, jb))"

definition exitSequenceNumberOverflowCheck :: "('h, 'w) JitterBuffer \<Rightarrow> bool \<times> ('h, 'w) JitterBuffer" where
  "exitSequenceNumberOverflowCheck jb =
     (if sequenceNumberOverflowState jb \<and> headSequenceNumber jb \<le> tailSequenceNumber jb
      then (True, jb\<lparr>sequenceNumberOverflowState := False\<rparr>) else (False, jb))"

definition exitTimestampOverflowCheck :: "('h, 'w) JitterBuffer \<Rightarrow> bool \<times> ('h, 'w) JitterBuffer" where
  "exitTimestampOverflowCheck jb =
     (if timestampOverFlowState jb \<and> headTimestamp jb \<le> tailTimestamp jb
      then (True, jb\<lparr>timestampOverFlowState := False\<rparr>) else (False, jb))"

definition headTimestampCheck :: "('h, 'w) JitterBuffer \<Rightarrow> RtpPacket \<Rightarrow> bool \<times> ('h, 'w) JitterBuffer" where
  "headTimestampCheck jb pkt =
     (if headCheckingAllowed jb pkt then
        (if (if timestampOverFlowState jb
             then headTimestamp jb > tsOf pkt \<and> tailTimestamp jb < tsOf pkt
             else headTimestamp jb > tsOf pkt \<or> tailTimestamp jb < tsOf pkt)
         then (case headSequenceNumberCheck jb pkt of
                 (isHead, jb1) \<Rightarrow> (isHead, if isHead then jb1\<lparr>headTimestamp := tsOf pkt\<rparr> else jb1))
         else (False, jb))
      else (False, jb))"

definition tailTimestampCheck :: "('h, 'w) JitterBuffer \<Rightarrow> RtpPacket \<Rightarrow> bool \<times> ('h, 'w) JitterBuffer" where
  "tailTimestampCheck jb pkt =
     (if tailTimestamp jb < tsOf pkt \<and> (\<not> timestampOverFlowState jb \<or> headTimestamp jb > tsOf pkt)
      then (case tailSequenceNumberCheck jb pkt of
              (isTail, jb1) \<Rightarrow> (isTail, if isTail then jb1\<lparr>tailTimestamp := tsOf pkt\<rparr> else jb1))
      else (False, jb))"

definition withinLatencyTolerance :: "('h, 'w) JitterBuffer \<Rightarrow> RtpPacket \<Rightarrow> bool \<times> ('h, 'w) JitterBuffer" where
  "withinLatencyTolerance jb0 pkt =
     (case tailTimestampCheck jb0 pkt of
        (isTail, jb) \<Rightarrow>
          if isTail \<or> tailTimestamp jb = tsOf pkt then (True, jb)
          else if timestampOverFlowState jb then
            let minimumTimestamp =
                  (if unat (tailTimestamp jb) < maxLatency jb
                   then wrap32 (sub64 MAX_RTP_TIMESTAMP (sub64 (maxLatency jb) (unat (tailTimestamp jb)))) else 0)
            in (tsOf pkt < tailTimestamp jb \<or> tsOf pkt > headTimestamp jb \<or> unat (tsOf pkt) \<ge> minimumTimestamp, jb)
          else
            (unat (tsOf pkt) < maxLatency jb \<and> unat (tailTimestamp jb) \<le> maxLatency jb \<or>
             unat (tsOf pkt) \<ge> sub64 (unat (tailTimestamp jb)) (maxLatency jb), jb))"

subsection \<open>Dropping and filling a range\<close>

text \<open>The loops over a range of sequence numbers; \<open>freed\<close> collects the packets that are released.\<close>

lemma unat_minus_one_less: "(w :: u16) \<noteq> 0 \<Longrightarrow> unat (w - 1) < unat w"
  by (simp add: measure_unat)

lemma range_measure: "UINT16_DEC index \<noteq> endIndex \<Longrightarrow> unat (endIndex - index) < unat (endIndex + 1 - index)"
  using unat_minus_one_less [of "endIndex + 1 - index"] by (auto simp: UINT16_DEC_def algebra_simps)

function dropLoop ::
  "('h, RtpPacket) hash_ops \<Rightarrow> 'h \<Rightarrow> u16 \<Rightarrow> u16 \<Rightarrow> RtpPacket list \<Rightarrow> STATUS \<times> 'h \<times> RtpPacket list" where
  "dropLoop H h index endIndex freed =
     (if UINT16_DEC index = endIndex then (STATUS_SUCCESS, h, freed)
      else
        case hashTableContains H h (unat index) of
          (st, hasEntry) \<Rightarrow>
            if STATUS_FAILED st then (st, h, freed)
            else if hasEntry then
              (case hashTableGet H h (unat index) of
                 Inl st \<Rightarrow> (st, h, freed)
               | Inr pCurPacket \<Rightarrow>
                   let freed' = freed @ (case pCurPacket of None \<Rightarrow> [] | Some pkt \<Rightarrow> [pkt]) in
                   (case hashTableRemove H h (unat index) of
                      (st, h') \<Rightarrow>
                        if STATUS_FAILED st then (st, h', freed')
                        else dropLoop H h' (index + 1) endIndex freed'))
            else dropLoop H h (index + 1) endIndex freed)"
  by pat_completeness auto
termination
  by (relation "measure (\<lambda>(H, h, index, endIndex, freed). unat (endIndex + 1 - index))") (auto intro: range_measure)

declare dropLoop.simps [simp del]

definition jitterBufferDropBufferData ::
  "('h, RtpPacket) hash_ops \<Rightarrow> ('h, 'w) JitterBuffer option \<Rightarrow> u16 \<Rightarrow> u16 \<Rightarrow> u32 \<Rightarrow>
   STATUS \<times> ('h, 'w) JitterBuffer option \<times> RtpPacket list" where
  "jitterBufferDropBufferData H pJitterBuffer startIndex endIndex nextTimestamp =
     (case pJitterBuffer of
        None \<Rightarrow> (STATUS_NULL_ARG, None, [])
      | Some jb \<Rightarrow>
          (case dropLoop H (pPkgBufferHashTable jb) startIndex endIndex [] of
             (st, h, freed) \<Rightarrow>
               let jb1 = jb\<lparr>pPkgBufferHashTable := h\<rparr> in
               if STATUS_FAILED st then (st, Some jb1, freed)
               else
                 let jb2 = jb1\<lparr>headTimestamp := nextTimestamp, headSequenceNumber := endIndex + 1\<rparr>;
                     jb3 = snd (exitTimestampOverflowCheck jb2);
                     jb4 = snd (exitSequenceNumberOverflowCheck jb3)
                 in (STATUS_SUCCESS, Some jb4, freed)))"

text \<open>\<open>pos\<close> is the offset of \<^verbatim>\<open>pCurPtrInFrame\<close> in the frame buffer.\<close>

function fillLoop ::
  "('h, RtpPacket) hash_ops \<Rightarrow> depay_func \<Rightarrow> 'h \<Rightarrow> u16 \<Rightarrow> u16 \<Rightarrow> byte list \<Rightarrow> nat \<Rightarrow> nat \<Rightarrow>
   (STATUS \<times> byte list \<times> nat) option" where
  "fillLoop H depay h index endIndex frame pos remainingFrameSize =
     (if UINT16_DEC index = endIndex then Some (STATUS_SUCCESS, frame, remainingFrameSize)
      else
        case hashTableGet H h (unat index) of
          Inl st \<Rightarrow> Some (st, frame, remainingFrameSize)
        | Inr None \<Rightarrow> Some (STATUS_NULL_ARG, frame, remainingFrameSize)
        | Inr (Some pkt) \<Rightarrow>
            do {
              (st, out, partialFrameSize, _) \<leftarrow>
                depay (payload pkt) (payloadLength pkt) (Some (drop pos frame)) remainingFrameSize;
              bytes \<leftarrow> out;
              let frame' = take pos frame @ bytes;
              if STATUS_FAILED st then Some (st, frame', remainingFrameSize)
              else fillLoop H depay h (index + 1) endIndex frame' (pos + partialFrameSize)
                     (sub32 remainingFrameSize partialFrameSize)
            })"
  by pat_completeness auto
termination
  by (relation "measure (\<lambda>(H, depay, h, index, endIndex, frame, pos, remaining). unat (endIndex + 1 - index))")
     (auto intro: range_measure)

declare fillLoop.simps [simp del]

text \<open>The part of \<^verbatim>\<open>jitterBufferFillFrameData\<close> that reads the buffer: it only needs the table and the depayloader.\<close>

definition fillFrame ::
  "('h, RtpPacket) hash_ops \<Rightarrow> depay_func \<Rightarrow> 'h \<Rightarrow> byte list \<Rightarrow> nat \<Rightarrow> u16 \<Rightarrow> u16 \<Rightarrow> (STATUS \<times> byte list \<times> nat) option" where
  "fillFrame H depay h frame frameSize startIndex endIndex =
     do { (st, frame', remaining) \<leftarrow> fillLoop H depay h startIndex endIndex frame 0 frameSize;
          Some (st, frame', sub32 frameSize remaining) }"

definition jitterBufferFillFrameData ::
  "('h, RtpPacket) hash_ops \<Rightarrow> ('h, 'w) JitterBuffer option \<Rightarrow> byte list option \<Rightarrow> nat \<Rightarrow> u16 \<Rightarrow> u16 \<Rightarrow>
   (STATUS \<times> byte list option \<times> nat) option" where
  "jitterBufferFillFrameData H pJitterBuffer pFrame frameSize startIndex endIndex =
     (case (pJitterBuffer, pFrame) of
        (Some jb, Some frame) \<Rightarrow>
          map_option (\<lambda>(st, frame', filled). (st, Some frame', filled))
            (fillFrame H (depayPayloadFn jb) (pPkgBufferHashTable jb) frame frameSize startIndex endIndex)
      | _ \<Rightarrow> Some (STATUS_NULL_ARG, pFrame, 0))"

subsection \<open>Parsing the buffer for frames\<close>

text \<open>The local variables of \<^verbatim>\<open>jitterBufferInternalParse\<close> with the buffer and the application's state.\<close>

record ('h, 'w) ParseState =
  ps_jb :: "('h, 'w) JitterBuffer"
  ps_w :: 'w
  ps_freed :: "RtpPacket list"
  ps_ret :: STATUS
  isFrameDataContinuous :: bool
  startDropIndex :: u16
  curFrameSize :: nat
  partialFrameSize :: nat
  containStartForEarliestFrame :: bool
  lastNonNullIndex :: u16

text \<open>\<open>Inl\<close>: the function leaves with this status.\<close>

definition dropRange ::
  "('h, RtpPacket) hash_ops \<Rightarrow> u16 \<Rightarrow> u16 \<Rightarrow> u32 \<Rightarrow> ('h, 'w) ParseState \<Rightarrow>
   (STATUS \<times> ('h, 'w) ParseState) + ('h, 'w) ParseState" where
  "dropRange H s e ts ps =
     (case jitterBufferDropBufferData H (Some (ps_jb ps)) s e ts of
        (st, jb', freed) \<Rightarrow>
          let ps' = ps\<lparr>ps_jb := (case jb' of None \<Rightarrow> ps_jb ps | Some jb \<Rightarrow> jb), ps_freed := ps_freed ps @ freed\<rparr>
          in if STATUS_FAILED st then Inl (st, ps') else Inr ps')"

text \<open>A packet of a new frame at \<open>index\<close>: deliver, drop or stop (\<open>Inr (True, _)\<close> is the \<^verbatim>\<open>break\<close>).\<close>

definition newFrame ::
  "('h, RtpPacket) hash_ops \<Rightarrow> ('h, 'w) frame_fn \<Rightarrow> ('h, 'w) frame_fn \<Rightarrow> nat \<Rightarrow> bool \<Rightarrow> u16 \<Rightarrow> u32 \<Rightarrow>
   ('h, 'w) ParseState \<Rightarrow> ((STATUS \<times> ('h, 'w) ParseState) + bool \<times> ('h, 'w) ParseState) option" where
  "newFrame H ready dropped earliestAllowedTimestamp bufferClosed index curTimestamp ps =
     (let jb = ps_jb ps in
      if containStartForEarliestFrame ps \<and> isFrameDataContinuous ps then
        do { (st, w) \<leftarrow> ready (customData jb) (pPkgBufferHashTable jb) (ps_w ps) (startDropIndex ps) (UINT16_DEC index) (curFrameSize ps);
             if STATUS_FAILED st then Some (Inl (st, ps\<lparr>ps_w := w\<rparr>))
             else
               (case dropRange H (startDropIndex ps) (UINT16_DEC index) curTimestamp (ps\<lparr>ps_w := w\<rparr>) of
                  Inl r \<Rightarrow> Some (Inl r)
                | Inr ps1 \<Rightarrow>
                    Some (Inr (False, ps1\<lparr>ps_jb := (ps_jb ps1)\<lparr>firstFrameProcessed := True\<rparr>, startDropIndex := index,
                                          containStartForEarliestFrame := False, curFrameSize := 0\<rparr>))) }
      else if unat (headTimestamp jb) < earliestAllowedTimestamp \<or> bufferClosed then
        do { (_, w) \<leftarrow> dropped (customData jb) (pPkgBufferHashTable jb) (ps_w ps) (startDropIndex ps) (UINT16_DEC index) (unat (headTimestamp jb));
             (case dropRange H (startDropIndex ps) (UINT16_DEC index) curTimestamp (ps\<lparr>ps_w := w\<rparr>) of
                Inl r \<Rightarrow> Some (Inl r)
              | Inr ps1 \<Rightarrow>
                  Some (Inr (False, ps1\<lparr>ps_jb := (ps_jb ps1)\<lparr>firstFrameProcessed := True\<rparr>, isFrameDataContinuous := True,
                                        startDropIndex := index, curFrameSize := 0\<rparr>))) }
      else Some (Inr (True, ps)))"

text \<open>The size of the packet at the current index is added and its start flag recorded.\<close>

definition countPacket ::
  "RtpPacket \<Rightarrow> ('h, 'w) ParseState \<Rightarrow> ((STATUS \<times> ('h, 'w) ParseState) + ('h, 'w) ParseState) option" where
  "countPacket pkt ps =
     do { (st, _, sz, isStart) \<leftarrow> depayPayloadFn (ps_jb ps) (payload pkt) (payloadLength pkt) None (partialFrameSize ps);
          let ps1 = ps\<lparr>partialFrameSize := sz\<rparr>;
          if STATUS_FAILED st then Some (Inl (st, ps1))
          else
            let ps2 = ps1\<lparr>curFrameSize := wrap32 (curFrameSize ps1 + sz)\<rparr> in
            Some (Inr (if isStart \<and> headTimestamp (ps_jb ps2) = tsOf pkt
                       then ps2\<lparr>containStartForEarliestFrame := True\<rparr> else ps2)) }"

function parseLoop ::
  "('h, RtpPacket) hash_ops \<Rightarrow> ('h, 'w) frame_fn \<Rightarrow> ('h, 'w) frame_fn \<Rightarrow> nat \<Rightarrow> bool \<Rightarrow> u16 \<Rightarrow> u16 \<Rightarrow>
   ('h, 'w) ParseState \<Rightarrow> ((STATUS \<times> ('h, 'w) ParseState) + ('h, 'w) ParseState) option" where
  "parseLoop H ready dropped earliest bufferClosed endIdx index ps =
     (if index = endIdx then Some (Inr ps)
      else
        case hashTableContains H (pPkgBufferHashTable (ps_jb ps)) (unat index) of
          (st, hasEntry) \<Rightarrow>
            if STATUS_FAILED st then Some (Inl (st, ps))
            else if \<not> hasEntry then
              let ps1 = ps\<lparr>isFrameDataContinuous := False\<rparr> in
              if \<not> (unat (headTimestamp (ps_jb ps)) < earliest \<or> bufferClosed) then Some (Inl (ps_ret ps1, ps1))
              else parseLoop H ready dropped earliest bufferClosed endIdx (index + 1) ps1
            else
              let ps1 = ps\<lparr>lastNonNullIndex := index\<rparr> in
              case hashTableGet H (pPkgBufferHashTable (ps_jb ps)) (unat index) of
                Inl st \<Rightarrow>
                  if st = STATUS_HASH_KEY_NOT_PRESENT
                  then parseLoop H ready dropped earliest bufferClosed endIdx (index + 1) (ps1\<lparr>ps_ret := st\<rparr>)
                  else Some (Inl (st, ps1\<lparr>ps_ret := st\<rparr>))
              | Inr None \<Rightarrow> Some (Inl (STATUS_NULL_ARG, ps1\<lparr>ps_ret := STATUS_SUCCESS\<rparr>))
              | Inr (Some pkt) \<Rightarrow>
                  let ps2 = ps1\<lparr>ps_ret := STATUS_SUCCESS\<rparr> in
                  Option.bind
                    (if tsOf pkt \<noteq> headTimestamp (ps_jb ps2)
                     then newFrame H ready dropped earliest bufferClosed index (tsOf pkt) ps2
                     else Some (Inr (False, ps2)))
                    (\<lambda>b. case b of
                           Inl r \<Rightarrow> Some (Inl r)
                         | Inr (True, ps3) \<Rightarrow> Some (Inr ps3)
                         | Inr (False, ps3) \<Rightarrow>
                             Option.bind (countPacket pkt ps3)
                               (\<lambda>c. case c of
                                      Inl r \<Rightarrow> Some (Inl r)
                                    | Inr ps4 \<Rightarrow> parseLoop H ready dropped earliest bufferClosed endIdx (index + 1) ps4)))"
  by pat_completeness auto
termination
proof (relation "measure (\<lambda>(H, ready, dropped, earliest, closed, endIdx, index, ps). unat (endIdx - index))", goal_cases)
  case 1
  show ?case by simp
qed (simp_all add: unat_minus_one_less diff_diff_eq [symmetric])

declare parseLoop.simps [simp del]

text \<open>Re-measuring the last frame when the buffer is closed; the result is the final \<^verbatim>\<open>index\<close> and size.\<close>

function closeLoop ::
  "('h, RtpPacket) hash_ops \<Rightarrow> depay_func \<Rightarrow> 'h \<Rightarrow> u16 \<Rightarrow> u16 \<Rightarrow> bool \<Rightarrow> nat \<Rightarrow> nat \<Rightarrow>
   (STATUS + u16 \<times> nat) option" where
  "closeLoop H depay h lastNonNull index hasEntry frameSize partial =
     (if \<not> (UINT16_DEC index \<noteq> lastNonNull \<and> hasEntry) then Some (Inr (index, frameSize))
      else
        case hashTableContains H h (unat index) of
          (st, present) \<Rightarrow>
            if STATUS_FAILED st then Some (Inl st)
            else if present then
              (case hashTableGet H h (unat index) of
                 Inl st \<Rightarrow> Some (Inl st)
               | Inr None \<Rightarrow> None
               | Inr (Some pkt) \<Rightarrow>
                   do { (st, _, sz, _) \<leftarrow> depay (payload pkt) (payloadLength pkt) None partial;
                        if STATUS_FAILED st then Some (Inl st)
                        else closeLoop H depay h lastNonNull (index + 1) True (wrap32 (frameSize + sz)) sz })
            else Some (Inr (index + 1, frameSize)))"
  by pat_completeness auto
termination
  by (relation "measure (\<lambda>(H, depay, h, lastNonNull, index, hasEntry, frameSize, partial). unat (lastNonNull + 1 - index))")
     (auto intro: range_measure)

declare closeLoop.simps [simp del]

definition closeFrame ::
  "('h, RtpPacket) hash_ops \<Rightarrow> ('h, 'w) frame_fn \<Rightarrow> ('h, 'w) frame_fn \<Rightarrow> ('h, 'w) ParseState \<Rightarrow>
   (STATUS \<times> ('h, 'w) ParseState) option" where
  "closeFrame H ready dropped ps =
     (let jb = ps_jb ps in
      do { r \<leftarrow> closeLoop H (depayPayloadFn jb) (pPkgBufferHashTable jb) (lastNonNullIndex ps) (startDropIndex ps) True 0
                  (partialFrameSize ps);
           case r of
             Inl st \<Rightarrow> Some (st, ps)
           | Inr (index, frameSize) \<Rightarrow>
               do {
                 (st, w) \<leftarrow>
                   (if UINT16_DEC index = lastNonNullIndex ps
                    then ready (customData jb) (pPkgBufferHashTable jb) (ps_w ps) (startDropIndex ps) (lastNonNullIndex ps) frameSize
                    else dropped (customData jb) (pPkgBufferHashTable jb) (ps_w ps) (startDropIndex ps) (UINT16_DEC index)
                           (unat (headTimestamp jb)));
                 if STATUS_FAILED st then Some (st, ps\<lparr>ps_w := w\<rparr>)
                 else
                   (case dropRange H (startDropIndex ps) (lastNonNullIndex ps) (headTimestamp jb) (ps\<lparr>ps_w := w\<rparr>) of
                      Inl r \<Rightarrow> Some r
                    | Inr ps2 \<Rightarrow> Some (ps_ret ps2, ps2)) } })"

text \<open>Status, buffer, application state and released packets.\<close>

definition jitterBufferInternalParse ::
  "('h, RtpPacket) hash_ops \<Rightarrow> ('h, 'w) JitterBuffer option \<Rightarrow> bool \<Rightarrow> 'w \<Rightarrow>
   (STATUS \<times> ('h, 'w) JitterBuffer option \<times> 'w \<times> RtpPacket list) option" where
  "jitterBufferInternalParse H pJitterBuffer bufferClosed w =
     (case pJitterBuffer of
        None \<Rightarrow> Some (STATUS_NULL_ARG, None, w, [])
      | Some jb \<Rightarrow>
          (case (onFrameReadyFn jb, onFrameDroppedFn jb) of
             (Some ready, Some dropped) \<Rightarrow>
               if tailTimestamp jb = 0 then Some (STATUS_SUCCESS, Some jb, w, [])
               else
                 let earliest = (if unat (tailTimestamp jb) > maxLatency jb
                                 then wrap32 (unat (tailTimestamp jb) - maxLatency jb) else 0);
                     ps0 = \<lparr>ps_jb = jb, ps_w = w, ps_freed = [], ps_ret = STATUS_SUCCESS, isFrameDataContinuous = True,
                            startDropIndex = headSequenceNumber jb, curFrameSize = 0, partialFrameSize = 0,
                            containStartForEarliestFrame = False, lastNonNullIndex = 0\<rparr>
                 in do {
                   r \<leftarrow> parseLoop H ready dropped earliest bufferClosed (tailSequenceNumber jb + 1) (headSequenceNumber jb) ps0;
                   (st, ps) \<leftarrow>
                     (case r of
                        Inl (st, ps) \<Rightarrow> Some (st, ps)
                      | Inr ps \<Rightarrow>
                          if bufferClosed \<and> curFrameSize ps > 0 then closeFrame H ready dropped ps
                          else Some (ps_ret ps, ps));
                   Some (st, Some (ps_jb ps), ps_w ps, ps_freed ps) }
           | _ \<Rightarrow> Some (STATUS_NULL_ARG, Some jb, w, [])))"

subsection \<open>Construction, destruction and push\<close>

text \<open>
  The last component is the table handed to \<^verbatim>\<open>hashTableFree\<close>: packets that are still in it
  are not released by anyone.
\<close>

definition freeJitterBuffer ::
  "('h, RtpPacket) hash_ops \<Rightarrow> ('h, 'w) JitterBuffer option \<Rightarrow> 'w \<Rightarrow>
   (STATUS \<times> ('h, 'w) JitterBuffer option \<times> 'w \<times> RtpPacket list \<times> 'h option) option" where
  "freeJitterBuffer H pJitterBuffer w =
     (case pJitterBuffer of
        None \<Rightarrow> Some (STATUS_SUCCESS, None, w, [], None)
      | Some jb \<Rightarrow>
          do { (_, jb1, w1, freed1) \<leftarrow> jitterBufferInternalParse H (Some jb) True w;
               let (_, jb2, freed2) = jitterBufferDropBufferData H jb1 0 MAX_RTP_SEQUENCE_NUM 0;
               Some (STATUS_SUCCESS, None, w1, freed1 @ freed2, map_option pPkgBufferHashTable jb2) })"

text \<open>
  \<open>fresh\<close> is the uninitialised memory of the new buffer.  When the latency check fails, the
  constructor runs the destructor on memory whose hash table pointer was never set: \<open>None\<close>.
  When the table cannot be created, the destructor runs as well, on a buffer without a table; that
  pass is not followed, the status and the missing buffer are what the caller sees.
\<close>

definition createJitterBuffer ::
  "('h, RtpPacket) hash_ops \<Rightarrow> platform \<Rightarrow> ('h, 'w) JitterBuffer \<Rightarrow> ('h, 'w) frame_fn option \<Rightarrow> ('h, 'w) frame_fn option \<Rightarrow>
   depay_func option \<Rightarrow> nat \<Rightarrow> nat \<Rightarrow> nat \<Rightarrow> (STATUS \<times> ('h, 'w) JitterBuffer option) option" where
  "createJitterBuffer H P fresh onFrameReadyFunc onFrameDroppedFunc depayRtpPayloadFunc maxLat rate custom =
     (case (onFrameReadyFunc, onFrameDroppedFunc, depayRtpPayloadFunc) of
        (Some ready, Some dropped, Some depay) \<Rightarrow>
          if rate = 0 then Some (STATUS_INVALID_ARG, None)
          else if \<not> memalloc P SIZEOF_JitterBuffer then Some (STATUS_NOT_ENOUGH_MEMORY, None)
          else
            let latency = (if maxLat = 0 then DEFAULT_JITTER_BUFFER_MAX_LATENCY else maxLat) * rate mod 2 ^ 64
                            div JB_HUNDREDS_OF_NANOS
            in
              if \<not> latency < MAX_RTP_TIMESTAMP then None
              else
                (case hashTableCreate H of
                   (st, h) \<Rightarrow>
                     if STATUS_FAILED st then Some (st, None)
                     else Some (STATUS_SUCCESS,
                       Some (fresh\<lparr>onFrameReadyFn := Some ready, onFrameDroppedFn := Some dropped, depayPayloadFn := depay,
                              clockRate := rate, maxLatency := latency, tailTimestamp := 0, headTimestamp := 4294967295,
                              headSequenceNumber := MAX_RTP_SEQUENCE_NUM, tailSequenceNumber := MAX_RTP_SEQUENCE_NUM,
                              started := False, firstFrameProcessed := False, timestampOverFlowState := False,
                              sequenceNumberOverflowState := False, customData := custom, pPkgBufferHashTable := h\<rparr>)))
      | _ \<Rightarrow> Some (STATUS_NULL_ARG, None))"

text \<open>Storing a packet replaces (and releases) one with the same sequence number.\<close>

definition storePacket ::
  "('h, RtpPacket) hash_ops \<Rightarrow> ('h, 'w) JitterBuffer \<Rightarrow> RtpPacket \<Rightarrow> STATUS \<times> ('h, 'w) JitterBuffer \<times> RtpPacket list" where
  "storePacket H jb pkt =
     (let h = pPkgBufferHashTable jb; key = unat (seqOf pkt);
          (st1, h1, freed) =
            (case hashTableGet H h key of
               Inr (Some old) \<Rightarrow> (case hashTableRemove H h key of (st, h') \<Rightarrow> (st, h', [old]))
             | _ \<Rightarrow> (STATUS_SUCCESS, h, []))
      in
        if STATUS_FAILED st1 then (st1, jb\<lparr>pPkgBufferHashTable := h1\<rparr>, freed)
        else
          (case hashTablePut H h1 key (Some pkt) of
             (st2, h2) \<Rightarrow> (st2, jb\<lparr>pPkgBufferHashTable := h2\<rparr>, freed)))"

text \<open>The sequence-number and timestamp window is updated before the packet is judged.\<close>

definition updateWindow :: "('h, 'w) JitterBuffer \<Rightarrow> RtpPacket \<Rightarrow> ('h, 'w) JitterBuffer" where
  "updateWindow jb pkt =
     (let jb0 = (if \<not> started jb
                 then jb\<lparr>started := True, headSequenceNumber := seqOf pkt, tailSequenceNumber := seqOf pkt,
                         headTimestamp := tsOf pkt\<rparr> else jb);
          (entered, jb1) = enterSequenceNumberOverflowCheck jb0 pkt;
          jb2 = (if \<not> entered then snd (tailSequenceNumberCheck jb1 pkt) else jb1);
          (tsEntered, jb3) = enterTimestampOverflowCheck jb2 pkt
      in if \<not> tsEntered then snd (tailTimestampCheck jb3 pkt) else jb3)"

text \<open>An accepted packet is stored and may become the new head.\<close>

definition acceptPacket ::
  "('h, RtpPacket) hash_ops \<Rightarrow> ('h, 'w) JitterBuffer \<Rightarrow> RtpPacket \<Rightarrow> STATUS \<times> ('h, 'w) JitterBuffer \<times> RtpPacket list" where
  "acceptPacket H jb pkt =
     (case storePacket H jb pkt of
        (st, jb', freed) \<Rightarrow>
          if STATUS_FAILED st then (st, jb', freed)
          else if headCheckingAllowed jb' pkt
          then (st, snd (headSequenceNumberCheck (snd (headTimestampCheck jb' pkt)) pkt), freed)
          else (st, jb', freed))"

definition jitterBufferPush ::
  "('h, RtpPacket) hash_ops \<Rightarrow> ('h, 'w) JitterBuffer option \<Rightarrow> RtpPacket option \<Rightarrow> bool \<Rightarrow> 'w \<Rightarrow>
   (STATUS \<times> ('h, 'w) JitterBuffer option \<times> bool \<times> 'w \<times> RtpPacket list) option" where
  "jitterBufferPush H pJitterBuffer pRtpPacket discarded w =
     (case (pJitterBuffer, pRtpPacket) of
        (Some jb, Some pkt) \<Rightarrow>
          (case withinLatencyTolerance (updateWindow jb pkt) pkt of
             (within, jb5) \<Rightarrow>
               (case (if within then acceptPacket H jb5 pkt else (STATUS_SUCCESS, jb5, [pkt])) of
                  (st, jb6, freed) \<Rightarrow>
                    if STATUS_FAILED st then Some (st, Some jb6, discarded, w, freed)
                    else do { (st', jb7, w', freed') \<leftarrow> jitterBufferInternalParse H (Some jb6) False w;
                              Some (st', jb7, if within then discarded else True, w', freed @ freed') }))
      | _ \<Rightarrow> Some (STATUS_NULL_ARG, pJitterBuffer, discarded, w, []))"

end
