(* ===== verification/SequenceNumbers.thy ===== *)
theory SequenceNumbers
  imports KvsPrelude
begin

text \<open>
  Ranges of 16-bit sequence numbers that may cross 65535, and tables keyed by them: the
  vocabulary the jitter buffer and the congestion-control table share.
\<close>

subsection \<open>Consecutive sequence numbers\<close>

text \<open>\<open>n\<close> consecutive sequence numbers from \<open>s\<close>, modulo 2^16.\<close>

definition seqs :: "u16 \<Rightarrow> nat \<Rightarrow> u16 list" where
  "seqs s n = map (\<lambda>k. s + word_of_nat k) [0..<n]"

lemma seqs_0 [simp]: "seqs s 0 = []"
  by (simp add: seqs_def)

lemma length_seqs [simp]: "length (seqs s n) = n"
  by (simp add: seqs_def)

lemma seqs_Suc: "seqs s (Suc n) = s # seqs (s + 1) n"
  by (simp add: seqs_def upt_conv_Cons map_Suc_upt [symmetric] del: upt_Suc)

lemma seqs_snoc: "seqs s (Suc n) = seqs s n @ [s + word_of_nat n]"
  by (simp add: seqs_def)

lemma unat_Suc_pred: "(w :: u16) \<noteq> 0 \<Longrightarrow> unat w = Suc (unat (w - 1))"
  using unat_minus_one [of w] by (simp add: unat_gt_0)

lemma unat_of_nat16: "a < 65536 \<Longrightarrow> unat (word_of_nat a :: u16) = a"
  by (simp add: unat_of_nat)

lemma word_of_nat_u16_eq_iff: "a < 65536 \<Longrightarrow> b < 65536 \<Longrightarrow> (word_of_nat a :: u16) = word_of_nat b \<longleftrightarrow> a = b"
  using unat_of_nat [where 'a = 16, of a] unat_of_nat [where 'a = 16, of b] by (metis (no_types) unat_of_nat16)

lemma u16_of_nat_eq_iff: "(word_of_nat a :: u16) = word_of_nat b \<longleftrightarrow> a mod 65536 = b mod 65536"
  by (simp only: word_unat_eq_iff unat_of_nat) simp

lemma in_seqs_iff: "n < 65536 \<Longrightarrow> i \<in> set (seqs s n) \<longleftrightarrow> unat (i - s) < n"
proof
  assume "n < 65536" "i \<in> set (seqs s n)"
  then obtain k where "k < n" "i = s + word_of_nat k" by (auto simp: seqs_def)
  then show "unat (i - s) < n" using \<open>n < 65536\<close> by (simp add: unat_of_nat)
next
  assume "unat (i - s) < n"
  moreover have "i = s + word_of_nat (unat (i - s))" by simp
  ultimately show "i \<in> set (seqs s n)" by (force simp: seqs_def)
qed

lemma distinct_seqs: "n \<le> 65536 \<Longrightarrow> distinct (seqs s n)"
  by (auto simp: seqs_def distinct_map inj_on_def word_of_nat_u16_eq_iff)

lemma range_excludes_start: "s \<notin> set (seqs (s + 1) n)" if "n < 65535"
  using distinct_seqs [of "Suc n" s] that by (simp add: seqs_Suc)

subsection \<open>Tables\<close>

text \<open>The table without a range.\<close>

definition without :: "(nat \<Rightarrow> 'v option) \<Rightarrow> u16 list \<Rightarrow> nat \<Rightarrow> 'v option" where
  "without L is k = (if k \<in> unat ` set is then None else L k)"

lemma without_Nil [simp]: "without L [] = L"
  by (rule ext) (simp add: without_def)

lemma without_Cons: "without L (i # is) = without (L(unat i := None)) is"
  by (rule ext) (simp add: without_def)

lemma without_other: "i \<notin> set is \<Longrightarrow> without L is (unat i) = L (unat i)"
  by (auto simp: without_def dest: word_unat_eq_iff [THEN iffD2])

lemma without_absent: "L (unat i) = None \<Longrightarrow> without L (i # is) = without L is"
  by (rule ext) (auto simp: without_def)

end
