(* ===== verification/FrameAssembly.thy ===== *)
theory FrameAssembly
  imports JitterBuffer SlicePayloaders SequenceNumbers
begin

text \<open>
  Correctness of the jitter buffer: what dropping a range removes, what filling a frame
  returns, and that the application is only ever told about complete frames.  All of it rests
  on the laws of the hash table (locale \<open>packet_table\<close>, the hash-table contract at packets).
\<close>

subsection \<open>Ranges of sequence numbers\<close>

text \<open>The range of sequence numbers the loops visit.\<close>

definition seq_range :: "u16 \<Rightarrow> u16 \<Rightarrow> u16 list" where
  "seq_range s e = seqs s (unat (e + 1 - s))"

lemma seq_range_empty: "UINT16_DEC s = e \<Longrightarrow> seq_range s e = []"
  by (auto simp: seq_range_def UINT16_DEC_def)

lemma seq_range_step:
  assumes "UINT16_DEC s \<noteq> e"
  shows "seq_range s e = s # seq_range (s + 1) e"
proof -
  have "e + 1 - s \<noteq> 0" using assms by (auto simp: UINT16_DEC_def)
  then have "unat (e + 1 - s) = Suc (unat (e + 1 - s - 1))" by (rule unat_Suc_pred)
  then show ?thesis by (simp add: seq_range_def seqs_Suc algebra_simps)
qed

lemma seq_range_DEC: "seq_range s (UINT16_DEC i) = seqs s (unat (i - s))"
  by (simp add: seq_range_def UINT16_DEC_def)

lemma seq_range_step_notin: "UINT16_DEC s \<noteq> e \<Longrightarrow> s \<notin> set (seq_range (s + 1) e)"
proof -
  assume "UINT16_DEC s \<noteq> e"
  then have "seqs s (unat (e + 1 - s)) = s # seq_range (s + 1) e" using seq_range_step by (simp add: seq_range_def)
  then show ?thesis
    using distinct_seqs [of "unat (e + 1 - s)" s] unat_u16_less [of "e + 1 - s"] by simp
qed

subsection \<open>Dropping and filling\<close>

text \<open>The packets of a range that are present.\<close>

definition present :: "('h \<Rightarrow> nat \<Rightarrow> RtpPacket option option) \<Rightarrow> 'h \<Rightarrow> u16 list \<Rightarrow> RtpPacket list" where
  "present lookup h is = concat (map (\<lambda>i. case lookup h (unat i) of Some (Some pkt) \<Rightarrow> [pkt] | _ \<Rightarrow> []) is)"

text \<open>A packet that the depayloader decodes to \<open>dec pkt\<close> whenever there is room for it.\<close>

definition decodes :: "depay_func \<Rightarrow> (RtpPacket \<Rightarrow> byte list) \<Rightarrow> RtpPacket \<Rightarrow> bool" where
  "decodes depay dec p \<longleftrightarrow>
     (\<forall>out k. length (dec p) \<le> k \<and> k \<le> length out \<longrightarrow>
       (\<exists>b. depay (payload p) (payloadLength p) (Some out) k =
          Some (STATUS_SUCCESS, Some (dec p @ drop (length (dec p)) out), length (dec p), b)))"

lemma decodesE:
  assumes "decodes depay dec p" "length (dec p) \<le> k" "k \<le> length out"
  obtains b where "depay (payload p) (payloadLength p) (Some out) k =
    Some (STATUS_SUCCESS, Some (dec p @ drop (length (dec p)) out), length (dec p), b)"
  using assms by (auto simp: decodes_def)

locale packet_table = hash_table H lookup table_ok
  for H :: "('h, RtpPacket) hash_ops" and lookup and table_ok
begin

lemma present_cong: "(\<And>i. i \<in> set is \<Longrightarrow> lookup h (unat i) = lookup h' (unat i)) \<Longrightarrow> present lookup h is = present lookup h' is"
  by (induction "is") (auto simp: present_def)

lemma range_induct [case_names empty step]:
  assumes "\<And>s. UINT16_DEC s = e \<Longrightarrow> Q s" "\<And>s. UINT16_DEC s \<noteq> e \<Longrightarrow> Q (s + 1) \<Longrightarrow> Q s"
  shows "Q s"
proof (induction "unat (e + 1 - s)" arbitrary: s rule: less_induct)
  case less
  then show ?case using assms range_measure [of s e] by (cases "UINT16_DEC s = e") simp_all
qed

lemma dropLoop_ok:
  "table_ok h \<Longrightarrow>
   \<exists>h'. dropLoop H h s e freed = (STATUS_SUCCESS, h', freed @ present lookup h (seq_range s e)) \<and>
     table_ok h' \<and> lookup h' = without (lookup h) (seq_range s e)"
proof (induction s arbitrary: h freed rule: range_induct [of e])
  case (empty s)
  then show ?case by (simp add: dropLoop.simps seq_range_empty present_def)
next
  case (step s)
  note ok = \<open>table_ok h\<close> and s = \<open>UINT16_DEC s \<noteq> e\<close>
  show ?case
  proof (cases "lookup h (unat s)")
    case None
    then have eq: "dropLoop H h s e freed = dropLoop H h (s + 1) e freed"
      using s by (subst dropLoop.simps) (simp add: contains_law ok)
    show ?thesis
      using step.IH [OF ok, of freed] None
      by (simp add: eq seq_range_step [OF s] without_absent) (simp add: present_def)
  next
    case (Some v)
    obtain h1 where h1: "hashTableRemove H h (unat s) = (STATUS_SUCCESS, h1)" "table_ok h1"
      "lookup h1 = (lookup h)(unat s := None)"
      using remove_law [OF ok, of "unat s"] Some by auto
    let ?f = "freed @ (case v of None \<Rightarrow> [] | Some pkt \<Rightarrow> [pkt])"
    have eq: "dropLoop H h s e freed = dropLoop H h1 (s + 1) e ?f"
      using s Some by (subst dropLoop.simps) (simp add: contains_law ok get_law h1 Let_def)
    have "present lookup h1 (seq_range (s + 1) e) = present lookup h (seq_range (s + 1) e)"
      using seq_range_step_notin [OF s] by (intro present_cong) (auto simp: h1(3) dest: word_unat_eq_iff [THEN iffD2])
    then have f: "?f @ present lookup h1 (seq_range (s + 1) e) = freed @ present lookup h (seq_range s e)"
      using Some by (simp add: seq_range_step [OF s] present_def split: option.splits)
    have "without (lookup h) (seq_range s e) = without (lookup h1) (seq_range (s + 1) e)"
      by (simp only: seq_range_step [OF s] without_Cons h1(3))
    then show ?thesis using step.IH [OF h1(2), of ?f] by (simp only: eq f)
  qed
qed

lemma jitterBufferDropBufferData_ok:
  assumes "table_ok (pPkgBufferHashTable jb)"
  shows "\<exists>jb'. jitterBufferDropBufferData H (Some jb) s e ts =
      (STATUS_SUCCESS, Some jb', present lookup (pPkgBufferHashTable jb) (seq_range s e)) \<and>
    table_ok (pPkgBufferHashTable jb') \<and>
    lookup (pPkgBufferHashTable jb') = without (lookup (pPkgBufferHashTable jb)) (seq_range s e) \<and>
    headSequenceNumber jb' = e + 1 \<and> headTimestamp jb' = ts \<and>
    tailSequenceNumber jb' = tailSequenceNumber jb \<and> tailTimestamp jb' = tailTimestamp jb \<and>
    depayPayloadFn jb' = depayPayloadFn jb \<and> customData jb' = customData jb \<and>
    onFrameReadyFn jb' = onFrameReadyFn jb \<and> onFrameDroppedFn jb' = onFrameDroppedFn jb \<and>
    maxLatency jb' = maxLatency jb \<and> clockRate jb' = clockRate jb \<and> started jb' = started jb \<and>
    firstFrameProcessed jb' = firstFrameProcessed jb \<and>
    timestampOverFlowState jb' = (timestampOverFlowState jb \<and> \<not> ts \<le> tailTimestamp jb) \<and>
    sequenceNumberOverflowState jb' = (sequenceNumberOverflowState jb \<and> \<not> e + 1 \<le> tailSequenceNumber jb)"
  using dropLoop_ok [OF assms, of s e "[]"]
  by (auto simp: jitterBufferDropBufferData_def Let_def exitTimestampOverflowCheck_def exitSequenceNumberOverflowCheck_def)

lemma fillLoop_ok:
  assumes "table_ok h" "map (\<lambda>i. lookup h (unat i)) (seq_range s e) = map (\<lambda>p. Some (Some p)) pkts"
    and "\<And>p. p \<in> set pkts \<Longrightarrow> decodes (depay) dec p"
    and "pos + remaining \<le> length frame" "total (map dec pkts) \<le> remaining" "remaining < 2 ^ 32"
  shows "fillLoop H depay h s e frame pos remaining =
    Some (STATUS_SUCCESS, patch frame pos (concat (map dec pkts)), remaining - total (map dec pkts))"
  using assms(2-)
proof (induction s arbitrary: pkts frame pos remaining rule: range_induct [of e])
  case (empty s)
  then show ?case by (simp add: fillLoop.simps seq_range_empty)
next
  case (step s)
  from step.prems(1) obtain p ps where pkts: "pkts = p # ps" and p: "lookup h (unat s) = Some (Some p)"
    and ps: "map (\<lambda>i. lookup h (unat i)) (seq_range (s + 1) e) = map (\<lambda>p. Some (Some p)) ps"
    by (cases pkts) (auto simp: seq_range_step [OF step.hyps])
  have len: "length (dec p) \<le> remaining" "total (map dec ps) \<le> remaining - length (dec p)"
    using step.prems(4) pkts by auto
  have "remaining \<le> length (drop pos frame)" using step.prems(3) by simp
  moreover have "decodes depay dec p" using step.prems(2) pkts by simp
  ultimately obtain b where
    d: "depay (payload p) (payloadLength p) (Some (drop pos frame)) remaining =
      Some (STATUS_SUCCESS, Some (dec p @ drop (length (dec p)) (drop pos frame)), length (dec p), b)"
    using len(1) by (elim decodesE)
  let ?f = "patch frame pos (dec p)"
  have eq: "fillLoop H depay h s e frame pos remaining =
      fillLoop H depay h (s + 1) e ?f (pos + length (dec p)) (remaining - length (dec p))"
    using step.hyps step.prems(5) len p
    by (subst fillLoop.simps) (simp add: assms(1) d patch_def add.commute)
  have "fillLoop H depay h (s + 1) e ?f (pos + length (dec p)) (remaining - length (dec p)) =
     Some (STATUS_SUCCESS, patch ?f (pos + length (dec p)) (concat (map dec ps)),
       remaining - length (dec p) - total (map dec ps))"
    using step.prems(2-) len pkts ps by (intro step.IH) auto
  also have "patch ?f (pos + length (dec p)) (concat (map dec ps)) = patch frame pos (concat (map dec pkts))"
    using step.prems(3,4) pkts by (simp add: patch_patch)
  finally show ?case using pkts by (simp add: eq)
qed

lemma fillFrame_ok:
  assumes "table_ok h" "map (\<lambda>i. lookup h (unat i)) (seq_range s e) = map (\<lambda>p. Some (Some p)) pkts"
    and "\<And>p. p \<in> set pkts \<Longrightarrow> decodes depay dec p"
    and "frameSize \<le> length frame" "total (map dec pkts) \<le> frameSize" "frameSize < 2 ^ 32"
  shows "fillFrame H depay h frame frameSize s e =
    Some (STATUS_SUCCESS, concat (map dec pkts) @ drop (total (map dec pkts)) frame, total (map dec pkts))"
  using fillLoop_ok [OF assms(1-3), where pos = 0 and remaining = frameSize and frame = frame] assms(4-)
  by (simp add: fillFrame_def patch_0)

end

subsection \<open>Complete frames\<close>

text \<open>
  \<open>frame_ready\<close> is what the ready callback may rely on: every packet of the range is in the
  table, they all carry one timestamp, and the announced size is the sum of what the
  depayloader reports for them.
\<close>

definition depays :: "depay_func \<Rightarrow> RtpPacket \<Rightarrow> nat \<Rightarrow> bool" where
  "depays depay p n \<longleftrightarrow> (\<exists>k d b. depay (payload p) (payloadLength p) None k = Some (STATUS_SUCCESS, d, n, b))"

definition frame_ready ::
  "(RtpPacket \<Rightarrow> bool) \<Rightarrow> ('h \<Rightarrow> nat \<Rightarrow> RtpPacket option option) \<Rightarrow> depay_func \<Rightarrow> 'h \<Rightarrow> u16 \<Rightarrow> u16 \<Rightarrow> nat \<Rightarrow> bool" where
  "frame_ready Q lookup depay h s e sz \<longleftrightarrow>
     (\<exists>pkts ns ts. pkts \<noteq> [] \<and> map (\<lambda>i. lookup h (unat i)) (seq_range s e) = map (\<lambda>p. Some (Some p)) pkts \<and>
        list_all2 (depays depay) pkts ns \<and> sz = wrap32 (sum_list ns) \<and> (\<forall>p \<in> set pkts. tsOf p = ts \<and> Q p) \<and> map seqOf pkts = seq_range s e)"

text \<open>The table is well-formed: no NULL entries, every packet under its own sequence number and acceptable (\<open>Q\<close>).\<close>

definition packets_ok :: "(RtpPacket \<Rightarrow> bool) \<Rightarrow> (nat \<Rightarrow> RtpPacket option option) \<Rightarrow> bool" where
  "packets_ok Q L \<longleftrightarrow> (\<forall>k. L k \<noteq> Some None) \<and> (\<forall>k p. L k = Some (Some p) \<longrightarrow> unat (seqOf p) = k \<and> Q p)"

lemma packets_ok_empty: "packets_ok Q (\<lambda>_. None)"
  by (simp add: packets_ok_def)

lemma packets_ok_without: "packets_ok Q L \<Longrightarrow> packets_ok Q (without L is)"
  by (simp add: packets_ok_def without_def)

lemma packets_ok_remove: "packets_ok Q L \<Longrightarrow> packets_ok Q (L(k := None))"
  by (simp add: packets_ok_def)

lemma packets_ok_store: "packets_ok Q L \<Longrightarrow> Q p \<Longrightarrow> packets_ok Q (L(unat (seqOf p) \<mapsto> Some p))"
  by (simp add: packets_ok_def)

text \<open>The entries scanned since \<open>startDropIndex\<close>.\<close>

definition scanned :: "(nat \<Rightarrow> RtpPacket option option) \<Rightarrow> depay_func \<Rightarrow> u16 list \<Rightarrow> nat \<Rightarrow> bool" where
  "scanned L depay is sz \<longleftrightarrow>
     (\<exists>pkts ns. map (\<lambda>i. L (unat i)) is = map (\<lambda>p. Some (Some p)) pkts \<and>
        list_all2 (depays depay) pkts ns \<and> sz = wrap32 (sum_list ns))"

lemma scanned_Nil: "scanned L depay [] 0"
  by (simp add: scanned_def wrap32_def)

lemma scanned_snoc:
  assumes "scanned L depay is sz" "L (unat i) = Some (Some p)" "depays depay p n"
  shows "scanned L depay (is @ [i]) (wrap32 (sz + n))"
proof -
  obtain pkts ns where "map (\<lambda>i. L (unat i)) is = map (\<lambda>p. Some (Some p)) pkts"
    "list_all2 (depays depay) pkts ns" "sz = wrap32 (sum_list ns)"
    using assms(1) by (auto simp: scanned_def)
  then show ?thesis
    using assms(2,3) unfolding scanned_def
    by (intro exI [of _ "pkts @ [p]"] exI [of _ "ns @ [n]"]) (simp add: wrap32_add list_all2_appendI)
qed

definition scan_core ::
  "(RtpPacket \<Rightarrow> bool) \<Rightarrow> ('h \<Rightarrow> nat \<Rightarrow> RtpPacket option option) \<Rightarrow> ('h \<Rightarrow> bool) \<Rightarrow> depay_func \<Rightarrow> u16 \<Rightarrow> u16 \<Rightarrow> ('h, 'w) ParseState \<Rightarrow> bool" where
  "scan_core Q lookup table_ok depay endIdx index ps \<longleftrightarrow>
     (let h = pPkgBufferHashTable (ps_jb ps); s = startDropIndex ps; n = unat (index - s) in
        table_ok h \<and> packets_ok Q (lookup h) \<and> depayPayloadFn (ps_jb ps) = depay \<and> n + unat (endIdx - index) < 65536 \<and>
        (\<forall>i \<in> set (seqs s n). \<forall>p. lookup h (unat i) = Some (Some p) \<longrightarrow> tsOf p = headTimestamp (ps_jb ps)) \<and>
        (isFrameDataContinuous ps \<longrightarrow> scanned (lookup h) depay (seqs s n) (curFrameSize ps)))"

definition scan_inv ::
  "(RtpPacket \<Rightarrow> bool) \<Rightarrow> ('h \<Rightarrow> nat \<Rightarrow> RtpPacket option option) \<Rightarrow> ('h \<Rightarrow> bool) \<Rightarrow> depay_func \<Rightarrow> u16 \<Rightarrow> u16 \<Rightarrow> ('h, 'w) ParseState \<Rightarrow> bool" where
  "scan_inv Q lookup table_ok depay endIdx index ps \<longleftrightarrow>
     scan_core Q lookup table_ok depay endIdx index ps \<and>
     (containStartForEarliestFrame ps \<longrightarrow> index \<noteq> startDropIndex ps) \<and>
     (curFrameSize ps > 0 \<longrightarrow>
        lastNonNullIndex ps \<in> set (seqs (startDropIndex ps) (unat (index - startDropIndex ps))) \<and>
        lookup (pPkgBufferHashTable (ps_jb ps)) (unat (lastNonNullIndex ps)) \<noteq> None)"

text \<open>One more index: the bound keeps the scan from running around the sequence-number circle.\<close>

lemma scan_bound:
  assumes "unat (index - s) + unat (endIdx - index) < 65536" "(index :: u16) \<noteq> endIdx"
  shows "unat (index + 1 - s) = Suc (unat (index - s))"
    and "unat (index + 1 - s) + unat (endIdx - (index + 1)) < 65536"
    and "seqs s (unat (index + 1 - s)) = seqs s (unat (index - s)) @ [index]"
    and "index \<notin> set (seqs s (unat (index - s)))"
proof -
  have e: "unat (endIdx - index) = Suc (unat (endIdx - (index + 1)))"
    using unat_Suc_pred [of "endIdx - index"] assms(2) by (simp add: diff_diff_eq)
  have "unat (index - s) + 1 < 65536" using assms(1) e by simp
  then have "unat ((index - s) + 1) = unat (index - s) + 1"
    by (simp add: unat_word_ariths(1))
  then show a: "unat (index + 1 - s) = Suc (unat (index - s))" by (simp add: algebra_simps)
  then show "unat (index + 1 - s) + unat (endIdx - (index + 1)) < 65536" using assms(1) e by simp
  show "seqs s (unat (index + 1 - s)) = seqs s (unat (index - s)) @ [index]"
    by (simp add: a seqs_snoc)
  show "index \<notin> set (seqs s (unat (index - s)))"
    using unat_u16_less [of "index - s"] by (simp add: in_seqs_iff)
qed

lemma scan_core_missing:
  assumes "scan_core Q lookup table_ok depay endIdx index ps" "index \<noteq> endIdx"
    and "lookup (pPkgBufferHashTable (ps_jb ps)) (unat index) = None"
  shows "scan_core Q lookup table_ok depay endIdx (index + 1) (ps\<lparr>isFrameDataContinuous := False\<rparr>)"
  using assms scan_bound [of index "startDropIndex ps" endIdx]
  by (auto simp: scan_core_def Let_def)

lemma scan_core_count:
  assumes "scan_core Q lookup table_ok depay endIdx index ps" "index \<noteq> endIdx"
    and "lookup (pPkgBufferHashTable (ps_jb ps)) (unat index) = Some (Some pkt)" "tsOf pkt = headTimestamp (ps_jb ps)"
    and "depays depay pkt sz"
    and "ps_jb ps' = ps_jb ps" "startDropIndex ps' = startDropIndex ps" "isFrameDataContinuous ps' = isFrameDataContinuous ps"
      "curFrameSize ps' = wrap32 (curFrameSize ps + sz)"
  shows "scan_core Q lookup table_ok depay endIdx (index + 1) ps'"
  using assms scan_bound [of index "startDropIndex ps" endIdx]
    scanned_snoc [of "lookup (pPkgBufferHashTable (ps_jb ps))" depay _ "curFrameSize ps" index pkt sz]
  by (auto simp: scan_core_def Let_def)

lemma scan_core_restart:
  assumes "table_ok h" "packets_ok Q (lookup h)" "unat (endIdx - index) < 65536"
    and "pPkgBufferHashTable (ps_jb ps) = h" "depayPayloadFn (ps_jb ps) = depay" "startDropIndex ps = index" "curFrameSize ps = 0"
  shows "scan_core Q lookup table_ok depay endIdx index ps"
  using assms by (simp add: scan_core_def scanned_Nil)

context packet_table
begin

lemma storePacket_in_table:
  assumes "table_ok (pPkgBufferHashTable jb)" "packets_ok Q (lookup (pPkgBufferHashTable jb))" "Q pkt"
  shows "\<exists>h freed. storePacket H jb pkt = (STATUS_SUCCESS, jb\<lparr>pPkgBufferHashTable := h\<rparr>, freed) \<and> table_ok h \<and>
    lookup h = (lookup (pPkgBufferHashTable jb))(unat (seqOf pkt) \<mapsto> Some pkt) \<and> packets_ok Q (lookup h)"
proof -
  let ?h = "pPkgBufferHashTable jb" and ?k = "unat (seqOf pkt)"
  note h = assms(1,2)
  show ?thesis
  proof (cases "lookup ?h ?k")
    case None
    obtain h' where h': "hashTablePut H ?h ?k (Some pkt) = (STATUS_SUCCESS, h')" "table_ok h'"
      "lookup h' = (lookup ?h)(?k \<mapsto> Some pkt)"
      using put_law [OF h(1) None] by blast
    have eq: "storePacket H jb pkt = (STATUS_SUCCESS, jb\<lparr>pPkgBufferHashTable := h'\<rparr>, [])"
      using None h h' by (simp add: storePacket_def Let_def)
    show ?thesis
      unfolding eq using h' packets_ok_store [OF h(2) assms(3)] by (intro exI [of _ h'] exI [of _ "[]"]) simp
  next
    case (Some v)
    then obtain old where old: "lookup ?h ?k = Some (Some old)"
      using h(2) by (cases v) (auto simp: packets_ok_def)
    obtain h1 where h1: "hashTableRemove H ?h ?k = (STATUS_SUCCESS, h1)" "table_ok h1" "lookup h1 = (lookup ?h)(?k := None)"
      using remove_law [OF h(1), of ?k] Some by auto
    obtain h' where h': "hashTablePut H h1 ?k (Some pkt) = (STATUS_SUCCESS, h')" "table_ok h'"
      "lookup h' = (lookup h1)(?k \<mapsto> Some pkt)"
      using put_law [OF h1(2), of ?k "Some pkt"] h1(3) by auto
    have "lookup h' = (lookup ?h)(?k \<mapsto> Some pkt)" by (simp add: h'(3) h1(3))
    moreover have eq: "storePacket H jb pkt = (STATUS_SUCCESS, jb\<lparr>pPkgBufferHashTable := h'\<rparr>, [old])"
      using old h h1 h' by (simp add: storePacket_def Let_def)
    ultimately show ?thesis
      unfolding eq using h'(2) packets_ok_store [OF h(2) assms(3)] by (intro exI [of _ h'] exI [of _ "[old]"]) simp
  qed
qed

end

text \<open>
  What the application's callbacks have to provide: an invariant \<open>W\<close> of the application's
  state that the ready callback keeps \<open>when the frame is complete\<close> and the dropped callback
  keeps always.
\<close>

locale frame_client = packet_table H lookup table_ok
  for H :: "('h, RtpPacket) hash_ops" and lookup and table_ok +
  fixes Q :: "RtpPacket \<Rightarrow> bool"
    and depay :: depay_func
    and ready dropped :: "('h, 'w) frame_fn"
    and W :: "'w \<Rightarrow> bool"
  assumes ready_keeps: "W w \<Longrightarrow> table_ok h \<Longrightarrow> frame_ready Q lookup depay h s e sz \<Longrightarrow>
      \<exists>st w'. ready cd h w s e sz = Some (st, w') \<and> W w'"
    and dropped_keeps: "W w \<Longrightarrow> table_ok h \<Longrightarrow> \<exists>st w'. dropped cd h w s e ts = Some (st, w') \<and> W w'"
    and depay_total: "Q p \<Longrightarrow> \<exists>r. depay (payload p) (payloadLength p) None k = Some r"
begin

definition parse_ok :: "('h, 'w) ParseState \<Rightarrow> bool" where
  "parse_ok ps \<longleftrightarrow> table_ok (pPkgBufferHashTable (ps_jb ps)) \<and> packets_ok Q (lookup (pPkgBufferHashTable (ps_jb ps))) \<and>
     depayPayloadFn (ps_jb ps) = depay \<and> onFrameReadyFn (ps_jb ps) = Some ready \<and> onFrameDroppedFn (ps_jb ps) = Some dropped \<and>
     W (ps_w ps)"

lemma dropRange_ok:
  assumes "parse_ok ps"
  shows "\<exists>ps'. dropRange H s e ts ps = Inr ps' \<and> parse_ok ps' \<and>
    lookup (pPkgBufferHashTable (ps_jb ps')) = without (lookup (pPkgBufferHashTable (ps_jb ps))) (seq_range s e) \<and>
    headTimestamp (ps_jb ps') = ts \<and> isFrameDataContinuous ps' = isFrameDataContinuous ps \<and>
    ps_ret ps' = ps_ret ps \<and> lastNonNullIndex ps' = lastNonNullIndex ps"
  using jitterBufferDropBufferData_ok [of "ps_jb ps" s e ts] assms
  by (auto simp: dropRange_def Let_def parse_ok_def packets_ok_without)

text \<open>The previous frame is delivered only when it is complete.\<close>

lemma frame_readyI:
  assumes "packets_ok Q (lookup h)" "scanned (lookup h) depay (seq_range s e) sz" "seq_range s e \<noteq> []"
    and "\<And>i p. i \<in> set (seq_range s e) \<Longrightarrow> lookup h (unat i) = Some (Some p) \<Longrightarrow> tsOf p = ts"
  shows "frame_ready Q lookup depay h s e sz"
proof -
  obtain pkts ns where m: "map (\<lambda>i. lookup h (unat i)) (seq_range s e) = map (\<lambda>p. Some (Some p)) pkts"
    and ns: "list_all2 (depays depay) pkts ns" "sz = wrap32 (sum_list ns)"
    using assms(2) by (auto simp: scanned_def)
  have "tsOf p = ts \<and> Q p" if p: "p \<in> set pkts" for p
  proof -
    have "Some (Some p) \<in> set (map (\<lambda>i. lookup h (unat i)) (seq_range s e))" using p by (subst m) simp
    then show ?thesis using assms(1,4) by (auto simp: packets_ok_def)
  qed
  moreover have "map seqOf pkts = seq_range s e"
  proof (rule nth_equalityI)
    show len: "length (map seqOf pkts) = length (seq_range s e)" using arg_cong [OF m, of length] by simp
    fix j assume "j < length (map seqOf pkts)"
    then have "lookup h (unat (seq_range s e ! j)) = Some (Some (pkts ! j))"
      using arg_cong [OF m, of "\<lambda>xs. xs ! j"] len by simp
    then show "map seqOf pkts ! j = seq_range s e ! j"
      using assms(1) \<open>j < length (map seqOf pkts)\<close> by (simp add: packets_ok_def word_unat_eq_iff)
  qed
  moreover have "pkts \<noteq> []" using arg_cong [OF m, of length] assms(3) by auto
  ultimately show ?thesis using m ns unfolding frame_ready_def by blast
qed

lemma scan_frame_ready:
  assumes "scan_core Q lookup table_ok depay endIdx index ps" "isFrameDataContinuous ps" "index \<noteq> startDropIndex ps"
  shows "frame_ready Q lookup depay (pPkgBufferHashTable (ps_jb ps)) (startDropIndex ps) (UINT16_DEC index) (curFrameSize ps)"
proof (rule frame_readyI)
  show "packets_ok Q (lookup (pPkgBufferHashTable (ps_jb ps)))" using assms(1) by (simp add: scan_core_def Let_def)
  show "seq_range (startDropIndex ps) (UINT16_DEC index) \<noteq> []"
    using assms(3) by (simp add: seq_range_DEC unat_eq_0 flip: length_0_conv)
qed (use assms in \<open>auto simp: scan_core_def Let_def seq_range_DEC\<close>)

lemma newFrame_ok:
  assumes "parse_ok ps" "scan_inv Q lookup table_ok depay endIdx index ps0" "ps = ps0\<lparr>lastNonNullIndex := index, ps_ret := r\<rparr>"
    and "index \<noteq> endIdx" "lookup (pPkgBufferHashTable (ps_jb ps)) (unat index) = Some (Some pkt)"
  shows "\<exists>b. newFrame H ready dropped earliest closed index (tsOf pkt) ps = Some b \<and>
    (case b of
       Inl (st, ps') \<Rightarrow> parse_ok ps'
     | Inr (True, ps') \<Rightarrow> ps' = ps \<and> \<not> closed
     | Inr (False, ps') \<Rightarrow> parse_ok ps' \<and> scan_core Q lookup table_ok depay endIdx index ps' \<and>
         headTimestamp (ps_jb ps') = tsOf pkt \<and> lookup (pPkgBufferHashTable (ps_jb ps')) (unat index) = Some (Some pkt) \<and>
         lastNonNullIndex ps' = index)"
proof -
  let ?s = "startDropIndex ps" and ?h = "pPkgBufferHashTable (ps_jb ps)"
  have core: "scan_core Q lookup table_ok depay endIdx index ps"
    using assms(2,3) by (simp add: scan_inv_def scan_core_def)
  have notin: "index \<notin> set (seqs ?s (unat (index - ?s)))"
    using scan_bound(4) [of index ?s endIdx] core assms(4) by (simp add: scan_core_def Let_def)
  have bound: "unat (endIdx - index) < 65536" by (rule unat_u16_less)
  have restart: "parse_ok ps2 \<and> scan_core Q lookup table_ok depay endIdx index ps2 \<and> headTimestamp (ps_jb ps2) = tsOf pkt \<and>
      lookup (pPkgBufferHashTable (ps_jb ps2)) (unat index) = Some (Some pkt) \<and> lastNonNullIndex ps2 = index"
    if "parse_ok ps1" "lookup (pPkgBufferHashTable (ps_jb ps1)) = without (lookup ?h) (seq_range ?s (UINT16_DEC index))"
      "headTimestamp (ps_jb ps1) = tsOf pkt" "lastNonNullIndex ps1 = index"
      "ps_jb ps2 = (ps_jb ps1)\<lparr>firstFrameProcessed := True\<rparr>" "ps_w ps2 = ps_w ps1" "startDropIndex ps2 = index"
      "curFrameSize ps2 = 0" "lastNonNullIndex ps2 = lastNonNullIndex ps1" for ps1 ps2
  proof (intro conjI)
    show "scan_core Q lookup table_ok depay endIdx index ps2"
      by (rule scan_core_restart [OF _ _ bound refl]) (use that in \<open>simp_all add: parse_ok_def\<close>)
    show "lookup (pPkgBufferHashTable (ps_jb ps2)) (unat index) = Some (Some pkt)"
      using that assms(5) notin by (simp add: seq_range_DEC without_other)
  qed (use that in \<open>simp_all add: parse_ok_def\<close>)
  show ?thesis
  proof (cases "containStartForEarliestFrame ps \<and> isFrameDataContinuous ps")
    case True
    then have "index \<noteq> ?s" using assms(2,3) by (simp add: scan_inv_def)
    then have "frame_ready Q lookup depay ?h ?s (UINT16_DEC index) (curFrameSize ps)"
      using scan_frame_ready core True by blast
    then obtain st w where w: "ready (customData (ps_jb ps)) ?h (ps_w ps) ?s (UINT16_DEC index) (curFrameSize ps) = Some (st, w)" "W w"
      using ready_keeps [of "ps_w ps" ?h] assms(1) by (force simp: parse_ok_def)
    have ok: "parse_ok (ps\<lparr>ps_w := w\<rparr>)" using assms(1) w(2) by (simp add: parse_ok_def)
    obtain ps1 where ps1: "dropRange H ?s (UINT16_DEC index) (tsOf pkt) (ps\<lparr>ps_w := w\<rparr>) = Inr ps1" "parse_ok ps1"
      "lookup (pPkgBufferHashTable (ps_jb ps1)) = without (lookup ?h) (seq_range ?s (UINT16_DEC index))"
      "headTimestamp (ps_jb ps1) = tsOf pkt" "lastNonNullIndex ps1 = index"
      using dropRange_ok [OF ok, of ?s "UINT16_DEC index" "tsOf pkt"] assms(3) by auto
    let ?ps2 = "ps1\<lparr>ps_jb := (ps_jb ps1)\<lparr>firstFrameProcessed := True\<rparr>, startDropIndex := index,
      containStartForEarliestFrame := False, curFrameSize := 0\<rparr>"
    have "newFrame H ready dropped earliest closed index (tsOf pkt) ps =
        Some (if STATUS_FAILED st then Inl (st, ps\<lparr>ps_w := w\<rparr>) else Inr (False, ?ps2))"
      using True by (simp add: newFrame_def Let_def w(1) ps1(1))
    then show ?thesis using ok restart [OF ps1(2-5), of ?ps2] by simp
  next
    case False
    show ?thesis
    proof (cases "unat (headTimestamp (ps_jb ps)) < earliest \<or> closed")
      case True
      obtain st w where w: "dropped (customData (ps_jb ps)) ?h (ps_w ps) ?s (UINT16_DEC index) (unat (headTimestamp (ps_jb ps))) = Some (st, w)" "W w"
        using dropped_keeps [of "ps_w ps" ?h] assms(1) by (force simp: parse_ok_def)
      have ok: "parse_ok (ps\<lparr>ps_w := w\<rparr>)" using assms(1) w(2) by (simp add: parse_ok_def)
      obtain ps1 where ps1: "dropRange H ?s (UINT16_DEC index) (tsOf pkt) (ps\<lparr>ps_w := w\<rparr>) = Inr ps1" "parse_ok ps1"
        "lookup (pPkgBufferHashTable (ps_jb ps1)) = without (lookup ?h) (seq_range ?s (UINT16_DEC index))"
        "headTimestamp (ps_jb ps1) = tsOf pkt" "lastNonNullIndex ps1 = index"
        using dropRange_ok [OF ok, of ?s "UINT16_DEC index" "tsOf pkt"] assms(3) by auto
      let ?ps2 = "ps1\<lparr>ps_jb := (ps_jb ps1)\<lparr>firstFrameProcessed := True\<rparr>, isFrameDataContinuous := True,
        startDropIndex := index, curFrameSize := 0\<rparr>"
      have "newFrame H ready dropped earliest closed index (tsOf pkt) ps = Some (Inr (False, ?ps2))"
        unfolding newFrame_def Let_def if_not_P [OF False] if_P [OF True] by (simp add: w(1) ps1(1))
      then show ?thesis using restart [OF ps1(2-5), of ?ps2] by simp
    next
      case F: False
      show ?thesis unfolding newFrame_def Let_def if_not_P [OF False] if_not_P [OF F] using F by simp
    qed
  qed
qed

lemma countPacket_ok:
  assumes "parse_ok ps" "scan_core Q lookup table_ok depay endIdx index ps" "index \<noteq> endIdx"
    and "lookup (pPkgBufferHashTable (ps_jb ps)) (unat index) = Some (Some pkt)" "headTimestamp (ps_jb ps) = tsOf pkt"
    and "lastNonNullIndex ps = index"
  shows "\<exists>c. countPacket pkt ps = Some c \<and>
    (case c of
       Inl (st, ps') \<Rightarrow> parse_ok ps'
     | Inr ps' \<Rightarrow> parse_ok ps' \<and> scan_inv Q lookup table_ok depay endIdx (index + 1) ps')"
proof -
  let ?s = "startDropIndex ps"
  have depay: "depayPayloadFn (ps_jb ps) = depay" using assms(1) by (simp add: parse_ok_def)
  obtain st d sz b where d: "depay (payload pkt) (payloadLength pkt) None (partialFrameSize ps) = Some (st, d, sz, b)"
    using depay_total [of pkt "partialFrameSize ps"] assms(1,4) by (auto simp: parse_ok_def packets_ok_def)
  note bound = scan_bound [of index ?s endIdx]
  have lim: "unat (index - ?s) + unat (endIdx - index) < 65536" using assms(2) by (simp add: scan_core_def Let_def)
  have ne: "index + 1 \<noteq> ?s" using bound(1) [OF lim assms(3)] by auto
  show ?thesis
  proof (cases "STATUS_FAILED st")
    case True
    then show ?thesis using assms(1) d by (simp add: countPacket_def depay parse_ok_def)
  next
    case False
    then have "depays depay pkt sz" using d by (auto simp: depays_def)
    note count = scan_core_count [OF assms(2-4) assms(5) [symmetric] this]
    define ps' where "ps' = (if b then ps\<lparr>partialFrameSize := sz, curFrameSize := wrap32 (curFrameSize ps + sz),
        containStartForEarliestFrame := True\<rparr> else ps\<lparr>partialFrameSize := sz, curFrameSize := wrap32 (curFrameSize ps + sz)\<rparr>)"
    have ps': "ps_jb ps' = ps_jb ps" "startDropIndex ps' = startDropIndex ps" "ps_w ps' = ps_w ps" "lastNonNullIndex ps' = index"
      "isFrameDataContinuous ps' = isFrameDataContinuous ps" "curFrameSize ps' = wrap32 (curFrameSize ps + sz)"
      by (simp_all add: ps'_def assms(6))
    have "scan_core Q lookup table_ok depay endIdx (index + 1) ps'" by (rule count) (simp_all add: ps')
    then have "scan_inv Q lookup table_ok depay endIdx (index + 1) ps'" "parse_ok ps'"
      using assms(1,4) bound(3) [OF lim assms(3)] ne by (simp_all add: scan_inv_def parse_ok_def ps')
    moreover have "countPacket pkt ps = Some (Inr ps')"
      using False assms(5) by (simp add: countPacket_def depay d Let_def ps'_def)
    ultimately show ?thesis by simp
  qed
qed

definition loop_post :: "u16 \<Rightarrow> bool \<Rightarrow> ((STATUS \<times> ('h, 'w) ParseState) + ('h, 'w) ParseState) \<Rightarrow> bool" where
  "loop_post endIdx closed r \<longleftrightarrow>
     (case r of
        Inl (st, ps) \<Rightarrow> parse_ok ps
      | Inr ps \<Rightarrow> parse_ok ps \<and> (closed \<longrightarrow> scan_inv Q lookup table_ok depay endIdx endIdx ps))"

lemma scan_inv_missing:
  assumes "scan_inv Q lookup table_ok depay endIdx index ps" "index \<noteq> endIdx"
    and "lookup (pPkgBufferHashTable (ps_jb ps)) (unat index) = None"
  shows "scan_inv Q lookup table_ok depay endIdx (index + 1) (ps\<lparr>isFrameDataContinuous := False\<rparr>)"
proof -
  have "unat (index - startDropIndex ps) + unat (endIdx - index) < 65536"
    using assms(1) by (simp add: scan_inv_def scan_core_def Let_def)
  note bound = scan_bound [OF this assms(2)]
  have "index + 1 \<noteq> startDropIndex ps" using bound(1) by auto
  moreover have "scan_core Q lookup table_ok depay endIdx index ps" using assms(1) by (simp add: scan_inv_def)
  then have "scan_core Q lookup table_ok depay endIdx (index + 1) (ps\<lparr>isFrameDataContinuous := False\<rparr>)"
    by (rule scan_core_missing [where lookup = lookup, OF _ assms(2,3)])
  ultimately show ?thesis using assms(1) bound(3) by (simp add: scan_inv_def)
qed

lemma scan_inv_eq_core:
  "scan_inv Q lookup table_ok depay endIdx index ps \<Longrightarrow> scan_core Q lookup table_ok depay endIdx index (ps\<lparr>lastNonNullIndex := i, ps_ret := r\<rparr>)"
  by (simp add: scan_inv_def scan_core_def)

text \<open>One present packet: boundary handling, then counting.\<close>

lemma parse_packet_ok:
  assumes ok: "parse_ok ps" and inv: "scan_inv Q lookup table_ok depay endIdx index ps" and i: "index \<noteq> endIdx"
    and pkt: "lookup (pPkgBufferHashTable (ps_jb ps)) (unat index) = Some (Some pkt)"
    and ps2: "ps2 = ps\<lparr>lastNonNullIndex := index, ps_ret := STATUS_SUCCESS\<rparr>"
    and IH: "\<And>ps4. parse_ok ps4 \<Longrightarrow> scan_inv Q lookup table_ok depay endIdx (index + 1) ps4 \<Longrightarrow>
      \<exists>r. parseLoop H ready dropped earliest closed endIdx (index + 1) ps4 = Some r \<and> loop_post endIdx closed r"
  shows "\<exists>r. Option.bind
        (if tsOf pkt \<noteq> headTimestamp (ps_jb ps2) then newFrame H ready dropped earliest closed index (tsOf pkt) ps2
         else Some (Inr (False, ps2)))
        (\<lambda>b. case b of Inl r \<Rightarrow> Some (Inl r) | Inr (True, ps3) \<Rightarrow> Some (Inr ps3)
           | Inr (False, ps3) \<Rightarrow> Option.bind (countPacket pkt ps3)
               (\<lambda>c. case c of Inl r \<Rightarrow> Some (Inl r)
                  | Inr ps4 \<Rightarrow> parseLoop H ready dropped earliest closed endIdx (index + 1) ps4)) = Some r \<and>
      loop_post endIdx closed r"
proof -
  have ok2: "parse_ok ps2" and pkt2: "lookup (pPkgBufferHashTable (ps_jb ps2)) (unat index) = Some (Some pkt)"
    using ok pkt by (simp_all add: ps2 parse_ok_def)
  have count: "\<exists>r. Option.bind (countPacket pkt ps3) (\<lambda>c. case c of Inl r \<Rightarrow> Some (Inl r)
      | Inr ps4 \<Rightarrow> parseLoop H ready dropped earliest closed endIdx (index + 1) ps4) = Some r \<and> loop_post endIdx closed r"
    if a: "parse_ok ps3" "scan_core Q lookup table_ok depay endIdx index ps3" "headTimestamp (ps_jb ps3) = tsOf pkt"
      "lookup (pPkgBufferHashTable (ps_jb ps3)) (unat index) = Some (Some pkt)" "lastNonNullIndex ps3 = index" for ps3
  proof -
    obtain c where c: "countPacket pkt ps3 = Some c" "case c of Inl (st, ps') \<Rightarrow> parse_ok ps'
       | Inr ps' \<Rightarrow> parse_ok ps' \<and> scan_inv Q lookup table_ok depay endIdx (index + 1) ps'"
      using countPacket_ok [OF a(1,2) i a(4,3,5)] by blast
    then show ?thesis
      by (cases c) (use IH in \<open>auto simp: loop_post_def split: prod.splits\<close>)
  qed
  show ?thesis
  proof (cases "tsOf pkt = headTimestamp (ps_jb ps2)")
    case True
    then show ?thesis
      using count [OF ok2 _ _ pkt2] scan_inv_eq_core [OF inv] by (simp add: ps2)
  next
    case False
    obtain b where b: "newFrame H ready dropped earliest closed index (tsOf pkt) ps2 = Some b"
      "case b of
         Inl (st, ps') \<Rightarrow> parse_ok ps'
       | Inr (True, ps') \<Rightarrow> ps' = ps2 \<and> \<not> closed
       | Inr (False, ps') \<Rightarrow> parse_ok ps' \<and> scan_core Q lookup table_ok depay endIdx index ps' \<and>
           headTimestamp (ps_jb ps') = tsOf pkt \<and> lookup (pPkgBufferHashTable (ps_jb ps')) (unat index) = Some (Some pkt) \<and>
           lastNonNullIndex ps' = index"
      using newFrame_ok [OF ok2 inv ps2 i pkt2] by blast
    show ?thesis
    proof (cases b)
      case (Inl r)
      then show ?thesis using b False by (auto simp: loop_post_def split: prod.splits)
    next
      case (Inr q)
      obtain brk ps3 where q: "q = (brk, ps3)" by force
      show ?thesis
      proof (cases brk)
        case True
        then show ?thesis using b False Inr q ok2 by (simp add: loop_post_def)
      next
        case F: False
        then show ?thesis using b False Inr q count [of ps3] by simp
      qed
    qed
  qed
qed

lemma parseLoop_ok:
  "parse_ok ps \<Longrightarrow> scan_inv Q lookup table_ok depay endIdx index ps \<Longrightarrow>
   \<exists>r. parseLoop H ready dropped earliest closed endIdx index ps = Some r \<and> loop_post endIdx closed r"
proof (induction "unat (endIdx - index)" arbitrary: index ps rule: less_induct)
  case less
  let ?h = "pPkgBufferHashTable (ps_jb ps)"
  note ok = less.prems(1) and inv = less.prems(2)
  have tok: "table_ok ?h" using ok by (simp add: parse_ok_def)
  show ?case
  proof (cases "index = endIdx")
    case True
    then show ?thesis using ok inv by (simp add: parseLoop.simps loop_post_def)
  next
    case False
    have dec: "unat (endIdx - (index + 1)) < unat (endIdx - index)"
      using unat_Suc_pred [of "endIdx - index"] False by (simp add: diff_diff_eq)
    note IH = less.hyps [OF dec]
    show ?thesis
    proof (cases "lookup ?h (unat index)")
      case None
      let ?ps1 = "ps\<lparr>isFrameDataContinuous := False\<rparr>"
      have ok1: "parse_ok ?ps1" using ok by (simp add: parse_ok_def)
      then obtain r where "parseLoop H ready dropped earliest closed endIdx (index + 1) ?ps1 = Some r" "loop_post endIdx closed r"
        using IH scan_inv_missing [OF inv False None] by blast
      then show ?thesis
        using ok1 None False tok by (subst parseLoop.simps) (simp add: contains_law Let_def, simp add: loop_post_def)
    next
      case (Some v)
      then obtain pkt where pkt: "lookup ?h (unat index) = Some (Some pkt)"
        using ok by (cases v) (auto simp: parse_ok_def packets_ok_def)
      show ?thesis
        using parse_packet_ok [OF ok inv False pkt refl IH] pkt False tok
        by (subst parseLoop.simps) (simp add: contains_law get_law Let_def)
    qed
  qed
qed

text \<open>Closing the buffer: the last frame is reported ready only when nothing is missing up to its last packet.\<close>

lemma closeLoop_ok:
  assumes "table_ok h" "packets_ok Q (lookup h)" "lookup h (unat ln) \<noteq> None"
    and "unat (i - s) + unat (ln + 1 - i) < 65536" "scanned (lookup h) depay (seqs s (unat (i - s))) sz"
  shows "\<exists>r. closeLoop H depay h ln i True sz k = Some r \<and>
    (case r of Inl st \<Rightarrow> True
     | Inr (i', sz') \<Rightarrow> UINT16_DEC i' = ln \<longrightarrow> scanned (lookup h) depay (seq_range s ln) sz')"
  using assms(4,5)
proof (induction i arbitrary: sz k rule: range_induct [of ln])
  case (empty i)
  then show ?case by (simp add: closeLoop.simps seq_range_def UINT16_DEC_def) (metis add.commute diff_add_cancel)
next
  case (step i)
  have ne: "i \<noteq> ln + 1" using step.hyps by (auto simp: UINT16_DEC_def)
  note bound = scan_bound [OF step.prems(1) ne]
  show ?case
  proof (cases "lookup h (unat i)")
    case None
    then have "UINT16_DEC (i + 1) \<noteq> ln" using assms(3) by (auto simp: UINT16_DEC_def)
    then show ?thesis using None step.hyps by (subst closeLoop.simps) (simp add: contains_law assms(1))
  next
    case (Some v)
    then obtain p where p: "lookup h (unat i) = Some (Some p)"
      using assms(2) by (cases v) (auto simp: packets_ok_def)
    obtain st d n b where d: "depay (payload p) (payloadLength p) None k = Some (st, d, n, b)"
      using depay_total [of p k] p assms(2) by (auto simp: packets_ok_def)
    show ?thesis
    proof (cases "STATUS_FAILED st")
      case True
      then show ?thesis
        using p step.hyps d by (subst closeLoop.simps) (simp add: contains_law get_law assms(1))
    next
      case False
      then have "depays depay p n" using d by (auto simp: depays_def)
      then have "scanned (lookup h) depay (seqs s (unat (i + 1 - s))) (wrap32 (sz + n))"
        using scanned_snoc [OF step.prems(2) p] bound(3) by simp
      from step.IH [OF bound(2) this, of n] show ?thesis
        using p step.hyps d False by (subst closeLoop.simps) (simp add: contains_law get_law assms(1))
    qed
  qed
qed

lemma closeFrame_ok:
  assumes "parse_ok ps" "scan_inv Q lookup table_ok depay endIdx endIdx ps" "curFrameSize ps > 0"
  shows "\<exists>st ps'. closeFrame H ready dropped ps = Some (st, ps') \<and> parse_ok ps'"
proof -
  let ?jb = "ps_jb ps" and ?s = "startDropIndex ps" and ?ln = "lastNonNullIndex ps"
  let ?h = "pPkgBufferHashTable ?jb"
  have h: "table_ok ?h" "packets_ok Q (lookup ?h)" "depayPayloadFn ?jb = depay" using assms(1) by (auto simp: parse_ok_def)
  have ln: "unat (?ln - ?s) < unat (endIdx - ?s)" "lookup ?h (unat ?ln) \<noteq> None"
    using assms(2,3) unat_u16_less [of "endIdx - ?s"] by (auto simp: scan_inv_def in_seqs_iff)
  have suc: "unat (?ln + 1 - ?s) = Suc (unat (?ln - ?s))"
  proof -
    have "unat (?ln - ?s + 1) = unat (?ln - ?s) + 1"
      using ln(1) unat_u16_less [of "endIdx - ?s"] by (simp add: unat_word_ariths(1))
    then show ?thesis by (simp add: algebra_simps)
  qed
  obtain r where r: "closeLoop H depay ?h ?ln ?s True 0 (partialFrameSize ps) = Some r"
    "case r of Inl st \<Rightarrow> True | Inr (i', sz') \<Rightarrow> UINT16_DEC i' = ?ln \<longrightarrow> scanned (lookup ?h) depay (seq_range ?s ?ln) sz'"
    using closeLoop_ok [OF h(1,2) ln(2), of ?s ?s 0 "partialFrameSize ps"] unat_u16_less [of "?ln + 1 - ?s"]
    by (auto simp: scanned_Nil)
  have drop: "\<exists>st ps'. (case dropRange H ?s ?ln ts ps1 of Inl r \<Rightarrow> Some r | Inr ps2 \<Rightarrow> Some (ps_ret ps2, ps2)) = Some (st, ps') \<and> parse_ok ps'"
    if "parse_ok ps1" for ps1 ts
    using dropRange_ok [OF that, of ?s ?ln ts] by auto
  show ?thesis
  proof (cases r)
    case (Inl st)
    then show ?thesis using r(1) assms(1) h by (simp add: closeFrame_def Let_def)
  next
    case (Inr q)
    then obtain i' sz' where q: "r = Inr (i', sz')" by (metis surj_pair)
    show ?thesis
    proof (cases "UINT16_DEC i' = ?ln")
      case True
      have "frame_ready Q lookup depay ?h ?s ?ln sz'"
      proof (rule frame_readyI [OF h(2)])
        show "scanned (lookup ?h) depay (seq_range ?s ?ln) sz'" using r(2) q True by simp
        show "seq_range ?s ?ln \<noteq> []" using suc by (simp add: seq_range_def flip: length_0_conv)
        show "tsOf p = headTimestamp ?jb" if a: "i \<in> set (seq_range ?s ?ln)" "lookup ?h (unat i) = Some (Some p)" for i p
        proof -
          have "i \<in> set (seqs ?s (unat (endIdx - ?s)))"
            using a(1) ln(1) suc unat_u16_less [of "endIdx - ?s"] unat_u16_less [of "?ln + 1 - ?s"]
            by (simp add: seq_range_def in_seqs_iff)
          then show ?thesis using a(2) assms(2) by (auto simp: scan_inv_def scan_core_def Let_def)
        qed
      qed
      then obtain st w where w: "ready (customData ?jb) ?h (ps_w ps) ?s ?ln sz' = Some (st, w)" "W w"
        using ready_keeps [of "ps_w ps" ?h] assms(1) by (force simp: parse_ok_def)
      then have "parse_ok (ps\<lparr>ps_w := w\<rparr>)" using assms(1) by (simp add: parse_ok_def)
      then show ?thesis
        using drop [of "ps\<lparr>ps_w := w\<rparr>" "headTimestamp ?jb"] r(1) q h w True
        by (cases "STATUS_FAILED st") (auto simp: closeFrame_def Let_def)
    next
      case False
      obtain st w where w: "dropped (customData ?jb) ?h (ps_w ps) ?s (UINT16_DEC i') (unat (headTimestamp ?jb)) = Some (st, w)" "W w"
        using dropped_keeps [of "ps_w ps" ?h] assms(1) by (force simp: parse_ok_def)
      then have "parse_ok (ps\<lparr>ps_w := w\<rparr>)" using assms(1) by (simp add: parse_ok_def)
      then show ?thesis
        using drop [of "ps\<lparr>ps_w := w\<rparr>" "headTimestamp ?jb"] r(1) q h w False
        by (cases "STATUS_FAILED st") (auto simp: closeFrame_def Let_def)
    qed
  qed
qed

definition jb_ok :: "('h, 'w) JitterBuffer \<Rightarrow> bool" where
  "jb_ok jb \<longleftrightarrow> table_ok (pPkgBufferHashTable jb) \<and> packets_ok Q (lookup (pPkgBufferHashTable jb)) \<and>
     depayPayloadFn jb = depay \<and> onFrameReadyFn jb = Some ready \<and> onFrameDroppedFn jb = Some dropped"

lemma jitterBufferInternalParse_ok:
  assumes "jb_ok jb" "W w"
  shows "\<exists>st jb' w' freed. jitterBufferInternalParse H (Some jb) closed w = Some (st, Some jb', w', freed) \<and> jb_ok jb' \<and> W w'"
proof (cases "tailTimestamp jb = 0")
  case True
  then show ?thesis using assms by (simp add: jitterBufferInternalParse_def jb_ok_def)
next
  case False
  let ?e = "if unat (tailTimestamp jb) > maxLatency jb then wrap32 (unat (tailTimestamp jb) - maxLatency jb) else 0"
  let ?i = "headSequenceNumber jb" and ?l = "tailSequenceNumber jb + 1"
  let ?ps0 = "\<lparr>ps_jb = jb, ps_w = w, ps_freed = [], ps_ret = STATUS_SUCCESS, isFrameDataContinuous = True,
    startDropIndex = ?i, curFrameSize = 0, partialFrameSize = 0, containStartForEarliestFrame = False, lastNonNullIndex = 0\<rparr>"
  have ok: "parse_ok ?ps0" using assms by (simp add: parse_ok_def jb_ok_def)
  have "scan_inv Q lookup table_ok depay ?l ?i ?ps0"
    using assms(1) unat_u16_less [of "?l - ?i"]
    by (auto simp: scan_inv_def jb_ok_def intro!: scan_core_restart)
  with ok obtain r where r: "parseLoop H ready dropped ?e closed ?l ?i ?ps0 = Some r" "loop_post ?l closed r"
    using parseLoop_ok by blast
  have fin: "\<exists>st ps. (case r of Inl (st, ps) \<Rightarrow> Some (st, ps)
      | Inr ps \<Rightarrow> if closed \<and> curFrameSize ps > 0 then closeFrame H ready dropped ps else Some (ps_ret ps, ps)) = Some (st, ps) \<and> parse_ok ps"
    using r(2) closeFrame_ok by (cases r) (auto simp: loop_post_def split: prod.splits)
  then show ?thesis
    using assms(1) False r(1)
    by (auto simp: jitterBufferInternalParse_def jb_ok_def parse_ok_def Let_def)
qed

lemma storePacket_ok:
  assumes "jb_ok jb" "Q pkt"
  shows "\<exists>h freed. storePacket H jb pkt = (STATUS_SUCCESS, jb\<lparr>pPkgBufferHashTable := h\<rparr>, freed) \<and> table_ok h \<and>
    lookup h = (lookup (pPkgBufferHashTable jb))(unat (seqOf pkt) \<mapsto> Some pkt) \<and> packets_ok Q (lookup h)"
  using assms by (intro storePacket_in_table) (auto simp: jb_ok_def)

lemma jb_ok_update [simp]:
  "jb_ok (jb\<lparr>headSequenceNumber := a\<rparr>) = jb_ok jb" "jb_ok (jb\<lparr>tailSequenceNumber := a\<rparr>) = jb_ok jb"
  "jb_ok (jb\<lparr>headTimestamp := b\<rparr>) = jb_ok jb" "jb_ok (jb\<lparr>tailTimestamp := b\<rparr>) = jb_ok jb"
  "jb_ok (jb\<lparr>started := c\<rparr>) = jb_ok jb" "jb_ok (jb\<lparr>firstFrameProcessed := c\<rparr>) = jb_ok jb"
  "jb_ok (jb\<lparr>sequenceNumberOverflowState := c\<rparr>) = jb_ok jb" "jb_ok (jb\<lparr>timestampOverFlowState := c\<rparr>) = jb_ok jb"
  by (simp_all add: jb_ok_def)

lemma jb_ok_checks [simp]:
  "jb_ok (snd (headSequenceNumberCheck jb pkt)) = jb_ok jb"
  "jb_ok (snd (tailSequenceNumberCheck jb pkt)) = jb_ok jb"
  by (simp_all add: headSequenceNumberCheck_def tailSequenceNumberCheck_def Let_def)

lemma jb_ok_checks2 [simp]:
  "jb_ok (snd (enterSequenceNumberOverflowCheck jb pkt)) = jb_ok jb"
  "jb_ok (snd (enterTimestampOverflowCheck jb pkt)) = jb_ok jb"
  "jb_ok (snd (headTimestampCheck jb pkt)) = jb_ok jb"
  "jb_ok (snd (tailTimestampCheck jb pkt)) = jb_ok jb"
  by (simp_all add: enterSequenceNumberOverflowCheck_def enterTimestampOverflowCheck_def headTimestampCheck_def
      tailTimestampCheck_def Let_def split_def)

lemma jb_ok_latency [simp]: "jb_ok (snd (withinLatencyTolerance jb pkt)) = jb_ok jb"
  by (simp add: withinLatencyTolerance_def Let_def split_def)

lemma jb_ok_window [simp]: "jb_ok (updateWindow jb pkt) = jb_ok jb"
  by (simp add: updateWindow_def Let_def split_def)

lemma acceptPacket_ok:
  assumes "jb_ok jb" "Q pkt"
  shows "\<exists>jb' freed. acceptPacket H jb pkt = (STATUS_SUCCESS, jb', freed) \<and> jb_ok jb'"
proof -
  obtain h freed where st: "storePacket H jb pkt = (STATUS_SUCCESS, jb\<lparr>pPkgBufferHashTable := h\<rparr>, freed)" "table_ok h" "packets_ok Q (lookup h)"
    using storePacket_ok [OF assms] by blast
  then have "jb_ok (jb\<lparr>pPkgBufferHashTable := h\<rparr>)" using assms by (simp add: jb_ok_def)
  then show ?thesis using st(1) by (simp add: acceptPacket_def)
qed

lemma jitterBufferPush_ok:
  assumes "jb_ok jb" "W w" "Q pkt"
  shows "\<exists>st jb' disc' w' freed. jitterBufferPush H (Some jb) (Some pkt) disc w = Some (st, Some jb', disc', w', freed) \<and>
    jb_ok jb' \<and> W w'"
proof -
  obtain within jb5 where 5: "withinLatencyTolerance (updateWindow jb pkt) pkt = (within, jb5)" by force
  then have ok5: "jb_ok jb5" using assms(1) jb_ok_latency [of "updateWindow jb pkt" pkt] by simp
  obtain jb6 freed where 6: "(if within then acceptPacket H jb5 pkt else (STATUS_SUCCESS, jb5, [pkt])) = (STATUS_SUCCESS, jb6, freed)" "jb_ok jb6"
    using acceptPacket_ok [OF ok5 assms(3)] ok5 by (cases within) auto
  from jitterBufferInternalParse_ok [OF 6(2) assms(2), of False] show ?thesis
    by (auto simp: jitterBufferPush_def 5 6(1))
qed

lemma freeJitterBuffer_ok:
  assumes "jb_ok jb" "W w"
  shows "\<exists>w' freed leaked. freeJitterBuffer H (Some jb) w = Some (STATUS_SUCCESS, None, w', freed, leaked) \<and> W w'"
  using jitterBufferInternalParse_ok [OF assms, of True] by (auto simp: freeJitterBuffer_def split_def Let_def)

end

end
