(* ===== verification/RtpReceiver.thy ===== *)
theory RtpReceiver
  imports FrameAssembly
begin

text \<open>
  The receiving path of \<^verbatim>\<open>src/source/PeerConnection/PeerConnection.c\<close>: an SRTP packet is
  decrypted, parsed and pushed into the jitter buffer of its transceiver
  (\<^verbatim>\<open>sendPacketToRtpReceiver\<close>), and the jitter buffer's callbacks assemble frames and hand
  them to the application (\<^verbatim>\<open>onFrameReadyFunc\<close>, \<^verbatim>\<open>onFrameDroppedFunc\<close>).

  \<open>RtpReceiver\<close> is the receiving half of \<^verbatim>\<open>KvsRtpTransceiver\<close> and \<^verbatim>\<open>inboundStats\<close>; the frames
  given to \<^verbatim>\<open>onFrame\<close> are the list \<open>delivered\<close>.  Decryption (libsrtp behind \<^verbatim>\<open>SrtpSession.c\<close>),
  the clock and fresh memory are arguments.  The floating-point delay and jitter statistics
  are left out.
\<close>

subsection \<open>Data\<close>

record Frame =
  frame_presentationTs :: nat
  frame_frameData :: "byte list"
  frame_size :: nat
  frame_index :: nat

record RtpReceiver =
  peerFrameBuffer :: "byte list option"
  peerFrameBufferSize :: nat
  trackIsVideo :: bool
  hasOnFrame :: bool
  delivered :: "Frame list"
  jitterBufferEmittedCount :: nat
  framesReceived :: nat
  framesDropped :: nat
  fullFramesLost :: nat

subsection \<open>Frame callbacks\<close>

text \<open>\<open>frameSize * 1.5\<close> converted to \<^verbatim>\<open>UINT32\<close>; a result that does not fit is undefined.\<close>

definition grownFrameBufferSize :: "nat \<Rightarrow> nat option" where
  "grownFrameBufferSize frameSize = (if frameSize * 3 div 2 < 2 ^ 32 then Some (frameSize * 3 div 2) else None)"

text \<open>\<^verbatim>\<open>pPacket\<close> comes from an uninitialised variable when the key is absent: \<open>None\<close>.\<close>

definition callbackPacket :: "('h, RtpPacket) hash_ops \<Rightarrow> 'h \<Rightarrow> u16 \<Rightarrow> (STATUS + RtpPacket) option" where
  "callbackPacket H h startIndex =
     (case hashTableGet H h (unat startIndex) of
        Inl st \<Rightarrow> if st = STATUS_HASH_KEY_NOT_PRESENT then None else Some (Inl st)
      | Inr None \<Rightarrow> Some (Inl STATUS_NULL_ARG)
      | Inr (Some pkt) \<Rightarrow> Some (Inr pkt))"

definition onFrameReadyFunc ::
  "('h, RtpPacket) hash_ops \<Rightarrow> platform \<Rightarrow> depay_func \<Rightarrow> (nat \<Rightarrow> byte list) \<Rightarrow> ('h, RtpReceiver) frame_fn" where
  "onFrameReadyFunc H P depay garbage custom h rcv startIndex endIndex frameSize =
     (if custom = 0 then Some (STATUS_NULL_ARG, rcv)
      else do {
        r \<leftarrow> callbackPacket H h startIndex;
        case r of
          Inl st \<Rightarrow> Some (st, rcv)
        | Inr pkt \<Rightarrow>
            let index = jitterBufferEmittedCount rcv;
                rcv1 = rcv\<lparr>jitterBufferEmittedCount := wrap64 (index + 1),
                           framesReceived := (if trackIsVideo rcv then framesReceived rcv + 1 else framesReceived rcv)\<rparr>
            in do {
              rcv2 \<leftarrow> (if frameSize > peerFrameBufferSize rcv1
                       then map_option (\<lambda>sz. rcv1\<lparr>peerFrameBufferSize := sz,
                                              peerFrameBuffer := (if memalloc P sz then Some (garbage sz) else None)\<rparr>)
                              (grownFrameBufferSize frameSize)
                       else Some rcv1);
              (if frameSize > peerFrameBufferSize rcv1 \<and> peerFrameBuffer rcv2 = None
               then Some (STATUS_NOT_ENOUGH_MEMORY, rcv2)
               else
                 case peerFrameBuffer rcv2 of
                   None \<Rightarrow> Some (STATUS_NULL_ARG, rcv2)
                 | Some buf \<Rightarrow> do {
                     (st, buf', filledSize) \<leftarrow> fillFrame H depay h buf frameSize startIndex endIndex;
                     let rcv3 = rcv2\<lparr>peerFrameBuffer := Some buf'\<rparr>;
                     if STATUS_FAILED st then Some (st, rcv3)
                     else if frameSize \<noteq> filledSize then Some (STATUS_INVALID_ARG_LEN, rcv3)
                     else Some (STATUS_SUCCESS,
                       if hasOnFrame rcv3
                       then rcv3\<lparr>delivered := delivered rcv3 @
                              [\<lparr>frame_presentationTs = unat (tsOf pkt) * 10000, frame_frameData = take frameSize buf',
                                frame_size = frameSize, frame_index = index mod 2 ^ 32\<rparr>]\<rparr>
                       else rcv3) }) } })"

definition onFrameDroppedFunc :: "('h, RtpPacket) hash_ops \<Rightarrow> ('h, RtpReceiver) frame_fn" where
  "onFrameDroppedFunc H custom h rcv startIndex endIndex ts =
     (if custom = 0 then Some (STATUS_NULL_ARG, rcv)
      else
        case hashTableGet H h (unat startIndex) of
          Inl st \<Rightarrow> Some (if st = STATUS_HASH_KEY_NOT_PRESENT then STATUS_NULL_ARG else st, rcv)
        | Inr None \<Rightarrow> Some (STATUS_NULL_ARG, rcv)
        | Inr (Some _) \<Rightarrow>
            Some (STATUS_SUCCESS,
              rcv\<lparr>jitterBufferEmittedCount := wrap64 (jitterBufferEmittedCount rcv + 1),
                  framesDropped := framesDropped rcv + 1, fullFramesLost := fullFramesLost rcv + 1\<rparr>))"

subsection \<open>Inbound packets\<close>

text \<open>The inbound half of a transceiver: its SSRC, jitter buffer, receiver and packet statistics.\<close>

record 'h InboundTransceiver =
  jitterBufferSsrc :: u32
  pJitterBuffer :: "('h, RtpReceiver) JitterBuffer option"
  receiver :: RtpReceiver
  packetsReceived :: nat
  packetsFailedDecryption :: nat
  lastPacketReceivedTimestamp :: nat
  headerBytesReceived :: nat
  bytesReceived :: nat
  packetsDiscarded :: nat

text \<open>
  What happens to a packet once its transceiver is known; the result is the status, the
  transceiver and the packets that were released.  A packet is released by the caller
  unless the push succeeded.  Every path reads the jitter buffer for the statistics, so a
  missing one is undefined.
\<close>

definition receivePacket ::
  "('h, RtpPacket) hash_ops \<Rightarrow> platform \<Rightarrow> (byte list \<Rightarrow> nat \<Rightarrow> STATUS \<times> byte list \<times> nat) \<Rightarrow> RtpPacket \<Rightarrow> nat \<Rightarrow>
   'h InboundTransceiver \<Rightarrow> byte list \<Rightarrow> nat \<Rightarrow> (STATUS \<times> 'h InboundTransceiver \<times> RtpPacket list) option" where
  "receivePacket H P decryptSrtpPacket fresh now tr pBuffer bufferLen =
     do {
       jb \<leftarrow> pJitterBuffer tr;
       (case decryptSrtpPacket pBuffer bufferLen of
          (st, buf, len) \<Rightarrow>
            let tr1 = tr\<lparr>packetsReceived := packetsReceived tr + 1, lastPacketReceivedTimestamp := 0\<rparr> in
            if STATUS_FAILED st
            then Some (STATUS_SUCCESS, tr1\<lparr>packetsFailedDecryption := packetsFailedDecryption tr + 1\<rparr>, [])
            else if \<not> memalloc P len then Some (STATUS_NOT_ENOUGH_MEMORY, tr1, [])
            else do {
              copy \<leftarrow> rdn buf 0 len;
              (st1, pkt) \<leftarrow> createRtpPacketFromBytes P fresh (Some copy) len;
              if STATUS_FAILED st1 then Some (st1, tr1, [])
              else do {
                p0 \<leftarrow> pkt;
                let p = p0\<lparr>receivedTime := now\<rparr>;
                    tr2 = tr1\<lparr>headerBytesReceived := headerBytesReceived tr + RTP_HEADER_LEN p,
                              bytesReceived := bytesReceived tr + sub32 (rawPacketLength p) (RTP_HEADER_LEN p)\<rparr>
                in do {
                  (st2, jb', discarded, rcv, freed) \<leftarrow> jitterBufferPush H (Some jb) (Some p) False (receiver tr);
                  let tr3 = tr2\<lparr>pJitterBuffer := jb', receiver := rcv\<rparr>;
                  if STATUS_FAILED st2 then Some (st2, tr3, freed @ [p])
                  else Some (STATUS_SUCCESS,
                         tr3\<lparr>lastPacketReceivedTimestamp := wrap64 (now * 1000) div 10000000,
                             packetsDiscarded := packetsDiscarded tr + (if discarded then 1 else 0)\<rparr>, freed) } } }) }"

text \<open>The first transceiver with the SSRC gets the packet; without one it is ignored.\<close>

fun dispatchInbound ::
  "('h InboundTransceiver \<Rightarrow> (STATUS \<times> 'h InboundTransceiver \<times> RtpPacket list) option) \<Rightarrow> u32 \<Rightarrow>
   'h InboundTransceiver list \<Rightarrow> (STATUS \<times> 'h InboundTransceiver list \<times> RtpPacket list) option" where
  "dispatchInbound handle ss [] = Some (STATUS_SUCCESS, [], [])"
| "dispatchInbound handle ss (tr # trs) =
     (if jitterBufferSsrc tr = ss
      then map_option (\<lambda>(st, tr', freed). (st, tr' # trs, freed)) (handle tr)
      else map_option (\<lambda>(st, trs', freed). (st, tr # trs', freed)) (dispatchInbound handle ss trs))"

definition sendPacketToRtpReceiver ::
  "('h, RtpPacket) hash_ops \<Rightarrow> platform \<Rightarrow> (byte list \<Rightarrow> nat \<Rightarrow> STATUS \<times> byte list \<times> nat) \<Rightarrow> RtpPacket \<Rightarrow> nat \<Rightarrow>
   'h InboundTransceiver list option \<Rightarrow> byte list option \<Rightarrow> nat \<Rightarrow>
   (STATUS \<times> 'h InboundTransceiver list option \<times> RtpPacket list) option" where
  "sendPacketToRtpReceiver H P decryptSrtpPacket fresh now pTransceivers pBuffer bufferLen =
     (case (pTransceivers, pBuffer) of
        (Some trs, Some buf) \<Rightarrow>
          if \<not> bufferLen \<ge> 12 then Some (STATUS_INVALID_ARG, Some trs, [])
          else do {
            ss \<leftarrow> rdInt32 P buf 8;
            (st, trs', freed) \<leftarrow>
              dispatchInbound (\<lambda>tr. receivePacket H P decryptSrtpPacket fresh now tr buf bufferLen) ss trs;
            Some (st, Some trs', freed) }
      | _ \<Rightarrow> Some (STATUS_NULL_ARG, pTransceivers, []))"

subsection \<open>What a depayloader promises\<close>

text \<open>
  On acceptable packets the sizing call and the filling call agree on \<open>decode\<close>.
\<close>

locale packet_decoder =
  fixes depay :: depay_func
    and decode :: "byte list \<Rightarrow> byte list"
    and packet_ok :: "byte list \<Rightarrow> bool"
  assumes decoder_size: "packet_ok b \<Longrightarrow> \<exists>st. depay (Some b) (length b) None k = Some (STATUS_SUCCESS, None, length (decode b), st)"
    and decoder_fill: "packet_ok b \<Longrightarrow> length (decode b) \<le> k \<Longrightarrow> k \<le> length out \<Longrightarrow>
      \<exists>st. depay (Some b) (length b) (Some out) k =
        Some (STATUS_SUCCESS, Some (decode b @ drop (length (decode b)) out), length (decode b), st)"

text \<open>
  A packet whose payload is acceptable and decodes to at most 32 KiB, so that the frame sizes
  of at most 65535 packets and their growth by one half stay below 2^32.
\<close>

definition payload_ok :: "(byte list \<Rightarrow> bool) \<Rightarrow> (byte list \<Rightarrow> byte list) \<Rightarrow> RtpPacket \<Rightarrow> bool" where
  "payload_ok packet_ok decode p \<longleftrightarrow>
     (\<exists>b. payload p = Some b \<and> payloadLength p = length b \<and> packet_ok b \<and> length (decode b) \<le> 2 ^ 15)"

definition decoded :: "(byte list \<Rightarrow> byte list) \<Rightarrow> RtpPacket \<Rightarrow> byte list" where
  "decoded decode p = decode (case payload p of None \<Rightarrow> [] | Some b \<Rightarrow> b)"

text \<open>
  A delivered frame is the decoded payload of packets from \<open>S\<close> (the packets received so far)
  with consecutive sequence numbers and one timestamp.
\<close>

definition assembled :: "(RtpPacket \<Rightarrow> bool) \<Rightarrow> (byte list \<Rightarrow> bool) \<Rightarrow> (byte list \<Rightarrow> byte list) \<Rightarrow> Frame \<Rightarrow> bool" where
  "assembled S packet_ok decode f \<longleftrightarrow>
     (\<exists>pkts s ts. pkts \<noteq> [] \<and> map seqOf pkts = seqs s (length pkts) \<and>
        (\<forall>p \<in> set pkts. S p \<and> payload_ok packet_ok decode p \<and> tsOf p = ts) \<and>
        frame_frameData f = concat (map (decoded decode) pkts) \<and> frame_size f = length (frame_frameData f) \<and>
        frame_presentationTs f = unat ts * 10000)"

definition receiver_ok :: "(RtpPacket \<Rightarrow> bool) \<Rightarrow> (byte list \<Rightarrow> bool) \<Rightarrow> (byte list \<Rightarrow> byte list) \<Rightarrow> RtpReceiver \<Rightarrow> bool" where
  "receiver_ok S packet_ok decode rcv \<longleftrightarrow>
     (\<forall>buf. peerFrameBuffer rcv = Some buf \<longrightarrow> length buf = peerFrameBufferSize rcv) \<and>
     (\<forall>f \<in> set (delivered rcv). assembled S packet_ok decode f)"

locale rtp_receiver = packet_table H lookup table_ok + packet_decoder depay decode packet_ok
  for H :: "('h, RtpPacket) hash_ops" and lookup table_ok depay decode packet_ok +
  fixes P :: platform and garbage :: "nat \<Rightarrow> byte list" and S :: "RtpPacket \<Rightarrow> bool"
  assumes garbage_length: "length (garbage n) = n"
begin

abbreviation Q :: "RtpPacket \<Rightarrow> bool" where
  "Q \<equiv> (\<lambda>p. S p \<and> payload_ok packet_ok decode p)"

lemma payload_decodes: "Q p \<Longrightarrow> decodes depay (decoded decode) p"
  using decoder_fill by (fastforce simp: payload_ok_def decodes_def decoded_def)

lemma payload_depays:
  assumes "Q p" "depays depay p n"
  shows "n = length (decoded decode p)"
proof -
  obtain b where b: "payload p = Some b" "payloadLength p = length b" "packet_ok b"
    using assms(1) by (auto simp: payload_ok_def)
  obtain k d st where "depay (Some b) (length b) None k = Some (STATUS_SUCCESS, d, n, st)"
    using assms(2) b by (auto simp: depays_def)
  then show ?thesis using decoder_size [OF b(3), of k] b(1) by (auto simp: decoded_def)
qed

lemma frame_ready_packets:
  assumes "frame_ready Q lookup depay h s e sz"
  obtains p pkts where "lookup h (unat s) = Some (Some p)"
    "map (\<lambda>i. lookup h (unat i)) (seq_range s e) = map (\<lambda>p. Some (Some p)) (p # pkts)"
    "map seqOf (p # pkts) = seqs s (length (p # pkts))" "\<forall>q \<in> set (p # pkts). tsOf q = tsOf p \<and> Q q"
    "sz = total (map (decoded decode) (p # pkts))" "sz \<le> 65536 * 2 ^ 15"
proof -
  from assms obtain pkts ns ts where pkts: "pkts \<noteq> []" and m: "map (\<lambda>i. lookup h (unat i)) (seq_range s e) = map (\<lambda>p. Some (Some p)) pkts"
    and ns: "list_all2 (depays depay) pkts ns" "sz = wrap32 (sum_list ns)" and ts: "\<forall>p \<in> set pkts. tsOf p = ts \<and> Q p"
    and seq: "map seqOf pkts = seq_range s e"
    by (auto simp: frame_ready_def)
  have "ns = map (length \<circ> decoded decode) pkts"
    using ns(1) ts by (induction rule: list_all2_induct) (auto simp: payload_depays)
  then have tot: "sum_list ns = total (map (decoded decode) pkts)" by (simp add: total_def)
  have len: "length pkts = unat (e + 1 - s)" using arg_cong [OF seq, of length] by (simp add: seq_range_def)
  have "total (map (decoded decode) ps) \<le> length ps * 2 ^ 15" if "\<forall>p \<in> set ps. Q p" for ps
    using that by (induction ps) (auto simp: payload_ok_def decoded_def)
  then have "total (map (decoded decode) pkts) \<le> length pkts * 2 ^ 15" using ts by blast
  also have "\<dots> \<le> 65536 * 2 ^ 15" using unat_u16_less [of "e + 1 - s"] len by (intro mult_right_mono) simp_all
  finally have bound: "total (map (decoded decode) pkts) \<le> 65536 * 2 ^ 15" .
  then have sz: "sz = total (map (decoded decode) pkts)" using ns(2) tot by simp
  obtain p ps where p: "pkts = p # ps" using pkts by (cases pkts) auto
  have "seq_range s e = s # tl (seq_range s e)"
    using len p by (cases "unat (e + 1 - s)") (simp_all add: seq_range_def seqs_Suc)
  then have "lookup h (unat s) = Some (Some p)" using m p by (metis list.inject list.simps(9))
  then show thesis
    using that [of p ps] m ts sz bound seq len p by (simp add: seq_range_def)
qed

lemma onFrameReadyFunc_ok:
  assumes "receiver_ok S packet_ok decode rcv" "table_ok h" "frame_ready Q lookup depay h s e sz"
  shows "\<exists>st rcv'. onFrameReadyFunc H P depay garbage custom h rcv s e sz = Some (st, rcv') \<and> receiver_ok S packet_ok decode rcv'"
proof -
  from assms(3) obtain p pkts where pk: "lookup h (unat s) = Some (Some p)"
    "map (\<lambda>i. lookup h (unat i)) (seq_range s e) = map (\<lambda>p. Some (Some p)) (p # pkts)"
    "map seqOf (p # pkts) = seqs s (length (p # pkts))" "\<forall>q \<in> set (p # pkts). tsOf q = tsOf p \<and> Q q"
    "sz = total (map (decoded decode) (p # pkts))" "sz \<le> 65536 * 2 ^ 15"
    by (rule frame_ready_packets)
  define data where "data = concat (map (decoded decode) (p # pkts))"
  have len: "length data = sz" by (simp only: data_def length_concat_total pk(5))
  have fill: "fillFrame H depay h buf sz s e = Some (STATUS_SUCCESS, data @ drop sz buf, sz)" if "sz \<le> length buf" for buf
    using fillFrame_ok [OF assms(2) pk(2), of depay "decoded decode" sz buf] pk(4-6) that payload_decodes
    by (simp add: data_def)
  have grow: "grownFrameBufferSize sz = Some (sz * 3 div 2)" "sz \<le> sz * 3 div 2"
    using pk(6) by (auto simp: grownFrameBufferSize_def)
  have get: "callbackPacket H h s = Some (Inr p)" using pk(1) assms(2) by (simp add: callbackPacket_def)
  have data: "take sz (data @ rest) = data" for rest using len by simp
  have asm: "assembled S packet_ok decode \<lparr>frame_presentationTs = unat (tsOf p) * 10000, frame_frameData = data, frame_size = sz,
      frame_index = i\<rparr>" for i
    unfolding assembled_def
    by (rule exI [of _ "p # pkts"], rule exI [of _ s], rule exI [of _ "tsOf p"]) (use pk(3,4) len data_def in simp)
  show ?thesis
    using assms(1) grow(2) garbage_length len
    by (auto simp: onFrameReadyFunc_def Let_def get receiver_ok_def data asm fill grow(1) split: option.splits)
qed

end

sublocale rtp_receiver \<subseteq> client: frame_client H lookup table_ok "\<lambda>p. S p \<and> payload_ok packet_ok decode p" depay
  "onFrameReadyFunc H P depay garbage" "onFrameDroppedFunc H" "receiver_ok S packet_ok decode"
proof (unfold_locales, goal_cases)
  case (1 rcv h s e sz cd)
  then show ?case by (rule onFrameReadyFunc_ok)
next
  case (2 rcv h cd s e ts)
  then show ?case
    by (auto simp: onFrameDroppedFunc_def receiver_ok_def get_law split: option.splits)
next
  case (3 p k)
  then obtain b where "payload p = Some b" "payloadLength p = length b" "packet_ok b" by (auto simp: payload_ok_def)
  then show ?case using decoder_size [of b k] by auto
qed

context rtp_receiver
begin

lemmas is_client = client.frame_client_axioms

end

text \<open>Pushing a sequence of packets; the status of a push does not stop the receiver.\<close>

fun push_all ::
  "('h, RtpPacket) hash_ops \<Rightarrow> ('h, 'w) JitterBuffer option \<Rightarrow> 'w \<Rightarrow> RtpPacket list \<Rightarrow> (('h, 'w) JitterBuffer option \<times> 'w) option" where
  "push_all H jb w [] = Some (jb, w)"
| "push_all H jb w (p # ps) =
     Option.bind (jitterBufferPush H jb (Some p) False w) (\<lambda>(_, jb', _, w', _). push_all H jb' w' ps)"

context frame_client
begin

lemma push_all_ok:
  "jb_ok jb \<Longrightarrow> W w \<Longrightarrow> \<forall>p \<in> set ps. Q p \<Longrightarrow>
   \<exists>jb' w'. push_all H (Some jb) w ps = Some (Some jb', w') \<and> jb_ok jb' \<and> W w'"
proof (induction ps arbitrary: jb w)
  case Nil
  then show ?case by simp
next
  case (Cons p ps)
  then obtain st jb1 d1 w1 f1 where "jitterBufferPush H (Some jb) (Some p) False w = Some (st, Some jb1, d1, w1, f1)" "jb_ok jb1" "W w1"
    using jitterBufferPush_ok [of jb w p False] by auto
  then show ?case using Cons by auto
qed

lemma create_ok:
  assumes "createJitterBuffer H P fresh (Some ready) (Some dropped) (Some depay) lat rate cd = Some (STATUS_SUCCESS, Some jb)"
  shows "jb_ok jb"
proof -
  obtain h where "hashTableCreate H = (STATUS_SUCCESS, h)" "table_ok h" "lookup h = (\<lambda>_. None)"
    using create_law by blast
  then show ?thesis
    using assms by (auto simp: createJitterBuffer_def jb_ok_def packets_ok_empty Let_def split: if_splits)
qed

end

text \<open>An idle receiver, and an Opus receiver over a table of four buckets.\<close>

definition idle_receiver :: RtpReceiver where
  "idle_receiver = \<lparr>peerFrameBuffer = None, peerFrameBufferSize = 0, trackIsVideo = False, hasOnFrame = True,
     delivered = [], jitterBufferEmittedCount = 0, framesReceived = 0, framesDropped = 0, fullFramesLost = 0\<rparr>"

definition opus_buffer :: "(RtpPacket buckets, RtpReceiver) JitterBuffer" where
  "opus_buffer = \<lparr>
     onFrameReadyFn = Some (onFrameReadyFunc (chained_table 3) little_endian_host depayOpusFromRtpPayload (\<lambda>n. replicate n 0)),
     onFrameDroppedFn = Some (onFrameDroppedFunc (chained_table 3)), depayPayloadFn = depayOpusFromRtpPayload,
     headSequenceNumber = 65535, tailSequenceNumber = 65535, headTimestamp = 4294967295, tailTimestamp = 0,
     maxLatency = 96000, customData = 1, clockRate = 48000, started = False, firstFrameProcessed = False,
     sequenceNumberOverflowState = False, timestampOverFlowState = False, pPkgBufferHashTable = replicate 4 []\<rparr>"

lemma opus_buffer_created:
  "createJitterBuffer (chained_table 3) little_endian_host opus_buffer
     (Some (onFrameReadyFunc (chained_table 3) little_endian_host depayOpusFromRtpPayload (\<lambda>n. replicate n 0)))
     (Some (onFrameDroppedFunc (chained_table 3))) (Some depayOpusFromRtpPayload) 0 48000 1 =
   Some (STATUS_SUCCESS, Some opus_buffer)"
  by (simp add: createJitterBuffer_def little_endian_host_def chained_table_def opus_buffer_def)

subsection \<open>Properties\<close>

text \<open>
  C20. Every frame the application gets is genuine.  Whatever packets are pushed into a new
  jitter buffer (lost, duplicated, reordered, of any timestamps), as long as the depayloader
  accepts their payloads nothing undefined happens, and every frame handed to \<^verbatim>\<open>onFrame\<close> is
  the decoded payload of received packets with consecutive sequence numbers and one timestamp,
  with the right size and presentation time.
\<close>

theorem received_frames_genuine:
  assumes "packet_table H lookup table_ok" "packet_decoder depay decode packet_ok" "\<forall>n. length (garbage n) = n"
    and "createJitterBuffer H P fresh (Some (onFrameReadyFunc H P depay garbage)) (Some (onFrameDroppedFunc H)) (Some depay)
      lat rate cd = Some (STATUS_SUCCESS, Some jb)"
    and "\<forall>p \<in> set pkts. payload_ok packet_ok decode p"
    and "delivered rcv = []" "\<forall>buf. peerFrameBuffer rcv = Some buf \<longrightarrow> length buf = peerFrameBufferSize rcv"
  shows "\<exists>jb' rcv'. push_all H (Some jb) rcv pkts = Some (Some jb', rcv') \<and>
    (\<forall>f \<in> set (delivered rcv'). assembled (\<lambda>p. p \<in> set pkts) packet_ok decode f)"
proof -
  have "rtp_receiver H lookup table_ok depay decode packet_ok garbage"
    using assms(1-3) by (simp add: rtp_receiver_def rtp_receiver_axioms_def)
  then have fc: "frame_client H lookup table_ok (\<lambda>p. p \<in> set pkts \<and> payload_ok packet_ok decode p) depay
      (onFrameReadyFunc H P depay garbage) (onFrameDroppedFunc H) (receiver_ok (\<lambda>p. p \<in> set pkts) packet_ok decode)"
    by (rule rtp_receiver.is_client)
  show ?thesis
    using frame_client.push_all_ok [OF fc frame_client.create_ok [OF fc assms(4)], of rcv pkts] assms(5-7)
    by (auto simp: receiver_ok_def)
qed

text \<open>The decoders of the byte-copying codecs, and the receiver over a chained table, meet the contracts.\<close>

interpretation opus_decoder: packet_decoder depayOpusFromRtpPayload "\<lambda>b. b" "\<lambda>b. b \<noteq> [] \<and> length b < 2 ^ 32"
  by unfold_locales (auto simp: payload_defs rdn_in memwrite_patch patch_0)

interpretation g711_decoder: packet_decoder depayG711FromRtpPayload "\<lambda>b. b" "\<lambda>b. b \<noteq> [] \<and> length b < 2 ^ 32"
  by unfold_locales (auto simp: payload_defs rdn_in memwrite_patch patch_0)

interpretation chained_packets: packet_table "chained_table n" chained_lookup "\<lambda>h. h \<noteq> []"
  by unfold_locales

interpretation opus_receiver: rtp_receiver "chained_table n" chained_lookup "\<lambda>h. h \<noteq> []" depayOpusFromRtpPayload "\<lambda>b. b"
  "\<lambda>b. b \<noteq> [] \<and> length b < 2 ^ 32" P "\<lambda>n. replicate n 0" S
  for n P S
  by unfold_locales simp

theorem received_frames_genuine_witness:
  "\<exists>jb' rcv'. push_all (chained_table 3) (Some opus_buffer) idle_receiver [sample_packet] = Some (Some jb', rcv') \<and>
    (\<forall>f \<in> set (delivered rcv'). assembled (\<lambda>p. p \<in> {sample_packet}) (\<lambda>b. b \<noteq> [] \<and> length b < 2 ^ 32) (\<lambda>b. b) f)"
  using received_frames_genuine [OF chained_packets.packet_table_axioms opus_decoder.packet_decoder_axioms _ opus_buffer_created,
      of "[sample_packet]" idle_receiver]
  by (simp add: payload_ok_def sample_packet_def idle_receiver_def)

end
