(* ===== verification/InOrderDelivery.thy ===== *)
theory InOrderDelivery
  imports RtpReceiver
begin

text \<open>
  Liveness of the jitter buffer: packets that arrive in order, without loss and within one
  cycle of sequence numbers, are delivered.  Each frame is handed over by the push of the first
  packet of the next frame, and by nothing else.
\<close>

subsection \<open>Pushing the next packet in order\<close>

text \<open>
  The buffer holds exactly the packets \<open>ps\<close> of the current frame, from sequence number \<open>s\<close> on,
  and is in none of its overflow states.
\<close>

definition holds_frame ::
  "('h \<Rightarrow> nat \<Rightarrow> RtpPacket option option) \<Rightarrow> ('h \<Rightarrow> bool) \<Rightarrow> ('h, 'w) JitterBuffer \<Rightarrow> u16 \<Rightarrow> u32 \<Rightarrow> RtpPacket list \<Rightarrow> bool" where
  "holds_frame lookup table_ok jb s ts ps \<longleftrightarrow>
     table_ok (pPkgBufferHashTable jb) \<and> packets_ok (\<lambda>_. True) (lookup (pPkgBufferHashTable jb)) \<and>
     (\<forall>j < length ps. lookup (pPkgBufferHashTable jb) (unat s + j) = Some (Some (ps ! j))) \<and>
     ps \<noteq> [] \<and> (\<forall>p \<in> set ps. tsOf p = ts) \<and> unat s + length ps < 65536 \<and>
     headSequenceNumber jb = s \<and> unat (tailSequenceNumber jb) = unat s + length ps - 1 \<and>
     headTimestamp jb = ts \<and> tailTimestamp jb = ts \<and> ts \<noteq> 0 \<and>
     started jb \<and> \<not> sequenceNumberOverflowState jb \<and> \<not> timestampOverFlowState jb"

lemma seq_not_underflow:
  fixes head seq :: u16
  assumes "unat seq - unat head < 65000"
  shows "\<not> (head < 512 \<and> seq \<ge> 65535 - (512 - head))"
proof
  assume a: "head < 512 \<and> seq \<ge> 65535 - (512 - head)"
  then have h: "unat head < 512" by (simp add: word_less_nat_alt)
  have "65535 - (512 - head) = 65023 + head" by simp
  moreover have "unat (65023 + head) = 65023 + unat head" using h by (simp add: unat_word_ariths(1))
  ultimately have "65023 + unat head \<le> unat seq" using a by (simp add: word_le_nat_alt)
  then show False using assms h by linarith
qed

lemma updateWindow_in_order:
  assumes "holds_frame lookup table_ok jb s ts ps" "unat (seqOf p) = unat s + length ps" "tsOf p \<ge> ts" "length ps < 65000"
  shows "updateWindow jb p = jb\<lparr>tailSequenceNumber := seqOf p, tailTimestamp := tsOf p\<rparr>"
proof -
  have lt: "tailSequenceNumber jb < seqOf p" "\<not> seqOf p < tailSequenceNumber jb" "headSequenceNumber jb < seqOf p"
    using assms(1,2) by (auto simp: holds_frame_def word_less_nat_alt)
  have nu: "\<not> (headSequenceNumber jb < 512 \<and> seqOf p \<ge> 65535 - (512 - headSequenceNumber jb))"
    by (rule seq_not_underflow) (use assms in \<open>simp add: holds_frame_def\<close>)
  have e: "enterSequenceNumberOverflowCheck jb p = (False, jb)"
    using assms(1) lt nu by (auto simp: enterSequenceNumberOverflowCheck_def holds_frame_def Let_def)
  let ?jb2 = "jb\<lparr>tailSequenceNumber := seqOf p\<rparr>"
  have t: "tailSequenceNumberCheck jb p = (True, ?jb2)"
    using assms(1) lt by (auto simp: tailSequenceNumberCheck_def holds_frame_def)
  have h: "headSequenceNumberCheck ?jb2 p = (False, ?jb2)"
    using assms(1) lt by (auto simp: headSequenceNumberCheck_def holds_frame_def Let_def)
  have et: "enterTimestampOverflowCheck ?jb2 p = (False, ?jb2)"
    using assms(1,3) h by (auto simp: enterTimestampOverflowCheck_def holds_frame_def)
  have tt: "snd (tailTimestampCheck ?jb2 p) = jb\<lparr>tailSequenceNumber := seqOf p, tailTimestamp := tsOf p\<rparr>"
    using assms(1,3) by (auto simp: tailTimestampCheck_def tailSequenceNumberCheck_def holds_frame_def)
  show ?thesis
    using assms(1) e t et tt by (simp add: updateWindow_def holds_frame_def Let_def)
qed

lemma updateWindow_first:
  assumes "\<not> started jb" "tsOf p \<noteq> 0" "tailTimestamp jb = 0"
    "\<not> sequenceNumberOverflowState jb" "\<not> timestampOverFlowState jb"
  shows "updateWindow jb p = jb\<lparr>started := True, headSequenceNumber := seqOf p, tailSequenceNumber := seqOf p,
    headTimestamp := tsOf p, tailTimestamp := tsOf p\<rparr>"
proof -
  let ?jb0 = "jb\<lparr>started := True, headSequenceNumber := seqOf p, tailSequenceNumber := seqOf p, headTimestamp := tsOf p\<rparr>"
  have nu: "\<not> (seqOf p < 512 \<and> seqOf p \<ge> 65535 - (512 - seqOf p))" by (rule seq_not_underflow) simp
  then have e: "enterSequenceNumberOverflowCheck ?jb0 p = (False, ?jb0)"
    by (auto simp: enterSequenceNumberOverflowCheck_def Let_def)
  have "0 < tsOf p" using assms(2) by (simp add: word_gt_0)
  then show ?thesis
    using assms e
    by (simp add: updateWindow_def Let_def tailSequenceNumberCheck_def enterTimestampOverflowCheck_def tailTimestampCheck_def)
qed

lemma latency_at_tail: "tailTimestamp jb = tsOf p \<Longrightarrow> withinLatencyTolerance jb p = (True, jb)"
  by (simp add: withinLatencyTolerance_def tailTimestampCheck_def)

text \<open>A packet that is not before the head leaves the head alone.\<close>

lemma head_checks_keep:
  assumes "\<not> sequenceNumberOverflowState jb" "\<not> timestampOverFlowState jb" "headSequenceNumber jb \<le> seqOf p"
    and "headTimestamp jb \<le> tsOf p" "tailTimestamp jb = tsOf p"
  shows "snd (headSequenceNumberCheck (snd (headTimestampCheck jb p)) p) = jb"
proof -
  have "headTimestampCheck jb p = (False, jb)" using assms by (auto simp: headTimestampCheck_def)
  moreover have "snd (headSequenceNumberCheck jb p) = jb"
    using assms(1,3) by (auto simp: headSequenceNumberCheck_def Let_def)
  ultimately show ?thesis by simp
qed

subsection \<open>Scanning a contiguous frame\<close>

text \<open>What the scan records for a packet of the current frame, given its decoded size and start flag.\<close>

definition count1 :: "(RtpPacket \<Rightarrow> nat) \<Rightarrow> (RtpPacket \<Rightarrow> bool) \<Rightarrow> u16 \<Rightarrow> RtpPacket \<Rightarrow> ('h, 'w) ParseState \<Rightarrow> ('h, 'w) ParseState" where
  "count1 sz starts i p ps = ps\<lparr>lastNonNullIndex := i, ps_ret := STATUS_SUCCESS, partialFrameSize := sz p,
     curFrameSize := wrap32 (curFrameSize ps + sz p),
     containStartForEarliestFrame := (containStartForEarliestFrame ps \<or> starts p)\<rparr>"

fun countAll :: "(RtpPacket \<Rightarrow> nat) \<Rightarrow> (RtpPacket \<Rightarrow> bool) \<Rightarrow> u16 \<Rightarrow> RtpPacket list \<Rightarrow> ('h, 'w) ParseState \<Rightarrow> ('h, 'w) ParseState" where
  "countAll sz starts i [] ps = ps"
| "countAll sz starts i (p # qs) ps = countAll sz starts (i + 1) qs (count1 sz starts i p ps)"

lemma countAll_fields:
  "ps_jb (countAll sz starts i qs ps) = ps_jb ps" "ps_w (countAll sz starts i qs ps) = ps_w ps"
  "ps_freed (countAll sz starts i qs ps) = ps_freed ps"
  "isFrameDataContinuous (countAll sz starts i qs ps) = isFrameDataContinuous ps"
  "startDropIndex (countAll sz starts i qs ps) = startDropIndex ps"
  "containStartForEarliestFrame (countAll sz starts i qs ps) = (containStartForEarliestFrame ps \<or> (\<exists>q \<in> set qs. starts q))"
  "ps_ret ps = STATUS_SUCCESS \<Longrightarrow> ps_ret (countAll sz starts i qs ps) = STATUS_SUCCESS"
  by (induction qs arbitrary: i ps) (auto simp: count1_def)

lemma countAll_size:
  "curFrameSize ps < 2 ^ 32 \<Longrightarrow> curFrameSize (countAll sz starts i qs ps) = wrap32 (curFrameSize ps + sum_list (map sz qs))"
  by (induction qs arbitrary: i ps) (simp_all add: count1_def wrap32_add add.assoc)

definition sized :: "depay_func \<Rightarrow> (RtpPacket \<Rightarrow> nat) \<Rightarrow> (RtpPacket \<Rightarrow> bool) \<Rightarrow> RtpPacket \<Rightarrow> bool" where
  "sized depay sz starts p \<longleftrightarrow>
     (\<forall>k. \<exists>d. depay (payload p) (payloadLength p) None k = Some (STATUS_SUCCESS, d, sz p, starts p))"

context packet_table
begin

lemma parse_run:
  assumes "table_ok (pPkgBufferHashTable (ps_jb ps))"
    and "\<forall>j < length qs. lookup (pPkgBufferHashTable (ps_jb ps)) (unat i + j) = Some (Some (qs ! j))"
    and "unat i + length qs \<le> unat endIdx"
    and "\<forall>q \<in> set qs. tsOf q = headTimestamp (ps_jb ps) \<and> sized (depayPayloadFn (ps_jb ps)) sz starts q"
  shows "parseLoop H ready dropped earliest closed endIdx i ps =
    parseLoop H ready dropped earliest closed endIdx (word_of_nat (unat i + length qs)) (countAll sz starts i qs ps)"
  using assms
proof (induction qs arbitrary: i ps)
  case Nil
  then show ?case by simp
next
  case (Cons q qs)
  have ne: "i \<noteq> endIdx" using Cons.prems(3) by auto
  obtain d where d: "depayPayloadFn (ps_jb ps) (payload q) (payloadLength q) None (partialFrameSize ps) =
      Some (STATUS_SUCCESS, d, sz q, starts q)"
    using Cons.prems(4) by (auto simp: sized_def dest: spec [of _ "partialFrameSize ps"])
  have q: "lookup (pPkgBufferHashTable (ps_jb ps)) (unat i) = Some (Some q)" using Cons.prems(2) by auto
  have step: "parseLoop H ready dropped earliest closed endIdx i ps =
      parseLoop H ready dropped earliest closed endIdx (i + 1) (count1 sz starts i q ps)"
    using q d Cons.prems(1,4) ne
    by (subst parseLoop.simps) (simp add: contains_law Let_def countPacket_def count1_def)
  show ?case
  proof (cases "qs = []")
    case True
    then show ?thesis by (simp add: step add.commute)
  next
    case False
    have u: "unat (i + 1) = unat i + 1"
      using Cons.prems(3) unat_u16_less [of endIdx] by (simp add: unat_word_ariths(1))
    have "parseLoop H ready dropped earliest closed endIdx (i + 1) (count1 sz starts i q ps) =
      parseLoop H ready dropped earliest closed endIdx (word_of_nat (unat (i + 1) + length qs))
        (countAll sz starts (i + 1) qs (count1 sz starts i q ps))"
      using Cons.prems u by (intro Cons.IH) (auto simp: count1_def)
    then show ?thesis by (simp add: step u)
  qed
qed

lemma accept_at_tail:
  assumes "table_ok (pPkgBufferHashTable jb)" "packets_ok (\<lambda>_. True) (lookup (pPkgBufferHashTable jb))"
    and "updateWindow jb p = jb2" "pPkgBufferHashTable jb2 = pPkgBufferHashTable jb"
    and "\<not> sequenceNumberOverflowState jb2" "\<not> timestampOverFlowState jb2" "headSequenceNumber jb2 \<le> seqOf p"
    and "headTimestamp jb2 \<le> tsOf p" "tailTimestamp jb2 = tsOf p"
  shows "\<exists>h freed. table_ok h \<and> packets_ok (\<lambda>_. True) (lookup h) \<and>
    lookup h = (lookup (pPkgBufferHashTable jb))(unat (seqOf p) \<mapsto> Some p) \<and>
    jitterBufferPush H (Some jb) (Some p) d w =
      map_option (\<lambda>(st, jb', w', freed'). (st, jb', d, w', freed @ freed'))
        (jitterBufferInternalParse H (Some (jb2\<lparr>pPkgBufferHashTable := h\<rparr>)) False w)"
proof -
  have "\<exists>h freed. storePacket H jb2 p = (STATUS_SUCCESS, jb2\<lparr>pPkgBufferHashTable := h\<rparr>, freed) \<and> table_ok h \<and>
    lookup h = (lookup (pPkgBufferHashTable jb))(unat (seqOf p) \<mapsto> Some p) \<and> packets_ok (\<lambda>_. True) (lookup h)"
    using storePacket_in_table [of jb2 "\<lambda>_. True" p, unfolded assms(4)] assms(1,2) by (simp only: simp_thms)
  then obtain h freed where st: "storePacket H jb2 p = (STATUS_SUCCESS, jb2\<lparr>pPkgBufferHashTable := h\<rparr>, freed)" "table_ok h"
    "lookup h = (lookup (pPkgBufferHashTable jb))(unat (seqOf p) \<mapsto> Some p)" "packets_ok (\<lambda>_. True) (lookup h)"
    by blast
  have "snd (headSequenceNumberCheck (snd (headTimestampCheck (jb2\<lparr>pPkgBufferHashTable := h\<rparr>) p)) p) = jb2\<lparr>pPkgBufferHashTable := h\<rparr>"
    using assms(5-) by (intro head_checks_keep) simp_all
  then have "acceptPacket H jb2 p = (STATUS_SUCCESS, jb2\<lparr>pPkgBufferHashTable := h\<rparr>, freed)"
    using st(1) by (simp add: acceptPacket_def)
  then have "jitterBufferPush H (Some jb) (Some p) d w =
      map_option (\<lambda>(st, jb', w', freed'). (st, jb', d, w', freed @ freed'))
        (jitterBufferInternalParse H (Some (jb2\<lparr>pPkgBufferHashTable := h\<rparr>)) False w)"
    using latency_at_tail [OF assms(9)]
    by (simp add: jitterBufferPush_def assms(3) map_conv_bind_option split_def comp_def)
  then show ?thesis using st(2-4) by blast
qed

text \<open>Nothing is delivered while the frame is still growing.\<close>

lemma parse_growing:
  assumes "table_ok (pPkgBufferHashTable jb)" "onFrameReadyFn jb = Some ready" "onFrameDroppedFn jb = Some dropped"
    and "\<forall>j < length qs. lookup (pPkgBufferHashTable jb) (unat (headSequenceNumber jb) + j) = Some (Some (qs ! j))"
    and "unat (tailSequenceNumber jb) + 1 = unat (headSequenceNumber jb) + length qs" "unat (headSequenceNumber jb) + length qs < 65536"
    and "\<forall>q \<in> set qs. tsOf q = headTimestamp jb \<and> sized (depayPayloadFn jb) sz starts q"
  shows "jitterBufferInternalParse H (Some jb) False w = Some (STATUS_SUCCESS, Some jb, w, [])"
proof (cases "tailTimestamp jb = 0")
  case True
  then show ?thesis using assms(2,3) by (simp add: jitterBufferInternalParse_def)
next
  case False
  let ?ps = "\<lparr>ps_jb = jb, ps_w = w, ps_freed = [], ps_ret = STATUS_SUCCESS, isFrameDataContinuous = True,
     startDropIndex = headSequenceNumber jb, curFrameSize = 0, partialFrameSize = 0,
     containStartForEarliestFrame = False, lastNonNullIndex = 0\<rparr>"
  let ?stop = "tailSequenceNumber jb + 1"
  have e: "unat ?stop = unat (headSequenceNumber jb) + length qs"
    using assms(5,6) by (simp add: unat_word_ariths(1))
  have run: "parseLoop H ready dropped earliest False ?stop (headSequenceNumber jb) ?ps =
      parseLoop H ready dropped earliest False ?stop (word_of_nat (unat (headSequenceNumber jb) + length qs))
        (countAll sz starts (headSequenceNumber jb) qs ?ps)" for earliest
    by (rule parse_run) (use assms e in auto)
  have "word_of_nat (unat (headSequenceNumber jb) + length qs) = ?stop" by (simp add: e [symmetric] del: of_nat_add)
  then show ?thesis
    using False assms(2,3) run
    by (simp add: jitterBufferInternalParse_def Let_def parseLoop.simps [of _ _ _ _ _ ?stop ?stop] countAll_fields)
qed

text \<open>The first packet of the next frame hands the frame over and starts the next one.\<close>

lemma parse_delivers:
  assumes "table_ok (pPkgBufferHashTable jb)" "onFrameReadyFn jb = Some ready" "onFrameDroppedFn jb = Some dropped"
    and "\<forall>j < length qs. lookup (pPkgBufferHashTable jb) (unat (headSequenceNumber jb) + j) = Some (Some (qs ! j))"
    and "lookup (pPkgBufferHashTable jb) (unat (tailSequenceNumber jb)) = Some (Some p)"
    and "unat (tailSequenceNumber jb) = unat (headSequenceNumber jb) + length qs" "unat (headSequenceNumber jb) + length qs + 1 < 65536"
    and "\<forall>q \<in> set qs. tsOf q = headTimestamp jb \<and> sized (depayPayloadFn jb) sz starts q" "\<exists>q \<in> set qs. starts q"
    and "sized (depayPayloadFn jb) sz starts p" "tsOf p \<noteq> headTimestamp jb" "tailTimestamp jb \<noteq> 0"
    and "ready (customData jb) (pPkgBufferHashTable jb) w (headSequenceNumber jb) (tailSequenceNumber jb - 1) (wrap32 (sum_list (map sz qs))) =
      Some (STATUS_SUCCESS, w')"
  shows "\<exists>jb' freed. jitterBufferInternalParse H (Some jb) False w = Some (STATUS_SUCCESS, Some jb', w', freed) \<and>
    table_ok (pPkgBufferHashTable jb') \<and>
    lookup (pPkgBufferHashTable jb') = without (lookup (pPkgBufferHashTable jb)) (seqs (headSequenceNumber jb) (length qs)) \<and>
    headSequenceNumber jb' = tailSequenceNumber jb \<and> headTimestamp jb' = tsOf p \<and>
    tailSequenceNumber jb' = tailSequenceNumber jb \<and> tailTimestamp jb' = tailTimestamp jb \<and>
    depayPayloadFn jb' = depayPayloadFn jb \<and> customData jb' = customData jb \<and> onFrameReadyFn jb' = Some ready \<and>
    onFrameDroppedFn jb' = Some dropped \<and> started jb' = started jb \<and>
    (sequenceNumberOverflowState jb' \<longrightarrow> sequenceNumberOverflowState jb) \<and>
    (timestampOverFlowState jb' \<longrightarrow> timestampOverFlowState jb)"
proof -
  let ?s = "headSequenceNumber jb" and ?i = "tailSequenceNumber jb"
  let ?ps = "\<lparr>ps_jb = jb, ps_w = w, ps_freed = [], ps_ret = STATUS_SUCCESS, isFrameDataContinuous = True,
     startDropIndex = ?s, curFrameSize = 0, partialFrameSize = 0, containStartForEarliestFrame = False, lastNonNullIndex = 0\<rparr>"
  let ?ps1 = "countAll sz starts ?s qs ?ps"
  let ?ps2 = "?ps1\<lparr>lastNonNullIndex := ?i, ps_ret := STATUS_SUCCESS\<rparr>"
  have i: "word_of_nat (unat ?s + length qs) = ?i" by (simp add: assms(6) [symmetric])
  have le: "unat ?s + length qs \<le> unat (?i + 1)" using assms(6,7) by (simp add: unat_word_ariths(1))
  have run: "parseLoop H ready dropped earliest False (?i + 1) ?s ?ps = parseLoop H ready dropped earliest False (?i + 1) ?i ?ps1" for earliest
    using parse_run [of ?ps qs ?s "?i + 1" sz starts ready dropped earliest False] le assms(1,4,8) i
    by (auto simp del: of_nat_add)
  obtain jb1 where drop: "jitterBufferDropBufferData H (Some jb) ?s (?i - 1) (tsOf p) =
      (STATUS_SUCCESS, Some jb1, present lookup (pPkgBufferHashTable jb) (seq_range ?s (?i - 1)))"
    and jb1: "table_ok (pPkgBufferHashTable jb1)"
    "lookup (pPkgBufferHashTable jb1) = without (lookup (pPkgBufferHashTable jb)) (seq_range ?s (?i - 1))"
    "headSequenceNumber jb1 = ?i" "headTimestamp jb1 = tsOf p" "tailSequenceNumber jb1 = ?i" "tailTimestamp jb1 = tailTimestamp jb"
    "depayPayloadFn jb1 = depayPayloadFn jb" "customData jb1 = customData jb" "onFrameReadyFn jb1 = Some ready"
    "onFrameDroppedFn jb1 = Some dropped" "started jb1 = started jb"
    "sequenceNumberOverflowState jb1 \<longrightarrow> sequenceNumberOverflowState jb" "timestampOverFlowState jb1 \<longrightarrow> timestampOverFlowState jb"
    using jitterBufferDropBufferData_ok [OF assms(1), of ?s "?i - 1" "tsOf p"] assms(2,3) by auto
  have "unat (?i - ?s) = length qs" using assms(6) by (simp add: unat_sub word_le_nat_alt)
  then have range: "seq_range ?s (?i - 1) = seqs ?s (length qs)" by (simp add: seq_range_def)
  let ?ps3 = "?ps2\<lparr>ps_w := w', ps_jb := jb1\<lparr>firstFrameProcessed := True\<rparr>,
     ps_freed := present lookup (pPkgBufferHashTable jb) (seq_range ?s (?i - 1)),
     startDropIndex := ?i, containStartForEarliestFrame := False, curFrameSize := 0\<rparr>"
  have "curFrameSize ?ps1 = wrap32 (sum_list (map sz qs))" by (simp add: countAll_size)
  then have new: "newFrame H ready dropped earliest False ?i (tsOf p) ?ps2 = Some (Inr (False, ?ps3))" for earliest
    using assms(9,13) drop by (simp add: newFrame_def dropRange_def Let_def countAll_fields UINT16_DEC_def)
  obtain d where "depayPayloadFn jb (payload p) (payloadLength p) None (partialFrameSize ?ps3) = Some (STATUS_SUCCESS, d, sz p, starts p)"
    using assms(10) by (auto simp: sized_def dest: spec [of _ "partialFrameSize ?ps3"])
  then have "\<exists>ps4. countPacket p ?ps3 = Some (Inr ps4) \<and> ps_jb ps4 = ps_jb ?ps3 \<and> ps_w ps4 = w' \<and> ps_ret ps4 = STATUS_SUCCESS"
    using jb1(7) by (simp add: countPacket_def Let_def)
  then obtain ps4 where c: "countPacket p ?ps3 = Some (Inr ps4)" "ps_jb ps4 = ps_jb ?ps3" "ps_w ps4 = w'" "ps_ret ps4 = STATUS_SUCCESS"
    by blast
  have step: "parseLoop H ready dropped earliest False (?i + 1) ?i ?ps1 = Some (Inr ps4)" for earliest
    using assms(1,5,11) new c
    by (subst parseLoop.simps) (simp add: contains_law Let_def countAll_fields parseLoop.simps [of _ _ _ _ _ "?i + 1" "?i + 1"])
  show ?thesis
    using assms(2,3,12) run step c jb1 range
    by (simp add: jitterBufferInternalParse_def Let_def)
qed

end

subsection \<open>A stream of frames in order\<close>

text \<open>Packets numbered upwards from \<open>n\<close>, without a wrap.\<close>

fun in_seq :: "nat \<Rightarrow> RtpPacket list \<Rightarrow> bool" where
  "in_seq n [] = True"
| "in_seq n (p # ps) = (unat (seqOf p) = n \<and> in_seq (n + 1) ps)"

lemma in_seq_append: "in_seq n (xs @ ys) \<longleftrightarrow> in_seq n xs \<and> in_seq (n + length xs) ys"
  by (induction xs arbitrary: n) auto

text \<open>
  The client of an in-order stream: a ready callback that, given a complete frame, succeeds and
  takes note of it (\<open>taken fs w\<close>: the application in state \<open>w\<close> has been given exactly the frames
  \<open>fs\<close>), and packets \<open>Q\<close> that the depayloader measures consistently.
\<close>

locale in_order = packet_table H lookup table_ok
  for H :: "('h, RtpPacket) hash_ops" and lookup table_ok +
  fixes ready dropped :: "('h, 'w) frame_fn" and depay :: depay_func and cd :: nat
    and sz :: "RtpPacket \<Rightarrow> nat" and starts Q :: "RtpPacket \<Rightarrow> bool" and taken :: "RtpPacket list list \<Rightarrow> 'w \<Rightarrow> bool"
  assumes sized_law: "Q p \<Longrightarrow> sized depay sz starts p"
    and ready_law: "taken fs w \<Longrightarrow> table_ok h \<Longrightarrow> f \<noteq> [] \<Longrightarrow> \<forall>q \<in> set f. Q q \<and> tsOf q = ts \<Longrightarrow> unat s + length f < 65536 \<Longrightarrow>
      \<forall>j < length f. lookup h (unat s + j) = Some (Some (f ! j)) \<Longrightarrow>
      \<exists>w'. ready cd h w s (s + word_of_nat (length f) - 1) (wrap32 (sum_list (map sz f))) = Some (STATUS_SUCCESS, w') \<and> taken (fs @ [f]) w'"
begin

definition holding :: "('h, 'w) JitterBuffer \<Rightarrow> u16 \<Rightarrow> u32 \<Rightarrow> RtpPacket list \<Rightarrow> bool" where
  "holding jb s ts ps \<longleftrightarrow> holds_frame lookup table_ok jb s ts ps \<and> (\<forall>p \<in> set ps. Q p) \<and> (\<exists>p \<in> set ps. starts p) \<and>
     onFrameReadyFn jb = Some ready \<and> onFrameDroppedFn jb = Some dropped \<and> depayPayloadFn jb = depay \<and> customData jb = cd"

text \<open>The next packet of the current frame.\<close>

lemma push_same:
  assumes "holding jb s ts ps" "Q p" "unat (seqOf p) = unat s + length ps" "tsOf p = ts"
    and "length ps < 65000" "unat s + length ps + 1 < 65536"
  shows "\<exists>jb' freed. jitterBufferPush H (Some jb) (Some p) False w = Some (STATUS_SUCCESS, Some jb', False, w, freed) \<and>
    holding jb' s ts (ps @ [p])"
proof -
  let ?jb2 = "jb\<lparr>tailSequenceNumber := seqOf p, tailTimestamp := tsOf p\<rparr>"
  note hold = assms(1) [unfolded holding_def]
  note frame = hold [THEN conjunct1, unfolded holds_frame_def]
  have u: "updateWindow jb p = ?jb2" using updateWindow_in_order [OF hold [THEN conjunct1] assms(3)] assms(4,5) by simp
  have "headSequenceNumber jb \<le> seqOf p" "headTimestamp jb \<le> tsOf p"
    using frame assms(3,4) by (simp_all add: word_le_nat_alt)
  then obtain h freed where h: "table_ok h" "packets_ok (\<lambda>_. True) (lookup h)"
    "lookup h = (lookup (pPkgBufferHashTable jb))(unat (seqOf p) \<mapsto> Some p)"
    and push: "jitterBufferPush H (Some jb) (Some p) False w =
      map_option (\<lambda>(st, jb', w', freed'). (st, jb', False, w', freed @ freed'))
        (jitterBufferInternalParse H (Some (?jb2\<lparr>pPkgBufferHashTable := h\<rparr>)) False w)"
    using accept_at_tail [OF _ _ u, of False w] frame by auto
  let ?jb3 = "?jb2\<lparr>pPkgBufferHashTable := h\<rparr>"
  have entries: "\<forall>j < length (ps @ [p]). lookup h (unat s + j) = Some (Some ((ps @ [p]) ! j))"
    using frame assms(3) h(3) by (auto simp: nth_append less_Suc_eq)
  have "jitterBufferInternalParse H (Some ?jb3) False w = Some (STATUS_SUCCESS, Some ?jb3, w, [])"
    using hold frame entries assms sized_law h(1)
    by (intro parse_growing [where qs = "ps @ [p]" and sz = sz and starts = starts]) auto
  moreover have "holding ?jb3 s ts (ps @ [p])"
    unfolding holding_def holds_frame_def using hold frame entries assms h by auto
  ultimately show ?thesis using push by auto
qed

text \<open>The first packet of the next frame.\<close>

lemma push_next:
  assumes "holding jb s ts ps" "Q p" "starts p" "unat (seqOf p) = unat s + length ps" "ts < tsOf p" "taken fs w"
    and "length ps < 65000" "unat s + length ps + 1 < 65536"
  shows "\<exists>jb' w' freed. jitterBufferPush H (Some jb) (Some p) False w = Some (STATUS_SUCCESS, Some jb', False, w', freed) \<and>
    holding jb' (seqOf p) (tsOf p) [p] \<and> taken (fs @ [ps]) w'"
proof -
  let ?jb2 = "jb\<lparr>tailSequenceNumber := seqOf p, tailTimestamp := tsOf p\<rparr>"
  note hold = assms(1) [unfolded holding_def]
  note frame = hold [THEN conjunct1, unfolded holds_frame_def]
  have u: "updateWindow jb p = ?jb2" using updateWindow_in_order [OF hold [THEN conjunct1] assms(4)] assms(5,7) by simp
  have "headSequenceNumber jb \<le> seqOf p" "headTimestamp jb \<le> tsOf p"
    using frame assms(4,5) by (simp_all add: word_le_nat_alt word_less_nat_alt)
  then obtain h freed where h: "table_ok h" "packets_ok (\<lambda>_. True) (lookup h)"
    "lookup h = (lookup (pPkgBufferHashTable jb))(unat (seqOf p) \<mapsto> Some p)"
    and push: "jitterBufferPush H (Some jb) (Some p) False w =
      map_option (\<lambda>(st, jb', w', freed'). (st, jb', False, w', freed @ freed'))
        (jitterBufferInternalParse H (Some (?jb2\<lparr>pPkgBufferHashTable := h\<rparr>)) False w)"
    using accept_at_tail [OF _ _ u, of False w] frame by auto
  let ?jb3 = "?jb2\<lparr>pPkgBufferHashTable := h\<rparr>"
  have entries: "\<forall>j < length ps. lookup h (unat s + j) = Some (Some (ps ! j))"
    using frame assms(4) h(3) by auto
  have "seqOf p = word_of_nat (unat s + length ps)" by (simp add: assms(4) [symmetric] del: of_nat_add)
  then have e: "s + word_of_nat (length ps) - 1 = seqOf p - 1" by simp
  obtain w' where w': "ready cd h w s (seqOf p - 1) (wrap32 (sum_list (map sz ps))) = Some (STATUS_SUCCESS, w')" "taken (fs @ [ps]) w'"
    using ready_law [OF assms(6) h(1), of ps ts s] frame hold entries e by auto
  have ts: "tsOf p \<noteq> 0" "tsOf p \<noteq> headTimestamp jb" using assms(5) frame by auto
  then obtain jb' freed' where parse: "jitterBufferInternalParse H (Some ?jb3) False w = Some (STATUS_SUCCESS, Some jb', w', freed')"
    and jb': "table_ok (pPkgBufferHashTable jb')" "lookup (pPkgBufferHashTable jb') = without (lookup h) (seqs s (length ps))"
    "headSequenceNumber jb' = seqOf p" "headTimestamp jb' = tsOf p" "tailSequenceNumber jb' = seqOf p" "tailTimestamp jb' = tsOf p"
    "depayPayloadFn jb' = depay" "customData jb' = cd" "onFrameReadyFn jb' = Some ready"
    "onFrameDroppedFn jb' = Some dropped" "started jb'" "\<not> sequenceNumberOverflowState jb'" "\<not> timestampOverFlowState jb'"
    using parse_delivers [of ?jb3 ready dropped ps p sz starts w w'] w' hold frame entries assms(2-5,8) sized_law h(1,3)
    by auto
  have "seqOf p \<notin> set (seqs s (length ps))"
    using assms(4,8) by (simp add: in_seqs_iff unat_sub word_le_nat_alt)
  then have "lookup (pPkgBufferHashTable jb') (unat (seqOf p)) = Some (Some p)"
    using jb'(2) h(3) by (simp add: without_other)
  then have "holding jb' (seqOf p) (tsOf p) [p]"
    unfolding holding_def holds_frame_def
    using jb' h(2) assms(2-5,8) ts(1) by (auto simp: packets_ok_without)
  then show ?thesis using push parse w'(2) by auto
qed

text \<open>The first packet of all.\<close>

lemma push_first:
  assumes "table_ok (pPkgBufferHashTable jb)" "packets_ok (\<lambda>_. True) (lookup (pPkgBufferHashTable jb))"
    and "\<not> started jb" "tailTimestamp jb = 0" "\<not> sequenceNumberOverflowState jb" "\<not> timestampOverFlowState jb"
    and "onFrameReadyFn jb = Some ready" "onFrameDroppedFn jb = Some dropped" "depayPayloadFn jb = depay" "customData jb = cd"
    and "Q p" "starts p" "tsOf p \<noteq> 0" "unat (seqOf p) + 1 < 65536"
  shows "\<exists>jb' freed. jitterBufferPush H (Some jb) (Some p) False w = Some (STATUS_SUCCESS, Some jb', False, w, freed) \<and>
    holding jb' (seqOf p) (tsOf p) [p]"
proof -
  let ?jb2 = "jb\<lparr>started := True, headSequenceNumber := seqOf p, tailSequenceNumber := seqOf p,
    headTimestamp := tsOf p, tailTimestamp := tsOf p\<rparr>"
  have u: "updateWindow jb p = ?jb2" using assms by (intro updateWindow_first) simp_all
  obtain h freed where h: "table_ok h" "packets_ok (\<lambda>_. True) (lookup h)"
    "lookup h = (lookup (pPkgBufferHashTable jb))(unat (seqOf p) \<mapsto> Some p)"
    and push: "jitterBufferPush H (Some jb) (Some p) False w =
      map_option (\<lambda>(st, jb', w', freed'). (st, jb', False, w', freed @ freed'))
        (jitterBufferInternalParse H (Some (?jb2\<lparr>pPkgBufferHashTable := h\<rparr>)) False w)"
    using accept_at_tail [OF assms(1,2) u, of False w] assms by auto
  let ?jb3 = "?jb2\<lparr>pPkgBufferHashTable := h\<rparr>"
  have "jitterBufferInternalParse H (Some ?jb3) False w = Some (STATUS_SUCCESS, Some ?jb3, w, [])"
    using assms sized_law h by (intro parse_growing [where qs = "[p]" and sz = sz and starts = starts]) auto
  moreover have "holding ?jb3 (seqOf p) (tsOf p) [p]"
    unfolding holding_def holds_frame_def using assms h by auto
  ultimately show ?thesis using push by auto
qed

text \<open>The rest of a frame, and then frame after frame.\<close>

lemma push_rest:
  assumes "holding jb s ts ps" "\<forall>q \<in> set qs. Q q \<and> tsOf q = ts"
    and "in_seq (unat s + length ps) qs"
    and "length ps + length qs \<le> 65000" "unat s + length ps + length qs < 65536"
  shows "\<exists>jb'. push_all H (Some jb) w qs = Some (Some jb', w) \<and> holding jb' s ts (ps @ qs)"
  using assms
proof (induction qs arbitrary: jb ps)
  case Nil
  then show ?case by simp
next
  case (Cons q qs)
  obtain jb' freed where p: "jitterBufferPush H (Some jb) (Some q) False w = Some (STATUS_SUCCESS, Some jb', False, w, freed)"
    "holding jb' s ts (ps @ [q])"
    using push_same [OF Cons.prems(1), of q w] Cons.prems(2-) by (auto simp: in_seq.simps)
  then show ?case using Cons.IH [OF p(2)] Cons.prems(2-) by (simp add: in_seq.simps)
qed

definition frame_packets :: "RtpPacket list \<Rightarrow> bool" where
  "frame_packets f \<longleftrightarrow> f \<noteq> [] \<and> length f < 65000 \<and> starts (hd f) \<and> (\<forall>q \<in> set f. Q q \<and> tsOf q = tsOf (hd f))"

lemma push_all_append:
  "push_all H jb w (xs @ ys) = Option.bind (push_all H jb w xs) (\<lambda>(jb', w'). push_all H jb' w' ys)"
  by (induction xs arbitrary: jb w) (auto simp: split_def)

lemma push_frames:
  assumes "holding jb s ts f" "taken fs w" "\<forall>g \<in> set gs. frame_packets g" "length f < 65000"
    and "sorted_wrt (<) (ts # map (tsOf \<circ> hd) gs)"
    and "in_seq (unat s + length f) (concat gs)"
    and "unat s + length f + length (concat gs) < 65536"
  shows "\<exists>jb' w'. push_all H (Some jb) w (concat gs) = Some (Some jb', w') \<and> taken (fs @ butlast (f # gs)) w'"
  using assms
proof (induction gs arbitrary: jb s ts f fs w)
  case Nil
  then show ?case by simp
next
  case (Cons g gs)
  from Cons.prems(3) have fp: "frame_packets g" by simp
  then obtain p qs where g: "g = p # qs" by (cases g) (auto simp: frame_packets_def)
  have seq: "unat (seqOf p) = unat s + length f" using Cons.prems(6) g by (simp add: in_seq.simps)
  have qseq: "in_seq (unat (seqOf p) + length [p]) qs" and gseq: "in_seq (unat (seqOf p) + length g) (concat gs)"
    using Cons.prems(6) g seq by (simp_all add: in_seq.simps in_seq_append add.assoc)
  have a: "Q p" "starts p" "ts < tsOf p" "unat s + length f + 1 < 65536" "\<forall>q \<in> set qs. Q q \<and> tsOf q = tsOf p"
    "length [p] + length qs \<le> 65000" "length g < 65000" "unat (seqOf p) + length [p] + length qs < 65536"
    "sorted_wrt (<) (tsOf p # map (tsOf \<circ> hd) gs)" "unat (seqOf p) + length g + length (concat gs) < 65536"
    using fp Cons.prems(5,7) seq by (auto simp: frame_packets_def g comp_def)
  obtain jb1 w1 freed where p: "jitterBufferPush H (Some jb) (Some p) False w = Some (STATUS_SUCCESS, Some jb1, False, w1, freed)"
    "holding jb1 (seqOf p) (tsOf p) [p]" "taken (fs @ [f]) w1"
    using push_next [OF Cons.prems(1) a(1,2) seq a(3) Cons.prems(2,4) a(4)] by blast
  obtain jb2 where r: "push_all H (Some jb1) w1 qs = Some (Some jb2, w1)" "holding jb2 (seqOf p) (tsOf p) g"
    using push_rest [OF p(2) a(5) qseq a(6,8), of w1] by (auto simp: g)
  obtain jb3 w3 where "push_all H (Some jb2) w1 (concat gs) = Some (Some jb3, w3)" "taken ((fs @ [f]) @ butlast (g # gs)) w3"
    using Cons.IH [OF r(2) p(3) _ a(7,9) gseq a(10)] Cons.prems(3) by auto
  then show ?case using p(1) r(1) g by (simp add: push_all_append)
qed

lemma push_stream:
  assumes "table_ok (pPkgBufferHashTable jb)" "packets_ok (\<lambda>_. True) (lookup (pPkgBufferHashTable jb))"
    and "\<not> started jb" "tailTimestamp jb = 0" "\<not> sequenceNumberOverflowState jb" "\<not> timestampOverFlowState jb"
    and "onFrameReadyFn jb = Some ready" "onFrameDroppedFn jb = Some dropped" "depayPayloadFn jb = depay" "customData jb = cd"
    and "taken [] w" "\<forall>g \<in> set gs. frame_packets g" "sorted_wrt (<) (0 # map (tsOf \<circ> hd) gs)"
    and "in_seq n (concat gs)" "n + length (concat gs) < 65536"
  shows "\<exists>jb' w'. push_all H (Some jb) w (concat gs) = Some (Some jb', w') \<and> taken (butlast gs) w'"
proof (cases gs)
  case Nil
  then show ?thesis using assms(11) by simp
next
  case (Cons g gs')
  then have fp: "frame_packets g" using assms(12) by simp
  then obtain p qs where g: "g = p # qs" by (cases g) (auto simp: frame_packets_def)
  have seq: "unat (seqOf p) = n" using assms(14) Cons g by (simp add: in_seq.simps)
  have qseq: "in_seq (unat (seqOf p) + length [p]) qs" and gseq: "in_seq (unat (seqOf p) + length g) (concat gs')"
    using assms(14) Cons g seq by (simp_all add: in_seq.simps in_seq_append add.assoc)
  have a: "Q p" "starts p" "tsOf p \<noteq> 0" "unat (seqOf p) + 1 < 65536" "\<forall>q \<in> set qs. Q q \<and> tsOf q = tsOf p"
    "length [p] + length qs \<le> 65000" "length g < 65000" "unat (seqOf p) + length [p] + length qs < 65536"
    "sorted_wrt (<) (tsOf p # map (tsOf \<circ> hd) gs')" "unat (seqOf p) + length g + length (concat gs') < 65536"
    using fp assms(13,15) seq by (auto simp: frame_packets_def g Cons word_gt_0 comp_def)
  obtain jb1 freed where p: "jitterBufferPush H (Some jb) (Some p) False w = Some (STATUS_SUCCESS, Some jb1, False, w, freed)"
    "holding jb1 (seqOf p) (tsOf p) [p]"
    using push_first [OF assms(1-10) a(1-4), of w] by blast
  obtain jb2 where r: "push_all H (Some jb1) w qs = Some (Some jb2, w)" "holding jb2 (seqOf p) (tsOf p) g"
    using push_rest [OF p(2) a(5) qseq a(6,8), of w] by (auto simp: g)
  obtain jb3 w3 where "push_all H (Some jb2) w (concat gs') = Some (Some jb3, w3)" "taken ([] @ butlast (g # gs')) w3"
    using push_frames [OF r(2) assms(11) _ a(7,9) gseq a(10)] assms(12) Cons by auto
  then show ?thesis using p(1) r(1) Cons g by (simp add: push_all_append)
qed

end

subsection \<open>The application receives the stream\<close>

text \<open>The frame the application gets for the packets \<open>f\<close>, as the \<open>i\<close>-th one.\<close>

definition frame_of :: "(byte list \<Rightarrow> byte list) \<Rightarrow> nat \<Rightarrow> RtpPacket list \<Rightarrow> Frame" where
  "frame_of decode i f =
     \<lparr>frame_presentationTs = unat (tsOf (hd f)) * 10000, frame_frameData = concat (map (decoded decode) f),
      frame_size = total (map (decoded decode) f), frame_index = i mod 2 ^ 32\<rparr>"

definition frames_taken :: "(byte list \<Rightarrow> byte list) \<Rightarrow> RtpPacket list list \<Rightarrow> RtpReceiver \<Rightarrow> bool" where
  "frames_taken decode fs rcv \<longleftrightarrow>
     hasOnFrame rcv \<and> (\<forall>buf. peerFrameBuffer rcv = Some buf \<longrightarrow> length buf = peerFrameBufferSize rcv) \<and>
     (peerFrameBuffer rcv = None \<longrightarrow> peerFrameBufferSize rcv = 0) \<and>
     jitterBufferEmittedCount rcv = wrap64 (length fs) \<and>
     delivered rcv = map (\<lambda>(i, f). frame_of decode i f) (enumerate 0 fs)"

text \<open>
  A receiver whose depayloader also reports where a frame starts, never returns an empty
  payload, and whose allocations succeed.
\<close>

locale delivering_receiver = rtp_receiver H lookup table_ok depay decode packet_ok P garbage "\<lambda>_. True"
  for H :: "('h, RtpPacket) hash_ops" and lookup table_ok depay decode packet_ok P garbage +
  fixes starts :: "byte list \<Rightarrow> bool" and cd :: nat
  assumes decoder_start: "packet_ok b \<Longrightarrow> depay (Some b) (length b) None k = Some (STATUS_SUCCESS, None, length (decode b), starts b)"
    and decoder_nonempty: "packet_ok b \<Longrightarrow> decode b \<noteq> []"
    and memory: "memalloc P n" and custom: "cd \<noteq> 0"
begin

lemma total_bound: "\<forall>q \<in> set f. Q q \<Longrightarrow> total (map (decoded decode) f) \<le> length f * 2 ^ 15"
  by (induction f) (auto simp: payload_ok_def decoded_def)

lemma onFrameReadyFunc_delivers:
  assumes "frames_taken decode fs rcv" "table_ok h" "f \<noteq> []" "\<forall>q \<in> set f. Q q \<and> tsOf q = ts" "unat s + length f < 65536"
    and "\<forall>j < length f. lookup h (unat s + j) = Some (Some (f ! j))"
  shows "\<exists>rcv'. onFrameReadyFunc H P depay garbage cd h rcv s (s + word_of_nat (length f) - 1)
       (wrap32 (sum_list (map (length \<circ> decoded decode) f))) = Some (STATUS_SUCCESS, rcv') \<and> frames_taken decode (fs @ [f]) rcv'"
proof -
  define data where "data = concat (map (decoded decode) f)"
  define sz where "sz = total (map (decoded decode) f)"
  have bound: "sz \<le> 65536 * 2 ^ 15"
    using total_bound [of f] assms(4,5) by (simp add: sz_def)
  then have sz: "wrap32 (sum_list (map (length \<circ> decoded decode) f)) = sz" by (simp add: sz_def total_def comp_def)
  have len: "length data = sz" by (simp add: data_def sz_def)
  have nonempty: "0 < sz"
    using assms(3,4) decoder_nonempty by (cases f) (auto simp: sz_def payload_ok_def decoded_def)
  have u: "unat (s + word_of_nat k) = unat s + k" if "k < length f" for k
    using that assms(5) by (simp add: unat_word_ariths(1) unat_of_nat)
  have "seq_range s (s + word_of_nat (length f) - 1) = seqs s (length f)"
    using assms(5) by (simp add: seq_range_def unat_of_nat)
  then have range: "map (\<lambda>i. lookup h (unat i)) (seq_range s (s + word_of_nat (length f) - 1)) = map (\<lambda>p. Some (Some p)) f"
    using assms(6) u by (auto intro!: nth_equalityI simp: seqs_def)
  have fill: "fillFrame H depay h buf sz s (s + word_of_nat (length f) - 1) = Some (STATUS_SUCCESS, data @ drop sz buf, sz)"
    if "sz \<le> length buf" for buf
    using fillFrame_ok [OF assms(2) range, of depay "decoded decode" sz buf] assms(4) bound that payload_decodes
    by (simp add: data_def sz_def)
  have grow: "grownFrameBufferSize sz = Some (sz * 3 div 2)" "sz \<le> sz * 3 div 2"
    using bound by (auto simp: grownFrameBufferSize_def)
  have "lookup h (unat s) = Some (Some (hd f))" using assms(3) assms(6) [rule_format, of 0] by (simp add: hd_conv_nth)
  then have get: "callbackPacket H h s = Some (Inr (hd f))" using assms(2) by (simp add: callbackPacket_def)
  have data: "take sz (data @ rest) = data" for rest using len by simp
  have "wrap64 (length fs) mod 2 ^ 32 = length fs mod 2 ^ 32" by (simp add: wrap64_def mod_mod_cancel)
  then have fr: "\<lparr>frame_presentationTs = unat (tsOf (hd f)) * 10000, frame_frameData = data, frame_size = sz,
      frame_index = wrap64 (length fs) mod 2 ^ 32\<rparr> = frame_of decode (length fs) f"
    by (simp add: frame_of_def data_def sz_def)
  have cnt: "wrap64 (wrap64 (length fs) + 1) = wrap64 (length (fs @ [f]))"
    by (simp add: wrap64_def mod_Suc_eq)
  show ?thesis
    unfolding sz
    using assms(1) grow(2) garbage_length len nonempty custom memory fr cnt
    by (cases "peerFrameBuffer rcv")
       (auto simp: onFrameReadyFunc_def Let_def get frames_taken_def data fill grow(1) enumerate_append_eq)
qed

end

sublocale delivering_receiver \<subseteq> stream: in_order H lookup table_ok "onFrameReadyFunc H P depay garbage" "onFrameDroppedFunc H"
  depay cd "length \<circ> decoded decode" "\<lambda>p. starts (case payload p of None \<Rightarrow> [] | Some b \<Rightarrow> b)" "payload_ok packet_ok decode"
  "frames_taken decode"
proof (unfold_locales, goal_cases)
  case (1 p)
  then show ?case using decoder_start by (auto simp: sized_def payload_ok_def decoded_def)
next
  case (2 fs w h f ts s)
  then show ?case using onFrameReadyFunc_delivers [of fs w h f ts s] by auto
qed

context delivering_receiver
begin

lemma stream_delivered:
  assumes "table_ok (pPkgBufferHashTable jb)" "packets_ok (\<lambda>_. True) (lookup (pPkgBufferHashTable jb))" "\<not> started jb"
    and "tailTimestamp jb = 0" "\<not> sequenceNumberOverflowState jb" "\<not> timestampOverFlowState jb"
    and "onFrameReadyFn jb = Some (onFrameReadyFunc H P depay garbage)" "onFrameDroppedFn jb = Some (onFrameDroppedFunc H)"
    and "depayPayloadFn jb = depay" "customData jb = cd"
    and "\<forall>g \<in> set gs. g \<noteq> [] \<and> length g < 65000 \<and> (\<exists>b. payload (hd g) = Some b \<and> starts b) \<and>
      (\<forall>q \<in> set g. payload_ok packet_ok decode q \<and> tsOf q = tsOf (hd g))"
    and "sorted_wrt (<) (0 # map (tsOf \<circ> hd) gs)" "in_seq n (concat gs)" "n + length (concat gs) < 65536"
    and "frames_taken decode [] rcv"
  shows "\<exists>jb' rcv'. push_all H (Some jb) rcv (concat gs) = Some (Some jb', rcv') \<and>
    delivered rcv' = map (\<lambda>(i, f). frame_of decode i f) (enumerate 0 (butlast gs))"
proof -
  have "\<forall>g \<in> set gs. stream.frame_packets g"
  proof
    fix g assume "g \<in> set gs"
    with assms(11) have g: "g \<noteq> []" "length g < 65000" "\<exists>b. payload (hd g) = Some b \<and> starts b"
      "\<forall>q \<in> set g. payload_ok packet_ok decode q \<and> tsOf q = tsOf (hd g)"
      by blast+
    from g(3) have "starts (case payload (hd g) of None \<Rightarrow> [] | Some b \<Rightarrow> b)" by auto
    with g show "stream.frame_packets g" unfolding stream.frame_packets_def by blast
  qed
  from stream.push_stream [OF assms(1-10) assms(15) this assms(12-14)] show ?thesis unfolding frames_taken_def by blast
qed

end

interpretation opus_stream: delivering_receiver "chained_table n" chained_lookup "\<lambda>h. h \<noteq> []" depayOpusFromRtpPayload "\<lambda>b. b"
  "\<lambda>b. b \<noteq> [] \<and> length b < 2 ^ 32" little_endian_host "\<lambda>n. replicate n 0" "\<lambda>_. True" 1
  for n
  by unfold_locales (simp_all add: depayOpusFromRtpPayload_def little_endian_host_def)

lemma create_stream_ready:
  assumes "delivering_receiver H lookup table_ok depay decode packet_ok P garbage starts cd"
    and "createJitterBuffer H P fresh (Some (onFrameReadyFunc H P depay garbage)) (Some (onFrameDroppedFunc H)) (Some depay)
      lat rate cd = Some (STATUS_SUCCESS, Some jb)"
  shows "table_ok (pPkgBufferHashTable jb) \<and> packets_ok (\<lambda>_. True) (lookup (pPkgBufferHashTable jb)) \<and> \<not> started jb \<and>
    tailTimestamp jb = 0 \<and> \<not> sequenceNumberOverflowState jb \<and> \<not> timestampOverFlowState jb \<and>
    onFrameReadyFn jb = Some (onFrameReadyFunc H P depay garbage) \<and> onFrameDroppedFn jb = Some (onFrameDroppedFunc H) \<and>
    depayPayloadFn jb = depay \<and> customData jb = cd"
proof -
  have "hash_table H lookup table_ok"
    using assms(1) by (simp add: delivering_receiver_def rtp_receiver_def packet_table_def)
  then obtain h where "hashTableCreate H = (STATUS_SUCCESS, h)" "table_ok h" "lookup h = (\<lambda>_. None)"
    using hash_table.create_law by blast
  then show ?thesis
    using assms(2) by (auto simp: createJitterBuffer_def packets_ok_empty Let_def split: if_splits)
qed

subsection \<open>Properties\<close>

text \<open>
  C21. Delivery in order.  When the packets of a sequence of frames arrive in order and without
  loss (numbered upwards from \<open>n\<close> without a wrap, timestamps increasing from frame to frame
  and not zero, every frame begun by a packet that the depayloader recognises as a start), the
  application has been given, after the last packet, exactly all frames but the last one: in
  order, each once, with the whole decoded payload, its size, presentation time and index.
\<close>

theorem in_order_stream_delivered:
  assumes "delivering_receiver H lookup table_ok depay decode packet_ok P garbage starts cd"
    and "createJitterBuffer H P fresh (Some (onFrameReadyFunc H P depay garbage)) (Some (onFrameDroppedFunc H)) (Some depay)
      lat rate cd = Some (STATUS_SUCCESS, Some jb)"
    and "\<forall>g \<in> set gs. g \<noteq> [] \<and> length g < 65000 \<and> (\<exists>b. payload (hd g) = Some b \<and> starts b) \<and>
      (\<forall>q \<in> set g. payload_ok packet_ok decode q \<and> tsOf q = tsOf (hd g))"
    and "sorted_wrt (<) (0 # map (tsOf \<circ> hd) gs)" "in_seq n (concat gs)" "n + length (concat gs) < 65536"
    and "frames_taken decode [] rcv"
  shows "\<exists>jb' rcv'. push_all H (Some jb) rcv (concat gs) = Some (Some jb', rcv') \<and>
    delivered rcv' = map (\<lambda>(i, f). frame_of decode i f) (enumerate 0 (butlast gs))"
proof -
  note ready = create_stream_ready [OF assms(1,2)]
  show ?thesis
    by (rule delivering_receiver.stream_delivered [OF assms(1) _ _ _ _ _ _ _ _ _ _ assms(3-)]) (use ready in blast)+
qed

theorem in_order_stream_delivered_witness:
  "\<exists>jb' rcv'. push_all (chained_table 3) (Some opus_buffer) idle_receiver
      [sample_packet\<lparr>header := (header sample_packet)\<lparr>sequenceNumber := 7, timestamp := 960\<rparr>\<rparr>,
       sample_packet\<lparr>header := (header sample_packet)\<lparr>sequenceNumber := 8, timestamp := 1920\<rparr>\<rparr>] = Some (Some jb', rcv') \<and>
    delivered rcv' =
      [\<lparr>frame_presentationTs = 9600000, frame_frameData = [1, 2, 3], frame_size = 3, frame_index = 0\<rparr>]"
  using in_order_stream_delivered [OF opus_stream.delivering_receiver_axioms opus_buffer_created,
      of "[[sample_packet\<lparr>header := (header sample_packet)\<lparr>sequenceNumber := 7, timestamp := 960\<rparr>\<rparr>],
           [sample_packet\<lparr>header := (header sample_packet)\<lparr>sequenceNumber := 8, timestamp := 1920\<rparr>\<rparr>]]" 7 idle_receiver]
  by (simp add: payload_ok_def sample_packet_def idle_receiver_def frames_taken_def frame_of_def decoded_def wrap64_def numeral_3_eq_3)

end
