(* ===== verification/Twcc.thy ===== *)
theory Twcc
  imports HashTable RtpPacket RtcpPacket
begin

text \<open>
  Transport-wide congestion control on the sending side: the book-keeping of sent packets
  (\<^verbatim>\<open>twccManagerOnPacketSent\<close>, \<^verbatim>\<open>twccRollingWindowDeletion\<close> of
  \<^verbatim>\<open>src/source/PeerConnection/PeerConnection.c\<close>), the parser of feedback reports and the
  bandwidth statistics (\<^verbatim>\<open>parseRtcpTwccPacket\<close>, \<^verbatim>\<open>updateTwccHashTable\<close>, \<^verbatim>\<open>onRtcpTwccPacket\<close> of
  \<^verbatim>\<open>src/source/PeerConnection/Rtcp.c\<close>).

  The table of sent packets is a PIC hash table (parameter \<open>H\<close>); a stored pointer is the
  \<open>TwccRtpPacketInfo\<close> itself, which the code always writes back after changing it.
  \<open>TwccPeer\<close> is the part of \<^verbatim>\<open>KvsPeerConnection\<close> these functions use; the calls of
  \<^verbatim>\<open>onSenderBandwidthEstimation\<close> are collected in \<open>estimates\<close>.  Times are \<^verbatim>\<open>UINT64\<close> values
  of 100 ns; \<open>None\<close> is a read outside the report or of an uninitialised variable.
\<close>

subsection \<open>Data\<close>

record TwccRtpPacketInfo =
  localTimeKvs :: nat
  remoteTimeKvs :: nat
  packetSize :: nat

record 'h TwccManager =
  pTwccRtpPktInfosHashTable :: 'h
  firstSeqNumInRollingWindow :: u16
  lastReportedSeqNum :: u16
  prevReportedBaseSeqNum :: u16

record TwccEstimate =
  est_sentBytes :: nat
  est_receivedBytes :: nat
  est_sentPackets :: nat
  est_receivedPackets :: nat
  est_duration :: int

record 'h TwccPeer =
  twccExtId :: u16
  transportWideSequenceNumber :: nat
  pTwccManager :: "'h TwccManager option"
  hasOnSenderBandwidthEstimation :: bool
  estimates :: "TwccEstimate list"

abbreviation (input) TWCC_PACKET_LOST_TIME :: nat where "TWCC_PACKET_LOST_TIME \<equiv> 18446744073709551615"
abbreviation (input) TWCC_PACKET_UNITIALIZED_TIME :: nat where "TWCC_PACKET_UNITIALIZED_TIME \<equiv> 0"
abbreviation (input) TWCC_ESTIMATOR_TIME_WINDOW :: nat where "TWCC_ESTIMATOR_TIME_WINDOW \<equiv> 10000000"
abbreviation (input) TWCC_EXT_PROFILE :: u16 where "TWCC_EXT_PROFILE \<equiv> 0xBEDE"
abbreviation (input) MIN_INT16 :: int where "MIN_INT16 \<equiv> - 32768"

definition SIZEOF_TwccRtpPacketInfo :: nat where
  "SIZEOF_TwccRtpPacketInfo = 24"

subsection \<open>Packet status chunks\<close>

definition IS_TWCC_RUNLEN :: "u32 \<Rightarrow> bool" where
  "IS_TWCC_RUNLEN packetChunk = (drop_bit 15 packetChunk AND 1 = 0)"

definition TWCC_RUNLEN_STATUS_SYMBOL :: "u32 \<Rightarrow> u32" where
  "TWCC_RUNLEN_STATUS_SYMBOL packetChunk = drop_bit 13 packetChunk AND 3"

definition TWCC_RUNLEN_GET :: "u32 \<Rightarrow> u32" where
  "TWCC_RUNLEN_GET packetChunk = packetChunk AND 0x1fff"

definition TWCC_STATUSVECTOR_IS_2BIT :: "u32 \<Rightarrow> bool" where
  "TWCC_STATUSVECTOR_IS_2BIT packetChunk = (drop_bit 14 packetChunk AND 1 \<noteq> 0)"

definition TWCC_STATUSVECTOR_SSIZE :: "u32 \<Rightarrow> nat" where
  "TWCC_STATUSVECTOR_SSIZE packetChunk = (if TWCC_STATUSVECTOR_IS_2BIT packetChunk then 2 else 1)"

definition TWCC_STATUSVECTOR_SMASK :: "u32 \<Rightarrow> u32" where
  "TWCC_STATUSVECTOR_SMASK packetChunk = (if TWCC_STATUSVECTOR_IS_2BIT packetChunk then 2 else 1)"

definition TWCC_STATUSVECTOR_STATUS :: "u32 \<Rightarrow> nat \<Rightarrow> u32" where
  "TWCC_STATUSVECTOR_STATUS packetChunk i =
     drop_bit (14 - i * TWCC_STATUSVECTOR_SSIZE packetChunk) packetChunk AND TWCC_STATUSVECTOR_SMASK packetChunk"

definition TWCC_STATUSVECTOR_COUNT :: "u32 \<Rightarrow> int" where
  "TWCC_STATUSVECTOR_COUNT packetChunk = (if TWCC_STATUSVECTOR_IS_2BIT packetChunk then 7 else 14)"

definition TWCC_SEQNUM :: "platform \<Rightarrow> byte list \<Rightarrow> u16 option" where
  "TWCC_SEQNUM P extPayload = rdUnalignedInt16 P extPayload 1"

subsection \<open>Sent packets\<close>

text \<open>One sequence number of the window: the new table, the released packets, and whether to stop.\<close>

definition twccWindowStep ::
  "('h, TwccRtpPacketInfo) hash_ops \<Rightarrow> 'h \<Rightarrow> nat \<Rightarrow> u16 \<Rightarrow> STATUS + 'h \<times> TwccRtpPacketInfo list \<times> bool" where
  "twccWindowStep H h sent updatedSeqNum =
     (case hashTableGet H h (unat updatedSeqNum) of
        Inl _ \<Rightarrow> Inr (h, [], False)
      | Inr None \<Rightarrow>
          (case hashTableRemove H h (unat updatedSeqNum) of
             (st, h') \<Rightarrow> if STATUS_FAILED st then Inl st else Inr (h', [], False))
      | Inr (Some info) \<Rightarrow>
          if sent \<ge> localTimeKvs info then
            (if sent - localTimeKvs info > TWCC_ESTIMATOR_TIME_WINDOW
             then (case hashTableRemove H h (unat updatedSeqNum) of
                     (st, h') \<Rightarrow> Inr (h', if STATUS_SUCCEEDED st then [info] else [], False))
             else Inr (h, [], True))
          else Inr (h, [], False))"

text \<open>The \<^verbatim>\<open>do ... while\<close> loop; the result is the table, the sequence number it stopped at and the released packets.\<close>

lemma window_measure: "(u :: u16) + 1 \<noteq> endSeq + 1 \<Longrightarrow> unat (endSeq - (u + 1)) < unat (endSeq - u)"
  using measure_unat [of "endSeq - u"] by (simp add: diff_diff_eq)

function twccWindowLoop ::
  "('h, TwccRtpPacketInfo) hash_ops \<Rightarrow> nat \<Rightarrow> u16 \<Rightarrow> 'h \<Rightarrow> u16 \<Rightarrow> TwccRtpPacketInfo list \<Rightarrow>
   (STATUS \<times> 'h \<times> TwccRtpPacketInfo list) + 'h \<times> u16 \<times> TwccRtpPacketInfo list" where
  "twccWindowLoop H sent endingSeqNum h updatedSeqNum freed =
     (case twccWindowStep H h sent updatedSeqNum of
        Inl st \<Rightarrow> Inl (st, h, freed)
      | Inr (h', freed', isCheckComplete) \<Rightarrow>
          if isCheckComplete then Inr (h', updatedSeqNum, freed @ freed')
          else if updatedSeqNum + 1 \<noteq> endingSeqNum + 1
          then twccWindowLoop H sent endingSeqNum h' (updatedSeqNum + 1) (freed @ freed')
          else Inr (h', updatedSeqNum + 1, freed @ freed'))"
  by pat_completeness auto
termination
  by (relation "measure (\<lambda>(H, sent, endingSeqNum, h, updatedSeqNum, freed). unat (endingSeqNum - updatedSeqNum))")
     (auto intro: window_measure)

declare twccWindowLoop.simps [simp del]

definition twccRollingWindowDeletion ::
  "('h, TwccRtpPacketInfo) hash_ops \<Rightarrow> 'h TwccPeer option \<Rightarrow> RtpPacket option \<Rightarrow> u16 \<Rightarrow>
   STATUS \<times> 'h TwccPeer option \<times> TwccRtpPacketInfo list" where
  "twccRollingWindowDeletion H pKvsPeerConnection pRtpPacket endingSeqNum =
     (case (pKvsPeerConnection, pRtpPacket) of
        (Some pc, Some pkt) \<Rightarrow>
          (case pTwccManager pc of
             None \<Rightarrow> (STATUS_NULL_ARG, Some pc, [])
           | Some mgr \<Rightarrow>
               (case twccWindowLoop H (sentTime pkt) endingSeqNum (pTwccRtpPktInfosHashTable mgr)
                       (firstSeqNumInRollingWindow mgr) [] of
                  Inl (st, h, freed) \<Rightarrow>
                    (st, Some (pc\<lparr>pTwccManager := Some (mgr\<lparr>pTwccRtpPktInfosHashTable := h\<rparr>)\<rparr>), freed)
                | Inr (h, updatedSeqNum, freed) \<Rightarrow>
                    (STATUS_SUCCESS,
                     Some (pc\<lparr>pTwccManager := Some (mgr\<lparr>pTwccRtpPktInfosHashTable := h,
                       firstSeqNumInRollingWindow := updatedSeqNum\<rparr>)\<rparr>), freed)))
      | _ \<Rightarrow> (STATUS_NULL_ARG, pKvsPeerConnection, []))"

definition twccManagerOnPacketSent ::
  "('h, TwccRtpPacketInfo) hash_ops \<Rightarrow> platform \<Rightarrow> 'h TwccPeer option \<Rightarrow> RtpPacket option \<Rightarrow>
   (STATUS \<times> 'h TwccPeer option \<times> TwccRtpPacketInfo list) option" where
  "twccManagerOnPacketSent H P pKvsPeerConnection pRtpPacket =
     (case (pKvsPeerConnection, pRtpPacket) of
        (Some pc, Some pkt) \<Rightarrow>
          (case pTwccManager pc of
             None \<Rightarrow> Some (STATUS_SUCCESS, Some pc, [])
           | Some mgr \<Rightarrow>
               if \<not> hasOnSenderBandwidthEstimation pc then Some (STATUS_SUCCESS, Some pc, [])
               else if extensionProfile (header pkt) \<noteq> TWCC_EXT_PROFILE then Some (STATUS_SUCCESS, Some pc, [])
               else if \<not> memalloc P SIZEOF_TwccRtpPacketInfo then Some (STATUS_NOT_ENOUGH_MEMORY, Some pc, [])
               else do {
                 ext \<leftarrow> extensionPayload (header pkt);
                 seqNum \<leftarrow> TWCC_SEQNUM P ext;
                 let info = \<lparr>localTimeKvs = sentTime pkt, remoteTimeKvs = TWCC_PACKET_LOST_TIME, packetSize = payloadLength pkt\<rparr>;
                 case hashTableUpsert H (pTwccRtpPktInfosHashTable mgr) (unat seqNum) (Some info) of
                   (st, h) \<Rightarrow>
                     let pc1 = pc\<lparr>pTwccManager := Some (mgr\<lparr>pTwccRtpPktInfosHashTable := h\<rparr>)\<rparr> in
                     if STATUS_FAILED st then Some (st, Some pc1, [])
                     else Some (twccRollingWindowDeletion H (Some pc1) (Some pkt) seqNum) })
      | _ \<Rightarrow> Some (STATUS_NULL_ARG, pKvsPeerConnection, []))"

subsection \<open>Feedback reports\<close>

text \<open>The position in a report, with the table: what both inner loops of the parser carry.\<close>

record 'h TwccCursor =
  tw_mgr :: "'h TwccManager"
  packetSeqNum :: u16
  packetsRemaining :: int
  recvOffset :: nat
  referenceTime :: nat

text \<open>The packet of the current sequence number gets a remote time, if it is still in the table.\<close>

definition twccSetRemoteTime ::
  "('h, TwccRtpPacketInfo) hash_ops \<Rightarrow> nat \<Rightarrow> 'h TwccCursor \<Rightarrow> STATUS \<times> 'h TwccCursor" where
  "twccSetRemoteTime H t cur =
     (let mgr = tw_mgr cur; h = pTwccRtpPktInfosHashTable mgr; key = unat (packetSeqNum cur);
          (st, h') = (case hashTableGet H h key of
                        Inr (Some info) \<Rightarrow> hashTableUpsert H h key (Some (info\<lparr>remoteTimeKvs := t\<rparr>))
                      | _ \<Rightarrow> (STATUS_SUCCESS, h))
      in if STATUS_FAILED st then (st, cur\<lparr>tw_mgr := mgr\<lparr>pTwccRtpPktInfosHashTable := h'\<rparr>\<rparr>)
         else (STATUS_SUCCESS,
           cur\<lparr>tw_mgr := mgr\<lparr>pTwccRtpPktInfosHashTable := h', lastReportedSeqNum := packetSeqNum cur\<rparr>\<rparr>))"

text \<open>\<^verbatim>\<open>recvDelta * 10000000 / 4000\<close> is exact, so the direction of rounding does not matter.\<close>

definition twccAdvance :: "nat \<Rightarrow> int \<Rightarrow> nat" where
  "twccAdvance t recvDelta = nat ((int t + recvDelta * 10000000 div 4000) mod 2 ^ 64)"

text \<open>The body of both inner loops for one status symbol.\<close>

definition twccSymbol ::
  "('h, TwccRtpPacketInfo) hash_ops \<Rightarrow> platform \<Rightarrow> byte list \<Rightarrow> u32 \<Rightarrow> 'h TwccCursor \<Rightarrow> (STATUS \<times> 'h TwccCursor) option" where
  "twccSymbol H P report statusSymbol cur =
     do {
       (st, recvDelta, cur1) \<leftarrow>
         (if statusSymbol = 1 then
            do { b \<leftarrow> rd report (recvOffset cur);
                 Some (STATUS_SUCCESS, int (unat b), cur\<lparr>recvOffset := recvOffset cur + 1\<rparr>) }
          else if statusSymbol = 2 then
            do { w \<leftarrow> rdUnalignedInt16 P report (recvOffset cur);
                 Some (STATUS_SUCCESS, sint w, cur\<lparr>recvOffset := recvOffset cur + 2\<rparr>) }
          else if statusSymbol = 0 then
            (case twccSetRemoteTime H TWCC_PACKET_LOST_TIME cur of (st, c) \<Rightarrow> Some (st, MIN_INT16, c))
          else Some (STATUS_SUCCESS, MIN_INT16, cur));
       if STATUS_FAILED st then Some (st, cur1)
       else
         (case (if recvDelta \<noteq> MIN_INT16
                then twccSetRemoteTime H (twccAdvance (referenceTime cur1) recvDelta)
                       (cur1\<lparr>referenceTime := twccAdvance (referenceTime cur1) recvDelta\<rparr>)
                else (STATUS_SUCCESS, cur1)) of
            (st2, cur2) \<Rightarrow>
              if STATUS_FAILED st2 then Some (st2, cur2)
              else Some (STATUS_SUCCESS, cur2\<lparr>packetSeqNum := packetSeqNum cur2 + 1,
                                              packetsRemaining := packetsRemaining cur2 - 1\<rparr>)) }"

fun twccSymbols ::
  "('h, TwccRtpPacketInfo) hash_ops \<Rightarrow> platform \<Rightarrow> byte list \<Rightarrow> u32 list \<Rightarrow> 'h TwccCursor \<Rightarrow> (STATUS \<times> 'h TwccCursor) option" where
  "twccSymbols H P report [] cur = Some (STATUS_SUCCESS, cur)"
| "twccSymbols H P report (s # ss) cur =
     do { (st, cur') \<leftarrow> twccSymbol H P report s cur;
          if STATUS_FAILED st then Some (st, cur') else twccSymbols H P report ss cur' }"

text \<open>The status symbols one chunk contributes, given how many packets are left.\<close>

definition chunkSymbols :: "u32 \<Rightarrow> int \<Rightarrow> u32 list" where
  "chunkSymbols packetChunk remaining =
     (if IS_TWCC_RUNLEN packetChunk
      then replicate (unat (TWCC_RUNLEN_GET packetChunk)) (TWCC_RUNLEN_STATUS_SYMBOL packetChunk)
      else map (TWCC_STATUSVECTOR_STATUS packetChunk) [0..<nat (min (TWCC_STATUSVECTOR_COUNT packetChunk) remaining)])"

text \<open>The first pass finds the end of the chunks, which is where the receive deltas begin.\<close>

function twccChunkEnd :: "platform \<Rightarrow> byte list \<Rightarrow> nat \<Rightarrow> nat \<Rightarrow> int \<Rightarrow> nat option" where
  "twccChunkEnd P report payloadLen chunkOffset remaining =
     (if remaining > 0 \<and> chunkOffset < payloadLen then
        do { w \<leftarrow> rdUnalignedInt16 P report chunkOffset;
             let packetChunk = (ucast w :: u32);
             twccChunkEnd P report payloadLen (chunkOffset + 2)
               (if IS_TWCC_RUNLEN packetChunk then remaining - int (unat (TWCC_RUNLEN_GET packetChunk))
                else remaining - min (TWCC_STATUSVECTOR_COUNT packetChunk) remaining) }
      else Some chunkOffset)"
  by pat_completeness auto
termination
  by (relation "measure (\<lambda>(P, report, payloadLen, chunkOffset, remaining). payloadLen - chunkOffset)") auto

declare twccChunkEnd.simps [simp del]

text \<open>The second pass has no bound on the offset: it ends with the packets or by leaving the report.\<close>

function twccChunks ::
  "('h, TwccRtpPacketInfo) hash_ops \<Rightarrow> platform \<Rightarrow> byte list \<Rightarrow> nat \<Rightarrow> 'h TwccCursor \<Rightarrow> (STATUS \<times> 'h TwccCursor) option" where
  "twccChunks H P report chunkOffset cur =
     (if packetsRemaining cur > 0 then
        (if chunkOffset + 2 \<le> length report then
           do { w \<leftarrow> rdUnalignedInt16 P report chunkOffset;
                (st, cur') \<leftarrow> twccSymbols H P report (chunkSymbols (ucast w) (packetsRemaining cur)) cur;
                if STATUS_FAILED st then Some (st, cur') else twccChunks H P report (chunkOffset + 2) cur' }
         else None)
      else Some (STATUS_SUCCESS, cur))"
  by pat_completeness auto
termination
  by (relation "measure (\<lambda>(H, P, report, chunkOffset, cur). length report - chunkOffset)") auto

declare twccChunks.simps [simp del]

definition parseRtcpTwccPacket ::
  "('h, TwccRtpPacketInfo) hash_ops \<Rightarrow> platform \<Rightarrow> RtcpPacket option \<Rightarrow> 'h TwccManager option \<Rightarrow>
   (STATUS \<times> 'h TwccManager option) option" where
  "parseRtcpTwccPacket H P pRtcpPacket pManager =
     (case (pManager, pRtcpPacket) of
        (Some mgr, Some pkt) \<Rightarrow>
          do {
            baseSeqNum \<leftarrow> rdUnalignedInt16 P (rtcpPayload pkt) 8;
            packetStatusCount \<leftarrow> rdUnalignedInt16 P (rtcpPayload pkt) 10;
            b12 \<leftarrow> rd (rtcpPayload pkt) 12; b13 \<leftarrow> rd (rtcpPayload pkt) 13; b14 \<leftarrow> rd (rtcpPayload pkt) 14;
            let reference = unat (be32 0 b12 b13 b14) * 64 * 10000000 div 1000;
            recv \<leftarrow> twccChunkEnd P (rtcpPayload pkt) (rtcpPayloadLength pkt) 16 (int (unat packetStatusCount));
            (st, cur) \<leftarrow> twccChunks H P (rtcpPayload pkt) 16
              \<lparr>tw_mgr = mgr\<lparr>prevReportedBaseSeqNum := baseSeqNum\<rparr>, packetSeqNum = baseSeqNum,
               packetsRemaining = int (unat packetStatusCount), recvOffset = recv, referenceTime = reference\<rparr>;
            Some (st, Some (tw_mgr cur)) }
      | _ \<Rightarrow> Some (STATUS_NULL_ARG, pManager))"

subsection \<open>Statistics of a report\<close>

text \<open>The out-parameters and local variables of \<^verbatim>\<open>updateTwccHashTable\<close>; \<open>localStart\<close> is \<open>None\<close> while it is uninitialised.\<close>

record 'h TwccTally =
  tly_table :: 'h
  tly_freed :: "TwccRtpPacketInfo list"
  localStart :: "nat option"
  localStartTimeRecorded :: bool
  tly_duration :: int
  tly_receivedBytes :: nat
  tly_receivedPackets :: nat
  tly_sentBytes :: nat
  tly_sentPackets :: nat

definition to_int64 :: "nat \<Rightarrow> int" where
  "to_int64 n = (if n < 2 ^ 63 then int n else int n - 2 ^ 64)"

text \<open>\<^verbatim>\<open>seqNum - 1\<close> is computed as an \<^verbatim>\<open>int\<close>, so for sequence number 0 the key is \<^verbatim>\<open>(UINT64) -1\<close>.\<close>

definition prevKey :: "u16 \<Rightarrow> nat" where
  "prevKey seqNum = (if seqNum = 0 then 2 ^ 64 - 1 else unat seqNum - 1)"

text \<open>
  Looking for the start time.  An error of \<^verbatim>\<open>hashTableGet\<close> other than an absent key would make
  the code use the pointer of an earlier iteration: \<open>None\<close>, like a read of the uninitialised variable.
\<close>

definition twccFindStart ::
  "('h, TwccRtpPacketInfo) hash_ops \<Rightarrow> u16 \<Rightarrow> 'h TwccTally \<Rightarrow> 'h TwccTally option" where
  "twccFindStart H seqNum ty =
     (if localStartTimeRecorded ty then Some ty
      else do {
        ty1 \<leftarrow> (case hashTableGet H (tly_table ty) (prevKey seqNum) of
                  Inl st \<Rightarrow> if st = STATUS_HASH_KEY_NOT_PRESENT
                            then Some (ty\<lparr>localStart := Some TWCC_PACKET_UNITIALIZED_TIME\<rparr>) else None
                | Inr None \<Rightarrow> Some ty
                | Inr (Some info) \<Rightarrow> Some (ty\<lparr>localStart := Some (localTimeKvs info), localStartTimeRecorded := True\<rparr>));
        start \<leftarrow> localStart ty1;
        Some (if start = TWCC_PACKET_UNITIALIZED_TIME
              then (case hashTableGet H (tly_table ty1) (unat seqNum) of
                      Inr (Some info) \<Rightarrow> ty1\<lparr>localStart := Some (localTimeKvs info), localStartTimeRecorded := True\<rparr>
                    | _ \<Rightarrow> ty1)
              else ty1) })"

definition twccCount ::
  "('h, TwccRtpPacketInfo) hash_ops \<Rightarrow> u16 \<Rightarrow> 'h TwccTally \<Rightarrow> (STATUS \<times> 'h TwccTally) option" where
  "twccCount H seqNum ty =
     (case hashTableGet H (tly_table ty) (unat seqNum) of
        Inl _ \<Rightarrow> Some (STATUS_SUCCESS, ty)
      | Inr None \<Rightarrow>
          (case hashTableRemove H (tly_table ty) (unat seqNum) of
             (st, h) \<Rightarrow> Some (st, ty\<lparr>tly_table := h\<rparr>))
      | Inr (Some info) \<Rightarrow>
          do { start \<leftarrow> localStart ty;
               let ty1 = ty\<lparr>tly_duration := to_int64 (sub64 (localTimeKvs info) start),
                            tly_sentBytes := wrap64 (tly_sentBytes ty + packetSize info),
                            tly_sentPackets := wrap64 (tly_sentPackets ty + 1)\<rparr>;
               if remoteTimeKvs info \<noteq> TWCC_PACKET_LOST_TIME then
                 (case hashTableRemove H (tly_table ty1) (unat seqNum) of
                    (st, h) \<Rightarrow>
                      Some (STATUS_SUCCESS,
                        ty1\<lparr>tly_receivedBytes := wrap64 (tly_receivedBytes ty + packetSize info),
                            tly_receivedPackets := wrap64 (tly_receivedPackets ty + 1),
                            tly_table := h, tly_freed := tly_freed ty @ (if STATUS_SUCCEEDED st then [info] else [])\<rparr>))
               else Some (STATUS_SUCCESS, ty1) })"

function twccTallyLoop ::
  "('h, TwccRtpPacketInfo) hash_ops \<Rightarrow> u16 \<Rightarrow> u16 \<Rightarrow> 'h TwccTally \<Rightarrow> (STATUS \<times> 'h TwccTally) option" where
  "twccTallyLoop H endSeq seqNum ty =
     (if seqNum \<noteq> endSeq then
        do { ty1 \<leftarrow> twccFindStart H seqNum ty;
             (st, ty2) \<leftarrow> twccCount H seqNum ty1;
             if STATUS_FAILED st then Some (st, ty2) else twccTallyLoop H endSeq (seqNum + 1) ty2 }
      else Some (STATUS_SUCCESS, ty))"
  by pat_completeness auto
termination
proof (relation "measure (\<lambda>(H, endSeq, seqNum, ty). unat (endSeq - seqNum))", goal_cases)
  case 1
  show ?case by simp
next
  case (2 H endSeq seqNum)
  then show ?case using measure_unat [of "endSeq - seqNum"] by (simp add: diff_diff_eq)
qed

declare twccTallyLoop.simps [simp del]

definition updateTwccHashTable ::
  "('h, TwccRtpPacketInfo) hash_ops \<Rightarrow> 'h TwccManager option \<Rightarrow>
   (STATUS \<times> 'h TwccManager option \<times> TwccEstimate \<times> TwccRtpPacketInfo list) option" where
  "updateTwccHashTable H pManager =
     (case pManager of
        None \<Rightarrow> Some (STATUS_NULL_ARG, None,
          \<lparr>est_sentBytes = 0, est_receivedBytes = 0, est_sentPackets = 0, est_receivedPackets = 0, est_duration = 0\<rparr>, [])
      | Some mgr \<Rightarrow>
          do { (st, ty) \<leftarrow> twccTallyLoop H (lastReportedSeqNum mgr + 1) (prevReportedBaseSeqNum mgr)
                 \<lparr>tly_table = pTwccRtpPktInfosHashTable mgr, tly_freed = [], localStart = None, localStartTimeRecorded = False,
                  tly_duration = 0, tly_receivedBytes = 0, tly_receivedPackets = 0, tly_sentBytes = 0, tly_sentPackets = 0\<rparr>;
               Some (st, Some (mgr\<lparr>pTwccRtpPktInfosHashTable := tly_table ty\<rparr>),
                 \<lparr>est_sentBytes = tly_sentBytes ty, est_receivedBytes = tly_receivedBytes ty, est_sentPackets = tly_sentPackets ty,
                  est_receivedPackets = tly_receivedPackets ty, est_duration = tly_duration ty\<rparr>, tly_freed ty) })"

definition onRtcpTwccPacket ::
  "('h, TwccRtpPacketInfo) hash_ops \<Rightarrow> platform \<Rightarrow> RtcpPacket option \<Rightarrow> 'h TwccPeer option \<Rightarrow>
   (STATUS \<times> 'h TwccPeer option \<times> TwccRtpPacketInfo list) option" where
  "onRtcpTwccPacket H P pRtcpPacket pKvsPeerConnection =
     (case (pKvsPeerConnection, pRtcpPacket) of
        (Some pc, Some pkt) \<Rightarrow>
          (case pTwccManager pc of
             None \<Rightarrow> Some (STATUS_SUCCESS, Some pc, [])
           | Some mgr \<Rightarrow>
               if \<not> hasOnSenderBandwidthEstimation pc then Some (STATUS_SUCCESS, Some pc, [])
               else do {
                 (st, mgr1) \<leftarrow> parseRtcpTwccPacket H P (Some pkt) (Some mgr);
                 if STATUS_FAILED st then Some (st, Some (pc\<lparr>pTwccManager := mgr1\<rparr>), [])
                 else do {
                   (_, mgr2, est, freed) \<leftarrow> updateTwccHashTable H mgr1;
                   let pc2 = pc\<lparr>pTwccManager := mgr2\<rparr>;
                   Some (STATUS_SUCCESS,
                     Some (if est_duration est > 0 then pc2\<lparr>estimates := estimates pc2 @ [est]\<rparr> else pc2), freed) } })
      | _ \<Rightarrow> Some (STATUS_NULL_ARG, pKvsPeerConnection, []))"

end
