(* ===== verification/TwccReports.thy ===== *)
theory TwccReports
  imports Twcc SequenceNumbers
begin

text \<open>
  Correctness of the congestion-control table: which sent packets it remembers, what a
  feedback report does to them, and what the statistics count.  Everything rests on the laws
  of the hash table (locale \<open>sent_table\<close>).
\<close>

locale sent_table = hash_table H lookup table_ok
  for H :: "('h, TwccRtpPacketInfo) hash_ops" and lookup and table_ok

subsection \<open>Reports on the wire\<close>

text \<open>
  What a receiver says of one packet, after the draft the code names: not received, or a delta
  of 250 us ticks in one unsigned or two signed bytes.  A report lists the packets in runs of
  equal status.  The code marks "no delta" by \<^verbatim>\<open>MIN_INT16\<close>, so it also overlooks a large delta with
  that value (\<open>0x8000\<close>): the status is \<open>overlooked\<close>.
\<close>

datatype arrival = Lost | Small byte | Large u16

fun arrival_symbol :: "arrival \<Rightarrow> nat" where
  "arrival_symbol Lost = 0"
| "arrival_symbol (Small _) = 1"
| "arrival_symbol (Large _) = 2"

fun arrival_bytes :: "arrival \<Rightarrow> byte list" where
  "arrival_bytes Lost = []"
| "arrival_bytes (Small b) = [b]"
| "arrival_bytes (Large w) = bytes16 w"

fun arrival_delta :: "arrival \<Rightarrow> int" where
  "arrival_delta Lost = 0"
| "arrival_delta (Small b) = int (unat b)"
| "arrival_delta (Large w) = sint w"

abbreviation overlooked :: "arrival \<Rightarrow> bool" where
  "overlooked x \<equiv> x = Large 0x8000"

definition run_ok :: "arrival list \<Rightarrow> bool" where
  "run_ok r \<longleftrightarrow> r \<noteq> [] \<and> length r < 8192 \<and> (\<forall>x \<in> set r. arrival_symbol x = arrival_symbol (hd r))"

lemma run_okD: "run_ok r \<Longrightarrow> r \<noteq> []" "run_ok r \<Longrightarrow> length r < 8192"
  unfolding run_ok_def by blast+

definition run_chunk :: "arrival list \<Rightarrow> byte list" where
  "run_chunk r = bytes16 (word_of_nat (arrival_symbol (hd r) * 8192 + length r))"

definition twcc_report :: "u32 \<Rightarrow> u32 \<Rightarrow> u16 \<Rightarrow> byte \<times> byte \<times> byte \<Rightarrow> byte \<Rightarrow> arrival list list \<Rightarrow> byte list \<Rightarrow> byte list" where
  "twcc_report sender media base ref fb runs pad =
     bytes32 sender @ bytes32 media @ bytes16 base @ bytes16 (word_of_nat (length (concat runs))) @
     [fst ref, fst (snd ref), snd (snd ref), fb] @ concat (map run_chunk runs) @ concat (map arrival_bytes (concat runs)) @ pad"

text \<open>
  The clock of the report after a status, the remote time each packet gets (none when its status
  is overlooked), and the last sequence number whose status is not overlooked.
\<close>

definition clock :: "nat \<Rightarrow> arrival \<Rightarrow> nat" where
  "clock t x = (if overlooked x then t else nat ((int t + arrival_delta x * 2500) mod 2 ^ 64))"

fun remote_times :: "nat \<Rightarrow> arrival list \<Rightarrow> nat option list" where
  "remote_times t [] = []"
| "remote_times t (x # xs) =
     (if overlooked x then None else Some (if x = Lost then TWCC_PACKET_LOST_TIME else clock t x)) # remote_times (clock t x) xs"

fun last_reported :: "u16 \<Rightarrow> u16 \<Rightarrow> arrival list \<Rightarrow> u16" where
  "last_reported l i [] = l"
| "last_reported l i (x # xs) = last_reported (if overlooked x then l else i) (i + 1) xs"

definition stamp :: "nat option \<Rightarrow> TwccRtpPacketInfo \<Rightarrow> TwccRtpPacketInfo" where
  "stamp t info = (case t of None \<Rightarrow> info | Some u \<Rightarrow> info\<lparr>remoteTimeKvs := u\<rparr>)"

fun stamped :: "(nat \<Rightarrow> TwccRtpPacketInfo option option) \<Rightarrow> u16 \<Rightarrow> nat option list \<Rightarrow> nat \<Rightarrow> TwccRtpPacketInfo option option" where
  "stamped L i [] = L"
| "stamped L i (t # ts) = stamped (L(unat i := map_option (map_option (stamp t)) (L (unat i)))) (i + 1) ts"

lemma stamp_simps [simp]: "stamp None = id" "stamp (Some u) info = info\<lparr>remoteTimeKvs := u\<rparr>"
  by (auto simp: stamp_def)

lemma length_remote_times [simp]: "length (remote_times t xs) = length xs"
  by (induction xs arbitrary: t) auto

lemma clock_Lost: "t < 2 ^ 64 \<Longrightarrow> clock t Lost = t"
  by (simp add: clock_def)

lemma clock_less: "t < 2 ^ 64 \<Longrightarrow> clock t x < 2 ^ 64"
proof -
  have "(int t + arrival_delta x * 2500) mod 2 ^ 64 < 2 ^ 64" by (rule pos_mod_bound) simp
  then show "clock t x < 2 ^ 64" if "t < 2 ^ 64" using that by (simp add: clock_def nat_less_iff)
qed

lemma twccAdvance_clock: "\<not> overlooked x \<Longrightarrow> twccAdvance t (arrival_delta x) = clock t x"
proof -
  have "arrival_delta x * 10000000 div 4000 = arrival_delta x * 2500" by simp
  then show "twccAdvance t (arrival_delta x) = clock t x" if "\<not> overlooked x" using that by (simp only: twccAdvance_def clock_def if_False)
qed

lemma remote_times_append:
  "remote_times t (xs @ ys) = remote_times t xs @ remote_times (foldl clock t xs) ys"
  by (induction xs arbitrary: t) auto

lemma last_reported_append:
  "last_reported l i (xs @ ys) = last_reported (last_reported l i xs) (i + word_of_nat (length xs)) ys"
  by (induction xs arbitrary: l i) (auto simp: algebra_simps)

lemma last_reported_last:
  assumes "xs \<noteq> []" "\<not> overlooked (last xs)"
  shows "last_reported l i xs = i + word_of_nat (length xs) - 1"
proof -
  have "last_reported l i (butlast xs @ [last xs]) = i + word_of_nat (length xs - 1)" using assms(2) by (simp add: last_reported_append)
  moreover have "(word_of_nat (length xs) :: u16) = word_of_nat (length xs - 1) + 1" using assms(1) by (cases xs) simp_all
  ultimately show ?thesis using assms(1) by simp
qed

lemma stamped_append: "stamped L i (ts @ us) = stamped (stamped L i ts) (i + word_of_nat (length ts)) us"
  by (induction ts arbitrary: L i) (auto simp: algebra_simps)

lemma stamped_other: "k \<notin> unat ` set (seqs i (length ts)) \<Longrightarrow> stamped L i ts k = L k"
  by (induction ts arbitrary: L i) (auto simp: seqs_Suc)

lemma stamped_nth:
  assumes "j < length ts" "length ts \<le> 65536"
  shows "stamped L i ts (unat (i + word_of_nat j)) = map_option (map_option (stamp (ts ! j))) (L (unat (i + word_of_nat j)))"
  using assms
proof (induction ts arbitrary: L i j)
  case Nil
  then show ?case by simp
next
  case (Cons t ts)
  have d: "distinct (i # seqs (i + 1) (length ts))" using distinct_seqs [of "Suc (length ts)" i] Cons.prems(2) by (simp add: seqs_Suc)
  show ?case
  proof (cases j)
    case 0
    have "unat i \<notin> unat ` set (seqs (i + 1) (length ts))" using d by (auto dest: word_unat_eq_iff [THEN iffD2])
    then show ?thesis using 0 by (simp add: stamped_other)
  next
    case (Suc k)
    have k: "i + 1 + word_of_nat k \<in> set (seqs (i + 1) (length ts))"
      using Cons.prems(1) Suc by (auto simp: seqs_def)
    then have ne: "unat (i + 1 + word_of_nat k) \<noteq> unat i" using d by (auto dest: word_unat_eq_iff [THEN iffD2])
    have e: "i + word_of_nat j = i + 1 + word_of_nat k" by (simp add: Suc)
    show ?thesis
      unfolding e using Cons.IH [of k _ "i + 1"] Cons.prems Suc ne by simp
  qed
qed

text \<open>A chunk of a run is read back.\<close>

lemma run_chunk_word:
  assumes "run_ok r"
  defines "w \<equiv> ucast (word_of_nat (arrival_symbol (hd r) * 8192 + length r) :: u16) :: u32"
  shows "IS_TWCC_RUNLEN w" "chunkSymbols w remaining = map (\<lambda>x. word_of_nat (arrival_symbol x)) r"
    "unat (TWCC_RUNLEN_GET w) = length r"
proof -
  have s: "arrival_symbol (hd r) \<le> 2" by (cases "hd r") auto
  have len: "length r < 8192" using assms(1) by (rule run_okD)
  have u: "unat w = arrival_symbol (hd r) * 8192 + length r"
    using s len by (simp add: w_def unsigned_ucast_eq unat_of_nat take_bit_nat_def del: of_nat_add of_nat_mult)
  have d15: "unat (drop_bit 15 w) = 0" using s len by (simp add: unat_drop_bit_eq drop_bit_nat_def u)
  have d13: "unat (drop_bit 13 w) = arrival_symbol (hd r)" using len by (simp add: unat_drop_bit_eq drop_bit_nat_def u)
  show run: "IS_TWCC_RUNLEN w"
    using d15 by (simp add: IS_TWCC_RUNLEN_def unat_eq_0)
  have m: "(0x1fff :: u32) = mask 13" "(3 :: u32) = mask 2" by (simp_all add: mask_eq_exp_minus_1)
  have "unat (take_bit 13 w) = length r" using len by (simp add: unsigned_take_bit_eq take_bit_nat_def u)
  then show get: "unat (TWCC_RUNLEN_GET w) = length r" by (simp add: TWCC_RUNLEN_GET_def m(1) take_bit_eq_mask)
  have "unat (take_bit 2 (drop_bit 13 w)) = arrival_symbol (hd r)" using s by (simp add: unsigned_take_bit_eq take_bit_nat_def d13)
  then have "unat (TWCC_RUNLEN_STATUS_SYMBOL w) = arrival_symbol (hd r)"
    by (simp only: TWCC_RUNLEN_STATUS_SYMBOL_def m(2) take_bit_eq_mask [symmetric])
  then have "TWCC_RUNLEN_STATUS_SYMBOL w = word_of_nat (arrival_symbol (hd r))"
    using s by (intro word_unat_eq_iff [THEN iffD2]) (simp add: unat_of_nat)
  moreover have "replicate (length r) (word_of_nat (arrival_symbol (hd r)) :: u32) = map (\<lambda>x. word_of_nat (arrival_symbol x)) r"
  proof -
    have "arrival_symbol x = arrival_symbol (hd r)" if "x \<in> set r" for x using assms(1) that unfolding run_ok_def by blast
    then have "map (\<lambda>x. word_of_nat (arrival_symbol x) :: u32) r = map (\<lambda>_. word_of_nat (arrival_symbol (hd r))) r"
      by (intro map_cong refl) metis
    then show ?thesis by (simp add: map_replicate_const)
  qed
  ultimately show "chunkSymbols w remaining = map (\<lambda>x. word_of_nat (arrival_symbol x)) r"
    using run get by (simp add: chunkSymbols_def)
qed

context sent_table
begin

lemma set_remote_time:
  assumes "table_ok (pTwccRtpPktInfosHashTable (tw_mgr cur))"
  shows "\<exists>h. twccSetRemoteTime H t cur = (STATUS_SUCCESS, cur\<lparr>tw_mgr := (tw_mgr cur)\<lparr>pTwccRtpPktInfosHashTable := h,
      lastReportedSeqNum := packetSeqNum cur\<rparr>\<rparr>) \<and> table_ok h \<and>
    lookup h = stamped (lookup (pTwccRtpPktInfosHashTable (tw_mgr cur))) (packetSeqNum cur) [Some t]"
proof (cases "lookup (pTwccRtpPktInfosHashTable (tw_mgr cur)) (unat (packetSeqNum cur))")
  case None
  then show ?thesis
    using assms by (intro exI [of _ "pTwccRtpPktInfosHashTable (tw_mgr cur)"]) (simp add: twccSetRemoteTime_def Let_def fun_upd_idem)
next
  case (Some v)
  show ?thesis
  proof (cases v)
    case None
    then show ?thesis
      using assms Some
      by (intro exI [of _ "pTwccRtpPktInfosHashTable (tw_mgr cur)"]) (simp add: twccSetRemoteTime_def Let_def fun_upd_idem)
  next
    case (Some info)
    obtain h where "hashTableUpsert H (pTwccRtpPktInfosHashTable (tw_mgr cur)) (unat (packetSeqNum cur)) (Some (info\<lparr>remoteTimeKvs := t\<rparr>)) =
        (STATUS_SUCCESS, h)" "table_ok h"
      "lookup h = (lookup (pTwccRtpPktInfosHashTable (tw_mgr cur)))(unat (packetSeqNum cur) \<mapsto> Some (info\<lparr>remoteTimeKvs := t\<rparr>))"
      using upsert_law [OF assms] by blast
    then show ?thesis
      using assms Some \<open>lookup _ _ = Some v\<close> by (intro exI [of _ h]) (simp add: twccSetRemoteTime_def Let_def)
  qed
qed

text \<open>One status, then the statuses of a chunk, then the chunks of a report.\<close>

lemma symbol_ok:
  assumes "network_order P" "table_ok (pTwccRtpPktInfosHashTable (tw_mgr cur))" "referenceTime cur < 2 ^ 64"
    and "report = pre @ arrival_bytes x @ post" "length pre = recvOffset cur"
  shows "\<exists>h. twccSymbol H P report (word_of_nat (arrival_symbol x)) cur =
      Some (STATUS_SUCCESS, cur\<lparr>tw_mgr := (tw_mgr cur)\<lparr>pTwccRtpPktInfosHashTable := h, lastReportedSeqNum := (if overlooked x then lastReportedSeqNum (tw_mgr cur) else packetSeqNum cur)\<rparr>,
        packetSeqNum := packetSeqNum cur + 1, packetsRemaining := packetsRemaining cur - 1,
        recvOffset := recvOffset cur + length (arrival_bytes x), referenceTime := clock (referenceTime cur) x\<rparr>) \<and> table_ok h \<and>
    lookup h = stamped (lookup (pTwccRtpPktInfosHashTable (tw_mgr cur))) (packetSeqNum cur) (remote_times (referenceTime cur) [x])"
proof (cases x)
  case Lost
  obtain h where "twccSetRemoteTime H TWCC_PACKET_LOST_TIME cur = (STATUS_SUCCESS, cur\<lparr>tw_mgr := (tw_mgr cur)\<lparr>pTwccRtpPktInfosHashTable := h,
      lastReportedSeqNum := packetSeqNum cur\<rparr>\<rparr>)" "table_ok h"
    "lookup h = stamped (lookup (pTwccRtpPktInfosHashTable (tw_mgr cur))) (packetSeqNum cur) [Some TWCC_PACKET_LOST_TIME]"
    using set_remote_time [OF assms(2)] by blast
  then show ?thesis using Lost assms(3) by (intro exI [of _ h]) (simp add: twccSymbol_def clock_Lost)
next
  case (Small b)
  let ?cur = "cur\<lparr>recvOffset := recvOffset cur + 1, referenceTime := clock (referenceTime cur) x\<rparr>"
  obtain h where h: "twccSetRemoteTime H (clock (referenceTime cur) x) ?cur =
      (STATUS_SUCCESS, ?cur\<lparr>tw_mgr := (tw_mgr ?cur)\<lparr>pTwccRtpPktInfosHashTable := h, lastReportedSeqNum := packetSeqNum ?cur\<rparr>\<rparr>)" "table_ok h"
    "lookup h = stamped (lookup (pTwccRtpPktInfosHashTable (tw_mgr ?cur))) (packetSeqNum ?cur) [Some (clock (referenceTime cur) x)]"
    using set_remote_time [of ?cur] assms(2) by auto
  have rd: "rd report (recvOffset cur) = Some b" using assms(4,5) Small by (simp add: rd_def nth_append)
  have adv: "twccAdvance (referenceTime cur) (uint b) = clock (referenceTime cur) x"
    using twccAdvance_clock [of x] Small by simp
  have ne: "uint b \<noteq> MIN_INT16" using uint_ge_0 [of b] by linarith
  show ?thesis
    using h Small ne by (intro exI [of _ h]) (simp add: twccSymbol_def rd adv)
next
  case (Large w)
  have rd: "rdUnalignedInt16 P report (recvOffset cur) = Some w"
    using network_order.rdInt16_put [OF assms(1), of pre w post] assms(4,5) Large
    by (simp add: network_order.rdUnalignedInt16_eq [OF assms(1)] network_order.order_simps [OF assms(1)])
  show ?thesis
  proof (cases "overlooked x")
    case True
    then show ?thesis
      using assms(2) rd Large
      by (intro exI [of _ "pTwccRtpPktInfosHashTable (tw_mgr cur)"])
        (simp add: twccSymbol_def clock_def option.map_id0 fun_upd_idem)
  next
    case False
    let ?cur = "cur\<lparr>recvOffset := recvOffset cur + 2, referenceTime := clock (referenceTime cur) x\<rparr>"
    obtain h where h: "twccSetRemoteTime H (clock (referenceTime cur) x) ?cur =
        (STATUS_SUCCESS, ?cur\<lparr>tw_mgr := (tw_mgr ?cur)\<lparr>pTwccRtpPktInfosHashTable := h, lastReportedSeqNum := packetSeqNum ?cur\<rparr>\<rparr>)" "table_ok h"
      "lookup h = stamped (lookup (pTwccRtpPktInfosHashTable (tw_mgr ?cur))) (packetSeqNum ?cur) [Some (clock (referenceTime cur) x)]"
      using set_remote_time [of ?cur] assms(2) by auto
    have "sint w \<noteq> sint (0x8000 :: u16)" using False Large signed_word_eqI by blast
    then have ne: "sint w \<noteq> MIN_INT16" by simp
    have adv: "twccAdvance (referenceTime cur) (sint w) = clock (referenceTime cur) x"
      using twccAdvance_clock [OF False] Large by simp
    show ?thesis
      using h Large ne False by (intro exI [of _ h]) (simp add: twccSymbol_def rd adv)
  qed
qed

end

text \<open>The cursor after the statuses \<open>xs\<close>, with the table \<open>h\<close>.\<close>

definition advanced :: "'h TwccCursor \<Rightarrow> arrival list \<Rightarrow> 'h \<Rightarrow> 'h TwccCursor" where
  "advanced cur xs h = cur\<lparr>tw_mgr := (tw_mgr cur)\<lparr>pTwccRtpPktInfosHashTable := h,
       lastReportedSeqNum := last_reported (lastReportedSeqNum (tw_mgr cur)) (packetSeqNum cur) xs\<rparr>,
     packetSeqNum := packetSeqNum cur + word_of_nat (length xs), packetsRemaining := packetsRemaining cur - int (length xs),
     recvOffset := recvOffset cur + length (concat (map arrival_bytes xs)), referenceTime := foldl clock (referenceTime cur) xs\<rparr>"

lemma advanced_append: "advanced (advanced cur xs h) ys h' = advanced cur (xs @ ys) h'"
  by (simp add: advanced_def last_reported_append algebra_simps)

lemma advanced_Nil: "advanced cur [] (pTwccRtpPktInfosHashTable (tw_mgr cur)) = cur"
  by (simp add: advanced_def)

lemma foldl_clock_less: "t < 2 ^ 64 \<Longrightarrow> foldl clock t xs < 2 ^ 64"
  by (induction xs arbitrary: t) (auto simp: clock_less [simplified])

context sent_table
begin

lemma symbols_ok:
  assumes "network_order P" "table_ok (pTwccRtpPktInfosHashTable (tw_mgr cur))" "referenceTime cur < 2 ^ 64"
    and "report = pre @ concat (map arrival_bytes xs) @ post" "length pre = recvOffset cur"
  shows "\<exists>h. twccSymbols H P report (map (\<lambda>x. word_of_nat (arrival_symbol x)) xs) cur = Some (STATUS_SUCCESS, advanced cur xs h) \<and>
    table_ok h \<and> lookup h = stamped (lookup (pTwccRtpPktInfosHashTable (tw_mgr cur))) (packetSeqNum cur) (remote_times (referenceTime cur) xs)"
  using assms(2-)
proof (induction xs arbitrary: cur pre)
  case Nil
  then show ?case by (intro exI [of _ "pTwccRtpPktInfosHashTable (tw_mgr cur)"]) (simp add: advanced_Nil)
next
  case (Cons x xs)
  obtain h1 where h1: "twccSymbol H P report (word_of_nat (arrival_symbol x)) cur = Some (STATUS_SUCCESS, advanced cur [x] h1)"
    "table_ok h1" "lookup h1 = stamped (lookup (pTwccRtpPktInfosHashTable (tw_mgr cur))) (packetSeqNum cur) (remote_times (referenceTime cur) [x])"
    using symbol_ok [OF assms(1) Cons.prems(1), of report pre x "concat (map arrival_bytes xs) @ post"] Cons.prems(2-)
    by (auto simp: advanced_def)
  let ?cur = "advanced cur [x] h1"
  have tbl: "table_ok (pTwccRtpPktInfosHashTable (tw_mgr ?cur))" using h1(2) by (simp add: advanced_def)
  have ref: "referenceTime ?cur < 2 ^ 64" using Cons.prems(2) clock_less [of "referenceTime cur" x] by (simp add: advanced_def)
  have rep: "report = (pre @ arrival_bytes x) @ concat (map arrival_bytes xs) @ post" using Cons.prems(3) by simp
  have off: "length (pre @ arrival_bytes x) = recvOffset ?cur" using Cons.prems(4) by (simp add: advanced_def)
  obtain h2 where "twccSymbols H P report (map (\<lambda>x. word_of_nat (arrival_symbol x)) xs) ?cur = Some (STATUS_SUCCESS, advanced ?cur xs h2)"
    "table_ok h2" "lookup h2 = stamped (lookup (pTwccRtpPktInfosHashTable (tw_mgr ?cur))) (packetSeqNum ?cur) (remote_times (referenceTime ?cur) xs)"
    using Cons.IH [OF tbl ref rep off] by auto
  then show ?case
    using h1 by (intro exI [of _ h2]) (simp add: advanced_append, simp add: advanced_def)
qed

lemma read_chunk:
  assumes "network_order P" "report = cpre @ concat (map run_chunk (r # runs)) @ cpost" "run_ok r"
  obtains w where "rdUnalignedInt16 P report (length cpre) = Some w" "length cpre + 2 \<le> length report"
    "IS_TWCC_RUNLEN (ucast w)" "\<And>remaining. chunkSymbols (ucast w) remaining = map (\<lambda>x. word_of_nat (arrival_symbol x)) r"
    "unat (TWCC_RUNLEN_GET (ucast w)) = length r"
proof -
  define w :: u16 where "w = word_of_nat (arrival_symbol (hd r) * 8192 + length r)"
  have rep: "report = cpre @ putUnalignedInt16BigEndian P w @ (concat (map run_chunk runs) @ cpost)"
    using assms(2) by (simp add: run_chunk_def w_def network_order.order_simps [OF assms(1)])
  show thesis
  proof (rule that)
    show "rdUnalignedInt16 P report (length cpre) = Some w"
      unfolding rep by (simp only: network_order.rdUnalignedInt16_eq [OF assms(1)] network_order.rdInt16_put [OF assms(1)])
    show "length cpre + 2 \<le> length report" using rep by (simp add: network_order.order_simps [OF assms(1)])
  qed (use run_chunk_word [OF assms(3)] in \<open>simp_all only: w_def\<close>)
qed

lemma chunks_ok:
  assumes "network_order P" "table_ok (pTwccRtpPktInfosHashTable (tw_mgr cur))" "\<forall>r \<in> set runs. run_ok r" "referenceTime cur < 2 ^ 64"
    and "report = pre @ concat (map arrival_bytes (concat runs)) @ post" "length pre = recvOffset cur"
    and "report = cpre @ concat (map run_chunk runs) @ cpost" "length cpre = off"
    and "packetsRemaining cur = int (length (concat runs))"
  shows "\<exists>h. twccChunks H P report off cur = Some (STATUS_SUCCESS, advanced cur (concat runs) h) \<and>
    table_ok h \<and> lookup h = stamped (lookup (pTwccRtpPktInfosHashTable (tw_mgr cur))) (packetSeqNum cur) (remote_times (referenceTime cur) (concat runs))"
  using assms(2-)
proof (induction runs arbitrary: cur pre cpre off)
  case Nil
  then show ?case
    by (intro exI [of _ "pTwccRtpPktInfosHashTable (tw_mgr cur)"]) (simp add: twccChunks.simps advanced_Nil)
next
  case (Cons r runs)
  have r: "run_ok r" "r \<noteq> []" using Cons.prems(2) run_okD by auto
  obtain w where read: "rdUnalignedInt16 P report off = Some w" "off + 2 \<le> length report"
    "chunkSymbols (ucast w) (packetsRemaining cur) = map (\<lambda>x. word_of_nat (arrival_symbol x)) r"
    using read_chunk [OF assms(1) Cons.prems(6) r(1)] Cons.prems(7) by metis
  have rep1: "report = pre @ concat (map arrival_bytes r) @ (concat (map arrival_bytes (concat runs)) @ post)"
    using Cons.prems(4) by simp
  obtain h1 where h1: "twccSymbols H P report (map (\<lambda>x. word_of_nat (arrival_symbol x)) r) cur = Some (STATUS_SUCCESS, advanced cur r h1)"
    "table_ok h1" "lookup h1 = stamped (lookup (pTwccRtpPktInfosHashTable (tw_mgr cur))) (packetSeqNum cur) (remote_times (referenceTime cur) r)"
    using symbols_ok [OF assms(1) Cons.prems(1) Cons.prems(3) rep1 Cons.prems(5)] by blast
  let ?cur = "advanced cur r h1"
  have "packetsRemaining cur > 0" using Cons.prems(8) r(2) by (simp add: add_pos_nonneg)
  then have step: "twccChunks H P report off cur = twccChunks H P report (off + 2) ?cur"
    using read h1(1) by (subst twccChunks.simps) simp
  have tbl: "table_ok (pTwccRtpPktInfosHashTable (tw_mgr ?cur))" using h1(2) by (simp add: advanced_def)
  have ref: "referenceTime ?cur < 2 ^ 64" using foldl_clock_less [OF Cons.prems(3), of r] by (simp add: advanced_def)
  have rep: "report = (pre @ concat (map arrival_bytes r)) @ concat (map arrival_bytes (concat runs)) @ post" using rep1 by simp
  have off: "length (pre @ concat (map arrival_bytes r)) = recvOffset ?cur" using Cons.prems(5) by (simp add: advanced_def)
  have crep: "report = (cpre @ run_chunk r) @ concat (map run_chunk runs) @ cpost" using Cons.prems(6) by simp
  have coff: "length (cpre @ run_chunk r) = off + 2" using Cons.prems(7) by (simp add: run_chunk_def)
  have rem: "packetsRemaining ?cur = int (length (concat runs))" using Cons.prems(8) by (simp add: advanced_def)
  obtain h2 where "twccChunks H P report (off + 2) ?cur = Some (STATUS_SUCCESS, advanced ?cur (concat runs) h2)"
    "table_ok h2" "lookup h2 = stamped (lookup (pTwccRtpPktInfosHashTable (tw_mgr ?cur))) (packetSeqNum ?cur) (remote_times (referenceTime ?cur) (concat runs))"
    using Cons.IH [OF tbl _ ref rep off crep coff rem] Cons.prems(2) by auto
  then show ?case
    using h1 by (intro exI [of _ h2]) (simp add: step advanced_append, simp add: advanced_def remote_times_append stamped_append)
qed

lemma chunk_end:
  assumes "network_order P" "\<forall>r \<in> set runs. run_ok r" "report = cpre @ concat (map run_chunk runs) @ cpost" "length cpre = off"
    and "off + 2 * length runs \<le> len"
  shows "twccChunkEnd P report len off (int (length (concat runs))) = Some (off + 2 * length runs)"
  using assms(2-)
proof (induction runs arbitrary: cpre off)
  case Nil
  then show ?case by (simp add: twccChunkEnd.simps)
next
  case (Cons r runs)
  have r: "run_ok r" "r \<noteq> []" using Cons.prems(1) run_okD by auto
  obtain w where read: "rdUnalignedInt16 P report off = Some w" "IS_TWCC_RUNLEN (ucast w)" "unat (TWCC_RUNLEN_GET (ucast w)) = length r"
    using read_chunk [OF assms(1) Cons.prems(2) r(1)] Cons.prems(3) by metis
  have "twccChunkEnd P report len off (int (length (concat (r # runs)))) = twccChunkEnd P report len (off + 2) (int (length (concat runs)))"
    using read Cons.prems(4) r(2) by (subst twccChunkEnd.simps) (simp add: add_pos_nonneg)
  also have "\<dots> = Some (off + 2 + 2 * length runs)"
    using Cons.prems by (intro Cons.IH [of "cpre @ run_chunk r"]) (auto simp: run_chunk_def)
  finally show ?case by simp
qed

end

context sent_table
begin

lemma parse_report:
  assumes "network_order P" "\<forall>r \<in> set runs. run_ok r" "length (concat runs) < 65536" "table_ok (pTwccRtpPktInfosHashTable mgr)"
    and "rtcpPayload pkt = twcc_report sender media base ref fb runs pad" "16 + 2 * length runs \<le> rtcpPayloadLength pkt"
  shows "\<exists>h. parseRtcpTwccPacket H P (Some pkt) (Some mgr) =
      Some (STATUS_SUCCESS, Some (mgr\<lparr>pTwccRtpPktInfosHashTable := h, prevReportedBaseSeqNum := base,
        lastReportedSeqNum := last_reported (lastReportedSeqNum mgr) base (concat runs)\<rparr>)) \<and>
    table_ok h \<and> lookup h = stamped (lookup (pTwccRtpPktInfosHashTable mgr)) base
      (remote_times (640000 * unat (be32 0 (fst ref) (fst (snd ref)) (snd (snd ref)))) (concat runs))"
proof -
  define xs where "xs = concat runs"
  define chunks where "chunks = concat (map run_chunk runs)"
  define deltas where "deltas = concat (map arrival_bytes xs)"
  define report where "report = twcc_report sender media base ref fb runs pad"
  define hd16 where "hd16 = bytes32 sender @ bytes32 media @ bytes16 base @ bytes16 (word_of_nat (length xs)) @
     [fst ref, fst (snd ref), snd (snd ref), fb]"
  have rep: "report = hd16 @ chunks @ deltas @ pad" and hd16: "length hd16 = 16"
    by (simp_all add: report_def twcc_report_def hd16_def xs_def chunks_def deltas_def)
  have base: "rdUnalignedInt16 P report 8 = Some base"
    using network_order.rdInt16_put [OF assms(1), of "bytes32 sender @ bytes32 media" base]
    by (simp add: rep hd16_def network_order.rdUnalignedInt16_eq [OF assms(1)] network_order.order_simps [OF assms(1)])
  have count: "rdUnalignedInt16 P report 10 = Some (word_of_nat (length xs))"
    using network_order.rdInt16_put [OF assms(1), of "bytes32 sender @ bytes32 media @ bytes16 base" "word_of_nat (length xs)"]
    by (simp add: rep hd16_def network_order.rdUnalignedInt16_eq [OF assms(1)] network_order.order_simps [OF assms(1)])
  have rds: "rd report 12 = Some (fst ref)" "rd report 13 = Some (fst (snd ref))" "rd report 14 = Some (snd (snd ref))"
    by (simp_all add: rep hd16_def rd_def nth_append bytes32_def bytes16_def)
  have n: "uint (word_of_nat (length xs) :: u16) = int (length xs)" using assms(3) by (simp add: xs_def uint_nat unat_of_nat)
  let ?t = "unat (be32 0 (fst ref) (fst (snd ref)) (snd (snd ref))) * 64 * 10000000 div 1000"
  have t: "?t = 640000 * unat (be32 0 (fst ref) (fst (snd ref)) (snd (snd ref)))" by simp
  have t_less: "?t < 2 ^ 64" using unat_u32_less [of "be32 0 (fst ref) (fst (snd ref)) (snd (snd ref))"] by simp
  have endp: "twccChunkEnd P report (rtcpPayloadLength pkt) 16 (int (length xs)) = Some (16 + 2 * length runs)"
    unfolding xs_def
    by (rule chunk_end [OF assms(1,2) _ hd16 assms(6)]) (simp add: rep chunks_def)
  let ?cur = "\<lparr>tw_mgr = mgr\<lparr>prevReportedBaseSeqNum := base\<rparr>, packetSeqNum = base, packetsRemaining = int (length xs),
     recvOffset = 16 + 2 * length runs, referenceTime = ?t\<rparr>"
  have len: "length (hd16 @ chunks) = recvOffset ?cur"
    by (simp add: hd16 chunks_def length_concat comp_def run_chunk_def sum_list_triv)
  obtain h where "twccChunks H P report 16 ?cur = Some (STATUS_SUCCESS, advanced ?cur (concat runs) h)" "table_ok h"
    "lookup h = stamped (lookup (pTwccRtpPktInfosHashTable (tw_mgr ?cur))) (packetSeqNum ?cur) (remote_times (referenceTime ?cur) (concat runs))"
    using chunks_ok [OF assms(1) _ assms(2) _ _ len _ hd16, of report pad "deltas @ pad"] assms(4) t_less
    by (auto simp: rep xs_def chunks_def deltas_def)
  then show ?thesis
    using base count rds n endp assms(5) t
    by (intro exI [of _ h]) (simp add: parseRtcpTwccPacket_def report_def [symmetric] advanced_def xs_def [symmetric] Let_def)
qed

end

subsection \<open>What the statistics count\<close>

abbreviation received :: "TwccRtpPacketInfo \<Rightarrow> bool" where
  "received info \<equiv> remoteTimeKvs info \<noteq> TWCC_PACKET_LOST_TIME"

definition infos :: "(nat \<Rightarrow> TwccRtpPacketInfo option option) \<Rightarrow> u16 list \<Rightarrow> TwccRtpPacketInfo list" where
  "infos L is = concat (map (\<lambda>i. case L (unat i) of Some (Some info) \<Rightarrow> [info] | _ \<Rightarrow> []) is)"

definition purged :: "(nat \<Rightarrow> TwccRtpPacketInfo option option) \<Rightarrow> u16 list \<Rightarrow> nat \<Rightarrow> TwccRtpPacketInfo option option" where
  "purged L is k = (if k \<in> unat ` set is \<and> (\<exists>info. L k = Some (Some info) \<and> received info) then None else L k)"

lemma infos_simps [simp]:
  "infos L [] = []" "infos L (i # is) = (case L (unat i) of Some (Some info) \<Rightarrow> [info] | _ \<Rightarrow> []) @ infos L is"
  by (simp_all add: infos_def)

lemma infos_cong: "(\<And>i. i \<in> set is \<Longrightarrow> L (unat i) = L' (unat i)) \<Longrightarrow> infos L is = infos L' is"
  by (induction "is") auto

lemma purged_Nil [simp]: "purged L [] = L"
  by (rule ext) (simp add: purged_def)

lemma purged_keep: "\<forall>info. L (unat i) = Some (Some info) \<longrightarrow> \<not> received info \<Longrightarrow> purged L (i # is) = purged L is"
  by (rule ext) (auto simp: purged_def)

lemma purged_take:
  "L (unat i) = Some (Some info) \<Longrightarrow> received info \<Longrightarrow> i \<notin> set is \<Longrightarrow> purged L (i # is) = purged (L(unat i := None)) is"
  by (rule ext) (auto simp: purged_def)

lemma wrap64_add_wrap: "wrap64 (wrap64 a + b) = wrap64 (a + b)"
  by (simp add: wrap64_def mod_add_left_eq)

text \<open>The tally after the packets \<open>es\<close>, once the start time \<open>s\<close> is known.\<close>

definition tallied :: "nat \<Rightarrow> 'h TwccTally \<Rightarrow> TwccRtpPacketInfo list \<Rightarrow> 'h \<Rightarrow> 'h TwccTally" where
  "tallied s ty es h = ty\<lparr>tly_table := h, tly_freed := tly_freed ty @ filter received es,
     tly_duration := (if es = [] then tly_duration ty else to_int64 (sub64 (localTimeKvs (last es)) s)),
     tly_receivedBytes := wrap64 (tly_receivedBytes ty + sum_list (map packetSize (filter received es))),
     tly_receivedPackets := wrap64 (tly_receivedPackets ty + length (filter received es)),
     tly_sentBytes := wrap64 (tly_sentBytes ty + sum_list (map packetSize es)),
     tly_sentPackets := wrap64 (tly_sentPackets ty + length es)\<rparr>"

definition tally_bounds :: "'h TwccTally \<Rightarrow> bool" where
  "tally_bounds ty \<longleftrightarrow> tly_receivedBytes ty < 2 ^ 64 \<and> tly_receivedPackets ty < 2 ^ 64 \<and> tly_sentBytes ty < 2 ^ 64 \<and> tly_sentPackets ty < 2 ^ 64"

lemma tallied_Nil: "tally_bounds ty \<Longrightarrow> tallied s ty [] (tly_table ty) = ty"
  by (simp add: tallied_def tally_bounds_def)

lemma tallied_append: "tallied s (tallied s ty es h) es' h' = tallied s ty (es @ es') h'"
  by (simp add: tallied_def wrap64_add_wrap add.assoc)

lemma tallied_bounds: "tally_bounds (tallied s ty es h)"
  by (simp add: tallied_def tally_bounds_def)

lemma seqs_end: "n < 65535 \<Longrightarrow> (i :: u16) \<noteq> i + word_of_nat (Suc n)"
proof
  assume "n < 65535" "i = i + word_of_nat (Suc n)"
  then have "(word_of_nat (Suc n) :: u16) = word_of_nat 0" by simp
  then show False using \<open>n < 65535\<close> by (simp only: u16_of_nat_eq_iff) simp
qed

context sent_table
begin

lemma tally_recorded:
  assumes "table_ok (tly_table ty)" "\<forall>k. lookup (tly_table ty) k \<noteq> Some None" "localStartTimeRecorded ty" "localStart ty = Some s"
    and "n < 65536" "tally_bounds ty"
  shows "\<exists>h. twccTallyLoop H (i + word_of_nat n) i ty = Some (STATUS_SUCCESS, tallied s ty (infos (lookup (tly_table ty)) (seqs i n)) h) \<and>
    table_ok h \<and> lookup h = purged (lookup (tly_table ty)) (seqs i n)"
  using assms
proof (induction n arbitrary: i ty)
  case 0
  then show ?case by (intro exI [of _ "tly_table ty"]) (simp add: twccTallyLoop.simps tallied_Nil)
next
  case (Suc n)
  let ?L = "lookup (tly_table ty)"
  have ne: "i \<noteq> i + word_of_nat (Suc n)" using Suc.prems(5) by (intro seqs_end) simp
  have fs: "twccFindStart H i ty = Some ty" using Suc.prems(3) by (simp add: twccFindStart_def)
  have e: "i + word_of_nat (Suc n) = (i + 1) + word_of_nat n" by simp
  have notin: "i \<notin> set (seqs (i + 1) n)" using Suc.prems(5) by (intro range_excludes_start) simp
  obtain h1 where count: "twccCount H i ty =
      Some (STATUS_SUCCESS, tallied s ty (case ?L (unat i) of Some (Some info) \<Rightarrow> [info] | _ \<Rightarrow> []) h1)"
    and h1: "table_ok h1" "lookup h1 = purged ?L [i]"
  proof (cases "?L (unat i)")
    case None
    then show thesis
      using that [of "tly_table ty"] Suc.prems purged_keep [of ?L i "[]"] by (simp add: twccCount_def tallied_Nil)
  next
    case (Some v)
    then obtain info where info: "?L (unat i) = Some (Some info)" using Suc.prems(2) by (cases v) auto
    show thesis
    proof (cases "received info")
      case True
      obtain h where h: "hashTableRemove H (tly_table ty) (unat i) = (STATUS_SUCCESS, h)" "table_ok h" "lookup h = ?L(unat i := None)"
        using remove_law [OF Suc.prems(1), of "unat i"] info by auto
      then show thesis
        using that [of h] True info Suc.prems(1,4) purged_take [of ?L i info "[]"]
        by (simp add: twccCount_def tallied_def Let_def)
    next
      case False
      then show thesis
        using that [of "tly_table ty"] info Suc.prems(1,4,6) purged_keep [of ?L i "[]"]
        by (simp add: twccCount_def tallied_def Let_def tally_bounds_def)
    qed
  qed
  let ?ty1 = "tallied s ty (case ?L (unat i) of Some (Some info) \<Rightarrow> [info] | _ \<Rightarrow> []) h1"
  have step: "twccTallyLoop H (i + word_of_nat (Suc n)) i ty = twccTallyLoop H ((i + 1) + word_of_nat n) (i + 1) ?ty1"
    using ne fs count unfolding e [symmetric] by (subst twccTallyLoop.simps) simp
  have ty1: "tly_table ?ty1 = h1" "localStartTimeRecorded ?ty1" "localStart ?ty1 = Some s"
    using Suc.prems(3,4) by (simp_all add: tallied_def)
  have nn: "\<forall>k. lookup h1 k \<noteq> Some None" using Suc.prems(2) by (simp add: h1(2) purged_def)
  obtain h where ih: "twccTallyLoop H ((i + 1) + word_of_nat n) (i + 1) ?ty1 =
      Some (STATUS_SUCCESS, tallied s ?ty1 (infos (lookup h1) (seqs (i + 1) n)) h)" "table_ok h" "lookup h = purged (lookup h1) (seqs (i + 1) n)"
    using Suc.IH [of ?ty1 "i + 1"] ty1 h1(1) nn Suc.prems(5) by (auto simp: tallied_bounds)
  have same: "infos (lookup h1) (seqs (i + 1) n) = infos ?L (seqs (i + 1) n)"
    using notin by (intro infos_cong) (auto simp: h1(2) purged_def dest: word_unat_eq_iff [THEN iffD2])
  have "purged (lookup h1) (seqs (i + 1) n) = purged ?L (i # seqs (i + 1) n)"
    unfolding h1(2) by (rule ext) (auto simp: purged_def)
  then show ?case
    using step ih by (intro exI [of _ h]) (simp add: same tallied_append seqs_Suc)
qed

end

text \<open>
  Where the interval of a report with the entries \<open>es\<close> starts: at the packet sent before its first one
  (number \<open>base - 1\<close> modulo 2^16) when that one is in the table, or else at the first entry.
\<close>

definition interval_start :: "(nat \<Rightarrow> TwccRtpPacketInfo option option) \<Rightarrow> u16 \<Rightarrow> TwccRtpPacketInfo list \<Rightarrow> nat" where
  "interval_start L base es =
     (case L (unat (base - 1)) of Some (Some info) \<Rightarrow> localTimeKvs info | _ \<Rightarrow> localTimeKvs (hd es))"

text \<open>Where the code lets it start: it does not find the packet before number 0.\<close>

definition measured_start :: "(nat \<Rightarrow> TwccRtpPacketInfo option option) \<Rightarrow> u16 \<Rightarrow> TwccRtpPacketInfo list \<Rightarrow> nat" where
  "measured_start L base es = (if base = 0 then localTimeKvs (hd es) else interval_start L base es)"

text \<open>
  What sending leaves in the table: entries under 16-bit numbers, no NULL pointer, no packet stamped with
  the time 0 (which the code takes for "not initialised").
\<close>

definition sent_entries :: "(nat \<Rightarrow> TwccRtpPacketInfo option option) \<Rightarrow> bool" where
  "sent_entries L \<longleftrightarrow> (\<forall>k v. L k = Some v \<longrightarrow> k < 65536 \<and> (\<exists>info. v = Some info \<and> localTimeKvs info \<noteq> 0))"

lemma sent_entriesD:
  assumes "sent_entries L"
  shows "\<forall>k. L k \<noteq> Some None" "L (2 ^ 64 - 1) = None" "\<forall>k info. L k = Some (Some info) \<longrightarrow> localTimeKvs info \<noteq> 0"
proof -
  show "L (2 ^ 64 - 1) = None"
  proof (cases "L (2 ^ 64 - 1)")
    case (Some v)
    then have "2 ^ 64 - 1 < (65536 :: nat)" using assms unfolding sent_entries_def by blast
    then show ?thesis by simp
  qed
qed (use assms in \<open>force simp: sent_entries_def\<close>)+

lemma measured_start_prevKey:
  assumes "L (2 ^ 64 - 1) = None"
  shows "measured_start L base es = (case L (prevKey base) of Some (Some info) \<Rightarrow> localTimeKvs info | _ \<Rightarrow> localTimeKvs (hd es))"
proof (cases "base = 0")
  case False
  then have "unat (base - 1) = prevKey base" by (simp add: prevKey_def unat_minus_one)
  then show ?thesis using False by (simp add: measured_start_def interval_start_def)
qed (use assms in \<open>simp add: measured_start_def prevKey_def\<close>)

text \<open>A start time that has been found does not change, so the loop runs as if it had been known.\<close>

lemma twccTallyLoop_known:
  assumes "twccFindStart H i ty = Some ty'" "localStartTimeRecorded ty'" "i \<noteq> endSeq"
  shows "twccTallyLoop H endSeq i ty = twccTallyLoop H endSeq i ty'"
  using assms by (simp add: twccTallyLoop.simps [of H endSeq i] twccFindStart_def [of H i ty'])

lemma prevKey_next: "prevKey (i + 1) \<in> {unat i, 2 ^ 64 - 1}"
proof (cases "i + 1 = 0")
  case False
  then have "unat (i + 1) = Suc (unat i)" using unat_Suc_pred [of "i + 1"] by simp
  then show ?thesis using False by (simp add: prevKey_def)
qed (simp add: prevKey_def)

context sent_table
begin

lemma tally_searching:
  assumes "table_ok (tly_table ty)" "\<forall>k. lookup (tly_table ty) k \<noteq> Some None" "\<not> localStartTimeRecorded ty"
    and "lookup (tly_table ty) (prevKey i) = None" "lookup (tly_table ty) (2 ^ 64 - 1) = None"
    and "\<forall>k info. lookup (tly_table ty) k = Some (Some info) \<longrightarrow> localTimeKvs info \<noteq> 0"
    and "n < 65536" "tally_bounds ty" "es = infos (lookup (tly_table ty)) (seqs i n)"
  shows "\<exists>ty' h. twccTallyLoop H (i + word_of_nat n) i ty = Some (STATUS_SUCCESS, tallied (localTimeKvs (hd es)) ty' es h) \<and>
    table_ok h \<and> lookup h = purged (lookup (tly_table ty)) (seqs i n) \<and>
    (\<exists>a b. ty' = ty\<lparr>localStart := a, localStartTimeRecorded := b\<rparr>)"
  using assms
proof (induction n arbitrary: i ty es)
  case 0
  then show ?case
    by (intro exI [of _ ty] exI [of _ "tly_table ty"])
       (auto simp: twccTallyLoop.simps tallied_Nil intro!: exI [of _ "localStart ty"] exI [of _ False])
next
  case (Suc n)
  let ?L = "lookup (tly_table ty)"
  have ne: "i \<noteq> i + word_of_nat (Suc n)" using Suc.prems(7) by (intro seqs_end) simp
  show ?case
  proof (cases "?L (unat i)")
    case None
    let ?ty = "ty\<lparr>localStart := Some 0\<rparr>"
    have "twccFindStart H i ty = Some ?ty"
      using Suc.prems(1,3,4) None by (simp add: twccFindStart_def)
    moreover have "twccCount H i ?ty = Some (STATUS_SUCCESS, ?ty)" using Suc.prems(1) None by (simp add: twccCount_def)
    ultimately have step: "twccTallyLoop H (i + word_of_nat (Suc n)) i ty = twccTallyLoop H ((i + 1) + word_of_nat n) (i + 1) ?ty"
      using ne by (subst twccTallyLoop.simps) (simp add: add.assoc)
    have prev: "?L (prevKey (i + 1)) = None" using prevKey_next [of i] None Suc.prems(5) by auto
    have es: "es = infos ?L (seqs (i + 1) n)" using Suc.prems(9) None by (simp add: seqs_Suc)
    have pur: "purged ?L (seqs i (Suc n)) = purged ?L (seqs (i + 1) n)" using None by (simp add: seqs_Suc purged_keep)
    obtain ty' h where ih: "twccTallyLoop H ((i + 1) + word_of_nat n) (i + 1) ?ty = Some (STATUS_SUCCESS, tallied (localTimeKvs (hd es)) ty' es h)"
      "table_ok h" "lookup h = purged ?L (seqs (i + 1) n)" "\<exists>a b. ty' = ?ty\<lparr>localStart := a, localStartTimeRecorded := b\<rparr>"
      using Suc.IH [of ?ty "i + 1" es] Suc.prems prev es by (auto simp: tally_bounds_def)
    from ih(4) have "\<exists>a b. ty' = ty\<lparr>localStart := a, localStartTimeRecorded := b\<rparr>" by auto
    with ih show ?thesis unfolding step pur by blast
  next
    case (Some v)
    then obtain info where info: "?L (unat i) = Some (Some info)" using Suc.prems(2) by (cases v) auto
    let ?ty = "ty\<lparr>localStart := Some (localTimeKvs info), localStartTimeRecorded := True\<rparr>"
    have "twccFindStart H i ty = Some ?ty"
      using Suc.prems(1,3,4) info by (simp add: twccFindStart_def)
    then have step: "twccTallyLoop H (i + word_of_nat (Suc n)) i ty = twccTallyLoop H (i + word_of_nat (Suc n)) i ?ty"
      using ne by (intro twccTallyLoop_known) simp_all
    have hd: "localTimeKvs (hd es) = localTimeKvs info" using Suc.prems(9) info by (simp add: seqs_Suc)
    obtain h where "twccTallyLoop H (i + word_of_nat (Suc n)) i ?ty = Some (STATUS_SUCCESS, tallied (localTimeKvs info) ?ty es h)"
      "table_ok h" "lookup h = purged ?L (seqs i (Suc n))"
      using tally_recorded [of ?ty "localTimeKvs info" "Suc n" i] Suc.prems by (auto simp: tally_bounds_def)
    then show ?thesis unfolding step hd by blast
  qed
qed

lemma update_counts:
  assumes "table_ok (pTwccRtpPktInfosHashTable mgr)" "sent_entries (lookup (pTwccRtpPktInfosHashTable mgr))"
  defines "is \<equiv> seqs (prevReportedBaseSeqNum mgr) (unat (lastReportedSeqNum mgr + 1 - prevReportedBaseSeqNum mgr))"
  defines "es \<equiv> infos (lookup (pTwccRtpPktInfosHashTable mgr)) is"
  shows "\<exists>h. updateTwccHashTable H (Some mgr) = Some (STATUS_SUCCESS, Some (mgr\<lparr>pTwccRtpPktInfosHashTable := h\<rparr>),
      \<lparr>est_sentBytes = wrap64 (sum_list (map packetSize es)), est_receivedBytes = wrap64 (sum_list (map packetSize (filter received es))),
       est_sentPackets = wrap64 (length es), est_receivedPackets = wrap64 (length (filter received es)),
       est_duration = (if es = [] then 0 else to_int64 (sub64 (localTimeKvs (last es))
         (measured_start (lookup (pTwccRtpPktInfosHashTable mgr)) (prevReportedBaseSeqNum mgr) es)))\<rparr>, filter received es) \<and>
    table_ok h \<and> lookup h = purged (lookup (pTwccRtpPktInfosHashTable mgr)) is"
proof -
  let ?L = "lookup (pTwccRtpPktInfosHashTable mgr)" and ?i = "prevReportedBaseSeqNum mgr"
  let ?n = "unat (lastReportedSeqNum mgr + 1 - ?i)"
  let ?ty = "\<lparr>tly_table = pTwccRtpPktInfosHashTable mgr, tly_freed = [], localStart = None, localStartTimeRecorded = False,
     tly_duration = 0, tly_receivedBytes = 0, tly_receivedPackets = 0, tly_sentBytes = 0, tly_sentPackets = 0\<rparr>"
  note L = sent_entriesD [OF assms(2)]
  note start = measured_start_prevKey [of ?L ?i es, OF L(2)]
  have n: "?n < 65536" by (rule unat_u16_less)
  have endp: "lastReportedSeqNum mgr + 1 = ?i + word_of_nat ?n" by simp
  have b: "tally_bounds ?ty" by (simp add: tally_bounds_def)
  have "\<exists>a b h. twccTallyLoop H (lastReportedSeqNum mgr + 1) ?i ?ty =
      Some (STATUS_SUCCESS, tallied (measured_start ?L ?i es) (?ty\<lparr>localStart := a, localStartTimeRecorded := b\<rparr>) es h) \<and>
    table_ok h \<and> lookup h = purged ?L is"
  proof (cases "?L (prevKey ?i)")
    case None
    then have st: "measured_start ?L ?i es = localTimeKvs (hd es)" by (simp add: start)
    have "table_ok (tly_table ?ty)" "\<forall>k. lookup (tly_table ?ty) k \<noteq> Some None" "\<not> localStartTimeRecorded ?ty"
      "lookup (tly_table ?ty) (prevKey ?i) = None" "lookup (tly_table ?ty) (2 ^ 64 - 1) = None"
      "\<forall>k info. lookup (tly_table ?ty) k = Some (Some info) \<longrightarrow> localTimeKvs info \<noteq> 0"
      "es = infos (lookup (tly_table ?ty)) (seqs ?i ?n)"
      unfolding TwccTally.simps using assms(1) L None by (simp_all only: es_def is_def simp_thms)
    from tally_searching [OF this(1-6) n b this(7)] show ?thesis
      unfolding st endp [symmetric] TwccTally.simps is_def by blast
  next
    case (Some v)
    then obtain info where info: "?L (prevKey ?i) = Some (Some info)" using L(1) by (cases v) auto
    then have st: "measured_start ?L ?i es = localTimeKvs info" by (simp add: start)
    let ?ty' = "?ty\<lparr>localStart := Some (localTimeKvs info), localStartTimeRecorded := True\<rparr>"
    have "localTimeKvs info \<noteq> 0" using L(3) info by blast
    then have find: "twccFindStart H ?i ?ty = Some ?ty'"
      using assms(1) info by (simp add: twccFindStart_def)
    show ?thesis
    proof (cases "?i = lastReportedSeqNum mgr + 1")
      case True
      then have "is = []" "es = []" "twccTallyLoop H (lastReportedSeqNum mgr + 1) ?i ?ty = Some (STATUS_SUCCESS, ?ty)"
        by (simp_all add: is_def es_def twccTallyLoop.simps)
      then show ?thesis
        using assms(1)
        by (intro exI [of _ None] exI [of _ False] exI [of _ "pTwccRtpPktInfosHashTable mgr"]) (simp add: tallied_def)
    next
      case False
      then have "twccTallyLoop H (lastReportedSeqNum mgr + 1) ?i ?ty = twccTallyLoop H (lastReportedSeqNum mgr + 1) ?i ?ty'"
        using find by (intro twccTallyLoop_known) simp_all
      moreover have "\<exists>h. twccTallyLoop H (lastReportedSeqNum mgr + 1) ?i ?ty' =
          Some (STATUS_SUCCESS, tallied (localTimeKvs info) ?ty' es h) \<and> table_ok h \<and> lookup h = purged ?L is"
        using tally_recorded [of ?ty' "localTimeKvs info" ?n ?i] assms(1) L(1) n b
        unfolding endp [symmetric] es_def is_def by (simp add: tally_bounds_def)
      ultimately show ?thesis
        unfolding st by (intro exI [of _ "Some (localTimeKvs info)"] exI [of _ True]) (simp only:)
    qed
  qed
  then obtain a b h where "twccTallyLoop H (lastReportedSeqNum mgr + 1) ?i ?ty =
      Some (STATUS_SUCCESS, tallied (measured_start ?L ?i es) (?ty\<lparr>localStart := a, localStartTimeRecorded := b\<rparr>) es h)"
    "table_ok h" "lookup h = purged ?L is" by blast
  then show ?thesis
    by (intro exI [of _ h]) (simp add: updateTwccHashTable_def tallied_def)
qed

end

interpretation chained_sent: sent_table "chained_table n" chained_lookup "\<lambda>h. h \<noteq> []"
  by unfold_locales

text \<open>A manager that has sent the packets 5 and 6.\<close>

definition sample_manager :: "TwccRtpPacketInfo buckets TwccManager" where
  "sample_manager =
     \<lparr>pTwccRtpPktInfosHashTable = [[], [(5, Some \<lparr>localTimeKvs = 7, remoteTimeKvs = 2 ^ 64 - 1, packetSize = 50\<rparr>)],
        [(6, Some \<lparr>localTimeKvs = 9, remoteTimeKvs = 2 ^ 64 - 1, packetSize = 100\<rparr>)], []],
      firstSeqNumInRollingWindow = 5, lastReportedSeqNum = 6, prevReportedBaseSeqNum = 5\<rparr>"

subsection \<open>Properties\<close>

text \<open>
  C22. What a feedback report of run-length chunks does.  Each chunk is a run of 1 to 8191 equal
  statuses, the report lists 1 to 65535 packets and its length covers the header and the chunks.  The parser succeeds without leaving the report.  A
  reported packet that is still in the table gets the lost mark, or the remote time of the report: the
  reference time plus the deltas up to and including its own, in 100 ns units.  The exception is the
  delta \<open>0x8000\<close> (-8192 ms), which the code takes for its "no delta" mark: such a packet keeps its remote
  time, and the clock of the report does not move.  No other packet changes.  The manager remembers the
  first reported sequence number and the last one whose status was not overlooked, which is the last of
  the report unless its last delta is \<open>0x8000\<close>.
\<close>

theorem twcc_report_applied:
  assumes "hash_table H lookup table_ok" "network_order P" "\<forall>r \<in> set runs. run_ok r" "length (concat runs) < 65536" "runs \<noteq> []"
    and "table_ok (pTwccRtpPktInfosHashTable mgr)" "rtcpPayload pkt = twcc_report sender media base ref fb runs pad"
    and "16 + 2 * length runs \<le> rtcpPayloadLength pkt"
    and "ts = remote_times (640000 * unat (be32 0 (fst ref) (fst (snd ref)) (snd (snd ref)))) (concat runs)"
  shows "\<exists>h l. parseRtcpTwccPacket H P (Some pkt) (Some mgr) =
      Some (STATUS_SUCCESS, Some (mgr\<lparr>pTwccRtpPktInfosHashTable := h, prevReportedBaseSeqNum := base, lastReportedSeqNum := l\<rparr>)) \<and>
    table_ok h \<and> l = last_reported (lastReportedSeqNum mgr) base (concat runs) \<and>
    (last (concat runs) \<noteq> Large 0x8000 \<longrightarrow> l = base + word_of_nat (length (concat runs)) - 1) \<and>
    (\<forall>j < length (concat runs). lookup h (unat (base + word_of_nat j)) =
       map_option (map_option (\<lambda>info. case ts ! j of None \<Rightarrow> info | Some t \<Rightarrow> info\<lparr>remoteTimeKvs := t\<rparr>))
         (lookup (pTwccRtpPktInfosHashTable mgr) (unat (base + word_of_nat j)))) \<and>
    (\<forall>k. k \<notin> unat ` set (seqs base (length (concat runs))) \<longrightarrow> lookup h k = lookup (pTwccRtpPktInfosHashTable mgr) k)"
proof -
  have "sent_table H lookup table_ok" using assms(1) by (simp add: sent_table_def)
  from sent_table.parse_report [OF this assms(2-4,6-8)] obtain h where
    h: "parseRtcpTwccPacket H P (Some pkt) (Some mgr) =
      Some (STATUS_SUCCESS, Some (mgr\<lparr>pTwccRtpPktInfosHashTable := h, prevReportedBaseSeqNum := base,
        lastReportedSeqNum := last_reported (lastReportedSeqNum mgr) base (concat runs)\<rparr>))" "table_ok h"
    "lookup h = stamped (lookup (pTwccRtpPktInfosHashTable mgr)) base ts"
    unfolding assms(9) by blast
  have xs: "concat runs \<noteq> []" using assms(3,5) run_okD(1) by (cases runs) auto
  have ts: "length ts = length (concat runs)" by (simp only: assms(9) length_remote_times)
  have "lookup h (unat (base + word_of_nat j)) = map_option (map_option (\<lambda>info. case ts ! j of None \<Rightarrow> info | Some t \<Rightarrow> info\<lparr>remoteTimeKvs := t\<rparr>))
      (lookup (pTwccRtpPktInfosHashTable mgr) (unat (base + word_of_nat j)))" if "j < length (concat runs)" for j
    using stamped_nth [of j ts _ base] that assms(4) unfolding h(3) ts stamp_def by simp
  moreover have "lookup h k = lookup (pTwccRtpPktInfosHashTable mgr) k" if "k \<notin> unat ` set (seqs base (length (concat runs)))" for k
    using stamped_other [of k base ts] that unfolding h(3) ts by blast
  ultimately show ?thesis using h(1,2) last_reported_last [OF xs] by blast
qed

theorem twcc_report_applied_witness:
  "\<exists>h. parseRtcpTwccPacket (chained_table 3) little_endian_host
      (Some \<lparr>rtcpHeader = \<lparr>rtcpVersion = 2, receptionReportCount = 15, rtcpPacketType = 205, rtcpPacketLength = 6\<rparr>,
         rtcpPayload = twcc_report 1 2 5 (0, 0, 1) 0 [[Small 4, Small 8], [Lost]] [0, 0], rtcpPayloadLength = 24\<rparr>)
      (Some sample_manager) = Some (STATUS_SUCCESS, Some h) \<and>
    chained_lookup (pTwccRtpPktInfosHashTable h) 6 = Some (Some \<lparr>localTimeKvs = 9, remoteTimeKvs = 670000, packetSize = 100\<rparr>)"
proof -
  let ?pkt = "\<lparr>rtcpHeader = \<lparr>rtcpVersion = 2, receptionReportCount = 15, rtcpPacketType = 205, rtcpPacketLength = 6\<rparr>,
     rtcpPayload = twcc_report 1 2 5 (0, 0, 1) 0 [[Small 4, Small 8], [Lost]] [0, 0], rtcpPayloadLength = 24\<rparr>"
  let ?ref = "(0, 0, 1) :: byte \<times> byte \<times> byte"
  have runs: "\<forall>r \<in> set [[Small 4, Small 8], [Lost]]. run_ok r" by (simp add: run_ok_def)
  have len: "length (concat [[Small 4, Small 8], [Lost]]) = 3" by simp
  have look: "chained_lookup (pTwccRtpPktInfosHashTable sample_manager) 6 = Some (Some \<lparr>localTimeKvs = 9, remoteTimeKvs = 2 ^ 64 - 1, packetSize = 100\<rparr>)"
    by (simp add: sample_manager_def chained_lookup_def bucket_of_def)
  have times: "remote_times (640000 * unat (be32 0 0 0 1)) (concat [[Small 4, Small 8], [Lost]]) ! 1 = Some 670000"
    by (simp add: be32_def clock_def)
  have pre: "length (concat [[Small 4, Small 8], [Lost]]) < 65536" "[[Small 4, Small 8], [Lost]] \<noteq> []"
    "pTwccRtpPktInfosHashTable sample_manager \<noteq> []" "rtcpPayload ?pkt = twcc_report 1 2 5 (0, 0, 1) 0 [[Small 4, Small 8], [Lost]] [0, 0]"
    "16 + 2 * length [[Small 4, Small 8], [Lost]] \<le> rtcpPayloadLength ?pkt"
    by (simp_all add: sample_manager_def)
  have six: "unat ((5 :: u16) + word_of_nat 1) = 6" by simp
  obtain h l where h: "parseRtcpTwccPacket (chained_table 3) little_endian_host (Some ?pkt) (Some sample_manager) =
      Some (STATUS_SUCCESS, Some (sample_manager\<lparr>pTwccRtpPktInfosHashTable := h, prevReportedBaseSeqNum := 5, lastReportedSeqNum := l\<rparr>))"
    and l: "\<forall>j < length (concat [[Small 4, Small 8], [Lost]]). chained_lookup h (unat ((5 :: u16) + word_of_nat j)) =
       map_option (map_option (\<lambda>info. case remote_times (640000 * unat (be32 0 (fst ?ref) (fst (snd ?ref)) (snd (snd ?ref))))
            (concat [[Small 4, Small 8], [Lost]]) ! j of None \<Rightarrow> info | Some t \<Rightarrow> info\<lparr>remoteTimeKvs := t\<rparr>))
         (chained_lookup (pTwccRtpPktInfosHashTable sample_manager) (unat ((5 :: u16) + word_of_nat j)))"
    using twcc_report_applied [OF chained.hash_table_axioms [of 3] le_host.network_order_axioms runs pre refl]
    by (elim exE conjE) (rule that; assumption)
  have "chained_lookup h 6 = Some (Some \<lparr>localTimeKvs = 9, remoteTimeKvs = 670000, packetSize = 100\<rparr>)"
    using l [rule_format, of 1] len unfolding six fst_conv snd_conv times look by simp
  with h show ?thesis by simp
qed

text \<open>
  C24. What the statistics of a report count.  The table holds entries as sending leaves them: under
  16-bit numbers, no NULL pointers, no sending time 0.  With the range of the report given by the manager,
  the packets and bytes sent are those of the range that are still in the table, the received ones those
  with a remote time, all modulo 2^64; exactly the received ones are removed and released.  The duration
  runs to the last packet of the range, from the packet before the report if that is in the table, else
  from the first packet of the range; but for a report that begins with number 0 the packet before it,
  number 65535, is never used, even if it is in the table.
\<close>

theorem twcc_statistics:
  assumes "hash_table H lookup table_ok" "table_ok (pTwccRtpPktInfosHashTable mgr)"
    and "L = lookup (pTwccRtpPktInfosHashTable mgr)" "sent_entries L" "base = prevReportedBaseSeqNum mgr"
    and "is = seqs base (unat (lastReportedSeqNum mgr + 1 - base))" "es = infos L is"
  shows "\<exists>h start. updateTwccHashTable H (Some mgr) = Some (STATUS_SUCCESS, Some (mgr\<lparr>pTwccRtpPktInfosHashTable := h\<rparr>),
      \<lparr>est_sentBytes = wrap64 (sum_list (map packetSize es)), est_receivedBytes = wrap64 (sum_list (map packetSize (filter received es))),
       est_sentPackets = wrap64 (length es), est_receivedPackets = wrap64 (length (filter received es)),
       est_duration = (if es = [] then 0 else to_int64 (sub64 (localTimeKvs (last es)) start))\<rparr>, filter received es) \<and>
    (base \<noteq> 0 \<longrightarrow> start = interval_start L base es) \<and> (base = 0 \<longrightarrow> start = localTimeKvs (hd es)) \<and>
    table_ok h \<and> lookup h = purged L is"
proof -
  have start: "(base \<noteq> 0 \<longrightarrow> measured_start L base es = interval_start L base es) \<and> (base = 0 \<longrightarrow> measured_start L base es = localTimeKvs (hd es))"
    by (simp add: measured_start_def)
  have "sent_table H lookup table_ok" using assms(1) by (simp add: sent_table_def)
  from sent_table.update_counts [OF this assms(2) assms(4) [unfolded assms(3)]] start show ?thesis
    unfolding assms(3) [symmetric] assms(5) [symmetric] assms(6) [symmetric] assms(7) [symmetric] by blast
qed

theorem twcc_statistics_witness:
  "\<exists>h. updateTwccHashTable (chained_table 3) (Some sample_manager) = Some (STATUS_SUCCESS, Some (sample_manager\<lparr>pTwccRtpPktInfosHashTable := h\<rparr>),
      \<lparr>est_sentBytes = 150, est_receivedBytes = 0, est_sentPackets = 2, est_receivedPackets = 0, est_duration = 2\<rparr>, [])"
proof -
  let ?L = "chained_lookup (pTwccRtpPktInfosHashTable sample_manager)"
  let ?a = "\<lparr>localTimeKvs = 7, remoteTimeKvs = 2 ^ 64 - 1, packetSize = 50\<rparr>" and ?b = "\<lparr>localTimeKvs = 9, remoteTimeKvs = 2 ^ 64 - 1, packetSize = 100\<rparr>"
  have L: "?L k = (if k = 5 then Some (Some ?a) else if k = 6 then Some (Some ?b) else None)" for k
  proof -
    have "k mod 4 < 4" by simp
    then consider "k mod 4 = 0" | "k mod 4 = 1" | "k mod 4 = 2" | "k mod 4 = 3" by linarith
    then show ?thesis
      by cases (auto simp: sample_manager_def chained_lookup_def bucket_of_def)
  qed
  have "is": "[5, 6] = seqs 5 (unat (lastReportedSeqNum sample_manager + 1 - 5))"
  proof -
    have "seqs 5 2 = [5, 6]" by (simp add: seqs_Suc numeral_2_eq_2)
    then show ?thesis by (simp add: sample_manager_def)
  qed
  have es: "[?a, ?b] = infos ?L [5, 6]" by (simp add: L)
  have start: "interval_start ?L 5 [?a, ?b] = 7" by (simp add: interval_start_def L)
  have pre: "pTwccRtpPktInfosHashTable sample_manager \<noteq> []" "sent_entries ?L" "(5 :: u16) = prevReportedBaseSeqNum sample_manager"
    by (simp add: sample_manager_def) (simp_all add: L sent_entries_def sample_manager_def [THEN arg_cong, of prevReportedBaseSeqNum])
  show ?thesis
    using twcc_statistics [OF chained.hash_table_axioms [of 3] pre(1) refl pre(2,3) "is" es] start
    by (elim exE conjE, intro exI) (simp add: to_int64_def)
qed

text \<open>
  C25. The status-vector macros are off by one symbol.  The draft puts symbol \<open>i\<close> of a one-bit
  vector at bit \<open>13 - i\<close> and of a two-bit vector at bits \<open>13 - 2 i\<close> and \<open>12 - 2 i\<close>.  The code reads one
  symbol further left: in a one-bit vector symbol 0 is always "not received" and symbol
  \<open>i + 1\<close> is the draft's symbol \<open>i\<close>; in a two-bit vector symbol 0 is always "large delta" and
  a small delta is never reported.
\<close>

theorem twcc_status_vector_misread:
  assumes "bit (c :: u32) 15"
  shows "(\<not> bit c 14 \<longrightarrow> TWCC_STATUSVECTOR_STATUS c 0 = 0 \<and>
      (\<forall>i < 13. TWCC_STATUSVECTOR_STATUS c (i + 1) = (if bit c (13 - i) then 1 else 0))) \<and>
    (bit c 14 \<longrightarrow> TWCC_STATUSVECTOR_STATUS c 0 = 2 \<and>
      (\<forall>i < 7. TWCC_STATUSVECTOR_STATUS c i \<noteq> 1) \<and>
      (\<forall>i < 6. TWCC_STATUSVECTOR_STATUS c (i + 1) = (if bit c (13 - 2 * i) then 2 else 0)))"
proof -
  have two: "TWCC_STATUSVECTOR_IS_2BIT c \<longleftrightarrow> bit c 14"
    by (simp add: TWCC_STATUSVECTOR_IS_2BIT_def and_one_eq bit_iff_odd_drop_bit mod2_eq_if)
  have one_mask: "drop_bit k c AND 1 = (if bit c k then 1 else 0)" for k
    by (simp add: and_one_eq bit_iff_odd_drop_bit mod2_eq_if)
  have two_mask: "drop_bit k c AND 2 = (if bit c (k + 1) then 2 else 0)" for k
    by (rule bit_word_eqI) (auto simp: bit_simps)
  have shift: "Suc (12 - i * 2) = 13 - 2 * i" if "i < 6" for i :: nat using that by simp
  show ?thesis
    using assms
    by (auto simp: shift TWCC_STATUSVECTOR_STATUS_def TWCC_STATUSVECTOR_SSIZE_def TWCC_STATUSVECTOR_SMASK_def two one_mask two_mask)
qed

theorem twcc_status_vector_misread_witness:
  "TWCC_STATUSVECTOR_STATUS 0xA000 0 = 0 \<and> TWCC_STATUSVECTOR_STATUS 0xA000 1 = 1 \<and> TWCC_STATUSVECTOR_STATUS 0xD000 0 = 2"
proof -
  have b: "bit (0xA000 :: u32) 15" "\<not> bit (0xA000 :: u32) 14" "bit (0xA000 :: u32) 13" "bit (0xD000 :: u32) 15" "bit (0xD000 :: u32) 14"
    by code_simp+
  show ?thesis
    using twcc_status_vector_misread [OF b(1)] twcc_status_vector_misread [OF b(4)] b by force
qed

end
