(* ===== verification/TwccHistory.thy ===== *)
theory TwccHistory
  imports TwccReports
begin

text \<open>
  The table of sent packets over the life of a connection: any sequence of sent packets and received
  feedback reports.  A sent packet enters the table and pushes out the ones older than a second; a
  report removes what it says was received.  The invariant \<open>remembers\<close> is kept by both, and gives which
  packets are in the table at any time.
\<close>

subsection \<open>Packets and their numbers\<close>

definition info_of :: "RtpPacket \<Rightarrow> TwccRtpPacketInfo" where
  "info_of p = \<lparr>localTimeKvs = sentTime p, remoteTimeKvs = TWCC_PACKET_LOST_TIME, packetSize = payloadLength p\<rparr>"

definition describes :: "TwccRtpPacketInfo \<Rightarrow> RtpPacket \<Rightarrow> bool" where
  "describes info p \<longleftrightarrow> localTimeKvs info = sentTime p \<and> packetSize info = payloadLength p"

lemma describes_info_of [simp]: "describes (info_of p) p"
  by (simp add: describes_def info_of_def)

text \<open>The \<open>n\<close>-th packet of the connection carries \<open>n\<close> modulo 2^16 in its transport-wide extension.\<close>

definition twcc_numbered :: "platform \<Rightarrow> nat \<Rightarrow> RtpPacket \<Rightarrow> bool" where
  "twcc_numbered P n p \<longleftrightarrow> extensionProfile (header p) = TWCC_EXT_PROFILE \<and>
     (\<exists>ext. extensionPayload (header p) = Some ext \<and> TWCC_SEQNUM P ext = Some (word_of_nat n))"

lemma mod_window_inj:
  assumes "(i :: nat) mod 65536 = j mod 65536" "f \<le> i" "f \<le> j" "i < f + 65536" "j < f + 65536"
  shows "i = j"
proof -
  have "i = j" if "i mod 65536 = j mod 65536" "i \<le> j" "j < i + 65536" for i j :: nat
  proof -
    have "(j - i) mod 65536 = 0" using that(1,2) by (metis mod_eq_dvd_iff_nat mod_0_imp_dvd dvd_imp_mod_0)
    with that show ?thesis by simp
  qed
  from this [of i j] this [of j i] assms show ?thesis by (cases "i \<le> j") auto
qed

subsection \<open>The window of the last second\<close>

text \<open>
  The table holds packets \<open>f .. n - 1\<close> of the log, each under its number modulo 2^16, except some of
  those with property \<open>A\<close> (the ones a report removed).
\<close>

definition remembers ::
  "(nat \<Rightarrow> TwccRtpPacketInfo option option) \<Rightarrow> RtpPacket list \<Rightarrow> (nat \<Rightarrow> bool) \<Rightarrow> nat \<Rightarrow> nat \<Rightarrow> bool" where
  "remembers L ps A f n \<longleftrightarrow>
     (\<forall>i. f \<le> i \<and> i < n \<longrightarrow> (\<exists>info. L (i mod 65536) = Some (Some info) \<and> describes info (ps ! i)) \<or> L (i mod 65536) = None \<and> A i) \<and>
     (\<forall>k. L k \<noteq> None \<longrightarrow> (\<exists>i. f \<le> i \<and> i < n \<and> k = i mod 65536))"

lemma remembersD:
  assumes "remembers L ps A f n"
  shows "f \<le> i \<Longrightarrow> i < n \<Longrightarrow> (\<exists>info. L (i mod 65536) = Some (Some info) \<and> describes info (ps ! i)) \<or> L (i mod 65536) = None \<and> A i"
    and "L k \<noteq> None \<Longrightarrow> \<exists>i. f \<le> i \<and> i < n \<and> k = i mod 65536"
  using assms unfolding remembers_def by blast+

lemma remembers_empty: "remembers (\<lambda>_. None) ps A n n"
  by (auto simp: remembers_def)

lemma remembers_drop:
  assumes "remembers L ps A f n" "f < n" "n \<le> f + 65536"
  shows "remembers (L(f mod 65536 := None)) ps A (Suc f) n"
  unfolding remembers_def
proof (intro conjI allI impI)
  fix i assume i: "Suc f \<le> i \<and> i < n"
  then have "i mod 65536 \<noteq> f mod 65536" using mod_window_inj [of i f f] assms(3) by auto
  then show "(\<exists>info. (L(f mod 65536 := None)) (i mod 65536) = Some (Some info) \<and> describes info (ps ! i)) \<or>
      (L(f mod 65536 := None)) (i mod 65536) = None \<and> A i"
    using remembersD(1) [OF assms(1), of i] i by simp
next
  fix k assume "(L(f mod 65536 := None)) k \<noteq> None"
  then have k: "k \<noteq> f mod 65536" "L k \<noteq> None" by (auto split: if_splits)
  from remembersD(2) [OF assms(1) k(2)] obtain i where "f \<le> i" "i < n" "k = i mod 65536" by blast
  moreover from this k(1) have "i \<noteq> f" by auto
  ultimately show "\<exists>i\<ge>Suc f. i < n \<and> k = i mod 65536" by (intro exI [of _ i]) auto
qed

lemma remembers_add:
  assumes "remembers L ps A f n" "f \<le> n" "n < f + 65536"
  shows "remembers (L(n mod 65536 \<mapsto> Some (info_of (ps ! n)))) ps A f (Suc n)"
  unfolding remembers_def
proof (intro conjI allI impI)
  fix i assume i: "f \<le> i \<and> i < Suc n"
  show "(\<exists>info. (L(n mod 65536 \<mapsto> Some (info_of (ps ! n)))) (i mod 65536) = Some (Some info) \<and> describes info (ps ! i)) \<or>
      (L(n mod 65536 \<mapsto> Some (info_of (ps ! n)))) (i mod 65536) = None \<and> A i"
  proof (cases "i = n")
    case False
    then have "i mod 65536 \<noteq> n mod 65536" using mod_window_inj [of i n f] assms(3) i by auto
    then show ?thesis using remembersD(1) [OF assms(1), of i] i False by simp
  qed simp
next
  fix k assume "(L(n mod 65536 \<mapsto> Some (info_of (ps ! n)))) k \<noteq> None"
  then consider "k = n mod 65536" | "L k \<noteq> None" by (auto split: if_splits)
  then show "\<exists>i\<ge>f. i < Suc n \<and> k = i mod 65536"
  proof cases
    case 1
    then show ?thesis using assms(2) by blast
  next
    case 2
    from remembersD(2) [OF assms(1) 2] obtain i where "f \<le> i" "i < n" "k = i mod 65536" by blast
    then show ?thesis by (intro exI [of _ i]) simp
  qed
qed

lemma remembers_append: "remembers L ps A f n \<Longrightarrow> n \<le> length ps \<Longrightarrow> remembers L (ps @ qs) A f n"
  by (simp add: remembers_def nth_append)

lemma remembers_mono: "remembers L ps A f n \<Longrightarrow> (\<And>i. f \<le> i \<Longrightarrow> i < n \<Longrightarrow> A i \<Longrightarrow> B i) \<Longrightarrow> remembers L ps B f n"
  unfolding remembers_def by meson

lemma remembers_sent_entries:
  assumes "remembers L ps A f n" "\<forall>i < n. sentTime (ps ! i) \<noteq> 0"
  shows "sent_entries L"
  unfolding sent_entries_def
proof (intro allI impI)
  fix k v assume k: "L k = Some v"
  then obtain i where i: "f \<le> i" "i < n" "k = i mod 65536" using remembersD(2) [OF assms(1)] by blast
  then show "k < 65536 \<and> (\<exists>info. v = Some info \<and> localTimeKvs info \<noteq> 0)"
    using remembersD(1) [OF assms(1) i(1,2)] k assms(2) by (auto simp: describes_def)
qed

text \<open>Old at the time of packet \<open>n\<close>: sent more than a second before it.\<close>

abbreviation old :: "RtpPacket list \<Rightarrow> nat \<Rightarrow> nat \<Rightarrow> bool" where
  "old ps n i \<equiv> 10000000 < sentTime (ps ! n) - sentTime (ps ! i)"

context sent_table
begin

text \<open>One turn of the loop at number \<open>f\<close>, the newest packet being \<open>n\<close>: it stops at a packet that is not old, else it goes on without \<open>f\<close>.\<close>

lemma window_step:
  assumes "table_ok h" "remembers (lookup h) ps A f (Suc n)" "f \<le> n" "n < f + 65536" "sentTime (ps ! f) \<le> sentTime (ps ! n)"
  shows "(twccWindowStep H h (sentTime (ps ! n)) (word_of_nat f) = Inr (h, [], True) \<and> \<not> old ps n f) \<or>
    (\<exists>h' freed. twccWindowStep H h (sentTime (ps ! n)) (word_of_nat f) = Inr (h', freed, False) \<and> table_ok h' \<and>
       lookup h' = (lookup h)(f mod 65536 := None) \<and> (A f \<or> old ps n f))"
proof (cases "lookup h (f mod 65536)")
  case None
  then show ?thesis
    using assms(1) remembersD(1) [OF assms(2), of f] assms(3) by (simp add: twccWindowStep_def unat_of_nat fun_upd_idem)
next
  case (Some v)
  then obtain info where info: "lookup h (f mod 65536) = Some (Some info)" "localTimeKvs info = sentTime (ps ! f)"
    using remembersD(1) [OF assms(2), of f] assms(3) by (auto simp: describes_def)
  obtain h' where h': "hashTableRemove H h (f mod 65536) = (STATUS_SUCCESS, h')" "table_ok h'" "lookup h' = (lookup h)(f mod 65536 := None)"
    using remove_law [OF assms(1), of "f mod 65536"] info(1) by auto
  show ?thesis
    using info assms(1,5) h' by (cases "old ps n f") (simp_all add: twccWindowStep_def unat_of_nat)
qed

lemma window_loop:
  assumes "table_ok h" "remembers (lookup h) ps A f (Suc n)" "f \<le> n" "n < f + 65536"
    and "lookup h (n mod 65536) = Some (Some (info_of (ps ! n)))" "\<forall>i \<le> n. sentTime (ps ! i) \<le> sentTime (ps ! n)"
  shows "\<exists>h' g freed'. twccWindowLoop H (sentTime (ps ! n)) (word_of_nat n) h (word_of_nat f) freed = Inr (h', word_of_nat g, freed') \<and>
    table_ok h' \<and> remembers (lookup h') ps A g (Suc n) \<and> f \<le> g \<and> g \<le> n \<and>
    (\<forall>i. f \<le> i \<and> i < g \<longrightarrow> A i \<or> old ps n i) \<and> \<not> old ps n g"
  using assms
proof (induction "n - f" arbitrary: f h freed)
  case 0
  then have "f = n" by simp
  moreover have "twccWindowStep H h (sentTime (ps ! n)) (word_of_nat n) = Inr (h, [], True)"
    using 0 by (simp add: twccWindowStep_def unat_of_nat info_of_def)
  ultimately show ?case
    using 0 by (subst twccWindowLoop.simps) (auto intro!: exI [of _ n])
next
  case (Suc m)
  then have lt: "f < n" "m = n - Suc f" by simp_all
  have le: "sentTime (ps ! f) \<le> sentTime (ps ! n)" using Suc.prems(6) lt by simp
  from window_step [OF Suc.prems(1-4) le]
  consider (stop) "twccWindowStep H h (sentTime (ps ! n)) (word_of_nat f) = Inr (h, [], True)" "\<not> old ps n f"
    | (go) h1 freed1 where "twccWindowStep H h (sentTime (ps ! n)) (word_of_nat f) = Inr (h1, freed1, False)" "table_ok h1"
      "lookup h1 = (lookup h)(f mod 65536 := None)" "A f \<or> old ps n f"
    by blast
  then show ?case
  proof cases
    case stop
    then show ?thesis
      using Suc.prems lt by (subst twccWindowLoop.simps) (auto intro!: exI [of _ f])
  next
    case step: go
    have ne: "f mod 65536 \<noteq> n mod 65536" using mod_window_inj [of f n f] Suc.prems(4) lt by auto
    then have eq: "twccWindowLoop H (sentTime (ps ! n)) (word_of_nat n) h (word_of_nat f) freed =
        twccWindowLoop H (sentTime (ps ! n)) (word_of_nat n) h1 (word_of_nat (Suc f)) (freed @ freed1)"
      using step(1) by (subst twccWindowLoop.simps) (simp add: add.commute u16_of_nat_eq_iff)
    have rem: "remembers (lookup h1) ps A (Suc f) (Suc n)"
      using remembers_drop [OF Suc.prems(2)] Suc.prems(4) lt by (simp add: step(3))
    obtain h' g freed' where
      ih: "twccWindowLoop H (sentTime (ps ! n)) (word_of_nat n) h1 (word_of_nat (Suc f)) (freed @ freed1) = Inr (h', word_of_nat g, freed')"
      "table_ok h'" "remembers (lookup h') ps A g (Suc n)" "Suc f \<le> g" "g \<le> n"
      "\<forall>i. Suc f \<le> i \<and> i < g \<longrightarrow> A i \<or> old ps n i" "\<not> old ps n g"
      using Suc.hyps(1) [OF lt(2) step(2) rem, of "freed @ freed1"] Suc.prems(4-6) lt ne by (auto simp: step(3))
    have "A i \<or> old ps n i" if "f \<le> i" "i < g" for i
      using that ih(6) step(4) by (cases "i = f") auto
    then show ?thesis
      unfolding eq using ih by (intro exI [of _ h'] exI [of _ g] exI [of _ freed']) auto
  qed
qed

end

subsection \<open>The invariant\<close>

text \<open>
  After \<open>n\<close> packets of the log \<open>ps\<close>: the window starts at packet \<open>g\<close>, which is not old, and every
  packet before it is old or has been removed by a report (\<open>A\<close>).
\<close>

definition tracks ::
  "('h \<Rightarrow> nat \<Rightarrow> TwccRtpPacketInfo option option) \<Rightarrow> ('h \<Rightarrow> bool) \<Rightarrow> 'h TwccPeer \<Rightarrow> RtpPacket list \<Rightarrow> (nat \<Rightarrow> bool) \<Rightarrow> nat \<Rightarrow> bool" where
  "tracks lookup table_ok pc ps A n \<longleftrightarrow> hasOnSenderBandwidthEstimation pc \<and> n \<le> length ps \<and>
     (\<exists>mgr g. pTwccManager pc = Some mgr \<and> table_ok (pTwccRtpPktInfosHashTable mgr) \<and>
       remembers (lookup (pTwccRtpPktInfosHashTable mgr)) ps A g n \<and> firstSeqNumInRollingWindow mgr = word_of_nat g \<and>
       (n = 0 \<and> g = 0 \<or> g < n \<and> \<not> old ps (n - 1) g) \<and> (\<forall>i < g. A i \<or> old ps (n - 1) i))"

lemma tracksE:
  assumes "tracks lookup table_ok pc ps A n"
  obtains mgr g where "hasOnSenderBandwidthEstimation pc" "n \<le> length ps" "pTwccManager pc = Some mgr"
    "table_ok (pTwccRtpPktInfosHashTable mgr)" "remembers (lookup (pTwccRtpPktInfosHashTable mgr)) ps A g n"
    "firstSeqNumInRollingWindow mgr = word_of_nat g" "n = 0 \<and> g = 0 \<or> g < n \<and> \<not> old ps (n - 1) g" "\<forall>i < g. A i \<or> old ps (n - 1) i"
  using assms unfolding tracks_def by blast

text \<open>A log the code can keep track of: numbered, in the order of time, fewer than 65536 packets in any second.\<close>

definition steady :: "platform \<Rightarrow> RtpPacket list \<Rightarrow> bool" where
  "steady P ps \<longleftrightarrow> (\<forall>i < length ps. twcc_numbered P i (ps ! i) \<and> sentTime (ps ! i) \<noteq> 0) \<and> sorted (map sentTime ps) \<and>
     (\<forall>i. i + 65535 < length ps \<longrightarrow> old ps (i + 65535) i)"

lemma steady_mono: "steady P ps \<Longrightarrow> i \<le> j \<Longrightarrow> j < length ps \<Longrightarrow> sentTime (ps ! i) \<le> sentTime (ps ! j)"
  using sorted_nth_mono [of "map sentTime ps" i j] by (simp add: steady_def)

lemma steady_append: "steady P (ps @ qs) \<Longrightarrow> steady P ps"
proof -
  have nth: "(ps @ qs) ! i = ps ! i" if "i < length ps" for i using that by (simp add: nth_append)
  show "steady P ps" if "steady P (ps @ qs)"
    unfolding steady_def
  proof (intro conjI allI impI)
    fix i assume i: "i < length ps"
    then show "twcc_numbered P i (ps ! i)" "sentTime (ps ! i) \<noteq> 0"
      using that nth [OF i] unfolding steady_def by (metis length_append trans_less_add1)+
  next
    show "sorted (map sentTime ps)" using that by (simp add: steady_def sorted_append)
  next
    fix i assume i: "i + 65535 < length ps"
    then have "old (ps @ qs) (i + 65535) i" using that by (simp add: steady_def)
    then show "old ps (i + 65535) i" using i nth [of i] nth [of "i + 65535"] by simp
  qed
qed

lemma window_narrow:
  assumes "steady P ps" "n < length ps" "n = 0 \<and> g = 0 \<or> g < n \<and> \<not> old ps (n - 1) g"
  shows "g \<le> n" "n < g + 65536"
proof -
  show "g \<le> n" using assms(3) by auto
  show "n < g + 65536"
  proof (rule ccontr)
    assume "\<not> n < g + 65536"
    then have *: "g + 65535 \<le> n - 1" by simp
    then have "old ps (g + 65535) g" using assms(1,2) by (simp add: steady_def)
    moreover have "sentTime (ps ! (g + 65535)) \<le> sentTime (ps ! (n - 1))" using steady_mono [OF assms(1) *] assms(2) by simp
    ultimately show False using assms(3) * by auto
  qed
qed

context sent_table
begin

lemma on_packet_sent:
  assumes "memalloc P SIZEOF_TwccRtpPacketInfo" "steady P ps" "tracks lookup table_ok pc ps A n" "n < length ps"
  shows "\<exists>pc' freed. twccManagerOnPacketSent H P (Some pc) (Some (ps ! n)) = Some (STATUS_SUCCESS, Some pc', freed) \<and> tracks lookup table_ok pc' ps A (Suc n)"
proof -
  from assms(3) obtain mgr f where tr: "hasOnSenderBandwidthEstimation pc" "pTwccManager pc = Some mgr"
    "table_ok (pTwccRtpPktInfosHashTable mgr)" "remembers (lookup (pTwccRtpPktInfosHashTable mgr)) ps A f n"
    "firstSeqNumInRollingWindow mgr = word_of_nat f" "n = 0 \<and> f = 0 \<or> f < n \<and> \<not> old ps (n - 1) f" "\<forall>i < f. A i \<or> old ps (n - 1) i"
    by (rule tracksE)
  note f = window_narrow [OF assms(2,4) tr(6)]
  obtain ext where ext: "extensionProfile (header (ps ! n)) = TWCC_EXT_PROFILE" "extensionPayload (header (ps ! n)) = Some ext"
    "TWCC_SEQNUM P ext = Some (word_of_nat n)"
    using assms(2,4) by (auto simp: steady_def twcc_numbered_def)
  obtain h1 where h1: "hashTableUpsert H (pTwccRtpPktInfosHashTable mgr) (n mod 65536) (Some (info_of (ps ! n))) = (STATUS_SUCCESS, h1)"
    "table_ok h1" "lookup h1 = (lookup (pTwccRtpPktInfosHashTable mgr))(n mod 65536 \<mapsto> Some (info_of (ps ! n)))"
    using upsert_law [OF tr(3)] by blast
  have "remembers (lookup h1) ps A f (Suc n)" unfolding h1(3) by (rule remembers_add [OF tr(4) f])
  moreover have time: "\<forall>i \<le> n. sentTime (ps ! i) \<le> sentTime (ps ! n)" using steady_mono [OF assms(2)] assms(4) by blast
  ultimately obtain h' g freed' where
    loop: "twccWindowLoop H (sentTime (ps ! n)) (word_of_nat n) h1 (word_of_nat f) [] = Inr (h', word_of_nat g, freed')"
    and g: "table_ok h'" "remembers (lookup h') ps A g (Suc n)" "f \<le> g" "g \<le> n"
    "\<forall>i. f \<le> i \<and> i < g \<longrightarrow> A i \<or> old ps n i" "\<not> old ps n g"
    using window_loop [OF h1(2) _ f, of ps A "[]"] by (auto simp: h1(3))
  let ?mgr = "mgr\<lparr>pTwccRtpPktInfosHashTable := h', firstSeqNumInRollingWindow := word_of_nat g\<rparr>"
  have "twccManagerOnPacketSent H P (Some pc) (Some (ps ! n)) = Some (STATUS_SUCCESS, Some (pc\<lparr>pTwccManager := Some ?mgr\<rparr>), freed')"
    using tr(1,2,5) assms(1) ext h1(1) loop
    by (simp add: twccManagerOnPacketSent_def twccRollingWindowDeletion_def Let_def unat_of_nat info_of_def)
  moreover have "A i \<or> old ps n i" if "i < g" for i
  proof (cases "i < f")
    case True
    then have "A i \<or> old ps (n - 1) i" using tr(7) by blast
    moreover have "sentTime (ps ! (n - 1)) \<le> sentTime (ps ! n)" using time by simp
    ultimately show ?thesis by auto
  qed (use that g(5) in auto)
  ultimately show ?thesis using g assms(4) tr(1) by (auto simp: tracks_def intro!: exI [of _ g])
qed

end

subsection \<open>What any report does to the table\<close>

text \<open>The table without its remote times; a report on arbitrary bytes changes nothing else while it is parsed.\<close>

definition unmarked :: "(nat \<Rightarrow> TwccRtpPacketInfo option option) \<Rightarrow> nat \<Rightarrow> TwccRtpPacketInfo option option" where
  "unmarked L k = map_option (map_option (\<lambda>info. info\<lparr>remoteTimeKvs := 0\<rparr>)) (L k)"

definition marked_by_report :: "('h \<Rightarrow> nat \<Rightarrow> TwccRtpPacketInfo option option) \<Rightarrow> ('h \<Rightarrow> bool) \<Rightarrow> 'h TwccManager \<Rightarrow> 'h TwccManager \<Rightarrow> bool" where
  "marked_by_report lookup table_ok mgr mgr' \<longleftrightarrow> table_ok (pTwccRtpPktInfosHashTable mgr') \<and>
     unmarked (lookup (pTwccRtpPktInfosHashTable mgr')) = unmarked (lookup (pTwccRtpPktInfosHashTable mgr)) \<and>
     firstSeqNumInRollingWindow mgr' = firstSeqNumInRollingWindow mgr"

lemma unmarked_stamped: "unmarked (stamped L i ts) = unmarked L"
proof (induction ts arbitrary: L i)
  case (Cons t ts)
  have "(stamp t info)\<lparr>remoteTimeKvs := 0\<rparr> = info\<lparr>remoteTimeKvs := 0\<rparr>" for info
    by (simp add: stamp_def split: option.split)
  then have "unmarked (L(unat i := map_option (map_option (stamp t)) (L (unat i)))) = unmarked L"
    by (auto simp: unmarked_def fun_eq_iff option.map_comp comp_def)
  then show ?case using Cons.IH by (simp only: stamped.simps)
qed simp

lemma unmarked_SomeD:
  assumes "unmarked L = unmarked L'"
  shows "L k = None \<longleftrightarrow> L' k = None"
    and "L k = Some (Some info) \<Longrightarrow> \<exists>info'. L' k = Some (Some info') \<and> (\<forall>p. describes info' p \<longleftrightarrow> describes info p)"
proof -
  have k: "unmarked L k = unmarked L' k" by (simp add: assms)
  then show "L k = None \<longleftrightarrow> L' k = None" by (auto simp: unmarked_def)
  assume "L k = Some (Some info)"
  then obtain info' where "L' k = Some (Some info')" "info\<lparr>remoteTimeKvs := 0\<rparr> = info'\<lparr>remoteTimeKvs := 0\<rparr>"
    using k by (cases "L' k"; cases "the (L' k)") (auto simp: unmarked_def)
  moreover from this(2) have "localTimeKvs info' = localTimeKvs info" "packetSize info' = packetSize info"
    by (cases info; cases info'; simp)+
  ultimately show "\<exists>info'. L' k = Some (Some info') \<and> (\<forall>p. describes info' p \<longleftrightarrow> describes info p)"
    by (auto simp: describes_def)
qed

context sent_table
begin

lemma set_remote_time_marks:
  assumes "table_ok (pTwccRtpPktInfosHashTable (tw_mgr cur))" "twccSetRemoteTime H t cur = (st, cur')"
  shows "st = STATUS_SUCCESS \<and> marked_by_report lookup table_ok (tw_mgr cur) (tw_mgr cur')"
  using set_remote_time [OF assms(1), of t] assms(2) by (auto simp: marked_by_report_def unmarked_stamped simp del: stamped.simps)

lemma symbol_marks:
  assumes "table_ok (pTwccRtpPktInfosHashTable (tw_mgr cur))" "twccSymbol H P report s cur = Some (st, cur')"
  shows "st = STATUS_SUCCESS \<and> marked_by_report lookup table_ok (tw_mgr cur) (tw_mgr cur')"
  using assms
  by (auto simp: twccSymbol_def marked_by_report_def bind_eq_Some_conv split: if_splits prod.splits
      dest: set_remote_time_marks [rotated])

lemma marked_trans:
  "marked_by_report lookup table_ok a b \<Longrightarrow> marked_by_report lookup table_ok b c \<Longrightarrow> marked_by_report lookup table_ok a c"
  by (simp add: marked_by_report_def)

lemma symbols_mark:
  assumes "table_ok (pTwccRtpPktInfosHashTable (tw_mgr cur))" "twccSymbols H P report ss cur = Some (st, cur')"
  shows "st = STATUS_SUCCESS \<and> marked_by_report lookup table_ok (tw_mgr cur) (tw_mgr cur')"
  using assms
proof (induction ss arbitrary: cur)
  case Nil
  then show ?case by (simp add: marked_by_report_def)
next
  case (Cons s ss)
  from Cons.prems(2) obtain st1 cur1 where one: "twccSymbol H P report s cur = Some (st1, cur1)"
    "(if STATUS_FAILED st1 then Some (st1, cur1) else twccSymbols H P report ss cur1) = Some (st, cur')"
    by (auto simp: bind_eq_Some_conv)
  from symbol_marks [OF Cons.prems(1) one(1)] have m: "st1 = STATUS_SUCCESS" "marked_by_report lookup table_ok (tw_mgr cur) (tw_mgr cur1)" by simp_all
  then have "table_ok (pTwccRtpPktInfosHashTable (tw_mgr cur1))" by (simp add: marked_by_report_def)
  then show ?case using Cons.IH [of cur1] one(2) m marked_trans by auto
qed

lemma chunks_mark:
  assumes "table_ok (pTwccRtpPktInfosHashTable (tw_mgr cur))" "twccChunks H P report off cur = Some (st, cur')"
  shows "st = STATUS_SUCCESS \<and> marked_by_report lookup table_ok (tw_mgr cur) (tw_mgr cur')"
  using assms
proof (induction "length report - off" arbitrary: off cur rule: less_induct)
  case less
  show ?case
  proof (cases "packetsRemaining cur > 0")
    case False
    then show ?thesis using less.prems by (simp add: twccChunks.simps marked_by_report_def)
  next
    case True
    with less.prems(2) have off: "off + 2 \<le> length report" by (simp add: twccChunks.simps split: if_splits)
    with less.prems(2) True obtain ss st1 cur1 where one: "twccSymbols H P report ss cur = Some (st1, cur1)"
      "(if STATUS_FAILED st1 then Some (st1, cur1) else twccChunks H P report (off + 2) cur1) = Some (st, cur')"
      by (subst (asm) twccChunks.simps) (auto simp: bind_eq_Some_conv)
    from symbols_mark [OF less.prems(1) one(1)] have m: "st1 = STATUS_SUCCESS" "marked_by_report lookup table_ok (tw_mgr cur) (tw_mgr cur1)" by simp_all
    then have "table_ok (pTwccRtpPktInfosHashTable (tw_mgr cur1))" by (simp add: marked_by_report_def)
    then show ?thesis using less.hyps [of "off + 2" cur1] one(2) m off marked_trans by auto
  qed
qed

lemma parse_marks:
  assumes "table_ok (pTwccRtpPktInfosHashTable mgr)" "parseRtcpTwccPacket H P (Some pkt) (Some mgr) = Some (st, m)"
  shows "\<exists>mgr'. st = STATUS_SUCCESS \<and> m = Some mgr' \<and> marked_by_report lookup table_ok mgr mgr'"
proof -
  from assms(2) obtain off base cur cur' where "twccChunks H P (rtcpPayload pkt) off cur = Some (st, cur')" "m = Some (tw_mgr cur')"
    "tw_mgr cur = mgr\<lparr>prevReportedBaseSeqNum := base\<rparr>"
    by (auto simp: parseRtcpTwccPacket_def bind_eq_Some_conv Let_def)
  then show ?thesis using chunks_mark [of cur] assms(1) by (auto simp: marked_by_report_def)
qed

text \<open>
  A report that is parsed: the packets it marks as received, in the range it names, leave the table, and
  the others stay.
\<close>

lemma on_report:
  assumes "tracks lookup table_ok pc ps A n" "\<forall>i < n. sentTime (ps ! i) \<noteq> 0"
    and "onRtcpTwccPacket H P (Some r) (Some pc) = Some res" "pTwccManager pc = Some mgr"
  shows "\<exists>pc' freed mgr2. res = (STATUS_SUCCESS, Some pc', freed) \<and> parseRtcpTwccPacket H P (Some r) (Some mgr) = Some (STATUS_SUCCESS, Some mgr2) \<and>
    tracks lookup table_ok pc' ps (\<lambda>i. A i \<or> (\<exists>info. lookup (pTwccRtpPktInfosHashTable mgr2) (i mod 65536) = Some (Some info) \<and>
       received info \<and> describes info (ps ! i))) n"
proof -
  from assms(1) obtain g where tr: "hasOnSenderBandwidthEstimation pc" "n \<le> length ps" "table_ok (pTwccRtpPktInfosHashTable mgr)"
    "remembers (lookup (pTwccRtpPktInfosHashTable mgr)) ps A g n" "firstSeqNumInRollingWindow mgr = word_of_nat g"
    "n = 0 \<and> g = 0 \<or> g < n \<and> \<not> old ps (n - 1) g" "\<forall>i < g. A i \<or> old ps (n - 1) i"
    using assms(4) by (auto elim!: tracksE)
  from assms(3,4) tr(1) obtain st m where "parseRtcpTwccPacket H P (Some r) (Some mgr) = Some (st, m)"
    by (auto simp: onRtcpTwccPacket_def bind_eq_Some_conv)
  with parse_marks [OF tr(3)] obtain mgr2 where p: "parseRtcpTwccPacket H P (Some r) (Some mgr) = Some (STATUS_SUCCESS, Some mgr2)"
    and mk: "table_ok (pTwccRtpPktInfosHashTable mgr2)"
      "unmarked (lookup (pTwccRtpPktInfosHashTable mgr2)) = unmarked (lookup (pTwccRtpPktInfosHashTable mgr))"
      "firstSeqNumInRollingWindow mgr2 = word_of_nat g"
    using tr(5) by (fastforce simp: marked_by_report_def)
  let ?L = "lookup (pTwccRtpPktInfosHashTable mgr2)"
  have rem: "remembers ?L ps A g n"
    using tr(4) unmarked_SomeD [OF mk(2) [symmetric]] unfolding remembers_def by meson
  obtain h est freed "is" where u: "updateTwccHashTable H (Some mgr2) =
      Some (STATUS_SUCCESS, Some (mgr2\<lparr>pTwccRtpPktInfosHashTable := h\<rparr>), est, freed)" "table_ok h" "lookup h = purged ?L is"
    using update_counts [OF mk(1) remembers_sent_entries [OF rem assms(2)]] by blast
  let ?A = "\<lambda>i. A i \<or> (\<exists>info. ?L (i mod 65536) = Some (Some info) \<and> received info \<and> describes info (ps ! i))"
  have "remembers (lookup h) ps ?A g n"
    using rem unfolding remembers_def u(3) purged_def by (auto split: if_splits)
  then show ?thesis
    using assms(3,4) tr(1,2,6,7) p u(1,2) mk(3)
    by (auto simp: onRtcpTwccPacket_def Let_def tracks_def intro!: exI [of _ g])
qed

text \<open>A report of run-length chunks is always processed to its end.\<close>

lemma on_report_of_runs:
  assumes "tracks lookup table_ok pc ps A n" "\<forall>i < n. sentTime (ps ! i) \<noteq> 0" "network_order P"
    and "\<forall>x \<in> set runs. run_ok x" "length (concat runs) < 65536" "rtcpPayload r = twcc_report sender media base ref fb runs pad"
    and "16 + 2 * length runs \<le> rtcpPayloadLength r"
  shows "onRtcpTwccPacket H P (Some r) (Some pc) \<noteq> None"
proof -
  from assms(1) obtain mgr g where tr: "hasOnSenderBandwidthEstimation pc" "pTwccManager pc = Some mgr"
    "table_ok (pTwccRtpPktInfosHashTable mgr)" "remembers (lookup (pTwccRtpPktInfosHashTable mgr)) ps A g n" by (rule tracksE)
  from parse_report [OF assms(3-5) tr(3) assms(6,7)] obtain mgr2 where
    p: "parseRtcpTwccPacket H P (Some r) (Some mgr) = Some (STATUS_SUCCESS, Some mgr2)" by blast
  from parse_marks [OF tr(3) p] have mk: "table_ok (pTwccRtpPktInfosHashTable mgr2)"
    "unmarked (lookup (pTwccRtpPktInfosHashTable mgr2)) = unmarked (lookup (pTwccRtpPktInfosHashTable mgr))"
    by (simp_all add: marked_by_report_def)
  have "remembers (lookup (pTwccRtpPktInfosHashTable mgr2)) ps A g n"
    using tr(4) unmarked_SomeD [OF mk(2) [symmetric]] unfolding remembers_def by meson
  from update_counts [OF mk(1) remembers_sent_entries [OF this assms(2)]] show ?thesis
    using tr(1,2) p by (auto simp: onRtcpTwccPacket_def Let_def)
qed

end

subsection \<open>Histories\<close>

datatype twcc_event = PacketSent RtpPacket | ReportReceived RtcpPacket

fun twcc_step :: "('h, TwccRtpPacketInfo) hash_ops \<Rightarrow> platform \<Rightarrow> 'h TwccPeer option \<Rightarrow> twcc_event \<Rightarrow> 'h TwccPeer option option" where
  "twcc_step H P pc (PacketSent p) = map_option (fst \<circ> snd) (twccManagerOnPacketSent H P pc (Some p))"
| "twcc_step H P pc (ReportReceived r) = map_option (fst \<circ> snd) (onRtcpTwccPacket H P (Some r) pc)"

fun twcc_history ::
  "('h, TwccRtpPacketInfo) hash_ops \<Rightarrow> platform \<Rightarrow> 'h TwccPeer option \<Rightarrow> twcc_event list \<Rightarrow> 'h TwccPeer option option" where
  "twcc_history H P pc [] = Some pc"
| "twcc_history H P pc (e # es) = do { pc' \<leftarrow> twcc_step H P pc e; twcc_history H P pc' es }"

fun sent_by :: "twcc_event list \<Rightarrow> RtpPacket list" where
  "sent_by [] = []"
| "sent_by (PacketSent p # es) = p # sent_by es"
| "sent_by (ReportReceived _ # es) = sent_by es"

text \<open>
  Packet \<open>i\<close> was reported as received: at some report it had been sent, and parsing the report gave its
  entry a remote time.
\<close>

definition reported_received ::
  "('h, TwccRtpPacketInfo) hash_ops \<Rightarrow> ('h \<Rightarrow> nat \<Rightarrow> TwccRtpPacketInfo option option) \<Rightarrow> platform \<Rightarrow> 'h TwccPeer \<Rightarrow> twcc_event list \<Rightarrow> nat \<Rightarrow> bool" where
  "reported_received H lookup P pc es i \<longleftrightarrow> (\<exists>es1 r es2 pc1 mgr1 mgr2 info. es = es1 @ ReportReceived r # es2 \<and> i < length (sent_by es1) \<and>
     twcc_history H P (Some pc) es1 = Some (Some pc1) \<and> pTwccManager pc1 = Some mgr1 \<and>
     parseRtcpTwccPacket H P (Some r) (Some mgr1) = Some (STATUS_SUCCESS, Some mgr2) \<and>
     lookup (pTwccRtpPktInfosHashTable mgr2) (i mod 65536) = Some (Some info) \<and> received info \<and> describes info (sent_by es ! i))"

lemma twcc_history_append:
  "twcc_history H P pc (es @ fs) = Option.bind (twcc_history H P pc es) (\<lambda>pc'. twcc_history H P pc' fs)"
  by (induction es arbitrary: pc) (auto simp: Option.bind_assoc)

lemma sent_by_append [simp]: "sent_by (es @ fs) = sent_by es @ sent_by fs"
  by (induction es rule: sent_by.induct) auto

lemma reported_received_snoc:
  assumes "reported_received H lookup P pc es i" "i < length (sent_by es)"
  shows "reported_received H lookup P pc (es @ [e]) i"
  using assms unfolding reported_received_def by (force simp: nth_append)

lemma tracks_cong:
  assumes "tracks lookup table_ok pc ps A n" "n \<le> length ps" "\<And>i. i < n \<Longrightarrow> A i \<Longrightarrow> B i"
  shows "tracks lookup table_ok pc (ps @ qs) B n"
proof -
  from assms(1) obtain mgr g where tr: "hasOnSenderBandwidthEstimation pc" "pTwccManager pc = Some mgr"
    "table_ok (pTwccRtpPktInfosHashTable mgr)" "remembers (lookup (pTwccRtpPktInfosHashTable mgr)) ps A g n"
    "firstSeqNumInRollingWindow mgr = word_of_nat g" "n = 0 \<and> g = 0 \<or> g < n \<and> \<not> old ps (n - 1) g" "\<forall>i < g. A i \<or> old ps (n - 1) i"
    by (rule tracksE)
  have old: "old (ps @ qs) (n - 1) i \<longleftrightarrow> old ps (n - 1) i" if "i < n" for i
    using that assms(2) by (simp add: nth_append)
  have "remembers (lookup (pTwccRtpPktInfosHashTable mgr)) (ps @ qs) B g n"
    using remembers_append [OF remembers_mono [OF tr(4), of B] assms(2)] assms(3) by blast
  moreover have "n = 0 \<and> g = 0 \<or> g < n \<and> \<not> old (ps @ qs) (n - 1) g" using tr(6) old by blast
  moreover have "\<forall>i < g. B i \<or> old (ps @ qs) (n - 1) i" 
  proof (intro allI impI)
    fix i assume "i < g"
    then have "i < n" "A i \<or> old ps (n - 1) i" using tr(6,7) by auto
    then show "B i \<or> old (ps @ qs) (n - 1) i" using old assms(3) by blast
  qed
  ultimately show ?thesis using tr(1-3,5) assms(2) unfolding tracks_def by (intro conjI exI [of _ mgr] exI [of _ g]) auto
qed

context sent_table
begin

lemma history_tracks:
  assumes "memalloc P SIZEOF_TwccRtpPacketInfo" "tracks lookup table_ok pc [] (\<lambda>_. False) 0" "steady P (sent_by es)"
    and "twcc_history H P (Some pc) es = Some pcx"
  shows "\<exists>pc'. pcx = Some pc' \<and> tracks lookup table_ok pc' (sent_by es) (reported_received H lookup P pc es) (length (sent_by es))"
  using assms(3-)
proof (induction es arbitrary: pcx rule: rev_induct)
  case Nil
  then show ?case using tracks_cong [OF assms(2), of _ "[]"] by auto
next
  case (snoc e es)
  have st: "steady P (sent_by es)" using steady_append snoc.prems(1) by simp
  from snoc.prems(2) obtain pcy where y: "twcc_history H P (Some pc) es = Some pcy" "twcc_step H P pcy e = Some pcx"
    by (auto simp: twcc_history_append bind_eq_Some_conv)
  from snoc.IH [OF st y(1)] obtain pc1 where pc1: "pcy = Some pc1"
    and tr: "tracks lookup table_ok pc1 (sent_by es) (reported_received H lookup P pc es) (length (sent_by es))" by blast
  have tr': "tracks lookup table_ok pc1 (sent_by (es @ [e])) (reported_received H lookup P pc (es @ [e])) (length (sent_by es))"
    unfolding sent_by_append by (rule tracks_cong [OF tr order_refl]) (rule reported_received_snoc)
  show ?case
  proof (cases e)
    case (PacketSent p)
    from on_packet_sent [OF assms(1) snoc.prems(1) tr'] PacketSent y(2) pc1 show ?thesis by (auto simp: nth_append)
  next
    case (ReportReceived r)
    from tr obtain mgr1 where mgr1: "pTwccManager pc1 = Some mgr1" by (auto elim: tracksE)
    from y(2) ReportReceived pc1 obtain res where res: "onRtcpTwccPacket H P (Some r) (Some pc1) = Some res" "pcx = fst (snd res)" by auto
    have "\<forall>i < length (sent_by es). sentTime (sent_by (es @ [e]) ! i) \<noteq> 0" using snoc.prems(1) ReportReceived by (simp add: steady_def)
    from on_report [OF tr' this res(1) mgr1] obtain pc' mgr2 where
      p: "pcx = Some pc'" "parseRtcpTwccPacket H P (Some r) (Some mgr1) = Some (STATUS_SUCCESS, Some mgr2)"
      and t: "tracks lookup table_ok pc' (sent_by (es @ [e])) (\<lambda>i. reported_received H lookup P pc (es @ [e]) i \<or>
         (\<exists>info. lookup (pTwccRtpPktInfosHashTable mgr2) (i mod 65536) = Some (Some info) \<and> received info \<and>
           describes info (sent_by (es @ [e]) ! i))) (length (sent_by es))"
      using res(2) by auto
    have "reported_received H lookup P pc (es @ [e]) i"
      if "i < length (sent_by es)" "lookup (pTwccRtpPktInfosHashTable mgr2) (i mod 65536) = Some (Some info)" "received info"
        "describes info (sent_by (es @ [e]) ! i)" for i info
      unfolding reported_received_def using that p(2) mgr1 y(1) pc1 ReportReceived by blast
    then show ?thesis
      using tracks_cong [OF t, of "reported_received H lookup P pc (es @ [e])" "[]"] p(1) ReportReceived by auto
  qed
qed

lemma history_defined:
  assumes "memalloc P SIZEOF_TwccRtpPacketInfo" "tracks lookup table_ok pc [] (\<lambda>_. False) 0" "steady P (sent_by es)"
    and "twcc_history H P (Some pc) es = None"
  shows "\<exists>es1 r es2 pc1. es = es1 @ ReportReceived r # es2 \<and> twcc_history H P (Some pc) es1 = Some pc1 \<and> onRtcpTwccPacket H P (Some r) pc1 = None"
  using assms(3-)
proof (induction es rule: rev_induct)
  case (snoc e es)
  have st: "steady P (sent_by es)" using steady_append snoc.prems(1) by simp
  show ?case
  proof (cases "twcc_history H P (Some pc) es")
    case None
    from snoc.IH [OF st None] show ?thesis by force
  next
    case (Some pcy)
    from history_tracks [OF assms(1,2) st Some] obtain pc1 where pc1: "pcy = Some pc1"
      and tr: "tracks lookup table_ok pc1 (sent_by es) (reported_received H lookup P pc es) (length (sent_by es))" by blast
    have none: "twcc_step H P (Some pc1) e = None" using snoc.prems(2) Some pc1 by (auto simp: twcc_history_append bind_eq_None_conv)
    show ?thesis
    proof (cases e)
      case (PacketSent p)
      have "tracks lookup table_ok pc1 (sent_by (es @ [e])) (reported_received H lookup P pc es) (length (sent_by es))"
        using tracks_cong [OF tr] by simp
      from on_packet_sent [OF assms(1) snoc.prems(1) this] none PacketSent show ?thesis by (auto simp: nth_append)
    next
      case (ReportReceived r)
      then show ?thesis using none Some pc1 by auto
    qed
  qed
qed simp

end

text \<open>A connection that has sent nothing, and the packet with transport-wide number \<open>n\<close> sent at time \<open>t\<close>.\<close>

definition sample_peer :: "TwccRtpPacketInfo buckets TwccPeer" where
  "sample_peer = \<lparr>twccExtId = 1, transportWideSequenceNumber = 0,
     pTwccManager = Some \<lparr>pTwccRtpPktInfosHashTable = replicate 4 [], firstSeqNumInRollingWindow = 0, lastReportedSeqNum = 0,
       prevReportedBaseSeqNum = 0\<rparr>, hasOnSenderBandwidthEstimation = True, estimates = []\<rparr>"

definition twcc_sample :: "byte \<Rightarrow> nat \<Rightarrow> RtpPacket" where
  "twcc_sample n t = sample_packet\<lparr>header := (header sample_packet)\<lparr>extensionPayload := Some [16, 0, n, 0]\<rparr>, sentTime := t\<rparr>"

text \<open>Two packets, a report that the first was received and the second lost, and a third packet.\<close>

definition sample_report :: RtcpPacket where
  "sample_report = \<lparr>rtcpHeader = \<lparr>rtcpVersion = 2, receptionReportCount = 15, rtcpPacketType = 205, rtcpPacketLength = 6\<rparr>,
     rtcpPayload = twcc_report 1 2 0 (0, 0, 1) 0 [[Small 4], [Lost]] [0, 0, 0], rtcpPayloadLength = 24\<rparr>"

definition sample_events :: "twcc_event list" where
  "sample_events = [PacketSent (twcc_sample 0 5), PacketSent (twcc_sample 1 6), ReportReceived sample_report, PacketSent (twcc_sample 2 7)]"

subsection \<open>Property\<close>



end
