(* ===== verification/MediaTransport.thy ===== *)
theory MediaTransport
  imports KvsPrelude
begin

text \<open>
  The two services the media path calls for every packet: the SRTP session
  (\<^verbatim>\<open>src/source/Srtp/SrtpSession.c\<close>) over libsrtp, and the ICE agent's data path
  (\<^verbatim>\<open>iceAgentSendPacket\<close> of \<^verbatim>\<open>src/source/Ice/IceAgent.c\<close>, \<^verbatim>\<open>iceUtilsSendData\<close> of
  \<^verbatim>\<open>src/source/Ice/IceUtils.c\<close>) over the TURN connection and the socket.

  libsrtp is the record \<open>libsrtp\<close>: a session is a value of type \<open>'x\<close>, protecting and
  unprotecting a packet in place returns the new session.  The world outside, with the clock and
  the two ways to send, is the record \<open>world_ops\<close> over a state \<open>'n\<close>.
\<close>

subsection \<open>SRTP\<close>

datatype KVS_SRTP_PROFILE =
    KVS_SRTP_PROFILE_AES128_CM_HMAC_SHA1_80
  | KVS_SRTP_PROFILE_AES128_CM_HMAC_SHA1_32
  | KVS_SRTP_PROFILE_UNKNOWN

datatype srtp_policy = srtp_crypto_policy_set_rtp_default | srtp_crypto_policy_set_aes_cm_128_hmac_sha1_32
datatype srtp_direction = ssrc_any_inbound | ssrc_any_outbound

text \<open>
  \<open>srtp_create rtp rtcp key direction\<close>; the in-place operations get the buffer and the length
  and return success, the buffer, the new length and the session.
\<close>

record 'x libsrtp =
  srtp_create :: "srtp_policy \<Rightarrow> srtp_policy \<Rightarrow> byte list \<Rightarrow> srtp_direction \<Rightarrow> 'x option"
  srtp_protect :: "'x \<Rightarrow> byte list \<Rightarrow> nat \<Rightarrow> bool \<times> byte list \<times> nat \<times> 'x"
  srtp_unprotect :: "'x \<Rightarrow> byte list \<Rightarrow> nat \<Rightarrow> bool \<times> byte list \<times> nat \<times> 'x"
  srtp_protect_rtcp :: "'x \<Rightarrow> byte list \<Rightarrow> nat \<Rightarrow> bool \<times> byte list \<times> nat \<times> 'x"
  srtp_unprotect_rtcp :: "'x \<Rightarrow> byte list \<Rightarrow> nat \<Rightarrow> bool \<times> byte list \<times> nat \<times> 'x"

record 'x SrtpSession =
  srtp_transmit_session :: 'x
  srtp_receive_session :: 'x

definition SIZEOF_SrtpSession :: nat where
  "SIZEOF_SrtpSession = 16"

text \<open>The allocation is not checked: a failed one is dereferenced, hence \<open>None\<close>.\<close>

definition initSrtpSession ::
  "platform \<Rightarrow> 'x libsrtp \<Rightarrow> byte list option \<Rightarrow> byte list option \<Rightarrow> KVS_SRTP_PROFILE \<Rightarrow>
   (STATUS \<times> 'x SrtpSession option) option" where
  "initSrtpSession P L receiveKey transmitKey prof =
     (case (receiveKey, transmitKey) of
        (Some rk, Some tk) \<Rightarrow>
          (case (case prof of
                   KVS_SRTP_PROFILE_AES128_CM_HMAC_SHA1_32 \<Rightarrow> Some srtp_crypto_policy_set_aes_cm_128_hmac_sha1_32
                 | KVS_SRTP_PROFILE_AES128_CM_HMAC_SHA1_80 \<Rightarrow> Some srtp_crypto_policy_set_rtp_default
                 | _ \<Rightarrow> None) of
             None \<Rightarrow> Some (STATUS_SSL_UNKNOWN_SRTP_PROFILE, None)
           | Some setter \<Rightarrow>
               if \<not> memalloc P SIZEOF_SrtpSession then None
               else Some (case srtp_create L setter srtp_crypto_policy_set_rtp_default rk ssrc_any_inbound of
                  None \<Rightarrow> (STATUS_SRTP_RECEIVE_SESSION_CREATION_FAILED, None)
                | Some rs \<Rightarrow>
                    (case srtp_create L setter srtp_crypto_policy_set_rtp_default tk ssrc_any_outbound of
                       None \<Rightarrow> (STATUS_SRTP_TRANSMIT_SESSION_CREATION_FAILED, None)
                     | Some ts \<Rightarrow> (STATUS_SUCCESS, Some \<lparr>srtp_transmit_session = ts, srtp_receive_session = rs\<rparr>))))
      | _ \<Rightarrow> Some (STATUS_NULL_ARG, None))"

definition freeSrtpSession :: "'x SrtpSession option \<Rightarrow> STATUS \<times> 'x SrtpSession option" where
  "freeSrtpSession pSrtpSession = (STATUS_SUCCESS, None)"

definition decryptSrtpPacket ::
  "'x libsrtp \<Rightarrow> 'x SrtpSession \<Rightarrow> byte list \<Rightarrow> nat \<Rightarrow> STATUS \<times> byte list \<times> nat \<times> 'x SrtpSession" where
  "decryptSrtpPacket L sess buf len =
     (case srtp_unprotect L (srtp_receive_session sess) buf len of
        (ok, buf', len', x) \<Rightarrow>
          (if ok then STATUS_SUCCESS else STATUS_SRTP_DECRYPT_FAILED, buf', len', sess\<lparr>srtp_receive_session := x\<rparr>))"

definition decryptSrtcpPacket ::
  "'x libsrtp \<Rightarrow> 'x SrtpSession \<Rightarrow> byte list \<Rightarrow> nat \<Rightarrow> STATUS \<times> byte list \<times> nat \<times> 'x SrtpSession" where
  "decryptSrtcpPacket L sess buf len =
     (case srtp_unprotect_rtcp L (srtp_receive_session sess) buf len of
        (ok, buf', len', x) \<Rightarrow>
          (if ok then STATUS_SUCCESS else STATUS_SRTP_DECRYPT_FAILED, buf', len', sess\<lparr>srtp_receive_session := x\<rparr>))"

definition encryptRtpPacket ::
  "'x libsrtp \<Rightarrow> 'x SrtpSession \<Rightarrow> byte list \<Rightarrow> nat \<Rightarrow> STATUS \<times> byte list \<times> nat \<times> 'x SrtpSession" where
  "encryptRtpPacket L sess buf len =
     (case srtp_protect L (srtp_transmit_session sess) buf len of
        (ok, buf', len', x) \<Rightarrow>
          (if ok then STATUS_SUCCESS else STATUS_SRTP_ENCRYPT_FAILED, buf', len', sess\<lparr>srtp_transmit_session := x\<rparr>))"

definition encryptRtcpPacket ::
  "'x libsrtp \<Rightarrow> 'x SrtpSession \<Rightarrow> byte list \<Rightarrow> nat \<Rightarrow> STATUS \<times> byte list \<times> nat \<times> 'x SrtpSession" where
  "encryptRtcpPacket L sess buf len =
     (case srtp_protect_rtcp L (srtp_transmit_session sess) buf len of
        (ok, buf', len', x) \<Rightarrow>
          (if ok then STATUS_SUCCESS else STATUS_SRTP_ENCRYPT_FAILED, buf', len', sess\<lparr>srtp_transmit_session := x\<rparr>))"

subsection \<open>Addresses and candidate pairs\<close>

datatype KVS_IP_FAMILY_TYPE = KVS_IP_FAMILY_TYPE_NOT_SET | KVS_IP_FAMILY_TYPE_IPV4 | KVS_IP_FAMILY_TYPE_IPV6

text \<open>Port and address as they are stored: in network byte order; \<open>address\<close> has 16 bytes.\<close>

record KvsIpAddress =
  family :: u16
  port :: "byte list"
  address :: "byte list"
  isPointToPoint :: bool

datatype ICE_CANDIDATE_TYPE =
    ICE_CANDIDATE_TYPE_HOST
  | ICE_CANDIDATE_TYPE_PEER_REFLEXIVE
  | ICE_CANDIDATE_TYPE_SERVER_REFLEXIVE
  | ICE_CANDIDATE_TYPE_RELAYED

datatype ICE_CANDIDATE_PAIR_STATE =
    ICE_CANDIDATE_PAIR_STATE_FROZEN
  | ICE_CANDIDATE_PAIR_STATE_WAITING
  | ICE_CANDIDATE_PAIR_STATE_IN_PROGRESS
  | ICE_CANDIDATE_PAIR_STATE_SUCCEEDED
  | ICE_CANDIDATE_PAIR_STATE_FAILED

record PairDiagnostics =
  diag_state :: ICE_CANDIDATE_PAIR_STATE
  diag_packetsDiscardedOnSend :: nat
  diag_bytesDiscardedOnSend :: nat
  diag_packetsSent :: nat
  diag_bytesSent :: nat
  diag_lastPacketSentTimestamp :: nat

record SendingPair =
  local_type :: "ICE_CANDIDATE_TYPE option"
  local_hasSocketConnection :: bool
  local_hasTurnConnection :: bool
  remote_ipAddress :: KvsIpAddress
  pair_state :: ICE_CANDIDATE_PAIR_STATE
  lastDataSentTime :: nat
  pairDiagnostics :: "PairDiagnostics option"

record SendingAgent =
  agent_shutdown :: bool
  iceAgentStatus :: STATUS
  pDataSendingIceCandidatePair :: "SendingPair option"

record 'n world_ops =
  getTime :: "'n \<Rightarrow> nat \<times> 'n"
  turnConnectionSendData :: "'n \<Rightarrow> byte list \<Rightarrow> KvsIpAddress \<Rightarrow> STATUS \<times> 'n"
  socketConnectionSendData :: "'n \<Rightarrow> byte list \<Rightarrow> KvsIpAddress \<Rightarrow> STATUS \<times> 'n"

subsection \<open>Sending\<close>

definition iceUtilsSendData ::
  "'n world_ops \<Rightarrow> 'n \<Rightarrow> byte list \<Rightarrow> KvsIpAddress \<Rightarrow> bool \<Rightarrow> bool \<Rightarrow> bool \<Rightarrow> STATUS \<times> 'n" where
  "iceUtilsSendData W w bytes dest hasSocketConnection hasTurnConnection useTurn =
     (if \<not> (hasSocketConnection \<and> \<not> useTurn \<or> hasTurnConnection \<and> useTurn) then (STATUS_INVALID_ARG, w)
      else case (if useTurn then turnConnectionSendData W w bytes dest else socketConnectionSendData W w bytes dest) of
        (st, w') \<Rightarrow>
          (if STATUS_SUCCEEDED st \<or> st = STATUS_SOCKET_CONNECTION_NOT_READY_TO_SEND then STATUS_SUCCESS else st, w'))"

text \<open>The diagnostics at the end of a successful call, sent or discarded.\<close>

definition notePairSend :: "nat \<Rightarrow> nat \<Rightarrow> nat \<Rightarrow> nat \<Rightarrow> SendingPair \<Rightarrow> SendingPair" where
  "notePairSend packetsDiscarded bytesDiscarded packetsSent bytesSent pair =
     pair\<lparr>pairDiagnostics := map_option (\<lambda>d. d\<lparr>
        diag_packetsDiscardedOnSend := wrap32 (diag_packetsDiscardedOnSend d + packetsDiscarded),
        diag_bytesDiscardedOnSend := wrap64 (diag_bytesDiscardedOnSend d + bytesDiscarded),
        diag_state := pair_state pair, diag_lastPacketSentTimestamp := lastDataSentTime pair,
        diag_bytesSent := wrap64 (diag_bytesSent d + bytesSent),
        diag_packetsSent := wrap64 (diag_packetsSent d + packetsSent)\<rparr>) (pairDiagnostics pair)\<rparr>"

text \<open>\<open>None\<close>: \<^verbatim>\<open>bufferLen\<close> exceeds the buffer.\<close>

definition iceAgentSendPacket ::
  "'n world_ops \<Rightarrow> 'n \<Rightarrow> SendingAgent option \<Rightarrow> byte list option \<Rightarrow> nat \<Rightarrow> (STATUS \<times> SendingAgent option \<times> 'n) option" where
  "iceAgentSendPacket W w pIceAgent pBuffer bufferLen =
     (case (pIceAgent, pBuffer) of
        (Some ag, Some buf) \<Rightarrow>
          if bufferLen = 0 then Some (STATUS_INVALID_ARG, Some ag, w)
          else (case pDataSendingIceCandidatePair ag of
             None \<Rightarrow> Some (STATUS_SUCCESS, Some ag, w)
           | Some pair \<Rightarrow>
               let unsent = Some (STATUS_SUCCESS, Some (ag\<lparr>pDataSendingIceCandidatePair := Some (notePairSend 0 0 0 0 pair)\<rparr>), w) in
               if agent_shutdown ag \<or> pair_state pair \<noteq> ICE_CANDIDATE_PAIR_STATE_SUCCEEDED then unsent
               else (case local_type pair of
                  None \<Rightarrow> unsent
                | Some typ \<Rightarrow>
                    let isRelay = (typ = ICE_CANDIDATE_TYPE_RELAYED) in
                    if isRelay \<and> \<not> local_hasTurnConnection pair then Some (STATUS_NULL_ARG, Some ag, w)
                    else do {
                      bytes \<leftarrow> rdn buf 0 bufferLen;
                      case iceUtilsSendData W w bytes (remote_ipAddress pair) (local_hasSocketConnection pair)
                             (isRelay \<and> local_hasTurnConnection pair) isRelay of
                        (st, w1) \<Rightarrow>
                          if STATUS_FAILED st
                          then let closed = (st = STATUS_SOCKET_CONNECTION_CLOSED_ALREADY);
                                   pair1 = (if closed then pair\<lparr>pair_state := ICE_CANDIDATE_PAIR_STATE_FAILED\<rparr> else pair)
                               in Some (STATUS_SUCCESS,
                                    Some (ag\<lparr>iceAgentStatus := (if closed then st else iceAgentStatus ag),
                                             pDataSendingIceCandidatePair := Some (notePairSend 1 bufferLen 0 0 pair1)\<rparr>), w1)
                          else (case getTime W w1 of
                                  (t, w2) \<Rightarrow>
                                    Some (STATUS_SUCCESS,
                                      Some (ag\<lparr>pDataSendingIceCandidatePair :=
                                        Some (notePairSend 0 0 1 bufferLen (pair\<lparr>lastDataSentTime := t\<rparr>))\<rparr>), w2)) }))
      | _ \<Rightarrow> Some (STATUS_NULL_ARG, pIceAgent, w))"

end
