(* ===== verification/DoubleArithmetic.thy ===== *)
theory DoubleArithmetic
  imports Complex_Main
begin

text \<open>
  The \<^verbatim>\<open>DOUBLE\<close> arithmetic of the SDK.  A finite IEEE 754 binary64 number is the rational it
  denotes; every operation computes the exact rational result and rounds it to 53 significant
  bits, to nearest with ties to even.  Infinities, NaNs and subnormal numbers do not arise in the
  modelled computations: all values lie between 2^-100 and 2^100 or are zero.
\<close>

type_synonym double = rat

subsection \<open>Rounding\<close>

function bits :: "int \<Rightarrow> nat" where
  "bits n = (if n \<le> 0 then 0 else Suc (bits (n div 2)))"
  by pat_completeness auto
termination
  by (relation "measure nat") auto

declare bits.simps [simp del]

text \<open>The exponent of the last of 53 significant bits of a positive number.\<close>

definition ulp_exp :: "rat \<Rightarrow> int" where
  "ulp_exp x =
     (case quotient_of x of
        (p, q) \<Rightarrow>
          let k = int (bits p) - int (bits q) in
          (if x \<ge> power_int 2 k then k else k - 1) - 52)"

definition half_even :: "rat \<Rightarrow> int" where
  "half_even y =
     (let f = \<lfloor>y\<rfloor>; r = y - of_int f in
      if r < 1 / 2 then f else if r > 1 / 2 then f + 1 else if even f then f else f + 1)"

definition dround :: "rat \<Rightarrow> double" where
  "dround x =
     (if x = 0 then 0
      else if x < 0 then - (of_int (half_even (- x / power_int 2 (ulp_exp (- x)))) * power_int 2 (ulp_exp (- x)))
      else of_int (half_even (x / power_int 2 (ulp_exp x))) * power_int 2 (ulp_exp x))"

definition dnat :: "nat \<Rightarrow> double" where
  "dnat n = dround (of_nat n)"

definition dadd :: "double \<Rightarrow> double \<Rightarrow> double" where
  "dadd a b = dround (a + b)"

definition dmul :: "double \<Rightarrow> double \<Rightarrow> double" where
  "dmul a b = dround (a * b)"

definition ddiv :: "double \<Rightarrow> double \<Rightarrow> double" where
  "ddiv a b = dround (a / b)"

text \<open>The conversion to \<^verbatim>\<open>UINT64\<close> truncates; a value outside its range is undefined.\<close>

definition to_uint64 :: "double \<Rightarrow> nat option" where
  "to_uint64 x = (if \<lfloor>x\<rfloor> < 0 \<or> \<lfloor>x\<rfloor> \<ge> 2 ^ 64 then None else Some (nat \<lfloor>x\<rfloor>))"

subsection \<open>The rounding error\<close>

lemma bits_bounds: "0 < n \<Longrightarrow> 2 ^ (bits n - 1) \<le> n \<and> n < 2 ^ bits n \<and> 0 < bits n"
proof (induction n rule: bits.induct)
  case (1 n)
  then have b: "bits n = Suc (bits (n div 2))" by (subst bits.simps) simp
  show ?case
  proof (cases "n div 2 \<le> 0")
    case True
    then have "n = 1" using 1 by simp
    then show ?thesis by (simp add: bits.simps)
  next
    case False
    then have "2 ^ (bits (n div 2) - 1) \<le> n div 2" "n div 2 < 2 ^ bits (n div 2)" "0 < bits (n div 2)"
      using 1 by auto
    moreover then obtain k where "bits (n div 2) = Suc k" by (cases "bits (n div 2)") auto
    ultimately show ?thesis unfolding b by auto
  qed
qed

lemma half_even_error: "\<bar>of_int (half_even y) - y\<bar> \<le> 1 / 2"
proof -
  define f r where "f = \<lfloor>y\<rfloor>" and "r = y - of_int f"
  have r: "0 \<le> r" "r < 1" and y: "y = of_int f + r" by (simp_all add: r_def f_def) linarith
  have "half_even y = (if r < 1 / 2 then f else if r > 1 / 2 then f + 1 else if even f then f else f + 1)"
    unfolding half_even_def Let_def f_def [symmetric] r_def [symmetric] by (rule refl)
  then show ?thesis using r unfolding y by (auto simp: abs_if)
qed

lemma half_even_int [simp]: "half_even (of_int n) = n"
  by (simp add: half_even_def)

lemma ulp_exp_le:
  assumes "0 < x"
  shows "power_int 2 (ulp_exp x + 52) \<le> x"
proof -
  obtain p q where pq: "quotient_of x = (p, q)" by fastforce
  have q: "0 < q" and x: "x = of_int p / of_int q"
    using quotient_of_denom_pos [OF pq] quotient_of_div [OF pq] by simp_all
  then have p: "0 < p" using assms by (simp add: zero_less_divide_iff)
  define a b where "a = bits p" and "b = bits q"
  have a: "2 ^ (a - 1) \<le> p" "0 < a" and b: "q \<le> 2 ^ b"
    using bits_bounds [of p] bits_bounds [of q] p q by (simp_all add: a_def b_def)
  have "of_int (2 ^ (a - 1)) \<le> (of_int p :: rat)" using a(1) by (simp only: of_int_le_iff)
  moreover have "of_int q \<le> (of_int (2 ^ b) :: rat)" using b by (simp only: of_int_le_iff)
  ultimately have "(2 :: rat) ^ (a - 1) / 2 ^ b \<le> x"
    unfolding x using p q by (intro frac_le) simp_all
  moreover have "power_int (2 :: rat) (int (a - 1) - int b) = 2 ^ (a - 1) / 2 ^ b"
    by (subst power_int_diff) simp_all
  moreover have "int (a - 1) - int b = int a - int b - 1" using a(2) by simp
  ultimately have "power_int 2 (int a - int b - 1) \<le> x" by argo
  then show ?thesis by (auto simp: ulp_exp_def pq Let_def a_def b_def)
qed

lemma dround_error:
  assumes "0 \<le> x"
  shows "\<bar>dround x - x\<bar> \<le> x / 2 ^ 53"
proof (cases "x = 0")
  case True
  then show ?thesis by (simp add: dround_def)
next
  case False
  then have pos: "0 < x" using assms by simp
  define u where "u = power_int (2 :: rat) (ulp_exp x)"
  have u: "0 < u" by (simp add: u_def)
  have "dround x - x = (of_int (half_even (x / u)) - x / u) * u"
    using pos u by (simp add: dround_def u_def field_simps)
  then have "\<bar>dround x - x\<bar> \<le> 1 / 2 * u"
    using half_even_error [of "x / u"] u by (simp add: abs_mult mult_right_mono)
  also have "u * 2 ^ 52 \<le> x"
    using ulp_exp_le [OF pos] power_int_add [of "2 :: rat" "ulp_exp x" 52] by (simp add: u_def)
  then have "1 / 2 * u \<le> x / 2 ^ 53" by simp
  finally show ?thesis .
qed

lemma dround_nonneg: "0 \<le> x \<Longrightarrow> 0 \<le> dround x"
  using dround_error [of x] by (simp add: abs_if split: if_splits)

text \<open>Integers below 2^53 are represented exactly.\<close>

lemma dnat_exact:
  assumes "n < 2 ^ 53"
  shows "dnat n = of_nat n"
proof (cases "n = 0")
  case True
  then show ?thesis by (simp add: dnat_def dround_def)
next
  case False
  define e where "e = ulp_exp (of_nat n)"
  have "power_int 2 (e + 52) \<le> (of_nat n :: rat)" unfolding e_def using False by (intro ulp_exp_le) simp
  also have "\<dots> < of_nat (2 ^ 53)" using assms by (simp only: of_nat_less_iff)
  also have "\<dots> = power_int 2 53" by simp
  finally have "e + 52 < 53" by (rule power_int_le_imp_less_exp [rotated]) simp_all
  then have e: "e \<le> 0" by simp
  then have "power_int (2 :: rat) e = 1 / 2 ^ nat (- e)" by (simp add: power_int_def power_one_over inverse_eq_divide)
  then have "of_nat n / power_int (2 :: rat) e = of_int (int n * 2 ^ nat (- e))" by simp
  then have "half_even (of_nat n / power_int (2 :: rat) e) = int n * 2 ^ nat (- e)" by (simp only: half_even_int)
  then show ?thesis
    using False \<open>power_int (2 :: rat) e = _\<close> by (simp add: dnat_def dround_def e_def [symmetric])
qed

end
