(* ===== verification/RtpSender.thy ===== *)
theory RtpSender
  imports MediaTransport DoubleArithmetic RtpRollingBuffer SlicePayloaders H264Payloader H265Payloader Twcc RtpReceiver
begin

text \<open>
  The sending half of a transceiver, \<^verbatim>\<open>src/source/PeerConnection/Rtp.c\<close>: a frame is packetised by
  the payloader of the track's codec, the packets get consecutive sequence numbers and the
  transport-wide sequence number, are kept for retransmission, encrypted and handed to the ICE
  agent (\<^verbatim>\<open>writeFrame\<close>); the life cycle of transceivers, their callbacks and encoder statistics.

  \<open>RtcRtpSender\<close> and \<open>KvsRtpTransceiver\<close> follow \<^verbatim>\<open>Rtp.h\<close>; a callback is a flag that says whether
  it is set, its calls are collected in lists.  \<open>media_env\<close> bundles what the code takes from
  outside: the PIC functions, libsrtp, the world, the contents of fresh memory, and what
  PIC's \<^verbatim>\<open>CHK_STATUS_ERR\<close> makes of a failed status and the given error.
\<close>

subsection \<open>Tracks, retransmitter, statistics\<close>

datatype MEDIA_STREAM_TRACK_KIND = MEDIA_STREAM_TRACK_KIND_AUDIO | MEDIA_STREAM_TRACK_KIND_VIDEO | TRACK_KIND_OTHER nat

datatype RTC_CODEC =
    RTC_CODEC_H264 | RTC_CODEC_OPUS | RTC_CODEC_VP8 | RTC_CODEC_MULAW | RTC_CODEC_ALAW | RTC_CODEC_UNKNOWN | RTC_CODEC_H265

datatype RTC_RTP_TRANSCEIVER_DIRECTION = SENDRECV | SENDONLY | RECVONLY | INACTIVE

record RtcMediaStreamTrack =
  track_codec :: RTC_CODEC
  track_kind :: MEDIA_STREAM_TRACK_KIND
  trackId :: string

text \<open>The two lists live behind the struct in one allocation; here each is a list of its own.\<close>

record Retransmitter =
  sequenceNumberList :: "u16 list"
  seqNumListLen :: nat
  validIndexListLen :: nat
  validIndexList :: "nat list"

definition SIZEOF_Retransmitter :: nat where
  "SIZEOF_Retransmitter = 24"

definition createRetransmitter ::
  "platform \<Rightarrow> (nat \<Rightarrow> u16 list) \<Rightarrow> (nat \<Rightarrow> nat list) \<Rightarrow> nat \<Rightarrow> nat \<Rightarrow> STATUS \<times> Retransmitter option" where
  "createRetransmitter P garbage16 garbage64 seqLen validLen =
     (if \<not> memalloc P (SIZEOF_Retransmitter + 2 * seqLen + 8 * validLen) then (STATUS_NOT_ENOUGH_MEMORY, None)
      else (STATUS_SUCCESS, Some \<lparr>sequenceNumberList = garbage16 seqLen, seqNumListLen = seqLen,
              validIndexListLen = validLen, validIndexList = garbage64 validLen\<rparr>))"

definition freeRetransmitter :: "Retransmitter option \<Rightarrow> STATUS \<times> Retransmitter option" where
  "freeRetransmitter pRetransmitter = (STATUS_SUCCESS, None)"

record OutboundStats =
  os_ssrc :: u32
  os_kind :: string
  os_trackId :: string
  packetsSent :: nat
  bytesSent :: nat
  voiceActivityFlag :: bool
  encoderImplementation :: string
  packetsDiscardedOnSend :: nat
  framesSent :: nat
  hugeFramesSent :: nat
  framesEncoded :: nat
  keyFramesEncoded :: nat
  framesDiscardedOnSend :: nat
  frameWidth :: nat
  frameHeight :: nat
  frameBitDepth :: nat
  nackCount :: nat
  firCount :: nat
  pliCount :: nat
  sliCount :: nat
  qualityLimitationResolutionChanges :: nat
  lastPacketSentTimestamp :: nat
  headerBytesSent :: nat
  bytesDiscardedOnSend :: nat
  retransmittedPacketsSent :: nat
  retransmittedBytesSent :: nat
  targetBitrate :: nat
  totalEncodedBytesTarget :: nat
  framesPerSecond :: double
  totalEncodeTime :: nat
  totalPacketSendDelay :: nat

record RemoteInboundStats =
  roundTripTime :: nat
  totalRoundTripTime :: nat
  fractionLost :: double
  reportsReceived :: nat
  roundTripTimeMeasurements :: nat

record RollingBufferConfig =
  rollingBufferDurationSec :: double
  rollingBufferBitratebps :: double

record RtcRtpSender =
  snd_payloadType :: byte
  rtxPayloadType :: byte
  snd_sequenceNumber :: u16
  rtxSequenceNumber :: u16
  snd_ssrc :: u32
  rtxSsrc :: u32
  payloadArray :: PayloadArray
  maxPayloadLength :: nat
  maxPayloadSubLenSize :: nat
  track :: RtcMediaStreamTrack
  packetBuffer :: "RtpRollingBuffer option"
  retransmitter :: "Retransmitter option"
  rtpTimeOffset :: nat
  firstFrameWallClockTime :: nat
  lastKnownFrameCount :: nat
  lastKnownFrameCountTime :: nat

record 'h KvsRtpTransceiver =
  direction :: RTC_RTP_TRANSCEIVER_DIRECTION
  receiver_codec :: RTC_CODEC
  receiver_kind :: MEDIA_STREAM_TRACK_KIND
  sender :: RtcRtpSender
  inbound :: "'h InboundTransceiver"
  pRollingBufferConfig :: "RollingBufferConfig option"
  onBandwidthEstimation :: bool
  onPictureLoss :: bool
  bandwidthEstimations :: "rat list"
  pictureLosses :: nat
  outboundStats :: OutboundStats
  remoteInboundStats :: RemoteInboundStats

record ('t, 'x) KvsPeer =
  pSrtpSession :: "'x SrtpSession option"
  pIceAgent :: "SendingAgent option"
  MTU :: nat
  twccPeer :: "'t TwccPeer"

record ('t, 'x, 'n) media_env =
  env_twcc :: "('t, TwccRtpPacketInfo) hash_ops"
  env_platform :: platform
  env_srtp :: "'x libsrtp"
  env_world :: "'n world_ops"
  env_freshPacket :: RtpPacket
  env_garbage :: "nat \<Rightarrow> byte list"
  env_garbage32 :: "nat \<Rightarrow> nat list"
  env_junk :: "nat \<times> nat"
  env_chkStatusErr :: "STATUS \<Rightarrow> STATUS \<Rightarrow> STATUS"

record OutFrame = Frame +
  frame_isKeyFrame :: bool

subsection \<open>Life cycle and setters\<close>

definition emptyPayloadArray :: PayloadArray where
  "emptyPayloadArray = \<lparr>pa_payloadBuffer = [], pa_payloadLength = 0, pa_payloadSubLength = [], pa_payloadSubLenSize = 0\<rparr>"

definition zeroStats :: OutboundStats where
  "zeroStats = \<lparr>os_ssrc = 0, os_kind = [], os_trackId = [], packetsSent = 0, bytesSent = 0, voiceActivityFlag = False,
     encoderImplementation = [], packetsDiscardedOnSend = 0, framesSent = 0, hugeFramesSent = 0, framesEncoded = 0,
     keyFramesEncoded = 0, framesDiscardedOnSend = 0, frameWidth = 0, frameHeight = 0, frameBitDepth = 0, nackCount = 0,
     firCount = 0, pliCount = 0, sliCount = 0, qualityLimitationResolutionChanges = 0, lastPacketSentTimestamp = 0,
     headerBytesSent = 0, bytesDiscardedOnSend = 0, retransmittedPacketsSent = 0, retransmittedBytesSent = 0,
     targetBitrate = 0, totalEncodedBytesTarget = 0, framesPerSecond = 0, totalEncodeTime = 0, totalPacketSendDelay = 0\<rparr>"

definition SIZEOF_KvsRtpTransceiver :: nat where
  "SIZEOF_KvsRtpTransceiver = 9000"

abbreviation (input) DEFAULT_PEER_FRAME_BUFFER_SIZE :: nat where
  "DEFAULT_PEER_FRAME_BUFFER_SIZE \<equiv> 5120"

definition createKvsRtpTransceiver ::
  "platform \<Rightarrow> (nat \<Rightarrow> byte list) \<Rightarrow> RTC_RTP_TRANSCEIVER_DIRECTION \<Rightarrow> bool \<Rightarrow> u32 \<Rightarrow> u32 \<Rightarrow> RtcMediaStreamTrack option \<Rightarrow>
   ('h, RtpReceiver) JitterBuffer option \<Rightarrow> RTC_CODEC \<Rightarrow> STATUS \<times> 'h KvsRtpTransceiver option" where
  "createKvsRtpTransceiver P garbage dir hasPeer ss rtxss pRtcMediaStreamTrack jb rtcCodec =
     (case pRtcMediaStreamTrack of
        Some trk \<Rightarrow>
          if \<not> hasPeer then (STATUS_NULL_ARG, None)
          else if \<not> memalloc P SIZEOF_KvsRtpTransceiver \<or> \<not> memalloc P DEFAULT_PEER_FRAME_BUFFER_SIZE then (STATUS_NOT_ENOUGH_MEMORY, None)
          else (STATUS_SUCCESS,
            Some \<lparr>direction = dir, receiver_codec = rtcCodec, receiver_kind = track_kind trk,
              sender = \<lparr>snd_payloadType = 0, rtxPayloadType = 0, snd_sequenceNumber = 0, rtxSequenceNumber = 0, snd_ssrc = ss,
                rtxSsrc = rtxss, payloadArray = emptyPayloadArray, maxPayloadLength = 0, maxPayloadSubLenSize = 0, track = trk,
                packetBuffer = None, retransmitter = None, rtpTimeOffset = 0, firstFrameWallClockTime = 0,
                lastKnownFrameCount = 0, lastKnownFrameCountTime = 0\<rparr>,
              inbound = \<lparr>jitterBufferSsrc = 0, pJitterBuffer = jb,
                receiver = \<lparr>peerFrameBuffer = Some (garbage DEFAULT_PEER_FRAME_BUFFER_SIZE),
                  peerFrameBufferSize = DEFAULT_PEER_FRAME_BUFFER_SIZE,
                  trackIsVideo = (track_kind trk = MEDIA_STREAM_TRACK_KIND_VIDEO), hasOnFrame = False, delivered = [],
                  jitterBufferEmittedCount = 0, framesReceived = 0, framesDropped = 0, fullFramesLost = 0\<rparr>,
                packetsReceived = 0, packetsFailedDecryption = 0, lastPacketReceivedTimestamp = 0, headerBytesReceived = 0,
                bytesReceived = 0, packetsDiscarded = 0\<rparr>,
              pRollingBufferConfig = None, onBandwidthEstimation = False, onPictureLoss = False, bandwidthEstimations = [],
              pictureLosses = 0,
              outboundStats = zeroStats\<lparr>os_ssrc := ss,
                os_kind := (if track_kind trk = MEDIA_STREAM_TRACK_KIND_AUDIO then ''audio'' else ''video''),
                os_trackId := take 255 (trackId trk)\<rparr>,
              remoteInboundStats = \<lparr>roundTripTime = 0, totalRoundTripTime = 0, fractionLost = 0, reportsReceived = 0,
                roundTripTimeMeasurements = 0\<rparr>\<rparr>)
      | None \<Rightarrow> (STATUS_NULL_ARG, None))"

text \<open>
  The bounds and defaults of \<^verbatim>\<open>Rtp.h\<close>.  The null check of the source joins its two tests with
  \<^verbatim>\<open>||\<close>, so it lets one null pointer through, which is then dereferenced.
\<close>

definition setUpRollingBufferConfigInternal ::
  "platform \<Rightarrow> 'h KvsRtpTransceiver option \<Rightarrow> RtcMediaStreamTrack option \<Rightarrow> double \<Rightarrow> double \<Rightarrow>
   (STATUS \<times> 'h KvsRtpTransceiver option) option" where
  "setUpRollingBufferConfigInternal P pTransceiver pTrack dur bitrate =
     (case (pTransceiver, pTrack) of
        (None, None) \<Rightarrow> Some (STATUS_NULL_ARG, None)
      | (None, Some _) \<Rightarrow> None
      | (Some tr, _) \<Rightarrow>
          if pRollingBufferConfig tr = None \<and> \<not> memalloc P 16 then Some (STATUS_NOT_ENOUGH_MEMORY, Some tr)
          else
            let d = (if dur \<ge> dround (1 / 10) \<and> dur \<le> 10 then dur else 3);
                b = (if bitrate \<ge> dmul (dround (1024 / 10)) 1024 \<and> bitrate \<le> 240 * 1024 * 1024 then bitrate
                     else 10 * 1024 * 1024)
            in do { _ \<leftarrow> pTrack;
                    Some (STATUS_SUCCESS,
                      Some (tr\<lparr>pRollingBufferConfig := Some \<lparr>rollingBufferDurationSec = d, rollingBufferBitratebps = b\<rparr>\<rparr>)) })"

text \<open>
  Freeing the jitter buffer delivers what is complete, so the receiver is part of the result,
  with the packets released by the rolling buffer and by the jitter buffer.
\<close>

definition freeKvsRtpTransceiver ::
  "('h, RtpPacket) hash_ops \<Rightarrow> 'h KvsRtpTransceiver option \<Rightarrow>
   (STATUS \<times> 'h KvsRtpTransceiver option \<times> RtpReceiver option \<times> RtpPacket option list \<times> RtpPacket list) option" where
  "freeKvsRtpTransceiver H pTransceiver =
     (case pTransceiver of
        None \<Rightarrow> Some (STATUS_SUCCESS, None, None, [], [])
      | Some tr \<Rightarrow> do {
          (_, _, rcv, jbFreed, _) \<leftarrow> freeJitterBuffer H (pJitterBuffer (inbound tr)) (receiver (inbound tr));
          let (_, _, rbFreed) = freeRtpRollingBuffer (packetBuffer (sender tr));
          Some (STATUS_SUCCESS, None, Some rcv, rbFreed, jbFreed) })"

definition kvsRtpTransceiverSetJitterBuffer ::
  "'h KvsRtpTransceiver option \<Rightarrow> ('h, RtpReceiver) JitterBuffer option \<Rightarrow> STATUS \<times> 'h KvsRtpTransceiver option" where
  "kvsRtpTransceiverSetJitterBuffer pTransceiver jb =
     (case (pTransceiver, jb) of
        (Some tr, Some _) \<Rightarrow> (STATUS_SUCCESS, Some (tr\<lparr>inbound := (inbound tr)\<lparr>pJitterBuffer := jb\<rparr>\<rparr>))
      | _ \<Rightarrow> (STATUS_NULL_ARG, pTransceiver))"

definition transceiverOnFrame :: "'h KvsRtpTransceiver option \<Rightarrow> bool \<Rightarrow> STATUS \<times> 'h KvsRtpTransceiver option" where
  "transceiverOnFrame pTransceiver cb =
     (case pTransceiver of
        Some tr \<Rightarrow>
          if \<not> cb then (STATUS_NULL_ARG, Some tr)
          else (STATUS_SUCCESS, Some (tr\<lparr>inbound := (inbound tr)\<lparr>receiver := (receiver (inbound tr))\<lparr>hasOnFrame := True\<rparr>\<rparr>\<rparr>))
      | None \<Rightarrow> (STATUS_NULL_ARG, None))"

definition transceiverOnBandwidthEstimation :: "'h KvsRtpTransceiver option \<Rightarrow> bool \<Rightarrow> STATUS \<times> 'h KvsRtpTransceiver option" where
  "transceiverOnBandwidthEstimation pTransceiver cb =
     (case pTransceiver of
        Some tr \<Rightarrow> if \<not> cb then (STATUS_NULL_ARG, Some tr) else (STATUS_SUCCESS, Some (tr\<lparr>onBandwidthEstimation := True\<rparr>))
      | None \<Rightarrow> (STATUS_NULL_ARG, None))"

definition transceiverOnPictureLoss :: "'h KvsRtpTransceiver option \<Rightarrow> bool \<Rightarrow> STATUS \<times> 'h KvsRtpTransceiver option" where
  "transceiverOnPictureLoss pTransceiver cb =
     (case pTransceiver of
        Some tr \<Rightarrow> if \<not> cb then (STATUS_NULL_ARG, Some tr) else (STATUS_SUCCESS, Some (tr\<lparr>onPictureLoss := True\<rparr>))
      | None \<Rightarrow> (STATUS_NULL_ARG, None))"

record RtcEncoderStats =
  enc_targetBitrate :: nat
  enc_width :: nat
  enc_height :: nat
  enc_bitDepth :: nat
  enc_encodeTimeMsec :: nat
  enc_voiceActivity :: bool
  enc_encoderImplementation :: string

definition updateEncoderStats ::
  "'h KvsRtpTransceiver option \<Rightarrow> RtcEncoderStats option \<Rightarrow> STATUS \<times> 'h KvsRtpTransceiver option" where
  "updateEncoderStats pTransceiver encoderStats =
     (case (pTransceiver, encoderStats) of
        (Some tr, Some e) \<Rightarrow>
          let os = outboundStats tr;
              smaller = (enc_width e < frameWidth os \<or> enc_height e < frameHeight os)
          in (STATUS_SUCCESS,
              Some (tr\<lparr>outboundStats := os\<lparr>
                totalEncodeTime := wrap64 (totalEncodeTime os + enc_encodeTimeMsec e),
                targetBitrate := enc_targetBitrate e,
                qualityLimitationResolutionChanges :=
                  (if smaller then wrap32 (qualityLimitationResolutionChanges os + 1) else qualityLimitationResolutionChanges os),
                frameWidth := enc_width e, frameHeight := enc_height e, frameBitDepth := enc_bitDepth e,
                voiceActivityFlag := enc_voiceActivity e,
                encoderImplementation :=
                  (if enc_encoderImplementation e \<noteq> [] then take 255 (enc_encoderImplementation e) else encoderImplementation os)\<rparr>\<rparr>))
      | _ \<Rightarrow> (STATUS_NULL_ARG, pTransceiver))"

fun findTransceiver :: "'h KvsRtpTransceiver list \<Rightarrow> u32 \<Rightarrow> nat \<Rightarrow> nat option" where
  "findTransceiver [] ss i = None"
| "findTransceiver (tr # trs) ss i =
     (if snd_ssrc (sender tr) = ss \<or> rtxSsrc (sender tr) = ss \<or> jitterBufferSsrc (inbound tr) = ss then Some i
      else findTransceiver trs ss (Suc i))"

text \<open>The transceiver found is its position in \<^verbatim>\<open>pTransceivers\<close>.\<close>

definition findTransceiverBySsrc :: "'h KvsRtpTransceiver list option \<Rightarrow> u32 \<Rightarrow> STATUS \<times> nat option" where
  "findTransceiverBySsrc pTransceivers ss =
     (case pTransceivers of
        None \<Rightarrow> (STATUS_NULL_ARG, None)
      | Some trs \<Rightarrow> (case findTransceiver trs ss 0 of None \<Rightarrow> (STATUS_NOT_FOUND, None) | Some i \<Rightarrow> (STATUS_SUCCESS, Some i)))"

definition hasTransceiverWithSsrc :: "'h KvsRtpTransceiver list option \<Rightarrow> u32 \<Rightarrow> STATUS" where
  "hasTransceiverWithSsrc pTransceivers ss = fst (findTransceiverBySsrc pTransceivers ss)"

subsection \<open>Sending a frame\<close>

definition CONVERT_TIMESTAMP_TO_RTP :: "nat \<Rightarrow> nat \<Rightarrow> nat option" where
  "CONVERT_TIMESTAMP_TO_RTP rate pts = to_uint64 (dmul (dnat pts) (ddiv (dnat rate) (dnat 10000000)))"

definition TWCC_PAYLOAD :: "u16 \<Rightarrow> u16 \<Rightarrow> byte list" where
  "TWCC_PAYLOAD extId sequenceNum = bytes32 (push_bit 28 (ucast extId AND 15) OR push_bit 24 1 OR push_bit 8 (ucast sequenceNum))"

definition payloadFuncOf :: "nat \<times> nat \<Rightarrow> RTC_CODEC \<Rightarrow> (payload_func \<times> nat) option" where
  "payloadFuncOf junk codec =
     (case codec of
        RTC_CODEC_H264 \<Rightarrow> Some (createPayloadForH264 junk, 90000)
      | RTC_CODEC_H265 \<Rightarrow> Some (createPayloadForH265 junk, 90000)
      | RTC_CODEC_OPUS \<Rightarrow> Some (createPayloadForOpus, 48000)
      | RTC_CODEC_MULAW \<Rightarrow> Some (createPayloadForG711, 8000)
      | RTC_CODEC_ALAW \<Rightarrow> Some (createPayloadForG711, 8000)
      | RTC_CODEC_VP8 \<Rightarrow> Some (createPayloadForVP8 junk, 90000)
      | RTC_CODEC_UNKNOWN \<Rightarrow> None)"

text \<open>
  The sizing call, the reuse or reallocation of the two buffers and the filling call.  The two
  allocations are not checked and the buffers are used at once: a failed one is \<open>None\<close>.
\<close>

definition packetiseFrame ::
  "('t, 'x, 'n) media_env \<Rightarrow> payload_func \<Rightarrow> nat \<Rightarrow> RtcRtpSender \<Rightarrow> byte list \<Rightarrow> nat \<Rightarrow> (STATUS \<times> RtcRtpSender) option" where
  "packetiseFrame E payloadFn mtu sdr frameData frameSize =
     do {
       let pa = payloadArray sdr;
       (st, _, _, len, n) \<leftarrow> payloadFn mtu (Some frameData) frameSize None (pa_payloadLength pa) None (pa_payloadSubLenSize pa);
       let pa1 = pa\<lparr>pa_payloadLength := len, pa_payloadSubLenSize := n\<rparr>;
       if STATUS_FAILED st then Some (st, sdr\<lparr>payloadArray := pa1\<rparr>)
       else do {
         let snd1 = (if len > maxPayloadLength sdr
                     then sdr\<lparr>payloadArray := pa1\<lparr>pa_payloadBuffer := env_garbage E len\<rparr>, maxPayloadLength := len\<rparr>
                     else sdr\<lparr>payloadArray := pa1\<rparr>);
         let snd2 = (if n > maxPayloadSubLenSize sdr
                     then snd1\<lparr>payloadArray := (payloadArray snd1)\<lparr>pa_payloadSubLength := env_garbage32 E n\<rparr>, maxPayloadSubLenSize := n\<rparr>
                     else snd1);
         if len > maxPayloadLength sdr \<and> \<not> memalloc (env_platform E) len \<or>
            n > maxPayloadSubLenSize sdr \<and> \<not> memalloc (env_platform E) (4 * n) then None
         else do {
           (st2, buf, subs, len2, n2) \<leftarrow>
             payloadFn mtu (Some frameData) frameSize (Some (pa_payloadBuffer (payloadArray snd2))) len
               (Some (pa_payloadSubLength (payloadArray snd2))) n;
           buf' \<leftarrow> buf;
           subs' \<leftarrow> subs;
           Some (st2, snd2\<lparr>payloadArray := \<lparr>pa_payloadBuffer = buf', pa_payloadLength = len2,
                              pa_payloadSubLength = subs', pa_payloadSubLenSize = n2\<rparr>\<rparr>) } } }"

text \<open>What the packet loop carries: the peer, the rolling buffer, the world and the counters.\<close>

record ('t, 'x, 'n) SendState =
  ss_peer :: "('t, 'x) KvsPeer"
  ss_buffer :: "RtpRollingBuffer option"
  ss_world :: 'n
  ss_headerLen :: nat
  ss_bytesSent :: nat
  ss_packetsSent :: nat
  ss_headerBytesSent :: nat
  ss_lastPacketSentTimestamp :: nat
  ss_packetsDiscarded :: nat
  ss_bytesDiscarded :: nat
  ss_framesDiscarded :: nat

definition stampTwcc :: "('t, 'x) KvsPeer \<Rightarrow> RtpPacket \<Rightarrow> ('t, 'x) KvsPeer \<times> RtpPacket" where
  "stampTwcc pc pkt =
     (let tw = twccPeer pc in
      if twccExtId tw = 0 then (pc, pkt)
      else (pc\<lparr>twccPeer := tw\<lparr>transportWideSequenceNumber := wrap64 (transportWideSequenceNumber tw + 1)\<rparr>\<rparr>,
            pkt\<lparr>header := (header pkt)\<lparr>extension := True, extensionProfile := TWCC_EXT_PROFILE, extensionLength := 4,
                 extensionPayload := Some (TWCC_PAYLOAD (twccExtId tw) (word_of_nat (transportWideSequenceNumber tw)))\<rparr>\<rparr>))"

definition bufferPacket ::
  "('t, 'x, 'n) media_env \<Rightarrow> bool \<Rightarrow> RtpPacket \<Rightarrow> byte list \<Rightarrow> nat \<Rightarrow> ('t, 'x, 'n) SendState \<Rightarrow>
   (STATUS \<times> ('t, 'x, 'n) SendState) option" where
  "bufferPacket E now pkt raw len s =
     (if \<not> now then Some (STATUS_SUCCESS, s)
      else do {
        (st, rrb, _) \<leftarrow> rtpRollingBufferAddRtpPacket (env_platform E) (env_freshPacket E) (ss_buffer s)
                          (Some (pkt\<lparr>pRawPacket := Some raw, rawPacketLength := len\<rparr>));
        Some (st, s\<lparr>ss_buffer := rrb\<rparr>) })"

definition notifyTwcc ::
  "('t, 'x, 'n) media_env \<Rightarrow> bool \<Rightarrow> RtpPacket \<Rightarrow> ('t, 'x) KvsPeer \<Rightarrow> 'n \<Rightarrow> (('t, 'x) KvsPeer \<times> 'n) option" where
  "notifyTwcc E timed pkt pc w =
     (if \<not> timed then Some (pc, w)
      else do {
        let (t, w1) = getTime (env_world E) w;
        (_, tw, _) \<leftarrow> twccManagerOnPacketSent (env_twcc E) (env_platform E) (Some (twccPeer pc)) (Some (pkt\<lparr>sentTime := t\<rparr>));
        tw' \<leftarrow> tw;
        Some (pc\<lparr>twccPeer := tw'\<rparr>, w1) })"

text \<open>
  One packet of the loop.  The frame's packets go into the rolling buffer before encryption when
  retransmission uses its own payload type, otherwise after the packet was sent.
\<close>

definition writePacket ::
  "('t, 'x, 'n) media_env \<Rightarrow> bool \<Rightarrow> RtpPacket \<Rightarrow> ('t, 'x, 'n) SendState \<Rightarrow> (STATUS \<times> ('t, 'x, 'n) SendState) option" where
  "writePacket E bufferAfterEncrypt pkt0 s0 =
     do {
       let (pc, pkt) = stampTwcc (ss_peer s0) pkt0;
       let s1 = s0\<lparr>ss_peer := pc\<rparr>;
       (st1, _, need) \<leftarrow> createBytesFromRtpPacket (env_platform E) (Some pkt) None 0;
       if STATUS_FAILED st1 then Some (st1, s1)
       else if \<not> memalloc (env_platform E) (wrap32 (need + 10)) then Some (STATUS_NOT_ENOUGH_MEMORY, s1)
       else do {
         (st2, raw, len) \<leftarrow> createBytesFromRtpPacket (env_platform E) (Some pkt) (Some (env_garbage E (wrap32 (need + 10)))) need;
         if STATUS_FAILED st2 then Some (st2, s1)
         else do {
           rawPacket \<leftarrow> raw;
           (st3, s2) \<leftarrow> bufferPacket E (\<not> bufferAfterEncrypt) pkt rawPacket len s1;
           if STATUS_FAILED st3 then Some (st3, s2)
           else do {
             sess \<leftarrow> pSrtpSession pc;
             let (st4, cipher, clen, sess') = encryptRtpPacket (env_srtp E) sess rawPacket len;
             let pc1 = pc\<lparr>pSrtpSession := Some sess'\<rparr>;
             if STATUS_FAILED st4 then Some (st4, s2\<lparr>ss_peer := pc1\<rparr>)
             else do {
               (sendStatus, agent, w1) \<leftarrow> iceAgentSendPacket (env_world E) (ss_world s2) (pIceAgent pc1) (Some cipher) clen;
               let pc2 = pc1\<lparr>pIceAgent := agent\<rparr>;
               if sendStatus = STATUS_SEND_DATA_FAILED
               then Some (STATUS_SUCCESS,
                      s2\<lparr>ss_peer := pc2, ss_world := w1, ss_packetsDiscarded := wrap32 (ss_packetsDiscarded s2 + 1),
                         ss_bytesDiscarded := wrap32 (ss_bytesDiscarded s2 + sub32 clen (ss_headerLen s2)),
                         ss_framesDiscarded := 1\<rparr>)
               else do {
                 (pc3, w2) \<leftarrow> notifyTwcc E (sendStatus = STATUS_SUCCESS \<and> twccExtId (twccPeer pc2) \<noteq> 0) pkt pc2 w1;
                 let s3 = s2\<lparr>ss_peer := pc3, ss_world := w2\<rparr>;
                 if STATUS_FAILED sendStatus then Some (sendStatus, s3)
                 else do {
                   (st5, s4) \<leftarrow> bufferPacket E bufferAfterEncrypt pkt cipher clen s3;
                   if STATUS_FAILED st5 then Some (st5, s4)
                   else do {
                     let hl = RTP_HEADER_LEN pkt;
                     let (t2, w3) = getTime (env_world E) (ss_world s4);
                     Some (STATUS_SUCCESS,
                       s4\<lparr>ss_world := w3, ss_headerLen := hl, ss_bytesSent := wrap32 (ss_bytesSent s4 + sub32 clen hl),
                          ss_packetsSent := wrap32 (ss_packetsSent s4 + 1),
                          ss_lastPacketSentTimestamp := KVS_CONVERT_TIMESCALE t2 10000000 1000,
                          ss_headerBytesSent := wrap32 (ss_headerBytesSent s4 + hl)\<rparr>) } } } } } } } }"

fun writePackets ::
  "('t, 'x, 'n) media_env \<Rightarrow> bool \<Rightarrow> RtpPacket list \<Rightarrow> ('t, 'x, 'n) SendState \<Rightarrow> (STATUS \<times> ('t, 'x, 'n) SendState) option" where
  "writePackets E after [] s = Some (STATUS_SUCCESS, s)"
| "writePackets E after (pkt # pkts) s =
     do { (st, s') \<leftarrow> writePacket E after pkt s;
          if STATUS_FAILED st then Some (st, s') else writePackets E after pkts s' }"

text \<open>The frame rate since the last frame, when more than a second passed.\<close>

definition frameRate :: "nat \<Rightarrow> 'h KvsRtpTransceiver \<Rightarrow> double" where
  "frameRate now tr =
     (let sdr = sender tr; elapsed = sub64 now (lastKnownFrameCountTime sdr) in
      if lastKnownFrameCountTime sdr \<noteq> 0 \<and> elapsed > 10000000
      then ddiv (dnat (wrap64 (sub64 (wrap32 (framesEncoded (outboundStats tr) + 1)) (lastKnownFrameCount sdr) * 10000000))) (dnat elapsed)
      else 0)"

text \<open>The statistics at the end of every call, successful or not.\<close>

definition noteFrame ::
  "nat \<Rightarrow> OutFrame \<Rightarrow> double \<Rightarrow> nat \<Rightarrow> nat \<Rightarrow> ('t, 'x, 'n) SendState \<Rightarrow> 'h KvsRtpTransceiver \<Rightarrow> 'h KvsRtpTransceiver" where
  "noteFrame now frm fps framesDone frames s tr =
     (let os = outboundStats tr;
          encoded = wrap32 (framesEncoded os + frames);
          rate = (if fps > 0 then fps else framesPerSecond os);
          huge = (rate > 0 \<and> of_nat (frame_size frm) \<ge> dmul (ddiv (dnat (targetBitrate os)) rate) (5 / 2))
      in tr\<lparr>sender := (sender tr)\<lparr>lastKnownFrameCountTime := now, lastKnownFrameCount := encoded\<rparr>,
            outboundStats := os\<lparr>
              totalEncodedBytesTarget := wrap64 (totalEncodedBytesTarget os + frame_size frm),
              framesEncoded := encoded,
              keyFramesEncoded := wrap32 (keyFramesEncoded os + (if frames = 1 \<and> frame_isKeyFrame frm then 1 else 0)),
              framesPerSecond := rate,
              bytesSent := wrap64 (bytesSent os + ss_bytesSent s), packetsSent := wrap64 (packetsSent os + ss_packetsSent s),
              lastPacketSentTimestamp := (if ss_lastPacketSentTimestamp s > 0 then ss_lastPacketSentTimestamp s
                                          else lastPacketSentTimestamp os),
              headerBytesSent := wrap64 (headerBytesSent os + ss_headerBytesSent s),
              framesSent := wrap32 (framesSent os + framesDone),
              hugeFramesSent := (if huge then wrap32 (hugeFramesSent os + 1) else hugeFramesSent os),
              totalPacketSendDelay := 0,
              framesDiscardedOnSend := wrap32 (framesDiscardedOnSend os + ss_framesDiscarded s),
              packetsDiscardedOnSend := wrap32 (packetsDiscardedOnSend os + ss_packetsDiscarded s),
              bytesDiscardedOnSend := wrap64 (bytesDiscardedOnSend os + ss_bytesDiscarded s)\<rparr>\<rparr>)"

text \<open>
  The body between the SRTP check and the clean-up: status, sender, loop state.  A frame without
  payload leaves the packet array uninitialised, so any packet of it would be undefined.
\<close>

definition sendFrame ::
  "('t, 'x, 'n) media_env \<Rightarrow> OutFrame \<Rightarrow> RtcRtpSender \<Rightarrow> ('t, 'x, 'n) SendState \<Rightarrow>
   (STATUS \<times> RtcRtpSender \<times> ('t, 'x, 'n) SendState) option" where
  "sendFrame E frm sdr s =
     (if pSrtpSession (ss_peer s) = None then Some (STATUS_SRTP_NOT_READY_YET, sdr, s)
      else (case payloadFuncOf (env_junk E) (track_codec (track sdr)) of
         None \<Rightarrow> Some (STATUS_NOT_IMPLEMENTED, sdr, s)
       | Some (payloadFn, rate) \<Rightarrow> do {
           ts \<leftarrow> CONVERT_TIMESTAMP_TO_RTP rate (frame_presentationTs frm);
           (st, snd1) \<leftarrow> packetiseFrame E payloadFn (MTU (ss_peer s)) sdr (frame_frameData frm) (frame_size frm);
           if STATUS_FAILED st then Some (st, snd1, s)
           else do {
             let n = pa_payloadSubLenSize (payloadArray snd1);
             let room = (if memalloc (env_platform E) (n * SIZEOF_RtpPacket) then Some (replicate n (env_freshPacket E)) else None);
             case constructRtpPackets (Some (payloadArray snd1)) (snd_payloadType snd1) (snd_sequenceNumber snd1) (word_of_nat ts)
                    (snd_ssrc snd1) room n of
               (st2, pkts) \<Rightarrow>
                 if STATUS_FAILED st2 then Some (st2, snd1, s)
                 else if n > 0 \<and> pa_payloadLength (payloadArray snd1) = 0 then None
                 else do {
                   let snd2 = snd1\<lparr>snd_sequenceNumber := GET_UINT16_SEQ_NUM (unat (snd_sequenceNumber snd1) + n)\<rparr>;
                   (st3, s1) \<leftarrow> writePackets E (snd_payloadType snd2 = rtxPayloadType snd2) (take n (case pkts of Some ps \<Rightarrow> ps | None \<Rightarrow> []))
                                 s;
                   Some (st3, snd2\<lparr>packetBuffer := ss_buffer s1\<rparr>, s1) } } }))"

text \<open>The clean-up reads the frame and the transceiver even when one of them is missing.\<close>

definition writeFrame ::
  "('t, 'x, 'n) media_env \<Rightarrow> 'n \<Rightarrow> ('t, 'x) KvsPeer \<Rightarrow> 'h KvsRtpTransceiver option \<Rightarrow> OutFrame option \<Rightarrow>
   (STATUS \<times> ('t, 'x) KvsPeer \<times> 'h KvsRtpTransceiver \<times> 'n) option" where
  "writeFrame E w pc pTransceiver pFrame =
     do {
       tr \<leftarrow> pTransceiver;
       frm \<leftarrow> pFrame;
       let (now, w1) = getTime (env_world E) w;
       let video = (track_kind (track (sender tr)) = MEDIA_STREAM_TRACK_KIND_VIDEO);
       let fps = (if video then frameRate now tr else 0);
       let s0 = \<lparr>ss_peer = pc, ss_buffer = packetBuffer (sender tr), ss_world = w1, ss_headerLen = 0, ss_bytesSent = 0,
          ss_packetsSent = 0, ss_headerBytesSent = 0, ss_lastPacketSentTimestamp = 0, ss_packetsDiscarded = 0,
          ss_bytesDiscarded = 0, ss_framesDiscarded = 0\<rparr>;
       (st, snd1, s) \<leftarrow> sendFrame E frm (sender tr) s0;
       let snd2 = (if STATUS_SUCCEEDED st \<and> firstFrameWallClockTime snd1 = 0
                   then snd1\<lparr>rtpTimeOffset := 0, firstFrameWallClockTime := now\<rparr> else snd1);
       Some (st, ss_peer s,
         noteFrame now frm fps (if STATUS_SUCCEEDED st \<and> video then 1 else 0) (if video then 1 else 0) s (tr\<lparr>sender := snd2\<rparr>),
         ss_world s) }"

definition writeRtpPacket ::
  "('t, 'x, 'n) media_env \<Rightarrow> 'n \<Rightarrow> ('t, 'x) KvsPeer option \<Rightarrow> RtpPacket option \<Rightarrow> (STATUS \<times> ('t, 'x) KvsPeer option \<times> 'n) option" where
  "writeRtpPacket E w pPeer pRtpPacket =
     (case (pPeer, pRtpPacket) of
        (Some pc, Some pkt) \<Rightarrow>
          (case pRawPacket pkt of
             None \<Rightarrow> Some (STATUS_NULL_ARG, Some pc, w)
           | Some raw \<Rightarrow>
               (case pSrtpSession pc of
                  None \<Rightarrow> Some (STATUS_SUCCESS, Some pc, w)
                | Some sess \<Rightarrow>
                    if \<not> memalloc (env_platform E) (wrap32 (rawPacketLength pkt + 10)) then None
                    else do {
                      copy \<leftarrow> rdn raw 0 (rawPacketLength pkt);
                      let buf = copy @ drop (rawPacketLength pkt) (env_garbage E (wrap32 (rawPacketLength pkt + 10)));
                      let (st, cipher, clen, sess') = encryptRtpPacket (env_srtp E) sess buf (rawPacketLength pkt);
                      let pc1 = pc\<lparr>pSrtpSession := Some sess'\<rparr>;
                      if STATUS_FAILED st then Some (st, Some pc1, w)
                      else do {
                        (st2, agent, w1) \<leftarrow> iceAgentSendPacket (env_world E) w (pIceAgent pc1) (Some cipher) clen;
                        Some (st2, Some (pc1\<lparr>pIceAgent := agent\<rparr>), w1) } }))
      | _ \<Rightarrow> Some (STATUS_NULL_ARG, pPeer, w))"

end
