(* ===== verification/SenderPath.thy ===== *)
theory SenderPath
  imports RtpSender
begin

text \<open>
  What sending a frame does, against the contracts of the services below it
  (\<open>media_transport\<close>: the clock, the two ways to send, libsrtp) and of the codec's payloader
  (\<open>rtp_payloader\<close>).  \<open>datagrams w\<close> is the sequence of datagrams the world \<open>w\<close> was given so far.
\<close>

subsection \<open>The timestamp of a frame\<close>

lemma rtp_timestamp_bound:
  assumes "pts < 2 ^ 53" "rate \<le> 90000"
  shows "\<exists>t. CONVERT_TIMESTAMP_TO_RTP rate pts = Some t \<and>
    t \<le> pts * rate div 10000000 + 1 \<and> pts * rate div 10000000 \<le> t + 1"
proof -
  define c e :: rat where "c = of_nat rate / 10000000" and "e = of_nat pts * c"
  have c: "0 \<le> c" "c \<le> 9 / 1000" using assms(2) by (simp_all add: c_def)
  have "of_nat pts \<le> (of_nat (2 ^ 53) :: rat)" using assms(1) by (simp only: of_nat_le_iff less_imp_le)
  then have p: "of_nat pts \<le> (2 ^ 53 :: rat)" by simp
  have e: "0 \<le> e" "e \<le> 2 ^ 53 * (9 / 1000)"
    unfolding e_def using c p by (simp, intro mult_mono) simp_all
  define c' where "c' = dround c"
  have c': "0 \<le> c'" "\<bar>c' - c\<bar> \<le> c / 2 ^ 53"
    using dround_error [OF c(1)] dround_nonneg [OF c(1)] by (simp_all add: c'_def)
  have "\<bar>of_nat pts * c' - e\<bar> = of_nat pts * \<bar>c' - c\<bar>" by (simp add: e_def abs_mult flip: right_diff_distrib)
  also have "\<dots> \<le> of_nat pts * (c / 2 ^ 53)" using c'(2) by (intro mult_left_mono) simp_all
  also have "\<dots> = e / 2 ^ 53" by (simp add: e_def)
  finally have m: "\<bar>of_nat pts * c' - e\<bar> \<le> e / 2 ^ 53" .
  define y r u v where "y = of_nat pts * c'" and "r = dround y" and "u = e / 2 ^ 53" and "v = y / 2 ^ 53"
  have y: "0 \<le> y" "\<bar>y - e\<bar> \<le> u" using c'(1) m by (simp_all add: y_def u_def)
  have "\<bar>r - y\<bar> \<le> v" unfolding r_def v_def using y(1) by (rule dround_error)
  then have "\<bar>r - e\<bar> \<le> u + v" using y(2) by linarith
  also have "v \<le> (e + u) / 2 ^ 53" unfolding v_def using y(2) by (intro divide_right_mono) (linarith, simp)
  then have "u + v \<le> u + (e + u) / 2 ^ 53" by simp
  also have "\<dots> < 1" using e by (simp add: u_def)
  finally have r: "\<bar>r - e\<bar> < 1" .
  have "0 \<le> r" unfolding r_def using y(1) by (rule dround_nonneg)
  have val: "CONVERT_TIMESTAMP_TO_RTP rate pts = to_uint64 r"
  proof -
    have "dnat rate = of_nat rate" "dnat 10000000 = of_nat 10000000" "dnat pts = of_nat pts"
      using assms by (simp_all only: dnat_exact) (simp_all add: dnat_exact)
    then show ?thesis by (simp add: CONVERT_TIMESTAMP_TO_RTP_def dmul_def ddiv_def r_def y_def c'_def c_def)
  qed
  have fl: "\<lfloor>e\<rfloor> = int (pts * rate div 10000000)"
    using floor_divide_of_nat_eq [of "pts * rate" 10000000, where 'a = rat] by (simp add: e_def c_def)
  have near: "\<lfloor>r\<rfloor> \<le> \<lfloor>e\<rfloor> + 1" "\<lfloor>e\<rfloor> \<le> \<lfloor>r\<rfloor> + 1" using r by linarith+
  have "0 \<le> \<lfloor>r\<rfloor>" "\<lfloor>r\<rfloor> < 2 ^ 64"
    using \<open>0 \<le> r\<close> r e(2) by (simp, simp add: floor_less_iff)
  then show ?thesis using near fl by (auto simp: val to_uint64_def)
qed

subsection \<open>The services\<close>

text \<open>
  The documented behaviour of what is below: memory is available, the clock does not send,
  sending succeeds and sends exactly the datagram, and libsrtp protects a packet in place when ten
  bytes are free behind it (its authentication tag), leaving the RTP header readable.
\<close>

locale media_transport =
  fixes E :: "('t, 'x, 'n) media_env"
    and datagrams :: "'n \<Rightarrow> byte list list"
    and seal :: "'x \<Rightarrow> byte list \<Rightarrow> byte list"
    and advance :: "'x \<Rightarrow> byte list \<Rightarrow> 'x"
  assumes host: "network_order (env_platform E)"
    and allocates: "memalloc (env_platform E) n"
    and fresh_length: "length (env_garbage E n) = n"
    and fresh32_length: "length (env_garbage32 E n) = n"
    and clock_silent: "datagrams (snd (getTime (env_world E) w)) = datagrams w"
    and socket_status: "fst (socketConnectionSendData (env_world E) w b a) = STATUS_SUCCESS"
    and socket_log: "datagrams (snd (socketConnectionSendData (env_world E) w b a)) = datagrams w @ [b]"
    and turn_status: "fst (turnConnectionSendData (env_world E) w b a) = STATUS_SUCCESS"
    and turn_log: "datagrams (snd (turnConnectionSendData (env_world E) w b a)) = datagrams w @ [b]"
    and protects: "n + 10 \<le> length buf \<Longrightarrow> \<exists>rest. srtp_protect (env_srtp E) x buf n =
        (True, seal x (take n buf) @ rest, length (seal x (take n buf)), advance x (take n buf))"
    and seal_length: "length m \<le> length (seal x m)" "length (seal x m) \<le> length m + 10"
    and seal_header: "rtp_fits m \<Longrightarrow> length m + 10 < 2 ^ 32 \<Longrightarrow> rtp_fits (seal x m) \<and> take 4 (seal x m) = take 4 m"

text \<open>The packets a session makes of a sequence of messages, and the session afterwards.\<close>

fun sealed :: "('x \<Rightarrow> byte list \<Rightarrow> byte list) \<Rightarrow> ('x \<Rightarrow> byte list \<Rightarrow> 'x) \<Rightarrow> 'x \<Rightarrow> byte list list \<Rightarrow> byte list list" where
  "sealed seal advance x [] = []"
| "sealed seal advance x (m # ms) = seal x m # sealed seal advance (advance x m) ms"

text \<open>The agent has a working pair: not shut down, connected, and with the link its type needs.\<close>

definition agent_ready :: "SendingAgent \<Rightarrow> bool" where
  "agent_ready ag \<longleftrightarrow>
     \<not> agent_shutdown ag \<and>
     (case pDataSendingIceCandidatePair ag of
        None \<Rightarrow> False
      | Some pair \<Rightarrow>
          pair_state pair = ICE_CANDIDATE_PAIR_STATE_SUCCEEDED \<and>
          (case local_type pair of
             None \<Rightarrow> False
           | Some cty \<Rightarrow> if cty = ICE_CANDIDATE_TYPE_RELAYED then local_hasTurnConnection pair else local_hasSocketConnection pair))"

text \<open>A packet that only carries its raw bytes: all the rolling buffer looks at.\<close>

definition raw_packet :: "RtpPacket \<Rightarrow> byte list \<Rightarrow> RtpPacket" where
  "raw_packet fresh m = fresh\<lparr>pRawPacket := Some m, rawPacketLength := length m\<rparr>"

lemma bufferPacket_raw:
  assumes "rtpRollingBufferAddRtpPacket (env_platform E) (env_freshPacket E) (ss_buffer s)
      (Some (raw_packet (env_freshPacket E) m)) = Some (st, rrb, freed)"
  shows "bufferPacket E True pkt (m @ rest) (length m) s = Some (st, s\<lparr>ss_buffer := rrb\<rparr>)"
proof -
  have "rdn (m @ rest) 0 (length m) = Some m" "rdn m 0 (length m) = Some m" by (simp_all add: rdn_def)
  then have "rtpRollingBufferAddRtpPacket (env_platform E) (env_freshPacket E) (ss_buffer s)
      (Some (pkt\<lparr>pRawPacket := Some (m @ rest), rawPacketLength := length m\<rparr>)) =
    rtpRollingBufferAddRtpPacket (env_platform E) (env_freshPacket E) (ss_buffer s) (Some (raw_packet (env_freshPacket E) m))"
    by (cases "ss_buffer s") (simp_all add: rtpRollingBufferAddRtpPacket_def raw_packet_def)
  with assms show ?thesis by (simp add: bufferPacket_def)
qed

text \<open>The book-keeping for congestion control never fails on a stamped packet, nor does it change the numbering.\<close>

lemma twcc_sent_total:
  assumes "extensionPayload (header pkt) = Some e" "4 \<le> length e"
  shows "\<exists>st tw' freed. twccManagerOnPacketSent H P (Some tw) (Some pkt) = Some (st, Some tw', freed) \<and>
    twccExtId tw' = twccExtId tw \<and> transportWideSequenceNumber tw' = transportWideSequenceNumber tw"
  using assms
  by (auto simp: twccManagerOnPacketSent_def TWCC_SEQNUM_def rdUnalignedInt16_def twccRollingWindowDeletion_def Let_def
      split: option.splits prod.splits sum.splits if_splits)

context media_transport
begin

lemma iceAgentSendPacket_ok:
  assumes "agent_ready ag" "0 < n" "n \<le> length buf"
  shows "\<exists>ag' w'. iceAgentSendPacket (env_world E) w (Some ag) (Some buf) n = Some (STATUS_SUCCESS, Some ag', w') \<and>
    agent_ready ag' \<and> datagrams w' = datagrams w @ [take n buf]"
proof -
  obtain pair cty where pair: "pDataSendingIceCandidatePair ag = Some pair" "local_type pair = Some cty"
    using assms(1) by (auto simp: agent_ready_def split: option.splits)
  let ?relay = "cty = ICE_CANDIDATE_TYPE_RELAYED"
  let ?b = "take n buf" and ?a = "remote_ipAddress pair"
  obtain wt ws where link: "turnConnectionSendData (env_world E) w ?b ?a = (STATUS_SUCCESS, wt)"
    "socketConnectionSendData (env_world E) w ?b ?a = (STATUS_SUCCESS, ws)"
    using turn_status [of w ?b ?a] socket_status [of w ?b ?a] by (metis prod.collapse)
  then have logs: "datagrams wt = datagrams w @ [?b]" "datagrams ws = datagrams w @ [?b]"
    using turn_log [of w ?b ?a] socket_log [of w ?b ?a] by simp_all
  obtain w1 where send: "iceUtilsSendData (env_world E) w ?b ?a (local_hasSocketConnection pair)
      (?relay \<and> local_hasTurnConnection pair) ?relay = (STATUS_SUCCESS, w1)" "datagrams w1 = datagrams w @ [?b]"
    using assms(1) pair link logs by (auto simp: iceUtilsSendData_def agent_ready_def split: if_splits)
  obtain t w2 where clock: "getTime (env_world E) w1 = (t, w2)" by fastforce
  have "datagrams w2 = datagrams w @ [take n buf]" using clock_silent [of w1] clock send(2) by simp
  then show ?thesis
    using assms pair send(1) clock
    by (auto simp: iceAgentSendPacket_def agent_ready_def rdn_in Let_def notePairSend_def split: if_splits)
qed

lemma notifyTwcc_ok:
  assumes "timed \<Longrightarrow> \<exists>e. extensionPayload (header pk) = Some e \<and> 4 \<le> length e"
  shows "\<exists>pc' w'. notifyTwcc E timed pk pc w = Some (pc', w') \<and> datagrams w' = datagrams w \<and>
    pSrtpSession pc' = pSrtpSession pc \<and> pIceAgent pc' = pIceAgent pc \<and> MTU pc' = MTU pc \<and>
    twccExtId (twccPeer pc') = twccExtId (twccPeer pc) \<and>
    transportWideSequenceNumber (twccPeer pc') = transportWideSequenceNumber (twccPeer pc)"
proof (cases timed)
  case True
  obtain t w' where t: "getTime (env_world E) w = (t, w')" by fastforce
  from True assms obtain e where "extensionPayload (header (pk\<lparr>sentTime := t\<rparr>)) = Some e" "4 \<le> length e" by auto
  from twcc_sent_total [OF this, of "env_twcc E" "env_platform E" "twccPeer pc"] True t clock_silent [of w] show ?thesis
    by (auto simp: notifyTwcc_def)
qed (simp add: notifyTwcc_def)

end

text \<open>The state of the packet loop while the connection works.\<close>

definition sending :: "('t, 'x, 'n) SendState \<Rightarrow> 'x SrtpSession \<Rightarrow> RtpRollingBuffer \<Rightarrow> bool" where
  "sending s sess rrb \<longleftrightarrow>
     pSrtpSession (ss_peer s) = Some sess \<and> (\<exists>ag. pIceAgent (ss_peer s) = Some ag \<and> agent_ready ag) \<and> ss_buffer s = Some rrb"

text \<open>What a sent packet leaves alone or counts.\<close>

definition counted :: "nat \<Rightarrow> nat \<Rightarrow> ('t, 'x, 'n) SendState \<Rightarrow> ('t, 'x, 'n) SendState \<Rightarrow> bool" where
  "counted pkts hdr s s' \<longleftrightarrow>
     MTU (ss_peer s') = MTU (ss_peer s) \<and> twccExtId (twccPeer (ss_peer s')) = twccExtId (twccPeer (ss_peer s)) \<and>
     (ss_packetsSent s + pkts < 2 ^ 32 \<longrightarrow> ss_packetsSent s' = ss_packetsSent s + pkts) \<and>
     (ss_headerBytesSent s + hdr < 2 ^ 32 \<longrightarrow> ss_headerBytesSent s' = ss_headerBytesSent s + hdr) \<and>
     ss_packetsDiscarded s' = ss_packetsDiscarded s \<and> ss_bytesDiscarded s' = ss_bytesDiscarded s \<and>
     ss_framesDiscarded s' = ss_framesDiscarded s"

context media_transport
begin

lemma writePacket_ok:
  assumes st: "stampTwcc (ss_peer s) pkt = (pc, pk)" "wf_rtp pk" "length (rtp_wire pk) + 10 < 2 ^ 32"
    and s: "sending s sess rrb" and m: "m = rtp_wire pk" "x = srtp_transmit_session sess"
    and add: "rtpRollingBufferAddRtpPacket (env_platform E) (env_freshPacket E) (Some rrb)
        (Some (raw_packet (env_freshPacket E) (if after then seal x m else m))) = Some (STATUS_SUCCESS, Some rrb', freed)"
  shows "\<exists>s'. writePacket E after pkt s = Some (STATUS_SUCCESS, s') \<and>
    sending s' (sess\<lparr>srtp_transmit_session := advance x m\<rparr>) rrb' \<and> datagrams (ss_world s') = datagrams (ss_world s) @ [seal x m] \<and>
    counted 1 (RTP_HEADER_LEN pk) s s' \<and>
    transportWideSequenceNumber (twccPeer (ss_peer s')) = transportWideSequenceNumber (twccPeer pc)"
proof -
  obtain ag where peer: "pSrtpSession (ss_peer s) = Some sess" "pIceAgent (ss_peer s) = Some ag" "agent_ready ag" "ss_buffer s = Some rrb"
    using s by (auto simp: sending_def)
  have pc: "pSrtpSession pc = Some sess" "pIceAgent pc = Some ag" "MTU pc = MTU (ss_peer s)"
    "twccExtId (twccPeer pc) = twccExtId (twccPeer (ss_peer s))"
    "twccExtId (twccPeer pc) \<noteq> 0 \<Longrightarrow> \<exists>e. extensionPayload (header pk) = Some e \<and> 4 \<le> length e"
    using st(1) peer by (auto simp: stampTwcc_def Let_def TWCC_PAYLOAD_def bytes32_def split: if_splits)
  have need: "createBytesFromRtpPacket (env_platform E) (Some pk) None 0 = Some (STATUS_SUCCESS, None, length m)"
    using wf_rtp_sizes(1) [OF st(2)] by (simp add: createBytesFromRtpPacket_def m Let_def)
  define rest where "rest = drop (length m) (env_garbage E (length m + 10))"
  have raw: "createBytesFromRtpPacket (env_platform E) (Some pk) (Some (env_garbage E (length m + 10))) (length m) =
      Some (STATUS_SUCCESS, Some (m @ rest), length m)"
    using network_order.createBytesFromRtpPacket_wire [OF host st(2), of "length m" "env_garbage E (length m + 10)"]
    by (simp add: m rest_def fresh_length)
  have "length rest = 10" by (simp add: rest_def fresh_length)
  then obtain tail where enc: "srtp_protect (env_srtp E) x (m @ rest) (length m) =
      (True, seal x m @ tail, length (seal x m), advance x m)"
    using protects [of "length m" "m @ rest" x] by auto
  have "0 < length m" using wf_rtp_length [OF st(2)] by (simp add: m)
  then have "0 < length (seal x m)" using seal_length(1) [of m x] by linarith
  from iceAgentSendPacket_ok [OF peer(3) this, of "seal x m @ tail" "ss_world s"] obtain ag' w1 where send:
    "iceAgentSendPacket (env_world E) (ss_world s) (Some ag) (Some (seal x m @ tail)) (length (seal x m)) = Some (STATUS_SUCCESS, Some ag', w1)"
    "agent_ready ag'" "datagrams w1 = datagrams (ss_world s) @ [seal x m]"
    by auto
  define sess' where "sess' = sess\<lparr>srtp_transmit_session := advance x m\<rparr>"
  define pc2 where "pc2 = pc\<lparr>pSrtpSession := Some sess', pIceAgent := Some ag'\<rparr>"
  from notifyTwcc_ok [of "twccExtId (twccPeer pc) \<noteq> 0" pk pc2 w1, OF pc(5)] obtain pc3 w2 where twcc:
    "notifyTwcc E (twccExtId (twccPeer pc) \<noteq> 0) pk pc2 w1 = Some (pc3, w2)" "pSrtpSession pc3 = Some sess'"
    "pIceAgent pc3 = Some ag'" "MTU pc3 = MTU pc" "twccExtId (twccPeer pc3) = twccExtId (twccPeer pc)"
    "transportWideSequenceNumber (twccPeer pc3) = transportWideSequenceNumber (twccPeer pc)" and "datagrams w2 = datagrams w1"
    by (auto simp: pc2_def)
  obtain t2 w3 where clock: "getTime (env_world E) w2 = (t2, w3)" by fastforce
  have logs: "datagrams w3 = datagrams (ss_world s) @ [seal x m]" using clock_silent [of w2] clock \<open>datagrams w2 = datagrams w1\<close> send(3) by simp
  have cipher: "encryptRtpPacket (env_srtp E) sess (m @ rest) (length m) =
      (STATUS_SUCCESS, seal x m @ tail, length (seal x m), sess')"
    using enc by (simp add: encryptRtpPacket_def m(2) sess'_def)
  have room: "wrap32 (length m + 10) = length m + 10" using st(3) m by simp
  note steps = st(1) need raw room allocates cipher pc(1,2) send(1) pc2_def [symmetric] twcc(1) clock
  define s2 where "s2 = s\<lparr>ss_peer := pc, ss_buffer := Some (if after then rrb else rrb')\<rparr>"
  define s3 where "s3 = s\<lparr>ss_peer := pc3, ss_world := w2, ss_buffer := Some (if after then rrb else rrb')\<rparr>"
  have b1: "bufferPacket E (\<not> after) pk (m @ rest) (length m) (s\<lparr>ss_peer := pc\<rparr>) = Some (STATUS_SUCCESS, s2)"
    using add peer(4) bufferPacket_raw [of E "s\<lparr>ss_peer := pc\<rparr>" m STATUS_SUCCESS "Some rrb'" freed pk rest]
    by (cases after) (simp_all add: bufferPacket_def s2_def)
  have s3: "s2\<lparr>ss_peer := pc3, ss_world := w2\<rparr> = s3" by (simp add: s2_def s3_def)
  have b2: "bufferPacket E after pk (seal x m @ tail) (length (seal x m)) s3 = Some (STATUS_SUCCESS, s3\<lparr>ss_buffer := Some rrb'\<rparr>)"
    using add bufferPacket_raw [of E s3 "seal x m" STATUS_SUCCESS "Some rrb'" freed pk tail]
    by (cases after) (simp_all add: bufferPacket_def s3_def)
  have sw: "ss_world s2 = ss_world s" by (simp add: s2_def)
  have w3: "ss_world s3 = w2" by (simp add: s3_def)
  have run: "writePacket E after pkt s = Some (STATUS_SUCCESS,
      s3\<lparr>ss_buffer := Some rrb', ss_world := w3, ss_headerLen := RTP_HEADER_LEN pk,
         ss_bytesSent := wrap32 (ss_bytesSent s3 + sub32 (length (seal x m)) (RTP_HEADER_LEN pk)),
         ss_packetsSent := wrap32 (ss_packetsSent s3 + 1), ss_lastPacketSentTimestamp := KVS_CONVERT_TIMESCALE t2 10000000 1000,
         ss_headerBytesSent := wrap32 (ss_headerBytesSent s3 + RTP_HEADER_LEN pk)\<rparr>)"
    unfolding writePacket_def by (simp add: steps b1 sw s3 b2 w3 Let_def)
  show ?thesis
    unfolding run using send(2) twcc(2-) pc(3,4) logs by (simp add: sending_def counted_def s3_def sess'_def)
qed

end

subsection \<open>The packets of a frame\<close>

text \<open>The transport-wide number on a packet, as a function of the extension id and the counter.\<close>

definition twcc_stamp :: "u16 \<Rightarrow> u16 \<Rightarrow> RtpPacket \<Rightarrow> RtpPacket" where
  "twcc_stamp ext c pkt =
     (if ext = 0 then pkt
      else pkt\<lparr>header := (header pkt)\<lparr>extension := True, extensionProfile := TWCC_EXT_PROFILE, extensionLength := 4,
             extensionPayload := Some (TWCC_PAYLOAD ext c)\<rparr>\<rparr>)"

fun stamp_all :: "u16 \<Rightarrow> u16 \<Rightarrow> RtpPacket list \<Rightarrow> RtpPacket list" where
  "stamp_all ext c [] = []"
| "stamp_all ext c (p # ps) = twcc_stamp ext c p # stamp_all ext (c + 1) ps"

lemma length_stamp_all [simp]: "length (stamp_all ext c ps) = length ps"
  by (induction ps arbitrary: c) simp_all

lemma nth_stamp_all: "i < length ps \<Longrightarrow> stamp_all ext c ps ! i = twcc_stamp ext (c + word_of_nat i) (ps ! i)"
proof (induction ps arbitrary: c i)
  case (Cons p ps)
  then show ?case by (cases i) (simp_all add: add.assoc add.commute [of 1])
qed simp

definition twcc_counter :: "('t, 'x) KvsPeer \<Rightarrow> u16" where
  "twcc_counter pc = word_of_nat (transportWideSequenceNumber (twccPeer pc))"

lemma word16_wrap64: "(word_of_nat (wrap64 n) :: u16) = word_of_nat n"
  by (rule word_unat_eq_iff [THEN iffD2]) (simp add: wrap64_def unat_of_nat mod_mod_cancel)

lemma stampTwcc_eq:
  obtains pc' where "stampTwcc pc pkt = (pc', twcc_stamp (twccExtId (twccPeer pc)) (twcc_counter pc) pkt)"
    "twcc_counter pc' = (if twccExtId (twccPeer pc) = 0 then twcc_counter pc else twcc_counter pc + 1)"
  by (cases "twccExtId (twccPeer pc) = 0") (auto simp: stampTwcc_def twcc_stamp_def twcc_counter_def Let_def word16_wrap64)

lemma add_success_Some:
  "rtpRollingBufferAddRtpPacket P fresh (Some rrb) (Some pkt) = Some (STATUS_SUCCESS, prb, freed) \<Longrightarrow> \<exists>rrb'. prb = Some rrb'"
  by (auto simp: rtpRollingBufferAddRtpPacket_def split: if_splits prod.splits Option.bind_splits)

lemma rrb_run_Cons:
  assumes "rrb_run P fresh rrb (pkt # pkts) = Some (STATUS_SUCCESS, rrb')"
  obtains rrb1 freed where "rtpRollingBufferAddRtpPacket P fresh (Some rrb) (Some pkt) = Some (STATUS_SUCCESS, Some rrb1, freed)"
    "rrb_run P fresh rrb1 pkts = Some (STATUS_SUCCESS, rrb')"
  using assms add_success_Some [of P fresh rrb pkt] by (fastforce split: Option.bind_splits prod.splits if_splits)

lemma counted_trans: "counted a b s s' \<Longrightarrow> counted c d s' s'' \<Longrightarrow> counted (a + c) (b + d) s s''"
  by (auto simp: counted_def add.assoc)

context media_transport
begin

lemma writePackets_ok:
  assumes "sending s sess rrb" "pks = stamp_all (twccExtId (twccPeer (ss_peer s))) (twcc_counter (ss_peer s)) pkts"
    and "\<forall>pk \<in> set pks. wf_rtp pk \<and> length (rtp_wire pk) + 10 < 2 ^ 32"
    and "x = srtp_transmit_session sess" "ms = map rtp_wire pks" "cs = sealed seal advance x ms"
    and "rrb_run (env_platform E) (env_freshPacket E) rrb (map (raw_packet (env_freshPacket E)) (if after then cs else ms)) =
      Some (STATUS_SUCCESS, rrb')"
  shows "\<exists>s'. writePackets E after pkts s = Some (STATUS_SUCCESS, s') \<and>
    sending s' (sess\<lparr>srtp_transmit_session := foldl advance x ms\<rparr>) rrb' \<and> datagrams (ss_world s') = datagrams (ss_world s) @ cs \<and>
    counted (length pkts) (sum_list (map RTP_HEADER_LEN pks)) s s' \<and>
    (twccExtId (twccPeer (ss_peer s)) \<noteq> 0 \<longrightarrow> twcc_counter (ss_peer s') = twcc_counter (ss_peer s) + word_of_nat (length pkts))"
  using assms
proof (induction pkts arbitrary: s sess rrb x pks ms cs)
  case Nil
  then show ?case by (cases after) (simp_all add: counted_def sending_def)
next
  case (Cons pkt pkts)
  let ?ext = "twccExtId (twccPeer (ss_peer s))" and ?c = "twcc_counter (ss_peer s)"
  obtain pc where stamp: "stampTwcc (ss_peer s) pkt = (pc, twcc_stamp ?ext ?c pkt)"
    "twcc_counter pc = (if ?ext = 0 then ?c else ?c + 1)"
    by (rule stampTwcc_eq)
  define pk pks' m where "pk = twcc_stamp ?ext ?c pkt" and "pks' = stamp_all ?ext (?c + 1) pkts" and "m = rtp_wire pk"
  define ms' cs' where "ms' = map rtp_wire pks'" and "cs' = sealed seal advance (advance x m) ms'"
  have split: "pks = pk # pks'" "ms = m # ms'" "cs = seal x m # cs'"
    using Cons.prems(2,5,6) by (simp_all add: pk_def pks'_def m_def ms'_def cs'_def)
  have "map (raw_packet (env_freshPacket E)) (if after then cs else ms) =
      raw_packet (env_freshPacket E) (if after then seal x m else m) # map (raw_packet (env_freshPacket E)) (if after then cs' else ms')"
    using split by simp
  from rrb_run_Cons [OF Cons.prems(7) [unfolded this]] obtain rrb1 freed where add:
    "rtpRollingBufferAddRtpPacket (env_platform E) (env_freshPacket E) (Some rrb)
        (Some (raw_packet (env_freshPacket E) (if after then seal x m else m))) = Some (STATUS_SUCCESS, Some rrb1, freed)"
    and run: "rrb_run (env_platform E) (env_freshPacket E) rrb1 (map (raw_packet (env_freshPacket E)) (if after then cs' else ms')) =
      Some (STATUS_SUCCESS, rrb')"
    by blast
  define sess1 where "sess1 = sess\<lparr>srtp_transmit_session := advance x m\<rparr>"
  have "wf_rtp pk" "length (rtp_wire pk) + 10 < 2 ^ 32" using Cons.prems(3) split(1) by simp_all
  from writePacket_ok [OF stamp(1) [folded pk_def] this Cons.prems(1) m_def Cons.prems(4) add] obtain s1 where s1:
    "writePacket E after pkt s = Some (STATUS_SUCCESS, s1)" "sending s1 sess1 rrb1"
    "datagrams (ss_world s1) = datagrams (ss_world s) @ [seal x m]" "counted 1 (RTP_HEADER_LEN pk) s s1"
    "twcc_counter (ss_peer s1) = twcc_counter pc"
    unfolding sess1_def twcc_counter_def by auto
  have ext: "twccExtId (twccPeer (ss_peer s1)) = ?ext" using s1(4) by (simp add: counted_def)
  have pks': "pks' = stamp_all ?ext (twcc_counter (ss_peer s1)) pkts"
  proof (cases "?ext = 0")
    case True
    have "stamp_all 0 a ps = stamp_all 0 b ps" for a b ps
      by (intro nth_equalityI) (simp_all add: nth_stamp_all twcc_stamp_def)
    then show ?thesis by (simp add: pks'_def True)
  qed (simp add: pks'_def s1(5) stamp(2))
  have "\<forall>pk \<in> set pks'. wf_rtp pk \<and> length (rtp_wire pk) + 10 < 2 ^ 32" using Cons.prems(3) split(1) by simp
  from Cons.IH [OF s1(2) pks' [folded ext] this _ ms'_def _ run, of "advance x m"] obtain s' where s':
    "writePackets E after pkts s1 = Some (STATUS_SUCCESS, s')"
    "sending s' (sess1\<lparr>srtp_transmit_session := foldl advance (advance x m) ms'\<rparr>) rrb'" "datagrams (ss_world s') = datagrams (ss_world s1) @ cs'"
    "counted (length pkts) (sum_list (map RTP_HEADER_LEN pks')) s1 s'"
    "?ext \<noteq> 0 \<longrightarrow> twcc_counter (ss_peer s') = twcc_counter (ss_peer s1) + word_of_nat (length pkts)"
    unfolding cs'_def ext by (auto simp: sess1_def)
  have "counted (length (pkt # pkts)) (sum_list (map RTP_HEADER_LEN pks)) s s'"
    using counted_trans [OF s1(4) s'(4)] split(1) by simp
  then show ?case using s1(1,3,5) s'(1,2,3,5) stamp(2) split by (auto simp: sess1_def)
qed

end

subsection \<open>A frame becomes numbered packets\<close>

lemma wf_rtp_fits:
  assumes "wf_rtp pk"
  shows "rtp_fits (rtp_wire pk)" "be16 (rtp_wire pk ! 2) (rtp_wire pk ! 3) = sequenceNumber (header pk)"
proof -
  let ?h = "header pk" and ?m = "rtp_wire pk"
  have h: "version ?h < 4" "csrcCount ?h = 0" "csrcCount ?h < 16" using assms by (simp_all add: wf_rtp_def Let_def)
  have b0: "?m ! 0 = headerByte0 ?h" by (simp add: rtp_wire_def Let_def)
  have len: "length ?m = 12 + (if extension ?h then 4 + extensionLength ?h else 0) + payloadLength pk"
    by (rule wf_rtp_length [OF assms])
  have ext: "be16 (?m ! 14) (?m ! 15) = word_of_nat (extensionLength ?h div 4)" "extensionLength ?h < 2 ^ 16"
    "extensionLength ?h mod 4 = 0" if "extension ?h"
    using assms that by (simp_all add: rtp_wire_def rtp_ext_wire_def wf_rtp_def Let_def bytes16_def bytes32_def
        be16_bytes)
  have "bit (?m ! 0) 4 = extension ?h" "?m ! 0 AND 15 = 0"
    using headerByte0_fields [OF h(1,3)] h(2) unfolding b0 by (simp_all add: and_one_pos bit_simps)
  moreover have "length ?m < 2 ^ 32" using assms len by (simp add: wf_rtp_def Let_def split: if_splits)
  ultimately show "rtp_fits ?m"
    using ext len by (auto simp: rtp_fits_def unat_of_nat)
  show "be16 (?m ! 2) (?m ! 3) = sequenceNumber ?h"
    by (simp add: rtp_wire_def Let_def bytes16_def)
qed

text \<open>
  Packet \<open>k\<close> of a frame cut into \<open>ps\<close>: the \<open>k\<close>-th piece, the \<open>k\<close>-th sequence number from \<open>sn\<close>,
  the marker on the last one.
\<close>

definition media_packet :: "RtpPacket \<Rightarrow> byte \<Rightarrow> u16 \<Rightarrow> u32 \<Rightarrow> u32 \<Rightarrow> bool \<Rightarrow> byte list \<Rightarrow> RtpPacket" where
  "media_packet fresh pt sn ts ss mk pay =
     fresh\<lparr>header := \<lparr>version = 2, padding = False, extension = False, marker = mk, csrcCount = 0, payloadType = pt,
             sequenceNumber = sn, timestamp = ts, ssrc = ss, csrcArray = None, extensionProfile = 0, extensionPayload = None,
             extensionLength = 0\<rparr>, payload := Some pay, payloadLength := length pay\<rparr>"

definition media_packets :: "RtpPacket \<Rightarrow> byte \<Rightarrow> u16 \<Rightarrow> u32 \<Rightarrow> u32 \<Rightarrow> byte list list \<Rightarrow> RtpPacket list" where
  "media_packets fresh pt sn ts ss ps =
     map (\<lambda>k. media_packet fresh pt (sn + word_of_nat k) ts ss (k = length ps - 1) (ps ! k)) [0..<length ps]"

lemma length_media_packets [simp]: "length (media_packets fresh pt sn ts ss ps) = length ps"
  by (simp add: media_packets_def)

text \<open>The bytes of a packet depend on the payload only up to its length.\<close>

lemma stamped_wire:
  assumes "payloadLength p = payloadLength q" "header p = header q"
    and "map_option (take (payloadLength q)) (payload p) = map_option (take (payloadLength q)) (payload q)"
  shows "rtp_wire (twcc_stamp ext c p) = rtp_wire (twcc_stamp ext c q)"
  using assms
  by (cases "payload p"; cases "payload q") (auto simp: rtp_wire_def twcc_stamp_def rtp_payload_wire_def Let_def)

lemma wf_media_packet:
  assumes "pt < 128" "length pay + 30 < 2 ^ 32"
  shows "wf_rtp (twcc_stamp ext c (media_packet fresh pt sn ts ss mk pay)) \<and>
    length (rtp_wire (twcc_stamp ext c (media_packet fresh pt sn ts ss mk pay))) + 10 < 2 ^ 32"
proof -
  have "wf_rtp (twcc_stamp ext c (media_packet fresh pt sn ts ss mk pay))"
    using assms by (simp add: wf_rtp_def twcc_stamp_def media_packet_def TWCC_PAYLOAD_def bytes32_def)
  with wf_rtp_length [OF this] assms show ?thesis by (simp add: twcc_stamp_def media_packet_def)
qed

text \<open>The packets as \<^verbatim>\<open>constructRtpPackets\<close> leaves them: each points into the whole payload buffer.\<close>

lemma construct_media_packets:
  assumes "ps \<noteq> []" "0 < total ps"
  shows "\<exists>pkts. constructRtpPackets (Some \<lparr>pa_payloadBuffer = concat ps @ rest, pa_payloadLength = total ps,
        pa_payloadSubLength = map length ps @ rest', pa_payloadSubLenSize = length ps\<rparr>) pt sn ts ss
        (Some (replicate (length ps) fresh)) (length ps) = (STATUS_SUCCESS, Some pkts) \<and> length pkts = length ps \<and>
     (\<forall>k < length ps. \<exists>more. pkts ! k = (media_packets fresh pt sn ts ss ps ! k)\<lparr>payload := Some (ps ! k @ more)\<rparr>)"
proof -
  let ?ls = "map length ps"
  define pkts where "pkts = map (\<lambda>k. frame_packet (concat ps @ rest) ?ls (length ps) pt sn ts ss (replicate (length ps) fresh ! k) k k)
    [0..<length ps]"
  have "constructRtpPackets (Some \<lparr>pa_payloadBuffer = concat ps @ rest, pa_payloadLength = total ps,
        pa_payloadSubLength = ?ls @ rest', pa_payloadSubLenSize = length ps\<rparr>) pt sn ts ss
        (Some (replicate (length ps) fresh)) (length ps) = (STATUS_SUCCESS, Some pkts)"
    using assms constructRtpPackets_loop_eq [of 0 ?ls "replicate (length ps) fresh" "concat ps @ rest" "length ps" pt sn ts ss]
    by (simp add: constructRtpPackets_def pkts_def)
  moreover have "\<exists>more. pkts ! k = (media_packets fresh pt sn ts ss ps ! k)\<lparr>payload := Some (ps ! k @ more)\<rparr>" if k: "k < length ps" for k
  proof -
    have "concat ps = concat (take k ps) @ ps ! k @ concat (drop (Suc k) ps)"
      by (metis append_take_drop_id concat.simps(2) concat_append Cons_nth_drop_Suc k)
    moreover have "sum_list (take k ?ls) = length (concat (take k ps))"
      by (simp add: total_def take_map)
    ultimately have "drop (sum_list (take k ?ls)) (concat ps @ rest) = ps ! k @ concat (drop (Suc k) ps) @ rest" by simp
    then show ?thesis
      using k by (intro exI [of _ "concat (drop (Suc k) ps) @ rest"]) (simp add: pkts_def frame_packet_def media_packets_def media_packet_def)
  qed
  ultimately show ?thesis by (auto simp: pkts_def)
qed

lemma stamped_payload:
  assumes "pt < 128" "length pay + 30 < 2 ^ 32" "q = media_packet fresh pt sn ts ss mk pay" "p = q\<lparr>payload := Some (pay @ tl1)\<rparr>"
  shows "wf_rtp (twcc_stamp ext c p)" "rtp_wire (twcc_stamp ext c p) = rtp_wire (twcc_stamp ext c q)"
    "length (rtp_wire (twcc_stamp ext c p)) + 10 < 2 ^ 32" "RTP_HEADER_LEN (twcc_stamp ext c p) = 12 + (if ext = 0 then 0 else 8)"
proof -
  show w: "rtp_wire (twcc_stamp ext c p) = rtp_wire (twcc_stamp ext c q)"
    by (rule stamped_wire) (simp_all add: assms(3,4) media_packet_def)
  show "wf_rtp (twcc_stamp ext c p)"
    using assms by (simp add: wf_rtp_def twcc_stamp_def media_packet_def TWCC_PAYLOAD_def bytes32_def)
  show "length (rtp_wire (twcc_stamp ext c p)) + 10 < 2 ^ 32"
    using wf_media_packet [OF assms(1,2)] by (simp add: w assms(3))
  show "RTP_HEADER_LEN (twcc_stamp ext c p) = 12 + (if ext = 0 then 0 else 8)"
    by (simp add: assms(3,4) RTP_HEADER_LEN_def twcc_stamp_def media_packet_def wrap32_def)
qed

lemma stamped_frame:
  assumes "pt < 128" "\<forall>p \<in> set ps. length p + 30 < 2 ^ 32" "length pkts = length ps"
    and "\<forall>k < length ps. \<exists>more. pkts ! k = (media_packets fresh pt sn ts ss ps ! k)\<lparr>payload := Some (ps ! k @ more)\<rparr>"
  shows "map rtp_wire (stamp_all ext c pkts) = map rtp_wire (stamp_all ext c (media_packets fresh pt sn ts ss ps))"
    and "\<forall>pk \<in> set (stamp_all ext c pkts). wf_rtp pk \<and> length (rtp_wire pk) + 10 < 2 ^ 32"
    and "sum_list (map RTP_HEADER_LEN (stamp_all ext c pkts)) = length ps * (12 + (if ext = 0 then 0 else 8))"
proof -
  have each: "wf_rtp (stamp_all ext c pkts ! k) \<and> length (rtp_wire (stamp_all ext c pkts ! k)) + 10 < 2 ^ 32 \<and>
      rtp_wire (stamp_all ext c pkts ! k) = rtp_wire (stamp_all ext c (media_packets fresh pt sn ts ss ps) ! k) \<and>
      RTP_HEADER_LEN (stamp_all ext c pkts ! k) = 12 + (if ext = 0 then 0 else 8)" if k: "k < length ps" for k
  proof -
    define q where "q = media_packet fresh pt (sn + word_of_nat k) ts ss (k = length ps - 1) (ps ! k)"
    have mk: "media_packets fresh pt sn ts ss ps ! k = q" using k by (simp add: media_packets_def q_def)
    obtain more where p: "pkts ! k = q\<lparr>payload := Some (ps ! k @ more)\<rparr>" using assms(4) k mk by metis
    have "length (ps ! k) + 30 < 2 ^ 32" using assms(2) k by simp
    from stamped_payload [OF assms(1) this q_def p, of ext "c + word_of_nat k"] show ?thesis
      using k assms(3) by (simp add: nth_stamp_all mk)
  qed
  show "map rtp_wire (stamp_all ext c pkts) = map rtp_wire (stamp_all ext c (media_packets fresh pt sn ts ss ps))"
    using each assms(3) by (intro nth_equalityI) simp_all
  show "\<forall>pk \<in> set (stamp_all ext c pkts). wf_rtp pk \<and> length (rtp_wire pk) + 10 < 2 ^ 32"
    using each assms(3) by (metis in_set_conv_nth length_stamp_all)
  have "map RTP_HEADER_LEN (stamp_all ext c pkts) = replicate (length ps) (12 + (if ext = 0 then 0 else 8))"
    using each assms(3) by (intro nth_equalityI) simp_all
  then show "sum_list (map RTP_HEADER_LEN (stamp_all ext c pkts)) = length ps * (12 + (if ext = 0 then 0 else 8))"
    by (simp add: sum_list_replicate)
qed

subsection \<open>Sending a frame\<close>

text \<open>
  The sender between two frames: its buffers have the sizes it remembers, and the rolling
  buffer holds, under index \<open>i\<close>, the packet whose sequence number is \<open>i\<close> modulo 2^16, the next
  index being that of the next sequence number.
\<close>

definition buffers_ok :: "RtcRtpSender \<Rightarrow> bool" where
  "buffers_ok sdr \<longleftrightarrow>
     maxPayloadLength sdr = length (pa_payloadBuffer (payloadArray sdr)) \<and>
     maxPayloadSubLenSize sdr = length (pa_payloadSubLength (payloadArray sdr))"

definition history_ok :: "RtcRtpSender \<Rightarrow> RtpRollingBuffer \<Rightarrow> RtpPacket RollingBuffer \<Rightarrow> bool" where
  "history_ok sdr rrb rb \<longleftrightarrow>
     packetBuffer sdr = Some rrb \<and> rrb_inv rrb \<and> pRollingBuffer rrb = Some rb \<and> rrb_numbered rb \<and>
     GET_UINT16_SEQ_NUM (headIndex rb) = snd_sequenceNumber sdr"

lemma GET_UINT16_add: "GET_UINT16_SEQ_NUM (i + k) = GET_UINT16_SEQ_NUM i + word_of_nat k"
  by (rule word_unat_eq_iff [THEN iffD2]) (simp add: unat_GET_UINT16 unat_word_ariths(1) unat_of_nat mod_simps)

lemma GET_UINT16_next: "GET_UINT16_SEQ_NUM (unat sn + k) = sn + word_of_nat k"
  by (rule word_unat_eq_iff [THEN iffD2]) (simp add: unat_GET_UINT16 unat_word_ariths(1) unat_of_nat mod_simps)

context media_transport
begin

lemma packetiseFrame_ok:
  assumes "rtp_payloader payloadFn packets accepts" "accepts mtu d" "buffers_ok sdr"
  shows "\<exists>sdr' rest rest'. packetiseFrame E payloadFn mtu sdr d (length d) = Some (STATUS_SUCCESS, sdr') \<and>
    payloadArray sdr' = \<lparr>pa_payloadBuffer = concat (packets mtu d) @ rest, pa_payloadLength = total (packets mtu d),
      pa_payloadSubLength = map length (packets mtu d) @ rest', pa_payloadSubLenSize = length (packets mtu d)\<rparr> \<and>
    buffers_ok sdr' \<and> sdr' = sdr\<lparr>payloadArray := payloadArray sdr', maxPayloadLength := maxPayloadLength sdr',
      maxPayloadSubLenSize := maxPayloadSubLenSize sdr'\<rparr>"
proof -
  let ?ps = "packets mtu d"
  define buf where "buf = (if total ?ps > maxPayloadLength sdr then env_garbage E (total ?ps) else pa_payloadBuffer (payloadArray sdr))"
  define subs where "subs = (if length ?ps > maxPayloadSubLenSize sdr then env_garbage32 E (length ?ps)
    else pa_payloadSubLength (payloadArray sdr))"
  have len: "total ?ps \<le> length buf" "length ?ps \<le> length subs"
    "length buf = max (total ?ps) (maxPayloadLength sdr)" "length subs = max (length ?ps) (maxPayloadSubLenSize sdr)"
    using assms(3) by (auto simp: buf_def subs_def buffers_ok_def fresh_length fresh32_length)
  note size = rtp_payloader.size_pass [OF assms(1,2)] and fill = rtp_payloader.fill_pass [OF assms(1,2) len(1,2)]
  define sdr' where "sdr' = sdr\<lparr>payloadArray := \<lparr>pa_payloadBuffer = concat ?ps @ drop (total ?ps) buf, pa_payloadLength = total ?ps,
      pa_payloadSubLength = map length ?ps @ drop (length ?ps) subs, pa_payloadSubLenSize = length ?ps\<rparr>,
      maxPayloadLength := length buf, maxPayloadSubLenSize := length subs\<rparr>"
  have "packetiseFrame E payloadFn mtu sdr d (length d) = Some (STATUS_SUCCESS, sdr')"
    using len(3,4) assms(3) fill
    by (auto simp: packetiseFrame_def size Let_def allocates sdr'_def buf_def subs_def buffers_ok_def max_def split: if_splits)
  then show ?thesis
    using len by (intro exI [of _ sdr'] exI [of _ "drop (total ?ps) buf"] exI [of _ "drop (length ?ps) subs"])
      (simp add: sdr'_def buffers_ok_def)
qed

lemma sealed_nth:
  "length (sealed seal advance x ms) = length ms \<and>
   (k < length ms \<longrightarrow> (\<exists>y. sealed seal advance x ms ! k = seal y (ms ! k)))"
proof (induction ms arbitrary: x k)
  case (Cons m ms)
  then show ?case by (cases k) auto
qed simp

text \<open>The messages of a frame, and that the rolling buffer takes them, sealed or not, in step with the numbers.\<close>

lemma frame_history:
  assumes "history_ok sdr rrb rb" "headIndex rb + length ps < 2 ^ 64" "snd_payloadType sdr < 128"
    and "\<forall>p \<in> set ps. length p + 30 < 2 ^ 32"
    and "ms = map rtp_wire (stamp_all ext c (media_packets fresh (snd_payloadType sdr) (snd_sequenceNumber sdr) ts (snd_ssrc sdr) ps))"
    and "cs = sealed seal advance x ms"
  shows "\<exists>rrb' rb'. rrb_run (env_platform E) f rrb (map (raw_packet f) (if after then cs else ms)) =
      Some (STATUS_SUCCESS, rrb') \<and> rrb_inv rrb' \<and> pRollingBuffer rrb' = Some rb' \<and> rrb_numbered rb' \<and>
    headIndex rb' = headIndex rb + length ps \<and> tailIndex rb' = max (tailIndex rb) (headIndex rb + length ps - capacity rb)"
proof -
  let ?sn = "snd_sequenceNumber sdr"
  have h: "rrb_inv rrb" "pRollingBuffer rrb = Some rb" "rrb_numbered rb" "GET_UINT16_SEQ_NUM (headIndex rb) = ?sn"
    using assms(1) by (simp_all add: history_ok_def)
  have len: "length (if after then cs else ms) = length ps" using assms(5,6) sealed_nth [of x ms] by simp
  have num: "raw_numbered (map (raw_packet f) (if after then cs else ms) ! k) (headIndex rb + k)" if k: "k < length ps" for k
  proof -
    define pk where "pk = twcc_stamp ext (c + word_of_nat k)
      (media_packet fresh (snd_payloadType sdr) (?sn + word_of_nat k) ts (snd_ssrc sdr) (k = length ps - 1) (ps ! k))"
    have msk: "ms ! k = rtp_wire pk" using k by (simp add: assms(5) nth_stamp_all media_packets_def pk_def)
    have wf: "wf_rtp pk" "length (rtp_wire pk) + 10 < 2 ^ 32"
      unfolding pk_def using wf_media_packet assms(3,4) k by simp_all
    have sn: "sequenceNumber (header pk) = GET_UINT16_SEQ_NUM (headIndex rb + k)"
      by (simp add: pk_def twcc_stamp_def media_packet_def GET_UINT16_add h(4))
    have fits: "rtp_fits (ms ! k)" "be16 (ms ! k ! 2) (ms ! k ! 3) = GET_UINT16_SEQ_NUM (headIndex rb + k)"
      using wf_rtp_fits [OF wf(1)] sn by (simp_all add: msk)
    obtain y where y: "cs ! k = seal y (ms ! k)" using sealed_nth [of x ms k] k assms(5,6) by auto
    have "rtp_fits (cs ! k)" "take 4 (cs ! k) = take 4 (ms ! k)"
      using seal_header [OF fits(1), of y] wf(2) by (simp_all add: y msk)
    moreover from this(2) have "cs ! k ! i = ms ! k ! i" if "i < 4" for i
      using nth_take [OF that, of "cs ! k"] nth_take [OF that, of "ms ! k"] by simp
    ultimately show ?thesis using k len fits by (cases after) (auto simp: raw_numbered_def raw_packet_def)
  qed
  have len': "length (map (raw_packet f) (if after then cs else ms)) = length ps" using len by simp
  show ?thesis
    by (rule rrb_run_numbered [OF host allocates h(1-3), of "map (raw_packet f) (if after then cs else ms)" f, unfolded len'])
      (fact assms(2), rule num)
qed

lemma sendFrame_ok:
  assumes codec: "payloadFuncOf (env_junk E) (track_codec (track sdr)) = Some (payloadFn, rate)"
      "rtp_payloader payloadFn packets accepts" "accepts (MTU (ss_peer s)) (frame_frameData frm)"
    and frm: "frame_size frm = length (frame_frameData frm)" "CONVERT_TIMESTAMP_TO_RTP rate (frame_presentationTs frm) = Some ts"
    and ps: "ps = packets (MTU (ss_peer s)) (frame_frameData frm)" "ps \<noteq> []" "0 < total ps" "\<forall>p \<in> set ps. length p + 30 < 2 ^ 32"
    and sdr: "buffers_ok sdr" "history_ok sdr rrb rb" "headIndex rb + length ps < 2 ^ 64" "snd_payloadType sdr < 128"
    and s: "sending s sess rrb" "x = srtp_transmit_session sess"
    and ms: "ms = map rtp_wire (stamp_all (twccExtId (twccPeer (ss_peer s))) (twcc_counter (ss_peer s))
        (media_packets (env_freshPacket E) (snd_payloadType sdr) (snd_sequenceNumber sdr) (word_of_nat ts) (snd_ssrc sdr) ps))"
  shows "\<exists>sdr' s' rrb' rb'. sendFrame E frm sdr s = Some (STATUS_SUCCESS, sdr', s') \<and>
    datagrams (ss_world s') = datagrams (ss_world s) @ sealed seal advance x ms \<and>
    sending s' (sess\<lparr>srtp_transmit_session := foldl advance x ms\<rparr>) rrb' \<and>
    counted (length ps) (length ps * (12 + (if twccExtId (twccPeer (ss_peer s)) = 0 then 0 else 8))) s s' \<and>
    (twccExtId (twccPeer (ss_peer s)) \<noteq> 0 \<longrightarrow> twcc_counter (ss_peer s') = twcc_counter (ss_peer s) + word_of_nat (length ps)) \<and>
    buffers_ok sdr' \<and> history_ok sdr' rrb' rb' \<and> headIndex rb' = headIndex rb + length ps \<and>
    tailIndex rb' = max (tailIndex rb) (headIndex rb + length ps - capacity rb) \<and>
    snd_sequenceNumber sdr' = snd_sequenceNumber sdr + word_of_nat (length ps) \<and>
    snd_payloadType sdr' = snd_payloadType sdr \<and> snd_ssrc sdr' = snd_ssrc sdr \<and> track sdr' = track sdr"
proof -
  let ?ext = "twccExtId (twccPeer (ss_peer s))" and ?c = "twcc_counter (ss_peer s)"
  let ?mp = "media_packets (env_freshPacket E) (snd_payloadType sdr) (snd_sequenceNumber sdr) (word_of_nat ts) (snd_ssrc sdr) ps"
  let ?after = "snd_payloadType sdr = rtxPayloadType sdr"
  from packetiseFrame_ok [OF codec(2,3) sdr(1)] obtain sdr1 rest rest' where pf:
    "packetiseFrame E payloadFn (MTU (ss_peer s)) sdr (frame_frameData frm) (frame_size frm) = Some (STATUS_SUCCESS, sdr1)"
    "payloadArray sdr1 = \<lparr>pa_payloadBuffer = concat ps @ rest, pa_payloadLength = total ps,
      pa_payloadSubLength = map length ps @ rest', pa_payloadSubLenSize = length ps\<rparr>" "buffers_ok sdr1"
    "sdr1 = sdr\<lparr>payloadArray := payloadArray sdr1, maxPayloadLength := maxPayloadLength sdr1,
      maxPayloadSubLenSize := maxPayloadSubLenSize sdr1\<rparr>"
    unfolding ps(1) [symmetric] frm(1) by blast
  from pf(4) have same: "snd_payloadType sdr1 = snd_payloadType sdr" "rtxPayloadType sdr1 = rtxPayloadType sdr"
    "snd_sequenceNumber sdr1 = snd_sequenceNumber sdr" "snd_ssrc sdr1 = snd_ssrc sdr" "track sdr1 = track sdr"
    by (cases sdr1; cases sdr; simp)+
  from construct_media_packets [OF ps(2,3), of rest rest' "snd_payloadType sdr" "snd_sequenceNumber sdr" "word_of_nat ts"
      "snd_ssrc sdr" "env_freshPacket E"] obtain pkts where pkts:
    "constructRtpPackets (Some (payloadArray sdr1)) (snd_payloadType sdr) (snd_sequenceNumber sdr) (word_of_nat ts) (snd_ssrc sdr)
        (Some (replicate (length ps) (env_freshPacket E))) (length ps) = (STATUS_SUCCESS, Some pkts)" "length pkts = length ps"
    "\<forall>k < length ps. \<exists>more. pkts ! k = (?mp ! k)\<lparr>payload := Some (ps ! k @ more)\<rparr>"
    unfolding pf(2) by blast
  note stamped = stamped_frame [OF sdr(4) ps(4) pkts(2,3), of ?ext ?c]
  from frame_history [OF sdr(2,3,4) ps(4) ms refl, of "env_freshPacket E" ?after x] obtain rrb' rb' where hist:
    "rrb_run (env_platform E) (env_freshPacket E) rrb
      (map (raw_packet (env_freshPacket E)) (if ?after then sealed seal advance x ms else ms)) = Some (STATUS_SUCCESS, rrb')"
    "rrb_inv rrb'" "pRollingBuffer rrb' = Some rb'" "rrb_numbered rb'" "headIndex rb' = headIndex rb + length ps"
    "tailIndex rb' = max (tailIndex rb) (headIndex rb + length ps - capacity rb)"
    by blast
  from writePackets_ok [OF s(1) refl stamped(2) s(2) refl refl, unfolded stamped(1), folded ms, OF hist(1)] obtain s' where s':
    "writePackets E ?after pkts s = Some (STATUS_SUCCESS, s')"
    "sending s' (sess\<lparr>srtp_transmit_session := foldl advance x ms\<rparr>) rrb'" "datagrams (ss_world s') = datagrams (ss_world s) @ sealed seal advance x ms"
    "counted (length ps) (length ps * (12 + (if ?ext = 0 then 0 else 8))) s s'"
    "?ext \<noteq> 0 \<longrightarrow> twcc_counter (ss_peer s') = ?c + word_of_nat (length ps)"
    unfolding stamped(3) pkts(2) by blast
  define sdr' where "sdr' = sdr1\<lparr>snd_sequenceNumber := snd_sequenceNumber sdr + word_of_nat (length ps), packetBuffer := Some rrb'\<rparr>"
  have peer: "pSrtpSession (ss_peer s) \<noteq> None" "ss_buffer s' = Some rrb'"
    using s(1) s'(2) by (simp_all add: sending_def)
  have fields: "pa_payloadSubLenSize (payloadArray sdr1) = length ps" "pa_payloadLength (payloadArray sdr1) = total ps"
    by (simp_all add: pf(2))
  have run: "sendFrame E frm sdr s = Some (STATUS_SUCCESS, sdr', s')"
    using peer ps(3) pkts(2)
    by (simp add: sendFrame_def codec(1) frm(2) pf(1) fields same allocates pkts(1) GET_UINT16_next s'(1) sdr'_def Let_def)
  have "history_ok sdr' rrb' rb'" "buffers_ok sdr'"
    using hist sdr(2) pf(3) by (simp_all add: history_ok_def sdr'_def GET_UINT16_add buffers_ok_def)
  then show ?thesis
    using run s'(2-) hist(5,6) same by (auto simp: sdr'_def)
qed

end

subsection \<open>Properties\<close>

lemma noteFrame_fields:
  "packetsSent (outboundStats (noteFrame now frm fps fin frames s tr)) = wrap64 (packetsSent (outboundStats tr) + ss_packetsSent s)"
  "sender (noteFrame now frm fps fin frames s tr) = (sender tr)\<lparr>lastKnownFrameCountTime := now,
     lastKnownFrameCount := wrap32 (framesEncoded (outboundStats tr) + frames)\<rparr>"
  by (simp_all add: noteFrame_def Let_def)

text \<open>
  The sender's part of a transceiver after a frame; \<open>x\<close> is the SRTP session before it, \<open>ms\<close> are
  its packets as bytes.
\<close>

lemma writeFrame_ok:
  assumes net: "media_transport E datagrams seal advance"
    and codec: "payloadFuncOf (env_junk E) (track_codec (track (sender tr))) = Some (payloadFn, rate)"
      "rtp_payloader payloadFn packets accepts" "accepts (MTU pc) (frame_frameData frm)"
    and frm: "frame_size frm = length (frame_frameData frm)" "CONVERT_TIMESTAMP_TO_RTP rate (frame_presentationTs frm) = Some ts"
    and ps: "ps = packets (MTU pc) (frame_frameData frm)" "ps \<noteq> []" "0 < total ps" "\<forall>p \<in> set ps. length p + 30 < 2 ^ 32"
      "length ps < 2 ^ 32"
    and sdr: "buffers_ok (sender tr)" "history_ok (sender tr) rrb rb" "headIndex rb + length ps < 2 ^ 64"
      "snd_payloadType (sender tr) < 128"
    and pc: "pSrtpSession pc = Some sess" "pIceAgent pc = Some ag" "agent_ready ag" "x = srtp_transmit_session sess"
    and ms: "ms = map rtp_wire (stamp_all (twccExtId (twccPeer pc)) (twcc_counter pc) (media_packets (env_freshPacket E)
        (snd_payloadType (sender tr)) (snd_sequenceNumber (sender tr)) (word_of_nat ts) (snd_ssrc (sender tr)) ps))"
  shows "\<exists>pc' tr' w' ag' rrb' rb'. writeFrame E w pc (Some tr) (Some frm) = Some (STATUS_SUCCESS, pc', tr', w') \<and>
    datagrams w' = datagrams w @ sealed seal advance x ms \<and>
    pSrtpSession pc' = Some (sess\<lparr>srtp_transmit_session := foldl advance x ms\<rparr>) \<and>
    pIceAgent pc' = Some ag' \<and> agent_ready ag' \<and> MTU pc' = MTU pc \<and> twccExtId (twccPeer pc') = twccExtId (twccPeer pc) \<and>
    (twccExtId (twccPeer pc) \<noteq> 0 \<longrightarrow> twcc_counter pc' = twcc_counter pc + word_of_nat (length ps)) \<and>
    buffers_ok (sender tr') \<and> history_ok (sender tr') rrb' rb' \<and> headIndex rb' = headIndex rb + length ps \<and>
    tailIndex rb' = max (tailIndex rb) (headIndex rb + length ps - capacity rb) \<and>
    snd_sequenceNumber (sender tr') = snd_sequenceNumber (sender tr) + word_of_nat (length ps) \<and>
    snd_payloadType (sender tr') = snd_payloadType (sender tr) \<and> snd_ssrc (sender tr') = snd_ssrc (sender tr) \<and>
    track (sender tr') = track (sender tr) \<and>
    packetsSent (outboundStats tr') = wrap64 (packetsSent (outboundStats tr) + length ps)"
proof -
  obtain now w1 where now: "getTime (env_world E) w = (now, w1)" by fastforce
  have log1: "datagrams w1 = datagrams w" using media_transport.clock_silent [OF net, of w] now by simp
  define s0 where "s0 = \<lparr>ss_peer = pc, ss_buffer = packetBuffer (sender tr), ss_world = w1, ss_headerLen = 0, ss_bytesSent = 0,
     ss_packetsSent = 0, ss_headerBytesSent = 0, ss_lastPacketSentTimestamp = 0, ss_packetsDiscarded = 0,
     ss_bytesDiscarded = 0, ss_framesDiscarded = 0\<rparr>"
  have s0: "ss_peer s0 = pc" "ss_world s0 = w1" "ss_packetsSent s0 = 0" by (simp_all add: s0_def)
  have snd: "sending s0 sess rrb" using pc sdr(2) by (simp add: sending_def s0_def history_ok_def)
  from media_transport.sendFrame_ok [OF net codec(1,2), of s0 frm ts ps rrb rb sess x ms, unfolded s0, OF codec(3) frm ps(1-4) sdr snd pc(4) ms]
  obtain sdr' s' rrb' rb' where run: "sendFrame E frm (sender tr) s0 = Some (STATUS_SUCCESS, sdr', s')"
    "datagrams (ss_world s') = datagrams w1 @ sealed seal advance x ms"
    "sending s' (sess\<lparr>srtp_transmit_session := foldl advance x ms\<rparr>) rrb'"
    "counted (length ps) (length ps * (12 + (if twccExtId (twccPeer pc) = 0 then 0 else 8))) s0 s'"
    "twccExtId (twccPeer pc) \<noteq> 0 \<longrightarrow> twcc_counter (ss_peer s') = twcc_counter pc + word_of_nat (length ps)"
    "buffers_ok sdr'" "history_ok sdr' rrb' rb'" "headIndex rb' = headIndex rb + length ps"
    "tailIndex rb' = max (tailIndex rb) (headIndex rb + length ps - capacity rb)"
    "snd_sequenceNumber sdr' = snd_sequenceNumber (sender tr) + word_of_nat (length ps)"
    "snd_payloadType sdr' = snd_payloadType (sender tr)" "snd_ssrc sdr' = snd_ssrc (sender tr)" "track sdr' = track (sender tr)"
    by blast
  define video where "video = (track_kind (track (sender tr)) = MEDIA_STREAM_TRACK_KIND_VIDEO)"
  define sdr2 where "sdr2 = (if firstFrameWallClockTime sdr' = 0 then sdr'\<lparr>rtpTimeOffset := 0, firstFrameWallClockTime := now\<rparr> else sdr')"
  define tr' where "tr' = noteFrame now frm (if video then frameRate now tr else 0) (if video then 1 else 0) (if video then 1 else 0) s'
    (tr\<lparr>sender := sdr2\<rparr>)"
  have w: "writeFrame E w pc (Some tr) (Some frm) = Some (STATUS_SUCCESS, ss_peer s', tr', ss_world s')"
    using run(1) by (simp add: writeFrame_def now s0_def [symmetric] Let_def tr'_def sdr2_def video_def)
  have st: "packetsSent (outboundStats tr') = wrap64 (packetsSent (outboundStats tr) + ss_packetsSent s')"
    by (simp add: tr'_def noteFrame_fields)
  have snd': "\<exists>a b c d. sender tr' = sdr'\<lparr>rtpTimeOffset := a, firstFrameWallClockTime := b, lastKnownFrameCountTime := c,
      lastKnownFrameCount := d\<rparr>"
  proof (cases "firstFrameWallClockTime sdr' = 0")
    case False
    then show ?thesis
      by (intro exI [of _ "rtpTimeOffset sdr'"] exI [of _ "firstFrameWallClockTime sdr'"] exI) (simp add: tr'_def noteFrame_fields sdr2_def)
  qed (auto simp: tr'_def noteFrame_fields sdr2_def intro!: exI)
  have cnt: "ss_packetsSent s' = length ps" using run(4) ps(5) by (simp add: counted_def s0)
  have peer: "pSrtpSession (ss_peer s') = Some (sess\<lparr>srtp_transmit_session := foldl advance x ms\<rparr>)"
    "\<exists>ag'. pIceAgent (ss_peer s') = Some ag' \<and> agent_ready ag'" "MTU (ss_peer s') = MTU pc"
    "twccExtId (twccPeer (ss_peer s')) = twccExtId (twccPeer pc)"
    using run(3,4) by (simp_all add: sending_def counted_def s0)
  obtain ag' where ag': "pIceAgent (ss_peer s') = Some ag'" "agent_ready ag'" using peer(2) by blast
  obtain a b c d where sd: "sender tr' = sdr'\<lparr>rtpTimeOffset := a, firstFrameWallClockTime := b, lastKnownFrameCountTime := c,
      lastKnownFrameCount := d\<rparr>"
    using snd' by blast
  have sdr': "buffers_ok (sender tr')" "history_ok (sender tr') rrb' rb'"
    "snd_sequenceNumber (sender tr') = snd_sequenceNumber (sender tr) + word_of_nat (length ps)"
    "snd_payloadType (sender tr') = snd_payloadType (sender tr)" "snd_ssrc (sender tr') = snd_ssrc (sender tr)"
    "track (sender tr') = track (sender tr)"
    using run(6,7,10-) by (simp_all add: sd buffers_ok_def history_ok_def)
  note out = run(2) [unfolded log1] st [unfolded cnt]
  show ?thesis
    by (intro exI [of _ "ss_peer s'"] exI [of _ tr'] exI [of _ "ss_world s'"] exI [of _ ag'] exI [of _ rrb'] exI [of _ rb'] conjI)
      (fact w out peer(1,3,4) ag' run(5,8,9) sdr')+
qed

lemma payloadFuncOf_rate: "payloadFuncOf junk codec = Some (payloadFn, rate) \<Longrightarrow> rate \<le> 90000"
  by (auto simp: payloadFuncOf_def split: RTC_CODEC.splits)

text \<open>
  C26. Sending a frame.  With a connected ICE agent, an SRTP session and a codec that accepts the
  frame, \<^verbatim>\<open>writeFrame\<close> succeeds and hands exactly the frame's packets to the network: in order,
  sealed by SRTP, piece \<open>k\<close> of the payloader with sequence number \<open>sn + k\<close>, one timestamp within
  one tick of the exact conversion, the marker on the last packet, and consecutive
  transport-wide numbers when that extension is on.  The sequence number, the transport-wide
  counter, the SRTP session and the packet count advance by the number of packets, and the
  rolling buffer remembers the packets under their numbers.
\<close>

theorem write_frame_sends:
  assumes net: "media_transport E datagrams seal advance"
    and codec: "payloadFuncOf (env_junk E) (track_codec (track (sender tr))) = Some (payloadFn, rate)"
      "rtp_payloader payloadFn packets accepts" "accepts (MTU pc) (frame_frameData frm)"
    and frm: "frame_size frm = length (frame_frameData frm)" "frame_presentationTs frm < 2 ^ 53"
    and ps: "ps = packets (MTU pc) (frame_frameData frm)" "ps \<noteq> []" "0 < total ps" "\<forall>p \<in> set ps. length p + 30 < 2 ^ 32"
      "length ps < 2 ^ 32"
    and sdr: "buffers_ok (sender tr)" "history_ok (sender tr) rrb rb" "headIndex rb + length ps < 2 ^ 64"
      "snd_payloadType (sender tr) < 128"
    and pc: "pSrtpSession pc = Some sess" "pIceAgent pc = Some ag" "agent_ready ag" "x = srtp_transmit_session sess"
  shows "\<exists>ts ms pc' tr' w' rrb' rb'. writeFrame E w pc (Some tr) (Some frm) = Some (STATUS_SUCCESS, pc', tr', w') \<and>
    ms = map rtp_wire (stamp_all (twccExtId (twccPeer pc)) (twcc_counter pc) (media_packets (env_freshPacket E)
        (snd_payloadType (sender tr)) (snd_sequenceNumber (sender tr)) (word_of_nat ts) (snd_ssrc (sender tr)) ps)) \<and>
    ts \<le> frame_presentationTs frm * rate div 10000000 + 1 \<and> frame_presentationTs frm * rate div 10000000 \<le> ts + 1 \<and>
    datagrams w' = datagrams w @ sealed seal advance x ms \<and>
    pSrtpSession pc' = Some (sess\<lparr>srtp_transmit_session := foldl advance x ms\<rparr>) \<and>
    (twccExtId (twccPeer pc) \<noteq> 0 \<longrightarrow> twcc_counter pc' = twcc_counter pc + word_of_nat (length ps)) \<and>
    snd_sequenceNumber (sender tr') = snd_sequenceNumber (sender tr) + word_of_nat (length ps) \<and>
    packetsSent (outboundStats tr') = wrap64 (packetsSent (outboundStats tr) + length ps) \<and>
    buffers_ok (sender tr') \<and> history_ok (sender tr') rrb' rb' \<and> headIndex rb' = headIndex rb + length ps"
proof -
  obtain ts where ts: "CONVERT_TIMESTAMP_TO_RTP rate (frame_presentationTs frm) = Some ts"
    "ts \<le> frame_presentationTs frm * rate div 10000000 + 1" "frame_presentationTs frm * rate div 10000000 \<le> ts + 1"
    using rtp_timestamp_bound [OF frm(2) payloadFuncOf_rate [OF codec(1)]] by blast
  from writeFrame_ok [OF net codec frm(1) ts(1) ps sdr pc refl, of w] ts(2,3) show ?thesis by blast
qed

definition sample_srtp :: "nat libsrtp" where
  "sample_srtp = \<lparr>srtp_create = (\<lambda>_ _ _ _. Some 0),
     srtp_protect = (\<lambda>x buf n. (True, take n buf @ replicate 10 (word_of_nat x), n + 10, x + 1)),
     srtp_unprotect = (\<lambda>x buf n. (True, take (n - 10) buf, n - 10, x)),
     srtp_protect_rtcp = (\<lambda>x buf n. (True, take n buf @ replicate 10 (word_of_nat x), n + 10, x + 1)),
     srtp_unprotect_rtcp = (\<lambda>x buf n. (True, take (n - 10) buf, n - 10, x))\<rparr>"

definition sample_world :: "(byte list list \<times> nat) world_ops" where
  "sample_world = \<lparr>getTime = (\<lambda>(l, t). (t, (l, t + 1))),
     turnConnectionSendData = (\<lambda>(l, t) b a. (STATUS_SUCCESS, (l @ [b], t))),
     socketConnectionSendData = (\<lambda>(l, t) b a. (STATUS_SUCCESS, (l @ [b], t)))\<rparr>"

definition sample_env :: "(TwccRtpPacketInfo buckets, nat, byte list list \<times> nat) media_env" where
  "sample_env = \<lparr>env_twcc = chained_table 3, env_platform = little_endian_host, env_srtp = sample_srtp, env_world = sample_world,
     env_freshPacket = sample_packet, env_garbage = (\<lambda>n. replicate n 0), env_garbage32 = (\<lambda>n. replicate n 0), env_junk = (0, 0), env_chkStatusErr = (\<lambda>st err. err)\<rparr>"

interpretation sample_transport: media_transport sample_env fst "\<lambda>x m. m @ replicate 10 (word_of_nat x)" "\<lambda>x m. x + 1"
proof (rule media_transport.intro)
  show "network_order (env_platform sample_env)" using le_host.network_order_axioms by (simp add: sample_env_def)
next
  fix m :: "byte list" and x :: nat
  assume fits: "rtp_fits m" "length m + 10 < 2 ^ 32"
  then have "12 \<le> length m" by (simp add: rtp_fits_def)
  with fits show "rtp_fits (m @ replicate 10 (word_of_nat x)) \<and> take 4 (m @ replicate 10 (word_of_nat x)) = take 4 m"
    by (auto simp: rtp_fits_def nth_append)
qed (auto simp: sample_env_def sample_world_def sample_srtp_def little_endian_host_def)

definition sample_agent :: SendingAgent where
  "sample_agent = \<lparr>agent_shutdown = False, iceAgentStatus = STATUS_SUCCESS, pDataSendingIceCandidatePair = Some
     \<lparr>local_type = Some ICE_CANDIDATE_TYPE_HOST, local_hasSocketConnection = True, local_hasTurnConnection = False,
      remote_ipAddress = \<lparr>family = 1, port = [0, 0], address = replicate 16 0, isPointToPoint = False\<rparr>,
      pair_state = ICE_CANDIDATE_PAIR_STATE_SUCCEEDED, lastDataSentTime = 0, pairDiagnostics = None\<rparr>\<rparr>"

definition sample_peer :: "(TwccRtpPacketInfo buckets, nat) KvsPeer" where
  "sample_peer = \<lparr>pSrtpSession = Some \<lparr>srtp_transmit_session = 7, srtp_receive_session = 0\<rparr>, pIceAgent = Some sample_agent, MTU = 1200,
     twccPeer = \<lparr>twccExtId = 0, transportWideSequenceNumber = 0, pTwccManager = None, hasOnSenderBandwidthEstimation = False,
       estimates = []\<rparr>\<rparr>"

definition sample_history :: RtpRollingBuffer where
  "sample_history = \<lparr>pRollingBuffer = Some \<lparr>capacity = 4, headIndex = 0, tailIndex = 0, dataBuffer = replicate 4 None,
     freeDataFn = Some freeRtpRollingBufferData\<rparr>, lastIndex = 0\<rparr>"

definition sample_sender :: RtcRtpSender where
  "sample_sender = \<lparr>snd_payloadType = 111, rtxPayloadType = 112, snd_sequenceNumber = 0, rtxSequenceNumber = 0, snd_ssrc = 9, rtxSsrc = 10,
     payloadArray = emptyPayloadArray, maxPayloadLength = 0, maxPayloadSubLenSize = 0,
     track = \<lparr>track_codec = RTC_CODEC_OPUS, track_kind = MEDIA_STREAM_TRACK_KIND_AUDIO, trackId = []\<rparr>,
     packetBuffer = Some sample_history, retransmitter = None, rtpTimeOffset = 0, firstFrameWallClockTime = 0,
     lastKnownFrameCount = 0, lastKnownFrameCountTime = 0\<rparr>"

lemma sample_sender_ok:
  "buffers_ok sample_sender" "history_ok sample_sender sample_history (the (pRollingBuffer sample_history))"
  "agent_ready sample_agent"
  by (simp_all add: buffers_ok_def history_ok_def sample_sender_def sample_history_def emptyPayloadArray_def rrb_inv_def rb_inv_def
      rrb_numbered_def GET_UINT16_SEQ_NUM_def agent_ready_def sample_agent_def)

theorem write_frame_sends_witness:
  "\<exists>pc' tr' w' ts :: nat. writeFrame sample_env ([], 100) sample_peer
     (Some (the (snd (createKvsRtpTransceiver little_endian_host (\<lambda>n. replicate n 0) SENDRECV True 9 10
        (Some (track sample_sender)) (None :: (unit, RtpReceiver) JitterBuffer option) RTC_CODEC_OPUS))\<lparr>sender := sample_sender\<rparr>))
     (Some \<lparr>frame_presentationTs = 10000, frame_frameData = [1, 2, 3], frame_size = 3, frame_index = 0, frame_isKeyFrame = False\<rparr>) =
       Some (STATUS_SUCCESS, pc', tr', w') \<and> ts \<le> 49 \<and> 47 \<le> ts \<and>
     fst w' = [[128, 239, 0, 0] @ bytes32 (word_of_nat ts) @ [0, 0, 0, 9] @ [1, 2, 3] @ replicate 10 7] \<and>
     snd_sequenceNumber (sender tr') = 1"
proof -
  let ?tr = "the (snd (createKvsRtpTransceiver little_endian_host (\<lambda>n. replicate n 0) SENDRECV True 9 10
        (Some (track sample_sender)) (None :: (unit, RtpReceiver) JitterBuffer option) RTC_CODEC_OPUS))\<lparr>sender := sample_sender\<rparr>"
  let ?frm = "\<lparr>frame_presentationTs = 10000, frame_frameData = [1, 2, 3], frame_size = 3, frame_index = 0, frame_isKeyFrame = False\<rparr> :: OutFrame"
  have codec: "payloadFuncOf (env_junk sample_env) (track_codec (track (sender ?tr))) = Some (createPayloadForOpus, 48000)"
    by (simp add: sample_sender_def payloadFuncOf_def)
  show ?thesis
    using write_frame_sends [OF sample_transport.media_transport_axioms codec opus.rtp_payloader_axioms, of sample_peer ?frm
        "[[1, 2, 3]]" sample_history "the (pRollingBuffer sample_history)" _ sample_agent 7 "([], 100)"] sample_sender_ok
    by (auto simp: opus_accepts_def sample_peer_def sample_sender_def sample_history_def twcc_counter_def media_packets_def
        media_packet_def twcc_stamp_def rtp_wire_def rtp_ext_wire_def rtp_payload_wire_def headerByte0_def headerByte1_def bytes16_def
        bytes32_def Let_def)
qed

text \<open>
  C27. The RTP timestamp.  Computed in double precision and truncated, it is at most one tick
  away from the exact conversion for every presentation time below 2^53 (28 years) and every
  clock rate used; the tick can be lost: 5 ms at 90 kHz are 450 ticks, the code computes 449.
\<close>

theorem rtp_timestamp_within_a_tick:
  assumes "pts < 2 ^ 53" "rate \<in> {90000, 48000, 8000}"
  shows "(\<exists>t. CONVERT_TIMESTAMP_TO_RTP rate pts = Some t \<and> t \<le> pts * rate div 10000000 + 1 \<and> pts * rate div 10000000 \<le> t + 1) \<and>
    CONVERT_TIMESTAMP_TO_RTP 90000 50000 = Some 449 \<and> 50000 * 90000 div 10000000 = (450 :: nat)"
proof -
  have "rate \<le> 90000" using assms(2) by auto
  moreover have "CONVERT_TIMESTAMP_TO_RTP 90000 50000 = Some 449"
  proof -
    have "dround (9 / 1000) = 5188146770730811 / 576460752303423488" by code_simp
    moreover have "dround (50000 * (5188146770730811 / 576460752303423488)) = 7916483719987199 / 17592186044416" by code_simp
    ultimately have "dround (50000 * dround (9 / 1000)) = 7916483719987199 / 17592186044416" by argo
    moreover have "CONVERT_TIMESTAMP_TO_RTP 90000 50000 = to_uint64 (dround (50000 * dround (9 / 1000)))"
      by (simp add: CONVERT_TIMESTAMP_TO_RTP_def dnat_exact dmul_def ddiv_def)
    moreover have "\<lfloor>7916483719987199 / 17592186044416 :: rat\<rfloor> = 449" by (simp add: floor_eq_iff)
    ultimately show ?thesis unfolding to_uint64_def by (simp only:) simp
  qed
  ultimately show ?thesis using rtp_timestamp_bound [OF assms(1), of rate] by simp
qed

theorem rtp_timestamp_within_a_tick_witness:
  "\<exists>t. CONVERT_TIMESTAMP_TO_RTP 48000 10000000 = Some t \<and> t \<le> 48001 \<and> 47999 \<le> t"
  using rtp_timestamp_within_a_tick [of 10000000 48000] by auto

end
