(* ===== verification/Retransmission.thy ===== *)
theory Retransmission
  imports SenderPath RtcpPacket
begin

text \<open>
  \<^verbatim>\<open>src/source/PeerConnection/Retransmitter.c\<close>, \<^verbatim>\<open>resendPacketOnNack\<close>: the answer to a generic NACK.
  The requested sequence numbers are looked up in the rolling buffer of the sender; each packet
  found is taken out, sent again (as it is when retransmission shares the payload type, otherwise as
  a retransmission packet of its own payload type and SSRC) and put back.

  The transceivers are the list of the peer connection; the result names the packets the call
  released itself, and those the rolling buffer released.
\<close>

subsection \<open>Operations\<close>

record ('t, 'x, 'n) ResendState =
  rs_peer :: "('t, 'x) KvsPeer"
  rs_sender :: RtcRtpSender
  rs_world :: 'n
  rs_packets :: nat
  rs_bytes :: nat
  rs_released :: "RtpPacket list"

text \<open>
  Sending one packet again: whether the call goes on, the status of sending, the state.
  A packet that cannot be wrapped ends the call.
\<close>

definition sendAgain ::
  "('t, 'x, 'n) media_env \<Rightarrow> RtpPacket \<Rightarrow> ('t, 'x, 'n) ResendState \<Rightarrow> (bool \<times> STATUS \<times> ('t, 'x, 'n) ResendState) option" where
  "sendAgain E pkt s =
     (let sdr = rs_sender s in
      if snd_payloadType sdr = rtxPayloadType sdr
      then do {
        (st, agent, w) \<leftarrow> iceAgentSendPacket (env_world E) (rs_world s) (pIceAgent (rs_peer s)) (pRawPacket pkt) (rawPacketLength pkt);
        Some (True, st, s\<lparr>rs_peer := (rs_peer s)\<lparr>pIceAgent := agent\<rparr>, rs_world := w\<rparr>) }
      else do {
        (st, rtx) \<leftarrow> constructRetransmitRtpPacketFromBytes (env_platform E) (env_freshPacket E) (env_garbage E) (pRawPacket pkt)
                      (rawPacketLength pkt) (rtxSequenceNumber sdr) (rtxPayloadType sdr) (rtxSsrc sdr);
        if STATUS_FAILED st then Some (False, st, s)
        else do {
          (st2, pc, w) \<leftarrow> writeRtpPacket E (rs_world s) (Some (rs_peer s)) rtx;
          pc' \<leftarrow> pc;
          Some (True, st2, s\<lparr>rs_peer := pc', rs_world := w, rs_sender := sdr\<lparr>rtxSequenceNumber := rtxSequenceNumber sdr + 1\<rparr>\<rparr>) } })"

text \<open>What a successful send records: the time, the counters, the packet for congestion control.\<close>

definition noteResent ::
  "('t, 'x, 'n) media_env \<Rightarrow> bool \<Rightarrow> RtpPacket \<Rightarrow> ('t, 'x, 'n) ResendState \<Rightarrow> (RtpPacket \<times> ('t, 'x, 'n) ResendState) option" where
  "noteResent E ok pkt s =
     (if \<not> ok then Some (pkt, s)
      else do {
        let (t, w) = getTime (env_world E) (rs_world s);
        let pkt' = pkt\<lparr>sentTime := t\<rparr>;
        (_, tw, _) \<leftarrow> twccManagerOnPacketSent (env_twcc E) (env_platform E) (Some (twccPeer (rs_peer s))) (Some pkt');
        tw' \<leftarrow> tw;
        Some (pkt', s\<lparr>rs_peer := (rs_peer s)\<lparr>twccPeer := tw'\<rparr>, rs_world := w, rs_packets := wrap32 (rs_packets s + 1),
          rs_bytes := wrap32 (rs_bytes s + sub32 (rawPacketLength pkt) (RTP_HEADER_LEN pkt))\<rparr>) })"

text \<open>
  One round of the loop.  The packet is taken out at \<^verbatim>\<open>validIndexList[index]\<close> and put back at
  \<^verbatim>\<open>sequenceNumberList[index]\<close>.
\<close>

definition resendPacket ::
  "('t, 'x, 'n) media_env \<Rightarrow> u16 list \<Rightarrow> nat list \<Rightarrow> nat \<Rightarrow> ('t, 'x, 'n) ResendState \<Rightarrow>
   (STATUS \<times> ('t, 'x, 'n) ResendState) option" where
  "resendPacket E nums ids index s =
     do {
       i \<leftarrow> rd ids index;
       rrb \<leftarrow> packetBuffer (rs_sender s);
       let (st, rb, item) = rollingBufferExtractData (pRollingBuffer rrb) i;
       if st \<noteq> STATUS_SUCCESS then None
       else (case item of
          None \<Rightarrow> Some (STATUS_SUCCESS, s\<lparr>rs_sender := (rs_sender s)\<lparr>packetBuffer := Some (rrb\<lparr>pRollingBuffer := rb\<rparr>)\<rparr>\<rparr>)
        | Some pkt \<Rightarrow> do {
            (goes_on, sendStatus, s1) \<leftarrow>
              sendAgain E pkt (s\<lparr>rs_sender := (rs_sender s)\<lparr>packetBuffer := Some (rrb\<lparr>pRollingBuffer := rb\<rparr>)\<rparr>\<rparr>);
            if \<not> goes_on then Some (sendStatus, s1\<lparr>rs_released := rs_released s1 @ [pkt]\<rparr>)
            else do {
              (pkt', s2) \<leftarrow> noteResent E (STATUS_SUCCEEDED sendStatus) pkt s1;
              sn \<leftarrow> rd nums index;
              case rollingBufferInsertData rb (unat sn) (Some pkt') of
                (st3, rb', freed) \<Rightarrow>
                  let s3 = s2\<lparr>rs_sender := (rs_sender s2)\<lparr>packetBuffer := Some (rrb\<lparr>pRollingBuffer := rb'\<rparr>)\<rparr>,
                              rs_released := rs_released s2 @ List.map_filter id freed\<rparr>
                  in if st3 = STATUS_SUCCESS then Some (STATUS_SUCCESS, s3)
                     else if st3 = STATUS_ROLLING_BUFFER_NOT_IN_RANGE
                     then Some (STATUS_SUCCESS, s3\<lparr>rs_released := rs_released s3 @ [pkt']\<rparr>)
                     else Some (st3, s3\<lparr>rs_released := rs_released s3 @ [pkt']\<rparr>) } }) }"

fun resendPackets ::
  "('t, 'x, 'n) media_env \<Rightarrow> u16 list \<Rightarrow> nat list \<Rightarrow> nat \<Rightarrow> nat \<Rightarrow> ('t, 'x, 'n) ResendState \<Rightarrow>
   (STATUS \<times> ('t, 'x, 'n) ResendState) option" where
  "resendPackets E nums ids index 0 s = Some (STATUS_SUCCESS, s)"
| "resendPackets E nums ids index (Suc n) s =
     do { (st, s') \<leftarrow> resendPacket E nums ids index s;
          if STATUS_FAILED st then Some (st, s') else resendPackets E nums ids (index + 1) n s' }"

definition noteNack :: "nat \<Rightarrow> nat \<Rightarrow> nat \<Rightarrow> 'h KvsRtpTransceiver \<Rightarrow> 'h KvsRtpTransceiver" where
  "noteNack nacks pkts bytes tr =
     (let os = outboundStats tr in
      tr\<lparr>outboundStats := os\<lparr>nackCount := wrap32 (nackCount os + nacks),
           retransmittedPacketsSent := wrap64 (retransmittedPacketsSent os + pkts),
           retransmittedBytesSent := wrap64 (retransmittedBytesSent os + bytes)\<rparr>\<rparr>)"

text \<open>The work on the transceiver found: the two lists, the loop, the counters.\<close>

definition resendFrom ::
  "('t, 'x, 'n) media_env \<Rightarrow> 'n \<Rightarrow> RtcpPacket \<Rightarrow> ('t, 'x) KvsPeer \<Rightarrow> 'h KvsRtpTransceiver \<Rightarrow>
   (STATUS \<times> ('t, 'x) KvsPeer \<times> 'h KvsRtpTransceiver \<times> 'n \<times> RtpPacket list) option" where
  "resendFrom E w pkt pc tr =
     (case retransmitter (sender tr) of
        None \<Rightarrow> Some (STATUS_INVALID_OPERATION, pc, noteNack 1 0 0 tr, w, [])
      | Some rt \<Rightarrow> do {
          (st, _, _, nums, filledLen) \<leftarrow> rtcpNackListGet (env_platform E) (Some (rtcpPayload pkt)) (rtcpPayloadLength pkt)
                                          (Some (sequenceNumberList rt)) (seqNumListLen rt);
          nums' \<leftarrow> nums;
          let rt1 = rt\<lparr>sequenceNumberList := nums'\<rparr>;
          let sdr1 = (sender tr)\<lparr>retransmitter := Some rt1\<rparr>;
          if STATUS_FAILED st then Some (st, pc, noteNack 1 0 0 (tr\<lparr>sender := sdr1\<rparr>), w, [])
          else do {
            (st2, ids, n) \<leftarrow> rtpRollingBufferGetValidSeqIndexList (packetBuffer sdr1) (Some nums') filledLen
                              (Some (validIndexList rt1)) (Some (validIndexListLen rt1));
            ids' \<leftarrow> ids;
            count \<leftarrow> n;
            let sdr2 = sdr1\<lparr>retransmitter := Some (rt1\<lparr>validIndexList := ids'\<rparr>)\<rparr>;
            if STATUS_FAILED st2 then Some (st2, pc, noteNack 1 0 0 (tr\<lparr>sender := sdr2\<rparr>), w, [])
            else do {
              (st3, s) \<leftarrow> resendPackets E nums' ids' 0 count
                           \<lparr>rs_peer = pc, rs_sender = sdr2, rs_world = w, rs_packets = 0, rs_bytes = 0, rs_released = []\<rparr>;
              Some (st3, rs_peer s, noteNack 1 (rs_packets s) (rs_bytes s) (tr\<lparr>sender := rs_sender s\<rparr>), rs_world s, rs_released s) } } })"

text \<open>
  When only the second search finds a transceiver, the status of the first is still checked
  afterwards: the request fails with \<^verbatim>\<open>STATUS_NOT_FOUND\<close>.
\<close>

definition resendPacketOnNack ::
  "('t, 'x, 'n) media_env \<Rightarrow> 'n \<Rightarrow> RtcpPacket option \<Rightarrow> ('t, 'x) KvsPeer option \<Rightarrow> 'h KvsRtpTransceiver list \<Rightarrow>
   (STATUS \<times> ('t, 'x) KvsPeer option \<times> 'h KvsRtpTransceiver list \<times> 'n \<times> RtpPacket list) option" where
  "resendPacketOnNack E w pRtcpPacket pPeer trs =
     (case (pPeer, pRtcpPacket) of
        (Some pc, Some pkt) \<Rightarrow> do {
          (st, senderSsrc, receiverSsrc, _, _) \<leftarrow>
            rtcpNackListGet (env_platform E) (Some (rtcpPayload pkt)) (rtcpPayloadLength pkt) None 0;
          if STATUS_FAILED st then Some (st, Some pc, trs, w, [])
          else (case findTransceiverBySsrc (Some trs) receiverSsrc of
             (_, Some k) \<Rightarrow> do {
               (st2, pc', tr', w', released) \<leftarrow> resendFrom E w pkt pc (trs ! k);
               Some (st2, Some pc', trs[k := tr'], w', released) }
           | (st1, None) \<Rightarrow>
               (case findTransceiverBySsrc (Some trs) senderSsrc of
                  (st2, None) \<Rightarrow> Some (env_chkStatusErr E st2 STATUS_RTCP_INPUT_SSRC_INVALID, Some pc, trs, w, [])
                | (_, Some k) \<Rightarrow> Some (st1, Some pc, trs[k := noteNack 0 0 0 (trs ! k)], w, []))) }
      | _ \<Rightarrow> Some (STATUS_NULL_ARG, pPeer, trs, w, []))"

subsection \<open>What goes out\<close>

text \<open>
  A packet that can be sent again, the raw bytes kept under an index, and the datagrams of a
  sequence of raw packets.
\<close>

definition resendable :: "RtpPacket \<Rightarrow> bool" where
  "resendable pk \<longleftrightarrow>
     (case pRawPacket pk of
        None \<Rightarrow> False
      | Some raw \<Rightarrow> rawPacketLength pk = length raw \<and> rtp_fits raw \<and> length raw + 12 < 2 ^ 32) \<and>
     (extensionProfile (header pk) = TWCC_EXT_PROFILE \<longrightarrow>
        (case extensionPayload (header pk) of None \<Rightarrow> False | Some e \<Rightarrow> 4 \<le> length e))"

definition raw_at :: "RtpPacket RollingBuffer \<Rightarrow> nat \<Rightarrow> byte list" where
  "raw_at rb i = the (pRawPacket (the (window rb ! (i - tailIndex rb))))"

fun rtx_wires :: "byte \<Rightarrow> u32 \<Rightarrow> u16 \<Rightarrow> byte list list \<Rightarrow> byte list list" where
  "rtx_wires pt ss sn [] = []"
| "rtx_wires pt ss sn (raw # raws) = rtx_wire pt ss sn raw # rtx_wires pt ss (sn + 1) raws"

definition resent ::
  "('x \<Rightarrow> byte list \<Rightarrow> byte list) \<Rightarrow> ('x \<Rightarrow> byte list \<Rightarrow> 'x) \<Rightarrow> RtcRtpSender \<Rightarrow> 'x \<Rightarrow> byte list list \<Rightarrow> byte list list" where
  "resent seal advance sdr x raws =
     (if snd_payloadType sdr = rtxPayloadType sdr then raws
      else sealed seal advance x (rtx_wires (rtxPayloadType sdr) (rtxSsrc sdr) (rtxSequenceNumber sdr) raws))"

text \<open>A slot and a window without the times of sending.\<close>

definition timeless :: "RtpPacket option \<Rightarrow> RtpPacket option" where
  "timeless p = map_option (\<lambda>p. p\<lparr>sentTime := 0\<rparr>) p"

definition untimed :: "RtpPacket option list \<Rightarrow> RtpPacket option list" where
  "untimed ps = map timeless ps"

lemma timeless_resent [simp]: "timeless (Some (p\<lparr>sentTime := t\<rparr>)) = timeless (Some p)"
  by (simp add: timeless_def)

lemma timeless_None [simp]: "timeless p = None \<longleftrightarrow> p = None" "timeless None = None"
  by (simp_all add: timeless_def)

lemma timeless_packet:
  assumes "timeless p = timeless (Some q)" "resendable q"
  obtains q' where "p = Some q'" "resendable q'" "pRawPacket q' = pRawPacket q"
proof -
  from assms(1) obtain q' where q': "p = Some q'" "q'\<lparr>sentTime := 0\<rparr> = q\<lparr>sentTime := 0\<rparr>" by (auto simp: timeless_def)
  have "q' = q'\<lparr>sentTime := 0\<rparr>\<lparr>sentTime := sentTime q'\<rparr>" by simp
  also have "\<dots> = q\<lparr>sentTime := sentTime q'\<rparr>" by (simp add: q'(2))
  finally obtain t where "q' = q\<lparr>sentTime := t\<rparr>" by blast
  then show ?thesis using that q'(1) assms(2) by (auto simp: resendable_def split: option.splits)
qed

text \<open>The connection can send, with the given SRTP session.\<close>

definition connected :: "('t, 'x) KvsPeer \<Rightarrow> 'x SrtpSession \<Rightarrow> bool" where
  "connected pc sess \<longleftrightarrow> pSrtpSession pc = Some sess \<and> (\<exists>ag. pIceAgent pc = Some ag \<and> agent_ready ag)"

lemma twcc_resent_total:
  assumes "resendable pkt"
  shows "\<exists>st tw' freed. twccManagerOnPacketSent H P (Some tw) (Some (pkt\<lparr>sentTime := t\<rparr>)) = Some (st, Some tw', freed)"
  using assms
  by (auto simp: resendable_def twccManagerOnPacketSent_def TWCC_SEQNUM_def rdUnalignedInt16_def twccRollingWindowDeletion_def Let_def
      split: option.splits prod.splits sum.splits if_splits)

context media_transport
begin

lemma writeRtpPacket_ok:
  assumes "connected pc sess" "pRawPacket pkt = Some raw" "rawPacketLength pkt = length raw" "0 < length raw" "length raw + 10 < 2 ^ 32"
  shows "\<exists>pc' w'. writeRtpPacket E w (Some pc) (Some pkt) = Some (STATUS_SUCCESS, Some pc', w') \<and>
    connected pc' (sess\<lparr>srtp_transmit_session := advance (srtp_transmit_session sess) raw\<rparr>) \<and>
    datagrams w' = datagrams w @ [seal (srtp_transmit_session sess) raw]"
proof -
  let ?x = "srtp_transmit_session sess"
  define rest where "rest = drop (length raw) (env_garbage E (length raw + 10))"
  have "length rest = 10" by (simp add: rest_def fresh_length)
  then obtain tail where enc: "srtp_protect (env_srtp E) ?x (raw @ rest) (length raw) =
      (True, seal ?x raw @ tail, length (seal ?x raw), advance ?x raw)"
    using protects [of "length raw" "raw @ rest" ?x] by auto
  obtain ag where ag: "pSrtpSession pc = Some sess" "pIceAgent pc = Some ag" "agent_ready ag"
    using assms(1) by (auto simp: connected_def)
  have "0 < length (seal ?x raw)" using assms(4) seal_length(1) [of raw ?x] by linarith
  from iceAgentSendPacket_ok [OF ag(3) this, of "seal ?x raw @ tail" w] obtain ag' w' where send:
    "iceAgentSendPacket (env_world E) w (Some ag) (Some (seal ?x raw @ tail)) (length (seal ?x raw)) = Some (STATUS_SUCCESS, Some ag', w')"
    "agent_ready ag'" "datagrams w' = datagrams w @ [seal ?x raw]"
    by auto
  have "rdn raw 0 (length raw) = Some raw" "wrap32 (length raw + 10) = length raw + 10"
    using assms(5) by (simp_all add: rdn_in)
  then show ?thesis
    using assms(2,3) ag send enc
    by (simp add: writeRtpPacket_def allocates rest_def [symmetric] encryptRtpPacket_def connected_def Let_def)
qed

lemma sendAgain_ok:
  assumes "resendable pk" "connected (rs_peer s) sess" "rtxPayloadType (rs_sender s) < 128"
    and "raw = the (pRawPacket pk)" "sdr = rs_sender s" "same = (snd_payloadType sdr = rtxPayloadType sdr)"
    and "m = rtx_wire (rtxPayloadType sdr) (rtxSsrc sdr) (rtxSequenceNumber sdr) raw" "x = srtp_transmit_session sess"
  shows "\<exists>pc' w'. sendAgain E pk s = Some (True, STATUS_SUCCESS, s\<lparr>rs_peer := pc', rs_world := w',
      rs_sender := sdr\<lparr>rtxSequenceNumber := rtxSequenceNumber sdr + (if same then 0 else 1)\<rparr>\<rparr>) \<and>
    connected pc' (if same then sess else sess\<lparr>srtp_transmit_session := advance x m\<rparr>) \<and>
    datagrams w' = datagrams (rs_world s) @ [if same then raw else seal x m]"
proof -
  have raw: "pRawPacket pk = Some raw" "rawPacketLength pk = length raw" "rtp_fits raw" "length raw + 12 < 2 ^ 32"
    using assms(1,4) by (auto simp: resendable_def split: option.splits)
  then have pos: "0 < length raw" by (auto simp: rtp_fits_def)
  show ?thesis
  proof (cases same)
    case True
    obtain ag where ag: "pSrtpSession (rs_peer s) = Some sess" "pIceAgent (rs_peer s) = Some ag" "agent_ready ag"
      using assms(2) by (auto simp: connected_def)
    from iceAgentSendPacket_ok [OF ag(3) pos, of raw "rs_world s"] obtain ag' w' where send:
      "iceAgentSendPacket (env_world E) (rs_world s) (Some ag) (Some raw) (length raw) = Some (STATUS_SUCCESS, Some ag', w')"
      "agent_ready ag'" "datagrams w' = datagrams (rs_world s) @ [raw]"
      by auto
    then have "sendAgain E pk s = Some (True, STATUS_SUCCESS, s\<lparr>rs_peer := (rs_peer s)\<lparr>pIceAgent := Some ag'\<rparr>, rs_world := w'\<rparr>)"
      using True raw ag by (simp add: sendAgain_def assms(5,6))
    then show ?thesis
      using True send ag assms(5)
      by (intro exI [of _ "(rs_peer s)\<lparr>pIceAgent := Some ag'\<rparr>"] exI [of _ w']) (simp add: connected_def)
  next
    case False
    obtain pk1 where parse: "setRtpPacketFromBytes (env_platform E) (Some raw) (length raw) (Some (env_freshPacket E)) =
        Some (STATUS_SUCCESS, Some pk1)" "wf_rtp pk1" "rtp_wire pk1 = raw"
      using network_order.rtp_fits_parse [OF host raw(3)] by blast
    have len: "length raw + 2 < 2 ^ 32" using raw(4) by simp
    note rtx = network_order.constructRetransmitRtpPacketFromBytes_ok
      [where sn = "rtxSequenceNumber sdr" and ss = "rtxSsrc sdr" and garbage = "env_garbage E",
       OF host allocates fresh_length raw(3) len assms(3) parse(1), unfolded rtx_packet_wire [OF parse(2)] parse(3),
       folded assms(5), folded assms(7)]
    from rtx(1) obtain rp where rp: "constructRetransmitRtpPacketFromBytes (env_platform E) (env_freshPacket E) (env_garbage E)
        (Some raw) (length raw) (rtxSequenceNumber sdr) (rtxPayloadType sdr) (rtxSsrc sdr) = Some (STATUS_SUCCESS, Some rp)"
      "pRawPacket rp = Some m" "rawPacketLength rp = length m"
      using rtx(3) by auto
    have "0 < length m" "length m + 10 < 2 ^ 32" using rtx(3) raw(4) by simp_all
    from writeRtpPacket_ok [OF assms(2) rp(2,3) this, of "rs_world s"] obtain pc' w' where
      "writeRtpPacket E (rs_world s) (Some (rs_peer s)) (Some rp) = Some (STATUS_SUCCESS, Some pc', w')"
      "connected pc' (sess\<lparr>srtp_transmit_session := advance x m\<rparr>)" "datagrams w' = datagrams (rs_world s) @ [seal x m]"
      using assms(8) by blast
    then show ?thesis
      using False raw rp(1) assms(5,6)
      by (intro exI [of _ pc'] exI [of _ w']) (simp add: sendAgain_def Let_def)
  qed
qed


text \<open>
  One round up to the put-back: the packet is out of the window and \<open>pk\<lparr>sentTime := t\<rparr>\<close> is about
  to be stored under the requested number.
\<close>

lemma resendPacket_sent:
  assumes s: "packetBuffer (rs_sender s) = Some rrb" "pRollingBuffer rrb = Some rb" "rb_inv rb" "connected (rs_peer s) sess"
      "rtxPayloadType (rs_sender s) < 128"
    and i: "rd ids k = Some i" "rd nums k = Some sn" "tailIndex rb \<le> i" "i < headIndex rb"
    and pk: "window rb ! (i - tailIndex rb) = Some pk" "resendable pk"
    and d: "raw = the (pRawPacket pk)" "sdr = rs_sender s" "same = (snd_payloadType sdr = rtxPayloadType sdr)"
      "m = rtx_wire (rtxPayloadType sdr) (rtxSsrc sdr) (rtxSequenceNumber sdr) raw" "x = srtp_transmit_session sess"
  shows "\<exists>rb1 s2 t. resendPacket E nums ids k s =
      (case rollingBufferInsertData (Some rb1) (unat sn) (Some (pk\<lparr>sentTime := t\<rparr>)) of
         (st3, rb', freed) \<Rightarrow>
           let s3 = s2\<lparr>rs_sender := (rs_sender s2)\<lparr>packetBuffer := Some (rrb\<lparr>pRollingBuffer := rb'\<rparr>)\<rparr>,
                       rs_released := rs_released s2 @ List.map_filter id freed\<rparr>
           in if st3 = STATUS_SUCCESS then Some (STATUS_SUCCESS, s3)
              else if st3 = STATUS_ROLLING_BUFFER_NOT_IN_RANGE
              then Some (STATUS_SUCCESS, s3\<lparr>rs_released := rs_released s3 @ [pk\<lparr>sentTime := t\<rparr>]\<rparr>)
              else Some (st3, s3\<lparr>rs_released := rs_released s3 @ [pk\<lparr>sentTime := t\<rparr>]\<rparr>)) \<and>
    rb_inv rb1 \<and> window rb1 = (window rb)[i - tailIndex rb := None] \<and> tailIndex rb1 = tailIndex rb \<and>
    headIndex rb1 = headIndex rb \<and> freeDataFn rb1 = freeDataFn rb \<and>
    (\<exists>b. rs_sender s2 = sdr\<lparr>packetBuffer := b, rtxSequenceNumber := rtxSequenceNumber sdr + (if same then 0 else 1)\<rparr>) \<and>
    rs_released s2 = rs_released s \<and> rs_packets s2 = wrap32 (rs_packets s + 1) \<and>
    connected (rs_peer s2) (if same then sess else sess\<lparr>srtp_transmit_session := advance x m\<rparr>) \<and>
    datagrams (rs_world s2) = datagrams (rs_world s) @ [if same then raw else seal x m]"
proof -
  from rollingBufferExtractData_in [OF s(3) i(3,4)] obtain rb1 where rb1:
    "rollingBufferExtractData (Some rb) i = (STATUS_SUCCESS, Some rb1, Some pk)" "rb_inv rb1"
    "window rb1 = (window rb)[i - tailIndex rb := None]" "tailIndex rb1 = tailIndex rb" "headIndex rb1 = headIndex rb"
    "freeDataFn rb1 = freeDataFn rb"
    using pk(1) by auto
  define s1 where "s1 = s\<lparr>rs_sender := sdr\<lparr>packetBuffer := Some (rrb\<lparr>pRollingBuffer := Some rb1\<rparr>)\<rparr>\<rparr>"
  have f1: "rs_sender s1 = sdr\<lparr>packetBuffer := Some (rrb\<lparr>pRollingBuffer := Some rb1\<rparr>)\<rparr>" "rs_peer s1 = rs_peer s"
    "rs_world s1 = rs_world s" "rs_released s1 = rs_released s" "rs_packets s1 = rs_packets s"
    by (simp_all add: s1_def)
  have same: "same = (snd_payloadType (rs_sender s1) = rtxPayloadType (rs_sender s1))"
    "m = rtx_wire (rtxPayloadType (rs_sender s1)) (rtxSsrc (rs_sender s1)) (rtxSequenceNumber (rs_sender s1)) raw"
    "rtxSequenceNumber (rs_sender s1) = rtxSequenceNumber sdr"
    by (simp_all add: f1 d(3,4))
  have "connected (rs_peer s1) sess" "rtxPayloadType (rs_sender s1) < 128" using s(4,5) d(2) f1 by simp_all
  from sendAgain_ok [OF pk(2) this d(1) refl same(1,2) d(5), unfolded same(3)] obtain pc' w' where sa:
    "sendAgain E pk s1 = Some (True, STATUS_SUCCESS, s1\<lparr>rs_peer := pc', rs_world := w',
      rs_sender := (rs_sender s1)\<lparr>rtxSequenceNumber := rtxSequenceNumber sdr + (if same then 0 else 1)\<rparr>\<rparr>)"
    "connected pc' (if same then sess else sess\<lparr>srtp_transmit_session := advance x m\<rparr>)"
    "datagrams w' = datagrams (rs_world s) @ [if same then raw else seal x m]"
    unfolding f1(3) by blast
  obtain t w2 where t: "getTime (env_world E) w' = (t, w2)" by fastforce
  obtain st tw freed where tw: "twccManagerOnPacketSent (env_twcc E) (env_platform E) (Some (twccPeer pc')) (Some (pk\<lparr>sentTime := t\<rparr>)) =
      Some (st, Some tw, freed)"
    using twcc_resent_total [OF pk(2)] by metis
  define s2 where "s2 = s1\<lparr>rs_peer := pc'\<lparr>twccPeer := tw\<rparr>, rs_world := w2,
      rs_sender := (rs_sender s1)\<lparr>rtxSequenceNumber := rtxSequenceNumber sdr + (if same then 0 else 1)\<rparr>,
      rs_packets := wrap32 (rs_packets s + 1),
      rs_bytes := wrap32 (rs_bytes s1 + sub32 (rawPacketLength pk) (RTP_HEADER_LEN pk))\<rparr>"
  have nr: "noteResent E True pk (s1\<lparr>rs_peer := pc', rs_world := w',
      rs_sender := (rs_sender s1)\<lparr>rtxSequenceNumber := rtxSequenceNumber sdr + (if same then 0 else 1)\<rparr>\<rparr>) = Some (pk\<lparr>sentTime := t\<rparr>, s2)"
    using t tw f1(5) by (simp add: noteResent_def s2_def)
  have "connected (pc'\<lparr>twccPeer := tw\<rparr>) sess'" if "connected pc' sess'" for sess' using that by (simp add: connected_def)
  then have "connected (rs_peer s2) (if same then sess else sess\<lparr>srtp_transmit_session := advance x m\<rparr>)"
    using sa(2) by (simp add: s2_def)
  moreover have "datagrams (rs_world s2) = datagrams (rs_world s) @ [if same then raw else seal x m]"
    using clock_silent [of w'] t sa(3) by (simp add: s2_def)
  moreover have "\<exists>b. rs_sender s2 = sdr\<lparr>packetBuffer := b, rtxSequenceNumber := rtxSequenceNumber sdr + (if same then 0 else 1)\<rparr>"
    by (intro exI [of _ "Some (rrb\<lparr>pRollingBuffer := Some rb1\<rparr>)"]) (simp add: s2_def f1)
  ultimately show ?thesis
    using s(1,2) i(1,2) rb1 sa(1) nr f1
    by (intro exI [of _ rb1] exI [of _ s2] exI [of _ t])
      (simp add: resendPacket_def d(2) [symmetric] s1_def [symmetric] s2_def)
qed

text \<open>
  The whole round: the packet moves from its index to the number of the request, or is released
  when that number is outside the window.
\<close>

lemma resendPacket_moves:
  assumes s: "packetBuffer (rs_sender s) = Some rrb" "pRollingBuffer rrb = Some rb" "rb_inv rb" "connected (rs_peer s) sess"
      "rtxPayloadType (rs_sender s) < 128"
    and i: "rd ids k = Some i" "rd nums k = Some sn" "tailIndex rb \<le> i" "i < headIndex rb"
    and pk: "window rb ! (i - tailIndex rb) = Some pk" "resendable pk"
    and d: "raw = the (pRawPacket pk)" "sdr = rs_sender s" "same = (snd_payloadType sdr = rtxPayloadType sdr)"
      "m = rtx_wire (rtxPayloadType sdr) (rtxSsrc sdr) (rtxSequenceNumber sdr) raw" "x = srtp_transmit_session sess"
    and free: "keeps \<Longrightarrow> unat sn = i \<or> window rb ! (unat sn - tailIndex rb) = None"
    and keeps: "keeps = (unat sn \<in> {tailIndex rb..<headIndex rb})"
  shows "\<exists>rb2 s3 t. resendPacket E nums ids k s = Some (STATUS_SUCCESS, s3) \<and> rb_inv rb2 \<and>
    window rb2 = (if keeps then (window rb)[i - tailIndex rb := None, unat sn - tailIndex rb := Some (pk\<lparr>sentTime := t\<rparr>)]
      else (window rb)[i - tailIndex rb := None]) \<and>
    tailIndex rb2 = tailIndex rb \<and> headIndex rb2 = headIndex rb \<and> freeDataFn rb2 = freeDataFn rb \<and>
    rs_sender s3 = sdr\<lparr>packetBuffer := Some (rrb\<lparr>pRollingBuffer := Some rb2\<rparr>),
      rtxSequenceNumber := rtxSequenceNumber sdr + (if same then 0 else 1)\<rparr> \<and>
    rs_released s3 = rs_released s @ (if keeps then [] else [pk\<lparr>sentTime := t\<rparr>]) \<and>
    rs_packets s3 = wrap32 (rs_packets s + 1) \<and>
    connected (rs_peer s3) (if same then sess else sess\<lparr>srtp_transmit_session := advance x m\<rparr>) \<and>
    datagrams (rs_world s3) = datagrams (rs_world s) @ [if same then raw else seal x m]"
proof -
  from resendPacket_sent [OF s i pk d] obtain rb1 s2 t b where r:
    "resendPacket E nums ids k s =
      (case rollingBufferInsertData (Some rb1) (unat sn) (Some (pk\<lparr>sentTime := t\<rparr>)) of
         (st3, rb', freed) \<Rightarrow>
           let s3 = s2\<lparr>rs_sender := (rs_sender s2)\<lparr>packetBuffer := Some (rrb\<lparr>pRollingBuffer := rb'\<rparr>)\<rparr>,
                       rs_released := rs_released s2 @ List.map_filter id freed\<rparr>
           in if st3 = STATUS_SUCCESS then Some (STATUS_SUCCESS, s3)
              else if st3 = STATUS_ROLLING_BUFFER_NOT_IN_RANGE
              then Some (STATUS_SUCCESS, s3\<lparr>rs_released := rs_released s3 @ [pk\<lparr>sentTime := t\<rparr>]\<rparr>)
              else Some (st3, s3\<lparr>rs_released := rs_released s3 @ [pk\<lparr>sentTime := t\<rparr>]\<rparr>))"
    "rb_inv rb1" "window rb1 = (window rb)[i - tailIndex rb := None]" "tailIndex rb1 = tailIndex rb"
    "headIndex rb1 = headIndex rb" "freeDataFn rb1 = freeDataFn rb"
    "rs_sender s2 = sdr\<lparr>packetBuffer := b, rtxSequenceNumber := rtxSequenceNumber sdr + (if same then 0 else 1)\<rparr>"
    "rs_released s2 = rs_released s" "rs_packets s2 = wrap32 (rs_packets s + 1)"
    "connected (rs_peer s2) (if same then sess else sess\<lparr>srtp_transmit_session := advance x m\<rparr>)"
    "datagrams (rs_world s2) = datagrams (rs_world s) @ [if same then raw else seal x m]"
    by blast
  show ?thesis
  proof (cases keeps)
    case True
    then have in1: "tailIndex rb1 \<le> unat sn" "unat sn < headIndex rb1" using keeps r(4,5) by simp_all
    have "i - tailIndex rb < length (window rb)" using i by auto
    then have "window rb1 ! (unat sn - tailIndex rb1) = None" using free [OF True] r(3,4) by (auto simp: nth_list_update)
    with rollingBufferInsertData_in [OF r(2) in1, of "Some (pk\<lparr>sentTime := t\<rparr>)"] obtain rb2 where
      "rollingBufferInsertData (Some rb1) (unat sn) (Some (pk\<lparr>sentTime := t\<rparr>)) = (STATUS_SUCCESS, Some rb2, [])" "rb_inv rb2"
      "window rb2 = (window rb)[i - tailIndex rb := None, unat sn - tailIndex rb := Some (pk\<lparr>sentTime := t\<rparr>)]"
      "tailIndex rb2 = tailIndex rb" "headIndex rb2 = headIndex rb" "freeDataFn rb2 = freeDataFn rb"
      using r(3-6) by auto
    then show ?thesis using True r
      by (intro exI [of _ rb2] exI [of _ "s2\<lparr>rs_sender := (rs_sender s2)\<lparr>packetBuffer := Some (rrb\<lparr>pRollingBuffer := Some rb2\<rparr>)\<rparr>\<rparr>"]
          exI [of _ t]) (simp add: map_filter_simps)
  next
    case False
    then have "\<not> (tailIndex rb1 \<le> unat sn \<and> unat sn < headIndex rb1)" using keeps r(4,5) by simp
    then show ?thesis using False r
      by (intro exI [of _ rb1] exI [of _ "s2\<lparr>rs_sender := (rs_sender s2)\<lparr>packetBuffer := Some (rrb\<lparr>pRollingBuffer := Some rb1\<rparr>)\<rparr>,
            rs_released := rs_released s2 @ [pk\<lparr>sentTime := t\<rparr>]\<rparr>"] exI [of _ t])
        (simp add: rollingBufferInsertData_out map_filter_simps)
  qed
qed

end

text \<open>All packets of the window can be sent again.\<close>

definition all_resendable :: "RtpPacket option list \<Rightarrow> bool" where
  "all_resendable ps \<longleftrightarrow> (\<forall>k < length ps. \<exists>pk. ps ! k = Some pk \<and> resendable pk)"

subsection \<open>Where the packets are put back\<close>

text \<open>
  The loop pairs the indices \<open>is\<close> found in the window with the numbers \<open>ds\<close> of the request by
  position.  \<open>put_back\<close> is the slot \<open>n\<close> of a window that starts at \<open>start\<close> after these rounds: the
  packet that was last put there, nothing when its own packet was only taken out, its packet
  otherwise.
\<close>

definition put_back :: "nat \<Rightarrow> 'a option list \<Rightarrow> nat list \<Rightarrow> nat list \<Rightarrow> nat \<Rightarrow> 'a option" where
  "put_back start ps ds is n =
     (case map_of (rev (zip ds is)) n of
        Some i \<Rightarrow> ps ! (i - start)
      | None \<Rightarrow> if n \<in> set is then None else ps ! (n - start))"

lemma map_of_zip_absent: "n \<notin> set ds \<Longrightarrow> map_of (rev (zip ds is)) n = None"
  by (auto simp: map_of_eq_None_iff dest: set_zip_leftD)

lemma put_back_step:
  assumes "k < length ds" "k < length is" "is ! k \<noteq> ds ! k \<Longrightarrow> is ! k \<notin> set (take k ds)"
  shows "put_back start ps (take (Suc k) ds) (take (Suc k) is) n =
    (if n = ds ! k then ps ! (is ! k - start) else if n = is ! k then None else put_back start ps (take k ds) (take k is) n)"
proof -
  have "zip (take (Suc k) ds) (take (Suc k) is) = zip (take k ds) (take k is) @ [(ds ! k, is ! k)]"
    using assms(1,2) by (simp add: take_Suc_conv_app_nth)
  moreover have "map_of (rev (zip (take k ds) (take k is))) n = None" if "n = is ! k" "n \<noteq> ds ! k"
    using assms(3) that by (simp add: map_of_zip_absent)
  ultimately show ?thesis using assms(2) by (auto simp: put_back_def take_Suc_conv_app_nth split: option.split)
qed

lemma map_of_zip_self: "map_of (rev (zip xs xs)) n = (if n \<in> set xs then Some n else None)"
  by (induction xs rule: rev_induct) auto

lemma put_back_self: "put_back start ps is is n = ps ! (n - start)"
  by (simp add: put_back_def map_of_zip_self)

lemma filter_take_prefix:
  obtains m where "m \<le> k" "filter P (take k ds) = take m (filter P ds)"
proof -
  have "filter P ds = filter P (take k ds) @ filter P (drop k ds)" by (simp flip: filter_append)
  then have "filter P (take k ds) = take (length (filter P (take k ds))) (filter P ds)" by simp
  moreover have "length (filter P (take k ds)) \<le> k" using length_filter_le [of P "take k ds"] by simp
  ultimately show ?thesis using that by blast
qed

text \<open>
  When its turn comes, the slot of a requested index still holds its packet, and the slot it is
  put back into is its own or empty: no packet is overwritten.
\<close>

lemma put_back_turn:
  assumes "is = filter P ds" "distinct ds \<or> is = ds" "k < length is" "i = is ! k" "d = ds ! k"
  shows "put_back start ps (take k ds) (take k is) i = ps ! (i - start)"
    and "i \<noteq> d \<Longrightarrow> i \<notin> set (take k ds)"
    and "P d \<Longrightarrow> d = i \<or> put_back start ps (take k ds) (take k is) d = None"
proof -
  consider "is = ds" | "distinct ds" using assms(2) by blast
  then have "put_back start ps (take k ds) (take k is) i = ps ! (i - start) \<and> (i \<noteq> d \<longrightarrow> i \<notin> set (take k ds)) \<and>
    (P d \<longrightarrow> d = i \<or> put_back start ps (take k ds) (take k is) d = None)"
  proof cases
    case 2
    then have dis: "distinct is" using assms(1) by simp
    have kd: "k < length ds" using less_le_trans [OF assms(3) [unfolded assms(1)] length_filter_le] .
    have later: "i \<notin> set (take k is)" using dis assms(3,4) by (auto simp: in_set_conv_nth nth_eq_iff_index_eq)
    have P: "P i" using assms(1,3,4) nth_mem [of k "is"] by auto
    obtain m where "m \<le> k" "filter P (take k ds) = take m is" by (rule filter_take_prefix [of k P ds, folded assms(1)])
    then have "set (filter P (take k ds)) \<subseteq> set (take k is)" using set_take_subset_set_take [of m k "is"] by simp
    then have fresh: "i \<notin> set (take k ds)" using later P by auto
    have "d \<notin> set (take k ds)" using 2 kd assms(5) by (auto simp: in_set_conv_nth nth_eq_iff_index_eq)
    moreover have "d = i \<or> d \<in> set (take k is)" if "P d"
    proof -
      obtain m where m: "m \<le> Suc k" "filter P (take (Suc k) ds) = take m is"
        by (rule filter_take_prefix [of "Suc k" P ds, folded assms(1)])
      have "d \<in> set (filter P (take (Suc k) ds))" using that kd assms(5) by (simp add: take_Suc_conv_app_nth)
      then have "d \<in> set (take (Suc k) is)" using m set_take_subset_set_take [of m "Suc k" "is"] by auto
      then show ?thesis using assms(3,4) by (auto simp: take_Suc_conv_app_nth)
    qed
    ultimately show ?thesis using fresh later
      by (auto simp: put_back_def map_of_zip_absent)
  qed (use assms in \<open>simp add: put_back_self\<close>)
  then show "put_back start ps (take k ds) (take k is) i = ps ! (i - start)" "i \<noteq> d \<Longrightarrow> i \<notin> set (take k ds)"
    "P d \<Longrightarrow> d = i \<or> put_back start ps (take k ds) (take k is) d = None" by auto
qed

text \<open>
  The rounds from \<open>k\<close> on, in a window whose packets were \<open>ps\<close> before the first round.
\<close>

context media_transport
begin

lemma resendPackets_moved:
  assumes "packetBuffer (rs_sender s) = Some rrb" "pRollingBuffer rrb = Some rb" "rb_inv rb" "connected (rs_peer s) sess"
    and "rtxPayloadType (rs_sender s) < 128" "same = (snd_payloadType (rs_sender s) = rtxPayloadType (rs_sender s))"
    and "tailIndex rb = a" "headIndex rb = b" "k + m = length is" "rs_packets s < 2 ^ 32"
    and "\<And>n. n \<in> {a..<b} \<Longrightarrow> timeless (window rb ! (n - a)) = timeless (put_back a ps (take k ds) (take k is) n)"
    and ds: "ds = map unat sns" "is = filter (\<lambda>d. d \<in> {a..<b}) ds" "distinct ds \<or> is = ds"
    and ps: "\<And>i. i \<in> set is \<Longrightarrow> \<exists>pk. ps ! (i - a) = Some pk \<and> resendable pk"
    and rd: "\<And>j. j < length is \<Longrightarrow> rd nums j = Some (sns ! j) \<and> rd ids j = Some (is ! j)"
    and raw: "raw = (\<lambda>i. the (pRawPacket (the (ps ! (i - a)))))"
  shows "\<exists>s' rb' sess'. resendPackets E nums ids k m s = Some (STATUS_SUCCESS, s') \<and>
    rs_sender s' = (rs_sender s)\<lparr>packetBuffer := Some (rrb\<lparr>pRollingBuffer := Some rb'\<rparr>),
      rtxSequenceNumber := rtxSequenceNumber (rs_sender s) + (if same then 0 else word_of_nat m)\<rparr> \<and>
    rb_inv rb' \<and> tailIndex rb' = a \<and> headIndex rb' = b \<and> freeDataFn rb' = freeDataFn rb \<and>
    (\<forall>n \<in> {a..<b}. timeless (window rb' ! (n - a)) = timeless (put_back a ps ds is n)) \<and>
    connected (rs_peer s') sess' \<and> rs_packets s' = wrap32 (rs_packets s + m) \<and>
    map pRawPacket (rs_released s') = map pRawPacket (rs_released s) @
      map (Some \<circ> raw \<circ> snd) (filter (\<lambda>(d, i). d \<notin> {a..<b}) (zip (drop k ds) (drop k is))) \<and>
    datagrams (rs_world s') = datagrams (rs_world s) @
      resent seal advance (rs_sender s) (srtp_transmit_session sess) (map raw (drop k is))"
  using assms(1-11)
proof (induction m arbitrary: s rrb rb sess k)
  case 0
  have "rrb\<lparr>pRollingBuffer := Some rb\<rparr> = rrb" using 0 by (cases rrb) simp
  moreover have "put_back a ps (take k ds) (take k is) n = put_back a ps ds is n" for n
    using 0(9) take_all [of "zip ds is" k] by (simp add: put_back_def take_zip)
  ultimately show ?case using 0
    by (intro exI [of _ s] exI [of _ rb] exI [of _ sess]) (simp add: resent_def)
next
  case (Suc m)
  let ?sdr = "rs_sender s" and ?x = "srtp_transmit_session sess"
  define i d where "i = is ! k" and "d = ds ! k"
  have k: "k < length is" using Suc.prems(9) by simp
  then have kd: "k < length ds" using less_le_trans length_filter_le ds(2) by blast
  have i: "i \<in> set is" "a \<le> i" "i < b" using k nth_mem [of k "is"] ds(2) by (auto simp: i_def)
  have sn: "unat (sns ! k) = d" using kd ds(1) by (simp add: d_def)
  note turn = put_back_turn(1) [OF ds(2,3) k i_def d_def, of a ps] put_back_turn(2) [OF ds(2,3) k i_def d_def]
    put_back_turn(3) [OF ds(2,3) k i_def d_def, of a ps]
  obtain q where q: "ps ! (i - a) = Some q" "resendable q" using ps i(1) by blast
  have "timeless (window rb ! (i - a)) = timeless (Some q)" using Suc.prems(11) [of i] turn(1) q(1) i by simp
  then obtain pk where pk: "window rb ! (i - tailIndex rb) = Some pk" "resendable pk" "pRawPacket pk = pRawPacket q"
    using q(2) Suc.prems(7) by (metis timeless_packet)
  have raw_i: "raw i = the (pRawPacket pk)" "pRawPacket pk = Some (raw i)"
    using q pk(3) raw by (auto simp: resendable_def split: option.splits)
  define w where "w = rtx_wire (rtxPayloadType ?sdr) (rtxSsrc ?sdr) (rtxSequenceNumber ?sdr) (raw i)"
  define sess1 where "sess1 = (if same then sess else sess\<lparr>srtp_transmit_session := advance ?x w\<rparr>)"
  define keeps where "keeps = (d \<in> {a..<b})"
  have free: "unat (sns ! k) = i \<or> window rb ! (unat (sns ! k) - tailIndex rb) = None" if keeps
    using that turn(3) Suc.prems(11) [of d] Suc.prems(7) by (auto simp: keeps_def sn)
  have "keeps = (unat (sns ! k) \<in> {tailIndex rb..<headIndex rb})" "rd ids k = Some i" "rd nums k = Some (sns ! k)"
    "tailIndex rb \<le> i" "i < headIndex rb"
    using rd [OF k] i Suc.prems(7,8) by (simp_all add: keeps_def sn i_def)
  from resendPacket_moves [OF Suc.prems(1-5) this(2-5) pk(1,2) raw_i(1) refl Suc.prems(6) w_def refl free this(1)] obtain rb2 s3 t where r:
    "resendPacket E nums ids k s = Some (STATUS_SUCCESS, s3)" "rb_inv rb2"
    "window rb2 = (if keeps then (window rb)[i - a := None, d - a := Some (pk\<lparr>sentTime := t\<rparr>)] else (window rb)[i - a := None])"
    "tailIndex rb2 = a" "headIndex rb2 = b" "freeDataFn rb2 = freeDataFn rb"
    "rs_sender s3 = ?sdr\<lparr>packetBuffer := Some (rrb\<lparr>pRollingBuffer := Some rb2\<rparr>),
      rtxSequenceNumber := rtxSequenceNumber ?sdr + (if same then 0 else 1)\<rparr>"
    "rs_released s3 = rs_released s @ (if keeps then [] else [pk\<lparr>sentTime := t\<rparr>])"
    "rs_packets s3 = wrap32 (rs_packets s + 1)" "connected (rs_peer s3) sess1"
    "datagrams (rs_world s3) = datagrams (rs_world s) @ [if same then raw i else seal ?x w]"
    unfolding sess1_def sn Suc.prems(7,8) by blast
  have len: "length (window rb) = b - a" using Suc.prems(7,8) by auto
  have slots: "timeless (window rb2 ! (n - a)) = timeless (put_back a ps (take (Suc k) ds) (take (Suc k) is) n)" if n: "n \<in> {a..<b}" for n
  proof -
    have eq: "(x - a = n - a) = (x = n)" if "a \<le> x" for x using that n by auto
    have "timeless (Some pk) = timeless (ps ! (i - a))" using \<open>timeless (window rb ! (i - a)) = timeless (Some q)\<close> pk(1) q(1) Suc.prems(7) by simp
    then show ?thesis
      using n i len Suc.prems(11) [OF n] put_back_step [OF kd k turn(2) [unfolded i_def d_def], of a ps n, folded i_def d_def]
      by (auto simp: r(3) keeps_def nth_list_update eq)
  qed
  define rrb2 where "rrb2 = rrb\<lparr>pRollingBuffer := Some rb2\<rparr>"
  have n: "packetBuffer (rs_sender s3) = Some rrb2" "pRollingBuffer rrb2 = Some rb2" "rtxPayloadType (rs_sender s3) < 128"
    "same = (snd_payloadType (rs_sender s3) = rtxPayloadType (rs_sender s3))" "Suc k + m = length is" "rs_packets s3 < 2 ^ 32"
    using Suc.prems(5,6,9) r(7,9) by (auto simp: rrb2_def wrap32_def)
  from Suc.IH [OF n(1,2) r(2,10) n(3,4) r(4,5) n(5,6) slots] obtain s' rb' sess' where ih:
    "resendPackets E nums ids (Suc k) m s3 = Some (STATUS_SUCCESS, s')"
    "rs_sender s' = (rs_sender s3)\<lparr>packetBuffer := Some (rrb2\<lparr>pRollingBuffer := Some rb'\<rparr>),
      rtxSequenceNumber := rtxSequenceNumber (rs_sender s3) + (if same then 0 else word_of_nat m)\<rparr>"
    "rb_inv rb'" "tailIndex rb' = a" "headIndex rb' = b" "freeDataFn rb' = freeDataFn rb"
    "\<forall>n \<in> {a..<b}. timeless (window rb' ! (n - a)) = timeless (put_back a ps ds is n)"
    "connected (rs_peer s') sess'" "rs_packets s' = wrap32 (rs_packets s3 + m)"
    "map pRawPacket (rs_released s') = map pRawPacket (rs_released s3) @
      map (Some \<circ> raw \<circ> snd) (filter (\<lambda>(d, i). d \<notin> {a..<b}) (zip (drop (Suc k) ds) (drop (Suc k) is)))"
    "datagrams (rs_world s') = datagrams (rs_world s3) @
      resent seal advance (rs_sender s3) (srtp_transmit_session sess1) (map raw (drop (Suc k) is))"
    unfolding r(6) by blast
  have ks: "drop k is = i # drop (Suc k) is" "drop k ds = d # drop (Suc k) ds"
    using k kd by (simp_all add: Cons_nth_drop_Suc i_def d_def)
  have log: "datagrams (rs_world s') = datagrams (rs_world s) @ resent seal advance ?sdr ?x (map raw (drop k is))"
    using ih(11) r(7,11) Suc.prems(6) by (auto simp: ks sess1_def w_def resent_def)
  have freed: "map pRawPacket (rs_released s') = map pRawPacket (rs_released s) @
      map (Some \<circ> raw \<circ> snd) (filter (\<lambda>(d, i). d \<notin> {a..<b}) (zip (drop k ds) (drop k is)))"
    using ih(10) r(8) raw_i(2) by (simp add: ks keeps_def)
  show ?case
    using r(1) ih(1-9) r(7,9) log freed
    by (intro exI [of _ s'] exI [of _ rb'] exI [of _ sess'])
      (simp add: rrb2_def add.assoc wrap32_add)
qed

end

subsection \<open>The request\<close>

text \<open>
  \<open>asks\<close>: the request lists the sequence numbers \<open>sns\<close>, and the two lists of the retransmitter
  have room for them.  \<open>requests\<close>: moreover every number is that of a packet of the window, the
  one at the same position of \<open>is\<close>; a request that also names packets which have left the window
  is not covered by \<open>requests\<close>.
\<close>

definition asks :: "RtcpPacket \<Rightarrow> u32 \<Rightarrow> u16 list \<Rightarrow> Retransmitter \<Rightarrow> bool" where
  "asks pkt r sns rt \<longleftrightarrow>
     (\<exists>s es. rtcpPayload pkt = nack_payload s r es \<and> rtcpPayloadLength pkt = length (rtcpPayload pkt) \<and>
        concat (map nack_expand es) = sns) \<and>
     length sns < 65536 \<and> length sns \<le> seqNumListLen rt \<and> seqNumListLen rt = length (sequenceNumberList rt) \<and>
     0 < validIndexListLen rt \<and> length sns \<le> validIndexListLen rt \<and> validIndexListLen rt = length (validIndexList rt)"

definition requests ::
  "RtcpPacket \<Rightarrow> u32 \<Rightarrow> nat list \<Rightarrow> Retransmitter \<Rightarrow> RtpPacket RollingBuffer \<Rightarrow> bool" where
  "requests pkt r is rt rb \<longleftrightarrow> asks pkt r (map GET_UINT16_SEQ_NUM is) rt \<and>
     2 \<le> length (window rb) \<and> length (window rb) \<le> 65536 \<and> (\<forall>i \<in> set is. tailIndex rb \<le> i \<and> i < headIndex rb)"

lemma seq_lookup_index:
  assumes "tailIndex rb \<le> i" "i < headIndex rb" "length (window rb) \<le> 65536"
  shows "seq_lookup rb (GET_UINT16_SEQ_NUM i) = Some i"
  unfolding seq_lookup_def
proof (rule find_upt_unique [OF assms(1,2) refl])
  fix j assume j: "tailIndex rb \<le> j" "j < headIndex rb" "GET_UINT16_SEQ_NUM j = GET_UINT16_SEQ_NUM i"
  then have "j mod 65536 = i mod 65536" by (simp add: GET_UINT16_eq_iff unat_GET_UINT16)
  then have "(65536 :: int) dvd int j - int i" by (metis mod_eq_dvd_iff of_nat_mod of_nat_numeral)
  moreover have "\<bar>int j - int i\<bar> < 65536" using assms j by auto
  ultimately show "j = i" by (metis dvd_imp_le_int eq_iff_diff_eq_0 linorder_not_le of_nat_eq_iff abs_numeral)
qed

lemma requests_found:
  assumes "requests pkt r is rt rb"
  shows "is = List.map_filter (seq_lookup rb) (map GET_UINT16_SEQ_NUM is)"
proof -
  have "\<forall>i \<in> set is. tailIndex rb \<le> i \<and> i < headIndex rb" "length (window rb) \<le> 65536"
    using assms by (auto simp: requests_def)
  then show ?thesis by (induction "is") (auto simp: map_filter_simps seq_lookup_index)
qed

text \<open>During the first 65536 packets the numbers found are those that are indices of the window.\<close>

lemma seq_lookup_first:
  assumes "headIndex rb \<le> 65536"
  shows "List.map_filter (seq_lookup rb) sns = filter (\<lambda>d. d \<in> {tailIndex rb..<headIndex rb}) (map unat sns)"
proof -
  have "seq_lookup rb sn = (if unat sn \<in> {tailIndex rb..<headIndex rb} then Some (unat sn) else None)" for sn
  proof (cases "unat sn \<in> {tailIndex rb..<headIndex rb}")
    case True
    moreover have "GET_UINT16_SEQ_NUM (unat sn) = sn" using unat_u16_less [of sn] by (simp add: GET_UINT16_SEQ_NUM_def)
    ultimately show ?thesis using seq_lookup_index [of rb "unat sn"] assms by simp
  next
    case False
    have "unat (GET_UINT16_SEQ_NUM i) = i" if "i < headIndex rb" for i using that assms by (simp add: unat_GET_UINT16)
    then show ?thesis using False by (auto simp: seq_lookup_def find_None_iff)
  qed
  then show ?thesis by (induction sns) (simp_all add: map_filter_simps)
qed

lemma request_lists:
  assumes net: "network_order P" and ask: "asks pkt r sns rt" and rrb: "rrb_inv rrb" "pRollingBuffer rrb = Some rb"
    and win: "2 \<le> length (window rb)" "length (window rb) \<le> 65536" and found: "is = List.map_filter (seq_lookup rb) sns"
  shows "\<exists>s nums ids. rtcpNackListGet P (Some (rtcpPayload pkt)) (rtcpPayloadLength pkt) None 0 =
      Some (STATUS_SUCCESS, s, r, None, length sns) \<and>
    rtcpNackListGet P (Some (rtcpPayload pkt)) (rtcpPayloadLength pkt) (Some (sequenceNumberList rt)) (seqNumListLen rt) =
      Some (STATUS_SUCCESS, s, r, Some nums, length sns) \<and>
    rtpRollingBufferGetValidSeqIndexList (Some rrb) (Some nums) (length sns) (Some (validIndexList rt)) (Some (validIndexListLen rt)) =
      Some (STATUS_SUCCESS, Some ids, Some (length is)) \<and>
    length nums = length (sequenceNumberList rt) \<and> length ids = length (validIndexList rt) \<and>
    (\<forall>j < length is. rd nums j = Some (sns ! j) \<and> rd ids j = Some (is ! j))"
proof -
  obtain s es where pkt: "rtcpPayload pkt = nack_payload s r es" "rtcpPayloadLength pkt = length (nack_payload s r es)"
    "concat (map nack_expand es) = sns"
    using ask by (auto simp: asks_def)
  have room: "length sns < 65536" "length sns \<le> seqNumListLen rt" "seqNumListLen rt = length (sequenceNumberList rt)"
    "0 < validIndexListLen rt" "length sns \<le> validIndexListLen rt" "validIndexListLen rt = length (validIndexList rt)"
    using ask by (auto simp: asks_def)
  define nums where "nums = sns @ drop (length sns) (sequenceNumberList rt)"
  have nums: "rtcpNackListGet P (Some (rtcpPayload pkt)) (rtcpPayloadLength pkt) None 0 = Some (STATUS_SUCCESS, s, r, None, length sns)"
    "rtcpNackListGet P (Some (rtcpPayload pkt)) (rtcpPayloadLength pkt) (Some (sequenceNumberList rt)) (seqNumListLen rt) =
      Some (STATUS_SUCCESS, s, r, Some nums, length sns)"
    using network_order.rtcpNackListGet_payload [OF net] pkt nackPushAll_count [of 0 0 sns] room(1-3)
      nackPushAll_fits [of 0 sns "seqNumListLen rt" "sequenceNumberList rt"]
    by (simp_all add: patch_0 nums_def)
  have few: "length is \<le> length sns" by (simp add: found map_filter_def)
  then have ids: "is = take (validIndexListLen rt) (List.map_filter (seq_lookup rb) (take (length sns) nums))"
    using room(5) by (simp add: nums_def found)
  have "length sns \<le> length nums" by (simp add: nums_def)
  from rtpRollingBufferGetValidSeqIndexList_eq [OF rrb win this room(4) _ ids, of "validIndexList rt"] obtain ids' where
    "rtpRollingBufferGetValidSeqIndexList (Some rrb) (Some nums) (length sns) (Some (validIndexList rt)) (Some (validIndexListLen rt)) =
      Some (STATUS_SUCCESS, Some ids', Some (length is))" "length ids' = length (validIndexList rt)" "take (length is) ids' = is"
    using room(6) by auto
  moreover have "rd nums j = Some (sns ! j)" "rd ids' j = Some (is ! j)" if "j < length is" for j
    using that few calculation(2,3) room(5,6) nth_take [OF that, of ids'] by (simp_all add: nums_def rd_def nth_append)
  moreover have "length nums = length (sequenceNumberList rt)" using room(2,3) by (simp add: nums_def)
  ultimately show ?thesis using nums by blast
qed

text \<open>The transceiver the request is for: the first one with the media SSRC.\<close>

definition nack_target ::
  "'h KvsRtpTransceiver list \<Rightarrow> u32 \<Rightarrow> nat \<Rightarrow> Retransmitter \<Rightarrow> RtpRollingBuffer \<Rightarrow> RtpPacket RollingBuffer \<Rightarrow> bool" where
  "nack_target trs r k rt rrb rb \<longleftrightarrow>
     findTransceiver trs r 0 = Some k \<and> retransmitter (sender (trs ! k)) = Some rt \<and>
     packetBuffer (sender (trs ! k)) = Some rrb \<and> rrb_inv rrb \<and> pRollingBuffer rrb = Some rb \<and>
     rtxPayloadType (sender (trs ! k)) < 128"

lemma findTransceiver_bound: "findTransceiver trs ss i = Some k \<Longrightarrow> i \<le> k \<and> k < i + length trs"
  by (induction trs ss i rule: findTransceiver.induct) (auto split: if_splits)

lemma findTransceiver_update:
  assumes "findTransceiver trs ss i = Some k" "snd_ssrc (sender tr') = snd_ssrc (sender (trs ! (k - i)))"
    "rtxSsrc (sender tr') = rtxSsrc (sender (trs ! (k - i)))" "inbound tr' = inbound (trs ! (k - i))"
  shows "findTransceiver (trs[k - i := tr']) ss i = Some k"
  using assms
proof (induction trs ss i rule: findTransceiver.induct)
  case (2 tr trs ss i)
  show ?case
  proof (cases "snd_ssrc (sender tr) = ss \<or> rtxSsrc (sender tr) = ss \<or> jitterBufferSsrc (inbound tr) = ss")
    case False
    then have f: "findTransceiver trs ss (Suc i) = Some k" using 2(2) by simp
    then have "k - i = Suc (k - Suc i)" using findTransceiver_bound [OF f] by linarith
    then show ?thesis using False 2(1) [OF False f] 2(3-) by simp
  qed (use 2 in \<open>auto\<close>)
qed simp

definition resend_start ::
  "('t, 'x) KvsPeer \<Rightarrow> RtcRtpSender \<Rightarrow> 'n \<Rightarrow> ('t, 'x, 'n) ResendState" where
  "resend_start pc sdr w = \<lparr>rs_peer = pc, rs_sender = sdr, rs_world = w, rs_packets = 0, rs_bytes = 0, rs_released = []\<rparr>"

lemma resendPacketOnNack_loop:
  assumes net: "network_order (env_platform E)" and ask: "asks pkt r sns rt" and tgt: "nack_target trs r k rt rrb rb"
    and win: "2 \<le> length (window rb)" "length (window rb) \<le> 65536" and found: "is = List.map_filter (seq_lookup rb) sns"
  obtains nums ids where
    "length nums = length (sequenceNumberList rt)" "length ids = length (validIndexList rt)"
    "\<And>j. j < length is \<Longrightarrow> rd nums j = Some (sns ! j) \<and> rd ids j = Some (is ! j)"
    "\<And>w pc st s'. resendPackets E nums ids 0 (length is) (resend_start pc ((sender (trs ! k))\<lparr>retransmitter :=
        Some (rt\<lparr>sequenceNumberList := nums, validIndexList := ids\<rparr>)\<rparr>) w) = Some (st, s') \<Longrightarrow>
      resendPacketOnNack E w (Some pkt) (Some pc) trs = Some (st, Some (rs_peer s'),
        trs[k := noteNack 1 (rs_packets s') (rs_bytes s') ((trs ! k)\<lparr>sender := rs_sender s'\<rparr>)], rs_world s', rs_released s')"
proof -
  have t: "findTransceiver trs r 0 = Some k" "retransmitter (sender (trs ! k)) = Some rt"
    "packetBuffer (sender (trs ! k)) = Some rrb" "rrb_inv rrb" "pRollingBuffer rrb = Some rb"
    using tgt by (auto simp: nack_target_def)
  from request_lists [OF net ask t(4,5) win found] obtain s nums ids where l:
    "rtcpNackListGet (env_platform E) (Some (rtcpPayload pkt)) (rtcpPayloadLength pkt) None 0 = Some (STATUS_SUCCESS, s, r, None, length sns)"
    "rtcpNackListGet (env_platform E) (Some (rtcpPayload pkt)) (rtcpPayloadLength pkt) (Some (sequenceNumberList rt)) (seqNumListLen rt) =
      Some (STATUS_SUCCESS, s, r, Some nums, length sns)"
    "rtpRollingBufferGetValidSeqIndexList (Some rrb) (Some nums) (length sns) (Some (validIndexList rt)) (Some (validIndexListLen rt)) =
      Some (STATUS_SUCCESS, Some ids, Some (length is))"
    "length nums = length (sequenceNumberList rt)" "length ids = length (validIndexList rt)"
    "\<forall>j < length is. rd nums j = Some (sns ! j) \<and> rd ids j = Some (is ! j)"
    by blast
  show ?thesis
  proof (rule that [OF l(4,5)])
    show "rd nums j = Some (sns ! j) \<and> rd ids j = Some (is ! j)" if "j < length is" for j
      using that l(6) by blast
    fix w pc st s'
    assume "resendPackets E nums ids 0 (length is) (resend_start pc ((sender (trs ! k))\<lparr>retransmitter :=
        Some (rt\<lparr>sequenceNumberList := nums, validIndexList := ids\<rparr>)\<rparr>) w) = Some (st, s')"
    then have "resendFrom E w pkt pc (trs ! k) =
        Some (st, rs_peer s', noteNack 1 (rs_packets s') (rs_bytes s') ((trs ! k)\<lparr>sender := rs_sender s'\<rparr>), rs_world s', rs_released s')"
      using t(2,3) l(2,3) by (simp add: resendFrom_def resend_start_def Let_def)
    then show "resendPacketOnNack E w (Some pkt) (Some pc) trs = Some (st, Some (rs_peer s'),
        trs[k := noteNack 1 (rs_packets s') (rs_bytes s') ((trs ! k)\<lparr>sender := rs_sender s'\<rparr>)], rs_world s', rs_released s')"
      using t(1) l(1) by (simp add: resendPacketOnNack_def findTransceiverBySsrc_def)
  qed
qed

text \<open>The rounds of a request all of whose numbers are in the window.\<close>

lemma resendPacketOnNack_requested:
  assumes "network_order (env_platform E)" and req: "requests pkt r [i] rt rb" and "nack_target trs r k rt rrb rb"
  obtains nums ids where
    "length nums = length (sequenceNumberList rt)" "length ids = length (validIndexList rt)"
    "rd nums 0 = Some (GET_UINT16_SEQ_NUM i)" "rd ids 0 = Some i"
    "\<And>w pc st s'. resendPacket E nums ids 0 (resend_start pc ((sender (trs ! k))\<lparr>retransmitter :=
        Some (rt\<lparr>sequenceNumberList := nums, validIndexList := ids\<rparr>)\<rparr>) w) = Some (STATUS_SUCCESS, s') \<Longrightarrow>
      resendPacketOnNack E w (Some pkt) (Some pc) trs = Some (STATUS_SUCCESS, Some (rs_peer s'),
        trs[k := noteNack 1 (rs_packets s') (rs_bytes s') ((trs ! k)\<lparr>sender := rs_sender s'\<rparr>)], rs_world s', rs_released s')"
proof -
  have "asks pkt r (map GET_UINT16_SEQ_NUM [i]) rt" "2 \<le> length (window rb)" "length (window rb) \<le> 65536"
    using req by (auto simp: requests_def)
  from resendPacketOnNack_loop [OF assms(1) this(1) assms(3) this(2,3) requests_found [OF req]] obtain nums ids where l:
    "length nums = length (sequenceNumberList rt)" "length ids = length (validIndexList rt)"
    "\<And>j. j < length [i] \<Longrightarrow> rd nums j = Some (map GET_UINT16_SEQ_NUM [i] ! j) \<and> rd ids j = Some ([i] ! j)"
    "\<And>w pc st s'. resendPackets E nums ids 0 (length [i]) (resend_start pc ((sender (trs ! k))\<lparr>retransmitter :=
        Some (rt\<lparr>sequenceNumberList := nums, validIndexList := ids\<rparr>)\<rparr>) w) = Some (st, s') \<Longrightarrow>
      resendPacketOnNack E w (Some pkt) (Some pc) trs = Some (st, Some (rs_peer s'),
        trs[k := noteNack 1 (rs_packets s') (rs_bytes s') ((trs ! k)\<lparr>sender := rs_sender s'\<rparr>)], rs_world s', rs_released s')"
    by blast
  show ?thesis using l(3) [of 0] l(4) by (intro that [OF l(1,2)]) simp_all
qed

text \<open>
  What answering a request for one packet does when its number, taken as an index, is outside
  the window: the packet is sent and released, its slot stays empty.
\<close>

lemma resendPacketOnNack_released:
  assumes net: "media_transport E datagrams seal advance" and pc: "connected pc sess"
    and req: "requests pkt r [i] rt rb" and tgt: "nack_target trs r k rt rrb rb"
    and win: "all_resendable (window rb)" "65536 \<le> tailIndex rb" and sdr: "sdr = sender (trs ! k)"
  obtains pc' sess' tr' w' rt' rrb' rb' p where
    "resendPacketOnNack E w (Some pkt) (Some pc) trs = Some (STATUS_SUCCESS, Some pc', trs[k := tr'], w', [p])"
    "pRawPacket p = Some (raw_at rb i)" "connected pc' sess'"
    "datagrams w' = datagrams w @ resent seal advance sdr (srtp_transmit_session sess) [raw_at rb i]"
    "requests pkt r [i] rt' rb'" "nack_target (trs[k := tr']) r k rt' rrb' rb'" "window rb' ! (i - tailIndex rb') = None"
proof -
  from resendPacketOnNack_requested [OF media_transport.host [OF net] req tgt] obtain nums ids where l:
    "length nums = length (sequenceNumberList rt)" "length ids = length (validIndexList rt)"
    "rd nums 0 = Some (GET_UINT16_SEQ_NUM i)" "rd ids 0 = Some i"
    "\<And>w pc s'. resendPacket E nums ids 0 (resend_start pc (sdr\<lparr>retransmitter :=
        Some (rt\<lparr>sequenceNumberList := nums, validIndexList := ids\<rparr>)\<rparr>) w) = Some (STATUS_SUCCESS, s') \<Longrightarrow>
      resendPacketOnNack E w (Some pkt) (Some pc) trs = Some (STATUS_SUCCESS, Some (rs_peer s'),
        trs[k := noteNack 1 (rs_packets s') (rs_bytes s') ((trs ! k)\<lparr>sender := rs_sender s'\<rparr>)], rs_world s', rs_released s')"
    unfolding sdr(1) by metis
  have t: "findTransceiver trs r 0 = Some k" "packetBuffer sdr = Some rrb" "rrb_inv rrb" "pRollingBuffer rrb = Some rb"
    "rb_inv rb" "rtxPayloadType sdr < 128"
    using tgt by (auto simp: nack_target_def sdr rrb_inv_def)
  define rt' where "rt' = rt\<lparr>sequenceNumberList := nums, validIndexList := ids\<rparr>"
  define s0 where "s0 = resend_start pc (sdr\<lparr>retransmitter := Some rt'\<rparr>) w"
  have s0: "packetBuffer (rs_sender s0) = Some rrb" "connected (rs_peer s0) sess" "rtxPayloadType (rs_sender s0) < 128"
    "rs_released s0 = []" "rs_world s0 = w" "rs_sender s0 = sdr\<lparr>retransmitter := Some rt'\<rparr>"
    using t pc by (simp_all add: s0_def resend_start_def)
  have i: "tailIndex rb \<le> i" "i < headIndex rb" using req by (auto simp: requests_def)
  then have kth: "i - tailIndex rb < length (window rb)" by auto
  obtain pk where pk: "window rb ! (i - tailIndex rb) = Some pk" "resendable pk"
    using win(1) kth unfolding all_resendable_def by blast
  have raw: "pRawPacket pk = Some (raw_at rb i)" "raw_at rb i = the (pRawPacket pk)"
    using pk by (auto simp: raw_at_def resendable_def split: option.splits)
  have far: "False = (unat (GET_UINT16_SEQ_NUM i) \<in> {tailIndex rb..<headIndex rb})"
    using win(2) mod_less_divisor [of 65536 i] by (auto simp: unat_GET_UINT16)
  have out: "datagrams (rs_world s0) @ [if snd_payloadType (rs_sender s0) = rtxPayloadType (rs_sender s0) then raw_at rb i
      else seal (srtp_transmit_session sess) (rtx_wire (rtxPayloadType (rs_sender s0)) (rtxSsrc (rs_sender s0))
        (rtxSequenceNumber (rs_sender s0)) (raw_at rb i))] =
      datagrams w @ resent seal advance sdr (srtp_transmit_session sess) [raw_at rb i]"
    by (simp add: s0 resent_def)
  from media_transport.resendPacket_moves [OF net s0(1) t(4,5) s0(2,3) l(4,3) i pk raw(2) refl refl refl refl _ far, unfolded out s0(4)]
  obtain rb1 s3 tm where r: "resendPacket E nums ids 0 s0 = Some (STATUS_SUCCESS, s3)" "rb_inv rb1"
    "window rb1 = (window rb)[i - tailIndex rb := None]" "tailIndex rb1 = tailIndex rb" "headIndex rb1 = headIndex rb"
    "freeDataFn rb1 = freeDataFn rb" "rs_sender s3 = (rs_sender s0)\<lparr>packetBuffer := Some (rrb\<lparr>pRollingBuffer := Some rb1\<rparr>),
      rtxSequenceNumber := rtxSequenceNumber (rs_sender s0) + (if snd_payloadType (rs_sender s0) = rtxPayloadType (rs_sender s0) then 0 else 1)\<rparr>"
    "rs_released s3 = [pk\<lparr>sentTime := tm\<rparr>]" "\<exists>sess'. connected (rs_peer s3) sess'"
    "datagrams (rs_world s3) = datagrams w @ resent seal advance sdr (srtp_transmit_session sess) [raw_at rb i]"
    by auto
  define rrb1 tr' where "rrb1 = rrb\<lparr>pRollingBuffer := Some rb1\<rparr>"
    and "tr' = noteNack 1 (rs_packets s3) (rs_bytes s3) ((trs ! k)\<lparr>sender := rs_sender s3\<rparr>)"
  have fields: "retransmitter (sender tr') = Some rt'" "packetBuffer (sender tr') = Some rrb1" "snd_ssrc (sender tr') = snd_ssrc sdr"
    "rtxSsrc (sender tr') = rtxSsrc sdr" "rtxPayloadType (sender tr') = rtxPayloadType sdr" "inbound tr' = inbound (trs ! k)"
    by (simp_all add: tr'_def noteNack_def rrb1_def r(7) s0(6) Let_def)
  have "findTransceiver (trs[k := tr']) r 0 = Some k"
    using findTransceiver_update [OF t(1), of tr'] fields sdr by simp
  moreover have "k < length trs" using findTransceiver_bound [OF t(1)] by simp
  moreover have "rrb_inv rrb1" using t(3,4) r(2-6) by (simp add: rrb_inv_def rrb1_def)
  ultimately have "nack_target (trs[k := tr']) r k rt' rrb1 rb1"
    using fields t(6) by (simp add: nack_target_def rrb1_def)
  moreover have "requests pkt r [i] rt' rb1"
    using req l(1,2) r(3-5) by (auto simp: requests_def asks_def rt'_def)
  moreover have "window rb1 ! (i - tailIndex rb1) = None" using r(3,4) kth by simp
  moreover obtain sess' where "connected (rs_peer s3) sess'" using r(9) by blast
  ultimately show ?thesis
    using that l(5) [OF r(1) [unfolded s0_def rt'_def], folded tr'_def] r(8,10) raw(1) by simp
qed

text \<open>A request for an empty slot sends nothing.\<close>

lemma resendPacketOnNack_empty:
  assumes net: "network_order (env_platform E)" and req: "requests pkt r [i] rt rb" and tgt: "nack_target trs r k rt rrb rb"
    and empty: "window rb ! (i - tailIndex rb) = None"
  shows "\<exists>trs'. resendPacketOnNack E w (Some pkt) (Some pc) trs = Some (STATUS_SUCCESS, Some pc, trs', w, [])"
proof -
  from resendPacketOnNack_requested [OF net req tgt] obtain nums ids where l: "rd ids 0 = Some i"
    "\<And>w pc s'. resendPacket E nums ids 0 (resend_start pc ((sender (trs ! k))\<lparr>retransmitter :=
        Some (rt\<lparr>sequenceNumberList := nums, validIndexList := ids\<rparr>)\<rparr>) w) = Some (STATUS_SUCCESS, s') \<Longrightarrow>
      resendPacketOnNack E w (Some pkt) (Some pc) trs = Some (STATUS_SUCCESS, Some (rs_peer s'),
        trs[k := noteNack 1 (rs_packets s') (rs_bytes s') ((trs ! k)\<lparr>sender := rs_sender s'\<rparr>)], rs_world s', rs_released s')"
    by metis
  have t: "packetBuffer (sender (trs ! k)) = Some rrb" "pRollingBuffer rrb = Some rb" "rb_inv rb"
    "tailIndex rb \<le> i" "i < headIndex rb"
    using tgt req by (auto simp: nack_target_def rrb_inv_def requests_def)
  from rollingBufferExtractData_in [OF t(3-5)] empty obtain rb' where "rollingBufferExtractData (Some rb) i = (STATUS_SUCCESS, Some rb', None)"
    by auto
  then show ?thesis
    using l(2) [of pc w] l(1) t(1,2) by (simp add: resendPacket_def resend_start_def)
qed

subsection \<open>Properties\<close>

text \<open>
  C28. Answering a NACK during the first 65536 packets of a stream, on a connected transport.
  The request may name any numbers, in the window or not, as long as the two lists of the
  retransmitter have room for it, no number is named twice unless all are in the window, and the
  requested packets of the window are there and can be sent; the window holds at least two packets.
  Then every requested packet of the window is sent again, in the order of the request: as stored
  when retransmission shares the payload type, otherwise as an RFC 4588 packet with consecutive
  retransmission numbers, sealed.  Numbers outside the window are passed over.  The packet sent
  \<open>k\<close>-th is put back under the \<open>k\<close>-th number of the request, which is its own only as long as no
  number outside the window came before: it is released when that number is outside the window,
  and stands in the slot of another packet otherwise.  When the numbers of the window come first in
  the request, in particular when there are no others, nothing is released and the window is as before up
  to the times of sending.  The request and its packets are counted.
\<close>

theorem nack_resends_packets:
  assumes net: "media_transport E datagrams seal advance" and pc: "connected pc sess"
    and ask: "asks pkt r sns rt" and tgt: "nack_target trs r k rt rrb rb"
    and win: "2 \<le> length (window rb)" "headIndex rb \<le> 65536" "W = {tailIndex rb..<headIndex rb}"
    and ds: "ds = map unat sns" "is = filter (\<lambda>d. d \<in> W) ds" "distinct ds \<or> is = ds"
    and ps: "\<forall>i \<in> set is. \<exists>pk. window rb ! (i - tailIndex rb) = Some pk \<and> resendable pk"
    and sdr: "sdr = sender (trs ! k)" "same = (snd_payloadType sdr = rtxPayloadType sdr)"
  shows "\<exists>pc' sess' tr' w' rrb' rb' released. resendPacketOnNack E w (Some pkt) (Some pc) trs =
      Some (STATUS_SUCCESS, Some pc', trs[k := tr'], w', released) \<and>
    datagrams w' = datagrams w @ resent seal advance sdr (srtp_transmit_session sess) (map (raw_at rb) is) \<and>
    connected pc' sess' \<and> packetBuffer (sender tr') = Some rrb' \<and> rrb_inv rrb' \<and> pRollingBuffer rrb' = Some rb' \<and>
    tailIndex rb' = tailIndex rb \<and> headIndex rb' = headIndex rb \<and>
    map pRawPacket released = map (\<lambda>(d, i). Some (raw_at rb i)) (filter (\<lambda>(d, i). d \<notin> W) (zip ds is)) \<and>
    (\<forall>n \<in> W. timeless (window rb' ! (n - tailIndex rb)) = timeless (put_back (tailIndex rb) (window rb) ds is n)) \<and>
    (is = take (length is) ds \<longrightarrow> released = [] \<and> untimed (window rb') = untimed (window rb)) \<and>
    rtxSequenceNumber (sender tr') = rtxSequenceNumber sdr + (if same then 0 else word_of_nat (length is)) \<and>
    nackCount (outboundStats tr') = wrap32 (nackCount (outboundStats (trs ! k)) + 1) \<and>
    retransmittedPacketsSent (outboundStats tr') = wrap64 (retransmittedPacketsSent (outboundStats (trs ! k)) + length is)"
proof -
  have found: "is = List.map_filter (seq_lookup rb) sns" using seq_lookup_first [OF win(2), of sns] ds win(3) by simp
  have "length (window rb) \<le> 65536" using win(2) by auto
  from resendPacketOnNack_loop [OF media_transport.host [OF net] ask tgt win(1) this found] obtain nums ids where l:
    "\<And>j. j < length is \<Longrightarrow> rd nums j = Some (sns ! j) \<and> rd ids j = Some (is ! j)"
    "\<And>w pc st s'. resendPackets E nums ids 0 (length is) (resend_start pc (sdr\<lparr>retransmitter :=
        Some (rt\<lparr>sequenceNumberList := nums, validIndexList := ids\<rparr>)\<rparr>) w) = Some (st, s') \<Longrightarrow>
      resendPacketOnNack E w (Some pkt) (Some pc) trs = Some (st, Some (rs_peer s'),
        trs[k := noteNack 1 (rs_packets s') (rs_bytes s') ((trs ! k)\<lparr>sender := rs_sender s'\<rparr>)], rs_world s', rs_released s')"
    unfolding sdr(1) by metis
  have t: "packetBuffer sdr = Some rrb" "rrb_inv rrb" "pRollingBuffer rrb = Some rb" "rb_inv rb" "rtxPayloadType sdr < 128"
    using tgt by (auto simp: nack_target_def sdr rrb_inv_def)
  define s0 where "s0 = resend_start pc (sdr\<lparr>retransmitter := Some (rt\<lparr>sequenceNumberList := nums, validIndexList := ids\<rparr>)\<rparr>) w"
  have s0: "packetBuffer (rs_sender s0) = Some rrb" "connected (rs_peer s0) sess" "rtxPayloadType (rs_sender s0) < 128"
    "same = (snd_payloadType (rs_sender s0) = rtxPayloadType (rs_sender s0))" "rs_packets s0 < 2 ^ 32" "rs_packets s0 = 0"
    "rtxSequenceNumber (rs_sender s0) = rtxSequenceNumber sdr" "rs_world s0 = w" "rs_released s0 = []"
    using t pc sdr by (simp_all add: s0_def resend_start_def)
  have out: "resent seal advance (rs_sender s0) x raws = resent seal advance sdr x raws" for x raws
    by (simp add: resent_def s0_def resend_start_def)
  have raw: "raw_at rb = (\<lambda>i. the (pRawPacket (the (window rb ! (i - tailIndex rb)))))" by (simp add: raw_at_def fun_eq_iff)
  have ps': "\<exists>pk. window rb ! (i - tailIndex rb) = Some pk \<and> resendable pk" if "i \<in> set is" for i using ps that by blast
  have start: "timeless (window rb ! (n - tailIndex rb)) =
      timeless (put_back (tailIndex rb) (window rb) (take 0 ds) (take 0 is) n)" for n by (simp add: put_back_def)
  from media_transport.resendPackets_moved [OF net s0(1) t(3,4) s0(2-4) refl refl add_0 s0(5) start ds(1) ds(2) [unfolded win(3)] ds(3) ps' l(1) raw,
      unfolded out s0(6-9)]
  obtain s' rb' sess' where run:
    "resendPackets E nums ids 0 (length is) s0 = Some (STATUS_SUCCESS, s')"
    "rs_sender s' = (rs_sender s0)\<lparr>packetBuffer := Some (rrb\<lparr>pRollingBuffer := Some rb'\<rparr>),
      rtxSequenceNumber := rtxSequenceNumber sdr + (if same then 0 else word_of_nat (length is))\<rparr>"
    "rb_inv rb'" "tailIndex rb' = tailIndex rb" "headIndex rb' = headIndex rb" "freeDataFn rb' = freeDataFn rb"
    "\<forall>n \<in> W. timeless (window rb' ! (n - tailIndex rb)) = timeless (put_back (tailIndex rb) (window rb) ds is n)"
    "connected (rs_peer s') sess'" "rs_packets s' = wrap32 (0 + length is)"
    "map pRawPacket (rs_released s') = map (\<lambda>(d, i). Some (raw_at rb i)) (filter (\<lambda>(d, i). d \<notin> W) (zip ds is))"
    "datagrams (rs_world s') = datagrams w @ resent seal advance sdr (srtp_transmit_session sess) (map (raw_at rb) is)"
    by (auto simp: comp_def case_prod_beta' win(3))
  have rrb': "rrb_inv (rrb\<lparr>pRollingBuffer := Some rb'\<rparr>)"
    using t(2,3) run(3-6) by (simp add: rrb_inv_def)
  have quiet: "rs_released s' = [] \<and> untimed (window rb') = untimed (window rb)" if "is = take (length is) ds"
  proof
    have zip: "zip ds is = zip is is" using take_zip [of "length is" ds "is"] that by simp
    have "filter (\<lambda>(d, i). d \<notin> W) (zip is is) = []" using ds(2) by (auto simp: filter_empty_conv dest: set_zip_leftD)
    then show "rs_released s' = []" using run(10) by (simp add: zip)
    show "untimed (window rb') = untimed (window rb)"
    proof (rule nth_equalityI)
      show "length (untimed (window rb')) = length (untimed (window rb))" using run(4,5) by (simp add: untimed_def)
      fix j assume "j < length (untimed (window rb'))"
      then have "tailIndex rb + j \<in> W" "j < length (window rb')" "j < length (window rb)" using run(4,5) win(3) by (auto simp: untimed_def)
      with run(7) [rule_format, of "tailIndex rb + j"] show "untimed (window rb') ! j = untimed (window rb) ! j"
        using put_back_self [of "tailIndex rb" "window rb" "is"] by (simp add: untimed_def put_back_def zip)
    qed
  qed
  have "wrap32 (0 + length is) = length is"
    using ask le_less_trans [OF length_filter_le, of ds 65536 "\<lambda>d. d \<in> W"] by (simp add: asks_def ds(1,2) wrap32_def)
  then show ?thesis
    using l(2) [OF run(1) [unfolded s0_def]] run(2-) rrb' quiet
    by (intro exI [of _ "rs_peer s'"] exI [of _ sess'] exI [of _ "rs_world s'"] exI [of _ "rrb\<lparr>pRollingBuffer := Some rb'\<rparr>"]
        exI [of _ rb'] exI [of _ "noteNack 1 (rs_packets s') (rs_bytes s') ((trs ! k)\<lparr>sender := rs_sender s'\<rparr>)"])
      (simp add: noteNack_def Let_def)
qed

text \<open>
  The sample connection holds two one-byte packets, numbers 0 and 1, and answers with payload
  type 112; its world is the list of datagrams sent and the clock.
\<close>

definition sample_kept :: "byte \<Rightarrow> RtpPacket" where
  "sample_kept n = (raw_packet sample_packet [128, 111, 0, n, 0, 0, 0, 5, 0, 0, 0, 9, 42])
     \<lparr>header := (header sample_packet)\<lparr>extension := False, extensionProfile := 0\<rparr>\<rparr>"

definition sample_ring :: "nat \<Rightarrow> RtpPacket RollingBuffer" where
  "sample_ring base = \<lparr>capacity = 2, headIndex = base + 2, tailIndex = base,
     dataBuffer = [Some (sample_kept 0), Some (sample_kept 1)], freeDataFn = Some freeRtpRollingBufferData\<rparr>"

definition sample_retransmitter :: Retransmitter where
  "sample_retransmitter = \<lparr>sequenceNumberList = [0, 0, 0, 0], seqNumListLen = 4, validIndexListLen = 4, validIndexList = [0, 0, 0, 0]\<rparr>"

definition sample_transceiver :: "nat \<Rightarrow> unit KvsRtpTransceiver" where
  "sample_transceiver base =
     (the (snd (createKvsRtpTransceiver little_endian_host (\<lambda>n. replicate n 0) SENDRECV True 9 10
        (Some (track sample_sender)) None RTC_CODEC_OPUS)))
     \<lparr>sender := sample_sender\<lparr>retransmitter := Some sample_retransmitter,
        packetBuffer := Some \<lparr>pRollingBuffer = Some (sample_ring base), lastIndex = base + 1\<rparr>\<rparr>\<rparr>"

definition sample_nack :: "u16 \<Rightarrow> u16 \<Rightarrow> RtcpPacket" where
  "sample_nack pid blp = \<lparr>rtcpHeader = \<lparr>rtcpVersion = 2, receptionReportCount = 1, rtcpPacketType = 205, rtcpPacketLength = 3\<rparr>,
     rtcpPayload = nack_payload 77 9 [(pid, blp)], rtcpPayloadLength = 12\<rparr>"

lemma sample_ring_window:
  assumes "even base"
  shows "window (sample_ring base) = [Some (sample_kept 0), Some (sample_kept 1)]"
proof -
  have "[base..<base + 2] = [base, base + 1]" by (simp add: upt_rec)
  moreover have "base mod 2 = 0" "(base + 1) mod 2 = 1" using assms by presburger+
  ultimately show ?thesis by (simp add: window_def sample_ring_def rb_slot_def ROLLING_BUFFER_MAP_INDEX_def)
qed

lemma sample_target:
  assumes "even base" "base < 2 ^ 32"
  shows "nack_target [sample_transceiver base] 9 0 sample_retransmitter \<lparr>pRollingBuffer = Some (sample_ring base), lastIndex = base + 1\<rparr>
      (sample_ring base)" "all_resendable (window (sample_ring base))"
    "connected sample_peer \<lparr>srtp_transmit_session = 7, srtp_receive_session = 0\<rparr>"
proof -
  show "nack_target [sample_transceiver base] 9 0 sample_retransmitter \<lparr>pRollingBuffer = Some (sample_ring base), lastIndex = base + 1\<rparr>
      (sample_ring base)"
    using assms(2) by (simp add: nack_target_def sample_transceiver_def sample_sender_def rrb_inv_def rb_inv_def sample_ring_def)
  have "resendable (sample_kept n)" for n
    by (simp add: resendable_def sample_kept_def raw_packet_def rtp_fits_def)
  then show "all_resendable (window (sample_ring base))"
    unfolding sample_ring_window [OF assms(1)] all_resendable_def by (auto simp: less_Suc_eq)
  show "connected sample_peer \<lparr>srtp_transmit_session = 7, srtp_receive_session = 0\<rparr>"
    using sample_sender_ok(3) by (simp add: connected_def sample_peer_def)
qed

lemma sample_asks:
  assumes "nack_expand (n, b) = sns" "length sns \<le> 4"
  shows "asks (sample_nack n b) 9 sns sample_retransmitter"
  unfolding asks_def sample_nack_def sample_retransmitter_def using assms
  by (auto simp: nack_payload_def nack_entry_def intro!: exI [of _ 77] exI [of _ "[(n, b)]"])

text \<open>
  A request for 0 and 1 is answered with both packets; one for 65535 and 0 with packet 0, which is
  then released: 65535 has not been sent yet.
\<close>

theorem nack_resends_packets_witness:
  "(\<exists>pc' tr' w'. resendPacketOnNack sample_env ([], 100) (Some (sample_nack 0 1)) (Some sample_peer) [sample_transceiver 0] =
      Some (STATUS_SUCCESS, Some pc', [tr'], w', []) \<and>
    fst w' = [[128, 112, 0, 0, 0, 0, 0, 5, 0, 0, 0, 10, 0, 0, 42] @ replicate 10 7,
              [128, 112, 0, 1, 0, 0, 0, 5, 0, 0, 0, 10, 0, 1, 42] @ replicate 10 8] \<and>
    nackCount (outboundStats tr') = 1 \<and> retransmittedPacketsSent (outboundStats tr') = 2) \<and>
   (\<exists>pc' tr' w' p. resendPacketOnNack sample_env ([], 100) (Some (sample_nack 65535 1)) (Some sample_peer) [sample_transceiver 0] =
      Some (STATUS_SUCCESS, Some pc', [tr'], w', [p]) \<and>
    fst w' = [[128, 112, 0, 0, 0, 0, 0, 5, 0, 0, 0, 10, 0, 0, 42] @ replicate 10 7] \<and>
    pRawPacket p = Some [128, 111, 0, 0, 0, 0, 0, 5, 0, 0, 0, 9, 42])"
proof -
  have "nack_expand (0, 1) = [0, 1]" "nack_expand (65535, 1) = [65535, 0]" by code_simp+
  then have ask: "asks (sample_nack 0 1) 9 [0, 1] sample_retransmitter" "asks (sample_nack 65535 1) 9 [65535, 0] sample_retransmitter"
    by (auto intro!: sample_asks)
  have raws: "raw_at (sample_ring 0) 0 = [128, 111, 0, 0, 0, 0, 0, 5, 0, 0, 0, 9, 42]"
      "raw_at (sample_ring 0) 1 = [128, 111, 0, 1, 0, 0, 0, 5, 0, 0, 0, 9, 42]"
    by (simp_all add: raw_at_def sample_ring_window) (simp_all add: sample_ring_def sample_kept_def raw_packet_def)
  have snd: "sender (sample_transceiver 0) = sample_sender\<lparr>retransmitter := Some sample_retransmitter,
        packetBuffer := Some \<lparr>pRollingBuffer = Some (sample_ring 0), lastIndex = 0 + 1\<rparr>\<rparr>"
    "nackCount (outboundStats (sample_transceiver 0)) = 0" "retransmittedPacketsSent (outboundStats (sample_transceiver 0)) = 0"
    by (simp_all add: sample_transceiver_def createKvsRtpTransceiver_def little_endian_host_def zeroStats_def)
  note tgt = sample_target [of 0, OF even_zero, simplified]
  have win: "2 \<le> length (window (sample_ring 0))" "headIndex (sample_ring 0) \<le> 65536" "{0, 1} = {tailIndex (sample_ring 0)..<headIndex (sample_ring 0)}"
    by (auto simp: sample_ring_def)
  have ps: "\<forall>i \<in> set is. \<exists>pk. window (sample_ring 0) ! (i - tailIndex (sample_ring 0)) = Some pk \<and> resendable pk"
    if "set is \<subseteq> {0, 1}" for "is"
    using that tgt(2) win(1) by (auto simp: all_resendable_def sample_ring_def)
  have out: "resent (\<lambda>x m. m @ replicate 10 (word_of_nat x)) (\<lambda>x m. x + 1) (sender (sample_transceiver 0)) 7
      (map (raw_at (sample_ring 0)) [0, 1]) =
    [[128, 112, 0, 0, 0, 0, 0, 5, 0, 0, 0, 10, 0, 0, 42] @ replicate 10 7,
     [128, 112, 0, 1, 0, 0, 0, 5, 0, 0, 0, 10, 0, 1, 42] @ replicate 10 8]"
    "resent (\<lambda>x m. m @ replicate 10 (word_of_nat x)) (\<lambda>x m. x + 1) (sender (sample_transceiver 0)) 7
      (map (raw_at (sample_ring 0)) [0]) = [[128, 112, 0, 0, 0, 0, 0, 5, 0, 0, 0, 10, 0, 0, 42] @ replicate 10 7]"
    by (simp_all only: list.map raws) (simp_all add: resent_def snd sample_sender_def rtx_wire_def rtp_body_def bytes16_def bytes32_def)
  note run = nack_resends_packets [OF sample_transport.media_transport_axioms tgt(3) _ tgt(1) win _ _ _ ps refl refl, where w = "([], 100)"]
  show ?thesis
    using run [OF ask(1), of "[0, 1]" "[0, 1]"] run [OF ask(2), of "[65535, 0]" "[0]"] out raws(1) snd(2,3)
    by (auto simp: map_eq_Cons_conv)
qed

text \<open>
  C29. A packet is put back under its sequence number instead of its index.  Once the window
  has left the first 65536 indices the two differ: the packet is sent, but then it is released
  instead of being kept, and the next request for it sends nothing although its index is still in
  the window.
\<close>

theorem nack_answered_once:
  assumes "media_transport E datagrams seal advance" "connected pc sess"
    and "requests pkt r [i] rt rb" "nack_target trs r k rt rrb rb"
    and "all_resendable (window rb)" "65536 \<le> tailIndex rb"
  shows "\<exists>pc' trs' trs'' w' p. resendPacketOnNack E w (Some pkt) (Some pc) trs = Some (STATUS_SUCCESS, Some pc', trs', w', [p]) \<and>
    pRawPacket p = Some (raw_at rb i) \<and>
    datagrams w' = datagrams w @ resent seal advance (sender (trs ! k)) (srtp_transmit_session sess) [raw_at rb i] \<and>
    resendPacketOnNack E w' (Some pkt) (Some pc') trs' = Some (STATUS_SUCCESS, Some pc', trs'', w', [])"
proof -
  obtain pc' sess' tr' w' rt' rrb' rb' p where once:
    "resendPacketOnNack E w (Some pkt) (Some pc) trs = Some (STATUS_SUCCESS, Some pc', trs[k := tr'], w', [p])"
    "pRawPacket p = Some (raw_at rb i)" "connected pc' sess'"
    "datagrams w' = datagrams w @ resent seal advance (sender (trs ! k)) (srtp_transmit_session sess) [raw_at rb i]"
    "requests pkt r [i] rt' rb'" "nack_target (trs[k := tr']) r k rt' rrb' rb'" "window rb' ! (i - tailIndex rb') = None"
    by (rule resendPacketOnNack_released [OF assms refl])
  from resendPacketOnNack_empty [OF media_transport.host [OF assms(1)] once(5-7)] once(1,2,4) show ?thesis by blast
qed

theorem nack_answered_once_witness:
  "\<exists>pc' trs' trs'' w' p. resendPacketOnNack sample_env ([], 100) (Some (sample_nack 0 0)) (Some sample_peer) [sample_transceiver 65536] =
      Some (STATUS_SUCCESS, Some pc', trs', w', [p]) \<and> fst w' = [[128, 112, 0, 0, 0, 0, 0, 5, 0, 0, 0, 10, 0, 0, 42] @ replicate 10 7] \<and>
    resendPacketOnNack sample_env w' (Some (sample_nack 0 0)) (Some pc') trs' = Some (STATUS_SUCCESS, Some pc', trs'', w', [])"
proof -
  have "nack_expand (0, 0) = [0]" by code_simp
  then have req: "requests (sample_nack 0 0) 9 [65536] sample_retransmitter (sample_ring 65536)"
    by (auto simp: requests_def asks_def sample_nack_def sample_retransmitter_def nack_payload_def nack_entry_def GET_UINT16_SEQ_NUM_def
        sample_ring_window intro!: exI [of _ 77] exI [of _ "[(0, 0)]"]) (simp_all add: sample_ring_def)
  have raw: "raw_at (sample_ring 65536) 65536 = [128, 111, 0, 0, 0, 0, 0, 5, 0, 0, 0, 9, 42]"
    by (simp add: raw_at_def sample_ring_window) (simp add: sample_ring_def sample_kept_def raw_packet_def)
  have high: "65536 \<le> tailIndex (sample_ring 65536)" by (simp add: sample_ring_def)
  note tgt = sample_target [of 65536, simplified]
  have out: "resent (\<lambda>x m. m @ replicate 10 (word_of_nat x)) (\<lambda>x m. x + 1) (sender (sample_transceiver 65536)) 7
      [raw_at (sample_ring 65536) 65536] = [[128, 112, 0, 0, 0, 0, 0, 5, 0, 0, 0, 10, 0, 0, 42] @ replicate 10 7]"
    unfolding raw by (simp add: resent_def sample_transceiver_def sample_sender_def rtx_wire_def rtp_body_def bytes16_def bytes32_def)
  show ?thesis
    using nack_answered_once [OF sample_transport.media_transport_axioms tgt(3) req tgt(1,2) high, where w = "([], 100)"] out
    by auto
qed

end
