(* ===== verification/RtcpDispatch.thy ===== *)
theory RtcpDispatch
  imports Retransmission
begin

text \<open>
  \<^verbatim>\<open>src/source/PeerConnection/Rtcp.c\<close>: the handlers of the RTCP messages and \<^verbatim>\<open>onRtcpPacket\<close>, which
  cuts a compound packet into messages and hands each to its handler.  A callback is a flag of the
  transceiver, its calls are counted or collected there.  The loop carries fuel; running out of it
  is a value of its own, so that the loop ending can be stated.
\<close>

subsection \<open>Handlers\<close>

record ('h, 't, 'x, 'n) RtcpState =
  rc_peer :: "('t, 'x) KvsPeer"
  rc_transceivers :: "'h KvsRtpTransceiver list"
  rc_world :: 'n

abbreviation updateTransceiver ::
  "nat \<Rightarrow> ('h KvsRtpTransceiver \<Rightarrow> 'h KvsRtpTransceiver) \<Rightarrow> ('h, 't, 'x, 'n) RtcpState \<Rightarrow> ('h, 't, 'x, 'n) RtcpState" where
  "updateTransceiver k f s \<equiv> s\<lparr>rc_transceivers := (rc_transceivers s)[k := f (rc_transceivers s ! k)]\<rparr>"

definition notifyPictureLoss :: "'h KvsRtpTransceiver \<Rightarrow> 'h KvsRtpTransceiver" where
  "notifyPictureLoss tr = (if onPictureLoss tr then tr\<lparr>pictureLosses := pictureLosses tr + 1\<rparr> else tr)"

definition onRtcpFIRPacket ::
  "platform \<Rightarrow> RtcpPacket \<Rightarrow> ('h, 't, 'x, 'n) RtcpState \<Rightarrow> (STATUS \<times> ('h, 't, 'x, 'n) RtcpState) option" where
  "onRtcpFIRPacket P pkt s =
     do {
       mediaSSRC \<leftarrow> rdUnalignedInt32 P (rtcpPayload pkt) 4;
       case findTransceiverBySsrc (Some (rc_transceivers s)) mediaSSRC of
         (_, None) \<Rightarrow> Some (STATUS_SUCCESS, s)
       | (_, Some k) \<Rightarrow>
           Some (STATUS_SUCCESS, updateTransceiver k (\<lambda>tr. notifyPictureLoss
             (tr\<lparr>outboundStats := (outboundStats tr)\<lparr>firCount := wrap32 (firCount (outboundStats tr) + 1)\<rparr>\<rparr>)) s) }"

definition onRtcpSLIPacket ::
  "platform \<Rightarrow> RtcpPacket \<Rightarrow> ('h, 't, 'x, 'n) RtcpState \<Rightarrow> (STATUS \<times> ('h, 't, 'x, 'n) RtcpState) option" where
  "onRtcpSLIPacket P pkt s =
     do {
       mediaSSRC \<leftarrow> rdUnalignedInt32 P (rtcpPayload pkt) 4;
       case findTransceiverBySsrc (Some (rc_transceivers s)) mediaSSRC of
         (_, None) \<Rightarrow> Some (STATUS_SUCCESS, s)
       | (_, Some k) \<Rightarrow>
           Some (STATUS_SUCCESS, updateTransceiver k
             (\<lambda>tr. tr\<lparr>outboundStats := (outboundStats tr)\<lparr>sliCount := wrap32 (sliCount (outboundStats tr) + 1)\<rparr>\<rparr>) s) }"

text \<open>A sender report is only read and logged.\<close>

definition onRtcpSenderReport ::
  "platform \<Rightarrow> RtcpPacket \<Rightarrow> ('h, 't, 'x, 'n) RtcpState \<Rightarrow> (STATUS \<times> ('h, 't, 'x, 'n) RtcpState) option" where
  "onRtcpSenderReport P pkt s =
     (if rtcpPayloadLength pkt \<noteq> 24 then Some (STATUS_SUCCESS, s)
      else do {
        senderSSRC \<leftarrow> rdUnalignedInt32 P (rtcpPayload pkt) 0;
        case findTransceiverBySsrc (Some (rc_transceivers s)) senderSSRC of
          (_, None) \<Rightarrow> Some (STATUS_SUCCESS, s)
        | (_, Some _) \<Rightarrow> do { _ \<leftarrow> rdn (rtcpPayload pkt) 4 20; Some (STATUS_SUCCESS, s) } })"

definition MID_NTP :: "u64 \<Rightarrow> u32" where
  "MID_NTP currentTimeNTP = ucast (drop_bit 16 currentTimeNTP)"

text \<open>
  The round trip \<open>A - LSR - DLSR\<close> in 1/65536 s, and in milliseconds; the multiplication by 1000 is
  one of 32 bits.
\<close>

definition roundTripMsec :: "u64 \<Rightarrow> u32 \<Rightarrow> u32 \<Rightarrow> nat" where
  "roundTripMsec currentTimeNTP lastSR delaySinceLastSR =
     (if lastSR = 0 then 0
      else wrap32 (unat (MID_NTP currentTimeNTP - lastSR - delaySinceLastSR) * 1000) div 65536)"

definition onRtcpReceiverReport ::
  "('t, 'x, 'n) media_env \<Rightarrow> RtcpPacket \<Rightarrow> ('h, 't, 'x, 'n) RtcpState \<Rightarrow> (STATUS \<times> ('h, 't, 'x, 'n) RtcpState) option" where
  "onRtcpReceiverReport E pkt s0 =
     (let (now, w) = getTime (env_world E) (rc_world s0);
          currentTimeNTP = convertTimestampToNTP (word_of_nat now);
          s = s0\<lparr>rc_world := w\<rparr>;
          P = env_platform E
      in if rtcpPayloadLength pkt \<noteq> 28 then Some (STATUS_SUCCESS, s)
         else do {
           _ \<leftarrow> rdUnalignedInt32 P (rtcpPayload pkt) 0;
           ssrc1 \<leftarrow> rdUnalignedInt32 P (rtcpPayload pkt) 4;
           case findTransceiverBySsrc (Some (rc_transceivers s)) ssrc1 of
             (_, None) \<Rightarrow> Some (STATUS_SUCCESS, s)
           | (_, Some k) \<Rightarrow> do {
               lost \<leftarrow> rd (rtcpPayload pkt) 8;
               _ \<leftarrow> rdn (rtcpPayload pkt) 8 12;
               lastSR \<leftarrow> rdUnalignedInt32 P (rtcpPayload pkt) 20;
               delaySinceLastSR \<leftarrow> rdUnalignedInt32 P (rtcpPayload pkt) 24;
               let msec = roundTripMsec currentTimeNTP lastSR delaySinceLastSR;
               Some (STATUS_SUCCESS, updateTransceiver k (\<lambda>tr. let rs = remoteInboundStats tr in
                 tr\<lparr>remoteInboundStats := rs\<lparr>reportsReceived := wrap64 (reportsReceived rs + 1),
                      fractionLost := ddiv (dnat (unat lost)) 255,
                      roundTripTimeMeasurements := wrap64 (roundTripTimeMeasurements rs + 1),
                      totalRoundTripTime := wrap64 (totalRoundTripTime rs + msec), roundTripTime := msec\<rparr>\<rparr>) s) } })"

fun rembNotify :: "nat \<Rightarrow> u32 list \<Rightarrow> 'h KvsRtpTransceiver list \<Rightarrow> 'h KvsRtpTransceiver list" where
  "rembNotify bitRate [] trs = trs"
| "rembNotify bitRate (ss # sss) trs =
     (case findTransceiverBySsrc (Some trs) ss of
        (_, None) \<Rightarrow> rembNotify bitRate sss trs
      | (_, Some k) \<Rightarrow>
          let tr = trs ! k in
          rembNotify bitRate sss
            (if onBandwidthEstimation tr then trs[k := tr\<lparr>bandwidthEstimations := bandwidthEstimations tr @ [of_nat bitRate]\<rparr>] else trs))"

definition onRtcpRembPacket ::
  "platform \<Rightarrow> RtcpPacket option \<Rightarrow> ('h, 't, 'x, 'n) RtcpState option \<Rightarrow> (STATUS \<times> ('h, 't, 'x, 'n) RtcpState option) option" where
  "onRtcpRembPacket P pRtcpPacket ps =
     (case (ps, pRtcpPacket) of
        (Some s, Some pkt) \<Rightarrow> do {
          (st, bitRate, ssrcs, n) \<leftarrow> rembValueGet P (Some (rtcpPayload pkt)) (rtcpPayloadLength pkt) (replicate 255 0);
          if STATUS_FAILED st then Some (st, Some s)
          else Some (STATUS_SUCCESS, Some (s\<lparr>rc_transceivers := rembNotify bitRate (take n ssrcs) (rc_transceivers s)\<rparr>)) }
      | _ \<Rightarrow> Some (STATUS_NULL_ARG, ps))"

definition onRtcpPLIPacket ::
  "('t, 'x, 'n) media_env \<Rightarrow> RtcpPacket option \<Rightarrow> ('h, 't, 'x, 'n) RtcpState option \<Rightarrow>
   (STATUS \<times> ('h, 't, 'x, 'n) RtcpState option) option" where
  "onRtcpPLIPacket E pRtcpPacket ps =
     (case (ps, pRtcpPacket) of
        (Some s, Some pkt) \<Rightarrow> do {
          mediaSSRC \<leftarrow> rdUnalignedInt32 (env_platform E) (rtcpPayload pkt) 4;
          case findTransceiverBySsrc (Some (rc_transceivers s)) mediaSSRC of
            (st, None) \<Rightarrow> Some (env_chkStatusErr E st STATUS_RTCP_INPUT_SSRC_INVALID, Some s)
          | (_, Some k) \<Rightarrow>
              Some (STATUS_SUCCESS, Some (updateTransceiver k (\<lambda>tr. notifyPictureLoss
                (tr\<lparr>outboundStats := (outboundStats tr)\<lparr>pliCount := wrap32 (pliCount (outboundStats tr) + 1)\<rparr>\<rparr>)) s)) }
      | _ \<Rightarrow> Some (STATUS_NULL_ARG, ps))"

subsection \<open>Compound packets\<close>

text \<open>One message: the packet type, then the feedback type.\<close>

definition dispatchRtcp ::
  "('t, 'x, 'n) media_env \<Rightarrow> RtcpPacket \<Rightarrow> ('h, 't, 'x, 'n) RtcpState \<Rightarrow> (STATUS \<times> ('h, 't, 'x, 'n) RtcpState) option" where
  "dispatchRtcp E pkt s =
     (let P = env_platform E; kind = rtcpPacketType (rtcpHeader pkt); fmt = receptionReportCount (rtcpHeader pkt) in
      if kind = 192 then onRtcpFIRPacket P pkt s
      else if kind = 205 then
        (if fmt = 1 then do {
           (st, pc, trs, w, _) \<leftarrow> resendPacketOnNack E (rc_world s) (Some pkt) (Some (rc_peer s)) (rc_transceivers s);
           pc' \<leftarrow> pc;
           Some (st, s\<lparr>rc_peer := pc', rc_transceivers := trs, rc_world := w\<rparr>) }
         else if fmt = 15 then do {
           (st, tw, _) \<leftarrow> onRtcpTwccPacket (env_twcc E) P (Some pkt) (Some (twccPeer (rc_peer s)));
           tw' \<leftarrow> tw;
           Some (st, s\<lparr>rc_peer := (rc_peer s)\<lparr>twccPeer := tw'\<rparr>\<rparr>) }
         else Some (STATUS_SUCCESS, s))
      else if kind = 206 then do {
        remb \<leftarrow> (if fmt = 15 then isRembPacket (Some (rtcpPayload pkt)) (rtcpPayloadLength pkt) else Some STATUS_INVALID_ARG);
        if fmt = 15 \<and> remb = STATUS_SUCCESS
        then do { (st, ps) \<leftarrow> onRtcpRembPacket P (Some pkt) (Some s); s' \<leftarrow> ps; Some (st, s') }
        else if fmt = 1 then do { (st, ps) \<leftarrow> onRtcpPLIPacket E (Some pkt) (Some s); s' \<leftarrow> ps; Some (st, s') }
        else if fmt = 2 then onRtcpSLIPacket P pkt s
        else Some (STATUS_SUCCESS, s) }
      else if kind = 200 then onRtcpSenderReport P pkt s
      else if kind = 201 then onRtcpReceiverReport E pkt s
      else Some (STATUS_SUCCESS, s))"

datatype 'a run = Returned 'a | OutOfFuel

text \<open>\<^verbatim>\<open>rtcpPacket\<close> is a local variable that starts uninitialised and is refilled in every round.\<close>

fun rtcpLoop ::
  "('t, 'x, 'n) media_env \<Rightarrow> nat \<Rightarrow> byte list \<Rightarrow> nat \<Rightarrow> nat \<Rightarrow> RtcpPacket \<Rightarrow> ('h, 't, 'x, 'n) RtcpState \<Rightarrow>
   (STATUS \<times> ('h, 't, 'x, 'n) RtcpState) run option" where
  "rtcpLoop E 0 buf buffLen currentOffset pkt s = Some OutOfFuel"
| "rtcpLoop E (Suc fuel) buf buffLen currentOffset pkt s =
     (if currentOffset < buffLen then do {
        (st, ppkt) \<leftarrow> setRtcpPacketFromBytes (env_platform E) (drop currentOffset buf) (sub32 buffLen currentOffset) (Some pkt);
        if STATUS_FAILED st then Some (Returned (st, s))
        else do {
          pkt' \<leftarrow> ppkt;
          (st2, s') \<leftarrow> dispatchRtcp E pkt' s;
          if STATUS_FAILED st2 then Some (Returned (st2, s'))
          else rtcpLoop E fuel buf buffLen (wrap32 (currentOffset + wrap32 (rtcpPayloadLength pkt' + 4))) pkt' s' } }
      else Some (Returned (STATUS_SUCCESS, s)))"

definition onRtcpPacket ::
  "('t, 'x, 'n) media_env \<Rightarrow> RtcpPacket \<Rightarrow> nat \<Rightarrow> ('h, 't, 'x, 'n) RtcpState option \<Rightarrow> byte list option \<Rightarrow> nat \<Rightarrow>
   (STATUS \<times> ('h, 't, 'x, 'n) RtcpState option) run option" where
  "onRtcpPacket E garbage fuel ps pBuff buffLen =
     (case (ps, pBuff) of
        (Some s, Some buf) \<Rightarrow> do {
          r \<leftarrow> rtcpLoop E fuel buf buffLen 0 garbage s;
          Some (case r of OutOfFuel \<Rightarrow> OutOfFuel | Returned (st, s') \<Rightarrow> Returned (st, Some s')) }
      | _ \<Rightarrow> Some (Returned (STATUS_NULL_ARG, ps)))"

subsection \<open>The loop ends\<close>

lemma setRtcpPacketFromBytes_within:
  assumes "setRtcpPacketFromBytes P raw n (Some pk) = Some (STATUS_SUCCESS, ppk)"
  obtains pk' where "ppk = Some pk'" "rtcpPayloadLength pk' + 4 \<le> n" "rtcpPayloadLength pk' = 4 * rtcpPacketLength (rtcpHeader pk')"
  using assms by (auto simp: setRtcpPacketFromBytes_def Let_def split: if_splits Option.bind_splits)

text \<open>With one round for every four bytes left, more fuel changes nothing and none is missing.\<close>

lemma rtcpLoop_ends:
  fixes s :: "('h, 't, 'x, 'n) RtcpState"
  assumes "n < 2 ^ 32" "off \<le> n" "(n - off) div 4 < fuel"
  shows "rtcpLoop E fuel buf n off pk s \<noteq> Some OutOfFuel \<and> rtcpLoop E (fuel + extra) buf n off pk s = rtcpLoop E fuel buf n off pk s"
  using assms
proof (induction fuel arbitrary: off pk s)
  case (Suc fuel)
  show ?case
  proof (cases "off < n")
    case True
    have rem: "sub32 n off = n - off" using Suc.prems True by simp
    have rest: "rtcpLoop E fuel buf n off' pk' s' \<noteq> Some OutOfFuel \<and>
        rtcpLoop E (fuel + extra) buf n off' pk' s' = rtcpLoop E fuel buf n off' pk' s'"
      if "setRtcpPacketFromBytes (env_platform E) (drop off buf) (n - off) (Some pk) = Some (STATUS_SUCCESS, Some pk')"
        "off' = wrap32 (off + wrap32 (rtcpPayloadLength pk' + 4))" for off' pk' and s' :: "('h, 't, 'x, 'n) RtcpState"
    proof -
      have le: "off + (rtcpPayloadLength pk' + 4) \<le> n"
        by (rule setRtcpPacketFromBytes_within [OF that(1)]) (use True in simp)
      then have off': "off' = off + (rtcpPayloadLength pk' + 4)" using that(2) Suc.prems(1) by simp
      have "(n - off') div 4 + 1 = (n - off' + 4) div 4" by simp
      also have "\<dots> \<le> (n - off) div 4" by (rule div_le_mono) (use le off' in simp)
      finally have "(n - off') div 4 < fuel" using Suc.prems(3) by simp
      then show ?thesis using Suc.IH [of off'] Suc.prems(1) le off' by simp
    qed
    show ?thesis
      using True rest by (auto simp: rem split: Option.bind_split prod.split)
  qed simp
qed simp

subsection \<open>Properties\<close>

text \<open>
  C30. Reading a compound packet ends.  Whatever the bytes and whatever the handlers do to the
  connection, the loop of \<open>onRtcpPacket\<close> makes at most one round for every four bytes of the buffer:
  with that much fuel it never runs out, and more fuel gives the same result.
\<close>

theorem rtcp_loop_terminates:
  assumes "buffLen < 2 ^ 32" "buffLen div 4 < fuel"
  shows "onRtcpPacket E garbage fuel ps pBuff buffLen \<noteq> Some OutOfFuel \<and>
    onRtcpPacket E garbage (fuel + extra) ps pBuff buffLen = onRtcpPacket E garbage fuel ps pBuff buffLen"
  using rtcpLoop_ends [OF assms(1), of 0 fuel E _ garbage _ extra] assms(2)
  by (auto simp: onRtcpPacket_def split: option.split Option.bind_split run.splits)

lemma rtcpLoop_step:
  "0 < fuel \<Longrightarrow> rtcpLoop E fuel buf n off pk s =
     (if off < n then do {
        (st, ppkt) \<leftarrow> setRtcpPacketFromBytes (env_platform E) (drop off buf) (sub32 n off) (Some pk);
        if STATUS_FAILED st then Some (Returned (st, s))
        else do {
          pkt' \<leftarrow> ppkt;
          (st2, s') \<leftarrow> dispatchRtcp E pkt' s;
          if STATUS_FAILED st2 then Some (Returned (st2, s'))
          else rtcpLoop E (fuel - 1) buf n (wrap32 (off + wrap32 (rtcpPayloadLength pkt' + 4))) pkt' s' } }
      else Some (Returned (STATUS_SUCCESS, s)))"
  by (cases fuel) (simp, simp only: rtcpLoop.simps diff_Suc_1)

text \<open>A message of length 0, of an unknown type, followed by a slice loss indication for a known stream.\<close>

theorem rtcp_loop_terminates_witness:
  "onRtcpPacket sample_env (sample_nack 0 0) 7
     (Some \<lparr>rc_peer = sample_peer, rc_transceivers = [sample_transceiver 0], rc_world = ([], 100)\<rparr>)
     (Some [128, 77, 0, 0, 130, 206, 0, 2, 0, 0, 0, 0, 0, 0, 0, 9]) 16 =
   Some (Returned (STATUS_SUCCESS, Some \<lparr>rc_peer = sample_peer, rc_transceivers = [(sample_transceiver 0)\<lparr>outboundStats :=
     (outboundStats (sample_transceiver 0))\<lparr>sliCount := 1\<rparr>\<rparr>], rc_world = ([], 100)\<rparr>))"
proof -
  let ?buf = "[128, 77, 0, 0, 130, 206, 0, 2, 0, 0, 0, 0, 0, 0, 0, 9] :: byte list"
  define pk1 where "pk1 = \<lparr>rtcpHeader = \<lparr>rtcpVersion = 2, receptionReportCount = 0, rtcpPacketType = 77, rtcpPacketLength = 0\<rparr>,
      rtcpPayload = drop 4 ?buf, rtcpPayloadLength = 0\<rparr>"
  define pk2 where "pk2 = \<lparr>rtcpHeader = \<lparr>rtcpVersion = 2, receptionReportCount = 2, rtcpPacketType = 206, rtcpPacketLength = 2\<rparr>,
      rtcpPayload = drop 8 ?buf, rtcpPayloadLength = 8\<rparr>"
  define s where "s = \<lparr>rc_peer = sample_peer, rc_transceivers = [sample_transceiver 0], rc_world = ([] :: byte list list, 100 :: nat)\<rparr>"
  define s' where "s' = \<lparr>rc_peer = sample_peer, rc_transceivers = [(sample_transceiver 0)\<lparr>outboundStats :=
     (outboundStats (sample_transceiver 0))\<lparr>sliCount := 1\<rparr>\<rparr>], rc_world = ([] :: byte list list, 100 :: nat)\<rparr>"
  have P: "env_platform sample_env = little_endian_host" by (simp add: sample_env_def)
  have tr: "snd_ssrc (sender (sample_transceiver 0)) = 9" "sliCount (outboundStats (sample_transceiver 0)) = 0"
    by (simp_all add: sample_transceiver_def sample_sender_def createKvsRtpTransceiver_def little_endian_host_def zeroStats_def)
  have m1: "setRtcpPacketFromBytes little_endian_host ?buf 16 (Some (sample_nack 0 0)) = Some (STATUS_SUCCESS, Some pk1)"
    by (simp add: setRtcpPacketFromBytes_def le_host.rdInt16_eq rd_def be16_def sample_nack_def pk1_def)
  have m2: "setRtcpPacketFromBytes little_endian_host (drop 4 ?buf) 12 (Some pk1) = Some (STATUS_SUCCESS, Some pk2)"
    by (simp add: setRtcpPacketFromBytes_def le_host.rdInt16_eq rd_def be16_def pk2_def pk1_def)
  have d1: "dispatchRtcp sample_env pk1 s = Some (STATUS_SUCCESS, s)" by (simp add: dispatchRtcp_def pk1_def)
  have d2: "dispatchRtcp sample_env pk2 s = Some (STATUS_SUCCESS, s')"
    using tr by (simp add: dispatchRtcp_def pk2_def onRtcpSLIPacket_def P le_host.rdUnalignedInt32_eq le_host.rdInt32_eq be32_def
        findTransceiverBySsrc_def s_def s'_def)
  have "onRtcpPacket sample_env (sample_nack 0 0) 5 (Some s) (Some ?buf) 16 = Some (Returned (STATUS_SUCCESS, Some s'))"
    unfolding onRtcpPacket_def using m1 m2 d1 d2 by (simp add: rtcpLoop_step P) (simp add: rtcpLoop_step pk1_def pk2_def)
  then show ?thesis
    using rtcp_loop_terminates [of 16 5 sample_env "sample_nack 0 0" "Some s" "Some ?buf" 2] by (simp add: s_def s'_def)
qed

end
