(* ===== verification/TransactionIds.thy ===== *)
theory TransactionIds
  imports KvsPrelude
begin

text \<open>
  \<^verbatim>\<open>src/source/Ice/IceUtils.c\<close>, the store of STUN transaction ids: a ring of 12-byte slots in one
  zeroed allocation.  The store is searched in all slots, whatever the counters say.  \<open>None\<close> is an
  access outside the allocation.
\<close>

subsection \<open>Operations\<close>

record TransactionIdStore =
  maxTransactionIdsCount :: nat
  nextTransactionIdIndex :: nat
  earliestTransactionIdIndex :: nat
  transactionIdCount :: nat
  transactionIds :: "byte list"

abbreviation (input) STUN_TRANSACTION_ID_LEN :: nat where
  "STUN_TRANSACTION_ID_LEN \<equiv> 12"

definition SIZEOF_TransactionIdStore :: nat where
  "SIZEOF_TransactionIdStore = 24"

definition createTransactionIdStore :: "platform \<Rightarrow> nat \<Rightarrow> STATUS \<times> TransactionIdStore option" where
  "createTransactionIdStore P maxIdCount =
     (if \<not> (maxIdCount < 100 \<and> maxIdCount > 0) then (STATUS_INVALID_ARG, None)
      else if \<not> memalloc P (SIZEOF_TransactionIdStore + STUN_TRANSACTION_ID_LEN * maxIdCount) then (STATUS_NOT_ENOUGH_MEMORY, None)
      else (STATUS_SUCCESS, Some \<lparr>maxTransactionIdsCount = maxIdCount, nextTransactionIdIndex = 0, earliestTransactionIdIndex = 0,
              transactionIdCount = 0, transactionIds = replicate (STUN_TRANSACTION_ID_LEN * maxIdCount) 0\<rparr>))"

definition freeTransactionIdStore :: "TransactionIdStore option \<Rightarrow> STATUS \<times> TransactionIdStore option" where
  "freeTransactionIdStore pStore = (STATUS_SUCCESS, None)"

definition transactionIdStoreInsert :: "TransactionIdStore \<Rightarrow> byte list \<Rightarrow> TransactionIdStore option" where
  "transactionIdStoreInsert s transactionId =
     do {
       ident \<leftarrow> rdn transactionId 0 STUN_TRANSACTION_ID_LEN;
       ids \<leftarrow> memwrite (transactionIds s) ((nextTransactionIdIndex s mod maxTransactionIdsCount s) * STUN_TRANSACTION_ID_LEN) ident;
       let next = (nextTransactionIdIndex s + 1) mod maxTransactionIdsCount s;
       let s1 = s\<lparr>transactionIds := ids, nextTransactionIdIndex := next\<rparr>;
       if next = earliestTransactionIdIndex s
       then Some (s1\<lparr>earliestTransactionIdIndex := (earliestTransactionIdIndex s + 1) mod maxTransactionIdsCount s\<rparr>)
       else Some (s1\<lparr>transactionIdCount := min (transactionIdCount s + 1) (maxTransactionIdsCount s)\<rparr>) }"

text \<open>The search of both loops: \<open>n\<close> slots from slot \<open>i\<close> on, cyclically; the first slot that holds the id.\<close>

fun findTransactionId :: "TransactionIdStore \<Rightarrow> byte list \<Rightarrow> nat \<Rightarrow> nat \<Rightarrow> nat option option" where
  "findTransactionId s ident i 0 = Some None"
| "findTransactionId s ident i (Suc n) =
     do {
       slot \<leftarrow> rdn (transactionIds s) (i * STUN_TRANSACTION_ID_LEN) STUN_TRANSACTION_ID_LEN;
       if ident = slot then Some (Some i)
       else findTransactionId s ident ((i + 1) mod maxTransactionIdsCount s) n }"

definition transactionIdStoreHasId :: "TransactionIdStore \<Rightarrow> byte list \<Rightarrow> bool option" where
  "transactionIdStoreHasId s transactionId =
     do {
       ident \<leftarrow> rdn transactionId 0 STUN_TRANSACTION_ID_LEN;
       found \<leftarrow> findTransactionId s ident (earliestTransactionIdIndex s) (maxTransactionIdsCount s);
       Some (found \<noteq> None) }"

definition transactionIdStoreRemove :: "TransactionIdStore \<Rightarrow> byte list \<Rightarrow> TransactionIdStore option" where
  "transactionIdStoreRemove s transactionId =
     do {
       ident \<leftarrow> rdn transactionId 0 STUN_TRANSACTION_ID_LEN;
       found \<leftarrow> findTransactionId s ident (earliestTransactionIdIndex s) (maxTransactionIdsCount s);
       case found of
         None \<Rightarrow> Some s
       | Some i \<Rightarrow> do {
           ids \<leftarrow> memwrite (transactionIds s) (i * STUN_TRANSACTION_ID_LEN) (replicate STUN_TRANSACTION_ID_LEN 0);
           Some (s\<lparr>transactionIds := ids\<rparr>) } }"

definition transactionIdStoreClear :: "TransactionIdStore \<Rightarrow> TransactionIdStore" where
  "transactionIdStoreClear s = s\<lparr>nextTransactionIdIndex := 0, earliestTransactionIdIndex := 0, transactionIdCount := 0\<rparr>"

text \<open>\<^verbatim>\<open>RAND\<close> is a parameter: it returns a number and the next state of the generator.\<close>

fun randomBytes :: "('r \<Rightarrow> nat \<times> 'r) \<Rightarrow> 'r \<Rightarrow> nat \<Rightarrow> byte list \<times> 'r" where
  "randomBytes rand r 0 = ([], r)"
| "randomBytes rand r (Suc n) =
     (let (v, r1) = rand r; (bs, r2) = randomBytes rand r1 n in (word_of_nat (v mod 256) # bs, r2))"

definition iceUtilsGenerateTransactionId ::
  "('r \<Rightarrow> nat \<times> 'r) \<Rightarrow> 'r \<Rightarrow> byte list option \<Rightarrow> nat \<Rightarrow> (STATUS \<times> byte list option \<times> 'r) option" where
  "iceUtilsGenerateTransactionId rand r pBuffer bufferLen =
     (case pBuffer of
        None \<Rightarrow> Some (STATUS_NULL_ARG, None, r)
      | Some buf \<Rightarrow>
          if bufferLen \<noteq> STUN_TRANSACTION_ID_LEN then Some (STATUS_INVALID_ARG, Some buf, r)
          else (case randomBytes rand r STUN_TRANSACTION_ID_LEN of
                  (bs, r') \<Rightarrow> do { buf' \<leftarrow> memwrite buf 0 bs; Some (STATUS_SUCCESS, Some buf', r') }))"

subsection \<open>The store as a sequence of slots\<close>

definition id_inv :: "TransactionIdStore \<Rightarrow> bool" where
  "id_inv s \<longleftrightarrow> 0 < maxTransactionIdsCount s \<and> nextTransactionIdIndex s < maxTransactionIdsCount s \<and>
     earliestTransactionIdIndex s < maxTransactionIdsCount s \<and> transactionIdCount s \<le> maxTransactionIdsCount s \<and>
     length (transactionIds s) = 12 * maxTransactionIdsCount s"

definition id_slot :: "TransactionIdStore \<Rightarrow> nat \<Rightarrow> byte list" where
  "id_slot s i = take 12 (drop (12 * i) (transactionIds s))"

definition id_slots :: "TransactionIdStore \<Rightarrow> byte list list" where
  "id_slots s = map (id_slot s) [0..<maxTransactionIdsCount s]"

lemma rdn_slot: "id_inv s \<Longrightarrow> i < maxTransactionIdsCount s \<Longrightarrow> rdn (transactionIds s) (i * 12) 12 = Some (id_slot s i)"
  by (simp add: rdn_in id_inv_def id_slot_def mult.commute)

lemma find_map_list: "find Q (map f xs) = map_option f (find (\<lambda>x. Q (f x)) xs)"
  by (induction xs) simp_all

text \<open>The cyclic search: over \<open>n\<close> slots from \<open>i\<close> on.\<close>

lemma findTransactionId_eq:
  assumes "id_inv s" "i < maxTransactionIdsCount s"
  shows "findTransactionId s ident i n =
    Some (map_option (\<lambda>j. (i + j) mod maxTransactionIdsCount s)
      (find (\<lambda>j. ident = id_slot s ((i + j) mod maxTransactionIdsCount s)) [0..<n]))"
  using assms
proof (induction n arbitrary: i)
  case (Suc n)
  let ?m = "maxTransactionIdsCount s"
  have nxt: "(i + 1) mod ?m < ?m" using Suc.prems by simp
  have shift: "((i + 1) mod ?m + j) mod ?m = (i + Suc j) mod ?m" for j by (simp add: mod_simps)
  have "find (\<lambda>j. ident = id_slot s ((i + j) mod ?m)) [0..<Suc n] =
      (if ident = id_slot s i then Some 0
       else map_option Suc (find (\<lambda>j. ident = id_slot s ((i + Suc j) mod ?m)) [0..<n]))"
    using Suc.prems by (simp add: upt_rec [of 0] map_Suc_upt [symmetric] find_map_list comp_def del: upt_Suc)
  then show ?case
    using Suc.IH [OF Suc.prems(1) nxt] Suc.prems
    by (simp add: rdn_slot shift [simplified] option.map_comp comp_def)
qed simp

lemma slot_around:
  assumes "e < m" "i < (m :: nat)"
  shows "\<exists>j < m. (e + j) mod m = i"
proof (cases "e \<le> i")
  case True
  then show ?thesis using assms by (intro exI [of _ "i - e"]) simp
next
  case False
  then have "(e + (m - e + i)) mod m = i" using assms by simp
  then show ?thesis using False assms by (intro exI [of _ "m - e + i"]) simp
qed

lemma transactionIdStoreHasId_eq:
  assumes "id_inv s" "length ident = 12"
  shows "transactionIdStoreHasId s ident = Some (ident \<in> set (id_slots s))"
proof -
  let ?m = "maxTransactionIdsCount s" and ?e = "earliestTransactionIdIndex s"
  have e: "?e < ?m" using assms(1) by (simp add: id_inv_def)
  have "(\<exists>j < ?m. ident = id_slot s ((?e + j) mod ?m)) \<longleftrightarrow> (\<exists>i < ?m. ident = id_slot s i)"
    using slot_around [OF e] e by (metis mod_less_divisor neq0_conv not_less0)
  then have "find (\<lambda>j. ident = id_slot s ((?e + j) mod ?m)) [0..<?m] \<noteq> None \<longleftrightarrow> ident \<in> set (id_slots s)"
    by (auto simp only: find_None_iff id_slots_def set_map set_upt image_iff atLeastLessThan_iff)
  then show ?thesis
    using assms e by (simp add: transactionIdStoreHasId_def rdn_in findTransactionId_eq)
qed

lemma take_drop_patch:
  assumes "length w = 12" "12 * k + 12 \<le> length mem"
  shows "take 12 (drop (12 * i) (patch mem (12 * k) w)) = (if i = k then w else take 12 (drop (12 * i) mem))"
proof -
  consider "i = k" | "i < k" | "k < i" by linarith
  then show ?thesis
  proof cases
    case 2
    then have le: "12 * i + 12 \<le> 12 * k" by simp
    then have "12 \<le> 12 * k - 12 * i" by linarith
    then show ?thesis using 2 assms le by (simp add: patch_def drop_take)
  next
    case 3
    then have "12 * k + 12 \<le> 12 * i" by simp
    then show ?thesis using 3 assms by (simp add: patch_def)
  qed (use assms in \<open>simp add: patch_def\<close>)
qed

lemma write_slot:
  assumes "id_inv s" "i < maxTransactionIdsCount s" "length ident = 12"
  shows "\<exists>ids. memwrite (transactionIds s) (i * 12) ident = Some ids \<and> length ids = length (transactionIds s) \<and>
    (\<forall>t. maxTransactionIdsCount t = maxTransactionIdsCount s \<and> transactionIds t = ids \<longrightarrow> id_slots t = (id_slots s)[i := ident])"
proof -
  have room: "12 * i + 12 \<le> length (transactionIds s)" using assms by (simp add: id_inv_def)
  then have "memwrite (transactionIds s) (i * 12) ident = Some (patch (transactionIds s) (12 * i) ident)"
    using assms(3) by (simp add: memwrite_patch mult.commute)
  moreover have "id_slots t = (id_slots s)[i := ident]"
    if "maxTransactionIdsCount t = maxTransactionIdsCount s" "transactionIds t = patch (transactionIds s) (12 * i) ident" for t
    using that assms(2) take_drop_patch [OF assms(3) room]
    by (intro nth_equalityI) (auto simp: id_slots_def id_slot_def nth_list_update)
  ultimately show ?thesis using room assms(3) by auto
qed

lemma transactionIdStoreInsert_ok:
  assumes "id_inv s" "length ident = 12"
  obtains s' where "transactionIdStoreInsert s ident = Some s'" "id_inv s'" "id_slots s' = (id_slots s)[nextTransactionIdIndex s := ident]"
    "nextTransactionIdIndex s' = (nextTransactionIdIndex s + 1) mod maxTransactionIdsCount s"
    "maxTransactionIdsCount s' = maxTransactionIdsCount s"
proof -
  have nxt: "nextTransactionIdIndex s < maxTransactionIdsCount s" "0 < maxTransactionIdsCount s" using assms(1) by (auto simp: id_inv_def)
  from write_slot [OF assms(1) nxt(1) assms(2)] obtain ids where ids:
    "memwrite (transactionIds s) (nextTransactionIdIndex s * 12) ident = Some ids" "length ids = length (transactionIds s)"
    "\<forall>t. maxTransactionIdsCount t = maxTransactionIdsCount s \<and> transactionIds t = ids \<longrightarrow>
       id_slots t = (id_slots s)[nextTransactionIdIndex s := ident]"
    by blast
  show ?thesis
  proof (cases "(nextTransactionIdIndex s + 1) mod maxTransactionIdsCount s = earliestTransactionIdIndex s")
    case True
    show ?thesis
      by (rule that [of "s\<lparr>transactionIds := ids, nextTransactionIdIndex := earliestTransactionIdIndex s,
          earliestTransactionIdIndex := (earliestTransactionIdIndex s + 1) mod maxTransactionIdsCount s\<rparr>"])
        (use True assms ids nxt in \<open>auto simp: transactionIdStoreInsert_def rdn_in id_inv_def Let_def\<close>)
  next
    case False
    show ?thesis
      by (rule that [of "s\<lparr>transactionIds := ids, nextTransactionIdIndex := (nextTransactionIdIndex s + 1) mod maxTransactionIdsCount s,
          transactionIdCount := min (transactionIdCount s + 1) (maxTransactionIdsCount s)\<rparr>"])
        (use False assms ids nxt in \<open>auto simp: transactionIdStoreInsert_def rdn_in id_inv_def Let_def\<close>)
  qed
qed

fun insert_all :: "TransactionIdStore \<Rightarrow> byte list list \<Rightarrow> TransactionIdStore option" where
  "insert_all s [] = Some s"
| "insert_all s (ident # idents) = do { s' \<leftarrow> transactionIdStoreInsert s ident; insert_all s' idents }"

lemma insert_all_append: "insert_all s (xs @ ys) = do { s' \<leftarrow> insert_all s xs; insert_all s' ys }"
  by (induction xs arbitrary: s) (auto split: Option.bind_split)

lemma insert_all_slots:
  assumes "createTransactionIdStore P m = (STATUS_SUCCESS, Some s)" "\<forall>x \<in> set ids. length x = 12"
  shows "\<exists>s'. insert_all s ids = Some s' \<and> id_inv s' \<and> maxTransactionIdsCount s' = m \<and>
    nextTransactionIdIndex s' = length ids mod m \<and>
    (\<forall>k < length ids. length ids \<le> k + m \<longrightarrow> id_slots s' ! (k mod m) = ids ! k) \<and>
    (\<forall>i < m. length ids \<le> i \<longrightarrow> id_slots s' ! i = replicate 12 0)"
  using assms(2)
proof (induction ids rule: rev_induct)
  case Nil
  have "id_inv s" "maxTransactionIdsCount s = m" "\<forall>i < m. id_slots s ! i = replicate 12 0"
    using assms(1) by (auto simp: createTransactionIdStore_def id_inv_def id_slots_def id_slot_def split: if_splits)
  moreover have "nextTransactionIdIndex s = 0" using assms(1) by (auto simp: createTransactionIdStore_def split: if_splits)
  ultimately show ?case by simp
next
  case (snoc x ids)
  let ?n = "length ids"
  from snoc obtain s1 where s1: "insert_all s ids = Some s1" "id_inv s1" "maxTransactionIdsCount s1 = m"
    "nextTransactionIdIndex s1 = ?n mod m" "\<forall>k < ?n. ?n \<le> k + m \<longrightarrow> id_slots s1 ! (k mod m) = ids ! k"
    "\<forall>i < m. ?n \<le> i \<longrightarrow> id_slots s1 ! i = replicate 12 0"
    by auto
  have "length x = 12" using snoc.prems by simp
  from transactionIdStoreInsert_ok [OF s1(2) this] obtain s' where s': "transactionIdStoreInsert s1 x = Some s'" "id_inv s'"
    "id_slots s' = (id_slots s1)[?n mod m := x]" "nextTransactionIdIndex s' = (?n mod m + 1) mod m" "maxTransactionIdsCount s' = m"
    using s1(3,4) by metis
  have m: "0 < m" using s1(2,3) by (simp add: id_inv_def)
  have len: "length (id_slots s1) = m" using s1(3) by (simp add: id_slots_def)
  have old: "id_slots s' ! (k mod m) = ids ! k" if "k < ?n" "?n + 1 \<le> k + m" for k
  proof -
    have "k mod m \<noteq> ?n mod m"
    proof
      assume "k mod m = ?n mod m"
      then have "m dvd ?n - k" using that(1) by (metis less_imp_le_nat mod_eq_dvd_iff_nat)
      then show False using that by (auto dest: dvd_imp_le)
    qed
    then show ?thesis using s1(5) that s'(3) by simp
  qed
  show ?case
  proof (intro exI [of _ s'] conjI allI impI)
    show "insert_all s (ids @ [x]) = Some s'" using s1(1) s'(1) by (simp add: insert_all_append)
    show "nextTransactionIdIndex s' = length (ids @ [x]) mod m" using s'(4) by (simp add: mod_simps)
    show "id_slots s' ! (k mod m) = (ids @ [x]) ! k" if "k < length (ids @ [x])" "length (ids @ [x]) \<le> k + m" for k
      using that old [of k] s'(3) len m by (cases "k < ?n") (auto simp: nth_append less_Suc_eq)
    show "id_slots s' ! i = replicate 12 0" if "i < m" "length (ids @ [x]) \<le> i" for i
      using that s1(6) s'(3) by simp
  qed (use s' in simp_all)
qed

subsection \<open>Properties\<close>

lemma in_last_iff:
  "y \<in> set (drop (length ids - m) ids) \<longleftrightarrow> (\<exists>k < length ids. length ids \<le> k + m \<and> y = ids ! k)"
proof (intro iffI; (elim exE conjE)?)
  assume "y \<in> set (drop (length ids - m) ids)"
  then obtain j where "j < length ids - (length ids - m)" "y = ids ! (length ids - m + j)"
    by (auto simp: in_set_conv_nth)
  then show "\<exists>k < length ids. length ids \<le> k + m \<and> y = ids ! k"
    by (intro exI [of _ "length ids - m + j"]) auto
next
  fix k assume "k < length ids" "length ids \<le> k + m" "y = ids ! k"
  then show "y \<in> set (drop (length ids - m) ids)"
    by (auto simp: in_set_conv_nth intro!: exI [of _ "k - (length ids - m)"])
qed

lemma last_in_slot:
  assumes "i < m" "i < (n :: nat)"
  shows "\<exists>k < n. n \<le> k + m \<and> k mod m = i"
proof -
  define k where "k = n - 1 - (n - 1 - i) mod m"
  have r: "(n - 1 - i) mod m < m" "(n - 1 - i) mod m \<le> n - 1 - i" using assms(1) by simp_all
  have "k < n" "n \<le> k + m" unfolding k_def using assms r by linarith+
  moreover have "k = i + ((n - 1 - i) div m) * m"
    unfolding k_def using assms r(2) minus_mod_eq_div_mult [of "n - 1 - i" m] by linarith
  then have "k mod m = i" using assms by simp
  ultimately show ?thesis by blast
qed

lemma ring_contents:
  assumes "length slots = m" "0 < m" and n: "n = length ids"
    and recent: "\<forall>k < n. n \<le> k + m \<longrightarrow> slots ! (k mod m) = ids ! k"
    and fresh: "\<forall>i < m. n \<le> i \<longrightarrow> slots ! i = z"
  shows "y \<in> set slots \<longleftrightarrow> y \<in> set (drop (n - m) ids) \<or> n < m \<and> y = z"
proof -
  have "y \<in> set slots \<longleftrightarrow> (\<exists>i < m. y = slots ! i)" using assms(1) by (auto simp: in_set_conv_nth)
  also have "\<dots> \<longleftrightarrow> (\<exists>k < n. n \<le> k + m \<and> y = ids ! k) \<or> n < m \<and> y = z"
  proof (intro iffI; elim exE conjE disjE)
    fix i assume i: "i < m" "y = slots ! i"
    show "(\<exists>k < n. n \<le> k + m \<and> y = ids ! k) \<or> n < m \<and> y = z"
    proof (cases "i < n")
      case True
      then obtain k where "k < n" "n \<le> k + m" "k mod m = i" using last_in_slot i(1) by blast
      then show ?thesis using i(2) recent by auto
    qed (use i fresh in auto)
  next
    fix k assume "k < n" "n \<le> k + m" "y = ids ! k"
    then show "\<exists>i < m. y = slots ! i" using recent assms(2) by (intro exI [of _ "k mod m"]) simp
  next
    assume "n < m" "y = z"
    then show "\<exists>i < m. y = slots ! i" using fresh by (intro exI [of _ n]) simp
  qed
  finally show ?thesis unfolding n in_last_iff .
qed

lemma id_slots_clear:
  assumes "id_inv s"
  shows "id_inv (transactionIdStoreClear s)" "id_slots (transactionIdStoreClear s) = id_slots s"
  using assms by (auto simp: id_inv_def transactionIdStoreClear_def id_slots_def id_slot_def)

text \<open>
  C31. The store remembers the last \<open>m\<close> transaction ids: after any sequence of insertions into a
  fresh store an id is found iff it is one of the last \<open>m\<close> inserted, or it is the all-zero id and
  fewer than \<open>m\<close> were inserted.  Clearing the store does not make it forget: every id found before
  is found afterwards.
\<close>

theorem transaction_ids_remembered:
  assumes "createTransactionIdStore P m = (STATUS_SUCCESS, Some s)" "\<forall>x \<in> set ids. length x = 12" "length y = 12"
  shows "\<exists>s'. insert_all s ids = Some s' \<and>
    transactionIdStoreHasId s' y = Some (y \<in> set (drop (length ids - m) ids) \<or> length ids < m \<and> y = replicate 12 0) \<and>
    transactionIdStoreHasId (transactionIdStoreClear s') y = transactionIdStoreHasId s' y"
proof -
  from insert_all_slots [OF assms(1,2)] obtain s' where s': "insert_all s ids = Some s'" "id_inv s'" "maxTransactionIdsCount s' = m"
    and slots: "\<forall>k < length ids. length ids \<le> k + m \<longrightarrow> id_slots s' ! (k mod m) = ids ! k"
      "\<forall>i < m. length ids \<le> i \<longrightarrow> id_slots s' ! i = replicate 12 0"
    by blast
  have m: "length (id_slots s') = m" "0 < m" using s'(2,3) by (auto simp: id_inv_def id_slots_def)
  show ?thesis
    using s'(1) transactionIdStoreHasId_eq [OF s'(2) assms(3)] ring_contents [OF m refl slots, of y]
      transactionIdStoreHasId_eq [OF id_slots_clear(1) [OF s'(2)] assms(3)] id_slots_clear(2) [OF s'(2)]
    by simp
qed

theorem transaction_ids_remembered_witness:
  "\<exists>s'. insert_all (the (snd (createTransactionIdStore little_endian_host 2))) [replicate 12 1, replicate 12 2, replicate 12 3] = Some s' \<and>
    transactionIdStoreHasId s' (replicate 12 1) = Some False \<and> transactionIdStoreHasId (transactionIdStoreClear s') (replicate 12 3) = Some True"
  using transaction_ids_remembered [of little_endian_host 2 "the (snd (createTransactionIdStore little_endian_host 2))"
      "[replicate 12 1, replicate 12 2, replicate 12 3]" "replicate 12 1"]
    transaction_ids_remembered [of little_endian_host 2 "the (snd (createTransactionIdStore little_endian_host 2))"
      "[replicate 12 1, replicate 12 2, replicate 12 3]" "replicate 12 3"]
  by (auto simp: createTransactionIdStore_def little_endian_host_def)

end
