(* ===== verification/Stun.thy ===== *)
theory Stun
  imports MediaTransport TransactionIds
begin

text \<open>
  \<^verbatim>\<open>src/source/Stun/Stun.c\<close>: the in-memory STUN packet, the functions that append attributes to it,
  and its serialiser.

  A packet is one allocation: the struct, the array of attribute pointers, the attributes.  Here an
  entry of \<open>attributeList\<close> is the offset of the attribute in the allocation and its contents; the body
  is chosen by the attribute type the way the source casts by it.  \<open>None\<close> is undefined behaviour.
  \<open>stun_ops\<close> bundles what the code takes from outside: PIC's conversions, HMAC-SHA1, CRC32, the
  byte order and the struct sizes of the target.
\<close>

subsection \<open>Data\<close>

record stun_ops =
  stun_platform :: platform
  putInt16 :: "u16 \<Rightarrow> byte list"
  putInt32 :: "u32 \<Rightarrow> byte list"
  putInt64 :: "u64 \<Rightarrow> byte list"
  getInt64 :: "u64 \<Rightarrow> u64"
  ld64 :: "byte list \<Rightarrow> u64"
  st64 :: "u64 \<Rightarrow> byte list"
  isBigEndian :: bool
  sha1_hmac :: "byte list \<Rightarrow> byte list \<Rightarrow> byte list"
  compute_crc32 :: "byte list \<Rightarrow> u32"
  sizeofAttribute :: "u16 \<Rightarrow> nat"
  sizeofStunPacket :: nat

text \<open>
  \<open>StunString\<close> is the body of the user name, realm, nonce and data attributes: the padded length and
  the padded bytes.  \<open>StunTie\<close> are the twelve bytes behind the header of an ICE control attribute: the
  \<^verbatim>\<open>UINT64\<close> is aligned, so four of them are padding.
\<close>

datatype StunBody =
    StunAddress KvsIpAddress
  | StunString nat "byte list"
  | StunErrorCode nat u16 "byte list"
  | StunWord u32
  | StunQuad "byte list"
  | StunTie "byte list"
  | StunChannel u16 u16
  | StunIntegrity "byte list"
  | StunEmpty

record StunAttribute =
  attr_type :: u16
  attr_length :: u16
  attr_body :: StunBody

record StunHeader =
  stunMessageType :: u16
  messageLength :: u16
  magicCookie :: u32
  transactionId :: "byte list"

record StunPacket =
  stun_header :: StunHeader
  allocationSize :: nat
  attributeList :: "(nat \<times> StunAttribute) list"

abbreviation (input) STUN_HEADER_MAGIC_COOKIE :: u32 where "STUN_HEADER_MAGIC_COOKIE \<equiv> 0x2112A442"
abbreviation (input) STUN_ATTRIBUTE_TYPE_MAPPED_ADDRESS :: u16 where "STUN_ATTRIBUTE_TYPE_MAPPED_ADDRESS \<equiv> 0x0001"
abbreviation (input) STUN_ATTRIBUTE_TYPE_RESPONSE_ADDRESS :: u16 where "STUN_ATTRIBUTE_TYPE_RESPONSE_ADDRESS \<equiv> 0x0002"
abbreviation (input) STUN_ATTRIBUTE_TYPE_CHANGE_REQUEST :: u16 where "STUN_ATTRIBUTE_TYPE_CHANGE_REQUEST \<equiv> 0x0003"
abbreviation (input) STUN_ATTRIBUTE_TYPE_SOURCE_ADDRESS :: u16 where "STUN_ATTRIBUTE_TYPE_SOURCE_ADDRESS \<equiv> 0x0004"
abbreviation (input) STUN_ATTRIBUTE_TYPE_CHANGED_ADDRESS :: u16 where "STUN_ATTRIBUTE_TYPE_CHANGED_ADDRESS \<equiv> 0x0005"
abbreviation (input) STUN_ATTRIBUTE_TYPE_USERNAME :: u16 where "STUN_ATTRIBUTE_TYPE_USERNAME \<equiv> 0x0006"
abbreviation (input) STUN_ATTRIBUTE_TYPE_MESSAGE_INTEGRITY :: u16 where "STUN_ATTRIBUTE_TYPE_MESSAGE_INTEGRITY \<equiv> 0x0008"
abbreviation (input) STUN_ATTRIBUTE_TYPE_ERROR_CODE :: u16 where "STUN_ATTRIBUTE_TYPE_ERROR_CODE \<equiv> 0x0009"
abbreviation (input) STUN_ATTRIBUTE_TYPE_REFLECTED_FROM :: u16 where "STUN_ATTRIBUTE_TYPE_REFLECTED_FROM \<equiv> 0x000B"
abbreviation (input) STUN_ATTRIBUTE_TYPE_CHANNEL_NUMBER :: u16 where "STUN_ATTRIBUTE_TYPE_CHANNEL_NUMBER \<equiv> 0x000C"
abbreviation (input) STUN_ATTRIBUTE_TYPE_LIFETIME :: u16 where "STUN_ATTRIBUTE_TYPE_LIFETIME \<equiv> 0x000D"
abbreviation (input) STUN_ATTRIBUTE_TYPE_XOR_PEER_ADDRESS :: u16 where "STUN_ATTRIBUTE_TYPE_XOR_PEER_ADDRESS \<equiv> 0x0012"
abbreviation (input) STUN_ATTRIBUTE_TYPE_DATA :: u16 where "STUN_ATTRIBUTE_TYPE_DATA \<equiv> 0x0013"
abbreviation (input) STUN_ATTRIBUTE_TYPE_REALM :: u16 where "STUN_ATTRIBUTE_TYPE_REALM \<equiv> 0x0014"
abbreviation (input) STUN_ATTRIBUTE_TYPE_NONCE :: u16 where "STUN_ATTRIBUTE_TYPE_NONCE \<equiv> 0x0015"
abbreviation (input) STUN_ATTRIBUTE_TYPE_XOR_RELAYED_ADDRESS :: u16 where "STUN_ATTRIBUTE_TYPE_XOR_RELAYED_ADDRESS \<equiv> 0x0016"
abbreviation (input) STUN_ATTRIBUTE_TYPE_REQUESTED_ADDRESS_FAMILY :: u16 where "STUN_ATTRIBUTE_TYPE_REQUESTED_ADDRESS_FAMILY \<equiv> 0x0017"
abbreviation (input) STUN_ATTRIBUTE_TYPE_REQUESTED_TRANSPORT :: u16 where "STUN_ATTRIBUTE_TYPE_REQUESTED_TRANSPORT \<equiv> 0x0019"
abbreviation (input) STUN_ATTRIBUTE_TYPE_DONT_FRAGMENT :: u16 where "STUN_ATTRIBUTE_TYPE_DONT_FRAGMENT \<equiv> 0x001A"
abbreviation (input) STUN_ATTRIBUTE_TYPE_XOR_MAPPED_ADDRESS :: u16 where "STUN_ATTRIBUTE_TYPE_XOR_MAPPED_ADDRESS \<equiv> 0x0020"
abbreviation (input) STUN_ATTRIBUTE_TYPE_PRIORITY :: u16 where "STUN_ATTRIBUTE_TYPE_PRIORITY \<equiv> 0x0024"
abbreviation (input) STUN_ATTRIBUTE_TYPE_USE_CANDIDATE :: u16 where "STUN_ATTRIBUTE_TYPE_USE_CANDIDATE \<equiv> 0x0025"
abbreviation (input) STUN_ATTRIBUTE_TYPE_FINGERPRINT :: u16 where "STUN_ATTRIBUTE_TYPE_FINGERPRINT \<equiv> 0x8028"
abbreviation (input) STUN_ATTRIBUTE_TYPE_ICE_CONTROLLED :: u16 where "STUN_ATTRIBUTE_TYPE_ICE_CONTROLLED \<equiv> 0x8029"
abbreviation (input) STUN_ATTRIBUTE_TYPE_ICE_CONTROLLING :: u16 where "STUN_ATTRIBUTE_TYPE_ICE_CONTROLLING \<equiv> 0x802A"

text \<open>The case labels that share a branch.\<close>

definition plain_addresses :: "u16 list" where
  "plain_addresses = [STUN_ATTRIBUTE_TYPE_MAPPED_ADDRESS, STUN_ATTRIBUTE_TYPE_XOR_MAPPED_ADDRESS, STUN_ATTRIBUTE_TYPE_RESPONSE_ADDRESS,
     STUN_ATTRIBUTE_TYPE_SOURCE_ADDRESS, STUN_ATTRIBUTE_TYPE_REFLECTED_FROM, STUN_ATTRIBUTE_TYPE_XOR_PEER_ADDRESS,
     STUN_ATTRIBUTE_TYPE_CHANGED_ADDRESS]"

definition flag_types :: "u16 list" where
  "flag_types = [STUN_ATTRIBUTE_TYPE_USE_CANDIDATE, STUN_ATTRIBUTE_TYPE_DONT_FRAGMENT]"

definition word_types :: "u16 list" where
  "word_types = [STUN_ATTRIBUTE_TYPE_PRIORITY, STUN_ATTRIBUTE_TYPE_LIFETIME, STUN_ATTRIBUTE_TYPE_CHANGE_REQUEST]"

definition string_types :: "u16 list" where
  "string_types = [STUN_ATTRIBUTE_TYPE_USERNAME, STUN_ATTRIBUTE_TYPE_REALM, STUN_ATTRIBUTE_TYPE_NONCE, STUN_ATTRIBUTE_TYPE_DATA]"

definition control_types :: "u16 list" where
  "control_types = [STUN_ATTRIBUTE_TYPE_ICE_CONTROLLED, STUN_ATTRIBUTE_TYPE_ICE_CONTROLLING]"

lemmas stun_types = plain_addresses_def flag_types_def word_types_def string_types_def control_types_def

definition ROUND_UP :: "nat \<Rightarrow> nat \<Rightarrow> nat" where
  "ROUND_UP n a = (n + (a - 1)) div a * a"

definition wrap16 :: "nat \<Rightarrow> nat" where
  "wrap16 n = n mod 2 ^ 16"

definition IS_IPV4_ADDR :: "KvsIpAddress \<Rightarrow> bool" where
  "IS_IPV4_ADDR a \<longleftrightarrow> family a = 1"

definition xor_bytes :: "byte list \<Rightarrow> byte list \<Rightarrow> byte list" where
  "xor_bytes xs ys = map2 (\<lambda>x y. x XOR y) xs ys"

subsection \<open>Addresses\<close>

text \<open>
  The port is stored in network byte order and \<^verbatim>\<open>getInt16\<close> of a constant, stored natively, is that
  constant in network byte order, so the exclusive or acts on the bytes of \<^verbatim>\<open>putInt16\<close>; reading the
  address by \<^verbatim>\<open>getInt32\<close> and storing it by \<^verbatim>\<open>putInt32\<close> likewise.
\<close>

definition xorIpAddress :: "stun_ops \<Rightarrow> KvsIpAddress \<Rightarrow> byte list option \<Rightarrow> (STATUS \<times> KvsIpAddress) option" where
  "xorIpAddress S a pTransactionId =
     (if \<not> (IS_IPV4_ADDR a \<or> pTransactionId \<noteq> None) then Some (STATUS_INVALID_ARG, a)
      else do {
        let port' = xor_bytes (port a) (putInt16 S (ucast (drop_bit 16 STUN_HEADER_MAGIC_COOKIE)));
        first \<leftarrow> rdInt32 (stun_platform S) (address a) 0;
        addr \<leftarrow> memwrite (address a) 0 (putInt32 S (first XOR STUN_HEADER_MAGIC_COOKIE));
        if family a = 2
        then do {
          tid \<leftarrow> pTransactionId;
          ident \<leftarrow> rdn tid 0 12;
          rest \<leftarrow> rdn addr 4 12;
          addr' \<leftarrow> memwrite addr 4 (xor_bytes rest ident);
          Some (STATUS_SUCCESS, a\<lparr>port := port', address := addr'\<rparr>) }
        else Some (STATUS_SUCCESS, a\<lparr>port := port', address := addr\<rparr>) })"

text \<open>
  Status, what is written at the current position, \<^verbatim>\<open>*pDataLen\<close>.  \<open>room\<close> is the incoming
  \<^verbatim>\<open>*pDataLen\<close>, \<open>fill\<close> says whether there is a buffer.
\<close>

definition stunPackageIpAddr ::
  "stun_ops \<Rightarrow> StunHeader \<Rightarrow> u16 \<Rightarrow> KvsIpAddress \<Rightarrow> bool \<Rightarrow> nat \<Rightarrow> (STATUS \<times> byte list \<times> nat) option" where
  "stunPackageIpAddr S hdr kind a fill room =
     (let len = (if IS_IPV4_ADDR a then 4 else 16); dataLen = 8 + len in
      if \<not> fill then Some (STATUS_SUCCESS, [], dataLen)
      else if \<not> room \<ge> dataLen then Some (STATUS_NOT_ENOUGH_MEMORY, [], room)
      else do {
        (st, a') \<leftarrow> (if kind = STUN_ATTRIBUTE_TYPE_XOR_MAPPED_ADDRESS \<or> kind = STUN_ATTRIBUTE_TYPE_XOR_PEER_ADDRESS
                     then xorIpAddress S a (Some (transactionId hdr)) else Some (STATUS_SUCCESS, a));
        if STATUS_FAILED st then Some (st, [], room)
        else do {
          addr \<leftarrow> rdn (address a') 0 (if IS_IPV4_ADDR a' then 4 else 16);
          Some (STATUS_SUCCESS,
            putInt16 S kind @ putInt16 S (word_of_nat (dataLen - 4)) @ putInt16 S (family a') @ port a' @ addr, dataLen) } })"

subsection \<open>The serialiser\<close>

definition PACKAGE_STUN_ATTR_HEADER :: "stun_ops \<Rightarrow> u16 \<Rightarrow> u16 \<Rightarrow> byte list" where
  "PACKAGE_STUN_ATTR_HEADER S kind dataLen = putInt16 S kind @ putInt16 S dataLen"

text \<open>
  What one ordinary attribute other than an address writes: the encoded length, and the writes as
  offsets from the current position.  The error code is stored through a \<^verbatim>\<open>PINT16\<close> that is advanced by
  the header length, hence eight bytes behind the position.
\<close>

definition encodeAttribute :: "stun_ops \<Rightarrow> StunAttribute \<Rightarrow> (nat \<times> (nat \<times> byte list) list) option" where
  "encodeAttribute S a =
     (let kind = attr_type a; head = (0, PACKAGE_STUN_ATTR_HEADER S kind (attr_length a)) in
      if kind \<in> set string_types then
        (case attr_body a of
           StunString padded bs \<Rightarrow> do { v \<leftarrow> rdn bs 0 padded; Some (4 + padded, [head, (4, v)]) }
         | _ \<Rightarrow> None)
      else if kind \<in> set word_types then
        (case attr_body a of StunWord v \<Rightarrow> Some (8, [head, (4, putInt32 S v)]) | _ \<Rightarrow> None)
      else if kind \<in> set flag_types then Some (4, [head])
      else if kind = STUN_ATTRIBUTE_TYPE_REQUESTED_TRANSPORT \<or> kind = STUN_ATTRIBUTE_TYPE_REQUESTED_ADDRESS_FAMILY then
        (case attr_body a of StunQuad v \<Rightarrow> do { q \<leftarrow> rdn v 0 4; Some (8, [head, (4, q)]) } | _ \<Rightarrow> None)
      else if kind = STUN_ATTRIBUTE_TYPE_ERROR_CODE then
        (case attr_body a of
           StunErrorCode padded errorCode phrase \<Rightarrow> do {
             v \<leftarrow> rdn phrase 0 padded; Some (4 + padded, [head, (8, putInt16 S errorCode), (6, v)]) }
         | _ \<Rightarrow> None)
      else if kind \<in> set control_types then
        (case attr_body a of
           StunTie mem \<Rightarrow> do { v \<leftarrow> rdn mem 0 8; Some (12, [head, (4, putInt64 S (ld64 S v))]) }
         | _ \<Rightarrow> None)
      else if kind = STUN_ATTRIBUTE_TYPE_CHANNEL_NUMBER then
        (case attr_body a of
           StunChannel channelNumber reserve \<Rightarrow>
             Some (8, [head, (4, putInt16 S channelNumber), (6, putInt16 S reserve)])
         | _ \<Rightarrow> None)
      else Some (0, []))"

text \<open>Whether the branch of the type refuses attributes behind the integrity and the fingerprint.\<close>

definition ordinary_type :: "u16 \<Rightarrow> bool" where
  "ordinary_type kind \<longleftrightarrow> kind \<in> set plain_addresses \<union> set flag_types \<union> set word_types \<union> set string_types \<union> set control_types \<union>
     {STUN_ATTRIBUTE_TYPE_REQUESTED_TRANSPORT, STUN_ATTRIBUTE_TYPE_REQUESTED_ADDRESS_FAMILY, STUN_ATTRIBUTE_TYPE_ERROR_CODE,
      STUN_ATTRIBUTE_TYPE_CHANNEL_NUMBER}"

fun writeAll :: "byte list \<Rightarrow> nat \<Rightarrow> (nat \<times> byte list) list \<Rightarrow> byte list option" where
  "writeAll mem pos [] = Some mem"
| "writeAll mem pos ((off, bs) # ws) = do { mem' \<leftarrow> memwrite mem (pos + off) bs; writeAll mem' pos ws }"

text \<open>The local variables of the loop; \<open>ser_buffer\<close> is \<^verbatim>\<open>pBuffer\<close>, \<open>ser_pos\<close> the current position in it.\<close>

record Serialiser =
  ser_buffer :: "byte list option"
  ser_pos :: nat
  ser_remaining :: nat
  ser_packetSize :: nat
  ser_fingerprint :: bool
  ser_integrity :: bool

definition serAdvance :: "nat \<Rightarrow> Serialiser \<Rightarrow> Serialiser" where
  "serAdvance encodedLen z =
     (if ser_buffer z \<noteq> None then z\<lparr>ser_pos := ser_pos z + encodedLen, ser_remaining := sub32 (ser_remaining z) encodedLen\<rparr>
      else z\<lparr>ser_packetSize := wrap32 (ser_packetSize z + encodedLen)\<rparr>)"

text \<open>Attribute \<open>i\<close> of \<open>n\<close>.\<close>

definition serializeAttribute ::
  "stun_ops \<Rightarrow> StunHeader \<Rightarrow> nat \<Rightarrow> nat \<Rightarrow> StunAttribute \<Rightarrow> Serialiser \<Rightarrow> (STATUS \<times> Serialiser) option" where
  "serializeAttribute S hdr i n a z =
     (let kind = attr_type a in
      if ordinary_type kind \<and> (ser_fingerprint z \<or> ser_integrity z)
      then Some (STATUS_STUN_ATTRIBUTES_AFTER_FINGERPRINT_MESSAGE_INTEGRITY, z)
      else if kind \<in> set plain_addresses then
        (case attr_body a of
           StunAddress addr \<Rightarrow> do {
             (st, bs, encodedLen) \<leftarrow> stunPackageIpAddr S hdr kind addr (ser_buffer z \<noteq> None) (ser_remaining z);
             if STATUS_FAILED st then Some (st, z)
             else (case ser_buffer z of
                None \<Rightarrow> Some (STATUS_SUCCESS, serAdvance encodedLen z)
              | Some buf \<Rightarrow> do {
                  buf' \<leftarrow> memwrite buf (ser_pos z) bs;
                  Some (STATUS_SUCCESS, serAdvance encodedLen (z\<lparr>ser_buffer := Some buf'\<rparr>)) }) }
         | _ \<Rightarrow> None)
      else if kind = STUN_ATTRIBUTE_TYPE_MESSAGE_INTEGRITY then
        (if \<not> (i + 1 = n \<or> i + 2 = n) then Some (STATUS_STUN_MESSAGE_INTEGRITY_NOT_LAST, z)
         else if ser_integrity z then Some (STATUS_STUN_MULTIPLE_MESSAGE_INTEGRITY_ATTRIBUTES, z)
         else if ser_fingerprint z then Some (STATUS_STUN_MESSAGE_INTEGRITY_AFTER_FINGERPRINT, z)
         else Some (STATUS_SUCCESS, serAdvance 0 (z\<lparr>ser_integrity := True\<rparr>)))
      else if kind = STUN_ATTRIBUTE_TYPE_FINGERPRINT then
        (if i + 1 \<noteq> n then Some (STATUS_STUN_FINGERPRINT_NOT_LAST, z)
         else if ser_fingerprint z then Some (STATUS_STUN_MULTIPLE_FINGERPRINT_ATTRIBUTES, z)
         else Some (STATUS_SUCCESS, serAdvance 0 (z\<lparr>ser_fingerprint := True\<rparr>)))
      else do {
        (encodedLen, writes) \<leftarrow> encodeAttribute S a;
        case ser_buffer z of
          None \<Rightarrow> Some (STATUS_SUCCESS, serAdvance encodedLen z)
        | Some buf \<Rightarrow>
            if \<not> ser_remaining z \<ge> encodedLen then Some (STATUS_NOT_ENOUGH_MEMORY, z)
            else do {
              buf' \<leftarrow> writeAll buf (ser_pos z) writes;
              Some (STATUS_SUCCESS, serAdvance encodedLen (z\<lparr>ser_buffer := Some buf'\<rparr>)) } })"

fun serializeAttributes ::
  "stun_ops \<Rightarrow> StunHeader \<Rightarrow> nat \<Rightarrow> nat \<Rightarrow> StunAttribute list \<Rightarrow> Serialiser \<Rightarrow> (STATUS \<times> Serialiser) option" where
  "serializeAttributes S hdr i n [] z = Some (STATUS_SUCCESS, z)"
| "serializeAttributes S hdr i n (a # as) z =
     do { (st, z') \<leftarrow> serializeAttribute S hdr i n a z;
          if STATUS_FAILED st then Some (st, z') else serializeAttributes S hdr (i + 1) n as z' }"

text \<open>
  The trailing attributes: the length of the message is set to end with the attribute, then the
  value is computed over everything before the attribute.
\<close>

definition serializeTrailer ::
  "stun_ops \<Rightarrow> u16 \<Rightarrow> nat \<Rightarrow> (byte list \<Rightarrow> byte list) \<Rightarrow> Serialiser \<Rightarrow> (STATUS \<times> Serialiser) option" where
  "serializeTrailer S kind len val z =
     (case ser_buffer z of
        None \<Rightarrow> Some (STATUS_SUCCESS, serAdvance (4 + len) z)
      | Some buf \<Rightarrow>
          if \<not> ser_remaining z \<ge> 4 + len then Some (STATUS_NOT_ENOUGH_MEMORY, z)
          else do {
            buf1 \<leftarrow> memwrite buf (ser_pos z) (PACKAGE_STUN_ATTR_HEADER S kind (word_of_nat len));
            buf2 \<leftarrow> memwrite buf1 2 (putInt16 S (word_of_nat (ser_pos z + (4 + len) - 20)));
            covered \<leftarrow> rdn buf2 0 (wrap16 (ser_pos z));
            buf3 \<leftarrow> memwrite buf2 (ser_pos z + 4) (val covered);
            Some (STATUS_SUCCESS, serAdvance (4 + len) (z\<lparr>ser_buffer := Some buf3\<rparr>)) })"

definition serializeIntegrity :: "stun_ops \<Rightarrow> byte list option \<Rightarrow> nat \<Rightarrow> bool \<Rightarrow> Serialiser \<Rightarrow> (STATUS \<times> Serialiser) option" where
  "serializeIntegrity S password passwordLen generateMessageIntegrity z =
     (if generateMessageIntegrity
      then do { key \<leftarrow> password; k \<leftarrow> rdn key 0 passwordLen;
                serializeTrailer S STUN_ATTRIBUTE_TYPE_MESSAGE_INTEGRITY 20 (sha1_hmac S k) z }
      else Some (STATUS_SUCCESS, z))"

definition serializeFingerprint :: "stun_ops \<Rightarrow> bool \<Rightarrow> Serialiser \<Rightarrow> (STATUS \<times> Serialiser) option" where
  "serializeFingerprint S generateFingerprint z =
     (if generateFingerprint
      then serializeTrailer S STUN_ATTRIBUTE_TYPE_FINGERPRINT 4 (\<lambda>bs. putInt32 S (compute_crc32 S bs XOR 0x5354554e)) z
      else Some (STATUS_SUCCESS, z))"

text \<open>The end: the length of the message, and a check that the size was right.\<close>

definition finishSerialiser :: "stun_ops \<Rightarrow> nat \<Rightarrow> Serialiser \<Rightarrow> (STATUS \<times> byte list option \<times> nat) option" where
  "finishSerialiser S pSize z =
     (case ser_buffer z of
        None \<Rightarrow> Some (STATUS_SUCCESS, None, ser_packetSize z)
      | Some mem \<Rightarrow> do {
          mem' \<leftarrow> memwrite mem 2 (putInt16 S (word_of_nat (ser_packetSize z - 20)));
          if ser_packetSize z \<noteq> ser_pos z then Some (STATUS_INTERNAL_ERROR, Some mem', pSize)
          else Some (STATUS_SUCCESS, Some mem', ser_packetSize z) })"

text \<open>Status, the buffer, \<^verbatim>\<open>*pSize\<close>.\<close>

definition serializeStunPacket ::
  "stun_ops \<Rightarrow> StunPacket option \<Rightarrow> byte list option \<Rightarrow> nat \<Rightarrow> bool \<Rightarrow> bool \<Rightarrow> byte list option \<Rightarrow> nat \<Rightarrow>
   (STATUS \<times> byte list option \<times> nat) option" where
  "serializeStunPacket S pStunPacket password passwordLen generateMessageIntegrity generateFingerprint pBuffer pSize =
     (case pStunPacket of
        None \<Rightarrow> Some (STATUS_NULL_ARG, pBuffer, pSize)
      | Some pk \<Rightarrow>
          let hdr = stun_header pk in
          if generateMessageIntegrity \<and> password = None then Some (STATUS_NULL_ARG, pBuffer, pSize)
          else if password \<noteq> None \<and> passwordLen = 0 then Some (STATUS_INVALID_ARG, pBuffer, pSize)
          else if magicCookie hdr \<noteq> STUN_HEADER_MAGIC_COOKIE then Some (STATUS_STUN_MAGIC_COOKIE_MISMATCH, pBuffer, pSize)
          else if pBuffer \<noteq> None \<and> \<not> pSize \<ge> 20 then Some (STATUS_NOT_ENOUGH_MEMORY, pBuffer, pSize)
          else do {
            buf \<leftarrow> (case pBuffer of
                     None \<Rightarrow> Some None
                   | Some buf \<Rightarrow> do {
                       buf1 \<leftarrow> memwrite buf 0 (putInt16 S (stunMessageType hdr));
                       ident \<leftarrow> rdn (transactionId hdr) 0 12;
                       buf2 \<leftarrow> memwrite buf1 4 (putInt32 S STUN_HEADER_MAGIC_COOKIE @ ident);
                       Some (Some buf2) });
            let z0 = \<lparr>ser_buffer = buf, ser_pos = (if buf = None then 0 else 20), ser_remaining = (if buf = None then 0 else pSize - 20),
                      ser_packetSize = (if buf = None then 20 else pSize), ser_fingerprint = False, ser_integrity = False\<rparr>;
            (st1, z1) \<leftarrow> serializeAttributes S hdr 0 (length (attributeList pk)) (map snd (attributeList pk)) z0;
            if STATUS_FAILED st1 then Some (st1, ser_buffer z1, pSize)
            else do {
              (st2, z2) \<leftarrow> serializeIntegrity S password passwordLen generateMessageIntegrity z1;
              if STATUS_FAILED st2 then Some (st2, ser_buffer z2, pSize)
              else do {
                (st3, z3) \<leftarrow> serializeFingerprint S generateFingerprint z2;
                if STATUS_FAILED st3 then Some (st3, ser_buffer z3, pSize)
                else finishSerialiser S pSize z3 } } })"

end
