(* ===== verification/StunBuilder.thy ===== *)
theory StunBuilder
  imports Stun
begin

text \<open>
  \<^verbatim>\<open>src/source/Stun/Stun.c\<close>: creating a STUN packet and appending attributes to it.  A packet has room
  for twenty attribute pointers; the pointer array is directly followed by the first attribute, so
  storing a pointer behind the array is undefined.  Strings are byte lists without their terminator.
\<close>

definition getPackagedStunAttributeSize :: "stun_ops \<Rightarrow> StunAttribute \<Rightarrow> nat option" where
  "getPackagedStunAttributeSize S a =
     (let kind = attr_type a in do {
        len \<leftarrow>
          (if kind \<in> set plain_addresses \<union> set flag_types \<union> set word_types \<union> set control_types \<union>
                {STUN_ATTRIBUTE_TYPE_REQUESTED_TRANSPORT, STUN_ATTRIBUTE_TYPE_CHANNEL_NUMBER}
           then Some (sizeofAttribute S kind)
           else if kind \<in> set string_types
           then (case attr_body a of StunString padded _ \<Rightarrow> Some (sizeofAttribute S kind + padded) | _ \<Rightarrow> None)
           else if kind = STUN_ATTRIBUTE_TYPE_ERROR_CODE
           then (case attr_body a of StunErrorCode padded _ _ \<Rightarrow> Some (sizeofAttribute S kind + padded) | _ \<Rightarrow> None)
           else Some (4 + unat (attr_length a)));
        Some (wrap16 (ROUND_UP (wrap16 len) 8)) })"

definition getFirstAvailableStunAttribute :: "stun_ops \<Rightarrow> StunPacket option \<Rightarrow> (STATUS \<times> nat) option" where
  "getFirstAvailableStunAttribute S pStunPacket =
     (case pStunPacket of
        None \<Rightarrow> Some (STATUS_NULL_ARG, 0)
      | Some pk \<Rightarrow>
          if \<not> length (attributeList pk) \<le> 20 then Some (STATUS_STUN_MAX_ATTRIBUTE_COUNT, 0)
          else if attributeList pk = [] then Some (STATUS_SUCCESS, sizeofStunPacket S + 20 * 8)
          else
            let (off, a) = last (attributeList pk) in
            if attr_type a = STUN_ATTRIBUTE_TYPE_MESSAGE_INTEGRITY \<or> attr_type a = STUN_ATTRIBUTE_TYPE_FINGERPRINT
            then Some (STATUS_STUN_ATTRIBUTES_AFTER_FINGERPRINT_MESSAGE_INTEGRITY, 0)
            else do {
              n \<leftarrow> getPackagedStunAttributeSize S a;
              if \<not> allocationSize pk > off + n then Some (STATUS_NOT_ENOUGH_MEMORY, 0)
              else Some (STATUS_SUCCESS, off + n) })"

text \<open>
  The common part of the append functions: find the place, check that the struct (\<open>need\<close> bytes, rounded
  up) fits the allocation, store the pointer, fill the attribute, add to the length of the message.
  \<open>copied\<close> is where the copying of the contents ends, counted from the attribute.
\<close>

definition appendStunAttribute ::
  "stun_ops \<Rightarrow> StunPacket option \<Rightarrow> nat \<Rightarrow> nat \<Rightarrow> StunAttribute \<Rightarrow> nat \<Rightarrow> (STATUS \<times> StunPacket option) option" where
  "appendStunAttribute S pStunPacket need copied a added =
     do {
       (st, off) \<leftarrow> getFirstAvailableStunAttribute S pStunPacket;
       if STATUS_FAILED st then Some (st, pStunPacket)
       else do {
         pk \<leftarrow> pStunPacket;
         if \<not> allocationSize pk \<ge> off + need then Some (STATUS_NOT_ENOUGH_MEMORY, Some pk)
         else
           let slots = sizeofStunPacket S + 8 * (length (attributeList pk) + 1);
               first = (if attributeList pk = [] then off else fst (hd (attributeList pk))) in
           if slots > first \<or> off + copied > allocationSize pk then None
           else Some (STATUS_SUCCESS,
                  Some (pk\<lparr>attributeList := attributeList pk @ [(off, a)],
                           stun_header := (stun_header pk)\<lparr>messageLength := messageLength (stun_header pk) + word_of_nat added\<rparr>\<rparr>)) } }"

definition freeStunPacket :: "StunPacket option \<Rightarrow> STATUS \<times> StunPacket option" where
  "freeStunPacket pStunPacket = (STATUS_SUCCESS, None)"

fun randomIdBytes :: "('r \<Rightarrow> nat \<times> 'r) \<Rightarrow> 'r \<Rightarrow> nat \<Rightarrow> byte list \<times> 'r" where
  "randomIdBytes rand r 0 = ([], r)"
| "randomIdBytes rand r (Suc n) =
     (let (v, r1) = rand r; (bs, r2) = randomIdBytes rand r1 n in (word_of_nat (v mod 255) # bs, r2))"

definition createStunPacket ::
  "stun_ops \<Rightarrow> ('r \<Rightarrow> nat \<times> 'r) \<Rightarrow> 'r \<Rightarrow> u16 \<Rightarrow> byte list option \<Rightarrow> (STATUS \<times> StunPacket option \<times> 'r) option" where
  "createStunPacket S rand r stunPacketType pTransactionId =
     (if \<not> memalloc (stun_platform S) 2048 then Some (STATUS_NOT_ENOUGH_MEMORY, None, r)
      else do {
        (ident, r') \<leftarrow> (case pTransactionId of
                         None \<Rightarrow> Some (randomIdBytes rand r 12)
                       | Some t \<Rightarrow> do { t12 \<leftarrow> rdn t 0 12; Some (t12, r) });
        Some (STATUS_SUCCESS,
          Some \<lparr>stun_header = \<lparr>stunMessageType = stunPacketType, messageLength = 0, magicCookie = STUN_HEADER_MAGIC_COOKIE, transactionId = ident\<rparr>,
                allocationSize = 2048, attributeList = []\<rparr>, r') })"

definition appendStunAddressAttribute ::
  "stun_ops \<Rightarrow> StunPacket option \<Rightarrow> u16 \<Rightarrow> KvsIpAddress option \<Rightarrow> (STATUS \<times> StunPacket option) option" where
  "appendStunAddressAttribute S pStunPacket kind pAddress =
     (case pAddress of
        None \<Rightarrow> Some (STATUS_NULL_ARG, pStunPacket)
      | Some a \<Rightarrow>
          let len = 4 + (if IS_IPV4_ADDR a then 4 else 16); n = sizeofAttribute S STUN_ATTRIBUTE_TYPE_MAPPED_ADDRESS in
          appendStunAttribute S pStunPacket (ROUND_UP n 8) n
            \<lparr>attr_type = kind, attr_length = word_of_nat len, attr_body = StunAddress a\<rparr> (len + 4))"

text \<open>User name and realm: at most \<open>cap\<close> bytes of the string are taken.\<close>

definition appendStunString ::
  "stun_ops \<Rightarrow> StunPacket option \<Rightarrow> u16 \<Rightarrow> nat \<Rightarrow> byte list \<Rightarrow> (STATUS \<times> StunPacket option) option" where
  "appendStunString S pStunPacket kind cap str =
     (let len = min (length str) cap; padded = wrap16 (ROUND_UP len 4) in
      appendStunAttribute S pStunPacket (ROUND_UP (padded + sizeofAttribute S kind) 8) (sizeofAttribute S kind + len)
        \<lparr>attr_type = kind, attr_length = word_of_nat len, attr_body = StunString padded (take len str @ replicate (padded - len) 0)\<rparr> (padded + 4))"

definition appendStunUsernameAttribute :: "stun_ops \<Rightarrow> StunPacket option \<Rightarrow> byte list option \<Rightarrow> (STATUS \<times> StunPacket option) option" where
  "appendStunUsernameAttribute S pStunPacket userName =
     (case userName of
        None \<Rightarrow> Some (STATUS_NULL_ARG, pStunPacket)
      | Some str \<Rightarrow> appendStunString S pStunPacket STUN_ATTRIBUTE_TYPE_USERNAME 512 str)"

definition getStunAttribute :: "StunPacket option \<Rightarrow> u16 \<Rightarrow> STATUS \<times> nat option" where
  "getStunAttribute pStunPacket kind =
     (case pStunPacket of
        None \<Rightarrow> (STATUS_NULL_ARG, None)
      | Some pk \<Rightarrow> (STATUS_SUCCESS, find (\<lambda>i. attr_type (snd (attributeList pk ! i)) = kind) [0..<length (attributeList pk)]))"

text \<open>Priority, life time and change request: a 32-bit value.\<close>

definition appendStunWord :: "stun_ops \<Rightarrow> StunPacket option \<Rightarrow> u16 \<Rightarrow> u32 \<Rightarrow> (STATUS \<times> StunPacket option) option" where
  "appendStunWord S pStunPacket kind v =
     appendStunAttribute S pStunPacket (ROUND_UP (sizeofAttribute S kind) 8) (sizeofAttribute S kind)
       \<lparr>attr_type = kind, attr_length = 4, attr_body = StunWord v\<rparr> 8"

definition appendStunPriorityAttribute :: "stun_ops \<Rightarrow> StunPacket option \<Rightarrow> u32 \<Rightarrow> (STATUS \<times> StunPacket option) option" where
  "appendStunPriorityAttribute S pStunPacket priority = appendStunWord S pStunPacket STUN_ATTRIBUTE_TYPE_PRIORITY priority"

definition appendStunFlagAttribute :: "stun_ops \<Rightarrow> StunPacket option \<Rightarrow> u16 \<Rightarrow> (STATUS \<times> StunPacket option) option" where
  "appendStunFlagAttribute S pStunPacket kind =
     appendStunAttribute S pStunPacket (ROUND_UP (sizeofAttribute S STUN_ATTRIBUTE_TYPE_USE_CANDIDATE) 8)
       (sizeofAttribute S STUN_ATTRIBUTE_TYPE_USE_CANDIDATE) \<lparr>attr_type = kind, attr_length = 0, attr_body = StunEmpty\<rparr> 4"

definition appendStunLifetimeAttribute :: "stun_ops \<Rightarrow> StunPacket option \<Rightarrow> u32 \<Rightarrow> (STATUS \<times> StunPacket option) option" where
  "appendStunLifetimeAttribute S pStunPacket lifetime = appendStunWord S pStunPacket STUN_ATTRIBUTE_TYPE_LIFETIME lifetime"

definition appendStunChangeRequestAttribute :: "stun_ops \<Rightarrow> StunPacket option \<Rightarrow> u32 \<Rightarrow> (STATUS \<times> StunPacket option) option" where
  "appendStunChangeRequestAttribute S pStunPacket changeFlag = appendStunWord S pStunPacket STUN_ATTRIBUTE_TYPE_CHANGE_REQUEST changeFlag"

definition appendStunRequestedTransportAttribute :: "stun_ops \<Rightarrow> StunPacket option \<Rightarrow> byte \<Rightarrow> (STATUS \<times> StunPacket option) option" where
  "appendStunRequestedTransportAttribute S pStunPacket protocol =
     (let n = sizeofAttribute S STUN_ATTRIBUTE_TYPE_REQUESTED_TRANSPORT in
      appendStunAttribute S pStunPacket (ROUND_UP n 8) n
        \<lparr>attr_type = STUN_ATTRIBUTE_TYPE_REQUESTED_TRANSPORT, attr_length = 4, attr_body = StunQuad [protocol, 0, 0, 0]\<rparr> 8)"

definition appendStunRealmAttribute :: "stun_ops \<Rightarrow> StunPacket option \<Rightarrow> byte list option \<Rightarrow> (STATUS \<times> StunPacket option) option" where
  "appendStunRealmAttribute S pStunPacket realm =
     (case realm of
        None \<Rightarrow> Some (STATUS_NULL_ARG, pStunPacket)
      | Some str \<Rightarrow> appendStunString S pStunPacket STUN_ATTRIBUTE_TYPE_REALM 128 str)"

definition appendStunAllocationAddressFamily :: "stun_ops \<Rightarrow> StunPacket option \<Rightarrow> u16 \<Rightarrow> (STATUS \<times> StunPacket option) option" where
  "appendStunAllocationAddressFamily S pStunPacket ipFamily =
     (let n = sizeofAttribute S STUN_ATTRIBUTE_TYPE_REQUESTED_ADDRESS_FAMILY in
      appendStunAttribute S pStunPacket (ROUND_UP n 4) n
        \<lparr>attr_type = STUN_ATTRIBUTE_TYPE_REQUESTED_ADDRESS_FAMILY, attr_length = 4, attr_body = StunQuad [ucast ipFamily, 0, 0, 0]\<rparr> 8)"

text \<open>
  Nonce and data: a pointer and a length.  For lengths above 65532 the padded length wraps to 0 and
  the check of the allocation passes although the copy is long.
\<close>

definition appendStunBytes ::
  "stun_ops \<Rightarrow> StunPacket option \<Rightarrow> u16 \<Rightarrow> byte list \<Rightarrow> u16 \<Rightarrow> (STATUS \<times> StunPacket option) option" where
  "appendStunBytes S pStunPacket kind bytes len =
     (let padded = wrap16 (ROUND_UP (unat len) 4) in do {
        (st, pk) \<leftarrow> appendStunAttribute S pStunPacket (ROUND_UP (padded + sizeofAttribute S kind) 8) (sizeofAttribute S kind + unat len)
          \<lparr>attr_type = kind, attr_length = len, attr_body = StunString padded (take (unat len) bytes @ replicate (padded - unat len) 0)\<rparr>
          (padded + 4);
        if STATUS_FAILED st then Some (st, pk) else do { _ \<leftarrow> rdn bytes 0 (unat len); Some (st, pk) } })"

definition appendStunNonceAttribute :: "stun_ops \<Rightarrow> StunPacket option \<Rightarrow> byte list option \<Rightarrow> u16 \<Rightarrow> (STATUS \<times> StunPacket option) option" where
  "appendStunNonceAttribute S pStunPacket nonce nonceLen =
     (case nonce of
        None \<Rightarrow> Some (STATUS_NULL_ARG, pStunPacket)
      | Some bytes \<Rightarrow> appendStunBytes S pStunPacket STUN_ATTRIBUTE_TYPE_NONCE bytes nonceLen)"

definition updateStunNonceAttribute :: "StunPacket option \<Rightarrow> byte list option \<Rightarrow> u16 \<Rightarrow> (STATUS \<times> StunPacket option) option" where
  "updateStunNonceAttribute pStunPacket nonce nonceLen =
     (case (pStunPacket, nonce) of
        (Some pk, Some bytes) \<Rightarrow>
          (case getStunAttribute (Some pk) STUN_ATTRIBUTE_TYPE_NONCE of
             (_, None) \<Rightarrow> Some (STATUS_SUCCESS, Some pk)
           | (_, Some i) \<Rightarrow>
               let (off, a) = attributeList pk ! i in
               if attr_length a \<noteq> nonceLen then Some (STATUS_INVALID_ARG, Some pk)
               else (case attr_body a of
                  StunString padded old \<Rightarrow> do {
                    bs \<leftarrow> rdn bytes 0 (unat nonceLen);
                    new \<leftarrow> memwrite old 0 bs;
                    Some (STATUS_SUCCESS, Some (pk\<lparr>attributeList := (attributeList pk)[i := (off, a\<lparr>attr_body := StunString padded new\<rparr>)]\<rparr>)) }
                | _ \<Rightarrow> None))
      | _ \<Rightarrow> Some (STATUS_NULL_ARG, pStunPacket))"

definition appendStunErrorCodeAttribute ::
  "stun_ops \<Rightarrow> StunPacket option \<Rightarrow> byte list option \<Rightarrow> u16 \<Rightarrow> (STATUS \<times> StunPacket option) option" where
  "appendStunErrorCodeAttribute S pStunPacket errorPhrase errorCode =
     (case errorPhrase of
        None \<Rightarrow> Some (STATUS_NULL_ARG, pStunPacket)
      | Some str \<Rightarrow>
          let len = min (length str) 128; padded = wrap16 (ROUND_UP len 4); n = sizeofAttribute S STUN_ATTRIBUTE_TYPE_ERROR_CODE in
          appendStunAttribute S pStunPacket (ROUND_UP (padded + n) 8) (n + len)
            \<lparr>attr_type = STUN_ATTRIBUTE_TYPE_ERROR_CODE, attr_length = word_of_nat len,
             attr_body = StunErrorCode padded errorCode (take len str @ replicate (padded - len) 0)\<rparr> (padded + 4))"

definition appendStunIceControllAttribute ::
  "stun_ops \<Rightarrow> StunPacket option \<Rightarrow> u16 \<Rightarrow> u64 \<Rightarrow> (STATUS \<times> StunPacket option) option" where
  "appendStunIceControllAttribute S pStunPacket kind tieBreaker =
     (if kind \<notin> set control_types then Some (STATUS_INVALID_ARG, pStunPacket)
      else let n = sizeofAttribute S kind in
        appendStunAttribute S pStunPacket (ROUND_UP n 8) n
          \<lparr>attr_type = kind, attr_length = 8, attr_body = StunTie (st64 S tieBreaker @ replicate 4 0)\<rparr> 12)"

definition appendStunDataAttribute :: "stun_ops \<Rightarrow> StunPacket option \<Rightarrow> byte list option \<Rightarrow> u16 \<Rightarrow> (STATUS \<times> StunPacket option) option" where
  "appendStunDataAttribute S pStunPacket data dataLen =
     (case data of
        None \<Rightarrow> Some (STATUS_NULL_ARG, pStunPacket)
      | Some bytes \<Rightarrow> appendStunBytes S pStunPacket STUN_ATTRIBUTE_TYPE_DATA bytes dataLen)"

definition appendStunChannelNumberAttribute :: "stun_ops \<Rightarrow> StunPacket option \<Rightarrow> u16 \<Rightarrow> (STATUS \<times> StunPacket option) option" where
  "appendStunChannelNumberAttribute S pStunPacket channelNumber =
     (let n = sizeofAttribute S STUN_ATTRIBUTE_TYPE_CHANNEL_NUMBER in
      appendStunAttribute S pStunPacket (ROUND_UP n 8) n
        \<lparr>attr_type = STUN_ATTRIBUTE_TYPE_CHANNEL_NUMBER, attr_length = 4, attr_body = StunChannel channelNumber 0\<rparr> 8)"

end
