(* ===== verification/StunParser.thy ===== *)
theory StunParser
  imports StunBuilder
begin

text \<open>
  \<^verbatim>\<open>deserializeStunPacket\<close> of \<^verbatim>\<open>src/source/Stun/Stun.c\<close>: a first pass over the attributes checks their
  lengths and counts those of a known type, a second pass fills the packet.  The second pass handles
  at most as many attributes as were counted and counts unknown ones along: it gives them an entry
  that has no storage of its own, so it shows the attribute that is stored next.

  The parser does not check the attributes against the end of the buffer; reading outside it is \<open>None\<close>.
  While a check value is computed, the length in the buffer is replaced and then restored.
\<close>

definition all_addresses :: "u16 list" where
  "all_addresses = STUN_ATTRIBUTE_TYPE_XOR_RELAYED_ADDRESS # plain_addresses"

record AttributeScan =
  scan_count :: nat
  scan_size :: nat
  scan_fingerprint :: bool
  scan_integrity :: bool

text \<open>The checks of one attribute in the first pass, by type: status, whether the type is known, storage behind the struct.\<close>

definition checkAttribute ::
  "stun_ops \<Rightarrow> byte list \<Rightarrow> nat \<Rightarrow> u16 \<Rightarrow> nat \<Rightarrow> AttributeScan \<Rightarrow> (STATUS \<times> bool \<times> nat) option" where
  "checkAttribute S buf off kind len scan =
     (let padded = wrap16 (ROUND_UP len 4);
          late = (scan_fingerprint scan \<or> scan_integrity scan);
          ordinary = (\<lambda>ok err extra.
            if \<not> ok then Some (err, True, 0)
            else if late then Some (STATUS_STUN_ATTRIBUTES_AFTER_FINGERPRINT_MESSAGE_INTEGRITY, True, 0)
            else Some (STATUS_SUCCESS, True, extra)) in
      if kind \<in> set all_addresses then do {
        fam \<leftarrow> rdInt16 (stun_platform S) buf (off + 4);
        ordinary (len = 4 + (if fam AND 0xff = 1 then 4 else 16)) STATUS_STUN_INVALID_ADDRESS_ATTRIBUTE_LENGTH 0 }
      else if kind = STUN_ATTRIBUTE_TYPE_USERNAME then ordinary (len \<le> 512) STATUS_STUN_INVALID_USERNAME_ATTRIBUTE_LENGTH padded
      else if kind = STUN_ATTRIBUTE_TYPE_PRIORITY then ordinary (len = 4) STATUS_STUN_INVALID_PRIORITY_ATTRIBUTE_LENGTH 0
      else if kind \<in> set flag_types then ordinary (len = 0) STATUS_STUN_INVALID_USE_CANDIDATE_ATTRIBUTE_LENGTH 0
      else if kind = STUN_ATTRIBUTE_TYPE_LIFETIME then ordinary (len = 4) STATUS_STUN_INVALID_LIFETIME_ATTRIBUTE_LENGTH 0
      else if kind = STUN_ATTRIBUTE_TYPE_CHANGE_REQUEST then ordinary (len = 4) STATUS_STUN_INVALID_CHANGE_REQUEST_ATTRIBUTE_LENGTH 0
      else if kind = STUN_ATTRIBUTE_TYPE_REQUESTED_TRANSPORT
      then ordinary (len = 4) STATUS_STUN_INVALID_REQUESTED_TRANSPORT_ATTRIBUTE_LENGTH 0
      else if kind = STUN_ATTRIBUTE_TYPE_REALM then ordinary (len \<le> 128) STATUS_STUN_INVALID_REALM_ATTRIBUTE_LENGTH padded
      else if kind = STUN_ATTRIBUTE_TYPE_NONCE then ordinary (len \<le> 128) STATUS_STUN_INVALID_NONCE_ATTRIBUTE_LENGTH padded
      else if kind = STUN_ATTRIBUTE_TYPE_ERROR_CODE then ordinary (len \<le> 128) STATUS_STUN_INVALID_ERROR_CODE_ATTRIBUTE_LENGTH padded
      else if kind \<in> set control_types then ordinary (len = 8) STATUS_STUN_INVALID_ICE_CONTROL_ATTRIBUTE_LENGTH 0
      else if kind = STUN_ATTRIBUTE_TYPE_DATA then ordinary True STATUS_SUCCESS padded
      else if kind = STUN_ATTRIBUTE_TYPE_CHANNEL_NUMBER then ordinary (len = 4) STATUS_STUN_INVALID_CHANNEL_NUMBER_ATTRIBUTE_LENGTH 0
      else if kind = STUN_ATTRIBUTE_TYPE_MESSAGE_INTEGRITY then
        Some (if len \<noteq> 20 then STATUS_STUN_INVALID_MESSAGE_INTEGRITY_ATTRIBUTE_LENGTH
              else if scan_integrity scan then STATUS_STUN_MULTIPLE_MESSAGE_INTEGRITY_ATTRIBUTES
              else if scan_fingerprint scan then STATUS_STUN_MESSAGE_INTEGRITY_AFTER_FINGERPRINT
              else STATUS_SUCCESS, True, 0)
      else if kind = STUN_ATTRIBUTE_TYPE_FINGERPRINT then
        Some (if len \<noteq> 4 then STATUS_STUN_INVALID_FINGERPRINT_ATTRIBUTE_LENGTH
              else if scan_fingerprint scan then STATUS_STUN_MULTIPLE_FINGERPRINT_ATTRIBUTES
              else STATUS_SUCCESS, True, 0)
      else Some (STATUS_SUCCESS, False, 0))"

text \<open>The first pass; \<open>stop\<close> is the end of the message in the buffer.\<close>

function scanAttributes :: "stun_ops \<Rightarrow> byte list \<Rightarrow> nat \<Rightarrow> nat \<Rightarrow> AttributeScan \<Rightarrow> (STATUS \<times> AttributeScan) option" where
  "scanAttributes S buf stop off scan =
     (if off < stop then do {
        kind \<leftarrow> rdInt16 (stun_platform S) buf off;
        len \<leftarrow> rdInt16 (stun_platform S) buf (off + 2);
        (st, known, extra) \<leftarrow> checkAttribute S buf off kind (unat len) scan;
        if STATUS_FAILED st then Some (st, scan)
        else
          let scan' = scan\<lparr>scan_count := scan_count scan + (if known then 1 else 0),
                           scan_size := wrap32 (scan_size scan + (if known then sizeofAttribute S kind + extra else 0)),
                           scan_integrity := scan_integrity scan \<or> kind = STUN_ATTRIBUTE_TYPE_MESSAGE_INTEGRITY,
                           scan_fingerprint := scan_fingerprint scan \<or> kind = STUN_ATTRIBUTE_TYPE_FINGERPRINT\<rparr> in
          if \<not> scan_count scan' \<le> 20 then Some (STATUS_STUN_MAX_ATTRIBUTE_COUNT, scan')
          else scanAttributes S buf stop (off + 4 + wrap16 (ROUND_UP (unat len) 4)) scan' }
      else Some (STATUS_SUCCESS, scan))"
  by pat_completeness auto
termination
  by (relation "measure (\<lambda>(S, buf, stop, off, scan). stop - off)") auto

declare scanAttributes.simps [simp del]

text \<open>
  The stored magic cookie of the byte order of the host, as it lies in memory: its low half for the
  port, the whole for the first four bytes of the address.
\<close>

definition cookiePort :: "stun_ops \<Rightarrow> byte list" where
  "cookiePort S = (if isBigEndian S then bytes16 (ucast (0x2112A442 :: u32)) else rev (bytes16 (ucast (0x42A41221 :: u32))))"

definition cookieAddress :: "stun_ops \<Rightarrow> byte list" where
  "cookieAddress S = (if isBigEndian S then bytes32 0x2112A442 else rev (bytes32 0x42A41221))"

definition parseAddress :: "stun_ops \<Rightarrow> byte list \<Rightarrow> byte list \<Rightarrow> nat \<Rightarrow> u16 \<Rightarrow> nat \<Rightarrow> KvsIpAddress option" where
  "parseAddress S tid buf off kind len =
     do {
       raw \<leftarrow> rdn buf (off + 4) len;
       fam \<leftarrow> rdInt16 (stun_platform S) raw 0;
       p \<leftarrow> rdn raw 2 2;
       let addr = take 16 (drop 4 raw @ replicate 16 0);
       let a = \<lparr>family = fam AND 0xff, port = p, address = addr, isPointToPoint = False\<rparr>;
       if kind = STUN_ATTRIBUTE_TYPE_XOR_MAPPED_ADDRESS \<or> kind = STUN_ATTRIBUTE_TYPE_XOR_RELAYED_ADDRESS
       then Some (a\<lparr>port := xor_bytes p (cookiePort S),
                    address := xor_bytes (take 4 addr) (cookieAddress S) @
                      (if fam AND 0xff = 2 then xor_bytes (drop 4 addr) tid else drop 4 addr)\<rparr>)
       else Some a }"

text \<open>The check values: over the buffer before the attribute, with the length that ends with it.\<close>

definition covered :: "stun_ops \<Rightarrow> byte list \<Rightarrow> nat \<Rightarrow> nat \<Rightarrow> byte list option" where
  "covered S buf off len =
     do { buf' \<leftarrow> memwrite buf 2 (putInt16 S (word_of_nat (off + 4 + len - 20)));
          rdn buf' 0 (wrap16 off) }"

text \<open>
  One attribute of the second pass: status, body, whether it has storage, the size of that storage.
  An error code attribute without contents copies a negative number of bytes.
\<close>

definition parseAttribute ::
  "stun_ops \<Rightarrow> byte list option \<Rightarrow> nat \<Rightarrow> byte list \<Rightarrow> byte list \<Rightarrow> nat \<Rightarrow> u16 \<Rightarrow> nat \<Rightarrow> (STATUS \<times> StunBody option \<times> nat) option" where
  "parseAttribute S password passwordLen tid buf off kind len =
     (let padded = wrap16 (ROUND_UP len 4); P = stun_platform S; n = sizeofAttribute S kind in
      if kind \<in> set all_addresses then do {
        a \<leftarrow> parseAddress S tid buf off kind len;
        Some (STATUS_SUCCESS, Some (StunAddress a), n) }
      else if kind \<in> set string_types then do {
        bs \<leftarrow> rdn buf (off + 4) padded;
        Some (STATUS_SUCCESS, Some (StunString padded bs), n + padded) }
      else if kind \<in> set word_types then do {
        v \<leftarrow> rdInt32 P buf (off + 4);
        Some (STATUS_SUCCESS, Some (StunWord v), n) }
      else if kind \<in> set flag_types then Some (STATUS_SUCCESS, Some StunEmpty, n)
      else if kind = STUN_ATTRIBUTE_TYPE_REQUESTED_TRANSPORT then do {
        q \<leftarrow> rdn buf (off + 4) 4;
        Some (STATUS_SUCCESS, Some (StunQuad q), n) }
      else if kind = STUN_ATTRIBUTE_TYPE_ERROR_CODE then
        (if padded < 4 then None
         else do {
           c \<leftarrow> rd buf (off + 6);
           d \<leftarrow> rd buf (off + 7);
           phrase \<leftarrow> rdn buf (off + 8) (padded - 4);
           Some (STATUS_SUCCESS, Some (StunErrorCode padded (word_of_nat (unat c * 100 + unat d)) (phrase @ replicate 4 0)), n + padded) })
      else if kind \<in> set control_types then do {
        bs \<leftarrow> rdn buf (off + 4) 8;
        Some (STATUS_SUCCESS, Some (StunTie (replicate 4 0 @ st64 S (getInt64 S (ld64 S bs)))), n) }
      else if kind = STUN_ATTRIBUTE_TYPE_CHANNEL_NUMBER then do {
        c \<leftarrow> rdInt16 P buf (off + 4);
        Some (STATUS_SUCCESS, Some (StunChannel c 0), n) }
      else if kind = STUN_ATTRIBUTE_TYPE_MESSAGE_INTEGRITY then
        (case password of
           None \<Rightarrow> Some (STATUS_NULL_ARG, None, 0)
         | Some key \<Rightarrow>
             if passwordLen = 0 then Some (STATUS_INVALID_ARG, None, 0)
             else do {
               k \<leftarrow> rdn key 0 passwordLen;
               bs \<leftarrow> covered S buf off 20;
               sent \<leftarrow> rdn buf (off + 4) 20;
               if sha1_hmac S k bs \<noteq> sent then Some (STATUS_STUN_MESSAGE_INTEGRITY_MISMATCH, None, 0)
               else Some (STATUS_SUCCESS, Some (StunIntegrity sent), n) })
      else if kind = STUN_ATTRIBUTE_TYPE_FINGERPRINT then do {
        v \<leftarrow> rdInt32 P buf (off + 4);
        bs \<leftarrow> covered S buf off 4;
        if compute_crc32 S bs XOR 0x5354554e \<noteq> v then Some (STATUS_STUN_FINGERPRINT_MISMATCH, None, 0)
        else Some (STATUS_SUCCESS, Some (StunWord v), n) }
      else Some (STATUS_SUCCESS, None, 0))"

text \<open>
  The second pass for the next \<open>n\<close> entries, the destination at \<open>dest\<close>.  An entry without storage
  shows what is stored at its destination next: the following entry, or just its own header.
\<close>

fun parseAttributes ::
  "stun_ops \<Rightarrow> byte list option \<Rightarrow> nat \<Rightarrow> byte list \<Rightarrow> byte list \<Rightarrow> nat \<Rightarrow> nat \<Rightarrow> nat \<Rightarrow> nat \<Rightarrow>
   (STATUS \<times> (nat \<times> StunAttribute) list) option" where
  "parseAttributes S password passwordLen tid buf stop off dest 0 = Some (STATUS_SUCCESS, [])"
| "parseAttributes S password passwordLen tid buf stop off dest (Suc n) =
     (if off < stop then do {
        kind \<leftarrow> rdInt16 (stun_platform S) buf off;
        len \<leftarrow> rdInt16 (stun_platform S) buf (off + 2);
        (st, body, size) \<leftarrow> parseAttribute S password passwordLen tid buf off kind (unat len);
        if STATUS_FAILED st then Some (st, [])
        else do {
          (st2, rest) \<leftarrow> parseAttributes S password passwordLen tid buf stop (off + 4 + wrap16 (ROUND_UP (unat len) 4)) (dest + size) n;
          Some (st2,
            (case (body, rest) of
               (Some b, _) \<Rightarrow> (dest, \<lparr>attr_type = kind, attr_length = len, attr_body = b\<rparr>)
             | (None, r # _) \<Rightarrow> r
             | (None, []) \<Rightarrow> (dest, \<lparr>attr_type = kind, attr_length = len, attr_body = StunEmpty\<rparr>)) # rest) } }
      else Some (STATUS_SUCCESS, []))"

definition deserializeStunPacket ::
  "stun_ops \<Rightarrow> byte list option \<Rightarrow> nat \<Rightarrow> byte list option \<Rightarrow> nat \<Rightarrow> (STATUS \<times> StunPacket option) option" where
  "deserializeStunPacket S pStunBuffer bufferSize password passwordLen =
     (case pStunBuffer of
        None \<Rightarrow> Some (STATUS_NULL_ARG, None)
      | Some buf \<Rightarrow>
          if \<not> bufferSize \<ge> 20 then Some (STATUS_INVALID_ARG, None)
          else do {
            msgLen \<leftarrow> rdInt16 (stun_platform S) buf 2;
            cookie \<leftarrow> rdInt32 (stun_platform S) buf 4;
            if \<not> bufferSize \<ge> unat msgLen + 20 then Some (STATUS_INVALID_ARG, None)
            else if cookie \<noteq> STUN_HEADER_MAGIC_COOKIE then Some (STATUS_STUN_MAGIC_COOKIE_MISMATCH, None)
            else do {
              (st, scan) \<leftarrow> scanAttributes S buf (20 + unat msgLen) 20
                \<lparr>scan_count = 0, scan_size = sizeofStunPacket S, scan_fingerprint = False, scan_integrity = False\<rparr>;
              if STATUS_FAILED st then Some (st, None)
              else
                let size = wrap32 (scan_size scan + scan_count scan * 8) in
                if \<not> memalloc (stun_platform S) size then Some (STATUS_NOT_ENOUGH_MEMORY, None)
                else do {
                  kind \<leftarrow> rdInt16 (stun_platform S) buf 0;
                  tid \<leftarrow> rdn buf 8 12;
                  (st2, attrs) \<leftarrow> parseAttributes S password passwordLen tid buf (20 + unat msgLen) 20
                                   (sizeofStunPacket S + 8 * scan_count scan) (scan_count scan);
                  if STATUS_FAILED st2 then Some (st2, None)
                  else Some (STATUS_SUCCESS,
                    Some \<lparr>stun_header = \<lparr>stunMessageType = kind, messageLength = msgLen, magicCookie = cookie, transactionId = tid\<rparr>,
                          allocationSize = size, attributeList = attrs\<rparr>) } } })"

end
