(* ===== verification/StunWire.thy ===== *)
theory StunWire
  imports StunParser
begin

text \<open>
  The wire format of a STUN message as a function of the packet, and the theorem that the serialiser
  of \<^verbatim>\<open>Stun.c\<close> produces it.

  The locale \<open>stun_services\<close> is what the code relies on outside the repository: PIC's conversions
  agree with network byte order, native 64-bit loads and stores are inverse, and an HMAC-SHA1 has
  twenty bytes.
\<close>

subsection \<open>Services\<close>

definition bytes64 :: "u64 \<Rightarrow> byte list" where
  "bytes64 w = bytes32 (ucast (drop_bit 32 w)) @ bytes32 (ucast w)"

definition be64 :: "byte list \<Rightarrow> u64" where
  "be64 bs = push_bit 32 (ucast (be32 (bs ! 0) (bs ! 1) (bs ! 2) (bs ! 3))) OR ucast (be32 (bs ! 4) (bs ! 5) (bs ! 6) (bs ! 7))"

lemma length_bytes64 [simp]: "length (bytes64 w) = 8"
  by (simp add: bytes64_def)

lemma be64_bytes64 [simp]: "be64 (bytes64 w) = w"
proof (rule bit_word_eqI)
  fix n assume "n < LENGTH(64)"
  then consider "n < 32" | "32 \<le> n" "n < 64" by fastforce
  then show "bit (be64 (bytes64 w)) n = bit w n"
    by cases (auto simp: be64_def bytes64_def bytes32_def bit_simps)
qed

locale stun_services =
  fixes S :: stun_ops
  assumes order: "network_order (stun_platform S)"
    and put16: "putInt16 S w = bytes16 w"
    and put32: "putInt32 S v = bytes32 v"
    and put64: "putInt64 S q = bytes64 q"
    and get64: "length bs = 8 \<Longrightarrow> getInt64 S (ld64 S bs) = be64 bs"
    and store_load: "length bs = 8 \<Longrightarrow> st64 S (ld64 S bs) = bs"
    and store_length: "length (st64 S q) = 8"
    and hmac_length: "length (sha1_hmac S k m) = 20"

sublocale stun_services \<subseteq> host: network_order "stun_platform S"
  by (rule order)

subsection \<open>The wire format\<close>

definition string_limit :: "u16 \<Rightarrow> nat" where
  "string_limit kind =
     (if kind = STUN_ATTRIBUTE_TYPE_USERNAME then 512 else if kind = STUN_ATTRIBUTE_TYPE_DATA then 65532 else 128)"

text \<open>An attribute that both sides handle, with a body and a length that fit its type.\<close>

definition sendable :: "StunAttribute \<Rightarrow> bool" where
  "sendable a \<longleftrightarrow>
     (case attr_body a of
        StunAddress ip \<Rightarrow> attr_type a \<in> set plain_addresses \<and> (family ip = 1 \<or> family ip = 2) \<and> length (port ip) = 2 \<and>
          length (address ip) = 16 \<and> attr_length a = (if IS_IPV4_ADDR ip then 8 else 20)
      | StunString padded bs \<Rightarrow> attr_type a \<in> set string_types \<and> padded = ROUND_UP (unat (attr_length a)) 4 \<and>
          length bs = padded \<and> unat (attr_length a) \<le> string_limit (attr_type a)
      | StunWord v \<Rightarrow> attr_type a \<in> set word_types \<and> attr_length a = 4
      | StunQuad q \<Rightarrow> attr_type a = STUN_ATTRIBUTE_TYPE_REQUESTED_TRANSPORT \<and> length q = 4 \<and> attr_length a = 4
      | StunTie mem \<Rightarrow> attr_type a \<in> set control_types \<and> length mem = 12 \<and> attr_length a = 8
      | StunChannel c r \<Rightarrow> attr_type a = STUN_ATTRIBUTE_TYPE_CHANNEL_NUMBER \<and> attr_length a = 4
      | StunEmpty \<Rightarrow> attr_type a \<in> set flag_types \<and> attr_length a = 0
      | _ \<Rightarrow> False)"

definition masked :: "byte list \<Rightarrow> KvsIpAddress \<Rightarrow> KvsIpAddress" where
  "masked tid ip =
     ip\<lparr>port := xor_bytes (port ip) (bytes16 0x2112),
        address := xor_bytes (take 4 (address ip)) (bytes32 STUN_HEADER_MAGIC_COOKIE) @
          (if family ip = 2 then xor_bytes (drop 4 (address ip)) tid else drop 4 (address ip))\<rparr>"

definition sent_address :: "byte list \<Rightarrow> u16 \<Rightarrow> KvsIpAddress \<Rightarrow> KvsIpAddress" where
  "sent_address tid kind ip =
     (if kind = STUN_ATTRIBUTE_TYPE_XOR_MAPPED_ADDRESS \<or> kind = STUN_ATTRIBUTE_TYPE_XOR_PEER_ADDRESS then masked tid ip else ip)"

definition attr_value :: "stun_ops \<Rightarrow> byte list \<Rightarrow> StunAttribute \<Rightarrow> byte list" where
  "attr_value S tid a =
     (case attr_body a of
        StunAddress ip \<Rightarrow> let s = sent_address tid (attr_type a) ip in
          bytes16 (family s) @ port s @ take (if IS_IPV4_ADDR s then 4 else 16) (address s)
      | StunString padded bs \<Rightarrow> bs
      | StunWord v \<Rightarrow> bytes32 v
      | StunQuad q \<Rightarrow> q
      | StunTie mem \<Rightarrow> bytes64 (ld64 S (take 8 mem))
      | StunChannel c r \<Rightarrow> bytes16 c @ bytes16 r
      | _ \<Rightarrow> [])"

definition attr_wire :: "stun_ops \<Rightarrow> byte list \<Rightarrow> StunAttribute \<Rightarrow> byte list" where
  "attr_wire S tid a = bytes16 (attr_type a) @ bytes16 (attr_length a) @ attr_value S tid a"

definition attrs_wire :: "stun_ops \<Rightarrow> byte list \<Rightarrow> StunAttribute list \<Rightarrow> byte list" where
  "attrs_wire S tid as = concat (map (attr_wire S tid) as)"

definition stun_message :: "u16 \<Rightarrow> u16 \<Rightarrow> byte list \<Rightarrow> byte list \<Rightarrow> byte list" where
  "stun_message kind len tid body = bytes16 kind @ bytes16 len @ bytes32 STUN_HEADER_MAGIC_COOKIE @ tid @ body"

text \<open>A trailing check value over the message so far, whose length field already counts the trailer.\<close>

definition with_trailer :: "u16 \<Rightarrow> u16 \<Rightarrow> nat \<Rightarrow> (byte list \<Rightarrow> byte list) \<Rightarrow> byte list \<Rightarrow> byte list \<Rightarrow> byte list" where
  "with_trailer kind t n val tid body =
     body @ bytes16 t @ bytes16 (word_of_nat n) @ val (stun_message kind (word_of_nat (length body + 4 + n)) tid body)"

definition with_integrity :: "stun_ops \<Rightarrow> byte list option \<Rightarrow> u16 \<Rightarrow> byte list \<Rightarrow> byte list \<Rightarrow> byte list" where
  "with_integrity S key kind tid body =
     (case key of None \<Rightarrow> body
      | Some k \<Rightarrow> with_trailer kind STUN_ATTRIBUTE_TYPE_MESSAGE_INTEGRITY 20 (sha1_hmac S k) tid body)"

definition with_fingerprint :: "stun_ops \<Rightarrow> bool \<Rightarrow> u16 \<Rightarrow> byte list \<Rightarrow> byte list \<Rightarrow> byte list" where
  "with_fingerprint S f kind tid body =
     (if f then with_trailer kind STUN_ATTRIBUTE_TYPE_FINGERPRINT 4 (\<lambda>m. bytes32 (compute_crc32 S m XOR 0x5354554e)) tid body else body)"

definition stun_wire :: "stun_ops \<Rightarrow> byte list option \<Rightarrow> bool \<Rightarrow> StunHeader \<Rightarrow> StunAttribute list \<Rightarrow> byte list" where
  "stun_wire S key f hdr as =
     (let kind = stunMessageType hdr; tid = transactionId hdr;
          body = with_fingerprint S f kind tid (with_integrity S key kind tid (attrs_wire S tid as)) in
      stun_message kind (word_of_nat (length body)) tid body)"

subsection \<open>Sizes\<close>

lemma ROUND_UP_4: "ROUND_UP n 4 = (n + 3) div 4 * 4"
  by (simp add: ROUND_UP_def)

lemma length_xor_bytes [simp]: "length (xor_bytes xs ys) = min (length xs) (length ys)"
  by (simp add: xor_bytes_def)

lemma sent_address_family [simp]: "family (sent_address tid kind ip) = family ip"
  "IS_IPV4_ADDR (sent_address tid kind ip) = IS_IPV4_ADDR ip"
  by (simp_all add: sent_address_def masked_def IS_IPV4_ADDR_def)

lemma sent_address_length [simp]:
  assumes "length (port ip) = 2" "length (address ip) = 16" "length tid = 12"
  shows "length (port (sent_address tid kind ip)) = 2" "length (address (sent_address tid kind ip)) = 16"
  using assms by (simp_all add: sent_address_def masked_def)

lemma string_limit_le: "string_limit kind \<le> 65532"
  by (simp add: string_limit_def)

lemma length_attr_value:
  assumes "sendable a" "length tid = 12"
  shows "length (attr_value S tid a) = wrap16 (ROUND_UP (unat (attr_length a)) 4)"
  using assms string_limit_le [of "attr_type a"]
  by (auto simp: sendable_def attr_value_def Let_def wrap16_def ROUND_UP_4 split: StunBody.splits)

lemma length_attr_wire:
  "sendable a \<Longrightarrow> length tid = 12 \<Longrightarrow> length (attr_wire S tid a) = 4 + wrap16 (ROUND_UP (unat (attr_length a)) 4)"
  by (simp add: attr_wire_def length_attr_value)

lemma attrs_wire_simps [simp]:
  "attrs_wire S tid [] = []" "attrs_wire S tid (a # as) = attr_wire S tid a @ attrs_wire S tid as"
  by (simp_all add: attrs_wire_def)

lemma length_stun_message [simp]: "length tid = 12 \<Longrightarrow> length (stun_message kind len tid body) = 20 + length body"
  by (simp add: stun_message_def)

subsection \<open>One attribute\<close>

lemma bytes32_xor: "bytes32 (v XOR w) = xor_bytes (bytes32 v) (bytes32 w)"
  by (simp add: bytes32_def xor_bytes_def drop_bit_xor unsigned_xor_eq)

lemma writeAll_parts:
  "pos + length b \<le> length mem \<Longrightarrow> writeAll mem pos [(0, b)] = Some (patch mem pos b)"
  "pos + length b + length c \<le> length mem \<Longrightarrow> k = length b \<Longrightarrow> writeAll mem pos [(0, b), (k, c)] = Some (patch mem pos (b @ c))"
  "pos + length b + length c + length d \<le> length mem \<Longrightarrow> k = length b \<Longrightarrow> l = length b + length c \<Longrightarrow>
     writeAll mem pos [(0, b), (k, c), (l, d)] = Some (patch mem pos (b @ c @ d))"
  by (simp_all add: memwrite_patch patch_patch)

lemma list_of_4: "length xs = 4 \<Longrightarrow> xs = [xs ! 0, xs ! 1, xs ! 2, xs ! 3]"
  by (rule nth_equalityI) (auto simp: less_Suc_eq nth_Cons' numeral_eq_Suc)

lemma first_word: "length xs = 16 \<Longrightarrow> [xs ! 0, xs ! 1, xs ! 2, xs ! 3] = take 4 xs"
  using list_of_4 [of "take 4 xs"] by simp

lemma sendable_address:
  "sendable a \<Longrightarrow> attr_type a \<in> set plain_addresses \<longleftrightarrow> (\<exists>ip. attr_body a = StunAddress ip)"
  by (auto simp: sendable_def stun_types split: StunBody.splits)

lemma sendable_ordinary: "sendable a \<Longrightarrow> ordinary_type (attr_type a)"
  by (auto simp: sendable_def ordinary_type_def split: StunBody.splits)

lemma ordinary_not_trailer:
  "ordinary_type t \<Longrightarrow> t \<noteq> STUN_ATTRIBUTE_TYPE_MESSAGE_INTEGRITY \<and> t \<noteq> STUN_ATTRIBUTE_TYPE_FINGERPRINT"
  by (auto simp: ordinary_type_def stun_types)

context stun_services
begin

lemma rdInt32_first: "length xs = 16 \<Longrightarrow> rdInt32 (stun_platform S) xs 0 = Some (be32 (xs ! 0) (xs ! 1) (xs ! 2) (xs ! 3))"
  by (simp add: host.rdInt32_eq eval_nat_numeral)

lemma xorIpAddress_masked:
  assumes "length (address ip) = 16" "length tid = 12"
  shows "xorIpAddress S ip (Some tid) = Some (STATUS_SUCCESS, masked tid ip)"
proof -
  have w: "bytes32 (be32 (address ip ! 0) (address ip ! 1) (address ip ! 2) (address ip ! 3) XOR STUN_HEADER_MAGIC_COOKIE)
      = xor_bytes (take 4 (address ip)) (bytes32 STUN_HEADER_MAGIC_COOKIE)"
    using assms(1) by (simp add: bytes32_xor flip: first_word)
  have c: "ucast (drop_bit 16 STUN_HEADER_MAGIC_COOKIE) = (0x2112 :: u16)" by simp
  show ?thesis
    using assms by (simp add: xorIpAddress_def rdInt32_first put16 put32 w [simplified] c memwrite_in rdn_in masked_def Let_def)
qed

lemma stunPackageIpAddr_fill:
  assumes "sendable a" "attr_body a = StunAddress ip" "length (transactionId hdr) = 12"
    and room: "length (attr_wire S (transactionId hdr) a) \<le> room"
  shows "stunPackageIpAddr S hdr (attr_type a) ip True room =
    Some (STATUS_SUCCESS, attr_wire S (transactionId hdr) a, length (attr_wire S (transactionId hdr) a))"
  using assms
  by (auto simp: sendable_def stunPackageIpAddr_def Let_def xorIpAddress_masked sent_address_def attr_wire_def attr_value_def
      put16 rdn_in masked_def IS_IPV4_ADDR_def split: if_splits)

lemma stunPackageIpAddr_size:
  assumes "sendable a" "attr_body a = StunAddress ip" "length (transactionId hdr) = 12"
  shows "stunPackageIpAddr S hdr (attr_type a) ip False room = Some (STATUS_SUCCESS, [], length (attr_wire S (transactionId hdr) a))"
  using assms
  by (auto simp: sendable_def stunPackageIpAddr_def Let_def attr_wire_def attr_value_def)

lemma encodeAttribute_wire:
  assumes "sendable a" "\<nexists>ip. attr_body a = StunAddress ip"
  shows "\<exists>ws. encodeAttribute S a = Some (length (attr_wire S tid a), ws) \<and>
    (\<forall>mem pos. pos + length (attr_wire S tid a) \<le> length mem \<longrightarrow> writeAll mem pos ws = Some (patch mem pos (attr_wire S tid a)))"
proof (cases "attr_body a")
  case (StunString padded bs)
  with assms show ?thesis
    by (auto simp: sendable_def encodeAttribute_def attr_wire_def attr_value_def PACKAGE_STUN_ATTR_HEADER_def put16 Let_def rdn_in
        intro!: writeAll_parts(2) [where b = "bytes16 k @ bytes16 l" for k l, simplified])
next
  case (StunWord v)
  with assms show ?thesis
    by (auto simp: sendable_def encodeAttribute_def attr_wire_def attr_value_def PACKAGE_STUN_ATTR_HEADER_def put16 put32 Let_def stun_types
        intro!: writeAll_parts(2) [where b = "bytes16 k @ bytes16 l" for k l, simplified])
next
  case (StunQuad q)
  with assms show ?thesis
    by (auto simp: sendable_def encodeAttribute_def attr_wire_def attr_value_def PACKAGE_STUN_ATTR_HEADER_def put16 Let_def rdn_in stun_types
        intro!: writeAll_parts(2) [where b = "bytes16 k @ bytes16 l" for k l, simplified])
next
  case (StunTie mem)
  with assms show ?thesis
    by (auto simp: sendable_def encodeAttribute_def attr_wire_def attr_value_def PACKAGE_STUN_ATTR_HEADER_def put16 put64 Let_def rdn_in stun_types
        intro!: writeAll_parts(2) [where b = "bytes16 k @ bytes16 l" for k l, simplified])
next
  case (StunChannel c r)
  with assms show ?thesis
    by (auto simp: sendable_def encodeAttribute_def attr_wire_def attr_value_def PACKAGE_STUN_ATTR_HEADER_def put16 Let_def stun_types
        intro!: writeAll_parts(3) [where b = "bytes16 k @ bytes16 l" for k l, simplified])
next
  case StunEmpty
  with assms show ?thesis
    by (auto simp: sendable_def encodeAttribute_def attr_wire_def attr_value_def PACKAGE_STUN_ATTR_HEADER_def put16 Let_def stun_types
        intro!: writeAll_parts(1) [where b = "bytes16 k @ bytes16 l" for k l, simplified])
qed (use assms in \<open>auto simp: sendable_def\<close>)

end

subsection \<open>The whole message\<close>

text \<open>The serialiser in its two modes: \<open>body\<close> is written, \<open>rest\<close> is the buffer behind it; or \<open>n\<close> bytes are counted.\<close>

definition filling :: "u16 \<Rightarrow> u16 \<Rightarrow> byte list \<Rightarrow> byte list \<Rightarrow> byte list \<Rightarrow> nat \<Rightarrow> Serialiser" where
  "filling kind len tid body rest whole =
     \<lparr>ser_buffer = Some (stun_message kind len tid body @ rest), ser_pos = 20 + length body, ser_remaining = length rest,
      ser_packetSize = whole, ser_fingerprint = False, ser_integrity = False\<rparr>"

definition counting :: "nat \<Rightarrow> Serialiser" where
  "counting n = \<lparr>ser_buffer = None, ser_pos = 0, ser_remaining = 0, ser_packetSize = n, ser_fingerprint = False, ser_integrity = False\<rparr>"

lemma stun_message_append: "stun_message kind len tid (body @ w) = stun_message kind len tid body @ w"
  by (simp add: stun_message_def)

lemma patch_message:
  "length tid = 12 \<Longrightarrow> length w \<le> length rest \<Longrightarrow>
   patch (stun_message kind len tid body @ rest) (20 + length body) w = stun_message kind len tid (body @ w) @ drop (length w) rest"
  by (simp add: patch_def stun_message_append)

lemma patch_length_field:
  "length tid = 12 \<Longrightarrow> patch (stun_message kind len tid body @ rest) 2 (bytes16 len') = stun_message kind len' tid body @ rest"
  by (simp add: patch_def stun_message_def bytes16_def eval_nat_numeral)

context stun_services
begin

lemma serializeAttribute_fill:
  assumes "sendable a" and tid: "length (transactionId hdr) = 12"
    and fits: "length (attr_wire S (transactionId hdr) a) \<le> length rest" "length rest < 2 ^ 32"
  shows "serializeAttribute S hdr i n a (filling kind len (transactionId hdr) body rest whole) =
    Some (STATUS_SUCCESS, filling kind len (transactionId hdr) (body @ attr_wire S (transactionId hdr) a)
      (drop (length (attr_wire S (transactionId hdr) a)) rest) whole)" (is "_ = Some (_, ?z)")
proof -
  let ?w = "attr_wire S (transactionId hdr) a"
  let ?m = "stun_message kind len (transactionId hdr) body @ rest"
  have adv: "serAdvance (length ?w) ((filling kind len (transactionId hdr) body rest whole)\<lparr>ser_buffer := Some (patch ?m (20 + length body) ?w)\<rparr>) = ?z"
    using tid fits by (simp add: serAdvance_def filling_def patch_message)
  have room: "20 + length body + length ?w \<le> length ?m" using tid fits(1) by simp
  show ?thesis
  proof (cases "attr_type a \<in> set plain_addresses")
    case True
    with assms(1) obtain ip where ip: "attr_body a = StunAddress ip" by (auto simp: sendable_address)
    have p: "stunPackageIpAddr S hdr (attr_type a) ip True (length rest) = Some (STATUS_SUCCESS, ?w, length ?w)"
      using assms(1) ip tid fits(1) by (rule stunPackageIpAddr_fill)
    show ?thesis
      using True ip p adv room
      by (simp add: serializeAttribute_def Let_def filling_def memwrite_patch)
  next
    case False
    then obtain ws where e: "encodeAttribute S a = Some (length ?w, ws)" and w: "writeAll ?m (20 + length body) ws = Some (patch ?m (20 + length body) ?w)"
      using encodeAttribute_wire [OF assms(1), of "transactionId hdr"] sendable_address [OF assms(1)] room by blast
    show ?thesis
      using False e w adv fits(1) ordinary_not_trailer [OF sendable_ordinary [OF assms(1)]]
      by (simp add: serializeAttribute_def Let_def filling_def)
  qed
qed

lemma serializeAttribute_count:
  assumes "sendable a" "length (transactionId hdr) = 12" "m + length (attr_wire S (transactionId hdr) a) < 2 ^ 32"
  shows "serializeAttribute S hdr i n a (counting m) =
    Some (STATUS_SUCCESS, counting (m + length (attr_wire S (transactionId hdr) a)))"
proof (cases "attr_type a \<in> set plain_addresses")
  case True
  with assms(1) obtain ip where "attr_body a = StunAddress ip" by (auto simp: sendable_address)
  with True assms stunPackageIpAddr_size [OF assms(1) this assms(2)] show ?thesis
    by (simp add: serializeAttribute_def Let_def counting_def serAdvance_def)
next
  case False
  then obtain ws where "encodeAttribute S a = Some (length (attr_wire S (transactionId hdr) a), ws)"
    using encodeAttribute_wire [OF assms(1), of "transactionId hdr"] sendable_address [OF assms(1)] by blast
  with False assms ordinary_not_trailer [OF sendable_ordinary [OF assms(1)]] show ?thesis
    by (simp add: serializeAttribute_def Let_def counting_def serAdvance_def)
qed

lemma serializeAttributes_fill:
  assumes "\<forall>a \<in> set as. sendable a" "length (transactionId hdr) = 12"
    "length (attrs_wire S (transactionId hdr) as) \<le> length rest" "length rest < 2 ^ 32"
  shows "serializeAttributes S hdr i n as (filling kind len (transactionId hdr) body rest whole) =
    Some (STATUS_SUCCESS, filling kind len (transactionId hdr) (body @ attrs_wire S (transactionId hdr) as)
      (drop (length (attrs_wire S (transactionId hdr) as)) rest) whole)"
  using assms
proof (induction as arbitrary: i body rest)
  case (Cons a as)
  then show ?case by (simp add: serializeAttribute_fill add.commute)
qed simp

lemma serializeAttributes_count:
  assumes "\<forall>a \<in> set as. sendable a" "length (transactionId hdr) = 12" "m + length (attrs_wire S (transactionId hdr) as) < 2 ^ 32"
  shows "serializeAttributes S hdr i n as (counting m) =
    Some (STATUS_SUCCESS, counting (m + length (attrs_wire S (transactionId hdr) as)))"
  using assms
proof (induction as arbitrary: i m)
  case (Cons a as)
  then show ?case by (simp add: serializeAttribute_count add.assoc)
qed simp

lemma serializeTrailer_fill:
  assumes tid: "length tid = 12" and val: "\<And>m. length (val m) = n"
    and fits: "4 + n \<le> length rest" "length rest < 2 ^ 32" "20 + length body < 2 ^ 16"
  shows "\<exists>len'. serializeTrailer S t n val (filling kind len tid body rest whole) =
    Some (STATUS_SUCCESS, filling kind len' tid (with_trailer kind t n val tid body) (drop (4 + n) rest) whole)"
proof -
  define l :: u16 where "l = word_of_nat (length body + 4 + n)"
  define h where "h = bytes16 t @ bytes16 (word_of_nat n)"
  define v where "v = val (stun_message kind l tid body)"
  have l: "word_of_nat (20 + length body + (4 + n) - 20) = l" by (simp add: l_def add.commute add.left_commute)
  have h: "length h = 4" and v: "length v = n" by (simp_all add: h_def v_def val)
  have 1: "memwrite (stun_message kind len tid body @ rest) (20 + length body) h = Some (stun_message kind len tid (body @ h) @ drop 4 rest)"
    using patch_message [OF tid, of h rest kind len body] tid fits(1) h by (simp add: memwrite_patch)
  have 2: "memwrite (stun_message kind len tid (body @ h) @ drop 4 rest) 2 (bytes16 l) = Some (stun_message kind l tid (body @ h) @ drop 4 rest)"
    using patch_length_field [OF tid, of kind len "body @ h" "drop 4 rest" l] tid by (simp add: memwrite_patch)
  have 3: "rdn (stun_message kind l tid (body @ h) @ drop 4 rest) 0 (wrap16 (20 + length body)) = Some (stun_message kind l tid body)"
    using tid fits(3) by (simp add: wrap16_def rdn_in stun_message_append)
  have 4: "memwrite (stun_message kind l tid (body @ h) @ drop 4 rest) (24 + length body) v =
      Some (stun_message kind l tid (body @ h @ v) @ drop (4 + n) rest)"
    using patch_message [OF tid, of v "drop 4 rest" kind l "body @ h"] tid fits(1) h v
    by (simp add: memwrite_patch add.commute add.left_commute)
  have "with_trailer kind t n val tid body = body @ h @ v" by (simp add: with_trailer_def h_def v_def l_def)
  then have "serializeTrailer S t n val (filling kind len tid body rest whole) =
      Some (STATUS_SUCCESS, filling kind l tid (with_trailer kind t n val tid body) (drop (4 + n) rest) whole)"
    using fits(1,2) 1 2 3 4 h v
    by (simp add: serializeTrailer_def filling_def PACKAGE_STUN_ATTR_HEADER_def put16 serAdvance_def l [simplified]
        flip: h_def v_def)
  then show ?thesis ..
qed

lemma serializeTrailer_count:
  "m + (4 + n) < 2 ^ 32 \<Longrightarrow> serializeTrailer S t n val (counting m) = Some (STATUS_SUCCESS, counting (m + (4 + n)))"
  by (simp add: serializeTrailer_def counting_def serAdvance_def)

lemma length_with_trailer: "(\<And>m. length (val m) = n) \<Longrightarrow> length (with_trailer kind t n val tid body) = length body + (4 + n)"
  by (simp add: with_trailer_def)

lemma length_with_integrity: "length (with_integrity S key kind tid body) = length body + (if key = None then 0 else 24)"
  by (auto simp: with_integrity_def length_with_trailer hmac_length split: option.splits)

lemma length_with_fingerprint: "length (with_fingerprint S f kind tid body) = length body + (if f then 8 else 0)"
  by (simp add: with_fingerprint_def length_with_trailer)

lemma length_stun_wire:
  "length (transactionId hdr) = 12 \<Longrightarrow>
   length (stun_wire S key f hdr as) =
     20 + length (attrs_wire S (transactionId hdr) as) + (if key = None then 0 else 24) + (if f then 8 else 0)"
  by (simp add: stun_wire_def Let_def length_with_integrity length_with_fingerprint)

text \<open>The header, as the serialiser writes it into a buffer; the length field is still what the buffer held.\<close>

lemma header_fill:
  assumes "length tid = 12" "20 \<le> length buf"
  shows "\<exists>buf1 len. memwrite buf 0 (putInt16 S kind) = Some buf1 \<and>
    memwrite buf1 4 (putInt32 S STUN_HEADER_MAGIC_COOKIE @ tid) = Some (stun_message kind len tid [] @ drop 20 buf)"
proof -
  obtain b0 b1 b2 b3 rest where buf: "buf = b0 # b1 # b2 # b3 # rest"
    using assms(2) by (cases buf; cases "tl buf"; cases "tl (tl buf)"; cases "tl (tl (tl buf))") auto
  have "drop 20 buf = drop 16 rest" by (simp add: buf eval_nat_numeral)
  moreover have "16 \<le> length rest" using assms(2) by (simp add: buf)
  moreover have "bytes16 (be16 b2 b3) = [b2, b3]" by simp
  ultimately show ?thesis
    using assms
    by (intro exI [of _ "bytes16 kind @ b2 # b3 # rest"] exI [of _ "be16 b2 b3"])
      (simp add: buf put16 put32 memwrite_in stun_message_def bytes16_def eval_nat_numeral)
qed

end

text \<open>A packet whose message fits a 16-bit length; the arguments that a caller passes for the check values.\<close>

definition sendable_packet :: "stun_ops \<Rightarrow> byte list option \<Rightarrow> bool \<Rightarrow> StunPacket \<Rightarrow> bool" where
  "sendable_packet S key f pk \<longleftrightarrow>
     magicCookie (stun_header pk) = STUN_HEADER_MAGIC_COOKIE \<and> length (transactionId (stun_header pk)) = 12 \<and>
     list_all sendable (map snd (attributeList pk)) \<and> length (stun_wire S key f (stun_header pk) (map snd (attributeList pk))) < 2 ^ 16"

definition key_args :: "byte list option \<Rightarrow> byte list option \<Rightarrow> nat \<Rightarrow> bool \<Rightarrow> bool" where
  "key_args key password passwordLen gen \<longleftrightarrow>
     (case key of None \<Rightarrow> password = None \<and> \<not> gen | Some k \<Rightarrow> password = Some k \<and> passwordLen = length k \<and> k \<noteq> [] \<and> gen)"

context stun_services
begin

lemma integrity_fill:
  assumes tid: "length tid = 12" and key: "key_args key password passwordLen gen"
    and fits: "(if key = None then 0 else 24) \<le> length rest" "length rest < 2 ^ 32" "20 + length body < 2 ^ 16"
    and behind: "rest' = drop (if key = None then 0 else 24) rest"
  shows "\<exists>len'. serializeIntegrity S password passwordLen gen (filling kind len tid body rest whole) =
    Some (STATUS_SUCCESS, filling kind len' tid (with_integrity S key kind tid body) rest' whole)"
proof (cases key)
  case None
  with key behind show ?thesis by (auto simp: key_args_def with_integrity_def serializeIntegrity_def)
next
  case (Some k)
  with key have "password = Some k" "rdn k 0 passwordLen = Some k" "gen" by (auto simp: key_args_def rdn_in)
  with Some fits behind serializeTrailer_fill [OF tid, of "sha1_hmac S k" 20, OF hmac_length _ fits(2,3)]
  show ?thesis by (simp add: with_integrity_def serializeIntegrity_def)
qed

lemma fingerprint_fill:
  assumes tid: "length tid = 12"
    and fits: "(if f then 8 else 0) \<le> length rest" "length rest < 2 ^ 32" "20 + length body < 2 ^ 16"
    and behind: "rest' = drop (if f then 8 else 0) rest"
  shows "\<exists>len'. serializeFingerprint S f (filling kind len tid body rest whole) =
    Some (STATUS_SUCCESS, filling kind len' tid (with_fingerprint S f kind tid body) rest' whole)"
  using fits behind serializeTrailer_fill [OF tid, of "\<lambda>bs. bytes32 (compute_crc32 S bs XOR 0x5354554e)" 4, OF length_bytes32 _ fits(2,3)]
  by (auto simp: with_fingerprint_def serializeFingerprint_def put32)

lemma serialize_fill:
  assumes pk: "sendable_packet S key f pk" and key: "key_args key password passwordLen gen"
    and buf: "length buf = length (stun_wire S key f (stun_header pk) (map snd (attributeList pk)))"
  shows "serializeStunPacket S (Some pk) password passwordLen gen f (Some buf) (length buf) =
    Some (STATUS_SUCCESS, Some (stun_wire S key f (stun_header pk) (map snd (attributeList pk))), length buf)"
proof -
  define hdr where "hdr = stun_header pk"
  define as where "as = map snd (attributeList pk)"
  define tid where "tid = transactionId hdr"
  define kind where "kind = stunMessageType hdr"
  define b1 where "b1 = attrs_wire S tid as"
  define b2 where "b2 = with_integrity S key kind tid b1"
  define b3 where "b3 = with_fingerprint S f kind tid b2"
  note defs = hdr_def as_def tid_def kind_def
  have ok: "magicCookie hdr = STUN_HEADER_MAGIC_COOKIE" "length tid = 12" "\<forall>a \<in> set as. sendable a" "20 + length b3 < 2 ^ 16"
    using pk by (auto simp: sendable_packet_def list_all_iff stun_wire_def Let_def b1_def b2_def b3_def simp flip: defs)
  have lens: "length b2 = length b1 + (if key = None then 0 else 24)" "length b3 = length b2 + (if f then 8 else 0)"
    by (simp_all add: b2_def b3_def length_with_integrity length_with_fingerprint)
  have n: "length buf = 20 + length b3"
    using buf ok(2) lens by (simp add: b1_def flip: defs) (simp add: length_stun_wire tid_def)
  obtain buf1 l0 where h: "memwrite buf 0 (putInt16 S kind) = Some buf1"
      "memwrite buf1 4 (putInt32 S STUN_HEADER_MAGIC_COOKIE @ tid) = Some (stun_message kind l0 tid [] @ drop 20 buf)"
    using header_fill [OF ok(2), of buf kind] n by auto
  have z0: "\<lparr>ser_buffer = Some (stun_message kind l0 tid [] @ drop 20 buf), ser_pos = 20, ser_remaining = length buf - 20,
      ser_packetSize = length buf, ser_fingerprint = False, ser_integrity = False\<rparr> = filling kind l0 tid [] (drop 20 buf) (length buf)"
    by (simp add: filling_def)
  have r1: "serializeAttributes S hdr 0 (length (attributeList pk)) as (filling kind l0 tid [] (drop 20 buf) (length buf)) =
      Some (STATUS_SUCCESS, filling kind l0 tid b1 (drop (20 + length b1) buf) (length buf))"
    using serializeAttributes_fill [of as hdr "drop 20 buf", folded tid_def, folded b1_def] ok n lens by (simp add: add.commute)
  have fits2: "(if key = None then 0 else 24) \<le> length (drop (20 + length b1) buf)" "length (drop (20 + length b1) buf) < 2 ^ 32"
      "20 + length b1 < 2 ^ 16" "drop (20 + length b2) buf = drop (if key = None then 0 else 24) (drop (20 + length b1) buf)"
    using ok(4) n lens by (simp_all add: add.commute add.left_commute)
  have fits3: "(if f then 8 else 0) \<le> length (drop (20 + length b2) buf)" "length (drop (20 + length b2) buf) < 2 ^ 32"
      "20 + length b2 < 2 ^ 16" "[] = drop (if f then 8 else 0) (drop (20 + length b2) buf)"
    using ok(4) n lens by simp_all
  obtain l2 where r2: "serializeIntegrity S password passwordLen gen (filling kind l0 tid b1 (drop (20 + length b1) buf) (length buf)) =
      Some (STATUS_SUCCESS, filling kind l2 tid b2 (drop (20 + length b2) buf) (length buf))"
    using integrity_fill [OF ok(2) key fits2, of kind l0 "length buf", folded b2_def] by blast
  obtain l3 where r3: "serializeFingerprint S f (filling kind l2 tid b2 (drop (20 + length b2) buf) (length buf)) =
      Some (STATUS_SUCCESS, filling kind l3 tid b3 [] (length buf))"
    using fingerprint_fill [OF ok(2) fits3, of kind l2 "length buf", folded b3_def] by blast
  have fin: "finishSerialiser S (length buf) (filling kind l3 tid b3 [] (length buf)) =
      Some (STATUS_SUCCESS, Some (stun_message kind (word_of_nat (length b3)) tid b3), length buf)"
    using patch_length_field [OF ok(2), of kind l3 b3 "[]"] ok(2) n by (simp add: finishSerialiser_def filling_def memwrite_patch put16)
  have wire: "stun_wire S key f hdr as = stun_message kind (word_of_nat (length b3)) tid b3"
    by (simp add: stun_wire_def Let_def b3_def b2_def b1_def tid_def kind_def)
  have args: "\<not> (gen \<and> password = None)" "\<not> (password \<noteq> None \<and> passwordLen = 0)"
    using key by (auto simp: key_args_def split: option.splits)
  have tid12: "rdn tid 0 12 = Some tid" using ok(2) by (simp add: rdn_in)
  show ?thesis
    unfolding serializeStunPacket_def
    using args h z0 r1 r2 r3 fin wire n ok(1,2) tid12
    by (simp add: Let_def flip: defs)
qed

lemma serialize_count:
  assumes pk: "sendable_packet S key f pk" and key: "key_args key password passwordLen gen"
  shows "serializeStunPacket S (Some pk) password passwordLen gen f None pSize =
    Some (STATUS_SUCCESS, None, length (stun_wire S key f (stun_header pk) (map snd (attributeList pk))))"
proof -
  define hdr where "hdr = stun_header pk"
  define as where "as = map snd (attributeList pk)"
  define n where "n = length (attrs_wire S (transactionId hdr) as)"
  note defs = hdr_def as_def
  have ok: "magicCookie hdr = STUN_HEADER_MAGIC_COOKIE" "length (transactionId hdr) = 12" "\<forall>a \<in> set as. sendable a"
    using pk by (auto simp: sendable_packet_def list_all_iff simp flip: defs)
  have w: "length (stun_wire S key f hdr as) = 20 + n + (if key = None then 0 else 24) + (if f then 8 else 0)"
    unfolding n_def using ok(2) by (rule length_stun_wire)
  have less: "20 + n + (if key = None then 0 else 24) + (if f then 8 else 0) < 2 ^ 16"
    using pk w by (simp add: sendable_packet_def flip: defs)
  have z0: "\<lparr>ser_buffer = None, ser_pos = 0, ser_remaining = 0, ser_packetSize = 20, ser_fingerprint = False, ser_integrity = False\<rparr> = counting 20"
    by (simp add: counting_def)
  have r1: "serializeAttributes S hdr 0 (length (attributeList pk)) as (counting 20) = Some (STATUS_SUCCESS, counting (20 + n))"
    using less unfolding n_def by (intro serializeAttributes_count ok(2,3)) simp
  have r2: "serializeIntegrity S password passwordLen gen (counting (20 + n)) = Some (STATUS_SUCCESS, counting (20 + n + (if key = None then 0 else 24)))"
    using key less by (auto simp: serializeIntegrity_def key_args_def serializeTrailer_count rdn_in split: option.splits)
  have r3: "serializeFingerprint S f (counting m) = Some (STATUS_SUCCESS, counting (m + (if f then 8 else 0)))" if "m < 2 ^ 16" for m
    using that by (simp add: serializeFingerprint_def serializeTrailer_count)
  have fin: "finishSerialiser S pSize (counting m) = Some (STATUS_SUCCESS, None, m)" for m
    by (simp add: finishSerialiser_def counting_def)
  have args: "\<not> (gen \<and> password = None)" "\<not> (password \<noteq> None \<and> passwordLen = 0)"
    using key by (auto simp: key_args_def split: option.splits)
  show ?thesis
    unfolding serializeStunPacket_def
    using args z0 r1 r2 r3 [of "20 + n + (if key = None then 0 else 24)"] fin w ok(1) less
    by (simp add: Let_def flip: defs)
qed

end

end
