(* ===== verification/StunRoundTrip.thy ===== *)
theory StunRoundTrip
  imports StunWire
begin

text \<open>
  A STUN message that the serialiser wrote is read back by the parser: the header, the attributes as
  the other side sees them, and the verified check values.
\<close>

subsection \<open>What arrives\<close>

text \<open>
  Of an IPv4 address the first four bytes arrive; an XOR-PEER-ADDRESS stays masked; the tie breaker of an
  ICE control attribute is stored four bytes further; the reserved half of a channel number is dropped.
\<close>

definition received_address :: "byte list \<Rightarrow> u16 \<Rightarrow> KvsIpAddress \<Rightarrow> KvsIpAddress" where
  "received_address tid kind ip =
     (let s = (if kind = STUN_ATTRIBUTE_TYPE_XOR_PEER_ADDRESS then masked tid ip else ip) in
      s\<lparr>address := (if IS_IPV4_ADDR ip then take 4 (address s) @ replicate 12 0 else address s), isPointToPoint := False\<rparr>)"

definition received :: "byte list \<Rightarrow> StunAttribute \<Rightarrow> StunAttribute" where
  "received tid a =
     a\<lparr>attr_body := (case attr_body a of
         StunAddress ip \<Rightarrow> StunAddress (received_address tid (attr_type a) ip)
       | StunTie mem \<Rightarrow> StunTie (replicate 4 0 @ take 8 mem)
       | StunChannel c r \<Rightarrow> StunChannel c 0
       | b \<Rightarrow> b)\<rparr>"

text \<open>
  The attributes that arrive as they were sent: all but peer addresses, tie breakers, channel numbers with a
  reserved half, and addresses with contents that are not sent.
\<close>

definition intact :: "StunAttribute \<Rightarrow> bool" where
  "intact a \<longleftrightarrow>
     (case attr_body a of
        StunAddress ip \<Rightarrow> attr_type a \<noteq> STUN_ATTRIBUTE_TYPE_XOR_PEER_ADDRESS \<and> \<not> isPointToPoint ip \<and>
          (IS_IPV4_ADDR ip \<longrightarrow> drop 4 (address ip) = replicate 12 0)
      | StunTie mem \<Rightarrow> False
      | StunChannel c r \<Rightarrow> r = 0
      | _ \<Rightarrow> True)"

lemma intact_received: "intact a \<Longrightarrow> received tid a = a"
proof (cases "attr_body a")
  case (StunAddress ip)
  moreover have "take 4 (address ip) @ replicate 12 0 = address ip" if "drop 4 (address ip) = replicate 12 0"
    using append_take_drop_id [of 4 "address ip"] that by simp
  ultimately show "intact a \<Longrightarrow> received tid a = a"
    by (auto simp: intact_def received_def received_address_def Let_def)
qed (simp_all add: intact_def received_def)

text \<open>The storage of an attribute behind the struct of the packet.\<close>

definition extra_storage :: "StunAttribute \<Rightarrow> nat" where
  "extra_storage a = (case attr_body a of StunString padded bs \<Rightarrow> padded | _ \<Rightarrow> 0)"

subsection \<open>Reading one attribute\<close>

lemma xor_bytes_twice: "length xs \<le> length ys \<Longrightarrow> xor_bytes (xor_bytes xs ys) ys = xs"
  by (induction xs ys rule: list_induct2') (auto simp: xor_bytes_def xor.assoc)

lemma cookies: "\<not> isBigEndian S \<Longrightarrow> cookiePort S = bytes16 0x2112" "\<not> isBigEndian S \<Longrightarrow> cookieAddress S = bytes32 STUN_HEADER_MAGIC_COOKIE"
  by (simp_all add: cookiePort_def cookieAddress_def bytes16_def bytes32_def)

lemma rdn_at: "length pre = off \<Longrightarrow> n = length bs \<Longrightarrow> rdn (pre @ bs @ post) off n = Some bs"
  by (simp add: rdn_in)

lemma list_of_2: "length xs = 2 \<Longrightarrow> xs = [xs ! 0, xs ! 1]"
  by (rule nth_equalityI) (auto simp: less_Suc_eq nth_Cons' numeral_eq_Suc)

context stun_services
begin

lemma rdInt16_at: "length pre = off \<Longrightarrow> rdInt16 (stun_platform S) (pre @ bytes16 w @ post) off = Some w"
  using host.rdInt16_put [of pre w post] by (simp add: host.putUnaligned16)

lemma rdInt32_at: "length pre = off \<Longrightarrow> rdInt32 (stun_platform S) (pre @ bytes32 w @ post) off = Some w"
  using host.rdInt32_put [of pre w post] by (simp add: host.putUnaligned32)

lemma rdInt16_start: "rdInt16 (stun_platform S) (bytes16 w @ post) 0 = Some w"
  using rdInt16_at [of "[]" 0] by simp

lemma parseAddress_received:
  assumes "sendable a" "attr_body a = StunAddress ip" "length tid = 12" "\<not> isBigEndian S" "length pre = off + 4"
  shows "parseAddress S tid (pre @ attr_value S tid a @ post) off (attr_type a) (unat (attr_length a)) =
    Some (received_address tid (attr_type a) ip)"
proof -
  define s where "s = sent_address tid (attr_type a) ip"
  have ip: "family ip = 1 \<or> family ip = 2" "length (port ip) = 2" "length (address ip) = 16" "attr_type a \<in> set plain_addresses"
    using assms(1,2) by (auto simp: sendable_def)
  have raw: "rdn (pre @ attr_value S tid a @ post) (off + 4) (unat (attr_length a)) = Some (attr_value S tid a)"
    using assms length_attr_value [OF assms(1,3), of S]
    by (intro rdn_at) (auto simp: sendable_def wrap16_def ROUND_UP_4)
  have val: "attr_value S tid a = bytes16 (family ip) @ port s @ take (if IS_IPV4_ADDR ip then 4 else 16) (address s)"
    using assms(2) by (simp add: attr_value_def s_def Let_def)
  have s: "length (port s) = 2" "length (address s) = 16" using ip assms(3) by (simp_all add: s_def)
  have fam: "family ip AND 0xff = family ip" using ip(1) by auto
  have "rdn (attr_value S tid a) 2 2 = Some (port s)"
    unfolding val using s by (intro rdn_at) simp_all
  moreover have "rdInt16 (stun_platform S) (attr_value S tid a) 0 = Some (family ip)"
    unfolding val by (rule rdInt16_start)
  moreover have "drop 4 (attr_value S tid a) = take (if IS_IPV4_ADDR ip then 4 else 16) (address s)"
    unfolding val using s by simp
  moreover have "length (attr_value S tid a) = 4 + (if IS_IPV4_ADDR ip then 4 else 16)"
    unfolding val using s by simp
  moreover have "attr_type a \<noteq> STUN_ATTRIBUTE_TYPE_XOR_RELAYED_ADDRESS"
    using ip(4) by (auto simp: stun_types)
  ultimately show ?thesis
    using ip(1-3) s assms(3,4) fam raw
    by (cases "family ip = 1")
      (auto simp: parseAddress_def Let_def cookies received_address_def s_def sent_address_def masked_def IS_IPV4_ADDR_def
        xor_bytes_twice intro!: KvsIpAddress.equality)
qed

lemma family_at:
  assumes "sendable a" "attr_body a = StunAddress ip" "length pre = off + 4"
  shows "rdInt16 (stun_platform S) (pre @ attr_value S tid a @ post) (off + 4) = Some (family ip)"
  using assms rdInt16_at [OF assms(3), of "family ip"] by (simp add: attr_value_def Let_def)

lemma checkAttribute_known:
  assumes "sendable a" "\<not> scan_fingerprint scan" "\<not> scan_integrity scan" "length pre = off + 4"
  shows "checkAttribute S (pre @ attr_value S tid a @ post) off (attr_type a) (unat (attr_length a)) scan =
    Some (STATUS_SUCCESS, True, extra_storage a)"
proof (cases "attr_body a")
  case (StunAddress ip)
  with assms(1) have "attr_type a \<in> set all_addresses" "family ip = 1 \<or> family ip = 2" "attr_length a = (if IS_IPV4_ADDR ip then 8 else 20)"
    by (auto simp: sendable_def all_addresses_def)
  with assms StunAddress family_at [OF assms(1) StunAddress assms(4), of tid post] show ?thesis
    by (auto simp: checkAttribute_def extra_storage_def IS_IPV4_ADDR_def)
next
  case (StunString padded bs)
  have "wrap16 padded = padded"
    using assms(1) StunString string_limit_le [of "attr_type a"] by (auto simp: sendable_def wrap16_def ROUND_UP_4)
  with assms StunString show ?thesis
    by (auto simp: checkAttribute_def extra_storage_def sendable_def all_addresses_def stun_types string_limit_def)
qed (use assms in \<open>auto simp: checkAttribute_def extra_storage_def sendable_def all_addresses_def stun_types\<close>)

lemma parseAttribute_received:
  assumes "sendable a" "length tid = 12" "\<not> isBigEndian S" "length pre = off + 4"
  shows "parseAttribute S password passwordLen tid (pre @ attr_value S tid a @ post) off (attr_type a) (unat (attr_length a)) =
    Some (STATUS_SUCCESS, Some (attr_body (received tid a)), sizeofAttribute S (attr_type a) + extra_storage a)"
proof (cases "attr_body a")
  case (StunAddress ip)
  then have "attr_type a \<in> set all_addresses" using assms(1) by (simp add: sendable_def all_addresses_def)
  with StunAddress parseAddress_received [OF assms(1) StunAddress assms(2-4), of post] show ?thesis
    by (simp add: parseAttribute_def received_def extra_storage_def)
next
  case (StunString padded bs)
  have "wrap16 padded = padded"
    using assms(1) StunString string_limit_le [of "attr_type a"] by (auto simp: sendable_def wrap16_def ROUND_UP_4)
  with assms StunString rdn_at [OF assms(4), of padded bs post] show ?thesis
    by (auto simp: parseAttribute_def received_def extra_storage_def all_addresses_def sendable_def Let_def attr_value_def stun_types)
next
  case (StunWord v)
  with assms rdInt32_at [OF assms(4), of v post] show ?thesis
    by (auto simp: parseAttribute_def received_def extra_storage_def all_addresses_def sendable_def Let_def attr_value_def stun_types)
next
  case (StunQuad q)
  with assms rdn_at [OF assms(4), of 4 q post] show ?thesis
    by (auto simp: parseAttribute_def received_def extra_storage_def all_addresses_def sendable_def Let_def attr_value_def stun_types)
next
  case (StunTie mem)
  with assms rdn_at [OF assms(4), of 8 "bytes64 (ld64 S (take 8 mem))" post] show ?thesis
    by (auto simp: parseAttribute_def received_def extra_storage_def all_addresses_def sendable_def Let_def attr_value_def stun_types
        get64 store_load)
next
  case (StunChannel c r)
  with assms rdInt16_at [OF assms(4), of c "bytes16 r @ post"] show ?thesis
    by (auto simp: parseAttribute_def received_def extra_storage_def all_addresses_def sendable_def Let_def attr_value_def stun_types)
qed (use assms in \<open>auto simp: parseAttribute_def received_def extra_storage_def all_addresses_def sendable_def Let_def stun_types\<close>)

text \<open>The header of an attribute at \<open>off\<close>.\<close>

lemma attribute_header_at:
  assumes "length pre = off"
  shows "rdInt16 (stun_platform S) (pre @ bytes16 t @ bytes16 l @ post) off = Some t"
    "rdInt16 (stun_platform S) (pre @ bytes16 t @ bytes16 l @ post) (off + 2) = Some l"
  using assms rdInt16_at [of pre off t "bytes16 l @ post"] rdInt16_at [of "pre @ bytes16 t" "off + 2" l post] by simp_all

subsection \<open>The two passes\<close>

abbreviation scanned :: "StunAttribute list \<Rightarrow> AttributeScan \<Rightarrow> AttributeScan" where
  "scanned as scan \<equiv> scan\<lparr>scan_count := scan_count scan + length as,
     scan_size := fold (\<lambda>a m. wrap32 (m + (sizeofAttribute S (attr_type a) + extra_storage a))) as (scan_size scan)\<rparr>"

lemma scanAttributes_known:
  assumes "\<forall>a \<in> set as. sendable a" "length tid = 12" "length pre = off" "off + length (attrs_wire S tid as) \<le> stop"
    "\<not> scan_fingerprint scan" "\<not> scan_integrity scan" "scan_count scan + length as \<le> 20"
  shows "scanAttributes S (pre @ attrs_wire S tid as @ post) stop off scan =
    scanAttributes S (pre @ attrs_wire S tid as @ post) stop (off + length (attrs_wire S tid as)) (scanned as scan)"
  using assms
proof (induction as arbitrary: pre off scan)
  case (Cons a as)
  let ?buf = "pre @ attrs_wire S tid (a # as) @ post"
  let ?scan = "scan\<lparr>scan_count := scan_count scan + 1,
     scan_size := wrap32 (scan_size scan + (sizeofAttribute S (attr_type a) + extra_storage a))\<rparr>"
  have a: "sendable a" "off < stop" using Cons.prems length_attr_wire [of a tid S] by auto
  have buf: "?buf = pre @ bytes16 (attr_type a) @ bytes16 (attr_length a) @ attr_value S tid a @ attrs_wire S tid as @ post"
    "?buf = (pre @ bytes16 (attr_type a) @ bytes16 (attr_length a)) @ attr_value S tid a @ (attrs_wire S tid as @ post)"
    "?buf = (pre @ attr_wire S tid a) @ attrs_wire S tid as @ post"
    by (simp_all add: attr_wire_def)
  have h: "rdInt16 (stun_platform S) ?buf off = Some (attr_type a)" "rdInt16 (stun_platform S) ?buf (off + 2) = Some (attr_length a)"
    unfolding buf(1) using attribute_header_at [OF Cons.prems(3)] by auto
  have c: "checkAttribute S ?buf off (attr_type a) (unat (attr_length a)) scan = Some (STATUS_SUCCESS, True, extra_storage a)"
    unfolding buf(2) using Cons.prems(3,5,6) a(1) by (intro checkAttribute_known) simp_all
  have keep: "scan\<lparr>scan_count := k, scan_size := m, scan_integrity := False, scan_fingerprint := False\<rparr> = scan\<lparr>scan_count := k, scan_size := m\<rparr>" for k m
    using Cons.prems(5,6) by (cases scan) simp
  have "scanAttributes S ?buf stop off scan = scanAttributes S ?buf stop (off + length (attr_wire S tid a)) ?scan"
    using a h c Cons.prems(2,5,6,7) ordinary_not_trailer [OF sendable_ordinary [OF a(1)]]
    by (subst scanAttributes.simps) (simp add: Let_def length_attr_wire add.assoc keep)
  also have "\<dots> = scanAttributes S ?buf stop (off + length (attr_wire S tid a) + length (attrs_wire S tid as)) (scanned as ?scan)"
    unfolding buf(3) using Cons.prems by (intro Cons.IH) simp_all
  also have "scanned as ?scan = scanned (a # as) scan" by simp
  finally show ?case by (simp add: add.assoc)
qed simp

lemma parseAttributes_known:
  assumes "\<forall>a \<in> set as. sendable a" "length tid = 12" "\<not> isBigEndian S" "length pre = off" "off + length (attrs_wire S tid as) \<le> stop"
  shows "\<exists>dest' prefix. parseAttributes S password passwordLen tid (pre @ attrs_wire S tid as @ post) stop off dest (length as + n) =
    do { (st, rest) \<leftarrow> parseAttributes S password passwordLen tid (pre @ attrs_wire S tid as @ post) stop (off + length (attrs_wire S tid as)) dest' n;
         Some (st, prefix @ rest) } \<and> map snd prefix = map (received tid) as"
  using assms
proof (induction as arbitrary: pre off dest)
  case Nil
  show ?case by (intro exI [of _ dest] exI [of _ "[]"]) simp
next
  case (Cons a as)
  let ?buf = "pre @ attrs_wire S tid (a # as) @ post"
  let ?d = "dest + (sizeofAttribute S (attr_type a) + extra_storage a)"
  have a: "sendable a" "off < stop" using Cons.prems length_attr_wire [of a tid S] by auto
  have buf: "?buf = pre @ bytes16 (attr_type a) @ bytes16 (attr_length a) @ attr_value S tid a @ attrs_wire S tid as @ post"
    "?buf = (pre @ bytes16 (attr_type a) @ bytes16 (attr_length a)) @ attr_value S tid a @ (attrs_wire S tid as @ post)"
    "?buf = (pre @ attr_wire S tid a) @ attrs_wire S tid as @ post"
    by (simp_all add: attr_wire_def)
  have h: "rdInt16 (stun_platform S) ?buf off = Some (attr_type a)" "rdInt16 (stun_platform S) ?buf (off + 2) = Some (attr_length a)"
    unfolding buf(1) using attribute_header_at [OF Cons.prems(4)] by auto
  have p: "parseAttribute S password passwordLen tid ?buf off (attr_type a) (unat (attr_length a)) =
      Some (STATUS_SUCCESS, Some (attr_body (received tid a)), sizeofAttribute S (attr_type a) + extra_storage a)"
    unfolding buf(2) using Cons.prems(2-4) a(1) by (intro parseAttribute_received) simp_all
  obtain dest' prefix where IH: "parseAttributes S password passwordLen tid ?buf stop (off + length (attr_wire S tid a)) ?d (length as + n) =
      do { (st, rest) \<leftarrow> parseAttributes S password passwordLen tid ?buf stop (off + length (attr_wire S tid a) + length (attrs_wire S tid as)) dest' n;
           Some (st, prefix @ rest) }" "map snd prefix = map (received tid) as"
    using Cons.IH [of "pre @ attr_wire S tid a" "off + length (attr_wire S tid a)" ?d] Cons.prems unfolding buf(3) by auto
  have r: "\<lparr>attr_type = attr_type a, attr_length = attr_length a, attr_body = attr_body (received tid a)\<rparr> = received tid a"
    by (simp add: received_def)
  have "parseAttributes S password passwordLen tid ?buf stop off dest (length (a # as) + n) =
      do { (st, rest) \<leftarrow> parseAttributes S password passwordLen tid ?buf stop (off + length (attrs_wire S tid (a # as))) dest' n;
           Some (st, ((dest, received tid a) # prefix) @ rest) }"
    using a h p IH(1) length_attr_wire [OF a(1) Cons.prems(2), of S]
    by (simp add: add.assoc r bind_assoc split_def)
  then show ?case using IH(2) by (intro exI [of _ dest'] exI [of _ "(dest, received tid a) # prefix"]) simp
qed

end

subsection \<open>The check values\<close>

text \<open>The attributes the parser adds for the trailing check values of a message with the attributes \<open>body\<close>.\<close>

definition integrity_attrs :: "stun_ops \<Rightarrow> byte list option \<Rightarrow> u16 \<Rightarrow> byte list \<Rightarrow> byte list \<Rightarrow> StunAttribute list" where
  "integrity_attrs S key kind tid body =
     (case key of None \<Rightarrow> []
      | Some k \<Rightarrow> [\<lparr>attr_type = STUN_ATTRIBUTE_TYPE_MESSAGE_INTEGRITY, attr_length = 20,
                   attr_body = StunIntegrity (sha1_hmac S k (stun_message kind (word_of_nat (length body + 24)) tid body))\<rparr>])"

definition fingerprint_attrs :: "stun_ops \<Rightarrow> bool \<Rightarrow> u16 \<Rightarrow> byte list \<Rightarrow> byte list \<Rightarrow> StunAttribute list" where
  "fingerprint_attrs S f kind tid body =
     (if f then [\<lparr>attr_type = STUN_ATTRIBUTE_TYPE_FINGERPRINT, attr_length = 4,
                  attr_body = StunWord (compute_crc32 S (stun_message kind (word_of_nat (length body + 8)) tid body) XOR 0x5354554e)\<rparr>] else [])"

context stun_services
begin

lemma covered_message:
  assumes "length tid = 12" "20 + length body < 2 ^ 16" "off = 20 + length body" "n' = length body + 4 + n"
  shows "covered S (stun_message kind len tid (body @ post)) off n = Some (stun_message kind (word_of_nat n') tid body)"
proof -
  have "memwrite (stun_message kind len tid (body @ post)) 2 (bytes16 w) = Some (stun_message kind w tid body @ post)" for w
    using patch_length_field [OF assms(1), of kind len "body @ post" "[]"] assms(1) by (simp add: memwrite_patch stun_message_append)
  moreover have "word_of_nat (off + 4 + n - 20) = (word_of_nat n' :: u16)" by (simp add: assms(3,4) add.commute add.left_commute)
  ultimately show ?thesis
    using assms(1-3) by (simp add: covered_def put16 wrap16_def rdn_in)
qed

lemma scan_integrity_step:
  assumes "length pre = off" "off < stop" "\<not> scan_fingerprint scan" "\<not> scan_integrity scan" "scan_count scan + 1 \<le> 20"
  shows "\<exists>m. scanAttributes S (pre @ bytes16 STUN_ATTRIBUTE_TYPE_MESSAGE_INTEGRITY @ bytes16 20 @ post) stop off scan =
    scanAttributes S (pre @ bytes16 STUN_ATTRIBUTE_TYPE_MESSAGE_INTEGRITY @ bytes16 20 @ post) stop (24 + off)
      \<lparr>scan_count = scan_count scan + 1, scan_size = m, scan_fingerprint = False, scan_integrity = True\<rparr>"
  using assms attribute_header_at [OF assms(1), of STUN_ATTRIBUTE_TYPE_MESSAGE_INTEGRITY 20 post]
  by (subst scanAttributes.simps, cases scan)
    (auto simp: checkAttribute_def all_addresses_def stun_types Let_def wrap16_def ROUND_UP_4)

lemma scan_fingerprint_step:
  assumes "length pre = off" "off < stop" "\<not> scan_fingerprint scan" "scan_count scan + 1 \<le> 20"
  shows "\<exists>m. scanAttributes S (pre @ bytes16 STUN_ATTRIBUTE_TYPE_FINGERPRINT @ bytes16 4 @ post) stop off scan =
    scanAttributes S (pre @ bytes16 STUN_ATTRIBUTE_TYPE_FINGERPRINT @ bytes16 4 @ post) stop (8 + off)
      \<lparr>scan_count = scan_count scan + 1, scan_size = m, scan_fingerprint = True, scan_integrity = scan_integrity scan\<rparr>"
  using assms attribute_header_at [OF assms(1), of STUN_ATTRIBUTE_TYPE_FINGERPRINT 4 post]
  by (subst scanAttributes.simps, cases scan)
    (auto simp: checkAttribute_def all_addresses_def stun_types Let_def wrap16_def ROUND_UP_4)

lemma scan_stop: "stop \<le> off \<Longrightarrow> scanAttributes S buf stop off scan = Some (STATUS_SUCCESS, scan)"
  by (simp add: scanAttributes.simps)

lemma parse_stop: "stop \<le> off \<Longrightarrow> parseAttributes S password passwordLen tid buf stop off dest n = Some (STATUS_SUCCESS, [])"
  by (cases n) simp_all

lemma integrity_parsed:
  assumes "length tid = 12" "20 + length body < 2 ^ 16" "off = 20 + length body" "key_args (Some k) password passwordLen gen"
  shows "parseAttribute S password passwordLen tid
      (stun_message kind len tid (with_trailer kind STUN_ATTRIBUTE_TYPE_MESSAGE_INTEGRITY 20 (sha1_hmac S k) tid body @ post))
      off STUN_ATTRIBUTE_TYPE_MESSAGE_INTEGRITY 20 =
    Some (STATUS_SUCCESS, Some (StunIntegrity (sha1_hmac S k (stun_message kind (word_of_nat (length body + 24)) tid body))),
      sizeofAttribute S STUN_ATTRIBUTE_TYPE_MESSAGE_INTEGRITY)"
proof -
  define mac where "mac = sha1_hmac S k (stun_message kind (word_of_nat (length body + 24)) tid body)"
  define buf where "buf = stun_message kind len tid (body @ bytes16 STUN_ATTRIBUTE_TYPE_MESSAGE_INTEGRITY @ bytes16 20 @ mac @ post)"
  have b: "stun_message kind len tid (with_trailer kind STUN_ATTRIBUTE_TYPE_MESSAGE_INTEGRITY 20 (sha1_hmac S k) tid body @ post) = buf"
    by (simp add: buf_def mac_def with_trailer_def add.commute)
  have "buf = (stun_message kind len tid body @ bytes16 STUN_ATTRIBUTE_TYPE_MESSAGE_INTEGRITY @ bytes16 20) @ mac @ post"
    by (simp add: buf_def stun_message_append)
  then have r: "rdn buf (off + 4) 20 = Some mac"
    using assms(1,3) hmac_length by (simp only: rdn_at length_append length_stun_message length_bytes16 mac_def)
  have c: "covered S buf off 20 = Some (stun_message kind (word_of_nat (length body + 24)) tid body)"
    unfolding buf_def using assms by (intro covered_message) simp_all
  have k: "password = Some k" "rdn k 0 passwordLen = Some k" "passwordLen \<noteq> 0" using assms(4) by (auto simp: key_args_def rdn_in)
  show ?thesis unfolding b
    using r c k by (simp add: parseAttribute_def all_addresses_def stun_types Let_def mac_def)
qed

lemma fingerprint_parsed:
  assumes "length tid = 12" "20 + length body < 2 ^ 16" "off = 20 + length body"
  shows "parseAttribute S password passwordLen tid
      (stun_message kind len tid (with_trailer kind STUN_ATTRIBUTE_TYPE_FINGERPRINT 4 (\<lambda>m. bytes32 (compute_crc32 S m XOR 0x5354554e)) tid body))
      off STUN_ATTRIBUTE_TYPE_FINGERPRINT 4 =
    Some (STATUS_SUCCESS, Some (StunWord (compute_crc32 S (stun_message kind (word_of_nat (length body + 8)) tid body) XOR 0x5354554e)),
      sizeofAttribute S STUN_ATTRIBUTE_TYPE_FINGERPRINT)"
proof -
  define v where "v = compute_crc32 S (stun_message kind (word_of_nat (length body + 8)) tid body) XOR 0x5354554e"
  define buf where "buf = stun_message kind len tid (body @ bytes16 STUN_ATTRIBUTE_TYPE_FINGERPRINT @ bytes16 4 @ bytes32 v)"
  have b: "stun_message kind len tid (with_trailer kind STUN_ATTRIBUTE_TYPE_FINGERPRINT 4 (\<lambda>m. bytes32 (compute_crc32 S m XOR 0x5354554e)) tid body) = buf"
    by (simp add: buf_def v_def with_trailer_def add.commute)
  have "buf = (stun_message kind len tid body @ bytes16 STUN_ATTRIBUTE_TYPE_FINGERPRINT @ bytes16 4) @ bytes32 v @ []"
    by (simp add: buf_def stun_message_append)
  then have r: "rdInt32 (stun_platform S) buf (off + 4) = Some v"
    using assms(1,3) by (simp only: rdInt32_at length_append length_stun_message length_bytes16)
  have c: "covered S buf off 4 = Some (stun_message kind (word_of_nat (length body + 8)) tid body)"
    unfolding buf_def using assms by (intro covered_message) simp_all
  show ?thesis unfolding b
    using r c by (simp add: parseAttribute_def all_addresses_def stun_types Let_def v_def)
qed

lemma with_fingerprint_prefix: "\<exists>post. with_fingerprint S f kind tid body = body @ post"
  by (simp add: with_fingerprint_def with_trailer_def)

lemma fingerprint_scanned:
  assumes "length tid = 12" "\<not> scan_fingerprint scan" "scan_count scan + (if f then 1 else 0) \<le> 20"
  shows "\<exists>scan'. scanAttributes S (stun_message kind len tid (with_fingerprint S f kind tid body))
      (20 + length (with_fingerprint S f kind tid body)) (20 + length body) scan = Some (STATUS_SUCCESS, scan') \<and>
    scan_count scan' = scan_count scan + (if f then 1 else 0)"
proof (cases f)
  case True
  define post where "post = bytes32 (compute_crc32 S (stun_message kind (word_of_nat (length body + 8)) tid body) XOR 0x5354554e)"
  have b: "stun_message kind len tid (with_fingerprint S f kind tid body) =
      stun_message kind len tid body @ bytes16 STUN_ATTRIBUTE_TYPE_FINGERPRINT @ bytes16 4 @ post"
    using True by (simp add: with_fingerprint_def with_trailer_def stun_message_append post_def add.commute)
  have n: "length (with_fingerprint S f kind tid body) = length body + 8" using True by (simp add: length_with_fingerprint)
  show ?thesis unfolding b n
    using scan_fingerprint_step [of "stun_message kind len tid body" "20 + length body" "20 + (length body + 8)" scan post] assms True
    by (auto simp: scan_stop)
next
  case False
  then show ?thesis by (simp add: with_fingerprint_def scan_stop)
qed

lemma trailers_scanned:
  assumes "length tid = 12" "\<not> scan_fingerprint scan" "\<not> scan_integrity scan"
    "scan_count scan + (if key = None then 0 else 1) + (if f then 1 else 0) \<le> 20"
    and b: "b = with_fingerprint S f kind tid (with_integrity S key kind tid body)"
  shows "\<exists>scan'. scanAttributes S (stun_message kind len tid b) (20 + length b) (20 + length body) scan = Some (STATUS_SUCCESS, scan') \<and>
    scan_count scan' = scan_count scan + (if key = None then 0 else 1) + (if f then 1 else 0)"
proof (cases key)
  case None
  with fingerprint_scanned [OF assms(1,2), of f kind len body] assms(4) show ?thesis by (simp add: b with_integrity_def)
next
  case (Some k)
  define b2 where "b2 = with_integrity S key kind tid body"
  obtain post where post: "b = b2 @ post" using with_fingerprint_prefix b b2_def by metis
  define mac where "mac = sha1_hmac S k (stun_message kind (word_of_nat (length body + 24)) tid body)"
  have m: "stun_message kind len tid b = stun_message kind len tid body @ bytes16 STUN_ATTRIBUTE_TYPE_MESSAGE_INTEGRITY @ bytes16 20 @ mac @ post"
    by (simp add: post b2_def Some with_integrity_def with_trailer_def stun_message_append mac_def add.commute)
  have n: "length b2 = length body + 24" "length b \<ge> length body + 24"
    by (simp_all add: b b2_def Some length_with_integrity length_with_fingerprint)
  obtain z where step: "scanAttributes S (stun_message kind len tid b) (20 + length b) (20 + length body) scan =
      scanAttributes S (stun_message kind len tid b) (20 + length b) (24 + (20 + length body))
        \<lparr>scan_count = scan_count scan + 1, scan_size = z, scan_fingerprint = False, scan_integrity = True\<rparr>"
    unfolding m using scan_integrity_step [of "stun_message kind len tid body" "20 + length body" "20 + length b" scan "mac @ post"]
      assms(1-4) Some n(2) by auto
  obtain scan' where r: "scanAttributes S (stun_message kind len tid b) (20 + length b) (20 + length b2)
        \<lparr>scan_count = scan_count scan + 1, scan_size = z, scan_fingerprint = False, scan_integrity = True\<rparr> = Some (STATUS_SUCCESS, scan')"
      "scan_count scan' = scan_count scan + 1 + (if f then 1 else 0)"
    using fingerprint_scanned [OF assms(1), of "\<lparr>scan_count = scan_count scan + 1, scan_size = z, scan_fingerprint = False, scan_integrity = True\<rparr>" f kind len b2]
      assms(4) Some by (auto simp: b b2_def)
  have "24 + (20 + length body) = 20 + length b2" by (simp add: n)
  then have "scanAttributes S (stun_message kind len tid b) (20 + length b) (20 + length body) scan = Some (STATUS_SUCCESS, scan')"
    using step r(1) by (simp only:)
  with r(2) Some show ?thesis by simp
qed

lemma fingerprint_attrs_parsed:
  assumes "length tid = 12" "20 + length body < 2 ^ 16"
  shows "\<exists>rest. parseAttributes S password passwordLen tid (stun_message kind len tid (with_fingerprint S f kind tid body))
      (20 + length (with_fingerprint S f kind tid body)) (20 + length body) dest (if f then 1 else 0) = Some (STATUS_SUCCESS, rest) \<and>
    map snd rest = fingerprint_attrs S f kind tid body"
proof (cases f)
  case True
  define buf where "buf = stun_message kind len tid (with_fingerprint S f kind tid body)"
  obtain post where b: "buf = stun_message kind len tid body @ bytes16 STUN_ATTRIBUTE_TYPE_FINGERPRINT @ bytes16 4 @ post"
    using True by (simp add: buf_def with_fingerprint_def with_trailer_def stun_message_append)
  have h: "rdInt16 (stun_platform S) buf (20 + length body) = Some STUN_ATTRIBUTE_TYPE_FINGERPRINT"
    "rdInt16 (stun_platform S) buf (20 + length body + 2) = Some 4"
    unfolding b by (rule attribute_header_at, simp add: assms(1))+
  have n: "length (with_fingerprint S f kind tid body) = length body + 8" using True by (simp add: length_with_fingerprint)
  have p: "parseAttribute S password passwordLen tid buf (20 + length body) STUN_ATTRIBUTE_TYPE_FINGERPRINT 4 =
      Some (STATUS_SUCCESS, Some (StunWord (compute_crc32 S (stun_message kind (word_of_nat (length body + 8)) tid body) XOR 0x5354554e)),
        sizeofAttribute S STUN_ATTRIBUTE_TYPE_FINGERPRINT)"
    unfolding buf_def using fingerprint_parsed [OF assms refl] True by (simp add: with_fingerprint_def)
  show ?thesis unfolding n buf_def [symmetric]
    using h p True by (simp add: fingerprint_attrs_def)
next
  case False
  then show ?thesis by (simp add: fingerprint_attrs_def)
qed

lemma trailers_parsed:
  assumes "length tid = 12" and key: "key_args key password passwordLen gen"
    and b: "b = with_fingerprint S f kind tid (with_integrity S key kind tid body)" and "20 + length b < 2 ^ 16"
  shows "\<exists>rest. parseAttributes S password passwordLen tid (stun_message kind len tid b) (20 + length b) (20 + length body) dest
      ((if key = None then 0 else 1) + (if f then 1 else 0)) = Some (STATUS_SUCCESS, rest) \<and>
    map snd rest = integrity_attrs S key kind tid body @ fingerprint_attrs S f kind tid (with_integrity S key kind tid body)"
proof (cases key)
  case None
  then have "b = with_fingerprint S f kind tid body" by (simp add: b with_integrity_def)
  with fingerprint_attrs_parsed [OF assms(1), of body password passwordLen kind len f dest] assms(4) None show ?thesis
    by (simp add: with_integrity_def integrity_attrs_def length_with_fingerprint)
next
  case (Some k)
  define b2 where "b2 = with_integrity S key kind tid body"
  define buf where "buf = stun_message kind len tid b"
  define n where "n = (if f then 1 else 0 :: nat)"
  obtain post where post: "b = b2 @ post" using with_fingerprint_prefix b b2_def by metis
  have b2: "b2 = with_trailer kind STUN_ATTRIBUTE_TYPE_MESSAGE_INTEGRITY 20 (sha1_hmac S k) tid body"
    by (simp add: b2_def Some with_integrity_def)
  obtain rest' where m: "buf = stun_message kind len tid body @ bytes16 STUN_ATTRIBUTE_TYPE_MESSAGE_INTEGRITY @ bytes16 20 @ rest'"
    by (simp add: buf_def post b2 with_trailer_def stun_message_append)
  have h: "rdInt16 (stun_platform S) buf (20 + length body) = Some STUN_ATTRIBUTE_TYPE_MESSAGE_INTEGRITY"
    "rdInt16 (stun_platform S) buf (20 + length body + 2) = Some 20"
    unfolding m by (rule attribute_header_at, simp add: assms(1))+
  have len: "length b2 = length body + 24" "20 + length body < 20 + length b" "20 + length b2 < 2 ^ 16"
    using assms(4) by (simp_all add: b2_def b Some length_with_integrity length_with_fingerprint)
  have p: "parseAttribute S password passwordLen tid buf (20 + length body) STUN_ATTRIBUTE_TYPE_MESSAGE_INTEGRITY 20 =
      Some (STATUS_SUCCESS, Some (StunIntegrity (sha1_hmac S k (stun_message kind (word_of_nat (length body + 24)) tid body))),
        sizeofAttribute S STUN_ATTRIBUTE_TYPE_MESSAGE_INTEGRITY)"
    unfolding buf_def post b2 using assms(1) key Some len by (intro integrity_parsed) simp_all
  obtain rest where r: "parseAttributes S password passwordLen tid buf (20 + length b) (20 + length b2)
        (dest + sizeofAttribute S STUN_ATTRIBUTE_TYPE_MESSAGE_INTEGRITY) n = Some (STATUS_SUCCESS, rest)"
      "map snd rest = fingerprint_attrs S f kind tid b2"
    using fingerprint_attrs_parsed [OF assms(1) len(3), of password passwordLen kind len f "dest + sizeofAttribute S STUN_ATTRIBUTE_TYPE_MESSAGE_INTEGRITY"]
    unfolding buf_def n_def b b2_def by blast
  have o: "24 + length body + wrap16 (ROUND_UP 20 4) = 20 + length b2" by (simp add: len wrap16_def ROUND_UP_4)
  have "parseAttributes S password passwordLen tid buf (20 + length b) (20 + length body) dest (Suc n) =
      Some (STATUS_SUCCESS, (dest, \<lparr>attr_type = STUN_ATTRIBUTE_TYPE_MESSAGE_INTEGRITY, attr_length = 20,
        attr_body = StunIntegrity (sha1_hmac S k (stun_message kind (word_of_nat (length body + 24)) tid body))\<rparr>) # rest)"
    using h p r(1) len(2) by (simp add: o)
  then show ?thesis
    using r(2) Some unfolding buf_def n_def b2_def by (auto simp: integrity_attrs_def)
qed

lemma deserialize_wire:
  assumes pk: "sendable_packet S key f pk" and key: "key_args key password passwordLen gen" and le: "\<not> isBigEndian S"
    and count: "length (attributeList pk) + (if key = None then 0 else 1) + (if f then 1 else 0) \<le> 20"
    and alloc: "\<And>n. memalloc (stun_platform S) n"
    and wire: "wire = stun_wire S key f (stun_header pk) (map snd (attributeList pk))"
  shows "\<exists>pk'. deserializeStunPacket S (Some wire) (length wire) password passwordLen = Some (STATUS_SUCCESS, Some pk') \<and>
    stun_header pk' = (stun_header pk)\<lparr>messageLength := word_of_nat (length wire - 20)\<rparr> \<and>
    map snd (attributeList pk') = map (received (transactionId (stun_header pk))) (map snd (attributeList pk)) @
      (let kind = stunMessageType (stun_header pk); tid = transactionId (stun_header pk);
           body = attrs_wire S tid (map snd (attributeList pk)) in
       integrity_attrs S key kind tid body @ fingerprint_attrs S f kind tid (with_integrity S key kind tid body))"
proof -
  define hdr where "hdr = stun_header pk"
  define as where "as = map snd (attributeList pk)"
  define tid where "tid = transactionId hdr"
  define kind where "kind = stunMessageType hdr"
  define body where "body = attrs_wire S tid as"
  define b where "b = with_fingerprint S f kind tid (with_integrity S key kind tid body)"
  define len where "len = (word_of_nat (length b) :: u16)"
  define t where "t = (if key = None then 0 else 1) + (if f then 1 else 0 :: nat)"
  note defs = hdr_def as_def tid_def kind_def
  have ok: "magicCookie hdr = STUN_HEADER_MAGIC_COOKIE" "length tid = 12" "\<forall>a \<in> set as. sendable a" "20 + length b < 2 ^ 16"
    using pk by (auto simp: sendable_packet_def list_all_iff stun_wire_def Let_def body_def b_def simp flip: defs)
  have w: "wire = stun_message kind len tid b"
    by (simp add: wire stun_wire_def Let_def len_def b_def body_def flip: defs)
  obtain post where post: "b = body @ post"
    using with_fingerprint_prefix [of f kind tid "with_integrity S key kind tid body"]
    by (auto simp: b_def with_integrity_def with_trailer_def split: option.splits)
  have w2: "wire = stun_message kind len tid [] @ attrs_wire S tid as @ post"
    by (simp add: w post body_def stun_message_def)
  have le_stop: "20 + length (attrs_wire S tid as) \<le> 20 + length b" by (simp add: post body_def)
  have n: "unat len = length b" using ok(4) by (simp add: len_def unat_of_nat)
  have hd: "rdInt16 (stun_platform S) wire 0 = Some kind" "rdInt16 (stun_platform S) wire 2 = Some len"
      "rdInt32 (stun_platform S) wire 4 = Some STUN_HEADER_MAGIC_COOKIE" "rdn wire 8 12 = Some tid"
    using rdInt16_start [of kind] rdInt16_at [of "bytes16 kind" 2] rdInt32_at [of "bytes16 kind @ bytes16 len" 4]
      rdn_at [of "bytes16 kind @ bytes16 len @ bytes32 STUN_HEADER_MAGIC_COOKIE" 8 12 tid b] ok(2)
    by (simp_all add: w stun_message_def)
  let ?scan = "\<lparr>scan_count = 0, scan_size = sizeofStunPacket S, scan_fingerprint = False, scan_integrity = False\<rparr>"
  have cnt: "length as + t \<le> 20" using count by (simp add: as_def t_def)
  have s1: "scanAttributes S wire (20 + length b) 20 ?scan = scanAttributes S wire (20 + length b) (20 + length body) (scanned as ?scan)"
    unfolding w2 body_def using ok(2,3) cnt le_stop by (intro scanAttributes_known) simp_all
  obtain scan' where s: "scanAttributes S wire (20 + length b) 20 ?scan = Some (STATUS_SUCCESS, scan')" "scan_count scan' = length as + t"
    using trailers_scanned [OF ok(2), of "scanned as ?scan" key f b kind body len] cnt
    unfolding s1 by (auto simp: b_def w t_def add.assoc)
  let ?dest = "sizeofStunPacket S + 8 * (length as + t)"
  obtain dest' prefix where p1: "parseAttributes S password passwordLen tid wire (20 + length b) 20 ?dest (length as + t) =
      do { (st, rest) \<leftarrow> parseAttributes S password passwordLen tid wire (20 + length b) (20 + length body) dest' t; Some (st, prefix @ rest) }"
      "map snd prefix = map (received tid) as"
    using parseAttributes_known [OF ok(3,2) le _ le_stop, of "stun_message kind len tid []" password passwordLen post ?dest t] ok(2)
    unfolding body_def w2 by auto
  obtain rest where p2: "parseAttributes S password passwordLen tid wire (20 + length b) (20 + length body) dest' t = Some (STATUS_SUCCESS, rest)"
      "map snd rest = integrity_attrs S key kind tid body @ fingerprint_attrs S f kind tid (with_integrity S key kind tid body)"
    using trailers_parsed [OF ok(2) key b_def ok(4), of len dest'] unfolding w t_def by blast
  have sizes: "length wire = 20 + length b" using ok(2) by (simp add: w)
  have "hdr\<lparr>messageLength := len\<rparr> = \<lparr>stunMessageType = kind, messageLength = len, magicCookie = STUN_HEADER_MAGIC_COOKIE, transactionId = tid\<rparr>"
    using ok(1) by (simp add: kind_def tid_def)
  with s p1 p2 hd n sizes alloc show ?thesis
    by (simp add: deserializeStunPacket_def Let_def flip: defs body_def) (simp add: len_def)
qed

end

subsection \<open>A host\<close>

text \<open>
  A little-endian host with the struct sizes of the 64-bit targets, the bitwise CRC-32 and, in place
  of HMAC-SHA1, a keyed sum with twenty bytes.
\<close>

lemma bytes64_be64: "length bs = 8 \<Longrightarrow> bytes64 (be64 bs) = bs"
proof -
  assume "length bs = 8"
  then obtain a b c d e f g h where bs: "bs = [a, b, c, d, e, f, g, h]"
    by (auto simp: length_Suc_conv eval_nat_numeral)
  have hi: "\<not> bit (v :: u32) (32 + n)" for v n using bit_imp_le_length [of v "32 + n"] by auto
  have "ucast (drop_bit 32 (be64 bs)) = be32 a b c d" "ucast (be64 bs) = be32 e f g h"
    unfolding be64_def bs by (auto intro!: bit_word_eqI simp: bit_simps hi)
  then show ?thesis by (simp add: bytes64_def bs)
qed

fun crc_bits :: "nat \<Rightarrow> u32 \<Rightarrow> u32" where
  "crc_bits 0 v = v"
| "crc_bits (Suc n) v = crc_bits n (if bit v 0 then drop_bit 1 v XOR 0xEDB88320 else drop_bit 1 v)"

definition crc32 :: "byte list \<Rightarrow> u32" where
  "crc32 bs = NOT (foldl (\<lambda>v b. crc_bits 8 (v XOR ucast b)) (NOT 0) bs)"

definition sample_mac :: "byte list \<Rightarrow> byte list \<Rightarrow> byte list" where
  "sample_mac key bs = replicate 20 (sum_list key * (sum_list bs + 1))"

definition sample_sizes :: "u16 \<Rightarrow> nat" where
  "sample_sizes kind =
     (if kind \<in> set all_addresses then 28
      else if kind \<in> set string_types then 16
      else if kind = STUN_ATTRIBUTE_TYPE_ERROR_CODE then 16
      else if kind \<in> set flag_types then 4
      else if kind \<in> set control_types then 16
      else if kind = STUN_ATTRIBUTE_TYPE_MESSAGE_INTEGRITY then 24
      else 8)"

definition sample_stun :: stun_ops where
  "sample_stun =
     \<lparr>stun_platform = little_endian_host, putInt16 = bytes16, putInt32 = bytes32, putInt64 = bytes64,
      getInt64 = (\<lambda>v. be64 (rev (bytes64 v))), ld64 = (\<lambda>bs. be64 (rev bs)), st64 = (\<lambda>v. rev (bytes64 v)),
      isBigEndian = False, sha1_hmac = sample_mac, compute_crc32 = crc32,
      sizeofAttribute = sample_sizes, sizeofStunPacket = 40\<rparr>"

interpretation sample: stun_services sample_stun
  by unfold_locales
    (simp_all add: sample_stun_def bytes64_be64 sample_mac_def le_host.getInt16_load le_host.getInt32_load le_host.getUnaligned16
      le_host.getUnaligned32 le_host.putUnaligned16 le_host.putUnaligned32)

definition sample_binding :: StunPacket where
  "sample_binding =
     \<lparr>stun_header = \<lparr>stunMessageType = 0x0101, messageLength = 0, magicCookie = STUN_HEADER_MAGIC_COOKIE, transactionId = [1, 2, 3, 4, 5, 6, 7, 8, 9, 10, 11, 12]\<rparr>,
      allocationSize = 2048,
      attributeList =
        [(200, \<lparr>attr_type = STUN_ATTRIBUTE_TYPE_USERNAME, attr_length = 3, attr_body = StunString 4 [97, 58, 98, 0]\<rparr>),
         (224, \<lparr>attr_type = STUN_ATTRIBUTE_TYPE_XOR_MAPPED_ADDRESS, attr_length = 8,
                attr_body = StunAddress \<lparr>family = 1, port = [0x1F, 0x90], address = [10, 0, 0, 1, 0, 0, 0, 0, 0, 0, 0, 0, 0, 0, 0, 0], isPointToPoint = False\<rparr>\<rparr>),
         (256, \<lparr>attr_type = STUN_ATTRIBUTE_TYPE_PRIORITY, attr_length = 4, attr_body = StunWord 77\<rparr>)]\<rparr>"

subsection \<open>The round trip\<close>

text \<open>
  C32.  The STUN round trip, on a little-endian host with memory for the packet.  Take a packet of at most twenty
  attributes, the check values included, all of which both sides handle: addresses of the seven plain
  types and of the two families, user name, realm, nonce, data, priority, lifetime, change request, flags,
  requested transport, ICE control, channel number, with lengths that fit (no ERROR-CODE, which the serialiser
  misplaces, and no REQUESTED-ADDRESS-FAMILY, which the parser does not know), and whose message is shorter than
  64 KiB.  Asking the serialiser for the size and then filling a buffer of that size succeeds; the parser
  accepts the bytes with the same password, verifying the message integrity and the fingerprint; it returns the header
  with the length of the message, the attributes, and the check values.  An attribute arrives unchanged if it is \<open>intact\<close>;
  otherwise it arrives as \<open>received\<close> describes: an XOR-PEER-ADDRESS still masked, of an IPv4 address the
  first four bytes, the tie breaker of an ICE control attribute four bytes further in its struct, a channel number without its reserved half.
\<close>

theorem stun_round_trip:
  assumes "stun_services S" "\<not> isBigEndian S" "\<And>n. memalloc (stun_platform S) n"
    and "sendable_packet S key f pk" "key_args key password passwordLen gen"
    and "length (attributeList pk) + (if key = None then 0 else 1) + (if f then 1 else 0) \<le> 20"
  shows "\<exists>wire pk'.
    serializeStunPacket S (Some pk) password passwordLen gen f None 0 = Some (STATUS_SUCCESS, None, length wire) \<and>
    (\<forall>buf. length buf = length wire \<longrightarrow>
       serializeStunPacket S (Some pk) password passwordLen gen f (Some buf) (length wire) = Some (STATUS_SUCCESS, Some wire, length wire)) \<and>
    deserializeStunPacket S (Some wire) (length wire) password passwordLen = Some (STATUS_SUCCESS, Some pk') \<and>
    stun_header pk' = (stun_header pk)\<lparr>messageLength := word_of_nat (length wire - 20)\<rparr> \<and>
    map snd (attributeList pk') = map (received (transactionId (stun_header pk))) (map snd (attributeList pk)) @
      (let kind = stunMessageType (stun_header pk); tid = transactionId (stun_header pk);
           body = attrs_wire S tid (map snd (attributeList pk)) in
       integrity_attrs S key kind tid body @ fingerprint_attrs S f kind tid (with_integrity S key kind tid body)) \<and>
    (\<forall>a \<in> snd ` set (attributeList pk). intact a \<longrightarrow> received (transactionId (stun_header pk)) a = a)"
proof -
  define wire where "wire = stun_wire S key f (stun_header pk) (map snd (attributeList pk))"
  show ?thesis
    using stun_services.serialize_count [OF assms(1,4,5), of 0]
      stun_services.serialize_fill [OF assms(1,4,5)]
      stun_services.deserialize_wire [OF assms(1,4,5,2,6,3) wire_def]
      intact_received
    unfolding wire_def [symmetric] by metis
qed

lemma sample_binding_sendable: "sendable_packet sample_stun (Some [115, 101, 99]) True sample_binding"
  by (simp add: sendable_packet_def sample_binding_def sample.length_stun_wire sendable_def stun_types ROUND_UP_4 string_limit_def IS_IPV4_ADDR_def attr_wire_def
      attr_value_def sent_address_def masked_def Let_def)

theorem stun_round_trip_witness:
  "\<exists>wire pk' macs. deserializeStunPacket sample_stun (Some wire) (length wire) (Some [115, 101, 99]) 3 = Some (STATUS_SUCCESS, Some pk') \<and>
     stun_header pk' = (stun_header sample_binding)\<lparr>messageLength := word_of_nat (length wire - 20)\<rparr> \<and>
     map snd (attributeList pk') = map snd (attributeList sample_binding) @ macs \<and>
     map attr_type macs = [STUN_ATTRIBUTE_TYPE_MESSAGE_INTEGRITY, STUN_ATTRIBUTE_TYPE_FINGERPRINT]"
proof -
  have le: "\<not> isBigEndian sample_stun" and mem: "\<And>n. memalloc (stun_platform sample_stun) n" by (simp_all add: sample_stun_def little_endian_host_def)
  have key: "key_args (Some [115, 101, 99]) (Some [115, 101, 99]) 3 True" by (simp add: key_args_def)
  have few: "length (attributeList sample_binding) + (if Some [115, 101, 99 :: byte] = None then 0 else 1) + (if True then 1 else 0) \<le> 20"
    by (simp add: sample_binding_def)
  obtain wire pk' where r: "deserializeStunPacket sample_stun (Some wire) (length wire) (Some [115, 101, 99]) 3 = Some (STATUS_SUCCESS, Some pk')"
    "stun_header pk' = (stun_header sample_binding)\<lparr>messageLength := word_of_nat (length wire - 20)\<rparr>"
    and as: "map snd (attributeList pk') = map (received (transactionId (stun_header sample_binding))) (map snd (attributeList sample_binding)) @
      (let kind = stunMessageType (stun_header sample_binding); tid = transactionId (stun_header sample_binding);
           body = attrs_wire sample_stun tid (map snd (attributeList sample_binding)) in
       integrity_attrs sample_stun (Some [115, 101, 99]) kind tid body @
       fingerprint_attrs sample_stun True kind tid (with_integrity sample_stun (Some [115, 101, 99]) kind tid body))"
    and intact: "\<forall>a \<in> snd ` set (attributeList sample_binding). intact a \<longrightarrow> received (transactionId (stun_header sample_binding)) a = a"
    using stun_round_trip [OF sample.stun_services_axioms le mem sample_binding_sendable key few] by (elim exE conjE) (rule that; assumption)
  have zeros: "replicate 12 (0 :: byte) = [0, 0, 0, 0, 0, 0, 0, 0, 0, 0, 0, 0]" by (simp add: numeral_eq_Suc)
  have same: "map (received (transactionId (stun_header sample_binding))) (map snd (attributeList sample_binding)) = map snd (attributeList sample_binding)"
    using intact zeros by (simp add: sample_binding_def intact_def)
  show ?thesis
    using r as unfolding same by (intro exI conjI) (assumption, assumption, assumption, simp add: Let_def integrity_attrs_def fingerprint_attrs_def)
qed

end
