(* ===== verification/StunIntegrity.thy ===== *)
theory StunIntegrity
  imports StunRoundTrip
begin

text \<open>
  What an application may conclude from the check values of a parsed STUN message: an integrity or
  fingerprint attribute in the result was verified, but a message may carry one that never gets there.
\<close>

subsection \<open>Verified check values\<close>

definition verified_integrity :: "stun_ops \<Rightarrow> byte list option \<Rightarrow> nat \<Rightarrow> byte list \<Rightarrow> StunBody \<Rightarrow> bool" where
  "verified_integrity S password passwordLen buf body \<longleftrightarrow>
     (\<exists>key k off bs mac. password = Some key \<and> 0 < passwordLen \<and> rdn key 0 passwordLen = Some k \<and>
        rdn buf (off + 4) 20 = Some mac \<and> covered S buf off 20 = Some bs \<and> mac = sha1_hmac S k bs \<and> body = StunIntegrity mac)"

definition verified_fingerprint :: "stun_ops \<Rightarrow> byte list \<Rightarrow> StunBody \<Rightarrow> bool" where
  "verified_fingerprint S buf body \<longleftrightarrow>
     (\<exists>off bs v. rdInt32 (stun_platform S) buf (off + 4) = Some v \<and> covered S buf off 4 = Some bs \<and>
        v = compute_crc32 S bs XOR 0x5354554e \<and> body = StunWord v)"

definition verified :: "stun_ops \<Rightarrow> byte list option \<Rightarrow> nat \<Rightarrow> byte list \<Rightarrow> StunAttribute \<Rightarrow> bool" where
  "verified S password passwordLen buf a \<longleftrightarrow>
     (attr_type a = STUN_ATTRIBUTE_TYPE_MESSAGE_INTEGRITY \<longrightarrow> verified_integrity S password passwordLen buf (attr_body a)) \<and>
     (attr_type a = STUN_ATTRIBUTE_TYPE_FINGERPRINT \<longrightarrow> verified_fingerprint S buf (attr_body a))"

lemma parse_integrity_verified:
  assumes "parseAttribute S password passwordLen tid buf off STUN_ATTRIBUTE_TYPE_MESSAGE_INTEGRITY len = Some (STATUS_SUCCESS, body, n)"
  shows "\<exists>b. body = Some b \<and> verified_integrity S password passwordLen buf b"
proof -
  obtain key where "password = Some key" "passwordLen \<noteq> 0"
    using assms by (auto simp: parseAttribute_def all_addresses_def stun_types Let_def split: option.splits if_splits)
  then show ?thesis
    using assms
    by (auto simp: parseAttribute_def all_addresses_def stun_types Let_def verified_integrity_def bind_eq_Some_conv split: if_splits)
qed

lemma parse_fingerprint_verified:
  assumes "parseAttribute S password passwordLen tid buf off STUN_ATTRIBUTE_TYPE_FINGERPRINT len = Some (STATUS_SUCCESS, body, n)"
  shows "\<exists>b. body = Some b \<and> verified_fingerprint S buf b"
  using assms
  by (auto simp: parseAttribute_def all_addresses_def stun_types Let_def verified_fingerprint_def bind_eq_Some_conv split: if_splits)

lemma parseAttributes_verified:
  "parseAttributes S password passwordLen tid buf stop off dest n = Some (st, attrs) \<Longrightarrow> (d, a) \<in> set attrs \<Longrightarrow> verified S password passwordLen buf a"
proof (induction n arbitrary: off dest st attrs d a)
  case (Suc n)
  show ?case
  proof (cases "off < stop")
    case True
    obtain kind len st1 body size where r: "rdInt16 (stun_platform S) buf off = Some kind" "rdInt16 (stun_platform S) buf (off + 2) = Some len"
        "parseAttribute S password passwordLen tid buf off kind (unat len) = Some (st1, body, size)"
      using Suc.prems(1) True by (auto simp: bind_eq_Some_conv)
    have ok: "st1 = STATUS_SUCCESS" using Suc.prems True r by (auto simp: bind_eq_Some_conv split: if_splits)
    then obtain rest where rest: "parseAttributes S password passwordLen tid buf stop (off + 4 + wrap16 (ROUND_UP (unat len) 4)) (dest + size) n = Some (st, rest)"
        "attrs = (case (body, rest) of
               (Some b, _) \<Rightarrow> (dest, \<lparr>attr_type = kind, attr_length = len, attr_body = b\<rparr>)
             | (None, r # _) \<Rightarrow> r
             | (None, []) \<Rightarrow> (dest, \<lparr>attr_type = kind, attr_length = len, attr_body = StunEmpty\<rparr>)) # rest"
      using Suc.prems(1) True r by (auto simp: bind_eq_Some_conv split: if_splits)
    have own: "verified S password passwordLen buf \<lparr>attr_type = kind, attr_length = len, attr_body = b\<rparr>" if "body = Some b" for b
      using r(3) that ok parse_integrity_verified parse_fingerprint_verified unfolding verified_def by fastforce
    have unknown: "verified S password passwordLen buf \<lparr>attr_type = kind, attr_length = len, attr_body = b\<rparr>" if "body = None" for b
      using r(3) that ok parse_integrity_verified parse_fingerprint_verified unfolding verified_def by fastforce
    from rest(2) Suc.prems(2) consider "(d, a) \<in> set rest" | b where "a = \<lparr>attr_type = kind, attr_length = len, attr_body = b\<rparr>"
      "body = Some b \<or> body = None"
      by (auto split: option.splits list.splits)
    then show ?thesis
    proof cases
      case 1
      with Suc.IH rest(1) show ?thesis by blast
    next
      case 2
      with own unknown show ?thesis by auto
    qed
  next
    case False
    with Suc.prems show ?thesis by auto
  qed
qed auto

text \<open>
  C34.  No unverified check value reaches the application: whatever bytes arrive, every MESSAGE-INTEGRITY
  attribute of a successfully parsed packet is the HMAC, under the given password, of the message before
  the attribute, and every FINGERPRINT attribute is its CRC.
\<close>

theorem stun_check_values_verified:
  assumes "deserializeStunPacket S (Some buf) bufferSize password passwordLen = Some (STATUS_SUCCESS, Some pk)"
    and "(off, a) \<in> set (attributeList pk)"
  shows "verified S password passwordLen buf a"
proof -
  obtain tid stop dest n st attrs where "parseAttributes S password passwordLen tid buf stop 20 dest n = Some (st, attrs)" "attributeList pk = attrs"
    using assms(1) by (auto simp: deserializeStunPacket_def bind_eq_Some_conv Let_def split: if_splits)
  then show ?thesis using parseAttributes_verified assms(2) by blast
qed

theorem stun_check_values_verified_witness:
  "\<exists>wire pk off a. deserializeStunPacket sample_stun (Some wire) (length wire) (Some [115, 101, 99]) 3 = Some (STATUS_SUCCESS, Some pk) \<and>
     (off, a) \<in> set (attributeList pk) \<and> attr_type a = STUN_ATTRIBUTE_TYPE_MESSAGE_INTEGRITY \<and>
     verified_integrity sample_stun (Some [115, 101, 99]) 3 wire (attr_body a)"
proof -
  define wire where "wire = stun_wire sample_stun (Some [115, 101, 99]) True (stun_header sample_binding) (map snd (attributeList sample_binding))"
  have 1: "key_args (Some [115, 101, 99]) (Some [115, 101, 99]) 3 True" by (simp add: key_args_def)
  have 2: "\<not> isBigEndian sample_stun" "\<And>n. memalloc (stun_platform sample_stun) n" by (simp_all add: sample_stun_def little_endian_host_def)
  have 3: "length (attributeList sample_binding) + (if Some [115, 101, 99 :: byte] = None then 0 else 1) + (if True then 1 else 0) \<le> 20"
    by (simp add: sample_binding_def)
  obtain pk xs b ys where pk: "deserializeStunPacket sample_stun (Some wire) (length wire) (Some [115, 101, 99]) 3 = Some (STATUS_SUCCESS, Some pk)"
    and "map snd (attributeList pk) = xs @ \<lparr>attr_type = STUN_ATTRIBUTE_TYPE_MESSAGE_INTEGRITY, attr_length = 20, attr_body = b\<rparr> # ys"
    using sample.deserialize_wire [OF sample_binding_sendable 1 2(1) 3 2(2) wire_def] unfolding integrity_attrs_def Let_def by auto
  then have "\<lparr>attr_type = STUN_ATTRIBUTE_TYPE_MESSAGE_INTEGRITY, attr_length = 20, attr_body = b\<rparr> \<in> set (map snd (attributeList pk))"
    by simp
  then obtain off a where a: "(off, a) \<in> set (attributeList pk)" "attr_type a = STUN_ATTRIBUTE_TYPE_MESSAGE_INTEGRITY" by force
  with stun_check_values_verified [OF pk a(1)] have "verified_integrity sample_stun (Some [115, 101, 99]) 3 wire (attr_body a)"
    by (simp add: verified_def)
  with pk a show ?thesis by blast
qed

subsection \<open>Check values that are not looked at\<close>

text \<open>An attribute of a type the parser does not know (type, length, padded value), and check values with some contents.\<close>

definition known_type :: "u16 \<Rightarrow> bool" where
  "known_type t \<longleftrightarrow> t \<in> set all_addresses \<union> set flag_types \<union> set word_types \<union> set string_types \<union> set control_types \<union>
     {STUN_ATTRIBUTE_TYPE_REQUESTED_TRANSPORT, STUN_ATTRIBUTE_TYPE_ERROR_CODE, STUN_ATTRIBUTE_TYPE_CHANNEL_NUMBER,
      STUN_ATTRIBUTE_TYPE_MESSAGE_INTEGRITY, STUN_ATTRIBUTE_TYPE_FINGERPRINT}"

definition unknown_attr :: "u16 \<times> u16 \<times> byte list \<Rightarrow> bool" where
  "unknown_attr u \<longleftrightarrow> \<not> known_type (fst u) \<and> length (snd (snd u)) = wrap16 (ROUND_UP (unat (fst (snd u))) 4)"

definition unknown_wire :: "u16 \<times> u16 \<times> byte list \<Rightarrow> byte list" where
  "unknown_wire u = bytes16 (fst u) @ bytes16 (fst (snd u)) @ snd (snd u)"

definition unknowns_wire :: "(u16 \<times> u16 \<times> byte list) list \<Rightarrow> byte list" where
  "unknowns_wire us = concat (map unknown_wire us)"

definition unknown_entry :: "u16 \<times> u16 \<times> byte list \<Rightarrow> StunAttribute" where
  "unknown_entry u = \<lparr>attr_type = fst u, attr_length = fst (snd u), attr_body = StunEmpty\<rparr>"

definition integrity_wire :: "byte list \<Rightarrow> byte list" where
  "integrity_wire mac = bytes16 STUN_ATTRIBUTE_TYPE_MESSAGE_INTEGRITY @ bytes16 20 @ mac"

text \<open>The end of a message: an integrity attribute and, if there is one, a fingerprint attribute.\<close>

definition checks_wire :: "byte list \<Rightarrow> byte list option \<Rightarrow> byte list" where
  "checks_wire mac crc = integrity_wire mac @ (case crc of None \<Rightarrow> [] | Some c \<Rightarrow> bytes16 STUN_ATTRIBUTE_TYPE_FINGERPRINT @ bytes16 4 @ c)"

lemma unknowns_wire_simps [simp]:
  "unknowns_wire [] = []" "unknowns_wire (u # us) = unknown_wire u @ unknowns_wire us"
  by (simp_all add: unknowns_wire_def)

lemma length_unknown_wire: "unknown_attr u \<Longrightarrow> length (unknown_wire u) = 4 + wrap16 (ROUND_UP (unat (fst (snd u))) 4)"
  by (simp add: unknown_wire_def unknown_attr_def)

context stun_services
begin

lemma scan_unknown_step:
  assumes "length pre = off" "off < stop" "\<not> known_type t" "scan_count scan \<le> 20"
  shows "scanAttributes S (pre @ bytes16 t @ bytes16 l @ post) stop off scan =
    scanAttributes S (pre @ bytes16 t @ bytes16 l @ post) stop (off + 4 + wrap16 (ROUND_UP (unat l) 4)) (scan\<lparr>scan_size := wrap32 (scan_size scan)\<rparr>)"
  using assms attribute_header_at [OF assms(1), of t l post]
  by (subst scanAttributes.simps)
    (auto simp: checkAttribute_def known_type_def all_addresses_def stun_types Let_def)

lemma scan_unknowns:
  assumes "list_all unknown_attr us" "length pre = off" "off + length (unknowns_wire us) \<le> stop" "scan_count scan \<le> 20"
  shows "\<exists>m. scanAttributes S (pre @ unknowns_wire us @ post) stop off scan =
    scanAttributes S (pre @ unknowns_wire us @ post) stop (off + length (unknowns_wire us)) (scan\<lparr>scan_size := m\<rparr>)"
  using assms
proof (induction us arbitrary: pre off scan)
  case Nil
  then show ?case by (intro exI [of _ "scan_size scan"]) simp
next
  case (Cons u us)
  have u: "\<not> known_type (fst u)" "length (unknown_wire u) = 4 + wrap16 (ROUND_UP (unat (fst (snd u))) 4)"
    using Cons.prems(1) by (simp_all add: length_unknown_wire) (simp add: unknown_attr_def)
  have less: "off < stop" using Cons.prems(3) u(2) by simp
  have buf: "pre @ unknowns_wire (u # us) @ post = pre @ bytes16 (fst u) @ bytes16 (fst (snd u)) @ (snd (snd u) @ unknowns_wire us @ post)"
    "(pre @ unknown_wire u) @ unknowns_wire us @ post = pre @ bytes16 (fst u) @ bytes16 (fst (snd u)) @ (snd (snd u) @ unknowns_wire us @ post)"
    by (simp_all add: unknown_wire_def)
  have step: "scanAttributes S (pre @ unknowns_wire (u # us) @ post) stop off scan =
      scanAttributes S ((pre @ unknown_wire u) @ unknowns_wire us @ post) stop (off + length (unknown_wire u)) (scan\<lparr>scan_size := wrap32 (scan_size scan)\<rparr>)"
    using scan_unknown_step [OF Cons.prems(2) less u(1) Cons.prems(4), of "fst (snd u)" "snd (snd u) @ unknowns_wire us @ post"]
    by (simp only: buf u(2) add.assoc)
  show ?case
    unfolding step using Cons.IH [of "pre @ unknown_wire u" "off + length (unknown_wire u)" "scan\<lparr>scan_size := wrap32 (scan_size scan)\<rparr>"] Cons.prems
    by (auto simp: add.assoc)
qed

lemma scan_checks:
  assumes "length mac = 20" "\<forall>c. crc = Some c \<longrightarrow> length c = 4" "length pre = off" "stop = off + length (checks_wire mac crc)"
    and "\<not> scan_fingerprint scan" "\<not> scan_integrity scan" "scan_count scan + (if crc = None then 1 else 2) \<le> 20"
  shows "\<exists>scan'. scanAttributes S (pre @ checks_wire mac crc) stop off scan = Some (STATUS_SUCCESS, scan') \<and>
    scan_count scan' = scan_count scan + (if crc = None then 1 else 2)"
proof -
  let ?rest = "case crc of None \<Rightarrow> [] | Some c \<Rightarrow> bytes16 STUN_ATTRIBUTE_TYPE_FINGERPRINT @ bytes16 4 @ c"
  have buf: "pre @ checks_wire mac crc = pre @ bytes16 STUN_ATTRIBUTE_TYPE_MESSAGE_INTEGRITY @ bytes16 20 @ (mac @ ?rest)"
    by (simp add: checks_wire_def integrity_wire_def)
  obtain m where s1: "scanAttributes S (pre @ checks_wire mac crc) stop off scan = scanAttributes S (pre @ checks_wire mac crc) stop (24 + off)
      \<lparr>scan_count = scan_count scan + 1, scan_size = m, scan_fingerprint = False, scan_integrity = True\<rparr>"
    using scan_integrity_step [OF assms(3) _ assms(5,6), of stop "mac @ ?rest"] assms(1,4,7) unfolding buf
    by (auto simp: checks_wire_def integrity_wire_def split: if_splits)
  show ?thesis
  proof (cases crc)
    case None
    then show ?thesis using assms(1,4) unfolding s1 by (auto simp: scan_stop checks_wire_def integrity_wire_def)
  next
    case (Some c)
    then have buf2: "pre @ checks_wire mac crc = (pre @ integrity_wire mac) @ bytes16 STUN_ATTRIBUTE_TYPE_FINGERPRINT @ bytes16 4 @ c"
      by (simp add: checks_wire_def)
    have stop: "stop = 32 + off" using assms(1,2,4) Some by (simp add: checks_wire_def integrity_wire_def)
    show ?thesis
      unfolding s1 unfolding buf2
      using scan_fingerprint_step [of "pre @ integrity_wire mac" "24 + off" stop
          "\<lparr>scan_count = scan_count scan + 1, scan_size = m, scan_fingerprint = False, scan_integrity = True\<rparr>" c] assms(1,3,7) Some stop
      by (auto simp: integrity_wire_def scan_stop)
  qed
qed

lemma parse_unknown:
  "\<not> known_type t \<Longrightarrow> parseAttribute S password passwordLen tid buf off t len = Some (STATUS_SUCCESS, None, 0)"
  by (auto simp: parseAttribute_def known_type_def all_addresses_def stun_types Let_def)

text \<open>The entries of unknown attributes have no storage of their own: all of them show the last one.\<close>

lemma parse_unknowns:
  assumes "list_all unknown_attr us" "us \<noteq> []" "length pre = off" "off + length (unknowns_wire us) \<le> stop"
  shows "parseAttributes S password passwordLen tid (pre @ unknowns_wire us @ post) stop off dest (length us) =
    Some (STATUS_SUCCESS, replicate (length us) (dest, unknown_entry (last us)))"
  using assms
proof (induction us arbitrary: pre off)
  case (Cons u us)
  have u: "\<not> known_type (fst u)" "length (unknown_wire u) = 4 + wrap16 (ROUND_UP (unat (fst (snd u))) 4)"
    using Cons.prems(1) by (simp_all add: length_unknown_wire) (simp add: unknown_attr_def)
  let ?buf = "pre @ unknowns_wire (u # us) @ post"
  have buf: "?buf = pre @ bytes16 (fst u) @ bytes16 (fst (snd u)) @ (snd (snd u) @ unknowns_wire us @ post)"
    "?buf = (pre @ unknown_wire u) @ unknowns_wire us @ post"
    by (simp_all add: unknown_wire_def)
  have hd: "rdInt16 (stun_platform S) ?buf off = Some (fst u)" "rdInt16 (stun_platform S) ?buf (off + 2) = Some (fst (snd u))"
    unfolding buf(1) by (rule attribute_header_at [OF Cons.prems(3)])+
  have step: "parseAttributes S password passwordLen tid ?buf stop off dest (length (u # us)) =
      do { (st, rest) \<leftarrow> parseAttributes S password passwordLen tid ?buf stop (off + length (unknown_wire u)) dest (length us);
           Some (st, (case rest of r # _ \<Rightarrow> r | [] \<Rightarrow> (dest, unknown_entry u)) # rest) }"
    using hd Cons.prems(4) u(2) by (simp add: parse_unknown [OF u(1)] unknown_entry_def add.assoc split_def cong: list.case_cong)
  show ?case
  proof (cases "us = []")
    case True
    then show ?thesis unfolding step by simp
  next
    case False
    then obtain k where k: "length us = Suc k" by (cases us) auto
    have "parseAttributes S password passwordLen tid ?buf stop (off + length (unknown_wire u)) dest (length us) =
        Some (STATUS_SUCCESS, replicate (length us) (dest, unknown_entry (last us)))"
      unfolding buf(2) using Cons.prems False by (intro Cons.IH) auto
    then show ?thesis unfolding step using False k by simp
  qed
qed simp

lemma integrity_skipped:
  assumes "\<not> isBigEndian S" and alloc: "\<And>n. memalloc (stun_platform S) n" and tid: "length tid = 12"
    and as: "\<forall>a \<in> set as. sendable a" "length as + length us \<le> 20"
    and us: "list_all unknown_attr us" "length us = (if crc = None then 1 else 2)" and crc: "length mac = 20" "\<forall>c. crc = Some c \<longrightarrow> length c = 4"
    and body: "body = attrs_wire S tid as @ unknowns_wire us @ checks_wire mac crc" "length body < 2 ^ 16"
    and wire: "wire = stun_message kind (word_of_nat (length body)) tid body"
  shows "\<exists>pk. deserializeStunPacket S (Some wire) (length wire) password passwordLen = Some (STATUS_SUCCESS, Some pk) \<and>
    map snd (attributeList pk) = map (received tid) as @ replicate (length us) (unknown_entry (last us))"
proof -
  define len where "len = (word_of_nat (length body) :: u16)"
  define pre where "pre = stun_message kind len tid []"
  define at1 where "at1 = 20 + length (attrs_wire S tid as)"
  let ?stop = "20 + length body"
  have n: "unat len = length body" using body(2) by (simp add: len_def unat_of_nat)
  have pre: "length pre = 20" using tid by (simp add: pre_def)
  have w: "wire = pre @ attrs_wire S tid as @ (unknowns_wire us @ checks_wire mac crc)"
    "wire = (pre @ attrs_wire S tid as) @ unknowns_wire us @ checks_wire mac crc"
    "wire = (pre @ attrs_wire S tid as @ unknowns_wire us) @ checks_wire mac crc"
    by (simp_all add: wire body(1) pre_def len_def stun_message_def)
  have stop: "at1 + length (unknowns_wire us) + length (checks_wire mac crc) = ?stop" by (simp add: at1_def body(1))
  have hd: "rdInt16 (stun_platform S) wire 0 = Some kind" "rdInt16 (stun_platform S) wire 2 = Some len"
      "rdInt32 (stun_platform S) wire 4 = Some STUN_HEADER_MAGIC_COOKIE" "rdn wire 8 12 = Some tid"
    using rdInt16_start [of kind] rdInt16_at [of "bytes16 kind" 2] rdInt32_at [of "bytes16 kind @ bytes16 len" 4]
      rdn_at [of "bytes16 kind @ bytes16 len @ bytes32 STUN_HEADER_MAGIC_COOKIE" 8 12 tid body] tid
    by (simp_all add: wire stun_message_def flip: len_def)
  let ?scan = "\<lparr>scan_count = 0, scan_size = sizeofStunPacket S, scan_fingerprint = False, scan_integrity = False\<rparr>"
  have s1: "scanAttributes S wire ?stop 20 ?scan = scanAttributes S wire ?stop at1 (scanned as ?scan)"
    unfolding w(1) at1_def using as tid pre stop by (intro scanAttributes_known) (simp_all add: at1_def)
  obtain m where s2: "scanAttributes S wire ?stop at1 (scanned as ?scan) =
      scanAttributes S wire ?stop (at1 + length (unknowns_wire us)) ((scanned as ?scan)\<lparr>scan_size := m\<rparr>)"
    unfolding w(2) using scan_unknowns [OF us(1), of "pre @ attrs_wire S tid as" at1 ?stop "scanned as ?scan"] pre as(2) stop
    by (auto simp: at1_def)
  obtain scan' where s: "scanAttributes S wire ?stop 20 ?scan = Some (STATUS_SUCCESS, scan')" "scan_count scan' = length as + length us"
    unfolding s1 s2 unfolding w(3)
    using scan_checks [OF crc, of "pre @ attrs_wire S tid as @ unknowns_wire us" "at1 + length (unknowns_wire us)" ?stop "(scanned as ?scan)\<lparr>scan_size := m\<rparr>"]
      pre as(2) us(2) stop by (auto simp: at1_def)
  let ?dest = "sizeofStunPacket S + 8 * (length as + length us)"
  obtain dest' prefix where p1: "parseAttributes S password passwordLen tid wire ?stop 20 ?dest (length as + length us) =
      do { (st, rest) \<leftarrow> parseAttributes S password passwordLen tid wire ?stop at1 dest' (length us); Some (st, prefix @ rest) }"
      "map snd prefix = map (received tid) as"
    using parseAttributes_known [OF as(1) tid assms(1) pre, of ?stop password passwordLen "unknowns_wire us @ checks_wire mac crc" ?dest "length us"] stop
    unfolding w(1) at1_def by auto
  have "us \<noteq> []" using us(2) by (auto split: if_splits)
  then have p2: "parseAttributes S password passwordLen tid wire ?stop at1 dest' (length us) =
      Some (STATUS_SUCCESS, replicate (length us) (dest', unknown_entry (last us)))"
    unfolding w(2) using us(1) pre stop by (intro parse_unknowns) (simp_all add: at1_def)
  have "length wire = 20 + length body" using tid by (simp add: wire)
  with s p1 p2 hd n alloc show ?thesis by (simp add: deserializeStunPacket_def Let_def)
qed

end

text \<open>
  C35.  Unknown attributes disable the integrity check (on a little-endian host).  The first pass counts known attributes only,
  the second handles as many attributes as were counted, unknown ones included, so each unknown attribute hides
  one from the end of the message.  Take a message that ends in MESSAGE-INTEGRITY, with or without a
  FINGERPRINT behind it, and put as many attributes of unknown type in front of these as there are: one if
  MESSAGE-INTEGRITY is last, two if a FINGERPRINT follows.  It is accepted whatever the contents of the two check values are, with
  any password or none, and neither is in the result; the entries of the unknown attributes all show the last of them.
\<close>

theorem unknown_attribute_skips_integrity:
  assumes "stun_services S" "\<not> isBigEndian S" "\<And>n. memalloc (stun_platform S) n" "length tid = 12"
    and "\<forall>a \<in> set as. sendable a" "length as + length us \<le> 20"
    and "list_all unknown_attr us" "length us = (if crc = None then 1 else 2)" "length mac = 20" "\<forall>c. crc = Some c \<longrightarrow> length c = 4"
    and "body = attrs_wire S tid as @ unknowns_wire us @ checks_wire mac crc" "length body < 2 ^ 16"
    and "wire = stun_message kind (word_of_nat (length body)) tid body"
  shows "\<exists>pk. deserializeStunPacket S (Some wire) (length wire) password passwordLen = Some (STATUS_SUCCESS, Some pk) \<and>
    map snd (attributeList pk) = map (received tid) as @ replicate (length us) (unknown_entry (last us))"
  using assms by (rule stun_services.integrity_skipped)

theorem unknown_attribute_skips_integrity_witness:
  "\<exists>pk. deserializeStunPacket sample_stun
      (Some (stun_message 1 40 [1, 2, 3, 4, 5, 6, 7, 8, 9, 10, 11, 12]
        (unknowns_wire [(0x7777, 0, []), (0x7778, 0, [])] @ checks_wire (replicate 20 0) (Some [0, 0, 0, 0])))) 60 None 0 =
    Some (STATUS_SUCCESS, Some pk) \<and> map (attr_type \<circ> snd) (attributeList pk) = [0x7778, 0x7778]"
proof -
  let ?tid = "[1, 2, 3, 4, 5, 6, 7, 8, 9, 10, 11, 12] :: byte list"
  let ?us = "[(0x7777, 0, []), (0x7778, 0, [])] :: (u16 \<times> u16 \<times> byte list) list"
  let ?body = "attrs_wire sample_stun ?tid [] @ unknowns_wire ?us @ checks_wire (replicate 20 0) (Some [0, 0, 0, 0])"
  have len: "length ?body = 40" by (simp add: unknown_wire_def checks_wire_def integrity_wire_def)
  have host: "\<not> isBigEndian sample_stun" "\<And>n. memalloc (stun_platform sample_stun) n" by (simp_all add: sample_stun_def little_endian_host_def)
  have us: "list_all unknown_attr ?us" by (simp add: unknown_attr_def known_type_def all_addresses_def stun_types wrap16_def ROUND_UP_4)
  obtain pk where pk: "deserializeStunPacket sample_stun (Some (stun_message 1 (word_of_nat (length ?body)) ?tid ?body))
      (length (stun_message 1 (word_of_nat (length ?body)) ?tid ?body)) None 0 = Some (STATUS_SUCCESS, Some pk)"
      "map snd (attributeList pk) = map (received ?tid) [] @ replicate (length ?us) (unknown_entry (last ?us))"
    using unknown_attribute_skips_integrity [OF sample.stun_services_axioms host, where tid = ?tid and as = "[]" and us = ?us and crc = "Some [0, 0, 0, 0]"
        and mac = "replicate 20 0" and body = ?body and kind = 1 and password = None and passwordLen = 0, OF _ _ _ us _ _ _ refl _ refl] len
    by auto
  have "map (attr_type \<circ> snd) (attributeList pk) = map attr_type (map snd (attributeList pk))" by simp
  also have "\<dots> = [0x7778, 0x7778]" unfolding pk(2) by (simp add: unknown_entry_def numeral_2_eq_2)
  finally have "map (attr_type \<circ> snd) (attributeList pk) = [0x7778, 0x7778]" .
  moreover have "length (stun_message 1 (word_of_nat (length ?body)) ?tid ?body) = 60" using len by simp
  ultimately show ?thesis using pk(1) unfolding len by (intro exI [of _ pk]) simp
qed

end
