(* ===== verification/StunConstruction.thy ===== *)
theory StunConstruction
  imports StunRoundTrip
begin

text \<open>
  The packets that \<^verbatim>\<open>createStunPacket\<close> and the append functions of \<^verbatim>\<open>Stun.c\<close> build are well-formed: every
  attribute has a body and a length of its type, the attributes lie one behind the other inside the
  allocation, and the length in the header is the sum of their encoded lengths.  The packets whose
  attributes are \<open>sendable\<close> can be serialised.
\<close>

subsection \<open>Layout\<close>

text \<open>What the code relies on of the struct sizes: a struct holds its header and value and is small.\<close>

locale stun_layout = stun_services +
  assumes address_size: "kind \<in> set plain_addresses \<Longrightarrow> sizeofAttribute S kind = sizeofAttribute S STUN_ATTRIBUTE_TYPE_MAPPED_ADDRESS"
    and address_holds: "24 \<le> sizeofAttribute S STUN_ATTRIBUTE_TYPE_MAPPED_ADDRESS"
    and flag_size: "kind \<in> set flag_types \<Longrightarrow> sizeofAttribute S kind = sizeofAttribute S STUN_ATTRIBUTE_TYPE_USE_CANDIDATE"
    and holds_header: "4 \<le> sizeofAttribute S kind"
    and word_holds: "kind \<in> set word_types \<Longrightarrow> 8 \<le> sizeofAttribute S kind"
    and transport_holds: "8 \<le> sizeofAttribute S STUN_ATTRIBUTE_TYPE_REQUESTED_TRANSPORT"
    and channel_holds: "8 \<le> sizeofAttribute S STUN_ATTRIBUTE_TYPE_CHANNEL_NUMBER"
    and control_holds: "kind \<in> set control_types \<Longrightarrow> 12 \<le> sizeofAttribute S kind"
    and family_size: "sizeofAttribute S STUN_ATTRIBUTE_TYPE_REQUESTED_ADDRESS_FAMILY = 8"
    and small: "sizeofAttribute S kind \<le> 64"

interpretation sample_layout: stun_layout sample_stun
  by unfold_locales (auto simp: sample_stun_def sample_sizes_def all_addresses_def stun_types)

text \<open>The contents of an attribute that follow its struct; the length of the attribute in a message.\<close>

definition storage :: "StunAttribute \<Rightarrow> nat" where
  "storage a = (case attr_body a of StunString padded bs \<Rightarrow> padded | StunErrorCode padded code bs \<Rightarrow> padded | _ \<Rightarrow> 0)"

definition encoded_length :: "StunAttribute \<Rightarrow> nat" where
  "encoded_length a = 4 + ROUND_UP (unat (attr_length a)) 4"

text \<open>An attribute with a body and a length of its type.\<close>

definition well_typed :: "StunAttribute \<Rightarrow> bool" where
  "well_typed a \<longleftrightarrow>
     (case attr_body a of
        StunAddress ip \<Rightarrow> attr_type a \<in> set plain_addresses \<and> length (port ip) = 2 \<and> length (address ip) = 16 \<and>
          attr_length a = (if IS_IPV4_ADDR ip then 8 else 20)
      | StunString padded bs \<Rightarrow> attr_type a \<in> set string_types \<and> padded = ROUND_UP (unat (attr_length a)) 4 \<and> length bs = padded
      | StunErrorCode padded code bs \<Rightarrow> attr_type a = STUN_ATTRIBUTE_TYPE_ERROR_CODE \<and> padded = ROUND_UP (unat (attr_length a)) 4 \<and> length bs = padded
      | StunWord v \<Rightarrow> attr_type a \<in> set word_types \<and> attr_length a = 4
      | StunQuad q \<Rightarrow> attr_type a \<in> {STUN_ATTRIBUTE_TYPE_REQUESTED_TRANSPORT, STUN_ATTRIBUTE_TYPE_REQUESTED_ADDRESS_FAMILY} \<and>
          length q = 4 \<and> attr_length a = 4
      | StunTie mem \<Rightarrow> attr_type a \<in> set control_types \<and> length mem = 12 \<and> attr_length a = 8
      | StunChannel c r \<Rightarrow> attr_type a = STUN_ATTRIBUTE_TYPE_CHANNEL_NUMBER \<and> attr_length a = 4
      | StunEmpty \<Rightarrow> attr_type a \<in> set flag_types \<and> attr_length a = 0
      | _ \<Rightarrow> False)"

definition packed_size :: "stun_ops \<Rightarrow> StunAttribute \<Rightarrow> nat" where
  "packed_size S a = ROUND_UP (sizeofAttribute S (attr_type a) + storage a) 8"

primrec laid_out :: "stun_ops \<Rightarrow> nat \<Rightarrow> nat \<Rightarrow> (nat \<times> StunAttribute) list \<Rightarrow> bool" where
  "laid_out S at lim [] \<longleftrightarrow> True"
| "laid_out S at lim (p # ps) \<longleftrightarrow> fst p = at \<and> at + packed_size S (snd p) \<le> lim \<and> laid_out S (at + packed_size S (snd p)) lim ps"

definition stun_wf :: "stun_ops \<Rightarrow> StunPacket \<Rightarrow> bool" where
  "stun_wf S pk \<longleftrightarrow>
     magicCookie (stun_header pk) = STUN_HEADER_MAGIC_COOKIE \<and> length (transactionId (stun_header pk)) = 12 \<and>
     allocationSize pk = 2048 \<and> length (attributeList pk) \<le> 20 \<and> list_all well_typed (map snd (attributeList pk)) \<and>
     laid_out S (sizeofStunPacket S + 160) 2048 (attributeList pk) \<and>
     messageLength (stun_header pk) = word_of_nat (sum_list (map (encoded_length \<circ> snd) (attributeList pk)))"

definition layout_end :: "stun_ops \<Rightarrow> nat \<Rightarrow> (nat \<times> StunAttribute) list \<Rightarrow> nat" where
  "layout_end S at ps = at + sum_list (map (\<lambda>p. packed_size S (snd p)) ps)"

lemma laid_out_snoc:
  "laid_out S at lim (ps @ [p]) \<longleftrightarrow> laid_out S at lim ps \<and> fst p = layout_end S at ps \<and> layout_end S at ps + packed_size S (snd p) \<le> lim"
  by (induction ps arbitrary: at) (auto simp: layout_end_def add.assoc)

lemma layout_end_snoc: "layout_end S at (ps @ [p]) = layout_end S at ps + packed_size S (snd p)"
  by (simp add: layout_end_def)

lemma layout_end_le: "laid_out S at lim ps \<Longrightarrow> at \<le> lim \<Longrightarrow> layout_end S at ps \<le> lim"
proof (induction ps arbitrary: at)
  case (Cons p ps)
  then show ?case using Cons.IH [of "at + packed_size S (snd p)"] by (simp add: layout_end_def add.assoc)
qed (simp add: layout_end_def)

lemma laid_out_first: "laid_out S at lim ps \<Longrightarrow> ps \<noteq> [] \<Longrightarrow> fst (hd ps) = at"
  by (cases ps) auto

lemma attrs_wire_snoc: "attrs_wire S tid (as @ [a]) = attrs_wire S tid as @ attr_wire S tid a"
  by (simp add: attrs_wire_def)

lemma ROUND_UP_ge: "0 < k \<Longrightarrow> n \<le> ROUND_UP n k"
  unfolding ROUND_UP_def using div_mult_mod_eq [of "n + (k - 1)" k] mod_less_divisor [of k "n + (k - 1)"] by linarith

lemma ROUND_UP_fits: "0 < k \<Longrightarrow> ROUND_UP n k < n + k"
  unfolding ROUND_UP_def using div_mult_mod_eq [of "n + (k - 1)" k] by linarith

lemma ROUND_UP_4_small: "n \<le> 65532 \<Longrightarrow> wrap16 (ROUND_UP n 4) = ROUND_UP n 4"
  by (simp add: wrap16_def ROUND_UP_4)

lemma sendable_short: "sendable a \<Longrightarrow> wrap16 (ROUND_UP (unat (attr_length a)) 4) = ROUND_UP (unat (attr_length a)) 4"
  using string_limit_le [of "attr_type a"]
  by (intro ROUND_UP_4_small, cases "attr_body a") (auto simp: sendable_def split: if_splits)

context stun_layout
begin

lemma packed_holds_wire:
  assumes "sendable a" "length tid = 12"
  shows "length (attr_wire S tid a) \<le> packed_size S a"
proof -
  have "length (attr_wire S tid a) \<le> sizeofAttribute S (attr_type a) + storage a"
    using assms address_size [of "attr_type a"] address_holds holds_header [of "attr_type a"] word_holds [of "attr_type a"] transport_holds
      channel_holds control_holds [of "attr_type a"]
    by (cases "attr_body a") (auto simp: sendable_def attr_wire_def attr_value_def storage_def Let_def)
  then show ?thesis using ROUND_UP_ge [of 8] unfolding packed_size_def by (meson le_trans zero_less_numeral)
qed

lemma wire_le_layout:
  assumes "\<forall>a \<in> set (map snd ps). sendable a" "length tid = 12"
  shows "length (attrs_wire S tid (map snd ps)) \<le> sum_list (map (\<lambda>p. packed_size S (snd p)) ps)"
  using assms by (induction ps) (auto intro!: add_mono packed_holds_wire)

lemma getPackaged_packed:
  assumes "well_typed a" "packed_size S a \<le> 2048"
  shows "getPackagedStunAttributeSize S a = Some (packed_size S a)"
proof -
  have less: "sizeofAttribute S (attr_type a) + storage a < 2 ^ 16" "packed_size S a < 2 ^ 16"
    using assms(2) ROUND_UP_ge [of 8 "sizeofAttribute S (attr_type a) + storage a"] by (simp_all add: packed_size_def)
  have "(attr_type a \<in> set plain_addresses \<union> set flag_types \<union> set word_types \<union> set control_types \<union>
        {STUN_ATTRIBUTE_TYPE_REQUESTED_TRANSPORT, STUN_ATTRIBUTE_TYPE_CHANNEL_NUMBER} \<and> storage a = 0) \<or>
      (attr_type a \<in> set string_types \<and> (\<exists>bs. attr_body a = StunString (storage a) bs)) \<or>
      (attr_type a = STUN_ATTRIBUTE_TYPE_ERROR_CODE \<and> (\<exists>c bs. attr_body a = StunErrorCode (storage a) c bs)) \<or>
      (attr_type a = STUN_ATTRIBUTE_TYPE_REQUESTED_ADDRESS_FAMILY \<and> unat (attr_length a) = 4 \<and> storage a = 0)"
    using assms(1) by (cases "attr_body a") (auto simp: well_typed_def storage_def)
  then consider (fixed) "attr_type a \<in> set plain_addresses \<union> set flag_types \<union> set word_types \<union> set control_types \<union>
        {STUN_ATTRIBUTE_TYPE_REQUESTED_TRANSPORT, STUN_ATTRIBUTE_TYPE_CHANNEL_NUMBER}" "storage a = 0"
    | (string) bs where "attr_type a \<in> set string_types" "attr_body a = StunString (storage a) bs"
    | (code) c bs where "attr_type a = STUN_ATTRIBUTE_TYPE_ERROR_CODE" "attr_body a = StunErrorCode (storage a) c bs"
    | (family) "attr_type a = STUN_ATTRIBUTE_TYPE_REQUESTED_ADDRESS_FAMILY" "unat (attr_length a) = 4" "storage a = 0"
    by metis
  then show ?thesis
  proof cases
    case fixed
    with less show ?thesis by (simp only: getPackagedStunAttributeSize_def packed_size_def wrap16_def Let_def if_True Option.bind.bind_lunit add_0_right mod_less)
  next
    case string
    moreover have "attr_type a \<notin> set plain_addresses \<union> set flag_types \<union> set word_types \<union> set control_types \<union>
        {STUN_ATTRIBUTE_TYPE_REQUESTED_TRANSPORT, STUN_ATTRIBUTE_TYPE_CHANNEL_NUMBER}"
      using string(1) by (auto simp: stun_types)
    ultimately show ?thesis using less by (simp add: getPackagedStunAttributeSize_def packed_size_def wrap16_def)
  next
    case code
    then show ?thesis using less by (simp add: getPackagedStunAttributeSize_def packed_size_def wrap16_def stun_types)
  next
    case family
    then have "packed_size S a = 8" using family_size by (simp add: packed_size_def ROUND_UP_def)
    then show ?thesis using family by (simp add: getPackagedStunAttributeSize_def wrap16_def stun_types ROUND_UP_def)
  qed
qed

lemma available_at_end:
  assumes "stun_wf S pk" "getFirstAvailableStunAttribute S (Some pk) = Some (STATUS_SUCCESS, off)"
  shows "off = layout_end S (sizeofStunPacket S + 160) (attributeList pk)"
proof (cases "attributeList pk" rule: rev_cases)
  case Nil
  with assms show ?thesis by (simp add: getFirstAvailableStunAttribute_def layout_end_def)
next
  case (snoc ps p)
  have p: "well_typed (snd p)" "fst p = layout_end S (sizeofStunPacket S + 160) ps"
      "layout_end S (sizeofStunPacket S + 160) ps + packed_size S (snd p) \<le> 2048"
    using assms(1) snoc by (auto simp: stun_wf_def laid_out_snoc)
  then have "getPackagedStunAttributeSize S (snd p) = Some (packed_size S (snd p))" by (intro getPackaged_packed) simp_all
  with assms(2) snoc p(2) show ?thesis
    by (auto simp: getFirstAvailableStunAttribute_def split_def layout_end_snoc split: if_splits)
qed

lemma append_wf:
  assumes wf: "stun_wf S pk" and "well_typed a"
    and size: "need = packed_size S a" "added = encoded_length a"
    and ok: "appendStunAttribute S (Some pk) need copied a added = Some (STATUS_SUCCESS, Some pk')"
  shows "stun_wf S pk'"
proof -
  let ?last = "layout_end S (sizeofStunPacket S + 160) (attributeList pk)"
  obtain off where off: "getFirstAvailableStunAttribute S (Some pk) = Some (STATUS_SUCCESS, off)"
    using ok by (auto simp: appendStunAttribute_def bind_eq_Some_conv split: if_splits)
  then have e: "off = ?last" using wf by (intro available_at_end)
  have pk': "pk' = pk\<lparr>attributeList := attributeList pk @ [(off, a)],
      stun_header := (stun_header pk)\<lparr>messageLength := messageLength (stun_header pk) + word_of_nat added\<rparr>\<rparr>"
      and room: "off + need \<le> 2048"
      and slots: "sizeofStunPacket S + 8 * (length (attributeList pk) + 1) \<le> (if attributeList pk = [] then off else fst (hd (attributeList pk)))"
    using ok off wf by (auto simp: appendStunAttribute_def Let_def stun_wf_def split: if_splits)
  have "(if attributeList pk = [] then off else fst (hd (attributeList pk))) = sizeofStunPacket S + 160"
    using wf e by (auto simp: stun_wf_def layout_end_def laid_out_first)
  with slots have "length (attributeList pk) + 1 \<le> 20" by simp
  with wf assms(2) size room e show ?thesis
    by (simp add: pk' stun_wf_def laid_out_snoc)
qed

lemma append_copied:
  assumes "stun_wf S pk" "appendStunAttribute S (Some pk) need copied a added = Some (STATUS_SUCCESS, Some pk')"
  shows "copied \<le> 2048"
  using assms by (auto simp: appendStunAttribute_def stun_wf_def Let_def bind_eq_Some_conv split: if_splits)

text \<open>The count check lets a twenty-first attribute pass, whose pointer is stored over the first attribute.\<close>

lemma append_twenty_first:
  assumes "stun_wf S pk" "length (attributeList pk) = 20"
  shows "getFirstAvailableStunAttribute S (Some pk) \<noteq> Some (STATUS_STUN_MAX_ATTRIBUTE_COUNT, i)"
    and "getFirstAvailableStunAttribute S (Some pk) = Some (STATUS_SUCCESS, off) \<Longrightarrow> off + need \<le> 2048 \<Longrightarrow>
      appendStunAttribute S (Some pk) need copied a added = None"
proof -
  have "attributeList pk \<noteq> []" using assms(2) by auto
  then have "fst (hd (attributeList pk)) = sizeofStunPacket S + 160" using assms(1) laid_out_first by (auto simp: stun_wf_def)
  then show "getFirstAvailableStunAttribute S (Some pk) = Some (STATUS_SUCCESS, off) \<Longrightarrow> off + need \<le> 2048 \<Longrightarrow>
      appendStunAttribute S (Some pk) need copied a added = None"
    using assms \<open>attributeList pk \<noteq> []\<close> by (simp add: appendStunAttribute_def stun_wf_def Let_def)
  show "getFirstAvailableStunAttribute S (Some pk) \<noteq> Some (STATUS_STUN_MAX_ATTRIBUTE_COUNT, i)"
    using assms(2) by (auto simp: getFirstAvailableStunAttribute_def bind_eq_Some_conv split: if_splits prod.splits)
qed

lemma wf_sendable:
  assumes "stun_wf S pk" "list_all sendable (map snd (attributeList pk))"
  shows "sendable_packet S key f pk" "messageLength (stun_header pk) =
      word_of_nat (length (attrs_wire S (transactionId (stun_header pk)) (map snd (attributeList pk))))"
proof -
  let ?tid = "transactionId (stun_header pk)"
  have ok: "\<forall>a \<in> set (map snd (attributeList pk)). sendable a" "length ?tid = 12" using assms by (auto simp: stun_wf_def list_all_iff)
  have "length (attrs_wire S ?tid (map snd ps)) = sum_list (map (encoded_length \<circ> snd) ps)" if "list_all sendable (map snd ps)" for ps
    using that ok(2) by (induction ps) (auto simp: length_attr_wire encoded_length_def sendable_short)
  from this [OF assms(2)] assms(1) show "messageLength (stun_header pk) = word_of_nat (length (attrs_wire S ?tid (map snd (attributeList pk))))"
    by (simp add: stun_wf_def)
  have "sum_list (map (\<lambda>p. packed_size S (snd p)) (attributeList pk)) \<le> 2048"
  proof (cases "attributeList pk = []")
    case False
    with assms(1) have "sizeofStunPacket S + 160 \<le> 2048" by (cases "attributeList pk") (auto simp: stun_wf_def)
    with assms layout_end_le [of S "sizeofStunPacket S + 160" 2048 "attributeList pk"] show ?thesis
      by (auto simp: stun_wf_def layout_end_def)
  qed simp
  with wire_le_layout [OF ok] have "length (attrs_wire S ?tid (map snd (attributeList pk))) \<le> 2048" by linarith
  with assms ok show "sendable_packet S key f pk" by (auto simp: sendable_packet_def stun_wf_def length_stun_wire)
qed

end

subsection \<open>The packets the SDK builds\<close>

text \<open>
  One step for every append function.  Address and flag attributes are of the types the code has for
  them (others are not packed by the size of their struct); addresses have the two and sixteen bytes of
  \<^verbatim>\<open>KvsIpAddress\<close>.
\<close>

inductive stun_append :: "stun_ops \<Rightarrow> StunPacket \<Rightarrow> StunPacket \<Rightarrow> bool" for S where
  append_address: "stun_append S pk pk'"
    if "appendStunAddressAttribute S (Some pk) kind (Some ip) = Some (STATUS_SUCCESS, Some pk')" "kind \<in> set plain_addresses"
      "length (port ip) = 2" "length (address ip) = 16"
| append_username: "stun_append S pk pk'" if "appendStunUsernameAttribute S (Some pk) (Some str) = Some (STATUS_SUCCESS, Some pk')"
| append_realm: "stun_append S pk pk'" if "appendStunRealmAttribute S (Some pk) (Some str) = Some (STATUS_SUCCESS, Some pk')"
| append_nonce: "stun_append S pk pk'" if "appendStunNonceAttribute S (Some pk) (Some bs) len = Some (STATUS_SUCCESS, Some pk')"
| append_data: "stun_append S pk pk'" if "appendStunDataAttribute S (Some pk) (Some bs) len = Some (STATUS_SUCCESS, Some pk')"
| append_priority: "stun_append S pk pk'" if "appendStunPriorityAttribute S (Some pk) v = Some (STATUS_SUCCESS, Some pk')"
| append_lifetime: "stun_append S pk pk'" if "appendStunLifetimeAttribute S (Some pk) v = Some (STATUS_SUCCESS, Some pk')"
| append_change: "stun_append S pk pk'" if "appendStunChangeRequestAttribute S (Some pk) v = Some (STATUS_SUCCESS, Some pk')"
| append_flag: "stun_append S pk pk'" if "appendStunFlagAttribute S (Some pk) kind = Some (STATUS_SUCCESS, Some pk')" "kind \<in> set flag_types"
| append_transport: "stun_append S pk pk'" if "appendStunRequestedTransportAttribute S (Some pk) protocol = Some (STATUS_SUCCESS, Some pk')"
| append_control: "stun_append S pk pk'" if "appendStunIceControllAttribute S (Some pk) kind tie = Some (STATUS_SUCCESS, Some pk')"
| append_channel: "stun_append S pk pk'" if "appendStunChannelNumberAttribute S (Some pk) channel = Some (STATUS_SUCCESS, Some pk')"
| append_family: "stun_append S pk pk'" if "appendStunAllocationAddressFamily S (Some pk) ipFamily = Some (STATUS_SUCCESS, Some pk')"
| append_error: "stun_append S pk pk'" if "appendStunErrorCodeAttribute S (Some pk) (Some str) code = Some (STATUS_SUCCESS, Some pk')"
| update_nonce: "stun_append S pk pk'" if "updateStunNonceAttribute (Some pk) (Some bs) len = Some (STATUS_SUCCESS, Some pk')"

inductive stun_built :: "stun_ops \<Rightarrow> StunPacket \<Rightarrow> bool" for S where
  built_create: "stun_built S pk" if "createStunPacket S (rand :: nat \<Rightarrow> nat \<times> nat) r kind tid = Some (STATUS_SUCCESS, Some pk, r')"
| built_append: "stun_built S pk'" if "stun_built S pk" "stun_append S pk pk'"

lemma length_randomIdBytes: "length (fst (randomIdBytes rand r n)) = n"
  by (induction n arbitrary: r) (auto simp: split_def Let_def)

lemma create_wf: "createStunPacket S rand r kind tid = Some (STATUS_SUCCESS, Some pk, r') \<Longrightarrow> stun_wf S pk"
  using length_randomIdBytes [of rand r 12]
  by (auto simp: createStunPacket_def stun_wf_def split_def bind_eq_Some_conv rdn_length split: if_splits option.splits)

context stun_layout
begin

lemma string_wf:
  assumes "stun_wf S pk" "kind \<in> set string_types" "len \<le> 65532" "length bs = len"
    "appendStunAttribute S (Some pk) (ROUND_UP (ROUND_UP len 4 + sizeofAttribute S kind) 8) copied
      \<lparr>attr_type = kind, attr_length = word_of_nat len, attr_body = StunString (ROUND_UP len 4) (bs @ replicate (ROUND_UP len 4 - len) 0)\<rparr>
      (ROUND_UP len 4 + 4) = Some (STATUS_SUCCESS, Some pk')"
  shows "stun_wf S pk'"
proof -
  have len: "unat (word_of_nat len :: u16) = len" "len \<le> ROUND_UP len 4"
    using assms(3) ROUND_UP_ge [of 4 len] by (simp_all add: unat_of_nat)
  show ?thesis
    by (rule append_wf [OF assms(1) _ _ _ assms(5)])
      (use assms(2-4) len in \<open>simp_all add: well_typed_def packed_size_def storage_def encoded_length_def add.commute\<close>)
qed

lemma appendStunString_wf:
  assumes "stun_wf S pk" "kind \<in> set string_types" "cap \<le> 65532"
    "appendStunString S (Some pk) kind cap str = Some (STATUS_SUCCESS, Some pk')"
  shows "stun_wf S pk'"
proof -
  let ?len = "min (length str) cap"
  have "?len \<le> 65532" using assms(3) by simp
  then show ?thesis
    using string_wf [OF assms(1,2), of ?len "take ?len str"] assms(4)
    by (simp add: appendStunString_def Let_def ROUND_UP_4_small)
qed

lemma appendStunBytes_wf:
  assumes "stun_wf S pk" "kind \<in> set string_types"
    "appendStunBytes S (Some pk) kind bs len = Some (STATUS_SUCCESS, Some pk')"
  shows "stun_wf S pk'"
proof -
  define padded where "padded = wrap16 (ROUND_UP (unat len) 4)"
  obtain b where ok: "appendStunAttribute S (Some pk) (ROUND_UP (padded + sizeofAttribute S kind) 8) (sizeofAttribute S kind + unat len)
      \<lparr>attr_type = kind, attr_length = len, attr_body = StunString padded (take (unat len) bs @ replicate (padded - unat len) 0)\<rparr>
      (padded + 4) = Some (STATUS_SUCCESS, Some pk')" "rdn bs 0 (unat len) = Some b"
    using assms(3) by (auto simp: appendStunBytes_def Let_def padded_def [symmetric] bind_eq_Some_conv split: if_splits)
  have len: "unat len \<le> 65532" using append_copied [OF assms(1) ok(1)] by simp
  have "length (take (unat len) bs) = unat len" using ok(2) by (auto simp: rdn_def split: if_splits)
  with string_wf [OF assms(1,2) len, of "take (unat len) bs"] ok(1) show ?thesis by (simp add: padded_def ROUND_UP_4_small [OF len])
qed

lemma fixed_wf:
  assumes "stun_wf S pk" "well_typed a" "storage a = 0" "n = sizeofAttribute S (attr_type a)" "added = encoded_length a"
    "appendStunAttribute S (Some pk) (ROUND_UP n 8) copied a added = Some (STATUS_SUCCESS, Some pk')"
  shows "stun_wf S pk'"
  using append_wf [OF assms(1,2) _ _ assms(6)] assms(3-5) by (simp add: packed_size_def)

text \<open>The layout depends on offsets and sizes only, the length on the wire on the lengths only.\<close>

lemma laid_out_cong:
  "map (\<lambda>p. (fst p, packed_size S (snd p))) ps = map (\<lambda>p. (fst p, packed_size S (snd p))) qs \<Longrightarrow> laid_out S at lim ps = laid_out S at lim qs"
proof (induction ps arbitrary: at qs)
  case (Cons p ps)
  then obtain q qs' where qs: "qs = q # qs'" "fst p = fst q" "packed_size S (snd p) = packed_size S (snd q)"
      "map (\<lambda>p. (fst p, packed_size S (snd p))) ps = map (\<lambda>p. (fst p, packed_size S (snd p))) qs'"
    by (cases qs) auto
  then show ?case using Cons.IH [OF qs(4)] by simp
qed simp

lemma update_wf:
  assumes "stun_wf S pk" "i < length (attributeList pk)" "attributeList pk ! i = (off, a)" "well_typed b"
    "attr_type b = attr_type a" "attr_length b = attr_length a" "storage b = storage a"
  shows "stun_wf S (pk\<lparr>attributeList := (attributeList pk)[i := (off, b)]\<rparr>)"
proof -
  let ?ps = "attributeList pk" and ?qs = "(attributeList pk)[i := (off, b)]"
  have same: "map f ?qs = map f ?ps" if "f (off, b) = f (off, a)" for f :: "nat \<times> StunAttribute \<Rightarrow> 'b"
    using assms(2,3) that by (metis list_update_id map_update nth_map)
  have "laid_out S at lim ?qs = laid_out S at lim ?ps" for at lim
    using assms(5,7) by (intro laid_out_cong same) (simp add: packed_size_def)
  moreover have "list_all well_typed (map snd ?qs)"
    using assms(1,4) by (auto simp: stun_wf_def list_all_iff dest!: set_update_subset_insert [THEN subsetD])
  moreover have "map (encoded_length \<circ> snd) ?qs = map (encoded_length \<circ> snd) ?ps"
    using assms(6) by (intro same) (simp add: encoded_length_def)
  ultimately show ?thesis using assms(1) by (simp add: stun_wf_def)
qed

lemma update_nonce_wf:
  assumes wf: "stun_wf S pk" and ok: "updateStunNonceAttribute (Some pk) (Some bs) len = Some (STATUS_SUCCESS, Some pk')"
  shows "stun_wf S pk'"
proof (cases "find (\<lambda>i. attr_type (snd (attributeList pk ! i)) = STUN_ATTRIBUTE_TYPE_NONCE) [0..<length (attributeList pk)]")
  case None
  with ok wf show ?thesis by (simp add: updateStunNonceAttribute_def getStunAttribute_def)
next
  case (Some i)
  then have i: "i < length (attributeList pk)" by (auto simp: find_Some_iff)
  obtain off a where a: "attributeList pk ! i = (off, a)" by (cases "attributeList pk ! i")
  have "(off, a) \<in> set (attributeList pk)" using i a nth_mem [OF i] by simp
  then have "well_typed a" using wf by (auto simp: stun_wf_def list_all_iff)
  obtain padded old new y where new: "attr_body a = StunString padded old" "memwrite old 0 y = Some new"
      "pk' = pk\<lparr>attributeList := (attributeList pk)[i := (off, a\<lparr>attr_body := StunString padded new\<rparr>)]\<rparr>"
    using ok Some a
    by (auto simp: updateStunNonceAttribute_def getStunAttribute_def bind_eq_Some_conv split: if_splits StunBody.splits)
  show ?thesis unfolding new(3)
    using \<open>well_typed a\<close> new(1) memwrite_length [OF new(2)] by (intro update_wf [OF wf i a]) (simp_all add: well_typed_def storage_def)
qed

lemma append_step_wf:
  assumes "stun_append S pk pk'" "stun_wf S pk"
  shows "stun_wf S pk'"
  using assms(1)
proof cases
  case (append_address kind ip)
  then show ?thesis
    by (intro fixed_wf [OF assms(2), where a = "\<lparr>attr_type = kind, attr_length = word_of_nat (4 + (if IS_IPV4_ADDR ip then 4 else 16)), attr_body = StunAddress ip\<rparr>"])
      (use assms(2) in \<open>auto simp: appendStunAddressAttribute_def Let_def well_typed_def storage_def address_size encoded_length_def ROUND_UP_4 stun_wf_def\<close>)
next
  case (append_username str)
  then show ?thesis
    by (intro appendStunString_wf [OF assms(2)]) (auto simp: appendStunUsernameAttribute_def string_types_def)
next
  case (append_realm str)
  then show ?thesis
    by (intro appendStunString_wf [OF assms(2)]) (auto simp: appendStunRealmAttribute_def string_types_def)
next
  case (append_nonce bs len)
  then show ?thesis
    by (intro appendStunBytes_wf [OF assms(2)]) (auto simp: appendStunNonceAttribute_def string_types_def)
next
  case (append_data bs len)
  then show ?thesis
    by (intro appendStunBytes_wf [OF assms(2)]) (auto simp: appendStunDataAttribute_def string_types_def)
next
  case (append_priority v)
  then show ?thesis
    by (intro fixed_wf [OF assms(2)])
      (auto simp: appendStunPriorityAttribute_def appendStunWord_def well_typed_def storage_def word_types_def encoded_length_def ROUND_UP_4)
next
  case (append_lifetime v)
  then show ?thesis
    by (intro fixed_wf [OF assms(2)])
      (auto simp: appendStunLifetimeAttribute_def appendStunWord_def well_typed_def storage_def word_types_def encoded_length_def ROUND_UP_4)
next
  case (append_change v)
  then show ?thesis
    by (intro fixed_wf [OF assms(2)])
      (auto simp: appendStunChangeRequestAttribute_def appendStunWord_def well_typed_def storage_def word_types_def encoded_length_def ROUND_UP_4)
next
  case (append_flag kind)
  then show ?thesis
    by (intro fixed_wf [OF assms(2)])
      (auto simp: appendStunFlagAttribute_def well_typed_def storage_def flag_size encoded_length_def ROUND_UP_4)
next
  case (append_transport protocol)
  then show ?thesis
    by (intro fixed_wf [OF assms(2)])
      (auto simp: appendStunRequestedTransportAttribute_def well_typed_def storage_def encoded_length_def ROUND_UP_4 Let_def)
next
  case (append_control kind tie)
  then show ?thesis
    by (intro fixed_wf [OF assms(2)])
      (auto simp: appendStunIceControllAttribute_def store_length well_typed_def storage_def encoded_length_def ROUND_UP_4 Let_def split: if_splits)
next
  case (append_channel channel)
  then show ?thesis
    by (intro fixed_wf [OF assms(2)])
      (auto simp: appendStunChannelNumberAttribute_def well_typed_def storage_def encoded_length_def ROUND_UP_4 Let_def)
next
  case (append_family ipFamily)
  then show ?thesis
    by (intro append_wf [OF assms(2)])
      (auto simp: appendStunAllocationAddressFamily_def Let_def family_size well_typed_def packed_size_def storage_def encoded_length_def ROUND_UP_def)
next
  case (append_error str code)
  let ?len = "min (length str) 128"
  have len: "unat (word_of_nat ?len :: u16) = ?len" "wrap16 (ROUND_UP ?len 4) = ROUND_UP ?len 4" "?len \<le> ROUND_UP ?len 4"
    using ROUND_UP_ge [of 4 ?len] by (simp_all add: unat_of_nat ROUND_UP_4_small)
  show ?thesis
    by (rule append_wf [OF assms(2) _ _ _ append_error [unfolded appendStunErrorCodeAttribute_def option.case Let_def len(2)]])
      (use len in \<open>simp_all add: well_typed_def packed_size_def storage_def encoded_length_def add.commute\<close>)
next
  case (update_nonce bs len)
  then show ?thesis using update_nonce_wf assms(2) by blast
qed

lemma built_wf: "stun_built S pk \<Longrightarrow> stun_wf S pk"
  by (induction rule: stun_built.induct) (auto intro: create_wf append_step_wf)

end


definition sample_request :: StunPacket where
  "sample_request =
     \<lparr>stun_header = \<lparr>stunMessageType = 1, messageLength = 20, magicCookie = STUN_HEADER_MAGIC_COOKIE, transactionId = replicate 12 7\<rparr>,
      allocationSize = 2048,
      attributeList = [(200, \<lparr>attr_type = STUN_ATTRIBUTE_TYPE_PRIORITY, attr_length = 4, attr_body = StunWord 9\<rparr>),
        (208, \<lparr>attr_type = STUN_ATTRIBUTE_TYPE_USERNAME, attr_length = 5, attr_body = StunString 8 [97, 98, 99, 100, 101, 0, 0, 0]\<rparr>)]\<rparr>"

lemma sample_request_built: "stun_built sample_stun sample_request"
proof -
  define pk0 where "pk0 = \<lparr>stun_header = \<lparr>stunMessageType = 1, messageLength = 0, magicCookie = STUN_HEADER_MAGIC_COOKIE, transactionId = replicate 12 7\<rparr>,
      allocationSize = 2048, attributeList = []\<rparr>"
  define pk1 where "pk1 = pk0\<lparr>stun_header := (stun_header pk0)\<lparr>messageLength := 8\<rparr>,
      attributeList := [(200, \<lparr>attr_type = STUN_ATTRIBUTE_TYPE_PRIORITY, attr_length = 4, attr_body = StunWord 9\<rparr>)]\<rparr>"
  have ids: "randomIdBytes (\<lambda>r :: nat. (r, r)) 7 12 = (replicate 12 7, 7)" by code_simp
  have "createStunPacket sample_stun (\<lambda>r :: nat. (r, r)) 7 1 None = Some (STATUS_SUCCESS, Some pk0, 7)"
    using ids by (simp add: createStunPacket_def sample_stun_def little_endian_host_def pk0_def)
  then have "stun_built sample_stun pk0" by (rule built_create)
  moreover have "appendStunPriorityAttribute sample_stun (Some pk0) 9 = Some (STATUS_SUCCESS, Some pk1)"
    by (simp add: appendStunPriorityAttribute_def appendStunWord_def appendStunAttribute_def getFirstAvailableStunAttribute_def pk0_def pk1_def
        sample_stun_def sample_sizes_def all_addresses_def stun_types ROUND_UP_def)
  ultimately have "stun_built sample_stun pk1" by (blast intro: built_append append_priority)
  moreover have at: "getFirstAvailableStunAttribute sample_stun (Some pk1) = Some (STATUS_SUCCESS, 208)"
    by (simp add: getFirstAvailableStunAttribute_def getPackagedStunAttributeSize_def pk0_def pk1_def sample_stun_def sample_sizes_def
        all_addresses_def stun_types ROUND_UP_def wrap16_def)
  moreover have r5: "wrap16 (ROUND_UP (Suc (Suc (Suc (Suc (Suc 0))))) 4) = 8" and r24: "ROUND_UP 24 8 = 24" by (simp_all add: wrap16_def ROUND_UP_def)
  moreover have u: "sample_sizes STUN_ATTRIBUTE_TYPE_USERNAME = 16" by (simp add: sample_sizes_def all_addresses_def stun_types)
  moreover have "appendStunUsernameAttribute sample_stun (Some pk1) (Some [97, 98, 99, 100, 101]) = Some (STATUS_SUCCESS, Some sample_request)"
    using at by (simp add: appendStunUsernameAttribute_def appendStunString_def appendStunAttribute_def Let_def)
      (simp add: pk0_def pk1_def sample_request_def sample_stun_def u r5 r24 numeral_3_eq_3)
  ultimately show ?thesis by (blast intro: built_append append_username)
qed


end
