(* ===== verification/IceCandidates.thy ===== *)
theory IceCandidates
  imports StunConstruction
begin

text \<open>
  Candidates and candidate pairs of \<^verbatim>\<open>src/source/Ice/IceAgent.c\<close>: priorities, lookups, the sorted list of
  pairs, nomination.

  Candidates and pairs are objects that several lists point to.  The memory is two maps from
  references to objects; a list holds references, and following a reference without an object is
  undefined (\<open>None\<close>).  Sockets and TURN connections are references of the outside world.  A pair's hash
  table of sending times is a map.  Statistics are switched off: the diagnostics of pairs and servers
  are NULL and their branches are not taken; log messages are left out.
\<close>

subsection \<open>Data\<close>

datatype ICE_CANDIDATE_STATE = ICE_CANDIDATE_STATE_NEW | ICE_CANDIDATE_STATE_VALID | ICE_CANDIDATE_STATE_INVALID

datatype KVS_SOCKET_PROTOCOL = KVS_SOCKET_PROTOCOL_NONE | KVS_SOCKET_PROTOCOL_TCP | KVS_SOCKET_PROTOCOL_UDP

record IceCandidate =
  cd_type :: ICE_CANDIDATE_TYPE
  cd_isRemote :: bool
  cd_ipAddress :: KvsIpAddress
  cd_socket :: "nat option"
  cd_state :: ICE_CANDIDATE_STATE
  cd_priority :: nat
  cd_iceServerIndex :: nat
  cd_foundation :: nat
  cd_turn :: "nat option"
  cd_reported :: bool
  cd_remoteProtocol :: KVS_SOCKET_PROTOCOL

record IceCandidatePair =
  cp_local :: nat
  cp_remote :: nat
  cp_nominated :: bool
  cp_firstStunRequest :: bool
  cp_priority :: nat
  cp_state :: ICE_CANDIDATE_PAIR_STATE
  cp_ids :: "TransactionIdStore option"
  cp_lastDataSentTime :: nat
  cp_requestSentTime :: "nat \<Rightarrow> nat option"
  cp_roundTripTime :: nat

datatype ICE_AGENT_STATE =
    ICE_AGENT_STATE_NONE
  | ICE_AGENT_STATE_NEW
  | ICE_AGENT_STATE_CHECK_CONNECTION
  | ICE_AGENT_STATE_CONNECTED
  | ICE_AGENT_STATE_NOMINATING
  | ICE_AGENT_STATE_READY
  | ICE_AGENT_STATE_DISCONNECTED
  | ICE_AGENT_STATE_FAILED

record IceServer =
  srv_isTurn :: bool
  srv_isSecure :: bool
  srv_transport :: KVS_SOCKET_PROTOCOL
  srv_ipv4Address :: KvsIpAddress
  srv_ipv6Address :: KvsIpAddress

text \<open>
  The agent with its memory.  \<open>stateChanges\<close> are the calls of \<^verbatim>\<open>connectionStateChangedFn\<close>, \<open>newCandidates\<close>
  those of \<^verbatim>\<open>newLocalCandidateFn\<close> (\<open>None\<close> at the end of gathering), \<open>ia_world\<close> is
  everything outside the agent: the clock, the network, timers, the random source.
\<close>

record 'n IceAgent =
  ia_cands :: "nat \<Rightarrow> IceCandidate option"
  ia_pairs :: "nat \<Rightarrow> IceCandidatePair option"
  ia_next :: nat
  localCandidates :: "nat list"
  remoteCandidates :: "nat list"
  triggeredCheckQueue :: "nat list"
  iceCandidatePairs :: "nat list"
  pDataSending :: "nat option"
  isControlling :: bool
  tieBreaker :: u64
  localUsername :: "byte list"
  localPassword :: "byte list"
  remoteUsername :: "byte list"
  remotePassword :: "byte list"
  combinedUserName :: "byte list"
  pBindingRequest :: "StunPacket option"
  pBindingIndication :: "StunPacket option"
  pSrflxIds :: "TransactionIdStore option"
  remoteCredentialReceived :: bool
  ia_restart :: bool
  stopGathering :: bool
  processStun :: bool
  iceAgentState :: ICE_AGENT_STATE
  ia_status :: STATUS
  stateEndTime :: nat
  iceConnectionCheckTimeout :: nat
  iceCandidateNominationTimeout :: nat
  lastDataReceivedTime :: nat
  detectedDisconnection :: bool
  disconnectionGracePeriodEndTime :: nat
  iceAgentStartTime :: nat
  hasStateChangedFn :: bool
  stateChanges :: "ICE_AGENT_STATE list"
  hasInboundPacketFn :: bool
  inboundPackets :: "byte list list"
  hasNewLocalCandidateFn :: bool
  newCandidates :: "string option list"
  agentStartGathering :: bool
  candidateGatheringFinished :: bool
  candidateGatheringEndTime :: nat
  addedRelayCandidate :: bool
  ia_shutdown :: bool
  iceAgentStateTimerTask :: nat
  keepAliveTimerTask :: nat
  iceCandidateGatheringTimerTask :: nat
  iceServers :: "IceServer list"
  localNetworkInterfaces :: "KvsIpAddress list"
  foundationCounter :: nat
  relayOnly :: bool
  iceLocalCandidateGatheringTimeout :: nat
  relayCandidateCount :: nat
  ia_world :: 'n

subsection \<open>Priorities\<close>

definition typePreference :: "ICE_CANDIDATE_TYPE \<Rightarrow> nat" where
  "typePreference t =
     (case t of
        ICE_CANDIDATE_TYPE_HOST \<Rightarrow> 126
      | ICE_CANDIDATE_TYPE_SERVER_REFLEXIVE \<Rightarrow> 100
      | ICE_CANDIDATE_TYPE_PEER_REFLEXIVE \<Rightarrow> 110
      | ICE_CANDIDATE_TYPE_RELAYED \<Rightarrow> 0)"

definition computeCandidatePriority :: "IceCandidate \<Rightarrow> nat" where
  "computeCandidatePriority c =
     (let localPreference = (if \<not> isPointToPoint (cd_ipAddress c) then 65535 else 0) in
      wrap32 (2 ^ 24 * typePreference (cd_type c) + 2 ^ 8 * localPreference + 255))"

text \<open>The priorities of the local and the remote candidate.\<close>

definition computeCandidatePairPriority :: "nat \<Rightarrow> nat \<Rightarrow> bool \<Rightarrow> nat" where
  "computeCandidatePairPriority lp rp isLocalControlling =
     (let controlling = (if isLocalControlling then lp else rp); controlled = (if isLocalControlling then rp else lp) in
      wrap64 (2 ^ 32 * min controlled controlling + 2 * max controlled controlling + (if controlling > controlled then 1 else 0)))"

subsection \<open>Lookups\<close>

text \<open>The search loops: the first reference whose object passes the test.\<close>

fun findRef :: "('c \<Rightarrow> bool option) \<Rightarrow> (nat \<Rightarrow> 'c option) \<Rightarrow> nat list \<Rightarrow> nat option option" where
  "findRef Q mem [] = Some None"
| "findRef Q mem (r # rs) = do { c \<leftarrow> mem r; b \<leftarrow> Q c; if b then Some (Some r) else findRef Q mem rs }"

definition isSameIpAddress :: "KvsIpAddress \<Rightarrow> KvsIpAddress \<Rightarrow> bool \<Rightarrow> bool" where
  "isSameIpAddress ip other checkPort \<longleftrightarrow>
     family ip = family other \<and>
     (let n = (if IS_IPV4_ADDR ip then 4 else 16) in take n (address other) = take n (address ip)) \<and>
     (checkPort \<longrightarrow> port ip = port other)"

definition findCandidateWithIp :: "(nat \<Rightarrow> IceCandidate option) \<Rightarrow> KvsIpAddress \<Rightarrow> nat list \<Rightarrow> nat option option" where
  "findCandidateWithIp mem ip refs = findRef (\<lambda>c. Some (isSameIpAddress ip (cd_ipAddress c) True)) mem refs"

definition findCandidateWithSocketConnection :: "(nat \<Rightarrow> IceCandidate option) \<Rightarrow> nat \<Rightarrow> nat list \<Rightarrow> nat option option" where
  "findCandidateWithSocketConnection mem sock refs = findRef (\<lambda>c. Some (cd_socket c = Some sock)) mem refs"

definition findIceCandidatePairWithLocalSocketConnectionAndRemoteAddr ::
  "'n IceAgent \<Rightarrow> nat option \<Rightarrow> KvsIpAddress \<Rightarrow> bool \<Rightarrow> (STATUS \<times> nat option) option" where
  "findIceCandidatePairWithLocalSocketConnectionAndRemoteAddr ag pSocketConnection remoteAddr checkPort =
     (case pSocketConnection of
        None \<Rightarrow> Some (STATUS_NULL_ARG, None)
      | Some sock \<Rightarrow> do {
          r \<leftarrow> findRef (\<lambda>p.
                 if cp_state p = ICE_CANDIDATE_PAIR_STATE_FAILED then Some False
                 else do { l \<leftarrow> ia_cands ag (cp_local p);
                           if cd_socket l \<noteq> Some sock then Some False
                           else do { rem \<leftarrow> ia_cands ag (cp_remote p); Some (isSameIpAddress remoteAddr (cd_ipAddress rem) checkPort) } })
               (ia_pairs ag) (iceCandidatePairs ag);
          Some (STATUS_SUCCESS, r) })"

subsection \<open>Pairs\<close>

fun insertRef :: "(nat \<Rightarrow> IceCandidatePair option) \<Rightarrow> nat \<Rightarrow> nat \<Rightarrow> nat list \<Rightarrow> nat list option" where
  "insertRef mem prio r [] = Some [r]"
| "insertRef mem prio r (q # qs) =
     do { c \<leftarrow> mem q;
          if cp_priority c \<le> prio then Some (r # q # qs) else do { rest \<leftarrow> insertRef mem prio r qs; Some (q # rest) } }"

definition insertIceCandidatePair :: "nat \<Rightarrow> 'n IceAgent \<Rightarrow> 'n IceAgent option" where
  "insertIceCandidatePair r ag =
     do { p \<leftarrow> ia_pairs ag r;
          refs \<leftarrow> insertRef (ia_pairs ag) (cp_priority p) r (iceCandidatePairs ag);
          Some (ag\<lparr>iceCandidatePairs := refs\<rparr>) }"

text \<open>Memory for the pair and for its ring of twenty transaction ids; \<open>sizeofPair\<close> is the size of the struct.\<close>

definition newPair :: "platform \<Rightarrow> nat \<Rightarrow> nat \<Rightarrow> nat \<Rightarrow> 'n IceAgent \<Rightarrow> (STATUS \<times> 'n IceAgent) option" where
  "newPair P sizeofPair l r ag =
     (if \<not> memalloc P sizeofPair then Some (STATUS_NOT_ENOUGH_MEMORY, ag)
      else case createTransactionIdStore P 20 of
        (st, ids) \<Rightarrow>
          if STATUS_FAILED st then Some (st, ag)
          else do {
            lc \<leftarrow> ia_cands ag l;
            rc \<leftarrow> ia_cands ag r;
            let p = \<lparr>cp_local = l, cp_remote = r, cp_nominated = False, cp_firstStunRequest = True,
                     cp_priority = computeCandidatePairPriority (cd_priority lc) (cd_priority rc) (isControlling ag),
                     cp_state = ICE_CANDIDATE_PAIR_STATE_WAITING, cp_ids = ids, cp_lastDataSentTime = 0,
                     cp_requestSentTime = (\<lambda>_. None), cp_roundTripTime = 0\<rparr>;
            let ref = ia_next ag;
            ag' \<leftarrow> insertIceCandidatePair ref (ag\<lparr>ia_pairs := (ia_pairs ag)(ref \<mapsto> p), ia_next := ref + 1\<rparr>);
            Some (STATUS_SUCCESS, ag') })"

fun pairWithEach :: "platform \<Rightarrow> nat \<Rightarrow> nat \<Rightarrow> bool \<Rightarrow> nat list \<Rightarrow> 'n IceAgent \<Rightarrow> (STATUS \<times> 'n IceAgent) option" where
  "pairWithEach P sizeofPair c isRemoteCandidate [] ag = Some (STATUS_SUCCESS, ag)"
| "pairWithEach P sizeofPair c isRemoteCandidate (d # ds) ag =
     do {
       new \<leftarrow> ia_cands ag c;
       cur \<leftarrow> ia_cands ag d;
       if cd_state cur = ICE_CANDIDATE_STATE_VALID \<and> family (cd_ipAddress cur) = family (cd_ipAddress new)
       then do {
         (st, ag') \<leftarrow> (if isRemoteCandidate then newPair P sizeofPair d c ag else newPair P sizeofPair c d ag);
         if STATUS_FAILED st then Some (st, ag') else pairWithEach P sizeofPair c isRemoteCandidate ds ag' }
       else pairWithEach P sizeofPair c isRemoteCandidate ds ag }"

definition createIceCandidatePairs :: "platform \<Rightarrow> nat \<Rightarrow> nat \<Rightarrow> bool \<Rightarrow> 'n IceAgent \<Rightarrow> (STATUS \<times> 'n IceAgent) option" where
  "createIceCandidatePairs P sizeofPair c isRemoteCandidate ag =
     do {
       new \<leftarrow> ia_cands ag c;
       if cd_state new \<noteq> ICE_CANDIDATE_STATE_VALID then Some (STATUS_SUCCESS, ag)
       else pairWithEach P sizeofPair c isRemoteCandidate (if isRemoteCandidate then localCandidates ag else remoteCandidates ag) ag }"

definition updatePair :: "nat \<Rightarrow> (IceCandidatePair \<Rightarrow> IceCandidatePair) \<Rightarrow> 'n IceAgent \<Rightarrow> 'n IceAgent option" where
  "updatePair r f ag = do { p \<leftarrow> ia_pairs ag r; Some (ag\<lparr>ia_pairs := (ia_pairs ag)(r \<mapsto> f p)\<rparr>) }"

definition updateCandidate :: "nat \<Rightarrow> (IceCandidate \<Rightarrow> IceCandidate) \<Rightarrow> 'n IceAgent \<Rightarrow> 'n IceAgent option" where
  "updateCandidate r f ag = do { c \<leftarrow> ia_cands ag r; Some (ag\<lparr>ia_cands := (ia_cands ag)(r \<mapsto> f c)\<rparr>) }"

definition freeIceCandidatePair :: "nat \<Rightarrow> 'n IceAgent \<Rightarrow> 'n IceAgent option" where
  "freeIceCandidatePair r ag = do { _ \<leftarrow> ia_pairs ag r; Some (ag\<lparr>ia_pairs := (ia_pairs ag)(r := None)\<rparr>) }"

text \<open>The loops that free and unlink the pairs whose state is bad.\<close>

fun dropPairs :: "(ICE_CANDIDATE_PAIR_STATE \<Rightarrow> bool) \<Rightarrow> nat list \<Rightarrow> 'n IceAgent \<Rightarrow> 'n IceAgent option" where
  "dropPairs bad [] ag = Some ag"
| "dropPairs bad (r # rs) ag =
     do { p \<leftarrow> ia_pairs ag r;
          if bad (cp_state p)
          then do { ag' \<leftarrow> freeIceCandidatePair r ag; dropPairs bad rs (ag'\<lparr>iceCandidatePairs := removeAll r (iceCandidatePairs ag')\<rparr>) }
          else dropPairs bad rs ag }"

definition pruneUnconnectedIceCandidatePair :: "'n IceAgent \<Rightarrow> (STATUS \<times> 'n IceAgent) option" where
  "pruneUnconnectedIceCandidatePair ag =
     do { ag' \<leftarrow> dropPairs (\<lambda>s. s \<noteq> ICE_CANDIDATE_PAIR_STATE_SUCCEEDED) (iceCandidatePairs ag) ag; Some (STATUS_SUCCESS, ag') }"

fun invalidatePairs :: "nat list \<Rightarrow> 'n IceAgent \<Rightarrow> 'n IceAgent option" where
  "invalidatePairs [] ag = Some ag"
| "invalidatePairs (r # rs) ag =
     do { p \<leftarrow> ia_pairs ag r;
          l \<leftarrow> ia_cands ag (cp_local p);
          if cd_state l \<noteq> ICE_CANDIDATE_STATE_VALID
          then do { ag' \<leftarrow> updatePair r (\<lambda>p. p\<lparr>cp_state := ICE_CANDIDATE_PAIR_STATE_FAILED\<rparr>) ag; invalidatePairs rs ag' }
          else invalidatePairs rs ag }"

definition iceAgentInvalidateCandidatePair :: "'n IceAgent \<Rightarrow> (STATUS \<times> 'n IceAgent) option" where
  "iceAgentInvalidateCandidatePair ag = do { ag' \<leftarrow> invalidatePairs (iceCandidatePairs ag) ag; Some (STATUS_SUCCESS, ag') }"

fun freezePairs :: "nat list \<Rightarrow> 'n IceAgent \<Rightarrow> 'n IceAgent option" where
  "freezePairs [] ag = Some ag"
| "freezePairs (r # rs) ag =
     do { p \<leftarrow> ia_pairs ag r;
          ag' \<leftarrow> (if \<not> cp_nominated p then updatePair r (\<lambda>p. p\<lparr>cp_state := ICE_CANDIDATE_PAIR_STATE_FROZEN\<rparr>) ag else Some ag);
          freezePairs rs ag' }"

definition iceAgentNominateCandidatePair :: "'n IceAgent \<Rightarrow> (STATUS \<times> 'n IceAgent) option" where
  "iceAgentNominateCandidatePair ag =
     (if \<not> isControlling ag then Some (STATUS_SUCCESS, ag)
      else if iceCandidatePairs ag = [] then Some (STATUS_ICE_CANDIDATE_PAIR_LIST_EMPTY, ag)
      else do {
        found \<leftarrow> findRef (\<lambda>p. Some (cp_state p = ICE_CANDIDATE_PAIR_STATE_SUCCEEDED)) (ia_pairs ag) (iceCandidatePairs ag);
        case found of
          None \<Rightarrow> Some (STATUS_ICE_FAILED_TO_NOMINATE_CANDIDATE_PAIR, ag)
        | Some r \<Rightarrow> do {
            ag1 \<leftarrow> updatePair r (\<lambda>p. p\<lparr>cp_nominated := True, cp_ids := map_option transactionIdStoreClear (cp_ids p)\<rparr>) ag;
            ag2 \<leftarrow> freezePairs (iceCandidatePairs ag1) ag1;
            Some (STATUS_SUCCESS, ag2) } })"

definition updateCandidateAddress :: "nat \<Rightarrow> KvsIpAddress \<Rightarrow> 'n IceAgent \<Rightarrow> (STATUS \<times> 'n IceAgent) option" where
  "updateCandidateAddress r ip ag =
     do { c \<leftarrow> ia_cands ag r;
          if cd_type c = ICE_CANDIDATE_TYPE_HOST then Some (STATUS_INVALID_ARG, ag)
          else if cd_state c \<noteq> ICE_CANDIDATE_STATE_NEW then Some (STATUS_SUCCESS, ag)
          else do { ag' \<leftarrow> updateCandidate r (\<lambda>c. c\<lparr>cd_ipAddress := ip, cd_state := ICE_CANDIDATE_STATE_VALID\<rparr>) ag; Some (STATUS_SUCCESS, ag') } }"

definition iceAgentFatalError :: "STATUS \<Rightarrow> 'n IceAgent \<Rightarrow> 'n IceAgent" where
  "iceAgentFatalError errorStatus ag = ag\<lparr>ia_status := errorStatus\<rparr>"

end
