(* ===== verification/IceAgent.thy ===== *)
theory IceAgent
  imports IceCandidates
begin

text \<open>
  \<^verbatim>\<open>src/source/Ice/IceAgent.c\<close>: connectivity checks, keep-alives, the set-up of the agent's states, and
  the handling of incoming packets; the packaging and sending of STUN packets in
  \<^verbatim>\<open>src/source/Ice/IceUtils.c\<close>.

  Every function runs under the agent's lock and maps the agent to a status and the new agent.
\<close>

subsection \<open>Surroundings\<close>

text \<open>
  What the agent calls outside: STUN's services, the network and clock, the random source, the timer
  queue, the TURN connections and sockets by reference; sizes of two structs; the status with which a
  timer callback ends its timer.
\<close>

record 'n ice_env =
  ie_stun :: stun_ops
  ie_net :: "'n world_ops"
  ie_rand :: "'n \<Rightarrow> nat \<times> 'n"
  ie_addTimer :: "'n \<Rightarrow> STATUS \<times> nat \<times> 'n"
  ie_cancelTimer :: "nat \<Rightarrow> 'n \<Rightarrow> STATUS \<times> 'n"
  ie_updateTimerPeriod :: "'n \<Rightarrow> STATUS \<times> 'n"
  ie_turnConnectionShutdown :: "nat option \<Rightarrow> nat \<Rightarrow> 'n \<Rightarrow> STATUS \<times> 'n"
  ie_freeTurnConnection :: "nat option \<Rightarrow> 'n \<Rightarrow> STATUS \<times> 'n"
  ie_turnConnectionIsShutdownComplete :: "nat option \<Rightarrow> 'n \<Rightarrow> bool"
  ie_removeConnection :: "nat option \<Rightarrow> 'n \<Rightarrow> STATUS \<times> 'n"
  ie_freeSocketConnection :: "nat option \<Rightarrow> 'n \<Rightarrow> STATUS \<times> 'n"
  ie_createSocketConnection :: "KVS_SOCKET_PROTOCOL \<Rightarrow> KvsIpAddress option \<Rightarrow> KvsIpAddress option \<Rightarrow> 'n \<Rightarrow> STATUS \<times> nat \<times> KvsIpAddress option \<times> 'n"
  ie_addConnection :: "nat option \<Rightarrow> 'n \<Rightarrow> STATUS \<times> 'n"
  ie_getLocalhostIpAddresses :: "'n \<Rightarrow> STATUS \<times> KvsIpAddress list \<times> 'n"
  ie_connectionListenerStart :: "'n \<Rightarrow> STATUS \<times> 'n"
  ie_createTurnConnection :: "nat \<Rightarrow> KVS_SOCKET_PROTOCOL \<Rightarrow> u16 \<Rightarrow> nat option \<Rightarrow> 'n \<Rightarrow> STATUS \<times> nat \<times> 'n"
  ie_turnConnectionStart :: "nat option \<Rightarrow> 'n \<Rightarrow> STATUS \<times> 'n"
  ie_turnConnectionAddPeer :: "nat option \<Rightarrow> KvsIpAddress \<Rightarrow> 'n \<Rightarrow> STATUS \<times> 'n"
  ie_turnConnectionGetRelayAddress :: "nat \<Rightarrow> 'n \<Rightarrow> KvsIpAddress option"
  ie_turnConnectionIncomingDataHandler :: "nat option \<Rightarrow> byte list \<Rightarrow> KvsIpAddress \<Rightarrow> 'n \<Rightarrow> STATUS \<times> (byte list \<times> KvsIpAddress) list \<times> 'n"
  ie_socketConnectionClosed :: "nat option \<Rightarrow> 'n \<Rightarrow> STATUS \<times> 'n"
  ie_removeAllConnections :: "'n \<Rightarrow> STATUS \<times> 'n"
  ie_sleep :: "'n \<Rightarrow> 'n"
  ie_stopScheduling :: STATUS
  ie_sizeofPair :: nat
  ie_sizeofCandidate :: nat

type_synonym 'n ice_action = "'n IceAgent \<Rightarrow> (STATUS \<times> 'n IceAgent) option"

text \<open>A sequence of \<^verbatim>\<open>CHK_STATUS\<close>, and a loop whose body is one.\<close>

fun chkAll :: "('s \<Rightarrow> (STATUS \<times> 's) option) list \<Rightarrow> 's \<Rightarrow> (STATUS \<times> 's) option" where
  "chkAll [] s = Some (STATUS_SUCCESS, s)"
| "chkAll (f # fs) s = do { (st, s') \<leftarrow> f s; if STATUS_FAILED st then Some (st, s') else chkAll fs s' }"

definition outside :: "('n \<Rightarrow> STATUS \<times> 'n) \<Rightarrow> 'n ice_action" where
  "outside f ag = (case f (ia_world ag) of (st, w) \<Rightarrow> Some (st, ag\<lparr>ia_world := w\<rparr>))"

definition startTimer :: "'n ice_env \<Rightarrow> (nat \<Rightarrow> 'n IceAgent \<Rightarrow> 'n IceAgent) \<Rightarrow> 'n ice_action" where
  "startTimer E store ag =
     (case ie_addTimer E (ia_world ag) of
        (st, timer, w) \<Rightarrow> Some (st, if STATUS_FAILED st then ag\<lparr>ia_world := w\<rparr> else store timer (ag\<lparr>ia_world := w\<rparr>)))"

definition iceTime :: "'n ice_env \<Rightarrow> 'n IceAgent \<Rightarrow> nat \<times> 'n IceAgent" where
  "iceTime E ag = (case getTime (ie_net E) (ia_world ag) of (t, w) \<Rightarrow> (t, ag\<lparr>ia_world := w\<rparr>))"

text \<open>The clean-up of most functions: a failure is recorded as the agent's status.\<close>

definition recording :: "'n ice_action \<Rightarrow> 'n ice_action" where
  "recording f ag = do { (st, ag') \<leftarrow> f ag; Some (st, if STATUS_FAILED st then iceAgentFatalError st ag' else ag') }"

subsection \<open>STUN packets\<close>

text \<open>Status, buffer, \<^verbatim>\<open>*pBufferLen\<close>.\<close>

definition iceUtilsPackageStunPacket ::
  "stun_ops \<Rightarrow> StunPacket option \<Rightarrow> byte list option \<Rightarrow> nat \<Rightarrow> byte list \<Rightarrow> nat \<Rightarrow> (STATUS \<times> byte list \<times> nat) option" where
  "iceUtilsPackageStunPacket S pStunPacket password passwordLen buf bufLen =
     (case pStunPacket of
        None \<Rightarrow> Some (STATUS_NULL_ARG, buf, bufLen)
      | Some pk \<Rightarrow>
          if \<not> (password = None \<and> passwordLen = 0 \<or> password \<noteq> None \<and> passwordLen > 0) then Some (STATUS_INVALID_ARG, buf, bufLen)
          else do {
            (st, _, size) \<leftarrow> serializeStunPacket S (Some pk) password passwordLen (password \<noteq> None) True None 0;
            if STATUS_FAILED st then Some (st, buf, bufLen)
            else if \<not> size \<le> bufLen then Some (STATUS_BUFFER_TOO_SMALL, buf, bufLen)
            else do {
              (st2, mem, size2) \<leftarrow> serializeStunPacket S (Some pk) password passwordLen (password \<noteq> None) True (Some buf) size;
              buf' \<leftarrow> mem;
              Some (st2, buf', if STATUS_FAILED st2 then bufLen else size2) } })"

text \<open>
  The packet is put together in 2048 bytes on the stack; their contents do not matter.  The text of
  the address (\<^verbatim>\<open>getIpAddrStr\<close>) always fits its 40 bytes.  The log line of a binding request or a
  success response reads the number of the socket, also when the data goes out over TURN: without a
  socket connection that is a null pointer, \<open>None\<close>.
\<close>

definition iceUtilsSendStunPacket ::
  "stun_ops \<Rightarrow> 'n world_ops \<Rightarrow> 'n \<Rightarrow> StunPacket option \<Rightarrow> byte list option \<Rightarrow> nat \<Rightarrow> KvsIpAddress \<Rightarrow> bool \<Rightarrow> bool \<Rightarrow> bool \<Rightarrow> (STATUS \<times> 'n) option" where
  "iceUtilsSendStunPacket S W w pStunPacket password passwordLen dest hasSocketConnection hasTurnConnection useTurn =
     do {
       (st, buf, size) \<leftarrow> iceUtilsPackageStunPacket S pStunPacket password passwordLen (replicate 2048 0) 2048;
       if STATUS_FAILED st then Some (st, w)
       else do {
         kind \<leftarrow> map_option (stunMessageType \<circ> stun_header) pStunPacket;
         if kind \<in> {0x0001, 0x0101} \<and> \<not> hasSocketConnection then None
         else do {
           bytes \<leftarrow> rdn buf 0 size;
           Some (iceUtilsSendData W w bytes dest hasSocketConnection hasTurnConnection useTurn) } } }"

definition setState :: "ICE_CANDIDATE_PAIR_STATE \<Rightarrow> IceCandidatePair \<Rightarrow> IceCandidatePair" where
  "setState s p = p\<lparr>cp_state := s\<rparr>"

definition iceAgentSendStunPacket ::
  "'n ice_env \<Rightarrow> StunPacket option \<Rightarrow> byte list option \<Rightarrow> nat \<Rightarrow> nat \<Rightarrow> KvsIpAddress \<Rightarrow> 'n ice_action" where
  "iceAgentSendStunPacket E pStunPacket password passwordLen l dest ag =
     do {
       c \<leftarrow> ia_cands ag l;
       (st, w) \<leftarrow> iceUtilsSendStunPacket (ie_stun E) (ie_net E) (ia_world ag) pStunPacket password passwordLen dest
                    (cd_socket c \<noteq> None) (cd_turn c \<noteq> None) (cd_type c = ICE_CANDIDATE_TYPE_RELAYED);
       let ag1 = ag\<lparr>ia_world := w\<rparr>;
       if STATUS_FAILED st
       then do {
         ag2 \<leftarrow> (if st = STATUS_SOCKET_CONNECTION_CLOSED_ALREADY
                then do { ag' \<leftarrow> updateCandidate l (\<lambda>c. c\<lparr>cd_state := ICE_CANDIDATE_STATE_INVALID\<rparr>) ag1;
                          (_, ag'') \<leftarrow> iceAgentInvalidateCandidatePair ag'; Some ag'' }
                else Some ag1);
         (st2, found) \<leftarrow> findIceCandidatePairWithLocalSocketConnectionAndRemoteAddr ag2 (cd_socket c) dest True;
         (case found of
            None \<Rightarrow> Some (st2, ag2)
          | Some r \<Rightarrow> do { ag3 \<leftarrow> updatePair r (setState ICE_CANDIDATE_PAIR_STATE_FAILED) ag2; Some (st2, ag3) }) }
       else do {
         (st2, found) \<leftarrow> findIceCandidatePairWithLocalSocketConnectionAndRemoteAddr ag1 (cd_socket c) dest True;
         (case found of
            None \<Rightarrow> Some (st2, ag1)
          | Some r \<Rightarrow>
              if pDataSending ag1 = Some r
              then do { ag2 \<leftarrow> updatePair r (\<lambda>p. p\<lparr>cp_firstStunRequest := False\<rparr>) ag1; Some (st2, ag2) }
              else Some (st2, ag1)) } }"

subsection \<open>Connectivity checks\<close>

text \<open>The pair's check: the pre-built request gets the priority of the local candidate and a fresh transaction id.\<close>

definition iceCandidatePairCheckConnection :: "'n ice_env \<Rightarrow> nat \<Rightarrow> 'n ice_action" where
  "iceCandidatePairCheckConnection E r ag =
     (case pBindingRequest ag of
        None \<Rightarrow> Some (STATUS_NULL_ARG, ag)
      | Some pk \<Rightarrow> do {
          p \<leftarrow> ia_pairs ag r;
          (case snd (getStunAttribute (Some pk) STUN_ATTRIBUTE_TYPE_PRIORITY) of
             None \<Rightarrow> Some (STATUS_INVALID_ARG, ag)
           | Some i \<Rightarrow> do {
               l \<leftarrow> ia_cands ag (cp_local p);
               rem \<leftarrow> ia_cands ag (cp_remote p);
               let (off, a) = attributeList pk ! i;
               let (tid, w) = randomBytes (ie_rand E) (ia_world ag) 12;
               let pk' = pk\<lparr>attributeList := (attributeList pk)[i := (off, a\<lparr>attr_body := StunWord (word_of_nat (cd_priority l))\<rparr>)],
                            stun_header := (stun_header pk)\<lparr>transactionId := tid\<rparr>\<rparr>;
               let ag1 = ag\<lparr>pBindingRequest := Some pk', ia_world := w\<rparr>;
               (case cp_ids p of
                  None \<Rightarrow> Some (STATUS_INVALID_OPERATION, ag1)
                | Some ids \<Rightarrow> do {
                    ids' \<leftarrow> transactionIdStoreInsert ids tid;
                    let (now, ag2) = iceTime E ag1;
                    let checkSum = unat (compute_crc32 (ie_stun E) tid);
                    ag3 \<leftarrow> updatePair r (\<lambda>p. p\<lparr>cp_ids := Some ids', cp_requestSentTime := (cp_requestSentTime p)(checkSum \<mapsto> now)\<rparr>) ag2;
                    let (_, ag4) = iceTime E ag3;
                    iceAgentSendStunPacket E (Some pk') (Some (remotePassword ag)) (length (remotePassword ag)) (cp_local p) (cd_ipAddress rem) ag4 }) }) })"

text \<open>One round: the head of the triggered queue, or else every waiting or running pair.\<close>

definition checkPair :: "'n ice_env \<Rightarrow> nat \<Rightarrow> 'n ice_action" where
  "checkPair E r ag =
     do {
       p \<leftarrow> ia_pairs ag r;
       if cp_state p = ICE_CANDIDATE_PAIR_STATE_WAITING
       then do { ag' \<leftarrow> updatePair r (setState ICE_CANDIDATE_PAIR_STATE_IN_PROGRESS) ag; iceCandidatePairCheckConnection E r ag' }
       else if cp_state p = ICE_CANDIDATE_PAIR_STATE_IN_PROGRESS then iceCandidatePairCheckConnection E r ag
       else Some (STATUS_SUCCESS, ag) }"

definition iceAgentCheckCandidatePairConnection :: "'n ice_env \<Rightarrow> 'n ice_action" where
  "iceAgentCheckCandidatePairConnection E =
     recording (\<lambda>ag.
       case triggeredCheckQueue ag of
         r # rs \<Rightarrow> iceCandidatePairCheckConnection E r (ag\<lparr>triggeredCheckQueue := rs\<rparr>)
       | [] \<Rightarrow> chkAll (map (checkPair E) (iceCandidatePairs ag)) ag)"

definition keepAlive :: "'n ice_env \<Rightarrow> nat \<Rightarrow> nat \<Rightarrow> 'n ice_action" where
  "keepAlive E now r ag =
     do {
       p \<leftarrow> ia_pairs ag r;
       if cp_state p = ICE_CANDIDATE_PAIR_STATE_SUCCEEDED
       then do {
         rem \<leftarrow> ia_cands ag (cp_remote p);
         ag' \<leftarrow> updatePair r (\<lambda>p. p\<lparr>cp_lastDataSentTime := now\<rparr>) ag;
         iceAgentSendStunPacket E (pBindingIndication ag') None 0 (cp_local p) (cd_ipAddress rem) ag' }
       else Some (STATUS_SUCCESS, ag) }"

definition iceAgentSendKeepAliveTimerCallback :: "'n ice_env \<Rightarrow> nat \<Rightarrow> 'n ice_action" where
  "iceAgentSendKeepAliveTimerCallback E currentTime =
     recording (\<lambda>ag. chkAll (map (keepAlive E currentTime) (iceCandidatePairs ag)) ag)"

definition nominatePair :: "'n ice_env \<Rightarrow> nat \<Rightarrow> 'n ice_action" where
  "nominatePair E r ag =
     do { p \<leftarrow> ia_pairs ag r; if cp_nominated p then iceCandidatePairCheckConnection E r ag else Some (STATUS_SUCCESS, ag) }"

definition iceAgentSendCandidateNomination :: "'n ice_env \<Rightarrow> 'n ice_action" where
  "iceAgentSendCandidateNomination E =
     recording (\<lambda>ag. if \<not> isControlling ag then Some (STATUS_SUCCESS, ag) else chkAll (map (nominatePair E) (iceCandidatePairs ag)) ag)"

subsection \<open>Setting up the states\<close>

definition onRequest :: "(StunPacket option \<Rightarrow> (STATUS \<times> StunPacket option) option) \<Rightarrow> 'n ice_action" where
  "onRequest f ag = do { (st, pk) \<leftarrow> f (pBindingRequest ag); Some (st, ag\<lparr>pBindingRequest := pk\<rparr>) }"

definition createRequest :: "'n ice_env \<Rightarrow> 'n ice_action" where
  "createRequest E ag =
     do { (st, pk, w) \<leftarrow> createStunPacket (ie_stun E) (ie_rand E) (ia_world ag) 0x0001 None;
          Some (st, ag\<lparr>pBindingRequest := pk, ia_world := w\<rparr>) }"

definition endState :: "'n ice_env \<Rightarrow> ('n IceAgent \<Rightarrow> nat) \<Rightarrow> 'n ice_action" where
  "endState E timeout ag = (case iceTime E ag of (now, ag') \<Rightarrow> Some (STATUS_SUCCESS, ag'\<lparr>stateEndTime := wrap64 (now + timeout ag')\<rparr>))"

fun thawPairs :: "nat list \<Rightarrow> 'n IceAgent \<Rightarrow> 'n IceAgent option" where
  "thawPairs [] ag = Some ag"
| "thawPairs (r # rs) ag = do { ag' \<leftarrow> updatePair r (setState ICE_CANDIDATE_PAIR_STATE_WAITING) ag; thawPairs rs ag' }"

definition iceAgentCheckConnectionStateSetup :: "'n ice_env \<Rightarrow> 'n ice_action" where
  "iceAgentCheckConnectionStateSetup E =
     recording (\<lambda>ag. do {
       ag1 \<leftarrow> thawPairs (iceCandidatePairs ag) ag;
       chkAll
         [createRequest E,
          onRequest (\<lambda>pk. appendStunUsernameAttribute (ie_stun E) pk (Some (combinedUserName ag))),
          onRequest (\<lambda>pk. appendStunPriorityAttribute (ie_stun E) pk 0),
          onRequest (\<lambda>pk. appendStunIceControllAttribute (ie_stun E) pk
             (if isControlling ag then STUN_ATTRIBUTE_TYPE_ICE_CONTROLLING else STUN_ATTRIBUTE_TYPE_ICE_CONTROLLED) (tieBreaker ag)),
          endState E iceConnectionCheckTimeout] ag1 })"

text \<open>The pair that sent data before a restart is given up: its connection is closed, it and its local candidate are freed.\<close>

definition retirePair :: "'n ice_env \<Rightarrow> nat \<Rightarrow> 'n ice_action" where
  "retirePair E r ag =
     do {
       p \<leftarrow> ia_pairs ag r;
       l \<leftarrow> ia_cands ag (cp_local p);
       (st, ag1) \<leftarrow> (if cd_type l = ICE_CANDIDATE_TYPE_RELAYED
                     then chkAll [outside (ie_turnConnectionShutdown E (cd_turn l) 10000000), outside (ie_freeTurnConnection E (cd_turn l))] ag
                     else chkAll [outside (ie_removeConnection E (cd_socket l)), outside (ie_freeSocketConnection E (cd_socket l))] ag);
       if STATUS_FAILED st then Some (st, ag1)
       else do { ag2 \<leftarrow> freeIceCandidatePair r (ag1\<lparr>ia_cands := (ia_cands ag1)(cp_local p := None)\<rparr>); Some (STATUS_SUCCESS, ag2) } }"

definition selectPair :: "'n IceAgent \<Rightarrow> nat option option" where
  "selectPair ag =
     findRef (\<lambda>p. Some (cp_nominated p \<and> cp_state p = ICE_CANDIDATE_PAIR_STATE_SUCCEEDED)) (ia_pairs ag) (iceCandidatePairs ag)"

definition iceAgentConnectedStateSetup :: "'n ice_env \<Rightarrow> 'n ice_action" where
  "iceAgentConnectedStateSetup E =
     recording (chkAll
       [(\<lambda>ag. case pDataSending ag of
                None \<Rightarrow> Some (STATUS_SUCCESS, ag)
              | Some r \<Rightarrow> retirePair E r (ag\<lparr>ia_restart := False, pDataSending := None\<rparr>)),
        (\<lambda>ag. do { found \<leftarrow> selectPair ag; Some (STATUS_SUCCESS, case found of None \<Rightarrow> ag | Some r \<Rightarrow> ag\<lparr>pDataSending := Some r\<rparr>) }),
        startTimer E (\<lambda>t ag. ag\<lparr>keepAliveTimerTask := t\<rparr>)])"

definition iceAgentNominatingStateSetup :: "'n ice_env \<Rightarrow> 'n ice_action" where
  "iceAgentNominatingStateSetup E =
     recording (\<lambda>ag. chkAll
       ((if isControlling ag
         then [iceAgentNominateCandidatePair, createRequest E,
               onRequest (\<lambda>pk. appendStunUsernameAttribute (ie_stun E) pk (Some (combinedUserName ag))),
               onRequest (\<lambda>pk. appendStunPriorityAttribute (ie_stun E) pk 0),
               onRequest (\<lambda>pk. appendStunIceControllAttribute (ie_stun E) pk STUN_ATTRIBUTE_TYPE_ICE_CONTROLLING (tieBreaker ag)),
               onRequest (\<lambda>pk. appendStunFlagAttribute (ie_stun E) pk STUN_ATTRIBUTE_TYPE_USE_CANDIDATE)]
         else []) @ [endState E iceCandidateNominationTimeout]) ag)"

text \<open>In the ready state one local candidate stays; the others are invalidated, relayed ones are shut down.\<close>

definition retireCandidate :: "'n ice_env \<Rightarrow> nat \<Rightarrow> nat \<Rightarrow> 'n ice_action" where
  "retireCandidate E keep l ag =
     (if l = keep then Some (STATUS_SUCCESS, ag)
      else do {
        c \<leftarrow> ia_cands ag l;
        (st, ag1) \<leftarrow> (if cd_type c = ICE_CANDIDATE_TYPE_RELAYED then outside (ie_turnConnectionShutdown E (cd_turn c) 0) ag
                      else Some (STATUS_SUCCESS, ag));
        if STATUS_FAILED st then Some (st, ag1)
        else do { ag2 \<leftarrow> updateCandidate l (\<lambda>c. c\<lparr>cd_state := ICE_CANDIDATE_STATE_INVALID\<rparr>) ag1; Some (STATUS_SUCCESS, ag2) } })"

definition choosePair :: "'n ice_action" where
  "choosePair ag =
     (case pDataSending ag of
        Some r \<Rightarrow> Some (STATUS_SUCCESS, ag)
      | None \<Rightarrow> do {
          found \<leftarrow> selectPair ag;
          case found of
            None \<Rightarrow> Some (STATUS_ICE_NO_NOMINATED_VALID_CANDIDATE_PAIR_AVAILABLE, ag)
          | Some r \<Rightarrow> Some (STATUS_SUCCESS, ag\<lparr>pDataSending := Some r, stopGathering := True\<rparr>) })"

definition INVALID_TIMESTAMP_VALUE :: nat where
  "INVALID_TIMESTAMP_VALUE = 2 ^ 64 - 1"

definition keepChosen :: "'n ice_env \<Rightarrow> 'n ice_action" where
  "keepChosen E ag =
     do { r \<leftarrow> pDataSending ag; p \<leftarrow> ia_pairs ag r;
          chkAll (map (retireCandidate E (cp_local p)) (localCandidates ag)) (ag\<lparr>stateEndTime := INVALID_TIMESTAMP_VALUE\<rparr>) }"

definition dropFailed :: "'n ice_action" where
  "dropFailed ag = do { ag' \<leftarrow> dropPairs (\<lambda>s. s = ICE_CANDIDATE_PAIR_STATE_FAILED) (iceCandidatePairs ag) ag; Some (STATUS_SUCCESS, ag') }"

definition iceAgentReadyStateSetup :: "'n ice_env \<Rightarrow> 'n ice_action" where
  "iceAgentReadyStateSetup E =
     recording (chkAll [outside (ie_updateTimerPeriod E), choosePair, keepChosen E, iceAgentInvalidateCandidatePair, dropFailed])"

subsection \<open>Starting\<close>

text \<open>Credentials are strings without their terminator; the name for the checks is the two names joined by a colon.\<close>

definition iceAgentStartAgent :: "'n ice_env \<Rightarrow> byte list option \<Rightarrow> byte list option \<Rightarrow> bool \<Rightarrow> 'n ice_action" where
  "iceAgentStartAgent E remoteUser remotePass controlling ag =
     (case (remoteUser, remotePass) of
        (Some ru, Some rp) \<Rightarrow>
          if remoteCredentialReceived ag then Some (STATUS_SUCCESS, ag)
          else if \<not> (length ru \<le> 256 \<and> length rp \<le> 256) then Some (STATUS_INVALID_ARG, ag)
          else startTimer E (\<lambda>t ag. ag\<lparr>iceAgentStateTimerTask := t\<rparr>)
            (ag\<lparr>remoteCredentialReceived := True, isControlling := (if ia_restart ag then isControlling ag else controlling),
                remoteUsername := ru, remotePassword := rp, combinedUserName := ru @ [0x3A] @ localUsername ag\<rparr>)
      | _ \<Rightarrow> Some (STATUS_NULL_ARG, ag))"

end
