(* ===== verification/IceIncoming.thy ===== *)
theory IceIncoming
  imports IceAgent
begin

text \<open>
  \<^verbatim>\<open>src/source/Ice/IceAgent.c\<close>, packets from the network: \<^verbatim>\<open>incomingDataHandler\<close> hands media to the peer
  connection and STUN packets to \<^verbatim>\<open>handleStunPacket\<close>, which answers binding requests, learns server- and
  peer-reflexive addresses, and marks the pair of an answered check as connected.
\<close>

definition iceAgentCheckPeerReflexiveCandidate ::
  "'n ice_env \<Rightarrow> KvsIpAddress \<Rightarrow> nat \<Rightarrow> bool \<Rightarrow> nat option \<Rightarrow> 'n ice_action" where
  "iceAgentCheckPeerReflexiveCandidate E ip prio isRemote pSocketConnection ag =
     (if \<not> (isRemote \<or> pSocketConnection \<noteq> None) then Some (STATUS_NULL_ARG, ag)
      else if \<not> isRemote then do {
        found \<leftarrow> findCandidateWithIp (ia_cands ag) ip (localCandidates ag);
        if found \<noteq> None then Some (STATUS_SUCCESS, ag)
        else do {
          sock \<leftarrow> pSocketConnection;
          target \<leftarrow> findCandidateWithSocketConnection (ia_cands ag) sock (localCandidates ag);
          l \<leftarrow> target;
          ag' \<leftarrow> updateCandidate l (\<lambda>c. c\<lparr>cd_type := ICE_CANDIDATE_TYPE_PEER_REFLEXIVE, cd_ipAddress := ip\<rparr>) ag;
          Some (STATUS_SUCCESS, ag') } }
      else if \<not> length (remoteCandidates ag) < 100 then Some (STATUS_SUCCESS, ag)
      else do {
        found \<leftarrow> findCandidateWithIp (ia_cands ag) ip (remoteCandidates ag);
        if found \<noteq> None then Some (STATUS_SUCCESS, ag)
        else if \<not> memalloc (stun_platform (ie_stun E)) (ie_sizeofCandidate E) then Some (STATUS_NOT_ENOUGH_MEMORY, ag)
        else
          let r = ia_next ag;
              c = \<lparr>cd_type = ICE_CANDIDATE_TYPE_PEER_REFLEXIVE, cd_isRemote = True, cd_ipAddress = ip, cd_socket = None,
                   cd_state = ICE_CANDIDATE_STATE_VALID, cd_priority = prio, cd_iceServerIndex = 0, cd_foundation = 0, cd_turn = None,
                   cd_reported = False, cd_remoteProtocol = KVS_SOCKET_PROTOCOL_NONE\<rparr> in
          createIceCandidatePairs (stun_platform (ie_stun E)) (ie_sizeofPair E) r isRemote
            (ag\<lparr>ia_cands := (ia_cands ag)(r \<mapsto> c), ia_next := r + 1, remoteCandidates := r # remoteCandidates ag\<rparr>) })"

definition attributeBody :: "StunPacket \<Rightarrow> u16 \<Rightarrow> StunBody option" where
  "attributeBody pk kind = map_option (\<lambda>i. attr_body (snd (attributeList pk ! i))) (snd (getStunAttribute (Some pk) kind))"

text \<open>The response to a binding request.\<close>

definition bindingResponse :: "'n ice_env \<Rightarrow> byte list \<Rightarrow> KvsIpAddress \<Rightarrow> 'n IceAgent \<Rightarrow> (STATUS \<times> StunPacket option \<times> 'n IceAgent) option" where
  "bindingResponse E tid src ag =
     do {
       (st, pk, w) \<leftarrow> createStunPacket (ie_stun E) (ie_rand E) (ia_world ag) 0x0101 (Some tid);
       (st', pk') \<leftarrow> (if STATUS_FAILED st then Some (st, pk)
                      else chkAll
                        [(\<lambda>pk. appendStunAddressAttribute (ie_stun E) pk STUN_ATTRIBUTE_TYPE_XOR_MAPPED_ADDRESS (Some src)),
                         (\<lambda>pk. appendStunIceControllAttribute (ie_stun E) pk
                            (if isControlling ag then STUN_ATTRIBUTE_TYPE_ICE_CONTROLLING else STUN_ATTRIBUTE_TYPE_ICE_CONTROLLED) (tieBreaker ag))] pk);
       Some (st', pk', ag\<lparr>ia_world := w\<rparr>) }"

text \<open>What a binding request does to the pair it came over: nomination by the peer, a triggered check.\<close>

definition notePeerCheck :: "nat \<Rightarrow> bool \<Rightarrow> 'n IceAgent \<Rightarrow> 'n IceAgent option" where
  "notePeerCheck r useCandidate ag =
     do {
       p \<leftarrow> ia_pairs ag r;
       ag1 \<leftarrow> updatePair r (\<lambda>p. p\<lparr>cp_nominated := cp_nominated p \<or> useCandidate\<rparr>) ag;
       Some (if cp_state p \<in> {ICE_CANDIDATE_PAIR_STATE_FROZEN, ICE_CANDIDATE_PAIR_STATE_WAITING, ICE_CANDIDATE_PAIR_STATE_IN_PROGRESS}
             then ag1\<lparr>triggeredCheckQueue := triggeredCheckQueue ag1 @ [r]\<rparr> else ag1) }"

definition handleBindingRequest :: "'n ice_env \<Rightarrow> byte list \<Rightarrow> nat \<Rightarrow> nat \<Rightarrow> KvsIpAddress \<Rightarrow> 'n ice_action" where
  "handleBindingRequest E buf bufferLen sock src ag =
     do {
       (st, pkt) \<leftarrow> deserializeStunPacket (ie_stun E) (Some buf) bufferLen (Some (localPassword ag)) (length (localPassword ag));
       if STATUS_FAILED st then Some (st, ag)
       else do {
         pk \<leftarrow> pkt;
         (st1, response, ag1) \<leftarrow> bindingResponse E (transactionId (stun_header pk)) src ag;
         if STATUS_FAILED st1 then Some (st1, ag1)
         else do {
           prio \<leftarrow> (case attributeBody pk STUN_ATTRIBUTE_TYPE_PRIORITY of
                     None \<Rightarrow> Some 0 | Some (StunWord v) \<Rightarrow> Some (unat v) | _ \<Rightarrow> None);
           (st2, ag2) \<leftarrow> iceAgentCheckPeerReflexiveCandidate E src prio True None ag1;
           if STATUS_FAILED st2 then Some (st2, ag2)
           else do {
             lc \<leftarrow> findCandidateWithSocketConnection (ia_cands ag2) sock (localCandidates ag2);
             (case lc of
                None \<Rightarrow> Some (STATUS_SUCCESS, ag2)
              | Some l \<Rightarrow> do {
                  (st3, ag3) \<leftarrow> iceAgentSendStunPacket E response (Some (localPassword ag)) (length (localPassword ag)) l src ag2;
                  if STATUS_FAILED st3 then Some (st3, ag3)
                  else do {
                    (st4, found) \<leftarrow> findIceCandidatePairWithLocalSocketConnectionAndRemoteAddr ag3 (Some sock) src True;
                    (case found of
                       None \<Rightarrow> Some (st4, ag3)
                     | Some r \<Rightarrow> do { ag4 \<leftarrow> notePeerCheck r (attributeBody pk STUN_ATTRIBUTE_TYPE_USE_CANDIDATE \<noteq> None) ag3; Some (st4, ag4) }) } }) } } } }"

text \<open>A response of the STUN server: the reflexive address of the local candidate.\<close>

definition handleServerResponse :: "'n ice_env \<Rightarrow> byte list \<Rightarrow> nat \<Rightarrow> byte list \<Rightarrow> nat \<Rightarrow> 'n ice_action" where
  "handleServerResponse E buf bufferLen tid sock ag =
     do {
       lc \<leftarrow> findCandidateWithSocketConnection (ia_cands ag) sock (localCandidates ag);
       (case lc of
          None \<Rightarrow> Some (STATUS_SUCCESS, ag)
        | Some l \<Rightarrow> do {
            (st, pkt) \<leftarrow> deserializeStunPacket (ie_stun E) (Some buf) bufferLen None 0;
            if STATUS_FAILED st then Some (st, ag)
            else do {
              pk \<leftarrow> pkt;
              (case attributeBody pk STUN_ATTRIBUTE_TYPE_XOR_MAPPED_ADDRESS of
                 None \<Rightarrow> Some (STATUS_SUCCESS, ag)
               | Some (StunAddress ip) \<Rightarrow> do {
                   (st2, ag2) \<leftarrow> updateCandidateAddress l ip ag;
                   if STATUS_FAILED st2 then Some (st2, ag2)
                   else do {
                     ids \<leftarrow> pSrflxIds ag2;
                     ids' \<leftarrow> transactionIdStoreRemove ids tid;
                     Some (STATUS_SUCCESS, ag2\<lparr>pSrflxIds := Some ids'\<rparr>) } }
               | _ \<Rightarrow> None) } }) }"

text \<open>
  The round trip time of a check, from the table of sending times.  In the second part the status of
  the lookup is left in the variable that the function returns.
\<close>

definition noteRoundTrip :: "'n ice_env \<Rightarrow> nat \<Rightarrow> nat \<Rightarrow> 'n IceAgent \<Rightarrow> 'n IceAgent option" where
  "noteRoundTrip E r checkSum ag =
     do { p \<leftarrow> ia_pairs ag r;
          (case cp_requestSentTime p checkSum of
             None \<Rightarrow> Some ag
           | Some t \<Rightarrow> (case iceTime E ag of (now, ag') \<Rightarrow> updatePair r (\<lambda>p. p\<lparr>cp_roundTripTime := sub64 now t\<rparr>) ag')) }"

definition markConnected :: "'n ice_env \<Rightarrow> nat \<Rightarrow> nat \<Rightarrow> 'n ice_action" where
  "markConnected E r checkSum ag =
     do {
       p \<leftarrow> ia_pairs ag r;
       if cp_state p = ICE_CANDIDATE_PAIR_STATE_SUCCEEDED then Some (STATUS_SUCCESS, ag)
       else do {
         ag1 \<leftarrow> updatePair r (setState ICE_CANDIDATE_PAIR_STATE_SUCCEEDED) ag;
         if cp_requestSentTime p checkSum = None then Some (STATUS_HASH_KEY_NOT_PRESENT, ag1)
         else do {
           ag2 \<leftarrow> noteRoundTrip E r checkSum ag1;
           ag3 \<leftarrow> updatePair r (\<lambda>p. p\<lparr>cp_requestSentTime := (cp_requestSentTime p)(checkSum := None)\<rparr>) ag2;
           Some (STATUS_SUCCESS, ag3) } } }"

definition handleCheckResponse :: "'n ice_env \<Rightarrow> byte list \<Rightarrow> nat \<Rightarrow> byte list \<Rightarrow> nat \<Rightarrow> KvsIpAddress \<Rightarrow> 'n ice_action" where
  "handleCheckResponse E buf bufferLen tid sock src ag =
     do {
       let checkSum = unat (compute_crc32 (ie_stun E) tid);
       (st, found) \<leftarrow> findIceCandidatePairWithLocalSocketConnectionAndRemoteAddr ag (Some sock) src True;
       (case found of
          None \<Rightarrow> Some (STATUS_SUCCESS, ag)
        | Some r \<Rightarrow> do {
            ag1 \<leftarrow> noteRoundTrip E r checkSum ag;
            p \<leftarrow> ia_pairs ag1 r;
            ids \<leftarrow> cp_ids p;
            known \<leftarrow> transactionIdStoreHasId ids tid;
            if \<not> known then Some (STATUS_SUCCESS, ag1)
            else do {
              (st2, pkt) \<leftarrow> deserializeStunPacket (ie_stun E) (Some buf) bufferLen (Some (remotePassword ag1)) (length (remotePassword ag1));
              if STATUS_FAILED st2 then Some (st2, ag1)
              else do {
                pk \<leftarrow> pkt;
                (case attributeBody pk STUN_ATTRIBUTE_TYPE_XOR_MAPPED_ADDRESS of
                   None \<Rightarrow> Some (STATUS_SUCCESS, ag1)
                 | Some (StunAddress ip) \<Rightarrow> do {
                     l \<leftarrow> ia_cands ag1 (cp_local p);
                     rem \<leftarrow> ia_cands ag1 (cp_remote p);
                     (st3, ag2) \<leftarrow>
                       (if cd_type l = ICE_CANDIDATE_TYPE_SERVER_REFLEXIVE \<and> cd_type rem = ICE_CANDIDATE_TYPE_SERVER_REFLEXIVE \<and>
                           \<not> isSameIpAddress ip (cd_ipAddress l) False
                        then iceAgentCheckPeerReflexiveCandidate E ip (cd_priority l) False (Some sock) ag1
                        else Some (STATUS_SUCCESS, ag1));
                     if STATUS_FAILED st3 then Some (st3, ag2) else markConnected E r checkSum ag2 }
                 | _ \<Rightarrow> None) } } }) }"

text \<open>
  Other packets change nothing: indications and errors are only logged, the latter as a hexadecimal
  text whose memory is taken to be available.
\<close>

definition handleStunPacket :: "'n ice_env \<Rightarrow> byte list \<Rightarrow> nat \<Rightarrow> nat \<Rightarrow> KvsIpAddress \<Rightarrow> 'n ice_action" where
  "handleStunPacket E buf bufferLen sock src ag =
     do {
       kind \<leftarrow> rdInt16 (stun_platform (ie_stun E)) buf 0;
       if kind = 0x0001 then handleBindingRequest E buf bufferLen sock src ag
       else if kind = 0x0101 then do {
         tid \<leftarrow> rdn buf 8 12;
         ids \<leftarrow> pSrflxIds ag;
         fromServer \<leftarrow> transactionIdStoreHasId ids tid;
         if fromServer then handleServerResponse E buf bufferLen tid sock ag
         else handleCheckResponse E buf bufferLen tid sock src ag }
       else Some (STATUS_SUCCESS, ag) }"

text \<open>
  After the peer connection has taken a media packet, its source is compared with the pair that
  carries the data, for the statistics.  These are off, but the comparison reads the pair and its
  candidates: one that has been freed is \<open>None\<close>.
\<close>

definition compareSendingPair :: "nat \<Rightarrow> 'n ice_action" where
  "compareSendingPair sock ag =
     (case pDataSending ag of
        None \<Rightarrow> Some (STATUS_SUCCESS, ag)
      | Some r \<Rightarrow> do {
          p \<leftarrow> ia_pairs ag r;
          l \<leftarrow> ia_cands ag (cp_local p);
          if cd_socket l \<noteq> Some sock then Some (STATUS_SUCCESS, ag)
          else do { _ \<leftarrow> ia_cands ag (cp_remote p); Some (STATUS_SUCCESS, ag) } })"

definition incomingDataHandler :: "'n ice_env \<Rightarrow> byte list \<Rightarrow> nat \<Rightarrow> nat \<Rightarrow> KvsIpAddress \<Rightarrow> 'n ice_action" where
  "incomingDataHandler E buf bufferLen sock src ag =
     (case iceTime E ag of
        (now, ag0) \<Rightarrow> do {
          let ag1 = ag0\<lparr>lastDataReceivedTime := now\<rparr>;
          media \<leftarrow> (if bufferLen < 8 then Some True
                    else do { c \<leftarrow> rdInt32 (stun_platform (ie_stun E)) buf 4; Some (c \<noteq> STUN_HEADER_MAGIC_COOKIE) });
          if media \<and> hasInboundPacketFn ag1
          then do { bytes \<leftarrow> rdn buf 0 bufferLen; compareSendingPair sock (ag1\<lparr>inboundPackets := inboundPackets ag1 @ [bytes]\<rparr>) }
          else if processStun ag1 then handleStunPacket E buf bufferLen sock src ag1
          else Some (STATUS_SUCCESS, ag1) })"

end
