(* ===== verification/IceStateMachine.thy ===== *)
theory IceStateMachine
  imports IceIncoming
begin

text \<open>
  \<^verbatim>\<open>src/source/Ice/IceAgentStateMachine.c\<close> over PIC's state machine.

  The source of the state machine is not part of the repository.  The locale \<open>state_machine\<close> states what
  the SDK relies on: one step asks the current state for the next one, checks that the next state
  accepts the current one, makes it current and executes it.  A callback may itself step the machine,
  so executing a state returns the state that is current afterwards.
\<close>

subsection \<open>The interface\<close>

record ('s, 'a) machine =
  sm_next :: "'s \<Rightarrow> 'a \<Rightarrow> (STATUS \<times> 's \<times> 'a) option"
  sm_accepts :: "'s \<Rightarrow> 's list"
  sm_execute :: "'s \<Rightarrow> 'a \<Rightarrow> (STATUS \<times> 's \<times> 'a) option"
  sm_status :: "'s \<Rightarrow> STATUS"

locale state_machine =
  fixes M :: "('s, 'a) machine" and step :: "'s \<Rightarrow> 'a \<Rightarrow> (STATUS \<times> 's \<times> 'a) option"
  assumes step_law: "step cur a =
    do { (st, s, a1) \<leftarrow> sm_next M cur a;
         if STATUS_FAILED st then Some (st, cur, a1)
         else if cur \<notin> set (sm_accepts M s) then Some (sm_status M cur, cur, a1)
         else sm_execute M s a1 }"
begin

text \<open>An invariant under which every proposed transition is accepted is kept by stepping, and no step is refused.\<close>

lemma step_accepted:
  assumes "Inv cur a"
    and "\<And>st s a1. sm_next M cur a = Some (st, s, a1) \<Longrightarrow> st = STATUS_SUCCESS \<and> cur \<in> set (sm_accepts M s) \<and> Mid s a1"
    and "\<And>s a1 st s2 a2. Mid s a1 \<Longrightarrow> sm_execute M s a1 = Some (st, s2, a2) \<Longrightarrow> st = STATUS_SUCCESS \<and> Inv s2 a2"
    and "step cur a = Some (st, s, a')"
  shows "st = STATUS_SUCCESS \<and> Inv s a'"
proof -
  obtain st1 s1 a1 where n: "sm_next M cur a = Some (st1, s1, a1)"
    using assms(4) by (auto simp: step_law bind_eq_Some_conv)
  with assms(2) [OF n] assms(4) have "sm_execute M s1 a1 = Some (st, s, a')" "Mid s1 a1" by (auto simp: step_law)
  then show ?thesis using assms(3) by blast
qed

end

subsection \<open>The callbacks\<close>

text \<open>Leaving a state: a failure leads to the failed state and is recorded.\<close>

definition leaving :: "STATUS \<Rightarrow> ICE_AGENT_STATE \<Rightarrow> 'n IceAgent \<Rightarrow> (STATUS \<times> ICE_AGENT_STATE \<times> 'n IceAgent) option" where
  "leaving st s ag =
     (if STATUS_FAILED st then Some (STATUS_SUCCESS, ICE_AGENT_STATE_FAILED, ag\<lparr>ia_status := st\<rparr>) else Some (STATUS_SUCCESS, s, ag))"

text \<open>Executing a state: a failure is recorded and swallowed.\<close>

definition swallowing :: "'n ice_action \<Rightarrow> 'n ice_action" where
  "swallowing f ag = do { (st, ag') \<leftarrow> f ag; Some (STATUS_SUCCESS, if STATUS_FAILED st then ag'\<lparr>ia_status := st\<rparr> else ag') }"

definition staying :: "ICE_AGENT_STATE \<Rightarrow> 'n ice_action \<Rightarrow> 'n IceAgent \<Rightarrow> (STATUS \<times> ICE_AGENT_STATE \<times> 'n IceAgent) option" where
  "staying s f ag = do { (st, ag') \<leftarrow> f ag; Some (st, s, ag') }"

definition enter :: "ICE_AGENT_STATE \<Rightarrow> 'n ice_action" where
  "enter s ag = Some (STATUS_SUCCESS, ag\<lparr>iceAgentState := s\<rparr>)"

definition notifyState :: "ICE_AGENT_STATE \<Rightarrow> 'n IceAgent \<Rightarrow> 'n IceAgent" where
  "notifyState s ag = (if hasStateChangedFn ag then ag\<lparr>stateChanges := stateChanges ag @ [s]\<rparr> else ag)"

definition KVS_ICE_ENTER_STATE_DISCONNECTION_GRACE_PERIOD :: nat where
  "KVS_ICE_ENTER_STATE_DISCONNECTION_GRACE_PERIOD = 2 * (15 * 10000000)"

definition KVS_ICE_ENTER_STATE_FAILED_GRACE_PERIOD :: nat where
  "KVS_ICE_ENTER_STATE_FAILED_GRACE_PERIOD = 15 * 10000000"

definition iceAgentStateMachineCheckDisconnection ::
  "'n ice_env \<Rightarrow> ICE_AGENT_STATE \<Rightarrow> 'n IceAgent \<Rightarrow> STATUS \<times> ICE_AGENT_STATE \<times> 'n IceAgent" where
  "iceAgentStateMachineCheckDisconnection E s ag =
     (case iceTime E ag of
        (now, ag1) \<Rightarrow>
          let valid = (lastDataReceivedTime ag1 \<noteq> INVALID_TIMESTAMP_VALUE);
              deadline = wrap64 (lastDataReceivedTime ag1 + KVS_ICE_ENTER_STATE_DISCONNECTION_GRACE_PERIOD) in
          if \<not> detectedDisconnection ag1 \<and> valid \<and> deadline \<le> now then (STATUS_SUCCESS, ICE_AGENT_STATE_DISCONNECTED, ag1)
          else if detectedDisconnection ag1 then
            (if valid \<and> deadline > now then (STATUS_SUCCESS, s, notifyState (iceAgentState ag1) (ag1\<lparr>detectedDisconnection := False\<rparr>))
             else if now \<ge> disconnectionGracePeriodEndTime ag1 then (STATUS_ICE_FAILED_TO_RECOVER_FROM_DISCONNECTION, s, ag1)
             else (STATUS_SUCCESS, s, ag1))
          else (STATUS_SUCCESS, s, ag1))"

type_synonym 'n ice_from = "'n IceAgent \<Rightarrow> (STATUS \<times> ICE_AGENT_STATE \<times> 'n IceAgent) option"

definition fromNewIceAgentState :: "'n ice_from" where
  "fromNewIceAgentState ag = Some (STATUS_SUCCESS, ICE_AGENT_STATE_CHECK_CONNECTION, ag)"

definition executeNewIceAgentState :: "'n ice_action" where
  "executeNewIceAgentState ag = enter ICE_AGENT_STATE_NEW ag"

definition fromCheckConnectionIceAgentState :: "'n ice_env \<Rightarrow> 'n ice_from" where
  "fromCheckConnectionIceAgentState E ag =
     (case iceTime E ag of
        (now, ag1) \<Rightarrow>
          if STATUS_FAILED (ia_status ag1) then leaving (ia_status ag1) ICE_AGENT_STATE_CHECK_CONNECTION ag1
          else do {
            found \<leftarrow> findRef (\<lambda>p. Some (cp_state p = ICE_CANDIDATE_PAIR_STATE_SUCCEEDED)) (ia_pairs ag1) (iceCandidatePairs ag1);
            if found \<noteq> None then leaving STATUS_SUCCESS ICE_AGENT_STATE_CONNECTED ag1
            else leaving (if now \<ge> stateEndTime ag1 then STATUS_ICE_NO_CONNECTED_CANDIDATE_PAIR else STATUS_SUCCESS)
                   ICE_AGENT_STATE_CHECK_CONNECTION ag1 })"

definition executeCheckConnectionIceAgentState :: "'n ice_env \<Rightarrow> 'n ice_action" where
  "executeCheckConnectionIceAgentState E ag =
     do {
       (st, ag1) \<leftarrow> swallowing (chkAll
         ((if iceAgentState ag \<noteq> ICE_AGENT_STATE_CHECK_CONNECTION
           then [iceAgentCheckConnectionStateSetup E, enter ICE_AGENT_STATE_CHECK_CONNECTION] else []) @
          [iceAgentCheckCandidatePairConnection E])) ag;
       Some (st, if iceAgentStartTime ag1 = 0 then (case iceTime E ag1 of (now, ag2) \<Rightarrow> ag2\<lparr>iceAgentStartTime := now\<rparr>) else ag1) }"

definition fromConnectedIceAgentState :: "'n ice_from" where
  "fromConnectedIceAgentState ag = leaving (ia_status ag) ICE_AGENT_STATE_NOMINATING ag"

definition executeConnectedIceAgentState :: "'n ice_env \<Rightarrow> 'n ice_action" where
  "executeConnectedIceAgentState E = swallowing (chkAll [iceAgentConnectedStateSetup E, enter ICE_AGENT_STATE_CONNECTED])"

definition fromNominatingIceAgentState :: "'n ice_env \<Rightarrow> 'n ice_from" where
  "fromNominatingIceAgentState E ag =
     (case iceTime E ag of
        (now, ag1) \<Rightarrow>
          if STATUS_FAILED (ia_status ag1) then leaving (ia_status ag1) ICE_AGENT_STATE_NOMINATING ag1
          else do {
            found \<leftarrow> selectPair ag1;
            if found \<noteq> None then leaving STATUS_SUCCESS ICE_AGENT_STATE_READY ag1
            else leaving (if now \<ge> stateEndTime ag1 then STATUS_ICE_FAILED_TO_NOMINATE_CANDIDATE_PAIR else STATUS_SUCCESS)
                   ICE_AGENT_STATE_NOMINATING ag1 })"

definition executeNominatingIceAgentState :: "'n ice_env \<Rightarrow> 'n ice_action" where
  "executeNominatingIceAgentState E ag =
     swallowing (chkAll
       ((if iceAgentState ag \<noteq> ICE_AGENT_STATE_NOMINATING then [iceAgentNominatingStateSetup E, enter ICE_AGENT_STATE_NOMINATING] else []) @
        [if isControlling ag then iceAgentSendCandidateNomination E else iceAgentCheckCandidatePairConnection E])) ag"

definition fromReadyIceAgentState :: "'n ice_env \<Rightarrow> 'n ice_from" where
  "fromReadyIceAgentState E ag =
     (if STATUS_FAILED (ia_status ag) then leaving (ia_status ag) ICE_AGENT_STATE_READY ag
      else case iceAgentStateMachineCheckDisconnection E ICE_AGENT_STATE_READY ag of (st, s, ag1) \<Rightarrow> leaving st s ag1)"

text \<open>TURN connections that have shut down are freed with their candidates.\<close>

definition reapCandidate :: "'n ice_env \<Rightarrow> nat \<Rightarrow> 'n ice_action" where
  "reapCandidate E l ag =
     do {
       c \<leftarrow> ia_cands ag l;
       if cd_type c = ICE_CANDIDATE_TYPE_RELAYED \<and> ie_turnConnectionIsShutdownComplete E (cd_turn c) (ia_world ag)
       then (case ie_freeTurnConnection E (cd_turn c) (ia_world ag) of
               (_, w) \<Rightarrow> Some (STATUS_SUCCESS, ag\<lparr>ia_world := w, ia_cands := (ia_cands ag)(l := None), localCandidates := removeAll l (localCandidates ag)\<rparr>))
       else Some (STATUS_SUCCESS, ag) }"

definition executeReadyIceAgentState :: "'n ice_env \<Rightarrow> 'n ice_action" where
  "executeReadyIceAgentState E ag =
     do {
       (st, ag1) \<leftarrow> swallowing (chkAll
         ((if iceAgentState ag \<noteq> ICE_AGENT_STATE_READY then [iceAgentReadyStateSetup E, enter ICE_AGENT_STATE_READY] else []) @
          [\<lambda>ag. chkAll (map (reapCandidate E) (localCandidates ag)) ag])) ag;
       Some (st, ag1\<lparr>iceAgentStartTime := 0\<rparr>) }"

definition fromDisconnectedIceAgentState :: "'n ice_from" where
  "fromDisconnectedIceAgentState ag = leaving (ia_status ag) (iceAgentState ag) ag"

text \<open>The disconnected state steps the machine itself; \<open>step\<close> is \<^verbatim>\<open>stepStateMachine\<close>.\<close>

definition executeDisconnectedIceAgentState ::
  "'n ice_env \<Rightarrow> (ICE_AGENT_STATE \<Rightarrow> 'n IceAgent \<Rightarrow> (STATUS \<times> ICE_AGENT_STATE \<times> 'n IceAgent) option) \<Rightarrow> 'n ice_from" where
  "executeDisconnectedIceAgentState E step ag =
     (if iceAgentState ag = ICE_AGENT_STATE_DISCONNECTED then Some (STATUS_SUCCESS, ICE_AGENT_STATE_DISCONNECTED, ag)
      else case iceTime E ag of
        (now, ag1) \<Rightarrow> do {
          (st, s, ag2) \<leftarrow> step ICE_AGENT_STATE_DISCONNECTED
             (notifyState ICE_AGENT_STATE_DISCONNECTED
               (ag1\<lparr>detectedDisconnection := True, disconnectionGracePeriodEndTime := wrap64 (now + KVS_ICE_ENTER_STATE_FAILED_GRACE_PERIOD)\<rparr>));
          Some (STATUS_SUCCESS, s, if STATUS_FAILED st then ag2\<lparr>ia_status := st\<rparr> else ag2) })"

definition fromFailedIceAgentState :: "'n ice_from" where
  "fromFailedIceAgentState ag = Some (STATUS_SUCCESS, ICE_AGENT_STATE_FAILED, ag)"

definition executeFailedIceAgentState :: "'n ice_action" where
  "executeFailedIceAgentState = enter ICE_AGENT_STATE_FAILED"

subsection \<open>The table\<close>

definition iceNext :: "'n ice_env \<Rightarrow> ICE_AGENT_STATE \<Rightarrow> 'n ice_from" where
  "iceNext E s =
     (case s of
        ICE_AGENT_STATE_NEW \<Rightarrow> fromNewIceAgentState
      | ICE_AGENT_STATE_CHECK_CONNECTION \<Rightarrow> fromCheckConnectionIceAgentState E
      | ICE_AGENT_STATE_CONNECTED \<Rightarrow> fromConnectedIceAgentState
      | ICE_AGENT_STATE_NOMINATING \<Rightarrow> fromNominatingIceAgentState E
      | ICE_AGENT_STATE_READY \<Rightarrow> fromReadyIceAgentState E
      | ICE_AGENT_STATE_DISCONNECTED \<Rightarrow> fromDisconnectedIceAgentState
      | ICE_AGENT_STATE_FAILED \<Rightarrow> fromFailedIceAgentState
      | ICE_AGENT_STATE_NONE \<Rightarrow> (\<lambda>ag. None))"

definition iceAccepts :: "ICE_AGENT_STATE \<Rightarrow> ICE_AGENT_STATE list" where
  "iceAccepts s =
     (case s of
        ICE_AGENT_STATE_NEW \<Rightarrow> [ICE_AGENT_STATE_NONE, ICE_AGENT_STATE_NEW]
      | ICE_AGENT_STATE_CHECK_CONNECTION \<Rightarrow> [ICE_AGENT_STATE_NEW, ICE_AGENT_STATE_CHECK_CONNECTION]
      | ICE_AGENT_STATE_CONNECTED \<Rightarrow> [ICE_AGENT_STATE_CHECK_CONNECTION, ICE_AGENT_STATE_CONNECTED]
      | ICE_AGENT_STATE_NOMINATING \<Rightarrow> [ICE_AGENT_STATE_CONNECTED, ICE_AGENT_STATE_NOMINATING]
      | ICE_AGENT_STATE_READY \<Rightarrow> [ICE_AGENT_STATE_CONNECTED, ICE_AGENT_STATE_NOMINATING, ICE_AGENT_STATE_READY, ICE_AGENT_STATE_DISCONNECTED]
      | ICE_AGENT_STATE_DISCONNECTED \<Rightarrow> [ICE_AGENT_STATE_CHECK_CONNECTION, ICE_AGENT_STATE_CONNECTED, ICE_AGENT_STATE_NOMINATING,
          ICE_AGENT_STATE_READY, ICE_AGENT_STATE_DISCONNECTED]
      | ICE_AGENT_STATE_FAILED \<Rightarrow> [ICE_AGENT_STATE_CHECK_CONNECTION, ICE_AGENT_STATE_CONNECTED, ICE_AGENT_STATE_NOMINATING,
          ICE_AGENT_STATE_READY, ICE_AGENT_STATE_DISCONNECTED, ICE_AGENT_STATE_FAILED]
      | ICE_AGENT_STATE_NONE \<Rightarrow> [])"

definition iceExecute ::
  "'n ice_env \<Rightarrow> (ICE_AGENT_STATE \<Rightarrow> 'n IceAgent \<Rightarrow> (STATUS \<times> ICE_AGENT_STATE \<times> 'n IceAgent) option) \<Rightarrow> ICE_AGENT_STATE \<Rightarrow> 'n ice_from" where
  "iceExecute E step s =
     (case s of
        ICE_AGENT_STATE_NEW \<Rightarrow> staying s executeNewIceAgentState
      | ICE_AGENT_STATE_CHECK_CONNECTION \<Rightarrow> staying s (executeCheckConnectionIceAgentState E)
      | ICE_AGENT_STATE_CONNECTED \<Rightarrow> staying s (executeConnectedIceAgentState E)
      | ICE_AGENT_STATE_NOMINATING \<Rightarrow> staying s (executeNominatingIceAgentState E)
      | ICE_AGENT_STATE_READY \<Rightarrow> staying s (executeReadyIceAgentState E)
      | ICE_AGENT_STATE_DISCONNECTED \<Rightarrow> executeDisconnectedIceAgentState E step
      | ICE_AGENT_STATE_FAILED \<Rightarrow> staying s executeFailedIceAgentState
      | ICE_AGENT_STATE_NONE \<Rightarrow> (\<lambda>ag. None))"

definition ICE_AGENT_STATE_MACHINE_STATES ::
  "'n ice_env \<Rightarrow> (ICE_AGENT_STATE \<Rightarrow> 'n IceAgent \<Rightarrow> (STATUS \<times> ICE_AGENT_STATE \<times> 'n IceAgent) option) \<Rightarrow> (ICE_AGENT_STATE, 'n IceAgent) machine" where
  "ICE_AGENT_STATE_MACHINE_STATES E step =
     \<lparr>sm_next = iceNext E, sm_accepts = iceAccepts, sm_execute = iceExecute E step, sm_status = (\<lambda>s. STATUS_ICE_INVALID_STATE)\<rparr>"

text \<open>
  The driver: steps until the state of the agent no longer changes, and into the failed state when
  a status was recorded.  Resetting the retry count of the machine is taken to succeed.  The fuel bounds
  the rounds; the outer \<open>None\<close> says that it ran out.
\<close>

definition iceRound ::
  "(ICE_AGENT_STATE \<Rightarrow> 'n IceAgent \<Rightarrow> (STATUS \<times> ICE_AGENT_STATE \<times> 'n IceAgent) option) \<Rightarrow> ICE_AGENT_STATE \<Rightarrow> 'n ice_from" where
  "iceRound step cur ag =
     do {
       (st, s, ag1) \<leftarrow> step cur ag;
       if STATUS_FAILED st then Some (st, s, ag1)
       else if iceAgentState ag1 \<noteq> ICE_AGENT_STATE_FAILED \<and> STATUS_FAILED (ia_status ag1) then step s ag1
       else Some (STATUS_SUCCESS, s, ag1) }"

fun stepIceAgentStateMachine ::
  "nat \<Rightarrow> (ICE_AGENT_STATE \<Rightarrow> 'n IceAgent \<Rightarrow> (STATUS \<times> ICE_AGENT_STATE \<times> 'n IceAgent) option) \<Rightarrow> ICE_AGENT_STATE \<Rightarrow> 'n IceAgent \<Rightarrow>
   (STATUS \<times> ICE_AGENT_STATE \<times> 'n IceAgent) option option" where
  "stepIceAgentStateMachine 0 step cur ag = None"
| "stepIceAgentStateMachine (Suc fuel) step cur ag =
     (case iceRound step cur ag of
        None \<Rightarrow> Some None
      | Some (st, s, ag1) \<Rightarrow>
          if STATUS_FAILED st then Some (Some (st, s, ag1))
          else if iceAgentState ag1 \<noteq> iceAgentState ag
          then stepIceAgentStateMachine fuel step s (notifyState (iceAgentState ag1) ag1)
          else Some (Some (STATUS_SUCCESS, s, ag1)))"

definition iceAgentStateTransitionTimerCallback ::
  "nat \<Rightarrow> (ICE_AGENT_STATE \<Rightarrow> 'n IceAgent \<Rightarrow> (STATUS \<times> ICE_AGENT_STATE \<times> 'n IceAgent) option) \<Rightarrow> ICE_AGENT_STATE \<Rightarrow> 'n IceAgent \<Rightarrow>
   (STATUS \<times> ICE_AGENT_STATE \<times> 'n IceAgent) option option" where
  "iceAgentStateTransitionTimerCallback fuel step cur ag =
     map_option (map_option (\<lambda>(st, s, ag1). (st, s, if STATUS_FAILED st then iceAgentFatalError st ag1 else ag1)))
       (stepIceAgentStateMachine fuel step cur ag)"

definition iceAgentStateToString :: "ICE_AGENT_STATE \<Rightarrow> string" where
  "iceAgentStateToString s =
     (case s of
        ICE_AGENT_STATE_NONE \<Rightarrow> ''ICE_AGENT_STATE_NONE''
      | ICE_AGENT_STATE_NEW \<Rightarrow> ''ICE_AGENT_STATE_NEW''
      | ICE_AGENT_STATE_CHECK_CONNECTION \<Rightarrow> ''ICE_AGENT_STATE_CHECK_CONNECTION''
      | ICE_AGENT_STATE_CONNECTED \<Rightarrow> ''ICE_AGENT_STATE_CONNECTED''
      | ICE_AGENT_STATE_NOMINATING \<Rightarrow> ''ICE_AGENT_STATE_NOMINATING''
      | ICE_AGENT_STATE_READY \<Rightarrow> ''ICE_AGENT_STATE_READY''
      | ICE_AGENT_STATE_DISCONNECTED \<Rightarrow> ''ICE_AGENT_STATE_DISCONNECTED''
      | ICE_AGENT_STATE_FAILED \<Rightarrow> ''ICE_AGENT_STATE_FAILED'')"

end
