(* ===== verification/IceInvariants.thy ===== *)
theory IceInvariants
  imports IceStateMachine
begin

text \<open>
  What every operation of the ICE agent keeps: the list of pairs is sorted by priority, its references
  are valid and distinct; errors stay recorded; only the state machine moves the agent's state.
\<close>

subsection \<open>The invariant\<close>

definition pair_prio :: "'n IceAgent \<Rightarrow> nat \<Rightarrow> nat" where
  "pair_prio ag r = cp_priority (the (ia_pairs ag r))"

definition pairs_inv :: "'n IceAgent \<Rightarrow> bool" where
  "pairs_inv ag \<longleftrightarrow>
     distinct (iceCandidatePairs ag) \<and> (\<forall>r \<in> set (iceCandidatePairs ag). ia_pairs ag r \<noteq> None) \<and>
     sorted_wrt (\<lambda>r q. pair_prio ag q \<le> pair_prio ag r) (iceCandidatePairs ag) \<and>
     (\<forall>r. ia_pairs ag r \<noteq> None \<longrightarrow> r < ia_next ag) \<and> (\<forall>c. ia_cands ag c \<noteq> None \<longrightarrow> c < ia_next ag) \<and>
     (\<forall>r. pDataSending ag = Some r \<longrightarrow> r < ia_next ag)"

text \<open>After a restart the old data pair is outside the list.\<close>

definition detached :: "'n IceAgent \<Rightarrow> bool" where
  "detached ag \<longleftrightarrow> (\<forall>r. pDataSending ag = Some r \<longrightarrow> r \<notin> set (iceCandidatePairs ag))"

text \<open>The relation between the agent before and after an operation that leaves its state alone.\<close>

definition keeps :: "'n IceAgent \<Rightarrow> 'n IceAgent \<Rightarrow> bool" where
  "keeps ag ag' \<longleftrightarrow>
     iceAgentState ag' = iceAgentState ag \<and> pDataSending ag' = pDataSending ag \<and>
     (STATUS_FAILED (ia_status ag) \<longrightarrow> STATUS_FAILED (ia_status ag')) \<and>
     (pairs_inv ag \<longrightarrow> pairs_inv ag' \<and> (detached ag \<longrightarrow> detached ag'))"

named_theorems keeps_intros \<open>operations that keep the invariant\<close>

lemma keeps_refl [simp]: "keeps ag ag"
  by (simp add: keeps_def)

lemma keeps_trans: "keeps a b \<Longrightarrow> keeps b c \<Longrightarrow> keeps a c"
  by (auto simp: keeps_def)

text \<open>The list of pairs and the priorities are all that the invariant sees.\<close>

lemma pairs_inv_cong:
  assumes "iceCandidatePairs ag' = iceCandidatePairs ag" "ia_next ag' = ia_next ag"
    "\<And>r. map_option cp_priority (ia_pairs ag' r) = map_option cp_priority (ia_pairs ag r)"
    "\<And>c. ia_cands ag' c \<noteq> None \<Longrightarrow> ia_cands ag c \<noteq> None" "pDataSending ag' = pDataSending ag"
  shows "pairs_inv ag \<Longrightarrow> pairs_inv ag'"
proof -
  assume inv: "pairs_inv ag"
  have some: "ia_pairs ag' r = None \<longleftrightarrow> ia_pairs ag r = None" for r using assms(3) [of r] by (metis map_option_is_None)
  have prio: "pair_prio ag' r = pair_prio ag r" if "ia_pairs ag r \<noteq> None" for r
    using that some [of r] assms(3) [of r] by (auto simp: pair_prio_def)
  have "sorted_wrt (\<lambda>r q. pair_prio ag' q \<le> pair_prio ag' r) (iceCandidatePairs ag)"
    by (rule sorted_wrt_mono_rel [of "iceCandidatePairs ag" "\<lambda>r q. pair_prio ag q \<le> pair_prio ag r"]) (use inv prio in \<open>auto simp: pairs_inv_def\<close>)
  then show ?thesis using inv assms(1,2,4,5) some unfolding pairs_inv_def by metis
qed

lemma keeps_fields:
  "iceAgentState ag' = iceAgentState ag \<Longrightarrow> pDataSending ag' = pDataSending ag \<Longrightarrow> ia_status ag' = ia_status ag \<Longrightarrow>
   iceCandidatePairs ag' = iceCandidatePairs ag \<Longrightarrow> ia_next ag' = ia_next ag \<Longrightarrow> ia_pairs ag' = ia_pairs ag \<Longrightarrow> ia_cands ag' = ia_cands ag \<Longrightarrow>
   keeps ag ag'"
  unfolding keeps_def using pairs_inv_cong [of ag' ag] by (auto simp: detached_def)

lemma updatePair_keeps:
  assumes "updatePair r f ag = Some ag'" "\<And>p. cp_priority (f p) = cp_priority p"
  shows "keeps ag ag'"
proof -
  obtain p where p: "ia_pairs ag r = Some p" "ag' = ag\<lparr>ia_pairs := (ia_pairs ag)(r \<mapsto> f p)\<rparr>"
    using assms(1) by (auto simp: updatePair_def bind_eq_Some_conv)
  have "pairs_inv ag \<longrightarrow> pairs_inv ag'"
    using p assms(2) by (intro impI pairs_inv_cong [of ag' ag]) auto
  then show ?thesis by (simp add: keeps_def detached_def p)
qed

lemma updateCandidate_keeps:
  assumes "updateCandidate r f ag = Some ag'"
  shows "keeps ag ag'"
proof -
  obtain c where c: "ia_cands ag r = Some c" "ag' = ag\<lparr>ia_cands := (ia_cands ag)(r \<mapsto> f c)\<rparr>"
    using assms by (auto simp: updateCandidate_def bind_eq_Some_conv)
  have "pairs_inv ag \<longrightarrow> pairs_inv ag'"
    using c by (intro impI pairs_inv_cong [of ag' ag]) (auto split: if_splits)
  then show ?thesis by (simp add: keeps_def detached_def c)
qed

lemma setState_prio [simp]: "cp_priority (setState s p) = cp_priority p"
  by (simp add: setState_def)

subsection \<open>Inserting pairs\<close>

lemma insertRef_sorted:
  assumes "insertRef mem prio r qs = Some rs" "\<And>x. f x = cp_priority (the (mem x))" "f r = prio"
    "sorted_wrt (\<lambda>a b. f b \<le> f a) qs"
  shows "set rs = insert r (set qs) \<and> sorted_wrt (\<lambda>a b. f b \<le> f a) rs \<and> length rs = Suc (length qs)"
  using assms
proof (induction qs arbitrary: rs)
  case (Cons q qs)
  obtain c where c: "mem q = Some c" using Cons.prems(1) by (auto simp: bind_eq_Some_conv)
  show ?case
  proof (cases "cp_priority c \<le> prio")
    case True
    then have "f q \<le> f r" using Cons.prems(2,3) c by simp
    moreover have "rs = r # q # qs" "\<forall>x \<in> set qs. f x \<le> f q" "sorted_wrt (\<lambda>a b. f b \<le> f a) qs"
      using Cons.prems(1,4) c True by auto
    ultimately show ?thesis by (fastforce dest: order_trans)
  next
    case False
    then obtain rest where rest: "insertRef mem prio r qs = Some rest" "rs = q # rest"
      using Cons.prems(1) c by (auto simp: bind_eq_Some_conv)
    with Cons.IH [OF rest(1)] Cons.prems False c show ?thesis by auto
  qed
qed auto

lemma newPair_keeps:
  assumes "newPair P n l r ag = Some (st, ag')"
  shows "keeps ag ag'"
proof (cases "pairs_inv ag")
  case False
  with assms show ?thesis
    by (auto simp: newPair_def keeps_def bind_eq_Some_conv Let_def insertIceCandidatePair_def split: if_splits prod.splits)
next
  case True
  show ?thesis
  proof (cases "ag' = ag")
    case False
    obtain p refs where p: "ag' = ag\<lparr>ia_pairs := (ia_pairs ag)(ia_next ag \<mapsto> p), ia_next := ia_next ag + 1, iceCandidatePairs := refs\<rparr>"
      and ins: "insertRef ((ia_pairs ag)(ia_next ag \<mapsto> p)) (cp_priority p) (ia_next ag) (iceCandidatePairs ag) = Some refs"
      using assms False
      by (auto simp: newPair_def bind_eq_Some_conv Let_def insertIceCandidatePair_def split: if_splits prod.splits)
    let ?ag = "ag\<lparr>ia_pairs := (ia_pairs ag)(ia_next ag \<mapsto> p)\<rparr>"
    have new: "ia_next ag \<notin> set (iceCandidatePairs ag)" "ia_pairs ag (ia_next ag) = None"
      using True by (auto simp: pairs_inv_def)
    have prio: "pair_prio ?ag q = pair_prio ag q" if "q \<in> set (iceCandidatePairs ag)" for q
      using that new(1) by (auto simp: pair_prio_def)
    have "sorted_wrt (\<lambda>a b. pair_prio ?ag b \<le> pair_prio ?ag a) (iceCandidatePairs ag)"
      by (rule sorted_wrt_mono_rel [of _ "\<lambda>a b. pair_prio ag b \<le> pair_prio ag a"]) (use True prio in \<open>auto simp: pairs_inv_def\<close>)
    then have refs: "set refs = insert (ia_next ag) (set (iceCandidatePairs ag))"
        "sorted_wrt (\<lambda>a b. pair_prio ?ag b \<le> pair_prio ?ag a) refs" "length refs = Suc (length (iceCandidatePairs ag))"
      using insertRef_sorted [OF ins, of "pair_prio ?ag"] by (auto simp: pair_prio_def)
    have "distinct refs"
      using refs(1,3) new(1) True by (simp add: pairs_inv_def card_distinct distinct_card)
    moreover have "pair_prio ag' = pair_prio ?ag" by (simp add: p pair_prio_def fun_eq_iff)
    ultimately have "pairs_inv ag'"
      using True refs(1,2) unfolding pairs_inv_def by (auto simp: p less_Suc_eq)
    moreover have "detached ag \<Longrightarrow> detached ag'"
      using True refs(1) by (auto simp: detached_def pairs_inv_def p)
    ultimately show ?thesis by (simp add: keeps_def p)
  qed simp
qed

lemma pairWithEach_keeps: "pairWithEach P n c rem ds ag = Some (st, ag') \<Longrightarrow> keeps ag ag'"
proof (induction ds arbitrary: ag)
  case (Cons d ds)
  then show ?case
    by (fastforce simp: bind_eq_Some_conv split: if_splits dest: newPair_keeps intro: keeps_trans)
qed auto

lemma createIceCandidatePairs_keeps: "createIceCandidatePairs P n c rem ag = Some (st, ag') \<Longrightarrow> keeps ag ag'"
  by (auto simp: createIceCandidatePairs_def bind_eq_Some_conv split: if_splits dest: pairWithEach_keeps)


subsection \<open>Relations between the agent before and after\<close>

definition via :: "('s \<Rightarrow> 's \<Rightarrow> bool) \<Rightarrow> ('s \<Rightarrow> (STATUS \<times> 's) option) \<Rightarrow> bool" where
  "via R f \<longleftrightarrow> (\<forall>a st a'. f a = Some (st, a') \<longrightarrow> R a a')"

lemma viaI: "(\<And>a st a'. f a = Some (st, a') \<Longrightarrow> R a a') \<Longrightarrow> via R f"
  by (auto simp: via_def)

lemma viaD: "via R f \<Longrightarrow> f a = Some (st, a') \<Longrightarrow> R a a'"
  by (auto simp: via_def)

lemma chkAll_viaD: "chkAll fs a = Some (st, a') \<Longrightarrow> via R (chkAll fs) \<Longrightarrow> R a a'"
  by (auto simp: via_def)

lemma chkAll_Cons:
  assumes "chkAll (f # fs) a = Some (st, a')"
  obtains st1 a1 where "f a = Some (st1, a1)" "if STATUS_FAILED st1 then (st, a') = (st1, a1) else chkAll fs a1 = Some (st, a')"
  using assms by (auto simp: bind_eq_Some_conv split: if_splits)

locale step_closed =
  fixes R :: "'s \<Rightarrow> 's \<Rightarrow> bool"
  assumes refl: "R a a" and trans: "R a b \<Longrightarrow> R b c \<Longrightarrow> R a c"
begin

lemma chkAll_via: "(\<And>f. f \<in> set fs \<Longrightarrow> via R f) \<Longrightarrow> via R (chkAll fs)"
proof (induction fs)
  case (Cons f fs)
  show ?case
  proof (rule viaI)
    fix a st a' assume "chkAll (f # fs) a = Some (st, a')"
    then show "R a a'" by (rule chkAll_Cons) (use Cons in \<open>auto split: if_splits dest: viaD intro: trans\<close>)
  qed
qed (simp add: via_def refl)

lemma Nil_via: "via R (chkAll [])"
  by (simp add: via_def refl)

lemma Cons_via: "via R f \<Longrightarrow> via R (chkAll fs) \<Longrightarrow> via R (chkAll (f # fs))"
  unfolding via_def by (auto elim!: chkAll_Cons split: if_splits simp del: chkAll.simps) (metis trans)

lemma all_via: "(\<And>x. x \<in> set xs \<Longrightarrow> via R (g x)) \<Longrightarrow> chkAll (map g xs) a = Some (st, a') \<Longrightarrow> R a a'"
  using chkAll_via [of "map g xs"] by (auto dest: viaD)

end

interpretation kept: step_closed keeps
  by unfold_locales (auto intro: keeps_trans)

text \<open>Setting up a state may also choose the data pair.\<close>

definition sound :: "'n IceAgent \<Rightarrow> 'n IceAgent \<Rightarrow> bool" where
  "sound ag ag' \<longleftrightarrow>
     iceAgentState ag' = iceAgentState ag \<and> (STATUS_FAILED (ia_status ag) \<longrightarrow> STATUS_FAILED (ia_status ag')) \<and>
     (pairs_inv ag \<longrightarrow> pairs_inv ag')"

interpretation settled: step_closed sound
  by unfold_locales (auto simp: sound_def)

lemma keeps_sound: "keeps ag ag' \<Longrightarrow> sound ag ag'"
  by (simp add: keeps_def sound_def)

lemma via_keeps_sound: "via keeps f \<Longrightarrow> via sound f"
  by (auto simp: via_def keeps_sound)

subsection \<open>The building blocks\<close>

lemma outside_keeps: "via keeps (outside f)"
  by (rule viaI, rule keeps_fields) (auto simp: outside_def split: prod.splits)

lemma timer_keeps: "keeps ag (ag\<lparr>ia_world := w, keepAliveTimerTask := t\<rparr>)" "keeps ag (ag\<lparr>ia_world := w, iceAgentStateTimerTask := t\<rparr>)"
  "keeps ag (ag\<lparr>ia_world := w\<rparr>)"
  by (rule keeps_fields; simp)+

lemma startTimer_keeps:
  "via keeps (startTimer E (\<lambda>t ag. ag\<lparr>keepAliveTimerTask := t\<rparr>))" "via keeps (startTimer E (\<lambda>t ag. ag\<lparr>iceAgentStateTimerTask := t\<rparr>))"
  by (auto intro!: viaI simp: startTimer_def timer_keeps split: prod.splits)

lemma iceTime_keeps: "iceTime E ag = (now, ag') \<Longrightarrow> keeps ag ag'"
  by (rule keeps_fields) (auto simp: iceTime_def split: prod.splits)

lemma status_keeps: "STATUS_FAILED st \<Longrightarrow> keeps ag (ag\<lparr>ia_status := st\<rparr>)"
  using pairs_inv_cong [of "ag\<lparr>ia_status := st\<rparr>" ag] by (auto simp: keeps_def detached_def)

lemma status_sound: "STATUS_FAILED st \<Longrightarrow> sound ag (ag\<lparr>ia_status := st\<rparr>)"
  by (simp add: keeps_sound status_keeps)

lemma recording_keeps:
  assumes "via keeps f"
  shows "via keeps (recording f)"
proof (rule viaI)
  fix ag st ag' assume "recording f ag = Some (st, ag')"
  then obtain ag1 where "f ag = Some (st, ag1)" "ag' = (if STATUS_FAILED st then ag1\<lparr>ia_status := st\<rparr> else ag1)"
    by (auto simp: recording_def iceAgentFatalError_def bind_eq_Some_conv)
  with assms show "keeps ag ag'" by (auto dest: viaD intro: keeps_trans status_keeps)
qed

lemma recording_sound:
  assumes "via sound f"
  shows "via sound (recording f)"
proof (rule viaI)
  fix ag st ag' assume "recording f ag = Some (st, ag')"
  then obtain ag1 where "f ag = Some (st, ag1)" "ag' = (if STATUS_FAILED st then ag1\<lparr>ia_status := st\<rparr> else ag1)"
    by (auto simp: recording_def iceAgentFatalError_def bind_eq_Some_conv)
  with assms show "sound ag ag'" by (auto dest: viaD intro: settled.trans status_sound)
qed

lemma invalidatePairs_keeps: "invalidatePairs rs ag = Some ag' \<Longrightarrow> keeps ag ag'"
proof (induction rs arbitrary: ag)
  case (Cons r rs)
  then show ?case
    by (auto simp: bind_eq_Some_conv split: if_splits intro: keeps_trans [OF updatePair_keeps])
qed simp

lemma iceAgentInvalidateCandidatePair_keeps: "via keeps iceAgentInvalidateCandidatePair"
  by (rule viaI) (auto simp: iceAgentInvalidateCandidatePair_def bind_eq_Some_conv intro: invalidatePairs_keeps)

lemma freezePairs_keeps: "freezePairs rs ag = Some ag' \<Longrightarrow> keeps ag ag'"
proof (induction rs arbitrary: ag)
  case (Cons r rs)
  then show ?case
    by (auto simp: bind_eq_Some_conv split: if_splits intro: keeps_trans [OF updatePair_keeps])
qed simp

lemma thawPairs_keeps: "thawPairs rs ag = Some ag' \<Longrightarrow> keeps ag ag'"
proof (induction rs arbitrary: ag)
  case (Cons r rs)
  then show ?case
    by (auto simp: bind_eq_Some_conv intro: keeps_trans [OF updatePair_keeps])
qed simp

lemma iceAgentNominateCandidatePair_keeps: "via keeps iceAgentNominateCandidatePair"
proof (rule viaI)
  fix ag :: "'n IceAgent" and st ag' assume a: "iceAgentNominateCandidatePair ag = Some (st, ag')"
  show "keeps ag ag'"
  proof (cases "ag' = ag")
    case False
    with a obtain r ag1 where
      upd: "updatePair r (\<lambda>p. p\<lparr>cp_nominated := True, cp_ids := map_option transactionIdStoreClear (cp_ids p)\<rparr>) ag = Some ag1"
      and "freezePairs (iceCandidatePairs ag1) ag1 = Some ag'"
      by (auto simp: iceAgentNominateCandidatePair_def bind_eq_Some_conv split: if_splits option.splits)
    moreover have "keeps ag ag1" by (rule updatePair_keeps [OF upd]) simp
    ultimately show ?thesis by (blast intro: keeps_trans freezePairs_keeps)
  qed simp
qed


subsection \<open>A calculus for results\<close>

text \<open>
  \<open>result_in get Q m\<close>: whatever the computation \<open>m\<close> returns satisfies \<open>Q\<close> in its component \<open>get\<close>; one rule
  per construct of the code.
\<close>

definition result_in :: "('x \<Rightarrow> 'y) \<Rightarrow> ('y \<Rightarrow> bool) \<Rightarrow> (STATUS \<times> 'x) option \<Rightarrow> bool" where
  "result_in get Q m \<longleftrightarrow> (\<forall>st x. m = Some (st, x) \<longrightarrow> Q (get x))"

abbreviation keeping_in :: "('x \<Rightarrow> 'n IceAgent) \<Rightarrow> 'n IceAgent \<Rightarrow> (STATUS \<times> 'x) option \<Rightarrow> bool" where
  "keeping_in get a \<equiv> result_in get (keeps a)"

abbreviation keeping :: "'n IceAgent \<Rightarrow> (STATUS \<times> 'n IceAgent) option \<Rightarrow> bool" where
  "keeping a \<equiv> result_in (\<lambda>x. x) (keeps a)"

lemma result_Some: "Q (get b) \<Longrightarrow> result_in get Q (Some (st, b))"
  by (simp add: result_in_def)

lemma result_None: "result_in get Q None"
  by (simp add: result_in_def)

lemma result_bind: "(\<And>x. m = Some x \<Longrightarrow> result_in get Q (f x)) \<Longrightarrow> result_in get Q (m \<bind> f)"
  by (auto simp: result_in_def bind_eq_Some_conv)

lemma result_if: "(b \<Longrightarrow> result_in get Q m) \<Longrightarrow> (\<not> b \<Longrightarrow> result_in get Q n) \<Longrightarrow> result_in get Q (if b then m else n)"
  by simp

lemma result_prod: "(\<And>x y. p = (x, y) \<Longrightarrow> result_in get Q (f x y)) \<Longrightarrow> result_in get Q (case p of (x, y) \<Rightarrow> f x y)"
  by (auto split: prod.splits)

lemma result_option:
  "(x = None \<Longrightarrow> result_in get Q m) \<Longrightarrow> (\<And>y. x = Some y \<Longrightarrow> result_in get Q (f y)) \<Longrightarrow>
   result_in get Q (case x of None \<Rightarrow> m | Some y \<Rightarrow> f y)"
  by (auto split: option.splits)

lemma result_let: "result_in get Q (f e) \<Longrightarrow> result_in get Q (let x = e in f x)"
  by simp

lemma via_result: "(\<And>a. result_in (\<lambda>x. x) (R a) (f a)) \<Longrightarrow> via R f"
  by (auto simp: result_in_def via_def)

lemma keeping_call: "via keeps f \<Longrightarrow> keeps a b \<Longrightarrow> keeping a (f b)"
  by (auto simp: result_in_def intro: keeps_trans dest: viaD)

lemma via_keeping: "(\<And>a. keeping a (f a)) \<Longrightarrow> via keeps f"
  by (auto simp: result_in_def via_def)

lemma via_keeping_in: "(\<And>x. keeping_in get (get x) (f x)) \<Longrightarrow> via (\<lambda>x y. keeps (get x) (get y)) f"
  by (auto simp: result_in_def via_def)

lemmas keeping_rules = result_Some result_None result_bind result_if result_prod result_option result_let

text \<open>Continuing after an update.\<close>

lemma after_updatePair: "updatePair r f b = Some c \<Longrightarrow> keeps a b \<Longrightarrow> (\<And>p. cp_priority (f p) = cp_priority p) \<Longrightarrow> keeps a c"
  by (blast intro: keeps_trans updatePair_keeps)

lemma after_updateCandidate: "updateCandidate r f b = Some c \<Longrightarrow> keeps a b \<Longrightarrow> keeps a c"
  by (blast intro: keeps_trans updateCandidate_keeps)

lemma after_time: "iceTime E b = (now, c) \<Longrightarrow> keeps a b \<Longrightarrow> keeps a c"
  by (blast intro: keeps_trans iceTime_keeps)

lemma after_world: "keeps a b \<Longrightarrow> keeps a (b\<lparr>ia_world := w\<rparr>)"
  by (rule keeps_trans, assumption, rule keeps_fields) simp_all

lemma after_request: "keeps a b \<Longrightarrow> keeps a (b\<lparr>pBindingRequest := pk\<rparr>)"
  by (rule keeps_trans, assumption, rule keeps_fields) simp_all

lemma after_queue: "keeps a b \<Longrightarrow> keeps a (b\<lparr>triggeredCheckQueue := q\<rparr>)"
  by (rule keeps_trans, assumption, rule keeps_fields) simp_all

lemma after_end: "keeps a b \<Longrightarrow> keeps a (b\<lparr>stateEndTime := x\<rparr>)"
  by (rule keeps_trans, assumption, rule keeps_fields) simp_all

lemma after_call: "f b = Some (st, c) \<Longrightarrow> via keeps f \<Longrightarrow> keeps a b \<Longrightarrow> keeps a c"
  by (blast intro: keeps_trans dest: viaD)

subsection \<open>Checks, keep-alives and nominations\<close>

text \<open>What a closed connection does to its candidate and the pairs of it.\<close>

lemma closing_keeps:
  "(if st = STATUS_SOCKET_CONNECTION_CLOSED_ALREADY
    then do { b \<leftarrow> updateCandidate l f ag; (_, c) \<leftarrow> iceAgentInvalidateCandidatePair b; Some c } else Some ag) = Some ag' \<Longrightarrow> keeps ag ag'"
  by (auto simp: bind_eq_Some_conv split: if_splits
      dest!: updateCandidate_keeps viaD [OF iceAgentInvalidateCandidatePair_keeps] intro: keeps_trans)

lemma after_closing:
  "(if st = STATUS_SOCKET_CONNECTION_CLOSED_ALREADY
    then do { b \<leftarrow> updateCandidate l f ag; (_, c) \<leftarrow> iceAgentInvalidateCandidatePair b; Some c } else Some ag) = Some ag' \<Longrightarrow>
   keeps a ag \<Longrightarrow> keeps a ag'"
  by (blast intro: keeps_trans closing_keeps)

lemmas after_elims = after_time after_updatePair after_updateCandidate after_closing
lemmas after_intros = after_world after_request after_queue after_end keeps_refl setState_prio

lemma iceAgentSendStunPacket_keeps: "via keeps (iceAgentSendStunPacket E pk pw n l dest)"
  unfolding iceAgentSendStunPacket_def
  by (intro via_keeping keeping_rules) (simp_all, (erule after_elims | rule after_intros | simp)+)

lemma iceCandidatePairCheckConnection_keeps: "via keeps (iceCandidatePairCheckConnection E r)"
  unfolding iceCandidatePairCheckConnection_def
  by (intro via_keeping keeping_rules keeping_call [OF iceAgentSendStunPacket_keeps])
    (simp_all, (erule after_elims | rule after_intros | simp)+)

lemma checkPair_keeps: "via keeps (checkPair E r)"
  unfolding checkPair_def
  by (intro via_keeping keeping_rules keeping_call [OF iceCandidatePairCheckConnection_keeps])
    ((erule after_elims | rule after_intros)+)

lemma iceAgentCheckCandidatePairConnection_keeps: "via keeps (iceAgentCheckCandidatePairConnection E)"
  unfolding iceAgentCheckCandidatePairConnection_def
proof (intro recording_keeps viaI)
  fix ag st ag'
  assume "(case triggeredCheckQueue ag of [] \<Rightarrow> chkAll (map (checkPair E) (iceCandidatePairs ag)) ag
           | r # rs \<Rightarrow> iceCandidatePairCheckConnection E r (ag\<lparr>triggeredCheckQueue := rs\<rparr>)) = Some (st, ag')"
  then show "keeps ag ag'"
    by (auto split: list.splits intro: kept.all_via [OF checkPair_keeps]
        elim!: after_call [OF _ iceCandidatePairCheckConnection_keeps] intro!: after_queue)
qed

lemma keepAlive_keeps: "via keeps (keepAlive E now r)"
  unfolding keepAlive_def
  by (intro via_keeping keeping_rules keeping_call [OF iceAgentSendStunPacket_keeps])
    (simp_all, (erule after_elims | rule after_intros | simp)+)

lemma iceAgentSendKeepAliveTimerCallback_keeps: "via keeps (iceAgentSendKeepAliveTimerCallback E now)"
  unfolding iceAgentSendKeepAliveTimerCallback_def
  by (intro recording_keeps viaI) (rule kept.all_via [OF keepAlive_keeps])

lemma nominatePair_keeps: "via keeps (nominatePair E r)"
  unfolding nominatePair_def
  by (intro via_keeping keeping_rules keeping_call [OF iceCandidatePairCheckConnection_keeps]) (rule after_intros)+

lemma iceAgentSendCandidateNomination_keeps: "via keeps (iceAgentSendCandidateNomination E)"
  unfolding iceAgentSendCandidateNomination_def
  by (intro recording_keeps viaI) (auto split: if_splits intro: kept.all_via [OF nominatePair_keeps])

subsection \<open>Setting up the states\<close>

lemma onRequest_keeps: "via keeps (onRequest f)"
  unfolding onRequest_def by (intro via_keeping keeping_rules) (rule after_intros)+

lemma createRequest_keeps: "via keeps (createRequest E)"
  unfolding createRequest_def by (intro via_keeping keeping_rules) (rule after_intros)+

lemma endState_keeps: "via keeps (endState E t)"
  unfolding endState_def by (intro via_keeping keeping_rules after_end) (erule after_elims, rule keeps_refl)

lemma iceAgentCheckConnectionStateSetup_keeps: "via keeps (iceAgentCheckConnectionStateSetup E)"
  unfolding iceAgentCheckConnectionStateSetup_def
proof (intro recording_keeps via_keeping result_bind)
  fix ag ag1 :: "'a IceAgent" assume "thawPairs (iceCandidatePairs ag) ag = Some ag1"
  then have "keeps ag ag1" by (rule thawPairs_keeps)
  then show "keeping ag (chkAll
         [createRequest E,
          onRequest (\<lambda>pk. appendStunUsernameAttribute (ie_stun E) pk (Some (combinedUserName ag))),
          onRequest (\<lambda>pk. appendStunPriorityAttribute (ie_stun E) pk 0),
          onRequest (\<lambda>pk. appendStunIceControllAttribute (ie_stun E) pk
             (if isControlling ag then STUN_ATTRIBUTE_TYPE_ICE_CONTROLLING else STUN_ATTRIBUTE_TYPE_ICE_CONTROLLED) (tieBreaker ag)),
          endState E iceConnectionCheckTimeout] ag1)"
    by (intro keeping_call [OF kept.chkAll_via]) (auto intro: createRequest_keeps endState_keeps onRequest_keeps)
qed

lemma iceAgentNominatingStateSetup_keeps: "via keeps (iceAgentNominatingStateSetup E)"
  unfolding iceAgentNominatingStateSetup_def
  by (rule recording_keeps, rule via_keeping, rule keeping_call [OF kept.chkAll_via])
    (auto split: if_splits intro: createRequest_keeps endState_keeps onRequest_keeps iceAgentNominateCandidatePair_keeps)


lemma subset_sorted_wrt_filter: "sorted_wrt Q xs \<Longrightarrow> sorted_wrt Q (removeAll x xs)"
  by (induction xs) auto

lemma remove_keeps:
  assumes "freeIceCandidatePair r b = Some c" "keeps a b"
  shows "keeps a (c\<lparr>iceCandidatePairs := removeAll r (iceCandidatePairs c)\<rparr>)"
proof -
  have c: "c = b\<lparr>ia_pairs := (ia_pairs b)(r := None)\<rparr>" using assms(1) by (auto simp: freeIceCandidatePair_def bind_eq_Some_conv)
  let ?d = "c\<lparr>iceCandidatePairs := removeAll r (iceCandidatePairs c)\<rparr>"
  have "pairs_inv ?d" if inv: "pairs_inv b"
  proof -
    have "sorted_wrt (\<lambda>x y. pair_prio ?d y \<le> pair_prio ?d x) (removeAll r (iceCandidatePairs b))"
      by (rule sorted_wrt_mono_rel [of _ "\<lambda>x y. pair_prio b y \<le> pair_prio b x"])
        (use inv in \<open>auto simp: pairs_inv_def pair_prio_def c intro: subset_sorted_wrt_filter\<close>)
    then show ?thesis using inv by (auto simp: pairs_inv_def c distinct_removeAll)
  qed
  then have "keeps b ?d" by (auto simp: keeps_def c detached_def)
  then show ?thesis using assms(2) by (rule keeps_trans [rotated])
qed

lemma dropPairs_keeps: "dropPairs bad rs ag = Some ag' \<Longrightarrow> keeps ag ag'"
proof (induction rs arbitrary: ag)
  case (Cons r rs)
  then show ?case
    by (auto simp: bind_eq_Some_conv split: if_splits intro: keeps_trans [OF remove_keeps [OF _ keeps_refl]])
qed simp

lemma pruneUnconnectedIceCandidatePair_keeps: "via keeps pruneUnconnectedIceCandidatePair"
  by (rule viaI) (auto simp: pruneUnconnectedIceCandidatePair_def bind_eq_Some_conv intro: dropPairs_keeps)

lemma dropFailed_keeps: "via keeps dropFailed"
  by (rule viaI) (auto simp: dropFailed_def bind_eq_Some_conv intro: dropPairs_keeps)

lemma retireCandidate_keeps: "via keeps (retireCandidate E k l)"
  unfolding retireCandidate_def
proof (intro via_keeping keeping_rules keeps_refl)
  fix a c x st b
  assume "(if cd_type c = ICE_CANDIDATE_TYPE_RELAYED then outside (ie_turnConnectionShutdown E (cd_turn c) 0) a
           else Some (STATUS_SUCCESS, a)) = Some x" "x = (st, b)"
  then show *: "keeps a b" by (auto split: if_splits dest: viaD [OF outside_keeps])
  show "keeps a d" if "updateCandidate l (cd_state_update (\<lambda>_. ICE_CANDIDATE_STATE_INVALID)) b = Some d" for d
    using that * by (rule after_updateCandidate)
qed

lemma keepChosen_keeps: "via keeps (keepChosen E)"
  unfolding keepChosen_def
  by (rule via_keeping, intro keeping_rules keeping_call [OF kept.chkAll_via])
    (auto intro: retireCandidate_keeps after_end)


text \<open>Choosing the data pair: it is in the list.\<close>

lemma findRef_member: "findRef Q mem rs = Some (Some r) \<Longrightarrow> r \<in> set rs \<and> mem r \<noteq> None"
  by (induction rs) (auto simp: bind_eq_Some_conv split: if_splits)

lemma select_sound:
  assumes "selectPair ag = Some (Some r)"
  shows "sound ag (ag\<lparr>pDataSending := Some r, stopGathering := b\<rparr>)" "sound ag (ag\<lparr>pDataSending := Some r\<rparr>)"
proof -
  have "ia_pairs ag r \<noteq> None" using assms findRef_member unfolding selectPair_def by fast
  then show "sound ag (ag\<lparr>pDataSending := Some r, stopGathering := b\<rparr>)" "sound ag (ag\<lparr>pDataSending := Some r\<rparr>)"
    by (auto simp: sound_def pairs_inv_def pair_prio_def)
qed

lemma choosePair_sound: "via sound choosePair"
  by (rule viaI) (auto simp: choosePair_def bind_eq_Some_conv split: option.splits intro: select_sound settled.refl)

lemma iceAgentReadyStateSetup_sound: "via sound (iceAgentReadyStateSetup E)"
  unfolding iceAgentReadyStateSetup_def
  by (intro recording_sound settled.chkAll_via)
    (auto intro: choosePair_sound via_keeps_sound outside_keeps keepChosen_keeps iceAgentInvalidateCandidatePair_keeps dropFailed_keeps)

lemma retirePair_detached:
  assumes "retirePair E r (ag\<lparr>ia_restart := False, pDataSending := None\<rparr>) = Some (st, ag')" "pDataSending ag = Some r" "detached ag"
  shows "sound ag ag'"
proof -
  let ?b = "ag\<lparr>ia_restart := False, pDataSending := None\<rparr>"
  have b: "sound ag ?b" by (auto simp: sound_def pairs_inv_def pair_prio_def)
  have calls: "chkAll [outside f, outside g] a = Some (s, c) \<Longrightarrow> keeps a c \<and> iceCandidatePairs c = iceCandidatePairs a" for f g s and a c :: "'a IceAgent"
  proof
    show "chkAll [outside f, outside g] a = Some (s, c) \<Longrightarrow> keeps a c"
      by (rule viaD [OF kept.chkAll_via, of "[outside f, outside g]"]) (auto intro: outside_keeps simp del: chkAll.simps)
    show "chkAll [outside f, outside g] a = Some (s, c) \<Longrightarrow> iceCandidatePairs c = iceCandidatePairs a"
      by (cases "f (ia_world a)"; cases "g (snd (f (ia_world a)))") (auto simp: outside_def split: if_splits)
  qed
  obtain p l where "ia_pairs ag r = Some p" "ia_cands ag (cp_local p) = Some l"
    using assms(1) by (auto simp: retirePair_def bind_eq_Some_conv)
  then obtain c st1 where run: "(if cd_type l = ICE_CANDIDATE_TYPE_RELAYED
        then chkAll [outside (ie_turnConnectionShutdown E (cd_turn l) 10000000), outside (ie_freeTurnConnection E (cd_turn l))] ?b
        else chkAll [outside (ie_removeConnection E (cd_socket l)), outside (ie_freeSocketConnection E (cd_socket l))] ?b) = Some (st1, c)"
    and res: "ag' = c \<or> (\<exists>l. freeIceCandidatePair r (c\<lparr>ia_cands := (ia_cands c)(l := None)\<rparr>) = Some ag')"
    using assms(1) unfolding retirePair_def by (auto simp: bind_eq_Some_conv simp del: chkAll.simps split: if_split_asm)
  have c: "keeps ?b c" "iceCandidatePairs c = iceCandidatePairs ag"
    using run calls by (cases "cd_type l = ICE_CANDIDATE_TYPE_RELAYED"; fastforce)+
  have r: "r \<notin> set (iceCandidatePairs c)" using assms(2,3) c(2) by (auto simp: detached_def)
  have "sound c ag'" using res
  proof
    assume "\<exists>l. freeIceCandidatePair r (c\<lparr>ia_cands := (ia_cands c)(l := None)\<rparr>) = Some ag'"
    then obtain l where ag': "ag' = c\<lparr>ia_cands := (ia_cands c)(l := None), ia_pairs := (ia_pairs c)(r := None)\<rparr>"
      by (auto simp: freeIceCandidatePair_def bind_eq_Some_conv)
    have "sorted_wrt (\<lambda>x y. pair_prio ag' y \<le> pair_prio ag' x) (iceCandidatePairs c)" if "pairs_inv c"
      by (rule sorted_wrt_mono_rel [of _ "\<lambda>x y. pair_prio c y \<le> pair_prio c x"])
        (use that r in \<open>auto simp: pairs_inv_def pair_prio_def ag'\<close>)
    then show ?thesis using r by (auto simp: sound_def pairs_inv_def ag')
  qed (simp add: settled.refl)
  then show ?thesis using b keeps_sound [OF c(1)] by (blast intro: settled.trans)
qed

lemma iceAgentConnectedStateSetup_sound:
  assumes "iceAgentConnectedStateSetup E ag = Some (st, ag')" "detached ag"
  shows "sound ag ag'"
proof -
  obtain ag1 where run: "chkAll
       [(\<lambda>ag. case pDataSending ag of
                None \<Rightarrow> Some (STATUS_SUCCESS, ag)
              | Some r \<Rightarrow> retirePair E r (ag\<lparr>ia_restart := False, pDataSending := None\<rparr>)),
        (\<lambda>ag. do { found \<leftarrow> selectPair ag; Some (STATUS_SUCCESS, case found of None \<Rightarrow> ag | Some r \<Rightarrow> ag\<lparr>pDataSending := Some r\<rparr>) }),
        startTimer E (\<lambda>t ag. ag\<lparr>keepAliveTimerTask := t\<rparr>)] ag = Some (st, ag1)"
    and ag': "ag' = (if STATUS_FAILED st then ag1\<lparr>ia_status := st\<rparr> else ag1)"
    using assms(1) by (auto simp: iceAgentConnectedStateSetup_def recording_def iceAgentFatalError_def bind_eq_Some_conv)
  let ?rest = "[(\<lambda>ag. do { found \<leftarrow> selectPair ag; Some (STATUS_SUCCESS, case found of None \<Rightarrow> ag | Some r \<Rightarrow> ag\<lparr>pDataSending := Some r\<rparr>) }),
        startTimer E (\<lambda>t ag. ag\<lparr>keepAliveTimerTask := t\<rparr>)]"
  have "via sound (\<lambda>ag. do { found \<leftarrow> selectPair ag; Some (STATUS_SUCCESS, case found of None \<Rightarrow> ag | Some r \<Rightarrow> ag\<lparr>pDataSending := Some r\<rparr>) })"
    by (rule viaI) (auto simp: bind_eq_Some_conv settled.refl split: option.split_asm dest: select_sound(2))
  then have rest: "via sound (chkAll ?rest)"
    by (intro settled.chkAll_via) (auto intro: via_keeps_sound startTimer_keeps)
  obtain st1 b where "(case pDataSending ag of None \<Rightarrow> Some (STATUS_SUCCESS, ag)
       | Some r \<Rightarrow> retirePair E r (ag\<lparr>ia_restart := False, pDataSending := None\<rparr>)) = Some (st1, b)"
    and cont: "if STATUS_FAILED st1 then (st, ag1) = (st1, b) else chkAll ?rest b = Some (st, ag1)"
    using run by (rule chkAll_Cons)
  then have "sound ag b" using retirePair_detached assms(2) by (auto split: option.splits intro: settled.refl)
  moreover have "sound b ag1" using cont viaD [OF rest] by (auto split: if_splits intro: settled.refl)
  ultimately show ?thesis unfolding ag' by (auto intro: settled.trans status_sound)
qed


subsection \<open>Incoming packets\<close>

lemma keeping_body: "(\<And>ip. b = StunAddress ip \<Longrightarrow> keeping a (f ip)) \<Longrightarrow> keeping a (case b of StunAddress ip \<Rightarrow> f ip | _ \<Rightarrow> None)"
  by (auto split: StunBody.splits simp: result_None)

lemma new_candidate_keeps:
  "keeps ag (ag\<lparr>ia_cands := (ia_cands ag)(ia_next ag \<mapsto> c), ia_next := ia_next ag + 1, remoteCandidates := rs\<rparr>)"
  "keeps ag (ag\<lparr>ia_cands := (ia_cands ag)(ia_next ag \<mapsto> c), ia_next := ia_next ag + 1, localCandidates := rs\<rparr>)"
  by (auto simp: keeps_def pairs_inv_def pair_prio_def detached_def less_Suc_eq)

lemma createIceCandidatePairs_via: "via keeps (createIceCandidatePairs P n c rem)"
  by (rule viaI) (rule createIceCandidatePairs_keeps)

lemma iceAgentCheckPeerReflexiveCandidate_keeps: "via keeps (iceAgentCheckPeerReflexiveCandidate E ip prio remote sock)"
  unfolding iceAgentCheckPeerReflexiveCandidate_def Let_def
  by (rule via_keeping, intro keeping_rules keeping_call [OF createIceCandidatePairs_via])
    (rule keeps_refl new_candidate_keeps | erule after_updateCandidate)+

lemma updateCandidateAddress_keeps: "via keeps (updateCandidateAddress r ip)"
  unfolding updateCandidateAddress_def
  by (rule via_keeping, intro keeping_rules) (rule keeps_refl | erule after_updateCandidate)+

lemma bindingResponse_keeps: "bindingResponse E tid src ag = Some (st, pk, ag') \<Longrightarrow> keeps ag ag'"
  by (auto simp: bindingResponse_def bind_eq_Some_conv intro: after_world)

lemma after_notePeerCheck: "notePeerCheck r u b = Some c \<Longrightarrow> keeps a b \<Longrightarrow> keeps a c"
  unfolding notePeerCheck_def
  by (auto simp: bind_eq_Some_conv elim!: after_updatePair intro!: after_queue split: if_splits)

lemma after_peer: "iceAgentCheckPeerReflexiveCandidate E ip prio remote sock b = Some (st, c) \<Longrightarrow> keeps a b \<Longrightarrow> keeps a c"
  by (erule after_call [OF _ iceAgentCheckPeerReflexiveCandidate_keeps])

lemma after_send: "iceAgentSendStunPacket E pk pw n l dest b = Some (st, c) \<Longrightarrow> keeps a b \<Longrightarrow> keeps a c"
  by (erule after_call [OF _ iceAgentSendStunPacket_keeps])

lemma after_address: "updateCandidateAddress r ip b = Some (st, c) \<Longrightarrow> keeps a b \<Longrightarrow> keeps a c"
  by (erule after_call [OF _ updateCandidateAddress_keeps])

lemma after_response: "bindingResponse E tid src b = Some (st, pk, c) \<Longrightarrow> keeps a b \<Longrightarrow> keeps a c"
  by (blast intro: keeps_trans bindingResponse_keeps)

lemma after_roundTrip: "noteRoundTrip E r n b = Some c \<Longrightarrow> keeps a b \<Longrightarrow> keeps a c"
  unfolding noteRoundTrip_def
  by (cases "iceTime E b") (auto simp: bind_eq_Some_conv split: option.split_asm elim!: after_updatePair after_time)

lemma after_ids: "keeps a b \<Longrightarrow> keeps a (b\<lparr>pSrflxIds := x\<rparr>)"
  by (rule keeps_trans, assumption, rule keeps_fields) simp_all

lemmas incoming_elims = after_peer after_send after_address after_response after_notePeerCheck after_roundTrip after_elims

lemma handleBindingRequest_keeps: "via keeps (handleBindingRequest E buf n sock src)"
  unfolding handleBindingRequest_def
  by (rule via_keeping, intro keeping_rules) (hypsubst, (erule incoming_elims | rule keeps_refl)+)+

lemma handleServerResponse_keeps: "via keeps (handleServerResponse E buf n tid sock)"
  unfolding handleServerResponse_def
  by (rule via_keeping, intro keeping_rules keeping_body) ((hypsubst)?, (erule incoming_elims | rule after_ids keeps_refl)+)+

lemma markConnected_keeps: "via keeps (markConnected E r n)"
  unfolding markConnected_def
  by (rule via_keeping, intro keeping_rules) (erule incoming_elims | rule setState_prio keeps_refl | simp)+


lemma handleCheckResponse_keeps: "via keeps (handleCheckResponse E buf n tid sock src)"
proof -
  have peer: "(if b then iceAgentCheckPeerReflexiveCandidate E ip prio remote sk x else Some (STATUS_SUCCESS, x)) = Some (st, y) \<Longrightarrow>
      keeps a x \<Longrightarrow> keeps a y" for b ip prio remote sk st and a x y :: "'a IceAgent"
    by (auto split: if_splits elim: after_peer)
  show ?thesis
    unfolding handleCheckResponse_def
    by (rule via_keeping, intro keeping_rules keeping_body keeping_call [OF markConnected_keeps])
      ((hypsubst)?, (erule incoming_elims peer | rule keeps_refl)+)+
qed

lemma handleStunPacket_keeps: "via keeps (handleStunPacket E buf n sock src)"
  unfolding handleStunPacket_def
  by (rule via_keeping, intro keeping_rules keeping_call [OF handleBindingRequest_keeps]
      keeping_call [OF handleServerResponse_keeps] keeping_call [OF handleCheckResponse_keeps] keeps_refl)

lemma compareSendingPair_keeps: "via keeps (compareSendingPair sock)"
  unfolding compareSendingPair_def by (rule via_keeping, intro keeping_rules keeps_refl)

lemma incomingDataHandler_keeps: "via keeps (incomingDataHandler E buf n sock src)"
proof -
  have fields: "keeps a b \<Longrightarrow> keeps a (b\<lparr>lastDataReceivedTime := t\<rparr>)" "keeps a b \<Longrightarrow> keeps a (b\<lparr>inboundPackets := ps\<rparr>)"
    for t ps and a b :: "'a IceAgent"
    by (rule keeps_trans, assumption, rule keeps_fields, simp_all)+
  show ?thesis
    unfolding incomingDataHandler_def
    by (rule via_keeping, intro keeping_rules keeping_call [OF handleStunPacket_keeps] keeping_call [OF compareSendingPair_keeps] fields)
      (erule after_time, rule keeps_refl)+
qed

lemma iceAgentStartAgent_keeps: "via keeps (iceAgentStartAgent E user pass controlling)"
  unfolding iceAgentStartAgent_def
proof (rule via_keeping, intro keeping_rules keeping_call [OF startTimer_keeps(2)] keeps_refl)
  show "keeps a (a\<lparr>remoteCredentialReceived := c, isControlling := i, remoteUsername := u, remotePassword := p, combinedUserName := n\<rparr>)"
    for c i u p n and a :: "'a IceAgent"
    by (rule keeps_fields) simp_all
qed

end
