(* ===== verification/IceGathering.thy ===== *)
theory IceGathering
  imports IceStateMachine
begin

text \<open>
  Candidates of \<^verbatim>\<open>src/source/Ice/IceAgent.c\<close>: the candidate line that is sent to the peer and parsed
  again, the gathering of host, reflexive and relayed candidates, the restart of the agent.

  Parsing of numbers is PIC's \<^verbatim>\<open>STRTOUI32\<close>, parsing of addresses the system's \<^verbatim>\<open>inet_pton\<close>: the record
  \<open>text_ops\<close>.  The random names of candidates, which only statistics and logs show, are left out.
\<close>

subsection \<open>Status codes\<close>

text \<open>\<^verbatim>\<open>STATUS_ICE_BASE\<close> is \<^verbatim>\<open>0x5a000000\<close>.\<close>

abbreviation STATUS_ICE_CANDIDATE_STRING_MISSING_IP :: STATUS where
  "STATUS_ICE_CANDIDATE_STRING_MISSING_IP \<equiv> STATUS_OTHER 0x5a000003"

abbreviation STATUS_ICE_CANDIDATE_STRING_IS_TCP :: STATUS where
  "STATUS_ICE_CANDIDATE_STRING_IS_TCP \<equiv> STATUS_OTHER 0x5a000005"

abbreviation STATUS_ICE_MAX_REMOTE_CANDIDATE_COUNT_EXCEEDED :: STATUS where
  "STATUS_ICE_MAX_REMOTE_CANDIDATE_COUNT_EXCEEDED \<equiv> STATUS_OTHER 0x5a000014"

abbreviation STATUS_ICE_NO_LOCAL_HOST_CANDIDATE_AVAILABLE :: STATUS where
  "STATUS_ICE_NO_LOCAL_HOST_CANDIDATE_AVAILABLE \<equiv> STATUS_OTHER 0x5a00001d"

abbreviation STATUS_ICE_CANDIDATE_STRING_MISSING_TYPE :: STATUS where
  "STATUS_ICE_CANDIDATE_STRING_MISSING_TYPE \<equiv> STATUS_OTHER 0x5a000029"

abbreviation STATUS_FAILED_TO_INIT_RELAY_CANDIDATES :: STATUS where
  "STATUS_FAILED_TO_INIT_RELAY_CANDIDATES \<equiv> STATUS_OTHER 0x5a00002d"

subsection \<open>The candidate line\<close>

record text_ops =
  inet_pton4 :: "string \<Rightarrow> byte list option"
  inet_pton6 :: "string \<Rightarrow> byte list option"
  strtoui32 :: "string \<Rightarrow> STATUS + nat"

definition digit :: "nat \<Rightarrow> char" where
  "digit d = char_of (if d < 10 then 48 + d else 55 + d)"

text \<open>\<^verbatim>\<open>%u\<close>, \<^verbatim>\<open>%d\<close> of a number that is not negative, and \<^verbatim>\<open>%02X\<close> of a byte.\<close>

fun decimal :: "nat \<Rightarrow> string" where
  "decimal n = (if n < 10 then [digit n] else decimal (n div 10) @ [digit (n mod 10)])"

declare decimal.simps [simp del]

definition hex2 :: "byte \<Rightarrow> string" where
  "hex2 b = [digit (unat b div 16), digit (unat b mod 16)]"

fun dotted :: "byte list \<Rightarrow> string" where
  "dotted [] = []"
| "dotted [b] = decimal (unat b)"
| "dotted (b # bs) = decimal (unat b) @ ''.'' @ dotted bs"

fun coloned :: "byte list \<Rightarrow> string" where
  "coloned (a # b # c # bs) = hex2 a @ hex2 b @ '':'' @ coloned (c # bs)"
| "coloned bs = concat (map hex2 bs)"

definition iceAgentGetCandidateTypeStr :: "ICE_CANDIDATE_TYPE \<Rightarrow> string" where
  "iceAgentGetCandidateTypeStr t =
     (case t of
        ICE_CANDIDATE_TYPE_HOST \<Rightarrow> ''host''
      | ICE_CANDIDATE_TYPE_SERVER_REFLEXIVE \<Rightarrow> ''srflx''
      | ICE_CANDIDATE_TYPE_PEER_REFLEXIVE \<Rightarrow> ''prflx''
      | ICE_CANDIDATE_TYPE_RELAYED \<Rightarrow> ''relay'')"

definition candidateLine :: "IceCandidate \<Rightarrow> u16 \<Rightarrow> string" where
  "candidateLine c portNumber =
     decimal (cd_foundation c) @ '' 1 udp '' @ decimal (cd_priority c) @ '' '' @
     (if IS_IPV4_ADDR (cd_ipAddress c) then dotted (take 4 (address (cd_ipAddress c))) else coloned (take 16 (address (cd_ipAddress c)))) @ '' '' @
     decimal (unat portNumber) @ '' typ '' @ iceAgentGetCandidateTypeStr (cd_type c) @
     (if IS_IPV4_ADDR (cd_ipAddress c) then '' raddr 0.0.0.0'' else '' raddr ::/0'') @ '' rport 0 generation 0 network-cost 999''"

text \<open>Status, the buffer's string, \<^verbatim>\<open>*pOutputLength\<close>.  \<^verbatim>\<open>SNPRINTF\<close> cuts the line to the buffer.\<close>

definition iceCandidateSerialize :: "platform \<Rightarrow> IceCandidate \<Rightarrow> bool \<Rightarrow> nat \<Rightarrow> (STATUS \<times> string \<times> nat) option" where
  "iceCandidateSerialize P c hasOutput outputLength =
     do {
       portNumber \<leftarrow> rdInt16 P (port (cd_ipAddress c)) 0;
       let line = candidateLine c portNumber;
       Some (if \<not> hasOutput then (STATUS_SUCCESS, [], wrap32 (length line + 1))
             else if length line < outputLength then (STATUS_SUCCESS, line, outputLength)
             else (STATUS_BUFFER_TOO_SMALL, take (outputLength - 1) line, outputLength)) }"

definition iceAgentReportNewLocalCandidate :: "'n ice_env \<Rightarrow> IceCandidate \<Rightarrow> 'n ice_action" where
  "iceAgentReportNewLocalCandidate E c ag =
     (if \<not> hasNewLocalCandidateFn ag \<or> candidateGatheringFinished ag then Some (STATUS_SUCCESS, ag)
      else do {
        (st, line, _) \<leftarrow> iceCandidateSerialize (stun_platform (ie_stun E)) c True 512;
        Some (st, if STATUS_FAILED st then ag else ag\<lparr>newCandidates := newCandidates ag @ [Some line]\<rparr>) })"

subsection \<open>Parsing the line of the peer\<close>

definition lower :: "char \<Rightarrow> nat" where
  "lower c = (let n = of_char c in if 65 \<le> n \<and> n \<le> 90 then n + 32 else n)"

text \<open>\<^verbatim>\<open>STRNCMPI(literal, curr, tokenLen) == 0\<close> for a token without NUL.\<close>

definition strncmpi_eq :: "string \<Rightarrow> string \<Rightarrow> bool" where
  "strncmpi_eq lit tok \<longleftrightarrow> length tok \<le> length lit \<and> map lower (take (length tok) lit) = map lower tok"

text \<open>\<^verbatim>\<open>STRNCHR(curr, tail - curr, ' ')\<close>: the token and what follows the space.\<close>

definition strnchr :: "char \<Rightarrow> string \<Rightarrow> (string \<times> string) option" where
  "strnchr c s = (if c \<in> set s then Some (takeWhile (\<lambda>x. x \<noteq> c) s, tl (dropWhile (\<lambda>x. x \<noteq> c) s)) else None)"

record candidate_line =
  ln_state :: nat
  ln_priority :: nat
  ln_remoteProtocol :: KVS_SOCKET_PROTOCOL
  ln_ip :: KvsIpAddress
  ln_foundIp :: bool
  ln_type :: ICE_CANDIDATE_TYPE
  ln_foundType :: bool

text \<open>The state is the enumeration of the source: foundation, component, protocol, priority, address, port, type, type value.\<close>

definition typeToken :: "string \<Rightarrow> ICE_CANDIDATE_TYPE \<Rightarrow> ICE_CANDIDATE_TYPE" where
  "typeToken tok t =
     (if strncmpi_eq ''host'' tok then ICE_CANDIDATE_TYPE_HOST
      else if strncmpi_eq ''srflx'' tok then ICE_CANDIDATE_TYPE_SERVER_REFLEXIVE
      else if strncmpi_eq ''prflx'' tok then ICE_CANDIDATE_TYPE_PEER_REFLEXIVE
      else if strncmpi_eq ''relay'' tok then ICE_CANDIDATE_TYPE_RELAYED
      else t)"

definition addressToken :: "text_ops \<Rightarrow> string \<Rightarrow> candidate_line \<Rightarrow> STATUS \<times> candidate_line" where
  "addressToken T tok ln =
     (let ipBuf = take 45 tok; ip = ln_ip ln in
      case inet_pton4 T ipBuf of
        Some bs \<Rightarrow> (STATUS_SUCCESS, ln\<lparr>ln_foundIp := True, ln_ip := ip\<lparr>family := 1, address := bs @ drop (length bs) (address ip)\<rparr>\<rparr>)
      | None \<Rightarrow>
          (case inet_pton6 T ipBuf of
             Some bs \<Rightarrow> (STATUS_SUCCESS, ln\<lparr>ln_foundIp := True, ln_ip := ip\<lparr>family := 2, address := bs @ drop (length bs) (address ip)\<rparr>\<rparr>)
           | None \<Rightarrow> (STATUS_ICE_CANDIDATE_STRING_MISSING_IP, ln\<lparr>ln_foundIp := False\<rparr>)))"

definition candidateToken :: "text_ops \<Rightarrow> string \<Rightarrow> candidate_line \<Rightarrow> STATUS \<times> candidate_line" where
  "candidateToken T tok ln =
     (if ln_state ln = 2 then
        (if strncmpi_eq ''tcp'' tok then (STATUS_ICE_CANDIDATE_STRING_IS_TCP, ln\<lparr>ln_remoteProtocol := KVS_SOCKET_PROTOCOL_TCP\<rparr>)
         else (STATUS_SUCCESS, if strncmpi_eq ''udp'' tok then ln\<lparr>ln_remoteProtocol := KVS_SOCKET_PROTOCOL_UDP\<rparr> else ln))
      else if ln_state ln = 3 then (STATUS_SUCCESS, case strtoui32 T tok of Inl _ \<Rightarrow> ln | Inr n \<Rightarrow> ln\<lparr>ln_priority := n\<rparr>)
      else if ln_state ln = 4 then addressToken T tok ln
      else if ln_state ln = 5 then
        (case strtoui32 T tok of
           Inl st \<Rightarrow> (st, ln)
         | Inr n \<Rightarrow> (STATUS_SUCCESS, ln\<lparr>ln_ip := (ln_ip ln)\<lparr>port := bytes16 (word_of_nat n)\<rparr>\<rparr>))
      else if ln_state ln = 6 then (if strncmpi_eq ''typ'' tok then STATUS_SUCCESS else STATUS_ICE_CANDIDATE_STRING_MISSING_TYPE, ln)
      else if ln_state ln = 7 then (STATUS_SUCCESS, ln\<lparr>ln_type := typeToken tok (ln_type ln), ln_foundType := True\<rparr>)
      else (STATUS_SUCCESS, ln))"

function candidateLoop :: "text_ops \<Rightarrow> string \<Rightarrow> candidate_line \<Rightarrow> STATUS \<times> candidate_line" where
  "candidateLoop T rest0 ln =
     (case strnchr CHR '' '' rest0 of
        None \<Rightarrow> (STATUS_SUCCESS, ln)
      | Some (tok, rest) \<Rightarrow>
          if ln_foundType ln then (STATUS_SUCCESS, ln)
          else (case candidateToken T tok ln of
             (st, ln') \<Rightarrow> if STATUS_FAILED st then (st, ln') else candidateLoop T rest (ln'\<lparr>ln_state := ln_state ln' + 1\<rparr>)))"
  by pat_completeness auto
termination
proof (relation "measure (\<lambda>(T, rest0, ln). length rest0)")
  fix T :: text_ops and rest0 :: string and ln :: candidate_line and x tok rest y st ln'
  assume "strnchr CHR '' '' rest0 = Some x" "(tok, rest) = x"
  then have "rest = tl (dropWhile (\<lambda>x. x \<noteq> CHR '' '') rest0)" "CHR '' '' \<in> set rest0"
    by (auto simp: strnchr_def split: if_splits)
  then have "length rest < length rest0"
    using length_dropWhile_le [of "\<lambda>x. x \<noteq> CHR '' ''" rest0] by (cases rest0) auto
  then show "((T, rest, ln'\<lparr>ln_state := ln_state ln' + 1\<rparr>), (T, rest0, ln)) \<in> measure (\<lambda>(T, rest0, ln). length rest0)" by simp
qed simp

declare candidateLoop.simps [simp del]

definition zeroAddress :: KvsIpAddress where
  "zeroAddress = \<lparr>family = 0, port = [0, 0], address = replicate 16 0, isPointToPoint = False\<rparr>"

definition emptyLine :: candidate_line where
  "emptyLine = \<lparr>ln_state = 0, ln_priority = 0, ln_remoteProtocol = KVS_SOCKET_PROTOCOL_NONE, ln_ip = zeroAddress, ln_foundIp = False,
     ln_type = ICE_CANDIDATE_TYPE_HOST, ln_foundType = False\<rparr>"

text \<open>Relayed local candidates are told about the new peer; an IPv4 peer is added.\<close>

definition tellTurn :: "'n ice_env \<Rightarrow> KvsIpAddress \<Rightarrow> nat \<Rightarrow> 'n ice_action" where
  "tellTurn E ip l ag =
     do {
       c \<leftarrow> ia_cands ag l;
       if cd_type c \<noteq> ICE_CANDIDATE_TYPE_RELAYED then Some (STATUS_SUCCESS, ag)
       else do {
         _ \<leftarrow> cd_turn c;
         if family ip = 1 then outside (ie_turnConnectionAddPeer E (cd_turn c) ip) ag else Some (STATUS_SUCCESS, ag) } }"

definition addRemote :: "'n ice_env \<Rightarrow> candidate_line \<Rightarrow> 'n ice_action" where
  "addRemote E ln ag =
     (let r = ia_next ag;
          c = \<lparr>cd_type = ln_type ln, cd_isRemote = True, cd_ipAddress = ln_ip ln, cd_socket = None, cd_state = ICE_CANDIDATE_STATE_VALID,
               cd_priority = ln_priority ln, cd_iceServerIndex = 0, cd_foundation = 0, cd_turn = None, cd_reported = False,
               cd_remoteProtocol = ln_remoteProtocol ln\<rparr> in
      chkAll
        [createIceCandidatePairs (stun_platform (ie_stun E)) (ie_sizeofPair E) r True,
         \<lambda>ag. chkAll (map (tellTurn E (ln_ip ln)) (localCandidates ag)) ag]
        (ag\<lparr>ia_cands := (ia_cands ag)(r \<mapsto> c), ia_next := r + 1, remoteCandidates := r # remoteCandidates ag\<rparr>))"

definition iceAgentAddRemoteCandidate :: "'n ice_env \<Rightarrow> text_ops \<Rightarrow> string option \<Rightarrow> 'n ice_action" where
  "iceAgentAddRemoteCandidate E T pIceCandidateString ag =
     (case pIceCandidateString of
        None \<Rightarrow> Some (STATUS_NULL_ARG, ag)
      | Some line \<Rightarrow>
          if line = [] then Some (STATUS_INVALID_ARG, ag)
          else if \<not> length (remoteCandidates ag) < 100 then Some (STATUS_ICE_MAX_REMOTE_CANDIDATE_COUNT_EXCEEDED, ag)
          else (case candidateLoop T line emptyLine of
             (st, ln) \<Rightarrow>
               if STATUS_FAILED st then Some (st, ag)
               else if \<not> ln_foundIp ln then Some (STATUS_ICE_CANDIDATE_STRING_MISSING_IP, ag)
               else do {
                 found \<leftarrow> findCandidateWithIp (ia_cands ag) (ln_ip ln) (remoteCandidates ag);
                 if found \<noteq> None then Some (STATUS_SUCCESS, ag)
                 else if \<not> memalloc (stun_platform (ie_stun E)) (ie_sizeofCandidate E) then Some (STATUS_NOT_ENOUGH_MEMORY, ag)
                 else addRemote E ln ag }))"


subsection \<open>Gathering\<close>

text \<open>Putting a fresh local candidate at the head of the list.\<close>

definition insertLocal :: "IceCandidate \<Rightarrow> 'n IceAgent \<Rightarrow> 'n IceAgent" where
  "insertLocal c ag =
     ag\<lparr>ia_cands := (ia_cands ag)(ia_next ag \<mapsto> c), ia_next := ia_next ag + 1, localCandidates := ia_next ag # localCandidates ag\<rparr>"

definition localCandidate :: "ICE_CANDIDATE_TYPE \<Rightarrow> ICE_CANDIDATE_STATE \<Rightarrow> KvsIpAddress \<Rightarrow> nat option \<Rightarrow> nat \<Rightarrow> nat \<Rightarrow> nat option \<Rightarrow> IceCandidate" where
  "localCandidate t state ip sock server foundation turn =
     (let c = \<lparr>cd_type = t, cd_isRemote = False, cd_ipAddress = ip, cd_socket = sock, cd_state = state, cd_priority = 0,
               cd_iceServerIndex = server, cd_foundation = foundation, cd_turn = turn, cd_reported = False,
               cd_remoteProtocol = KVS_SOCKET_PROTOCOL_NONE\<rparr> in
      c\<lparr>cd_priority := computeCandidatePriority c\<rparr>)"

text \<open>
  One network interface: a socket bound to it, a host candidate, its pairs.  When the pairs cannot be
  created the candidate is freed although the list holds it.  The number counts the new candidates.
\<close>

definition hostStep :: "'n ice_env \<Rightarrow> nat \<Rightarrow> nat \<times> 'n IceAgent \<Rightarrow> (STATUS \<times> nat \<times> 'n IceAgent) option" where
  "hostStep E i = (\<lambda>(n, ag).
     do {
       ip \<leftarrow> rd (localNetworkInterfaces ag) i;
       found \<leftarrow> findCandidateWithIp (ia_cands ag) ip (localCandidates ag);
       if found \<noteq> None then Some (STATUS_SUCCESS, n, ag)
       else (case ie_createSocketConnection E KVS_SOCKET_PROTOCOL_UDP (Some ip) None (ia_world ag) of
         (st, sock, bound, w) \<Rightarrow> do {
           ip' \<leftarrow> bound;
           let ag1 = ag\<lparr>ia_world := w, localNetworkInterfaces := (localNetworkInterfaces ag)[i := ip']\<rparr>;
           if STATUS_FAILED st then Some (STATUS_SUCCESS, n, ag1)
           else if \<not> memalloc (stun_platform (ie_stun E)) (ie_sizeofCandidate E) then None
           else do {
             let r = ia_next ag1;
             (st2, ag2) \<leftarrow> createIceCandidatePairs (stun_platform (ie_stun E)) (ie_sizeofPair E) r False
               (insertLocal (localCandidate ICE_CANDIDATE_TYPE_HOST ICE_CANDIDATE_STATE_VALID ip' (Some sock) 0 (foundationCounter ag1) None)
                 (ag1\<lparr>foundationCounter := wrap32 (foundationCounter ag1 + 1)\<rparr>));
             if STATUS_FAILED st2 then Some (st2, n, ag2\<lparr>ia_cands := (ia_cands ag2)(r := None)\<rparr>)
             else do { (st3, ag3) \<leftarrow> outside (ie_addConnection E (Some sock)) ag2; Some (st3, n + 1, ag3) } } }) })"

definition iceAgentInitHostCandidate :: "'n ice_env \<Rightarrow> 'n ice_action" where
  "iceAgentInitHostCandidate E =
     recording (\<lambda>ag. do {
       (st, n, ag1) \<leftarrow> chkAll (map (hostStep E) [0..<length (localNetworkInterfaces ag)]) (0, ag);
       Some (if STATUS_FAILED st then st else if n = 0 then STATUS_ICE_NO_LOCAL_HOST_CANDIDATE_AVAILABLE else STATUS_SUCCESS, ag1) })"

text \<open>Reflexive candidates: one for every host candidate and STUN server; the local array has 100 entries.\<close>

definition srflxServer :: "'n ice_env \<Rightarrow> nat \<Rightarrow> nat \<Rightarrow> nat list \<times> 'n IceAgent \<Rightarrow> (STATUS \<times> nat list \<times> 'n IceAgent) option" where
  "srflxServer E l j = (\<lambda>(fresh, ag).
     do {
       c \<leftarrow> ia_cands ag l;
       s \<leftarrow> rd (iceServers ag) j;
       let fam = family (cd_ipAddress c);
       if fam = 0 then Some (STATUS_SUCCESS, fresh, ag)
       else if \<not> srv_isTurn s \<and> (family (srv_ipv4Address s) = fam \<or> family (srv_ipv6Address s) = fam)
       then (if \<not> memalloc (stun_platform (ie_stun E)) (ie_sizeofCandidate E) then Some (STATUS_NOT_ENOUGH_MEMORY, fresh, ag)
             else if \<not> length fresh < 100 then None
             else Some (STATUS_SUCCESS, fresh @ [ia_next ag],
               insertLocal (localCandidate ICE_CANDIDATE_TYPE_SERVER_REFLEXIVE ICE_CANDIDATE_STATE_NEW (cd_ipAddress c) None j (foundationCounter ag) None)
                 (ag\<lparr>foundationCounter := wrap32 (foundationCounter ag + 1)\<rparr>)))
       else Some (STATUS_SUCCESS, fresh, ag) })"

definition srflxCandidate :: "'n ice_env \<Rightarrow> nat \<Rightarrow> nat list \<times> 'n IceAgent \<Rightarrow> (STATUS \<times> nat list \<times> 'n IceAgent) option" where
  "srflxCandidate E l = (\<lambda>(fresh, ag).
     do {
       c \<leftarrow> ia_cands ag l;
       if cd_type c = ICE_CANDIDATE_TYPE_HOST then chkAll (map (srflxServer E l) [0..<length (iceServers ag)]) (fresh, ag)
       else Some (STATUS_SUCCESS, fresh, ag) })"

definition srflxSocket :: "'n ice_env \<Rightarrow> nat \<Rightarrow> 'n ice_action" where
  "srflxSocket E r ag =
     do {
       c \<leftarrow> ia_cands ag r;
       (case ie_createSocketConnection E KVS_SOCKET_PROTOCOL_UDP (Some (cd_ipAddress c)) None (ia_world ag) of
          (st, sock, bound, w) \<Rightarrow> do {
            ip \<leftarrow> bound;
            ag1 \<leftarrow> updateCandidate r (\<lambda>c. c\<lparr>cd_ipAddress := ip, cd_socket := (if STATUS_FAILED st then None else Some sock)\<rparr>) (ag\<lparr>ia_world := w\<rparr>);
            if STATUS_FAILED st then Some (st, ag1) else outside (ie_addConnection E (Some sock)) ag1 }) }"

definition iceAgentInitSrflxCandidate :: "'n ice_env \<Rightarrow> 'n ice_action" where
  "iceAgentInitSrflxCandidate E =
     recording (\<lambda>ag. do {
       (st, fresh, ag1) \<leftarrow> chkAll (map (srflxCandidate E) (localCandidates ag)) ([], ag);
       if STATUS_FAILED st then Some (st, ag1) else chkAll (map (srflxSocket E) fresh) ag1 })"

text \<open>Requests to the STUN servers.  The address found for one candidate stays in the variable for the next.\<close>

definition srflxRequest :: "'n ice_env \<Rightarrow> nat \<Rightarrow> KvsIpAddress option \<times> StunPacket \<times> 'n IceAgent \<Rightarrow> (STATUS \<times> KvsIpAddress option \<times> StunPacket \<times> 'n IceAgent) option" where
  "srflxRequest E l = (\<lambda>(addr, pk, ag).
     do {
       c \<leftarrow> ia_cands ag l;
       if cd_state c = ICE_CANDIDATE_STATE_NEW \<and> cd_type c = ICE_CANDIDATE_TYPE_SERVER_REFLEXIVE
       then do {
         s \<leftarrow> rd (iceServers ag) (cd_iceServerIndex c);
         let fam = family (cd_ipAddress c);
         let addr' = (if family (srv_ipv4Address s) \<noteq> 0 \<and> fam = 1 then Some (srv_ipv4Address s)
                      else if family (srv_ipv6Address s) \<noteq> 0 \<and> fam = 2 then Some (srv_ipv6Address s) else addr);
         (case addr' of
            None \<Rightarrow> Some (STATUS_INVALID_ARG, None, pk, ag)
          | Some dest \<Rightarrow> do {
              let (tid, w) = randomBytes (ie_rand E) (ia_world ag) 12;
              let pk' = pk\<lparr>stun_header := (stun_header pk)\<lparr>transactionId := tid\<rparr>\<rparr>;
              ids \<leftarrow> pSrflxIds ag;
              ids' \<leftarrow> transactionIdStoreInsert ids tid;
              (st, ag1) \<leftarrow> iceAgentSendStunPacket E (Some pk') None 0 l dest (ag\<lparr>ia_world := w, pSrflxIds := Some ids'\<rparr>);
              Some (st, addr', pk', ag1) }) }
       else Some (STATUS_SUCCESS, addr, pk, ag) })"

definition iceAgentSendSrflxCandidateRequest :: "'n ice_env \<Rightarrow> 'n ice_action" where
  "iceAgentSendSrflxCandidateRequest E =
     recording (\<lambda>ag. do {
       (st, ppk, w) \<leftarrow> createStunPacket (ie_stun E) (ie_rand E) (ia_world ag) 0x0001 None;
       if STATUS_FAILED st then Some (st, ag\<lparr>ia_world := w\<rparr>)
       else do {
         pk \<leftarrow> ppk;
         (st1, _, _, ag1) \<leftarrow> chkAll (map (srflxRequest E) (localCandidates ag)) (None, pk, ag\<lparr>ia_world := w\<rparr>);
         Some (st1, ag1) } })"

text \<open>A relayed candidate: a socket to the TURN server, a TURN connection on it, and the known peers.\<close>

definition iceAgentInitRelayCandidate :: "'n ice_env \<Rightarrow> nat \<Rightarrow> KVS_SOCKET_PROTOCOL \<Rightarrow> u16 \<Rightarrow> 'n ice_action" where
  "iceAgentInitRelayCandidate E j protocol fam ag =
     do {
       s \<leftarrow> rd (iceServers ag) j;
       if fam = 0 then Some (STATUS_INVALID_ARG, ag)
       else if protocol = KVS_SOCKET_PROTOCOL_UDP \<and> srv_isSecure s then Some (STATUS_SUCCESS, ag)
       else if \<not> relayCandidateCount ag < 4 then Some (STATUS_SUCCESS, ag)
       else if \<not> memalloc (stun_platform (ie_stun E)) (ie_sizeofCandidate E) then Some (STATUS_NOT_ENOUGH_MEMORY, ag)
       else (case ie_createSocketConnection E protocol None (Some (if fam = 1 then srv_ipv4Address s else srv_ipv6Address s)) (ia_world ag) of
         (st, sock, _, w) \<Rightarrow>
           if STATUS_FAILED st then Some (st, ag\<lparr>ia_world := w\<rparr>)
           else (case ie_addConnection E (Some sock) w of
             (st1, w1) \<Rightarrow>
               if STATUS_FAILED st1 then Some (st1, ag\<lparr>ia_world := w1\<rparr>)
               else (case ie_createTurnConnection E j protocol fam (Some sock) w1 of
                 (st2, turn, w2) \<Rightarrow>
                   let ag2 = ag\<lparr>ia_world := w2, foundationCounter := wrap32 (foundationCounter ag + 1)\<rparr> in
                   if STATUS_FAILED st2 then Some (st2, ag2)
                   else chkAll
                     [\<lambda>ag. chkAll (map (\<lambda>r ag. do { c \<leftarrow> ia_cands ag r;
                         if family (cd_ipAddress c) = 1 then outside (ie_turnConnectionAddPeer E (Some turn) (cd_ipAddress c)) ag
                         else Some (STATUS_SUCCESS, ag) }) (remoteCandidates ag)) ag,
                      \<lambda>ag. Some (STATUS_SUCCESS, ag\<lparr>relayCandidateCount := wrap32 (relayCandidateCount ag + 1)\<rparr>),
                      outside (ie_turnConnectionStart E (Some turn))]
                     (insertLocal (localCandidate ICE_CANDIDATE_TYPE_RELAYED ICE_CANDIDATE_STATE_NEW zeroAddress (Some sock) j (foundationCounter ag) (Some turn)) ag2)))) }"

text \<open>The four combinations of one server; the flag is not reset between servers.\<close>

definition relayTry :: "'n ice_env \<Rightarrow> nat \<Rightarrow> IceServer \<Rightarrow> KVS_SOCKET_PROTOCOL \<Rightarrow> u16 \<Rightarrow> bool \<times> 'n IceAgent \<Rightarrow> (STATUS \<times> bool \<times> 'n IceAgent) option" where
  "relayTry E j s protocol fam = (\<lambda>(ok, ag).
     if family (if fam = 1 then srv_ipv4Address s else srv_ipv6Address s) \<noteq> 0 \<and> (srv_transport s = protocol \<or> srv_transport s = KVS_SOCKET_PROTOCOL_NONE)
     then do { (st, ag1) \<leftarrow> iceAgentInitRelayCandidate E j protocol fam ag; Some (STATUS_SUCCESS, ok \<or> STATUS_SUCCEEDED st, ag1) }
     else Some (STATUS_SUCCESS, ok, ag))"

definition relayServer :: "'n ice_env \<Rightarrow> nat \<Rightarrow> bool \<times> 'n IceAgent \<Rightarrow> (STATUS \<times> bool \<times> 'n IceAgent) option" where
  "relayServer E j = (\<lambda>(ok, ag).
     do {
       s \<leftarrow> rd (iceServers ag) j;
       if \<not> srv_isTurn s then Some (STATUS_SUCCESS, ok, ag)
       else chkAll
         [relayTry E j s KVS_SOCKET_PROTOCOL_UDP 1, relayTry E j s KVS_SOCKET_PROTOCOL_TCP 1,
          relayTry E j s KVS_SOCKET_PROTOCOL_UDP 2, relayTry E j s KVS_SOCKET_PROTOCOL_TCP 2,
          \<lambda>(ok, ag). Some (if ok then STATUS_SUCCESS else STATUS_FAILED_TO_INIT_RELAY_CANDIDATES, ok, ag)] (ok, ag) })"

definition iceAgentInitRelayCandidates :: "'n ice_env \<Rightarrow> 'n ice_action" where
  "iceAgentInitRelayCandidates E =
     recording (\<lambda>ag. do { (st, _, ag1) \<leftarrow> chkAll (map (relayServer E) [0..<length (iceServers ag)]) (False, ag); Some (st, ag1) })"

definition iceAgentStartGathering :: "'n ice_env \<Rightarrow> 'n ice_action" where
  "iceAgentStartGathering E =
     recording (\<lambda>ag.
       if agentStartGathering ag then Some (STATUS_SUCCESS, ag)
       else chkAll
         ((if relayOnly ag then []
           else [\<lambda>ag. (case ie_getLocalhostIpAddresses E (ia_world ag) of
                         (st, ips, w) \<Rightarrow> Some (st, ag\<lparr>ia_world := w, localNetworkInterfaces := ips\<rparr>)),
                 iceAgentInitHostCandidate E, iceAgentInitSrflxCandidate E]) @
          [iceAgentInitRelayCandidates E,
           outside (ie_connectionListenerStart E),
           \<lambda>ag. (case iceTime E ag of (now, ag1) \<Rightarrow>
                   Some (STATUS_SUCCESS, ag1\<lparr>candidateGatheringEndTime := wrap64 (now + iceLocalCandidateGatheringTimeout ag1)\<rparr>)),
           startTimer E (\<lambda>t ag. ag\<lparr>iceCandidateGatheringTimerTask := t\<rparr>)])
         (ag\<lparr>agentStartGathering := True\<rparr>))"

text \<open>
  The timer of the gathering.  Valid candidates that were not reported yet are copied to an array of ten
  entries; the copy of an eleventh goes behind it.
\<close>

record 'n gathering =
  ga_new :: "IceCandidate list"
  ga_count :: nat
  ga_pending :: nat
  ga_srflx :: nat
  ga_agent :: "'n IceAgent"

definition gatherStep :: "'n ice_env \<Rightarrow> nat \<Rightarrow> 'n gathering \<Rightarrow> (STATUS \<times> 'n gathering) option" where
  "gatherStep E l g0 =
     do {
       let ag = ga_agent g0;
       let g = g0\<lparr>ga_count := ga_count g0 + 1\<rparr>;
       c \<leftarrow> ia_cands ag l;
       if cd_state c = ICE_CANDIDATE_STATE_NEW
       then (let g1 = g\<lparr>ga_pending := ga_pending g + 1\<rparr> in
         if cd_type c = ICE_CANDIDATE_TYPE_SERVER_REFLEXIVE then Some (STATUS_SUCCESS, g1\<lparr>ga_srflx := ga_srflx g1 + 1\<rparr>)
         else if cd_type c = ICE_CANDIDATE_TYPE_RELAYED then
           (case Option.bind (cd_turn c) (\<lambda>t. ie_turnConnectionGetRelayAddress E t (ia_world ag)) of
              None \<Rightarrow> Some (STATUS_SUCCESS, g1)
            | Some relayAddress \<Rightarrow> do {
                (st, ag1) \<leftarrow> chkAll [updateCandidateAddress l relayAddress,
                  createIceCandidatePairs (stun_platform (ie_stun E)) (ie_sizeofPair E) l False] ag;
                Some (st, g1\<lparr>ga_agent := ag1\<rparr>) })
         else Some (STATUS_SUCCESS, g1))
       else if cd_state c = ICE_CANDIDATE_STATE_VALID \<and> \<not> cd_reported c
       then (if \<not> length (ga_new g) < 10 then None
         else do {
           ag1 \<leftarrow> updateCandidate l (\<lambda>c. c\<lparr>cd_reported := True\<rparr>) ag;
           let g1 = g\<lparr>ga_new := ga_new g @ [c]\<rparr>;
           if cd_type c = ICE_CANDIDATE_TYPE_SERVER_REFLEXIVE
           then do {
             (st, ag2) \<leftarrow> createIceCandidatePairs (stun_platform (ie_stun E)) (ie_sizeofPair E) l False ag1;
             Some (st, g1\<lparr>ga_agent := ag2\<rparr>) }
           else Some (STATUS_SUCCESS, g1\<lparr>ga_agent := ag1\<rparr>) })
       else Some (STATUS_SUCCESS, g) }"

text \<open>Whether the gathering is over is known even when a later step fails: status, that flag, the agent.\<close>

definition gatherRound :: "'n ice_env \<Rightarrow> nat \<Rightarrow> 'n IceAgent \<Rightarrow> (STATUS \<times> bool \<times> 'n IceAgent) option" where
  "gatherRound E currentTime ag =
     do {
       (st, g) \<leftarrow> chkAll (map (gatherStep E) (localCandidates ag)) \<lparr>ga_new = [], ga_count = 0, ga_pending = 0, ga_srflx = 0, ga_agent = ag\<rparr>;
       if STATUS_FAILED st then Some (st, False, ga_agent g)
       else do {
         (st1, ag1) \<leftarrow> (if ga_srflx g > 0 then iceAgentSendSrflxCandidateRequest E (ga_agent g) else Some (STATUS_SUCCESS, ga_agent g));
         if STATUS_FAILED st1 then Some (st1, False, ag1)
         else do {
           let stop = (stopGathering ag1 \<or> ga_count g > 0 \<and> ga_pending g = 0 \<and> addedRelayCandidate ag1 \<or> currentTime \<ge> candidateGatheringEndTime ag1);
           let ag2 = (if stop then ag1\<lparr>iceCandidateGatheringTimerTask := 2 ^ 32 - 1\<rparr> else ag1);
           (st2, ag3) \<leftarrow> chkAll (map (iceAgentReportNewLocalCandidate E) (ga_new g)) ag2;
           Some (st2, stop,
             if STATUS_SUCCEEDED st2 \<and> stop
             then (let ag4 = ag3\<lparr>candidateGatheringFinished := True\<rparr> in
                   if hasNewLocalCandidateFn ag4 then ag4\<lparr>newCandidates := newCandidates ag4 @ [None]\<rparr> else ag4)
             else ag3) } } }"

definition iceAgentGatherCandidateTimerCallback :: "'n ice_env \<Rightarrow> nat \<Rightarrow> 'n ice_action" where
  "iceAgentGatherCandidateTimerCallback E currentTime ag =
     do {
       (st, stop, ag1) \<leftarrow> gatherRound E currentTime ag;
       Some (if stop then ie_stopScheduling E else st, if STATUS_FAILED st then iceAgentFatalError st ag1 else ag1) }"


subsection \<open>Restart\<close>

abbreviation NO_TIMER :: nat where
  "NO_TIMER \<equiv> 2 ^ 32 - 1"

definition cancelTimer :: "'n ice_env \<Rightarrow> ('n IceAgent \<Rightarrow> nat) \<Rightarrow> ('n IceAgent \<Rightarrow> 'n IceAgent) \<Rightarrow> 'n ice_action" where
  "cancelTimer E timer forget ag =
     (if timer ag = NO_TIMER then Some (STATUS_SUCCESS, ag)
      else do { (st, ag1) \<leftarrow> outside (ie_cancelTimer E (timer ag)) ag; Some (st, if STATUS_FAILED st then ag1 else forget ag1) })"

text \<open>The local candidates are remembered in an array of 100 entries.\<close>

definition leaveCandidate :: "'n ice_env \<Rightarrow> nat \<times> nat \<Rightarrow> 'n ice_action" where
  "leaveCandidate E = (\<lambda>(i, l) ag.
     do {
       c \<leftarrow> ia_cands ag l;
       (st, ag1) \<leftarrow> (if cd_type c = ICE_CANDIDATE_TYPE_RELAYED then outside (ie_turnConnectionShutdown E (cd_turn c) 0) ag
                     else Some (STATUS_SUCCESS, ag));
       if STATUS_FAILED st then Some (st, ag1) else if \<not> i < 100 then None else Some (STATUS_SUCCESS, ag1) })"

fun freePairs :: "nat list \<Rightarrow> 'n IceAgent \<Rightarrow> 'n IceAgent option" where
  "freePairs [] ag = Some ag"
| "freePairs (r # rs) ag =
     (if pDataSending ag = Some r then freePairs rs ag else do { ag1 \<leftarrow> freeIceCandidatePair r ag; freePairs rs ag1 })"

definition freeLocal :: "'n ice_env \<Rightarrow> nat \<Rightarrow> 'n ice_action" where
  "freeLocal E l ag =
     do {
       kept \<leftarrow> (case pDataSending ag of None \<Rightarrow> Some None | Some r \<Rightarrow> map_option (Some \<circ> cp_local) (ia_pairs ag r));
       if kept = Some l then Some (STATUS_SUCCESS, ag)
       else do {
         c \<leftarrow> ia_cands ag l;
         (st, ag1) \<leftarrow> (if cd_type c \<noteq> ICE_CANDIDATE_TYPE_RELAYED
                       then chkAll [outside (ie_removeConnection E (cd_socket c)), outside (ie_freeSocketConnection E (cd_socket c))] ag
                       else outside (ie_freeTurnConnection E (cd_turn c)) ag);
         Some (st, if STATUS_FAILED st then ag1 else ag1\<lparr>ia_cands := (ia_cands ag1)(l := None)\<rparr>) } }"

definition quiesce :: "'n IceAgent \<Rightarrow> 'n IceAgent" where
  "quiesce ag =
     ag\<lparr>processStun := False, ia_status := STATUS_SUCCESS, lastDataReceivedTime := INVALID_TIMESTAMP_VALUE, relayCandidateCount := 0,
        addedRelayCandidate := False, stopGathering := False\<rparr>"

definition renew :: "byte list \<Rightarrow> byte list \<Rightarrow> 'n IceAgent \<Rightarrow> 'n IceAgent" where
  "renew ufrag pwd ag =
     ag\<lparr>triggeredCheckQueue := [], remoteCredentialReceived := False, agentStartGathering := False, candidateGatheringFinished := False,
        stateEndTime := 0, foundationCounter := 0, candidateGatheringEndTime := INVALID_TIMESTAMP_VALUE,
        iceAgentStateTimerTask := NO_TIMER, keepAliveTimerTask := NO_TIMER, iceCandidateGatheringTimerTask := NO_TIMER,
        detectedDisconnection := False, disconnectionGracePeriodEndTime := INVALID_TIMESTAMP_VALUE,
        pSrflxIds := map_option transactionIdStoreClear (pSrflxIds ag), localUsername := take 256 ufrag, localPassword := take 256 pwd,
        iceAgentState := ICE_AGENT_STATE_NEW, processStun := True\<rparr>"

text \<open>
  The restart up to its last step; the state machine is set back with the agent's state.  Setting the
  current state of the machine is taken to succeed.
\<close>

definition restartAgent :: "'n ice_env \<Rightarrow> 'n ice_action" where
  "restartAgent E ag =
     (let locals = localCandidates ag in
      chkAll
       [cancelTimer E iceAgentStateTimerTask (\<lambda>ag. ag\<lparr>iceAgentStateTimerTask := NO_TIMER\<rparr>),
        cancelTimer E keepAliveTimerTask (\<lambda>ag. ag\<lparr>keepAliveTimerTask := NO_TIMER\<rparr>),
        cancelTimer E iceCandidateGatheringTimerTask (\<lambda>ag. ag\<lparr>iceCandidateGatheringTimerTask := NO_TIMER\<rparr>),
        \<lambda>ag. chkAll (map (leaveCandidate E) (enumerate 0 locals)) (quiesce ag),
        \<lambda>ag. do { ag1 \<leftarrow> freePairs (iceCandidatePairs ag) (ag\<lparr>localCandidates := []\<rparr>); Some (STATUS_SUCCESS, ag1\<lparr>iceCandidatePairs := []\<rparr>) },
        chkAll (map (freeLocal E) locals)] ag)"

definition iceAgentRestart :: "'n ice_env \<Rightarrow> byte list \<Rightarrow> byte list \<Rightarrow> ICE_AGENT_STATE \<Rightarrow> 'n ice_from" where
  "iceAgentRestart E ufrag pwd cur ag =
     (if ia_shutdown ag then Some (STATUS_INVALID_OPERATION, cur, ag)
      else if ia_restart ag then Some (STATUS_SUCCESS, cur, ag)
      else do {
        (st, ag1) \<leftarrow> restartAgent E (ag\<lparr>ia_restart := True\<rparr>);
        Some (if STATUS_FAILED st then (st, cur, ag1) else (STATUS_SUCCESS, ICE_AGENT_STATE_NEW, renew ufrag pwd ag1)) })"

end
