(* ===== verification/IceReachable.thy ===== *)
theory IceReachable
  imports IceInvariants IceGathering
begin

text \<open>
  The agent as a transition system: every entry point of the ICE agent is a step, and the invariant of
  the pairs holds in every reachable state.
\<close>

subsection \<open>Gathering keeps the pairs\<close>

interpretation kept_snd: step_closed "\<lambda>x y. keeps (snd x) (snd y)"
  by unfold_locales (auto intro: keeps_trans)

interpretation kept_third: step_closed "\<lambda>x y. keeps (snd (snd x)) (snd (snd y))"
  by unfold_locales (auto intro: keeps_trans)

interpretation kept_gathering: step_closed "\<lambda>x y. keeps (ga_agent x) (ga_agent y)"
  by unfold_locales (auto intro: keeps_trans)

text \<open>Fields the invariant does not see.\<close>

lemma after_fields:
  assumes "keeps a b"
  shows "keeps a (b\<lparr>foundationCounter := n\<rparr>)" "keeps a (b\<lparr>localNetworkInterfaces := ips\<rparr>)"
    "keeps a (b\<lparr>relayCandidateCount := n\<rparr>)" "keeps a (b\<lparr>agentStartGathering := q\<rparr>)" "keeps a (b\<lparr>candidateGatheringEndTime := n\<rparr>)"
    "keeps a (b\<lparr>iceAgentStateTimerTask := n\<rparr>)" "keeps a (b\<lparr>keepAliveTimerTask := n\<rparr>)" "keeps a (b\<lparr>iceCandidateGatheringTimerTask := n\<rparr>)"
    "keeps a (b\<lparr>newCandidates := cs\<rparr>)" "keeps a (b\<lparr>candidateGatheringFinished := q\<rparr>)" "keeps a (b\<lparr>localCandidates := ls\<rparr>)"
  by (rule keeps_trans [OF assms], rule keeps_fields; simp)+

lemma after_insertLocal: "keeps a b \<Longrightarrow> keeps a (insertLocal c b)"
  unfolding insertLocal_def by (rule keeps_trans, assumption, rule new_candidate_keeps)

lemma after_forget: "keeps a b \<Longrightarrow> keeps a (b\<lparr>ia_cands := (ia_cands b)(r := None)\<rparr>)"
  by (rule keeps_trans, assumption) (auto simp: keeps_def detached_def pairs_inv_def pair_prio_def)

lemma after_if: "keeps a x \<Longrightarrow> keeps a y \<Longrightarrow> keeps a (if b then x else y)"
  by simp

lemma after_outside: "outside f b = Some (st, c) \<Longrightarrow> keeps a b \<Longrightarrow> keeps a c"
  by (erule after_call [OF _ outside_keeps])

lemma after_create: "createIceCandidatePairs P n c rem b = Some (st, d) \<Longrightarrow> keeps a b \<Longrightarrow> keeps a d"
  by (erule after_call [OF _ createIceCandidatePairs_via])

lemmas gather_elims = after_outside after_create after_updateCandidate after_send after_address after_time
lemmas gather_intros = after_forget after_insertLocal after_fields after_ids after_world keeps_refl

lemma iceAgentReportNewLocalCandidate_keeps: "via keeps (iceAgentReportNewLocalCandidate E c)"
  unfolding iceAgentReportNewLocalCandidate_def
  by (rule via_keeping, intro keeping_rules) (auto intro: gather_intros)

lemma tellTurn_keeps: "via keeps (tellTurn E ip l)"
  unfolding tellTurn_def by (rule via_keeping, intro keeping_rules keeping_call [OF outside_keeps] keeps_refl)

lemma addRemote_keeps: "via keeps (addRemote E ln)"
proof (rule viaI)
  fix ag st ag' assume a: "addRemote E ln ag = Some (st, ag')"
  let ?fs = "[createIceCandidatePairs (stun_platform (ie_stun E)) (ie_sizeofPair E) (ia_next ag) True,
         \<lambda>ag. chkAll (map (tellTurn E (ln_ip ln)) (localCandidates ag)) ag]"
  have "via keeps (chkAll ?fs)"
    by (rule kept.chkAll_via) (auto intro: createIceCandidatePairs_via viaI kept.all_via [OF tellTurn_keeps])
  then show "keeps ag ag'"
    using a unfolding addRemote_def Let_def by (blast intro: after_call new_candidate_keeps)
qed

lemma iceAgentAddRemoteCandidate_keeps: "via keeps (iceAgentAddRemoteCandidate E T line)"
  unfolding iceAgentAddRemoteCandidate_def
  by (rule via_keeping, intro keeping_rules keeping_call [OF addRemote_keeps] keeps_refl)


lemma hostStep_keeps: "via (\<lambda>x y. keeps (snd x) (snd y)) (hostStep E i)"
  unfolding hostStep_def
  by (rule via_keeping_in, intro keeping_rules) ((hypsubst)?, unfold snd_conv, (erule gather_elims | rule gather_intros)+)+

lemma iceAgentInitHostCandidate_keeps: "via keeps (iceAgentInitHostCandidate E)"
  unfolding iceAgentInitHostCandidate_def
  by (intro recording_keeps viaI) (auto simp: bind_eq_Some_conv dest!: kept_snd.all_via [OF hostStep_keeps])

lemma srflxServer_keeps: "via (\<lambda>x y. keeps (snd x) (snd y)) (srflxServer E l j)"
  unfolding srflxServer_def
  by (rule via_keeping_in, intro keeping_rules) ((hypsubst)?, unfold snd_conv, (rule gather_intros)+)+

lemma srflxCandidate_keeps: "via (\<lambda>x y. keeps (snd x) (snd y)) (srflxCandidate E l)"
  unfolding srflxCandidate_def
  by (rule viaI) (auto simp: bind_eq_Some_conv split: if_splits dest!: kept_snd.all_via [OF srflxServer_keeps])

lemma srflxSocket_keeps: "via keeps (srflxSocket E r)"
  unfolding srflxSocket_def
  by (rule via_keeping, intro keeping_rules keeping_call [OF outside_keeps]) (erule gather_elims | rule gather_intros)+

lemma iceAgentInitSrflxCandidate_keeps: "via keeps (iceAgentInitSrflxCandidate E)"
  unfolding iceAgentInitSrflxCandidate_def
  by (intro recording_keeps viaI)
    (auto simp: bind_eq_Some_conv split: if_splits
      dest!: kept_snd.all_via [OF srflxCandidate_keeps] kept.all_via [OF srflxSocket_keeps] intro: keeps_trans)

lemma srflxRequest_keeps: "via (\<lambda>x y. keeps (snd (snd x)) (snd (snd y))) (srflxRequest E l)"
  unfolding srflxRequest_def
  by (rule via_keeping_in [of "\<lambda>x. snd (snd x)"], intro keeping_rules) ((hypsubst)?, unfold snd_conv, (erule gather_elims | rule gather_intros)+)+

lemma iceAgentSendSrflxCandidateRequest_keeps: "via keeps (iceAgentSendSrflxCandidateRequest E)"
  unfolding iceAgentSendSrflxCandidateRequest_def
  by (intro recording_keeps viaI)
    (auto simp: bind_eq_Some_conv split: if_splits dest!: kept_third.all_via [OF srflxRequest_keeps] intro: gather_intros keeps_trans [OF after_world [OF keeps_refl]])


lemma iceAgentInitRelayCandidate_keeps: "via keeps (iceAgentInitRelayCandidate E j protocol fam)"
proof -
  have peer: "via keeps (\<lambda>ag. do { c \<leftarrow> ia_cands ag r;
      if family (cd_ipAddress c) = 1 then outside (ie_turnConnectionAddPeer E (Some turn) (cd_ipAddress c)) ag else Some (STATUS_SUCCESS, ag) })"
    for r turn
    by (rule via_keeping, intro keeping_rules keeping_call [OF outside_keeps] keeps_refl)
  have run: "via keeps (chkAll
      [\<lambda>ag. chkAll (map (\<lambda>r ag. do { c \<leftarrow> ia_cands ag r;
          if family (cd_ipAddress c) = 1 then outside (ie_turnConnectionAddPeer E (Some turn) (cd_ipAddress c)) ag
          else Some (STATUS_SUCCESS, ag) }) (remoteCandidates ag)) ag,
       \<lambda>ag. Some (STATUS_SUCCESS, ag\<lparr>relayCandidateCount := wrap32 (relayCandidateCount ag + 1)\<rparr>),
       outside (ie_turnConnectionStart E (Some turn))])" for turn
    by (intro kept.Cons_via kept.Nil_via outside_keeps; rule viaI) (auto intro!: gather_intros elim!: kept.all_via [OF peer])
  show ?thesis
    unfolding iceAgentInitRelayCandidate_def
    by (rule via_keeping, intro keeping_rules keeping_call [OF run]) (rule gather_intros)+
qed

lemma relayTry_keeps: "via (\<lambda>x y. keeps (snd x) (snd y)) (relayTry E j s protocol fam)"
  unfolding relayTry_def
  by (rule viaI) (auto simp: bind_eq_Some_conv split: if_splits dest: viaD [OF iceAgentInitRelayCandidate_keeps])

lemma relayServer_keeps: "via (\<lambda>x y. keeps (snd x) (snd y)) (relayServer E j)"
proof (rule viaI)
  fix x y :: "bool \<times> 'a IceAgent" and st assume a: "relayServer E j x = Some (st, y)"
  have run: "via (\<lambda>x y. keeps (snd x) (snd y)) (chkAll
         [relayTry E j s KVS_SOCKET_PROTOCOL_UDP 1, relayTry E j s KVS_SOCKET_PROTOCOL_TCP 1,
          relayTry E j s KVS_SOCKET_PROTOCOL_UDP 2, relayTry E j s KVS_SOCKET_PROTOCOL_TCP 2,
          \<lambda>(ok, ag). Some (if ok then STATUS_SUCCESS else STATUS_FAILED_TO_INIT_RELAY_CANDIDATES, ok, ag)])" for s
    by (intro kept_snd.Cons_via kept_snd.Nil_via relayTry_keeps) (auto intro!: viaI)
  from a show "keeps (snd x) (snd y)"
    by (cases x) (auto simp: relayServer_def bind_eq_Some_conv simp del: chkAll.simps split: if_splits dest!: viaD [OF run])
qed

lemma iceAgentInitRelayCandidates_keeps: "via keeps (iceAgentInitRelayCandidates E)"
  unfolding iceAgentInitRelayCandidates_def
  by (intro recording_keeps viaI) (auto simp: bind_eq_Some_conv dest!: kept_snd.all_via [OF relayServer_keeps])

lemma gather_timer_keeps: "via keeps (startTimer E (\<lambda>t ag. ag\<lparr>iceCandidateGatheringTimerTask := t\<rparr>))"
  by (rule viaI) (auto simp: startTimer_def split: prod.splits if_splits intro!: gather_intros)

lemma iceAgentStartGathering_keeps: "via keeps (iceAgentStartGathering E)"
proof -
  have lookup: "via keeps (\<lambda>ag. case ie_getLocalhostIpAddresses E (ia_world ag) of
      (st, ips, w) \<Rightarrow> Some (st, ag\<lparr>ia_world := w, localNetworkInterfaces := ips\<rparr>))"
    by (rule via_keeping, intro keeping_rules) (rule gather_intros)+
  have deadline: "via keeps (\<lambda>ag. case iceTime E ag of (now, ag1) \<Rightarrow>
      Some (STATUS_SUCCESS, ag1\<lparr>candidateGatheringEndTime := wrap64 (now + iceLocalCandidateGatheringTimeout ag1)\<rparr>))"
    by (rule via_keeping, intro keeping_rules after_fields) (erule after_time, rule keeps_refl)
  show ?thesis
    unfolding iceAgentStartGathering_def
    by (rule recording_keeps, rule via_keeping, intro result_if keeping_call [OF kept.chkAll_via])
      (auto split: if_splits intro: result_Some gather_intros lookup deadline gather_timer_keeps outside_keeps iceAgentInitHostCandidate_keeps
        iceAgentInitSrflxCandidate_keeps iceAgentInitRelayCandidates_keeps)
qed

lemma gatherStep_keeps: "via (\<lambda>x y. keeps (ga_agent x) (ga_agent y)) (gatherStep E l)"
proof -
  have relay: "chkAll [updateCandidateAddress l ip, createIceCandidatePairs P n l b] x = Some (st, y) \<Longrightarrow> keeps a x \<Longrightarrow> keeps a y"
    for ip P n b st and a x y :: "'a IceAgent"
    by (erule after_call) (intro kept.Cons_via kept.Nil_via updateCandidateAddress_keeps createIceCandidatePairs_via)
  show ?thesis
    unfolding gatherStep_def
    by (rule via_keeping_in [of ga_agent], intro keeping_rules)
      (simp_all del: chkAll.simps, (erule relay gather_elims | rule gather_intros | simp only: gathering.simps)+)
qed

lemma iceAgentGatherCandidateTimerCallback_keeps: "via keeps (iceAgentGatherCandidateTimerCallback E t)"
proof (rule viaI)
  fix ag st ag' assume a: "iceAgentGatherCandidateTimerCallback E t ag = Some (st, ag')"
  have request: "(if b then iceAgentSendSrflxCandidateRequest E x else Some (STATUS_SUCCESS, x)) = Some (s, y) \<Longrightarrow> keeps c x \<Longrightarrow> keeps c y"
    for b s and c x y :: "'a IceAgent"
    by (auto split: if_splits elim: after_call [OF _ iceAgentSendSrflxCandidateRequest_keeps])
  have report: "chkAll (map (iceAgentReportNewLocalCandidate E) cs) x = Some (s, y) \<Longrightarrow> keeps c x \<Longrightarrow> keeps c y"
    for cs s and c x y :: "'a IceAgent"
    by (rule keeps_trans, assumption, rule kept.all_via [OF iceAgentReportNewLocalCandidate_keeps])
  have first: "chkAll (map (gatherStep E) ls) \<lparr>ga_new = [], ga_count = 0, ga_pending = 0, ga_srflx = 0, ga_agent = x\<rparr> = Some (s, g) \<Longrightarrow>
      keeps c x \<Longrightarrow> keeps c (ga_agent g)" for ls s g and c x :: "'a IceAgent"
    by (rule keeps_trans, assumption, drule kept_gathering.all_via [OF gatherStep_keeps]) simp
  have "keeping_in snd ag (gatherRound E t ag)"
    unfolding gatherRound_def
    by (intro keeping_rules)
      ((unfold Let_def snd_conv)?, ((hypsubst)+)?, (erule first request report | rule after_if gather_intros)+)+
  then obtain s stop ag1 where "keeps ag ag1" "ag' = (if STATUS_FAILED s then iceAgentFatalError s ag1 else ag1)"
    using a by (auto simp: iceAgentGatherCandidateTimerCallback_def bind_eq_Some_conv result_in_def)
  then show "keeps ag ag'" by (auto simp: iceAgentFatalError_def intro: keeps_trans status_keeps)
qed


subsection \<open>Restart\<close>

lemma cancelTimer_keeps:
  assumes "\<And>a b. keeps a b \<Longrightarrow> keeps a (forget b)"
  shows "via keeps (cancelTimer E timer forget)"
  unfolding cancelTimer_def
  by (rule via_keeping, intro keeping_rules) (((hypsubst)+)?, (erule gather_elims | rule assms after_if gather_intros)+)+

lemma leaveCandidate_keeps: "via keeps (leaveCandidate E p)"
proof -
  have off: "(if b then outside f x else Some (STATUS_SUCCESS, x)) = Some (s, y) \<Longrightarrow> keeps a x \<Longrightarrow> keeps a y" for b f s and a x y :: "'a IceAgent"
    by (auto split: if_splits elim: after_outside)
  show ?thesis
    unfolding leaveCandidate_def
    by (cases p, simp only: prod.case, rule via_keeping, intro keeping_rules) (((hypsubst)+)?, (erule off | rule gather_intros)+)+
qed

lemma freePairs_frame:
  "freePairs rs ag = Some ag' \<Longrightarrow>
   iceAgentState ag' = iceAgentState ag \<and> pDataSending ag' = pDataSending ag \<and> ia_next ag' = ia_next ag \<and> ia_cands ag' = ia_cands ag \<and>
   (\<forall>r. ia_pairs ag r = None \<longrightarrow> ia_pairs ag' r = None)"
proof (induction rs arbitrary: ag)
  case (Cons r rs)
  then show ?case
    by (fastforce simp: bind_eq_Some_conv freeIceCandidatePair_def split: if_splits)
qed simp

lemma freeLocal_frame: "via keeps (freeLocal E l)"
proof -
  have closing: "(if b then chkAll [outside f, outside g] x else outside h x) = Some (s, y) \<Longrightarrow> keeps a x \<Longrightarrow> keeps a y"
    for b f g h s and a x y :: "'a IceAgent"
    by (auto split: if_splits simp del: chkAll.simps elim: after_outside after_call [OF _ kept.Cons_via [OF outside_keeps kept.Cons_via [OF outside_keeps kept.Nil_via]]])
  show ?thesis
    unfolding freeLocal_def
    by (rule via_keeping, intro keeping_rules) (((hypsubst)+)?, (erule closing | rule after_if gather_intros)+)+
qed

text \<open>The restart clears the recorded status; up to its last step it leaves the agent's state alone.\<close>

definition stable :: "'n IceAgent \<Rightarrow> 'n IceAgent \<Rightarrow> bool" where
  "stable ag ag' \<longleftrightarrow> iceAgentState ag' = iceAgentState ag \<and> (pairs_inv ag \<longrightarrow> pairs_inv ag' \<and> (detached ag \<longrightarrow> detached ag'))"

interpretation steady: step_closed stable
  by unfold_locales (auto simp: stable_def)

lemma keeps_stable: "via keeps f \<Longrightarrow> via stable f"
  by (auto simp: via_def keeps_def stable_def)

lemma quiesce_stable: "stable ag (quiesce ag)"
  using pairs_inv_cong [of "quiesce ag" ag] by (auto simp: stable_def quiesce_def detached_def)

lemma clear_stable:
  assumes "freePairs (iceCandidatePairs ag) (ag\<lparr>localCandidates := []\<rparr>) = Some b"
  shows "stable ag (b\<lparr>iceCandidatePairs := []\<rparr>)"
proof -
  from freePairs_frame [OF assms] show ?thesis
    by (auto simp: stable_def pairs_inv_def detached_def) (metis not_None_eq)+
qed

lemma restartAgent_stable: "via stable (restartAgent E)"
proof (rule viaI)
  fix ag st ag' assume a: "restartAgent E ag = Some (st, ag')"
  have timers: "via stable (cancelTimer E iceAgentStateTimerTask (\<lambda>ag. ag\<lparr>iceAgentStateTimerTask := NO_TIMER\<rparr>))"
    "via stable (cancelTimer E keepAliveTimerTask (\<lambda>ag. ag\<lparr>keepAliveTimerTask := NO_TIMER\<rparr>))"
    "via stable (cancelTimer E iceCandidateGatheringTimerTask (\<lambda>ag. ag\<lparr>iceCandidateGatheringTimerTask := NO_TIMER\<rparr>))"
    by (intro keeps_stable cancelTimer_keeps after_fields; assumption)+
  have leave: "via stable (\<lambda>ag. chkAll (map (leaveCandidate E) xs) (quiesce ag))" for xs
    by (rule viaI, rule steady.trans [OF quiesce_stable], rule steady.all_via [OF keeps_stable [OF leaveCandidate_keeps]])
  have clear: "via stable (\<lambda>ag. do { ag1 \<leftarrow> freePairs (iceCandidatePairs ag) (ag\<lparr>localCandidates := []\<rparr>); Some (STATUS_SUCCESS, ag1\<lparr>iceCandidatePairs := []\<rparr>) })"
    by (rule viaI) (auto simp: bind_eq_Some_conv intro: clear_stable)
  have free: "via stable (chkAll (map (freeLocal E) xs))" for xs
    by (rule viaI) (rule steady.all_via [OF keeps_stable [OF freeLocal_frame]])
  show "stable ag ag'"
    by (rule chkAll_viaD [OF a [unfolded restartAgent_def Let_def]])
      (intro steady.Cons_via steady.Nil_via timers leave clear free)
qed

interpretation listed: step_closed "\<lambda>a b :: 'n IceAgent. iceCandidatePairs b = iceCandidatePairs a"
  by unfold_locales auto

lemma outside_list: "outside f a = Some (st, b) \<Longrightarrow> iceCandidatePairs b = iceCandidatePairs a"
  by (auto simp: outside_def split: prod.splits)

lemma freeLocal_list: "via (\<lambda>a b. iceCandidatePairs b = iceCandidatePairs a) (freeLocal E l)"
proof -
  have closing: "iceCandidatePairs y = iceCandidatePairs x"
    if "(if b then chkAll [outside f, outside g] x else outside h x) = Some (s, y)" for b f g h s and x y :: "'a IceAgent"
  proof (cases b)
    case True
    have "via (\<lambda>a b :: 'a IceAgent. iceCandidatePairs b = iceCandidatePairs a) (chkAll [outside f, outside g])"
      by (intro listed.Cons_via listed.Nil_via viaI outside_list)
    from viaD [OF this] show ?thesis using that True by simp
  qed (use that in \<open>auto dest: outside_list\<close>)
  show ?thesis
    unfolding freeLocal_def by (rule via_result, intro keeping_rules) (auto dest!: closing)
qed

lemma restart_empties:
  assumes "restartAgent E ag = Some (STATUS_SUCCESS, ag')"
  shows "iceCandidatePairs ag' = []"
proof -
  obtain b c where "freePairs (iceCandidatePairs b) (b\<lparr>localCandidates := []\<rparr>) = Some c"
    and last: "chkAll (map (freeLocal E) (localCandidates ag)) (c\<lparr>iceCandidatePairs := []\<rparr>) = Some (STATUS_SUCCESS, ag')"
    using assms unfolding restartAgent_def Let_def
    by (elim chkAll_Cons) (auto simp: bind_eq_Some_conv elim!: chkAll_Cons split: if_split_asm simp del: chkAll.simps(2))
  show ?thesis using listed.all_via [OF freeLocal_list last] by simp
qed

end
