(* ===== verification/IceLifecycle.thy ===== *)
theory IceLifecycle
  imports IceReachable
begin

text \<open>
  \<^verbatim>\<open>src/source/Ice/IceAgent.c\<close>, the rest of an agent's life: media that is sent over the chosen pair,
  data and failures reported by TURN connections, and the shutdown.  All of them keep the invariant of
  the pairs.
\<close>

subsection \<open>Sending media\<close>

text \<open>What \<^verbatim>\<open>iceAgentSendPacket\<close> sees of the agent; the candidates are looked at when the pair has succeeded.\<close>

definition sendingPair :: "'n IceAgent \<Rightarrow> IceCandidatePair \<Rightarrow> SendingPair option" where
  "sendingPair ag p =
     (if ia_shutdown ag \<or> cp_state p \<noteq> ICE_CANDIDATE_PAIR_STATE_SUCCEEDED
      then Some \<lparr>local_type = None, local_hasSocketConnection = False, local_hasTurnConnection = False, remote_ipAddress = zeroAddress,
                 pair_state = cp_state p, lastDataSentTime = cp_lastDataSentTime p, pairDiagnostics = None\<rparr>
      else do {
        l \<leftarrow> ia_cands ag (cp_local p);
        rem \<leftarrow> ia_cands ag (cp_remote p);
        Some \<lparr>local_type = Some (cd_type l), local_hasSocketConnection = (cd_socket l \<noteq> None), local_hasTurnConnection = (cd_turn l \<noteq> None),
              remote_ipAddress = cd_ipAddress rem, pair_state = cp_state p, lastDataSentTime = cp_lastDataSentTime p, pairDiagnostics = None\<rparr> })"

definition sendingAgent :: "'n IceAgent \<Rightarrow> SendingAgent option" where
  "sendingAgent ag =
     do {
       pair \<leftarrow> (case pDataSending ag of
                  None \<Rightarrow> Some None
                | Some r \<Rightarrow> do { p \<leftarrow> ia_pairs ag r; v \<leftarrow> sendingPair ag p; Some (Some v) });
       Some \<lparr>agent_shutdown = ia_shutdown ag, iceAgentStatus = ia_status ag, pDataSendingIceCandidatePair = pair\<rparr> }"

text \<open>Back to the agent: the status, and state and time of the pair.\<close>

definition noteSent :: "SendingAgent \<Rightarrow> 'n IceAgent \<Rightarrow> 'n IceAgent option" where
  "noteSent v ag =
     (case (pDataSending ag, pDataSendingIceCandidatePair v) of
        (Some r, Some sp) \<Rightarrow> updatePair r (\<lambda>p. p\<lparr>cp_state := pair_state sp, cp_lastDataSentTime := lastDataSentTime sp\<rparr>) (ag\<lparr>ia_status := iceAgentStatus v\<rparr>)
      | _ \<Rightarrow> Some ag)"

definition iceAgentSend :: "'n ice_env \<Rightarrow> byte list option \<Rightarrow> nat \<Rightarrow> 'n ice_action" where
  "iceAgentSend E pBuffer bufferLen ag =
     do {
       v \<leftarrow> sendingAgent ag;
       (st, pv, w) \<leftarrow> iceAgentSendPacket (ie_net E) (ia_world ag) (Some v) pBuffer bufferLen;
       v' \<leftarrow> pv;
       ag' \<leftarrow> noteSent v' (ag\<lparr>ia_world := w\<rparr>);
       Some (st, ag') }"

subsection \<open>TURN connections\<close>

text \<open>Data relayed by a TURN server: every piece is handled like a packet from its sender; failures are ignored.\<close>

fun relayEach :: "'n ice_env \<Rightarrow> nat \<Rightarrow> (byte list \<times> KvsIpAddress) list \<Rightarrow> 'n IceAgent \<Rightarrow> 'n IceAgent option" where
  "relayEach E sock [] ag = Some ag"
| "relayEach E sock ((bytes, sender) # ds) ag =
     do { (_, ag') \<leftarrow> incomingDataHandler E bytes (length bytes) sock sender ag; relayEach E sock ds ag' }"

definition incomingRelayedDataHandler :: "'n ice_env \<Rightarrow> nat \<Rightarrow> nat \<Rightarrow> byte list \<Rightarrow> KvsIpAddress \<Rightarrow> 'n ice_action" where
  "incomingRelayedDataHandler E l sock buf src ag =
     do {
       c \<leftarrow> ia_cands ag l;
       (case ie_turnConnectionIncomingDataHandler E (cd_turn c) buf src (ia_world ag) of
          (st, ds, w) \<Rightarrow>
            if STATUS_FAILED st then Some (st, ag\<lparr>ia_world := w\<rparr>)
            else do { ag' \<leftarrow> relayEach E sock ds (ag\<lparr>ia_world := w\<rparr>); Some (STATUS_SUCCESS, ag') }) }"

definition turnStateFailedFn :: "nat \<Rightarrow> 'n ice_action" where
  "turnStateFailedFn l ag =
     do {
       ag' \<leftarrow> updateCandidate l (\<lambda>c. if cd_state c = ICE_CANDIDATE_STATE_NEW then c\<lparr>cd_state := ICE_CANDIDATE_STATE_INVALID\<rparr> else c) ag;
       Some (STATUS_SUCCESS, ag') }"

subsection \<open>Shutdown\<close>

text \<open>One local candidate: its socket is closed, or its TURN connection shut down and remembered in an array of four entries.\<close>

definition closeCandidate :: "'n ice_env \<Rightarrow> nat \<Rightarrow> nat option list \<times> 'n IceAgent \<Rightarrow> (STATUS \<times> nat option list \<times> 'n IceAgent) option" where
  "closeCandidate E l = (\<lambda>(turns, ag).
     do {
       c \<leftarrow> ia_cands ag l;
       if cd_type c \<noteq> ICE_CANDIDATE_TYPE_RELAYED
       then do { (st, ag1) \<leftarrow> outside (ie_socketConnectionClosed E (cd_socket c)) ag; Some (st, turns, ag1) }
       else do {
         (st, ag1) \<leftarrow> outside (ie_turnConnectionShutdown E (cd_turn c) 0) ag;
         if STATUS_FAILED st then Some (st, turns, ag1)
         else if \<not> length turns < 4 then None
         else Some (STATUS_SUCCESS, turns @ [cd_turn c], ag1) } })"

text \<open>The wait for the TURN connections, at most until the given time; it may not end when time does not pass.\<close>

partial_function (option) awaitTurn :: "'n ice_env \<Rightarrow> nat option list \<Rightarrow> nat \<Rightarrow> 'n IceAgent \<Rightarrow> 'n IceAgent option" where
  "awaitTurn E turns until ag =
     (case iceTime E ag of
        (now, ag1) \<Rightarrow>
          if \<not> now < until then Some ag1
          else let ag2 = ag1\<lparr>ia_world := ie_sleep E (ia_world ag1)\<rparr> in
            if \<forall>t \<in> set turns. ie_turnConnectionIsShutdownComplete E t (ia_world ag1) then Some ag2
            else awaitTurn E turns until ag2)"

definition shutdownAgent :: "'n ice_env \<Rightarrow> 'n ice_action" where
  "shutdownAgent E =
     chkAll
       [cancelTimer E iceAgentStateTimerTask (\<lambda>ag. ag\<lparr>iceAgentStateTimerTask := NO_TIMER\<rparr>),
        cancelTimer E keepAliveTimerTask (\<lambda>ag. ag\<lparr>keepAliveTimerTask := NO_TIMER\<rparr>),
        cancelTimer E iceCandidateGatheringTimerTask (\<lambda>ag. ag\<lparr>iceCandidateGatheringTimerTask := NO_TIMER\<rparr>),
        \<lambda>ag. do {
          (st, turns, ag1) \<leftarrow> chkAll (map (closeCandidate E) (localCandidates ag)) ([], ag);
          if STATUS_FAILED st then Some (st, ag1)
          else (case iceTime E ag1 of (now, ag2) \<Rightarrow> do { ag3 \<leftarrow> awaitTurn E turns (wrap64 (now + 10000000)) ag2; Some (STATUS_SUCCESS, ag3) }) },
        outside (ie_removeAllConnections E)]"

definition iceAgentShutdown :: "'n ice_env \<Rightarrow> 'n ice_action" where
  "iceAgentShutdown E ag = (if ia_shutdown ag then Some (STATUS_SUCCESS, ag) else shutdownAgent E (ag\<lparr>ia_shutdown := True\<rparr>))"

subsection \<open>The pairs are kept\<close>

text \<open>Sending never clears a recorded failure.\<close>

lemma send_status:
  assumes "iceAgentSendPacket W w (Some v) buf n = Some (st, Some v', w')" "STATUS_FAILED (iceAgentStatus v)"
  shows "STATUS_FAILED (iceAgentStatus v')"
proof -
  have "result_in fst (\<lambda>pv. \<forall>v'. pv = Some v' \<longrightarrow> STATUS_FAILED (iceAgentStatus v')) (iceAgentSendPacket W w (Some v) buf n)"
    unfolding iceAgentSendPacket_def
    by (cases buf; simp only: prod.case option.case; intro keeping_rules) (use assms(2) in auto)
  then show ?thesis using assms(1) by (auto simp: result_in_def)
qed

lemma noteSent_keeps:
  assumes "noteSent v ag = Some ag'" "STATUS_FAILED (ia_status ag) \<Longrightarrow> STATUS_FAILED (iceAgentStatus v)"
  shows "keeps ag ag'"
proof -
  have "keeps ag (ag\<lparr>ia_status := iceAgentStatus v\<rparr>)"
    using assms(2) by (auto simp: keeps_def detached_def pairs_inv_def pair_prio_def)
  then show ?thesis using assms(1) by (auto simp: noteSent_def split: option.splits elim!: after_updatePair)
qed

lemma iceAgentSend_keeps: "via keeps (iceAgentSend E buf n)"
proof (rule viaI)
  fix ag ag' :: "'a IceAgent" and st
  assume "iceAgentSend E buf n ag = Some (st, ag')"
  then obtain v v' w where v: "sendingAgent ag = Some v" "iceAgentSendPacket (ie_net E) (ia_world ag) (Some v) buf n = Some (st, Some v', w)"
    "noteSent v' (ag\<lparr>ia_world := w\<rparr>) = Some ag'"
    by (auto simp: iceAgentSend_def bind_eq_Some_conv)
  have "iceAgentStatus v = ia_status ag" using v(1) by (auto simp: sendingAgent_def bind_eq_Some_conv)
  then have "keeps (ag\<lparr>ia_world := w\<rparr>) ag'" using noteSent_keeps [OF v(3)] send_status [OF v(2)] by simp
  then show "keeps ag ag'" by (blast intro: keeps_trans after_world keeps_refl)
qed

lemma relayEach_keeps: "relayEach E sock ds ag = Some ag' \<Longrightarrow> keeps ag ag'"
proof (induction ds arbitrary: ag)
  case (Cons d ds)
  obtain bytes sender where d: "d = (bytes, sender)" by fastforce
  with Cons.prems obtain st ag1 where "incomingDataHandler E bytes (length bytes) sock sender ag = Some (st, ag1)" "relayEach E sock ds ag1 = Some ag'"
    by (auto simp: bind_eq_Some_conv)
  then show ?case using Cons.IH by (blast intro: keeps_trans viaD [OF incomingDataHandler_keeps])
qed simp

lemma incomingRelayedDataHandler_keeps: "via keeps (incomingRelayedDataHandler E l sock buf src)"
  unfolding incomingRelayedDataHandler_def
  by (rule via_keeping, intro keeping_rules) (blast intro: keeps_trans relayEach_keeps after_world keeps_refl)+

lemma turnStateFailedFn_keeps: "via keeps (turnStateFailedFn l)"
  unfolding turnStateFailedFn_def by (rule via_keeping, intro keeping_rules) (erule after_updateCandidate, rule keeps_refl)

lemma closeCandidate_keeps: "via (\<lambda>x y. keeps (snd x) (snd y)) (closeCandidate E l)"
  by (rule viaI) (auto simp: closeCandidate_def bind_eq_Some_conv split: if_splits elim!: after_outside)

lemma awaitTurn_keeps: "awaitTurn E turns until ag = Some ag' \<Longrightarrow> keeps ag ag'"
proof (induction rule: awaitTurn.raw_induct [of "\<lambda>E turns until ag ag'. keeps ag ag'", rotated, consumes 1])
  case (1 rec E turns until ag ag')
  obtain now b where b: "iceTime E ag = (now, b)" by fastforce
  then have "keeps ag b" by (rule iceTime_keeps)
  moreover have "keeps b (b\<lparr>ia_world := ie_sleep E (ia_world b)\<rparr>)" by (rule after_world) simp
  ultimately show ?case using 1 b by (auto simp: Let_def split: if_splits intro: keeps_trans)
qed

lemma shutdownAgent_keeps: "via keeps (shutdownAgent E)"
proof -
  have close: "via keeps (\<lambda>ag. do {
      (st, turns, ag1) \<leftarrow> chkAll (map (closeCandidate E) (localCandidates ag)) ([], ag);
      if STATUS_FAILED st then Some (st, ag1)
      else (case iceTime E ag1 of (now, ag2) \<Rightarrow> do { ag3 \<leftarrow> awaitTurn E turns (wrap64 (now + 10000000)) ag2; Some (STATUS_SUCCESS, ag3) }) })"
  proof (rule viaI)
    fix a a' :: "'a IceAgent" and st
    assume run: "(do {
      (st, turns, ag1) \<leftarrow> chkAll (map (closeCandidate E) (localCandidates a)) ([], a);
      if STATUS_FAILED st then Some (st, ag1)
      else (case iceTime E ag1 of (now, ag2) \<Rightarrow> do { ag3 \<leftarrow> awaitTurn E turns (wrap64 (now + 10000000)) ag2; Some (STATUS_SUCCESS, ag3) }) }) = Some (st, a')"
    then obtain st1 turns b where b: "chkAll (map (closeCandidate E) (localCandidates a)) ([], a) = Some (st1, turns, b)"
      by (auto simp: bind_eq_Some_conv)
    have "keeps a b" using kept_snd.all_via [OF closeCandidate_keeps b] by simp
    then show "keeps a a'"
      using run b by (auto simp: bind_eq_Some_conv split: if_splits prod.splits dest!: iceTime_keeps awaitTurn_keeps intro: keeps_trans)
  qed
  show ?thesis
    unfolding shutdownAgent_def
    by (intro kept.Cons_via kept.Nil_via cancelTimer_keeps close outside_keeps after_fields)
qed

lemma iceAgentShutdown_keeps: "via keeps (iceAgentShutdown E)"
proof -
  have "keeps ag (ag\<lparr>ia_shutdown := True\<rparr>)" for ag :: "'a IceAgent" by (rule keeps_fields) simp_all
  then show ?thesis
    by (intro viaI) (auto simp: iceAgentShutdown_def split: if_splits intro: keeps_trans viaD [OF shutdownAgent_keeps])
qed

end
