(* ===== verification/IceMachineSafety.thy ===== *)
theory IceMachineSafety
  imports IceLifecycle
begin

text \<open>
  The state machine of the ICE agent: every transition a state proposes is accepted, the states only
  move forward, the driver's loop ends, and the state of the machine and of the agent agree whenever the
  driver returns.
\<close>

subsection \<open>The invariant between calls, and within one\<close>

definition agent_inv :: "ICE_AGENT_STATE \<Rightarrow> 'n IceAgent \<Rightarrow> bool" where
  "agent_inv cur ag \<longleftrightarrow>
     pairs_inv ag \<and> cur = iceAgentState ag \<and> cur \<notin> {ICE_AGENT_STATE_NONE, ICE_AGENT_STATE_DISCONNECTED} \<and>
     (cur \<in> {ICE_AGENT_STATE_NEW, ICE_AGENT_STATE_CHECK_CONNECTION} \<longrightarrow> detached ag)"

definition half_inv :: "ICE_AGENT_STATE \<Rightarrow> 'n IceAgent \<Rightarrow> bool" where
  "half_inv s ag \<longleftrightarrow>
     pairs_inv ag \<and> (s = iceAgentState ag \<or> STATUS_FAILED (ia_status ag)) \<and>
     (iceAgentState ag = ICE_AGENT_STATE_FAILED \<longrightarrow> s = ICE_AGENT_STATE_FAILED) \<and>
     s \<notin> {ICE_AGENT_STATE_NONE, ICE_AGENT_STATE_NEW, ICE_AGENT_STATE_DISCONNECTED} \<and>
     (s = ICE_AGENT_STATE_CHECK_CONNECTION \<longrightarrow> detached ag)"

lemma half_kept: "keeps a b \<Longrightarrow> half_inv s a \<Longrightarrow> half_inv s b"
  by (auto simp: half_inv_def keeps_def)

subsection \<open>Executing a state\<close>

lemma swallowing_cases:
  assumes "swallowing f ag = Some (st, ag')"
  obtains st1 ag1 where "f ag = Some (st1, ag1)" "st = STATUS_SUCCESS" "ag' = (if STATUS_FAILED st1 then ag1\<lparr>ia_status := st1\<rparr> else ag1)"
  using assms by (auto simp: swallowing_def bind_eq_Some_conv)

lemma enter_setup:
  assumes run: "chkAll ((if iceAgentState ag \<noteq> s then [setup, enter s] else []) @ [rest]) ag = Some (st, ag')"
    and "I ag" and first: "\<And>st b. setup ag = Some (st, b) \<Longrightarrow> I b"
    and inside: "\<And>b. I b \<Longrightarrow> I (b\<lparr>iceAgentState := s\<rparr>)"
    and rest: "\<And>a st b. rest a = Some (st, b) \<Longrightarrow> I a \<Longrightarrow> I b \<and> iceAgentState b = iceAgentState a"
  shows "I ag' \<and> (iceAgentState ag' = s \<or> STATUS_FAILED st)"
proof (cases "iceAgentState ag = s")
  case True
  with run obtain st1 where "rest ag = Some (st1, ag')" by (auto simp: bind_eq_Some_conv split: if_splits)
  with rest [OF this \<open>I ag\<close>] True show ?thesis by simp
next
  case False
  then have "chkAll [setup, enter s, rest] ag = Some (st, ag')" using run by simp
  then obtain st1 b where b: "setup ag = Some (st1, b)" "if STATUS_FAILED st1 then (st, ag') = (st1, b) else chkAll [enter s, rest] b = Some (st, ag')"
    by (rule chkAll_Cons)
  show ?thesis
  proof (cases "STATUS_FAILED st1")
    case True
    with b first show ?thesis by auto
  next
    case False
    with b(2) obtain st2 where "rest (b\<lparr>iceAgentState := s\<rparr>) = Some (st2, ag')"
      by (auto simp: enter_def bind_eq_Some_conv split: if_splits)
    from rest [OF this] first [OF b(1)] inside show ?thesis by auto
  qed
qed

lemma status_kept: "keeps a b \<Longrightarrow> keeps a (if STATUS_FAILED st then b\<lparr>ia_status := st\<rparr> else b)"
  by (auto intro: keeps_trans status_keeps)

lemma invs_fields [simp]:
  "pairs_inv (ag\<lparr>iceAgentState := s\<rparr>) = pairs_inv ag" "detached (ag\<lparr>iceAgentState := s\<rparr>) = detached ag"
  "pairs_inv (ag\<lparr>ia_status := st\<rparr>) = pairs_inv ag" "detached (ag\<lparr>ia_status := st\<rparr>) = detached ag"
  "pairs_inv (ag\<lparr>iceAgentStartTime := t\<rparr>) = pairs_inv ag" "detached (ag\<lparr>iceAgentStartTime := t\<rparr>) = detached ag"
  "pairs_inv (ag\<lparr>detectedDisconnection := q, disconnectionGracePeriodEndTime := t\<rparr>) = pairs_inv ag"
  "pairs_inv (ag\<lparr>detectedDisconnection := q\<rparr>) = pairs_inv ag"
  "pairs_inv (ag\<lparr>stateChanges := cs\<rparr>) = pairs_inv ag" "detached (ag\<lparr>stateChanges := cs\<rparr>) = detached ag"
  by (simp_all add: pairs_inv_def pair_prio_def detached_def)

lemma executeCheckConnection_inv:
  assumes "executeCheckConnectionIceAgentState E ag = Some (st, ag')" "pairs_inv ag" "detached ag" "iceAgentState ag \<noteq> ICE_AGENT_STATE_FAILED"
  shows "st = STATUS_SUCCESS \<and> half_inv ICE_AGENT_STATE_CHECK_CONNECTION ag'"
proof -
  let ?fs = "(if iceAgentState ag \<noteq> ICE_AGENT_STATE_CHECK_CONNECTION
           then [iceAgentCheckConnectionStateSetup E, enter ICE_AGENT_STATE_CHECK_CONNECTION] else []) @ [iceAgentCheckCandidatePairConnection E]"
  obtain b where b: "swallowing (chkAll ?fs) ag = Some (st, b)"
    and ag': "ag' = (if iceAgentStartTime b = 0 then (case iceTime E b of (now, c) \<Rightarrow> c\<lparr>iceAgentStartTime := now\<rparr>) else b)"
    using assms(1) by (auto simp: executeCheckConnectionIceAgentState_def bind_eq_Some_conv simp del: chkAll.simps)
  from b obtain st1 c where c: "chkAll ?fs ag = Some (st1, c)" "st = STATUS_SUCCESS" "b = (if STATUS_FAILED st1 then c\<lparr>ia_status := st1\<rparr> else c)"
    by (rule swallowing_cases)
  have inv: "(pairs_inv c \<and> detached c \<and> iceAgentState c \<noteq> ICE_AGENT_STATE_FAILED) \<and> (iceAgentState c = ICE_AGENT_STATE_CHECK_CONNECTION \<or> STATUS_FAILED st1)"
    using c(1)
  proof (rule enter_setup [where I = "\<lambda>a. pairs_inv a \<and> detached a \<and> iceAgentState a \<noteq> ICE_AGENT_STATE_FAILED"])
    show "pairs_inv d \<and> detached d \<and> iceAgentState d \<noteq> ICE_AGENT_STATE_FAILED" if "iceAgentCheckConnectionStateSetup E ag = Some (st, d)" for st d
      using viaD [OF iceAgentCheckConnectionStateSetup_keeps that] assms(2-4) by (simp add: keeps_def)
    show "(pairs_inv d \<and> detached d \<and> iceAgentState d \<noteq> ICE_AGENT_STATE_FAILED) \<and> iceAgentState d = iceAgentState a"
      if "iceAgentCheckCandidatePairConnection E a = Some (st, d)" "pairs_inv a \<and> detached a \<and> iceAgentState a \<noteq> ICE_AGENT_STATE_FAILED" for a st d
      using viaD [OF iceAgentCheckCandidatePairConnection_keeps that(1)] that(2) by (simp add: keeps_def)
  qed (use assms(2-4) in simp_all)
  have "half_inv ICE_AGENT_STATE_CHECK_CONNECTION b" using inv c(3) by (auto simp: half_inv_def)
  obtain now d where d: "iceTime E b = (now, d)" by fastforce
  have "half_inv ICE_AGENT_STATE_CHECK_CONNECTION d"
    using iceTime_keeps [OF d] \<open>half_inv ICE_AGENT_STATE_CHECK_CONNECTION b\<close> by (rule half_kept)
  then have "half_inv ICE_AGENT_STATE_CHECK_CONNECTION ag'"
    using \<open>half_inv ICE_AGENT_STATE_CHECK_CONNECTION b\<close> unfolding ag' d prod.case by (simp add: half_inv_def)
  then show ?thesis using c(2) by simp
qed

lemma executeConnected_inv:
  assumes "executeConnectedIceAgentState E ag = Some (st, ag')" "pairs_inv ag" "detached ag" "iceAgentState ag \<noteq> ICE_AGENT_STATE_FAILED"
  shows "st = STATUS_SUCCESS \<and> half_inv ICE_AGENT_STATE_CONNECTED ag'"
proof -
  obtain st1 c where c: "chkAll [iceAgentConnectedStateSetup E, enter ICE_AGENT_STATE_CONNECTED] ag = Some (st1, c)" "st = STATUS_SUCCESS"
      "ag' = (if STATUS_FAILED st1 then c\<lparr>ia_status := st1\<rparr> else c)"
    using assms(1) unfolding executeConnectedIceAgentState_def by (rule swallowing_cases)
  from c(1) obtain st2 b where b: "iceAgentConnectedStateSetup E ag = Some (st2, b)"
      "if STATUS_FAILED st2 then (st1, c) = (st2, b) else chkAll [enter ICE_AGENT_STATE_CONNECTED] b = Some (st1, c)"
    by (rule chkAll_Cons)
  have "pairs_inv b \<and> iceAgentState b \<noteq> ICE_AGENT_STATE_FAILED" using iceAgentConnectedStateSetup_sound [OF b(1) assms(3)] assms(2,4) by (simp add: sound_def)
  then show ?thesis using b(2) c(2,3) by (auto simp: half_inv_def enter_def split: if_splits)
qed

lemma executeNominating_inv:
  assumes "executeNominatingIceAgentState E ag = Some (st, ag')" "pairs_inv ag" "iceAgentState ag \<noteq> ICE_AGENT_STATE_FAILED"
  shows "st = STATUS_SUCCESS \<and> half_inv ICE_AGENT_STATE_NOMINATING ag'"
proof -
  let ?rest = "if isControlling ag then iceAgentSendCandidateNomination E else iceAgentCheckCandidatePairConnection E"
  obtain st1 c where c: "chkAll ((if iceAgentState ag \<noteq> ICE_AGENT_STATE_NOMINATING
        then [iceAgentNominatingStateSetup E, enter ICE_AGENT_STATE_NOMINATING] else []) @ [?rest]) ag = Some (st1, c)" "st = STATUS_SUCCESS"
      "ag' = (if STATUS_FAILED st1 then c\<lparr>ia_status := st1\<rparr> else c)"
    using assms(1) unfolding executeNominatingIceAgentState_def by (rule swallowing_cases)
  have rest: "via keeps ?rest" by (simp add: iceAgentSendCandidateNomination_keeps iceAgentCheckCandidatePairConnection_keeps)
  have "(pairs_inv c \<and> iceAgentState c \<noteq> ICE_AGENT_STATE_FAILED) \<and> (iceAgentState c = ICE_AGENT_STATE_NOMINATING \<or> STATUS_FAILED st1)"
    using c(1)
  proof (rule enter_setup [where I = "\<lambda>a. pairs_inv a \<and> iceAgentState a \<noteq> ICE_AGENT_STATE_FAILED"])
    show "pairs_inv d \<and> iceAgentState d \<noteq> ICE_AGENT_STATE_FAILED" if "iceAgentNominatingStateSetup E ag = Some (st, d)" for st d
      using viaD [OF iceAgentNominatingStateSetup_keeps that] assms(2,3) by (simp add: keeps_def)
    show "(pairs_inv d \<and> iceAgentState d \<noteq> ICE_AGENT_STATE_FAILED) \<and> iceAgentState d = iceAgentState a" if "?rest a = Some (st, d)" "pairs_inv a \<and> iceAgentState a \<noteq> ICE_AGENT_STATE_FAILED" for a st d
      using viaD [OF rest that(1)] that(2) by (simp add: keeps_def)
  qed (use assms(2,3) in simp_all)
  then show ?thesis using c(2,3) by (auto simp: half_inv_def)
qed

lemma reapCandidate_keeps: "via keeps (reapCandidate E l)"
  unfolding reapCandidate_def
  by (rule via_keeping, intro keeping_rules) (auto intro: keeps_refl after_fields after_forget after_world simp: keeps_def detached_def pairs_inv_def pair_prio_def)

lemma executeReady_inv:
  assumes "executeReadyIceAgentState E ag = Some (st, ag')" "pairs_inv ag" "iceAgentState ag \<noteq> ICE_AGENT_STATE_FAILED"
  shows "st = STATUS_SUCCESS \<and> half_inv ICE_AGENT_STATE_READY ag'"
proof -
  let ?fs = "(if iceAgentState ag \<noteq> ICE_AGENT_STATE_READY then [iceAgentReadyStateSetup E, enter ICE_AGENT_STATE_READY] else []) @
          [\<lambda>ag. chkAll (map (reapCandidate E) (localCandidates ag)) ag]"
  obtain b where b: "swallowing (chkAll ?fs) ag = Some (st, b)" and ag': "ag' = b\<lparr>iceAgentStartTime := 0\<rparr>"
    using assms(1) by (auto simp: executeReadyIceAgentState_def bind_eq_Some_conv simp del: chkAll.simps)
  from b obtain st1 c where c: "chkAll ?fs ag = Some (st1, c)" "st = STATUS_SUCCESS" "b = (if STATUS_FAILED st1 then c\<lparr>ia_status := st1\<rparr> else c)"
    by (rule swallowing_cases)
  have "(pairs_inv c \<and> iceAgentState c \<noteq> ICE_AGENT_STATE_FAILED) \<and> (iceAgentState c = ICE_AGENT_STATE_READY \<or> STATUS_FAILED st1)"
    using c(1)
  proof (rule enter_setup [where I = "\<lambda>a. pairs_inv a \<and> iceAgentState a \<noteq> ICE_AGENT_STATE_FAILED"])
    show "pairs_inv d \<and> iceAgentState d \<noteq> ICE_AGENT_STATE_FAILED" if "iceAgentReadyStateSetup E ag = Some (st, d)" for st d
      using viaD [OF iceAgentReadyStateSetup_sound that] assms(2,3) by (simp add: sound_def)
    show "(pairs_inv d \<and> iceAgentState d \<noteq> ICE_AGENT_STATE_FAILED) \<and> iceAgentState d = iceAgentState a" if "chkAll (map (reapCandidate E) (localCandidates a)) a = Some (st, d)" "pairs_inv a \<and> iceAgentState a \<noteq> ICE_AGENT_STATE_FAILED" for a st d
      using kept.all_via [OF reapCandidate_keeps that(1)] that(2) by (simp add: keeps_def)
  qed (use assms(2,3) in simp_all)
  then show ?thesis using c(2,3) unfolding ag' by (auto simp: half_inv_def)
qed


subsection \<open>Proposed transitions\<close>

text \<open>The order in which the states are passed.\<close>

definition rank :: "ICE_AGENT_STATE \<Rightarrow> nat" where
  "rank s =
     (case s of
        ICE_AGENT_STATE_NONE \<Rightarrow> 0 | ICE_AGENT_STATE_NEW \<Rightarrow> 1 | ICE_AGENT_STATE_CHECK_CONNECTION \<Rightarrow> 2 | ICE_AGENT_STATE_CONNECTED \<Rightarrow> 3
      | ICE_AGENT_STATE_NOMINATING \<Rightarrow> 4 | ICE_AGENT_STATE_READY \<Rightarrow> 5 | ICE_AGENT_STATE_DISCONNECTED \<Rightarrow> 5 | ICE_AGENT_STATE_FAILED \<Rightarrow> 6)"

lemma leaving_keeps: "leaving st s ag = Some (st', s', ag') \<Longrightarrow> keeps ag ag' \<and> st' = STATUS_SUCCESS \<and> s' = (if STATUS_FAILED st then ICE_AGENT_STATE_FAILED else s)"
  by (auto simp: leaving_def status_keeps split: if_splits)

lemma notify_keeps: "keeps ag (notifyState s ag)"
  unfolding notifyState_def by (auto intro: keeps_fields)

lemma iceTime_status: "iceTime E ag = (now, b) \<Longrightarrow> keeps ag b \<and> ia_status b = ia_status ag"
  using iceTime_keeps [of E ag now b] by (auto simp: iceTime_def split: prod.splits)

lemma checkDisconnection_keeps:
  assumes "iceAgentStateMachineCheckDisconnection E s ag = (st, s', ag')"
  shows "keeps ag ag' \<and> ia_status ag' = ia_status ag \<and> s' \<in> {s, ICE_AGENT_STATE_DISCONNECTED} \<and> (s' = ICE_AGENT_STATE_DISCONNECTED \<longrightarrow> st = STATUS_SUCCESS \<or> s = s')"
proof -
  obtain now b where b: "iceTime E ag = (now, b)" by fastforce
  have "keeps ag b" "ia_status b = ia_status ag" using iceTime_status [OF b] by auto
  moreover have "keeps b (notifyState (iceAgentState b) (b\<lparr>detectedDisconnection := False\<rparr>))"
    by (rule keeps_trans [OF _ notify_keeps], rule keeps_fields) simp_all
  ultimately show ?thesis
    using assms b unfolding iceAgentStateMachineCheckDisconnection_def
    by (auto simp: Let_def notifyState_def split: if_splits intro: keeps_trans)
qed

text \<open>From a state with a recorded failure the machine goes to the failed state.\<close>

lemma next_failed:
  assumes "STATUS_FAILED (ia_status ag)" "cur \<notin> {ICE_AGENT_STATE_NONE, ICE_AGENT_STATE_NEW}"
  shows "\<exists>ag1. iceNext E cur ag = Some (STATUS_SUCCESS, ICE_AGENT_STATE_FAILED, ag1) \<and> keeps ag ag1 \<and> cur \<in> set (iceAccepts ICE_AGENT_STATE_FAILED)"
proof -
  obtain now b where b: "iceTime E ag = (now, b)" by fastforce
  have "keeps ag b" "ia_status b = ia_status ag" using iceTime_status [OF b] by auto
  then show ?thesis
    using assms b
    by (cases cur)
      (auto simp: iceNext_def fromCheckConnectionIceAgentState_def fromConnectedIceAgentState_def fromNominatingIceAgentState_def
        fromReadyIceAgentState_def fromDisconnectedIceAgentState_def fromFailedIceAgentState_def leaving_def iceAccepts_def
        intro: keeps_trans status_keeps)
qed

lemma next_proposed:
  assumes "agent_inv cur ag" "iceNext E cur ag = Some (st, s, ag1)"
  shows "st = STATUS_SUCCESS \<and> keeps ag ag1 \<and> cur \<in> set (iceAccepts s) \<and>
    s \<in> (case cur of
            ICE_AGENT_STATE_NEW \<Rightarrow> {ICE_AGENT_STATE_CHECK_CONNECTION}
          | ICE_AGENT_STATE_CHECK_CONNECTION \<Rightarrow> {ICE_AGENT_STATE_CHECK_CONNECTION, ICE_AGENT_STATE_CONNECTED, ICE_AGENT_STATE_FAILED}
          | ICE_AGENT_STATE_CONNECTED \<Rightarrow> {ICE_AGENT_STATE_NOMINATING, ICE_AGENT_STATE_FAILED}
          | ICE_AGENT_STATE_NOMINATING \<Rightarrow> {ICE_AGENT_STATE_NOMINATING, ICE_AGENT_STATE_READY, ICE_AGENT_STATE_FAILED}
          | ICE_AGENT_STATE_READY \<Rightarrow> {ICE_AGENT_STATE_READY, ICE_AGENT_STATE_DISCONNECTED, ICE_AGENT_STATE_FAILED}
          | _ \<Rightarrow> {ICE_AGENT_STATE_FAILED})"
proof -
  obtain now b where b: "iceTime E ag = (now, b)" by fastforce
  have b2: "keeps ag b" "ia_status b = ia_status ag" using iceTime_status [OF b] by auto
  obtain st2 s2 d where d: "iceAgentStateMachineCheckDisconnection E ICE_AGENT_STATE_READY ag = (st2, s2, d)" by (metis prod_cases3)
  note d2 = checkDisconnection_keeps [OF d]
  show ?thesis
    using assms b b2 d d2
    by (cases cur)
      (auto simp: agent_inv_def iceNext_def fromNewIceAgentState_def fromCheckConnectionIceAgentState_def fromConnectedIceAgentState_def
        fromNominatingIceAgentState_def fromReadyIceAgentState_def fromFailedIceAgentState_def iceAccepts_def bind_eq_Some_conv
        split: if_splits dest!: leaving_keeps intro: keeps_trans)
qed


subsection \<open>Steps, rounds, the driver\<close>

lemma execute_failed: "iceExecute E step ICE_AGENT_STATE_FAILED ag = Some (STATUS_SUCCESS, ICE_AGENT_STATE_FAILED, ag\<lparr>iceAgentState := ICE_AGENT_STATE_FAILED\<rparr>)"
  by (simp add: iceExecute_def staying_def executeFailedIceAgentState_def enter_def)

lemma execute_inv:
  assumes "iceExecute E step s ag = Some (st, s', ag')" "s \<notin> {ICE_AGENT_STATE_NONE, ICE_AGENT_STATE_NEW, ICE_AGENT_STATE_DISCONNECTED}"
    "pairs_inv ag" "s \<in> {ICE_AGENT_STATE_CHECK_CONNECTION, ICE_AGENT_STATE_CONNECTED} \<Longrightarrow> detached ag"
    "s \<noteq> ICE_AGENT_STATE_FAILED \<Longrightarrow> iceAgentState ag \<noteq> ICE_AGENT_STATE_FAILED"
  shows "st = STATUS_SUCCESS \<and> s' = s \<and> half_inv s ag'"
proof (cases s)
  case ICE_AGENT_STATE_FAILED
  with assms(1,3) show ?thesis by (auto simp: execute_failed half_inv_def)
qed (use assms in \<open>auto simp: iceExecute_def staying_def bind_eq_Some_conv
        dest!: executeCheckConnection_inv executeConnected_inv executeNominating_inv executeReady_inv\<close>)

text \<open>The law of PIC's state machine, for the table of the agent.\<close>

abbreviation ice_machine ::
  "'n ice_env \<Rightarrow> (ICE_AGENT_STATE \<Rightarrow> 'n IceAgent \<Rightarrow> (STATUS \<times> ICE_AGENT_STATE \<times> 'n IceAgent) option) \<Rightarrow> bool" where
  "ice_machine E step \<equiv> state_machine (ICE_AGENT_STATE_MACHINE_STATES E step) step"

lemma ice_step:
  assumes "ice_machine E step"
  shows "step cur ag =
    do { (st, s, ag1) \<leftarrow> iceNext E cur ag;
         if STATUS_FAILED st then Some (st, cur, ag1)
         else if cur \<notin> set (iceAccepts s) then Some (STATUS_ICE_INVALID_STATE, cur, ag1)
         else iceExecute E step s ag1 }"
  using state_machine.step_law [OF assms, of cur ag] unfolding ICE_AGENT_STATE_MACHINE_STATES_def by (simp only: machine.simps)

lemma step_failed:
  assumes "ice_machine E step" "STATUS_FAILED (ia_status ag)" "cur \<notin> {ICE_AGENT_STATE_NONE, ICE_AGENT_STATE_NEW}" "pairs_inv ag"
  shows "\<exists>ag1. step cur ag = Some (STATUS_SUCCESS, ICE_AGENT_STATE_FAILED, ag1) \<and> iceAgentState ag1 = ICE_AGENT_STATE_FAILED \<and> pairs_inv ag1"
proof -
  obtain ag1 where "iceNext E cur ag = Some (STATUS_SUCCESS, ICE_AGENT_STATE_FAILED, ag1)" "keeps ag ag1" "cur \<in> set (iceAccepts ICE_AGENT_STATE_FAILED)"
    using next_failed [OF assms(2,3), of E] by blast
  then show ?thesis using assms(4) by (simp add: ice_step [OF assms(1), of cur ag] execute_failed keeps_def)
qed

text \<open>Detecting a disconnection leads through the disconnected state back to the ready state, in one step.\<close>

lemma disconnected_inv:
  assumes "ice_machine E step" "pairs_inv ag" "iceAgentState ag = ICE_AGENT_STATE_READY"
    "executeDisconnectedIceAgentState E step ag = Some (st, s, ag')"
  shows "st = STATUS_SUCCESS \<and> half_inv s ag' \<and> s \<in> {ICE_AGENT_STATE_READY, ICE_AGENT_STATE_FAILED}"
proof -
  obtain now b where b: "iceTime E ag = (now, b)" by fastforce
  let ?c = "notifyState ICE_AGENT_STATE_DISCONNECTED
      (b\<lparr>detectedDisconnection := True, disconnectionGracePeriodEndTime := wrap64 (now + KVS_ICE_ENTER_STATE_FAILED_GRACE_PERIOD)\<rparr>)"
  have c: "pairs_inv ?c" "iceAgentState ?c = ICE_AGENT_STATE_READY"
    using iceTime_status [OF b] assms(2,3) by (auto simp: notifyState_def keeps_def)
  obtain st1 ag2 where run: "step ICE_AGENT_STATE_DISCONNECTED ?c = Some (st1, s, ag2)"
    and res: "st = STATUS_SUCCESS" "ag' = (if STATUS_FAILED st1 then ag2\<lparr>ia_status := st1\<rparr> else ag2)"
    using assms(3,4) b by (auto simp: executeDisconnectedIceAgentState_def bind_eq_Some_conv)
  show ?thesis
  proof (cases "STATUS_FAILED (ia_status ?c)")
    case True
    from step_failed [OF assms(1) True _ c(1), of ICE_AGENT_STATE_DISCONNECTED] run res show ?thesis by (auto simp: half_inv_def)
  next
    case False
    then have "iceExecute E step ICE_AGENT_STATE_READY ?c = Some (st1, s, ag2)"
      using run c(2)
      by (simp add: ice_step [OF assms(1), of ICE_AGENT_STATE_DISCONNECTED ?c] iceNext_def fromDisconnectedIceAgentState_def leaving_def iceAccepts_def)
    from execute_inv [OF this _ c(1)] c(2) res show ?thesis by auto
  qed
qed

lemma step_inv:
  assumes "ice_machine E step" "agent_inv cur ag" "step cur ag = Some (st, s, ag')"
  shows "st = STATUS_SUCCESS \<and> half_inv s ag' \<and> (s = cur \<or> rank cur < rank s)"
proof -
  obtain st1 s1 ag1 where n: "iceNext E cur ag = Some (st1, s1, ag1)"
    using assms(3) by (auto simp: ice_step [OF assms(1), of cur ag] bind_eq_Some_conv)
  note p = next_proposed [OF assms(2) n]
  then have run: "iceExecute E step s1 ag1 = Some (st, s, ag')"
    using assms(3) n by (simp add: ice_step [OF assms(1), of cur ag])
  have ag1: "pairs_inv ag1" "iceAgentState ag1 = cur" "cur \<in> {ICE_AGENT_STATE_NEW, ICE_AGENT_STATE_CHECK_CONNECTION} \<longrightarrow> detached ag1"
    using p assms(2) by (auto simp: agent_inv_def keeps_def)
  show ?thesis
  proof (cases "s1 = ICE_AGENT_STATE_DISCONNECTED")
    case True
    then have "cur = ICE_AGENT_STATE_READY" using p assms(2) by (cases cur) (auto simp: agent_inv_def)
    with disconnected_inv [OF assms(1) ag1(1)] ag1(2) run True show ?thesis by (auto simp: iceExecute_def rank_def)
  next
    case False
    have "st = STATUS_SUCCESS \<and> s = s1 \<and> half_inv s1 ag'"
      using run by (rule execute_inv) (use False p ag1 assms(2) in \<open>cases cur; auto simp: agent_inv_def\<close>)+
    then show ?thesis using p False by (cases cur) (auto simp: rank_def)
  qed
qed

lemma round_inv:
  assumes "ice_machine E step" "agent_inv cur ag" "iceRound step cur ag = Some (st, s, ag')"
  shows "st = STATUS_SUCCESS \<and> agent_inv s ag' \<and> (s = cur \<or> rank cur < rank s) \<and> (STATUS_FAILED (ia_status ag') \<longrightarrow> s = ICE_AGENT_STATE_FAILED)"
proof -
  obtain st1 s1 ag1 where one: "step cur ag = Some (st1, s1, ag1)" using assms(3) by (auto simp: iceRound_def bind_eq_Some_conv)
  note inv = step_inv [OF assms(1,2) one]
  show ?thesis
  proof (cases "iceAgentState ag1 \<noteq> ICE_AGENT_STATE_FAILED \<and> STATUS_FAILED (ia_status ag1)")
    case True
    have "s1 \<notin> {ICE_AGENT_STATE_NONE, ICE_AGENT_STATE_NEW}" "pairs_inv ag1" using inv by (auto simp: half_inv_def)
    from step_failed [OF assms(1) _ this] True obtain ag2 where
      "step s1 ag1 = Some (STATUS_SUCCESS, ICE_AGENT_STATE_FAILED, ag2)" "iceAgentState ag2 = ICE_AGENT_STATE_FAILED" "pairs_inv ag2" by blast
    then show ?thesis
      using assms(2,3) one inv True by (cases cur) (auto simp: iceRound_def agent_inv_def rank_def)
  next
    case False
    then show ?thesis using assms(3) one inv by (auto simp: iceRound_def agent_inv_def half_inv_def split: if_splits)
  qed
qed


lemma notify_inv: "agent_inv s (notifyState t ag) = agent_inv s ag"
  by (auto simp: agent_inv_def notifyState_def)

lemma driver_inv:
  assumes "ice_machine E step" "agent_inv cur ag" "6 < fuel + rank cur"
  shows "\<exists>r. stepIceAgentStateMachine fuel step cur ag = Some r \<and>
    (\<forall>st s ag'. r = Some (st, s, ag') \<longrightarrow>
       st = STATUS_SUCCESS \<and> agent_inv s ag' \<and> rank cur \<le> rank s \<and> (STATUS_FAILED (ia_status ag') \<longrightarrow> s = ICE_AGENT_STATE_FAILED))"
  using assms(2,3)
proof (induction fuel arbitrary: cur ag)
  case 0
  then show ?case by (cases cur) (auto simp: rank_def)
next
  case (Suc fuel)
  show ?case
  proof (cases "iceRound step cur ag")
    case (Some x)
    obtain st s ag1 where x: "iceRound step cur ag = Some (st, s, ag1)" using Some by (cases x) auto
    note inv = round_inv [OF assms(1) Suc.prems(1) x]
    have states: "iceAgentState ag1 = s" "iceAgentState ag = cur" using inv Suc.prems(1) by (auto simp: agent_inv_def)
    show ?thesis
    proof (cases "s = cur")
      case True
      then show ?thesis using x inv states by simp
    next
      case False
      then have "rank cur < rank s" using inv by simp
      then have "6 < fuel + rank s" using Suc.prems(2) by simp
      moreover have "agent_inv s (notifyState (iceAgentState ag1) ag1)" using inv by (simp add: notify_inv)
      ultimately obtain r where r: "stepIceAgentStateMachine fuel step s (notifyState (iceAgentState ag1) ag1) = Some r"
        "\<forall>st s' ag'. r = Some (st, s', ag') \<longrightarrow>
           st = STATUS_SUCCESS \<and> agent_inv s' ag' \<and> rank s \<le> rank s' \<and> (STATUS_FAILED (ia_status ag') \<longrightarrow> s' = ICE_AGENT_STATE_FAILED)"
        using Suc.IH [of s] by blast
      have "stepIceAgentStateMachine (Suc fuel) step cur ag = Some r" using x inv False states r(1) by simp
      then show ?thesis using r(2) \<open>rank cur < rank s\<close> by fastforce
    qed
  qed simp
qed

subsection \<open>Reachable agents\<close>

text \<open>The agent as \<^verbatim>\<open>createIceAgent\<close> leaves it.\<close>

definition created :: "'n IceAgent \<Rightarrow> bool" where
  "created ag \<longleftrightarrow>
     iceCandidatePairs ag = [] \<and> localCandidates ag = [] \<and> remoteCandidates ag = [] \<and> triggeredCheckQueue ag = [] \<and>
     (\<forall>r. ia_pairs ag r = None) \<and> (\<forall>r. ia_cands ag r = None) \<and> pDataSending ag = None \<and>
     iceAgentState ag = ICE_AGENT_STATE_NEW \<and> ia_status ag = STATUS_SUCCESS"

text \<open>One call from outside: a timer, a packet, the application.\<close>

inductive ice_call ::
  "'n ice_env \<Rightarrow> text_ops \<Rightarrow> (ICE_AGENT_STATE \<Rightarrow> 'n IceAgent \<Rightarrow> (STATUS \<times> ICE_AGENT_STATE \<times> 'n IceAgent) option) \<Rightarrow>
   ICE_AGENT_STATE \<times> 'n IceAgent \<Rightarrow> ICE_AGENT_STATE \<times> 'n IceAgent \<Rightarrow> bool"
  for E T step where
  state_timer: "iceAgentStateTransitionTimerCallback fuel step cur ag = Some (Some (st, s, ag')) \<Longrightarrow> ice_call E T step (cur, ag) (s, ag')"
| keep_alive: "iceAgentSendKeepAliveTimerCallback E now ag = Some (st, ag') \<Longrightarrow> ice_call E T step (cur, ag) (cur, ag')"
| gather_timer: "iceAgentGatherCandidateTimerCallback E now ag = Some (st, ag') \<Longrightarrow> ice_call E T step (cur, ag) (cur, ag')"
| packet: "incomingDataHandler E buf n sock src ag = Some (st, ag') \<Longrightarrow> ice_call E T step (cur, ag) (cur, ag')"
| start: "iceAgentStartAgent E user pass controlling ag = Some (st, ag') \<Longrightarrow> ice_call E T step (cur, ag) (cur, ag')"
| gather: "iceAgentStartGathering E ag = Some (st, ag') \<Longrightarrow> ice_call E T step (cur, ag) (cur, ag')"
| remote: "iceAgentAddRemoteCandidate E T line ag = Some (st, ag') \<Longrightarrow> ice_call E T step (cur, ag) (cur, ag')"
| relayed: "incomingRelayedDataHandler E l sock buf src ag = Some (st, ag') \<Longrightarrow> ice_call E T step (cur, ag) (cur, ag')"
| turn_failed: "turnStateFailedFn l ag = Some (st, ag') \<Longrightarrow> ice_call E T step (cur, ag) (cur, ag')"
| send: "iceAgentSend E bytes n ag = Some (st, ag') \<Longrightarrow> ice_call E T step (cur, ag) (cur, ag')"
| shutdown: "iceAgentShutdown E ag = Some (st, ag') \<Longrightarrow> ice_call E T step (cur, ag) (cur, ag')"
| restart: "iceAgentRestart E ufrag pwd cur ag = Some (st, s, ag') \<Longrightarrow> ice_call E T step (cur, ag) (s, ag')"

inductive_cases ice_callE: "ice_call E T step x y"

lemma keeps_inv: "keeps a b \<Longrightarrow> agent_inv cur a \<Longrightarrow> agent_inv cur b"
  by (auto simp: agent_inv_def keeps_def)

lemma stepIceAgentStateMachine_fuel:
  "stepIceAgentStateMachine fuel step cur ag = Some r \<Longrightarrow> stepIceAgentStateMachine (fuel + k) step cur ag = Some r"
proof (induction fuel arbitrary: cur ag)
  case (Suc fuel)
  then show ?case by (auto split: option.splits prod.splits if_splits)
qed simp

lemma timer_inv:
  assumes "ice_machine E step" "agent_inv cur ag" "iceAgentStateTransitionTimerCallback fuel step cur ag = Some (Some (st, s, ag'))"
  shows "agent_inv s ag'"
proof -
  obtain st1 ag1 where run: "stepIceAgentStateMachine fuel step cur ag = Some (Some (st1, s, ag1))"
    and res: "ag' = (if STATUS_FAILED st1 then iceAgentFatalError st1 ag1 else ag1)"
    using assms(3) by (auto simp: iceAgentStateTransitionTimerCallback_def)
  obtain r where r: "stepIceAgentStateMachine (fuel + 7) step cur ag = Some r"
      "\<forall>st s ag'. r = Some (st, s, ag') \<longrightarrow> st = STATUS_SUCCESS \<and> agent_inv s ag'"
    using driver_inv [OF assms(1,2), of "fuel + 7"] by auto
  with stepIceAgentStateMachine_fuel [OF run, of 7] have "st1 = STATUS_SUCCESS \<and> agent_inv s ag1" by simp
  then show ?thesis using res by simp
qed

lemma renew_inv: "pairs_inv ag \<Longrightarrow> iceCandidatePairs ag = [] \<Longrightarrow> agent_inv ICE_AGENT_STATE_NEW (renew u p ag)"
  by (auto simp: agent_inv_def renew_def pairs_inv_def detached_def)

lemma restart_inv:
  assumes "agent_inv cur ag" "iceAgentRestart E ufrag pwd cur ag = Some (st, s, ag')"
  shows "agent_inv s ag'"
proof (cases "ia_shutdown ag \<or> ia_restart ag")
  case False
  then obtain st1 ag1 where run: "restartAgent E (ag\<lparr>ia_restart := True\<rparr>) = Some (st1, ag1)"
    and res: "if STATUS_FAILED st1 then (s, ag') = (cur, ag1) else (s, ag') = (ICE_AGENT_STATE_NEW, renew ufrag pwd ag1)"
    using assms(2) by (auto simp: iceAgentRestart_def bind_eq_Some_conv split: if_splits)
  have "agent_inv cur (ag\<lparr>ia_restart := True\<rparr>)" using assms(1) by (auto simp: agent_inv_def pairs_inv_def pair_prio_def detached_def)
  then have "agent_inv cur ag1" using viaD [OF restartAgent_stable run] by (auto simp: agent_inv_def stable_def)
  moreover have "pairs_inv ag1" using calculation by (simp add: agent_inv_def)
  ultimately show ?thesis
    using res restart_empties [of E "ag\<lparr>ia_restart := True\<rparr>" ag1] run by (auto split: if_splits intro: renew_inv)
qed (use assms in \<open>auto simp: iceAgentRestart_def split: if_splits\<close>)

lemma call_inv:
  assumes "ice_machine E step" "ice_call E T step x y" "agent_inv (fst x) (snd x)"
  shows "agent_inv (fst y) (snd y)"
  using assms(2,3)
proof cases
  case (state_timer fuel cur ag st s ag')
  then show ?thesis using assms(1,3) timer_inv by fastforce
next
  case (restart ufrag pwd cur ag st s ag')
  then show ?thesis using assms(3) restart_inv by fastforce
qed (auto intro: keeps_inv dest: viaD [OF iceAgentSendKeepAliveTimerCallback_keeps] viaD [OF iceAgentGatherCandidateTimerCallback_keeps]
    viaD [OF incomingDataHandler_keeps] viaD [OF iceAgentStartAgent_keeps] viaD [OF iceAgentStartGathering_keeps] viaD [OF iceAgentAddRemoteCandidate_keeps]
    viaD [OF incomingRelayedDataHandler_keeps] viaD [OF turnStateFailedFn_keeps] viaD [OF iceAgentSend_keeps] viaD [OF iceAgentShutdown_keeps])

lemma reachable_inv:
  assumes "ice_machine E step" "created ag" "(ice_call E T step)\<^sup>*\<^sup>* (ICE_AGENT_STATE_NEW, ag) y"
  shows "agent_inv (fst y) (snd y)"
  using assms(3)
proof (induction rule: rtranclp_induct)
  case base
  then show ?case using assms(2) by (auto simp: agent_inv_def created_def pairs_inv_def detached_def)
next
  case (step y z)
  then show ?case using call_inv [OF assms(1)] by blast
qed

end
