(* ===== verification/IceProperties.thy ===== *)
theory IceProperties
  imports IceMachineSafety
begin

text \<open>
  What the ICE agent guarantees: the order of the pairs, the course of its state machine, the choice of
  the pair that carries the data.  A machine that satisfies the law of PIC's state machine is built here
  for every environment, and interprets its locale.
\<close>

subsection \<open>A machine\<close>

definition stepWith ::
  "'n ice_env \<Rightarrow> (ICE_AGENT_STATE \<Rightarrow> 'n IceAgent \<Rightarrow> (STATUS \<times> ICE_AGENT_STATE \<times> 'n IceAgent) option) \<Rightarrow>
   ICE_AGENT_STATE \<Rightarrow> 'n IceAgent \<Rightarrow> (STATUS \<times> ICE_AGENT_STATE \<times> 'n IceAgent) option" where
  "stepWith E inner cur ag =
     do { (st, s, ag1) \<leftarrow> iceNext E cur ag;
          if STATUS_FAILED st then Some (st, cur, ag1)
          else if cur \<notin> set (iceAccepts s) then Some (STATUS_ICE_INVALID_STATE, cur, ag1)
          else iceExecute E inner s ag1 }"

text \<open>The disconnected state steps the machine once more, out of itself; two levels suffice.\<close>

definition runMachine :: "'n ice_env \<Rightarrow> ICE_AGENT_STATE \<Rightarrow> 'n IceAgent \<Rightarrow> (STATUS \<times> ICE_AGENT_STATE \<times> 'n IceAgent) option" where
  "runMachine E = stepWith E (stepWith E (\<lambda>_ _. None))"

lemma execute_inner: "s \<noteq> ICE_AGENT_STATE_DISCONNECTED \<Longrightarrow> iceExecute E f s ag = iceExecute E g s ag"
  by (cases s) (simp_all add: iceExecute_def)

lemma out_of_disconnected:
  assumes "iceAgentState ag \<noteq> ICE_AGENT_STATE_DISCONNECTED"
  shows "stepWith E f ICE_AGENT_STATE_DISCONNECTED ag = stepWith E g ICE_AGENT_STATE_DISCONNECTED ag"
proof -
  obtain s ag1 where "iceNext E ICE_AGENT_STATE_DISCONNECTED ag = Some (STATUS_SUCCESS, s, ag1)" "s \<noteq> ICE_AGENT_STATE_DISCONNECTED"
    using assms by (cases "STATUS_FAILED (ia_status ag)") (auto simp: iceNext_def fromDisconnectedIceAgentState_def leaving_def)
  then show ?thesis using execute_inner [of s E f ag1 g] by (simp add: stepWith_def)
qed

lemma execute_levels: "iceExecute E (stepWith E f) s ag = iceExecute E (stepWith E g) s ag"
proof (cases "s = ICE_AGENT_STATE_DISCONNECTED")
  case True
  obtain now b where b: "iceTime E ag = (now, b)" by fastforce
  have "iceAgentState (notifyState ICE_AGENT_STATE_DISCONNECTED (b\<lparr>detectedDisconnection := True, disconnectionGracePeriodEndTime := t\<rparr>)) = iceAgentState ag" for t
    using iceTime_status [OF b] by (auto simp: notifyState_def keeps_def)
  then show ?thesis
    using True b by (simp add: iceExecute_def executeDisconnectedIceAgentState_def out_of_disconnected [of _ E f g])
qed (rule execute_inner)

interpretation ice: state_machine "ICE_AGENT_STATE_MACHINE_STATES E (runMachine E)" "runMachine E" for E
proof
  show "runMachine E cur a =
      do { (st, s, a1) \<leftarrow> sm_next (ICE_AGENT_STATE_MACHINE_STATES E (runMachine E)) cur a;
           if STATUS_FAILED st then Some (st, cur, a1)
           else if cur \<notin> set (sm_accepts (ICE_AGENT_STATE_MACHINE_STATES E (runMachine E)) s)
           then Some (sm_status (ICE_AGENT_STATE_MACHINE_STATES E (runMachine E)) cur, cur, a1)
           else sm_execute (ICE_AGENT_STATE_MACHINE_STATES E (runMachine E)) s a1 }" for cur a
    unfolding ICE_AGENT_STATE_MACHINE_STATES_def machine.simps runMachine_def
    unfolding stepWith_def [of E "stepWith E (\<lambda>_ _. None)" cur a] by (simp only: execute_levels [of E "\<lambda>_ _. None" _ _ "stepWith E (\<lambda>_ _. None)"])
qed

subsection \<open>A sample\<close>

text \<open>A world of one clock; every call succeeds.\<close>

definition ice_sample_world :: "nat world_ops" where
  "ice_sample_world = \<lparr>getTime = (\<lambda>t. (t, t + 1)), turnConnectionSendData = (\<lambda>t _ _. (STATUS_SUCCESS, t)),
     socketConnectionSendData = (\<lambda>t _ _. (STATUS_SUCCESS, t))\<rparr>"

definition ice_sample_env :: "nat ice_env" where
  "ice_sample_env =
     \<lparr>ie_stun = sample_stun, ie_net = ice_sample_world, ie_rand = (\<lambda>t. (t, t + 1)), ie_addTimer = (\<lambda>t. (STATUS_SUCCESS, 7, t)),
      ie_cancelTimer = (\<lambda>_ t. (STATUS_SUCCESS, t)), ie_updateTimerPeriod = (\<lambda>t. (STATUS_SUCCESS, t)),
      ie_turnConnectionShutdown = (\<lambda>_ _ t. (STATUS_SUCCESS, t)), ie_freeTurnConnection = (\<lambda>_ t. (STATUS_SUCCESS, t)),
      ie_turnConnectionIsShutdownComplete = (\<lambda>_ _. True), ie_removeConnection = (\<lambda>_ t. (STATUS_SUCCESS, t)),
      ie_freeSocketConnection = (\<lambda>_ t. (STATUS_SUCCESS, t)),
      ie_createSocketConnection = (\<lambda>_ ip _ t. (STATUS_SUCCESS, 3, ip, t)), ie_addConnection = (\<lambda>_ t. (STATUS_SUCCESS, t)),
      ie_getLocalhostIpAddresses = (\<lambda>t. (STATUS_SUCCESS,
        [\<lparr>family = 1, port = [0x1F, 0x90], address = [10, 0, 0, 1, 0, 0, 0, 0, 0, 0, 0, 0, 0, 0, 0, 0], isPointToPoint = False\<rparr>], t)),
      ie_connectionListenerStart = (\<lambda>t. (STATUS_SUCCESS, t)), ie_createTurnConnection = (\<lambda>_ _ _ _ t. (STATUS_SUCCESS, 9, t)),
      ie_turnConnectionStart = (\<lambda>_ t. (STATUS_SUCCESS, t)), ie_turnConnectionAddPeer = (\<lambda>_ _ t. (STATUS_SUCCESS, t)),
      ie_turnConnectionGetRelayAddress = (\<lambda>_ _. None),
      ie_turnConnectionIncomingDataHandler = (\<lambda>_ bytes ip t. (STATUS_SUCCESS, [(bytes, ip)], t)),
      ie_socketConnectionClosed = (\<lambda>_ t. (STATUS_SUCCESS, t)), ie_removeAllConnections = (\<lambda>t. (STATUS_SUCCESS, t)),
      ie_sleep = (\<lambda>t. t + 500000), ie_stopScheduling = STATUS_OTHER 1, ie_sizeofPair = 100, ie_sizeofCandidate = 100\<rparr>"

definition ice_sample_agent :: "nat IceAgent" where
  "ice_sample_agent =
     \<lparr>ia_cands = (\<lambda>_. None), ia_pairs = (\<lambda>_. None), ia_next = 0, localCandidates = [], remoteCandidates = [], triggeredCheckQueue = [],
      iceCandidatePairs = [], pDataSending = None, isControlling = True, tieBreaker = 5, localUsername = [97], localPassword = [98],
      remoteUsername = [99], remotePassword = [100], combinedUserName = [99, 58, 97], pBindingRequest = None, pBindingIndication = None,
      pSrflxIds = None, remoteCredentialReceived = False, ia_restart = False, stopGathering = False, processStun = True,
      iceAgentState = ICE_AGENT_STATE_NEW, ia_status = STATUS_SUCCESS, stateEndTime = 0, iceConnectionCheckTimeout = 100000000,
      iceCandidateNominationTimeout = 100000000, lastDataReceivedTime = INVALID_TIMESTAMP_VALUE, detectedDisconnection = False,
      disconnectionGracePeriodEndTime = INVALID_TIMESTAMP_VALUE, iceAgentStartTime = 0, hasStateChangedFn = True, stateChanges = [],
      hasInboundPacketFn = True, inboundPackets = [], hasNewLocalCandidateFn = True, newCandidates = [], agentStartGathering = False,
      candidateGatheringFinished = False, candidateGatheringEndTime = INVALID_TIMESTAMP_VALUE, addedRelayCandidate = False, ia_shutdown = False,
      iceAgentStateTimerTask = NO_TIMER, keepAliveTimerTask = NO_TIMER, iceCandidateGatheringTimerTask = NO_TIMER, iceServers = [],
      localNetworkInterfaces = [], foundationCounter = 0, relayOnly = False, iceLocalCandidateGatheringTimeout = 100000000,
      relayCandidateCount = 0, ia_world = 1000\<rparr>"

lemma sample_created: "created ice_sample_agent"
  by (simp add: created_def ice_sample_agent_def)

text \<open>A candidate of the peer, and the host candidate the agent gathers, make one pair.\<close>

definition sample_remote :: IceCandidate where
  "sample_remote =
     \<lparr>cd_type = ICE_CANDIDATE_TYPE_HOST, cd_isRemote = True,
      cd_ipAddress = \<lparr>family = 1, port = [0, 80], address = [10, 0, 0, 2] @ replicate 12 0, isPointToPoint = False\<rparr>,
      cd_socket = None, cd_state = ICE_CANDIDATE_STATE_VALID, cd_priority = 80, cd_iceServerIndex = 0, cd_foundation = 0, cd_turn = None,
      cd_reported = False, cd_remoteProtocol = KVS_SOCKET_PROTOCOL_UDP\<rparr>"

definition fixed_text :: text_ops where
  "fixed_text = \<lparr>inet_pton4 = (\<lambda>_. Some [10, 0, 0, 2]), inet_pton6 = (\<lambda>_. None), strtoui32 = (\<lambda>_. Inr 80)\<rparr>"

lemma sample_remote_added:
  "iceAgentAddRemoteCandidate ice_sample_env fixed_text (Some ''1 1 udp 80 10.0.0.2 80 typ host generation'') ice_sample_agent =
     Some (STATUS_SUCCESS, ice_sample_agent\<lparr>ia_cands := [0 \<mapsto> sample_remote], ia_next := 1, remoteCandidates := [0]\<rparr>)"
proof -
  have "candidateLoop fixed_text ''1 1 udp 80 10.0.0.2 80 typ host generation'' emptyLine =
     (STATUS_SUCCESS, \<lparr>ln_state = 8, ln_priority = 80, ln_remoteProtocol = KVS_SOCKET_PROTOCOL_UDP, ln_ip = cd_ipAddress sample_remote,
       ln_foundIp = True, ln_type = ICE_CANDIDATE_TYPE_HOST, ln_foundType = True\<rparr>)"
    by (simp add: candidateLoop.simps strnchr_def emptyLine_def candidateToken_def addressToken_def typeToken_def strncmpi_eq_def lower_def
        Let_def fixed_text_def sample_remote_def zeroAddress_def bytes16_def)
  then show ?thesis
    by (simp add: iceAgentAddRemoteCandidate_def findCandidateWithIp_def addRemote_def Let_def createIceCandidatePairs_def
        sample_remote_def ice_sample_env_def ice_sample_agent_def sample_stun_def little_endian_host_def)
qed

lemma sample_host_gathered:
  "\<exists>ag. iceAgentStartGathering ice_sample_env (ice_sample_agent\<lparr>ia_cands := [0 \<mapsto> sample_remote], ia_next := 1, remoteCandidates := [0]\<rparr>) =
     Some (STATUS_SUCCESS, ag) \<and> iceCandidatePairs ag = [2]"
  by (simp add: iceAgentStartGathering_def ice_sample_env_def ice_sample_agent_def iceAgentInitHostCandidate_def recording_def hostStep_def
   findCandidateWithIp_def rd_def createIceCandidatePairs_def localCandidate_def startTimer_def sample_stun_def little_endian_host_def ice_sample_world_def insertLocal_def
   sample_remote_def Let_def outside_def iceAgentInitSrflxCandidate_def iceAgentInitRelayCandidates_def srflxCandidate_def newPair_def
   insertIceCandidatePair_def createTransactionIdStore_def iceTime_def)
subsection \<open>The order of the pairs\<close>

text \<open>
  C37.  Whatever the network and the TURN connections deliver and whatever the application (starting,
  gathering, remote candidates, media, restart, shutdown) and the timers do, in whatever order: as long as no call runs into undefined behaviour, the list of candidate pairs of the agent is sorted by
  falling priority, its entries are distinct and still allocated, and between two calls the state of PIC's
  state machine is the state the agent announces, never the disconnected one.
\<close>

theorem ice_agent_pairs_sorted:
  assumes machine: "state_machine (ICE_AGENT_STATE_MACHINE_STATES E step) step"
    and new: "created ag"
    and calls: "(ice_call E T step)\<^sup>*\<^sup>* (ICE_AGENT_STATE_NEW, ag) (cur, ag')"
  shows "sorted_wrt (\<lambda>r q. pair_prio ag' q \<le> pair_prio ag' r) (iceCandidatePairs ag') \<and>
    distinct (iceCandidatePairs ag') \<and> (\<forall>r \<in> set (iceCandidatePairs ag'). ia_pairs ag' r \<noteq> None) \<and>
    cur = iceAgentState ag' \<and> cur \<noteq> ICE_AGENT_STATE_DISCONNECTED"
  using reachable_inv [OF machine new calls] by (auto simp: agent_inv_def pairs_inv_def)

theorem ice_agent_pairs_sorted_witness:
  "\<exists>ag. (ice_call ice_sample_env fixed_text (runMachine ice_sample_env))\<^sup>*\<^sup>* (ICE_AGENT_STATE_NEW, ice_sample_agent) (ICE_AGENT_STATE_NEW, ag) \<and>
     iceCandidatePairs ag = [2] \<and> ia_pairs ag 2 \<noteq> None"
proof -
  obtain ag where ag: "iceAgentStartGathering ice_sample_env (ice_sample_agent\<lparr>ia_cands := [0 \<mapsto> sample_remote], ia_next := 1, remoteCandidates := [0]\<rparr>) =
     Some (STATUS_SUCCESS, ag)" "iceCandidatePairs ag = [2]"
    using sample_host_gathered by blast
  have "(ice_call ice_sample_env fixed_text (runMachine ice_sample_env))\<^sup>*\<^sup>* (ICE_AGENT_STATE_NEW, ice_sample_agent) (ICE_AGENT_STATE_NEW, ag)"
    using ice_call.remote [OF sample_remote_added] ice_call.gather [OF ag(1)] by (meson converse_rtranclp_into_rtranclp r_into_rtranclp)
  with ice_agent_pairs_sorted [OF ice.state_machine_axioms sample_created this] ag(2) show ?thesis by auto
qed

subsection \<open>The course of the state machine\<close>

text \<open>
  C39.  The driver of the state machine.  In every agent between two calls the loop of
  \<^verbatim>\<open>stepIceAgentStateMachine\<close> ends after at most six rounds.  Unless a round runs into undefined behaviour
  the driver succeeds, so that no transition is ever refused with \<^verbatim>\<open>STATUS_ICE_INVALID_STATE\<close>; afterwards the machine and the agent
  agree on the state, the state has not moved backwards, a failed agent stays failed, and an agent with a
  recorded error has failed.
\<close>

theorem ice_state_machine_driven:
  assumes machine: "state_machine (ICE_AGENT_STATE_MACHINE_STATES E step) step"
    and inv: "agent_inv cur ag" and fuel: "6 \<le> fuel"
  shows "\<exists>r. stepIceAgentStateMachine fuel step cur ag = Some r \<and>
    (\<forall>st s ag'. r = Some (st, s, ag') \<longrightarrow>
       st = STATUS_SUCCESS \<and> s = iceAgentState ag' \<and> agent_inv s ag' \<and> rank cur \<le> rank s \<and>
       (cur = ICE_AGENT_STATE_FAILED \<longrightarrow> s = ICE_AGENT_STATE_FAILED) \<and>
       (STATUS_FAILED (ia_status ag') \<longrightarrow> s = ICE_AGENT_STATE_FAILED))"
proof -
  have "0 < rank cur" using inv by (cases cur) (auto simp: agent_inv_def rank_def)
  then have "6 < fuel + rank cur" using fuel by simp
  from driver_inv [OF machine inv this] obtain r where r: "stepIceAgentStateMachine fuel step cur ag = Some r"
    "\<forall>st s ag'. r = Some (st, s, ag') \<longrightarrow>
       st = STATUS_SUCCESS \<and> agent_inv s ag' \<and> rank cur \<le> rank s \<and> (STATUS_FAILED (ia_status ag') \<longrightarrow> s = ICE_AGENT_STATE_FAILED)"
    by blast
  have "s = ICE_AGENT_STATE_FAILED" if "6 \<le> rank s" for s using that by (cases s) (auto simp: rank_def)
  with r show ?thesis by (auto simp: agent_inv_def rank_def [of ICE_AGENT_STATE_FAILED])
qed

theorem ice_state_machine_driven_witness:
  "\<exists>r. stepIceAgentStateMachine 6 (runMachine ice_sample_env) ICE_AGENT_STATE_NEW ice_sample_agent = Some r"
proof -
  have "agent_inv ICE_AGENT_STATE_NEW ice_sample_agent"
    by (simp add: agent_inv_def pairs_inv_def detached_def ice_sample_agent_def)
  from ice_state_machine_driven [OF ice.state_machine_axioms this, of 6] show ?thesis by blast
qed

subsection \<open>Priorities\<close>

lemma computeCandidatePriority_value:
  "computeCandidatePriority c = 2 ^ 24 * typePreference (cd_type c) + (if isPointToPoint (cd_ipAddress c) then 255 else 16777215)"
  by (cases "cd_type c") (auto simp: computeCandidatePriority_def typePreference_def wrap32_def)

lemma computeCandidatePriority_less: "computeCandidatePriority c < 2 ^ 31"
  unfolding computeCandidatePriority_value by (cases "cd_type c") (auto simp: typePreference_def)

definition types_by_rank :: "ICE_CANDIDATE_TYPE list" where
  "types_by_rank = [ICE_CANDIDATE_TYPE_HOST, ICE_CANDIDATE_TYPE_PEER_REFLEXIVE, ICE_CANDIDATE_TYPE_SERVER_REFLEXIVE, ICE_CANDIDATE_TYPE_RELAYED]"

lemma typePreference_ranked: "i < j \<Longrightarrow> j < 4 \<Longrightarrow> typePreference (types_by_rank ! j) < typePreference (types_by_rank ! i)"
  by (auto simp: types_by_rank_def typePreference_def less_Suc_eq numeral_eq_Suc)

definition pair_formula :: "nat \<Rightarrow> nat \<Rightarrow> nat" where
  "pair_formula controlling controlled =
     2 ^ 32 * min controlling controlled + 2 * max controlling controlled + (if controlling > controlled then 1 else 0)"

lemma computeCandidatePairPriority_value:
  assumes "a < 2 ^ 31" "b < 2 ^ 32"
  shows "computeCandidatePairPriority a b True = pair_formula a b" "computeCandidatePairPriority b a True = pair_formula b a"
    "computeCandidatePairPriority b a False = pair_formula a b" "computeCandidatePairPriority a b False = pair_formula b a"
proof -
  have "pair_formula a b < 2 ^ 64" "pair_formula b a < 2 ^ 64" using assms by (auto simp: pair_formula_def min_def max_def)
  then show "computeCandidatePairPriority a b True = pair_formula a b" "computeCandidatePairPriority b a True = pair_formula b a"
    "computeCandidatePairPriority b a False = pair_formula a b" "computeCandidatePairPriority a b False = pair_formula b a"
    by (simp_all add: computeCandidatePairPriority_def pair_formula_def Let_def wrap64_def min.commute max.commute)
qed

lemma pair_formula_inj:
  assumes "a < 2 ^ 31" "b < 2 ^ 31" "c < 2 ^ 31" "d < 2 ^ 31" "pair_formula a b = pair_formula c d"
  shows "a = c \<and> b = d"
proof -
  let ?low = "\<lambda>a b :: nat. 2 * max a b + (if a > b then 1 else 0)"
  have low: "?low a b < 2 ^ 32" "?low c d < 2 ^ 32" using assms(1-4) by (auto simp: max_def)
  have split: "pair_formula x y = 2 ^ 32 * min x y + ?low x y" for x y by (simp add: pair_formula_def)
  have "min a b = pair_formula a b div 2 ^ 32" "min c d = pair_formula c d div 2 ^ 32"
    using low by (simp_all add: split)
  moreover have "?low a b = pair_formula a b mod 2 ^ 32" "?low c d = pair_formula c d mod 2 ^ 32"
    using low by (simp_all add: split)
  ultimately have "min a b = min c d" "?low a b = ?low c d" using assms(5) by simp_all
  then show ?thesis by (auto simp: min_def max_def split: if_splits) presburger+
qed

text \<open>
  C36.  The priority of a pair.  The priority of a local candidate stays below \<open>2^31\<close>, ranks host before
  peer-reflexive before server-reflexive before relayed candidates, and depends on nothing but the type and
  whether the interface is point-to-point: two candidates that agree in both tie.  The 64-bit
  priority of its pair with any 32-bit priority of the peer is computed without overflow, by the formula of RFC 8445;
  the controlling and the controlled agent, each from its own side, compute the same number, so they rank
  the pairs they both have alike; and two pairs whose candidates have priorities below \<open>2^31\<close> tie only
  if both their priorities do.
\<close>

theorem pair_priority_agreed:
  assumes lp_def: "lp = computeCandidatePriority c" and "rp < 2 ^ 32"
  shows "lp < 2 ^ 31 \<and>
    (\<forall>i j. i < j \<and> j < 4 \<and> cd_type c = types_by_rank ! i \<and> cd_type d = types_by_rank ! j \<longrightarrow> computeCandidatePriority d < lp) \<and>
    (cd_type d = cd_type c \<and> isPointToPoint (cd_ipAddress d) = isPointToPoint (cd_ipAddress c) \<longrightarrow> computeCandidatePriority d = lp) \<and>
    computeCandidatePairPriority lp rp True = 2 ^ 32 * min lp rp + 2 * max lp rp + (if lp > rp then 1 else 0) \<and>
    computeCandidatePairPriority rp lp False = computeCandidatePairPriority lp rp True \<and>
    computeCandidatePairPriority rp lp True = computeCandidatePairPriority lp rp False \<and>
    (\<forall>x y. x < 2 ^ 31 \<and> y < 2 ^ 31 \<and> rp < 2 ^ 31 \<and> computeCandidatePairPriority x y True = computeCandidatePairPriority lp rp True \<longrightarrow> x = lp \<and> y = rp)"
proof -
  have lp: "lp < 2 ^ 31" unfolding lp_def by (rule computeCandidatePriority_less)
  have types: "computeCandidatePriority d < lp" if "i < j \<and> j < 4 \<and> cd_type c = types_by_rank ! i \<and> cd_type d = types_by_rank ! j" for i j
    using typePreference_ranked [of i j] that unfolding lp_def computeCandidatePriority_value by auto
  have ties: "computeCandidatePriority d = lp" if "cd_type d = cd_type c \<and> isPointToPoint (cd_ipAddress d) = isPointToPoint (cd_ipAddress c)"
    using that unfolding lp_def computeCandidatePriority_value by simp
  have inj: "x = lp \<and> y = rp"
    if "x < 2 ^ 31" "y < 2 ^ 31" "rp < 2 ^ 31" "computeCandidatePairPriority x y True = computeCandidatePairPriority lp rp True" for x y
    using that lp computeCandidatePairPriority_value(1) [of x y] computeCandidatePairPriority_value(1) [OF lp assms(2)]
    by (intro pair_formula_inj) auto
  note vals = computeCandidatePairPriority_value [OF lp assms(2)]
  have "computeCandidatePairPriority lp rp True = 2 ^ 32 * min lp rp + 2 * max lp rp + (if lp > rp then 1 else 0)"
    using vals(1) unfolding pair_formula_def .
  moreover have "computeCandidatePairPriority rp lp False = computeCandidatePairPriority lp rp True"
    "computeCandidatePairPriority rp lp True = computeCandidatePairPriority lp rp False"
    by (simp_all only: vals)
  ultimately show ?thesis using lp types ties inj by blast
qed

theorem pair_priority_agreed_witness:
  "computeCandidatePairPriority 77 2130706431 False = computeCandidatePairPriority 2130706431 77 True \<and> (77 :: nat) < 2 ^ 32"
proof -
  let ?c = "localCandidate ICE_CANDIDATE_TYPE_HOST ICE_CANDIDATE_STATE_VALID zeroAddress None 0 0 None"
  have "computeCandidatePriority ?c = 2130706431"
    by (simp add: computeCandidatePriority_value localCandidate_def zeroAddress_def typePreference_def)
  with pair_priority_agreed [of 2130706431 ?c 77 ?c] show ?thesis by simp
qed

end
