(* ===== verification/IceSelection.thy ===== *)
theory IceSelection
  imports IceProperties
begin

text \<open>
  The choice of the pair that carries the data: what the loops of nominating and of getting ready do to
  the tables of pairs and candidates, as equations, and the pair that comes out.
\<close>

subsection \<open>The loops\<close>

definition onPairs :: "(IceCandidatePair \<Rightarrow> IceCandidatePair) \<Rightarrow> nat list \<Rightarrow> 'n IceAgent \<Rightarrow> 'n IceAgent" where
  "onPairs g rs ag = ag\<lparr>ia_pairs := (\<lambda>q. if q \<in> set rs then map_option g (ia_pairs ag q) else ia_pairs ag q)\<rparr>"

lemma onPairs_Cons:
  assumes "ia_pairs ag r = Some p" "\<And>p. g (g p) = g p"
  shows "onPairs g rs (ag\<lparr>ia_pairs := (ia_pairs ag)(r \<mapsto> g p)\<rparr>) = onPairs g (r # rs) ag"
  using assms by (simp add: onPairs_def fun_eq_iff)

lemma onPairs_skip: "ia_pairs ag r = Some p \<Longrightarrow> g p = p \<Longrightarrow> onPairs g (r # rs) ag = onPairs g rs ag"
  by (simp add: onPairs_def fun_eq_iff)

definition frozen :: "IceCandidatePair \<Rightarrow> IceCandidatePair" where
  "frozen p = (if cp_nominated p then p else p\<lparr>cp_state := ICE_CANDIDATE_PAIR_STATE_FROZEN\<rparr>)"

lemma freezePairs_eq: "\<forall>r \<in> set rs. ia_pairs ag r \<noteq> None \<Longrightarrow> freezePairs rs ag = Some (onPairs frozen rs ag)"
proof (induction rs arbitrary: ag)
  case Nil
  then show ?case by (simp add: onPairs_def)
next
  case (Cons r rs)
  then obtain p where p: "ia_pairs ag r = Some p" by auto
  let ?ag = "ag\<lparr>ia_pairs := (ia_pairs ag)(r \<mapsto> frozen p)\<rparr>"
  have idem: "frozen (frozen p) = frozen p" for p by (simp add: frozen_def)
  have "freezePairs rs ?ag = Some (onPairs frozen rs ?ag)" "freezePairs rs ag = Some (onPairs frozen rs ag)"
    using Cons by auto
  moreover have "onPairs frozen rs ?ag = onPairs frozen (r # rs) ag" by (rule onPairs_Cons [OF p idem])
  moreover have "cp_nominated p \<Longrightarrow> onPairs frozen (r # rs) ag = onPairs frozen rs ag" by (rule onPairs_skip [OF p]) (simp add: frozen_def)
  ultimately show ?case using p by (cases "cp_nominated p") (simp_all add: updatePair_def frozen_def [of p])
qed

definition orphaned :: "(nat \<Rightarrow> IceCandidate option) \<Rightarrow> IceCandidatePair \<Rightarrow> bool" where
  "orphaned cands p \<longleftrightarrow> (\<forall>l. cands (cp_local p) = Some l \<longrightarrow> cd_state l \<noteq> ICE_CANDIDATE_STATE_VALID)"

definition failed_when :: "(IceCandidatePair \<Rightarrow> bool) \<Rightarrow> IceCandidatePair \<Rightarrow> IceCandidatePair" where
  "failed_when bad p = (if bad p then p\<lparr>cp_state := ICE_CANDIDATE_PAIR_STATE_FAILED\<rparr> else p)"

definition anchored :: "'n IceAgent \<Rightarrow> nat \<Rightarrow> bool" where
  "anchored ag r \<longleftrightarrow> (\<exists>p l. ia_pairs ag r = Some p \<and> ia_cands ag (cp_local p) = Some l)"

lemma orphaned_state [simp]: "orphaned cands (p\<lparr>cp_state := s\<rparr>) = orphaned cands p"
  by (simp add: orphaned_def)

lemma invalidatePairs_eq:
  "\<forall>r \<in> set rs. anchored ag r \<Longrightarrow> invalidatePairs rs ag = Some (onPairs (failed_when (orphaned (ia_cands ag))) rs ag)"
proof (induction rs arbitrary: ag)
  case Nil
  then show ?case by (simp add: onPairs_def)
next
  case (Cons r rs)
  then obtain p l where p: "ia_pairs ag r = Some p" "ia_cands ag (cp_local p) = Some l" by (auto simp: anchored_def)
  let ?g = "failed_when (orphaned (ia_cands ag))"
  let ?ag = "ag\<lparr>ia_pairs := (ia_pairs ag)(r \<mapsto> ?g p)\<rparr>"
  have idem: "?g (?g p) = ?g p" for p by (simp add: failed_when_def)
  have "anchored ?ag q" if "anchored ag q" for q
    using that p by (cases "q = r") (auto simp: anchored_def failed_when_def)
  then have "invalidatePairs rs ?ag = Some (onPairs ?g rs ?ag)" "invalidatePairs rs ag = Some (onPairs ?g rs ag)"
    using Cons.IH [of ?ag] Cons.IH [of ag] Cons.prems by auto
  moreover have "onPairs ?g rs ?ag = onPairs ?g (r # rs) ag" by (rule onPairs_Cons [OF p(1) idem])
  moreover have "cd_state l = ICE_CANDIDATE_STATE_VALID \<Longrightarrow> onPairs ?g (r # rs) ag = onPairs ?g rs ag"
    using p(2) by (intro onPairs_skip [OF p(1)]) (simp add: failed_when_def orphaned_def)
  moreover have "orphaned (ia_cands ag) p \<longleftrightarrow> cd_state l \<noteq> ICE_CANDIDATE_STATE_VALID" using p(2) by (simp add: orphaned_def)
  ultimately show ?case
    using p by (cases "cd_state l = ICE_CANDIDATE_STATE_VALID") (simp_all add: updatePair_def failed_when_def [of _ p])
qed

lemma dropPairs_eq:
  "distinct rs \<Longrightarrow> \<forall>r \<in> set rs. ia_pairs ag r \<noteq> None \<Longrightarrow>
   dropPairs bad rs ag =
     Some (ag\<lparr>ia_pairs := (\<lambda>q. if q \<in> set rs \<and> bad (cp_state (the (ia_pairs ag q))) then None else ia_pairs ag q),
              iceCandidatePairs := filter (\<lambda>q. \<not> (q \<in> set rs \<and> bad (cp_state (the (ia_pairs ag q))))) (iceCandidatePairs ag)\<rparr>)"
proof (induction rs arbitrary: ag)
  case Nil
  then show ?case by simp
next
  case (Cons r rs)
  then obtain p where p: "ia_pairs ag r = Some p" by auto
  show ?case
  proof (cases "bad (cp_state p)")
    case True
    let ?ag = "ag\<lparr>ia_pairs := (ia_pairs ag)(r := None), iceCandidatePairs := removeAll r (iceCandidatePairs ag)\<rparr>"
    have "\<forall>q \<in> set rs. ia_pairs ?ag q \<noteq> None" using Cons.prems by auto
    moreover have "(\<lambda>q. if q \<in> set rs \<and> bad (cp_state (the (ia_pairs ?ag q))) then None else ia_pairs ?ag q) =
        (\<lambda>q. if q \<in> set (r # rs) \<and> bad (cp_state (the (ia_pairs ag q))) then None else ia_pairs ag q)"
      using p True by (auto simp: fun_eq_iff)
    moreover have "filter (\<lambda>q. \<not> (q \<in> set rs \<and> bad (cp_state (the (ia_pairs ?ag q))))) (iceCandidatePairs ?ag) =
        filter (\<lambda>q. \<not> (q \<in> set (r # rs) \<and> bad (cp_state (the (ia_pairs ag q))))) (iceCandidatePairs ag)"
      using p True Cons.prems(1) by (auto simp: removeAll_filter_not_eq intro!: filter_cong)
    moreover have "dropPairs bad (r # rs) ag = dropPairs bad rs ?ag" using p True by (simp add: freeIceCandidatePair_def)
    ultimately show ?thesis using Cons.IH [of ?ag] Cons.prems(1) by simp
  next
    case False
    have "(\<lambda>q. if q \<in> set rs \<and> bad (cp_state (the (ia_pairs ag q))) then None else ia_pairs ag q) =
        (\<lambda>q. if q \<in> set (r # rs) \<and> bad (cp_state (the (ia_pairs ag q))) then None else ia_pairs ag q)"
      using p False by (auto simp: fun_eq_iff)
    moreover have "filter (\<lambda>q. \<not> (q \<in> set rs \<and> bad (cp_state (the (ia_pairs ag q))))) (iceCandidatePairs ag) =
        filter (\<lambda>q. \<not> (q \<in> set (r # rs) \<and> bad (cp_state (the (ia_pairs ag q))))) (iceCandidatePairs ag)"
      using p False by (auto intro!: filter_cong)
    ultimately show ?thesis using Cons.IH [of ag] Cons.prems p False by simp
  qed
qed

definition invalidated :: "nat \<Rightarrow> nat list \<Rightarrow> (nat \<Rightarrow> IceCandidate option) \<Rightarrow> nat \<Rightarrow> IceCandidate option" where
  "invalidated keep ls cands l =
     (if l \<in> set ls \<and> l \<noteq> keep then map_option (\<lambda>c. c\<lparr>cd_state := ICE_CANDIDATE_STATE_INVALID\<rparr>) (cands l) else cands l)"

lemma invalidated_survivor:
  assumes "cp_local y \<in> set ls" "cands (cp_local y) = Some d"
    and "cp_state (failed_when (orphaned (invalidated keep ls cands)) y) \<noteq> ICE_CANDIDATE_PAIR_STATE_FAILED"
  shows "cp_local (failed_when (orphaned (invalidated keep ls cands)) y) = keep"
  using assms by (auto simp: failed_when_def orphaned_def invalidated_def split: if_splits)

lemma invalidated_Cons:
  assumes "cands l = Some c" "l \<noteq> keep"
  shows "invalidated keep ls (cands(l \<mapsto> c\<lparr>cd_state := ICE_CANDIDATE_STATE_INVALID\<rparr>)) = invalidated keep (l # ls) cands"
  using assms by (auto simp: invalidated_def fun_eq_iff)

lemma retireCandidates_eq:
  assumes "\<And>t u w. fst (ie_turnConnectionShutdown E t u w) = STATUS_SUCCESS" and "\<forall>l \<in> set ls. ia_cands ag l \<noteq> None"
  shows "\<exists>w. chkAll (map (retireCandidate E keep) ls) ag = Some (STATUS_SUCCESS, ag\<lparr>ia_world := w, ia_cands := invalidated keep ls (ia_cands ag)\<rparr>)"
  using assms(2)
proof (induction ls arbitrary: ag)
  case Nil
  have "invalidated keep [] (ia_cands ag) = ia_cands ag" by (simp add: invalidated_def fun_eq_iff)
  then show ?case by (intro exI [of _ "ia_world ag"]) simp
next
  case (Cons l ls)
  then obtain c where c: "ia_cands ag l = Some c" by auto
  show ?case
  proof (cases "l = keep")
    case True
    then have "invalidated keep (l # ls) (ia_cands ag) = invalidated keep ls (ia_cands ag)" by (auto simp: invalidated_def fun_eq_iff)
    with Cons.IH [of ag] Cons.prems True show ?thesis by (simp add: retireCandidate_def)
  next
    case False
    let ?cands = "(ia_cands ag)(l \<mapsto> c\<lparr>cd_state := ICE_CANDIDATE_STATE_INVALID\<rparr>)"
    obtain st w where "ie_turnConnectionShutdown E (cd_turn c) 0 (ia_world ag) = (st, w)" by fastforce
    then have "ie_turnConnectionShutdown E (cd_turn c) 0 (ia_world ag) = (STATUS_SUCCESS, w)"
      using assms(1) [of "cd_turn c" 0 "ia_world ag"] by simp
    then have "retireCandidate E keep l ag = Some (STATUS_SUCCESS,
        ag\<lparr>ia_world := (if cd_type c = ICE_CANDIDATE_TYPE_RELAYED then w else ia_world ag), ia_cands := ?cands\<rparr>)"
      using False c by (simp add: retireCandidate_def outside_def updateCandidate_def)
    then obtain w where w: "retireCandidate E keep l ag = Some (STATUS_SUCCESS, ag\<lparr>ia_world := w, ia_cands := ?cands\<rparr>)" by blast
    have "\<forall>l \<in> set ls. ia_cands (ag\<lparr>ia_world := w, ia_cands := ?cands\<rparr>) l \<noteq> None" using Cons.prems by simp
    from Cons.IH [OF this] obtain w' where
      "chkAll (map (retireCandidate E keep) ls) (ag\<lparr>ia_world := w, ia_cands := ?cands\<rparr>) =
         Some (STATUS_SUCCESS, ag\<lparr>ia_world := w', ia_cands := invalidated keep ls ?cands\<rparr>)" by (auto simp del: fun_upd_apply)
    then have "chkAll (map (retireCandidate E keep) (l # ls)) ag =
         Some (STATUS_SUCCESS, ag\<lparr>ia_world := w', ia_cands := invalidated keep (l # ls) (ia_cands ag)\<rparr>)"
      using w invalidated_Cons [of "ia_cands ag" l c keep ls] c False by simp
    then show ?thesis by blast
  qed
qed

subsection \<open>Nominating\<close>

lemma findRef_first:
  assumes "\<forall>r \<in> set rs. mem r \<noteq> None" "\<exists>r \<in> set rs. Q (the (mem r))"
  shows "\<exists>pre r post p. rs = pre @ r # post \<and> findRef (\<lambda>p. Some (Q p)) mem rs = Some (Some r) \<and> mem r = Some p \<and> Q p \<and> (\<forall>q \<in> set pre. \<not> Q (the (mem q)))"
  using assms
proof (induction rs)
  case (Cons r rs)
  then obtain p where p: "mem r = Some p" by auto
  show ?case
  proof (cases "Q p")
    case True
    with p show ?thesis by (intro exI [of _ "[]"] exI [of _ r] exI [of _ rs]) simp
  next
    case False
    with Cons p obtain pre q post x where "rs = pre @ q # post" "findRef (\<lambda>p. Some (Q p)) mem rs = Some (Some q)" "mem q = Some x" "Q x"
      "\<forall>q \<in> set pre. \<not> Q (the (mem q))" by auto
    with p False show ?thesis by (intro exI [of _ "r # pre"] exI [of _ q] exI [of _ post] exI [of _ x]) simp
  qed
qed simp

definition succeeded :: "'n IceAgent \<Rightarrow> nat \<Rightarrow> bool" where
  "succeeded ag r \<longleftrightarrow> (\<exists>p. ia_pairs ag r = Some p \<and> cp_state p = ICE_CANDIDATE_PAIR_STATE_SUCCEEDED)"

text \<open>The nominated pair is the first succeeded one, hence of the highest priority among them.\<close>

lemma nominate_best:
  assumes ctl: "isControlling ag" and inv: "pairs_inv ag"
    and fresh: "\<forall>r \<in> set (iceCandidatePairs ag). \<not> cp_nominated (the (ia_pairs ag r))"
    and some: "\<exists>r \<in> set (iceCandidatePairs ag). succeeded ag r"
  obtains r p ag1 where "r \<in> set (iceCandidatePairs ag)" "ia_pairs ag r = Some p" "cp_state p = ICE_CANDIDATE_PAIR_STATE_SUCCEEDED"
    "\<forall>q \<in> set (iceCandidatePairs ag). succeeded ag q \<longrightarrow> pair_prio ag q \<le> pair_prio ag r"
    "iceAgentNominateCandidatePair ag = Some (STATUS_SUCCESS, ag1)"
    "ag1 = onPairs frozen (iceCandidatePairs ag) (ag\<lparr>ia_pairs := (ia_pairs ag)(r \<mapsto> p\<lparr>cp_nominated := True, cp_ids := map_option transactionIdStoreClear (cp_ids p)\<rparr>)\<rparr>)"
    "selectPair ag1 = Some (Some r)"
proof -
  let ?rs = "iceCandidatePairs ag"
  let ?Q = "\<lambda>p. cp_state p = ICE_CANDIDATE_PAIR_STATE_SUCCEEDED"
  have mem: "\<forall>r \<in> set ?rs. ia_pairs ag r \<noteq> None" and sorted: "sorted_wrt (\<lambda>r q. pair_prio ag q \<le> pair_prio ag r) ?rs"
    using inv by (auto simp: pairs_inv_def)
  have "\<exists>r \<in> set ?rs. ?Q (the (ia_pairs ag r))" using some unfolding succeeded_def by force
  from findRef_first [OF mem this] obtain pre r post p where r: "?rs = pre @ r # post" "findRef (\<lambda>p. Some (?Q p)) (ia_pairs ag) ?rs = Some (Some r)"
    "ia_pairs ag r = Some p" "?Q p" "\<forall>q \<in> set pre. \<not> ?Q (the (ia_pairs ag q))" by blast
  have best: "\<forall>q \<in> set ?rs. succeeded ag q \<longrightarrow> pair_prio ag q \<le> pair_prio ag r"
    using sorted r(5) unfolding r(1) by (auto simp: sorted_wrt_append succeeded_def)
  let ?p = "p\<lparr>cp_nominated := True, cp_ids := map_option transactionIdStoreClear (cp_ids p)\<rparr>"
  let ?ag = "ag\<lparr>ia_pairs := (ia_pairs ag)(r \<mapsto> ?p)\<rparr>"
  let ?ag1 = "onPairs frozen ?rs ?ag"
  have "freezePairs ?rs ?ag = Some ?ag1" using mem by (intro freezePairs_eq) simp
  then have run: "iceAgentNominateCandidatePair ag = Some (STATUS_SUCCESS, ?ag1)"
    using ctl r by (simp add: iceAgentNominateCandidatePair_def updatePair_def)
  have rin: "r \<in> set ?rs" using r(1) by simp
  have at: "ia_pairs ?ag1 r = Some ?p" using rin by (simp add: onPairs_def frozen_def)
  have others: "\<not> cp_nominated (the (ia_pairs ?ag1 q))" if q: "q \<in> set ?rs" "q \<noteq> r" for q
  proof -
    obtain x where "ia_pairs ag q = Some x" using q mem by blast
    then show ?thesis using q fresh by (force simp: onPairs_def frozen_def)
  qed
  have list: "iceCandidatePairs ?ag1 = ?rs" by (simp add: onPairs_def)
  have mem1: "\<forall>q \<in> set ?rs. ia_pairs ?ag1 q \<noteq> None" using mem by (auto simp: onPairs_def)
  have "\<exists>q \<in> set ?rs. cp_nominated (the (ia_pairs ?ag1 q)) \<and> ?Q (the (ia_pairs ?ag1 q))" using rin at r(4) by (intro bexI [of _ r]) auto
  from findRef_first [where mem = "ia_pairs ?ag1" and Q = "\<lambda>p. cp_nominated p \<and> ?Q p", OF mem1 this] obtain pre q post x where
    "?rs = pre @ q # post" "ia_pairs ?ag1 q = Some x" "cp_nominated x"
    "findRef (\<lambda>p. Some (cp_nominated p \<and> ?Q p)) (ia_pairs ?ag1) ?rs = Some (Some q)" by blast
  then have "q \<in> set ?rs" "cp_nominated (the (ia_pairs ?ag1 q))" "findRef (\<lambda>p. Some (cp_nominated p \<and> ?Q p)) (ia_pairs ?ag1) ?rs = Some (Some q)"
    by simp_all
  then have "selectPair ?ag1 = Some (Some r)" using others list unfolding selectPair_def by metis
  with that [OF rin r(3,4) best run refl] show ?thesis .
qed

subsection \<open>Getting ready\<close>

lemma ready_eq:
  assumes timer: "\<And>w. fst (ie_updateTimerPeriod E w) = STATUS_SUCCESS"
    and turn: "\<And>t u w. fst (ie_turnConnectionShutdown E t u w) = STATUS_SUCCESS"
    and none: "pDataSending ag = None" and sel: "selectPair ag = Some (Some r)" "ia_pairs ag r = Some p"
    and refs: "distinct (iceCandidatePairs ag)" "\<forall>r \<in> set (iceCandidatePairs ag). anchored ag r" "\<forall>l \<in> set (localCandidates ag). ia_cands ag l \<noteq> None"
  defines "cands \<equiv> invalidated (cp_local p) (localCandidates ag) (ia_cands ag)"
  defines "pairs \<equiv> ia_pairs (onPairs (failed_when (orphaned cands)) (iceCandidatePairs ag) ag)"
  shows "\<exists>ag'. iceAgentReadyStateSetup E ag = Some (STATUS_SUCCESS, ag') \<and> pDataSending ag' = Some r \<and> stopGathering ag' \<and> ia_cands ag' = cands \<and>
     iceCandidatePairs ag' = filter (\<lambda>q. cp_state (the (pairs q)) \<noteq> ICE_CANDIDATE_PAIR_STATE_FAILED) (iceCandidatePairs ag) \<and>
     (\<forall>q \<in> set (iceCandidatePairs ag'). ia_pairs ag' q = pairs q)"
proof -
  let ?rs = "iceCandidatePairs ag"
  obtain w0 where w0: "ie_updateTimerPeriod E (ia_world ag) = (STATUS_SUCCESS, w0)" using timer [of "ia_world ag"] by (metis prod.collapse)
  define a1 where "a1 = ag\<lparr>ia_world := w0\<rparr>"
  have t: "outside (ie_updateTimerPeriod E) ag = Some (STATUS_SUCCESS, a1)" using w0 by (simp add: outside_def a1_def)
  define a2 where "a2 = a1\<lparr>pDataSending := Some r, stopGathering := True\<rparr>"
  have "selectPair a1 = selectPair ag" by (simp add: selectPair_def a1_def)
  then have ch: "choosePair a1 = Some (STATUS_SUCCESS, a2)" using none sel(1) by (simp add: choosePair_def a1_def a2_def)
  have "\<forall>l \<in> set (localCandidates ag). ia_cands (a2\<lparr>stateEndTime := INVALID_TIMESTAMP_VALUE\<rparr>) l \<noteq> None" using refs(3) by (simp add: a2_def a1_def)
  from retireCandidates_eq [OF turn this, of "cp_local p"] obtain w where
    w: "chkAll (map (retireCandidate E (cp_local p)) (localCandidates ag)) (a2\<lparr>stateEndTime := INVALID_TIMESTAMP_VALUE\<rparr>) =
      Some (STATUS_SUCCESS, a2\<lparr>stateEndTime := INVALID_TIMESTAMP_VALUE, ia_world := w, ia_cands := cands\<rparr>)"
    by (auto simp: cands_def a2_def a1_def)
  define a3 where "a3 = a2\<lparr>stateEndTime := INVALID_TIMESTAMP_VALUE, ia_world := w, ia_cands := cands\<rparr>"
  have kc: "keepChosen E a2 = Some (STATUS_SUCCESS, a3)" using w sel(2) by (simp add: keepChosen_def a3_def a2_def a1_def)
  have f3: "iceCandidatePairs a3 = ?rs" "ia_cands a3 = cands" "ia_pairs a3 = ia_pairs ag" "pDataSending a3 = Some r" "stopGathering a3"
    by (simp_all add: a3_def a2_def a1_def)
  define a4 where "a4 = onPairs (failed_when (orphaned cands)) ?rs a3"
  have "\<forall>q \<in> set ?rs. anchored a3 q" using refs(2) by (fastforce simp: anchored_def f3 cands_def invalidated_def)
  then have iv: "iceAgentInvalidateCandidatePair a3 = Some (STATUS_SUCCESS, a4)"
    using invalidatePairs_eq [of ?rs a3] by (simp add: iceAgentInvalidateCandidatePair_def f3 a4_def)
  have f4: "iceCandidatePairs a4 = ?rs" "ia_cands a4 = cands" "ia_pairs a4 = pairs" "pDataSending a4 = Some r" "stopGathering a4"
    by (simp_all add: a4_def onPairs_def f3 pairs_def fun_eq_iff)
  have "\<forall>q \<in> set ?rs. ia_pairs a4 q \<noteq> None" using refs(2) by (auto simp: f4 pairs_def onPairs_def anchored_def)
  from dropPairs_eq [OF refs(1) this, of "\<lambda>s. s = ICE_CANDIDATE_PAIR_STATE_FAILED"] obtain a5 where
    a5: "dropFailed a4 = Some (STATUS_SUCCESS, a5)" "pDataSending a5 = Some r" "stopGathering a5" "ia_cands a5 = cands"
      "iceCandidatePairs a5 = filter (\<lambda>q. cp_state (the (pairs q)) \<noteq> ICE_CANDIDATE_PAIR_STATE_FAILED) ?rs"
      "\<forall>q. cp_state (the (pairs q)) \<noteq> ICE_CANDIDATE_PAIR_STATE_FAILED \<longrightarrow> ia_pairs a5 q = pairs q"
    by (simp add: dropFailed_def f4 cong: filter_cong)
  have "iceAgentReadyStateSetup E ag = Some (STATUS_SUCCESS, a5)" using t ch kc iv a5(1) by (simp add: iceAgentReadyStateSetup_def recording_def)
  with a5 show ?thesis by auto
qed

subsection \<open>The pair that carries the data\<close>

text \<open>
  An agent whose connectivity checks are over: it controls, no pair is nominated yet and none carries
  data; the pairs refer to listed local candidates, valid ones for the pairs that succeeded.
\<close>

definition checked :: "'n IceAgent \<Rightarrow> bool" where
  "checked ag \<longleftrightarrow> isControlling ag \<and> pairs_inv ag \<and> pDataSending ag = None \<and>
     (\<forall>l \<in> set (localCandidates ag). ia_cands ag l \<noteq> None) \<and>
     (\<forall>r \<in> set (iceCandidatePairs ag). \<exists>p c. ia_pairs ag r = Some p \<and> \<not> cp_nominated p \<and> cp_local p \<in> set (localCandidates ag) \<and>
        ia_cands ag (cp_local p) = Some c \<and> (cp_state p = ICE_CANDIDATE_PAIR_STATE_SUCCEEDED \<longrightarrow> cd_state c = ICE_CANDIDATE_STATE_VALID))"

text \<open>
  C38.  The best pair carries the data.  When the checks of a controlling agent are over and some pair
  succeeded, nominating succeeds, and so does getting ready when the timer and the TURN
  connections answer: the data goes over a pair that succeeded and is nominated, whose priority is the
  highest of all pairs that succeeded; it is still in the list and its local candidate valid.  Every other
  local candidate is invalid, the pairs that are left all use the chosen one, none of them has failed,
  and gathering has stopped.
\<close>

theorem best_pair_carries_data:
  assumes ag: "checked ag" and some: "\<exists>r \<in> set (iceCandidatePairs ag). succeeded ag r"
    and timer: "\<And>w. fst (ie_updateTimerPeriod E w) = STATUS_SUCCESS"
    and turn: "\<And>t u w. fst (ie_turnConnectionShutdown E t u w) = STATUS_SUCCESS"
  shows "\<exists>ag1 ag2 r p c.
    iceAgentNominateCandidatePair ag = Some (STATUS_SUCCESS, ag1) \<and> iceAgentReadyStateSetup E ag1 = Some (STATUS_SUCCESS, ag2) \<and>
    pDataSending ag2 = Some r \<and> r \<in> set (iceCandidatePairs ag2) \<and> ia_pairs ag2 r = Some p \<and> cp_nominated p \<and>
    cp_state p = ICE_CANDIDATE_PAIR_STATE_SUCCEEDED \<and> succeeded ag r \<and>
    (\<forall>q \<in> set (iceCandidatePairs ag). succeeded ag q \<longrightarrow> pair_prio ag q \<le> pair_prio ag r) \<and>
    ia_cands ag2 (cp_local p) = Some c \<and> cd_state c = ICE_CANDIDATE_STATE_VALID \<and>
    (\<forall>l \<in> set (localCandidates ag). l \<noteq> cp_local p \<longrightarrow> (\<exists>d. ia_cands ag2 l = Some d \<and> cd_state d = ICE_CANDIDATE_STATE_INVALID)) \<and>
    (\<forall>q \<in> set (iceCandidatePairs ag2). \<exists>x. ia_pairs ag2 q = Some x \<and> cp_local x = cp_local p \<and> cp_state x \<noteq> ICE_CANDIDATE_PAIR_STATE_FAILED) \<and>
    stopGathering ag2"
proof -
  let ?rs = "iceCandidatePairs ag"
  have pairs: "\<exists>p c. ia_pairs ag r = Some p \<and> \<not> cp_nominated p \<and> cp_local p \<in> set (localCandidates ag) \<and>
        ia_cands ag (cp_local p) = Some c \<and> (cp_state p = ICE_CANDIDATE_PAIR_STATE_SUCCEEDED \<longrightarrow> cd_state c = ICE_CANDIDATE_STATE_VALID)"
    if "r \<in> set ?rs" for r using ag that by (simp add: checked_def)
  have fresh: "\<forall>r \<in> set ?rs. \<not> cp_nominated (the (ia_pairs ag r))" using pairs by force
  have "isControlling ag" "pairs_inv ag" using ag by (auto simp: checked_def)
  from nominate_best [OF this fresh some] obtain r p ag1 where r: "r \<in> set ?rs" "ia_pairs ag r = Some p" "cp_state p = ICE_CANDIDATE_PAIR_STATE_SUCCEEDED"
    and best: "\<forall>q \<in> set ?rs. succeeded ag q \<longrightarrow> pair_prio ag q \<le> pair_prio ag r"
    and nom: "iceAgentNominateCandidatePair ag = Some (STATUS_SUCCESS, ag1)"
    and ag1: "ag1 = onPairs frozen ?rs (ag\<lparr>ia_pairs := (ia_pairs ag)(r \<mapsto> p\<lparr>cp_nominated := True, cp_ids := map_option transactionIdStoreClear (cp_ids p)\<rparr>)\<rparr>)"
    and sel: "selectPair ag1 = Some (Some r)" .
  let ?p = "p\<lparr>cp_nominated := True, cp_ids := map_option transactionIdStoreClear (cp_ids p)\<rparr>"
  have f1: "iceCandidatePairs ag1 = ?rs" "localCandidates ag1 = localCandidates ag" "ia_cands ag1 = ia_cands ag" "pDataSending ag1 = None"
    using ag by (simp_all add: ag1 onPairs_def checked_def)
  have at: "ia_pairs ag1 r = Some ?p" using r(1) by (simp add: ag1 onPairs_def frozen_def)
  have locals1: "\<exists>x. ia_pairs ag1 q = Some x \<and> cp_local x \<in> set (localCandidates ag) \<and> (\<exists>d. ia_cands ag (cp_local x) = Some d)" if "q \<in> set ?rs" for q
    using pairs [OF that] pairs [OF r(1)] r that by (cases "q = r") (auto simp: ag1 onPairs_def frozen_def)
  let ?cands = "invalidated (cp_local p) (localCandidates ag) (ia_cands ag)"
  let ?g = "failed_when (orphaned ?cands)"
  have anchored1: "\<forall>q \<in> set (iceCandidatePairs ag1). anchored ag1 q" using locals1 by (force simp: f1 anchored_def)
  have "distinct (iceCandidatePairs ag1)" "\<forall>l \<in> set (localCandidates ag1). ia_cands ag1 l \<noteq> None"
    using ag by (auto simp: f1 checked_def pairs_inv_def)
  from ready_eq [OF timer turn f1(4) sel at this(1) anchored1 this(2)] obtain ag2 where
    ready: "iceAgentReadyStateSetup E ag1 = Some (STATUS_SUCCESS, ag2)" "pDataSending ag2 = Some r" "stopGathering ag2" "ia_cands ag2 = ?cands"
    and list2: "iceCandidatePairs ag2 = filter (\<lambda>q. cp_state (the (ia_pairs (onPairs ?g ?rs ag1) q)) \<noteq> ICE_CANDIDATE_PAIR_STATE_FAILED) ?rs"
    and pairs2: "\<forall>q \<in> set (iceCandidatePairs ag2). ia_pairs ag2 q = ia_pairs (onPairs ?g ?rs ag1) q"
    by (auto simp: f1)
  obtain c where c: "ia_cands ag (cp_local p) = Some c" "cd_state c = ICE_CANDIDATE_STATE_VALID" using pairs [OF r(1)] r(2,3) by auto
  have valid: "?cands (cp_local p) = Some c" using c(1) by (simp add: invalidated_def)
  have kept: "?g ?p = ?p" using valid c(2) by (simp add: failed_when_def orphaned_def)
  have r2: "r \<in> set (iceCandidatePairs ag2)" using r(1,3) at kept by (simp add: list2 onPairs_def)
  have p2: "ia_pairs ag2 r = Some ?p" using pairs2 r2 r(1) at kept by (simp add: onPairs_def)
  have others: "\<exists>x. ia_pairs ag2 q = Some x \<and> cp_local x = cp_local p \<and> cp_state x \<noteq> ICE_CANDIDATE_PAIR_STATE_FAILED"
    if q: "q \<in> set (iceCandidatePairs ag2)" for q
  proof -
    have qr: "q \<in> set ?rs" using q by (simp add: list2)
    from locals1 [OF qr] obtain y d where y: "ia_pairs ag1 q = Some y" "cp_local y \<in> set (localCandidates ag)" "ia_cands ag (cp_local y) = Some d" by blast
    have "cp_state (?g y) \<noteq> ICE_CANDIDATE_PAIR_STATE_FAILED" "ia_pairs ag2 q = Some (?g y)"
      using q qr y(1) pairs2 by (simp_all add: list2 onPairs_def)
    then show ?thesis using invalidated_survivor [of y "localCandidates ag" "ia_cands ag" d "cp_local p"] y(2,3) by simp
  qed
  have gone: "\<forall>l \<in> set (localCandidates ag). l \<noteq> cp_local p \<longrightarrow> (\<exists>d. ia_cands ag2 l = Some d \<and> cd_state d = ICE_CANDIDATE_STATE_INVALID)"
    using ag by (auto simp: ready(4) invalidated_def checked_def)
  have "succeeded ag r" using r(2,3) by (simp add: succeeded_def)
  then show ?thesis
    using nom ready r2 p2 best valid c(2) gone others r(3)
    by (intro exI [of _ ag1] exI [of _ ag2] exI [of _ r] exI [of _ ?p] exI [of _ c]) simp
qed

text \<open>Two pairs succeeded, over two local candidates; the first has the higher priority.\<close>

definition sample_pair :: "nat \<Rightarrow> nat \<Rightarrow> IceCandidatePair" where
  "sample_pair l prio =
     \<lparr>cp_local = l, cp_remote = 2, cp_nominated = False, cp_firstStunRequest = True, cp_priority = prio,
      cp_state = ICE_CANDIDATE_PAIR_STATE_SUCCEEDED, cp_ids = None, cp_lastDataSentTime = 0, cp_requestSentTime = (\<lambda>_. None), cp_roundTripTime = 0\<rparr>"

definition sample_checked :: "nat IceAgent" where
  "sample_checked = ice_sample_agent\<lparr>ia_cands := [0 \<mapsto> sample_remote\<lparr>cd_isRemote := False\<rparr>, 1 \<mapsto> sample_remote\<lparr>cd_isRemote := False\<rparr>, 2 \<mapsto> sample_remote],
     ia_pairs := [3 \<mapsto> sample_pair 0 9, 4 \<mapsto> sample_pair 1 5], ia_next := 5, localCandidates := [0, 1], remoteCandidates := [2], iceCandidatePairs := [3, 4]\<rparr>"

theorem best_pair_carries_data_witness:
  "\<exists>ag1 ag2. iceAgentNominateCandidatePair sample_checked = Some (STATUS_SUCCESS, ag1) \<and>
     iceAgentReadyStateSetup ice_sample_env ag1 = Some (STATUS_SUCCESS, ag2) \<and> pDataSending ag2 = Some 3 \<and> checked sample_checked"
proof -
  have ok: "checked sample_checked"
    by (simp add: checked_def sample_checked_def ice_sample_agent_def pairs_inv_def pair_prio_def sample_pair_def sample_remote_def)
  have three: "\<exists>r \<in> set (iceCandidatePairs sample_checked). succeeded sample_checked r"
    by (simp add: sample_checked_def succeeded_def sample_pair_def)
  have env: "\<And>w. fst (ie_updateTimerPeriod ice_sample_env w) = STATUS_SUCCESS" "\<And>t u w. fst (ie_turnConnectionShutdown ice_sample_env t u w) = STATUS_SUCCESS"
    by (simp_all add: ice_sample_env_def)
  have only: "r = 3" if "succeeded sample_checked r" "\<forall>q \<in> set (iceCandidatePairs sample_checked). succeeded sample_checked q \<longrightarrow> pair_prio sample_checked q \<le> pair_prio sample_checked r" for r
    using that by (auto simp: sample_checked_def succeeded_def sample_pair_def pair_prio_def split: if_splits)
  from best_pair_carries_data [OF ok three env] only ok show ?thesis by blast
qed

end
