(* ===== verification/IceCandidateLine.thy ===== *)
theory IceCandidateLine
  imports IceProperties
begin

text \<open>
  The candidate line between two agents: what \<^verbatim>\<open>iceCandidateSerialize\<close> prints,
  \<^verbatim>\<open>iceAgentAddRemoteCandidate\<close> of the peer understands, and the peer pairs the new candidate with its own.
\<close>

subsection \<open>Characters\<close>

lemma digit_no_space: "d < 16 \<Longrightarrow> digit d \<noteq> CHR '' ''" "d < 10 \<Longrightarrow> digit d \<noteq> CHR ''.''" "d < 16 \<Longrightarrow> digit d \<noteq> CHR '':''"
proof -
  have eq: "digit d = CHR '' '' \<longleftrightarrow> of_char (digit d) = (32 :: nat)" "digit d = CHR ''.'' \<longleftrightarrow> of_char (digit d) = (46 :: nat)"
    "digit d = CHR '':'' \<longleftrightarrow> of_char (digit d) = (58 :: nat)" for d
    by (auto simp flip: of_char_eq_iff [where ?'a = nat])
  show "d < 16 \<Longrightarrow> digit d \<noteq> CHR '' ''" "d < 10 \<Longrightarrow> digit d \<noteq> CHR ''.''" "d < 16 \<Longrightarrow> digit d \<noteq> CHR '':''"
    unfolding eq by (auto simp: digit_def)
qed

definition undigit :: "char \<Rightarrow> nat" where
  "undigit c = (let n = of_char c in if n < 58 then n - 48 else n - 55)"

lemma undigit_digit [simp]: "d < 16 \<Longrightarrow> undigit (digit d) = d"
  by (auto simp: undigit_def digit_def Let_def)

lemma decimal_chars: "c \<in> set (decimal n) \<Longrightarrow> \<exists>d < 10. c = digit d"
proof (induction n rule: decimal.induct)
  case (1 n)
  show ?case
  proof (cases "n < 10")
    case True
    with "1.prems" show ?thesis by (subst (asm) decimal.simps) auto
  next
    case False
    then have "c \<in> set (decimal (n div 10)) \<or> c = digit (n mod 10)" using "1.prems" by (subst (asm) decimal.simps) auto
    moreover have "n mod 10 < 10" by simp
    ultimately show ?thesis using "1.IH" False by blast
  qed
qed

lemma decimal_free [simp]: "CHR '' '' \<notin> set (decimal n)" "CHR ''.'' \<notin> set (decimal n)" "CHR '':'' \<notin> set (decimal n)"
proof -
  have "c \<noteq> CHR '' '' \<and> c \<noteq> CHR ''.'' \<and> c \<noteq> CHR '':''" if "c \<in> set (decimal n)" for c
    using decimal_chars [OF that] digit_no_space by (auto simp: less_le_trans [of _ 10 16])
  then show "CHR '' '' \<notin> set (decimal n)" "CHR ''.'' \<notin> set (decimal n)" "CHR '':'' \<notin> set (decimal n)" by blast+
qed

lemma decimal_nonempty [simp]: "decimal n \<noteq> []"
  by (subst decimal.simps) simp

lemma decimal_byte: "n < 256 \<Longrightarrow> length (decimal n) \<le> 3"
  by (subst decimal.simps, subst decimal.simps, subst decimal.simps) simp

lemma decimal_word: "n < 10 ^ k \<Longrightarrow> 0 < k \<Longrightarrow> length (decimal n) \<le> k"
proof (induction k arbitrary: n)
  case (Suc k)
  show ?case
  proof (cases "n < 10")
    case True
    then show ?thesis by (subst decimal.simps) simp
  next
    case False
    then have "0 < k" using Suc.prems by (cases k) auto
    moreover have "n div 10 < 10 ^ k" using Suc.prems by (simp add: less_mult_imp_div_less mult.commute)
    ultimately have "length (decimal (n div 10)) \<le> k" using Suc.IH by blast
    with False show ?thesis by (subst decimal.simps) simp
  qed
qed simp

lemma hex2_free [simp]: "CHR '' '' \<notin> set (hex2 b)" "CHR '':'' \<notin> set (hex2 b)" "length (hex2 b) = 2"
proof -
  have "unat b div 16 < 16" "unat b mod 16 < 16" using unat_byte_less [of b] by auto
  then have "digit (unat b div 16) \<notin> {CHR '' '', CHR '':''}" "digit (unat b mod 16) \<notin> {CHR '' '', CHR '':''}"
    using digit_no_space(1,3) by auto
  then show "CHR '' '' \<notin> set (hex2 b)" "CHR '':'' \<notin> set (hex2 b)" "length (hex2 b) = 2" by (auto simp: hex2_def)
qed

lemma dotted_free [simp]: "CHR '' '' \<notin> set (dotted bs)"
  by (induction bs rule: dotted.induct) auto

lemma coloned_free [simp]: "CHR '' '' \<notin> set (coloned bs)"
  by (induction bs rule: coloned.induct) auto

lemma list4: "length bs = 4 \<Longrightarrow> \<exists>a b c d. bs = [a, b, c, d]"
  by (auto simp: eval_nat_numeral length_Suc_conv)

lemma list16: "length bs = 16 \<Longrightarrow> \<exists>a b c d e f g h i j k l m n p q. bs = [a, b, c, d, e, f, g, h, i, j, k, l, m, n, p, q]"
  by (auto simp: eval_nat_numeral length_Suc_conv)

lemma dotted_length:
  assumes "length bs = 4"
  shows "length (dotted bs) \<le> 15"
proof -
  have len: "length (decimal (unat (b :: byte))) \<le> 3" for b using decimal_byte [of "unat b"] unat_byte_less [of b] by simp
  obtain a b c d where "bs = [a, b, c, d]" using list4 [OF assms] by blast
  then show ?thesis using len [of a] len [of b] len [of c] len [of d] by simp
qed

lemma coloned_length: "length bs = 16 \<Longrightarrow> length (coloned bs) = 39"
  by (drule list16) auto

subsection \<open>The interface to the parsers of numbers and addresses\<close>

text \<open>What POSIX says of \<^verbatim>\<open>inet_pton\<close> and PIC of \<^verbatim>\<open>STRTOUI32\<close> for texts in the forms that are printed.\<close>

locale text_services =
  fixes T :: text_ops
  assumes pton4: "length bs = 4 \<Longrightarrow> inet_pton4 T (dotted bs) = Some bs"
    and pton6: "length bs = 16 \<Longrightarrow> inet_pton6 T (coloned bs) = Some bs"
    and pton4_not6: "length bs = 16 \<Longrightarrow> inet_pton4 T (coloned bs) = None"
    and number: "n < 2 ^ 32 \<Longrightarrow> strtoui32 T (decimal n) = Inr n"

lemma strnchr_token: "c \<notin> set tok \<Longrightarrow> strnchr c (tok @ c # rest) = Some (tok, rest)"
  by (auto simp: strnchr_def takeWhile_append dropWhile_append)

lemma loop_token:
  assumes "CHR '' '' \<notin> set tok" "\<not> ln_foundType ln" "candidateToken T tok ln = (STATUS_SUCCESS, ln')"
  shows "candidateLoop T (tok @ CHR '' '' # rest) ln = candidateLoop T rest (ln'\<lparr>ln_state := ln_state ln' + 1\<rparr>)"
  by (subst candidateLoop.simps) (simp add: strnchr_token [OF assms(1)] assms(2,3))

lemma loop_done: "ln_foundType ln \<Longrightarrow> candidateLoop T s ln = (STATUS_SUCCESS, ln)"
  by (subst candidateLoop.simps) (simp split: option.splits prod.splits)

text \<open>The address as the parser leaves it: bytes of an IPv4 address in front of zeros.\<close>

definition parsed_address :: "KvsIpAddress \<Rightarrow> KvsIpAddress" where
  "parsed_address ip =
     \<lparr>family = (if IS_IPV4_ADDR ip then 1 else 2), port = port ip,
      address = (if IS_IPV4_ADDR ip then take 4 (address ip) @ replicate 12 0 else take 16 (address ip)), isPointToPoint = False\<rparr>"

lemma parsed_address_same:
  "length (address ip) = 16 \<Longrightarrow> family ip \<in> {1, 2} \<Longrightarrow> isSameIpAddress (parsed_address ip) ip True \<and> family (parsed_address ip) = family ip"
  by (auto simp: isSameIpAddress_def parsed_address_def IS_IPV4_ADDR_def)

lemma type_token: "typeToken (iceAgentGetCandidateTypeStr t) u = t" "CHR '' '' \<notin> set (iceAgentGetCandidateTypeStr t)"
  by (cases t; simp add: typeToken_def strncmpi_eq_def iceAgentGetCandidateTypeStr_def lower_def Let_def)+


context text_services
begin

lemma address_token:
  assumes "length (address ip) = 16"
  shows "addressToken T (if IS_IPV4_ADDR ip then dotted (take 4 (address ip)) else coloned (take 16 (address ip)))
      (ln\<lparr>ln_ip := zeroAddress\<rparr>) =
    (STATUS_SUCCESS, ln\<lparr>ln_foundIp := True, ln_ip := (parsed_address ip)\<lparr>port := [0, 0]\<rparr>\<rparr>)"
proof (cases "IS_IPV4_ADDR ip")
  case True
  have "take 45 (dotted (take 4 (address ip))) = dotted (take 4 (address ip))" using dotted_length [of "take 4 (address ip)"] assms by simp
  then show ?thesis
    using True assms pton4 [of "take 4 (address ip)"] by (simp add: addressToken_def Let_def zeroAddress_def parsed_address_def)
next
  case False
  have "take 45 (coloned (take 16 (address ip))) = coloned (take 16 (address ip))" using coloned_length [of "take 16 (address ip)"] assms by simp
  then show ?thesis
    using False assms pton6 [of "take 16 (address ip)"] pton4_not6 [of "take 16 (address ip)"]
    by (simp add: addressToken_def Let_def zeroAddress_def parsed_address_def)
qed

text \<open>The loop over the line, token by token.\<close>

lemma parse_line:
  assumes "length (address (cd_ipAddress c)) = 16" "cd_priority c < 2 ^ 32"
  shows "candidateLoop T (candidateLine c p) emptyLine =
    (STATUS_SUCCESS, \<lparr>ln_state = 8, ln_priority = cd_priority c, ln_remoteProtocol = KVS_SOCKET_PROTOCOL_UDP,
       ln_ip = (parsed_address (cd_ipAddress c))\<lparr>port := bytes16 p\<rparr>, ln_foundIp = True, ln_type = cd_type c, ln_foundType = True\<rparr>)"
proof -
  let ?ip = "cd_ipAddress c"
  let ?addr = "if IS_IPV4_ADDR ?ip then dotted (take 4 (address ?ip)) else coloned (take 16 (address ?ip))"
  let ?tail = "(if IS_IPV4_ADDR ?ip then ''raddr 0.0.0.0'' else ''raddr ::/0'') @ '' rport 0 generation 0 network-cost 999''"
  have line: "candidateLine c p =
      decimal (cd_foundation c) @ CHR '' '' # ''1'' @ CHR '' '' # ''udp'' @ CHR '' '' # decimal (cd_priority c) @ CHR '' '' # ?addr @ CHR '' '' #
      decimal (unat p) @ CHR '' '' # ''typ'' @ CHR '' '' # iceAgentGetCandidateTypeStr (cd_type c) @ CHR '' '' # ?tail"
    by (simp add: candidateLine_def)
  have addr: "CHR '' '' \<notin> set ?addr" by simp
  have port: "strtoui32 T (decimal (unat p)) = Inr (unat p)" using number [of "unat p"] unat_u16_less [of p] by simp
  have at: "addressToken T ?addr (emptyLine\<lparr>ln_state := 4, ln_remoteProtocol := KVS_SOCKET_PROTOCOL_UDP, ln_priority := cd_priority c\<rparr>) =
      (STATUS_SUCCESS, emptyLine\<lparr>ln_state := 4, ln_remoteProtocol := KVS_SOCKET_PROTOCOL_UDP, ln_priority := cd_priority c,
         ln_foundIp := True, ln_ip := (parsed_address ?ip)\<lparr>port := [0, 0]\<rparr>\<rparr>)"
    using address_token [OF assms(1), of "emptyLine\<lparr>ln_state := 4, ln_remoteProtocol := KVS_SOCKET_PROTOCOL_UDP, ln_priority := cd_priority c\<rparr>"]
    by (simp add: emptyLine_def)
  define l1 where "l1 = emptyLine\<lparr>ln_state := 1\<rparr>"
  define l2 where "l2 = emptyLine\<lparr>ln_state := 2\<rparr>"
  define l3 where "l3 = emptyLine\<lparr>ln_state := 3, ln_remoteProtocol := KVS_SOCKET_PROTOCOL_UDP\<rparr>"
  define l4 where "l4 = emptyLine\<lparr>ln_state := 4, ln_remoteProtocol := KVS_SOCKET_PROTOCOL_UDP, ln_priority := cd_priority c\<rparr>"
  define l5 where "l5 = emptyLine\<lparr>ln_state := 5, ln_remoteProtocol := KVS_SOCKET_PROTOCOL_UDP, ln_priority := cd_priority c,
         ln_foundIp := True, ln_ip := (parsed_address ?ip)\<lparr>port := [0, 0]\<rparr>\<rparr>"
  define l6 where "l6 = emptyLine\<lparr>ln_state := 6, ln_remoteProtocol := KVS_SOCKET_PROTOCOL_UDP, ln_priority := cd_priority c,
         ln_foundIp := True, ln_ip := (parsed_address ?ip)\<lparr>port := bytes16 p\<rparr>\<rparr>"
  define l7 where "l7 = l6\<lparr>ln_state := 7\<rparr>"
  define l8 where "l8 = l6\<lparr>ln_state := 8, ln_type := cd_type c, ln_foundType := True\<rparr>"
  note defs = l1_def l2_def l3_def l4_def l5_def l6_def l7_def l8_def emptyLine_def
  have t0: "candidateToken T (decimal (cd_foundation c)) emptyLine = (STATUS_SUCCESS, emptyLine)" by (simp add: candidateToken_def emptyLine_def)
  have t1: "candidateToken T ''1'' l1 = (STATUS_SUCCESS, l1)" by (simp add: candidateToken_def defs)
  have t2: "candidateToken T ''udp'' l2 = (STATUS_SUCCESS, l2\<lparr>ln_remoteProtocol := KVS_SOCKET_PROTOCOL_UDP\<rparr>)"
    by (simp add: candidateToken_def defs strncmpi_eq_def lower_def Let_def)
  have t3: "candidateToken T (decimal (cd_priority c)) l3 = (STATUS_SUCCESS, l3\<lparr>ln_priority := cd_priority c\<rparr>)"
    using number [OF assms(2)] by (simp add: candidateToken_def defs)
  have t4: "candidateToken T ?addr l4 = (STATUS_SUCCESS, l5\<lparr>ln_state := 4\<rparr>)"
    using at by (simp add: candidateToken_def defs)
  have t5: "candidateToken T (decimal (unat p)) l5 = (STATUS_SUCCESS, l6\<lparr>ln_state := 5\<rparr>)"
    using port by (simp add: candidateToken_def defs)
  have t6: "candidateToken T ''typ'' l6 = (STATUS_SUCCESS, l6)"
    by (simp add: candidateToken_def defs strncmpi_eq_def lower_def Let_def)
  have t7: "candidateToken T (iceAgentGetCandidateTypeStr (cd_type c)) l7 = (STATUS_SUCCESS, l8\<lparr>ln_state := 7\<rparr>)"
    by (simp add: candidateToken_def type_token(1) defs)
  have s0: "candidateLoop T (decimal (cd_foundation c) @ CHR '' '' # r) emptyLine = candidateLoop T r l1" for r
    using loop_token [OF decimal_free(1) _ t0] by (simp add: defs)
  have s1: "candidateLoop T (''1'' @ CHR '' '' # r) l1 = candidateLoop T r l2" for r
    using loop_token [OF _ _ t1] by (simp add: defs numeral_2_eq_2)
  have s2: "candidateLoop T (''udp'' @ CHR '' '' # r) l2 = candidateLoop T r l3" for r
    using loop_token [OF _ _ t2] by (simp add: defs)
  have s3: "candidateLoop T (decimal (cd_priority c) @ CHR '' '' # r) l3 = candidateLoop T r l4" for r
    using loop_token [OF decimal_free(1) _ t3] by (simp add: defs)
  have s4: "candidateLoop T (?addr @ CHR '' '' # r) l4 = candidateLoop T r l5" for r
    using loop_token [OF addr _ t4] by (simp add: defs)
  have s5: "candidateLoop T (decimal (unat p) @ CHR '' '' # r) l5 = candidateLoop T r l6" for r
    using loop_token [OF decimal_free(1) _ t5] by (simp add: defs)
  have s6: "candidateLoop T (''typ'' @ CHR '' '' # r) l6 = candidateLoop T r l7" for r
    using loop_token [OF _ _ t6] by (simp add: defs)
  have s7: "candidateLoop T (iceAgentGetCandidateTypeStr (cd_type c) @ CHR '' '' # r) l7 = candidateLoop T r l8" for r
    using loop_token [OF type_token(2) _ t7] by (simp add: defs)
  have "candidateLoop T (candidateLine c p) emptyLine = candidateLoop T ?tail l8"
    unfolding line by (simp only: s0 s1 s2 s3 s4 s5 s6 s7)
  also have "\<dots> = (STATUS_SUCCESS, l8)" by (rule loop_done) (simp add: l8_def)
  finally show ?thesis by (simp add: defs parsed_address_def)
qed

end


subsection \<open>Parsers\<close>

definition undecimal :: "string \<Rightarrow> nat" where
  "undecimal s = foldl (\<lambda>n c. 10 * n + undigit c) 0 s"

lemma undecimal_decimal [simp]: "undecimal (decimal n) = n"
proof (induction n rule: decimal.induct)
  case (1 n)
  then show ?case by (subst decimal.simps) (auto simp: undecimal_def)
qed

fun fields :: "char \<Rightarrow> string \<Rightarrow> string list" where
  "fields c [] = [[]]"
| "fields c (x # xs) = (if x = c then [] # fields c xs else (case fields c xs of [] \<Rightarrow> [[x]] | f # fs \<Rightarrow> (x # f) # fs))"

lemma fields_free: "c \<notin> set tok \<Longrightarrow> fields c tok = [tok]"
  by (induction tok) auto

lemma fields_token: "c \<notin> set tok \<Longrightarrow> fields c (tok @ c # rest) = tok # fields c rest"
  by (induction tok) auto

definition unhex :: "string \<Rightarrow> byte list" where
  "unhex f = [word_of_nat (16 * undigit (f ! 0) + undigit (f ! 1)), word_of_nat (16 * undigit (f ! 2) + undigit (f ! 3))]"

lemma unhex_hex2: "unhex (hex2 a @ hex2 b) = [a, b]"
proof -
  have "unat x div 16 < 16" "unat x mod 16 < 16" for x :: byte using unat_byte_less [of x] by auto
  then have "16 * undigit (digit (unat x div 16)) + undigit (digit (unat x mod 16)) = unat x" for x :: byte by simp
  then show ?thesis by (simp add: unhex_def hex2_def)
qed

definition sample_text :: text_ops where
  "sample_text =
     \<lparr>inet_pton4 = (\<lambda>s. let fs = fields CHR ''.'' s in if length fs = 4 then Some (map (\<lambda>f. word_of_nat (undecimal f)) fs) else None),
      inet_pton6 = (\<lambda>s. let fs = fields CHR '':'' s in if length fs = 8 then Some (concat (map unhex fs)) else None),
      strtoui32 = (\<lambda>s. Inr (undecimal s mod 2 ^ 32))\<rparr>"

lemma coloned_dots: "CHR ''.'' \<notin> set (coloned bs)"
proof -
  have "digit d \<noteq> CHR ''.''" if "d < 16" for d
    using that by (auto simp: digit_def simp flip: of_char_eq_iff [where ?'a = nat])
  then have "CHR ''.'' \<notin> set (hex2 b)" for b :: byte
    using unat_byte_less [of b] by (auto simp: hex2_def dest: sym)
  then show ?thesis by (induction bs rule: coloned.induct) auto
qed

lemma coloned_fields:
  assumes "length bs = 16"
  shows "map unhex (fields CHR '':'' (coloned bs)) = map (\<lambda>i. [bs ! (2 * i), bs ! (2 * i + 1)]) [0..<8]"
proof -
  have last: "fields CHR '':'' (hex2 a @ hex2 b) = [hex2 a @ hex2 b]" for a b by (rule fields_free) simp
  have step: "fields CHR '':'' (hex2 a @ hex2 b @ CHR '':'' # r) = (hex2 a @ hex2 b) # fields CHR '':'' r" for a b r
    using fields_token [of "CHR '':''" "hex2 a @ hex2 b" r] by simp
  obtain a b c d e f g h i j k l m n p q where bs: "bs = [a, b, c, d, e, f, g, h, i, j, k, l, m, n, p, q]" using list16 [OF assms] by blast
  have "[0..<8] = [0, 1, 2, 3, 4, 5, 6, 7 :: nat]" by (simp add: upt_rec)
  then show ?thesis by (simp add: bs step last unhex_hex2)
qed

interpretation sample_texts: text_services sample_text
proof
  show "inet_pton4 sample_text (dotted bs) = Some bs" if len: "length bs = 4" for bs
  proof -
    have step: "fields CHR ''.'' (decimal n @ CHR ''.'' # r) = decimal n # fields CHR ''.'' r" for n r by (rule fields_token) simp
    have last: "fields CHR ''.'' (decimal n) = [decimal n]" for n by (rule fields_free) simp
    obtain a b c d where "bs = [a, b, c, d]" using list4 [OF len] by blast
    then show ?thesis by (simp add: sample_text_def step last)
  qed
  show "inet_pton6 sample_text (coloned bs) = Some bs" if len: "length bs = 16" for bs
  proof -
    obtain a b c d e f g h i j k l m n p q where bs: "bs = [a, b, c, d, e, f, g, h, i, j, k, l, m, n, p, q]" using list16 [OF len] by blast
    have "length (fields CHR '':'' (coloned bs)) = 8" using arg_cong [OF coloned_fields [OF len], of length] by simp
    moreover have "concat (map unhex (fields CHR '':'' (coloned bs))) = bs"
      unfolding coloned_fields [OF len] by (simp add: bs upt_rec)
    ultimately show ?thesis by (simp add: sample_text_def Let_def)
  qed
  show "inet_pton4 sample_text (coloned bs) = None" for bs
    using fields_free [OF coloned_dots] by (simp add: sample_text_def)
  show "strtoui32 sample_text (decimal n) = Inr n" if "n < 2 ^ 32" for n
    using that by (simp add: sample_text_def)
qed


subsection \<open>Pairing the new candidate\<close>

text \<open>The agent after new pairs were added: old pairs are untouched, candidates and lists of candidates too.\<close>

definition extends :: "'n IceAgent \<Rightarrow> 'n IceAgent \<Rightarrow> bool" where
  "extends ag ag' \<longleftrightarrow>
     pairs_inv ag' \<and> ia_cands ag' = ia_cands ag \<and> localCandidates ag' = localCandidates ag \<and> remoteCandidates ag' = remoteCandidates ag \<and>
     set (iceCandidatePairs ag) \<subseteq> set (iceCandidatePairs ag') \<and> (\<forall>q \<in> set (iceCandidatePairs ag). ia_pairs ag' q = ia_pairs ag q)"

lemma extends_trans: "extends a b \<Longrightarrow> extends b c \<Longrightarrow> extends a c"
  by (auto simp: extends_def)

lemma insertRef_defined: "\<forall>q \<in> set qs. mem q \<noteq> None \<Longrightarrow> \<exists>rs. insertRef mem prio r qs = Some rs \<and> set rs = insert r (set qs)"
  by (induction qs) auto

definition paired :: "nat \<Rightarrow> nat \<Rightarrow> 'n IceAgent \<Rightarrow> bool" where
  "paired l r ag \<longleftrightarrow> (\<exists>q \<in> set (iceCandidatePairs ag). \<exists>p. ia_pairs ag q = Some p \<and> cp_local p = l \<and> cp_remote p = r)"

lemma newPair_ok:
  assumes "pairs_inv ag" "\<And>n. memalloc P n" "ia_cands ag l \<noteq> None" "ia_cands ag r \<noteq> None"
  shows "\<exists>ag'. newPair P n l r ag = Some (STATUS_SUCCESS, ag') \<and> extends ag ag' \<and> paired l r ag'"
proof -
  obtain ids where ids: "createTransactionIdStore P 20 = (STATUS_SUCCESS, ids)" using assms(2) by (auto simp: createTransactionIdStore_def)
  obtain lc rc where c: "ia_cands ag l = Some lc" "ia_cands ag r = Some rc" using assms(3,4) by blast
  let ?p = "\<lparr>cp_local = l, cp_remote = r, cp_nominated = False, cp_firstStunRequest = True,
     cp_priority = computeCandidatePairPriority (cd_priority lc) (cd_priority rc) (isControlling ag),
     cp_state = ICE_CANDIDATE_PAIR_STATE_WAITING, cp_ids = ids, cp_lastDataSentTime = 0,
     cp_requestSentTime = (\<lambda>_. None), cp_roundTripTime = 0\<rparr>"
  let ?mem = "(ia_pairs ag)(ia_next ag \<mapsto> ?p)"
  have "\<forall>q \<in> set (iceCandidatePairs ag). ?mem q \<noteq> None" using assms(1) by (auto simp: pairs_inv_def)
  then obtain rs where rs: "insertRef ?mem (cp_priority ?p) (ia_next ag) (iceCandidatePairs ag) = Some rs" "set rs = insert (ia_next ag) (set (iceCandidatePairs ag))"
    using insertRef_defined by blast
  let ?ag = "ag\<lparr>ia_pairs := ?mem, ia_next := ia_next ag + 1, iceCandidatePairs := rs\<rparr>"
  have run: "newPair P n l r ag = Some (STATUS_SUCCESS, ?ag)"
    using assms(2) ids c rs(1) by (simp add: newPair_def insertIceCandidatePair_def Let_def)
  have "pairs_inv ?ag" using newPair_keeps [OF run] assms(1) by (simp add: keeps_def)
  moreover have "ia_next ag \<notin> set (iceCandidatePairs ag)" using assms(1) by (auto simp: pairs_inv_def)
  ultimately have "extends ag ?ag" using rs(2) by (auto simp: extends_def)
  moreover have "paired l r ?ag" using rs(2) by (simp add: paired_def)
  ultimately show ?thesis using run by blast
qed

lemma paired_extends: "paired l r ag \<Longrightarrow> extends ag ag' \<Longrightarrow> paired l r ag'"
  unfolding paired_def extends_def by (metis subsetD)

definition pairable :: "'n IceAgent \<Rightarrow> nat \<Rightarrow> nat \<Rightarrow> bool" where
  "pairable ag l r \<longleftrightarrow> (\<exists>lc rc. ia_cands ag l = Some lc \<and> ia_cands ag r = Some rc \<and>
     cd_state lc = ICE_CANDIDATE_STATE_VALID \<and> family (cd_ipAddress lc) = family (cd_ipAddress rc))"

lemma pairWithEach_ok:
  assumes "\<And>n. memalloc P n" "pairs_inv ag" "ia_cands ag r \<noteq> None" "\<forall>d \<in> set ds. ia_cands ag d \<noteq> None"
  shows "\<exists>ag'. pairWithEach P n r True ds ag = Some (STATUS_SUCCESS, ag') \<and> extends ag ag' \<and> (\<forall>d \<in> set ds. pairable ag d r \<longrightarrow> paired d r ag')"
  using assms(2-4)
proof (induction ds arbitrary: ag)
  case Nil
  then show ?case by (simp add: extends_def)
next
  case (Cons d ds)
  obtain rc dc where c: "ia_cands ag r = Some rc" "ia_cands ag d = Some dc" using Cons.prems by auto
  show ?case
  proof (cases "cd_state dc = ICE_CANDIDATE_STATE_VALID \<and> family (cd_ipAddress dc) = family (cd_ipAddress rc)")
    case True
    obtain ag1 where ag1: "newPair P n d r ag = Some (STATUS_SUCCESS, ag1)" "extends ag ag1" "paired d r ag1"
      using newPair_ok [OF Cons.prems(1) assms(1), of d r n] c by auto
    then have "pairs_inv ag1" "ia_cands ag1 = ia_cands ag" by (auto simp: extends_def)
    with Cons.IH [of ag1] Cons.prems obtain ag' where ag': "pairWithEach P n r True ds ag1 = Some (STATUS_SUCCESS, ag')" "extends ag1 ag'"
      "\<forall>d \<in> set ds. pairable ag d r \<longrightarrow> paired d r ag'" by (auto simp: pairable_def)
    have "pairWithEach P n r True (d # ds) ag = Some (STATUS_SUCCESS, ag')" using c True ag1(1) ag'(1) by simp
    then show ?thesis using ag1 ag' by (auto intro: extends_trans paired_extends)
  next
    case False
    with Cons.IH [of ag] Cons.prems c show ?thesis by (auto simp: pairable_def)
  qed
qed

lemma tellTurn_ok:
  assumes "\<And>t ip w. fst (ie_turnConnectionAddPeer E t ip w) = STATUS_SUCCESS"
    and "\<forall>l \<in> set ls. \<exists>c. ia_cands ag l = Some c \<and> (cd_type c = ICE_CANDIDATE_TYPE_RELAYED \<longrightarrow> cd_turn c \<noteq> None)"
  shows "\<exists>w. chkAll (map (tellTurn E ip) ls) ag = Some (STATUS_SUCCESS, ag\<lparr>ia_world := w\<rparr>)"
  using assms(2)
proof (induction ls arbitrary: ag)
  case Nil
  then show ?case by (intro exI [of _ "ia_world ag"]) simp
next
  case (Cons l ls)
  then obtain c where c: "ia_cands ag l = Some c" "cd_type c = ICE_CANDIDATE_TYPE_RELAYED \<longrightarrow> cd_turn c \<noteq> None" by auto
  have "\<exists>w. tellTurn E ip l ag = Some (STATUS_SUCCESS, ag\<lparr>ia_world := w\<rparr>)"
  proof (cases "cd_type c = ICE_CANDIDATE_TYPE_RELAYED \<and> family ip = 1")
    case True
    obtain st w where w: "ie_turnConnectionAddPeer E (cd_turn c) ip (ia_world ag) = (st, w)" by fastforce
    with assms(1) [of "cd_turn c" ip "ia_world ag"] True c show ?thesis by (auto simp: tellTurn_def outside_def)
  next
    case False
    then have "tellTurn E ip l ag = Some (STATUS_SUCCESS, ag)" using c by (auto simp: tellTurn_def)
    then show ?thesis by (intro exI [of _ "ia_world ag"]) simp
  qed
  then obtain w where w: "tellTurn E ip l ag = Some (STATUS_SUCCESS, ag\<lparr>ia_world := w\<rparr>)" by blast
  have "\<forall>l \<in> set ls. \<exists>c. ia_cands (ag\<lparr>ia_world := w\<rparr>) l = Some c \<and> (cd_type c = ICE_CANDIDATE_TYPE_RELAYED \<longrightarrow> cd_turn c \<noteq> None)"
    using Cons.prems by simp
  from Cons.IH [OF this] obtain w' where
    "chkAll (map (tellTurn E ip) ls) (ag\<lparr>ia_world := w\<rparr>) = Some (STATUS_SUCCESS, ag\<lparr>ia_world := w\<rparr>\<lparr>ia_world := w'\<rparr>)" by blast
  then have "chkAll (map (tellTurn E ip) (l # ls)) ag = Some (STATUS_SUCCESS, ag\<lparr>ia_world := w'\<rparr>)" using w by simp
  then show ?case by blast
qed

lemma extends_world: "extends a b \<Longrightarrow> extends a (b\<lparr>ia_world := w\<rparr>)"
  by (auto simp: extends_def pairs_inv_def pair_prio_def)

lemma paired_world [simp]: "paired l r (b\<lparr>ia_world := w\<rparr>) = paired l r b"
  by (simp add: paired_def)

lemma addRemote_ok:
  assumes inv: "pairs_inv ag" and mem: "\<And>n. memalloc (stun_platform (ie_stun E)) n"
    and peers: "\<And>t ip w. fst (ie_turnConnectionAddPeer E t ip w) = STATUS_SUCCESS"
    and locals: "\<forall>l \<in> set (localCandidates ag). \<exists>c. ia_cands ag l = Some c \<and> (cd_type c = ICE_CANDIDATE_TYPE_RELAYED \<longrightarrow> cd_turn c \<noteq> None)"
  shows "\<exists>ag' c. addRemote E ln ag = Some (STATUS_SUCCESS, ag') \<and> remoteCandidates ag' = ia_next ag # remoteCandidates ag \<and>
    ia_cands ag' (ia_next ag) = Some c \<and> cd_type c = ln_type ln \<and> cd_ipAddress c = ln_ip ln \<and> cd_priority c = ln_priority ln \<and>
    cd_isRemote c \<and> cd_state c = ICE_CANDIDATE_STATE_VALID \<and> pairs_inv ag' \<and>
    (\<forall>l \<in> set (localCandidates ag). \<forall>lc. ia_cands ag l = Some lc \<and> cd_state lc = ICE_CANDIDATE_STATE_VALID \<and>
       family (cd_ipAddress lc) = family (ln_ip ln) \<longrightarrow> paired l (ia_next ag) ag')"
proof -
  let ?r = "ia_next ag"
  define c where "c = \<lparr>cd_type = ln_type ln, cd_isRemote = True, cd_ipAddress = ln_ip ln, cd_socket = None, cd_state = ICE_CANDIDATE_STATE_VALID,
               cd_priority = ln_priority ln, cd_iceServerIndex = 0, cd_foundation = 0, cd_turn = None, cd_reported = False,
               cd_remoteProtocol = ln_remoteProtocol ln\<rparr>"
  define b where "b = ag\<lparr>ia_cands := (ia_cands ag)(?r \<mapsto> c), ia_next := ?r + 1, remoteCandidates := ?r # remoteCandidates ag\<rparr>"
  have new: "ia_cands ag ?r = None" using inv by (auto simp: pairs_inv_def)
  have b: "pairs_inv b" "ia_cands b ?r = Some c" "localCandidates b = localCandidates ag"
    using inv new_candidate_keeps(1) [where ag = ag and c = c and rs = "?r # remoteCandidates ag"] by (auto simp: b_def keeps_def)
  have old: "ia_cands b l = ia_cands ag l" if "l \<in> set (localCandidates ag)" for l
    using that locals new by (auto simp: b_def)
  obtain d where d: "pairWithEach (stun_platform (ie_stun E)) (ie_sizeofPair E) ?r True (localCandidates b) b = Some (STATUS_SUCCESS, d)"
    "extends b d" "\<forall>l \<in> set (localCandidates b). pairable b l ?r \<longrightarrow> paired l ?r d"
    using pairWithEach_ok [OF mem b(1), of ?r "localCandidates b" "ie_sizeofPair E"] b(2,3) locals old by fastforce
  then have create: "createIceCandidatePairs (stun_platform (ie_stun E)) (ie_sizeofPair E) ?r True b = Some (STATUS_SUCCESS, d)"
    using b(2) by (simp add: createIceCandidatePairs_def c_def)
  have dl: "localCandidates d = localCandidates ag" "ia_cands d = ia_cands b" using d(2) b(3) by (auto simp: extends_def)
  obtain w where "chkAll (map (tellTurn E (ln_ip ln)) (localCandidates d)) d = Some (STATUS_SUCCESS, d\<lparr>ia_world := w\<rparr>)"
    using tellTurn_ok [OF peers, of "localCandidates d" d "ln_ip ln"] locals old dl by fastforce
  then have "addRemote E ln ag = Some (STATUS_SUCCESS, d\<lparr>ia_world := w\<rparr>)"
    using create by (simp add: addRemote_def Let_def b_def c_def)
  moreover have "extends b (d\<lparr>ia_world := w\<rparr>)" using d(2) by (rule extends_world)
  moreover have "paired l ?r d" if "l \<in> set (localCandidates ag)" "ia_cands ag l = Some lc" "cd_state lc = ICE_CANDIDATE_STATE_VALID"
      "family (cd_ipAddress lc) = family (ln_ip ln)" for l lc
    using d(3) that old b(2,3) by (auto simp: pairable_def c_def)
  ultimately show ?thesis
    using b(2) by (intro exI [of _ "d\<lparr>ia_world := w\<rparr>"] exI [of _ c]) (auto simp: extends_def c_def b_def)
qed


subsection \<open>From agent to agent\<close>

lemma candidateLine_length:
  assumes "length (address (cd_ipAddress c)) = 16" "cd_priority c < 2 ^ 32" "cd_foundation c < 2 ^ 32"
  shows "length (candidateLine c p) < 512"
proof -
  have "length (decimal (cd_priority c)) \<le> 10" "length (decimal (cd_foundation c)) \<le> 10" "length (decimal (unat p)) \<le> 5"
    using assms(2,3) unat_u16_less [of p] by (auto intro!: decimal_word)
  moreover have "length (dotted (take 4 (address (cd_ipAddress c)))) \<le> 15" "length (coloned (take 16 (address (cd_ipAddress c)))) = 39"
    using dotted_length [of "take 4 (address (cd_ipAddress c))"] coloned_length [of "take 16 (address (cd_ipAddress c))"] assms(1) by auto
  moreover have "length (iceAgentGetCandidateTypeStr (cd_type c)) \<le> 5" by (cases "cd_type c") (auto simp: iceAgentGetCandidateTypeStr_def)
  ultimately show ?thesis unfolding candidateLine_def by simp
qed

lemma findRef_none: "\<forall>r \<in> set rs. \<exists>d. mem r = Some d \<and> f d = Some False \<Longrightarrow> findRef f mem rs = Some None"
  by (induction rs) auto

lemma same_address_trans: "isSameIpAddress a b True \<Longrightarrow> isSameIpAddress a d True \<Longrightarrow> isSameIpAddress b d True"
  by (auto simp: isSameIpAddress_def IS_IPV4_ADDR_def Let_def)

text \<open>A candidate as the agents hold it, in the ranges of its C types.\<close>

definition candidate_ok :: "IceCandidate \<Rightarrow> bool" where
  "candidate_ok c \<longleftrightarrow> family (cd_ipAddress c) \<in> {1, 2} \<and> length (address (cd_ipAddress c)) = 16 \<and> length (port (cd_ipAddress c)) = 2 \<and>
     cd_priority c < 2 ^ 32 \<and> cd_foundation c < 2 ^ 32"

text \<open>A receiver that has room for the candidate, does not know it yet, and whose services work.\<close>

definition receptive :: "'n ice_env \<Rightarrow> IceCandidate \<Rightarrow> 'n IceAgent \<Rightarrow> bool" where
  "receptive E c ag \<longleftrightarrow> pairs_inv ag \<and> length (remoteCandidates ag) < 100 \<and>
     (\<forall>r \<in> set (remoteCandidates ag). \<exists>d. ia_cands ag r = Some d \<and> \<not> isSameIpAddress (cd_ipAddress c) (cd_ipAddress d) True) \<and>
     (\<forall>l \<in> set (localCandidates ag). \<exists>d. ia_cands ag l = Some d \<and> (cd_type d = ICE_CANDIDATE_TYPE_RELAYED \<longrightarrow> cd_turn d \<noteq> None)) \<and>
     (\<forall>n. memalloc (stun_platform (ie_stun E)) n) \<and> (\<forall>t ip w. fst (ie_turnConnectionAddPeer E t ip w) = STATUS_SUCCESS)"

text \<open>
  C40.  A candidate on its way to the peer.  The line that an agent hands to its application for a local
  candidate fits the buffer and, given to the peer's \<^verbatim>\<open>iceAgentAddRemoteCandidate\<close>, makes the peer
  prepend a remote candidate of the same type, the same priority and the same address and port, and pair
  it with every valid local candidate of its address family; the list of pairs stays sorted.
\<close>

theorem candidate_line_understood:
  assumes texts: "text_services T" and order: "network_order (stun_platform (ie_stun E))"
    and c: "candidate_ok c" and sender: "hasNewLocalCandidateFn sa" "\<not> candidateGatheringFinished sa"
    and receiver: "receptive F c ag"
  shows "\<exists>line ag' d.
    iceAgentReportNewLocalCandidate E c sa = Some (STATUS_SUCCESS, sa\<lparr>newCandidates := newCandidates sa @ [Some line]\<rparr>) \<and>
    iceAgentAddRemoteCandidate F T (Some line) ag = Some (STATUS_SUCCESS, ag') \<and>
    remoteCandidates ag' = ia_next ag # remoteCandidates ag \<and> ia_cands ag' (ia_next ag) = Some d \<and>
    cd_type d = cd_type c \<and> cd_priority d = cd_priority c \<and> isSameIpAddress (cd_ipAddress d) (cd_ipAddress c) True \<and>
    cd_isRemote d \<and> cd_state d = ICE_CANDIDATE_STATE_VALID \<and> pairs_inv ag' \<and>
    (\<forall>l \<in> set (localCandidates ag). \<forall>lc. ia_cands ag l = Some lc \<and> cd_state lc = ICE_CANDIDATE_STATE_VALID \<and>
       family (cd_ipAddress lc) = family (cd_ipAddress c) \<longrightarrow> paired l (ia_next ag) ag')"
proof -
  let ?ip = "cd_ipAddress c"
  obtain x y where port: "port ?ip = [x, y]" using c by (auto simp: candidate_ok_def length_Suc_conv numeral_2_eq_2)
  let ?line = "candidateLine c (be16 x y)"
  have "rdInt16 (stun_platform (ie_stun E)) (port ?ip) 0 = Some (be16 x y)" using network_order.rdInt16_eq [OF order] port by simp
  then have "iceCandidateSerialize (stun_platform (ie_stun E)) c True 512 = Some (STATUS_SUCCESS, ?line, 512)"
    using candidateLine_length c by (simp add: iceCandidateSerialize_def candidate_ok_def)
  then have told: "iceAgentReportNewLocalCandidate E c sa = Some (STATUS_SUCCESS, sa\<lparr>newCandidates := newCandidates sa @ [Some ?line]\<rparr>)"
    using sender by (simp add: iceAgentReportNewLocalCandidate_def)
  define ln where "ln = \<lparr>ln_state = 8, ln_priority = cd_priority c, ln_remoteProtocol = KVS_SOCKET_PROTOCOL_UDP, ln_ip = parsed_address ?ip,
    ln_foundIp = True, ln_type = cd_type c, ln_foundType = True\<rparr>"
  have same: "isSameIpAddress (parsed_address ?ip) ?ip True" "family (parsed_address ?ip) = family ?ip"
    using parsed_address_same c by (auto simp: candidate_ok_def)
  have "(parsed_address ?ip)\<lparr>port := bytes16 (be16 x y)\<rparr> = parsed_address ?ip" using port by (simp add: parsed_address_def)
  then have parse: "candidateLoop T ?line emptyLine = (STATUS_SUCCESS, ln)"
    using text_services.parse_line [OF texts, of c "be16 x y"] c by (simp add: ln_def candidate_ok_def)
  have "\<forall>r \<in> set (remoteCandidates ag). \<exists>d. ia_cands ag r = Some d \<and> \<not> isSameIpAddress (parsed_address ?ip) (cd_ipAddress d) True"
    using receiver same_address_trans [OF same(1)] unfolding receptive_def by blast
  then have "findCandidateWithIp (ia_cands ag) (parsed_address ?ip) (remoteCandidates ag) = Some None"
    unfolding findCandidateWithIp_def by (intro findRef_none) simp
  moreover have "?line \<noteq> []" by (simp add: candidateLine_def)
  ultimately have add: "iceAgentAddRemoteCandidate F T (Some ?line) ag = addRemote F ln ag"
    using parse receiver by (simp add: iceAgentAddRemoteCandidate_def receptive_def ln_def)
  obtain ag' d where "addRemote F ln ag = Some (STATUS_SUCCESS, ag')" "remoteCandidates ag' = ia_next ag # remoteCandidates ag"
    "ia_cands ag' (ia_next ag) = Some d" "cd_type d = ln_type ln" "cd_ipAddress d = ln_ip ln" "cd_priority d = ln_priority ln" "cd_isRemote d"
    "cd_state d = ICE_CANDIDATE_STATE_VALID" "pairs_inv ag'"
    "\<forall>l \<in> set (localCandidates ag). \<forall>lc. ia_cands ag l = Some lc \<and> cd_state lc = ICE_CANDIDATE_STATE_VALID \<and>
       family (cd_ipAddress lc) = family (ln_ip ln) \<longrightarrow> paired l (ia_next ag) ag'"
    using addRemote_ok [of ag F ln] receiver unfolding receptive_def by blast
  then show ?thesis using told add same by (intro exI [of _ ?line] exI [of _ ag'] exI [of _ d]) (simp add: ln_def)
qed

definition sample_candidate :: IceCandidate where
  "sample_candidate = localCandidate ICE_CANDIDATE_TYPE_SERVER_REFLEXIVE ICE_CANDIDATE_STATE_VALID
     \<lparr>family = 1, port = [0x1F, 0x90], address = [10, 0, 0, 1, 0, 0, 0, 0, 0, 0, 0, 0, 0, 0, 0, 0], isPointToPoint = False\<rparr> (Some 3) 0 17 None"

definition sample_receiver :: "nat IceAgent" where
  "sample_receiver = insertLocal (sample_candidate\<lparr>cd_type := ICE_CANDIDATE_TYPE_HOST\<rparr>) ice_sample_agent"

theorem candidate_line_understood_witness:
  "\<exists>line ag'. iceAgentAddRemoteCandidate ice_sample_env sample_text (Some line) sample_receiver = Some (STATUS_SUCCESS, ag') \<and>
     paired 0 1 ag' \<and> candidate_ok sample_candidate \<and> receptive ice_sample_env sample_candidate sample_receiver"
proof -
  have c: "candidate_ok sample_candidate"
    by (simp add: candidate_ok_def sample_candidate_def localCandidate_def computeCandidatePriority_def wrap32_def typePreference_def)
  have r: "receptive ice_sample_env sample_candidate sample_receiver"
    by (simp add: receptive_def sample_receiver_def insertLocal_def ice_sample_agent_def ice_sample_env_def pairs_inv_def sample_candidate_def
        localCandidate_def sample_stun_def little_endian_host_def)
  have "network_order (stun_platform (ie_stun ice_sample_env))" using le_host.network_order_axioms by (simp add: ice_sample_env_def sample_stun_def)
  from candidate_line_understood [OF sample_texts.text_services_axioms this c _ _ r, of ice_sample_agent]
  show ?thesis using c r
    by (auto simp: ice_sample_agent_def sample_receiver_def insertLocal_def sample_candidate_def localCandidate_def)
qed

end
