(* ===== verification/Spec2Isabelle.thy ===== *)
theory Spec2Isabelle
  imports RtpRollingBuffer SlicePayloaders H264Payloader H265Payloader RtcpPacket IOBuffer InOrderDelivery TwccHistory RtcpDispatch
    StunIntegrity StunConstruction IceSelection IceCandidateLine
begin

text \<open>
  A verification development for the Amazon Kinesis Video Streams WebRTC SDK in C
  (\<^verbatim>\<open>src/src/source\<close>; paths below are relative to it).

  \<^bold>\<open>The program.\<close>  A peer connection sends and receives media.  A frame of the application goes through
  \<^verbatim>\<open>writeFrame\<close> (\<^verbatim>\<open>PeerConnection/Rtp.c\<close>): the payloader of its codec (\<^verbatim>\<open>Rtp/Codecs\<close>) cuts it into payloads,
  \<^verbatim>\<open>Rtp/RtpPacket.c\<close> wraps them into RTP packets, these are remembered for retransmission
  (\<^verbatim>\<open>Rtcp/RollingBuffer.c\<close>, \<^verbatim>\<open>Rtcp/RtpRollingBuffer.c\<close>) and for congestion control, sealed by SRTP
  (\<^verbatim>\<open>Srtp/SrtpSession.c\<close>) and given to the ICE agent.  In the other direction packets are opened, parsed,
  reordered by the jitter buffer (\<^verbatim>\<open>PeerConnection/JitterBuffer.c\<close>) and handed to the application as frames
  (\<^verbatim>\<open>PeerConnection/PeerConnection.c\<close>).  RTCP messages of the peer (\<^verbatim>\<open>PeerConnection/Rtcp.c\<close>,
  \<^verbatim>\<open>Rtcp/RtcpPacket.c\<close>) ask for packets again (\<^verbatim>\<open>PeerConnection/Retransmitter.c\<close>) or report on their arrival.
  The ICE agent (\<^verbatim>\<open>Ice/IceAgent.c\<close>, \<^verbatim>\<open>Ice/IceAgentStateMachine.c\<close>, \<^verbatim>\<open>Ice/IceUtils.c\<close>) finds the pair of addresses
  over which all this travels: it gathers candidates, exchanges them with the peer, checks pairs with
  STUN messages (\<^verbatim>\<open>Stun/Stun.c\<close>), nominates one and watches over it.

  \<^bold>\<open>Conventions.\<close>  The prelude \<open>KvsPrelude\<close> has the shared vocabulary.  A byte is an \<open>8 word\<close>, \<open>u16\<close>, \<open>u32\<close> and
  \<open>u64\<close> are words; where the code computes with lengths and indices the type is \<open>nat\<close> with \<open>wrap16\<close>,
  \<open>wrap32\<close>, \<open>wrap64\<close> written out wherever the C type can wrap.  A buffer is a list of bytes; \<open>rd\<close>, \<open>rdn\<close> and \<open>wr\<close> are
  checked accesses whose \<open>None\<close> is undefined behaviour of C (an access outside the buffer, a dangling
  pointer, an undefined shift), so that a theorem with a result \<open>Some\<close> also says that the code is safe
  there.  A \<open>STATUS\<close> is the constructor of that name; an early return \<^verbatim>\<open>CHK(..., status)\<close> is a branch that
  returns it.  A NULL pointer is \<open>None\<close> of an option in argument position.  Objects that several lists
  point to are entries of a map from references (ICE candidates and pairs).  A lock is held around
  each modelled function, so one call is one step; log messages and profiling are left out.  Every
  struct is a record, every enum a datatype, every function a definition of its name; loops and long
  branches of a function are definitions of their own beside it.

  \<^bold>\<open>Code outside the repository\<close> is a parameter with a locale for what is relied on: the byte-order
  functions of the common library PIC (\<open>platform\<close>, locale \<open>network_order\<close>, interpreted for little- and
  big-endian hosts), its hash table (\<open>hash_ops\<close>, locale \<open>hash_table\<close>, interpreted by chained buckets), its
  state machine (locale \<open>state_machine\<close>, interpreted for the ICE agent in every environment), libsrtp, the
  network and the clock (locale \<open>media_transport\<close>), HMAC-SHA1, CRC32 and 64-bit conversions (\<open>stun_ops\<close>,
  locales \<open>stun_services\<close> and \<open>stun_layout\<close>), \<^verbatim>\<open>inet_pton\<close> and \<^verbatim>\<open>STRTOUI32\<close> (\<open>text_ops\<close>, locale \<open>text_services\<close>), memory
  allocation (any predicate), the random source, timers, sockets and TURN connections (\<open>ice_env\<close>).

  \<^bold>\<open>Theories.\<close>

  \<^item> \<open>RollingBuffer\<close>: \<^verbatim>\<open>Rtcp/RollingBuffer.c\<close>, a ring with 64-bit indices.  The locale \<open>sliding_window\<close> is its
    contract; any run of appends refines a first-in-first-out window whose old items are freed once
    (C1), and extraction returns exactly the items of the window (C2).
  \<^item> \<open>RtpPacket\<close>: parser, serialiser and RTX packets of \<^verbatim>\<open>Rtp/RtpPacket.c\<close>.  Round trips (C3, C4), the RFC 4588
    packet (C5), the unchecked extension (C6), CSRC bytes on little-endian hosts (C7), packets of a
    frame (C8).
  \<^item> \<open>RtpRollingBuffer\<close>: the buffer of sent packets.  NACK look-ups agree with a window of 2 to 65536 packets
    (C9); packets numbered from 0 are found while they are in the window, and C10 also says what a buffer with
    a single packet answers.
  \<^item> \<open>RtpPayloader\<close>, \<open>SlicePayloaders\<close>, \<open>NaluPayloader\<close>, \<open>H264Payloader\<close>, \<open>H265Payloader\<close>: the codecs.  The contract
    of a payloader and of a codec are the locales \<open>rtp_payloader\<close>, \<open>mtu_payloader\<close>, \<open>rtp_codec\<close>; \<open>nalu_codec\<close>
    gives the latter for both video codecs.  Payloads depacketise to the frame within the MTU (C11,
    C13, C14); the start-code search agrees with the linear one (C12).
  \<^item> \<open>RtcpPacket\<close>: headers, NACK lists (C15; C16 is the one entry written behind a list that is too short), REMB
    (C17), NTP times (C18).
  \<^item> \<open>IOBuffer\<close>: the buffer under TLS; locale \<open>byte_stream\<close>, a queue of bytes (C19).
  \<^item> \<open>HashTable\<close>, \<open>SequenceNumbers\<close>, \<open>JitterBuffer\<close>, \<open>FrameAssembly\<close>, \<open>RtpReceiver\<close>, \<open>InOrderDelivery\<close>: the receiving
    side.  Every frame handed to the application is made of received packets with consecutive
    numbers and one time stamp (C20); streams in order are delivered (C21).
  \<^item> \<open>Twcc\<close>, \<open>TwccReports\<close>, \<open>TwccHistory\<close>: congestion control.  A report of run-length chunks changes exactly the
    packets it names, but for those with the delta \<open>0x8000\<close>, which it overlooks (C22); after any sequence of sent
    packets and reports the table holds the packets of the last second that no report has marked as received
    (C23); the counts and the interval of the statistics, with the case of a report that begins with number 0
    (C24); the misread status vectors (C25).
  \<^item> \<open>DoubleArithmetic\<close>, \<open>MediaTransport\<close>, \<open>RtpSender\<close>, \<open>SenderPath\<close>: the sending side with binary64 arithmetic as
    rounded rationals.  What \<^verbatim>\<open>writeFrame\<close> puts on the network (C26), RTP time stamps (C27).
  \<^item> \<open>Retransmission\<close>, \<open>RtcpDispatch\<close>: the answer to a NACK during the first 65536 packets, for numbers inside and
    outside the window (C28; \<open>put_back\<close> says where the packets end up), its limit after 65536 packets (C29), and
    the loop over a compound RTCP packet, which ends (C30; fuel above a quarter of the buffer length
    is enough for every input).
  \<^item> \<open>TransactionIds\<close>: the ring of transaction ids (C31).
  \<^item> \<open>Stun\<close>, \<open>StunBuilder\<close>, \<open>StunParser\<close>, \<open>StunWire\<close>, \<open>StunRoundTrip\<close>, \<open>StunConstruction\<close>, \<open>StunIntegrity\<close>: the STUN packet in
    memory and on the wire.  Round trip with integrity and fingerprint on little-endian hosts, for the attributes
    both sides handle, with the four ways in which one changes on the way (C32), packets built by the API are
    well-formed up to the twenty-first attribute, which overwrites the first (C33), what the check values of a parsed
    packet guarantee (C34) and how unknown attributes hide them (C35).
  \<^item> \<open>IceCandidates\<close>, \<open>IceAgent\<close>, \<open>IceIncoming\<close>, \<open>IceGathering\<close>, \<open>IceLifecycle\<close>, \<open>IceStateMachine\<close>: the ICE agent.  An operation
    maps the agent to a status and the new agent (\<open>ice_action\<close>); \<open>chkAll\<close> is a sequence of \<^verbatim>\<open>CHK_STATUS\<close>.
  \<^item> \<open>IceInvariants\<close>, \<open>IceReachable\<close>, \<open>IceMachineSafety\<close>: the invariant of the pairs and its preservation by every
    operation, through the locale \<open>step_closed\<close> (relations closed under sequences of steps) and the rules
    \<open>keeping_rules\<close>; the inductive relation \<open>ice_call\<close> has one rule for every call from outside.
  \<^item> \<open>IceProperties\<close>, \<open>IceSelection\<close>, \<open>IceCandidateLine\<close>: priorities that both agents agree on (C36), sorted pairs in
    every reachable agent (C37), the best pair carries the data (C38), the driver of the state
    machine (C39; six rounds of fuel are enough, because the rank of the state grows with every
    round but the last), and the candidate line between two agents (C40).

  \<^bold>\<open>Not modelled.\<close>  TURN connections, sockets, the connection listener and name resolution (system
  calls, threads; parameters of the ICE agent); SDP text and session descriptions; the creation of
  the peer connection and of the ICE agent (the fresh agent is the predicate \<open>created\<close>), their
  destruction; data channels over usrsctp; DTLS and TLS over OpenSSL and mbedTLS; the signaling client
  over libwebsockets; the QUIC transport over ngtcp2; statistics reports.  They are input and output
  around libraries that are not part of the repository, or text formatting.  Of the ICE agent the
  statistics are switched off: the pointers to diagnostics are NULL, as they are when the SDK is
  built with the control of statistics and the configuration turns them off, and clock readings
  that only feed statistics are left out.  Concurrency is at the granularity of the locks.
\<close>

end
